(* ===== verification/Js_Prelude.thy ===== *)
theory Js_Prelude
  imports Complex_Main "HOL-Library.Multiset"
begin

text \<open>
  Shared vocabulary of the development: what the modelled TypeScript uses of the language and
  of its standard library, and the generic lemmas the component theories share.

  \<^item> Numbers. A finite JavaScript number is a rational (\<open>rat\<close>), so sums, products and
    quotients are exact; the rounding of IEEE doubles is not modelled, except where the code asks
    for it (\<open>Math.round\<close>, \<open>Math.floor\<close>, \<open>Math.trunc\<close>). \<open>NaN\<close> and the two infinities are
    the single value \<open>NonFinite\<close>: the modelled code only ever separates them from the
    finite numbers with \<open>Number.isFinite\<close>. Instants are milliseconds since the epoch.
  \<^item> Strings are lists of code units up to 255 (\<open>string\<close>); \<open>trim\<close> and \<open>toLowerCase\<close> are
    written out on that range.
  \<^item> \<open>Array.from(new Set(xs))\<close> keeps the first occurrence of each element (\<open>js_uniq\<close>);
    \<open>Array.prototype.sort\<close> is the stable sort for a comparator (\<open>js_sort\<close>).
  \<^item> \<open>reachable\<close> is the set of states a step relation reaches; the locale \<open>step_invariant\<close>
    carries an invariant from single steps to every reachable state.
\<close>

named_theorems js_num \<open>unfolding of the numeric helpers\<close>
named_theorems js_str \<open>unfolding of the string helpers\<close>
named_theorems js_list \<open>facts about de-duplicated and sorted lists\<close>

section \<open>Numbers\<close>

datatype jsnum = Fin rat | NonFinite

fun isFinite :: "jsnum \<Rightarrow> bool" where
  "isFinite (Fin _) = True"
| "isFinite NonFinite = False"

fun finite_or :: "jsnum \<Rightarrow> rat \<Rightarrow> rat" where
  "finite_or (Fin x) _ = x"
| "finite_or NonFinite d = d"

definition math_round :: "rat \<Rightarrow> int" where
  "math_round x = \<lfloor>x + 1 / 2\<rfloor>"

definition math_trunc :: "rat \<Rightarrow> int" where
  "math_trunc x = (if 0 \<le> x then \<lfloor>x\<rfloor> else \<lceil>x\<rceil>)"

definition clamp :: "rat \<Rightarrow> rat \<Rightarrow> rat \<Rightarrow> rat" where
  "clamp v lo hi = max lo (min hi v)"

declare math_round_def [js_num] math_trunc_def [js_num] clamp_def [js_num]

lemma math_round_of_int [simp]: "math_round (of_int n) = n"
  unfolding math_round_def by linarith

lemma math_round_mono: "x \<le> y \<Longrightarrow> math_round x \<le> math_round y"
  unfolding math_round_def by (intro floor_mono) simp

lemma math_round_nonneg: "0 \<le> x \<Longrightarrow> 0 \<le> math_round x"
  using math_round_mono [of 0 x] math_round_of_int [of 0] by simp

lemma math_round_error: "\<bar>of_int (math_round x) - x\<bar> \<le> 1 / 2"
  unfolding math_round_def by linarith

lemma clamp_bounds: "lo \<le> hi \<Longrightarrow> lo \<le> clamp v lo hi \<and> clamp v lo hi \<le> hi"
  by (simp add: clamp_def)

lemma clamp_lower [simp]: "lo \<le> clamp v lo hi"
  by (simp add: clamp_def)

lemma clamp_upper: "lo \<le> hi \<Longrightarrow> clamp v lo hi \<le> hi"
  by (simp add: clamp_def)

lemma clamp_id: "lo \<le> v \<Longrightarrow> v \<le> hi \<Longrightarrow> clamp v lo hi = v"
  by (simp add: clamp_def)

section \<open>Strings\<close>

definition js_space :: "char \<Rightarrow> bool" where
  "js_space c \<longleftrightarrow> (of_char c :: int) \<in> set [9, 10, 11, 12, 13, 32, 160]"

definition js_trim :: "string \<Rightarrow> string" where
  "js_trim s = rev (dropWhile js_space (rev (dropWhile js_space s)))"

definition js_lower_char :: "char \<Rightarrow> char" where
  "js_lower_char c =
     (let n = (of_char c :: int) in
      if (65 \<le> n \<and> n \<le> 90) \<or> (192 \<le> n \<and> n \<le> 222 \<and> n \<noteq> 215)
      then char_of (n + 32) else c)"

definition js_lower :: "string \<Rightarrow> string" where
  "js_lower s = map js_lower_char s"

definition is_digit :: "char \<Rightarrow> bool" where
  "is_digit c \<longleftrightarrow> 48 \<le> (of_char c :: int) \<and> (of_char c :: int) \<le> 57"

fun starts_with :: "string \<Rightarrow> string \<Rightarrow> bool" where
  "starts_with s [] = True"
| "starts_with [] (p # ps) = False"
| "starts_with (c # s) (p # ps) = (c = p \<and> starts_with s ps)"

definition ends_with :: "string \<Rightarrow> string \<Rightarrow> bool" where
  "ends_with s p = starts_with (rev s) (rev p)"

fun join :: "string \<Rightarrow> string list \<Rightarrow> string" where
  "join d [] = []"
| "join d [s] = s"
| "join d (s # t # ss) = s @ d @ join d (t # ss)"

fun split_on :: "char \<Rightarrow> string \<Rightarrow> string list" where
  "split_on d [] = [[]]"
| "split_on d (c # cs) =
     (if c = d then [] # split_on d cs
      else (case split_on d cs of [] \<Rightarrow> [[c]] | w # ws \<Rightarrow> (c # w) # ws))"

text \<open>\<open>s.split(/\s+/)\<close> up to empty pieces, and \<open>s.replace(/pat/g, rep)\<close> for a literal pattern.\<close>

fun split_by :: "(char \<Rightarrow> bool) \<Rightarrow> string \<Rightarrow> string list" where
  "split_by sp [] = [[]]"
| "split_by sp (c # cs) =
     (if sp c then [] # split_by sp cs
      else (case split_by sp cs of [] \<Rightarrow> [[c]] | w # ws \<Rightarrow> (c # w) # ws))"

function replace_all :: "string \<Rightarrow> string \<Rightarrow> string \<Rightarrow> string" where
  "replace_all pat rep [] = []"
| "replace_all pat rep (c # cs) =
     (if pat \<noteq> [] \<and> starts_with (c # cs) pat
      then rep @ replace_all pat rep (drop (length pat) (c # cs))
      else c # replace_all pat rep cs)"
  by pat_completeness auto

termination replace_all
proof (relation "measure (\<lambda>(pat, rep, s). length s)", goal_cases)
  case (2 pat rep c cs)
  then show ?case by (cases pat) auto
qed auto

fun str_includes :: "string \<Rightarrow> string \<Rightarrow> bool" where
  "str_includes [] p = (p = [])"
| "str_includes (c # cs) p = (starts_with (c # cs) p \<or> str_includes cs p)"

text \<open>The decimal digits of a natural number, as \<open>String(n)\<close> prints them.\<close>

fun show_nat :: "nat \<Rightarrow> string" where
  "show_nat n = (if n < 10 then [char_of (48 + int n)]
                 else show_nat (n div 10) @ [char_of (48 + int (n mod 10))])"

declare show_nat.simps [simp del]

text \<open>The digits of an integer, for evaluation: the years of a date are counted in integers.\<close>

function show_pos :: "int \<Rightarrow> string" where
  "show_pos n = (if n < 10 then [char_of (48 + max 0 n)] else show_pos (n div 10) @ [char_of (48 + n mod 10)])"
  by auto

termination
  by (relation "measure nat") auto

declare show_pos.simps [simp del]

text \<open>\<open>toFixed(3)\<close> of a non-negative number already rounded to the millisecond.\<close>

definition to_fixed3 :: "rat \<Rightarrow> string" where
  "to_fixed3 x =
     (let n = nat (math_round (x * 1000)); f = n mod 1000
      in show_nat (n div 1000) @ ''.'' @ show_nat (f div 100) @ show_nat (f div 10 mod 10)
           @ show_nat (f mod 10))"

text \<open>
  How a template literal prints a non-negative number with at most three decimals: no trailing
  zeros, no decimal point for a whole number.
\<close>

fun strip_zeros :: "string \<Rightarrow> string" where
  "strip_zeros s = rev (dropWhile (\<lambda>c. c = CHR ''0'') (rev s))"

definition show_millis :: "rat \<Rightarrow> string" where
  "show_millis x =
     (let n = nat (math_round (x * 1000)); f = n mod 1000 in
      if f = 0 then show_nat (n div 1000)
      else show_nat (n div 1000) @ ''.'' @
        strip_zeros (show_nat (f div 100) @ show_nat (f div 10 mod 10) @ show_nat (f mod 10)))"

text \<open>
  \<open>Date.prototype.toISOString\<close>: the proleptic Gregorian date of a day number (days since
  1970-01-01, counted in eras of 400 years starting on 1 March) and the time of day.
\<close>

definition civil_from_days :: "int \<Rightarrow> int \<times> int \<times> int" where
  "civil_from_days days =
     (let z = days + 719468; era = z div 146097; doe = z mod 146097;
          yoe = (doe - doe div 1460 + doe div 36524 - doe div 146096) div 365;
          doy = doe - (365 * yoe + yoe div 4 - yoe div 100);
          mp = (5 * doy + 2) div 153;
          d = doy - (153 * mp + 2) div 5 + 1;
          m = (if mp < 10 then mp + 3 else mp - 9);
          y = yoe + era * 400 + (if m \<le> 2 then 1 else 0)
      in (y, m, d))"

definition pad :: "nat \<Rightarrow> int \<Rightarrow> string" where
  "pad w n = (let s = show_nat (nat n) in replicate (w - length s) (CHR ''0'') @ s)"

definition iso_string :: "int \<Rightarrow> string" where
  "iso_string ms =
     (let (y, m, d) = civil_from_days (ms div 86400000); t = ms mod 86400000;
          ys = (if 0 \<le> y \<and> y \<le> 9999 then pad 4 y
                else if y < 0 then ''-'' @ pad 6 (- y) else ''+'' @ pad 6 y)
      in ys @ ''-'' @ pad 2 m @ ''-'' @ pad 2 d @ ''T'' @ pad 2 (t div 3600000) @ '':''
           @ pad 2 (t div 60000 mod 60) @ '':'' @ pad 2 (t div 1000 mod 60) @ ''.''
           @ pad 3 (t mod 1000) @ ''Z'')"

declare js_space_def [js_str] js_trim_def [js_str] js_lower_char_def [js_str] js_lower_def [js_str]

lemma show_pos_nat [code_unfold]: "show_nat (nat n) = show_pos n"
proof (induction n rule: show_pos.induct)
  case (1 n)
  show ?case
  proof (cases "n < 10")
    case True
    then have "int (nat n) = max 0 n" "nat n < 10" by auto
    with True show ?thesis by (simp add: show_nat.simps [of "nat n"] show_pos.simps [of n])
  next
    case False
    then have ge: "\<not> nat n < 10" by auto
    from False have "nat n div 10 = nat (n div 10)" "int (nat n mod 10) = n mod 10" by (simp_all add: nat_div_distrib zmod_int)
    moreover have "show_nat (nat n) = show_nat (nat n div 10) @ [char_of (48 + int (nat n mod 10))]" using ge by (subst show_nat.simps) (simp only: if_False)
    moreover have "show_pos n = show_pos (n div 10) @ [char_of (48 + n mod 10)]" using False by (subst show_pos.simps) (simp only: if_False)
    ultimately show ?thesis using False 1 by simp
  qed
qed

lemma starts_with_iff: "starts_with s p \<longleftrightarrow> (\<exists>t. s = p @ t)"
  by (induction s p rule: starts_with.induct) auto

lemma ends_with_iff: "ends_with s p \<longleftrightarrow> (\<exists>t. s = t @ p)"
  unfolding ends_with_def starts_with_iff
  by (metis rev_append rev_rev_ident)

lemma split_on_not_Nil [simp]: "split_on d s \<noteq> []"
  by (induction s) (auto split: list.splits)

lemma split_on_pieces: "w \<in> set (split_on d s) \<Longrightarrow> d \<notin> set w"
proof (induction s arbitrary: w)
  case (Cons c cs)
  then show ?case
    by (cases "split_on d cs") (auto split: if_splits)
qed simp

lemma join_split_on: "join [d] (split_on d s) = s"
proof (induction s)
  case (Cons c cs)
  obtain w ws where sp: "split_on d cs = w # ws"
    using split_on_not_Nil by (meson list.exhaust)
  with Cons.IH have "join [d] (w # ws) = cs" by simp
  moreover have "join [d] ((c # w) # ws) = c # join [d] (w # ws)" by (cases ws) auto
  ultimately show ?case using sp by simp
qed simp

lemma split_on_append:
  "d \<notin> set w \<Longrightarrow> split_on d (w @ d # s) = w # split_on d s"
  by (induction w) (auto split: list.splits)

lemma split_on_single: "d \<notin> set w \<Longrightarrow> split_on d w = [w]"
  by (induction w) auto

lemma split_on_join:
  assumes "ws \<noteq> []" and "\<forall>w\<in>set ws. d \<notin> set w"
  shows "split_on d (join [d] ws) = ws"
  using assms
proof (induction "[d]" ws rule: join.induct)
  case (2 s)
  then show ?case by (simp add: split_on_single)
next
  case (3 s t ss)
  then have "split_on d (join [d] (t # ss)) = t # ss" by simp
  with 3 show ?case by (simp add: split_on_append)
qed simp

lemma split_by_not_Nil [simp]: "split_by sp s \<noteq> []"
  by (induction s) (auto split: list.splits)

lemma split_by_nosp: "\<forall>c\<in>set r. \<not> sp c \<Longrightarrow>
    split_by sp (r @ s) = (r @ hd (split_by sp s)) # tl (split_by sp s)"
  by (induction r) (auto split: list.splits simp: neq_Nil_conv)

lemma split_by_drop:
  assumes "\<forall>c\<in>set p. \<not> sp c" "starts_with s p"
  shows "split_by sp s = (p @ hd (split_by sp (drop (length p) s))) # tl (split_by sp (drop (length p) s))"
  using assms split_by_nosp [of p sp "drop (length p) s"] by (auto simp: starts_with_iff)

lemma starts_with_head:
  "\<forall>c\<in>set p. \<not> sp c \<Longrightarrow> starts_with s p \<longleftrightarrow> starts_with (hd (split_by sp s)) p"
proof (induction s p rule: starts_with.induct)
  case (3 c s p ps)
  then show ?case by (cases "split_by sp s") auto
qed auto

text \<open>Substituting a text without separators before splitting is substituting it in every piece.\<close>

lemma split_by_replace_all:
  assumes "pat \<noteq> []" "\<forall>c\<in>set pat. \<not> sp c" "\<forall>c\<in>set rep. \<not> sp c"
  shows "split_by sp (replace_all pat rep s) = map (replace_all pat rep) (split_by sp s)"
  using assms
proof (induction pat rep s rule: replace_all.induct)
  case (2 pat rep c cs)
  let ?s = "c # cs"
  show ?case
  proof (cases "starts_with ?s pat")
    case True
    let ?rest = "drop (length pat) ?s"
    from True 2 have IH: "split_by sp (replace_all pat rep ?rest) = map (replace_all pat rep) (split_by sp ?rest)"
      by blast
    from True 2 have sp: "split_by sp ?s = (pat @ hd (split_by sp ?rest)) # tl (split_by sp ?rest)"
      by (intro split_by_drop)
    have "replace_all pat rep (pat @ w) = rep @ replace_all pat rep w" for w
      using 2(3) by (cases pat) (auto simp: starts_with_iff)
    with True 2 IH sp show ?thesis
      by (simp add: split_by_nosp hd_map map_tl del: split_by.simps)
  next
    case False
    with 2 have IH: "split_by sp (replace_all pat rep cs) = map (replace_all pat rep) (split_by sp cs)" by blast
    obtain w ws where w: "split_by sp cs = w # ws" using split_by_not_Nil by (meson list.exhaust)
    show ?thesis
    proof (cases "sp c")
      case True
      with False IH show ?thesis by simp
    next
      case nsp: False
      with False starts_with_head [of pat sp ?s] 2 w have "\<not> starts_with (c # w) pat" by simp
      with False nsp IH w show ?thesis by simp
    qed
  qed
qed simp

lemma replace_all_Nil_iff: "rep \<noteq> [] \<Longrightarrow> replace_all pat rep s = [] \<longleftrightarrow> s = []"
  by (cases s) auto

text \<open>Printing is injective: the digits can be read back.\<close>

fun digits_nat :: "nat \<Rightarrow> string \<Rightarrow> nat" where
  "digits_nat acc [] = acc"
| "digits_nat acc (c # cs) = digits_nat (10 * acc + nat (of_char c - 48)) cs"

lemma digits_nat_append: "digits_nat acc (xs @ ys) = digits_nat (digits_nat acc xs) ys"
  by (induction acc xs rule: digits_nat.induct) simp_all

lemma of_char_digit: "k < 10 \<Longrightarrow> nat (of_char (char_of (48 + int k)) - 48) = k"
  by simp

lemma show_nat_digits: "list_all is_digit (show_nat n)"
proof (induction n rule: show_nat.induct)
  case (1 n)
  have "k < 10 \<Longrightarrow> is_digit (char_of (48 + int k))" for k by (simp add: is_digit_def)
  with 1 show ?case by (subst show_nat.simps) simp
qed

lemma digits_nat_show: "digits_nat 0 (show_nat n) = n"
proof (induction n rule: show_nat.induct)
  case (1 n)
  show ?case
  proof (cases "n < 10")
    case True
    then show ?thesis by (subst show_nat.simps) (simp add: of_char_digit)
  next
    case False
    with 1 have "digits_nat 0 (show_nat (n div 10)) = n div 10" by simp
    with False show ?thesis
      by (subst show_nat.simps) (simp add: digits_nat_append of_char_digit)
  qed
qed

lemma digits_nat_pad: "digits_nat 0 (pad w (int n)) = n"
proof -
  have "digits_nat 0 (replicate k (CHR ''0'') @ s) = digits_nat 0 s" for k s
    by (induction k) simp_all
  then show ?thesis by (simp add: pad_def Let_def digits_nat_show)
qed

lemma pad_inject: "pad w (int m) = pad w (int n) \<Longrightarrow> m = n"
  using digits_nat_pad by metis

text \<open>The printed numbers and dates use characters from \<open>+\<close> to \<open>Z\<close> only.\<close>

definition printed_char :: "char \<Rightarrow> bool" where
  "printed_char c \<longleftrightarrow> 43 \<le> (of_char c :: int) \<and> (of_char c :: int) \<le> 90"

lemma printed_char_simps [simp]:
  "printed_char CHR ''0''" "printed_char CHR ''.''" "printed_char CHR '':''" "printed_char CHR ''T''"
  "printed_char CHR ''Z''" "printed_char CHR ''+''" "printed_char CHR ''-''"
  "\<not> printed_char CHR 0x0A" "\<not> printed_char CHR ''#''"
  by (simp_all add: printed_char_def)

lemma printed_digit: "k < 10 \<Longrightarrow> printed_char (char_of (48 + int k))"
  by (simp add: printed_char_def)

lemma show_nat_printed [simp]: "list_all printed_char (show_nat n)"
proof (induction n rule: show_nat.induct)
  case (1 n)
  show ?case
  proof (cases "n < 10")
    case True
    then show ?thesis by (subst show_nat.simps) (simp add: printed_digit)
  next
    case False
    with 1 printed_digit [of "n mod 10"] show ?thesis by (subst show_nat.simps) simp
  qed
qed

lemma to_fixed3_printed [simp]: "list_all printed_char (to_fixed3 x)"
  by (simp add: to_fixed3_def Let_def)

lemma strip_zeros_printed: "list_all printed_char s \<Longrightarrow> list_all printed_char (strip_zeros s)"
  by (auto simp: list_all_iff dest: set_dropWhileD)

lemma show_millis_printed [simp]: "list_all printed_char (show_millis x)"
  by (simp add: show_millis_def Let_def strip_zeros_printed del: strip_zeros.simps)

lemma pad_printed [simp]: "list_all printed_char (pad w n)"
  by (simp add: pad_def Let_def list_all_length [of _ "replicate _ _"])

lemma iso_string_printed [simp]: "list_all printed_char (iso_string ms)"
  by (simp add: iso_string_def Let_def split: prod.split)

lemma printed_no_newline: "list_all printed_char s \<Longrightarrow> CHR 0x0A \<notin> set s"
  by (auto simp: list_all_iff)

section \<open>Lists\<close>

text \<open>\<open>Array.from(new Set(xs))\<close>: duplicates removed, first occurrences kept in order.\<close>

definition js_uniq :: "'a list \<Rightarrow> 'a list" where
  "js_uniq xs = rev (remdups (rev xs))"

lemma set_js_uniq [simp]: "set (js_uniq xs) = set xs"
  by (simp add: js_uniq_def)

lemma distinct_js_uniq [simp]: "distinct (js_uniq xs)"
  by (simp add: js_uniq_def)

lemma js_uniq_Nil_iff [simp]: "js_uniq xs = [] \<longleftrightarrow> xs = []"
  by (simp add: js_uniq_def)

lemma js_uniq_distinct [simp]: "distinct xs \<Longrightarrow> js_uniq xs = xs"
  by (simp add: js_uniq_def distinct_remdups_id)

lemma js_uniq_single: "\<not> 1 < length (js_uniq xs) \<longleftrightarrow> (\<forall>x\<in>set xs. \<forall>y\<in>set xs. x = y)"
proof -
  have "length (js_uniq xs) = card (set xs)"
    using distinct_card [of "js_uniq xs"] by simp
  then show ?thesis by (simp add: not_less card_le_Suc0_iff_eq)
qed

lemma find_key:
  "distinct (map f xs) \<Longrightarrow> x \<in> set xs \<Longrightarrow> find (\<lambda>y. f y = f x) xs = Some x"
  by (induction xs) (auto simp: image_iff)

lemma find_None_key: "k \<notin> f ` set xs \<Longrightarrow> find (\<lambda>y. f y = k) xs = None"
  by (auto simp: find_None_iff)

lemma find_SomeD: "find P xs = Some x \<Longrightarrow> x \<in> set xs \<and> P x"
  by (induction xs) (auto split: if_splits)

text \<open>
  \<open>Array.prototype.sort(cmp)\<close> is stable; a negative or zero comparison keeps the left
  argument first.
\<close>

fun js_insert :: "('a \<Rightarrow> 'a \<Rightarrow> rat) \<Rightarrow> 'a \<Rightarrow> 'a list \<Rightarrow> 'a list" where
  "js_insert cmp x [] = [x]"
| "js_insert cmp x (y # ys) =
     (if cmp x y \<le> 0 then x # y # ys else y # js_insert cmp x ys)"

definition js_sort :: "('a \<Rightarrow> 'a \<Rightarrow> rat) \<Rightarrow> 'a list \<Rightarrow> 'a list" where
  "js_sort cmp xs = foldr (js_insert cmp) xs []"

lemma js_sort_simps [simp]:
  "js_sort cmp [] = []"
  "js_sort cmp (x # xs) = js_insert cmp x (js_sort cmp xs)"
  by (simp_all add: js_sort_def)

lemma mset_js_insert: "mset (js_insert cmp x xs) = add_mset x (mset xs)"
  by (induction xs) auto

lemma mset_js_sort [js_list]: "mset (js_sort cmp xs) = mset xs"
  by (induction xs) (auto simp: mset_js_insert)

lemma set_js_sort [simp]: "set (js_sort cmp xs) = set xs"
  using mset_js_sort by (metis set_mset_mset)

lemma length_js_sort [simp]: "length (js_sort cmp xs) = length xs"
  using mset_js_sort by (metis size_mset)

lemma distinct_js_sort [simp]: "distinct (js_sort cmp xs) = distinct xs"
  using mset_js_sort by (metis mset_eq_imp_distinct_iff)

lemma set_js_insert [simp]: "set (js_insert cmp x xs) = insert x (set xs)"
  by (induction xs) auto

text \<open>
  A comparator that compares a numeric key first, whatever it uses to break ties: the interface
  through which every sorted list of the development is known to be sorted.
\<close>

locale key_comparator =
  fixes cmp :: "'a \<Rightarrow> 'a \<Rightarrow> rat" and key :: "'a \<Rightarrow> rat"
  assumes cmp_le: "cmp x y \<le> 0 \<Longrightarrow> key x \<le> key y"
    and cmp_gt: "0 < cmp x y \<Longrightarrow> key y \<le> key x"
begin

lemma sorted_insert:
  "sorted (map key ys) \<Longrightarrow> sorted (map key (js_insert cmp x ys))"
proof (induction ys)
  case (Cons y ys)
  show ?case
  proof (cases "cmp x y \<le> 0")
    case True
    with Cons.prems cmp_le [OF True] show ?thesis by auto
  next
    case False
    with Cons cmp_gt [of x y] show ?thesis by auto
  qed
qed simp

lemma sorted_sort: "sorted (map key (js_sort cmp xs))"
  by (induction xs) (simp_all add: sorted_insert)

end

section \<open>Results\<close>

text \<open>A computation that may throw: \<open>Inl e\<close> is the exception, \<open>Inr x\<close> the value.\<close>

type_synonym ('e, 'a) result = "'e + 'a"

fun isOk :: "('e, 'a) result \<Rightarrow> bool" where
  "isOk (Inl _) = False"
| "isOk (Inr _) = True"

section \<open>Reachable states\<close>

inductive reachable :: "('s \<Rightarrow> bool) \<Rightarrow> ('s \<Rightarrow> 's \<Rightarrow> bool) \<Rightarrow> 's \<Rightarrow> bool"
  for start :: "'s \<Rightarrow> bool" and step :: "'s \<Rightarrow> 's \<Rightarrow> bool" where
  reach_start: "start s \<Longrightarrow> reachable start step s"
| reach_step: "reachable start step s \<Longrightarrow> step s t \<Longrightarrow> reachable start step t"

lemma reachable_from:
  assumes "reachable (\<lambda>s. s = st) step st'" "P st"
  shows "reachable P step st'"
  using assms(1) by (induction rule: reachable.induct) (use assms(2) in \<open>auto intro: reachable.intros\<close>)

text \<open>
  What a state machine owes its users: an invariant of its start states that every step keeps.
\<close>

locale step_invariant =
  fixes start :: "'s \<Rightarrow> bool" and step :: "'s \<Rightarrow> 's \<Rightarrow> bool" and inv :: "'s \<Rightarrow> bool"
  assumes start_inv: "start s \<Longrightarrow> inv s"
    and step_inv: "inv s \<Longrightarrow> step s t \<Longrightarrow> inv t"
begin

lemma reachable_inv: "reachable start step s \<Longrightarrow> inv s"
  by (induction rule: reachable.induct) (auto intro: start_inv step_inv)

end

text \<open>
  The same for a deterministic step taken with a list of events: \<open>okRun\<close> says that every event is admitted in the state
  in which it comes.
\<close>

lemma fold_keeps: "P s \<Longrightarrow> (\<And>x s. x \<in> set xs \<Longrightarrow> P s \<Longrightarrow> P (f x s)) \<Longrightarrow> P (fold f xs s)"
  by (induction xs arbitrary: s) simp_all

fun okRun :: "('e \<Rightarrow> 's \<Rightarrow> 's) \<Rightarrow> ('e \<Rightarrow> 's \<Rightarrow> bool) \<Rightarrow> 'e list \<Rightarrow> 's \<Rightarrow> bool" where
  "okRun app ok [] s = True"
| "okRun app ok (e # es) s = (ok e s \<and> okRun app ok es (app e s))"

lemma okRun_const: "okRun app (\<lambda>e s. Q e) es s = list_all Q es"
  by (induction es arbitrary: s) simp_all

locale event_invariant =
  fixes app :: "'e \<Rightarrow> 's \<Rightarrow> 's" and ok :: "'e \<Rightarrow> 's \<Rightarrow> bool" and inv :: "'s \<Rightarrow> bool"
  assumes event_inv: "inv s \<Longrightarrow> ok e s \<Longrightarrow> inv (app e s)"
begin

lemma run_inv: "inv s \<Longrightarrow> okRun app ok es s \<Longrightarrow> inv (fold app es s)"
  by (induction es arbitrary: s) (simp_all add: event_inv)

end

end
