(* ===== verification/Access_Control.thy ===== *)
theory Access_Control
  imports Js_Prelude
begin

text \<open>
  Who may see, control, record and administer a camera
  (\<open>apps/api/src/access-control/access-control.service.ts\<close>).
  The database is a record of the three tables the service queries; \<open>findMany\<close> is a filter of
  the table and \<open>findUnique\<close> the first row with the key. An exception is the \<open>Inl\<close> of a
  result.
\<close>

section \<open>Data\<close>

datatype userRole = SUPER_ADMIN | ADMIN | OPERATOR | VIEWER

datatype permissionLevel = VIEW | CONTROL | RECORD | LEVEL_ADMIN

datatype groupAccessStatus = ACTIVE | RESTRICTED | SUSPENDED

record camera =
  cam_id :: string
  cam_groupId :: "string option"
  cam_isPrivate :: bool
  cam_ownerUserId :: "string option"

record cameraGroup =
  grp_id :: string
  grp_isActive :: bool
  grp_accessStatus :: groupAccessStatus

record cameraPermission =
  perm_userId :: string
  perm_cameraId :: "string option"
  perm_groupId :: "string option"
  perm_level :: permissionLevel

record accessDb =
  db_cameras :: "camera list"
  db_groups :: "cameraGroup list"
  db_permissions :: "cameraPermission list"

record authUser =
  user_id :: string
  user_role :: userRole

datatype accessError =
    Forbidden_adminGroup | Forbidden_view | Forbidden_playback
  | Forbidden_control | Forbidden_record | Forbidden_adminCamera

fun levelWeight :: "permissionLevel \<Rightarrow> nat" where
  "levelWeight VIEW = 1"
| "levelWeight CONTROL = 2"
| "levelWeight RECORD = 3"
| "levelWeight LEVEL_ADMIN = 4"

text \<open>The weights order the levels; the order is the one \<open>hasLevel\<close> compares by.\<close>

instantiation permissionLevel :: linorder
begin

definition less_eq_permissionLevel :: "permissionLevel \<Rightarrow> permissionLevel \<Rightarrow> bool" where
  "less_eq_permissionLevel a b = (levelWeight a \<le> levelWeight b)"

definition less_permissionLevel :: "permissionLevel \<Rightarrow> permissionLevel \<Rightarrow> bool" where
  "less_permissionLevel a b = (levelWeight a < levelWeight b)"

instance
proof
  fix a b c :: permissionLevel
  show "(a < b) = (a \<le> b \<and> \<not> b \<le> a)"
    by (auto simp: less_eq_permissionLevel_def less_permissionLevel_def)
  show "a \<le> a" by (simp add: less_eq_permissionLevel_def)
  show "a \<le> b \<Longrightarrow> b \<le> c \<Longrightarrow> a \<le> c" by (simp add: less_eq_permissionLevel_def)
  show "a \<le> b \<Longrightarrow> b \<le> a \<Longrightarrow> a = b"
    by (cases a; cases b) (simp_all add: less_eq_permissionLevel_def)
  show "a \<le> b \<or> b \<le> a" by (auto simp: less_eq_permissionLevel_def)
qed

end

section \<open>Operations\<close>

definition isPrivileged :: "authUser \<Rightarrow> bool" where
  "isPrivileged user \<longleftrightarrow> user_role user = SUPER_ADMIN \<or> user_role user = ADMIN"

text \<open>\<open>.filter((id): id is string => Boolean(id))\<close>: null and the empty string are dropped.\<close>

fun definedIds :: "string option list \<Rightarrow> string list" where
  "definedIds [] = []"
| "definedIds (None # xs) = definedIds xs"
| "definedIds (Some s # xs) = (if s = [] then definedIds xs else s # definedIds xs)"

definition findCamera :: "accessDb \<Rightarrow> string \<Rightarrow> camera option" where
  "findCamera db cameraId = find (\<lambda>c. cam_id c = cameraId) (db_cameras db)"

definition findGroup :: "accessDb \<Rightarrow> string \<Rightarrow> cameraGroup option" where
  "findGroup db groupId = find (\<lambda>g. grp_id g = groupId) (db_groups db)"

definition opt_in :: "string option \<Rightarrow> string list \<Rightarrow> bool" where
  "opt_in x ids = (case x of None \<Rightarrow> False | Some s \<Rightarrow> s \<in> set ids)"

definition filterAllowedGroupIds :: "accessDb \<Rightarrow> string list \<Rightarrow> string list" where
  "filterAllowedGroupIds db groupIds =
     (if groupIds = [] then []
      else map grp_id (filter (\<lambda>g. grp_id g \<in> set groupIds \<and> grp_isActive g
                                 \<and> grp_accessStatus g \<noteq> SUSPENDED) (db_groups db)))"

definition directIdsOf :: "accessDb \<Rightarrow> authUser \<Rightarrow> string list" where
  "directIdsOf db user =
     definedIds (map perm_cameraId
       (filter (\<lambda>p. perm_userId p = user_id user \<and> perm_cameraId p \<noteq> None) (db_permissions db)))"

definition authorizedPrivateIds :: "accessDb \<Rightarrow> authUser \<Rightarrow> string list" where
  "authorizedPrivateIds db user =
     (let ownedPrivate = filter (\<lambda>c. cam_isPrivate c \<and> cam_ownerUserId c = Some (user_id user))
                           (db_cameras db);
          directIds = directIdsOf db user;
          directPrivate = (if directIds \<noteq> []
             then filter (\<lambda>c. cam_id c \<in> set directIds \<and> cam_isPrivate c) (db_cameras db) else [])
      in js_uniq (map cam_id ownedPrivate @ map cam_id directPrivate))"

definition getAccessibleCameraIds :: "accessDb \<Rightarrow> authUser \<Rightarrow> string list" where
  "getAccessibleCameraIds db user =
     (let directIds = directIdsOf db user;
          authorized = authorizedPrivateIds db user
      in if isPrivileged user
         then js_uniq (map cam_id (filter (\<lambda>c. \<not> cam_isPrivate c) (db_cameras db)) @ authorized)
         else
           (let groupIds = definedIds (map perm_groupId
                  (filter (\<lambda>p. perm_userId p = user_id user \<and> perm_groupId p \<noteq> None)
                     (db_permissions db)));
                allowedGroupIds = (if groupIds \<noteq> [] then filterAllowedGroupIds db groupIds else []);
                groupCameras = (if allowedGroupIds \<noteq> []
                  then filter (\<lambda>c. opt_in (cam_groupId c) allowedGroupIds) (db_cameras db) else []);
                candidate = js_uniq (directIds @ map cam_id groupCameras);
                privateSet = map cam_id (filter cam_isPrivate groupCameras)
            in filter (\<lambda>i. i \<notin> set privateSet \<or> i \<in> set authorized) candidate))"

definition getAdminGroupIds :: "accessDb \<Rightarrow> authUser \<Rightarrow> string list" where
  "getAdminGroupIds db user =
     (if isPrivileged user then map grp_id (db_groups db)
      else definedIds (map perm_groupId
        (filter (\<lambda>p. perm_userId p = user_id user \<and> perm_groupId p \<noteq> None
                   \<and> perm_level p = LEVEL_ADMIN) (db_permissions db))))"

definition canAdminGroup :: "accessDb \<Rightarrow> authUser \<Rightarrow> string \<Rightarrow> bool" where
  "canAdminGroup db user groupId =
     (isPrivileged user \<or>
      find (\<lambda>p. perm_userId p = user_id user \<and> perm_groupId p = Some groupId
              \<and> perm_level p = LEVEL_ADMIN) (db_permissions db) \<noteq> None)"

definition assertCanAdminGroup :: "accessDb \<Rightarrow> authUser \<Rightarrow> string \<Rightarrow> (accessError, unit) result" where
  "assertCanAdminGroup db user groupId =
     (if \<not> canAdminGroup db user groupId then Inl Forbidden_adminGroup else Inr ())"

fun maxLevel :: "permissionLevel \<Rightarrow> cameraPermission list \<Rightarrow> permissionLevel" where
  "maxLevel m [] = m"
| "maxLevel m (p # ps) =
     maxLevel (if levelWeight (perm_level p) > levelWeight m then perm_level p else m) ps"

definition getMaxPermissionLevel :: "accessDb \<Rightarrow> string \<Rightarrow> string \<Rightarrow> permissionLevel option" where
  "getMaxPermissionLevel db userId cameraId =
     (case findCamera db cameraId of
        None \<Rightarrow> None
      | Some c \<Rightarrow>
          (let allowedGroupIds = (case cam_groupId c of
                   None \<Rightarrow> []
                 | Some g \<Rightarrow> if g = [] then [] else filterAllowedGroupIds db [g]);
               perms = filter (\<lambda>p. perm_userId p = userId \<and>
                    (perm_cameraId p = Some cameraId
                     \<or> (allowedGroupIds \<noteq> [] \<and> perm_groupId p = Some (hd allowedGroupIds))))
                  (db_permissions db)
           in case perms of
                [] \<Rightarrow> None
              | p # ps \<Rightarrow> Some (maxLevel (perm_level p) (p # ps))))"

definition hasLevel :: "accessDb \<Rightarrow> authUser \<Rightarrow> string \<Rightarrow> permissionLevel \<Rightarrow> bool" where
  "hasLevel db user cameraId minLevel =
     (if isPrivileged user then True
      else case getMaxPermissionLevel db (user_id user) cameraId of
             None \<Rightarrow> False
           | Some m \<Rightarrow> levelWeight m \<ge> levelWeight minLevel)"

text \<open>\<open>None\<close> is the \<open>null\<close> that hands the decision on to \<open>hasLevel\<close>.\<close>

definition hasPrivateContentLevel ::
    "accessDb \<Rightarrow> authUser \<Rightarrow> string \<Rightarrow> permissionLevel \<Rightarrow> bool option" where
  "hasPrivateContentLevel db user cameraId minLevel =
     (case findCamera db cameraId of
        None \<Rightarrow> None
      | Some c \<Rightarrow>
          if \<not> cam_isPrivate c then None
          else if cam_ownerUserId c = Some (user_id user) then Some True
          else Some (list_ex (\<lambda>p. levelWeight (perm_level p) \<ge> levelWeight minLevel)
                 (filter (\<lambda>p. perm_userId p = user_id user \<and> perm_cameraId p = Some cameraId)
                    (db_permissions db))))"

definition canViewCamera :: "accessDb \<Rightarrow> authUser \<Rightarrow> string \<Rightarrow> bool" where
  "canViewCamera db user cameraId =
     (case hasPrivateContentLevel db user cameraId VIEW of
        Some privateAccess \<Rightarrow> privateAccess
      | None \<Rightarrow> hasLevel db user cameraId VIEW)"

definition canControlCamera :: "accessDb \<Rightarrow> authUser \<Rightarrow> string \<Rightarrow> bool" where
  "canControlCamera db user cameraId =
     (case hasPrivateContentLevel db user cameraId CONTROL of
        Some privateAccess \<Rightarrow> privateAccess
      | None \<Rightarrow> hasLevel db user cameraId CONTROL)"

definition canRecordCamera :: "accessDb \<Rightarrow> authUser \<Rightarrow> string \<Rightarrow> bool" where
  "canRecordCamera db user cameraId =
     (case hasPrivateContentLevel db user cameraId RECORD of
        Some privateAccess \<Rightarrow> privateAccess
      | None \<Rightarrow> hasLevel db user cameraId RECORD)"

definition canAdminCamera :: "accessDb \<Rightarrow> authUser \<Rightarrow> string \<Rightarrow> bool" where
  "canAdminCamera db user cameraId = hasLevel db user cameraId LEVEL_ADMIN"

definition assertCanViewCamera :: "accessDb \<Rightarrow> authUser \<Rightarrow> string \<Rightarrow> (accessError, unit) result" where
  "assertCanViewCamera db user cameraId =
     (if \<not> canViewCamera db user cameraId then Inl Forbidden_view else Inr ())"

definition canPlaybackCamera :: "accessDb \<Rightarrow> authUser \<Rightarrow> string \<Rightarrow> bool" where
  "canPlaybackCamera db user cameraId =
     (if \<not> canViewCamera db user cameraId then False
      else if isPrivileged user then True
      else case findCamera db cameraId of
             None \<Rightarrow> True
           | Some c \<Rightarrow>
               (case cam_groupId c of
                  None \<Rightarrow> True
                | Some g \<Rightarrow>
                    if g = [] then True
                    else (case findGroup db g of
                            None \<Rightarrow> True
                          | Some grp \<Rightarrow> grp_accessStatus grp \<noteq> RESTRICTED)))"

definition assertCanPlaybackCamera ::
    "accessDb \<Rightarrow> authUser \<Rightarrow> string \<Rightarrow> (accessError, unit) result" where
  "assertCanPlaybackCamera db user cameraId =
     (if \<not> canPlaybackCamera db user cameraId then Inl Forbidden_playback else Inr ())"

definition getPlaybackCameraIds :: "accessDb \<Rightarrow> authUser \<Rightarrow> string list" where
  "getPlaybackCameraIds db user =
     (let accessibleIds = getAccessibleCameraIds db user in
      if accessibleIds = [] \<or> isPrivileged user then accessibleIds
      else
        (let cameras = filter (\<lambda>c. cam_id c \<in> set accessibleIds) (db_cameras db);
             groupIds = js_uniq (definedIds (map cam_groupId cameras))
         in if groupIds = [] then map cam_id cameras
            else
              (let restrictedIds = map grp_id (filter (\<lambda>g. grp_id g \<in> set groupIds
                       \<and> grp_accessStatus g = RESTRICTED) (db_groups db))
               in map cam_id (filter (\<lambda>c. (case cam_groupId c of None \<Rightarrow> True | Some g \<Rightarrow> g = [])
                       \<or> \<not> opt_in (cam_groupId c) restrictedIds) cameras))))"

definition assertCanControlCamera ::
    "accessDb \<Rightarrow> authUser \<Rightarrow> string \<Rightarrow> (accessError, unit) result" where
  "assertCanControlCamera db user cameraId =
     (if \<not> canControlCamera db user cameraId then Inl Forbidden_control else Inr ())"

definition assertCanRecordCamera ::
    "accessDb \<Rightarrow> authUser \<Rightarrow> string \<Rightarrow> (accessError, unit) result" where
  "assertCanRecordCamera db user cameraId =
     (if \<not> canRecordCamera db user cameraId then Inl Forbidden_record else Inr ())"

definition assertCanAdminCamera ::
    "accessDb \<Rightarrow> authUser \<Rightarrow> string \<Rightarrow> (accessError, unit) result" where
  "assertCanAdminCamera db user cameraId =
     (if \<not> canAdminCamera db user cameraId then Inl Forbidden_adminCamera else Inr ())"

section \<open>What the tables guarantee\<close>

text \<open>
  The constraints the schema puts on the three tables: primary keys, non-empty identifiers,
  foreign keys, and a permission that targets exactly one of a camera and a group
  (\<open>CameraPermission_exactly_one_target_check\<close>).
\<close>

definition wf_perm :: "accessDb \<Rightarrow> cameraPermission \<Rightarrow> bool" where
  "wf_perm db p \<longleftrightarrow>
     ((perm_cameraId p \<noteq> None) \<noteq> (perm_groupId p \<noteq> None))
     \<and> (case perm_cameraId p of None \<Rightarrow> True | Some i \<Rightarrow> i \<in> set (map cam_id (db_cameras db)))
     \<and> (case perm_groupId p of None \<Rightarrow> True | Some g \<Rightarrow> g \<in> set (map grp_id (db_groups db)))"

definition wf_db :: "accessDb \<Rightarrow> bool" where
  "wf_db db \<longleftrightarrow>
     distinct (map cam_id (db_cameras db)) \<and> distinct (map grp_id (db_groups db))
     \<and> [] \<notin> set (map cam_id (db_cameras db)) \<and> [] \<notin> set (map grp_id (db_groups db))
     \<and> list_all (\<lambda>c. case cam_groupId c of None \<Rightarrow> True
                  | Some g \<Rightarrow> g \<in> set (map grp_id (db_groups db))) (db_cameras db)
     \<and> list_all (wf_perm db) (db_permissions db)"

text \<open>The vocabulary of the specification: a direct grant, and a grant through a group.\<close>

definition hasDirect :: "accessDb \<Rightarrow> authUser \<Rightarrow> string \<Rightarrow> permissionLevel \<Rightarrow> bool" where
  "hasDirect db user cameraId l =
     list_ex (\<lambda>p. perm_userId p = user_id user \<and> perm_cameraId p = Some cameraId \<and> l \<le> perm_level p)
       (db_permissions db)"

definition groupAllows :: "accessDb \<Rightarrow> string \<Rightarrow> bool" where
  "groupAllows db g =
     list_ex (\<lambda>grp. grp_id grp = g \<and> grp_isActive grp \<and> grp_accessStatus grp \<noteq> SUSPENDED)
       (db_groups db)"

definition viaGroup :: "accessDb \<Rightarrow> authUser \<Rightarrow> camera \<Rightarrow> permissionLevel \<Rightarrow> bool" where
  "viaGroup db user c l =
     (case cam_groupId c of
        None \<Rightarrow> False
      | Some g \<Rightarrow> groupAllows db g \<and>
          list_ex (\<lambda>p. perm_userId p = user_id user \<and> perm_groupId p = Some g \<and> l \<le> perm_level p)
            (db_permissions db))"

definition ownsPrivate :: "authUser \<Rightarrow> camera \<Rightarrow> bool" where
  "ownsPrivate user c \<longleftrightarrow> cam_isPrivate c \<and> cam_ownerUserId c = Some (user_id user)"

section \<open>Lemmas\<close>

lemma weight_le_iff [simp]: "levelWeight a \<le> levelWeight b \<longleftrightarrow> a \<le> b"
  by (simp add: less_eq_permissionLevel_def)

lemma weight_less_iff [simp]: "levelWeight a < levelWeight b \<longleftrightarrow> a < b"
  by (simp add: less_permissionLevel_def)

lemma VIEW_le [simp]: "VIEW \<le> l"
  by (cases l) (simp_all add: less_eq_permissionLevel_def)

lemma level_chain: "VIEW \<le> CONTROL" "CONTROL \<le> RECORD" "RECORD \<le> LEVEL_ADMIN"
  by (simp_all add: less_eq_permissionLevel_def)

lemma set_definedIds: "set (definedIds xs) = {s. Some s \<in> set xs \<and> s \<noteq> []}"
  by (induction xs rule: definedIds.induct) auto

lemma le_maxLevel: "l \<le> maxLevel m ps \<longleftrightarrow> l \<le> m \<or> (\<exists>p\<in>set ps. l \<le> perm_level p)"
proof (induction ps arbitrary: m)
  case (Cons p ps)
  have "(l \<le> (if m < perm_level p then perm_level p else m)) = (l \<le> m \<or> l \<le> perm_level p)"
    by auto
  with Cons show ?case by auto
qed simp

lemma set_filterAllowed:
  "set (filterAllowedGroupIds db gs) = {g \<in> set gs. groupAllows db g}"
  by (auto simp: filterAllowedGroupIds_def groupAllows_def list_ex_iff)

lemma filterAllowed_single:
  "g \<in> set (filterAllowedGroupIds db [g]) \<longleftrightarrow> groupAllows db g"
  "filterAllowedGroupIds db [g] \<noteq> [] \<Longrightarrow> hd (filterAllowedGroupIds db [g]) = g"
  "filterAllowedGroupIds db [g] = [] \<longleftrightarrow> \<not> groupAllows db g"
proof -
  have s: "set (filterAllowedGroupIds db [g]) = {g' \<in> {g}. groupAllows db g'}"
    by (simp add: set_filterAllowed)
  then show "g \<in> set (filterAllowedGroupIds db [g]) \<longleftrightarrow> groupAllows db g" by simp
  from s show "filterAllowedGroupIds db [g] = [] \<longleftrightarrow> \<not> groupAllows db g"
    by (metis (mono_tags, lifting) empty_iff empty_set mem_Collect_eq set_empty singletonI singletonD
        subsetI subset_empty)
  assume "filterAllowedGroupIds db [g] \<noteq> []"
  then have "hd (filterAllowedGroupIds db [g]) \<in> {g' \<in> {g}. groupAllows db g'}"
    using s hd_in_set by metis
  then show "hd (filterAllowedGroupIds db [g]) = g" by simp
qed

lemma wf_camera:
  assumes "wf_db db" and "c \<in> set (db_cameras db)"
  shows "findCamera db (cam_id c) = Some c" and "cam_id c \<noteq> []"
    and "cam_groupId c = Some g \<Longrightarrow> g \<in> grp_id ` set (db_groups db)"
    and "cam_groupId c = Some g \<Longrightarrow> g \<noteq> []"
proof -
  from assms have "distinct (map cam_id (db_cameras db))" by (simp add: wf_db_def)
  then show "findCamera db (cam_id c) = Some c"
    unfolding findCamera_def using assms(2) by (rule find_key)
  from assms show "cam_id c \<noteq> []" by (auto simp: wf_db_def image_iff)
  assume g: "cam_groupId c = Some g"
  have "case cam_groupId c of None \<Rightarrow> True | Some g \<Rightarrow> g \<in> set (map grp_id (db_groups db))"
    using assms by (simp add: wf_db_def list_all_iff)
  with g show mem: "g \<in> grp_id ` set (db_groups db)" by simp
  with assms show "g \<noteq> []" by (auto simp: wf_db_def image_iff)
qed

lemma wf_camera_unique:
  "wf_db db \<Longrightarrow> c \<in> set (db_cameras db) \<Longrightarrow> d \<in> set (db_cameras db) \<Longrightarrow> cam_id d = cam_id c \<Longrightarrow> d = c"
  using wf_camera(1) by (metis option.inject)

lemma wf_group:
  assumes "wf_db db" and "grp \<in> set (db_groups db)"
  shows "findGroup db (grp_id grp) = Some grp" and "grp_id grp \<noteq> []"
proof -
  from assms have "distinct (map grp_id (db_groups db))" by (simp add: wf_db_def)
  then show "findGroup db (grp_id grp) = Some grp"
    unfolding findGroup_def using assms(2) by (rule find_key)
  from assms show "grp_id grp \<noteq> []" by (auto simp: wf_db_def image_iff)
qed

lemma wf_permission:
  assumes "wf_db db" and "p \<in> set (db_permissions db)"
  shows "perm_cameraId p = Some i \<Longrightarrow> i \<in> cam_id ` set (db_cameras db)"
    and "perm_cameraId p = Some i \<Longrightarrow> i \<noteq> []" and "perm_groupId p = Some g \<Longrightarrow> g \<noteq> []"
proof -
  from assms have w: "wf_perm db p" by (simp add: wf_db_def list_all_iff)
  then show cam: "perm_cameraId p = Some i \<Longrightarrow> i \<in> cam_id ` set (db_cameras db)"
    by (simp add: wf_perm_def)
  with assms show "perm_cameraId p = Some i \<Longrightarrow> i \<noteq> []" by (auto simp: wf_db_def image_iff)
  from w assms show "perm_groupId p = Some g \<Longrightarrow> g \<noteq> []"
    by (auto simp: wf_perm_def wf_db_def image_iff)
qed

lemma hasLevel_iff:
  assumes "wf_db db" and c: "c \<in> set (db_cameras db)"
  shows "hasLevel db user (cam_id c) l \<longleftrightarrow>
    isPrivileged user \<or> hasDirect db user (cam_id c) l \<or> viaGroup db user c l"
proof -
  let ?allowed = "case cam_groupId c of None \<Rightarrow> [] | Some g \<Rightarrow> if g = [] then []
                  else filterAllowedGroupIds db [g]"
  let ?ps = "filter (\<lambda>p. perm_userId p = user_id user \<and> (perm_cameraId p = Some (cam_id c)
       \<or> (?allowed \<noteq> [] \<and> perm_groupId p = Some (hd ?allowed)))) (db_permissions db)"
  have "(case ?ps of [] \<Rightarrow> False | p # ps \<Rightarrow> l \<le> maxLevel (perm_level p) (p # ps))
          \<longleftrightarrow> (\<exists>p\<in>set ?ps. l \<le> perm_level p)"
    by (cases ?ps) (auto simp: le_maxLevel simp del: maxLevel.simps)
  moreover have "(\<exists>p\<in>set ?ps. l \<le> perm_level p)
          \<longleftrightarrow> hasDirect db user (cam_id c) l \<or> viaGroup db user c l"
  proof (cases "cam_groupId c")
    case None
    then show ?thesis by (auto simp: hasDirect_def viaGroup_def list_ex_iff)
  next
    case (Some g)
    with wf_camera(4) [OF assms] have "g \<noteq> []" by simp
    with Some show ?thesis
      by (auto simp: hasDirect_def viaGroup_def list_ex_iff filterAllowed_single)
  qed
  moreover have "hasLevel db user (cam_id c) l \<longleftrightarrow> isPrivileged user
      \<or> (case ?ps of [] \<Rightarrow> False | p # ps \<Rightarrow> l \<le> maxLevel (perm_level p) (p # ps))"
    by (simp add: hasLevel_def getMaxPermissionLevel_def wf_camera(1) [OF assms] Let_def
        split: list.splits)
  ultimately show ?thesis by simp
qed

lemma private_level_iff:
  assumes "wf_db db" and "c \<in> set (db_cameras db)"
  shows "hasPrivateContentLevel db user (cam_id c) l =
    (if cam_isPrivate c then Some (ownsPrivate user c \<or> hasDirect db user (cam_id c) l) else None)"
  using wf_camera(1) [OF assms]
  by (auto simp: hasPrivateContentLevel_def ownsPrivate_def hasDirect_def list_ex_iff)

text \<open>
  The contract of a content gate at a level: a private camera is open exactly to its owner and to
  direct grants of that level, any other camera also to the privileged roles and to the grants of
  its group.
\<close>

definition gateSpec :: "permissionLevel \<Rightarrow> accessDb \<Rightarrow> authUser \<Rightarrow> camera \<Rightarrow> bool" where
  "gateSpec l db user c =
     (if cam_isPrivate c then ownsPrivate user c \<or> hasDirect db user (cam_id c) l
      else isPrivileged user \<or> hasDirect db user (cam_id c) l \<or> viaGroup db user c l)"

lemma hasDirect_mono: "l \<le> l' \<Longrightarrow> hasDirect db user i l' \<Longrightarrow> hasDirect db user i l"
  by (auto simp: hasDirect_def list_ex_iff)

lemma viaGroup_mono: "l \<le> l' \<Longrightarrow> viaGroup db user c l' \<Longrightarrow> viaGroup db user c l"
  by (auto simp: viaGroup_def list_ex_iff split: option.splits)

locale content_gate =
  fixes gate :: "accessDb \<Rightarrow> authUser \<Rightarrow> string \<Rightarrow> bool" and lvl :: permissionLevel
  assumes gate_iff: "wf_db db \<Longrightarrow> c \<in> set (db_cameras db) \<Longrightarrow>
    gate db user (cam_id c) \<longleftrightarrow> gateSpec lvl db user c"
begin

lemma private_closed:
  assumes "wf_db db" "c \<in> set (db_cameras db)" "cam_isPrivate c"
    and "cam_ownerUserId c \<noteq> Some (user_id user)"
    and "\<forall>p\<in>set (db_permissions db). perm_userId p = user_id user \<longrightarrow> perm_cameraId p \<noteq> Some (cam_id c)"
  shows "\<not> gate db user (cam_id c)"
  using assms by (auto simp: gate_iff gateSpec_def ownsPrivate_def hasDirect_def list_ex_iff)

lemma owner_open:
  "wf_db db \<Longrightarrow> c \<in> set (db_cameras db) \<Longrightarrow> ownsPrivate user c \<Longrightarrow> gate db user (cam_id c)"
  by (auto simp: gate_iff gateSpec_def ownsPrivate_def)

lemma weaker_gate:
  assumes "wf_db db" "c \<in> set (db_cameras db)" "gate db user (cam_id c)" "l \<le> lvl"
  shows "gateSpec l db user c"
  using assms hasDirect_mono viaGroup_mono
  by (auto simp: gate_iff gateSpec_def split: if_splits)

end

lemmas gate_unfold = gateSpec_def private_level_iff hasLevel_iff

interpretation view_gate: content_gate canViewCamera VIEW
  by unfold_locales (auto simp: canViewCamera_def gate_unfold)

interpretation control_gate: content_gate canControlCamera CONTROL
  by unfold_locales (auto simp: canControlCamera_def gate_unfold)

interpretation record_gate: content_gate canRecordCamera RECORD
  by unfold_locales (auto simp: canRecordCamera_def gate_unfold)

text \<open>The listing, characterised row by row.\<close>

lemma set_directIdsOf:
  assumes "wf_db db"
  shows "i \<in> set (directIdsOf db user) \<longleftrightarrow> hasDirect db user i VIEW"
  using wf_permission(2) [OF assms]
  by (fastforce simp: directIdsOf_def set_definedIds hasDirect_def list_ex_iff image_iff)

lemma set_authorizedPrivate:
  assumes "wf_db db" "c \<in> set (db_cameras db)"
  shows "cam_id c \<in> set (authorizedPrivateIds db user) \<longleftrightarrow>
    cam_isPrivate c \<and> (ownsPrivate user c \<or> hasDirect db user (cam_id c) VIEW)"
proof -
  have row: "cam_id c \<in> cam_id ` {d \<in> set (db_cameras db). P d} \<longleftrightarrow> P c" for P
    using assms(2) by (auto dest: wf_camera_unique [OF assms])
  have "set (authorizedPrivateIds db user) =
      cam_id ` {d \<in> set (db_cameras db). cam_isPrivate d \<and> cam_ownerUserId d = Some (user_id user)}
      \<union> cam_id ` {d \<in> set (db_cameras db). cam_id d \<in> set (directIdsOf db user) \<and> cam_isPrivate d}"
    by (auto simp: authorizedPrivateIds_def Let_def)
  then show ?thesis
    by (simp only: Un_iff row set_directIdsOf [OF assms(1)]) (auto simp: ownsPrivate_def)
qed

lemma accessible_privileged:
  assumes "wf_db db" "c \<in> set (db_cameras db)" "isPrivileged user"
  shows "cam_id c \<in> set (getAccessibleCameraIds db user) \<longleftrightarrow> gateSpec VIEW db user c"
proof -
  have row: "cam_id c \<in> cam_id ` {d \<in> set (db_cameras db). P d} \<longleftrightarrow> P c" for P
    using assms(2) by (auto dest: wf_camera_unique [OF assms(1,2)])
  show ?thesis
    using assms(3) set_authorizedPrivate [OF assms(1,2), of user]
    by (auto simp: getAccessibleCameraIds_def Let_def gateSpec_def row)
qed

lemma accessible_unprivileged:
  assumes "wf_db db" "c \<in> set (db_cameras db)" "\<not> isPrivileged user"
  shows "cam_id c \<in> set (getAccessibleCameraIds db user) \<longleftrightarrow>
    hasDirect db user (cam_id c) VIEW
    \<or> (viaGroup db user c VIEW \<and> (cam_isPrivate c \<longrightarrow> ownsPrivate user c))"
proof -
  have row: "cam_id c \<in> cam_id ` {d \<in> set (db_cameras db). P d} \<longleftrightarrow> P c" for P
    using assms(2) by (auto dest: wf_camera_unique [OF assms(1,2)])
  let ?gs = "definedIds (map perm_groupId (filter (\<lambda>p. perm_userId p = user_id user
               \<and> perm_groupId p \<noteq> None) (db_permissions db)))"
  let ?allowed = "if ?gs \<noteq> [] then filterAllowedGroupIds db ?gs else []"
  let ?cams = "if ?allowed \<noteq> [] then filter (\<lambda>c. opt_in (cam_groupId c) ?allowed) (db_cameras db) else []"
  have gs: "g \<in> set ?gs \<longleftrightarrow> (\<exists>p\<in>set (db_permissions db). perm_userId p = user_id user
              \<and> perm_groupId p = Some g)" for g
    using wf_permission(3) [OF assms(1)] by (fastforce simp: set_definedIds image_iff)
  have "set ?allowed = {g \<in> set ?gs. groupAllows db g}" by (auto simp: set_filterAllowed)
  then have allowed: "g \<in> set ?allowed \<longleftrightarrow> g \<in> set ?gs \<and> groupAllows db g" for g by auto
  have via: "opt_in (cam_groupId c) ?allowed \<longleftrightarrow> viaGroup db user c VIEW"
    unfolding opt_in_def viaGroup_def
    by (cases "cam_groupId c") (auto simp only: option.case allowed gs list_ex_iff VIEW_le simp_thms)
  have cams: "set ?cams = {d \<in> set (db_cameras db). opt_in (cam_groupId d) ?allowed}"
    by (cases ?allowed) (auto simp: opt_in_def split: option.splits)
  have priv: "set (filter cam_isPrivate ?cams)
      = {d \<in> set (db_cameras db). opt_in (cam_groupId d) ?allowed \<and> cam_isPrivate d}"
    unfolding set_filter cams by blast
  have "set (getAccessibleCameraIds db user) =
     {i \<in> set (directIdsOf db user) \<union> cam_id ` set ?cams.
        i \<notin> cam_id ` set (filter cam_isPrivate ?cams) \<or> i \<in> set (authorizedPrivateIds db user)}"
    using assms(3) unfolding getAccessibleCameraIds_def Let_def by simp
  then have "cam_id c \<in> set (getAccessibleCameraIds db user) \<longleftrightarrow>
     (cam_id c \<in> set (directIdsOf db user) \<or> cam_id c \<in> cam_id ` set ?cams) \<and>
     (cam_id c \<notin> cam_id ` set (filter cam_isPrivate ?cams)
        \<or> cam_id c \<in> set (authorizedPrivateIds db user))"
    by blast
  then show ?thesis
    unfolding priv cams row via set_directIdsOf [OF assms(1)] set_authorizedPrivate [OF assms(1,2)]
    by (auto simp: ownsPrivate_def)
qed

lemma accessible_exists:
  assumes "wf_db db" "i \<in> set (getAccessibleCameraIds db user)"
  shows "i \<in> cam_id ` set (db_cameras db)"
proof -
  have direct: "j \<in> set (directIdsOf db user) \<Longrightarrow> j \<in> cam_id ` set (db_cameras db)" for j
    using wf_permission(1) [OF assms(1)] by (auto simp: directIdsOf_def set_definedIds)
  have auth: "j \<in> set (authorizedPrivateIds db user) \<Longrightarrow> j \<in> cam_id ` set (db_cameras db)" for j
    by (auto simp: authorizedPrivateIds_def Let_def split: if_splits)
  show ?thesis
  proof (cases "isPrivileged user")
    case True
    with assms(2) auth show ?thesis by (auto simp: getAccessibleCameraIds_def Let_def)
  next
    case False
    with assms(2) direct show ?thesis
      by (auto simp: getAccessibleCameraIds_def Let_def split: if_splits)
  qed
qed

section \<open>Properties\<close>

text \<open>
  Property C1. Privacy of a private camera: a user of any role, administrators included, who is
  neither its owner nor the holder of a direct permission on it can neither view, control, record
  nor play it back, and it is in neither of the two camera lists the user is given.
\<close>

theorem private_camera_closed:
  assumes wf: "wf_db db" and c: "c \<in> set (db_cameras db)" and priv: "cam_isPrivate c"
    and owner: "cam_ownerUserId c \<noteq> Some (user_id user)"
    and grant: "\<forall>p\<in>set (db_permissions db).
        perm_userId p = user_id user \<longrightarrow> perm_cameraId p \<noteq> Some (cam_id c)"
  shows "\<not> canViewCamera db user (cam_id c) \<and> \<not> canControlCamera db user (cam_id c)
    \<and> \<not> canRecordCamera db user (cam_id c) \<and> \<not> canPlaybackCamera db user (cam_id c)
    \<and> cam_id c \<notin> set (getAccessibleCameraIds db user)
    \<and> cam_id c \<notin> set (getPlaybackCameraIds db user)"
proof -
  note closed = wf c priv owner grant
  have view: "\<not> canViewCamera db user (cam_id c)" by (rule view_gate.private_closed [OF closed])
  then have play: "\<not> canPlaybackCamera db user (cam_id c)" by (simp add: canPlaybackCamera_def)
  have lists: "cam_id c \<notin> set (getAccessibleCameraIds db user)"
  proof (cases "isPrivileged user")
    case True
    with accessible_privileged [OF wf c] view view_gate.gate_iff [OF wf c] show ?thesis by simp
  next
    case False
    with accessible_unprivileged [OF wf c False] priv owner grant show ?thesis
      by (auto simp: hasDirect_def list_ex_iff ownsPrivate_def)
  qed
  then have "cam_id c \<notin> set (getPlaybackCameraIds db user)"
    by (auto simp: getPlaybackCameraIds_def Let_def split: if_splits)
  with view play lists control_gate.private_closed [OF closed] record_gate.private_closed [OF closed]
  show ?thesis by simp
qed

definition sample_db :: accessDb where
  "sample_db = \<lparr>
     db_cameras = [\<lparr>cam_id = ''common'', cam_groupId = Some ''shared'', cam_isPrivate = False,
                     cam_ownerUserId = None\<rparr>,
                   \<lparr>cam_id = ''private'', cam_groupId = Some ''shared'', cam_isPrivate = True,
                     cam_ownerUserId = Some ''owner''\<rparr>,
                   \<lparr>cam_id = ''house'', cam_groupId = None, cam_isPrivate = True,
                     cam_ownerUserId = Some ''owner''\<rparr>],
     db_groups = [\<lparr>grp_id = ''shared'', grp_isActive = True, grp_accessStatus = RESTRICTED\<rparr>],
     db_permissions = [\<lparr>perm_userId = ''member'', perm_cameraId = None,
                          perm_groupId = Some ''shared'', perm_level = VIEW\<rparr>,
                       \<lparr>perm_userId = ''guest'', perm_cameraId = Some ''private'',
                          perm_groupId = None, perm_level = CONTROL\<rparr>]\<rparr>"

lemma sample_db_wf: "wf_db sample_db"
  by code_simp

theorem private_camera_closed_witness:
  "\<not> canViewCamera sample_db \<lparr>user_id = ''root'', user_role = SUPER_ADMIN\<rparr> ''private''
   \<and> ''private'' \<notin> set (getAccessibleCameraIds sample_db \<lparr>user_id = ''root'', user_role = SUPER_ADMIN\<rparr>)"
  using private_camera_closed
    [of sample_db "db_cameras sample_db ! 1" "\<lparr>user_id = ''root'', user_role = SUPER_ADMIN\<rparr>"]
    sample_db_wf by (simp add: sample_db_def)

lemma accessible_view:
  assumes "wf_db db" "c \<in> set (db_cameras db)" "cam_id c \<in> set (getAccessibleCameraIds db user)"
  shows "canViewCamera db user (cam_id c)"
  using assms accessible_privileged [OF assms(1,2)] accessible_unprivileged [OF assms(1,2)]
  by (cases "isPrivileged user") (auto simp: view_gate.gate_iff gateSpec_def ownsPrivate_def)

text \<open>
  Property C34. The list of accessible cameras against the per-camera gate. A camera is listed
  exactly when it exists and \<open>canViewCamera\<close> grants it, with one exception: the unprivileged
  owner of a private camera who holds neither a direct permission on it nor a permission through
  an allowed group passes the gate and is not given the camera in the list.
\<close>

theorem accessible_list_vs_gate:
  assumes wf: "wf_db db"
  shows "i \<in> set (getAccessibleCameraIds db user) \<longleftrightarrow>
    (\<exists>c\<in>set (db_cameras db). cam_id c = i \<and> canViewCamera db user i
       \<and> \<not> (\<not> isPrivileged user \<and> ownsPrivate user c
            \<and> \<not> hasDirect db user i VIEW \<and> \<not> viaGroup db user c VIEW))"
    (is "?listed \<longleftrightarrow> ?granted")
proof
  assume ?listed
  then obtain c where c: "c \<in> set (db_cameras db)" "cam_id c = i"
    using accessible_exists [OF wf] by auto
  with \<open>?listed\<close> have "canViewCamera db user i" using accessible_view [OF wf c(1)] by simp
  moreover have "isPrivileged user \<or> hasDirect db user i VIEW \<or> viaGroup db user c VIEW"
    using \<open>?listed\<close> c accessible_unprivileged [OF wf c(1)] by auto
  ultimately show ?granted using c by blast
next
  assume ?granted
  then obtain c where c: "c \<in> set (db_cameras db)" "cam_id c = i" "canViewCamera db user i"
    and ex: "isPrivileged user \<or> \<not> ownsPrivate user c
               \<or> hasDirect db user i VIEW \<or> viaGroup db user c VIEW" by blast
  then show ?listed
    using accessible_privileged [OF wf c(1)] accessible_unprivileged [OF wf c(1)]
      view_gate.gate_iff [OF wf c(1), of user]
    by (cases "isPrivileged user") (auto simp: gateSpec_def ownsPrivate_def split: if_splits)
qed

theorem accessible_list_vs_gate_witness:
  "canViewCamera sample_db \<lparr>user_id = ''owner'', user_role = VIEWER\<rparr> ''house''
   \<and> ''house'' \<notin> set (getAccessibleCameraIds sample_db \<lparr>user_id = ''owner'', user_role = VIEWER\<rparr>)
   \<and> ''common'' \<in> set (getAccessibleCameraIds sample_db \<lparr>user_id = ''member'', user_role = VIEWER\<rparr>)"
proof -
  note iff = accessible_list_vs_gate [OF sample_db_wf]
  have "''house'' \<notin> set (getAccessibleCameraIds sample_db \<lparr>user_id = ''owner'', user_role = VIEWER\<rparr>)"
    unfolding iff by code_simp
  moreover have "''common'' \<in> set (getAccessibleCameraIds sample_db \<lparr>user_id = ''member'', user_role = VIEWER\<rparr>)"
    unfolding iff by code_simp
  moreover have "canViewCamera sample_db \<lparr>user_id = ''owner'', user_role = VIEWER\<rparr> ''house''"
    by code_simp
  ultimately show ?thesis by simp
qed

text \<open>What the history gate adds to the live gate.\<close>

lemma playback_unprivileged:
  assumes "wf_db db" "c \<in> set (db_cameras db)" "\<not> isPrivileged user"
  shows "canPlaybackCamera db user (cam_id c) \<longleftrightarrow> canViewCamera db user (cam_id c) \<and>
    (\<forall>g\<in>set (db_groups db). cam_groupId c = Some (grp_id g) \<longrightarrow> grp_accessStatus g \<noteq> RESTRICTED)"
proof (cases "cam_groupId c")
  case None
  with assms show ?thesis by (simp add: canPlaybackCamera_def wf_camera(1))
next
  case (Some g)
  then obtain grp where grp: "grp \<in> set (db_groups db)" "grp_id grp = g"
    using wf_camera(3) [OF assms(1,2)] by auto
  then have find: "findGroup db g = Some grp" using wf_group(1) [OF assms(1)] by auto
  have uniq: "g' = grp" if "g' \<in> set (db_groups db)" "grp_id g' = g" for g'
    using wf_group(1) [OF assms(1)] that grp by (metis option.inject)
  have "canPlaybackCamera db user (cam_id c) \<longleftrightarrow>
      canViewCamera db user (cam_id c) \<and> grp_accessStatus grp \<noteq> RESTRICTED"
    using assms(3) Some wf_camera(4) [OF assms(1,2) Some]
    by (simp add: canPlaybackCamera_def wf_camera(1) [OF assms(1,2)] find)
  with Some grp uniq show ?thesis by (metis option.inject)
qed

text \<open>
  The list of cameras whose history may be shown is exactly the part of the
  accessible list that passes the per-camera history gate: the batched query and the single
  check agree.
\<close>

theorem playback_list_exact:
  assumes wf: "wf_db db"
  shows "i \<in> set (getPlaybackCameraIds db user) \<longleftrightarrow>
    i \<in> set (getAccessibleCameraIds db user) \<and> canPlaybackCamera db user i"
proof (cases "isPrivileged user")
  case True
  then show ?thesis
    using accessible_exists [OF wf] accessible_view [OF wf]
    by (fastforce simp: getPlaybackCameraIds_def canPlaybackCamera_def)
next
  case False
  let ?acc = "getAccessibleCameraIds db user"
  let ?cams = "filter (\<lambda>c. cam_id c \<in> set ?acc) (db_cameras db)"
  let ?ok = "\<lambda>c. \<forall>g\<in>set (db_groups db). cam_groupId c = Some (grp_id g) \<longrightarrow> grp_accessStatus g \<noteq> RESTRICTED"
  let ?gs = "js_uniq (definedIds (map cam_groupId ?cams))"
  let ?restricted = "map grp_id (filter (\<lambda>g. grp_id g \<in> set ?gs \<and> grp_accessStatus g = RESTRICTED)
                       (db_groups db))"
  let ?keep = "\<lambda>c. (case cam_groupId c of None \<Rightarrow> True | Some g \<Rightarrow> g = []) \<or> \<not> opt_in (cam_groupId c) ?restricted"
  have gs: "g \<in> set ?gs" if "c \<in> set ?cams" "cam_groupId c = Some g" for c g
    using that wf_camera(4) [OF wf, of c g] by (force simp: set_definedIds image_iff)
  have keep: "?keep c \<longleftrightarrow> ?ok c" if "c \<in> set ?cams" for c
    using that wf_camera(4) [OF wf, of c] gs [OF that]
    by (cases "cam_groupId c") (auto simp: opt_in_def)
  have "set (getPlaybackCameraIds db user) = cam_id ` {c \<in> set ?cams. ?keep c}"
  proof (cases "?acc = [] \<or> ?gs = []")
    case True
    then have "set (getPlaybackCameraIds db user) = cam_id ` set ?cams"
      using False by (auto simp: getPlaybackCameraIds_def Let_def)
    moreover from True have "?keep c" if "c \<in> set ?cams" for c
      using that gs [OF that] by (cases "cam_groupId c") auto
    ultimately show ?thesis by blast
  next
    case nonempty: False
    with False show ?thesis by (simp add: getPlaybackCameraIds_def Let_def del: set_filter) auto
  qed
  then have "set (getPlaybackCameraIds db user) = cam_id ` {c \<in> set ?cams. ?ok c}"
    using keep by auto
  also have "\<dots> = {i \<in> set ?acc. canPlaybackCamera db user i}"
    using accessible_exists [OF wf] accessible_view [OF wf] playback_unprivileged [OF wf _ False]
    by (fastforce simp: image_iff)
  finally show ?thesis by simp
qed

theorem playback_list_exact_witness:
  "''common'' \<in> set (getAccessibleCameraIds sample_db \<lparr>user_id = ''member'', user_role = VIEWER\<rparr>)
   \<and> ''common'' \<notin> set (getPlaybackCameraIds sample_db \<lparr>user_id = ''member'', user_role = VIEWER\<rparr>)"
  unfolding playback_list_exact [OF sample_db_wf] by code_simp

text \<open>
  The gates are nested: whoever may change the recording may control, whoever may
  control may view, and history implies live. On a camera that is not private the administration
  gate implies all of them; on a private one it implies none (the privileged stranger of C1).
\<close>

theorem gates_nested:
  assumes wf: "wf_db db" and c: "c \<in> set (db_cameras db)"
  shows "(canRecordCamera db user (cam_id c) \<longrightarrow> canControlCamera db user (cam_id c))
    \<and> (canControlCamera db user (cam_id c) \<longrightarrow> canViewCamera db user (cam_id c))
    \<and> (canPlaybackCamera db user (cam_id c) \<longrightarrow> canViewCamera db user (cam_id c))
    \<and> (\<not> cam_isPrivate c \<and> canAdminCamera db user (cam_id c) \<longrightarrow> canRecordCamera db user (cam_id c))"
proof -
  have "canRecordCamera db user (cam_id c) \<Longrightarrow> canControlCamera db user (cam_id c)"
    using record_gate.weaker_gate [OF wf c _ level_chain(2)] control_gate.gate_iff [OF wf c] by simp
  moreover have "canControlCamera db user (cam_id c) \<Longrightarrow> canViewCamera db user (cam_id c)"
    using control_gate.weaker_gate [OF wf c _ level_chain(1)] view_gate.gate_iff [OF wf c] by simp
  moreover have "canPlaybackCamera db user (cam_id c) \<Longrightarrow> canViewCamera db user (cam_id c)"
    by (simp add: canPlaybackCamera_def split: if_splits)
  moreover have "\<not> cam_isPrivate c \<Longrightarrow> canAdminCamera db user (cam_id c) \<Longrightarrow> canRecordCamera db user (cam_id c)"
    using hasDirect_mono [OF level_chain(3)] viaGroup_mono [OF level_chain(3)]
    by (auto simp: canAdminCamera_def hasLevel_iff [OF wf c] record_gate.gate_iff [OF wf c] gateSpec_def)
  ultimately show ?thesis by blast
qed

theorem gates_nested_witness:
  "canControlCamera sample_db \<lparr>user_id = ''guest'', user_role = VIEWER\<rparr> ''private''
   \<and> canViewCamera sample_db \<lparr>user_id = ''guest'', user_role = VIEWER\<rparr> ''private''"
proof -
  have "canControlCamera sample_db \<lparr>user_id = ''guest'', user_role = VIEWER\<rparr> ''private''" by code_simp
  moreover have "db_cameras sample_db ! 1 \<in> set (db_cameras sample_db)"
    and "cam_id (db_cameras sample_db ! 1) = ''private''" by (simp_all add: sample_db_def)
  ultimately show ?thesis
    using gates_nested [OF sample_db_wf, of "db_cameras sample_db ! 1"] by simp
qed

text \<open>
  A group that is suspended or inactive grants nothing: without the global
  privilege and without a direct permission, a camera of such a group that is not private is
  closed to every operation and missing from the list, whatever permission the user holds on the
  group.
\<close>

theorem suspended_group_grants_nothing:
  assumes wf: "wf_db db" and c: "c \<in> set (db_cameras db)" and g: "cam_groupId c = Some g"
    and blocked: "\<forall>grp\<in>set (db_groups db). grp_id grp = g \<longrightarrow>
        \<not> grp_isActive grp \<or> grp_accessStatus grp = SUSPENDED"
    and pub: "\<not> cam_isPrivate c" and role: "\<not> isPrivileged user"
    and grant: "\<forall>p\<in>set (db_permissions db).
        perm_userId p = user_id user \<longrightarrow> perm_cameraId p \<noteq> Some (cam_id c)"
  shows "\<not> canViewCamera db user (cam_id c) \<and> \<not> canControlCamera db user (cam_id c)
    \<and> \<not> canRecordCamera db user (cam_id c) \<and> \<not> canAdminCamera db user (cam_id c)
    \<and> cam_id c \<notin> set (getAccessibleCameraIds db user)"
proof -
  have via: "\<not> viaGroup db user c l" for l
    using blocked g by (auto simp: viaGroup_def groupAllows_def list_ex_iff)
  have direct: "\<not> hasDirect db user (cam_id c) l" for l
    using grant by (auto simp: hasDirect_def list_ex_iff)
  show ?thesis
    using role pub via direct accessible_unprivileged [OF wf c role]
    by (simp add: view_gate.gate_iff [OF wf c] control_gate.gate_iff [OF wf c]
        record_gate.gate_iff [OF wf c] gateSpec_def canAdminCamera_def hasLevel_iff [OF wf c])
qed

theorem suspended_group_grants_nothing_witness:
  "\<not> canViewCamera (sample_db\<lparr>db_groups :=
       [\<lparr>grp_id = ''shared'', grp_isActive = True, grp_accessStatus = SUSPENDED\<rparr>]\<rparr>)
     \<lparr>user_id = ''member'', user_role = OPERATOR\<rparr> ''common''"
proof -
  let ?db = "sample_db\<lparr>db_groups := [\<lparr>grp_id = ''shared'', grp_isActive = True, grp_accessStatus = SUSPENDED\<rparr>]\<rparr>"
  have wf: "wf_db ?db" by code_simp
  show ?thesis
    using suspended_group_grants_nothing [OF wf, of "hd (db_cameras sample_db)" "''shared''"
        "\<lparr>user_id = ''member'', user_role = OPERATOR\<rparr>"]
    by (simp add: sample_db_def isPrivileged_def)
qed

end
