(* ===== verification/Env_Config.thy ===== *)
theory Env_Config
  imports Js_Prelude
begin

text \<open>
  Reading configuration from the environment
  (\<open>apps/api/src/common/config/env-number.helper.ts\<close>). The raw value is what
  \<open>process.env\<close> holds: \<open>None\<close> is an absent variable. Each reader returns its value together
  with the flag that says whether \<open>onInvalid\<close> was called.
\<close>

section \<open>Definitions\<close>

text \<open>The four shapes of \<open>raw: unknown\<close> the parsers tell apart.\<close>

datatype rawval = RNumber jsnum | RString string | RBool bool | ROther

record envNumberOptions =
  opt_min :: "rat option"
  opt_max :: "rat option"
  opt_integer :: bool

text \<open>\<open>trimmed.replace(',', '.')\<close> replaces the first comma only.\<close>

fun replace_comma :: "string \<Rightarrow> string" where
  "replace_comma [] = []"
| "replace_comma (c # cs) = (if c = CHR '','' then CHR ''.'' # cs else c # replace_comma cs)"

definition strip_sign :: "string \<Rightarrow> string" where
  "strip_sign s = (case s of c # cs \<Rightarrow> if c = CHR ''+'' \<or> c = CHR ''-'' then cs else s | [] \<Rightarrow> [])"

text \<open>\<open>/^[+-]?(\d+\.?\d*|\.\d+)$/\<close>, with the integral and fractional digits it separates.\<close>

definition decimal_parts :: "string \<Rightarrow> (string \<times> string) option" where
  "decimal_parts s =
     (let body = strip_sign s; ip = takeWhile is_digit body; r = dropWhile is_digit body in
      if ip \<noteq> []
      then (case r of
              [] \<Rightarrow> Some (ip, [])
            | c # fs \<Rightarrow> if c = CHR ''.'' \<and> list_all is_digit fs then Some (ip, fs) else None)
      else (case r of
              [] \<Rightarrow> None
            | c # fs \<Rightarrow> if c = CHR ''.'' \<and> fs \<noteq> [] \<and> list_all is_digit fs
                        then Some ([], fs) else None))"

fun digits_value :: "int \<Rightarrow> string \<Rightarrow> int" where
  "digits_value acc [] = acc"
| "digits_value acc (c # cs) = digits_value (10 * acc + (of_char c - 48)) cs"

text \<open>Decimal literals whose magnitude reaches this bound round to \<open>Infinity\<close>.\<close>

definition double_overflow :: int where
  "double_overflow = 2 ^ 1024 - 2 ^ 970"

definition parseFiniteNumber :: "rawval option \<Rightarrow> rat option" where
  "parseFiniteNumber raw =
     (case raw of
        Some (RNumber (Fin x)) \<Rightarrow> Some x
      | Some (RString s) \<Rightarrow>
          (let trimmed = js_trim s in
           if trimmed = [] then None
           else let normalized = replace_comma trimmed in
             (case decimal_parts normalized of
                None \<Rightarrow> None
              | Some (ip, fp) \<Rightarrow>
                  let m = of_int (digits_value 0 (ip @ fp)) / 10 ^ length fp;
                      v = (if hd normalized = CHR ''-'' then - m else m)
                  in if \<lfloor>\<bar>v\<bar>\<rfloor> < double_overflow then Some v else None))
      | _ \<Rightarrow> None)"

definition warns :: "string option \<Rightarrow> bool" where
  "warns raw = (case raw of None \<Rightarrow> False | Some s \<Rightarrow> js_trim s \<noteq> [])"

fun to_raw :: "string option \<Rightarrow> rawval option" where
  "to_raw None = None"
| "to_raw (Some s) = Some (RString s)"

fun trunc_num :: "jsnum \<Rightarrow> jsnum" where
  "trunc_num (Fin x) = Fin (of_int (math_trunc x))"
| "trunc_num NonFinite = NonFinite"

fun raise_min :: "rat option \<Rightarrow> jsnum \<Rightarrow> jsnum" where
  "raise_min (Some m) (Fin x) = (if x < m then Fin m else Fin x)"
| "raise_min _ v = v"

fun lower_max :: "rat option \<Rightarrow> jsnum \<Rightarrow> jsnum" where
  "lower_max (Some m) (Fin x) = (if x > m then Fin m else Fin x)"
| "lower_max _ v = v"

text \<open>
  \<open>envNumber(name, fallback, options, source)\<close> for the raw value \<open>source[name]\<close>. A comparison
  with \<open>NaN\<close> is false, so the limits do not touch a non-finite value.
\<close>

definition envNumber :: "string option \<Rightarrow> jsnum \<Rightarrow> envNumberOptions \<Rightarrow> rat \<times> bool" where
  "envNumber raw fallback options =
     (let parsed = parseFiniteNumber (to_raw raw);
          value = (case parsed of None \<Rightarrow> fallback | Some v \<Rightarrow> Fin v);
          v1 = (if opt_integer options then trunc_num value else value);
          v2 = raise_min (opt_min options) v1;
          v3 = lower_max (opt_max options) v2
      in (finite_or v3 0, parsed = None \<and> warns raw))"

definition BOOL_TRUE :: "string list" where
  "BOOL_TRUE = [''1'', ''true'', ''t'', ''yes'', ''y'', ''on'']"

definition BOOL_FALSE :: "string list" where
  "BOOL_FALSE = [''0'', ''false'', ''f'', ''no'', ''n'', ''off'']"

definition parseBooleanish :: "rawval option \<Rightarrow> bool option" where
  "parseBooleanish raw =
     (case raw of
        Some (RBool b) \<Rightarrow> Some b
      | Some (RString s) \<Rightarrow>
          (let normalized = js_lower (js_trim s) in
           if normalized = [] then None
           else if normalized \<in> set BOOL_TRUE then Some True
           else if normalized \<in> set BOOL_FALSE then Some False
           else None)
      | _ \<Rightarrow> None)"

definition envBool :: "string option \<Rightarrow> bool \<Rightarrow> bool \<times> bool" where
  "envBool raw fallback =
     (case parseBooleanish (to_raw raw) of
        Some b \<Rightarrow> (b, False)
      | None \<Rightarrow> (fallback, warns raw))"

section \<open>Lemmas\<close>

lemma double_overflow_literal [code]:
  "double_overflow =
    179769313486231580793728971405303415079934132710037826936173778980444968292764750946649017977587207096330286416692887910946555547851940402630657488671505820681908902000708383676273854845817711531764475730270069855571366959622842914819860834936475292719074168444365510704342711559699508093042880177904174497792"
  by (simp add: double_overflow_def)

lemma raise_min_Fin: "\<exists>y. raise_min m (Fin x) = Fin y \<and> x \<le> y \<and> (\<forall>l. m = Some l \<longrightarrow> l \<le> y)"
  by (cases m) auto

lemma lower_max_Fin: "\<exists>y. lower_max m (Fin x) = Fin y \<and> y \<le> x \<and> (\<forall>h. m = Some h \<longrightarrow> y \<le> h)
    \<and> (\<forall>l h. m = Some h \<longrightarrow> l \<le> h \<longrightarrow> l \<le> x \<longrightarrow> l \<le> y) \<and> (m = None \<longrightarrow> y = x)"
  by (cases m) auto

lemma trunc_num_Fin: "\<exists>n. trunc_num (Fin x) = Fin (of_int n)"
  by simp

text \<open>The value the limits are applied to is finite as soon as the fallback is.\<close>

lemma envNumber_value:
  assumes "isFinite fallback"
  obtains x where
    "fst (envNumber raw fallback options)
       = finite_or (lower_max (opt_max options) (raise_min (opt_min options) (Fin x))) 0"
    and "opt_integer options \<Longrightarrow> x \<in> \<int>"
proof -
  let ?v = "case parseFiniteNumber (to_raw raw) of None \<Rightarrow> fallback | Some v \<Rightarrow> Fin v"
  obtain v where v: "?v = Fin v"
    using assms by (cases fallback; cases "parseFiniteNumber (to_raw raw)") auto
  show ?thesis
  proof (cases "opt_integer options")
    case True
    show ?thesis
      by (rule that [of "of_int (math_trunc v)"])
         (use v True in \<open>simp_all add: envNumber_def Let_def\<close>)
  next
    case False
    show ?thesis
      by (rule that [of v]) (use v False in \<open>simp_all add: envNumber_def Let_def\<close>)
  qed
qed

lemma digits_value_append:
  "digits_value acc (xs @ ys) = digits_value (digits_value acc xs) ys"
  by (induction xs arbitrary: acc) auto

lemma show_nat_not_Nil: "show_nat n \<noteq> []"
  by (subst show_nat.simps) simp

lemma digits_value_show_nat: "digits_value 0 (show_nat n) = int n"
proof (induction n rule: show_nat.induct)
  case (1 n)
  show ?case
  proof (cases "n < 10")
    case True
    then show ?thesis by (subst show_nat.simps) simp
  next
    case False
    with 1 have "digits_value 0 (show_nat (n div 10)) = int (n div 10)" by simp
    moreover have "10 * int (n div 10) + int (n mod 10) = int n" by (simp add: zdiv_int zmod_int)
    ultimately show ?thesis using False
      by (subst show_nat.simps) (simp add: digits_value_append)
  qed
qed

lemma is_digit_other:
  "is_digit c \<Longrightarrow> \<not> js_space c"
  "is_digit c \<Longrightarrow> c \<noteq> CHR '','' \<and> c \<noteq> CHR ''+'' \<and> c \<noteq> CHR ''-'' \<and> c \<noteq> CHR ''.''"
  by (auto simp: is_digit_def js_space_def)

lemma js_trim_digits: "list_all is_digit s \<Longrightarrow> js_trim s = s"
proof -
  have drop: "list_all is_digit t \<Longrightarrow> dropWhile js_space t = t" for t
    by (cases t) (auto dest: is_digit_other(1))
  assume "list_all is_digit s"
  then show ?thesis by (simp add: js_trim_def drop)
qed

lemma replace_comma_digits: "list_all is_digit s \<Longrightarrow> replace_comma s = s"
  by (induction s) (auto dest: is_digit_other(2))

lemma decimal_parts_digits:
  assumes "list_all is_digit s" "s \<noteq> []"
  shows "decimal_parts s = Some (s, [])"
proof -
  from assms obtain c cs where s: "s = c # cs" and c: "is_digit c" by (cases s) auto
  from c have sign: "strip_sign s = s"
    unfolding s strip_sign_def by (auto dest: is_digit_other(2))
  have split: "takeWhile is_digit s = s" "dropWhile is_digit s = []"
    using assms(1) by (auto simp: list_all_iff)
  show ?thesis using assms(2) unfolding decimal_parts_def Let_def sign split by simp
qed

definition number_char :: "char \<Rightarrow> bool" where
  "number_char c \<longleftrightarrow> is_digit c \<or> c \<in> set ''+-.,''"

lemma replace_comma_chars: "list_all number_char (replace_comma s) \<Longrightarrow> list_all number_char s"
  by (induction s) (auto simp: number_char_def split: if_splits)

lemma decimal_parts_chars:
  assumes "decimal_parts s = Some r"
  shows "list_all number_char s"
proof -
  let ?b = "strip_sign s"
  have ip: "list_all number_char (takeWhile is_digit ?b)"
    by (auto simp: list_all_iff number_char_def dest: set_takeWhileD)
  have "list_all number_char (dropWhile is_digit ?b)"
  proof (cases "dropWhile is_digit ?b")
    case (Cons c fs)
    with assms have "c = CHR ''.'' \<and> list_all is_digit fs"
      by (auto simp: decimal_parts_def Let_def split: if_splits)
    then show ?thesis unfolding Cons by (auto simp: list_all_iff number_char_def)
  next
    case Nil
    show ?thesis unfolding Nil by simp
  qed
  with ip have "list_all number_char ?b"
    by (metis list_all_append takeWhile_dropWhile_id)
  then show ?thesis
    by (auto simp: strip_sign_def number_char_def split: list.splits if_splits)
qed

text \<open>The limits, as the callers use them.\<close>

lemma envNumber_limits:
  assumes "isFinite fallback"
    and "\<forall>l h. opt_min options = Some l \<longrightarrow> opt_max options = Some h \<longrightarrow> l \<le> h"
  shows "opt_min options = Some l \<Longrightarrow> l \<le> fst (envNumber raw fallback options)"
    and "opt_max options = Some h \<Longrightarrow> fst (envNumber raw fallback options) \<le> h"
proof -
  obtain x where x: "fst (envNumber raw fallback options)
       = finite_or (lower_max (opt_max options) (raise_min (opt_min options) (Fin x))) 0"
    using envNumber_value [OF assms(1)] by blast
  show "opt_min options = Some l \<Longrightarrow> l \<le> fst (envNumber raw fallback options)"
    using x assms(2) by (cases "opt_max options") auto
  show "opt_max options = Some h \<Longrightarrow> fst (envNumber raw fallback options) \<le> h"
    using x assms(2) by (cases "opt_min options") auto
qed

section \<open>Properties\<close>

text \<open>
  \<open>envNumber\<close> with a finite fallback and consistent limits returns a number within
  the limits whatever the environment holds, an integer where one is asked for and the limits are
  integers, and the fallback (limited the same way) for an absent variable, without a warning.
\<close>

theorem envNumber_in_limits:
  assumes fb: "isFinite fallback"
    and lims: "\<forall>l h. opt_min options = Some l \<longrightarrow> opt_max options = Some h \<longrightarrow> l \<le> h"
  shows "(\<forall>l. opt_min options = Some l \<longrightarrow> l \<le> fst (envNumber raw fallback options))
    \<and> (\<forall>h. opt_max options = Some h \<longrightarrow> fst (envNumber raw fallback options) \<le> h)
    \<and> (opt_integer options \<and> (\<forall>l. opt_min options = Some l \<longrightarrow> l \<in> \<int>)
         \<and> (\<forall>h. opt_max options = Some h \<longrightarrow> h \<in> \<int>) \<longrightarrow> fst (envNumber raw fallback options) \<in> \<int>)
    \<and> \<not> snd (envNumber None fallback options)"
proof -
  obtain x where x: "fst (envNumber raw fallback options)
       = finite_or (lower_max (opt_max options) (raise_min (opt_min options) (Fin x))) 0"
    and int: "opt_integer options \<Longrightarrow> x \<in> \<int>"
    using envNumber_value [OF fb] by blast
  have "snd (envNumber None fallback options) = False"
    by (simp add: envNumber_def Let_def warns_def)
  then show ?thesis
    using x int lims by (cases "opt_min options"; cases "opt_max options") auto
qed

theorem envNumber_in_limits_witness:
  "fst (envNumber (Some ''150%'') (Fin 90) \<lparr>opt_min = Some 50, opt_max = Some 99, opt_integer = True\<rparr>) \<le> 99
   \<and> fst (envNumber (Some ''150'') (Fin 90) \<lparr>opt_min = Some 50, opt_max = Some 99, opt_integer = True\<rparr>) = 99"
proof -
  have "fst (envNumber (Some ''150'') (Fin 90) \<lparr>opt_min = Some 50, opt_max = Some 99, opt_integer = True\<rparr>) = 99"
    by code_simp
  then show ?thesis
    using envNumber_in_limits [of "Fin 90" "\<lparr>opt_min = Some 50, opt_max = Some 99, opt_integer = True\<rparr>"]
    by simp
qed

text \<open>
  Numeric text is all or nothing: text that is accepted consists, apart from the
  surrounding blanks, of digits, signs, the decimal point and the comma only (so \<open>92%\<close> or
  \<open>90 dias\<close> is refused), and every natural number below the overflow bound printed in decimal
  is read back as itself.
\<close>

theorem parseFiniteNumber_strict:
  shows "(parseFiniteNumber (Some (RString s)) = Some v \<longrightarrow> list_all number_char (js_trim s))
    \<and> (int n < double_overflow \<longrightarrow>
         parseFiniteNumber (Some (RString (show_nat n))) = Some (of_nat n))"
proof (intro conjI impI)
  assume "parseFiniteNumber (Some (RString s)) = Some v"
  then obtain r where "decimal_parts (replace_comma (js_trim s)) = Some r"
    by (auto simp: parseFiniteNumber_def Let_def split: if_splits option.splits)
  then show "list_all number_char (js_trim s)"
    by (rule replace_comma_chars [OF decimal_parts_chars])
next
  assume n: "int n < double_overflow"
  note digits = show_nat_digits [of n] show_nat_not_Nil [of n]
  have "hd (show_nat n) \<noteq> CHR ''-''"
    using digits is_digit_other(2) by (cases "show_nat n") auto
  with n digits show "parseFiniteNumber (Some (RString (show_nat n))) = Some (of_nat n)"
    by (simp add: parseFiniteNumber_def Let_def js_trim_digits replace_comma_digits
        decimal_parts_digits digits_value_show_nat)
qed

theorem parseFiniteNumber_strict_witness:
  "parseFiniteNumber (Some (RString (show_nat 92))) = Some 92
   \<and> list_all number_char (js_trim '' 92,5 '')"
proof
  have "int 92 < double_overflow" by (simp add: double_overflow_def)
  then show "parseFiniteNumber (Some (RString (show_nat 92))) = Some 92"
    using parseFiniteNumber_strict [of "[]" 0 92] by simp
  have "parseFiniteNumber (Some (RString '' 92,5 '')) = Some (925 / 10)" by code_simp
  then show "list_all number_char (js_trim '' 92,5 '')"
    using parseFiniteNumber_strict [of "'' 92,5 ''" "925 / 10" 0] by simp
qed

text \<open>
  A fallback that is not a number defeats the limits: the last line of \<open>envNumber\<close> returns
  zero, below any positive minimum.
\<close>

lemma envNumber_nonfinite_fallback:
  "fst (envNumber None NonFinite \<lparr>opt_min = Some 1, opt_max = None, opt_integer = True\<rparr>) = 0"
  by code_simp

end
