(* ===== verification/Segment_Selection.thy ===== *)
theory Segment_Selection
  imports Js_Prelude
begin

text \<open>
  The part the two planners over recorded segments share, written twice in the source
  (\<open>recordings/helpers/vod-playlist.helper.ts\<close> and \<open>recordings/helpers/range-export.helper.ts\<close>):
  the conversion of a date to milliseconds, the end of a segment, the overlap with the requested
  interval, and the order of the selected segments.

  A date argument (\<open>Date | string | number\<close>) is represented by the time value of the
  JavaScript \<open>Date\<close> it denotes, an integer number of milliseconds, or \<open>InvalidDate\<close>. ISO strings
  in results are represented by the same time value. Instants outside the range of
  JavaScript dates are not considered.
\<close>

section \<open>Definitions\<close>

datatype dateval = DateMs int | InvalidDate

datatype planError = InvalidInterval | EmptyInterval

fun toMs :: "dateval option \<Rightarrow> int option" where
  "toMs None = None"
| "toMs (Some (DateMs ms)) = Some ms"
| "toMs (Some InvalidDate) = None"

definition roundSeconds :: "rat \<Rightarrow> rat" where
  "roundSeconds ms = of_int (math_round ms) / 1000"

text \<open>\<open>new Date(ms).toISOString()\<close>: a \<open>Date\<close> holds whole milliseconds.\<close>

definition isoOf :: "rat \<Rightarrow> int" where
  "isoOf ms = math_trunc ms"

text \<open>
  \<open>Number(durationSeconds)\<close>: both \<open>undefined\<close> and \<open>null\<close> fail the test that follows, so they
  are one value here.
\<close>

definition segmentEndMs :: "int \<Rightarrow> dateval option \<Rightarrow> jsnum option \<Rightarrow> rat option" where
  "segmentEndMs startMs endedAt durationSeconds =
     (case toMs endedAt of
        Some e \<Rightarrow> if e > startMs then Some (of_int e)
                  else (case durationSeconds of
                          Some (Fin d) \<Rightarrow> if d > 0 then Some (of_int startMs + d * 1000) else None
                        | _ \<Rightarrow> None)
      | None \<Rightarrow> (case durationSeconds of
                    Some (Fin d) \<Rightarrow> if d > 0 then Some (of_int startMs + d * 1000) else None
                  | _ \<Rightarrow> None))"

text \<open>What one turn of the candidate loop does with a segment.\<close>

datatype pick = Ignored | Skipped | Picked int rat

definition pickSegment ::
    "int \<Rightarrow> int \<Rightarrow> dateval \<Rightarrow> dateval option \<Rightarrow> jsnum option \<Rightarrow> pick" where
  "pickSegment fromMs toMsValue startedAt endedAt durationSeconds =
     (case toMs (Some startedAt) of
        None \<Rightarrow> Ignored
      | Some startMs \<Rightarrow>
          (case segmentEndMs startMs endedAt durationSeconds of
             None \<Rightarrow> if startMs < toMsValue then Skipped else Ignored
           | Some endMs \<Rightarrow>
               if endMs \<le> of_int fromMs \<or> startMs \<ge> toMsValue then Ignored
               else Picked startMs endMs))"

text \<open>The candidate loop: the number of skipped segments and the candidates, in input order.\<close>

fun collectCandidates ::
    "('s \<Rightarrow> pick) \<Rightarrow> ('s \<Rightarrow> int \<Rightarrow> rat \<Rightarrow> 'c) \<Rightarrow> 's list \<Rightarrow> nat \<times> 'c list" where
  "collectCandidates pk mk [] = (0, [])"
| "collectCandidates pk mk (raw # rest) =
     (let r = collectCandidates pk mk rest in
      case pk raw of
        Ignored \<Rightarrow> r
      | Skipped \<Rightarrow> (Suc (fst r), snd r)
      | Picked s e \<Rightarrow> (fst r, mk raw s e # snd r))"

text \<open>\<open>Math.max(1, Math.floor(input.maxSegments ?? defaultMax))\<close>\<close>

definition segmentLimit :: "rat option \<Rightarrow> rat \<Rightarrow> nat" where
  "segmentLimit maxSegments defaultMax =
     nat (max 1 \<lfloor>case maxSegments of None \<Rightarrow> defaultMax | Some m \<Rightarrow> m\<rfloor>)"

text \<open>\<open>(a.startMs - b.startMs) || a.id.localeCompare(b.id)\<close>\<close>

definition startThenId ::
    "(string \<Rightarrow> string \<Rightarrow> int) \<Rightarrow> ('c \<Rightarrow> int) \<Rightarrow> ('c \<Rightarrow> string) \<Rightarrow> 'c \<Rightarrow> 'c \<Rightarrow> rat" where
  "startThenId localeCompare startOf idOf a b =
     (if startOf a - startOf b \<noteq> 0 then of_int (startOf a - startOf b)
      else of_int (localeCompare (idOf a) (idOf b)))"

text \<open>
  Whole milliseconds: \<open>endedAt\<close> has them by its type, and a duration of whole seconds, the type
  of \<open>Recording.durationSeconds\<close>, keeps them.
\<close>

definition whole :: "rat \<Rightarrow> bool" where
  "whole x \<longleftrightarrow> of_int \<lfloor>x\<rfloor> = x"

definition wholeMs :: "jsnum option \<Rightarrow> bool" where
  "wholeMs durationSeconds =
     (case durationSeconds of Some (Fin d) \<Rightarrow> whole (d * 1000) | _ \<Rightarrow> True)"

section \<open>Lemmas\<close>

lemma whole_Ints: "whole x \<longleftrightarrow> x \<in> \<int>"
  unfolding whole_def by (metis Ints_cases Ints_of_int floor_of_int)

lemma roundSeconds_exact: "x \<in> \<int> \<Longrightarrow> roundSeconds x = x / 1000"
  by (auto simp: roundSeconds_def elim!: Ints_cases)

lemma roundSeconds_ms: "x \<in> \<int> \<Longrightarrow> roundSeconds x * 1000 = x"
  by (simp add: roundSeconds_exact)

lemma roundSeconds_nonneg: "0 \<le> x \<Longrightarrow> 0 \<le> roundSeconds x"
  by (simp add: roundSeconds_def math_round_nonneg)

lemma roundSeconds_mono: "x \<le> y \<Longrightarrow> roundSeconds x \<le> roundSeconds y"
  by (simp add: roundSeconds_def math_round_mono divide_right_mono)

lemma isoOf_int [simp]: "isoOf (of_int n) = n"
  by (simp add: isoOf_def math_trunc_def)

lemma isoOf_exact: "x \<in> \<int> \<Longrightarrow> of_int (isoOf x) = x"
  by (auto elim!: Ints_cases)

lemma segmentEndMs_after: "segmentEndMs s e d = Some x \<Longrightarrow> of_int s < x"
  by (auto simp: segmentEndMs_def split: option.splits jsnum.splits if_splits)

lemma segmentEndMs_whole: "segmentEndMs s e d = Some x \<Longrightarrow> wholeMs d \<Longrightarrow> x \<in> \<int>"
  by (auto simp: segmentEndMs_def wholeMs_def whole_Ints split: option.splits jsnum.splits if_splits)

lemma isoOf_ge: "of_int f < x \<Longrightarrow> f \<le> isoOf x"
  by (auto simp: isoOf_def math_trunc_def) linarith+

lemma pickSegment_Picked:
  assumes "pickSegment f t sa ea d = Picked s e"
  shows "sa = DateMs s" and "of_int s < e" and "of_int f < e" and "s < t"
    and "segmentEndMs s ea d = Some e"
  using assms
  by (cases sa; auto simp: pickSegment_def split: option.splits if_splits dest: segmentEndMs_after)+

lemma pickSegment_Picked_iff:
  "pickSegment f t sa ea d = Picked s e \<longleftrightarrow>
     sa = DateMs s \<and> segmentEndMs s ea d = Some e \<and> of_int f < e \<and> s < t"
  by (cases sa) (auto simp: pickSegment_def split: option.splits)

lemma collectCandidates_mem:
  "c \<in> set (snd (collectCandidates pk mk raws)) \<longleftrightarrow>
     (\<exists>raw\<in>set raws. \<exists>s e. pk raw = Picked s e \<and> c = mk raw s e)"
  by (induction raws) (auto simp: Let_def split: pick.splits)

lemma collectCandidates_skipped:
  "fst (collectCandidates pk mk raws) = length (filter (\<lambda>raw. pk raw = Skipped) raws)"
  by (induction raws) (auto simp: Let_def split: pick.splits)

lemma segmentLimit_pos: "1 \<le> segmentLimit m d"
  by (simp add: segmentLimit_def)

lemma startThenId_key: "key_comparator (startThenId lc startOf idOf) (\<lambda>c. of_int (startOf c))"
  by unfold_locales (auto simp: startThenId_def split: if_splits)

text \<open>
  The interface the planners build on: candidates taken from the input by overlap, put in order
  of their start and cut to a limit. \<open>startOf\<close> and \<open>endOf\<close> read the bounds of a candidate.
\<close>

locale interval_selection =
  fixes pk :: "'s \<Rightarrow> pick" and mk :: "'s \<Rightarrow> int \<Rightarrow> rat \<Rightarrow> 'c"
    and startOf :: "'c \<Rightarrow> int" and endOf :: "'c \<Rightarrow> rat" and idOf :: "'c \<Rightarrow> string"
    and lc :: "string \<Rightarrow> string \<Rightarrow> int" and fromMs toMsValue :: int
  assumes picked: "pk raw = Picked s e \<Longrightarrow> of_int s < e \<and> of_int fromMs < e \<and> s < toMsValue"
    and mk_bounds: "startOf (mk raw s e) = s" "endOf (mk raw s e) = e"
begin

lemma candidate_overlaps:
  assumes "c \<in> set (take n (js_sort (startThenId lc startOf idOf) (snd (collectCandidates pk mk raws))))"
  shows "of_int (startOf c) < endOf c \<and> of_int fromMs < endOf c \<and> startOf c < toMsValue"
proof -
  have "c \<in> set (snd (collectCandidates pk mk raws))"
    using in_set_takeD [OF assms] by simp
  then obtain raw s e where "pk raw = Picked s e" and "c = mk raw s e"
    by (auto simp: collectCandidates_mem)
  with picked [of raw s e] show ?thesis by (simp add: mk_bounds)
qed

lemma candidates_sorted:
  "sorted (map startOf (take n (js_sort (startThenId lc startOf idOf) cs)))"
proof -
  have "sorted (map (\<lambda>c. of_int (startOf c) :: rat) (js_sort (startThenId lc startOf idOf) cs))"
    by (rule key_comparator.sorted_sort [OF startThenId_key])
  then have "sorted (map startOf (js_sort (startThenId lc startOf idOf) cs))"
    by (simp add: sorted_map sorted_wrt_map)
  then show ?thesis by (metis sorted_wrt_take take_map)
qed

lemma all_kept:
  assumes "pk raw = Picked s e" "raw \<in> set raws"
    and "length (snd (collectCandidates pk mk raws)) \<le> n"
  shows "mk raw s e \<in> set (take n (js_sort (startThenId lc startOf idOf)
           (snd (collectCandidates pk mk raws))))"
  using assms by (auto simp: collectCandidates_mem)

end

end
