(* ===== verification/Vod_Playlist.thy ===== *)
theory Vod_Playlist
  imports Segment_Selection
begin

text \<open>
  The continuous VOD playlist: the plan over the recorded segments of an interval and its M3U8
  text (\<open>apps/api/src/recordings/helpers/vod-playlist.helper.ts\<close>). \<open>localeCompare\<close>, whose order
  depends on the runtime's collation, is a parameter of the planner.
\<close>

section \<open>Data\<close>

record vodSourceSegment =
  vs_id :: string
  vs_startedAt :: dateval
  vs_endedAt :: "dateval option"
  vs_durationSeconds :: "jsnum option"
  vs_codec :: "string option"

datatype vodDiscontinuityReason = Gap | Overlap | CodecChange

record vodPlaylistSegment =
  vp_recordingId :: string
  vp_startedAt :: int
  vp_endedAt :: int
  vp_durationSeconds :: rat
  vp_offsetSeconds :: rat
  vp_discontinuity :: bool
  vp_discontinuityReason :: "vodDiscontinuityReason option"
  vp_codec :: "string option"

record vodPlaylistPlan =
  vpl_from :: int
  vpl_to :: int
  vpl_segments :: "vodPlaylistSegment list"
  vpl_targetDurationSeconds :: int
  vpl_totalDurationSeconds :: rat
  vpl_startOffsetSeconds :: rat
  vpl_discontinuities :: nat
  vpl_skipped :: nat
  vpl_truncated :: bool
  vpl_coverage :: "int option \<times> int option"

record planVodPlaylistInput =
  vin_segments :: "vodSourceSegment list"
  vin_from :: dateval
  vin_to :: dateval
  vin_gapToleranceSeconds :: "rat option"
  vin_maxSegments :: "rat option"

record vodCandidate =
  vc_id :: string
  vc_startMs :: int
  vc_endMs :: rat
  vc_codec :: "string option"

section \<open>Operations\<close>

definition VOD_DEFAULT_GAP_TOLERANCE_SECONDS :: rat where
  "VOD_DEFAULT_GAP_TOLERANCE_SECONDS = 1"

definition VOD_DEFAULT_MAX_SEGMENTS :: rat where
  "VOD_DEFAULT_MAX_SEGMENTS = 720"

definition vodNormalizeCodec :: "string option \<Rightarrow> string option" where
  "vodNormalizeCodec codec =
     (let clean = js_lower (js_trim (case codec of None \<Rightarrow> [] | Some c \<Rightarrow> c))
      in if clean \<noteq> [] then Some clean else None)"

definition vodPick :: "int \<Rightarrow> int \<Rightarrow> vodSourceSegment \<Rightarrow> pick" where
  "vodPick fromMs toMsValue raw =
     pickSegment fromMs toMsValue (vs_startedAt raw) (vs_endedAt raw) (vs_durationSeconds raw)"

definition vodCandidateOf :: "vodSourceSegment \<Rightarrow> int \<Rightarrow> rat \<Rightarrow> vodCandidate" where
  "vodCandidateOf raw startMs endMs =
     \<lparr>vc_id = vs_id raw, vc_startMs = startMs, vc_endMs = endMs,
      vc_codec = vodNormalizeCodec (vs_codec raw)\<rparr>"

text \<open>\<open>previous.codec && current.codec && previous.codec !== current.codec\<close>\<close>

definition codecChanged :: "vodCandidate \<Rightarrow> vodCandidate \<Rightarrow> bool" where
  "codecChanged previous current =
     (case (vc_codec previous, vc_codec current) of
        (Some a, Some b) \<Rightarrow> a \<noteq> b
      | _ \<Rightarrow> False)"

definition discontinuityOf ::
    "rat \<Rightarrow> vodCandidate option \<Rightarrow> vodCandidate \<Rightarrow> vodDiscontinuityReason option" where
  "discontinuityOf toleranceMs previous current =
     (case previous of
        None \<Rightarrow> None
      | Some p \<Rightarrow>
          (let deltaMs = of_int (vc_startMs current) - vc_endMs p in
           if deltaMs > toleranceMs then Some Gap
           else if deltaMs < - toleranceMs then Some Overlap
           else if codecChanged p current then Some CodecChange
           else None))"

text \<open>
  The loop over the selected candidates; \<open>cursorMs\<close>, \<open>discontinuities\<close> and
  \<open>maxDurationSeconds\<close> are its running variables, returned with the segments.
\<close>

fun vodLoop :: "rat \<Rightarrow> vodCandidate option \<Rightarrow> rat \<Rightarrow> nat \<Rightarrow> rat \<Rightarrow> vodCandidate list
    \<Rightarrow> vodPlaylistSegment list \<times> rat \<times> nat \<times> rat" where
  "vodLoop tol previous cursorMs discontinuities maxDuration [] =
     ([], cursorMs, discontinuities, maxDuration)"
| "vodLoop tol previous cursorMs discontinuities maxDuration (current # rest) =
     (let reason = discontinuityOf tol previous current;
          durationSeconds = roundSeconds (vc_endMs current - of_int (vc_startMs current));
          maxDuration' = (if durationSeconds > maxDuration then durationSeconds else maxDuration);
          segment = \<lparr>vp_recordingId = vc_id current,
                     vp_startedAt = vc_startMs current,
                     vp_endedAt = isoOf (vc_endMs current),
                     vp_durationSeconds = durationSeconds,
                     vp_offsetSeconds = roundSeconds cursorMs,
                     vp_discontinuity = (reason \<noteq> None),
                     vp_discontinuityReason = reason,
                     vp_codec = vc_codec current\<rparr>;
          r = vodLoop tol (Some current) (cursorMs + (vc_endMs current - of_int (vc_startMs current)))
                (if reason \<noteq> None then Suc discontinuities else discontinuities) maxDuration' rest
      in (segment # fst r, snd r))"

definition planVodPlaylist ::
    "(string \<Rightarrow> string \<Rightarrow> int) \<Rightarrow> planVodPlaylistInput \<Rightarrow> (planError, vodPlaylistPlan) result" where
  "planVodPlaylist localeCompare input =
     (case (toMs (Some (vin_from input)), toMs (Some (vin_to input))) of
        (Some fromMs, Some toMsValue) \<Rightarrow>
          (let toleranceMs = max 0 ((case vin_gapToleranceSeconds input of
                   None \<Rightarrow> VOD_DEFAULT_GAP_TOLERANCE_SECONDS | Some t \<Rightarrow> t) * 1000);
               maxSegments = segmentLimit (vin_maxSegments input) VOD_DEFAULT_MAX_SEGMENTS;
               collected = collectCandidates (vodPick fromMs toMsValue) vodCandidateOf
                             (vin_segments input);
               candidates = js_sort (startThenId localeCompare vc_startMs vc_id) (snd collected);
               truncated = (length candidates > maxSegments);
               selected = (if truncated then take maxSegments candidates else candidates);
               looped = vodLoop toleranceMs None 0 0 0 selected;
               segments = fst looped; cursorMs = fst (snd looped);
               discontinuities = fst (snd (snd looped)); maxDuration = snd (snd (snd looped));
               startOffset = (case selected of
                   [] \<Rightarrow> 0
                 | f # _ \<Rightarrow> max 0 (roundSeconds
                     (min (of_int fromMs) (vc_endMs f) - of_int (vc_startMs f))));
               coverage = (case selected of
                   [] \<Rightarrow> (None, None)
                 | f # _ \<Rightarrow> (Some (vc_startMs f), Some (isoOf (vc_endMs (last selected)))))
           in Inr \<lparr>vpl_from = fromMs, vpl_to = toMsValue, vpl_segments = segments,
                   vpl_targetDurationSeconds = max 1 \<lceil>maxDuration\<rceil>,
                   vpl_totalDurationSeconds = roundSeconds cursorMs,
                   vpl_startOffsetSeconds = startOffset,
                   vpl_discontinuities = discontinuities,
                   vpl_skipped = fst collected,
                   vpl_truncated = truncated,
                   vpl_coverage = coverage\<rparr>)
      | _ \<Rightarrow> Inl InvalidInterval)"

definition renderSegmentLines ::
    "(vodPlaylistSegment \<Rightarrow> string) \<Rightarrow> bool \<Rightarrow> vodPlaylistSegment \<Rightarrow> string list" where
  "renderSegmentLines buildSegmentUrl includePdt segment =
     (if vp_discontinuity segment then [''#EXT-X-DISCONTINUITY''] else [])
     @ (if includePdt then [''#EXT-X-PROGRAM-DATE-TIME:'' @ iso_string (vp_startedAt segment)] else [])
     @ [''#EXTINF:'' @ to_fixed3 (vp_durationSeconds segment) @ '','']
     @ [buildSegmentUrl segment]"

definition renderLines ::
    "vodPlaylistPlan \<Rightarrow> (vodPlaylistSegment \<Rightarrow> string) \<Rightarrow> bool \<Rightarrow> string list" where
  "renderLines plan buildSegmentUrl includePdt =
     [''#EXTM3U'', ''#EXT-X-VERSION:3'', ''#EXT-X-PLAYLIST-TYPE:VOD'',
      ''#EXT-X-TARGETDURATION:'' @ show_nat (nat (vpl_targetDurationSeconds plan)),
      ''#EXT-X-MEDIA-SEQUENCE:0'',
      ''#DRAC-START-OFFSET:'' @ show_millis (vpl_startOffsetSeconds plan)]
     @ concat (map (renderSegmentLines buildSegmentUrl includePdt) (vpl_segments plan))
     @ [''#EXT-X-ENDLIST'']"

text \<open>\<open>options?.includeProgramDateTime !== false\<close>\<close>

definition renderVodPlaylist ::
    "vodPlaylistPlan \<Rightarrow> (vodPlaylistSegment \<Rightarrow> string) \<Rightarrow> bool option \<Rightarrow> string" where
  "renderVodPlaylist plan buildSegmentUrl includeProgramDateTime =
     join [CHR 0x0A] (renderLines plan buildSegmentUrl (includeProgramDateTime \<noteq> Some False))"

section \<open>Lemmas\<close>

text \<open>What the loop does, as one list of segments and three sums.\<close>

fun durationsMs :: "vodCandidate list \<Rightarrow> rat" where
  "durationsMs [] = 0"
| "durationsMs (c # cs) = (vc_endMs c - of_int (vc_startMs c)) + durationsMs cs"

lemma durationsMs_append [simp]: "durationsMs (xs @ ys) = durationsMs xs + durationsMs ys"
  by (induction xs) auto

lemma vodLoop_length [simp]: "length (fst (vodLoop tol p cur d m cs)) = length cs"
  by (induction cs arbitrary: p cur d m) (auto simp: Let_def)

lemma vodLoop_cursor: "fst (snd (vodLoop tol p cur d m cs)) = cur + durationsMs cs"
  by (induction cs arbitrary: p cur d m) (auto simp: Let_def)

lemma vodLoop_nth:
  assumes "i < length cs"
  shows "fst (vodLoop tol p cur d m cs) ! i =
    (let c = cs ! i; r = discontinuityOf tol (if i = 0 then p else Some (cs ! (i - 1))) c in
     \<lparr>vp_recordingId = vc_id c, vp_startedAt = vc_startMs c, vp_endedAt = isoOf (vc_endMs c),
      vp_durationSeconds = roundSeconds (vc_endMs c - of_int (vc_startMs c)),
      vp_offsetSeconds = roundSeconds (cur + durationsMs (take i cs)),
      vp_discontinuity = (r \<noteq> None), vp_discontinuityReason = r, vp_codec = vc_codec c\<rparr>)"
  using assms
proof (induction cs arbitrary: p cur d m i)
  case (Cons c cs)
  then show ?case
    by (cases i) (auto simp: Let_def add.assoc split: nat.split)
qed simp

lemma vodLoop_discontinuities:
  "fst (snd (snd (vodLoop tol p cur d m cs)))
     = d + length (filter vp_discontinuity (fst (vodLoop tol p cur d m cs)))"
  by (induction cs arbitrary: p cur d m) (auto simp: Let_def)

lemma vodLoop_maxDuration:
  "m \<le> snd (snd (snd (vodLoop tol p cur d m cs)))
   \<and> (\<forall>s\<in>set (fst (vodLoop tol p cur d m cs)). vp_durationSeconds s \<le> snd (snd (snd (vodLoop tol p cur d m cs))))"
proof (induction cs arbitrary: p cur d m)
  case (Cons c cs)
  let ?dur = "roundSeconds (vc_endMs c - of_int (vc_startMs c))"
  let ?m = "if ?dur > m then ?dur else m"
  let ?r = "discontinuityOf tol p c"
  show ?case
    using Cons.IH [of ?m "Some c" "cur + (vc_endMs c - of_int (vc_startMs c))"
        "if ?r \<noteq> None then Suc d else d"]
    by (auto simp: Let_def)
qed simp

interpretation vod_selection: interval_selection "vodPick f t" vodCandidateOf vc_startMs vc_endMs vc_id lc f t
  for f t lc
  by unfold_locales (auto simp: vodPick_def vodCandidateOf_def dest: pickSegment_Picked)

lemma planVod_Inr:
  assumes "planVodPlaylist lc input = Inr plan"
  obtains fromMs toMsValue sel tol where
    "vin_from input = DateMs fromMs" "vin_to input = DateMs toMsValue"
    and "sel = take (segmentLimit (vin_maxSegments input) VOD_DEFAULT_MAX_SEGMENTS)
           (js_sort (startThenId lc vc_startMs vc_id)
             (snd (collectCandidates (vodPick fromMs toMsValue) vodCandidateOf (vin_segments input))))"
    and "0 \<le> tol" "tol = max 0 ((case vin_gapToleranceSeconds input of
                   None \<Rightarrow> VOD_DEFAULT_GAP_TOLERANCE_SECONDS | Some t \<Rightarrow> t) * 1000)"
    and "vpl_segments plan = fst (vodLoop tol None 0 0 0 sel)"
    and "vpl_totalDurationSeconds plan = roundSeconds (durationsMs sel)"
    and "vpl_discontinuities plan = length (filter vp_discontinuity (vpl_segments plan))"
    and "vpl_targetDurationSeconds plan = max 1 \<lceil>snd (snd (snd (vodLoop tol None 0 0 0 sel)))\<rceil>"
    and "vpl_startOffsetSeconds plan = (case sel of [] \<Rightarrow> 0 | f # _ \<Rightarrow>
           max 0 (roundSeconds (min (of_int fromMs) (vc_endMs f) - of_int (vc_startMs f))))"
    and "vpl_truncated plan \<longleftrightarrow>
           length (snd (collectCandidates (vodPick fromMs toMsValue) vodCandidateOf (vin_segments input)))
             > segmentLimit (vin_maxSegments input) VOD_DEFAULT_MAX_SEGMENTS"
proof -
  from assms obtain f t where ft: "vin_from input = DateMs f" "vin_to input = DateMs t"
    by (cases "vin_from input"; cases "vin_to input") (auto simp: planVodPlaylist_def)
  let ?tol = "max 0 ((case vin_gapToleranceSeconds input of
                   None \<Rightarrow> VOD_DEFAULT_GAP_TOLERANCE_SECONDS | Some t \<Rightarrow> t) * 1000)"
  let ?cands = "js_sort (startThenId lc vc_startMs vc_id)
             (snd (collectCandidates (vodPick f t) vodCandidateOf (vin_segments input)))"
  let ?n = "segmentLimit (vin_maxSegments input) VOD_DEFAULT_MAX_SEGMENTS"
  have sel: "(if length ?cands > ?n then take ?n ?cands else ?cands) = take ?n ?cands" by simp
  show ?thesis
  proof (rule that [OF ft refl _ refl])
    from assms ft show "vpl_segments plan = fst (vodLoop ?tol None 0 0 0 (take ?n ?cands))"
      unfolding planVodPlaylist_def Let_def sel by auto
    with assms ft show "vpl_discontinuities plan = length (filter vp_discontinuity (vpl_segments plan))"
      unfolding planVodPlaylist_def Let_def sel by (auto simp: vodLoop_discontinuities)
    from assms ft show "vpl_totalDurationSeconds plan = roundSeconds (durationsMs (take ?n ?cands))"
      unfolding planVodPlaylist_def Let_def sel by (auto simp: vodLoop_cursor)
    from assms ft show "vpl_targetDurationSeconds plan
        = max 1 \<lceil>snd (snd (snd (vodLoop ?tol None 0 0 0 (take ?n ?cands))))\<rceil>"
      unfolding planVodPlaylist_def Let_def sel by auto
    from assms ft show "vpl_startOffsetSeconds plan = (case take ?n ?cands of [] \<Rightarrow> 0 | f' # _ \<Rightarrow>
           max 0 (roundSeconds (min (of_int f) (vc_endMs f') - of_int (vc_startMs f'))))"
      unfolding planVodPlaylist_def Let_def sel by auto
    from assms ft show "vpl_truncated plan \<longleftrightarrow>
           length (snd (collectCandidates (vodPick f t) vodCandidateOf (vin_segments input))) > ?n"
      unfolding planVodPlaylist_def Let_def sel by auto
  qed simp
qed

lemma vodCandidateOf_id [simp]: "vc_id (vodCandidateOf raw s e) = vs_id raw"
  by (simp add: vodCandidateOf_def)

lemma sel_candidate:
  assumes "c \<in> set (take n (js_sort (startThenId lc vc_startMs vc_id)
             (snd (collectCandidates (vodPick f t) vodCandidateOf raws))))"
  shows "of_int (vc_startMs c) < vc_endMs c" "of_int f < vc_endMs c" "vc_startMs c < t"
    and "\<exists>raw\<in>set raws. \<exists>s e. vodPick f t raw = Picked s e \<and> c = vodCandidateOf raw s e"
  using vod_selection.candidate_overlaps [OF assms] in_set_takeD [OF assms]
  by (auto simp: collectCandidates_mem)

lemma sel_whole:
  assumes "c \<in> set (take n (js_sort (startThenId lc vc_startMs vc_id)
             (snd (collectCandidates (vodPick f t) vodCandidateOf raws))))"
    and "\<forall>raw\<in>set raws. wholeMs (vs_durationSeconds raw)"
  shows "vc_endMs c \<in> \<int>"
  using sel_candidate(4) [OF assms(1)] assms(2)
  by (auto simp: vodPick_def vodCandidateOf_def intro: segmentEndMs_whole [OF pickSegment_Picked(5)])

lemma durationsMs_whole: "\<forall>c\<in>set cs. vc_endMs c \<in> \<int> \<Longrightarrow> durationsMs cs \<in> \<int>"
  by (induction cs) auto

lemma durationsMs_sum:
  "\<forall>c\<in>set cs. vc_endMs c \<in> \<int> \<Longrightarrow>
   sum_list (map (\<lambda>c. roundSeconds (vc_endMs c - of_int (vc_startMs c))) cs) = durationsMs cs / 1000"
  by (induction cs) (auto simp: roundSeconds_exact add_divide_distrib)

section \<open>An interval with a cut-off first segment, a codec change and a gap\<close>

definition exampleVodInput :: planVodPlaylistInput where
  "exampleVodInput =
     \<lparr>vin_segments = [\<lparr>vs_id = ''c'', vs_startedAt = DateMs 200000, vs_endedAt = None,
                        vs_durationSeconds = Some (Fin 60), vs_codec = Some ''hevc''\<rparr>,
                      \<lparr>vs_id = ''b'', vs_startedAt = DateMs 60500, vs_endedAt = Some (DateMs 120000),
                        vs_durationSeconds = None, vs_codec = Some ''HEVC''\<rparr>,
                      \<lparr>vs_id = ''x'', vs_startedAt = DateMs 10, vs_endedAt = None,
                        vs_durationSeconds = None, vs_codec = None\<rparr>,
                      \<lparr>vs_id = ''a'', vs_startedAt = DateMs 0, vs_endedAt = Some (DateMs 60000),
                        vs_durationSeconds = None, vs_codec = Some ''h264''\<rparr>],
      vin_from = DateMs 30000, vin_to = DateMs 250000,
      vin_gapToleranceSeconds = None, vin_maxSegments = None\<rparr>"

definition exampleVodPlan :: vodPlaylistPlan where
  "exampleVodPlan =
     \<lparr>vpl_from = 30000, vpl_to = 250000,
      vpl_segments =
        [\<lparr>vp_recordingId = ''a'', vp_startedAt = 0, vp_endedAt = 60000, vp_durationSeconds = 60,
          vp_offsetSeconds = 0, vp_discontinuity = False, vp_discontinuityReason = None,
          vp_codec = Some ''h264''\<rparr>,
         \<lparr>vp_recordingId = ''b'', vp_startedAt = 60500, vp_endedAt = 120000,
          vp_durationSeconds = 119/2, vp_offsetSeconds = 60, vp_discontinuity = True,
          vp_discontinuityReason = Some CodecChange, vp_codec = Some ''hevc''\<rparr>,
         \<lparr>vp_recordingId = ''c'', vp_startedAt = 200000, vp_endedAt = 260000,
          vp_durationSeconds = 60, vp_offsetSeconds = 239/2, vp_discontinuity = True,
          vp_discontinuityReason = Some Gap, vp_codec = Some ''hevc''\<rparr>],
      vpl_targetDurationSeconds = 60, vpl_totalDurationSeconds = 359/2,
      vpl_startOffsetSeconds = 30, vpl_discontinuities = 2, vpl_skipped = 1,
      vpl_truncated = False, vpl_coverage = (Some 0, Some 260000)\<rparr>"

lemma exampleVod: "planVodPlaylist (\<lambda>_ _. 0) exampleVodInput = Inr exampleVodPlan"
  by code_simp

lemma vod_plan_ordered:
  assumes "planVodPlaylist lc input = Inr plan"
  shows "sorted (map vp_startedAt (vpl_segments plan))
    \<and> length (vpl_segments plan) \<le> segmentLimit (vin_maxSegments input) VOD_DEFAULT_MAX_SEGMENTS"
  using assms
proof (rule planVod_Inr)
  fix f t sel tol
  let ?n = "segmentLimit (vin_maxSegments input) VOD_DEFAULT_MAX_SEGMENTS"
  assume sel: "sel = take ?n (js_sort (startThenId lc vc_startMs vc_id)
           (snd (collectCandidates (vodPick f t) vodCandidateOf (vin_segments input))))"
    and segs: "vpl_segments plan = fst (vodLoop tol None 0 0 0 sel)"
  have "map vp_startedAt (vpl_segments plan) = map vc_startMs sel"
    unfolding segs by (rule nth_equalityI) (auto simp: vodLoop_nth Let_def)
  then have "sorted (map vp_startedAt (vpl_segments plan))"
    using vod_selection.candidates_sorted sel by metis
  moreover have "length (vpl_segments plan) \<le> ?n" by (simp add: segs sel)
  ultimately show ?thesis ..
qed

lemma vod_plan_sound:
  assumes "planVodPlaylist lc input = Inr plan"
  shows "\<forall>s\<in>set (vpl_segments plan).
         vp_durationSeconds s \<le> of_int (vpl_targetDurationSeconds plan)
         \<and> (\<exists>raw\<in>set (vin_segments input). \<exists>e. vs_id raw = vp_recordingId s
              \<and> vs_startedAt raw = DateMs (vp_startedAt s)
              \<and> segmentEndMs (vp_startedAt s) (vs_endedAt raw) (vs_durationSeconds raw) = Some e
              \<and> vp_endedAt s = isoOf e \<and> of_int (vp_startedAt s) < e
              \<and> of_int (vpl_from plan) < e \<and> vp_startedAt s < vpl_to plan)"
  using assms
proof (rule planVod_Inr)
  fix f t sel tol
  let ?n = "segmentLimit (vin_maxSegments input) VOD_DEFAULT_MAX_SEGMENTS"
  let ?m = "snd (snd (snd (vodLoop tol None 0 0 0 sel)))"
  assume ft: "vin_from input = DateMs f" "vin_to input = DateMs t"
    and sel: "sel = take ?n (js_sort (startThenId lc vc_startMs vc_id)
           (snd (collectCandidates (vodPick f t) vodCandidateOf (vin_segments input))))"
    and segs: "vpl_segments plan = fst (vodLoop tol None 0 0 0 sel)"
    and target: "vpl_targetDurationSeconds plan = max 1 \<lceil>?m\<rceil>"
  have bounds: "vpl_from plan = f" "vpl_to plan = t"
    using assms ft by (auto simp: planVodPlaylist_def Let_def)
  show ?thesis
  proof (intro ballI conjI)
    fix s assume s: "s \<in> set (vpl_segments plan)"
    have "vp_durationSeconds s \<le> ?m" using s vodLoop_maxDuration segs by metis
    then show "vp_durationSeconds s \<le> of_int (vpl_targetDurationSeconds plan)"
      by (simp add: target) linarith
    from s obtain i where "i < length sel" and i: "s = vpl_segments plan ! i"
      by (auto simp: in_set_conv_nth segs)
    then have "sel ! i \<in> set sel" and s': "vp_recordingId s = vc_id (sel ! i)"
      "vp_startedAt s = vc_startMs (sel ! i)" "vp_endedAt s = isoOf (vc_endMs (sel ! i))"
      by (simp_all add: segs vodLoop_nth Let_def)
    then obtain raw st e where "raw \<in> set (vin_segments input)" "vodPick f t raw = Picked st e"
      "sel ! i = vodCandidateOf raw st e"
      using sel_candidate(4) [of "sel ! i" ?n lc f t "vin_segments input"] sel by blast
    then show "\<exists>raw\<in>set (vin_segments input). \<exists>e. vs_id raw = vp_recordingId s
              \<and> vs_startedAt raw = DateMs (vp_startedAt s)
              \<and> segmentEndMs (vp_startedAt s) (vs_endedAt raw) (vs_durationSeconds raw) = Some e
              \<and> vp_endedAt s = isoOf e \<and> of_int (vp_startedAt s) < e
              \<and> of_int (vpl_from plan) < e \<and> vp_startedAt s < vpl_to plan"
      using pickSegment_Picked by (intro bexI [of _ raw] exI [of _ e])
        (auto simp: s' bounds vodPick_def vodCandidateOf_def)
  qed
qed

text \<open>
  Nothing of the interval is lost: unless the plan says it was truncated, the playlist
  lists exactly the segments with a usable end that overlap the interval (touching a border is not
  overlapping), and a truncated plan is full.
\<close>

lemma vod_plan_complete:
  assumes "planVodPlaylist lc input = Inr plan"
  shows "if vpl_truncated plan
    then length (vpl_segments plan) = segmentLimit (vin_maxSegments input) VOD_DEFAULT_MAX_SEGMENTS
    else set (map vp_recordingId (vpl_segments plan)) =
        {vs_id raw | raw s e. raw \<in> set (vin_segments input) \<and> vs_startedAt raw = DateMs s
           \<and> segmentEndMs s (vs_endedAt raw) (vs_durationSeconds raw) = Some e
           \<and> of_int (vpl_from plan) < e \<and> s < vpl_to plan}"
proof -
  from assms obtain f t sel tol where ft: "vin_from input = DateMs f" "vin_to input = DateMs t"
    and sel: "sel = take (segmentLimit (vin_maxSegments input) VOD_DEFAULT_MAX_SEGMENTS)
           (js_sort (startThenId lc vc_startMs vc_id)
             (snd (collectCandidates (vodPick f t) vodCandidateOf (vin_segments input))))"
    and segs: "vpl_segments plan = fst (vodLoop tol None 0 0 0 sel)"
    and tr: "vpl_truncated plan \<longleftrightarrow>
           length (snd (collectCandidates (vodPick f t) vodCandidateOf (vin_segments input)))
             > segmentLimit (vin_maxSegments input) VOD_DEFAULT_MAX_SEGMENTS"
    by (rule planVod_Inr)
  have bounds: "vpl_from plan = f" "vpl_to plan = t"
    using assms ft by (auto simp: planVodPlaylist_def Let_def)
  show ?thesis
  proof (cases "vpl_truncated plan")
    case True
    then show ?thesis by (simp add: segs sel tr)
  next
    case nt: False
    have "map vp_recordingId (vpl_segments plan) = map vc_id sel"
    unfolding segs by (rule nth_equalityI) (auto simp: vodLoop_nth Let_def)
  then have "set (map vp_recordingId (vpl_segments plan)) = vc_id `
      set (snd (collectCandidates (vodPick f t) vodCandidateOf (vin_segments input)))"
    using nt by (simp add: tr sel)
  also have "\<dots> = {vs_id raw | raw s e. raw \<in> set (vin_segments input) \<and> vodPick f t raw = Picked s e}"
  proof -
    have "set (snd (collectCandidates (vodPick f t) vodCandidateOf (vin_segments input)))
        = {vodCandidateOf raw s e | raw s e. raw \<in> set (vin_segments input) \<and> vodPick f t raw = Picked s e}"
      unfolding set_eq_iff collectCandidates_mem by blast
    then show ?thesis by (force simp: vodCandidateOf_id)
  qed
  finally show ?thesis using nt by (simp add: vodPick_def pickSegment_Picked_iff bounds)
  qed
qed

section \<open>Properties\<close>

text \<open>
  Property C40. The playlist of an interval lists its segments in order of their start, never more
  than the limit. Each listed segment comes from a segment of the input with a usable end that
  really overlaps the requested interval: it starts before the interval ends and ends strictly
  after the interval starts, so one that only touches a border is left out. Unless the plan says
  it was truncated, every such segment of the input is listed; a truncated plan is full.
  \<open>EXT-X-TARGETDURATION\<close> is at least every segment's \<open>EXTINF\<close>.
\<close>

theorem vod_plan_wellformed:
  assumes "planVodPlaylist lc input = Inr plan"
  shows "sorted (map vp_startedAt (vpl_segments plan))
    \<and> length (vpl_segments plan) \<le> segmentLimit (vin_maxSegments input) VOD_DEFAULT_MAX_SEGMENTS
    \<and> (\<forall>s\<in>set (vpl_segments plan).
         vp_durationSeconds s \<le> of_int (vpl_targetDurationSeconds plan)
         \<and> (\<exists>raw\<in>set (vin_segments input). \<exists>e. vs_id raw = vp_recordingId s
              \<and> vs_startedAt raw = DateMs (vp_startedAt s)
              \<and> segmentEndMs (vp_startedAt s) (vs_endedAt raw) (vs_durationSeconds raw) = Some e
              \<and> vp_endedAt s = isoOf e \<and> of_int (vp_startedAt s) < e
              \<and> of_int (vpl_from plan) < e \<and> vp_startedAt s < vpl_to plan))
    \<and> (if vpl_truncated plan
       then length (vpl_segments plan) = segmentLimit (vin_maxSegments input) VOD_DEFAULT_MAX_SEGMENTS
       else set (map vp_recordingId (vpl_segments plan)) =
        {vs_id raw | raw s e. raw \<in> set (vin_segments input) \<and> vs_startedAt raw = DateMs s
           \<and> segmentEndMs s (vs_endedAt raw) (vs_durationSeconds raw) = Some e
           \<and> of_int (vpl_from plan) < e \<and> s < vpl_to plan})"
  using vod_plan_ordered [OF assms] vod_plan_sound [OF assms] vod_plan_complete [OF assms] by blast

definition touchingVodInput :: planVodPlaylistInput where
  "touchingVodInput = exampleVodInput\<lparr>vin_from := DateMs 60000, vin_to := DateMs 200000\<rparr>"

theorem vod_plan_wellformed_witness:
  "\<exists>plan. planVodPlaylist (\<lambda>_ _. 0) touchingVodInput = Inr plan
     \<and> map vp_recordingId (vpl_segments plan) = [''b''] \<and> sorted (map vp_startedAt (vpl_segments plan))"
proof -
  have "map_sum id (\<lambda>plan. map vp_recordingId (vpl_segments plan)) (planVodPlaylist (\<lambda>_ _. 0) touchingVodInput)
      = Inr [''b'']" by code_simp
  then obtain plan where plan: "planVodPlaylist (\<lambda>_ _. 0) touchingVodInput = Inr plan"
    and ids: "map vp_recordingId (vpl_segments plan) = [''b'']"
    by (cases "planVodPlaylist (\<lambda>_ _. 0) touchingVodInput") auto
  have "sorted (map vp_startedAt (vpl_segments plan))" using vod_plan_wellformed [OF plan] by (rule conjunct1)
  with plan ids show ?thesis by (intro exI [of _ plan]) (rule conjI, assumption, rule conjI, assumption+)
qed

text \<open>
  For segments of whole milliseconds the playlist's own timeline is exact: the offset
  of every segment is the sum of the durations before it, and the total is the sum of them all, so
  no rounding drift accumulates.
\<close>

theorem vod_timeline_exact:
  assumes "planVodPlaylist lc input = Inr plan"
    and "\<forall>raw\<in>set (vin_segments input). wholeMs (vs_durationSeconds raw)"
  shows "vpl_totalDurationSeconds plan = sum_list (map vp_durationSeconds (vpl_segments plan))
    \<and> (\<forall>i < length (vpl_segments plan). vp_offsetSeconds (vpl_segments plan ! i)
           = sum_list (map vp_durationSeconds (take i (vpl_segments plan))))"
proof -
  from assms(1) obtain f t sel tol where
    sel: "sel = take (segmentLimit (vin_maxSegments input) VOD_DEFAULT_MAX_SEGMENTS)
           (js_sort (startThenId lc vc_startMs vc_id)
             (snd (collectCandidates (vodPick f t) vodCandidateOf (vin_segments input))))"
    and segs: "vpl_segments plan = fst (vodLoop tol None 0 0 0 sel)"
    and total: "vpl_totalDurationSeconds plan = roundSeconds (durationsMs sel)"
    by (rule planVod_Inr)
  have w: "\<forall>c\<in>set (take i sel). vc_endMs c \<in> \<int>" for i
    using sel_whole [OF _ assms(2)] sel in_set_takeD by metis
  have "map vp_durationSeconds (vpl_segments plan)
      = map (\<lambda>c. roundSeconds (vc_endMs c - of_int (vc_startMs c))) sel"
    unfolding segs by (rule nth_equalityI) (auto simp: vodLoop_nth Let_def)
  then have s: "sum_list (map vp_durationSeconds (take i (vpl_segments plan)))
      = roundSeconds (durationsMs (take i sel))" for i
    using durationsMs_sum [OF w] durationsMs_whole [OF w]
    by (metis roundSeconds_exact take_map)
  from s [of "length sel"] s total show ?thesis by (auto simp: segs vodLoop_nth Let_def)
qed

theorem vod_timeline_exact_witness:
  "vpl_totalDurationSeconds exampleVodPlan = sum_list (map vp_durationSeconds (vpl_segments exampleVodPlan))
   \<and> wholeMs (Some (Fin 60))"
proof -
  have "\<forall>raw\<in>set (vin_segments exampleVodInput). wholeMs (vs_durationSeconds raw)" by code_simp
  from vod_timeline_exact [OF exampleVod this] show ?thesis by (simp add: wholeMs_def whole_def)
qed

text \<open>
  For segments of whole milliseconds, \<open>EXT-X-DISCONTINUITY\<close> stands exactly where the
  timeline breaks: never before the first segment, and before another one when its start is more
  than the tolerance away from the end of its predecessor, on either side, or when both codecs
  are known and differ. The plan counts these marks.
\<close>

theorem vod_discontinuities_exact:
  assumes "planVodPlaylist lc input = Inr plan"
    and "\<forall>raw\<in>set (vin_segments input). wholeMs (vs_durationSeconds raw)"
    and "i < length (vpl_segments plan)"
  shows "(vp_discontinuity (vpl_segments plan ! i) \<longleftrightarrow>
      0 < i \<and>
      (let previous = vpl_segments plan ! (i - 1); current = vpl_segments plan ! i in
       of_int \<bar>vp_startedAt current - vp_endedAt previous\<bar>
         > max 0 ((case vin_gapToleranceSeconds input of
                     None \<Rightarrow> VOD_DEFAULT_GAP_TOLERANCE_SECONDS | Some t \<Rightarrow> t) * 1000)
       \<or> (\<exists>a b. vp_codec previous = Some a \<and> vp_codec current = Some b \<and> a \<noteq> b)))
    \<and> vpl_discontinuities plan = length (filter vp_discontinuity (vpl_segments plan))"
proof -
  from assms(1) obtain f t sel tol where
    sel: "sel = take (segmentLimit (vin_maxSegments input) VOD_DEFAULT_MAX_SEGMENTS)
           (js_sort (startThenId lc vc_startMs vc_id)
             (snd (collectCandidates (vodPick f t) vodCandidateOf (vin_segments input))))"
    and tol: "0 \<le> tol" "tol = max 0 ((case vin_gapToleranceSeconds input of
                   None \<Rightarrow> VOD_DEFAULT_GAP_TOLERANCE_SECONDS | Some t \<Rightarrow> t) * 1000)"
    and segs: "vpl_segments plan = fst (vodLoop tol None 0 0 0 sel)"
    and count: "vpl_discontinuities plan = length (filter vp_discontinuity (vpl_segments plan))"
    by (rule planVod_Inr)
  have i: "i < length sel" using assms(3) by (simp add: segs)
  show ?thesis
  proof (cases i)
    case 0
    with i show ?thesis unfolding count by (simp add: segs vodLoop_nth Let_def discontinuityOf_def)
  next
    case (Suc j)
    with i have j: "sel ! j \<in> set sel" "j < length sel" by simp_all
    from j(1) sel_whole [OF _ assms(2)] sel have "vc_endMs (sel ! j) \<in> \<int>" by metis
    then have "of_int (isoOf (vc_endMs (sel ! j))) = vc_endMs (sel ! j)" by (rule isoOf_exact)
    then have "of_int \<bar>vc_startMs (sel ! i) - isoOf (vc_endMs (sel ! j))\<bar>
        = \<bar>of_int (vc_startMs (sel ! i)) - vc_endMs (sel ! j)\<bar>" by simp
    with i j Suc tol(1) show ?thesis unfolding count tol(2) [symmetric]
      by (auto simp: segs vodLoop_nth Let_def discontinuityOf_def codecChanged_def
          split: option.splits)
  qed
qed

theorem vod_discontinuities_exact_witness:
  "vp_discontinuity (vpl_segments exampleVodPlan ! 1)
   \<and> vpl_discontinuities exampleVodPlan = length (filter vp_discontinuity (vpl_segments exampleVodPlan))"
proof -
  have "\<forall>raw\<in>set (vin_segments exampleVodInput). wholeMs (vs_durationSeconds raw)" by code_simp
  moreover have "1 < length (vpl_segments exampleVodPlan)" by (simp add: exampleVodPlan_def)
  ultimately show ?thesis
    using vod_discontinuities_exact [OF exampleVod, of 1] by (simp add: exampleVodPlan_def)
qed

text \<open>
  The initial seek is right: a playlist with segments of whole milliseconds has a start
  offset inside its first segment, and seeking there shows the requested instant, or the first
  recorded instant when nothing was recorded at the requested one.
\<close>

theorem vod_start_offset_exact:
  assumes "planVodPlaylist lc input = Inr plan"
    and "\<forall>raw\<in>set (vin_segments input). wholeMs (vs_durationSeconds raw)"
    and "vpl_segments plan = first # rest"
  shows "0 \<le> vpl_startOffsetSeconds plan
    \<and> vpl_startOffsetSeconds plan < vp_durationSeconds first
    \<and> of_int (vp_startedAt first) + vpl_startOffsetSeconds plan * 1000
        = of_int (max (vpl_from plan) (vp_startedAt first))"
proof -
  from assms(1) obtain f t sel tol where ft: "vin_from input = DateMs f" "vin_to input = DateMs t"
    and sel: "sel = take (segmentLimit (vin_maxSegments input) VOD_DEFAULT_MAX_SEGMENTS)
           (js_sort (startThenId lc vc_startMs vc_id)
             (snd (collectCandidates (vodPick f t) vodCandidateOf (vin_segments input))))"
    and segs: "vpl_segments plan = fst (vodLoop tol None 0 0 0 sel)"
    and off: "vpl_startOffsetSeconds plan = (case sel of [] \<Rightarrow> 0 | f' # _ \<Rightarrow>
           max 0 (roundSeconds (min (of_int f) (vc_endMs f') - of_int (vc_startMs f'))))"
    by (rule planVod_Inr)
  have from_f: "vpl_from plan = f" using assms(1) ft by (auto simp: planVodPlaylist_def Let_def)
  from assms(3) segs obtain c cs where c: "sel = c # cs" by (cases sel) auto
  then have mem: "c \<in> set sel" by simp
  from mem sel_whole [OF _ assms(2)] sel have w: "vc_endMs c \<in> \<int>" by metis
  from mem sel_candidate(1,2) sel have b: "of_int (vc_startMs c) < vc_endMs c" "of_int f < vc_endMs c"
    by metis+
  have first: "vp_startedAt first = vc_startMs c"
      "vp_durationSeconds first = (vc_endMs c - of_int (vc_startMs c)) / 1000"
    using assms(3) segs w by (auto simp: c Let_def roundSeconds_exact)
  from b off have "vpl_startOffsetSeconds plan = max 0 ((of_int f - of_int (vc_startMs c)) / 1000)"
    by (simp add: c roundSeconds_exact)
  with b show ?thesis by (auto simp: first from_f max_def field_simps)
qed

theorem vod_start_offset_exact_witness:
  "of_int (vp_startedAt (hd (vpl_segments exampleVodPlan))) + vpl_startOffsetSeconds exampleVodPlan * 1000
     = (30000 :: rat)"
proof -
  have "\<forall>raw\<in>set (vin_segments exampleVodInput). wholeMs (vs_durationSeconds raw)" by code_simp
  moreover have "vpl_segments exampleVodPlan = hd (vpl_segments exampleVodPlan) # tl (vpl_segments exampleVodPlan)"
    by (simp add: exampleVodPlan_def)
  moreover have "max (vpl_from exampleVodPlan) (vp_startedAt (hd (vpl_segments exampleVodPlan))) = 30000"
    by (simp add: exampleVodPlan_def)
  ultimately show ?thesis using vod_start_offset_exact [OF exampleVod] by simp
qed

definition segmentUrl :: "string \<Rightarrow> bool" where
  "segmentUrl u \<longleftrightarrow> u \<noteq> [] \<and> hd u \<noteq> CHR ''#'' \<and> CHR 0x0A \<notin> set u"

definition playlistUris :: "string \<Rightarrow> string list" where
  "playlistUris text = filter (\<lambda>l. l \<noteq> [] \<and> hd l \<noteq> CHR ''#'') (split_on CHR 0x0A text)"

lemma renderSegmentLines_uris:
  assumes "segmentUrl (url s)"
  shows "filter (\<lambda>l. l \<noteq> [] \<and> hd l \<noteq> CHR ''#'') (renderSegmentLines url pdt s) = [url s]"
  using assms by (auto simp: renderSegmentLines_def segmentUrl_def)

lemma renderSegmentLines_newline:
  assumes "segmentUrl (url s)" "l \<in> set (renderSegmentLines url pdt s)"
  shows "CHR 0x0A \<notin> set l"
  using assms
  by (auto simp: renderSegmentLines_def segmentUrl_def printed_no_newline split: if_splits)

text \<open>
  The M3U8 text is faithful to the plan: a reader that splits it into lines and, as
  RFC 8216 says, takes every line that is not empty and does not start with \<open>#\<close> for a URI finds the
  URLs of the plan's segments, all of them and in order, provided that the URL builder yields
  URLs that are one such line.
\<close>

theorem render_uris_roundtrip:
  assumes "\<forall>s\<in>set (vpl_segments plan). segmentUrl (url s)"
  shows "playlistUris (renderVodPlaylist plan url pdt) = map url (vpl_segments plan)"
proof -
  let ?b = "pdt \<noteq> Some False"
  have "\<forall>l\<in>set (renderLines plan url ?b). CHR 0x0A \<notin> set l"
    using assms renderSegmentLines_newline
    by (auto simp: renderLines_def printed_no_newline)
  moreover have "renderLines plan url ?b \<noteq> []" by (simp add: renderLines_def)
  ultimately have "split_on CHR 0x0A (renderVodPlaylist plan url pdt) = renderLines plan url ?b"
    unfolding renderVodPlaylist_def by (intro split_on_join)
  moreover have "filter (\<lambda>l. l \<noteq> [] \<and> hd l \<noteq> CHR ''#'')
      (concat (map (renderSegmentLines url ?b) segs)) = map url segs"
    if "\<forall>s\<in>set segs. segmentUrl (url s)" for segs
    using that by (induction segs) (simp_all add: renderSegmentLines_uris)
  ultimately show ?thesis
    using assms by (simp add: playlistUris_def renderLines_def)
qed

theorem render_uris_roundtrip_witness:
  "playlistUris (renderVodPlaylist exampleVodPlan (\<lambda>s. ''/seg/'' @ vp_recordingId s) None)
     = [''/seg/a'', ''/seg/b'', ''/seg/c'']"
proof -
  have "\<forall>s\<in>set (vpl_segments exampleVodPlan). segmentUrl (''/seg/'' @ vp_recordingId s)" by code_simp
  from render_uris_roundtrip [of exampleVodPlan "\<lambda>s. ''/seg/'' @ vp_recordingId s" None, OF this]
  show ?thesis by (simp add: exampleVodPlan_def)
qed

end
