(* ===== verification/Hwaccel.thy ===== *)
theory Hwaccel
  imports Js_Prelude
begin

text \<open>
  Hardware acceleration of the offline transcode: the preset tables, the argument lists for
  \<open>ffmpeg\<close>, the probe that runs a real encode and a real decode, the decision, the quarantine and
  the cached detection (\<open>apps/api/src/camera-stream/helpers/hwaccel-presets.helper.ts\<close>).

  \<^item> \<open>ffmpeg\<close> itself is a parameter \<open>exec\<close>: an argument list and a time limit in a world of type
    \<open>'w\<close> give a result and the next world. So are the listing of the render nodes and the removal of
    the probe file.
  \<^item> The value of \<open>LIBAVFORMAT_VERSION_MAJOR\<close> is the parameter \<open>major\<close>.
  \<^item> Messages for the operator are values of \<open>failureReason\<close> and \<open>hwReason\<close>: the facts that
    the source puts in the text.
  \<^item> A replacement text holding \<open>$\<close>, which \<open>String.replace\<close> treats specially, is not considered: devices
    are GPU indices and paths of render nodes.
  \<^item> The module's variables (\<open>detectionCache\<close>, \<open>detectionInFlight\<close>, \<open>failureCounts\<close>,
    \<open>quarantinedUntil\<close>) are the record \<open>hwState\<close>.
\<close>

section \<open>Presets and their tables\<close>

datatype hwaccelPreset =
    Rpi64H264 | Rpi64H265 | Vaapi | QsvH264 | QsvH265 | Nvidia | NvidiaH264 | NvidiaH265 | NvidiaMjpeg
  | JetsonH264 | JetsonH265 | Rkmpp | RkmppNoDumpExtra | RkH264 | RkH265 | Vulkan | AmdAmf

fun presetName :: "hwaccelPreset \<Rightarrow> string" where
  "presetName Rpi64H264 = ''preset-rpi-64-h264''"
| "presetName Rpi64H265 = ''preset-rpi-64-h265''"
| "presetName Vaapi = ''preset-vaapi''"
| "presetName QsvH264 = ''preset-intel-qsv-h264''"
| "presetName QsvH265 = ''preset-intel-qsv-h265''"
| "presetName Nvidia = ''preset-nvidia''"
| "presetName NvidiaH264 = ''preset-nvidia-h264''"
| "presetName NvidiaH265 = ''preset-nvidia-h265''"
| "presetName NvidiaMjpeg = ''preset-nvidia-mjpeg''"
| "presetName JetsonH264 = ''preset-jetson-h264''"
| "presetName JetsonH265 = ''preset-jetson-h265''"
| "presetName Rkmpp = ''preset-rkmpp''"
| "presetName RkmppNoDumpExtra = ''preset-rkmpp-no-dump_extra''"
| "presetName RkH264 = ''preset-rk-h264''"
| "presetName RkH265 = ''preset-rk-h265''"
| "presetName Vulkan = ''preset-vulkan''"
| "presetName AmdAmf = ''preset-amd-amf''"

definition HWACCEL_PRESETS :: "hwaccelPreset list" where
  "HWACCEL_PRESETS =
     [Rpi64H264, Rpi64H265, Vaapi, QsvH264, QsvH265, Nvidia, NvidiaH264, NvidiaH265, NvidiaMjpeg,
      JetsonH264, JetsonH265, Rkmpp, RkmppNoDumpExtra, RkH264, RkH265, Vulkan, AmdAmf]"

text \<open>The membership test, returning the preset that the text names.\<close>

definition isHwaccelPreset :: "string \<Rightarrow> hwaccelPreset option" where
  "isHwaccelPreset v = find (\<lambda>p. presetName p = v) HWACCEL_PRESETS"

definition dumpExtra :: "jsnum \<Rightarrow> string" where
  "dumpExtra major = (case major of Fin m \<Rightarrow> if m \<ge> 61 then '' -bsf:v dump_extra'' else [] | NonFinite \<Rightarrow> [])"

definition nvidiaDecode :: string where
  "nvidiaDecode = ''-hwaccel_device {3} -hwaccel cuda -hwaccel_output_format cuda''"

definition rkmppNoDumpExtraDecode :: string where
  "rkmppNoDumpExtraDecode = ''-hwaccel rkmpp -hwaccel_output_format drm_prime''"

fun buildHwaccelDecodeTable :: "jsnum \<Rightarrow> hwaccelPreset \<Rightarrow> string" where
  "buildHwaccelDecodeTable m Rpi64H264 = ''-c:v:1 h264_v4l2m2m''"
| "buildHwaccelDecodeTable m Rpi64H265 = ''-c:v:1 hevc_v4l2m2m''"
| "buildHwaccelDecodeTable m Vaapi =
     ''-hwaccel_flags allow_profile_mismatch -hwaccel vaapi -hwaccel_device {3} -hwaccel_output_format vaapi''"
| "buildHwaccelDecodeTable m QsvH264 =
     ''-hwaccel qsv -qsv_device {3} -hwaccel_output_format qsv -c:v h264_qsv'' @ dumpExtra m"
| "buildHwaccelDecodeTable m QsvH265 =
     ''-load_plugin hevc_hw -hwaccel qsv -qsv_device {3} -hwaccel_output_format qsv'' @ dumpExtra m"
| "buildHwaccelDecodeTable m Nvidia = nvidiaDecode"
| "buildHwaccelDecodeTable m NvidiaH264 = nvidiaDecode"
| "buildHwaccelDecodeTable m NvidiaH265 = nvidiaDecode"
| "buildHwaccelDecodeTable m NvidiaMjpeg = nvidiaDecode"
| "buildHwaccelDecodeTable m JetsonH264 = ''-c:v h264_nvmpi -resize {1}x{2}''"
| "buildHwaccelDecodeTable m JetsonH265 = ''-c:v hevc_nvmpi -resize {1}x{2}''"
| "buildHwaccelDecodeTable m Rkmpp = rkmppNoDumpExtraDecode @ dumpExtra m"
| "buildHwaccelDecodeTable m RkmppNoDumpExtra = rkmppNoDumpExtraDecode"
| "buildHwaccelDecodeTable m RkH264 = rkmppNoDumpExtraDecode @ dumpExtra m"
| "buildHwaccelDecodeTable m RkH265 = rkmppNoDumpExtraDecode @ dumpExtra m"
| "buildHwaccelDecodeTable m Vulkan =
     ''-hwaccel vulkan -init_hw_device vulkan=gpu:0 -filter_hw_device gpu -hwaccel_output_format vulkan''"
| "buildHwaccelDecodeTable m AmdAmf =
     ''-hwaccel amf -init_hw_device amf=gpu:0 -filter_hw_device gpu -hwaccel_output_format amf''"

text \<open>The scale table; \<open>None\<close> is its key \<open>default\<close>.\<close>

definition cpuScale :: string where
  "cpuScale = ''-r {0} -vf fps={0},scale={1}:{2}''"

definition nvidiaScale :: string where
  "nvidiaScale = ''-r {0} -vf fps={0},scale_cuda=w={1}:h={2}''"

definition qsvScale :: string where
  "qsvScale = ''-r {0} -vf vpp_qsv=w={1}:h={2}:format=nv12,fps={0}''"

definition rkmppScale :: string where
  "rkmppScale = ''-r {0} -vf scale_rkrga=w={1}:h={2}:format=yuv420p:force_original_aspect_ratio=0''"

fun PRESETS_HW_ACCEL_SCALE :: "hwaccelPreset option \<Rightarrow> string" where
  "PRESETS_HW_ACCEL_SCALE (Some Rpi64H264) = cpuScale"
| "PRESETS_HW_ACCEL_SCALE (Some Rpi64H265) = cpuScale"
| "PRESETS_HW_ACCEL_SCALE (Some Vaapi) = ''-r {0} -vf fps={0},scale_vaapi=w={1}:h={2}''"
| "PRESETS_HW_ACCEL_SCALE (Some QsvH264) = qsvScale"
| "PRESETS_HW_ACCEL_SCALE (Some QsvH265) = qsvScale"
| "PRESETS_HW_ACCEL_SCALE (Some Nvidia) = nvidiaScale"
| "PRESETS_HW_ACCEL_SCALE (Some NvidiaH264) = nvidiaScale"
| "PRESETS_HW_ACCEL_SCALE (Some NvidiaH265) = nvidiaScale"
| "PRESETS_HW_ACCEL_SCALE (Some NvidiaMjpeg) = nvidiaScale"
| "PRESETS_HW_ACCEL_SCALE (Some JetsonH264) = ''-r {0}''"
| "PRESETS_HW_ACCEL_SCALE (Some JetsonH265) = ''-r {0}''"
| "PRESETS_HW_ACCEL_SCALE (Some Rkmpp) = rkmppScale"
| "PRESETS_HW_ACCEL_SCALE (Some RkmppNoDumpExtra) = rkmppScale"
| "PRESETS_HW_ACCEL_SCALE (Some RkH264) = rkmppScale"
| "PRESETS_HW_ACCEL_SCALE (Some RkH265) = rkmppScale"
| "PRESETS_HW_ACCEL_SCALE None = cpuScale"
| "PRESETS_HW_ACCEL_SCALE (Some Vulkan) = ''-r {0} -vf fps={0},hwupload,scale_vulkan=w={1}:h={2}''"
| "PRESETS_HW_ACCEL_SCALE (Some AmdAmf) = ''-r {0} -vf fps={0},hwupload,scale_amf=w={1}:h={2}''"

definition nvencEncode :: string where
  "nvencEncode = ''-c:v h264_nvenc -preset p4 -rc vbr -cq 21 -profile:v high -level 4.1''"

fun PRESETS_HW_ACCEL_ENCODE :: "hwaccelPreset \<Rightarrow> string option" where
  "PRESETS_HW_ACCEL_ENCODE Nvidia = Some nvencEncode"
| "PRESETS_HW_ACCEL_ENCODE NvidiaH264 = Some nvencEncode"
| "PRESETS_HW_ACCEL_ENCODE NvidiaH265 = Some nvencEncode"
| "PRESETS_HW_ACCEL_ENCODE Vaapi = Some ''-c:v h264_vaapi -rc_mode CQP -qp 21 -profile:v high''"
| "PRESETS_HW_ACCEL_ENCODE QsvH264 = Some ''-c:v h264_qsv -global_quality 21 -profile:v high''"
| "PRESETS_HW_ACCEL_ENCODE QsvH265 = Some ''-c:v h264_qsv -global_quality 21 -profile:v high''"
| "PRESETS_HW_ACCEL_ENCODE _ = None"

section \<open>Templates to argument lists\<close>

definition PLACEHOLDER_DEVICE :: string where
  "PLACEHOLDER_DEVICE = ''{3}''"

record templateVars =
  tv_fps :: "nat option"
  tv_width :: "nat option"
  tv_height :: "nat option"
  tv_device :: "string option"

definition numText :: "nat option \<Rightarrow> string" where
  "numText v = (case v of None \<Rightarrow> [] | Some n \<Rightarrow> show_nat n)"

definition fillTemplate :: "string \<Rightarrow> templateVars \<Rightarrow> string" where
  "fillTemplate template vars =
     replace_all ''{3}'' (case tv_device vars of None \<Rightarrow> [] | Some d \<Rightarrow> d)
       (replace_all ''{2}'' (numText (tv_height vars))
         (replace_all ''{1}'' (numText (tv_width vars))
           (replace_all ''{0}'' (numText (tv_fps vars)) template)))"

definition templateToArgs :: "string \<Rightarrow> string list" where
  "templateToArgs template = filter (\<lambda>t. t \<noteq> []) (split_by js_space template)"

datatype hwError = NeedsDevice hwaccelPreset

definition hwaccelDecodeArgs ::
    "jsnum \<Rightarrow> hwaccelPreset \<Rightarrow> string option \<Rightarrow> nat option \<Rightarrow> nat option \<Rightarrow> (hwError, string list) result" where
  "hwaccelDecodeArgs major preset deviceOpt width height =
     (let template = buildHwaccelDecodeTable major preset;
          device = (case deviceOpt of None \<Rightarrow> [] | Some d \<Rightarrow> d)
      in if str_includes template PLACEHOLDER_DEVICE \<and> device = [] then Inl (NeedsDevice preset)
         else Inr (templateToArgs (fillTemplate template
                \<lparr>tv_fps = None, tv_width = width, tv_height = height, tv_device = Some device\<rparr>)))"

definition hwaccelScaleArgs :: "hwaccelPreset option \<Rightarrow> nat \<Rightarrow> nat \<Rightarrow> nat \<Rightarrow> string list" where
  "hwaccelScaleArgs preset fps width height =
     templateToArgs (fillTemplate (PRESETS_HW_ACCEL_SCALE preset)
       \<lparr>tv_fps = Some fps, tv_width = Some width, tv_height = Some height, tv_device = None\<rparr>)"

section \<open>Modes\<close>

datatype hwaccelMode = ModeAuto | ModeCpu | ModePreset hwaccelPreset

definition normalizeHwaccelMode :: "string option \<Rightarrow> hwaccelMode" where
  "normalizeHwaccelMode raw =
     (let v = js_lower (js_trim (case raw of None \<Rightarrow> [] | Some s \<Rightarrow> s)) in
      if v = ''cpu'' \<or> v = ''off'' \<or> v = ''none'' \<or> v = ''false'' then ModeCpu
      else case isHwaccelPreset v of Some p \<Rightarrow> ModePreset p | None \<Rightarrow> ModeAuto)"

definition AUTO_PROBE_ORDER :: "hwaccelPreset list" where
  "AUTO_PROBE_ORDER = [Nvidia, Vaapi, QsvH264]"

text \<open>\<open>vainfo\<close> is asked device by device; its answers are a parameter in the world.\<close>

fun vainfoFilter :: "(string \<Rightarrow> 'w \<Rightarrow> bool \<times> 'w) \<Rightarrow> string list \<Rightarrow> 'w \<Rightarrow> string list \<times> 'w" where
  "vainfoFilter vainfo [] w = ([], w)"
| "vainfoFilter vainfo (d # ds) w =
     (let (ok, w') = vainfo (''/dev/dri/'' @ d) w; (valid, w'') = vainfoFilter vainfo ds w'
      in (if ok then (''/dev/dri/'' @ d) # valid else valid, w''))"

definition selectLibvaDevices ::
    "string list option \<Rightarrow> (string \<Rightarrow> 'w \<Rightarrow> bool \<times> 'w) \<Rightarrow> 'w \<Rightarrow> string list \<times> 'w" where
  "selectLibvaDevices entries vainfo w =
     (case entries of
        None \<Rightarrow> ([], w)
      | Some es \<Rightarrow>
          (let devices = filter (\<lambda>d. starts_with d ''render'') es in
           case devices of
             [] \<Rightarrow> ([''/dev/dri/renderD128''], w)
           | [d] \<Rightarrow> ([''/dev/dri/'' @ d], w)
           | _ \<Rightarrow> vainfoFilter vainfo devices w))"

section \<open>The probe\<close>

record ffmpegExecResult =
  xr_ok :: bool
  xr_stdout :: string
  xr_stderr :: string

type_synonym 'w ffmpegExec = "string list \<Rightarrow> nat \<Rightarrow> 'w \<Rightarrow> ffmpegExecResult \<times> 'w"

definition isNvidia :: "hwaccelPreset \<Rightarrow> bool" where
  "isNvidia preset = starts_with (presetName preset) ''preset-nvidia''"

definition isQsv :: "hwaccelPreset \<Rightarrow> bool" where
  "isQsv preset = starts_with (presetName preset) ''preset-intel-qsv''"

definition smokeCommon :: "string list" where
  "smokeCommon = [''-hide_banner'', ''-loglevel'', ''error'', ''-y'']"

definition smokeSource :: "string list" where
  "smokeSource = [''-f'', ''lavfi'', ''-i'', ''testsrc2=size=320x240:rate=10'', ''-frames:v'', ''10'']"

definition buildHwaccelEncodeSmokeArgs :: "hwaccelPreset \<Rightarrow> string \<Rightarrow> string \<Rightarrow> string list" where
  "buildHwaccelEncodeSmokeArgs preset device outputPath =
     (if isNvidia preset
      then smokeCommon @ smokeSource @ [''-c:v'', ''h264_nvenc'', ''-gpu'', device, outputPath]
      else if preset = Vaapi
      then smokeCommon @ [''-vaapi_device'', device] @ smokeSource
             @ [''-vf'', ''format=nv12,hwupload'', ''-c:v'', ''h264_vaapi'', outputPath]
      else if isQsv preset
      then smokeCommon @ [''-init_hw_device'', ''qsv=hw:'' @ device, ''-filter_hw_device'', ''hw'']
             @ smokeSource
             @ [''-vf'', ''format=nv12,hwupload=extra_hw_frames=16'', ''-c:v'', ''h264_qsv'', outputPath]
      else smokeCommon @ smokeSource @ [''-c:v'', ''libx264'', outputPath])"

definition buildHwaccelDecodeSmokeArgs ::
    "jsnum \<Rightarrow> hwaccelPreset \<Rightarrow> string \<Rightarrow> string \<Rightarrow> (hwError, string list) result" where
  "buildHwaccelDecodeSmokeArgs major preset device inputPath =
     (let decodePreset = (if isNvidia preset then Nvidia else if isQsv preset then QsvH264 else preset) in
      case hwaccelDecodeArgs major decodePreset (Some device) None None of
        Inl e \<Rightarrow> Inl e
      | Inr args \<Rightarrow> Inr ([''-hide_banner'', ''-loglevel'', ''error''] @ args
                     @ [''-i'', inputPath, ''-frames:v'', ''10'', ''-f'', ''null'', ''-'']))"

definition firstUsefulLine :: "string \<Rightarrow> string" where
  "firstUsefulLine text =
     (let ls = filter (\<lambda>l. l \<noteq> []) (map js_trim (split_on CHR 0x0A text))
      in take 200 (if ls = [] then ''erro desconhecido'' else last ls))"

datatype failureReason = EncoderMissing | NoRenderNode | Stderr string | InQuarantine

record hwaccelProbeReport =
  hr_nvenc :: bool
  hr_vaapi :: bool
  hr_qsv :: bool
  hr_renderNodes :: "string list"
  hr_proven :: "hwaccelPreset \<rightharpoonup> bool"
  hr_failures :: "hwaccelPreset \<rightharpoonup> failureReason"
  hr_devices :: "hwaccelPreset \<rightharpoonup> string"

definition disprove :: "hwaccelPreset \<Rightarrow> failureReason \<Rightarrow> hwaccelProbeReport \<Rightarrow> hwaccelProbeReport" where
  "disprove preset reason report =
     report\<lparr>hr_proven := (hr_proven report)(preset \<mapsto> False),
            hr_failures := (hr_failures report)(preset \<mapsto> reason)\<rparr>"

definition compiledForPreset :: "hwaccelPreset \<Rightarrow> hwaccelProbeReport \<Rightarrow> bool" where
  "compiledForPreset preset report =
     (if isNvidia preset then hr_nvenc report
      else if preset = Vaapi then hr_vaapi report else hr_qsv report)"

definition probeDevice :: "string option \<Rightarrow> hwaccelPreset \<Rightarrow> hwaccelProbeReport \<Rightarrow> string" where
  "probeDevice nvidiaGpuIndex preset report =
     (if isNvidia preset then (case nvidiaGpuIndex of None \<Rightarrow> ''0'' | Some g \<Rightarrow> g)
      else (case hr_renderNodes report of [] \<Rightarrow> [] | d # _ \<Rightarrow> d))"

text \<open>One turn of the loop over the candidates.\<close>

definition probePreset ::
    "jsnum \<Rightarrow> 'w ffmpegExec \<Rightarrow> string \<Rightarrow> string option \<Rightarrow> hwaccelPreset \<Rightarrow> hwaccelProbeReport \<Rightarrow> 'w
     \<Rightarrow> (hwError, hwaccelProbeReport) result \<times> 'w" where
  "probePreset major exec probeFile nvidiaGpuIndex preset report w =
     (let device = probeDevice nvidiaGpuIndex preset report
      in if \<not> compiledForPreset preset report then (Inr (disprove preset EncoderMissing report), w)
         else if device = [] then (Inr (disprove preset NoRenderNode report), w)
         else
           (let (enc, w1) = exec (buildHwaccelEncodeSmokeArgs preset device probeFile) 20000 w in
            if \<not> xr_ok enc then (Inr (disprove preset (Stderr (firstUsefulLine (xr_stderr enc))) report), w1)
            else case buildHwaccelDecodeSmokeArgs major preset device probeFile of
                Inl e \<Rightarrow> (Inl e, w1)
              | Inr args \<Rightarrow>
                  (let (dec, w2) = exec args 20000 w1 in
                   if \<not> xr_ok dec
                   then (Inr (disprove preset (Stderr (firstUsefulLine (xr_stderr dec))) report), w2)
                   else (Inr (report\<lparr>hr_proven := (hr_proven report)(preset \<mapsto> True),
                                     hr_devices := (hr_devices report)(preset \<mapsto> device)\<rparr>), w2))))"

fun probeLoop ::
    "jsnum \<Rightarrow> 'w ffmpegExec \<Rightarrow> string \<Rightarrow> string option \<Rightarrow> hwaccelPreset list \<Rightarrow> hwaccelProbeReport \<Rightarrow> 'w
     \<Rightarrow> (hwError, hwaccelProbeReport) result \<times> 'w" where
  "probeLoop major exec probeFile gpu [] report w = (Inr report, w)"
| "probeLoop major exec probeFile gpu (preset # rest) report w =
     (case probePreset major exec probeFile gpu preset report w of
        (Inl e, w') \<Rightarrow> (Inl e, w')
      | (Inr report', w') \<Rightarrow> probeLoop major exec probeFile gpu rest report' w')"

record 'w probeOptions =
  po_exec :: "'w ffmpegExec"
  po_listRenderNodes :: "'w \<Rightarrow> string list \<times> 'w"
  po_probeFile :: string
  po_removeProbeFile :: "'w \<Rightarrow> 'w"
  po_candidates :: "hwaccelPreset list option"
  po_nvidiaGpuIndex :: "string option"

definition probeHwaccel ::
    "jsnum \<Rightarrow> 'w probeOptions \<Rightarrow> 'w \<Rightarrow> (hwError, hwaccelProbeReport) result \<times> 'w" where
  "probeHwaccel major options w =
     (let candidates = (case po_candidates options of None \<Rightarrow> AUTO_PROBE_ORDER | Some c \<Rightarrow> c);
          (encodersOut, w1) = po_exec options [''-hide_banner'', ''-encoders''] 8000 w;
          listed = js_lower (xr_stdout encodersOut);
          (renderNodes, w2) = po_listRenderNodes options w1;
          report0 = \<lparr>hr_nvenc = str_includes listed ''h264_nvenc'',
                     hr_vaapi = str_includes listed ''h264_vaapi'',
                     hr_qsv = str_includes listed ''h264_qsv'',
                     hr_renderNodes = renderNodes,
                     hr_proven = Map.empty, hr_failures = Map.empty, hr_devices = Map.empty\<rparr>
      in case probeLoop major (po_exec options) (po_probeFile options) (po_nvidiaGpuIndex options)
                candidates report0 w2 of
           (Inl e, w3) \<Rightarrow> (Inl e, w3)
         | (Inr report, w3) \<Rightarrow> (Inr report, po_removeProbeFile options w3))"

section \<open>The decision\<close>

datatype hwReason =
    TurnedOff
  | ProvenHere hwaccelPreset
  | ForcedButBroken hwaccelPreset "failureReason option"
  | AnnouncedButBroken "(hwaccelPreset \<times> failureReason option) list"
  | NothingCompiled

record hwaccelDecision =
  hd_mode :: hwaccelMode
  hd_preset :: "hwaccelPreset option"
  hd_device :: "string option"
  hd_usingCpu :: bool
  hd_proven :: bool
  hd_degraded :: bool
  hd_reason :: hwReason
  hd_warnings :: "hwReason list"

definition anyCompiled :: "hwaccelProbeReport \<Rightarrow> bool" where
  "anyCompiled report \<longleftrightarrow> hr_nvenc report \<or> hr_vaapi report \<or> hr_qsv report"

definition modeCandidates :: "hwaccelMode \<Rightarrow> hwaccelPreset list" where
  "modeCandidates mode = (case mode of ModePreset p \<Rightarrow> [p] | _ \<Rightarrow> AUTO_PROBE_ORDER)"

definition cpuDecision :: "hwaccelMode \<Rightarrow> bool \<Rightarrow> hwReason \<Rightarrow> hwReason list \<Rightarrow> hwaccelDecision" where
  "cpuDecision mode degraded reason warnings =
     \<lparr>hd_mode = mode, hd_preset = None, hd_device = None, hd_usingCpu = True, hd_proven = False,
      hd_degraded = degraded, hd_reason = reason, hd_warnings = warnings\<rparr>"

definition resolveHwaccel :: "hwaccelMode \<Rightarrow> hwaccelProbeReport \<Rightarrow> hwaccelDecision" where
  "resolveHwaccel mode report =
     (if mode = ModeCpu then cpuDecision mode False TurnedOff []
      else case find (\<lambda>p. hr_proven report p = Some True) (modeCandidates mode) of
        Some p \<Rightarrow>
          \<lparr>hd_mode = mode, hd_preset = Some p, hd_device = hr_devices report p, hd_usingCpu = False,
           hd_proven = True, hd_degraded = False, hd_reason = ProvenHere p, hd_warnings = []\<rparr>
      | None \<Rightarrow>
          (case mode of
             ModePreset p \<Rightarrow>
               (let warning = ForcedButBroken p (hr_failures report p)
                in cpuDecision mode True warning [warning])
           | _ \<Rightarrow>
               if anyCompiled report
               then (let warning = AnnouncedButBroken
                           (map (\<lambda>p. (p, hr_failures report p)) (modeCandidates mode))
                     in cpuDecision mode True warning [warning])
               else cpuDecision mode False NothingCompiled []))"

section \<open>The transcode commands\<close>

definition buildCpuTranscodeArgs :: "string \<Rightarrow> string \<Rightarrow> string list" where
  "buildCpuTranscodeArgs input output =
     [''-y'', ''-i'', input, ''-map'', ''0:v:0'', ''-map'', ''0:a:0?'', ''-c:v'', ''libx264'',
      ''-preset'', ''ultrafast'', ''-crf'', ''18'', ''-profile:v'', ''high'', ''-level'', ''4.1'',
      ''-pix_fmt'', ''yuv420p'', ''-c:a'', ''aac'', ''-ar'', ''44100'', ''-ac'', ''2'',
      ''-movflags'', ''+faststart'', output]"

definition buildCompatibleTranscodeArgs ::
    "jsnum \<Rightarrow> string \<Rightarrow> string \<Rightarrow> hwaccelPreset option \<Rightarrow> string option \<Rightarrow> (hwError, string list) result" where
  "buildCompatibleTranscodeArgs major input output preset device =
     (case preset of
        None \<Rightarrow> Inr (buildCpuTranscodeArgs input output)
      | Some p \<Rightarrow>
          (case PRESETS_HW_ACCEL_ENCODE p of
             None \<Rightarrow> Inr (buildCpuTranscodeArgs input output)
           | Some encode \<Rightarrow>
               (case hwaccelDecodeArgs major p device None None of
                  Inl e \<Rightarrow> Inl e
                | Inr decode \<Rightarrow>
                    Inr ([''-y''] @ decode @ [''-i'', input, ''-map'', ''0:v:0'', ''-map'', ''0:a:0?'']
                      @ templateToArgs encode
                      @ [''-c:a'', ''aac'', ''-ar'', ''44100'', ''-ac'', ''2'', ''-movflags'',
                         ''+faststart'', output]))))"

section \<open>Quarantine and cached detection\<close>

definition DETECTION_TTL_MS :: int where
  "DETECTION_TTL_MS = 5 * 60 * 1000"

definition QUARANTINE_MS :: int where
  "QUARANTINE_MS = 15 * 60 * 1000"

definition QUARANTINE_AFTER_FAILURES :: nat where
  "QUARANTINE_AFTER_FAILURES = 2"

text \<open>\<open>hs_inFlight\<close> says that a probe is running; its result is delivered by \<open>finishDetection\<close>.\<close>

record hwState =
  hs_cache :: "(hwaccelProbeReport \<times> int) option"
  hs_inFlight :: bool
  hs_failureCounts :: "hwaccelPreset \<rightharpoonup> nat"
  hs_quarantinedUntil :: "hwaccelPreset \<rightharpoonup> int"

definition resetHwaccelDetectionCache :: hwState where
  "resetHwaccelDetectionCache =
     \<lparr>hs_cache = None, hs_inFlight = False, hs_failureCounts = Map.empty,
      hs_quarantinedUntil = Map.empty\<rparr>"

definition reportHwaccelFailure :: "hwaccelPreset \<Rightarrow> int \<Rightarrow> hwState \<Rightarrow> bool \<times> hwState" where
  "reportHwaccelFailure preset now st =
     (let count = (case hs_failureCounts st preset of None \<Rightarrow> 0 | Some n \<Rightarrow> n) + 1;
          st1 = st\<lparr>hs_failureCounts := (hs_failureCounts st)(preset \<mapsto> count)\<rparr>
      in if count \<ge> QUARANTINE_AFTER_FAILURES
         then (True, st1\<lparr>hs_quarantinedUntil := (hs_quarantinedUntil st1)(preset \<mapsto> now + QUARANTINE_MS),
                         hs_failureCounts := (hs_failureCounts st1)(preset \<mapsto> 0),
                         hs_cache := None\<rparr>)
         else (False, st1))"

definition reportHwaccelSuccess :: "hwaccelPreset \<Rightarrow> hwState \<Rightarrow> hwState" where
  "reportHwaccelSuccess preset st =
     st\<lparr>hs_failureCounts := (hs_failureCounts st)(preset := None)\<rparr>"

definition isHwaccelQuarantined :: "hwaccelPreset \<Rightarrow> int \<Rightarrow> hwState \<Rightarrow> bool \<times> hwState" where
  "isHwaccelQuarantined preset now st =
     (case hs_quarantinedUntil st preset of
        None \<Rightarrow> (False, st)
      | Some until \<Rightarrow>
          if until \<le> now
          then (False, st\<lparr>hs_quarantinedUntil := (hs_quarantinedUntil st)(preset := None)\<rparr>)
          else (True, st))"

text \<open>
  The loop runs over the presets the report has an entry for; the turns touch different presets,
  so their order does not matter.
\<close>

fun quarantineLoop ::
    "int \<Rightarrow> hwaccelPreset list \<Rightarrow> hwaccelProbeReport \<Rightarrow> hwState \<Rightarrow> hwaccelProbeReport \<times> hwState" where
  "quarantineLoop now [] report st = (report, st)"
| "quarantineLoop now (preset # rest) report st =
     (if hr_proven report preset = Some True
      then (let (q, st') = isHwaccelQuarantined preset now st in
            quarantineLoop now rest (if q then disprove preset InQuarantine report else report) st')
      else quarantineLoop now rest report st)"

definition applyQuarantine :: "hwaccelProbeReport \<Rightarrow> int \<Rightarrow> hwState \<Rightarrow> hwaccelProbeReport \<times> hwState" where
  "applyQuarantine report now st =
     quarantineLoop now (filter (\<lambda>p. hr_proven report p \<noteq> None) HWACCEL_PRESETS) report st"

text \<open>
  \<open>detectHwaccelReport\<close> up to its first suspension: it answers from the cache, joins the running
  probe, or starts one.
\<close>

datatype detection = Cached hwaccelProbeReport | JoinProbe | StartProbe

definition beginDetection :: "bool \<Rightarrow> int \<Rightarrow> hwState \<Rightarrow> detection \<times> hwState" where
  "beginDetection force now st =
     (case hs_cache st of
        Some (report, expiresAt) \<Rightarrow>
          if \<not> force \<and> expiresAt > now then (Cached report, st)
          else if \<not> force \<and> hs_inFlight st then (JoinProbe, st)
          else (StartProbe, st\<lparr>hs_inFlight := True\<rparr>)
      | None \<Rightarrow>
          if \<not> force \<and> hs_inFlight st then (JoinProbe, st)
          else (StartProbe, st\<lparr>hs_inFlight := True\<rparr>))"

text \<open>The two continuations of the probe: \<open>then\<close> on success, \<open>finally\<close> in both cases.\<close>

definition finishDetection :: "(hwError, hwaccelProbeReport) result \<Rightarrow> int \<Rightarrow> hwState \<Rightarrow> hwState" where
  "finishDetection r now st =
     (case r of
        Inl _ \<Rightarrow> st\<lparr>hs_inFlight := False\<rparr>
      | Inr report \<Rightarrow> st\<lparr>hs_cache := Some (report, now + DETECTION_TTL_MS), hs_inFlight := False\<rparr>)"

text \<open>The last line of \<open>detectTranscodeHwaccel\<close>, once the report is there.\<close>

definition decideTranscode ::
    "hwaccelMode \<Rightarrow> hwaccelProbeReport \<Rightarrow> int \<Rightarrow> hwState \<Rightarrow> hwaccelDecision \<times> hwState" where
  "decideTranscode mode report now st =
     (let (report', st') = applyQuarantine report now st in (resolveHwaccel mode report', st'))"

text \<open>
  \<open>detectTranscodeHwaccel\<close> with no other caller in between; \<open>joined\<close> is what the running probe
  gives to a caller that joins it. The probe it starts is given no \<open>candidates\<close> and no GPU index.
\<close>

definition detectTranscodeHwaccel ::
    "jsnum \<Rightarrow> hwaccelMode \<Rightarrow> bool \<Rightarrow> 'w probeOptions \<Rightarrow> (hwError, hwaccelProbeReport) result \<Rightarrow> int
     \<Rightarrow> hwState \<Rightarrow> 'w \<Rightarrow> (hwError, hwaccelDecision) result \<times> hwState \<times> 'w" where
  "detectTranscodeHwaccel major mode force options joined now st w =
     (let (b, st1) = beginDetection force now st;
          (r, st2, w') =
            (case b of
               Cached report \<Rightarrow> (Inr report, st1, w)
             | JoinProbe \<Rightarrow> (joined, st1, w)
             | StartProbe \<Rightarrow>
                 (let (r, w') = probeHwaccel major
                        (options\<lparr>po_candidates := None, po_nvidiaGpuIndex := None\<rparr>) w
                  in (r, finishDetection r now st1, w')))
      in case r of
           Inl e \<Rightarrow> (Inl e, st2, w')
         | Inr report \<Rightarrow> (let (d, st3) = decideTranscode mode report now st2 in (Inr d, st3, w')))"

text \<open>
  The callers interleave: between the start of a probe and its end anything may happen. An event is
  one atomic turn of the event loop that touches the module's variables.
\<close>

datatype hwEvent =
    EvBegin bool int
  | EvFinish "(hwError, hwaccelProbeReport) result" int
  | EvDecide hwaccelMode hwaccelProbeReport int
  | EvFailure hwaccelPreset int
  | EvSuccess hwaccelPreset int

fun hwApply :: "hwEvent \<Rightarrow> hwState \<Rightarrow> hwState" where
  "hwApply (EvBegin force now) st = snd (beginDetection force now st)"
| "hwApply (EvFinish r now) st = finishDetection r now st"
| "hwApply (EvDecide mode report now) st = snd (decideTranscode mode report now st)"
| "hwApply (EvFailure p now) st = snd (reportHwaccelFailure p now st)"
| "hwApply (EvSuccess p now) st = reportHwaccelSuccess p st"

fun eventTime :: "hwEvent \<Rightarrow> int" where
  "eventTime (EvBegin _ t) = t"
| "eventTime (EvFinish _ t) = t"
| "eventTime (EvDecide _ _ t) = t"
| "eventTime (EvFailure _ t) = t"
| "eventTime (EvSuccess _ t) = t"

text \<open>The steps of the module: a probe that ends was run by \<open>detectHwaccelReport\<close>.\<close>

inductive hwStep :: "jsnum \<Rightarrow> 'w probeOptions \<Rightarrow> hwState \<Rightarrow> hwState \<Rightarrow> bool"
  for major :: jsnum and options :: "'w probeOptions" where
  step_begin: "hwStep major options st (hwApply (EvBegin force now) st)"
| step_finish: "r = fst (probeHwaccel major (options\<lparr>po_candidates := None, po_nvidiaGpuIndex := None\<rparr>) w)
    \<Longrightarrow> hwStep major options st (hwApply (EvFinish r now) st)"
| step_decide: "hs_cache st = Some (report, e) \<Longrightarrow>
    hwStep major options st (hwApply (EvDecide mode report now) st)"
| step_failure: "hwStep major options st (hwApply (EvFailure p now) st)"
| step_success: "hwStep major options st (hwApply (EvSuccess p now) st)"

section \<open>Lemmas\<close>

subsection \<open>Templates\<close>

lemma space_braces [simp]: "\<not> js_space CHR ''{''" "\<not> js_space CHR ''}''" "\<not> js_space CHR ''3''"
  by (simp_all add: js_space_def)

lemma decode_no_numbers:
  assumes "PRESETS_HW_ACCEL_ENCODE p \<noteq> None"
  shows "fillTemplate (buildHwaccelDecodeTable major p)
           \<lparr>tv_fps = None, tv_width = None, tv_height = None, tv_device = Some d\<rparr>
         = replace_all ''{3}'' d (buildHwaccelDecodeTable major p)"
    and "str_includes (buildHwaccelDecodeTable major p) PLACEHOLDER_DEVICE"
  using assms
  by (cases p; simp add: fillTemplate_def numText_def nvidiaDecode_def dumpExtra_def PLACEHOLDER_DEVICE_def
      split: jsnum.split)+

text \<open>A device without white space is put in place token by token: it never adds or removes one.\<close>

lemma templateToArgs_device:
  assumes "d \<noteq> []" "\<forall>c\<in>set d. \<not> js_space c"
  shows "templateToArgs (replace_all ''{3}'' d s) = map (replace_all ''{3}'' d) (templateToArgs s)"
  using assms
  by (simp add: templateToArgs_def split_by_replace_all filter_map o_def replace_all_Nil_iff)

subsection \<open>The probe\<close>

lemma smokeArgs_ok:
  assumes "device \<noteq> []"
  shows "\<exists>args. buildHwaccelDecodeSmokeArgs major preset device f = Inr args"
  using assms by (simp add: buildHwaccelDecodeSmokeArgs_def hwaccelDecodeArgs_def Let_def)

text \<open>What the report says of a preset it calls proven.\<close>

definition provenReally ::
    "jsnum \<Rightarrow> 'w ffmpegExec \<Rightarrow> string \<Rightarrow> hwaccelProbeReport \<Rightarrow> hwaccelPreset \<Rightarrow> bool" where
  "provenReally major exec probeFile report p \<longleftrightarrow>
     (\<exists>device w enc w1 args dec w2. hr_devices report p = Some device \<and> device \<noteq> []
        \<and> exec (buildHwaccelEncodeSmokeArgs p device probeFile) 20000 w = (enc, w1) \<and> xr_ok enc
        \<and> buildHwaccelDecodeSmokeArgs major p device probeFile = Inr args
        \<and> exec args 20000 w1 = (dec, w2) \<and> xr_ok dec)"

definition honest :: "jsnum \<Rightarrow> 'w ffmpegExec \<Rightarrow> string \<Rightarrow> hwaccelProbeReport \<Rightarrow> bool" where
  "honest major exec probeFile report \<longleftrightarrow>
     (\<forall>p. hr_proven report p = Some True \<longrightarrow> provenReally major exec probeFile report p)"

lemma provenReally_cong:
  "hr_devices r p = hr_devices r' p \<Longrightarrow> provenReally major exec f r p = provenReally major exec f r' p"
  by (simp add: provenReally_def)

lemma honest_disprove: "honest major exec f report \<Longrightarrow> honest major exec f (disprove q reason report)"
  by (auto simp: honest_def disprove_def provenReally_def)

lemma probePreset_cases:
  obtains reason w' where "probePreset major exec f gpu q report w = (Inr (disprove q reason report), w')"
  | device w' where "probePreset major exec f gpu q report w =
        (Inr (report\<lparr>hr_proven := (hr_proven report)(q \<mapsto> True),
                     hr_devices := (hr_devices report)(q \<mapsto> device)\<rparr>), w')"
      "provenReally major exec f
         (report\<lparr>hr_proven := (hr_proven report)(q \<mapsto> True), hr_devices := (hr_devices report)(q \<mapsto> device)\<rparr>) q"
proof -
  let ?d = "probeDevice gpu q report"
  let ?c = "compiledForPreset q report"
  obtain enc w1 where enc: "exec (buildHwaccelEncodeSmokeArgs q ?d f) 20000 w = (enc, w1)" by fastforce
  show thesis
  proof (cases "?c \<and> ?d \<noteq> [] \<and> xr_ok enc")
    case True
    then obtain args where args: "buildHwaccelDecodeSmokeArgs major q ?d f = Inr args"
      using smokeArgs_ok by blast
    obtain dec w2 where dec: "exec args 20000 w1 = (dec, w2)" by fastforce
    show thesis
    proof (cases "xr_ok dec")
      case False
      with True enc args dec show thesis
        by (intro that(1)) (simp add: probePreset_def Let_def)
    next
      case ok: True
      have "provenReally major exec f
         (report\<lparr>hr_proven := (hr_proven report)(q \<mapsto> True), hr_devices := (hr_devices report)(q \<mapsto> ?d)\<rparr>) q"
        unfolding provenReally_def using True enc args dec ok by simp blast
      moreover have "probePreset major exec f gpu q report w =
        (Inr (report\<lparr>hr_proven := (hr_proven report)(q \<mapsto> True),
                     hr_devices := (hr_devices report)(q \<mapsto> ?d)\<rparr>), w2)"
        using True enc args dec ok by (simp add: probePreset_def Let_def)
      ultimately show thesis by (intro that(2))
    qed
  next
    case False
    then consider "\<not> ?c" | "?c" "?d = []" | "?c" "?d \<noteq> []" "\<not> xr_ok enc" by blast
    then show thesis
      by cases (use enc in \<open>intro that(1), simp add: probePreset_def Let_def\<close>)+
  qed
qed

lemma probeLoop_honest:
  assumes "honest major exec f report" "dom (hr_proven report) \<subseteq> A" "set cs \<subseteq> A"
  shows "\<exists>report' w'. probeLoop major exec f gpu cs report w = (Inr report', w')
    \<and> honest major exec f report' \<and> dom (hr_proven report') \<subseteq> A"
  using assms
proof (induction cs arbitrary: report w)
  case (Cons q cs)
  show ?case
  proof (cases rule: probePreset_cases [of major exec f gpu q report w])
    case (1 reason w')
    have "dom (hr_proven (disprove q reason report)) \<subseteq> A"
      using Cons.prems by (auto simp: disprove_def)
    with Cons.IH [OF honest_disprove [OF Cons.prems(1)] this] Cons.prems 1 show ?thesis by simp
  next
    case (2 device w')
    let ?r = "report\<lparr>hr_proven := (hr_proven report)(q \<mapsto> True), hr_devices := (hr_devices report)(q \<mapsto> device)\<rparr>"
    from Cons.prems(1) 2(2) have "honest major exec f ?r"
      by (auto simp: honest_def provenReally_def)
    moreover have "dom (hr_proven ?r) \<subseteq> A" using Cons.prems by auto
    moreover have "set cs \<subseteq> A" using Cons.prems by simp
    ultimately have "\<exists>report'' w''. probeLoop major exec f gpu cs ?r w' = (Inr report'', w'')
        \<and> honest major exec f report'' \<and> dom (hr_proven report'') \<subseteq> A" by (rule Cons.IH)
    with 2(1) show ?thesis by simp
  qed
qed simp

lemma probe_honest:
  "\<exists>report w'. probeHwaccel major options w = (Inr report, w')
     \<and> honest major (po_exec options) (po_probeFile options) report
     \<and> dom (hr_proven report) \<subseteq> set (case po_candidates options of None \<Rightarrow> AUTO_PROBE_ORDER | Some c \<Rightarrow> c)"
proof -
  obtain out w1 where out: "po_exec options [''-hide_banner'', ''-encoders''] 8000 w = (out, w1)" by fastforce
  obtain nodes w2 where nodes: "po_listRenderNodes options w1 = (nodes, w2)" by fastforce
  let ?l = "js_lower (xr_stdout out)"
  let ?r0 = "\<lparr>hr_nvenc = str_includes ?l ''h264_nvenc'', hr_vaapi = str_includes ?l ''h264_vaapi'',
       hr_qsv = str_includes ?l ''h264_qsv'', hr_renderNodes = nodes,
       hr_proven = Map.empty, hr_failures = Map.empty, hr_devices = Map.empty\<rparr>"
  let ?cs = "case po_candidates options of None \<Rightarrow> AUTO_PROBE_ORDER | Some c \<Rightarrow> c"
  have "honest major (po_exec options) (po_probeFile options) ?r0" by (simp add: honest_def)
  from probeLoop_honest [OF this, of "set ?cs" ?cs "po_nvidiaGpuIndex options" w2]
  show ?thesis by (auto simp: probeHwaccel_def out nodes Let_def)
qed

subsection \<open>Quarantine\<close>

lemma quarantineLoop_state:
  "hs_quarantinedUntil (snd (quarantineLoop now ps report st)) q =
     (case hs_quarantinedUntil st q of
        None \<Rightarrow> None
      | Some u \<Rightarrow> if q \<in> set ps \<and> hr_proven report q = Some True \<and> u \<le> now then None else Some u)
   \<and> hs_cache (snd (quarantineLoop now ps report st)) = hs_cache st"
proof (induction ps arbitrary: report st)
  case (Cons p ps)
  show ?case
    by (cases "hr_proven report p = Some True"; cases "hs_quarantinedUntil st p")
       (auto simp: isHwaccelQuarantined_def disprove_def Let_def Cons.IH split: option.splits)
qed (simp split: option.split)

lemma quarantineLoop_report:
  "hr_proven (fst (quarantineLoop now ps report st)) q =
     (if q \<in> set ps \<and> hr_proven report q = Some True
         \<and> (\<exists>u. hs_quarantinedUntil st q = Some u \<and> now < u)
      then Some False else hr_proven report q)
   \<and> hr_devices (fst (quarantineLoop now ps report st)) = hr_devices report"
proof (induction ps arbitrary: report st)
  case (Cons p ps)
  show ?case
    by (cases "hr_proven report p = Some True"; cases "hs_quarantinedUntil st p")
       (auto simp: isHwaccelQuarantined_def disprove_def Let_def Cons.IH)
qed simp

lemma all_presets: "set HWACCEL_PRESETS = UNIV"
  using hwaccelPreset.exhaust unfolding HWACCEL_PRESETS_def by auto

lemma applyQuarantine_proven:
  "hr_proven (fst (applyQuarantine report now st)) q =
     (if hr_proven report q = Some True \<and> (\<exists>u. hs_quarantinedUntil st q = Some u \<and> now < u)
      then Some False else hr_proven report q)"
  by (auto simp: applyQuarantine_def quarantineLoop_report all_presets)

lemma applyQuarantine_until:
  "hs_quarantinedUntil st q = Some u \<Longrightarrow> now < u \<Longrightarrow>
   hs_quarantinedUntil (snd (applyQuarantine report now st)) q = Some u"
  by (simp add: applyQuarantine_def quarantineLoop_state)

lemma applyQuarantine_cache: "hs_cache (snd (applyQuarantine report now st)) = hs_cache st"
  by (simp add: applyQuarantine_def quarantineLoop_state)

lemma disprove_compiled [simp]: "anyCompiled (disprove p reason report) = anyCompiled report"
  by (simp add: disprove_def anyCompiled_def)

lemma quarantineLoop_compiled: "anyCompiled (fst (quarantineLoop now ps report st)) = anyCompiled report"
proof (induction ps arbitrary: report st)
  case (Cons p ps)
  show ?case by (simp add: Cons.IH split_beta)
qed simp

lemma resolve_usable:
  assumes "mode \<noteq> ModeCpu" "p \<in> set (modeCandidates mode)" "hr_proven report p = Some True"
  shows "\<not> hd_usingCpu (resolveHwaccel mode report) \<and> \<not> hd_degraded (resolveHwaccel mode report)
    \<and> hd_warnings (resolveHwaccel mode report) = []"
  using assms by (auto simp: resolveHwaccel_def find_None_iff split: option.split)

lemma resolve_unmet:
  assumes "mode \<noteq> ModeCpu" "hd_usingCpu (resolveHwaccel mode report)"
  shows "hd_degraded (resolveHwaccel mode report) \<longleftrightarrow> mode \<noteq> ModeAuto \<or> anyCompiled report"
    and "hd_warnings (resolveHwaccel mode report) = [] \<longleftrightarrow> \<not> hd_degraded (resolveHwaccel mode report)"
  using assms
  by (auto simp: resolveHwaccel_def cpuDecision_def Let_def split: option.splits hwaccelMode.splits)

lemma resolve_preset:
  assumes "hd_preset (resolveHwaccel mode report) = Some p"
  shows "hr_proven report p = Some True" "p \<in> set (modeCandidates mode)" "mode \<noteq> ModeCpu"
    and "hd_device (resolveHwaccel mode report) = hr_devices report p"
  using assms
  by (auto simp: resolveHwaccel_def cpuDecision_def Let_def split: if_splits option.splits hwaccelMode.splits
      dest: find_SomeD)

lemma decide_preset:
  assumes "hd_preset (fst (decideTranscode mode report now st)) = Some p"
  shows "hr_proven report p = Some True" "p \<in> set (modeCandidates mode)" "mode \<noteq> ModeCpu"
    and "\<And>u. hs_quarantinedUntil st p = Some u \<Longrightarrow> u \<le> now"
  using assms resolve_preset [of mode "fst (applyQuarantine report now st)" p]
  by (auto simp: decideTranscode_def split_beta applyQuarantine_proven split: if_splits)

lemma hwApply_until:
  assumes "hs_quarantinedUntil st p = Some u" "t0 + QUARANTINE_MS \<le> u"
    and "t0 \<le> eventTime ev" "eventTime ev < t0 + QUARANTINE_MS"
  shows "\<exists>u'. hs_quarantinedUntil (hwApply ev st) p = Some u' \<and> t0 + QUARANTINE_MS \<le> u'"
  using assms
  by (cases ev)
     (auto simp: beginDetection_def finishDetection_def decideTranscode_def split_beta
        reportHwaccelFailure_def reportHwaccelSuccess_def Let_def applyQuarantine_until
        split: option.splits prod.splits sum.splits)

lemma hwRun_until:
  assumes "hs_quarantinedUntil st p = Some u" "t0 + QUARANTINE_MS \<le> u"
    and "\<forall>ev\<in>set evs. t0 \<le> eventTime ev \<and> eventTime ev < t0 + QUARANTINE_MS"
  shows "\<exists>u'. hs_quarantinedUntil (fold hwApply evs st) p = Some u' \<and> t0 + QUARANTINE_MS \<le> u'"
  using assms
proof (induction evs arbitrary: st u)
  case (Cons ev evs)
  then obtain u' where "hs_quarantinedUntil (hwApply ev st) p = Some u'" "t0 + QUARANTINE_MS \<le> u'"
    using hwApply_until [of st p u t0 ev] by auto
  with Cons.IH Cons.prems show ?case by simp
qed auto

subsection \<open>Every report comes from a probe of the default candidates\<close>

definition cacheInv :: "hwState \<Rightarrow> bool" where
  "cacheInv st \<longleftrightarrow> (\<forall>report e. hs_cache st = Some (report, e) \<longrightarrow> dom (hr_proven report) \<subseteq> set AUTO_PROBE_ORDER)"

definition detectProbe :: "jsnum \<Rightarrow> 'w probeOptions \<Rightarrow> 'w \<Rightarrow> (hwError, hwaccelProbeReport) result \<times> 'w" where
  "detectProbe major options w =
     probeHwaccel major (options\<lparr>po_candidates := None, po_nvidiaGpuIndex := None\<rparr>) w"

lemma detectProbe_dom:
  "\<exists>report w'. detectProbe major options w = (Inr report, w')
     \<and> dom (hr_proven report) \<subseteq> set AUTO_PROBE_ORDER"
  using probe_honest [of major "options\<lparr>po_candidates := None, po_nvidiaGpuIndex := None\<rparr>" w]
  by (auto simp: detectProbe_def)

lemma finishDetection_inv:
  "cacheInv (finishDetection (fst (detectProbe major options w)) now st)"
  using detectProbe_dom [of major options w]
  by (auto simp: cacheInv_def finishDetection_def)

interpretation hw: step_invariant "\<lambda>st. st = resetHwaccelDetectionCache" "hwStep major options" cacheInv
  for major options
proof
  show "cacheInv st" if "st = resetHwaccelDetectionCache" for st
    using that by (simp add: cacheInv_def resetHwaccelDetectionCache_def)
  show "cacheInv st'" if "cacheInv st" and "hwStep major options st st'" for st st'
    using that(2,1)
  proof cases
    case (step_finish r w now)
    then show ?thesis using finishDetection_inv [of major options w now st] by (simp add: detectProbe_def)
  qed (auto simp: cacheInv_def beginDetection_def decideTranscode_def split_beta applyQuarantine_cache
      reportHwaccelFailure_def reportHwaccelSuccess_def Let_def split: option.splits prod.splits if_splits)
qed

lemma decide_forced:
  assumes "hr_proven report p \<noteq> Some True"
  shows "hd_usingCpu (fst (decideTranscode (ModePreset p) report now st))
    \<and> hd_degraded (fst (decideTranscode (ModePreset p) report now st))"
  using assms
  by (simp add: decideTranscode_def split_beta resolveHwaccel_def modeCandidates_def cpuDecision_def Let_def
      applyQuarantine_proven)

section \<open>Properties\<close>

text \<open>
  The probe never fails and is honest: it always gives a report, and every preset the
  report calls proven got there by a real encode on the recorded, non-empty device that succeeded,
  followed at once by a real decode of its output that succeeded. What \<open>ffmpeg\<close> lists as compiled
  never suffices.
\<close>

theorem probe_total_and_honest:
  "\<exists>report w'. probeHwaccel major options w = (Inr report, w')
     \<and> (\<forall>p. hr_proven report p = Some True \<longrightarrow>
          (\<exists>device w0 enc w1 args dec w2. hr_devices report p = Some device \<and> device \<noteq> []
            \<and> po_exec options (buildHwaccelEncodeSmokeArgs p device (po_probeFile options)) 20000 w0 = (enc, w1)
            \<and> xr_ok enc
            \<and> buildHwaccelDecodeSmokeArgs major p device (po_probeFile options) = Inr args
            \<and> po_exec options args 20000 w1 = (dec, w2) \<and> xr_ok dec))"
  using probe_honest [of major options w] unfolding honest_def provenReally_def by blast

text \<open>
  Property C33. The golden rule of the decision, on any report and in any state: acceleration is used
  only with a preset the mode admits, that the report proved, and that is not in quarantine, and
  whenever there is such a preset it is used; \<open>cpu\<close> is always obeyed. A request that could not be
  met is never silent: a forced preset that is not used gives a degraded CPU decision with a
  warning, and so does \<open>auto\<close> on the CPU exactly when \<open>ffmpeg\<close> announced an encoder.
\<close>

theorem decision_only_proven:
  "let d = fst (decideTranscode mode report now st);
       usable = (\<lambda>p. p \<in> set (modeCandidates mode) \<and> hr_proven report p = Some True
                  \<and> (\<forall>u. hs_quarantinedUntil st p = Some u \<longrightarrow> u \<le> now)) in
      (hd_usingCpu d \<longleftrightarrow> hd_preset d = None)
    \<and> (\<forall>p. hd_preset d = Some p \<longrightarrow> mode \<noteq> ModeCpu \<and> usable p)
    \<and> (mode \<noteq> ModeCpu \<and> (\<exists>p. usable p) \<longrightarrow> \<not> hd_usingCpu d \<and> \<not> hd_degraded d \<and> hd_warnings d = [])
    \<and> (\<forall>p. mode = ModePreset p \<and> hd_preset d \<noteq> Some p \<longrightarrow>
         hd_usingCpu d \<and> hd_degraded d \<and> hd_warnings d \<noteq> [])
    \<and> (mode = ModeAuto \<and> hd_usingCpu d \<longrightarrow>
         (hd_degraded d \<longleftrightarrow> anyCompiled report) \<and> (hd_warnings d \<noteq> [] \<longleftrightarrow> anyCompiled report))
    \<and> (mode = ModeCpu \<longrightarrow> hd_usingCpu d \<and> \<not> hd_degraded d \<and> hd_warnings d = [])"
proof -
  let ?report = "fst (applyQuarantine report now st)"
  let ?d = "fst (decideTranscode mode report now st)"
  let ?usable = "\<lambda>p. p \<in> set (modeCandidates mode) \<and> hr_proven report p = Some True
                  \<and> (\<forall>u. hs_quarantinedUntil st p = Some u \<longrightarrow> u \<le> now)"
  have d: "fst (decideTranscode m report now st) = resolveHwaccel m ?report" for m by (simp add: decideTranscode_def split_beta)
  have compiled: "anyCompiled ?report = anyCompiled report"
    by (simp add: applyQuarantine_def quarantineLoop_compiled)
  have cpu: "hd_usingCpu ?d \<longleftrightarrow> hd_preset ?d = None"
    "mode = ModeCpu \<longrightarrow> hd_usingCpu ?d \<and> \<not> hd_degraded ?d \<and> hd_warnings ?d = []"
    unfolding d by (auto simp: resolveHwaccel_def cpuDecision_def Let_def split: option.splits hwaccelMode.splits)
  have only: "\<forall>p. hd_preset ?d = Some p \<longrightarrow> mode \<noteq> ModeCpu \<and> ?usable p"
    using decide_preset [of mode report now st] by blast
  have used: "mode \<noteq> ModeCpu \<and> (\<exists>p. ?usable p) \<longrightarrow> \<not> hd_usingCpu ?d \<and> \<not> hd_degraded ?d \<and> hd_warnings ?d = []"
  proof (intro impI, elim conjE exE)
    fix p
    assume "mode \<noteq> ModeCpu" and p: "p \<in> set (modeCandidates mode)" and usable: "hr_proven report p = Some True"
      "\<forall>u. hs_quarantinedUntil st p = Some u \<longrightarrow> u \<le> now"
    moreover from usable have "hr_proven ?report p = Some True" by (auto simp: applyQuarantine_proven)
    ultimately show "\<not> hd_usingCpu ?d \<and> \<not> hd_degraded ?d \<and> hd_warnings ?d = []"
      unfolding d using resolve_usable by blast
  qed
  have forced: "\<forall>p. mode = ModePreset p \<and> hd_preset ?d \<noteq> Some p \<longrightarrow>
      hd_usingCpu ?d \<and> hd_degraded ?d \<and> hd_warnings ?d \<noteq> []"
    using only cpu(1) resolve_unmet [of mode ?report] by (auto simp: d modeCandidates_def)
  have auto: "mode = ModeAuto \<and> hd_usingCpu ?d \<longrightarrow>
      (hd_degraded ?d \<longleftrightarrow> anyCompiled report) \<and> (hd_warnings ?d \<noteq> [] \<longleftrightarrow> anyCompiled report)"
    using resolve_unmet [of mode ?report] by (auto simp: d compiled)
  from cpu only used forced auto show ?thesis unfolding Let_def by blast
qed

text \<open>
  The quarantine holds against every interleaving: two failures in a row quarantine a
  preset, and no decision of the next fifteen minutes uses it, whatever other callers do in
  between - not even when a probe started before ends late and proves the preset again.
\<close>

theorem quarantine_holds:
  assumes "hs_failureCounts st p = None"
    and "\<forall>ev\<in>set evs. now \<le> eventTime ev \<and> eventTime ev < now + QUARANTINE_MS"
    and "t < now + QUARANTINE_MS"
  shows "fst (reportHwaccelFailure p t0 st) = False
    \<and> fst (reportHwaccelFailure p now (snd (reportHwaccelFailure p t0 st))) = True
    \<and> hd_preset (fst (decideTranscode mode report t
         (fold hwApply evs (snd (reportHwaccelFailure p now (snd (reportHwaccelFailure p t0 st)))))))
       \<noteq> Some p"
proof -
  let ?st = "snd (reportHwaccelFailure p now (snd (reportHwaccelFailure p t0 st)))"
  have until: "hs_quarantinedUntil ?st p = Some (now + QUARANTINE_MS)"
    and fails: "fst (reportHwaccelFailure p t0 st) = False"
      "fst (reportHwaccelFailure p now (snd (reportHwaccelFailure p t0 st))) = True"
    using assms(1) by (simp_all add: reportHwaccelFailure_def Let_def QUARANTINE_AFTER_FAILURES_def)
  from hwRun_until [OF until _ assms(2)] obtain u
    where "hs_quarantinedUntil (fold hwApply evs ?st) p = Some u" "now + QUARANTINE_MS \<le> u" by auto
  with decide_preset(4) assms(3) fails show ?thesis by fastforce
qed

definition sampleReport :: hwaccelProbeReport where
  "sampleReport = \<lparr>hr_nvenc = True, hr_vaapi = False, hr_qsv = False, hr_renderNodes = [],
     hr_proven = [Nvidia \<mapsto> True], hr_failures = Map.empty, hr_devices = [Nvidia \<mapsto> ''0'']\<rparr>"

theorem quarantine_holds_witness:
  "hd_preset (fst (decideTranscode ModeAuto sampleReport 1000
       (fold hwApply [EvFinish (Inr sampleReport) 500]
          (snd (reportHwaccelFailure Nvidia 200 (snd (reportHwaccelFailure Nvidia 100
            resetHwaccelDetectionCache))))))) \<noteq> Some Nvidia
   \<and> hd_preset (fst (decideTranscode ModeAuto sampleReport 1000 resetHwaccelDetectionCache)) = Some Nvidia"
proof -
  have "hs_failureCounts resetHwaccelDetectionCache Nvidia = None"
    by (simp add: resetHwaccelDetectionCache_def)
  moreover have "\<forall>ev\<in>set [EvFinish (Inr sampleReport) 500].
      200 \<le> eventTime ev \<and> eventTime ev < 200 + QUARANTINE_MS" by (simp add: QUARANTINE_MS_def)
  moreover have "1000 < 200 + QUARANTINE_MS" by (simp add: QUARANTINE_MS_def)
  ultimately have "hd_preset (fst (decideTranscode ModeAuto sampleReport 1000
       (fold hwApply [EvFinish (Inr sampleReport) 500]
          (snd (reportHwaccelFailure Nvidia 200 (snd (reportHwaccelFailure Nvidia 100
            resetHwaccelDetectionCache))))))) \<noteq> Some Nvidia"
    using quarantine_holds by blast
  moreover have "hd_preset (fst (decideTranscode ModeAuto sampleReport 1000 resetHwaccelDetectionCache))
      = Some Nvidia"
    by code_simp
  ultimately show ?thesis by blast
qed

theorem decision_only_proven_witness:
  "hd_preset (fst (decideTranscode ModeAuto sampleReport 1000 resetHwaccelDetectionCache)) = Some Nvidia
   \<and> hr_proven sampleReport Nvidia = Some True
   \<and> hd_degraded (fst (decideTranscode (ModePreset Vaapi) sampleReport 1000 resetHwaccelDetectionCache))
   \<and> hd_warnings (fst (decideTranscode (ModePreset Vaapi) sampleReport 1000 resetHwaccelDetectionCache)) \<noteq> []"
proof -
  have "hd_preset (fst (decideTranscode ModeAuto sampleReport 1000 resetHwaccelDetectionCache)) = Some Nvidia"
    and "hd_preset (fst (decideTranscode (ModePreset Vaapi) sampleReport 1000 resetHwaccelDetectionCache)) = None"
    by code_simp+
  with decision_only_proven [of ModeAuto sampleReport 1000 resetHwaccelDetectionCache]
    decision_only_proven [of "ModePreset Vaapi" sampleReport 1000 resetHwaccelDetectionCache]
  show ?thesis by (simp add: Let_def)
qed

definition sampleOptions :: "unit probeOptions" where
  "sampleOptions = \<lparr>po_exec = (\<lambda>args limit w. (\<lparr>xr_ok = True, xr_stdout = ''V h264_nvenc'', xr_stderr = []\<rparr>, w)),
     po_listRenderNodes = (\<lambda>w. ([], w)), po_probeFile = ''/tmp/p.mp4'', po_removeProbeFile = id,
     po_candidates = None, po_nvidiaGpuIndex = None\<rparr>"

theorem probe_total_and_honest_witness:
  "\<exists>report w'. probeHwaccel (Fin 59) sampleOptions () = (Inr report, w')
     \<and> hr_proven report Nvidia = Some True \<and> hr_devices report Nvidia \<noteq> None"
proof -
  from probe_total_and_honest [of "Fin 59" sampleOptions "()"] obtain report w'
    where r: "probeHwaccel (Fin 59) sampleOptions () = (Inr report, w')"
      and h: "hr_proven report Nvidia = Some True \<longrightarrow> hr_devices report Nvidia \<noteq> None" by blast
  have "map_sum id (\<lambda>report. hr_proven report Nvidia) (fst (probeHwaccel (Fin 59) sampleOptions ()))
      = Inr (Some True)" by code_simp
  with r h show ?thesis by simp
qed

text \<open>
  The transcode command. Without a preset, or with one that has no encoder entry, it is
  the CPU command. With an accelerated preset it is refused when no device is given; otherwise
  the device, being one word, fills its place and nothing else: the decode options are the words of the
  table with the device put in, so no option loses its argument. The input follows an \<open>-i\<close>, the output
  is last, and no filter or pixel format brings the frame back to main memory.
\<close>

theorem transcode_args_shape:
  assumes "\<forall>d. device = Some d \<longrightarrow> (\<forall>c\<in>set d. \<not> js_space c)"
  shows "buildCompatibleTranscodeArgs major input output preset device =
    (case preset of
       None \<Rightarrow> Inr (buildCpuTranscodeArgs input output)
     | Some p \<Rightarrow>
        (if PRESETS_HW_ACCEL_ENCODE p = None then Inr (buildCpuTranscodeArgs input output)
         else if device = None \<or> device = Some [] then Inl (NeedsDevice p)
         else Inr ([''-y'']
           @ map (replace_all ''{3}'' (the device)) (templateToArgs (buildHwaccelDecodeTable major p))
           @ [''-i'', input, ''-map'', ''0:v:0'', ''-map'', ''0:a:0?'']
           @ templateToArgs (the (PRESETS_HW_ACCEL_ENCODE p))
           @ [''-c:a'', ''aac'', ''-ar'', ''44100'', ''-ac'', ''2'', ''-movflags'', ''+faststart'', output])))
    \<and> (\<forall>p encode. PRESETS_HW_ACCEL_ENCODE p = Some encode \<longrightarrow>
         set (templateToArgs (buildHwaccelDecodeTable major p) @ templateToArgs encode)
           \<inter> {''-vf'', ''-pix_fmt'', ''-i''} = {})"
proof -
  have "set (templateToArgs (buildHwaccelDecodeTable major p) @ templateToArgs encode)
           \<inter> {''-vf'', ''-pix_fmt'', ''-i''} = {}"
    if "PRESETS_HW_ACCEL_ENCODE p = Some encode" for p encode
    using that
    by (cases p) (auto simp: templateToArgs_def nvidiaDecode_def dumpExtra_def nvencEncode_def js_space_def
        split: jsnum.splits)
  moreover have "hwaccelDecodeArgs major p device None None =
      (if device = None \<or> device = Some [] then Inl (NeedsDevice p)
       else Inr (map (replace_all ''{3}'' (the device)) (templateToArgs (buildHwaccelDecodeTable major p))))"
    if "PRESETS_HW_ACCEL_ENCODE p \<noteq> None" for p
    using that assms
    by (cases device) (auto simp: hwaccelDecodeArgs_def Let_def decode_no_numbers templateToArgs_device)
  ultimately show ?thesis
    by (auto simp: buildCompatibleTranscodeArgs_def split: option.splits)
qed

theorem transcode_args_shape_witness:
  "buildCompatibleTranscodeArgs (Fin 59) ''in.mp4'' ''out.mp4'' (Some Vaapi) (Some ''/dev/dri/renderD128'') =
     Inr ([''-y'', ''-hwaccel_flags'', ''allow_profile_mismatch'', ''-hwaccel'', ''vaapi'',
           ''-hwaccel_device'', ''/dev/dri/renderD128'', ''-hwaccel_output_format'', ''vaapi'',
           ''-i'', ''in.mp4'', ''-map'', ''0:v:0'', ''-map'', ''0:a:0?'',
           ''-c:v'', ''h264_vaapi'', ''-rc_mode'', ''CQP'', ''-qp'', ''21'', ''-profile:v'', ''high'',
           ''-c:a'', ''aac'', ''-ar'', ''44100'', ''-ac'', ''2'', ''-movflags'', ''+faststart'', ''out.mp4''])"
proof -
  have "\<forall>d. Some ''/dev/dri/renderD128'' = Some d \<longrightarrow> (\<forall>c\<in>set d. \<not> js_space c)"
    by (simp add: js_space_def)
  from transcode_args_shape [OF this, of "Fin 59" "''in.mp4''" "''out.mp4''" "Some Vaapi"]
  show ?thesis by (simp add: templateToArgs_def js_space_def)
qed

text \<open>
  What forcing a preset really does: the detection only ever probes the three presets of
  the automatic order, so a forced preset outside of it (\<open>preset-nvidia-h265\<close>, \<open>preset-rkmpp\<close>, ...)
  is never tried. Whatever the hardware can do, and in every state the module can reach, the
  transcode runs on the CPU and is reported as degraded.
\<close>

theorem forced_preset_outside_order:
  assumes "reachable (\<lambda>st. st = resetHwaccelDetectionCache) (hwStep major options) st"
    and "p \<notin> set AUTO_PROBE_ORDER"
    and "joined = fst (probeHwaccel major (options\<lparr>po_candidates := None, po_nvidiaGpuIndex := None\<rparr>) w0)"
  shows "\<exists>d. fst (detectTranscodeHwaccel major (ModePreset p) force options joined now st w) = Inr d
    \<and> hd_usingCpu d \<and> hd_degraded d"
proof -
  have inv: "cacheInv st" using assms(1) by (rule hw.reachable_inv)
  obtain report where "joined = Inr report" "hr_proven report p \<noteq> Some True"
    using detectProbe_dom [of major options w0] assms(2,3) unfolding detectProbe_def by fastforce
  moreover obtain report' w' where "detectProbe major options w = (Inr report', w')"
      "hr_proven report' p \<noteq> Some True"
    using detectProbe_dom [of major options w] assms(2) by fastforce
  moreover have "hr_proven report'' p \<noteq> Some True" if "hs_cache st = Some (report'', e)" for report'' e
    using inv assms(2) that by (auto simp: cacheInv_def)
  ultimately show ?thesis
    by (auto simp: detectTranscodeHwaccel_def beginDetection_def detectProbe_def [symmetric] split_beta
        Let_def decide_forced split: option.splits prod.splits)
qed

theorem forced_preset_outside_order_witness:
  "\<exists>d. fst (detectTranscodeHwaccel (Fin 61) (ModePreset NvidiaH265) True sampleOptions
          (fst (probeHwaccel (Fin 61) sampleOptions ())) 0 resetHwaccelDetectionCache ()) = Inr d
    \<and> hd_usingCpu d \<and> hd_degraded d"
proof -
  have "sampleOptions\<lparr>po_candidates := None, po_nvidiaGpuIndex := None\<rparr> = sampleOptions"
    by (simp add: sampleOptions_def)
  moreover have "NvidiaH265 \<notin> set AUTO_PROBE_ORDER" by (simp add: AUTO_PROBE_ORDER_def)
  moreover have "reachable (\<lambda>st. st = resetHwaccelDetectionCache) (hwStep (Fin 61) sampleOptions)
      resetHwaccelDetectionCache"
    by (rule reach_start) simp
  ultimately show ?thesis using forced_preset_outside_order by metis
qed

end
