(* ===== verification/Range_Export.thy ===== *)
theory Range_Export
  imports Segment_Selection Hwaccel
begin

text \<open>
  The export of an arbitrary interval that crosses recorded segments: the plan, the manifest of the
  \<open>concat\<close> demuxer and the sequence of \<open>ffmpeg\<close> commands
  (\<open>apps/api/src/recordings/helpers/range-export.helper.ts\<close>). The interval selection is shared
  with the VOD playlist (\<open>Segment_Selection\<close>), the transcode commands come from \<open>Hwaccel\<close>.
\<close>

section \<open>Data\<close>

record rangeSourceSegment =
  rs_id :: string
  rs_filePath :: string
  rs_startedAt :: dateval
  rs_endedAt :: "dateval option"
  rs_durationSeconds :: "jsnum option"
  rs_videoCodec :: "string option"
  rs_audioCodec :: "string option"

datatype rangeExportStrategy = Copy | Transcode

record rangeExportPart =
  rp_recordingId :: string
  rp_filePath :: string
  rp_inpointSeconds :: rat
  rp_outpointSeconds :: rat
  rp_durationSeconds :: rat
  rp_offsetSeconds :: rat
  rp_segmentStartedAt :: int
  rp_fileDurationSeconds :: rat

record rangeExportGap =
  rg_from :: int
  rg_to :: int
  rg_seconds :: rat

record rangeExportPlan =
  rpl_requestedFrom :: int
  rpl_requestedTo :: int
  rpl_parts :: "rangeExportPart list"
  rpl_strategy :: rangeExportStrategy
  rpl_strategyReasons :: "string list"
  rpl_videoCodec :: "string option"
  rpl_tagHvc1 :: bool
  rpl_totalDurationSeconds :: rat
  rpl_coveredFrom :: "int option"
  rpl_coveredTo :: "int option"
  rpl_requestedSeconds :: rat
  rpl_coveredSeconds :: rat
  rpl_gaps :: "rangeExportGap list"
  rpl_continuous :: bool
  rpl_leadInSeconds :: rat
  rpl_leadOutSeconds :: rat
  rpl_truncated :: bool
  rpl_skipped :: nat

record planRangeExportInput =
  rin_segments :: "rangeSourceSegment list"
  rin_from :: dateval
  rin_to :: dateval
  rin_gapToleranceSeconds :: "rat option"
  rin_maxSegments :: "rat option"
  rin_copySafetySeconds :: "rat option"
  rin_forceTranscode :: bool

record rangeCandidate =
  rc_id :: string
  rc_filePath :: string
  rc_startMs :: int
  rc_endMs :: rat
  rc_videoCodec :: string
  rc_audioCodec :: string

section \<open>The strategy\<close>

definition RANGE_DEFAULT_GAP_TOLERANCE_SECONDS :: rat where
  "RANGE_DEFAULT_GAP_TOLERANCE_SECONDS = 1"

definition RANGE_DEFAULT_MAX_SEGMENTS :: rat where
  "RANGE_DEFAULT_MAX_SEGMENTS = 240"

definition RANGE_DEFAULT_COPY_SAFETY_SECONDS :: rat where
  "RANGE_DEFAULT_COPY_SAFETY_SECONDS = 2"

definition COPY_SAFE_VIDEO :: "string list" where
  "COPY_SAFE_VIDEO = [''h264'', ''hevc'', ''h265'']"

definition COPY_SAFE_AUDIO :: "string list" where
  "COPY_SAFE_AUDIO = [''aac'', ''mp3'']"

definition HEVC_CODECS :: "string list" where
  "HEVC_CODECS = [''hevc'', ''h265'']"

definition rangeNormalizeCodec :: "string option \<Rightarrow> string" where
  "rangeNormalizeCodec codec = js_lower (js_trim (case codec of None \<Rightarrow> [] | Some c \<Rightarrow> c))"

definition decideStrategy ::
    "rangeCandidate list \<Rightarrow> bool \<Rightarrow> rangeExportStrategy \<times> string list \<times> string option" where
  "decideStrategy candidates forceTranscode =
     (let videoCodec = (case candidates of
            [] \<Rightarrow> None
          | c # _ \<Rightarrow> if rc_videoCodec c \<noteq> [] then Some (rc_videoCodec c) else None);
          unknown = map (\<lambda>c. ''codec_desconhecido:'' @ rc_id c)
                      (filter (\<lambda>c. rc_videoCodec c = []) candidates);
          videos = js_uniq (filter (\<lambda>v. v \<noteq> []) (map rc_videoCodec candidates));
          mixedVideo = (if length videos > 1 then [''codec_video_misto:'' @ join ''+'' videos] else []);
          badVideo = map (\<lambda>v. ''codec_video_nao_copiavel:'' @ v)
                       (filter (\<lambda>v. v \<notin> set COPY_SAFE_VIDEO) videos);
          audios = js_uniq (map rc_audioCodec candidates);
          mixedAudio = (if length audios > 1
            then [''audio_misto:'' @ join ''+'' (map (\<lambda>a. if a \<noteq> [] then a else ''sem_audio'') audios)]
            else []);
          badAudio = map (\<lambda>a. ''codec_audio_nao_copiavel:'' @ a)
                       (filter (\<lambda>a. a \<noteq> [] \<and> a \<notin> set COPY_SAFE_AUDIO) audios);
          forced = (if forceTranscode then [''perfil_compativel_solicitado''] else []);
          reasons = unknown @ mixedVideo @ badVideo @ mixedAudio @ badAudio @ forced
      in (if reasons \<noteq> [] then Transcode else Copy, js_uniq reasons, videoCodec))"

section \<open>The plan\<close>

definition rangePick :: "int \<Rightarrow> int \<Rightarrow> rangeSourceSegment \<Rightarrow> pick" where
  "rangePick fromMs toMsValue raw =
     pickSegment fromMs toMsValue (rs_startedAt raw) (rs_endedAt raw) (rs_durationSeconds raw)"

definition rangeCandidateOf :: "rangeSourceSegment \<Rightarrow> int \<Rightarrow> rat \<Rightarrow> rangeCandidate" where
  "rangeCandidateOf raw startMs endMs =
     \<lparr>rc_id = rs_id raw, rc_filePath = rs_filePath raw, rc_startMs = startMs, rc_endMs = endMs,
      rc_videoCodec = rangeNormalizeCodec (rs_videoCodec raw),
      rc_audioCodec = rangeNormalizeCodec (rs_audioCodec raw)\<rparr>"

definition fileDurationMs :: "rangeCandidate \<Rightarrow> rat" where
  "fileDurationMs c = rc_endMs c - of_int (rc_startMs c)"

definition rawInMs :: "int \<Rightarrow> rangeCandidate \<Rightarrow> rat" where
  "rawInMs fromMs c = max 0 (of_int fromMs - of_int (rc_startMs c))"

definition rawOutMs :: "int \<Rightarrow> rangeCandidate \<Rightarrow> rat" where
  "rawOutMs toMsValue c = min (fileDurationMs c) (of_int toMsValue - of_int (rc_startMs c))"

definition inMs :: "rat \<Rightarrow> int \<Rightarrow> rangeCandidate \<Rightarrow> rat" where
  "inMs margemMs fromMs c =
     (if rawInMs fromMs c > 0 then max 0 (rawInMs fromMs c - margemMs) else 0)"

definition outMs :: "rat \<Rightarrow> int \<Rightarrow> rangeCandidate \<Rightarrow> rat" where
  "outMs margemMs toMsValue c =
     (if rawOutMs toMsValue c < fileDurationMs c
      then min (fileDurationMs c) (rawOutMs toMsValue c + margemMs) else fileDurationMs c)"

definition partOf :: "rat \<Rightarrow> int \<Rightarrow> int \<Rightarrow> rat \<Rightarrow> rangeCandidate \<Rightarrow> rangeExportPart" where
  "partOf margemMs fromMs toMsValue cursorMs c =
     (let i = inMs margemMs fromMs c; out = outMs margemMs toMsValue c in
      \<lparr>rp_recordingId = rc_id c, rp_filePath = rc_filePath c,
       rp_inpointSeconds = roundSeconds i, rp_outpointSeconds = roundSeconds out,
       rp_durationSeconds = roundSeconds (out - i), rp_offsetSeconds = roundSeconds cursorMs,
       rp_segmentStartedAt = rc_startMs c, rp_fileDurationSeconds = roundSeconds (fileDurationMs c)\<rparr>)"

text \<open>The loop over the selected candidates, with its running variables.\<close>

fun partLoop :: "rat \<Rightarrow> int \<Rightarrow> int \<Rightarrow> rat \<Rightarrow> rat \<Rightarrow> rat \<Rightarrow> rangeCandidate list
    \<Rightarrow> rangeExportPart list \<times> rat \<times> rat \<times> rat" where
  "partLoop m f t cursorMs leadInMs leadOutMs [] = ([], cursorMs, leadInMs, leadOutMs)"
| "partLoop m f t cursorMs leadInMs leadOutMs (c # cs) =
     (let leadIn' = (if rawInMs f c > 0 then rawInMs f c - inMs m f c else leadInMs);
          leadOut' = (if rawOutMs t c < fileDurationMs c then outMs m t c - rawOutMs t c else leadOutMs);
          durationMs = outMs m t c - inMs m f c
      in if durationMs \<le> 0 then partLoop m f t cursorMs leadIn' leadOut' cs
         else (let r = partLoop m f t (cursorMs + durationMs) leadIn' leadOut' cs
               in (partOf m f t cursorMs c # fst r, snd r)))"

definition partFromMs :: "rangeExportPart \<Rightarrow> rat" where
  "partFromMs part = of_int (rp_segmentStartedAt part) + rp_inpointSeconds part * 1000"

definition partToMs :: "rangeExportPart \<Rightarrow> rat" where
  "partToMs part = of_int (rp_segmentStartedAt part) + rp_outpointSeconds part * 1000"

definition gapBetween :: "rat \<Rightarrow> rat \<Rightarrow> rat \<Rightarrow> rangeExportGap list" where
  "gapBetween toleranceMs a b =
     (if b - a > toleranceMs
      then [\<lparr>rg_from = isoOf a, rg_to = isoOf b, rg_seconds = roundSeconds (b - a)\<rparr>] else [])"

fun gapLoop :: "rat \<Rightarrow> int \<Rightarrow> rat \<Rightarrow> rangeExportPart list \<Rightarrow> rangeExportGap list" where
  "gapLoop tol toMsValue cursorClockMs [] = gapBetween tol cursorClockMs (of_int toMsValue)"
| "gapLoop tol toMsValue cursorClockMs (part # parts) =
     gapBetween tol cursorClockMs (partFromMs part)
     @ gapLoop tol toMsValue (max cursorClockMs (partToMs part)) parts"

definition rangeTolerance :: "planRangeExportInput \<Rightarrow> rat" where
  "rangeTolerance input =
     max 0 ((case rin_gapToleranceSeconds input of
               None \<Rightarrow> RANGE_DEFAULT_GAP_TOLERANCE_SECONDS | Some s \<Rightarrow> s) * 1000)"

definition rangeSafety :: "planRangeExportInput \<Rightarrow> rat" where
  "rangeSafety input =
     max 0 (case rin_copySafetySeconds input of
              None \<Rightarrow> RANGE_DEFAULT_COPY_SAFETY_SECONDS | Some s \<Rightarrow> s)"

text \<open>The candidates in order, the flag \<open>truncated\<close> and the cut (\<open>selected\<close>).\<close>

definition rangeCandidates ::
    "(string \<Rightarrow> string \<Rightarrow> int) \<Rightarrow> int \<Rightarrow> int \<Rightarrow> planRangeExportInput \<Rightarrow> rangeCandidate list" where
  "rangeCandidates localeCompare fromMs toMsValue input =
     js_sort (startThenId localeCompare rc_startMs rc_id)
       (snd (collectCandidates (rangePick fromMs toMsValue) rangeCandidateOf (rin_segments input)))"

definition rangeSelected ::
    "(string \<Rightarrow> string \<Rightarrow> int) \<Rightarrow> int \<Rightarrow> int \<Rightarrow> planRangeExportInput \<Rightarrow> rangeCandidate list" where
  "rangeSelected localeCompare fromMs toMsValue input =
     (let candidates = rangeCandidates localeCompare fromMs toMsValue input;
          maxSegments = segmentLimit (rin_maxSegments input) RANGE_DEFAULT_MAX_SEGMENTS
      in if length candidates > maxSegments then take maxSegments candidates else candidates)"

definition rangeMargin :: "planRangeExportInput \<Rightarrow> rangeCandidate list \<Rightarrow> rat" where
  "rangeMargin input selected =
     (if fst (decideStrategy selected (rin_forceTranscode input)) = Copy
      then rangeSafety input * 1000 else 0)"

text \<open>The second half of \<open>planRangeExport\<close>: from the selected candidates to the plan.\<close>

definition planSelected ::
    "planRangeExportInput \<Rightarrow> int \<Rightarrow> int \<Rightarrow> nat \<Rightarrow> bool \<Rightarrow> rangeCandidate list \<Rightarrow> rangeExportPlan" where
  "planSelected input fromMs toMsValue skipped truncated selected =
     (let decided = decideStrategy selected (rin_forceTranscode input);
          strategy = fst decided; videoCodec = snd (snd decided);
          looped = partLoop (rangeMargin input selected) fromMs toMsValue 0 0 0 selected;
          parts = fst looped;
          gaps = gapLoop (rangeTolerance input) toMsValue (of_int fromMs) parts;
          requestedSeconds = roundSeconds (of_int (toMsValue - fromMs));
          gapSeconds = sum_list (map rg_seconds gaps)
      in \<lparr>rpl_requestedFrom = fromMs, rpl_requestedTo = toMsValue, rpl_parts = parts,
          rpl_strategy = strategy, rpl_strategyReasons = fst (snd decided),
          rpl_videoCodec = videoCodec,
          rpl_tagHvc1 = (strategy = Copy \<and>
             (case videoCodec of None \<Rightarrow> False | Some v \<Rightarrow> v \<in> set HEVC_CODECS)),
          rpl_totalDurationSeconds = roundSeconds (fst (snd looped)),
          rpl_coveredFrom = (case parts of [] \<Rightarrow> None | p # _ \<Rightarrow> Some (isoOf (partFromMs p))),
          rpl_coveredTo = (case parts of [] \<Rightarrow> None | _ \<Rightarrow> Some (isoOf (partToMs (last parts)))),
          rpl_requestedSeconds = requestedSeconds,
          rpl_coveredSeconds = max 0 (roundSeconds ((requestedSeconds - gapSeconds) * 1000)),
          rpl_gaps = gaps,
          rpl_continuous = (length parts > 0 \<and> length gaps = 0),
          rpl_leadInSeconds = roundSeconds (fst (snd (snd looped))),
          rpl_leadOutSeconds = roundSeconds (snd (snd (snd looped))),
          rpl_truncated = truncated, rpl_skipped = skipped\<rparr>)"

definition planRangeExport ::
    "(string \<Rightarrow> string \<Rightarrow> int) \<Rightarrow> planRangeExportInput \<Rightarrow> (planError, rangeExportPlan) result" where
  "planRangeExport localeCompare input =
     (case (toMs (Some (rin_from input)), toMs (Some (rin_to input))) of
        (Some fromMs, Some toMsValue) \<Rightarrow>
          if toMsValue \<le> fromMs then Inl EmptyInterval
          else Inr (planSelected input fromMs toMsValue
                 (fst (collectCandidates (rangePick fromMs toMsValue) rangeCandidateOf (rin_segments input)))
                 (length (rangeCandidates localeCompare fromMs toMsValue input)
                    > segmentLimit (rin_maxSegments input) RANGE_DEFAULT_MAX_SEGMENTS)
                 (rangeSelected localeCompare fromMs toMsValue input))
      | _ \<Rightarrow> Inl InvalidInterval)"

section \<open>The manifest\<close>

definition quotePath :: "string \<Rightarrow> string" where
  "quotePath path = replace_all [CHR 0x27] [CHR 0x27, CHR 0x5C, CHR 0x27, CHR 0x27] path"

definition manifestPartLines :: "rangeExportPart \<Rightarrow> string list" where
  "manifestPartLines part =
     [''file '' @ [CHR 0x27] @ quotePath (rp_filePath part) @ [CHR 0x27]]
     @ (if rp_inpointSeconds part > 0 then [''inpoint '' @ to_fixed3 (rp_inpointSeconds part)] else [])
     @ (if rp_outpointSeconds part < rp_fileDurationSeconds part - 5 / 10000
        then [''outpoint '' @ to_fixed3 (rp_outpointSeconds part)] else [])"

datatype manifestError = LineBreakInPath string

definition has_line_break :: "string \<Rightarrow> bool" where
  "has_line_break s \<longleftrightarrow> CHR 0x0A \<in> set s \<or> CHR 0x0D \<in> set s"

fun manifestLines :: "rangeExportPart list \<Rightarrow> (manifestError, string list) result" where
  "manifestLines [] = Inr [[]]"
| "manifestLines (part # parts) =
     (if has_line_break (rp_filePath part) then Inl (LineBreakInPath (rp_recordingId part))
      else case manifestLines parts of
        Inl e \<Rightarrow> Inl e
      | Inr ls \<Rightarrow> Inr (manifestPartLines part @ ls))"

definition buildConcatManifest :: "rangeExportPlan \<Rightarrow> (manifestError, string) result" where
  "buildConcatManifest plan =
     (case manifestLines (rpl_parts plan) of
        Inl e \<Rightarrow> Inl e
      | Inr ls \<Rightarrow> Inr (join [CHR 0x0A] (''ffconcat version 1.0'' # ls)))"

section \<open>The commands\<close>

definition buildRangeCopyArgs :: "string \<Rightarrow> string \<Rightarrow> bool \<Rightarrow> string list" where
  "buildRangeCopyArgs manifestPath output tagHvc1 =
     [''-y'', ''-fflags'', ''+genpts'', ''-f'', ''concat'', ''-safe'', ''0'', ''-i'', manifestPath,
      ''-map'', ''0:v:0'', ''-map'', ''0:a:0?'', ''-c'', ''copy'']
     @ (if tagHvc1 then [''-tag:v'', ''hvc1''] else [])
     @ [''-avoid_negative_ts'', ''make_zero'', ''-movflags'', ''+faststart'', output]"

datatype commandError = TranscodeError hwError | NoInputOption

fun index_of :: "'a \<Rightarrow> 'a list \<Rightarrow> nat option" where
  "index_of x [] = None"
| "index_of x (y # ys) = (if y = x then Some 0 else map_option Suc (index_of x ys))"

definition buildRangeTranscodeArgs ::
    "jsnum \<Rightarrow> string \<Rightarrow> string \<Rightarrow> hwaccelPreset option \<Rightarrow> string option \<Rightarrow> (commandError, string list) result" where
  "buildRangeTranscodeArgs major manifestPath output preset device =
     (case buildCompatibleTranscodeArgs major manifestPath output preset device of
        Inl e \<Rightarrow> Inl (TranscodeError e)
      | Inr base \<Rightarrow>
          (case index_of ''-i'' base of
             None \<Rightarrow> Inl NoInputOption
           | Some inputIndex \<Rightarrow>
               Inr (take inputIndex base @ [''-f'', ''concat'', ''-safe'', ''0''] @ drop inputIndex base)))"

record rangeExportAttempt =
  ra_kind :: rangeExportStrategy
  ra_preset :: "hwaccelPreset option"
  ra_args :: "string list"

definition attempt ::
    "hwaccelPreset option \<Rightarrow> (commandError, string list) result \<Rightarrow> (commandError, rangeExportAttempt) result" where
  "attempt preset r =
     (case r of Inl e \<Rightarrow> Inl e
      | Inr args \<Rightarrow> Inr \<lparr>ra_kind = Transcode, ra_preset = preset, ra_args = args\<rparr>)"

definition buildRangeExportAttempts ::
    "jsnum \<Rightarrow> rangeExportPlan \<Rightarrow> string \<Rightarrow> string \<Rightarrow> (hwaccelPreset option \<times> string option) option
     \<Rightarrow> (commandError, rangeExportAttempt list) result" where
  "buildRangeExportAttempts major plan manifestPath output hwaccel =
     (let copy = (if rpl_strategy plan = Copy
            then [\<lparr>ra_kind = Copy, ra_preset = None,
                   ra_args = buildRangeCopyArgs manifestPath output (rpl_tagHvc1 plan)\<rparr>] else []);
          preset = (case hwaccel of None \<Rightarrow> None | Some (p, _) \<Rightarrow> p);
          device = (case hwaccel of None \<Rightarrow> None | Some (_, d) \<Rightarrow> d);
          cpu = attempt None (buildRangeTranscodeArgs major manifestPath output None None)
      in case preset of
           Some p \<Rightarrow>
             if PRESETS_HW_ACCEL_ENCODE p \<noteq> None
             then (case attempt (Some p) (buildRangeTranscodeArgs major manifestPath output (Some p) device) of
                     Inl e \<Rightarrow> Inl e
                   | Inr a \<Rightarrow> map_sum id (\<lambda>c. copy @ [a, c]) cpu)
             else map_sum id (\<lambda>c. copy @ [c]) cpu
         | None \<Rightarrow> map_sum id (\<lambda>c. copy @ [c]) cpu)"

section \<open>Lemmas\<close>

subsection \<open>The cut of one segment\<close>

text \<open>A candidate that overlaps the non-empty interval \<open>[f, t]\<close>.\<close>

definition overlapping :: "int \<Rightarrow> int \<Rightarrow> rangeCandidate \<Rightarrow> bool" where
  "overlapping f t c \<longleftrightarrow>
     f < t \<and> of_int (rc_startMs c) < rc_endMs c \<and> of_int f < rc_endMs c \<and> rc_startMs c < t"

lemma cut_bounds:
  assumes "overlapping f t c" "0 \<le> m"
  shows "0 \<le> inMs m f c" "inMs m f c \<le> rawInMs f c" "rawInMs f c < rawOutMs t c"
    and "rawOutMs t c \<le> outMs m t c" "outMs m t c \<le> fileDurationMs c"
    and "rawInMs f c \<le> inMs m f c + m" "outMs m t c \<le> rawOutMs t c + m"
  using assms
  by (auto simp: overlapping_def inMs_def outMs_def rawInMs_def rawOutMs_def fileDurationMs_def max_def min_def)

lemma cut_positive: "overlapping f t c \<Longrightarrow> 0 \<le> m \<Longrightarrow> 0 < outMs m t c - inMs m f c"
  using cut_bounds [of f t c m] by linarith

lemma cut_whole:
  assumes "m \<in> \<int>" "rc_endMs c \<in> \<int>"
  shows "inMs m f c \<in> \<int>" "outMs m t c \<in> \<int>" "fileDurationMs c \<in> \<int>"
  using assms
  by (auto simp: inMs_def outMs_def rawInMs_def rawOutMs_def fileDurationMs_def max_def min_def)

lemma partMs_whole:
  assumes "m \<in> \<int>" "rc_endMs c \<in> \<int>"
  shows "partFromMs (partOf m f t cur c) = of_int (rc_startMs c) + inMs m f c"
    and "partToMs (partOf m f t cur c) = of_int (rc_startMs c) + outMs m t c"
  using cut_whole(1) [OF assms, of f] cut_whole(2) [OF assms, of t]
  by (simp_all add: partFromMs_def partToMs_def partOf_def Let_def roundSeconds_exact)

text \<open>The bounds of a part on the clock.\<close>

lemma part_clock:
  assumes "overlapping f t c" "0 \<le> m"
  shows "of_int (rc_startMs c) + rawInMs f c = of_int (max (rc_startMs c) f)"
    and "of_int (rc_startMs c) + rawOutMs t c = min (rc_endMs c) (of_int t)"
    and "of_int (rc_startMs c) + fileDurationMs c = rc_endMs c"
  using assms by (auto simp: rawInMs_def rawOutMs_def fileDurationMs_def max_def min_def)

lemma partFrom_mono:
  assumes "rc_startMs a \<le> rc_startMs b" "0 \<le> m"
  shows "of_int (rc_startMs a) + inMs m f a \<le> of_int (rc_startMs b) + inMs m f b"
  using assms by (auto simp: inMs_def rawInMs_def max_def)

subsection \<open>The loop over the candidates\<close>

fun cutsMs :: "rat \<Rightarrow> int \<Rightarrow> int \<Rightarrow> rangeCandidate list \<Rightarrow> rat" where
  "cutsMs m f t [] = 0"
| "cutsMs m f t (c # cs) = (outMs m t c - inMs m f c) + cutsMs m f t cs"

lemma partLoop_parts:
  assumes "\<forall>c\<in>set cs. 0 < outMs m t c - inMs m f c"
  shows "length (fst (partLoop m f t cur li lo cs)) = length cs"
    and "fst (snd (partLoop m f t cur li lo cs)) = cur + cutsMs m f t cs"
    and "i < length cs \<Longrightarrow>
      fst (partLoop m f t cur li lo cs) ! i = partOf m f t (cur + cutsMs m f t (take i cs)) (cs ! i)"
  using assms
proof (induction cs arbitrary: cur li lo i)
  case (Cons c cs)
  { case 1 with Cons.IH(1) show ?case by (simp add: Let_def not_le) }
  { case 2 with Cons.IH(2) show ?case by (simp add: Let_def not_le) }
  { case 3 with Cons.IH(3) show ?case by (cases i) (simp_all add: Let_def not_le add.assoc) }
qed simp_all

lemma partLoop_mem:
  assumes "\<forall>c\<in>set cs. 0 < outMs m t c - inMs m f c"
  shows "p \<in> set (fst (partLoop m f t cur li lo cs)) \<Longrightarrow> \<exists>c\<in>set cs. \<exists>cur'. p = partOf m f t cur' c"
    and "c \<in> set cs \<Longrightarrow> \<exists>cur'. partOf m f t cur' c \<in> set (fst (partLoop m f t cur li lo cs))"
  using partLoop_parts [OF assms] by (metis in_set_conv_nth)+

subsection \<open>The gaps\<close>

definition coveredAt :: "rangeExportPart list \<Rightarrow> rat \<Rightarrow> bool" where
  "coveredAt parts x \<longleftrightarrow> (\<exists>p\<in>set parts. partFromMs p \<le> x \<and> x \<le> partToMs p)"

lemma gapBetween_mem:
  "g \<in> set (gapBetween tol a b) \<longleftrightarrow>
     tol < b - a \<and> g = \<lparr>rg_from = isoOf a, rg_to = isoOf b, rg_seconds = roundSeconds (b - a)\<rparr>"
  by (auto simp: gapBetween_def)

lemma gapLoop_sound:
  assumes "g \<in> set (gapLoop tol t cur parts)" "sorted (map partFromMs parts)" "0 \<le> tol"
    and "\<forall>p\<in>set parts. partFromMs p \<le> of_int t" "cur \<in> \<int>"
    and "\<forall>p\<in>set parts. partFromMs p \<in> \<int> \<and> partToMs p \<in> \<int>"
  shows "cur \<le> of_int (rg_from g) \<and> tol < of_int (rg_to g - rg_from g) \<and> rg_to g \<le> t
    \<and> rg_seconds g = of_int (rg_to g - rg_from g) / 1000
    \<and> (\<forall>p\<in>set parts. partToMs p \<le> of_int (rg_from g) \<or> of_int (rg_to g) \<le> partFromMs p)"
  using assms
proof (induction parts arbitrary: cur)
  case Nil
  then show ?case by (auto simp: gapBetween_mem isoOf_exact roundSeconds_exact)
next
  case (Cons p parts)
  show ?case
  proof (cases "g \<in> set (gapBetween tol cur (partFromMs p))")
    case True
    moreover have "of_int (isoOf cur) = cur" "of_int (isoOf (partFromMs p)) = partFromMs p"
      using Cons.prems by (simp_all add: isoOf_exact)
    moreover have "isoOf (partFromMs p) \<le> t"
      using Cons.prems(4) calculation(3) by (metis list.set_intros(1) of_int_le_iff)
    ultimately show ?thesis
      using Cons.prems by (auto simp: gapBetween_mem roundSeconds_exact)
  next
    case False
    let ?cur = "max cur (partToMs p)"
    from False Cons.prems(1) have "g \<in> set (gapLoop tol t ?cur parts)" by simp
    moreover have "?cur \<in> \<int>" using Cons.prems by (auto simp: max_def)
    ultimately have "?cur \<le> of_int (rg_from g) \<and> tol < of_int (rg_to g - rg_from g) \<and> rg_to g \<le> t
      \<and> rg_seconds g = of_int (rg_to g - rg_from g) / 1000
      \<and> (\<forall>p\<in>set parts. partToMs p \<le> of_int (rg_from g) \<or> of_int (rg_to g) \<le> partFromMs p)"
      using Cons.prems by (intro Cons.IH) auto
    then show ?thesis by auto
  qed
qed

lemma gapLoop_complete:
  assumes "cur \<le> x" "x \<le> of_int t" "cur \<in> \<int>" "\<forall>p\<in>set parts. partFromMs p \<in> \<int> \<and> partToMs p \<in> \<int>"
  shows "coveredAt parts x
    \<or> (\<exists>g\<in>set (gapLoop tol t cur parts). of_int (rg_from g) \<le> x \<and> x \<le> of_int (rg_to g))
    \<or> (\<exists>c. (c = cur \<or> c \<in> partToMs ` set parts) \<and> c \<le> x \<and> x \<le> c + tol)"
  using assms
proof (induction parts arbitrary: cur)
  case Nil
  then show ?case by (cases "of_int t - cur > tol") (auto simp: gapBetween_def isoOf_exact)
next
  case (Cons p parts)
  consider "x < partFromMs p" | "partFromMs p \<le> x" "x \<le> partToMs p" | "partToMs p < x" by linarith
  then show ?case
  proof cases
    case 1
    with Cons.prems show ?thesis
      by (cases "partFromMs p - cur > tol") (auto simp: gapBetween_def isoOf_exact)
  next
    case 2
    then show ?thesis by (auto simp: coveredAt_def)
  next
    case 3
    let ?cur = "max cur (partToMs p)"
    have "?cur \<le> x" "?cur \<in> \<int>" using 3 Cons.prems by (auto simp: max_def)
    then have "coveredAt parts x
      \<or> (\<exists>g\<in>set (gapLoop tol t ?cur parts). of_int (rg_from g) \<le> x \<and> x \<le> of_int (rg_to g))
      \<or> (\<exists>c. (c = ?cur \<or> c \<in> partToMs ` set parts) \<and> c \<le> x \<and> x \<le> c + tol)"
      using Cons.prems by (intro Cons.IH) auto
    then show ?thesis by (auto simp: coveredAt_def max_def split: if_splits)
  qed
qed

lemma gapLoop_total:
  assumes "\<forall>p\<in>set parts. partFromMs p \<le> partToMs p \<and> partFromMs p \<le> of_int t" "0 \<le> tol"
    and "cur \<in> \<int>" "\<forall>p\<in>set parts. partFromMs p \<in> \<int> \<and> partToMs p \<in> \<int>"
  shows "sum_list (map rg_seconds (gapLoop tol t cur parts)) * 1000 \<le> max 0 (of_int t - cur)
    \<and> sum_list (map rg_seconds (gapLoop tol t cur parts)) * 1000 \<in> \<int>"
  using assms
proof (induction parts arbitrary: cur)
  case Nil
  then show ?case by (auto simp: gapBetween_def roundSeconds_ms)
next
  case (Cons p parts)
  let ?cur = "max cur (partToMs p)"
  have "?cur \<in> \<int>" using Cons.prems by (auto simp: max_def)
  then have "sum_list (map rg_seconds (gapLoop tol t ?cur parts)) * 1000 \<le> max 0 (of_int t - ?cur)
      \<and> sum_list (map rg_seconds (gapLoop tol t ?cur parts)) * 1000 \<in> \<int>"
    using Cons.prems by (intro Cons.IH) auto
  moreover have "partFromMs p \<le> partToMs p" "partFromMs p \<le> of_int t" "cur \<in> \<int>" "partFromMs p \<in> \<int>"
    using Cons.prems by auto
  ultimately show ?case using \<open>0 \<le> tol\<close>
    by (auto simp: gapBetween_def roundSeconds_ms distrib_right max_def split: if_splits)
qed

subsection \<open>The plan\<close>

interpretation range_selection: interval_selection "rangePick f t" rangeCandidateOf rc_startMs rc_endMs rc_id lc f t
  for f t lc
  by unfold_locales (auto simp: rangePick_def rangeCandidateOf_def dest: pickSegment_Picked)

lemma rangeSelected_take:
  "rangeSelected lc f t input =
     take (segmentLimit (rin_maxSegments input) RANGE_DEFAULT_MAX_SEGMENTS) (rangeCandidates lc f t input)"
  by (simp add: rangeSelected_def Let_def)

text \<open>The input of an exact plan: whole milliseconds everywhere.\<close>

definition wholeInput :: "planRangeExportInput \<Rightarrow> bool" where
  "wholeInput input \<longleftrightarrow> (\<forall>raw\<in>set (rin_segments input). wholeMs (rs_durationSeconds raw))
     \<and> whole (rangeSafety input * 1000)"

lemma planRange_Inr:
  assumes "planRangeExport lc input = Inr plan"
  obtains f t sel m where "rin_from input = DateMs f" "rin_to input = DateMs t" "f < t"
    and "sel = rangeSelected lc f t input" "m = rangeMargin input sel" "0 \<le> m"
    and "m \<le> rangeSafety input * 1000"
    and "rpl_requestedFrom plan = f" "rpl_requestedTo plan = t"
    and "rpl_parts plan = fst (partLoop m f t 0 0 0 sel)"
    and "rpl_truncated plan \<longleftrightarrow> length (rangeCandidates lc f t input)
           > segmentLimit (rin_maxSegments input) RANGE_DEFAULT_MAX_SEGMENTS"
    and "plan = planSelected input f t
           (fst (collectCandidates (rangePick f t) rangeCandidateOf (rin_segments input)))
           (rpl_truncated plan) sel"
proof -
  from assms obtain f t where ft: "rin_from input = DateMs f" "rin_to input = DateMs t" "f < t"
    by (cases "rin_from input"; cases "rin_to input") (auto simp: planRangeExport_def split: if_splits)
  let ?sel = "rangeSelected lc f t input"
  have plan: "plan = planSelected input f t
           (fst (collectCandidates (rangePick f t) rangeCandidateOf (rin_segments input)))
           (length (rangeCandidates lc f t input)
                    > segmentLimit (rin_maxSegments input) RANGE_DEFAULT_MAX_SEGMENTS) ?sel"
    using assms ft by (simp add: planRangeExport_def)
  show ?thesis
  proof (rule that [OF ft refl refl])
    show "0 \<le> rangeMargin input ?sel" "rangeMargin input ?sel \<le> rangeSafety input * 1000"
      by (simp_all add: rangeMargin_def rangeSafety_def)
  qed (simp_all add: plan planSelected_def Let_def)
qed

lemma selected_overlapping:
  assumes "c \<in> set (rangeSelected lc f t input)" "f < t"
  shows "overlapping f t c"
    and "\<exists>raw\<in>set (rin_segments input). \<exists>s e. rangePick f t raw = Picked s e \<and> c = rangeCandidateOf raw s e"
  using range_selection.candidate_overlaps [of c _ lc f t "rin_segments input"] assms
    in_set_takeD [of c _ "rangeCandidates lc f t input"]
  by (auto simp: rangeSelected_take rangeCandidates_def overlapping_def collectCandidates_mem)

lemma selected_positive:
  assumes "f < t" "0 \<le> m"
  shows "\<forall>c\<in>set (rangeSelected lc f t input). 0 < outMs m t c - inMs m f c"
  using assms selected_overlapping(1) cut_positive by blast

lemma selected_whole:
  assumes "c \<in> set (rangeSelected lc f t input)" "f < t" "wholeInput input"
  shows "rc_endMs c \<in> \<int>"
  using selected_overlapping(2) [OF assms(1,2)] assms(3)
  by (auto simp: wholeInput_def rangePick_def rangeCandidateOf_def
      intro: segmentEndMs_whole [OF pickSegment_Picked(5)])

lemma margin_whole: "wholeInput input \<Longrightarrow> rangeMargin input sel \<in> \<int>"
  by (simp add: wholeInput_def rangeMargin_def whole_Ints)

text \<open>What the parts of an exact plan are, on the clock.\<close>

lemma plan_part:
  assumes "planRangeExport lc input = Inr plan" "wholeInput input" "part \<in> set (rpl_parts plan)"
  obtains c m where "c \<in> set (rangeSelected lc (rpl_requestedFrom plan) (rpl_requestedTo plan) input)"
    and "overlapping (rpl_requestedFrom plan) (rpl_requestedTo plan) c" "0 \<le> m"
    and "partFromMs part = of_int (rc_startMs c) + inMs m (rpl_requestedFrom plan) c"
    and "partToMs part = of_int (rc_startMs c) + outMs m (rpl_requestedTo plan) c"
    and "partFromMs part \<in> \<int>" "partToMs part \<in> \<int>"
  using assms(1)
proof (rule planRange_Inr)
  fix f t sel m
  assume "f < t" and sel: "sel = rangeSelected lc f t input" and m: "m = rangeMargin input sel" "0 \<le> m"
    and ft: "rpl_requestedFrom plan = f" "rpl_requestedTo plan = t"
    and parts: "rpl_parts plan = fst (partLoop m f t 0 0 0 sel)"
  obtain c cur where c: "c \<in> set sel" "part = partOf m f t cur c"
    using partLoop_mem(1) [OF selected_positive [OF \<open>f < t\<close> m(2), of lc input]] assms(3) parts sel by metis
  have w: "m \<in> \<int>" "rc_endMs c \<in> \<int>"
    using m(1) margin_whole [OF assms(2)] selected_whole [OF _ \<open>f < t\<close> assms(2)] c(1) sel by auto
  from partMs_whole [OF w] cut_whole [OF w] c \<open>f < t\<close> sel m(2) selected_overlapping(1) that ft show ?thesis
    by (metis Ints_add Ints_of_int)
qed

lemma parts_sorted:
  assumes "planRangeExport lc input = Inr plan" "wholeInput input"
  shows "sorted (map partFromMs (rpl_parts plan))"
  using assms(1)
proof (rule planRange_Inr)
  fix f t sel m
  assume "f < t" and sel: "sel = rangeSelected lc f t input" and m: "m = rangeMargin input sel" "0 \<le> m"
    and parts: "rpl_parts plan = fst (partLoop m f t 0 0 0 sel)"
  have pos: "\<forall>c\<in>set sel. 0 < outMs m t c - inMs m f c"
    using selected_positive [OF \<open>f < t\<close> m(2)] sel by simp
  have w: "m \<in> \<int>" "\<And>c. c \<in> set sel \<Longrightarrow> rc_endMs c \<in> \<int>"
    using m(1) margin_whole [OF assms(2)] selected_whole [OF _ \<open>f < t\<close> assms(2)] sel by auto
  have "map partFromMs (rpl_parts plan) = map (\<lambda>c. of_int (rc_startMs c) + inMs m f c) sel"
    unfolding parts by (rule nth_equalityI) (auto simp: partLoop_parts [OF pos] partMs_whole w)
  moreover have "sorted (map rc_startMs sel)"
    unfolding sel rangeSelected_take rangeCandidates_def by (rule range_selection.candidates_sorted)
  ultimately show ?thesis
    using partFrom_mono [OF _ m(2)]
    by (auto simp: sorted_wrt_map intro: sorted_wrt_mono_rel [rotated])
qed

section \<open>An interval with a gap, cut at both ends\<close>

definition exampleRangeInput :: planRangeExportInput where
  "exampleRangeInput =
     \<lparr>rin_segments =
        [\<lparr>rs_id = ''b'', rs_filePath = ''/rec/it'' @ [CHR 0x27] @ ''s.mp4'', rs_startedAt = DateMs 90000,
          rs_endedAt = None, rs_durationSeconds = Some (Fin 60), rs_videoCodec = Some ''H264'',
          rs_audioCodec = None\<rparr>,
         \<lparr>rs_id = ''a'', rs_filePath = ''/rec/a.mp4'', rs_startedAt = DateMs 0,
          rs_endedAt = Some (DateMs 60000), rs_durationSeconds = None, rs_videoCodec = Some ''h264'',
          rs_audioCodec = None\<rparr>],
      rin_from = DateMs 30000, rin_to = DateMs 120000, rin_gapToleranceSeconds = None,
      rin_maxSegments = None, rin_copySafetySeconds = None, rin_forceTranscode = False\<rparr>"

definition exampleRangePlan :: rangeExportPlan where
  "exampleRangePlan =
     \<lparr>rpl_requestedFrom = 30000, rpl_requestedTo = 120000,
      rpl_parts =
        [\<lparr>rp_recordingId = ''a'', rp_filePath = ''/rec/a.mp4'', rp_inpointSeconds = 28,
          rp_outpointSeconds = 60, rp_durationSeconds = 32, rp_offsetSeconds = 0,
          rp_segmentStartedAt = 0, rp_fileDurationSeconds = 60\<rparr>,
         \<lparr>rp_recordingId = ''b'', rp_filePath = ''/rec/it'' @ [CHR 0x27] @ ''s.mp4'', rp_inpointSeconds = 0,
          rp_outpointSeconds = 32, rp_durationSeconds = 32, rp_offsetSeconds = 32,
          rp_segmentStartedAt = 90000, rp_fileDurationSeconds = 60\<rparr>],
      rpl_strategy = Copy, rpl_strategyReasons = [], rpl_videoCodec = Some ''h264'', rpl_tagHvc1 = False,
      rpl_totalDurationSeconds = 64, rpl_coveredFrom = Some 28000, rpl_coveredTo = Some 122000,
      rpl_requestedSeconds = 90, rpl_coveredSeconds = 60,
      rpl_gaps = [\<lparr>rg_from = 60000, rg_to = 90000, rg_seconds = 30\<rparr>], rpl_continuous = False,
      rpl_leadInSeconds = 2, rpl_leadOutSeconds = 2, rpl_truncated = False, rpl_skipped = 0\<rparr>"

lemma exampleRange: "planRangeExport (\<lambda>_ _. 0) exampleRangeInput = Inr exampleRangePlan"
  by code_simp

lemma exampleRange_whole: "wholeInput exampleRangeInput"
  by code_simp

section \<open>Properties\<close>

text \<open>
  Property C16. The export covers more than was asked, never less: unless the plan is truncated,
  every recorded segment that overlaps the interval has a part, and that part holds all of the
  segment that was requested. What it holds beyond the request is at most the keyframe margin, and
  nothing when the plan transcodes.
\<close>

theorem range_never_less:
  assumes "planRangeExport lc input = Inr plan" "wholeInput input" "\<not> rpl_truncated plan"
    and "raw \<in> set (rin_segments input)" "rs_startedAt raw = DateMs s"
    and "segmentEndMs s (rs_endedAt raw) (rs_durationSeconds raw) = Some e"
    and "of_int (rpl_requestedFrom plan) < e" "s < rpl_requestedTo plan"
  shows "\<exists>part\<in>set (rpl_parts plan).
    rp_recordingId part = rs_id raw \<and> rp_filePath part = rs_filePath raw \<and> rp_segmentStartedAt part = s
    \<and> of_int s \<le> partFromMs part \<and> partToMs part \<le> e
    \<and> partFromMs part \<le> of_int (max s (rpl_requestedFrom plan))
    \<and> min e (of_int (rpl_requestedTo plan)) \<le> partToMs part
    \<and> of_int (max s (rpl_requestedFrom plan)) - partFromMs part
        \<le> (if rpl_strategy plan = Copy then rangeSafety input * 1000 else 0)
    \<and> partToMs part - min e (of_int (rpl_requestedTo plan))
        \<le> (if rpl_strategy plan = Copy then rangeSafety input * 1000 else 0)"
  using assms(1)
proof (rule planRange_Inr)
  fix f t sel m
  assume "f < t" and sel: "sel = rangeSelected lc f t input" and m: "m = rangeMargin input sel" "0 \<le> m"
    and ft: "rpl_requestedFrom plan = f" "rpl_requestedTo plan = t"
    and parts: "rpl_parts plan = fst (partLoop m f t 0 0 0 sel)"
    and tr: "rpl_truncated plan \<longleftrightarrow> length (rangeCandidates lc f t input)
           > segmentLimit (rin_maxSegments input) RANGE_DEFAULT_MAX_SEGMENTS"
    and plan: "plan = planSelected input f t
           (fst (collectCandidates (rangePick f t) rangeCandidateOf (rin_segments input)))
           (rpl_truncated plan) sel"
  let ?c = "rangeCandidateOf raw s e"
  have "rangePick f t raw = Picked s e"
    using assms(5-8) ft by (simp add: rangePick_def pickSegment_Picked_iff)
  then have c: "?c \<in> set sel"
    using assms(3,4) tr unfolding sel rangeSelected_take rangeCandidates_def
    by (intro range_selection.all_kept) simp_all
  then have ov: "overlapping f t ?c" using selected_overlapping(1) [OF _ \<open>f < t\<close>] sel by blast
  obtain cur where part: "partOf m f t cur ?c \<in> set (rpl_parts plan)"
    using partLoop_mem(2) [OF selected_positive [OF \<open>f < t\<close> m(2), of lc input]] c parts sel by metis
  have w: "m \<in> \<int>" "rc_endMs ?c \<in> \<int>"
    using m(1) margin_whole [OF assms(2)] selected_whole [OF _ \<open>f < t\<close> assms(2)] c sel by auto
  have strategy: "m = (if rpl_strategy plan = Copy then rangeSafety input * 1000 else 0)"
    by (subst plan) (simp add: m(1) rangeMargin_def planSelected_def Let_def)
  have bounds: "rc_startMs ?c = s" "rc_endMs ?c = e" by (simp_all add: rangeCandidateOf_def)
  show ?thesis
    using cut_bounds [OF ov m(2)] part_clock [OF ov m(2)]
    by (intro bexI [OF _ part], unfold partMs_whole [OF w] strategy [symmetric] ft)
       (auto simp: bounds partOf_def Let_def rangeCandidateOf_def)
qed

theorem range_never_less_witness:
  "\<exists>part\<in>set (rpl_parts exampleRangePlan). rp_recordingId part = ''a''
     \<and> partFromMs part \<le> 30000 \<and> 60000 \<le> partToMs part"
proof -
  let ?raw = "rin_segments exampleRangeInput ! 1"
  have "\<not> rpl_truncated exampleRangePlan" "?raw \<in> set (rin_segments exampleRangeInput)"
    "rs_startedAt ?raw = DateMs 0" "segmentEndMs 0 (rs_endedAt ?raw) (rs_durationSeconds ?raw) = Some 60000"
    "rs_id ?raw = ''a''" "rpl_requestedFrom exampleRangePlan = 30000" "rpl_requestedTo exampleRangePlan = 120000"
    by (simp_all add: exampleRangePlan_def exampleRangeInput_def segmentEndMs_def)
  with range_never_less [OF exampleRange exampleRange_whole, of ?raw 0 60000] show ?thesis by auto
qed

text \<open>
  Gaps are reported honestly. Every reported gap lies in the requested interval, is longer
  than the tolerance, and no part holds an instant inside it; every requested instant is held by a
  part, reported in a gap, or less than the tolerance after the last held one; and the covered
  seconds are the requested ones less the gaps.
\<close>

theorem range_gaps_honest:
  assumes "planRangeExport lc input = Inr plan" "wholeInput input"
  shows "(\<forall>g\<in>set (rpl_gaps plan). rpl_requestedFrom plan \<le> rg_from g \<and> rg_to g \<le> rpl_requestedTo plan
      \<and> rangeTolerance input < of_int (rg_to g - rg_from g)
      \<and> rg_seconds g = of_int (rg_to g - rg_from g) / 1000
      \<and> (\<forall>p\<in>set (rpl_parts plan). partToMs p \<le> of_int (rg_from g) \<or> of_int (rg_to g) \<le> partFromMs p))
    \<and> (\<forall>x. of_int (rpl_requestedFrom plan) \<le> x \<and> x \<le> of_int (rpl_requestedTo plan) \<longrightarrow>
        coveredAt (rpl_parts plan) x
        \<or> (\<exists>g\<in>set (rpl_gaps plan). of_int (rg_from g) \<le> x \<and> x \<le> of_int (rg_to g))
        \<or> (\<exists>c. (c = of_int (rpl_requestedFrom plan) \<or> c \<in> partToMs ` set (rpl_parts plan))
             \<and> c \<le> x \<and> x \<le> c + rangeTolerance input))
    \<and> rpl_coveredSeconds plan = rpl_requestedSeconds plan - sum_list (map rg_seconds (rpl_gaps plan))"
proof -
  let ?f = "rpl_requestedFrom plan" and ?t = "rpl_requestedTo plan" and ?tol = "rangeTolerance input"
  have gaps: "rpl_gaps plan = gapLoop ?tol ?t (of_int ?f) (rpl_parts plan)"
    and secs: "rpl_requestedSeconds plan = of_int (?t - ?f) / 1000" "?f < ?t"
    and cov: "rpl_coveredSeconds plan = max 0 (roundSeconds
      ((rpl_requestedSeconds plan - sum_list (map rg_seconds (rpl_gaps plan))) * 1000))"
    using assms(1) by (rule planRange_Inr, simp add: planSelected_def Let_def roundSeconds_exact)+
  have tol: "0 \<le> ?tol" by (simp add: rangeTolerance_def)
  have parts: "partFromMs p \<in> \<int> \<and> partToMs p \<in> \<int> \<and> partFromMs p \<le> partToMs p \<and> partFromMs p \<le> of_int ?t"
    if "p \<in> set (rpl_parts plan)" for p
    using assms that
  proof (rule plan_part)
    fix c m
    assume "overlapping ?f ?t c" "0 \<le> m" "partFromMs p = of_int (rc_startMs c) + inMs m ?f c"
      "partToMs p = of_int (rc_startMs c) + outMs m ?t c" "partFromMs p \<in> \<int>" "partToMs p \<in> \<int>"
    with cut_bounds [of ?f ?t c m] part_clock [of ?f ?t c m] show ?thesis by linarith
  qed
  have total: "sum_list (map rg_seconds (rpl_gaps plan)) * 1000 \<le> max 0 (of_int ?t - of_int ?f)
      \<and> sum_list (map rg_seconds (rpl_gaps plan)) * 1000 \<in> \<int>"
    unfolding gaps using parts tol by (intro gapLoop_total) auto
  have "rpl_coveredSeconds plan = rpl_requestedSeconds plan - sum_list (map rg_seconds (rpl_gaps plan))"
  proof -
    let ?x = "(rpl_requestedSeconds plan - sum_list (map rg_seconds (rpl_gaps plan))) * 1000"
    have "?x = of_int (?t - ?f) - sum_list (map rg_seconds (rpl_gaps plan)) * 1000"
      by (simp add: secs left_diff_distrib)
    with total have "?x \<in> \<int>" "0 \<le> ?x" using secs(2) by simp_all
    with cov show ?thesis by (simp add: roundSeconds_exact)
  qed
  moreover have "\<forall>g\<in>set (rpl_gaps plan). ?f \<le> rg_from g \<and> rg_to g \<le> ?t
      \<and> ?tol < of_int (rg_to g - rg_from g) \<and> rg_seconds g = of_int (rg_to g - rg_from g) / 1000
      \<and> (\<forall>p\<in>set (rpl_parts plan). partToMs p \<le> of_int (rg_from g) \<or> of_int (rg_to g) \<le> partFromMs p)"
    using gapLoop_sound [OF _ parts_sorted [OF assms] tol, of _ ?t "of_int ?f"] parts
    by (simp add: gaps [symmetric])
  ultimately show ?thesis
    using gapLoop_complete [of "of_int ?f" _ ?t "rpl_parts plan" ?tol] parts
    by (simp add: gaps [symmetric])
qed

theorem range_gaps_honest_witness:
  "(\<exists>g\<in>set (rpl_gaps exampleRangePlan). of_int (rg_from g) \<le> (75000 :: rat) \<and> (75000 :: rat) \<le> of_int (rg_to g))
   \<and> rpl_coveredSeconds exampleRangePlan = 60"
proof -
  have "\<not> coveredAt (rpl_parts exampleRangePlan) 75000"
    by (simp add: coveredAt_def exampleRangePlan_def partFromMs_def partToMs_def)
  moreover have "\<not> (\<exists>c. (c = of_int (rpl_requestedFrom exampleRangePlan)
       \<or> c \<in> partToMs ` set (rpl_parts exampleRangePlan)) \<and> c \<le> 75000
       \<and> 75000 \<le> c + rangeTolerance exampleRangeInput)"
    by (auto simp: exampleRangePlan_def partToMs_def rangeTolerance_def exampleRangeInput_def
        RANGE_DEFAULT_GAP_TOLERANCE_SECONDS_def)
  moreover have "of_int (rpl_requestedFrom exampleRangePlan) \<le> (75000 :: rat)"
    "(75000 :: rat) \<le> of_int (rpl_requestedTo exampleRangePlan)" "rpl_coveredSeconds exampleRangePlan = 60"
    by (simp_all add: exampleRangePlan_def)
  ultimately show ?thesis
    using range_gaps_honest [OF exampleRange exampleRange_whole] by blast
qed

lemma pairwise_same: "c \<in> A \<Longrightarrow> (\<forall>x\<in>A. \<forall>y\<in>A. g x = g y) \<longleftrightarrow> (\<forall>x\<in>A. g x = g c)"
  by metis

lemma same_member: "c \<in> A \<Longrightarrow> \<forall>x\<in>A. g x = g c \<Longrightarrow> (\<forall>x\<in>A. g x \<in> B) \<longleftrightarrow> g c \<in> B"
  by metis

lemma if_Copy: "(if b then Transcode else Copy) = Copy \<longleftrightarrow> \<not> b"
  by simp

lemma if_Nil: "(if b then [x] else []) = [] \<longleftrightarrow> \<not> b"
  by simp

lemma decideStrategy_reasons: "fst (snd (decideStrategy cs force)) = [] \<longleftrightarrow> fst (decideStrategy cs force) = Copy"
  unfolding decideStrategy_def Let_def fst_conv snd_conv js_uniq_Nil_iff by (simp only: if_Copy not_not)

lemma decideStrategy_codec:
  "snd (snd (decideStrategy cs force)) = (case cs of [] \<Rightarrow> None
     | c # _ \<Rightarrow> if rc_videoCodec c \<noteq> [] then Some (rc_videoCodec c) else None)"
  by (simp add: decideStrategy_def Let_def)

text \<open>Each kind of reason is absent.\<close>

lemma decideStrategy_copy:
  "fst (decideStrategy cs force) = Copy \<longleftrightarrow>
    (\<forall>c\<in>set cs. rc_videoCodec c \<noteq> [])
    \<and> \<not> 1 < length (js_uniq (filter (\<lambda>v. v \<noteq> []) (map rc_videoCodec cs)))
    \<and> (\<forall>v\<in>set (js_uniq (filter (\<lambda>v. v \<noteq> []) (map rc_videoCodec cs))). v \<in> set COPY_SAFE_VIDEO)
    \<and> \<not> 1 < length (js_uniq (map rc_audioCodec cs))
    \<and> (\<forall>a\<in>set (js_uniq (map rc_audioCodec cs)). \<not> (a \<noteq> [] \<and> a \<notin> set COPY_SAFE_AUDIO)) \<and> \<not> force"
  unfolding decideStrategy_def Let_def fst_conv if_Copy not_not append_is_Nil_conv map_is_Nil_conv
    filter_empty_conv if_Nil
  by (rule refl)

lemma decideStrategy_copy_same:
  assumes "c \<in> set cs"
  shows "fst (decideStrategy cs force) = Copy \<longleftrightarrow> \<not> force
    \<and> (\<forall>x\<in>set cs. rc_videoCodec x = rc_videoCodec c \<and> rc_audioCodec x = rc_audioCodec c)
    \<and> rc_videoCodec c \<in> set COPY_SAFE_VIDEO \<and> rc_audioCodec c \<in> insert [] (set COPY_SAFE_AUDIO)"
proof (cases "\<forall>x\<in>set cs. rc_videoCodec x \<noteq> []")
  case True
  then have "filter (\<lambda>v. v \<noteq> []) (map rc_videoCodec cs) = map rc_videoCodec cs"
    by (simp add: filter_id_conv)
  then have "fst (decideStrategy cs force) = Copy \<longleftrightarrow>
      (\<forall>x\<in>set cs. \<forall>y\<in>set cs. rc_videoCodec x = rc_videoCodec y)
      \<and> (\<forall>x\<in>set cs. rc_videoCodec x \<in> set COPY_SAFE_VIDEO)
      \<and> (\<forall>x\<in>set cs. \<forall>y\<in>set cs. rc_audioCodec x = rc_audioCodec y)
      \<and> (\<forall>x\<in>set cs. rc_audioCodec x \<in> insert [] (set COPY_SAFE_AUDIO)) \<and> \<not> force"
    using True unfolding decideStrategy_copy js_uniq_single by simp
  then show ?thesis
    using same_member [OF assms, of rc_videoCodec "set COPY_SAFE_VIDEO"]
      same_member [OF assms, of rc_audioCodec "insert [] (set COPY_SAFE_AUDIO)"]
    unfolding pairwise_same [OF assms] ball_conj_distrib by argo
next
  case False
  moreover have "[] \<notin> set COPY_SAFE_VIDEO" by (simp add: COPY_SAFE_VIDEO_def)
  ultimately show ?thesis unfolding decideStrategy_copy by auto
qed

text \<open>
  Stream copy is chosen exactly when it is safe: no transcode was asked for, and all
  selected segments have one and the same known video codec that MP4 takes by copy and one and the
  same audio, none or one that MP4 takes by copy. The reasons are empty exactly then, and \<open>hvc1\<close>
  is set exactly for copied HEVC.
\<close>

theorem range_copy_iff_safe:
  "let strategy = fst (decideStrategy cs force); reasons = fst (snd (decideStrategy cs force)) in
    (strategy = Copy \<longleftrightarrow>
       \<not> force \<and> (\<exists>v\<in>set COPY_SAFE_VIDEO. \<exists>a\<in>insert [] (set COPY_SAFE_AUDIO).
         \<forall>c\<in>set cs. rc_videoCodec c = v \<and> rc_audioCodec c = a))
    \<and> (reasons = [] \<longleftrightarrow> strategy = Copy)
    \<and> (rpl_tagHvc1 (planSelected (input\<lparr>rin_forceTranscode := force\<rparr>) f t k tr cs) \<longleftrightarrow>
         strategy = Copy \<and> cs \<noteq> [] \<and> rc_videoCodec (hd cs) \<in> {''hevc'', ''h265''})"
proof -
  have "fst (decideStrategy cs force) = Copy \<longleftrightarrow>
       \<not> force \<and> (\<exists>v\<in>set COPY_SAFE_VIDEO. \<exists>a\<in>insert [] (set COPY_SAFE_AUDIO).
         \<forall>c\<in>set cs. rc_videoCodec c = v \<and> rc_audioCodec c = a)"
  proof (cases cs)
    case Nil
    have "\<exists>v. v \<in> set COPY_SAFE_VIDEO" by (auto simp: COPY_SAFE_VIDEO_def)
    with Nil show ?thesis unfolding decideStrategy_copy by auto
  next
    case (Cons c rest)
    then have "c \<in> set cs" by simp
    with decideStrategy_copy_same [OF this, of force] show ?thesis by metis
  qed
  moreover have "rpl_tagHvc1 (planSelected (input\<lparr>rin_forceTranscode := force\<rparr>) f t k tr cs) \<longleftrightarrow>
         fst (decideStrategy cs force) = Copy \<and> cs \<noteq> [] \<and> rc_videoCodec (hd cs) \<in> {''hevc'', ''h265''}"
    using decideStrategy_codec [of cs force]
    by (cases cs) (simp_all add: planSelected_def Let_def HEVC_CODECS_def)
  ultimately show ?thesis by (simp add: Let_def decideStrategy_reasons)
qed

definition exampleHevc :: rangeCandidate where
  "exampleHevc = \<lparr>rc_id = ''a'', rc_filePath = ''/a.mp4'', rc_startMs = 0, rc_endMs = 1000,
     rc_videoCodec = ''hevc'', rc_audioCodec = ''aac''\<rparr>"

theorem range_copy_iff_safe_witness:
  "fst (decideStrategy [exampleHevc] False) = Copy
   \<and> rpl_tagHvc1 (planSelected (exampleRangeInput\<lparr>rin_forceTranscode := False\<rparr>) 0 1000 0 False [exampleHevc])
   \<and> fst (decideStrategy [exampleHevc] True) \<noteq> Copy"
  using range_copy_iff_safe [of "[exampleHevc]" False exampleRangeInput 0 1000 0 False]
    range_copy_iff_safe [of "[exampleHevc]" True]
  by (simp add: Let_def exampleHevc_def COPY_SAFE_VIDEO_def COPY_SAFE_AUDIO_def)

definition readsManifest :: "string \<Rightarrow> string \<Rightarrow> string list \<Rightarrow> bool" where
  "readsManifest manifestPath output args \<longleftrightarrow>
     (\<exists>pre post. args = pre @ [''-f'', ''concat'', ''-safe'', ''0'', ''-i'', manifestPath] @ post @ [output]
        \<and> ''-i'' \<notin> set pre)"

lemma index_of_append: "x \<notin> set xs \<Longrightarrow> index_of x (xs @ x # ys) = Some (length xs)"
  by (induction xs) auto

lemma transcode_splice:
  assumes "''-i'' \<notin> set pre"
    and "buildCompatibleTranscodeArgs major mp out preset device = Inr (pre @ ''-i'' # mp # post @ [out])"
  shows "\<exists>args. buildRangeTranscodeArgs major mp out preset device = Inr args \<and> readsManifest mp out args"
  using assms
  by (simp add: buildRangeTranscodeArgs_def index_of_append readsManifest_def) (metis append_Cons append_Nil)

lemma cpu_attempt: "\<exists>args. buildRangeTranscodeArgs major mp out None device = Inr args \<and> readsManifest mp out args"
  by (rule transcode_splice [where pre = "[''-y'']"])
     (auto simp: buildCompatibleTranscodeArgs_def buildCpuTranscodeArgs_def)

lemma copy_reads: "readsManifest mp out (buildRangeCopyArgs mp out tag)"
  unfolding readsManifest_def buildRangeCopyArgs_def
  by (rule exI [of _ "[''-y'', ''-fflags'', ''+genpts'']"]) simp

lemma decode_no_input:
  assumes "PRESETS_HW_ACCEL_ENCODE p \<noteq> None" "d \<noteq> ''-i''"
  shows "''-i'' \<notin> set (map (replace_all ''{3}'' d) (templateToArgs (buildHwaccelDecodeTable major p)))"
  using assms
  by (cases p) (auto simp: templateToArgs_def nvidiaDecode_def dumpExtra_def js_space_def split: jsnum.splits)

lemma hw_attempt:
  assumes "PRESETS_HW_ACCEL_ENCODE p \<noteq> None" "\<forall>c\<in>set d. \<not> js_space c" "d \<noteq> ''-i''" "d \<noteq> []"
  shows "\<exists>args. buildRangeTranscodeArgs major mp out (Some p) (Some d) = Inr args \<and> readsManifest mp out args"
proof -
  obtain encode where e: "PRESETS_HW_ACCEL_ENCODE p = Some encode" using assms(1) by blast
  let ?decode = "map (replace_all ''{3}'' d) (templateToArgs (buildHwaccelDecodeTable major p))"
  have "hwaccelDecodeArgs major p (Some d) None None = Inr ?decode"
    using assms by (simp add: hwaccelDecodeArgs_def Let_def decode_no_numbers templateToArgs_device)
  then show ?thesis
    using decode_no_input [OF assms(1,3), of major]
    by (intro transcode_splice [where pre = "''-y'' # ?decode"
          and post = "[''-map'', ''0:v:0'', ''-map'', ''0:a:0?''] @ templateToArgs encode
            @ [''-c:a'', ''aac'', ''-ar'', ''44100'', ''-ac'', ''2'', ''-movflags'', ''+faststart'']"])
       (simp_all add: buildCompatibleTranscodeArgs_def e)
qed

text \<open>
  The attempts: stream copy stands first for a plan that copies and nowhere else, the
  CPU transcode is always the last one, an accelerated one comes in between exactly when the preset
  has an encoder; building them fails only for an accelerated preset without a device. Every
  command reads the manifest through \<open>-f concat -safe 0\<close> right before its \<open>-i\<close> and writes
  the output last.
\<close>

theorem range_attempts_order:
  assumes "\<forall>p d. hwaccel = Some (p, Some d) \<longrightarrow> (\<forall>c\<in>set d. \<not> js_space c) \<and> d \<noteq> ''-i''"
  shows "case buildRangeExportAttempts major plan manifestPath outputPath hwaccel of
      Inl e \<Rightarrow> \<exists>p device. hwaccel = Some (Some p, device) \<and> PRESETS_HW_ACCEL_ENCODE p \<noteq> None
                \<and> (device = None \<or> device = Some []) \<and> e = TranscodeError (NeedsDevice p)
    | Inr attempts \<Rightarrow>
        map (\<lambda>a. (ra_kind a, ra_preset a)) attempts =
          (if rpl_strategy plan = Copy then [(Copy, None)] else [])
          @ (case hwaccel of Some (Some p, _) \<Rightarrow>
                if PRESETS_HW_ACCEL_ENCODE p \<noteq> None then [(Transcode, Some p)] else [] | _ \<Rightarrow> [])
          @ [(Transcode, None)]
        \<and> (\<forall>a\<in>set attempts. readsManifest manifestPath outputPath (ra_args a))"
proof -
  obtain cpu where cpu: "buildRangeTranscodeArgs major manifestPath outputPath None None = Inr cpu"
    and cpu': "readsManifest manifestPath outputPath cpu"
    using cpu_attempt by blast
  show ?thesis
  proof (cases "\<exists>p device. hwaccel = Some (Some p, device) \<and> PRESETS_HW_ACCEL_ENCODE p \<noteq> None")
    case False
    then show ?thesis
      using cpu'
      by (auto simp: buildRangeExportAttempts_def Let_def attempt_def cpu copy_reads
          split: option.split prod.split)
  next
    case True
    then obtain p device where h: "hwaccel = Some (Some p, device)" and p: "PRESETS_HW_ACCEL_ENCODE p \<noteq> None"
      by blast
    show ?thesis
    proof (cases "device = None \<or> device = Some []")
      case True
      then have "buildCompatibleTranscodeArgs major manifestPath outputPath (Some p) device = Inl (NeedsDevice p)"
        using p by (auto simp: buildCompatibleTranscodeArgs_def hwaccelDecodeArgs_def decode_no_numbers)
      then show ?thesis
        using True p
        by (auto simp: h buildRangeExportAttempts_def Let_def attempt_def buildRangeTranscodeArgs_def)
    next
      case False
      then obtain d where d: "device = Some d" "d \<noteq> []" by auto
      with assms h have "\<forall>c\<in>set d. \<not> js_space c" "d \<noteq> ''-i''" by auto
      then obtain args where
        "buildRangeTranscodeArgs major manifestPath outputPath (Some p) (Some d) = Inr args"
        "readsManifest manifestPath outputPath args"
        using hw_attempt [OF p _ _ d(2)] by blast
      with cpu' p d show ?thesis
        by (auto simp: h buildRangeExportAttempts_def Let_def attempt_def cpu copy_reads)
    qed
  qed
qed

theorem range_attempts_order_witness:
  "\<exists>attempts. buildRangeExportAttempts (Fin 59) exampleRangePlan ''/tmp/m'' ''/tmp/o.mp4''
       (Some (Some Nvidia, Some ''0'')) = Inr attempts
     \<and> map (\<lambda>a. (ra_kind a, ra_preset a)) attempts = [(Copy, None), (Transcode, Some Nvidia), (Transcode, None)]"
proof -
  have "\<forall>p d. Some (Some Nvidia, Some ''0'') = Some (p, Some d) \<longrightarrow> (\<forall>c\<in>set d. \<not> js_space c) \<and> d \<noteq> ''-i''"
    by (auto simp: js_space_def)
  from range_attempts_order [OF this, where major = "Fin 59" and plan = exampleRangePlan
      and manifestPath = "''/tmp/m''" and outputPath = "''/tmp/o.mp4''"]
  show ?thesis by (auto simp: exampleRangePlan_def split: sum.splits)
qed

fun unquote :: "bool \<Rightarrow> string \<Rightarrow> string" where
  "unquote q [] = []"
| "unquote True (c # cs) = (if c = CHR 0x27 then unquote False cs else c # unquote True cs)"
| "unquote False [c] = (if c = CHR 0x5C \<or> c = CHR 0x27 then [] else [c])"
| "unquote False (c # d # ds) =
     (if c = CHR 0x5C then d # unquote False ds
      else if c = CHR 0x27 then unquote True (d # ds)
      else c # unquote False (d # ds))"

definition manifestFiles :: "string \<Rightarrow> string list" where
  "manifestFiles text =
     map (\<lambda>l. unquote False (drop 5 l)) (filter (\<lambda>l. starts_with l ''file '') (split_on CHR 0x0A text))"

lemma quotePath_simps [simp]:
  "quotePath [] = []"
  "quotePath (c # cs) = (if c = CHR 0x27 then [CHR 0x27, CHR 0x5C, CHR 0x27, CHR 0x27] @ quotePath cs
                         else c # quotePath cs)"
  by (auto simp: quotePath_def)

lemma unquote_open: "s \<noteq> [] \<Longrightarrow> unquote False (CHR 0x27 # s) = unquote True s"
  by (cases s) auto

lemma unquote_quotePath: "unquote True (quotePath path @ [CHR 0x27]) = path"
  by (induction path) (auto simp: unquote_open)

lemma quotePath_newline: "CHR 0x0A \<in> set (quotePath path) \<longleftrightarrow> CHR 0x0A \<in> set path"
  by (induction path) auto

lemma manifestPartLines_files:
  "map (\<lambda>l. unquote False (drop 5 l)) (filter (\<lambda>l. starts_with l ''file '') (manifestPartLines part))
     = [rp_filePath part]"
  by (simp add: manifestPartLines_def unquote_open unquote_quotePath)

lemma manifestPartLines_newline:
  "\<not> has_line_break (rp_filePath part) \<Longrightarrow> l \<in> set (manifestPartLines part) \<Longrightarrow> CHR 0x0A \<notin> set l"
  by (auto simp: manifestPartLines_def has_line_break_def quotePath_newline printed_no_newline split: if_splits)

lemma manifestLines_eq:
  "manifestLines parts =
     (case find (\<lambda>p. has_line_break (rp_filePath p)) parts of
        Some p \<Rightarrow> Inl (LineBreakInPath (rp_recordingId p))
      | None \<Rightarrow> Inr (concat (map manifestPartLines parts) @ [[]]))"
  by (induction parts) (auto split: option.splits)

lemma manifest_files_concat:
  "map (\<lambda>l. unquote False (drop 5 l))
     (filter (\<lambda>l. starts_with l ''file '') (concat (map manifestPartLines parts))) = map rp_filePath parts"
  by (induction parts) (simp_all add: manifestPartLines_files)

text \<open>
  The manifest round trip. The manifest is refused exactly when the path of a part has a
  line break; otherwise a reader that undoes the quoting of the \<open>concat\<close> demuxer (literal text
  between quotes, a backslash protecting one character outside of them) finds in its
  \<open>file\<close> lines the paths of the parts, in order and whatever quotes they hold.
\<close>

theorem manifest_roundtrip:
  "case buildConcatManifest plan of
     Inl (LineBreakInPath i) \<Rightarrow>
       \<exists>p\<in>set (rpl_parts plan). rp_recordingId p = i \<and> has_line_break (rp_filePath p)
   | Inr text \<Rightarrow> (\<forall>p\<in>set (rpl_parts plan). \<not> has_line_break (rp_filePath p))
       \<and> manifestFiles text = map rp_filePath (rpl_parts plan)"
proof (cases "find (\<lambda>p. has_line_break (rp_filePath p)) (rpl_parts plan)")
  case None
  then have ok: "\<forall>p\<in>set (rpl_parts plan). \<not> has_line_break (rp_filePath p)"
    by (simp add: find_None_iff)
  let ?ls = "''ffconcat version 1.0'' # concat (map manifestPartLines (rpl_parts plan)) @ [[]]"
  have "split_on CHR 0x0A (join [CHR 0x0A] ?ls) = ?ls"
    using ok manifestPartLines_newline by (intro split_on_join) auto
  with None ok show ?thesis
    by (simp add: buildConcatManifest_def manifestLines_eq manifestFiles_def manifest_files_concat)
next
  case (Some p)
  with find_SomeD [OF Some] show ?thesis by (auto simp: buildConcatManifest_def manifestLines_eq)
qed

theorem manifest_roundtrip_witness:
  "\<exists>text. buildConcatManifest exampleRangePlan = Inr text
     \<and> manifestFiles text = [''/rec/a.mp4'', ''/rec/it'' @ [CHR 0x27] @ ''s.mp4'']"
proof -
  obtain ls where t: "buildConcatManifest exampleRangePlan = Inr ls"
    by (simp add: buildConcatManifest_def exampleRangePlan_def has_line_break_def)
  with manifest_roundtrip [of exampleRangePlan] show ?thesis by (simp add: exampleRangePlan_def)
qed

lemma cutsMs_whole:
  assumes "m \<in> \<int>" "\<forall>c\<in>set cs. rc_endMs c \<in> \<int>"
  shows "cutsMs m f t cs \<in> \<int>"
    and "sum_list (map (\<lambda>c. roundSeconds (outMs m t c - inMs m f c)) cs) = cutsMs m f t cs / 1000"
  using assms by (induction cs) (auto simp: cut_whole roundSeconds_exact add_divide_distrib)

text \<open>
  The timeline of the exported file is exact: a part lasts as long as the stretch of its
  file that it takes, every part starts where the parts before it end, and the total is their sum.
\<close>

theorem range_timeline_exact:
  assumes "planRangeExport lc input = Inr plan" "wholeInput input"
  shows "rpl_totalDurationSeconds plan = sum_list (map rp_durationSeconds (rpl_parts plan))
    \<and> (\<forall>i < length (rpl_parts plan).
         rp_offsetSeconds (rpl_parts plan ! i) = sum_list (map rp_durationSeconds (take i (rpl_parts plan)))
         \<and> rp_durationSeconds (rpl_parts plan ! i)
             = rp_outpointSeconds (rpl_parts plan ! i) - rp_inpointSeconds (rpl_parts plan ! i)
         \<and> 0 < rp_durationSeconds (rpl_parts plan ! i))"
  using assms(1)
proof (rule planRange_Inr)
  fix f t sel m
  assume "f < t" and sel: "sel = rangeSelected lc f t input" and m: "m = rangeMargin input sel" "0 \<le> m"
    and parts: "rpl_parts plan = fst (partLoop m f t 0 0 0 sel)"
    and plan: "plan = planSelected input f t
           (fst (collectCandidates (rangePick f t) rangeCandidateOf (rin_segments input)))
           (rpl_truncated plan) sel"
  have pos: "\<forall>c\<in>set sel. 0 < outMs m t c - inMs m f c"
    using selected_positive [OF \<open>f < t\<close> m(2)] sel by simp
  have w: "m \<in> \<int>" using m(1) margin_whole [OF assms(2)] by simp
  have e: "\<forall>c\<in>set (take i sel). rc_endMs c \<in> \<int>" for i
    using selected_whole [OF _ \<open>f < t\<close> assms(2), of _ lc] sel by (auto dest: in_set_takeD)
  note cuts = cut_whole [OF w] roundSeconds_exact diff_divide_distrib
  have d: "map rp_durationSeconds (rpl_parts plan) = map (\<lambda>c. roundSeconds (outMs m t c - inMs m f c)) sel"
    unfolding parts by (rule nth_equalityI) (auto simp: partLoop_parts [OF pos] partOf_def Let_def)
  have s: "sum_list (map rp_durationSeconds (take i (rpl_parts plan)))
      = roundSeconds (cutsMs m f t (take i sel))" for i
    unfolding take_map [symmetric] d
    unfolding take_map cutsMs_whole(2) [OF w e] roundSeconds_exact [OF cutsMs_whole(1) [OF w e]] ..
  have "rpl_totalDurationSeconds plan = roundSeconds (cutsMs m f t sel)"
    by (subst plan) (simp add: planSelected_def Let_def m(1) [symmetric] partLoop_parts [OF pos])
  with s [of "length sel"] have "rpl_totalDurationSeconds plan = sum_list (map rp_durationSeconds (rpl_parts plan))"
    by (simp add: parts partLoop_parts [OF pos])
  moreover have "rp_offsetSeconds (rpl_parts plan ! i) = roundSeconds (cutsMs m f t (take i sel))
      \<and> rp_durationSeconds (rpl_parts plan ! i)
             = rp_outpointSeconds (rpl_parts plan ! i) - rp_inpointSeconds (rpl_parts plan ! i)
      \<and> 0 < rp_durationSeconds (rpl_parts plan ! i)" if "i < length (rpl_parts plan)" for i
  proof -
    have i: "i < length sel" "rc_endMs (sel ! i) \<in> \<int>"
      using that e [of "length sel"] by (simp_all add: parts partLoop_parts [OF pos])
    with pos show ?thesis by (simp add: parts partLoop_parts [OF pos] partOf_def Let_def cuts)
  qed
  ultimately show ?thesis unfolding s by blast
qed

theorem range_timeline_exact_witness:
  "rpl_totalDurationSeconds exampleRangePlan = sum_list (map rp_durationSeconds (rpl_parts exampleRangePlan))
   \<and> rpl_totalDurationSeconds exampleRangePlan = 64"
  using range_timeline_exact [OF exampleRange exampleRange_whole]
  by (simp add: exampleRangePlan_def)

end
