(* ===== verification/File_Deletion.thy ===== *)
theory File_Deletion
  imports Js_Prelude "HOL-Library.Sublist"
begin

text \<open>
  Deleting files and database rows together: a durable journal, a quarantine directory, commit,
  rollback and the recovery at boot
  (\<open>apps/api/src/recordings/helpers/transactional-file-delete.helper.ts\<close>).

  \<^item> A path is the list of its components after \<open>resolve\<close>; \<open>node:path\<close> is written out for POSIX.
    The root is such a path; candidates and journal entries are strings.
  \<^item> The disk is the list of its files, each with its path and its content. A directory exists when a
    file lies under it (empty directories are not represented, so \<open>mkdir\<close> changes nothing), and
    renaming a directory moves what lies under it.
  \<^item> Each operation directory holds at most a \<open>journal.json\<close>: the length of its text and what
    \<open>JSON.parse\<close> gives (\<open>None\<close> for a text that is not a journal). The text written is modelled, its
    parse is the value it was made from.
  \<^item> Input and output may fail: \<open>faults\<close> says which renames succeed and whether \<open>fsync\<close> and
    \<open>rm\<close> do. \<open>mkdir\<close>, \<open>writeFile\<close> and \<open>stat\<close> do not fail (a \<open>stat\<close> error other than \<open>ENOENT\<close>,
    which the code passes on, is left out).
  \<^item> The process may die while it stages a deletion: the staging function takes the point at which
    it dies (\<open>crashPoint\<close>), or none, and returns the disk it leaves. There is one description of
    staging, for the run that ends and for the run that is cut.
\<close>

section \<open>Paths\<close>

type_synonym path = "string list"

fun norm_comps :: "string list \<Rightarrow> string list \<Rightarrow> path" where
  "norm_comps acc [] = rev acc"
| "norm_comps acc (c # cs) =
     (if c = [] \<or> c = ''.'' then norm_comps acc cs
      else if c = ''..'' then norm_comps (tl acc) cs
      else norm_comps (c # acc) cs)"

definition isAbsolute :: "string \<Rightarrow> bool" where
  "isAbsolute s = starts_with s ''/''"

text \<open>\<open>join(root, s)\<close> and, for an absolute \<open>s\<close>, \<open>resolve(s)\<close>.\<close>

definition joinPath :: "path \<Rightarrow> string \<Rightarrow> path" where
  "joinPath rootp s = norm_comps (rev rootp) (split_on CHR ''/'' s)"

definition resolvePath :: "path \<Rightarrow> string \<Rightarrow> path" where
  "resolvePath base s = (if isAbsolute s then joinPath [] s else joinPath base s)"

fun relativePath :: "path \<Rightarrow> path \<Rightarrow> string list" where
  "relativePath (a # as) (b # bs) =
     (if a = b then relativePath as bs else replicate (length (a # as)) ''..'' @ b # bs)"
| "relativePath [] bs = bs"
| "relativePath as [] = replicate (length as) ''..''"

definition JOURNAL_DIR :: string where
  "JOURNAL_DIR = ''.drac-file-deletions''"

section \<open>Data\<close>

datatype guardModel = GuardRecording | GuardExportedClip

record deletionGuard =
  dg_model :: guardModel
  dg_id :: string

record journalEntry =
  je_originalRelative :: string
  je_quarantineRelative :: string

record deletionJournal =
  dj_version :: nat
  dj_operationId :: string
  dj_createdAt :: string
  dj_guards :: "deletionGuard list"
  dj_entries :: "journalEntry list"

datatype journalFile = JournalFile int "deletionJournal option"

record disk =
  dk_files :: "(path \<times> string) list"
  dk_operations :: "(string \<times> journalFile option) list"

record faults =
  ft_rename :: "path \<Rightarrow> path \<Rightarrow> bool"
  ft_sync :: bool
  ft_rm :: bool

datatype deletionError =
    RootItself | JournalItself | OutsideRoot
  | InvalidJournal | InvalidEntry | InvalidQuarantine | InvalidGuard
  | JournalExists | RenameFailed | SyncFailed | RemoveFailed
  | ProcessDied
  | RestoreFailed nat
  | StageAndRestoreFailed deletionError deletionError

definition pathExists :: "path \<Rightarrow> disk \<Rightarrow> bool" where
  "pathExists p d = list_ex (\<lambda>f. prefix p (fst f)) (dk_files d)"

definition renamePath :: "path \<Rightarrow> path \<Rightarrow> disk \<Rightarrow> disk" where
  "renamePath p q d =
     d\<lparr>dk_files := map (\<lambda>(r, c). (if prefix p r then q @ drop (length p) r else r, c)) (dk_files d)\<rparr>"

section \<open>Operations\<close>

definition assertUnderRoot :: "path \<Rightarrow> path \<Rightarrow> (deletionError, string list) result" where
  "assertUnderRoot rootp candidate =
     (case relativePath rootp candidate of
        [] \<Rightarrow> Inl RootItself
      | c # cs \<Rightarrow>
          if c = JOURNAL_DIR then Inl JournalItself
          else if c = ''..'' then Inl OutsideRoot
          else Inr (c # cs))"

definition operationRoot :: "path \<Rightarrow> string \<Rightarrow> path" where
  "operationRoot rootp operationId = rootp @ [JOURNAL_DIR, operationId]"

definition hex_char :: "char \<Rightarrow> bool" where
  "hex_char c \<longleftrightarrow> is_digit c \<or> (97 \<le> (of_char c :: int) \<and> (of_char c :: int) \<le> 102)
     \<or> (65 \<le> (of_char c :: int) \<and> (of_char c :: int) \<le> 70)"

text \<open>\<open>/^[0-9a-f]{8}-[0-9a-f-]{27}$/i\<close>\<close>

definition uuidLike :: "string \<Rightarrow> bool" where
  "uuidLike s \<longleftrightarrow> length s = 36 \<and> list_all hex_char (take 8 s) \<and> s ! 8 = CHR ''-''
     \<and> list_all (\<lambda>c. hex_char c \<or> c = CHR ''-'') (drop 9 s)"

definition validateEntry :: "path \<Rightarrow> string \<Rightarrow> journalEntry \<Rightarrow> (deletionError, unit) result" where
  "validateEntry rootp operationId entry =
     (if isAbsolute (je_originalRelative entry) \<or> isAbsolute (je_quarantineRelative entry)
      then Inl InvalidEntry
      else case assertUnderRoot rootp (joinPath rootp (je_originalRelative entry)) of
        Inl e \<Rightarrow> Inl e
      | Inr _ \<Rightarrow>
          if prefix [JOURNAL_DIR, operationId, ''files'']
               (relativePath rootp (resolvePath rootp (je_quarantineRelative entry)))
          then Inr () else Inl InvalidQuarantine)"

fun first_error :: "('a \<Rightarrow> ('e, unit) result) \<Rightarrow> 'a list \<Rightarrow> ('e, unit) result" where
  "first_error f [] = Inr ()"
| "first_error f (x # xs) = (case f x of Inl e \<Rightarrow> Inl e | Inr _ \<Rightarrow> first_error f xs)"

definition validateGuard :: "deletionGuard \<Rightarrow> (deletionError, unit) result" where
  "validateGuard guard =
     (if dg_id guard = [] \<or> length (dg_id guard) > 256 then Inl InvalidGuard else Inr ())"

definition validateJournal :: "path \<Rightarrow> string \<Rightarrow> deletionJournal \<Rightarrow> (deletionError, unit) result" where
  "validateJournal rootp expectedOperationId journal =
     (if dj_version journal \<noteq> 1 \<or> dj_operationId journal \<noteq> expectedOperationId
         \<or> \<not> uuidLike (dj_operationId journal)
         \<or> int (length (dj_entries journal)) > 100000 \<or> int (length (dj_guards journal)) > 100000
      then Inl InvalidJournal
      else case first_error (validateEntry rootp (dj_operationId journal)) (dj_entries journal) of
        Inl e \<Rightarrow> Inl e
      | Inr _ \<Rightarrow> first_error validateGuard (dj_guards journal))"

text \<open>\<open>JSON.stringify\<close> of a journal.\<close>

definition hex_digit :: "int \<Rightarrow> char" where
  "hex_digit n = (if n < 10 then char_of (48 + n) else char_of (87 + n))"

definition json_char :: "char \<Rightarrow> string" where
  "json_char c =
     (let n = (of_char c :: int) in
      if n = 34 then [CHR 0x5C, CHR 0x22]
      else if n = 92 then [CHR 0x5C, CHR 0x5C]
      else if n = 8 then [CHR 0x5C, CHR ''b''] else if n = 12 then [CHR 0x5C, CHR ''f'']
      else if n = 10 then [CHR 0x5C, CHR ''n''] else if n = 13 then [CHR 0x5C, CHR ''r'']
      else if n = 9 then [CHR 0x5C, CHR ''t'']
      else if n < 32 then [CHR 0x5C, CHR ''u'', CHR ''0'', CHR ''0'', hex_digit (n div 16), hex_digit (n mod 16)]
      else [c])"

definition json_string :: "string \<Rightarrow> string" where
  "json_string s = [CHR 0x22] @ concat (map json_char s) @ [CHR 0x22]"

definition json_field :: "string \<Rightarrow> string \<Rightarrow> string" where
  "json_field k v = json_string k @ '':'' @ v"

definition json_object :: "string list \<Rightarrow> string" where
  "json_object fs = ''{'' @ join '','' fs @ ''}''"

definition json_array :: "string list \<Rightarrow> string" where
  "json_array vs = ''['' @ join '','' vs @ '']''"

fun guardModelName :: "guardModel \<Rightarrow> string" where
  "guardModelName GuardRecording = ''recording''"
| "guardModelName GuardExportedClip = ''exportedClip''"

definition entryText :: "journalEntry \<Rightarrow> string" where
  "entryText e = json_object [json_field ''originalRelative'' (json_string (je_originalRelative e)),
                              json_field ''quarantineRelative'' (json_string (je_quarantineRelative e))]"

definition guardText :: "deletionGuard \<Rightarrow> string" where
  "guardText g = json_object [json_field ''model'' (json_string (guardModelName (dg_model g))),
                              json_field ''id'' (json_string (dg_id g))]"

definition journalText :: "deletionJournal \<Rightarrow> string" where
  "journalText j =
     json_object [json_field ''version'' (show_nat (dj_version j)),
                  json_field ''operationId'' (json_string (dj_operationId j)),
                  json_field ''createdAt'' (json_string (dj_createdAt j)),
                  json_field ''guards'' (json_array (map guardText (dj_guards j))),
                  json_field ''entries'' (json_array (map entryText (dj_entries j)))]"

definition writeDurableJournal ::
    "faults \<Rightarrow> deletionJournal \<Rightarrow> disk \<Rightarrow> (deletionError, unit) result \<times> disk" where
  "writeDurableJournal fl journal d =
     (case map_of (dk_operations d) (dj_operationId journal) of
        Some (Some _) \<Rightarrow> (Inl JournalExists, d)
      | _ \<Rightarrow>
          (let stored = JournalFile (int (length (journalText journal)) + 1) (Some journal);
               d' = d\<lparr>dk_operations := (dj_operationId journal, Some stored)
                       # filter (\<lambda>x. fst x \<noteq> dj_operationId journal) (dk_operations d)\<rparr>
           in if ft_sync fl then (Inr (), d') else (Inl SyncFailed, d')))"

text \<open>\<open>rm(operationRoot, { recursive: true, force: true })\<close>\<close>

definition removeOperation :: "path \<Rightarrow> string \<Rightarrow> disk \<Rightarrow> disk" where
  "removeOperation rootp operationId d =
     d\<lparr>dk_files := filter (\<lambda>f. \<not> prefix (operationRoot rootp operationId) (fst f)) (dk_files d),
       dk_operations := filter (\<lambda>x. fst x \<noteq> operationId) (dk_operations d)\<rparr>"

text \<open>The loop of \<open>restoreJournal\<close>: the number of errors and the disk.\<close>

fun restoreLoop :: "faults \<Rightarrow> path \<Rightarrow> journalEntry list \<Rightarrow> disk \<Rightarrow> nat \<times> disk" where
  "restoreLoop fl rootp [] d = (0, d)"
| "restoreLoop fl rootp (entry # rest) d =
     (let original = joinPath rootp (je_originalRelative entry);
          quarantined = joinPath rootp (je_quarantineRelative entry)
      in if \<not> pathExists quarantined d then restoreLoop fl rootp rest d
         else if pathExists original d \<or> \<not> ft_rename fl quarantined original
         then (let r = restoreLoop fl rootp rest d in (Suc (fst r), snd r))
         else restoreLoop fl rootp rest (renamePath quarantined original d))"

definition restoreJournal ::
    "faults \<Rightarrow> path \<Rightarrow> deletionJournal \<Rightarrow> disk \<Rightarrow> (deletionError, unit) result \<times> disk" where
  "restoreJournal fl rootp journal d =
     (let (errors, d1) = restoreLoop fl rootp (rev (dj_entries journal)) d in
      if errors \<noteq> 0 then (Inl (RestoreFailed errors), d1)
      else if \<not> ft_sync fl then (Inl SyncFailed, d1)
      else if \<not> ft_rm fl then (Inl RemoveFailed, d1)
      else (Inr (), removeOperation rootp (dj_operationId journal) d1))"

text \<open>The result is \<open>cleanupDeferred\<close>.\<close>

definition cleanupCommittedJournal ::
    "faults \<Rightarrow> path \<Rightarrow> deletionJournal \<Rightarrow> disk \<Rightarrow> bool \<times> disk" where
  "cleanupCommittedJournal fl rootp journal d =
     (if ft_rm fl then (False, removeOperation rootp (dj_operationId journal) d) else (True, d))"

text \<open>\<open>candidates.map(assertUnderRoot)\<close>: the first bad candidate throws.\<close>

fun relativeCandidates :: "path \<Rightarrow> string list \<Rightarrow> (deletionError, string list) result" where
  "relativeCandidates rootp [] = Inr []"
| "relativeCandidates rootp (c # cs) =
     (case assertUnderRoot rootp (resolvePath rootp c) of
        Inl e \<Rightarrow> Inl e
      | Inr rel \<Rightarrow>
          (case relativeCandidates rootp cs of
             Inl e \<Rightarrow> Inl e
           | Inr rels \<Rightarrow> Inr (join ''/'' rel # rels)))"

definition quarantineRelative :: "string \<Rightarrow> nat \<Rightarrow> string" where
  "quarantineRelative operationId index =
     join ''/'' [JOURNAL_DIR, operationId, ''files'', pad 8 (int index)]"

definition makeJournal ::
    "string \<Rightarrow> string \<Rightarrow> string list \<Rightarrow> deletionGuard list \<Rightarrow> deletionJournal" where
  "makeJournal operationId createdAt uniqueRelative guards =
     \<lparr>dj_version = 1, dj_operationId = operationId, dj_createdAt = createdAt, dj_guards = guards,
      dj_entries = map (\<lambda>(i, rel). \<lparr>je_originalRelative = rel,
                                   je_quarantineRelative = quarantineRelative operationId i\<rparr>)
                     (enumerate 0 uniqueRelative)\<rparr>"

text \<open>The moving loop: the moved and missing files, and whether every rename succeeded.\<close>

fun stageLoop :: "faults \<Rightarrow> path \<Rightarrow> journalEntry list \<Rightarrow> disk \<Rightarrow> (nat \<times> nat \<times> bool) \<times> disk" where
  "stageLoop fl rootp [] d = ((0, 0, True), d)"
| "stageLoop fl rootp (entry # rest) d =
     (let original = joinPath rootp (je_originalRelative entry);
          quarantined = joinPath rootp (je_quarantineRelative entry)
      in if \<not> pathExists original d
         then (let ((moved, missing, ok), d') = stageLoop fl rootp rest d in ((moved, Suc missing, ok), d'))
         else if \<not> ft_rename fl original quarantined then ((0, 0, False), d)
         else (let ((moved, missing, ok), d') = stageLoop fl rootp rest (renamePath original quarantined d)
               in ((Suc moved, missing, ok), d')))"

record stagedFileDeletion =
  sd_journal :: deletionJournal
  sd_movedFiles :: nat
  sd_missingFiles :: nat

text \<open>
  Where the process may die: while the journal is written - its directory may be there with no file,
  or with a text that was cut and does not parse - or after some turns of the loop that moves the
  files, the last one included.
\<close>

datatype crashPoint = InJournal "int option" | AfterTurns nat

definition turnsUntil :: "crashPoint option \<Rightarrow> 'e list \<Rightarrow> 'e list" where
  "turnsUntil halt entries = (case halt of Some (AfterTurns k) \<Rightarrow> take k entries | _ \<Rightarrow> entries)"

text \<open>
  \<open>stageFileDeletion\<close>, cut at a crash point (\<open>ProcessDied\<close> stands for not returning at all) or run
  to its end. \<open>operationId\<close> is what \<open>randomUUID()\<close> gives, \<open>createdAt\<close> the current instant.
\<close>

definition stageUntil ::
    "crashPoint option \<Rightarrow> faults \<Rightarrow> path \<Rightarrow> string \<Rightarrow> string \<Rightarrow> string list \<Rightarrow> deletionGuard list \<Rightarrow> disk
     \<Rightarrow> (deletionError, stagedFileDeletion) result \<times> disk" where
  "stageUntil halt fl rootp operationId createdAt candidates guards d =
     (case relativeCandidates rootp candidates of
        Inl e \<Rightarrow> (Inl e, d)
      | Inr rels \<Rightarrow>
          (let journal = makeJournal operationId createdAt (js_uniq rels) guards in
           case halt of
             Some (InJournal written) \<Rightarrow>
               (Inl ProcessDied,
                d\<lparr>dk_operations := (operationId, map_option (\<lambda>n. JournalFile n None) written)
                    # filter (\<lambda>x. fst x \<noteq> operationId) (dk_operations d)\<rparr>)
           | _ \<Rightarrow>
          (case writeDurableJournal fl journal d of
             (Inl e, d1) \<Rightarrow> (Inl e, d1)
           | (Inr _, d1) \<Rightarrow>
               (let ((moved, missing, ok), d2) = stageLoop fl rootp (turnsUntil halt (dj_entries journal)) d1 in
                if halt \<noteq> None then (Inl ProcessDied, d2)
                else if ok \<and> ft_sync fl
                then (Inr \<lparr>sd_journal = journal, sd_movedFiles = moved, sd_missingFiles = missing\<rparr>, d2)
                else (let e = (if ok then SyncFailed else RenameFailed) in
                      case restoreJournal fl rootp journal d2 of
                        (Inl e', d3) \<Rightarrow> (Inl (StageAndRestoreFailed e e'), d3)
                      | (Inr _, d3) \<Rightarrow> (Inl e, d3))))))"

definition stageFileDeletion ::
    "faults \<Rightarrow> path \<Rightarrow> string \<Rightarrow> string \<Rightarrow> string list \<Rightarrow> deletionGuard list \<Rightarrow> disk
     \<Rightarrow> (deletionError, stagedFileDeletion) result \<times> disk" where
  "stageFileDeletion fl rootp operationId createdAt candidates guards d =
     stageUntil None fl rootp operationId createdAt candidates guards d"

definition commit :: "faults \<Rightarrow> path \<Rightarrow> stagedFileDeletion \<Rightarrow> disk \<Rightarrow> bool \<times> disk" where
  "commit fl rootp staged d = cleanupCommittedJournal fl rootp (sd_journal staged) d"

definition rollback ::
    "faults \<Rightarrow> path \<Rightarrow> stagedFileDeletion \<Rightarrow> disk \<Rightarrow> (deletionError, unit) result \<times> disk" where
  "rollback fl rootp staged d = restoreJournal fl rootp (sd_journal staged) d"

record recoveryCounts =
  rv_scanned :: nat
  rv_restored :: nat
  rv_cleaned :: nat
  rv_failed :: nat

text \<open>What the recovery does with one operation directory.\<close>

datatype recovered = Restored | Cleaned | Failed

definition recoverOne ::
    "faults \<Rightarrow> path \<Rightarrow> (deletionGuard \<Rightarrow> bool) \<Rightarrow> string \<times> journalFile option \<Rightarrow> disk \<Rightarrow> recovered \<times> disk" where
  "recoverOne fl rootp guardExists dir d =
     (case snd dir of
        Some (JournalFile rawLength (Some journal)) \<Rightarrow>
          if rawLength > 1000000 then (Failed, d)
          else (case validateJournal rootp (fst dir) journal of
             Inl _ \<Rightarrow> (Failed, d)
           | Inr _ \<Rightarrow>
               if list_ex guardExists (dj_guards journal)
               then (case restoreJournal fl rootp journal d of
                       (Inl _, d') \<Rightarrow> (Failed, d') | (Inr _, d') \<Rightarrow> (Restored, d'))
               else (case cleanupCommittedJournal fl rootp journal d of
                       (True, d') \<Rightarrow> (Failed, d') | (False, d') \<Rightarrow> (Cleaned, d')))
      | _ \<Rightarrow> (Failed, d))"

fun recoverLoop ::
    "faults \<Rightarrow> path \<Rightarrow> (deletionGuard \<Rightarrow> bool) \<Rightarrow> (string \<times> journalFile option) list \<Rightarrow> disk
     \<Rightarrow> recovered list \<times> disk" where
  "recoverLoop fl rootp guardExists [] d = ([], d)"
| "recoverLoop fl rootp guardExists (dir # dirs) d =
     (let (r, d') = recoverOne fl rootp guardExists dir d;
          (rs, d'') = recoverLoop fl rootp guardExists dirs d'
      in (r # rs, d''))"

definition recoverPendingFileDeletions ::
    "faults \<Rightarrow> path \<Rightarrow> (deletionGuard \<Rightarrow> bool) \<Rightarrow> disk \<Rightarrow> recoveryCounts \<times> disk" where
  "recoverPendingFileDeletions fl rootp guardExists d =
     (let (rs, d') = recoverLoop fl rootp guardExists (dk_operations d) d
      in (\<lparr>rv_scanned = length rs,
           rv_restored = length (filter (\<lambda>r. r = Restored) rs),
           rv_cleaned = length (filter (\<lambda>r. r = Cleaned) rs),
           rv_failed = length (filter (\<lambda>r. r = Failed) rs)\<rparr>, d'))"

section \<open>Lemmas\<close>

subsection \<open>Paths\<close>

definition clean :: "string \<Rightarrow> bool" where
  "clean c \<longleftrightarrow> c \<noteq> [] \<and> c \<noteq> ''.'' \<and> c \<noteq> ''..'' \<and> CHR ''/'' \<notin> set c"

definition clean_path :: "path \<Rightarrow> bool" where
  "clean_path p \<longleftrightarrow> (\<forall>c\<in>set p. clean c)"

lemma clean_path_simps [simp]:
  "clean_path []" "clean_path (c # p) \<longleftrightarrow> clean c \<and> clean_path p"
  "clean_path (p @ q) \<longleftrightarrow> clean_path p \<and> clean_path q" "clean_path (rev p) \<longleftrightarrow> clean_path p"
  by (auto simp: clean_path_def)

lemma clean_path_tl: "clean_path p \<Longrightarrow> clean_path (tl p)"
  by (cases p) auto

lemma norm_comps_clean:
  "clean_path acc \<Longrightarrow> \<forall>c\<in>set cs. CHR ''/'' \<notin> set c \<Longrightarrow> clean_path (norm_comps acc cs)"
  by (induction acc cs rule: norm_comps.induct) (auto simp: clean_def clean_path_tl)

lemma norm_comps_id: "clean_path cs \<Longrightarrow> norm_comps acc cs = rev acc @ cs"
  by (induction acc cs rule: norm_comps.induct) (auto simp: clean_def)

lemma joinPath_clean: "clean_path p \<Longrightarrow> clean_path (joinPath p s)"
  by (simp add: joinPath_def norm_comps_clean split_on_pieces)

lemma resolvePath_clean: "clean_path p \<Longrightarrow> clean_path (resolvePath p s)"
  by (simp add: resolvePath_def joinPath_clean)

lemma joinPath_rel:
  assumes "clean_path rel" "rel \<noteq> []"
  shows "joinPath p (join ''/'' rel) = p @ rel"
  using assms split_on_join [of rel "CHR ''/''"]
  by (simp add: joinPath_def norm_comps_id clean_path_def clean_def)

lemma join_relative: "clean_path rel \<Longrightarrow> rel \<noteq> [] \<Longrightarrow> \<not> isAbsolute (join ''/'' rel)"
proof (induction rel rule: induct_list012)
  case (2 c)
  then show ?case by (cases c) (auto simp: isAbsolute_def clean_def)
next
  case (3 c d cs)
  then show ?case by (cases c) (auto simp: isAbsolute_def clean_def)
qed simp

lemma relativePath_under: "relativePath p q = c # cs \<Longrightarrow> c \<noteq> ''..'' \<Longrightarrow> q = p @ c # cs"
  by (induction p q rule: relativePath.induct) (auto split: if_splits)

lemma relativePath_append [simp]: "relativePath p (p @ q) = q"
  by (induction p) auto

lemma assertUnderRoot_Inr:
  assumes "assertUnderRoot p q = Inr rel"
  shows "q = p @ rel" "rel \<noteq> []" "hd rel \<noteq> JOURNAL_DIR"
  using assms relativePath_under [of p q]
  by (auto simp: assertUnderRoot_def split: list.splits if_splits)

lemma assertUnderRoot_ok:
  "rel \<noteq> [] \<Longrightarrow> hd rel \<noteq> JOURNAL_DIR \<Longrightarrow> clean (hd rel) \<Longrightarrow> assertUnderRoot p (p @ rel) = Inr rel"
  by (cases rel) (auto simp: assertUnderRoot_def clean_def)

lemma JOURNAL_DIR_clean [simp]: "clean JOURNAL_DIR"
  by (simp add: JOURNAL_DIR_def clean_def)

lemma uuidLike_clean:
  assumes "uuidLike s"
  shows "clean s"
proof -
  have s: "s = take 8 s @ s ! 8 # drop 9 s"
    using assms id_take_nth_drop [of 8 s] by (simp add: uuidLike_def)
  have "CHR ''/'' \<notin> set (take 8 s) \<and> CHR ''/'' \<notin> set (drop 9 s) \<and> s ! 8 \<noteq> CHR ''/''"
    using assms by (auto simp: uuidLike_def list_all_iff hex_char_def is_digit_def)
  with s have "CHR ''/'' \<notin> set s" by (metis Un_iff set_ConsD set_append)
  moreover have "length s = 36" using assms by (simp add: uuidLike_def)
  ultimately show ?thesis by (auto simp: clean_def)
qed

lemma pad_clean: "clean (pad 8 (int i))"
proof -
  have len: "8 \<le> length (pad 8 (int i))" by (simp add: pad_def Let_def)
  have "CHR ''/'' \<notin> set (show_nat n)" for n
    using show_nat_digits [of n] by (auto simp: list_all_iff is_digit_def)
  then have "CHR ''/'' \<notin> set (pad 8 (int i))" by (auto simp: pad_def Let_def)
  with len show ?thesis by (auto simp: clean_def)
qed

lemma quarantine_path:
  assumes "clean op"
  shows "joinPath p (quarantineRelative op i) = operationRoot p op @ [''files'', pad 8 (int i)]"
  unfolding quarantineRelative_def operationRoot_def
  using assms pad_clean by (subst joinPath_rel) (auto simp: clean_def [of "''files''"])

subsection \<open>Moving files there and back\<close>

lemma pathExists_iff: "pathExists p d \<longleftrightarrow> (\<exists>r c. (r, c) \<in> set (dk_files d) \<and> prefix p r)"
  by (force simp: pathExists_def list_ex_iff)

lemma pathExists_file: "\<not> pathExists p d \<Longrightarrow> f \<in> set (dk_files d) \<Longrightarrow> \<not> prefix p (fst f)"
  by (auto simp: pathExists_def list_ex_iff)

lemma renamePath_ops [simp]: "dk_operations (renamePath p q d) = dk_operations d"
  by (simp add: renamePath_def)

lemma renamePath_inverse:
  assumes "\<not> pathExists q d"
  shows "renamePath q p (renamePath p q d) = d"
proof -
  have "map ((\<lambda>(r, c). (if prefix q r then p @ drop (length q) r else r, c))
      \<circ> (\<lambda>(r, c). (if prefix p r then q @ drop (length p) r else r, c))) (dk_files d) = dk_files d"
  proof (intro map_idI)
    fix f assume "f \<in> set (dk_files d)"
    with assms have "\<not> prefix q (fst f)" by (cases f) (auto simp: pathExists_iff)
    then show "((\<lambda>(r, c). (if prefix q r then p @ drop (length q) r else r, c))
      \<circ> (\<lambda>(r, c). (if prefix p r then q @ drop (length p) r else r, c))) f = f"
      by (cases f) (auto simp: prefix_def)
  qed
  then show ?thesis by (simp add: renamePath_def)
qed

lemma renamePath_target: "pathExists p d \<Longrightarrow> pathExists q (renamePath p q d)"
  by (force simp: pathExists_iff renamePath_def)

lemma renamePath_exists:
  assumes "pathExists r (renamePath p q d)"
  shows "(\<exists>r' c. (r', c) \<in> set (dk_files d) \<and> \<not> prefix p r' \<and> prefix r r') \<or> (\<exists>s. prefix r (q @ s))"
  using assms by (auto simp: pathExists_iff renamePath_def split: if_splits)

text \<open>A well-formed entry: a file under the root but not in the journal, and its place in quarantine.\<close>

definition wfEntry :: "path \<Rightarrow> string \<Rightarrow> journalEntry \<Rightarrow> bool" where
  "wfEntry p op e \<longleftrightarrow>
     (\<exists>rel. joinPath p (je_originalRelative e) = p @ rel \<and> rel \<noteq> [] \<and> hd rel \<noteq> JOURNAL_DIR)
     \<and> (\<exists>x. joinPath p (je_quarantineRelative e) = operationRoot p op @ [''files'', x])"

definition quarantineOf :: "path \<Rightarrow> journalEntry \<Rightarrow> path" where
  "quarantineOf p e = joinPath p (je_quarantineRelative e)"

lemma wfEntry_original:
  "wfEntry p op e \<Longrightarrow> \<not> prefix (joinPath p (je_originalRelative e)) (operationRoot p op @ s)"
  by (auto simp: wfEntry_def operationRoot_def prefix_def neq_Nil_conv)

lemma wfEntry_quarantine:
  assumes "wfEntry p op e" "wfEntry p op e'" "quarantineOf p e \<noteq> quarantineOf p e'"
  shows "\<not> prefix (quarantineOf p e') (quarantineOf p e @ s)"
  using assms by (auto simp: wfEntry_def quarantineOf_def prefix_def)

lemma restoreLoop_skip:
  "\<forall>e\<in>set es. \<not> pathExists (quarantineOf p e) d \<Longrightarrow> restoreLoop fl p es d = (0, d)"
  by (induction es) (auto simp: quarantineOf_def Let_def)

lemma restoreLoop_append:
  "restoreLoop fl p (xs @ ys) d =
     (let r = restoreLoop fl p xs d; r' = restoreLoop fl p ys (snd r) in (fst r + fst r', snd r'))"
  by (induction fl p xs d rule: restoreLoop.induct) (auto simp: Let_def)

text \<open>Restoring undoes any beginning of the moves, wherever a rename failed or a crash came.\<close>

lemma restore_stage:
  assumes "\<forall>e\<in>set es. wfEntry p op e" "distinct (map (quarantineOf p) es)"
    and "\<forall>e\<in>set es. \<not> pathExists (quarantineOf p e) d"
    and "\<forall>e\<in>set es. ft_rename fl (quarantineOf p e) (joinPath p (je_originalRelative e))"
  shows "restoreLoop fl p (rev es) (snd (stageLoop fs p (take k es) d)) = (0, d)"
  using assms
proof (induction es arbitrary: d k)
  case (Cons e es)
  let ?O = "joinPath p (je_originalRelative e)" and ?Q = "quarantineOf p e"
  have skip: "restoreLoop fl p (rev (e # es)) d = (0, d)"
    using Cons.prems(3) by (intro restoreLoop_skip) auto
  have IH: "restoreLoop fl p (rev es) (snd (stageLoop fs p (take k' es) d')) = (0, d')"
    if "\<forall>e\<in>set es. \<not> pathExists (quarantineOf p e) d'" for k' d'
    using Cons.prems that by (intro Cons.IH) auto
  show ?case
  proof (cases k)
    case 0
    with skip show ?thesis by simp
  next
    case (Suc k')
    consider "\<not> pathExists ?O d" | "pathExists ?O d" "\<not> ft_rename fs ?O ?Q"
      | "pathExists ?O d" "ft_rename fs ?O ?Q" by blast
    then show ?thesis
    proof cases
      case 1
      with Suc have "snd (stageLoop fs p (take k (e # es)) d) = snd (stageLoop fs p (take k' es) d)"
        by (simp add: Let_def split_beta)
      with IH [of d k'] Cons.prems(3) show ?thesis
        by (simp add: restoreLoop_append Let_def quarantineOf_def)
    next
      case 2
      with Suc skip show ?thesis by (simp add: Let_def quarantineOf_def)
    next
      case 3
      let ?d = "renamePath ?O ?Q d"
      have st: "snd (stageLoop fs p (take k (e # es)) d) = snd (stageLoop fs p (take k' es) ?d)"
        using 3 Suc by (simp add: Let_def split_beta quarantineOf_def)
      have "\<forall>e'\<in>set es. \<not> pathExists (quarantineOf p e') ?d"
      proof
        fix e' assume e': "e' \<in> set es"
        with Cons.prems(1,2) have "\<not> prefix (quarantineOf p e') (?Q @ s)" for s
          by (intro wfEntry_quarantine [of p op]) auto
        moreover have "\<not> pathExists (quarantineOf p e') d" using e' Cons.prems(3) by simp
        ultimately show "\<not> pathExists (quarantineOf p e') ?d"
          using renamePath_exists [of "quarantineOf p e'" ?O ?Q d] unfolding pathExists_iff by blast
      qed
      note undo = IH [OF this, of k']
      have "\<not> pathExists ?O ?d"
      proof -
        have "\<not> prefix ?O (?Q @ s)" for s
          using Cons.prems(1) wfEntry_original [of p op e] by (auto simp: wfEntry_def quarantineOf_def)
        with renamePath_exists [of ?O ?O ?Q d] show ?thesis by blast
      qed
      moreover have "pathExists ?Q ?d" using 3 by (simp add: renamePath_target)
      moreover have "renamePath ?Q ?O ?d = d" using Cons.prems(3) by (simp add: renamePath_inverse)
      ultimately show ?thesis
        using undo st Cons.prems(4) by (simp add: restoreLoop_append Let_def quarantineOf_def)
    qed
  qed
qed simp

subsection \<open>The journal of an operation\<close>

text \<open>A new operation identifier, and a disk on which the way back from quarantine works.\<close>

definition freshOp :: "path \<Rightarrow> string \<Rightarrow> disk \<Rightarrow> bool" where
  "freshOp p op d \<longleftrightarrow> uuidLike op \<and> \<not> pathExists (operationRoot p op) d \<and> op \<notin> fst ` set (dk_operations d)"

definition wayBack :: "faults \<Rightarrow> path \<Rightarrow> string \<Rightarrow> bool" where
  "wayBack fl p op \<longleftrightarrow> ft_sync fl \<and> ft_rm fl \<and> (\<forall>q r. ft_rename fl (operationRoot p op @ q) r)"

lemma relativeCandidates_Inr:
  assumes "relativeCandidates p cs = Inr rels" "clean_path p"
  shows "(\<forall>s\<in>set rels. \<exists>rel. s = join ''/'' rel \<and> clean_path rel \<and> rel \<noteq> [] \<and> hd rel \<noteq> JOURNAL_DIR)
    \<and> joinPath p ` set rels = resolvePath p ` set cs"
  using assms
proof (induction cs arbitrary: rels)
  case (Cons c cs)
  then obtain rel rels' where r: "assertUnderRoot p (resolvePath p c) = Inr rel"
      "relativeCandidates p cs = Inr rels'" "rels = join ''/'' rel # rels'"
    by (auto split: sum.splits)
  note rel = assertUnderRoot_Inr [OF r(1)]
  have "clean_path rel" using resolvePath_clean [OF Cons.prems(2), of c] rel(1) by simp
  with Cons.IH [OF r(2) Cons.prems(2)] rel joinPath_rel [of rel p] show ?case by (auto simp: r(3))
qed simp

lemma makeJournal_entries:
  assumes "uuidLike op"
    and "\<forall>s\<in>set rels. \<exists>rel. s = join ''/'' rel \<and> clean_path rel \<and> rel \<noteq> [] \<and> hd rel \<noteq> JOURNAL_DIR"
  shows "\<forall>e\<in>set (dj_entries (makeJournal op now rels gs)). wfEntry p op e"
    and "distinct (map (quarantineOf p) (dj_entries (makeJournal op now rels gs)))"
    and "length (dj_entries (makeJournal op now rels gs)) = length rels"
    and "map je_originalRelative (dj_entries (makeJournal op now rels gs)) = rels"
proof -
  let ?es = "dj_entries (makeJournal op now rels gs)"
  note op = uuidLike_clean [OF assms(1)]
  have es: "?es ! i = \<lparr>je_originalRelative = rels ! i, je_quarantineRelative = quarantineRelative op i\<rparr>"
    "length ?es = length rels" if "i < length rels" for i
    using that by (simp_all add: makeJournal_def nth_enumerate_eq)
  show len: "length ?es = length rels" by (simp add: makeJournal_def)
  show "map je_originalRelative ?es = rels" using es len by (intro nth_equalityI) auto
  show "\<forall>e\<in>set ?es. wfEntry p op e"
  proof
    fix e assume "e \<in> set ?es"
    then obtain i where i: "i < length rels" "e = ?es ! i" by (metis in_set_conv_nth len)
    then have "rels ! i \<in> set rels" by simp
    with assms(2) obtain rel where "rels ! i = join ''/'' rel" "clean_path rel" "rel \<noteq> []" "hd rel \<noteq> JOURNAL_DIR"
      by blast
    with i es show "wfEntry p op e"
      by (auto simp: wfEntry_def joinPath_rel quarantine_path [OF op])
  qed
  have "map (quarantineOf p) ?es = map (\<lambda>i. operationRoot p op @ [''files'', pad 8 (int i)]) [0..<length rels]"
    using es len by (intro nth_equalityI) (auto simp: quarantineOf_def quarantine_path [OF op])
  then show "distinct (map (quarantineOf p) ?es)"
    by (auto simp: distinct_map inj_on_def dest: pad_inject)
qed

lemma fresh_quarantine: "\<not> pathExists (operationRoot p op) d \<Longrightarrow> wfEntry p op e \<Longrightarrow> \<not> pathExists (quarantineOf p e) d"
  by (auto simp: pathExists_iff wfEntry_def quarantineOf_def prefix_def)

definition storeJournal :: "deletionJournal \<Rightarrow> disk \<Rightarrow> disk" where
  "storeJournal j d = d\<lparr>dk_operations :=
     (dj_operationId j, Some (JournalFile (int (length (journalText j)) + 1) (Some j))) # dk_operations d\<rparr>"

lemma storeJournal_files [simp]: "dk_files (storeJournal j d) = dk_files d"
  by (simp add: storeJournal_def)

lemma pathExists_store [simp]: "pathExists p (storeJournal j d) = pathExists p d"
  by (simp add: pathExists_def)

lemma filter_other_op: "op \<notin> fst ` set ops \<Longrightarrow> filter (\<lambda>x. fst x \<noteq> op) ops = ops"
  by (induction ops) auto

lemma writeDurableJournal_fresh:
  assumes "freshOp p (dj_operationId j) d" "ft_sync fl"
  shows "writeDurableJournal fl j d = (Inr (), storeJournal j d)"
proof -
  have "map_of (dk_operations d) (dj_operationId j) = None"
    using assms(1) by (simp add: freshOp_def map_of_eq_None_iff)
  with assms show ?thesis
    by (simp add: writeDurableJournal_def storeJournal_def freshOp_def filter_other_op)
qed

lemma removeOperation_store:
  assumes "freshOp p (dj_operationId j) d"
  shows "removeOperation p (dj_operationId j) (storeJournal j d) = d"
proof -
  have "filter (\<lambda>f. \<not> prefix (operationRoot p (dj_operationId j)) (fst f)) (dk_files d) = dk_files d"
    using assms by (auto simp: freshOp_def pathExists_iff filter_id_conv)
  with assms show ?thesis
    by (simp add: removeOperation_def storeJournal_def freshOp_def filter_other_op)
qed

text \<open>A journal that \<open>stageFileDeletion\<close> writes, and its restoration after any beginning of the moves.\<close>

definition stagedJournal :: "path \<Rightarrow> string \<Rightarrow> deletionJournal \<Rightarrow> bool" where
  "stagedJournal p op j \<longleftrightarrow> (\<exists>now cs gs rels. clean_path p \<and> uuidLike op
     \<and> relativeCandidates p cs = Inr rels \<and> j = makeJournal op now (js_uniq rels) gs)"

lemma stagedJournal_entries:
  assumes "stagedJournal p op j"
  shows "\<forall>e\<in>set (dj_entries j). wfEntry p op e" "distinct (map (quarantineOf p) (dj_entries j))"
    and "dj_operationId j = op"
proof -
  from assms obtain now cs gs rels where s: "clean_path p" "uuidLike op"
      "relativeCandidates p cs = Inr rels" "j = makeJournal op now (js_uniq rels) gs"
    unfolding stagedJournal_def by blast
  have "\<forall>s\<in>set (js_uniq rels). \<exists>rel. s = join ''/'' rel \<and> clean_path rel \<and> rel \<noteq> [] \<and> hd rel \<noteq> JOURNAL_DIR"
    using relativeCandidates_Inr [OF s(3,1)] by simp
  from makeJournal_entries [OF s(2) this] s(4)
  show "\<forall>e\<in>set (dj_entries j). wfEntry p op e" "distinct (map (quarantineOf p) (dj_entries j))"
    "dj_operationId j = op" by (auto simp: makeJournal_def)
qed

lemma restoreJournal_staged:
  assumes "stagedJournal p op j" "freshOp p op d" "wayBack fl p op"
  shows "restoreJournal fl p j (snd (stageLoop fs p (take k (dj_entries j)) (storeJournal j d))) = (Inr (), d)"
proof -
  note entries = stagedJournal_entries [OF assms(1)]
  have "\<forall>e\<in>set (dj_entries j). \<not> pathExists (quarantineOf p e) (storeJournal j d)"
    using entries(1) assms(2) fresh_quarantine by (auto simp: freshOp_def)
  moreover have "\<forall>e\<in>set (dj_entries j). ft_rename fl (quarantineOf p e) (joinPath p (je_originalRelative e))"
    using entries(1) assms(3) by (auto simp: wayBack_def wfEntry_def quarantineOf_def)
  ultimately have "restoreLoop fl p (rev (dj_entries j))
      (snd (stageLoop fs p (take k (dj_entries j)) (storeJournal j d))) = (0, storeJournal j d)"
    using restore_stage entries(1,2) by blast
  moreover have "removeOperation p (dj_operationId j) (storeJournal j d) = d"
    using removeOperation_store [of p j d] assms(2) entries(3) by simp
  ultimately show ?thesis using assms(3) by (simp add: restoreJournal_def wayBack_def)
qed

text \<open>What \<open>stageFileDeletion\<close> does, case by case.\<close>

lemma stage_cases:
  assumes "clean_path p" "freshOp p op d" "wayBack fl p op"
  obtains (bad) e where "stageFileDeletion fl p op now cs gs d = (Inl e, d)"
    | (staged) j st where "stagedJournal p op j" "dj_guards j = gs"
        "stageFileDeletion fl p op now cs gs d =
           (Inr st, snd (stageLoop fl p (dj_entries j) (storeJournal j d)))"
        "sd_journal st = j" "snd (snd (fst (stageLoop fl p (dj_entries j) (storeJournal j d))))"
        "joinPath p ` je_originalRelative ` set (dj_entries j) = resolvePath p ` set cs"
proof (cases "relativeCandidates p cs")
  case (Inl e)
  then show thesis by (intro bad) (simp add: stageFileDeletion_def stageUntil_def turnsUntil_def)
next
  case (Inr rels)
  let ?j = "makeJournal op now (js_uniq rels) gs"
  have uuid: "uuidLike op" using assms(2) by (simp add: freshOp_def)
  have sj: "stagedJournal p op ?j" unfolding stagedJournal_def using assms(1) uuid Inr by blast
  have op: "dj_operationId ?j = op" by (simp add: makeJournal_def)
  have w: "writeDurableJournal fl ?j d = (Inr (), storeJournal ?j d)"
    using writeDurableJournal_fresh [of p ?j d fl] assms(2,3) op by (simp add: wayBack_def)
  obtain moved missing ok d2 where l: "stageLoop fl p (dj_entries ?j) (storeJournal ?j d) = ((moved, missing, ok), d2)"
    by (metis prod.exhaust)
  have rels: "\<forall>s\<in>set (js_uniq rels). \<exists>rel. s = join ''/'' rel \<and> clean_path rel \<and> rel \<noteq> [] \<and> hd rel \<noteq> JOURNAL_DIR"
    "joinPath p ` set (js_uniq rels) = resolvePath p ` set cs"
    using relativeCandidates_Inr [OF Inr assms(1)] by simp_all
  show thesis
  proof (cases ok)
    case True
    have "je_originalRelative ` set (dj_entries ?j) = set (js_uniq rels)"
      using makeJournal_entries(4) [OF uuid rels(1), of now gs] by (metis list.set_map)
    moreover have "stageFileDeletion fl p op now cs gs d =
        (Inr \<lparr>sd_journal = ?j, sd_movedFiles = moved, sd_missingFiles = missing\<rparr>, d2)"
      using True w l assms(3) by (simp add: stageFileDeletion_def stageUntil_def turnsUntil_def Inr Let_def wayBack_def)
    moreover have "dj_guards ?j = gs" by (simp add: makeJournal_def)
    ultimately show thesis using True rels(2) l 
      by (intro staged [OF sj, where st = "\<lparr>sd_journal = ?j, sd_movedFiles = moved, sd_missingFiles = missing\<rparr>"])
        simp_all
  next
    case False
    have "restoreJournal fl p ?j d2 = (Inr (), d)"
      using restoreJournal_staged [OF sj assms(2,3), of fl "length (dj_entries ?j)"] l by simp
    with False show thesis
      using w l by (intro bad) (simp add: stageFileDeletion_def stageUntil_def turnsUntil_def Inr Let_def)
  qed
qed

subsection \<open>What a commit removes\<close>

lemma renamePath_live:
  assumes "prefix r q"
  shows "filter (\<lambda>f. \<not> prefix r (fst f)) (dk_files (renamePath p q d))
    = filter (\<lambda>f. \<not> prefix p (fst f) \<and> \<not> prefix r (fst f)) (dk_files d)"
proof -
  have "prefix r (q @ s)" for s using assms by (auto simp: prefix_def)
  then have "filter (\<lambda>f. \<not> prefix r (fst f))
      (map (\<lambda>(a, c). (if prefix p a then q @ drop (length p) a else a, c)) fs)
    = filter (\<lambda>f. \<not> prefix p (fst f) \<and> \<not> prefix r (fst f)) fs" for fs :: "(path \<times> string) list"
    by (induction fs) (auto split: if_splits)
  then show ?thesis by (simp add: renamePath_def)
qed

lemma stageLoop_live:
  assumes "\<forall>e\<in>set es. wfEntry p op e" "snd (snd (fst (stageLoop fl p es d)))"
  shows "filter (\<lambda>f. \<not> prefix (operationRoot p op) (fst f)) (dk_files (snd (stageLoop fl p es d)))
    = filter (\<lambda>f. (\<forall>e\<in>set es. \<not> prefix (joinPath p (je_originalRelative e)) (fst f))
        \<and> \<not> prefix (operationRoot p op) (fst f)) (dk_files d)
    \<and> dk_operations (snd (stageLoop fl p es d)) = dk_operations d"
  using assms
proof (induction es arbitrary: d)
  case (Cons e es)
  let ?O = "joinPath p (je_originalRelative e)" and ?Q = "joinPath p (je_quarantineRelative e)"
  have q: "prefix (operationRoot p op) ?Q" using Cons.prems(1) by (auto simp: wfEntry_def)
  show ?case
  proof (cases "pathExists ?O d")
    case True
    with Cons.prems have ok: "ft_rename fl ?O ?Q" by (auto simp: Let_def split_beta split: if_splits)
    let ?d = "renamePath ?O ?Q d"
    have "snd (stageLoop fl p (e # es) d) = snd (stageLoop fl p es ?d)"
      "snd (snd (fst (stageLoop fl p es ?d)))"
      using True ok Cons.prems(2) by (simp_all add: Let_def split_beta)
    moreover have "filter (\<lambda>f. (\<forall>e\<in>set es. \<not> prefix (joinPath p (je_originalRelative e)) (fst f))
        \<and> \<not> prefix (operationRoot p op) (fst f)) (dk_files ?d)
      = filter (\<lambda>f. (\<forall>e\<in>set (e # es). \<not> prefix (joinPath p (je_originalRelative e)) (fst f))
        \<and> \<not> prefix (operationRoot p op) (fst f)) (dk_files d)"
      using arg_cong [OF renamePath_live [OF q, of ?O d],
          of "filter (\<lambda>f. \<forall>e\<in>set es. \<not> prefix (joinPath p (je_originalRelative e)) (fst f))"]
      by (simp add: conj_commute conj_left_commute)
    ultimately show ?thesis using Cons.IH [of ?d] Cons.prems(1) by simp
  next
    case False
    then have none: "\<not> prefix ?O (fst f)" if "f \<in> set (dk_files d)" for f
      using that pathExists_file by blast
    have "snd (stageLoop fl p (e # es) d) = snd (stageLoop fl p es d)"
      "snd (snd (fst (stageLoop fl p es d)))"
      using False Cons.prems(2) by (simp_all add: Let_def split_beta)
    with Cons.IH [of d] Cons.prems(1) none show ?thesis by (simp cong: filter_cong)
  qed
qed simp

lemma stage_result:
  assumes "clean_path p" "freshOp p op d" "wayBack fl p op"
  shows "stageFileDeletion fl p op now cs gs d = (Inl e, d') \<Longrightarrow> d' = d"
    and "stageFileDeletion fl p op now cs gs d = (Inr st, d') \<Longrightarrow> rollback fl p st d' = (Inr (), d)"
proof -
  have "case stageFileDeletion fl p op now cs gs d of
      (Inl e, d') \<Rightarrow> d' = d | (Inr st, d') \<Rightarrow> rollback fl p st d' = (Inr (), d)"
    using assms
  proof (rule stage_cases [where now = now and cs = cs and gs = gs])
    fix j st
    assume "stagedJournal p op j" "sd_journal st = j" "stageFileDeletion fl p op now cs gs d =
           (Inr st, snd (stageLoop fl p (dj_entries j) (storeJournal j d)))"
    then show ?thesis
      using restoreJournal_staged [OF _ assms(2,3), of j fl "length (dj_entries j)"] by (simp add: rollback_def)
  qed simp
  then show "stageFileDeletion fl p op now cs gs d = (Inl e, d') \<Longrightarrow> d' = d"
    and "stageFileDeletion fl p op now cs gs d = (Inr st, d') \<Longrightarrow> rollback fl p st d' = (Inr (), d)"
    by auto
qed

lemma commit_staged:
  assumes "clean_path p" "freshOp p op d" "wayBack fl p op"
    and "stageFileDeletion fl p op now cs gs d = (Inr st, d1)"
  shows "commit fl p st d1 = (False,
    d\<lparr>dk_files := filter (\<lambda>f. \<forall>c\<in>set cs. \<not> prefix (resolvePath p c) (fst f)) (dk_files d)\<rparr>)"
  using assms(1-3)
proof (rule stage_cases [where now = now and cs = cs and gs = gs])
  fix j st'
  let ?s = "stageLoop fl p (dj_entries j) (storeJournal j d)"
  assume j: "stagedJournal p op j" "stageFileDeletion fl p op now cs gs d = (Inr st', snd ?s)"
    "sd_journal st' = j" "snd (snd (fst ?s))"
    and names: "joinPath p ` je_originalRelative ` set (dj_entries j) = resolvePath p ` set cs"
  have st: "st' = st" "snd ?s = d1" using j(2) assms(4) by simp_all
  have fresh: "\<not> prefix (operationRoot p op) (fst f)" if "f \<in> set (dk_files d)" for f
    using that assms(2) pathExists_file unfolding freshOp_def by blast
  have same: "(\<forall>e\<in>set (dj_entries j). \<not> prefix (joinPath p (je_originalRelative e)) x)
      \<longleftrightarrow> (\<forall>c\<in>set cs. \<not> prefix (resolvePath p c) x)" for x
  proof -
    have "(\<forall>y\<in>joinPath p ` je_originalRelative ` set (dj_entries j). \<not> prefix y x)
        \<longleftrightarrow> (\<forall>y\<in>resolvePath p ` set cs. \<not> prefix y x)"
      unfolding names ..
    then show ?thesis by simp
  qed
  have "filter (\<lambda>f. \<not> prefix (operationRoot p op) (fst f)) (dk_files d1)
      = filter (\<lambda>f. \<forall>c\<in>set cs. \<not> prefix (resolvePath p c) (fst f)) (dk_files d)"
    "dk_operations d1 = dk_operations (storeJournal j d)"
    using stageLoop_live [OF stagedJournal_entries(1) [OF j(1)] j(4)] st(2) fresh
    by (simp_all add: same cong: filter_cong)
  moreover have "op \<notin> fst ` set (dk_operations d)" using assms(2) by (simp add: freshOp_def)
  ultimately show ?thesis
    using assms(3) stagedJournal_entries(3) [OF j(1)] j(3)
    by (simp add: commit_def cleanupCommittedJournal_def removeOperation_def wayBack_def st(1)
        storeJournal_def filter_other_op)
qed (use assms(4) in simp)

section \<open>The interface\<close>

text \<open>
  What a caller may rely on: staging that fails changes nothing, a staged deletion can be taken back
  exactly, and committing it leaves exactly the disk \<open>after\<close>.
\<close>

locale staged_deletion =
  fixes stage :: "'d \<Rightarrow> ('e, 'st) result \<times> 'd" and commitOp :: "'st \<Rightarrow> 'd \<Rightarrow> bool \<times> 'd"
    and rollbackOp :: "'st \<Rightarrow> 'd \<Rightarrow> ('e, unit) result \<times> 'd" and after :: "'d \<Rightarrow> 'd" and ready :: "'d \<Rightarrow> bool"
  assumes stage_fail: "ready d \<Longrightarrow> stage d = (Inl e, d') \<Longrightarrow> d' = d"
    and stage_rollback: "ready d \<Longrightarrow> stage d = (Inr st, d') \<Longrightarrow> rollbackOp st d' = (Inr (), d)"
    and stage_commit: "ready d \<Longrightarrow> stage d = (Inr st, d') \<Longrightarrow> commitOp st d' = (False, after d)"
begin

text \<open>A transaction around a staged deletion: the disk is as before or exactly as asked for.\<close>

lemma transaction:
  assumes "ready d"
  obtains (failed) e where "stage d = (Inl e, d)"
    | (staged) st d' where "stage d = (Inr st, d')" "rollbackOp st d' = (Inr (), d)" "commitOp st d' = (False, after d)"
proof (cases "stage d")
  case (Pair r d')
  show thesis
  proof (cases r)
    case (Inl e)
    with Pair stage_fail [OF assms] show thesis by (intro failed [of e]) simp
  next
    case (Inr st)
    with Pair stage_rollback [OF assms] stage_commit [OF assms] show thesis by (intro staged [of st d']) simp_all
  qed
qed

end

definition filesRemoved :: "path \<Rightarrow> string list \<Rightarrow> disk \<Rightarrow> disk" where
  "filesRemoved p cs d =
     d\<lparr>dk_files := filter (\<lambda>f. \<forall>c\<in>set cs. \<not> prefix (resolvePath p c) (fst f)) (dk_files d)\<rparr>"

definition stagingReady :: "faults \<Rightarrow> path \<Rightarrow> string \<Rightarrow> disk \<Rightarrow> bool" where
  "stagingReady fl p op d \<longleftrightarrow> clean_path p \<and> freshOp p op d \<and> wayBack fl p op"

interpretation fd: staged_deletion "stageFileDeletion fl p op now cs gs" "commit fl p" "rollback fl p"
    "filesRemoved p cs" "stagingReady fl p op" for fl p op now cs gs
proof
  fix d e d'
  assume "stagingReady fl p op d" "stageFileDeletion fl p op now cs gs d = (Inl e, d')"
  then show "d' = d" using stage_result(1) unfolding stagingReady_def by blast
next
  fix d st d'
  assume r: "stagingReady fl p op d" and s: "stageFileDeletion fl p op now cs gs d = (Inr st, d')"
  then show "rollback fl p st d' = (Inr (), d)" using stage_result(2) unfolding stagingReady_def by blast
  from r s show "commit fl p st d' = (False, filesRemoved p cs d)"
    using commit_staged unfolding stagingReady_def filesRemoved_def by blast
qed

subsection \<open>The recovery accepts what the staging wrote\<close>

lemma first_error_ok: "(\<forall>x\<in>set xs. f x = Inr ()) \<Longrightarrow> first_error f xs = Inr ()"
  by (induction xs) auto

lemma first_error_Inr: "first_error f xs = Inr u \<Longrightarrow> x \<in> set xs \<Longrightarrow> isOk (f x)"
  by (induction xs) (auto split: sum.splits)

definition withinLimits :: "deletionJournal \<Rightarrow> bool" where
  "withinLimits j \<longleftrightarrow> int (length (dj_entries j)) \<le> 100000 \<and> int (length (dj_guards j)) \<le> 100000
     \<and> (\<forall>g\<in>set (dj_guards j). dg_id g \<noteq> [] \<and> length (dg_id g) \<le> 256)
     \<and> int (length (journalText j)) < 1000000"

lemma validateJournal_staged:
  assumes "stagedJournal p op j" "withinLimits j"
  shows "validateJournal p op j = Inr ()"
proof -
  from assms(1) obtain now cs gs rels where s: "clean_path p" "uuidLike op"
      "relativeCandidates p cs = Inr rels" "j = makeJournal op now (js_uniq rels) gs"
    unfolding stagedJournal_def by blast
  note op = uuidLike_clean [OF s(2)]
  have rels: "\<forall>s\<in>set rels. \<exists>rel. s = join ''/'' rel \<and> clean_path rel \<and> rel \<noteq> [] \<and> hd rel \<noteq> JOURNAL_DIR"
    using relativeCandidates_Inr [OF s(3,1)] by simp
  have "validateEntry p op e = Inr ()" if e: "e \<in> set (dj_entries j)" for e
  proof -
    from e s(4) obtain i where "je_originalRelative e \<in> set rels" and q: "je_quarantineRelative e = quarantineRelative op i"
      by (auto simp: makeJournal_def in_set_enumerate_eq) (metis nth_mem set_js_uniq)
    with rels obtain rel where rel: "je_originalRelative e = join ''/'' rel" "clean_path rel" "rel \<noteq> []"
      "hd rel \<noteq> JOURNAL_DIR" by blast
    have "clean (hd rel)" using rel(2,3) by (cases rel) auto
    moreover have "\<not> isAbsolute (je_quarantineRelative e)"
      using q join_relative [of "[JOURNAL_DIR, op, ''files'', pad 8 (int i)]"] op pad_clean
      by (auto simp: quarantineRelative_def clean_def [of "''files''"])
    ultimately show ?thesis
      using rel q join_relative [OF rel(2,3)]
      by (simp add: validateEntry_def joinPath_rel assertUnderRoot_ok resolvePath_def quarantine_path [OF op]
          operationRoot_def)
  qed
  moreover have "validateGuard g = Inr ()" if "g \<in> set (dj_guards j)" for g
    using that assms(2) by (auto simp: withinLimits_def validateGuard_def)
  ultimately show ?thesis
    using assms(2) s(2,4) stagedJournal_entries(3) [OF assms(1)]
    by (simp add: validateJournal_def withinLimits_def first_error_ok makeJournal_def)
qed

subsection \<open>A crash while the files are moved\<close>

lemma stageLoop_operations: "dk_operations (snd (stageLoop fl p es d)) = dk_operations d"
  by (induction fl p es d rule: stageLoop.induct) (auto simp: Let_def split_beta)

text \<open>A crash after the journal leaves the disk after some turns of the loop; none when \<open>fsync\<close> failed.\<close>

lemma stage_crash:
  assumes "freshOp p op d" "relativeCandidates p cs = Inr rels"
  obtains k' where "snd (stageUntil (Some (AfterTurns k)) fs p op now cs gs d)
    = snd (stageLoop fs p (take k' (dj_entries (makeJournal op now (js_uniq rels) gs)))
        (storeJournal (makeJournal op now (js_uniq rels) gs) d))"
    and "ft_sync fs \<Longrightarrow> k' = k"
proof -
  let ?j = "makeJournal op now (js_uniq rels) gs"
  have "map_of (dk_operations d) op = None" "filter (\<lambda>x. fst x \<noteq> op) (dk_operations d) = dk_operations d"
    using assms(1) by (simp_all add: freshOp_def map_of_eq_None_iff filter_other_op)
  then have "writeDurableJournal fs ?j d = (if ft_sync fs then Inr () else Inl SyncFailed, storeJournal ?j d)"
    by (simp add: writeDurableJournal_def storeJournal_def makeJournal_def Let_def)
  then show ?thesis
    using that [of "if ft_sync fs then k else 0"] by (simp add: stageUntil_def turnsUntil_def assms(2) Let_def split_beta)
qed

lemma recover_crashed:
  assumes "stagedJournal p op j" "freshOp p op d" "wayBack fl p op" "dk_operations d = []" "withinLimits j"
    and "dj_guards j = gs" "g \<in> set gs" "guardExists g"
  shows "recoverPendingFileDeletions fl p guardExists
      (snd (stageLoop fs p (take k (dj_entries j)) (storeJournal j d)))
    = (\<lparr>rv_scanned = 1, rv_restored = 1, rv_cleaned = 0, rv_failed = 0\<rparr>, d)"
proof -
  let ?d = "snd (stageLoop fs p (take k (dj_entries j)) (storeJournal j d))"
  have op: "dj_operationId j = op" using stagedJournal_entries(3) [OF assms(1)] .
  have "dk_operations ?d = [(op, Some (JournalFile (int (length (journalText j)) + 1) (Some j)))]"
    using assms(4) by (simp add: stageLoop_operations storeJournal_def op)
  moreover have "list_ex guardExists (dj_guards j)" using assms(6-8) by (auto simp: list_ex_iff)
  moreover have "\<not> 1000000 < int (length (journalText j)) + 1" using assms(5) by (simp add: withinLimits_def)
  ultimately have "recoverLoop fl p guardExists (dk_operations ?d) ?d = ([Restored], d)"
    using validateJournal_staged [OF assms(1,5)] restoreJournal_staged [OF assms(1-3), of fs k] op
    by (simp add: recoverOne_def)
  then show ?thesis by (simp add: recoverPendingFileDeletions_def)
qed

subsection \<open>The recovery touches nothing else\<close>

text \<open>What a step of the recovery may do to the files, whatever is in the journal directory.\<close>

definition confined :: "path \<Rightarrow> disk \<Rightarrow> disk \<Rightarrow> bool" where
  "confined p d d' \<longleftrightarrow>
     (\<forall>f\<in>set (dk_files d). \<not> prefix (p @ [JOURNAL_DIR]) (fst f) \<longrightarrow> f \<in> set (dk_files d'))
     \<and> (\<forall>f\<in>set (dk_files d'). \<not> prefix p (fst f) \<longrightarrow> f \<in> set (dk_files d))"

lemma confined_refl: "confined p d d"
  by (simp add: confined_def)

lemma confined_trans: "confined p d d1 \<Longrightarrow> confined p d1 d2 \<Longrightarrow> confined p d d2"
  unfolding confined_def by blast

lemma confined_rename: "confined p d (renamePath (p @ JOURNAL_DIR # q) (p @ r) d)"
proof -
  have "\<not> prefix (p @ [JOURNAL_DIR]) a \<Longrightarrow> \<not> prefix (p @ JOURNAL_DIR # q) a" for a
    by (auto simp: prefix_def)
  moreover have "(a, c) \<in> set (dk_files (renamePath (p @ JOURNAL_DIR # q) (p @ r) d))"
    if "(a, c) \<in> set (dk_files d)" "\<not> prefix (p @ JOURNAL_DIR # q) a" for a c
    using that by (auto simp: renamePath_def intro: rev_image_eqI)
  moreover have "(a, c) \<in> set (dk_files d)"
    if "(a, c) \<in> set (dk_files (renamePath (p @ JOURNAL_DIR # q) (p @ r) d))" "\<not> prefix p a" for a c
    using that by (auto simp: renamePath_def split: if_splits)
  ultimately show ?thesis unfolding confined_def by auto
qed

lemma confined_remove: "confined p d (removeOperation p op d)"
  by (auto simp: confined_def removeOperation_def operationRoot_def prefix_def)

lemma validateEntry_paths:
  assumes "validateEntry p op e = Inr u"
  obtains q r where "joinPath p (je_quarantineRelative e) = p @ JOURNAL_DIR # q"
    "joinPath p (je_originalRelative e) = p @ r"
proof -
  let ?q = "joinPath p (je_quarantineRelative e)"
  from assms obtain rel where rel: "assertUnderRoot p (joinPath p (je_originalRelative e)) = Inr rel"
    and q: "prefix [JOURNAL_DIR, op, ''files''] (relativePath p ?q)"
    by (auto simp: validateEntry_def resolvePath_def split: if_splits sum.splits)
  then obtain s where "relativePath p ?q = JOURNAL_DIR # s" by (auto simp: prefix_def)
  moreover have "JOURNAL_DIR \<noteq> ''..''" by (simp add: JOURNAL_DIR_def)
  ultimately show thesis using that relativePath_under assertUnderRoot_Inr(1) [OF rel] by blast
qed

lemma restoreLoop_confined:
  "\<forall>e\<in>set es. isOk (validateEntry p op e) \<Longrightarrow> confined p d (snd (restoreLoop fl p es d))"
proof (induction es arbitrary: d)
  case (Cons e es)
  from Cons.prems obtain u where "validateEntry p op e = Inr u" by (auto elim: isOk.elims)
  then obtain q r where e: "joinPath p (je_quarantineRelative e) = p @ JOURNAL_DIR # q"
      "joinPath p (je_originalRelative e) = p @ r"
    by (rule validateEntry_paths)
  have IH: "confined p d' (snd (restoreLoop fl p es d'))" for d' using Cons by simp
  have "confined p d (snd (restoreLoop fl p es (renamePath (p @ JOURNAL_DIR # q) (p @ r) d)))"
    by (rule confined_trans [OF confined_rename IH])
  with IH [of d] show ?case by (simp add: e Let_def)
qed (simp add: confined_refl)

lemma recoverOne_confined: "confined p d (snd (recoverOne fl p ge dir d))"
proof -
  have "confined p d (snd (restoreJournal fl p j d))" if "validateJournal p op j = Inr u" for op j u
  proof -
    from that have "first_error (validateEntry p (dj_operationId j)) (dj_entries j) = Inr ()"
      by (auto simp: validateJournal_def split: if_splits sum.splits)
    then have "confined p d (snd (restoreLoop fl p (rev (dj_entries j)) d))"
      by (intro restoreLoop_confined) (auto dest: first_error_Inr)
    then show ?thesis
      using confined_trans [OF _ confined_remove] by (auto simp: restoreJournal_def split_beta Let_def)
  qed
  then have "confined p d (snd (recoverOne fl p ge (op, Some (JournalFile n (Some j))) d))" for op n j
    using confined_remove [of p d "dj_operationId j"]
    by (cases "validateJournal p op j"; cases "restoreJournal fl p j d")
       (fastforce simp: recoverOne_def cleanupCommittedJournal_def confined_refl split: sum.split)+
  moreover have "confined p d (snd (recoverOne fl p ge (op, jf) d))"
    if "\<And>n j. jf \<noteq> Some (JournalFile n (Some j))" for op jf
    using that by (simp add: recoverOne_def confined_refl split: option.split journalFile.split)
  ultimately show ?thesis by (metis surj_pair)
qed

lemma recoverLoop_confined: "confined p d (snd (recoverLoop fl p ge dirs d))"
  by (induction dirs arbitrary: d)
     (auto simp: Let_def split_beta confined_refl intro: confined_trans [OF recoverOne_confined])

subsection \<open>The size of a journal\<close>

lemma json_string_length: "length s + 2 \<le> length (json_string s)"
proof -
  have "1 \<le> length (json_char c)" for c by (simp add: json_char_def Let_def)
  then have "length s \<le> length (concat (map json_char s))"
    by (induction s) (auto intro: add_mono [where a = "Suc 0", simplified])
  then show ?thesis by (simp add: json_string_def)
qed

lemma join_length: "sum_list (map length ss) \<le> length (join d ss)"
  by (induction d ss rule: join.induct) auto

lemma entryText_length: "47 + length (je_quarantineRelative e) \<le> length (entryText e)"
proof -
  have "length (json_string ''originalRelative'') + length (json_string ''quarantineRelative'') = 38"
    by code_simp
  then show ?thesis
    using json_string_length [of "je_originalRelative e"] json_string_length [of "je_quarantineRelative e"]
    by (simp add: entryText_def json_object_def json_field_def)
qed

lemma quarantineRelative_length: "length op = 36 \<Longrightarrow> 72 \<le> length (quarantineRelative op i)"
  by (simp add: quarantineRelative_def JOURNAL_DIR_def pad_def Let_def)

lemma journalText_length:
  assumes "length op = 36"
  shows "119 * length rels \<le> length (journalText (makeJournal op now rels gs))"
proof -
  let ?es = "dj_entries (makeJournal op now rels gs)"
  have "119 \<le> length (entryText e)" if "e \<in> set ?es" for e
  proof -
    from that obtain i where "je_quarantineRelative e = quarantineRelative op i"
      by (auto simp: makeJournal_def)
    then show ?thesis using entryText_length [of e] quarantineRelative_length [OF assms, of i] by simp
  qed
  then have "sum_list (map (\<lambda>_. 119) ?es) \<le> sum_list (map length (map entryText ?es))"
    unfolding map_map o_def by (intro sum_list_mono) simp
  also have "\<dots> \<le> length (json_array (map entryText ?es))"
    using join_length [of "map entryText ?es" "'',''"] by (simp add: json_array_def)
  also have "\<dots> \<le> length (journalText (makeJournal op now rels gs))"
    by (simp add: journalText_def json_object_def json_field_def)
  finally have "119 * length ?es \<le> length (journalText (makeJournal op now rels gs))"
    by (simp add: sum_list_triv mult.commute)
  moreover have "length ?es = length rels" by (simp add: makeJournal_def)
  ultimately show ?thesis by simp
qed

section \<open>A small disk\<close>

definition exampleOp :: string where
  "exampleOp = ''0123abcd-0000-4000-8000-000000000001''"

definition exampleFaults :: faults where
  "exampleFaults = \<lparr>ft_rename = (\<lambda>_ _. True), ft_sync = True, ft_rm = True\<rparr>"

definition exampleDisk :: disk where
  "exampleDisk = \<lparr>dk_files = [([''r'', ''a.mp4''], ''A''), ([''r'', ''b'', ''c.jpg''], ''C''), ([''r'', ''d.mp4''], ''D'')],
     dk_operations = []\<rparr>"

definition exampleCandidates :: "string list" where
  "exampleCandidates = [''a.mp4'', ''/r/b/c.jpg'', ''missing.mp4'']"

definition exampleGuards :: "deletionGuard list" where
  "exampleGuards = [\<lparr>dg_model = GuardRecording, dg_id = ''rec-1''\<rparr>]"

lemma example_fresh: "freshOp [''r''] exampleOp exampleDisk"
  by code_simp

lemma example_wayBack: "wayBack exampleFaults [''r''] exampleOp"
  by (simp add: wayBack_def exampleFaults_def)

lemma example_clean: "clean_path [''r'']"
  by (simp add: clean_def)

section \<open>Properties\<close>

text \<open>
  Property C10. Staging a deletion is all or nothing. For a new operation, on a disk where the way back from
  quarantine works: when staging fails - a candidate outside the root, a rename refused half-way -
  the disk is exactly as before; when it succeeds, \<open>rollback\<close> makes it exactly as before.
\<close>

theorem staging_all_or_nothing:
  assumes "clean_path p" "freshOp p op d" "wayBack fl p op"
  shows "case stageFileDeletion fl p op now cs gs d of
      (Inl e, d') \<Rightarrow> d' = d
    | (Inr st, d') \<Rightarrow> rollback fl p st d' = (Inr (), d)"
  using fd.stage_fail [of fl p op d now cs gs] fd.stage_rollback [of fl p op d now cs gs] assms
  by (auto simp: stagingReady_def split: prod.splits sum.splits)

theorem staging_all_or_nothing_witness:
  "\<exists>st d'. stageFileDeletion exampleFaults [''r''] exampleOp ''t'' exampleCandidates exampleGuards exampleDisk
      = (Inr st, d') \<and> rollback exampleFaults [''r''] st d' = (Inr (), exampleDisk) \<and> d' \<noteq> exampleDisk"
proof -
  let ?s = "stageFileDeletion exampleFaults [''r''] exampleOp ''t'' exampleCandidates exampleGuards exampleDisk"
  have "isOk (fst ?s) \<and> dk_files (snd ?s) \<noteq> dk_files exampleDisk" by code_simp
  then obtain st d' where s: "?s = (Inr st, d')" "dk_files d' \<noteq> dk_files exampleDisk"
    by (cases ?s) (auto elim: isOk.elims)
  with staging_all_or_nothing [OF example_clean example_fresh example_wayBack,
      of "''t''" exampleCandidates exampleGuards]
  show ?thesis by auto
qed

text \<open>
  A committed deletion removes exactly what was asked for: every file at or under a
  candidate is gone, every other file is there unchanged, and the journal is gone.
\<close>

theorem commit_removes_exactly:
  assumes "clean_path p" "freshOp p op d" "wayBack fl p op"
    and "stageFileDeletion fl p op now cs gs d = (Inr st, d1)"
  shows "commit fl p st d1 = (False,
    d\<lparr>dk_files := filter (\<lambda>f. \<forall>c\<in>set cs. \<not> prefix (resolvePath p c) (fst f)) (dk_files d)\<rparr>)"
  using fd.stage_commit [OF _ assms(4)] assms(1-3) unfolding stagingReady_def filesRemoved_def by blast

theorem commit_removes_exactly_witness:
  "\<exists>st d'. stageFileDeletion exampleFaults [''r''] exampleOp ''t'' exampleCandidates exampleGuards exampleDisk
      = (Inr st, d')
    \<and> commit exampleFaults [''r''] st d'
      = (False, exampleDisk\<lparr>dk_files := [([''r'', ''d.mp4''], ''D'')]\<rparr>)"
proof -
  let ?s = "stageFileDeletion exampleFaults [''r''] exampleOp ''t'' exampleCandidates exampleGuards exampleDisk"
  have "isOk (fst ?s)" by code_simp
  then obtain st d' where s: "?s = (Inr st, d')" by (cases ?s) (auto elim: isOk.elims)
  moreover have "filter (\<lambda>f. \<forall>c\<in>set exampleCandidates. \<not> prefix (resolvePath [''r''] c) (fst f))
      (dk_files exampleDisk) = [([''r'', ''d.mp4''], ''D'')]" by code_simp
  ultimately show ?thesis
    using commit_removes_exactly [OF example_clean example_fresh example_wayBack s] by auto
qed

text \<open>
  Property C4. A crash while a deletion is staged loses nothing. Wherever the process dies - while the
  journal is written, or after any number of turns of the loop that moves the files - and whatever
  renames were refused before that, the recovery at boot leaves every file where it was before the
  operation; and once the journal was written, the recovery finds it and, a row of the operation
  being still in the database, puts the whole disk back exactly as it was. It is assumed that the
  identifier of the operation is new and that no other operation is pending; that the journal is
  within the limits the recovery accepts; and that every rename, \<open>fsync\<close> and \<open>rm\<close> of the
  recovery itself succeeds.
\<close>

theorem crash_recovery_restores:
  assumes "clean_path p" "freshOp p op d" "wayBack fl p op" "dk_operations d = []"
    and "relativeCandidates p cs = Inr rels"
    and "withinLimits (makeJournal op now (js_uniq rels) gs)"
    and "g \<in> set gs" "guardExists g"
  shows "let crashed = snd (stageUntil (Some halt) fs p op now cs gs d);
             (counts, recovered) = recoverPendingFileDeletions fl p guardExists crashed in
      dk_files recovered = dk_files d
    \<and> (\<forall>k. halt = AfterTurns k \<longrightarrow> recovered = d
         \<and> counts = \<lparr>rv_scanned = 1, rv_restored = 1, rv_cleaned = 0, rv_failed = 0\<rparr>)"
proof (cases halt)
  case (InJournal raw)
  then show ?thesis
    by (cases raw) (simp_all add: stageUntil_def turnsUntil_def assms(4,5) recoverPendingFileDeletions_def recoverOne_def Let_def)
next
  case (AfterTurns k)
  let ?j = "makeJournal op now (js_uniq rels) gs"
  have sj: "stagedJournal p op ?j"
    using assms(1,2,5) unfolding stagedJournal_def freshOp_def by blast
  obtain k' where crash: "snd (stageUntil (Some halt) fs p op now cs gs d)
      = snd (stageLoop fs p (take k' (dj_entries ?j)) (storeJournal ?j d))"
    by (rule stage_crash [OF assms(2,5), of k fs now gs]) (simp add: AfterTurns)
  show ?thesis
    using recover_crashed [OF sj assms(2,3,4,6), of gs g guardExists fs k'] assms(7,8)
    by (simp add: crash makeJournal_def)
qed

theorem crash_recovery_restores_witness:
  "recoverPendingFileDeletions exampleFaults [''r''] (\<lambda>g. dg_id g = ''rec-1'')
      (snd (stageUntil (Some (AfterTurns 2)) exampleFaults [''r''] exampleOp ''t'' exampleCandidates exampleGuards exampleDisk))
    = (\<lparr>rv_scanned = 1, rv_restored = 1, rv_cleaned = 0, rv_failed = 0\<rparr>, exampleDisk)
   \<and> dk_files (snd (stageUntil (Some (AfterTurns 2)) exampleFaults [''r''] exampleOp ''t'' exampleCandidates exampleGuards
        exampleDisk)) \<noteq> dk_files exampleDisk"
proof -
  let ?rels = "[''a.mp4'', ''b/c.jpg'', ''missing.mp4'']"
  have "relativeCandidates [''r''] exampleCandidates = Inr ?rels" by code_simp
  moreover have "withinLimits (makeJournal exampleOp ''t'' (js_uniq ?rels) exampleGuards)" by code_simp
  moreover have "dk_files (snd (stageUntil (Some (AfterTurns 2)) exampleFaults [''r''] exampleOp ''t'' exampleCandidates
      exampleGuards exampleDisk)) \<noteq> dk_files exampleDisk" by code_simp
  ultimately show ?thesis
    using crash_recovery_restores [OF example_clean example_fresh example_wayBack, of exampleCandidates ?rels
        "''t''" exampleGuards "hd exampleGuards" "\<lambda>g. dg_id g = ''rec-1''" "AfterTurns 2" exampleFaults]
    by (simp add: exampleGuards_def exampleDisk_def Let_def split_beta prod_eq_iff)
qed

text \<open>
  The recovery is confined, whatever journals it finds - damaged or forged ones included - and
  whatever input and output fail: every file outside the journal directory stays in place with its
  content, and no file appears outside the recordings root.
\<close>

theorem recovery_confined:
  "(\<forall>f\<in>set (dk_files d). \<not> prefix (p @ [JOURNAL_DIR]) (fst f) \<longrightarrow>
        f \<in> set (dk_files (snd (recoverPendingFileDeletions fl p guardExists d))))
   \<and> (\<forall>f\<in>set (dk_files (snd (recoverPendingFileDeletions fl p guardExists d))).
        \<not> prefix p (fst f) \<longrightarrow> f \<in> set (dk_files d))"
  using recoverLoop_confined [of p d fl guardExists "dk_operations d"]
  by (simp add: recoverPendingFileDeletions_def split_beta confined_def)

theorem recovery_confined_witness:
  "([''r'', ''d.mp4''], ''D'') \<in> set (dk_files (snd (recoverPendingFileDeletions exampleFaults [''r''] (\<lambda>_. False)
      (exampleDisk\<lparr>dk_operations := [(''../../etc'', Some (JournalFile 2 None))]\<rparr>))))"
proof -
  have "([''r'', ''d.mp4''], ''D'') \<in> set (dk_files exampleDisk)" by (simp add: exampleDisk_def)
  moreover have "\<not> prefix ([''r''] @ [JOURNAL_DIR]) [''r'', ''d.mp4'']" by (simp add: JOURNAL_DIR_def)
  ultimately show ?thesis
    using recovery_confined [of "exampleDisk\<lparr>dk_operations := [(''../../etc'', Some (JournalFile 2 None))]\<rparr>"
        "[''r'']" exampleFaults "\<lambda>_. False"] by fastforce
qed

text \<open>
  What the recovery cannot do: a deletion of 10000 or more files writes a journal longer than
  the million characters the recovery accepts, so after a crash its journal is rejected and its
  files stay in quarantine, although rows of the operation are still in the database.
\<close>

theorem large_journal_never_recovered:
  assumes "clean_path p" "freshOp p op d"
    and "relativeCandidates p cs = Inr rels" "10000 \<le> length (js_uniq rels)" "dk_operations d = []"
  shows "let crashed = snd (stageUntil (Some (AfterTurns k)) fs p op now cs gs d) in
    recoverPendingFileDeletions fl p guardExists crashed
      = (\<lparr>rv_scanned = 1, rv_restored = 0, rv_cleaned = 0, rv_failed = 1\<rparr>, crashed)"
proof -
  let ?j = "makeJournal op now (js_uniq rels) gs"
  have op: "dj_operationId ?j = op" by (simp add: makeJournal_def)
  obtain k' where crash: "snd (stageUntil (Some (AfterTurns k)) fs p op now cs gs d)
      = snd (stageLoop fs p (take k' (dj_entries ?j)) (storeJournal ?j d))"
    by (rule stage_crash [OF assms(2,3)])
  have "length op = 36" using assms(2) by (simp add: freshOp_def uuidLike_def)
  from journalText_length [OF this, of "js_uniq rels" now gs] assms(4)
  have "1000000 < int (length (journalText ?j)) + 1" by linarith
  then have "recoverOne fl p guardExists (op, Some (JournalFile (int (length (journalText ?j)) + 1) (Some ?j))) d' = (Failed, d')" for d'
    by (simp add: recoverOne_def)
  then show ?thesis
    using assms(5) by (simp add: recoverPendingFileDeletions_def crash stageLoop_operations storeJournal_def op Let_def)
qed

lemma relativeCandidates_names:
  "\<forall>c\<in>set cs. clean c \<and> c \<noteq> JOURNAL_DIR \<and> \<not> isAbsolute c \<Longrightarrow> relativeCandidates p cs = Inr cs"
proof (induction cs)
  case (Cons c cs)
  then have "resolvePath p c = p @ [c]" using joinPath_rel [of "[c]" p] by (simp add: resolvePath_def)
  with Cons show ?case by (simp add: assertUnderRoot_ok)
qed simp

theorem large_journal_never_recovered_witness:
  "let cs = map (\<lambda>i. pad 8 (int i)) [0..<10000];
       crashed = snd (stageUntil (Some (AfterTurns 3)) exampleFaults [''r''] exampleOp ''t'' cs exampleGuards exampleDisk)
   in recoverPendingFileDeletions exampleFaults [''r''] (\<lambda>_. True) crashed
      = (\<lparr>rv_scanned = 1, rv_restored = 0, rv_cleaned = 0, rv_failed = 1\<rparr>, crashed)"
proof -
  let ?cs = "map (\<lambda>i. pad 8 (int i)) [0..<10000]"
  have "\<not> isAbsolute (pad 8 (int i)) \<and> pad 8 (int i) \<noteq> JOURNAL_DIR" for i
  proof -
    have "list_all is_digit (pad 8 (int i))"
      using show_nat_digits by (auto simp: pad_def Let_def list_all_iff is_digit_def)
    then show ?thesis
      by (cases "pad 8 (int i)") (auto simp: isAbsolute_def is_digit_def JOURNAL_DIR_def)
  qed
  then have r: "relativeCandidates [''r''] ?cs = Inr ?cs"
    by (intro relativeCandidates_names) (auto simp: pad_clean)
  have "distinct ?cs" by (auto simp: distinct_map inj_on_def dest: pad_inject)
  then have "js_uniq ?cs = ?cs" by simp
  with large_journal_never_recovered [OF example_clean example_fresh r] show ?thesis
    by (simp add: exampleDisk_def)
qed

end
