(* ===== verification/Retention.thy ===== *)
theory Retention
  imports Env_Config File_Deletion
begin

text \<open>
  Retention of recordings: legal holds, expiry by age in pages, the two-tier policy, orphaned
  derived files and the disk guardian (\<open>apps/api/src/recordings/retention.service.ts\<close>), on top of
  the transactional deletion of rows and files (\<open>File_Deletion\<close>).

  \<^item> The database is the record \<open>retDb\<close> of its tables. Each table is listed in the order in which
    the queries of this service ask for it: recordings and clips by start and identifier, the items
    of investigations with the newest first. A query is a filter with \<open>drop\<close> and \<open>take\<close>.
  \<^item> \<open>platform\<close> holds what the service gets from outside: the root directory, \<open>realpath\<close>,
    \<open>randomUUID\<close>, \<open>statfs\<close> and the faults of the database and of the file system.
  \<^item> Days are whole numbers and instants are milliseconds. Environment variables are a function from
    names to texts, read with \<open>Env_Config\<close>.
  \<^item> Log messages, empty directories and the pruning of the diagnostics cache are left out.
\<close>

section \<open>Data\<close>

datatype json = JNull | JBool bool | JNum rat | JStr string | JArr "json list" | JObj "(string \<times> json) list"

record recordingRow =
  rr_id :: string
  rr_cameraId :: string
  rr_filePath :: string
  rr_startedAt :: int
  rr_sizeBytes :: "int option"
  rr_motionScore :: int

record clipRow =
  cl_id :: string
  cl_sourceRecordingId :: string
  cl_filePath :: string
  cl_startedAt :: int

record eventRow =
  ev_id :: string
  ev_occurredAt :: int

record itemRow =
  it_investigationId :: string
  it_type :: string
  it_recordingId :: "string option"
  it_eventId :: "string option"
  it_metadata :: "json option"

record retDb =
  db_cameras :: "(string \<times> int option) list"
  db_recordings :: "recordingRow list"
  db_clips :: "clipRow list"
  db_events :: "eventRow list"
  db_items :: "itemRow list"

record protectionSets =
  ps_recordingIds :: "string list"
  ps_clipIds :: "string list"
  ps_eventIds :: "string list"

record cleanupResult =
  cr_skipped :: bool
  cr_recordingsDeleted :: nat
  cr_clipsDeleted :: nat
  cr_eventsDeleted :: nat
  cr_orphanThumbnailsDeleted :: nat
  cr_orphanCompatibleFilesDeleted :: nat
  cr_recordingsWouldDelete :: nat
  cr_wouldFreeBytes :: int
  cr_motionRetained :: nat

record retState =
  st_db :: retDb
  st_disk :: disk
  st_result :: cleanupResult

record platform =
  pf_root :: path
  pf_canonical :: "path \<Rightarrow> path"
  pf_newId :: "disk \<Rightarrow> string"
  pf_stamp :: string
  pf_faults :: faults
  pf_txFails :: "string \<Rightarrow> bool"
  pf_removeFails :: "path \<Rightarrow> bool"
  pf_usage :: "disk \<Rightarrow> int option"
  pf_motionColumn :: bool

datatype retError =
    FileOutsideRoot
  | StageError deletionError
  | DatabaseError
  | DatabaseAndRestoreError deletionError

section \<open>Legal holds and evidence\<close>

fun objField :: "json option \<Rightarrow> string \<Rightarrow> json option" where
  "objField (Some (JObj fs)) k = map_of fs k"
| "objField _ k = None"

fun strings :: "json list \<Rightarrow> string list" where
  "strings [] = []"
| "strings (JStr s # js) = s # strings js"
| "strings (_ # js) = strings js"

definition stringArray :: "json option \<Rightarrow> string list" where
  "stringArray j = (case j of Some (JArr js) \<Rightarrow> strings js | _ \<Rightarrow> [])"

definition stringField :: "json option \<Rightarrow> string list" where
  "stringField j = (case j of Some (JStr s) \<Rightarrow> [s] | _ \<Rightarrow> [])"

text \<open>The newest hold of each investigation; \<open>items\<close> has the newest first.\<close>

fun latestHolds :: "string list \<Rightarrow> itemRow list \<Rightarrow> json option list" where
  "latestHolds seen [] = []"
| "latestHolds seen (row # rows) =
     (if it_type row \<noteq> ''legal_hold'' \<or> it_investigationId row \<in> set seen then latestHolds seen rows
      else it_metadata row # latestHolds (it_investigationId row # seen) rows)"

definition holdEnabled :: "json option \<Rightarrow> bool" where
  "holdEnabled m =
     (case objField m ''enabled'' of
        Some (JBool b) \<Rightarrow> b
      | Some (JNum n) \<Rightarrow> n = 1
      | Some (JStr s) \<Rightarrow> s = ''true''
      | _ \<Rightarrow> False)"

definition nonEmpty :: "string option \<Rightarrow> string list" where
  "nonEmpty s = (case s of None \<Rightarrow> [] | Some x \<Rightarrow> if x = [] then [] else [x])"

definition getProtectionSets :: "retDb \<Rightarrow> protectionSets" where
  "getProtectionSets db =
     (let holds = filter holdEnabled (latestHolds [] (db_items db));
          evidence = filter (\<lambda>i. it_type i \<noteq> ''legal_hold'') (db_items db);
          holdIds = (\<lambda>k. concat (map (\<lambda>m. stringArray (objField m k)) holds));
          field = (\<lambda>k. concat (map (\<lambda>i. stringField (objField (it_metadata i) k)) evidence));
          arr = (\<lambda>k. concat (map (\<lambda>i. stringArray (objField (it_metadata i) k)) evidence));
          clipIds = holdIds ''clipIds'' @ field ''clipId'' @ arr ''clipIds'';
          sources = map cl_sourceRecordingId (filter (\<lambda>c. cl_id c \<in> set clipIds) (db_clips db))
      in \<lparr>ps_recordingIds = holdIds ''recordingIds''
             @ concat (map (\<lambda>i. nonEmpty (it_recordingId i)) evidence)
             @ field ''recordingId'' @ arr ''recordingIds'' @ sources,
          ps_clipIds = clipIds,
          ps_eventIds = holdIds ''eventIds''
             @ concat (map (\<lambda>i. nonEmpty (it_eventId i)) evidence) @ field ''eventId''\<rparr>)"

section \<open>Policy\<close>

type_synonym environment = "string \<Rightarrow> string option"

record twoTierPolicy =
  tt_enabled :: bool
  tt_dryRun :: bool
  tt_allDays :: int
  tt_motionDays :: int

record retentionWindow =
  rw_allDays :: int
  rw_motionDays :: int

datatype cameraFilter = CameraIn "string list" | CameraNotIn "string list" | AnyCamera

record retentionGroup =
  gr_days :: int
  gr_filter :: cameraFilter

record batchLimits =
  bl_batchSize :: int
  bl_maxPerCycle :: int

definition MOTION_SCORE_UNKNOWN :: int where
  "MOTION_SCORE_UNKNOWN = -1"

definition DAY_MS :: int where
  "DAY_MS = 86400000"

definition envInt :: "environment \<Rightarrow> string \<Rightarrow> int \<Rightarrow> int \<Rightarrow> int \<Rightarrow> int" where
  "envInt env name fallback lo hi =
     \<lfloor>fst (envNumber (env name) (Fin (of_int fallback))
        \<lparr>opt_min = Some (of_int lo), opt_max = Some (of_int hi), opt_integer = True\<rparr>)\<rfloor>"

definition readTwoTierPolicy :: "environment \<Rightarrow> twoTierPolicy" where
  "readTwoTierPolicy env =
     \<lparr>tt_enabled = fst (envBool (env ''RETENTION_TWO_TIER_ENABLED'') False),
      tt_dryRun = fst (envBool (env ''RETENTION_TWO_TIER_DRY_RUN'') True),
      tt_allDays = envInt env ''RETENTION_ALL_DAYS'' 0 0 3650,
      tt_motionDays = envInt env ''RETENTION_MOTION_DAYS'' 0 0 3650\<rparr>"

definition readBatchLimits :: "environment \<Rightarrow> batchLimits" where
  "readBatchLimits env =
     \<lparr>bl_batchSize = envInt env ''RETENTION_EXPIRY_BATCH_SIZE'' 500 1 5000,
      bl_maxPerCycle = envInt env ''RETENTION_MAX_DELETIONS_PER_CYCLE'' 20000 1 1000000\<rparr>"

text \<open>The buckets of \<open>byDays\<close>, in the order in which the days first appear.\<close>

fun addToBucket :: "int \<Rightarrow> string \<Rightarrow> (int \<times> string list) list \<Rightarrow> (int \<times> string list) list" where
  "addToBucket days cid [] = [(days, [cid])]"
| "addToBucket days cid ((d, ids) # bs) =
     (if d = days then (d, ids @ [cid]) # bs else (d, ids) # addToBucket days cid bs)"

definition loadRetentionGroups :: "int \<Rightarrow> retDb \<Rightarrow> retentionGroup list" where
  "loadRetentionGroups globalDays db =
     (let byDays = fold (\<lambda>(cid, days). addToBucket (case days of None \<Rightarrow> globalDays | Some d \<Rightarrow> d) cid)
                     (db_cameras db) []
      in map (\<lambda>(days, ids). \<lparr>gr_days = days, gr_filter = CameraIn ids\<rparr>) byDays
         @ [\<lparr>gr_days = globalDays,
             gr_filter = (if db_cameras db = [] then AnyCamera else CameraNotIn (map fst (db_cameras db)))\<rparr>])"

fun filterMatches :: "cameraFilter \<Rightarrow> string \<Rightarrow> bool" where
  "filterMatches (CameraIn ids) c = (c \<in> set ids)"
| "filterMatches (CameraNotIn ids) c = (c \<notin> set ids)"
| "filterMatches AnyCamera c = True"

definition resolveRetentionWindow :: "int \<Rightarrow> twoTierPolicy \<Rightarrow> retentionWindow" where
  "resolveRetentionWindow baseDays policy =
     (if \<not> tt_enabled policy then \<lparr>rw_allDays = baseDays, rw_motionDays = baseDays\<rparr>
      else (let allDays = (if tt_allDays policy > 0 then tt_allDays policy else baseDays);
                motionDays = (if tt_motionDays policy > 0 then tt_motionDays policy else baseDays)
            in \<lparr>rw_allDays = allDays, rw_motionDays = max allDays motionDays\<rparr>))"

definition readMotionScore :: "bool \<Rightarrow> recordingRow \<Rightarrow> int" where
  "readMotionScore hasColumn row =
     (if \<not> hasColumn \<or> rr_motionScore row < 0 then MOTION_SCORE_UNKNOWN else rr_motionScore row)"

definition isExpiredByAge :: "int \<Rightarrow> int \<Rightarrow> int \<Rightarrow> retentionWindow \<Rightarrow> bool" where
  "isExpiredByAge startedAt motionScore now window =
     (let ageMs = now - startedAt in
      if ageMs > rw_motionDays window * 86400000 then True
      else if ageMs \<le> rw_allDays window * 86400000 then False
      else motionScore = 0)"

text \<open>The rows that the query built by \<open>buildExpiryWhere\<close> returns.\<close>

definition buildExpiryWhere ::
    "bool \<Rightarrow> retentionGroup \<Rightarrow> retentionWindow \<Rightarrow> int \<Rightarrow> recordingRow \<Rightarrow> bool" where
  "buildExpiryWhere hasColumn grp window now row =
     (filterMatches (gr_filter grp) (rr_cameraId row)
      \<and> (if rw_motionDays window > rw_allDays window
         then (if \<not> hasColumn then rr_startedAt row < now - rw_motionDays window * DAY_MS
               else rr_startedAt row < now - rw_allDays window * DAY_MS
                    \<and> (rr_startedAt row < now - rw_motionDays window * DAY_MS \<or> rr_motionScore row = 0))
         else rr_startedAt row < now - rw_allDays window * DAY_MS))"

section \<open>Deleting one row with its files\<close>

definition showPath :: "path \<Rightarrow> string" where
  "showPath p = ''/'' @ join ''/'' p"

definition isWithin :: "path \<Rightarrow> path \<Rightarrow> bool" where
  "isWithin base candidate =
     (case relativePath base candidate of [] \<Rightarrow> True | c # _ \<Rightarrow> c \<noteq> ''..'')"

definition ensureFileUnderRoot :: "platform \<Rightarrow> string \<Rightarrow> (retError, path) result" where
  "ensureFileUnderRoot pf filePath =
     (let resolvedFile = resolvePath (pf_root pf) filePath;
          canonicalRoot = pf_canonical pf (pf_root pf);
          canonicalFile = pf_canonical pf resolvedFile
      in if \<not> isWithin (pf_root pf) resolvedFile then Inl FileOutsideRoot
         else if \<not> isWithin canonicalRoot canonicalFile then Inl FileOutsideRoot
         else Inr canonicalFile)"

fun ensureAll :: "platform \<Rightarrow> string list \<Rightarrow> (retError, path list) result" where
  "ensureAll pf [] = Inr []"
| "ensureAll pf (f # fs) =
     (case ensureFileUnderRoot pf f of
        Inl e \<Rightarrow> Inl e
      | Inr p \<Rightarrow> (case ensureAll pf fs of Inl e \<Rightarrow> Inl e | Inr ps \<Rightarrow> Inr (p # ps)))"

text \<open>\<open>extname\<close> of a file name, and the name without it.\<close>

definition extname :: "string \<Rightarrow> string" where
  "extname s =
     (let tail = takeWhile (\<lambda>c. c \<noteq> CHR ''.'') (rev s) in
      if length tail + 1 \<ge> length s then [] else CHR ''.'' # rev tail)"

definition stem :: "string \<Rightarrow> string" where
  "stem s = take (length s - length (extname s)) s"

definition withExtension :: "string \<Rightarrow> path \<Rightarrow> path" where
  "withExtension ext p = (if p = [] then [ext] else butlast p @ [stem (last p) @ ext])"

definition withSuffix :: "string \<Rightarrow> path \<Rightarrow> path" where
  "withSuffix sfx p = (if p = [] then [sfx] else butlast p @ [last p @ sfx])"

definition derivedThumbnailPath :: "path \<Rightarrow> path" where
  "derivedThumbnailPath p = withExtension ''.thumb.jpg'' p"

definition buildTimelinePreviewPath :: "path \<Rightarrow> path" where
  "buildTimelinePreviewPath p = withExtension ''.preview.jpg'' p"

definition deleteRowsWithFiles ::
    "platform \<Rightarrow> string list \<Rightarrow> deletionGuard list \<Rightarrow> (retDb \<Rightarrow> (retError, retDb) result) \<Rightarrow> retState
     \<Rightarrow> (retError, unit) result \<times> retState" where
  "deleteRowsWithFiles pf paths guards deleteRows st =
     (case stageFileDeletion (pf_faults pf) (pf_root pf) (pf_newId pf (st_disk st)) (pf_stamp pf)
             paths guards (st_disk st) of
        (Inl e, d) \<Rightarrow> (Inl (StageError e), st\<lparr>st_disk := d\<rparr>)
      | (Inr staged, d) \<Rightarrow>
          (case deleteRows (st_db st) of
             Inr db' \<Rightarrow>
               (Inr (), st\<lparr>st_db := db', st_disk := snd (commit (pf_faults pf) (pf_root pf) staged d)\<rparr>)
           | Inl e \<Rightarrow>
               (case rollback (pf_faults pf) (pf_root pf) staged d of
                  (Inr _, d') \<Rightarrow> (Inl e, st\<lparr>st_disk := d'\<rparr>)
                | (Inl e', d') \<Rightarrow> (Inl (DatabaseAndRestoreError e'), st\<lparr>st_disk := d'\<rparr>))))"

text \<open>\<open>exportedClip.delete\<close> and \<open>recording.delete\<close> throw when the row is missing; the latter cascades.\<close>

definition dbDeleteClip :: "platform \<Rightarrow> string \<Rightarrow> retDb \<Rightarrow> (retError, retDb) result" where
  "dbDeleteClip pf cid db =
     (if pf_txFails pf cid \<or> cid \<notin> set (map cl_id (db_clips db)) then Inl DatabaseError
      else Inr (db\<lparr>db_clips := filter (\<lambda>c. cl_id c \<noteq> cid) (db_clips db)\<rparr>))"

definition dbDeleteRecording :: "platform \<Rightarrow> string \<Rightarrow> string list \<Rightarrow> retDb \<Rightarrow> (retError, retDb) result" where
  "dbDeleteRecording pf rid clipIds db =
     (if pf_txFails pf rid \<or> rid \<notin> set (map rr_id (db_recordings db)) then Inl DatabaseError
      else Inr (db\<lparr>db_recordings := filter (\<lambda>r. rr_id r \<noteq> rid) (db_recordings db),
                   db_clips := filter (\<lambda>c. cl_id c \<notin> set clipIds \<and> cl_sourceRecordingId c \<noteq> rid)
                                 (db_clips db)\<rparr>))"

definition deleteClip :: "platform \<Rightarrow> clipRow \<Rightarrow> retState \<Rightarrow> (retError, unit) result \<times> retState" where
  "deleteClip pf clip st =
     (case ensureFileUnderRoot pf (cl_filePath clip) of
        Inl e \<Rightarrow> (Inl e, st)
      | Inr fullPath \<Rightarrow>
          deleteRowsWithFiles pf [showPath fullPath]
            [\<lparr>dg_model = GuardExportedClip, dg_id = cl_id clip\<rparr>] (dbDeleteClip pf (cl_id clip)) st)"

text \<open>The media file of a recording and everything derived from it.\<close>

definition recordingPaths :: "platform \<Rightarrow> recordingRow \<Rightarrow> path \<Rightarrow> path list" where
  "recordingPaths pf recording fullPath =
     [fullPath, derivedThumbnailPath fullPath, buildTimelinePreviewPath fullPath,
      withSuffix ''.invalid.json'' fullPath, withSuffix ''.orphan-quarantine.json'' fullPath,
      pf_root pf @ [''.playback-compatible'', rr_cameraId recording, rr_id recording @ ''.mp4'']]"

definition deleteRecording ::
    "platform \<Rightarrow> recordingRow \<Rightarrow> protectionSets \<Rightarrow> retState \<Rightarrow> (retError, bool) result \<times> retState" where
  "deleteRecording pf recording protection st =
     (if rr_id recording \<in> set (ps_recordingIds protection) then (Inr False, st)
      else let clips = filter (\<lambda>c. cl_sourceRecordingId c = rr_id recording) (db_clips (st_db st)) in
        if list_ex (\<lambda>c. cl_id c \<in> set (ps_clipIds protection)) clips then (Inr False, st)
        else case ensureFileUnderRoot pf (rr_filePath recording) of
          Inl e \<Rightarrow> (Inl e, st)
        | Inr fullPath \<Rightarrow>
            (case ensureAll pf (map cl_filePath clips) of
               Inl e \<Rightarrow> (Inl e, st)
             | Inr clipPaths \<Rightarrow>
                 (let paths = clipPaths @ recordingPaths pf recording fullPath;
                      guards = \<lparr>dg_model = GuardRecording, dg_id = rr_id recording\<rparr>
                        # map (\<lambda>c. \<lparr>dg_model = GuardExportedClip, dg_id = cl_id c\<rparr>) clips
                  in case deleteRowsWithFiles pf (map showPath paths) guards
                            (dbDeleteRecording pf (rr_id recording) (map cl_id clips)) st of
                       (Inl e, st') \<Rightarrow> (Inl e, st')
                     | (Inr _, st') \<Rightarrow> (Inr True, st'))))"

section \<open>Expiry in pages\<close>

datatype rowOutcome = RowDeleted | RowKept | RowCounted

text \<open>The body of both paging loops over the rows of one page; \<open>skip\<close> and \<open>budget\<close> are its variables.\<close>

fun processRows ::
    "('r \<Rightarrow> 's \<Rightarrow> rowOutcome \<times> 's) \<Rightarrow> 'r list \<Rightarrow> nat \<Rightarrow> int \<Rightarrow> 's \<Rightarrow> nat \<times> int \<times> 's" where
  "processRows f [] skip budget st = (skip, budget, st)"
| "processRows f (r # rs) skip budget st =
     (case f r st of
        (RowDeleted, st') \<Rightarrow> processRows f rs skip (budget - 1) st'
      | (RowKept, st') \<Rightarrow> processRows f rs (Suc skip) budget st'
      | (RowCounted, st') \<Rightarrow> processRows f rs (Suc skip) (budget - 1) st')"

text \<open>\<open>for (;;)\<close> over the pages of one query, with fuel; \<open>None\<close> is the fuel running out.\<close>

primrec pageLoop ::
    "nat \<Rightarrow> ('s \<Rightarrow> 'r list) \<Rightarrow> ('r \<Rightarrow> 's \<Rightarrow> rowOutcome \<times> 's) \<Rightarrow> int \<Rightarrow> nat \<Rightarrow> int \<Rightarrow> 's \<Rightarrow> (int \<times> 's) option" where
  "pageLoop 0 query f batchSize skip budget st = None"
| "pageLoop (Suc n) query f batchSize skip budget st =
     (if budget \<le> 0 then Some (budget, st)
      else let takeN = nat (min batchSize budget); page = take takeN (drop skip (query st)) in
        if page = [] then Some (budget, st)
        else let (skip', budget', st') = processRows f page skip budget st in
          if length page < takeN then Some (budget', st')
          else pageLoop n query f batchSize skip' budget' st')"

definition clipQuery :: "retentionGroup \<Rightarrow> int \<Rightarrow> retState \<Rightarrow> clipRow list" where
  "clipQuery grp now st =
     filter (\<lambda>c. cl_startedAt c < now - gr_days grp * DAY_MS
        \<and> (gr_filter grp = AnyCamera
           \<or> (\<exists>r\<in>set (db_recordings (st_db st)). rr_id r = cl_sourceRecordingId c
                \<and> filterMatches (gr_filter grp) (rr_cameraId r))))
       (db_clips (st_db st))"

definition expireClip :: "platform \<Rightarrow> protectionSets \<Rightarrow> clipRow \<Rightarrow> retState \<Rightarrow> rowOutcome \<times> retState" where
  "expireClip pf protection clip st =
     (if cl_id clip \<in> set (ps_clipIds protection) then (RowKept, st)
      else case deleteClip pf clip st of
        (Inl _, st') \<Rightarrow> (RowKept, st')
      | (Inr _, st') \<Rightarrow>
          (RowDeleted, st'\<lparr>st_result := (st_result st')\<lparr>cr_clipsDeleted := Suc (cr_clipsDeleted (st_result st'))\<rparr>\<rparr>))"

definition clipFuel :: "retState \<Rightarrow> nat" where
  "clipFuel st = Suc (length (db_clips (st_db st)))"

definition recordingFuel :: "retState \<Rightarrow> nat" where
  "recordingFuel st = Suc (length (db_recordings (st_db st)))"

fun expireClipsInBatches ::
    "platform \<Rightarrow> int \<Rightarrow> protectionSets \<Rightarrow> int \<Rightarrow> retentionGroup list \<Rightarrow> int \<Rightarrow> retState \<Rightarrow> retState option" where
  "expireClipsInBatches pf now protection batchSize [] budget st = Some st"
| "expireClipsInBatches pf now protection batchSize (grp # groups) budget st =
     (case pageLoop (clipFuel st) (clipQuery grp now) (expireClip pf protection) batchSize 0 budget st of
        None \<Rightarrow> None
      | Some (budget', st') \<Rightarrow> expireClipsInBatches pf now protection batchSize groups budget' st')"

definition recordingQuery ::
    "bool \<Rightarrow> retentionGroup \<Rightarrow> retentionWindow \<Rightarrow> int \<Rightarrow> retState \<Rightarrow> recordingRow list" where
  "recordingQuery hasColumn grp window now st =
     filter (buildExpiryWhere hasColumn grp window now) (db_recordings (st_db st))"

definition expireRecording ::
    "platform \<Rightarrow> protectionSets \<Rightarrow> twoTierPolicy \<Rightarrow> retentionWindow \<Rightarrow> int \<Rightarrow> recordingRow \<Rightarrow> retState
     \<Rightarrow> rowOutcome \<times> retState" where
  "expireRecording pf protection policy window now recording st =
     (if \<not> isExpiredByAge (rr_startedAt recording) (readMotionScore (pf_motionColumn pf) recording) now window
      then (RowKept, st)
      else if tt_enabled policy \<and> tt_dryRun policy
      then (if rr_id recording \<in> set (ps_recordingIds protection) then (RowKept, st)
            else (RowCounted, st\<lparr>st_result := (st_result st)\<lparr>
                    cr_recordingsWouldDelete := Suc (cr_recordingsWouldDelete (st_result st)),
                    cr_wouldFreeBytes := cr_wouldFreeBytes (st_result st)
                      + (case rr_sizeBytes recording of None \<Rightarrow> 0 | Some b \<Rightarrow> b)\<rparr>\<rparr>))
      else case deleteRecording pf recording protection st of
        (Inr True, st') \<Rightarrow>
          (RowDeleted, st'\<lparr>st_result := (st_result st')\<lparr>
             cr_recordingsDeleted := Suc (cr_recordingsDeleted (st_result st'))\<rparr>\<rparr>)
      | (_, st') \<Rightarrow> (RowKept, st'))"

text \<open>What the short cut spared because there was, or may have been, motion.\<close>

definition countMotionRetained ::
    "bool \<Rightarrow> retentionGroup \<Rightarrow> retentionWindow \<Rightarrow> int \<Rightarrow> retState \<Rightarrow> nat" where
  "countMotionRetained hasColumn grp window now st =
     length (filter (\<lambda>r. filterMatches (gr_filter grp) (rr_cameraId r)
         \<and> rr_startedAt r < now - rw_allDays window * DAY_MS
         \<and> now - rw_motionDays window * DAY_MS \<le> rr_startedAt r
         \<and> (hasColumn \<longrightarrow> rr_motionScore r \<noteq> 0)) (db_recordings (st_db st)))"

definition noteMotionRetained ::
    "platform \<Rightarrow> twoTierPolicy \<Rightarrow> retentionGroup \<Rightarrow> int \<Rightarrow> retState \<Rightarrow> retState" where
  "noteMotionRetained pf policy grp now st =
     (if tt_enabled policy
      then st\<lparr>st_result := (st_result st)\<lparr>cr_motionRetained := cr_motionRetained (st_result st)
             + countMotionRetained (pf_motionColumn pf) grp (resolveRetentionWindow (gr_days grp) policy) now st\<rparr>\<rparr>
      else st)"

definition expireGroup ::
    "platform \<Rightarrow> int \<Rightarrow> protectionSets \<Rightarrow> twoTierPolicy \<Rightarrow> int \<Rightarrow> retentionGroup \<Rightarrow> int \<Rightarrow> retState
     \<Rightarrow> (int \<times> retState) option" where
  "expireGroup pf now protection policy batchSize grp budget st =
     (let window = resolveRetentionWindow (gr_days grp) policy;
          st1 = noteMotionRetained pf policy grp now st
      in pageLoop (recordingFuel st1) (recordingQuery (pf_motionColumn pf) grp window now)
           (expireRecording pf protection policy window now) batchSize 0 budget st1)"

fun expireRecordingsInBatches ::
    "platform \<Rightarrow> int \<Rightarrow> protectionSets \<Rightarrow> twoTierPolicy \<Rightarrow> int \<Rightarrow> retentionGroup list \<Rightarrow> int \<Rightarrow> retState
     \<Rightarrow> retState option" where
  "expireRecordingsInBatches pf now protection policy batchSize [] budget st = Some st"
| "expireRecordingsInBatches pf now protection policy batchSize (grp # groups) budget st =
     (if budget \<le> 0 then Some st
      else case expireGroup pf now protection policy batchSize grp budget st of
        None \<Rightarrow> None
      | Some (budget', st') \<Rightarrow>
          expireRecordingsInBatches pf now protection policy batchSize groups budget' st')"

section \<open>Orphaned derived files\<close>

definition parseCameraIdFromDirName :: "string \<Rightarrow> string option" where
  "parseCameraIdFromDirName dirName =
     (if starts_with dirName ''camera-'' \<and> length dirName > length ''camera-''
      then Some (drop (length ''camera-'') dirName) else None)"

definition buildCameraRootDir :: "path \<Rightarrow> string \<Rightarrow> path" where
  "buildCameraRootDir base cameraId = base @ [''camera-'' @ cameraId]"

text \<open>The names of the directories in \<open>dir\<close>: the first components of the files at least two below it.\<close>

definition listDirs :: "path \<Rightarrow> disk \<Rightarrow> string list" where
  "listDirs dir d =
     js_uniq (map (\<lambda>f. fst f ! length dir)
       (filter (\<lambda>f. prefix dir (fst f) \<and> length (fst f) > Suc (length dir)) (dk_files d)))"

fun cameraIdsOf :: "string list \<Rightarrow> string list" where
  "cameraIdsOf [] = []"
| "cameraIdsOf (n # ns) =
     (case parseCameraIdFromDirName n of None \<Rightarrow> cameraIdsOf ns | Some c \<Rightarrow> c # cameraIdsOf ns)"

datatype orphan = OrphanThumbnail | OrphanCompatible

text \<open>What \<open>walk\<close> makes of one file; \<open>rows\<close> are the recordings of the camera.\<close>

definition orphanKind ::
    "platform \<Rightarrow> string \<Rightarrow> path list \<Rightarrow> string list \<Rightarrow> bool \<Rightarrow> path \<Rightarrow> orphan option" where
  "orphanKind pf cameraId files ids compatible p =
     (if ends_with (last p) ''.thumb.jpg'' \<and> p \<notin> set (map derivedThumbnailPath files) then Some OrphanThumbnail
      else if ends_with (last p) ''.preview.jpg'' \<and> p \<notin> set (map buildTimelinePreviewPath files)
      then Some OrphanThumbnail
      else if compatible \<and> ends_with (last p) ''.mp4''
          \<and> p \<notin> set (map (\<lambda>i. pf_root pf @ [''.playback-compatible'', cameraId, i @ ''.mp4'']) ids)
      then Some OrphanCompatible else None)"

definition walk ::
    "platform \<Rightarrow> string \<Rightarrow> path list \<Rightarrow> string list \<Rightarrow> path \<Rightarrow> bool \<Rightarrow> retState \<Rightarrow> retState" where
  "walk pf cameraId files ids dir compatible st =
     (let orphanOf = (\<lambda>p. if prefix dir p \<and> p \<noteq> dir \<and> \<not> pf_removeFails pf p
                          then orphanKind pf cameraId files ids compatible p else None);
          count = (\<lambda>k. length (filter (\<lambda>f. orphanOf (fst f) = Some k) (dk_files (st_disk st))));
          r = st_result st
      in st\<lparr>st_disk := (st_disk st)\<lparr>dk_files := filter (\<lambda>f. orphanOf (fst f) = None) (dk_files (st_disk st))\<rparr>,
            st_result := r\<lparr>cr_orphanThumbnailsDeleted := cr_orphanThumbnailsDeleted r + count OrphanThumbnail,
                           cr_orphanCompatibleFilesDeleted :=
                             cr_orphanCompatibleFilesDeleted r + count OrphanCompatible\<rparr>\<rparr>)"

fun orphanLoop :: "platform \<Rightarrow> string list \<Rightarrow> retState \<Rightarrow> (retError, unit) result \<times> retState" where
  "orphanLoop pf [] st = (Inr (), st)"
| "orphanLoop pf (cameraId # rest) st =
     (let rows = filter (\<lambda>r. rr_cameraId r = cameraId) (db_recordings (st_db st)) in
      case ensureAll pf (map rr_filePath rows) of
        Inl e \<Rightarrow> (Inl e, st)
      | Inr files \<Rightarrow>
          (let st1 = walk pf cameraId files (map rr_id rows) (buildCameraRootDir (pf_root pf) cameraId) False st;
               st2 = walk pf cameraId files (map rr_id rows)
                       (pf_root pf @ [''.playback-compatible'', cameraId]) True st1
           in orphanLoop pf rest st2))"

definition cleanupOrphanDerivedArtifacts :: "platform \<Rightarrow> retState \<Rightarrow> (retError, unit) result \<times> retState" where
  "cleanupOrphanDerivedArtifacts pf st =
     (let compatibleRoot = pf_root pf @ [''.playback-compatible''];
          cameraIds = js_uniq (cameraIdsOf (listDirs (pf_root pf) (st_disk st))
                               @ listDirs compatibleRoot (st_disk st))
      in orphanLoop pf cameraIds st)"

section \<open>The disk guardian\<close>

definition triggerPercent :: "environment \<Rightarrow> int" where
  "triggerPercent env = envInt env ''RETENTION_DISK_TRIGGER_PERCENT'' 90 50 99"

definition targetPercent :: "environment \<Rightarrow> int" where
  "targetPercent env = envInt env ''RETENTION_DISK_TARGET_PERCENT'' 85 40 (max 40 (triggerPercent env - 1))"

definition maxNoProgressBatches :: "environment \<Rightarrow> int" where
  "maxNoProgressBatches env = envInt env ''RETENTION_DISK_MAX_NOPROGRESS_BATCHES'' 3 1 20"

text \<open>One batch: the number of recordings deleted.\<close>

fun guardBatch :: "platform \<Rightarrow> protectionSets \<Rightarrow> recordingRow list \<Rightarrow> retState \<Rightarrow> nat \<times> retState" where
  "guardBatch pf protection [] st = (0, st)"
| "guardBatch pf protection (r # rs) st =
     (case deleteRecording pf r protection st of
        (Inr True, st') \<Rightarrow> (let (n, st'') = guardBatch pf protection rs st' in (Suc n, st''))
      | (_, st') \<Rightarrow> guardBatch pf protection rs st')"

text \<open>
  One iteration of the loop: the number deleted, the state and, when the loop goes on, the usage and
  the number of batches without progress.
\<close>

definition guardRound ::
    "platform \<Rightarrow> protectionSets \<Rightarrow> int \<Rightarrow> int \<Rightarrow> int \<Rightarrow> int \<Rightarrow> retState \<Rightarrow> nat \<times> retState \<times> (int \<times> int) option" where
  "guardRound pf protection target maxNoProgress current noProgress st =
     (let oldest = take 20 (filter (\<lambda>r. rr_id r \<notin> set (ps_recordingIds protection))
                      (db_recordings (st_db st)));
          (batchDeleted, st1) = guardBatch pf protection oldest st
      in if current \<le> target \<or> oldest = [] then (0, st, None)
         else if batchDeleted = 0 then (0, st1, None)
         else case pf_usage pf (st_disk st1) of
           None \<Rightarrow> (batchDeleted, st1, None)
         | Some used \<Rightarrow>
             if used < current then (batchDeleted, st1, Some (used, 0))
             else if noProgress + 1 \<ge> maxNoProgress then (batchDeleted, st1, None)
             else (batchDeleted, st1, Some (used, noProgress + 1)))"

text \<open>The loop with the iterations that are left; the result is the number deleted in all.\<close>

primrec guardLoop ::
    "platform \<Rightarrow> protectionSets \<Rightarrow> int \<Rightarrow> int \<Rightarrow> nat \<Rightarrow> int \<Rightarrow> int \<Rightarrow> retState \<Rightarrow> nat \<times> retState" where
  "guardLoop pf protection target maxNoProgress 0 current noProgress st = (0, st)"
| "guardLoop pf protection target maxNoProgress (Suc n) current noProgress st =
     (case guardRound pf protection target maxNoProgress current noProgress st of
        (k, st', None) \<Rightarrow> (k, st')
      | (k, st', Some (used, np)) \<Rightarrow>
          (let (m, st'') = guardLoop pf protection target maxNoProgress n used np st' in (k + m, st'')))"

definition checkDiskUsage ::
    "platform \<Rightarrow> environment \<Rightarrow> bool option \<Rightarrow> protectionSets option \<Rightarrow> retState \<Rightarrow> nat \<times> retState" where
  "checkDiskUsage pf env autoCleanup existingProtection st =
     (case pf_usage pf (st_disk st) of
        None \<Rightarrow> (0, st)
      | Some initialPercent \<Rightarrow>
          if initialPercent \<le> triggerPercent env then (0, st)
          else if autoCleanup = Some False then (0, st)
          else (let protection = (case existingProtection of
                       None \<Rightarrow> getProtectionSets (st_db st) | Some p \<Rightarrow> p)
                in guardLoop pf protection (targetPercent env) (maxNoProgressBatches env) 100
                     initialPercent 0 st))"

section \<open>One pass of the retention\<close>

text \<open>\<open>None\<close> in a setting is a query that failed; both have a default.\<close>

record retSettings =
  rs_autoCleanup :: "bool option"
  rs_defaultDays :: "int option"
  rs_configDays :: jsnum

definition globalDays :: "environment \<Rightarrow> retSettings \<Rightarrow> int" where
  "globalDays env settings =
     (let configuredDays = (case rs_defaultDays settings of None \<Rightarrow> 0 | Some d \<Rightarrow> d);
          fallback = (case rs_configDays settings of
             Fin x \<Rightarrow> if x = 0 then Fin 7 else Fin x | NonFinite \<Rightarrow> Fin 7)
      in if configuredDays > 0 then configuredDays
         else \<lfloor>fst (envNumber (env ''RECORDING_RETENTION_DAYS'') fallback
                 \<lparr>opt_min = Some 1, opt_max = None, opt_integer = True\<rparr>)\<rfloor>)"

definition emptyResult :: cleanupResult where
  "emptyResult = \<lparr>cr_skipped = False, cr_recordingsDeleted = 0, cr_clipsDeleted = 0, cr_eventsDeleted = 0,
     cr_orphanThumbnailsDeleted = 0, cr_orphanCompatibleFilesDeleted = 0, cr_recordingsWouldDelete = 0,
     cr_wouldFreeBytes = 0, cr_motionRetained = 0\<rparr>"

definition deleteOldEvents :: "environment \<Rightarrow> int \<Rightarrow> protectionSets \<Rightarrow> retState \<Rightarrow> retState" where
  "deleteOldEvents env now protection st =
     (let cutoff = now - envInt env ''CAMERA_EVENT_RETENTION_DAYS'' 30 1 3650 * DAY_MS;
          old = (\<lambda>e. ev_occurredAt e < cutoff \<and> ev_id e \<notin> set (ps_eventIds protection));
          db = st_db st
      in st\<lparr>st_db := db\<lparr>db_events := filter (\<lambda>e. \<not> old e) (db_events db)\<rparr>,
            st_result := (st_result st)\<lparr>cr_eventsDeleted := length (filter old (db_events db))\<rparr>\<rparr>)"

definition handleRetention ::
    "platform \<Rightarrow> environment \<Rightarrow> retSettings \<Rightarrow> int \<Rightarrow> retState \<Rightarrow> (retError, unit) result option \<times> retState" where
  "handleRetention pf env settings now st0 =
     (let st = st0\<lparr>st_result := emptyResult\<rparr> in
      if rs_autoCleanup settings = Some False
      then (Some (Inr ()), st\<lparr>st_result := emptyResult\<lparr>cr_skipped := True\<rparr>\<rparr>)
      else let protection = getProtectionSets (st_db st);
               policy = readTwoTierPolicy env;
               limits = readBatchLimits env;
               groups = loadRetentionGroups (globalDays env settings) (st_db st)
           in case expireClipsInBatches pf now protection (bl_batchSize limits) groups
                     (bl_maxPerCycle limits) st of
                None \<Rightarrow> (None, st)
              | Some st1 \<Rightarrow>
                  (case expireRecordingsInBatches pf now protection policy (bl_batchSize limits) groups
                          (bl_maxPerCycle limits) st1 of
                     None \<Rightarrow> (None, st1)
                   | Some st2 \<Rightarrow>
                       (let st3 = deleteOldEvents env now protection st2 in
                        case cleanupOrphanDerivedArtifacts pf st3 of
                          (Inl e, st4) \<Rightarrow> (Some (Inl e), st4)
                        | (Inr _, st4) \<Rightarrow>
                            (Some (Inr ()), snd (checkDiskUsage pf env (rs_autoCleanup settings)
                               (Some protection) st4)))))"

end
