(* ===== verification/Retention_Rows.thy ===== *)
theory Retention_Rows
  imports Retention
begin

text \<open>
  The lemmas behind the properties of the retention, row by row: the paging interface and its
  interpretations for clips and recordings, rows and files that go together (the interface of
  \<open>File_Deletion\<close> at work), what legal holds and evidence protect, and that every operation of the
  service keeps what is protected.
\<close>

section \<open>Paging\<close>

text \<open>
  What the paging loop needs of a query and of the body: a deleted row leaves the query and the table
  and nothing else does, a row that stays changes neither.
\<close>

locale paged_expiry =
  fixes query :: "'s \<Rightarrow> 'r list" and body :: "'r \<Rightarrow> 's \<Rightarrow> rowOutcome \<times> 's"
    and inv :: "'s \<Rightarrow> bool" and rows :: "'s \<Rightarrow> nat"
  assumes deleted: "inv st \<Longrightarrow> query st = pre @ r # post \<Longrightarrow> body r st = (RowDeleted, st') \<Longrightarrow>
      inv st' \<and> query st' = pre @ post \<and> rows st = Suc (rows st')"
    and stays: "inv st \<Longrightarrow> body r st = (out, st') \<Longrightarrow> out \<noteq> RowDeleted \<Longrightarrow>
      inv st' \<and> query st' = query st \<and> rows st' = rows st"
begin

definition refused :: "'r \<Rightarrow> bool" where
  "refused r \<longleftrightarrow> (\<exists>st out st'. inv st \<and> r \<in> set (query st) \<and> body r st = (out, st') \<and> out \<noteq> RowDeleted)"

definition uncounted :: bool where
  "uncounted \<longleftrightarrow> (\<forall>r st. fst (body r st) \<noteq> RowCounted)"

lemma processRows_exact:
  assumes "inv st" "query st = kept @ page @ rest" "length kept = skip"
    and "processRows body page skip budget st = (skip', budget', st')"
  shows "inv st' \<and> (\<exists>kept'. query st' = kept' @ rest \<and> length kept' = skip'
      \<and> set kept' \<subseteq> set kept \<union> Collect refused)
    \<and> budget - int (length page) \<le> budget' \<and> int (rows st) - int (rows st') \<le> budget - budget'
    \<and> (uncounted \<longrightarrow> budget - budget' = int (rows st) - int (rows st'))"
  using assms
proof (induction page arbitrary: kept skip budget st)
  case (Cons r page)
  obtain out st1 where f: "body r st = (out, st1)" by fastforce
  show ?case
  proof (cases "out = RowDeleted")
    case True
    with deleted [OF Cons.prems(1), of kept r "page @ rest"] Cons.prems(2) f
    have d: "inv st1" "query st1 = kept @ page @ rest" "rows st = Suc (rows st1)" by auto
    from Cons.prems(4) True f have "processRows body page skip (budget - 1) st1 = (skip', budget', st')" by simp
    from Cons.IH [OF d(1,2) Cons.prems(3) this] d(3) show ?thesis by auto
  next
    case False
    with stays [OF Cons.prems(1) f] Cons.prems(2)
    have k: "inv st1" "query st1 = (kept @ [r]) @ page @ rest" "rows st1 = rows st" by auto
    have "r \<in> set (query st)" using Cons.prems(2) by simp
    then have r: "refused r" unfolding refused_def using Cons.prems(1) f False by blast
    have "uncounted \<longrightarrow> out \<noteq> RowCounted" using f unfolding uncounted_def by (metis fst_conv)
    then obtain b where b: "processRows body page (Suc skip) b st1 = (skip', budget', st')" "b \<le> budget" "budget - 1 \<le> b"
      "uncounted \<longrightarrow> b = budget"
      using Cons.prems(4) False f by (cases out) auto
    have "length (kept @ [r]) = Suc skip" using Cons.prems(3) by simp
    from Cons.IH [OF k(1,2) this b(1)] k(3) b(2,3,4) r show ?thesis by auto
  qed
qed auto

text \<open>With one unit of fuel per row the loop ends, within its budget, and misses no row.\<close>

lemma pageLoop_exact:
  assumes "0 < batchSize" "0 \<le> budget" "inv st" "query st = kept @ rest" "length kept = skip"
    and "set kept \<subseteq> Collect refused" "length rest < fuel"
  shows "\<exists>budget' st'. pageLoop fuel query body batchSize skip budget st = Some (budget', st') \<and> inv st'
    \<and> 0 \<le> budget' \<and> int (rows st) - int (rows st') \<le> budget - budget'
    \<and> (uncounted \<longrightarrow> budget - budget' = int (rows st) - int (rows st'))
    \<and> (0 < budget' \<longrightarrow> set (query st') \<subseteq> Collect refused)"
  using assms
proof (induction fuel arbitrary: skip budget st kept rest)
  case (Suc fuel)
  let ?n = "nat (min batchSize budget)"
  let ?page = "take ?n rest"
  have page: "take ?n (drop skip (query st)) = ?page" using Suc.prems(4,5) by simp
  consider "budget \<le> 0" | "0 < budget" "rest = []" | "0 < budget" "rest \<noteq> []" by fastforce
  then show ?case
  proof cases
    case 3
    then have ne: "?page \<noteq> []" using Suc.prems(1) by simp
    obtain skip' budget' st' where p: "processRows body ?page skip budget st = (skip', budget', st')"
      by (metis prod.exhaust)
    have "query st = kept @ ?page @ drop ?n rest" using Suc.prems(4) by simp
    from processRows_exact [OF Suc.prems(3) this Suc.prems(5) p] Suc.prems(6)
    obtain kept' where k: "inv st'" "query st' = kept' @ drop ?n rest" "length kept' = skip'"
      "set kept' \<subseteq> Collect refused" "budget - int (length ?page) \<le> budget'"
      "int (rows st) - int (rows st') \<le> budget - budget'"
      "uncounted \<longrightarrow> budget - budget' = int (rows st) - int (rows st')" by blast
    have nonneg: "0 \<le> budget'" using k(5) Suc.prems(2) by simp
    have loop: "pageLoop (Suc fuel) query body batchSize skip budget st
        = (if length ?page < ?n then Some (budget', st') else pageLoop fuel query body batchSize skip' budget' st')"
      using 3 ne p by (simp only: pageLoop.simps Let_def page split if_not_P not_le if_False)
    show ?thesis
    proof (cases "length ?page < ?n")
      case True
      then have "drop ?n rest = []" by simp
      moreover have "pageLoop (Suc fuel) query body batchSize skip budget st = Some (budget', st')"
        unfolding loop using True by (rule if_P)
      ultimately show ?thesis using k nonneg by (auto simp del: pageLoop.simps)
    next
      case False
      have "length (drop ?n rest) < fuel" using Suc.prems(7) ne by (cases rest) auto
      from Suc.IH [OF Suc.prems(1) nonneg k(1,2,3,4) this]
      have "\<exists>budget'' st''. pageLoop fuel query body batchSize skip' budget' st' = Some (budget'', st'') \<and> inv st''
        \<and> 0 \<le> budget'' \<and> int (rows st) - int (rows st'') \<le> budget - budget''
        \<and> (uncounted \<longrightarrow> budget - budget'' = int (rows st) - int (rows st''))
        \<and> (0 < budget'' \<longrightarrow> set (query st'') \<subseteq> Collect refused)" using k(6,7) by force
      moreover have "pageLoop (Suc fuel) query body batchSize skip budget st
          = pageLoop fuel query body batchSize skip' budget' st'"
        unfolding loop using False by (rule if_not_P)
      ultimately show ?thesis by (simp del: pageLoop.simps)
    qed
  qed (use Suc.prems page in auto)
qed simp

end

text \<open>What the body keeps for the rows of a set that holds every row of the query, the loop keeps.\<close>

lemma processRows_preserves:
  assumes "\<And>r st. r \<in> S \<Longrightarrow> P st \<Longrightarrow> P (snd (f r st))" "P st" "set rs \<subseteq> S"
  shows "P (snd (snd (processRows f rs skip budget st)))"
  using assms(2,3)
proof (induction rs arbitrary: skip budget st)
  case (Cons r rs)
  from assms(1) [OF _ Cons.prems(1), of r] Cons.IH Cons.prems(2) show ?case
    by (auto split: prod.split rowOutcome.split)
qed simp

lemma pageLoop_preserves_on:
  assumes "\<And>r st. r \<in> S \<Longrightarrow> P st \<Longrightarrow> P (snd (f r st))" "\<And>st. P st \<Longrightarrow> set (query st) \<subseteq> S" "P st"
    and "pageLoop fuel query f batchSize skip budget st = Some (budget', st')"
  shows "P st'"
  using assms(3,4)
proof (induction fuel arbitrary: skip budget st)
  case (Suc fuel)
  let ?page = "take (nat (min batchSize budget)) (drop skip (query st))"
  obtain s b t where p: "processRows f ?page skip budget st = (s, b, t)"
    by (metis prod.exhaust)
  have "set ?page \<subseteq> S" using assms(2) [OF Suc.prems(1)] set_take_subset set_drop_subset by (meson subset_trans)
  with p processRows_preserves [where P = P and f = f and S = S, OF assms(1) Suc.prems(1)] have "P t" by (metis snd_conv)
  with Suc.IH Suc.prems p show ?case by (auto simp: Let_def split: if_splits)
qed simp

lemmas pageLoop_preserves = pageLoop_preserves_on [where S = UNIV, simplified]

section \<open>Rows\<close>

lemma filter_remove_key:
  assumes "distinct (map k xs)" "filter Q xs = pre @ r # post"
  shows "filter Q (filter (\<lambda>x. k x \<noteq> k r) xs) = pre @ post"
    and "length xs = Suc (length (filter (\<lambda>x. k x \<noteq> k r) xs))"
proof -
  have "distinct (map k (pre @ r # post))"
    using assms distinct_map_filter by metis
  then have "\<forall>x\<in>set pre. k x \<noteq> k r" "\<forall>x\<in>set post. k x \<noteq> k r" by (auto simp: image_iff)
  then have "filter (\<lambda>x. k x \<noteq> k r) (pre @ r # post) = pre @ post" by simp
  then show "filter Q (filter (\<lambda>x. k x \<noteq> k r) xs) = pre @ post"
    using assms(2) by (simp add: filter_filter conj_commute flip: filter_filter [of _ Q])
  have "r \<in> set (filter Q xs)" unfolding assms(2) by simp
  then have "r \<in> set xs" by simp
  then have "filter (\<lambda>x. k x = k r) xs = [r]"
    using assms(1) by (induction xs) (auto simp: filter_empty_conv image_iff split: if_splits)
  then show "length xs = Suc (length (filter (\<lambda>x. k x \<noteq> k r) xs))"
    using sum_length_filter_compl [of "\<lambda>x. k x = k r" xs] by simp
qed

lemma deleteRows_db:
  assumes "deleteRowsWithFiles pf paths guards del st = (res, st')"
  shows "st_result st' = st_result st
    \<and> (case res of Inl _ \<Rightarrow> st_db st' = st_db st | Inr _ \<Rightarrow> del (st_db st) = Inr (st_db st'))"
  using assms by (auto simp: deleteRowsWithFiles_def split: prod.splits sum.splits)

lemma deleteClip_db:
  assumes "deleteClip pf c st = (res, st')"
  shows "st_result st' = st_result st"
    and "case res of Inl _ \<Rightarrow> st_db st' = st_db st
      | Inr _ \<Rightarrow> st_db st' = (st_db st)\<lparr>db_clips := filter (\<lambda>x. cl_id x \<noteq> cl_id c) (db_clips (st_db st))\<rparr>"
  using assms
  by (auto simp: deleteClip_def dbDeleteClip_def split: sum.splits if_splits dest!: deleteRows_db)

lemma deleteRecording_db:
  assumes "deleteRecording pf r protection st = (out, st')"
  shows "st_result st' = st_result st"
    and "out \<noteq> Inr True \<Longrightarrow> st_db st' = st_db st"
    and "out = Inr True \<Longrightarrow> rr_id r \<notin> set (ps_recordingIds protection)
      \<and> (\<forall>c\<in>set (db_clips (st_db st)). cl_sourceRecordingId c = rr_id r \<longrightarrow> cl_id c \<notin> set (ps_clipIds protection))
      \<and> dbDeleteRecording pf (rr_id r)
            (map cl_id (filter (\<lambda>c. cl_sourceRecordingId c = rr_id r) (db_clips (st_db st)))) (st_db st)
          = Inr (st_db st')"
  using assms
  by (auto simp: deleteRecording_def Let_def list_ex_iff split: if_splits sum.splits prod.splits dest!: deleteRows_db)

lemma dbDeleteRecording_Inr:
  assumes "dbDeleteRecording pf rid cids db = Inr db'"
  shows "db' = db\<lparr>db_recordings := filter (\<lambda>r. rr_id r \<noteq> rid) (db_recordings db),
    db_clips := filter (\<lambda>c. cl_id c \<notin> set cids \<and> cl_sourceRecordingId c \<noteq> rid) (db_clips db)\<rparr>"
  using assms by (auto simp: dbDeleteRecording_def split: if_splits)

lemma expireClip_db:
  assumes "expireClip pf protection c st = (out, st')"
  shows "out \<noteq> RowDeleted \<Longrightarrow> st_db st' = st_db st"
    and "out = RowDeleted \<Longrightarrow> cl_id c \<notin> set (ps_clipIds protection)
      \<and> st_db st' = (st_db st)\<lparr>db_clips := filter (\<lambda>x. cl_id x \<noteq> cl_id c) (db_clips (st_db st))\<rparr>"
  using assms by (auto simp: expireClip_def split: if_splits sum.splits prod.splits dest!: deleteClip_db(2))

lemma expireRecording_db:
  assumes "expireRecording pf protection policy window now r st = (out, st')"
  shows "out \<noteq> RowDeleted \<Longrightarrow> st_db st' = st_db st"
    and "out = RowDeleted \<Longrightarrow> \<exists>st1. deleteRecording pf r protection st = (Inr True, st1) \<and> st_db st' = st_db st1"
proof -
  show "st_db st' = st_db st" if "out \<noteq> RowDeleted"
    using assms that deleteRecording_db(2) [of pf r protection st]
    by (fastforce simp: expireRecording_def split: if_splits sum.splits prod.splits bool.splits)
  show "\<exists>st1. deleteRecording pf r protection st = (Inr True, st1) \<and> st_db st' = st_db st1" if "out = RowDeleted"
    using assms that by (fastforce simp: expireRecording_def split: if_splits sum.splits prod.splits bool.splits)
qed

section \<open>Rows and files together\<close>

text \<open>A platform without faults, a disk without pending deletions, and files inside the root.\<close>

definition faultFree :: "platform \<Rightarrow> bool" where
  "faultFree pf \<longleftrightarrow> clean_path (pf_root pf) \<and> (\<forall>p q. ft_rename (pf_faults pf) p q) \<and> ft_sync (pf_faults pf)
     \<and> ft_rm (pf_faults pf) \<and> (\<forall>d. uuidLike (pf_newId pf d)) \<and> (\<forall>i. \<not> pf_txFails pf i)"

definition journalEmpty :: "platform \<Rightarrow> disk \<Rightarrow> bool" where
  "journalEmpty pf d \<longleftrightarrow> dk_operations d = [] \<and> \<not> pathExists (pf_root pf @ [JOURNAL_DIR]) d"

definition inside :: "path \<Rightarrow> path \<Rightarrow> bool" where
  "inside rootp p \<longleftrightarrow> (\<exists>c rel. p = rootp @ c # rel \<and> clean_path (c # rel) \<and> c \<noteq> JOURNAL_DIR)"

definition placed :: "platform \<Rightarrow> string \<Rightarrow> bool" where
  "placed pf f \<longleftrightarrow> (\<exists>p. ensureFileUnderRoot pf f = Inr p \<and> inside (pf_root pf) p)"

lemma journalEmpty_ready:
  assumes "faultFree pf" "journalEmpty pf d"
  shows "stagingReady (pf_faults pf) (pf_root pf) (pf_newId pf d) d"
  using assms
  by (auto simp: stagingReady_def freshOp_def wayBack_def faultFree_def journalEmpty_def pathExists_iff operationRoot_def
      prefix_def)

lemma filesRemoved_journalEmpty: "journalEmpty pf d \<Longrightarrow> journalEmpty pf (filesRemoved p cs d)"
  by (auto simp: journalEmpty_def filesRemoved_def pathExists_iff)

lemma resolve_showPath: "clean_path p \<Longrightarrow> p \<noteq> [] \<Longrightarrow> resolvePath b (showPath p) = p"
  using joinPath_rel [of p "[]"] by (simp add: resolvePath_def isAbsolute_def showPath_def joinPath_def)

lemma relativeCandidates_inside:
  assumes "clean_path rootp" "\<forall>p\<in>set ps. inside rootp p"
  shows "\<exists>rels. relativeCandidates rootp (map showPath ps) = Inr rels"
  using assms(2)
proof (induction ps)
  case (Cons p ps)
  then obtain c rel where p: "p = rootp @ c # rel" "clean_path (c # rel)" "c \<noteq> JOURNAL_DIR"
    by (auto simp: inside_def)
  have "resolvePath rootp (showPath p) = p" using p assms(1) by (intro resolve_showPath) auto
  with p Cons assertUnderRoot_ok [of "c # rel" rootp] show ?case by (auto simp: clean_def)
qed simp

lemma stageLoop_ok: "\<forall>p q. ft_rename fl p q \<Longrightarrow> snd (snd (fst (stageLoop fl rootp es d)))"
  by (induction fl rootp es d rule: stageLoop.induct) (auto simp: Let_def split_beta)

lemma stage_inside:
  assumes "faultFree pf" "journalEmpty pf d" "\<forall>p\<in>set ps. inside (pf_root pf) p"
  shows "\<exists>staged d'. stageFileDeletion (pf_faults pf) (pf_root pf) (pf_newId pf d) now (map showPath ps) gs d = (Inr staged, d')"
proof -
  from assms relativeCandidates_inside obtain rels where
    rels: "relativeCandidates (pf_root pf) (map showPath ps) = Inr rels" unfolding faultFree_def by blast
  let ?j = "makeJournal (pf_newId pf d) now (js_uniq rels) gs"
  have "freshOp (pf_root pf) (pf_newId pf d) d"
    using journalEmpty_ready [OF assms(1,2)] by (simp add: stagingReady_def)
  then have "writeDurableJournal (pf_faults pf) ?j d = (Inr (), storeJournal ?j d)"
    using writeDurableJournal_fresh [of "pf_root pf" ?j d "pf_faults pf"] assms(1)
    by (simp add: faultFree_def makeJournal_def)
  then show ?thesis
    using rels assms(1) stageLoop_ok [of "pf_faults pf" "pf_root pf" "dj_entries ?j" "storeJournal ?j d"]
    by (auto simp: stageFileDeletion_def stageUntil_def turnsUntil_def Let_def split_beta faultFree_def)
qed

lemma deleteRows_disk:
  assumes "stagingReady (pf_faults pf) (pf_root pf) (pf_newId pf (st_disk st)) (st_disk st)"
    and "deleteRowsWithFiles pf paths guards del st = (res, st')"
  shows "case res of Inl _ \<Rightarrow> st' = st | Inr _ \<Rightarrow> st_disk st' = filesRemoved (pf_root pf) paths (st_disk st)"
  using assms(1)
proof (cases rule: fd.transaction [of _ _ _ _ "pf_stamp pf" paths guards])
  case (failed e)
  with assms(2) show ?thesis by (auto simp: deleteRowsWithFiles_def)
next
  case (staged stg d')
  with assms(2) show ?thesis by (auto simp: deleteRowsWithFiles_def split: sum.splits)
qed

lemma deleteClip_disk:
  assumes "stagingReady (pf_faults pf) (pf_root pf) (pf_newId pf (st_disk st)) (st_disk st)"
    and "deleteClip pf c st = (res, st')"
  shows "case res of Inl _ \<Rightarrow> st' = st
    | Inr _ \<Rightarrow> (\<exists>p. ensureFileUnderRoot pf (cl_filePath c) = Inr p
        \<and> st_disk st' = filesRemoved (pf_root pf) [showPath p] (st_disk st))"
proof (cases "ensureFileUnderRoot pf (cl_filePath c)")
  case (Inr p)
  with assms(2) have "deleteRowsWithFiles pf [showPath p] [\<lparr>dg_model = GuardExportedClip, dg_id = cl_id c\<rparr>]
      (dbDeleteClip pf (cl_id c)) st = (res, st')" by (simp add: deleteClip_def)
  from deleteRows_disk [OF assms(1) this] Inr show ?thesis by (simp split: sum.splits)
qed (use assms(2) in \<open>auto simp: deleteClip_def\<close>)

text \<open>The rows and the files that deleting a recording takes with it.\<close>

definition clipsOf :: "recordingRow \<Rightarrow> retDb \<Rightarrow> clipRow list" where
  "clipsOf r db = filter (\<lambda>c. cl_sourceRecordingId c = rr_id r) (db_clips db)"

lemma deleteRecording_disk:
  assumes "stagingReady (pf_faults pf) (pf_root pf) (pf_newId pf (st_disk st)) (st_disk st)"
    and "deleteRecording pf r protection st = (out, st')"
  shows "if out = Inr True
    then \<exists>p cps. ensureFileUnderRoot pf (rr_filePath r) = Inr p
      \<and> ensureAll pf (map cl_filePath (clipsOf r (st_db st))) = Inr cps
      \<and> st_disk st' = filesRemoved (pf_root pf) (map showPath (cps @ recordingPaths pf r p)) (st_disk st)
    else st' = st"
proof (cases "rr_id r \<in> set (ps_recordingIds protection)
    \<or> list_ex (\<lambda>c. cl_id c \<in> set (ps_clipIds protection)) (clipsOf r (st_db st))")
  case False
  show ?thesis
  proof (cases "ensureFileUnderRoot pf (rr_filePath r)")
    case p: (Inr p)
    show ?thesis
    proof (cases "ensureAll pf (map cl_filePath (clipsOf r (st_db st)))")
      case cps: (Inr cps)
      let ?paths = "map showPath (cps @ recordingPaths pf r p)"
      let ?guards = "\<lparr>dg_model = GuardRecording, dg_id = rr_id r\<rparr>
          # map (\<lambda>c. \<lparr>dg_model = GuardExportedClip, dg_id = cl_id c\<rparr>) (clipsOf r (st_db st))"
      let ?del = "dbDeleteRecording pf (rr_id r) (map cl_id (clipsOf r (st_db st)))"
      obtain res st1 where d: "deleteRowsWithFiles pf ?paths ?guards ?del st = (res, st1)" by fastforce
      from assms(2) False p cps d have "st' = st1" "out = (case res of Inl e \<Rightarrow> Inl e | Inr _ \<Rightarrow> Inr True)"
        by (auto simp: deleteRecording_def clipsOf_def Let_def split: sum.splits)
      with deleteRows_disk [OF assms(1) d] p cps show ?thesis by (cases res) auto
    qed (use assms(2) False p in \<open>auto simp: deleteRecording_def clipsOf_def Let_def\<close>)
  qed (use assms(2) False in \<open>auto simp: deleteRecording_def clipsOf_def Let_def\<close>)
qed (use assms(2) in \<open>auto simp: deleteRecording_def clipsOf_def Let_def split: if_splits\<close>)

subsection \<open>Orderly states\<close>

definition uniqueKeys :: "retDb \<Rightarrow> bool" where
  "uniqueKeys db \<longleftrightarrow> distinct (map rr_id (db_recordings db)) \<and> distinct (map cl_id (db_clips db))"

definition settled :: "platform \<Rightarrow> protectionSets \<Rightarrow> retState \<Rightarrow> bool" where
  "settled pf protection st \<longleftrightarrow> faultFree pf \<and> journalEmpty pf (st_disk st)
     \<and> (\<forall>c\<in>set (db_clips (st_db st)). placed pf (cl_filePath c)
          \<and> (cl_id c \<in> set (ps_clipIds protection) \<longrightarrow> cl_sourceRecordingId c \<in> set (ps_recordingIds protection)))"

text \<open>The primary keys, and with \<open>b\<close> also everything that makes deletions succeed.\<close>

definition orderly :: "bool \<Rightarrow> platform \<Rightarrow> protectionSets \<Rightarrow> retState \<Rightarrow> bool" where
  "orderly b pf protection st \<longleftrightarrow> uniqueKeys (st_db st) \<and> (b \<longrightarrow> settled pf protection st)"

lemma settled_ready:
  "settled pf protection st \<Longrightarrow> stagingReady (pf_faults pf) (pf_root pf) (pf_newId pf (st_disk st)) (st_disk st)"
  using journalEmpty_ready by (simp add: settled_def)

lemma settled_step:
  assumes "settled pf protection st" "set (db_clips (st_db st')) \<subseteq> set (db_clips (st_db st))"
    and "st_disk st' = st_disk st \<or> (\<exists>paths. st_disk st' = filesRemoved (pf_root pf) paths (st_disk st))"
  shows "settled pf protection st'"
  using assms filesRemoved_journalEmpty unfolding settled_def by (metis subsetD)

lemma orderly_deleteRecording:
  assumes "orderly b pf protection st" "deleteRecording pf r protection st = (out, st')"
  shows "orderly b pf protection st'"
proof (cases "out = Inr True")
  case True
  note d = deleteRecording_db(3) [OF assms(2) True]
  note db = dbDeleteRecording_Inr [OF d [THEN conjunct2, THEN conjunct2]]
  have "uniqueKeys (st_db st')" using assms(1) by (simp add: orderly_def uniqueKeys_def db distinct_map_filter)
  moreover have "settled pf protection st'" if "settled pf protection st"
    using that
  proof (rule settled_step)
    show "set (db_clips (st_db st')) \<subseteq> set (db_clips (st_db st))" by (auto simp: db)
    show "st_disk st' = st_disk st \<or> (\<exists>paths. st_disk st' = filesRemoved (pf_root pf) paths (st_disk st))"
      using deleteRecording_disk [OF settled_ready [OF that] assms(2)] True by auto
  qed
  ultimately show ?thesis using assms(1) by (simp add: orderly_def)
next
  case False
  have "settled pf protection st'" if "settled pf protection st"
    using that deleteRecording_disk [OF settled_ready [OF that] assms(2)] False by auto
  then show ?thesis using assms(1) deleteRecording_db(2) [OF assms(2) False] by (simp add: orderly_def)
qed

lemma orderly_deleteClip:
  assumes "orderly b pf protection st" "deleteClip pf c st = (res, st')"
  shows "orderly b pf protection st'"
proof -
  have db: "st_db st' = st_db st
      \<or> st_db st' = (st_db st)\<lparr>db_clips := filter (\<lambda>x. cl_id x \<noteq> cl_id c) (db_clips (st_db st))\<rparr>"
    using deleteClip_db(2) [OF assms(2)] by (cases res) auto
  then have "uniqueKeys (st_db st')" using assms(1) by (auto simp: orderly_def uniqueKeys_def distinct_map_filter)
  moreover have "settled pf protection st'" if "settled pf protection st"
    using that
  proof (rule settled_step)
    show "set (db_clips (st_db st')) \<subseteq> set (db_clips (st_db st))" using db by auto
    show "st_disk st' = st_disk st \<or> (\<exists>paths. st_disk st' = filesRemoved (pf_root pf) paths (st_disk st))"
      using deleteClip_disk [OF settled_ready [OF that] assms(2)] by (cases res) auto
  qed
  ultimately show ?thesis using assms(1) by (simp add: orderly_def)
qed

text \<open>Only the counters change beside the database and the disk.\<close>

lemma orderly_cong:
  "st_db st' = st_db st \<Longrightarrow> st_disk st' = st_disk st \<Longrightarrow> orderly b pf protection st' = orderly b pf protection st"
  by (simp add: orderly_def settled_def)

lemma orderly_expireClip:
  assumes "orderly b pf protection st"
  shows "orderly b pf protection (snd (expireClip pf protection c st))"
  using orderly_deleteClip [OF assms, of c] assms orderly_cong
  by (auto simp: expireClip_def orderly_def settled_def split: prod.splits sum.splits)

lemma orderly_expireRecording:
  assumes "orderly b pf protection st"
  shows "orderly b pf protection (snd (expireRecording pf protection policy window now r st))"
  using orderly_deleteRecording [OF assms, of r] assms
  by (auto simp: expireRecording_def orderly_def settled_def split: prod.splits sum.splits bool.splits)

subsection \<open>Deletions that succeed\<close>

definition rowPlaced :: "platform \<Rightarrow> recordingRow \<Rightarrow> bool" where
  "rowPlaced pf r \<longleftrightarrow> placed pf (rr_filePath r) \<and> clean (rr_cameraId r) \<and> CHR ''/'' \<notin> set (rr_id r)"

lemma inside_last:
  assumes "inside rootp p" "clean n" "n \<noteq> JOURNAL_DIR"
  shows "inside rootp (butlast p @ [n])"
proof -
  from assms(1) obtain c rel where p: "p = rootp @ c # rel" "clean_path (c # rel)" "c \<noteq> JOURNAL_DIR"
    unfolding inside_def by blast
  show ?thesis
  proof (cases "rel = []")
    case True
    with p(1) assms(2,3) show ?thesis by (auto simp: inside_def butlast_append)
  next
    case False
    then have "butlast p @ [n] = rootp @ c # butlast rel @ [n]" by (simp add: p(1) butlast_append)
    moreover have "clean_path (c # butlast rel @ [n])"
      using p(2) assms(2) by (auto simp: clean_path_def dest: in_set_butlastD)
    ultimately show ?thesis unfolding inside_def using p(3) by metis
  qed
qed

lemma clean_extended:
  assumes "clean s" "ext \<in> set [''.thumb.jpg'', ''.preview.jpg'', ''.invalid.json'', ''.orphan-quarantine.json'']"
  shows "clean (stem s @ ext)" "clean (s @ ext)" "stem s @ ext \<noteq> JOURNAL_DIR" "s @ ext \<noteq> JOURNAL_DIR"
proof -
  have slash: "CHR ''/'' \<notin> set (stem s)" using assms(1) by (auto simp: stem_def clean_def dest: in_set_takeD)
  have ext: "2 < length ext" "CHR ''/'' \<notin> set ext" "last ext \<noteq> CHR ''s''" "ext \<noteq> []" using assms(2) by auto
  have "2 < length (x @ ext)" for x using ext(1) by simp
  then have "x @ ext \<noteq> [] \<and> x @ ext \<noteq> ''.'' \<and> x @ ext \<noteq> ''..''" for x
    by (metis add_2_eq_Suc' length_0_conv length_Cons less_Suc_eq less_irrefl not_less_zero plus_nat.add_0)
  then show "clean (stem s @ ext)" "clean (s @ ext)" using slash ext(2) assms(1) by (auto simp: clean_def)
  have "last (x @ ext) \<noteq> last JOURNAL_DIR" for x using ext(3,4) by (simp add: JOURNAL_DIR_def)
  then show "stem s @ ext \<noteq> JOURNAL_DIR" "s @ ext \<noteq> JOURNAL_DIR" by metis+
qed

lemma recordingPaths_inside:
  assumes "inside (pf_root pf) p" "rowPlaced pf r" "q \<in> set (recordingPaths pf r p)"
  shows "inside (pf_root pf) q"
proof -
  have ne: "p \<noteq> []" and cl: "clean (last p)"
    using assms(1) by (auto simp: inside_def clean_path_def)
  note ext = clean_extended [OF cl]
  have "inside (pf_root pf) (withExtension e p)" if "e \<in> {''.thumb.jpg'', ''.preview.jpg''}" for e
    using that ne inside_last [OF assms(1)] ext [of e] by (auto simp: withExtension_def)
  moreover have "inside (pf_root pf) (withSuffix e p)" if "e \<in> {''.invalid.json'', ''.orphan-quarantine.json''}" for e
    using that ne inside_last [OF assms(1)] ext [of e] by (auto simp: withSuffix_def)
  moreover have "inside (pf_root pf) (pf_root pf @ [''.playback-compatible'', rr_cameraId r, rr_id r @ ''.mp4''])"
    using assms(2) by (auto simp: inside_def rowPlaced_def clean_def JOURNAL_DIR_def append_eq_Cons_conv)
  ultimately show ?thesis
    using assms(1,3) by (auto simp: recordingPaths_def derivedThumbnailPath_def buildTimelinePreviewPath_def)
qed

lemma ensureAll_placed:
  "\<forall>f\<in>set fs. placed pf f \<Longrightarrow> \<exists>ps. ensureAll pf fs = Inr ps \<and> (\<forall>p\<in>set ps. inside (pf_root pf) p)"
proof (induction fs)
  case (Cons f fs)
  then obtain p ps where "ensureFileUnderRoot pf f = Inr p" "inside (pf_root pf) p"
    "ensureAll pf fs = Inr ps" "\<forall>p\<in>set ps. inside (pf_root pf) p" by (auto simp: placed_def)
  then show ?case by auto
qed simp

lemma deleteRecording_succeeds:
  assumes "settled pf protection st" "r \<in> set (db_recordings (st_db st))" "rowPlaced pf r"
    and "rr_id r \<notin> set (ps_recordingIds protection)"
  shows "fst (deleteRecording pf r protection st) = Inr True"
proof -
  let ?clips = "filter (\<lambda>c. cl_sourceRecordingId c = rr_id r) (db_clips (st_db st))"
  have ff: "faultFree pf" and je: "journalEmpty pf (st_disk st)" using assms(1) by (simp_all add: settled_def)
  have unheld: "\<not> list_ex (\<lambda>c. cl_id c \<in> set (ps_clipIds protection)) ?clips"
    using assms(1,4) by (auto simp: list_ex_iff settled_def)
  obtain p where p: "ensureFileUnderRoot pf (rr_filePath r) = Inr p" "inside (pf_root pf) p"
    using assms(3) by (auto simp: rowPlaced_def placed_def)
  have "\<forall>f\<in>set (map cl_filePath ?clips). placed pf f" using assms(1) by (auto simp: settled_def)
  from ensureAll_placed [OF this] obtain cps where
    cps: "ensureAll pf (map cl_filePath ?clips) = Inr cps" "\<forall>q\<in>set cps. inside (pf_root pf) q" by blast
  let ?guards = "\<lparr>dg_model = GuardRecording, dg_id = rr_id r\<rparr>
      # map (\<lambda>c. \<lparr>dg_model = GuardExportedClip, dg_id = cl_id c\<rparr>) ?clips"
  have "\<forall>q\<in>set (cps @ recordingPaths pf r p). inside (pf_root pf) q"
    using cps(2) recordingPaths_inside [OF p(2) assms(3)] by auto
  from stage_inside [OF ff je this] obtain staged d' where
    stg: "stageFileDeletion (pf_faults pf) (pf_root pf) (pf_newId pf (st_disk st)) (pf_stamp pf)
        (map showPath (cps @ recordingPaths pf r p)) ?guards (st_disk st) = (Inr staged, d')" by blast
  have del: "\<exists>db'. dbDeleteRecording pf (rr_id r) cids (st_db st) = Inr db'" for cids
    using assms(2) ff by (simp add: dbDeleteRecording_def faultFree_def)
  then obtain db' where "dbDeleteRecording pf (rr_id r) (map cl_id ?clips) (st_db st) = Inr db'" by blast
  with stg have "fst (deleteRowsWithFiles pf (map showPath (cps @ recordingPaths pf r p)) ?guards
      (dbDeleteRecording pf (rr_id r) (map cl_id ?clips)) st) = Inr ()"
    by (simp add: deleteRowsWithFiles_def)
  then show ?thesis
    using assms(4) unheld p(1) cps(1) by (auto simp: deleteRecording_def Let_def split: prod.splits)
qed

interpretation clips: paged_expiry "clipQuery grp now" "expireClip pf protection"
    "orderly b pf protection" "\<lambda>st. length (db_clips (st_db st))" for grp now pf protection b
proof
  fix st pre r post st'
  assume u: "orderly b pf protection st" and q: "clipQuery grp now st = pre @ r # post"
    and f: "expireClip pf protection r st = (RowDeleted, st')"
  note db = expireClip_db(2) [OF f refl, THEN conjunct2]
  note rm = filter_remove_key [OF _ q [unfolded clipQuery_def], of cl_id]
  show "orderly b pf protection st' \<and> clipQuery grp now st' = pre @ post
      \<and> length (db_clips (st_db st)) = Suc (length (db_clips (st_db st')))"
    using u rm orderly_expireClip [OF u, of r] f unfolding orderly_def uniqueKeys_def clipQuery_def by (simp add: db)
next
  fix st r out st'
  assume u: "orderly b pf protection st" and f: "expireClip pf protection r st = (out, st')" "out \<noteq> RowDeleted"
  from expireClip_db(1) [OF f] orderly_expireClip [OF u, of r] f(1)
  show "orderly b pf protection st' \<and> clipQuery grp now st' = clipQuery grp now st
      \<and> length (db_clips (st_db st')) = length (db_clips (st_db st))"
    by (simp add: clipQuery_def)
qed

interpretation recs: paged_expiry "recordingQuery hasColumn grp window now"
    "expireRecording pf protection policy window now"
    "orderly b pf protection" "\<lambda>st. length (db_recordings (st_db st))"
    for hasColumn grp window now pf protection policy b
proof
  fix st pre r post st'
  assume u: "orderly b pf protection st" and q: "recordingQuery hasColumn grp window now st = pre @ r # post"
    and f: "expireRecording pf protection policy window now r st = (RowDeleted, st')"
  from expireRecording_db(2) [OF f refl] obtain st1 where
    d: "deleteRecording pf r protection st = (Inr True, st1)" "st_db st' = st_db st1" by blast
  note db = dbDeleteRecording_Inr [OF deleteRecording_db(3) [OF d(1) refl, THEN conjunct2, THEN conjunct2]]
  note rm = filter_remove_key [OF _ q [unfolded recordingQuery_def], of rr_id]
  show "orderly b pf protection st' \<and> recordingQuery hasColumn grp window now st' = pre @ post
      \<and> length (db_recordings (st_db st)) = Suc (length (db_recordings (st_db st')))"
    using u rm orderly_expireRecording [OF u, of policy window now r] f
    unfolding orderly_def uniqueKeys_def recordingQuery_def by (simp add: d(2) db)
next
  fix st r out st'
  assume u: "orderly b pf protection st" and f: "expireRecording pf protection policy window now r st = (out, st')"
    "out \<noteq> RowDeleted"
  from expireRecording_db(1) [OF f] orderly_expireRecording [OF u, of policy window now r] f(1)
  show "orderly b pf protection st'
      \<and> recordingQuery hasColumn grp window now st' = recordingQuery hasColumn grp window now st
      \<and> length (db_recordings (st_db st')) = length (db_recordings (st_db st))"
    by (simp add: recordingQuery_def)
qed

section \<open>What is held\<close>

definition listsId :: "json option \<Rightarrow> string \<Rightarrow> string \<Rightarrow> bool" where
  "listsId m k x \<longleftrightarrow> (\<exists>js. objField m k = Some (JArr js) \<and> JStr x \<in> set js)"

definition namesId :: "json option \<Rightarrow> string \<Rightarrow> string \<Rightarrow> bool" where
  "namesId m k x \<longleftrightarrow> objField m k = Some (JStr x)"

text \<open>A legal hold in force: the newest of its investigation (items have the newest first), and enabled.\<close>

definition newestHold :: "itemRow list \<Rightarrow> itemRow \<Rightarrow> bool" where
  "newestHold items i \<longleftrightarrow> (\<exists>xs ys. items = xs @ i # ys \<and> it_type i = ''legal_hold''
     \<and> (\<forall>x\<in>set xs. it_type x = ''legal_hold'' \<longrightarrow> it_investigationId x \<noteq> it_investigationId i))"

definition activeHold :: "retDb \<Rightarrow> itemRow \<Rightarrow> bool" where
  "activeHold db i \<longleftrightarrow> newestHold (db_items db) i \<and> holdEnabled (it_metadata i)"

definition evidenceItem :: "retDb \<Rightarrow> itemRow \<Rightarrow> bool" where
  "evidenceItem db i \<longleftrightarrow> i \<in> set (db_items db) \<and> it_type i \<noteq> ''legal_hold''"

definition clipHeld :: "retDb \<Rightarrow> string \<Rightarrow> bool" where
  "clipHeld db x \<longleftrightarrow> (\<exists>i. activeHold db i \<and> listsId (it_metadata i) ''clipIds'' x)
     \<or> (\<exists>i. evidenceItem db i \<and> (namesId (it_metadata i) ''clipId'' x \<or> listsId (it_metadata i) ''clipIds'' x))"

definition recordingHeld :: "retDb \<Rightarrow> string \<Rightarrow> bool" where
  "recordingHeld db x \<longleftrightarrow> (\<exists>i. activeHold db i \<and> listsId (it_metadata i) ''recordingIds'' x)
     \<or> (\<exists>i. evidenceItem db i \<and> (it_recordingId i = Some x \<and> x \<noteq> []
          \<or> namesId (it_metadata i) ''recordingId'' x \<or> listsId (it_metadata i) ''recordingIds'' x))
     \<or> (\<exists>c\<in>set (db_clips db). clipHeld db (cl_id c) \<and> cl_sourceRecordingId c = x)"

definition eventHeld :: "retDb \<Rightarrow> string \<Rightarrow> bool" where
  "eventHeld db x \<longleftrightarrow> (\<exists>i. activeHold db i \<and> listsId (it_metadata i) ''eventIds'' x)
     \<or> (\<exists>i. evidenceItem db i \<and> (it_eventId i = Some x \<and> x \<noteq> [] \<or> namesId (it_metadata i) ''eventId'' x))"

lemma set_strings: "x \<in> set (strings js) \<longleftrightarrow> JStr x \<in> set js"
  by (induction js rule: strings.induct) auto

lemma set_stringArray: "x \<in> set (stringArray (objField m k)) \<longleftrightarrow> listsId m k x"
  by (cases "objField m k") (auto simp: stringArray_def listsId_def set_strings split: json.splits)

lemma set_stringField: "x \<in> set (stringField (objField m k)) \<longleftrightarrow> namesId m k x"
  by (cases "objField m k") (auto simp: stringField_def namesId_def split: json.splits)

lemma set_nonEmpty: "x \<in> set (nonEmpty f) \<longleftrightarrow> f = Some x \<and> x \<noteq> []"
  by (auto simp: nonEmpty_def split: option.splits)

lemma newestHold_Nil: "\<not> newestHold [] i"
  by (simp add: newestHold_def)

lemma newestHold_Cons:
  "newestHold (row # rows) i \<longleftrightarrow> i = row \<and> it_type row = ''legal_hold''
     \<or> newestHold rows i \<and> \<not> (it_type row = ''legal_hold'' \<and> it_investigationId row = it_investigationId i)"
proof
  assume "newestHold (row # rows) i"
  then show "i = row \<and> it_type row = ''legal_hold''
     \<or> newestHold rows i \<and> \<not> (it_type row = ''legal_hold'' \<and> it_investigationId row = it_investigationId i)"
    unfolding newestHold_def by (auto simp: Cons_eq_append_conv)
next
  assume "i = row \<and> it_type row = ''legal_hold''
     \<or> newestHold rows i \<and> \<not> (it_type row = ''legal_hold'' \<and> it_investigationId row = it_investigationId i)"
  then show "newestHold (row # rows) i"
  proof
    assume "i = row \<and> it_type row = ''legal_hold''"
    then show ?thesis unfolding newestHold_def by force
  next
    assume r: "newestHold rows i \<and> \<not> (it_type row = ''legal_hold'' \<and> it_investigationId row = it_investigationId i)"
    then obtain xs ys where "rows = xs @ i # ys" "it_type i = ''legal_hold''"
      "\<forall>x\<in>set xs. it_type x = ''legal_hold'' \<longrightarrow> it_investigationId x \<noteq> it_investigationId i"
      unfolding newestHold_def by blast
    with r show ?thesis unfolding newestHold_def by (intro exI [of _ "row # xs"] exI [of _ ys]) auto
  qed
qed

lemma set_latestHolds:
  "m \<in> set (latestHolds seen items) \<longleftrightarrow>
     (\<exists>i. newestHold items i \<and> it_investigationId i \<notin> set seen \<and> it_metadata i = m)"
proof (induction items arbitrary: seen)
  case (Cons row rows)
  show ?case
  proof (cases "it_type row \<noteq> ''legal_hold'' \<or> it_investigationId row \<in> set seen")
    case True
    then have "m \<in> set (latestHolds seen (row # rows))
        \<longleftrightarrow> (\<exists>i. newestHold rows i \<and> it_investigationId i \<notin> set seen \<and> it_metadata i = m)"
      using Cons.IH by (simp del: insert_iff)
    also have "\<dots> \<longleftrightarrow> (\<exists>i. newestHold (row # rows) i \<and> it_investigationId i \<notin> set seen \<and> it_metadata i = m)"
      unfolding newestHold_Cons using True by metis
    finally show ?thesis .
  next
    case False
    then have "m \<in> set (latestHolds seen (row # rows)) \<longleftrightarrow> m = it_metadata row
        \<or> (\<exists>i. newestHold rows i \<and> it_investigationId i \<notin> set (it_investigationId row # seen) \<and> it_metadata i = m)"
      using Cons.IH by simp
    also have "\<dots> \<longleftrightarrow> (\<exists>i. newestHold (row # rows) i \<and> it_investigationId i \<notin> set seen \<and> it_metadata i = m)"
      unfolding newestHold_Cons using False by (metis list.set_intros(1) list.set_intros(2) set_ConsD)
    finally show ?thesis .
  qed
qed (simp add: newestHold_Nil)

lemma holds_iff:
  "(\<exists>m\<in>set (filter holdEnabled (latestHolds [] (db_items db))). P m) \<longleftrightarrow> (\<exists>i. activeHold db i \<and> P (it_metadata i))"
  by (auto simp: set_latestHolds activeHold_def)

lemmas protection_set_simps = set_stringArray set_stringField set_nonEmpty set_latestHolds

lemma clipHeld_iff: "x \<in> set (ps_clipIds (getProtectionSets db)) \<longleftrightarrow> clipHeld db x"
  unfolding getProtectionSets_def Let_def clipHeld_def evidenceItem_def activeHold_def
  by (auto simp: protection_set_simps)

lemma recordingHeld_iff: "x \<in> set (ps_recordingIds (getProtectionSets db)) \<longleftrightarrow> recordingHeld db x"
proof -
  have "x \<in> set (ps_recordingIds (getProtectionSets db)) \<longleftrightarrow>
      (\<exists>m\<in>set (filter holdEnabled (latestHolds [] (db_items db))). listsId m ''recordingIds'' x)
      \<or> (\<exists>i. evidenceItem db i \<and> (it_recordingId i = Some x \<and> x \<noteq> []
          \<or> namesId (it_metadata i) ''recordingId'' x \<or> listsId (it_metadata i) ''recordingIds'' x))
      \<or> (\<exists>c\<in>set (db_clips db). cl_id c \<in> set (ps_clipIds (getProtectionSets db)) \<and> cl_sourceRecordingId c = x)"
    unfolding getProtectionSets_def Let_def evidenceItem_def
    by (auto simp: set_stringArray set_stringField set_nonEmpty)
  then show ?thesis unfolding recordingHeld_def holds_iff clipHeld_iff .
qed

lemma eventHeld_iff: "x \<in> set (ps_eventIds (getProtectionSets db)) \<longleftrightarrow> eventHeld db x"
  unfolding getProtectionSets_def Let_def eventHeld_def evidenceItem_def activeHold_def
  by (auto simp: protection_set_simps)

section \<open>Protected rows\<close>

definition keepsProtected :: "protectionSets \<Rightarrow> retDb \<Rightarrow> retDb \<Rightarrow> bool" where
  "keepsProtected protection db db' \<longleftrightarrow>
     (\<forall>r\<in>set (db_recordings db). rr_id r \<in> set (ps_recordingIds protection) \<longrightarrow> r \<in> set (db_recordings db'))
     \<and> (\<forall>c\<in>set (db_clips db). cl_id c \<in> set (ps_clipIds protection) \<longrightarrow> c \<in> set (db_clips db'))
     \<and> (\<forall>e\<in>set (db_events db). ev_id e \<in> set (ps_eventIds protection) \<longrightarrow> e \<in> set (db_events db'))"

lemma keepsProtected_refl: "keepsProtected protection db db"
  by (simp add: keepsProtected_def)

lemma keepsProtected_deleteRecording:
  assumes "keepsProtected protection db (st_db st)"
  shows "keepsProtected protection db (st_db (snd (deleteRecording pf r protection st)))"
proof (cases "deleteRecording pf r protection st")
  case (Pair out st')
  show ?thesis
  proof (cases "out = Inr True")
    case True
    note d = deleteRecording_db(3) [OF Pair True]
    note db = dbDeleteRecording_Inr [OF d [THEN conjunct2, THEN conjunct2]]
    from assms d show ?thesis unfolding keepsProtected_def Pair snd_conv db by fastforce
  next
    case False
    with deleteRecording_db(2) [OF Pair] assms Pair show ?thesis by simp
  qed
qed

lemma keepsProtected_expireClip:
  assumes "keepsProtected protection db (st_db st)"
  shows "keepsProtected protection db (st_db (snd (expireClip pf protection c st)))"
proof (cases "expireClip pf protection c st")
  case (Pair out st')
  with expireClip_db [OF Pair] assms show ?thesis by (cases "out = RowDeleted") (auto simp: keepsProtected_def)
qed

lemma keepsProtected_expireRecording:
  assumes "keepsProtected protection db (st_db st)"
  shows "keepsProtected protection db (st_db (snd (expireRecording pf protection policy window now r st)))"
proof (cases "expireRecording pf protection policy window now r st")
  case (Pair out st')
  with expireRecording_db [OF Pair] keepsProtected_deleteRecording [OF assms, of pf r] assms show ?thesis
    by (cases "out = RowDeleted") force+
qed

lemma keepsProtected_clips:
  "keepsProtected protection db (st_db st) \<Longrightarrow>
     expireClipsInBatches pf now protection batchSize groups budget st = Some st' \<Longrightarrow>
     keepsProtected protection db (st_db st')"
proof (induction groups arbitrary: budget st)
  case (Cons grp groups)
  then obtain b st1 where
    "pageLoop (clipFuel st) (clipQuery grp now) (expireClip pf protection) batchSize 0 budget st = Some (b, st1)"
    "expireClipsInBatches pf now protection batchSize groups b st1 = Some st'" by (auto split: option.splits)
  with Cons pageLoop_preserves [where P = "\<lambda>st. keepsProtected protection db (st_db st)"
      and f = "expireClip pf protection"] keepsProtected_expireClip
  show ?case by blast
qed simp

lemma noteMotionRetained_same [simp]:
  "st_db (noteMotionRetained pf policy grp now st) = st_db st"
  "st_disk (noteMotionRetained pf policy grp now st) = st_disk st"
  by (simp_all add: noteMotionRetained_def)

lemma keepsProtected_recordings:
  "keepsProtected protection db (st_db st) \<Longrightarrow>
     expireRecordingsInBatches pf now protection policy batchSize groups budget st = Some st' \<Longrightarrow>
     keepsProtected protection db (st_db st')"
proof (induction groups arbitrary: budget st)
  case (Cons grp groups)
  show ?case
  proof (cases "budget \<le> 0")
    case False
    with Cons.prems obtain b st1 where g: "expireGroup pf now protection policy batchSize grp budget st = Some (b, st1)"
      "expireRecordingsInBatches pf now protection policy batchSize groups b st1 = Some st'"
      by (auto split: option.splits)
    have noted: "keepsProtected protection db (st_db (noteMotionRetained pf policy grp now st))" using Cons.prems(1) by simp
    have "keepsProtected protection db (st_db st1)"
      by (rule pageLoop_preserves [where P = "\<lambda>st. keepsProtected protection db (st_db st)",
            OF _ noted g(1) [unfolded expireGroup_def Let_def]]) (rule keepsProtected_expireRecording)
    with Cons.IH g(2) show ?thesis by blast
  qed (use Cons.prems in simp)
qed simp

lemma keepsProtected_guardBatch:
  "keepsProtected protection db (st_db st) \<Longrightarrow>
     keepsProtected protection db (st_db (snd (guardBatch pf protection rs st)))"
proof (induction rs arbitrary: st)
  case (Cons r rs)
  from keepsProtected_deleteRecording [OF Cons.prems, of pf r] Cons.IH show ?case
    by (auto split: prod.splits sum.splits bool.splits) force+
qed simp

lemma guardRound_state:
  obtains rs where "length rs \<le> 20"
    "fst (guardRound pf protection target maxNoProgress current noProgress st) = fst (guardBatch pf protection rs st)"
    "fst (snd (guardRound pf protection target maxNoProgress current noProgress st)) = snd (guardBatch pf protection rs st)"
proof -
  let ?oldest = "take 20 (filter (\<lambda>r. rr_id r \<notin> set (ps_recordingIds protection)) (db_recordings (st_db st)))"
  show thesis
  proof (cases "current \<le> target \<or> ?oldest = []")
    case True
    with that [of "[]"] show thesis by (simp add: guardRound_def Let_def split_beta)
  next
    case False
    obtain k st1 where "guardBatch pf protection ?oldest st = (k, st1)" by fastforce
    with False that [of ?oldest] show thesis
      by (simp add: guardRound_def Let_def split: option.splits)
  qed
qed

lemma keepsProtected_guardLoop:
  "keepsProtected protection db (st_db st) \<Longrightarrow>
     keepsProtected protection db (st_db (snd (guardLoop pf protection target maxNoProgress n current noProgress st)))"
proof (induction n arbitrary: current noProgress st)
  case (Suc n)
  have "keepsProtected protection db (st_db (fst (snd (guardRound pf protection target maxNoProgress current noProgress st))))"
    using guardRound_state [of pf protection target maxNoProgress current noProgress st]
      keepsProtected_guardBatch [OF Suc.prems] by metis
  with Suc.IH show ?case by (auto simp: Let_def split: prod.splits option.splits) (metis snd_conv)
qed simp

lemma walk_db [simp]: "st_db (walk pf cameraId files ids dir compatible st) = st_db st"
  by (simp add: walk_def Let_def)

lemma orphanLoop_db [simp]: "st_db (snd (orphanLoop pf cameraIds st)) = st_db st"
  by (induction pf cameraIds st rule: orphanLoop.induct) (auto simp: Let_def split: sum.splits)

lemma cleanupOrphan_db [simp]: "st_db (snd (cleanupOrphanDerivedArtifacts pf st)) = st_db st"
  by (simp add: cleanupOrphanDerivedArtifacts_def Let_def)

lemma keepsProtected_events:
  "keepsProtected protection db (st_db st) \<Longrightarrow>
     keepsProtected protection db (st_db (deleteOldEvents env now protection st))"
  by (auto simp: keepsProtected_def deleteOldEvents_def Let_def)

lemma keepsProtected_checkDiskUsage:
  "keepsProtected protection db (st_db st) \<Longrightarrow>
     keepsProtected protection db (st_db (snd (checkDiskUsage pf env autoCleanup (Some protection) st)))"
  by (auto simp: checkDiskUsage_def keepsProtected_guardLoop split: option.splits)

text \<open>The passes in sequence; what each of them keeps, the whole pass keeps.\<close>

lemma handleRetention_cases:
  assumes "handleRetention pf env settings now st = (res, st')"
  obtains (skipped) "rs_autoCleanup settings = Some False" "res = Some (Inr ())" "st_db st' = st_db st"
    | (clipsOut) "res = None" "st_db st' = st_db st"
        "expireClipsInBatches pf now (getProtectionSets (st_db st)) (bl_batchSize (readBatchLimits env))
          (loadRetentionGroups (globalDays env settings) (st_db st)) (bl_maxPerCycle (readBatchLimits env))
          (st\<lparr>st_result := emptyResult\<rparr>) = None"
    | (recordingsOut) st1 where "res = None" "st' = st1"
        "expireClipsInBatches pf now (getProtectionSets (st_db st)) (bl_batchSize (readBatchLimits env))
          (loadRetentionGroups (globalDays env settings) (st_db st)) (bl_maxPerCycle (readBatchLimits env))
          (st\<lparr>st_result := emptyResult\<rparr>) = Some st1"
        "expireRecordingsInBatches pf now (getProtectionSets (st_db st)) (readTwoTierPolicy env)
          (bl_batchSize (readBatchLimits env)) (loadRetentionGroups (globalDays env settings) (st_db st))
          (bl_maxPerCycle (readBatchLimits env)) st1 = None"
    | (passed) st1 st2 st4 r where "res = Some r"
        "expireClipsInBatches pf now (getProtectionSets (st_db st)) (bl_batchSize (readBatchLimits env))
          (loadRetentionGroups (globalDays env settings) (st_db st)) (bl_maxPerCycle (readBatchLimits env))
          (st\<lparr>st_result := emptyResult\<rparr>) = Some st1"
        "expireRecordingsInBatches pf now (getProtectionSets (st_db st)) (readTwoTierPolicy env)
          (bl_batchSize (readBatchLimits env)) (loadRetentionGroups (globalDays env settings) (st_db st))
          (bl_maxPerCycle (readBatchLimits env)) st1 = Some st2"
        "st_db st4 = st_db (deleteOldEvents env now (getProtectionSets (st_db st)) st2)"
        "st' = st4 \<or> st' = snd (checkDiskUsage pf env (rs_autoCleanup settings) (Some (getProtectionSets (st_db st))) st4)"
proof (cases "rs_autoCleanup settings = Some False")
  case True
  with assms show thesis by (intro skipped) (auto simp: handleRetention_def Let_def)
next
  case False
  let ?p = "getProtectionSets (st_db st)" and ?l = "readBatchLimits env"
  let ?g = "loadRetentionGroups (globalDays env settings) (st_db st)"
  let ?clips = "expireClipsInBatches pf now ?p (bl_batchSize ?l) ?g (bl_maxPerCycle ?l) (st\<lparr>st_result := emptyResult\<rparr>)"
  show thesis
  proof (cases ?clips)
    case None
    with assms False show thesis by (intro clipsOut) (auto simp: handleRetention_def Let_def)
  next
    case c: (Some st1)
    let ?recs = "expireRecordingsInBatches pf now ?p (readTwoTierPolicy env) (bl_batchSize ?l) ?g (bl_maxPerCycle ?l) st1"
    show thesis
    proof (cases ?recs)
      case None
      with assms False c show thesis by (intro recordingsOut [of st1]) (auto simp: handleRetention_def Let_def)
    next
      case r: (Some st2)
      obtain o4 st4 where o: "cleanupOrphanDerivedArtifacts pf (deleteOldEvents env now ?p st2) = (o4, st4)" by fastforce
      then have "st_db st4 = st_db (deleteOldEvents env now ?p st2)" using cleanupOrphan_db by (metis snd_conv)
      then show thesis
        using assms False c r o by (cases o4) (auto simp: handleRetention_def Let_def intro!: passed)
    qed
  qed
qed

lemma handleRetention_keeps:
  "keepsProtected (getProtectionSets (st_db st)) (st_db st) (st_db (snd (handleRetention pf env settings now st)))"
proof (cases "handleRetention pf env settings now st")
  case (Pair res st')
  let ?k = "keepsProtected (getProtectionSets (st_db st)) (st_db st)"
  have start: "?k (st_db (st\<lparr>st_result := emptyResult\<rparr>))" by (simp add: keepsProtected_refl)
  from Pair have "?k (st_db st')"
  proof (cases rule: handleRetention_cases)
    case (recordingsOut st1)
    with keepsProtected_clips [OF start] show ?thesis by blast
  next
    case (passed st1 st2 st4 r)
    from keepsProtected_events [OF keepsProtected_recordings [OF keepsProtected_clips [OF start passed(2)] passed(3)]]
    have "?k (st_db st4)" unfolding passed(4) .
    with passed(5) keepsProtected_checkDiskUsage show ?thesis by blast
  qed (simp_all add: keepsProtected_refl)
  with Pair show ?thesis by simp
qed

end
