(* ===== verification/Retention_Pass.thy ===== *)
theory Retention_Pass
  imports Retention_Rows
begin

text \<open>
  The properties of one pass of the retention service and of the disk guardian: what survives, what
  goes, how much at most, and that the pass ends.
\<close>

section \<open>The expiry passes\<close>

lemma window_order: "rw_allDays (resolveRetentionWindow days policy) \<le> rw_motionDays (resolveRetentionWindow days policy)"
  by (simp add: resolveRetentionWindow_def Let_def)

lemma expiryWhere_iff:
  "buildExpiryWhere hasColumn grp (resolveRetentionWindow days policy) now r \<longleftrightarrow>
     filterMatches (gr_filter grp) (rr_cameraId r)
     \<and> isExpiredByAge (rr_startedAt r) (readMotionScore hasColumn r) now (resolveRetentionWindow days policy)"
  using window_order [of days policy]
  by (auto simp: buildExpiryWhere_def isExpiredByAge_def readMotionScore_def MOTION_SCORE_UNKNOWN_def DAY_MS_def Let_def)

lemma envInt_bounds: "lo \<le> hi \<Longrightarrow> lo \<le> envInt env name fallback lo hi \<and> envInt env name fallback lo hi \<le> hi"
proof -
  assume "lo \<le> hi"
  then have "of_int lo \<le> fst (envNumber (env name) (Fin (of_int fallback))
      \<lparr>opt_min = Some (of_int lo), opt_max = Some (of_int hi), opt_integer = True\<rparr>)"
    "fst (envNumber (env name) (Fin (of_int fallback))
      \<lparr>opt_min = Some (of_int lo), opt_max = Some (of_int hi), opt_integer = True\<rparr>) \<le> of_int hi"
    by (simp_all add: envNumber_limits)
  then show ?thesis unfolding envInt_def by (simp add: le_floor_iff floor_le_iff)
qed

lemma batchLimits_pos: "0 < bl_batchSize (readBatchLimits env)" "0 < bl_maxPerCycle (readBatchLimits env)"
    "bl_maxPerCycle (readBatchLimits env) \<le> 1000000"
  using envInt_bounds [of 1 5000 env "''RETENTION_EXPIRY_BATCH_SIZE''" 500]
    envInt_bounds [of 1 1000000 env "''RETENTION_MAX_DELETIONS_PER_CYCLE''" 20000]
  by (auto simp: readBatchLimits_def)

lemma refused_held:
  assumes "recs.refused hasColumn grp (resolveRetentionWindow days policy) now pf protection policy True r"
    and "\<not> (tt_enabled policy \<and> tt_dryRun policy)" "rowPlaced pf r" "hasColumn = pf_motionColumn pf"
  shows "rr_id r \<in> set (ps_recordingIds protection)"
proof (rule ccontr)
  assume n: "rr_id r \<notin> set (ps_recordingIds protection)"
  from assms(1) obtain st out st' where r: "orderly True pf protection st"
      "r \<in> set (recordingQuery hasColumn grp (resolveRetentionWindow days policy) now st)"
      "expireRecording pf protection policy (resolveRetentionWindow days policy) now r st = (out, st')" "out \<noteq> RowDeleted"
    unfolding recs.refused_def by blast
  have "fst (deleteRecording pf r protection st) = Inr True"
    using deleteRecording_succeeds [OF _ _ assms(3) n] r(1,2) by (simp add: orderly_def recordingQuery_def)
  then show False
    using r(2,3,4) assms(2,4) by (auto simp: expireRecording_def recordingQuery_def expiryWhere_iff split: prod.splits)
qed

lemma dryRun_uncounted:
  assumes "\<not> (tt_enabled policy \<and> tt_dryRun policy)"
  shows "recs.uncounted pf protection policy window now"
  using assms unfolding recs.uncounted_def
  by (auto simp: expireRecording_def split: prod.splits sum.splits bool.splits)

abbreviation groupWindow :: "retentionGroup \<Rightarrow> twoTierPolicy \<Rightarrow> retentionWindow" where
  "groupWindow grp policy \<equiv> resolveRetentionWindow (gr_days grp) policy"

lemma clips_pass:
  assumes "0 < batchSize" "0 \<le> budget" "orderly b pf protection st"
  shows "\<exists>st'. expireClipsInBatches pf now protection batchSize groups budget st = Some st' \<and> orderly b pf protection st'
    \<and> db_recordings (st_db st') = db_recordings (st_db st)"
  using assms(2,3)
proof (induction groups arbitrary: budget st)
  case (Cons grp groups)
  have "length (clipQuery grp now st) < clipFuel st"
    by (simp add: clipFuel_def clipQuery_def le_imp_less_Suc)
  with clips.pageLoop_exact [OF assms(1) Cons.prems, of grp now "[]" "clipQuery grp now st" 0 "clipFuel st"]
  obtain b' st1 where l: "pageLoop (clipFuel st) (clipQuery grp now) (expireClip pf protection) batchSize 0 budget st = Some (b', st1)"
    "orderly b pf protection st1" "0 \<le> b'" by auto
  have "db_recordings (st_db (snd (expireClip pf protection c s))) = db_recordings (st_db s)" for c s
  proof (cases "expireClip pf protection c s")
    case (Pair out s')
    from expireClip_db [OF Pair] show ?thesis by (cases "out = RowDeleted") (simp_all add: Pair)
  qed
  from pageLoop_preserves [where P = "\<lambda>s. db_recordings (st_db s) = db_recordings (st_db st)", OF _ _ l(1)] this
  have "db_recordings (st_db st1) = db_recordings (st_db st)" by simp
  with Cons.IH [OF l(3,2)] l(1) show ?case by auto
qed simp

lemma clips_passed:
  assumes "expireClipsInBatches pf now protection batchSize groups budget st = Some st'"
    and "0 < batchSize" "0 < budget" "orderly b pf protection st"
  shows "orderly b pf protection st' \<and> db_recordings (st_db st') = db_recordings (st_db st)"
  using clips_pass [OF assms(2) less_imp_le [OF assms(3)] assms(4)] assms(1) by (metis option.inject)

lemma group_pass:
  assumes "0 < batchSize" "0 \<le> budget" "orderly b pf protection st"
  shows "\<exists>budget' st'. expireGroup pf now protection policy batchSize grp budget st = Some (budget', st')
    \<and> orderly b pf protection st' \<and> 0 \<le> budget'
    \<and> int (length (db_recordings (st_db st))) - int (length (db_recordings (st_db st'))) \<le> budget - budget'
    \<and> (\<not> (tt_enabled policy \<and> tt_dryRun policy) \<longrightarrow>
         budget - budget' = int (length (db_recordings (st_db st))) - int (length (db_recordings (st_db st'))))
    \<and> (0 < budget' \<longrightarrow> set (recordingQuery (pf_motionColumn pf) grp (groupWindow grp policy) now st')
         \<subseteq> Collect (recs.refused (pf_motionColumn pf) grp (groupWindow grp policy) now pf protection policy b))"
proof -
  let ?st = "noteMotionRetained pf policy grp now st"
  let ?q = "recordingQuery (pf_motionColumn pf) grp (groupWindow grp policy) now"
  have o: "orderly b pf protection ?st" using assms(3) orderly_cong [of ?st st] by simp
  have "length (?q ?st) < recordingFuel ?st" by (simp add: recordingFuel_def recordingQuery_def le_imp_less_Suc)
  with recs.pageLoop_exact [OF assms(1,2) o, of "pf_motionColumn pf" grp "groupWindow grp policy" now "[]" "?q ?st" 0 policy
      "recordingFuel ?st"] dryRun_uncounted [of policy pf protection "groupWindow grp policy" now]
  show ?thesis unfolding expireGroup_def Let_def by auto
qed

lemma group_subset:
  assumes "expireGroup pf now protection policy batchSize grp budget st = Some (budget', st')"
  shows "set (db_recordings (st_db st')) \<subseteq> set (db_recordings (st_db st))"
proof -
  have sub: "set (db_recordings (st_db (snd (deleteRecording pf r protection s)))) \<subseteq> set (db_recordings (st_db s))" for r s
  proof (cases "deleteRecording pf r protection s")
    case (Pair out s')
    show ?thesis
    proof (cases "out = Inr True")
      case True
      note db = dbDeleteRecording_Inr [OF deleteRecording_db(3) [OF Pair True, THEN conjunct2, THEN conjunct2]]
      show ?thesis by (auto simp: Pair db)
    qed (use Pair deleteRecording_db(2) [OF Pair] in simp)
  qed
  have exp: "set (db_recordings (st_db (snd (expireRecording pf protection policy w now r s)))) \<subseteq> set (db_recordings (st_db s))"
    for w r s
  proof (cases "expireRecording pf protection policy w now r s")
    case (Pair out s')
    show ?thesis
    proof (cases "out = RowDeleted")
      case True
      from expireRecording_db(2) [OF Pair True] sub [of r s] Pair show ?thesis by auto
    qed (use Pair expireRecording_db(1) [OF Pair] in simp)
  qed
  show ?thesis
    by (rule pageLoop_preserves [where P = "\<lambda>s. set (db_recordings (st_db s)) \<subseteq> set (db_recordings (st_db st))",
        OF _ _ assms [unfolded expireGroup_def Let_def]]) (rule subset_trans [OF exp], assumption, simp)
qed

lemma recordings_pass:
  assumes "0 < batchSize" "0 \<le> budget" "orderly b pf protection st"
  shows "\<exists>st'. expireRecordingsInBatches pf now protection policy batchSize groups budget st = Some st'
    \<and> orderly b pf protection st' \<and> set (db_recordings (st_db st')) \<subseteq> set (db_recordings (st_db st))
    \<and> int (length (db_recordings (st_db st))) - int (length (db_recordings (st_db st'))) \<le> budget"
  using assms(2,3)
proof (induction groups arbitrary: budget st)
  case (Cons grp groups)
  show ?case
  proof (cases "budget \<le> 0")
    case False
    from group_pass [OF assms(1) Cons.prems, of now policy grp] obtain b' st1 where
      g: "expireGroup pf now protection policy batchSize grp budget st = Some (b', st1)" "orderly b pf protection st1"
        "0 \<le> b'" "int (length (db_recordings (st_db st))) - int (length (db_recordings (st_db st1))) \<le> budget - b'"
      by blast
    from Cons.IH [OF g(3,2)] group_subset [OF g(1)] g(1,4) False show ?thesis by fastforce
  qed (use Cons.prems in auto)
qed simp

lemma recordings_passed:
  assumes "expireRecordingsInBatches pf now protection policy batchSize groups budget st = Some st'"
    and "0 < batchSize" "0 < budget" "orderly b pf protection st"
  shows "orderly b pf protection st'
    \<and> int (length (db_recordings (st_db st))) - int (length (db_recordings (st_db st'))) \<le> budget"
  using recordings_pass [OF assms(2) less_imp_le [OF assms(3)] assms(4)] assms(1) by (metis option.inject)

text \<open>With room in the budget, no deletable row of a group stays behind.\<close>

lemma recordings_complete:
  assumes "0 < batchSize" "orderly True pf protection st" "\<not> (tt_enabled policy \<and> tt_dryRun policy)"
    and "int (length (db_recordings (st_db st))) < budget" "\<forall>r\<in>set (db_recordings (st_db st)). rowPlaced pf r"
    and "expireRecordingsInBatches pf now protection policy batchSize groups budget st = Some st'"
    and "grp \<in> set groups" "r \<in> set (db_recordings (st_db st'))"
    and "buildExpiryWhere (pf_motionColumn pf) grp (groupWindow grp policy) now r"
  shows "rr_id r \<in> set (ps_recordingIds protection)"
  using assms(2,4-7)
proof (induction groups arbitrary: budget st)
  case (Cons g groups)
  have b: "0 \<le> budget" "\<not> budget \<le> 0" using Cons.prems(2) by simp_all
  from group_pass [OF assms(1) b(1) Cons.prems(1), of now policy g] assms(3) obtain b' st1 where
    g: "expireGroup pf now protection policy batchSize g budget st = Some (b', st1)" "orderly True pf protection st1"
      "budget - b' = int (length (db_recordings (st_db st))) - int (length (db_recordings (st_db st1)))"
      "0 < b' \<longrightarrow> set (recordingQuery (pf_motionColumn pf) g (groupWindow g policy) now st1)
         \<subseteq> Collect (recs.refused (pf_motionColumn pf) g (groupWindow g policy) now pf protection policy True)"
    by blast
  have rest: "expireRecordingsInBatches pf now protection policy batchSize groups b' st1 = Some st'"
    using Cons.prems(4) b(2) g(1) by simp
  have b': "int (length (db_recordings (st_db st1))) < b'" using g(3) Cons.prems(2) by simp
  note sub = group_subset [OF g(1)]
  show ?case
  proof (cases "grp = g")
    case True
    have "set (db_recordings (st_db st')) \<subseteq> set (db_recordings (st_db st1))"
      using recordings_pass [OF assms(1) _ g(2), of b' now policy groups] rest b' by auto
    then have r: "r \<in> set (db_recordings (st_db st1))" using assms(8) by blast
    then have "recs.refused (pf_motionColumn pf) g (groupWindow g policy) now pf protection policy True r"
      using g(4) b' assms(9) True by (auto simp: recordingQuery_def)
    from refused_held [OF this assms(3)] r sub Cons.prems(3) show ?thesis by blast
  next
    case False
    with Cons.IH [OF g(2) b' _ rest] Cons.prems(3,5) sub show ?thesis by auto
  qed
qed simp

section \<open>The group of a camera\<close>

definition daysOf :: "int \<Rightarrow> retDb \<Rightarrow> string \<Rightarrow> int" where
  "daysOf global db cameraId =
     (case map_of (db_cameras db) cameraId of Some (Some d) \<Rightarrow> d | _ \<Rightarrow> global)"

lemma addToBucket_iff:
  "(\<exists>ids. (d, ids) \<in> set (addToBucket days c bs) \<and> x \<in> set ids)
     \<longleftrightarrow> (\<exists>ids. (d, ids) \<in> set bs \<and> x \<in> set ids) \<or> (d = days \<and> x = c)"
  by (induction days c bs rule: addToBucket.induct) auto

lemma buckets_iff:
  "(\<exists>ids. (d, ids) \<in> set (fold (\<lambda>(cid, days). addToBucket (res days) cid) cams bs) \<and> x \<in> set ids)
     \<longleftrightarrow> (\<exists>ids. (d, ids) \<in> set bs \<and> x \<in> set ids) \<or> (\<exists>days. (x, days) \<in> set cams \<and> d = res days)"
proof (induction cams arbitrary: bs)
  case (Cons cam cams)
  obtain c days where cam: "cam = (c, days)" by fastforce
  show ?case using Cons.IH [of "addToBucket (res days) c bs"] addToBucket_iff [of d "res days" c bs x]
    by (auto simp: cam)
qed simp

lemma group_of_camera:
  assumes "distinct (map fst (db_cameras db))"
  shows "grp \<in> set (loadRetentionGroups global db) \<Longrightarrow> filterMatches (gr_filter grp) c \<Longrightarrow> gr_days grp = daysOf global db c"
    and "\<exists>grp\<in>set (loadRetentionGroups global db). filterMatches (gr_filter grp) c"
proof -
  let ?res = "\<lambda>days. case days of None \<Rightarrow> global | Some d \<Rightarrow> d"
  note buckets = buckets_iff [of _ ?res "db_cameras db" "[]" c, simplified]
  have days: "daysOf global db c = ?res days" if "(c, days) \<in> set (db_cameras db)" for days
    using that assms by (auto simp: daysOf_def split: option.splits)
  have none: "daysOf global db c = global" if "c \<notin> fst ` set (db_cameras db)"
    using that by (auto simp: daysOf_def map_of_eq_None_iff [THEN iffD2])
  show "gr_days grp = daysOf global db c" if "grp \<in> set (loadRetentionGroups global db)" "filterMatches (gr_filter grp) c"
    using that buckets days none unfolding loadRetentionGroups_def Let_def
    by (auto split: if_splits) (metis)+
  show "\<exists>grp\<in>set (loadRetentionGroups global db). filterMatches (gr_filter grp) c"
  proof (cases "c \<in> fst ` set (db_cameras db)")
    case True
    then obtain days where "(c, days) \<in> set (db_cameras db)" by auto
    with buckets obtain ids where "(?res days, ids) \<in> set (fold (\<lambda>(cid, days). addToBucket (?res days) cid)
        (db_cameras db) [])" "c \<in> set ids" by blast
    then have "\<lparr>gr_days = ?res days, gr_filter = CameraIn ids\<rparr> \<in> set (loadRetentionGroups global db)"
      unfolding loadRetentionGroups_def Let_def by force
    with \<open>c \<in> set ids\<close> show ?thesis by force
  next
    case False
    then show ?thesis unfolding loadRetentionGroups_def Let_def by auto
  qed
qed

section \<open>What the expiry leaves alone\<close>

lemma group_keeps:
  assumes "expireGroup pf now protection policy batchSize grp budget st = Some (budget', st')" "uniqueKeys (st_db st)"
    and "r0 \<in> set (db_recordings (st_db st))" "\<not> buildExpiryWhere (pf_motionColumn pf) grp (groupWindow grp policy) now r0"
  shows "r0 \<in> set (db_recordings (st_db st'))"
proof -
  let ?w = "groupWindow grp policy"
  let ?S = "{r \<in> set (db_recordings (st_db st)). buildExpiryWhere (pf_motionColumn pf) grp ?w now r}"
  let ?P = "\<lambda>s. r0 \<in> set (db_recordings (st_db s)) \<and> set (db_recordings (st_db s)) \<subseteq> set (db_recordings (st_db st))"
  have "?P (snd (expireRecording pf protection policy ?w now r s))" if r: "r \<in> ?S" and P: "?P s" for r s
  proof (cases "expireRecording pf protection policy ?w now r s")
    case (Pair out s')
    show ?thesis
    proof (cases "out = RowDeleted")
      case True
      from expireRecording_db(2) [OF Pair True] obtain s1 where
        d: "deleteRecording pf r protection s = (Inr True, s1)" "st_db s' = st_db s1" by blast
      note db = dbDeleteRecording_Inr [OF deleteRecording_db(3) [OF d(1) refl, THEN conjunct2, THEN conjunct2]]
      have "rr_id r \<noteq> rr_id r0"
        using assms(2,3,4) r by (auto simp: uniqueKeys_def distinct_map dest: inj_onD)
      then show ?thesis using P by (auto simp: Pair d(2) db)
    qed (use Pair P expireRecording_db(1) [OF Pair] in simp)
  qed
  moreover have "set (recordingQuery (pf_motionColumn pf) grp ?w now s) \<subseteq> ?S" if "?P s" for s
    using that by (auto simp: recordingQuery_def)
  moreover have "?P (noteMotionRetained pf policy grp now st)" using assms(3) by simp
  ultimately have "?P st'" by (rule pageLoop_preserves_on [OF _ _ _ assms(1) [unfolded expireGroup_def Let_def]])
  then show ?thesis ..
qed

lemma recordings_keep:
  assumes "0 < batchSize" "0 \<le> budget" "orderly b pf protection st"
    and "expireRecordingsInBatches pf now protection policy batchSize groups budget st = Some st'"
    and "r \<in> set (db_recordings (st_db st))"
    and "\<forall>grp\<in>set groups. \<not> buildExpiryWhere (pf_motionColumn pf) grp (groupWindow grp policy) now r"
  shows "r \<in> set (db_recordings (st_db st'))"
  using assms(2-6)
proof (induction groups arbitrary: budget st)
  case (Cons grp groups)
  show ?case
  proof (cases "budget \<le> 0")
    case False
    from group_pass [OF assms(1) Cons.prems(1,2), of now policy grp] obtain b' st1 where
      g: "expireGroup pf now protection policy batchSize grp budget st = Some (b', st1)" "orderly b pf protection st1" "0 \<le> b'"
      by blast
    have "r \<in> set (db_recordings (st_db st1))"
      using group_keeps [OF g(1) _ Cons.prems(4)] Cons.prems(2,5) by (simp add: orderly_def)
    with Cons.IH [OF g(3,2)] Cons.prems(3,5) g(1) False show ?thesis by simp
  qed (use Cons.prems in auto)
qed simp

section \<open>The disk guardian\<close>

lemma deleteRecording_count:
  assumes "uniqueKeys (st_db st)" "deleteRecording pf r protection st = (out, st')"
  shows "uniqueKeys (st_db st')"
    and "length (db_recordings (st_db st)) = length (db_recordings (st_db st')) + (if out = Inr True then 1 else 0)"
proof -
  have "orderly False pf protection st" using assms(1) by (simp add: orderly_def)
  from orderly_deleteRecording [OF this assms(2)] show "uniqueKeys (st_db st')" by (simp add: orderly_def)
  show "length (db_recordings (st_db st)) = length (db_recordings (st_db st')) + (if out = Inr True then 1 else 0)"
  proof (cases "out = Inr True")
    case True
    note d = deleteRecording_db(3) [OF assms(2) True, THEN conjunct2, THEN conjunct2]
    from d have "rr_id r \<in> set (map rr_id (db_recordings (st_db st)))" by (auto simp: dbDeleteRecording_def split: if_splits)
    then obtain pre r' post where s: "db_recordings (st_db st) = pre @ r' # post" "rr_id r' = rr_id r"
      by (auto simp: in_set_conv_decomp)
    from filter_remove_key(2) [of rr_id "db_recordings (st_db st)" "\<lambda>_. True" pre r' post] assms(1) s
    show ?thesis by (simp add: dbDeleteRecording_Inr [OF d] uniqueKeys_def True)
  qed (use deleteRecording_db(2) [OF assms(2)] in simp)
qed

lemma guardBatch_count:
  assumes "uniqueKeys (st_db st)"
  shows "uniqueKeys (st_db (snd (guardBatch pf protection rs st)))
    \<and> length (db_recordings (st_db st)) = length (db_recordings (st_db (snd (guardBatch pf protection rs st))))
        + fst (guardBatch pf protection rs st)"
  using assms
proof (induction rs arbitrary: st)
  case (Cons r rs)
  obtain out st' where d: "deleteRecording pf r protection st = (out, st')" by fastforce
  note c = deleteRecording_count [OF Cons.prems d]
  show ?case
  proof (cases "out = Inr True")
    case True
    with Cons.IH [OF c(1)] c(2) d show ?thesis by (auto simp: Let_def split_beta)
  next
    case False
    then have "guardBatch pf protection (r # rs) st = guardBatch pf protection rs st'"
      using d by (auto split: sum.splits bool.splits)
    with Cons.IH [OF c(1)] c(2) False show ?thesis by simp
  qed
qed simp

lemma guardBatch_le: "fst (guardBatch pf protection rs st) \<le> length rs"
proof (induction rs arbitrary: st)
  case (Cons r rs)
  show ?case using Cons.IH by (auto simp: Let_def split_beta intro: le_SucI split: sum.splits bool.splits)
qed simp

lemma guardRound_le: "fst (guardRound pf protection target maxNoProgress current noProgress st) \<le> 20"
  using guardRound_state [of pf protection target maxNoProgress current noProgress st] guardBatch_le le_trans by metis

lemma guardLoop_le: "fst (guardLoop pf protection target maxNoProgress n current noProgress st) \<le> 20 * n"
proof (induction n arbitrary: current noProgress st)
  case (Suc n)
  obtain k st' nxt where g: "guardRound pf protection target maxNoProgress current noProgress st = (k, st', nxt)"
    by (metis prod.exhaust)
  with guardRound_le [of pf protection target maxNoProgress current noProgress st] have k: "k \<le> 20" by simp
  show ?case
  proof (cases nxt)
    case None
    with g k show ?thesis by simp
  next
    case (Some a)
    with g k Suc.IH [of "fst a" "snd a" st'] show ?thesis by (simp add: Let_def split_beta)
  qed
qed simp

lemma guardLoop_count:
  assumes "uniqueKeys (st_db st)"
  shows "uniqueKeys (st_db (snd (guardLoop pf protection target maxNoProgress n current noProgress st)))
    \<and> length (db_recordings (st_db st))
      = length (db_recordings (st_db (snd (guardLoop pf protection target maxNoProgress n current noProgress st))))
        + fst (guardLoop pf protection target maxNoProgress n current noProgress st)"
  using assms
proof (induction n arbitrary: current noProgress st)
  case (Suc n)
  obtain k st' nxt where g: "guardRound pf protection target maxNoProgress current noProgress st = (k, st', nxt)"
    by (metis prod.exhaust)
  have c: "uniqueKeys (st_db st')" "length (db_recordings (st_db st)) = length (db_recordings (st_db st')) + k"
    using guardRound_state [of pf protection target maxNoProgress current noProgress st]
      guardBatch_count [OF Suc.prems, of pf protection] g by (metis fst_conv snd_conv)+
  show ?case
  proof (cases nxt)
    case None
    with g c show ?thesis by simp
  next
    case (Some a)
    with g c Suc.IH [OF c(1), of "fst a" "snd a"] show ?thesis by (simp add: Let_def split_beta)
  qed
qed simp

lemma checkDiskUsage_le: "fst (checkDiskUsage pf env autoCleanup existing st) \<le> 2000"
  using guardLoop_le [of pf _ _ _ 100] by (auto simp: checkDiskUsage_def split: option.splits)

lemma checkDiskUsage_count:
  assumes "uniqueKeys (st_db st)"
  shows "length (db_recordings (st_db st)) = length (db_recordings (st_db (snd (checkDiskUsage pf env autoCleanup existing st))))
    + fst (checkDiskUsage pf env autoCleanup existing st)"
  using guardLoop_count [OF assms, THEN conjunct2] by (auto simp: checkDiskUsage_def split: option.splits)

text \<open>While the usage does not move, every round but the first uses up one batch without progress.\<close>

lemma guardLoop_stuck:
  assumes "\<forall>d. pf_usage pf d = Some u" "noProgress < maxNoProgress"
  shows "int (fst (guardLoop pf protection target maxNoProgress n u noProgress st)) \<le> 20 * (maxNoProgress - noProgress)"
  using assms(2)
proof (induction n arbitrary: noProgress st)
  case (Suc n)
  obtain k st' nxt where g: "guardRound pf protection target maxNoProgress u noProgress st = (k, st', nxt)"
    by (metis prod.exhaust)
  with guardRound_le [of pf protection target maxNoProgress u noProgress st] have k: "k \<le> 20" by simp
  show ?case
  proof (cases nxt)
    case None
    with g k Suc.prems show ?thesis by simp
  next
    case (Some a)
    with g assms(1) have "a = (u, noProgress + 1)" "noProgress + 1 < maxNoProgress"
      by (auto simp: guardRound_def Let_def split: prod.splits if_splits)
    with g k Some Suc.IH [of "noProgress + 1" st'] show ?thesis by (simp add: Let_def split_beta)
  qed
qed simp

section \<open>A small installation\<close>

definition examplePlatform :: platform where
  "examplePlatform =
     \<lparr>pf_root = [''r''], pf_canonical = (\<lambda>p. p), pf_newId = (\<lambda>_. exampleOp), pf_stamp = ''t'',
      pf_faults = exampleFaults, pf_txFails = (\<lambda>_. False), pf_removeFails = (\<lambda>_. False),
      pf_usage = (\<lambda>_. Some 50), pf_motionColumn = True\<rparr>"

definition exampleRecording :: "string \<Rightarrow> int \<Rightarrow> recordingRow" where
  "exampleRecording i day =
     \<lparr>rr_id = i, rr_cameraId = ''cam'', rr_filePath = i @ ''.mp4'', rr_startedAt = day * 86400000,
      rr_sizeBytes = Some 10, rr_motionScore = 5\<rparr>"

text \<open>On day 100 with seven days of retention: an old recording, an old one in evidence, a recent one.\<close>

definition exampleState :: retState where
  "exampleState =
     \<lparr>st_db = \<lparr>db_cameras = [(''cam'', Some 7)],
        db_recordings = [exampleRecording ''old'' 1, exampleRecording ''held'' 2, exampleRecording ''new'' 99],
        db_clips = [], db_events = [],
        db_items = [\<lparr>it_investigationId = ''inv'', it_type = ''recording'', it_recordingId = Some ''held'',
          it_eventId = None, it_metadata = None\<rparr>]\<rparr>,
      st_disk = \<lparr>dk_files = [([''r'', ''old.mp4''], ''O''), ([''r'', ''held.mp4''], ''H''), ([''r'', ''new.mp4''], ''N'')],
        dk_operations = []\<rparr>,
      st_result = emptyResult\<rparr>"

definition exampleSettings :: retSettings where
  "exampleSettings = \<lparr>rs_autoCleanup = Some True, rs_defaultDays = Some 7, rs_configDays = Fin 7\<rparr>"

lemmas example_retention_defs = examplePlatform_def exampleState_def exampleSettings_def exampleRecording_def

abbreviation exampleAfter :: retState where
  "exampleAfter \<equiv> snd (handleRetention examplePlatform (\<lambda>_. None) exampleSettings (100 * 86400000) exampleState)"

section \<open>Properties\<close>

text \<open>
  Property C2. Nothing that is held is ever deleted. Whatever the settings, the age of the rows, the
  pressure on the disk and the faults: after a pass of the retention every recording, clip and event
  that an active legal hold (the newest of its investigation) lists or that is evidence of an
  investigation - and every recording a held clip was cut from - is still in the database, unchanged.
\<close>

theorem held_rows_survive:
  "let db = st_db st; db' = st_db (snd (handleRetention pf env settings now st)) in
     (\<forall>r\<in>set (db_recordings db). recordingHeld db (rr_id r) \<longrightarrow> r \<in> set (db_recordings db'))
     \<and> (\<forall>c\<in>set (db_clips db). clipHeld db (cl_id c) \<longrightarrow> c \<in> set (db_clips db'))
     \<and> (\<forall>e\<in>set (db_events db). eventHeld db (ev_id e) \<longrightarrow> e \<in> set (db_events db'))"
  using handleRetention_keeps [of st pf env settings now]
  by (simp add: keepsProtected_def Let_def recordingHeld_iff clipHeld_iff eventHeld_iff)

theorem held_rows_survive_witness:
  "exampleRecording ''held'' 2 \<in> set (db_recordings (st_db exampleAfter))
   \<and> \<not> exampleRecording ''old'' 1 \<in> set (db_recordings (st_db exampleAfter))"
proof -
  have "exampleRecording ''held'' 2 \<in> set (db_recordings (st_db exampleState))" by (simp add: example_retention_defs)
  moreover have "recordingHeld (st_db exampleState) ''held''"
    unfolding recordingHeld_iff [symmetric] by code_simp
  moreover have "\<not> exampleRecording ''old'' 1 \<in> set (db_recordings (st_db exampleAfter))" by code_simp
  ultimately show ?thesis
    using held_rows_survive [of exampleState examplePlatform "\<lambda>_. None" exampleSettings "100 * 86400000"]
    by (auto simp: Let_def exampleRecording_def)
qed

text \<open>
  Property C20. Expiry is exact. On a platform without faults, with automatic cleanup on, no dry run, a
  cap above the number of recordings and a disk below the trigger, a pass leaves exactly the recordings
  that are not expired - by the days of their camera or the global ones, short for recordings known to
  have no motion when the two-tier policy is on - or that are held: nothing expired stays behind, in
  whatever pages the rows come, and nothing else goes.
\<close>

theorem retention_exact:
  assumes "uniqueKeys (st_db st)" "distinct (map fst (db_cameras (st_db st)))"
    and "faultFree pf" "journalEmpty pf (st_disk st)"
    and "\<forall>r\<in>set (db_recordings (st_db st)). rowPlaced pf r" "\<forall>c\<in>set (db_clips (st_db st)). placed pf (cl_filePath c)"
    and "rs_autoCleanup settings \<noteq> Some False"
    and "\<not> (tt_enabled (readTwoTierPolicy env) \<and> tt_dryRun (readTwoTierPolicy env))"
    and "int (length (db_recordings (st_db st))) < bl_maxPerCycle (readBatchLimits env)"
    and "\<forall>d u. pf_usage pf d = Some u \<longrightarrow> u \<le> triggerPercent env"
  shows "set (db_recordings (st_db (snd (handleRetention pf env settings now st)))) =
    {r \<in> set (db_recordings (st_db st)).
       \<not> isExpiredByAge (rr_startedAt r) (readMotionScore (pf_motionColumn pf) r) now
            (resolveRetentionWindow (daysOf (globalDays env settings) (st_db st) (rr_cameraId r)) (readTwoTierPolicy env))
       \<or> recordingHeld (st_db st) (rr_id r)}"
    (is "?left = {r \<in> ?all. \<not> ?expired r \<or> ?held r}")
proof -
  let ?p = "getProtectionSets (st_db st)" and ?l = "readBatchLimits env" and ?pol = "readTwoTierPolicy env"
  let ?g = "loadRetentionGroups (globalDays env settings) (st_db st)"
  let ?st = "st\<lparr>st_result := emptyResult\<rparr>"
  have "settled pf ?p ?st"
    using assms(3,4,6) by (auto simp: settled_def clipHeld_iff recordingHeld_iff recordingHeld_def)
  then have o: "orderly True pf ?p ?st" using assms(1) by (simp add: orderly_def)
  note pos = batchLimits_pos [of env]
  from clips_pass [OF pos(1) _ o, of "bl_maxPerCycle ?l" now ?g] pos(2) obtain st1 where
    c: "expireClipsInBatches pf now ?p (bl_batchSize ?l) ?g (bl_maxPerCycle ?l) ?st = Some st1"
      "orderly True pf ?p st1" "db_recordings (st_db st1) = db_recordings (st_db st)" by auto
  from recordings_pass [OF pos(1) _ c(2), of "bl_maxPerCycle ?l" now ?pol ?g] pos(2) obtain st2 where
    r: "expireRecordingsInBatches pf now ?p ?pol (bl_batchSize ?l) ?g (bl_maxPerCycle ?l) st1 = Some st2"
      "set (db_recordings (st_db st2)) \<subseteq> ?all" using c(3) by auto
  have where_iff: "(\<exists>grp\<in>set ?g. buildExpiryWhere (pf_motionColumn pf) grp (groupWindow grp ?pol) now x) \<longleftrightarrow> ?expired x" for x
    using group_of_camera [OF assms(2)] unfolding expiryWhere_iff by metis
  have left: "?left = set (db_recordings (st_db st2))"
  proof (cases "handleRetention pf env settings now st")
    case (Pair res st')
    then show ?thesis
    proof (cases rule: handleRetention_cases)
      case (passed s1 s2 st4 res')
      moreover have "snd (checkDiskUsage pf env a b st4) = st4" for a b
        using assms(10) by (auto simp: checkDiskUsage_def split: option.splits)
      ultimately show ?thesis using c(1) r(1) Pair by (auto simp: deleteOldEvents_def Let_def)
    qed (use c(1) r(1) assms(7) Pair in \<open>auto simp: handleRetention_def Let_def\<close>)
  qed
  have "?held x" if "x \<in> set (db_recordings (st_db st2))" "?expired x" for x
    using recordings_complete [OF pos(1) c(2) assms(8) _ _ r(1)] that assms(5,9) c(3) where_iff recordingHeld_iff by metis
  moreover have "x \<in> set (db_recordings (st_db st2))" if "x \<in> ?all" "\<not> ?expired x" for x
    using recordings_keep [OF pos(1) _ c(2) r(1)] that pos(2) c(3) where_iff by (metis less_imp_le)
  moreover have "x \<in> ?left" if "x \<in> ?all" "?held x" for x
    using handleRetention_keeps [of st pf env settings now] that by (simp add: keepsProtected_def recordingHeld_iff)
  ultimately show ?thesis using r(2) unfolding left by blast
qed

lemma example_placed:
  "\<forall>r\<in>set (db_recordings (st_db exampleState)). rowPlaced examplePlatform r"
proof -
  have "rowPlaced examplePlatform (exampleRecording i d)" if "i \<in> {''old'', ''held'', ''new''}" for i d
  proof -
    have "ensureFileUnderRoot examplePlatform (i @ ''.mp4'') = Inr [''r'', i @ ''.mp4'']"
      using that by (elim insertE emptyE) (simp_all only:, code_simp+)
    moreover have "inside [''r''] [''r'', i @ ''.mp4'']"
      using that by (auto simp: inside_def clean_def JOURNAL_DIR_def)
    ultimately have "placed examplePlatform (i @ ''.mp4'')" by (auto simp: placed_def examplePlatform_def)
    then show ?thesis using that by (auto simp: rowPlaced_def exampleRecording_def clean_def)
  qed
  then show ?thesis by (simp add: exampleState_def)
qed

lemma example_faultFree: "faultFree examplePlatform"
proof -
  have "uuidLike exampleOp" by code_simp
  then show ?thesis by (simp add: faultFree_def examplePlatform_def exampleFaults_def clean_def)
qed

theorem retention_exact_witness:
  "set (db_recordings (st_db exampleAfter)) = {exampleRecording ''held'' 2, exampleRecording ''new'' 99}"
proof -
  let ?env = "\<lambda>_::string. None :: string option"
  have u: "uniqueKeys (st_db exampleState)" "distinct (map fst (db_cameras (st_db exampleState)))" by code_simp+
  have j: "journalEmpty examplePlatform (st_disk exampleState)" by code_simp
  have c: "\<forall>c\<in>set (db_clips (st_db exampleState)). placed examplePlatform (cl_filePath c)" by (simp add: exampleState_def)
  have p: "\<not> (tt_enabled (readTwoTierPolicy ?env) \<and> tt_dryRun (readTwoTierPolicy ?env))" by code_simp
  have n: "int (length (db_recordings (st_db exampleState))) < bl_maxPerCycle (readBatchLimits ?env)" by code_simp
  have "50 \<le> triggerPercent ?env" by code_simp
  then have t: "\<forall>d u. pf_usage examplePlatform d = Some u \<longrightarrow> u \<le> triggerPercent ?env" by (simp add: examplePlatform_def)
  have a: "rs_autoCleanup exampleSettings \<noteq> Some False" by (simp add: exampleSettings_def)
  let ?exp = "\<lambda>r. isExpiredByAge (rr_startedAt r) (readMotionScore (pf_motionColumn examplePlatform) r) (100 * 86400000)
      (resolveRetentionWindow (daysOf (globalDays ?env exampleSettings) (st_db exampleState) (rr_cameraId r)) (readTwoTierPolicy ?env))"
  have held: "recordingHeld (st_db exampleState) x \<longleftrightarrow> x = ''held''" for x
  proof -
    have "ps_recordingIds (getProtectionSets (st_db exampleState)) = [''held'']" by code_simp
    with recordingHeld_iff [of x "st_db exampleState"] show ?thesis by simp
  qed
  have e: "?exp (exampleRecording ''old'' 1)" "?exp (exampleRecording ''held'' 2)" "\<not> ?exp (exampleRecording ''new'' 99)" by code_simp+
  have all: "set (db_recordings (st_db exampleState))
      = {exampleRecording ''old'' 1, exampleRecording ''held'' 2, exampleRecording ''new'' 99}" by (simp add: exampleState_def)
  have ids: "rr_id (exampleRecording i d) = i" for i d by (simp add: exampleRecording_def)
  show ?thesis
    unfolding retention_exact [OF u example_faultFree j example_placed c a p n t] all held using e ids by auto
qed

text \<open>
  Property C19. The pass ends. With the primary keys the database enforces, no page of either loop is
  read again for ever: rows that stay (held, failed, dry run) are skipped, so with one unit of fuel per
  row the pass returns, whatever fails on the way.
\<close>

theorem retention_terminates:
  assumes "uniqueKeys (st_db st)"
  shows "fst (handleRetention pf env settings now st) \<noteq> None"
proof (cases "handleRetention pf env settings now st")
  case (Pair res st')
  let ?p = "getProtectionSets (st_db st)" and ?l = "readBatchLimits env"
  note pos = batchLimits_pos [of env]
  have o: "orderly False pf ?p (st\<lparr>st_result := emptyResult\<rparr>)" using assms by (simp add: orderly_def)
  from Pair show ?thesis
  proof (cases rule: handleRetention_cases)
    case clipsOut
    with clips_pass [OF pos(1) _ o] pos(2) show ?thesis by (metis less_imp_le option.distinct(1))
  next
    case (recordingsOut st1)
    with clips_passed [OF recordingsOut(3) pos(1,2) o] have "orderly False pf ?p st1" by simp
    from recordings_pass [OF pos(1) _ this] recordingsOut pos(2) show ?thesis by (metis less_imp_le option.distinct(1))
  qed (use Pair in auto)
qed

theorem retention_terminates_witness:
  "fst (handleRetention examplePlatform (\<lambda>_. None) exampleSettings (100 * 86400000) exampleState) \<noteq> None"
proof -
  have "uniqueKeys (st_db exampleState)" by code_simp
  from retention_terminates [OF this] show ?thesis .
qed

text \<open>
  A pass is bounded. With the primary keys, it takes at most \<open>RETENTION_MAX_DELETIONS_PER_CYCLE\<close>
  recordings by age (a cap of at most a million, whatever the variable says) and 2000 by disk pressure.
\<close>

theorem retention_bounded:
  assumes "uniqueKeys (st_db st)"
  shows "int (length (db_recordings (st_db st)))
      - int (length (db_recordings (st_db (snd (handleRetention pf env settings now st)))))
    \<le> bl_maxPerCycle (readBatchLimits env) + 2000
    \<and> bl_maxPerCycle (readBatchLimits env) \<le> 1000000"
proof (cases "handleRetention pf env settings now st")
  case (Pair res st')
  let ?p = "getProtectionSets (st_db st)" and ?l = "readBatchLimits env"
  let ?n = "\<lambda>s. int (length (db_recordings (st_db s)))"
  note pos = batchLimits_pos [of env]
  have o: "orderly False pf ?p (st\<lparr>st_result := emptyResult\<rparr>)" using assms by (simp add: orderly_def)
  from Pair have "?n st - ?n st' \<le> bl_maxPerCycle ?l + 2000"
  proof (cases rule: handleRetention_cases)
    case (recordingsOut st1)
    with clips_passed [OF recordingsOut(3) pos(1,2) o] pos(2) show ?thesis by simp
  next
    case (passed st1 st2 st4 r)
    from clips_passed [OF passed(2) pos(1,2) o]
    have c: "orderly False pf ?p st1" "db_recordings (st_db st1) = db_recordings (st_db st)" by simp_all
    from recordings_passed [OF passed(3) pos(1,2) c(1)]
    have r: "orderly False pf ?p st2" "?n st1 - ?n st2 \<le> bl_maxPerCycle ?l" by simp_all
    have four: "?n st4 = ?n st2" "uniqueKeys (st_db st4)"
      using passed(4) r(1) by (simp_all add: deleteOldEvents_def Let_def orderly_def uniqueKeys_def)
    have "?n st4 - ?n (snd (checkDiskUsage pf env a (Some ?p) st4)) \<le> 2000" for a
      using checkDiskUsage_count [OF four(2), of pf env a "Some ?p"] checkDiskUsage_le [of pf env a "Some ?p" st4] by linarith
    then show ?thesis using passed(5) c(2) r(2) four(1) by (elim disjE) (simp_all, smt (verit))
  qed (use pos(2) in auto)
  with Pair pos(3) show ?thesis by simp
qed

theorem retention_bounded_witness:
  "int (length (db_recordings (st_db exampleState))) - int (length (db_recordings (st_db exampleAfter))) \<le> 1002000"
proof -
  have "uniqueKeys (st_db exampleState)" by code_simp
  from retention_bounded [OF this, of examplePlatform "\<lambda>_. None" exampleSettings "100 * 86400000"] show ?thesis by simp
qed

text \<open>
  The query the database filters with and the rule the service applies in memory agree on
  every row, with or without the motion column: a recording is read for deletion exactly when its
  camera is in the group and \<open>isExpiredByAge\<close> holds in the window of the group. A recording whose
  motion is unknown is never taken by the short cut.
\<close>

theorem expiry_query_exact:
  "(buildExpiryWhere hasColumn grp (resolveRetentionWindow days policy) now r =
     (filterMatches (gr_filter grp) (rr_cameraId r)
      \<and> isExpiredByAge (rr_startedAt r) (readMotionScore hasColumn r) now (resolveRetentionWindow days policy)))
   \<and> (rr_motionScore r < 0 \<or> \<not> hasColumn \<longrightarrow>
        buildExpiryWhere hasColumn grp (resolveRetentionWindow days policy) now r \<longrightarrow>
        rr_startedAt r < now - rw_motionDays (resolveRetentionWindow days policy) * DAY_MS)"
  using window_order [of days policy] expiryWhere_iff [of hasColumn grp days policy now r]
  by (auto simp: isExpiredByAge_def readMotionScore_def MOTION_SCORE_UNKNOWN_def DAY_MS_def Let_def split: if_splits)

theorem expiry_query_exact_witness:
  "\<not> buildExpiryWhere True \<lparr>gr_days = 7, gr_filter = AnyCamera\<rparr>
      (resolveRetentionWindow 7 \<lparr>tt_enabled = True, tt_dryRun = False, tt_allDays = 3, tt_motionDays = 30\<rparr>)
      (100 * 86400000) ((exampleRecording ''x'' 90)\<lparr>rr_motionScore := -1\<rparr>)"
  using expiry_query_exact [of True "\<lparr>gr_days = 7, gr_filter = AnyCamera\<rparr>" 7
      "\<lparr>tt_enabled = True, tt_dryRun = False, tt_allDays = 3, tt_motionDays = 30\<rparr>" "100 * 86400000"
      "(exampleRecording ''x'' 90)\<lparr>rr_motionScore := -1\<rparr>", THEN conjunct2]
  by (auto simp: exampleRecording_def resolveRetentionWindow_def DAY_MS_def)

text \<open>
  The brake of the disk guardian. A check deletes nothing while the usage is at or below the
  trigger or when automatic cleanup is off; it never deletes more than 2000 recordings; and when
  deleting does not move the usage (a volume that is not mounted), it stops after the configured
  number of batches, so after at most 400 recordings.
\<close>

theorem guardian_brake:
  "fst (checkDiskUsage pf env autoCleanup existing st) \<le> 2000
   \<and> (\<forall>u. pf_usage pf (st_disk st) = Some u \<and> u \<le> triggerPercent env \<or> autoCleanup = Some False \<longrightarrow>
        checkDiskUsage pf env autoCleanup existing st = (0, st))
   \<and> (\<forall>u. (\<forall>d. pf_usage pf d = Some u) \<longrightarrow>
        int (fst (checkDiskUsage pf env autoCleanup existing st)) \<le> 20 * maxNoProgressBatches env
        \<and> 20 * maxNoProgressBatches env \<le> 400)"
proof -
  have m: "1 \<le> maxNoProgressBatches env" "maxNoProgressBatches env \<le> 20"
    using envInt_bounds [of 1 20] by (simp_all add: maxNoProgressBatches_def)
  then have "\<forall>u. (\<forall>d. pf_usage pf d = Some u) \<longrightarrow>
      int (fst (checkDiskUsage pf env autoCleanup existing st)) \<le> 20 * maxNoProgressBatches env"
    using guardLoop_stuck [of pf _ 0 "maxNoProgressBatches env"] by (auto simp: checkDiskUsage_def split: option.splits)
  with m checkDiskUsage_le [of pf env autoCleanup existing st] show ?thesis
    by (auto simp: checkDiskUsage_def split: option.splits)
qed

definition stuckPlatform :: platform where
  "stuckPlatform = examplePlatform\<lparr>pf_usage := (\<lambda>_. Some 95)\<rparr>"

theorem guardian_brake_witness:
  "int (fst (checkDiskUsage stuckPlatform (\<lambda>_. None) None None exampleState)) \<le> 400
   \<and> fst (checkDiskUsage stuckPlatform (\<lambda>_. None) None None exampleState) = 2
   \<and> checkDiskUsage examplePlatform (\<lambda>_. None) None None exampleState = (0, exampleState)"
proof -
  have "fst (checkDiskUsage stuckPlatform (\<lambda>_. None) None None exampleState) = 2" by code_simp
  moreover have "\<forall>d. pf_usage stuckPlatform d = Some 95" by (simp add: stuckPlatform_def)
  moreover have "pf_usage examplePlatform (st_disk exampleState) = Some 50" "50 \<le> triggerPercent (\<lambda>_. None)"
    by (simp add: examplePlatform_def) code_simp
  ultimately show ?thesis
    using guardian_brake [of stuckPlatform "\<lambda>_. None" None None exampleState]
      guardian_brake [of examplePlatform "\<lambda>_. None" None None exampleState] by fastforce
qed

text \<open>The atomic deletion of a recording: its rows and its files at once.\<close>

definition atomicDelete :: "platform \<Rightarrow> recordingRow \<Rightarrow> retDb \<times> disk \<Rightarrow> (retDb \<times> disk) option" where
  "atomicDelete pf r s =
     (case (ensureFileUnderRoot pf (rr_filePath r), ensureAll pf (map cl_filePath (clipsOf r (fst s)))) of
        (Inr p, Inr cps) \<Rightarrow>
          Some ((fst s)\<lparr>db_recordings := filter (\<lambda>x. rr_id x \<noteq> rr_id r) (db_recordings (fst s)),
                        db_clips := filter (\<lambda>c. cl_sourceRecordingId c \<noteq> rr_id r) (db_clips (fst s))\<rparr>,
                filesRemoved (pf_root pf) (map showPath (cps @ recordingPaths pf r p)) (snd s))
      | _ \<Rightarrow> None)"

text \<open>
  Property C35. Deleting a recording refines an atomic step, provided the way back works. The code
  writes a journal, moves the files into quarantine, deletes the rows in a transaction, and commits
  or rolls back; seen from outside, either the recording, its clips and exactly their files are gone
  together, or - a file outside the root, a rename into quarantine refused, the database failing, a
  hold - nothing has changed at all. It is assumed (\<open>stagingReady\<close>) that the identifier of the
  operation is new and that the way back from quarantine does not fail: every rename out of the
  operation's quarantine, every \<open>fsync\<close> and every \<open>rm\<close> succeeds; any rename into quarantine may
  fail. The identifiers of recordings and clips are unique (\<open>uniqueKeys\<close>).
\<close>

theorem deleteRecording_atomic:
  assumes "uniqueKeys (st_db st)"
    and "stagingReady (pf_faults pf) (pf_root pf) (pf_newId pf (st_disk st)) (st_disk st)"
  shows "case deleteRecording pf r protection st of
      (Inr True, st') \<Rightarrow> atomicDelete pf r (st_db st, st_disk st) = Some (st_db st', st_disk st')
    | (_, st') \<Rightarrow> st' = st"
proof (cases "deleteRecording pf r protection st")
  case (Pair out st')
  show ?thesis
  proof (cases "out = Inr True")
    case True
    note db = dbDeleteRecording_Inr [OF deleteRecording_db(3) [OF Pair True, THEN conjunct2, THEN conjunct2]]
    have "(cl_id c \<notin> set (map cl_id (filter (\<lambda>c. cl_sourceRecordingId c = rr_id r) (db_clips (st_db st))))
        \<and> cl_sourceRecordingId c \<noteq> rr_id r) = (cl_sourceRecordingId c \<noteq> rr_id r)" if "c \<in> set (db_clips (st_db st))" for c
      using that assms(1) by (auto simp: uniqueKeys_def distinct_map dest: inj_onD)
    then have "st_db st' = (st_db st)\<lparr>db_recordings := filter (\<lambda>x. rr_id x \<noteq> rr_id r) (db_recordings (st_db st)),
        db_clips := filter (\<lambda>c. cl_sourceRecordingId c \<noteq> rr_id r) (db_clips (st_db st))\<rparr>"
      unfolding db by (simp cong: filter_cong)
    with deleteRecording_disk [OF assms(2) Pair] Pair True show ?thesis by (auto simp: atomicDelete_def)
  next
    case False
    with deleteRecording_disk [OF assms(2) Pair] Pair show ?thesis by (auto split: sum.splits bool.splits)
  qed
qed

theorem deleteRecording_atomic_witness:
  "\<exists>st'. deleteRecording examplePlatform (exampleRecording ''old'' 1) (getProtectionSets (st_db exampleState)) exampleState
      = (Inr True, st')
    \<and> atomicDelete examplePlatform (exampleRecording ''old'' 1) (st_db exampleState, st_disk exampleState)
      = Some (st_db st', st_disk st')
    \<and> dk_files (st_disk st') = [([''r'', ''held.mp4''], ''H''), ([''r'', ''new.mp4''], ''N'')]"
proof -
  let ?d = "deleteRecording examplePlatform (exampleRecording ''old'' 1) (getProtectionSets (st_db exampleState)) exampleState"
  have "uniqueKeys (st_db exampleState)" by code_simp
  moreover have "journalEmpty examplePlatform (st_disk exampleState)" by code_simp
  note journalEmpty_ready [OF example_faultFree this]
  moreover have "fst ?d = Inr True" by code_simp
  then obtain st' where d: "?d = (Inr True, st')" by (metis prod.collapse)
  moreover have "dk_files (st_disk (snd ?d)) = [([''r'', ''held.mp4''], ''H''), ([''r'', ''new.mp4''], ''N'')]" by code_simp
  ultimately show ?thesis
    using deleteRecording_atomic [of exampleState examplePlatform "exampleRecording ''old'' 1" "getProtectionSets (st_db exampleState)"]
    by simp
qed

lemma guardBatch_blocked:
  assumes "\<forall>r\<in>set rs. \<not> isOk (ensureFileUnderRoot pf (rr_filePath r))"
  shows "guardBatch pf protection rs st = (0, st)"
  using assms
proof (induction rs)
  case (Cons r rs)
  then obtain e where "ensureFileUnderRoot pf (rr_filePath r) = Inl e"
    by (cases "ensureFileUnderRoot pf (rr_filePath r)") auto
  then have "\<exists>out. deleteRecording pf r protection st = (out, st) \<and> out \<noteq> Inr True"
    by (auto simp: deleteRecording_def Let_def)
  with Cons show ?case by (auto split: sum.splits bool.splits)
qed simp

text \<open>
  The guardian does not look past the head of the queue. It reads the twenty oldest
  recordings without a hold again in every round, with no offset for those that fail; when none of the
  twenty can be deleted (their files lie outside the root, as after the root was changed), it frees
  nothing, however full the disk is and however many deletable recordings follow.
\<close>

theorem guardian_blocked_by_head:
  assumes "\<forall>r\<in>set (take 20 (filter (\<lambda>r. rr_id r \<notin> set (ps_recordingIds (getProtectionSets (st_db st))))
      (db_recordings (st_db st)))). \<not> isOk (ensureFileUnderRoot pf (rr_filePath r))"
  shows "checkDiskUsage pf env autoCleanup None st = (0, st)"
proof -
  let ?p = "getProtectionSets (st_db st)"
  have "guardRound pf ?p target maxNoProgress current noProgress st = (0, st, None)" for target maxNoProgress current noProgress
    using guardBatch_blocked [OF assms, of ?p st] by (simp add: guardRound_def Let_def)
  then have "guardLoop pf ?p target maxNoProgress n current noProgress st = (0, st)" for target maxNoProgress n current noProgress
    by (cases n) simp_all
  then show ?thesis by (auto simp: checkDiskUsage_def split: option.splits)
qed

definition blockedState :: retState where
  "blockedState = exampleState\<lparr>st_db := (st_db exampleState)\<lparr>
     db_recordings := map (\<lambda>k. (exampleRecording (show_nat k) 1)\<lparr>rr_filePath := ''/old/'' @ show_nat k\<rparr>) [0..<20]
       @ [exampleRecording ''old'' 1]\<rparr>\<rparr>"

theorem guardian_blocked_by_head_witness:
  "checkDiskUsage stuckPlatform (\<lambda>_. None) (Some True) None blockedState = (0, blockedState)
   \<and> fst (deleteRecording stuckPlatform (exampleRecording ''old'' 1) (getProtectionSets (st_db blockedState)) blockedState) = Inr True"
proof -
  have "\<forall>r\<in>set (take 20 (filter (\<lambda>r. rr_id r \<notin> set (ps_recordingIds (getProtectionSets (st_db blockedState))))
      (db_recordings (st_db blockedState)))). \<not> isOk (ensureFileUnderRoot stuckPlatform (rr_filePath r))" by code_simp
  from guardian_blocked_by_head [OF this] show ?thesis by (intro conjI) (assumption | code_simp)+
qed

section \<open>Orphaned derived files\<close>

definition orphanOf :: "platform \<Rightarrow> retDb \<Rightarrow> path \<Rightarrow> bool" where
  "orphanOf pf db p \<longleftrightarrow> (\<exists>cameraId.
     (prefix (buildCameraRootDir (pf_root pf) cameraId) p \<or> prefix (pf_root pf @ [''.playback-compatible'', cameraId]) p)
     \<and> (ends_with (last p) ''.thumb.jpg'' \<or> ends_with (last p) ''.preview.jpg''
        \<or> ends_with (last p) ''.mp4'' \<and> prefix (pf_root pf @ [''.playback-compatible'', cameraId]) p)
     \<and> (\<forall>r\<in>set (db_recordings db). rr_cameraId r = cameraId \<longrightarrow>
          (\<forall>f. ensureFileUnderRoot pf (rr_filePath r) = Inr f \<longrightarrow>
             p \<noteq> derivedThumbnailPath f \<and> p \<noteq> buildTimelinePreviewPath f
             \<and> p \<noteq> pf_root pf @ [''.playback-compatible'', cameraId, rr_id r @ ''.mp4''])))"

lemma derived_ends:
  "ends_with (last (derivedThumbnailPath f)) ''.thumb.jpg''" "ends_with (last (buildTimelinePreviewPath f)) ''.preview.jpg''"
  by (auto simp: derivedThumbnailPath_def buildTimelinePreviewPath_def withExtension_def ends_with_def)

lemma ends_exclusive:
  "ends_with s ''.thumb.jpg'' \<Longrightarrow> \<not> ends_with s ''.preview.jpg''" "ends_with s ''.thumb.jpg'' \<Longrightarrow> \<not> ends_with s ''.mp4''"
  "ends_with s ''.preview.jpg'' \<Longrightarrow> \<not> ends_with s ''.mp4''"
  by (auto simp: ends_with_def starts_with_iff)

lemma ensureAll_nth:
  "ensureAll pf fs = Inr ps \<Longrightarrow> f \<in> set fs \<Longrightarrow> ensureFileUnderRoot pf f = Inr p \<Longrightarrow> p \<in> set ps"
  by (induction fs arbitrary: ps) (auto split: sum.splits)

lemma orphanKind_orphan:
  assumes "orphanKind pf cameraId files ids compatible p = Some k"
    and "ensureAll pf (map rr_filePath rows) = Inr files" "ids = map rr_id rows"
    and "rows = filter (\<lambda>r. rr_cameraId r = cameraId) (db_recordings db)"
    and "prefix dir p" "dir = (if compatible then pf_root pf @ [''.playback-compatible'', cameraId]
      else buildCameraRootDir (pf_root pf) cameraId)"
  shows "orphanOf pf db p"
proof -
  have kind: "ends_with (last p) ''.thumb.jpg'' \<and> p \<notin> set (map derivedThumbnailPath files)
      \<or> ends_with (last p) ''.preview.jpg'' \<and> p \<notin> set (map buildTimelinePreviewPath files)
      \<or> compatible \<and> ends_with (last p) ''.mp4''
        \<and> p \<notin> set (map (\<lambda>i. pf_root pf @ [''.playback-compatible'', cameraId, i @ ''.mp4'']) ids)"
    using assms(1) by (auto simp: orphanKind_def split: if_splits)
  have "p \<noteq> derivedThumbnailPath f \<and> p \<noteq> buildTimelinePreviewPath f
      \<and> p \<noteq> pf_root pf @ [''.playback-compatible'', cameraId, rr_id r @ ''.mp4'']"
    if r: "r \<in> set (db_recordings db)" "rr_cameraId r = cameraId" and f: "ensureFileUnderRoot pf (rr_filePath r) = Inr f" for r f
  proof -
    have "f \<in> set files" using ensureAll_nth [OF assms(2) _ f] r assms(4) by auto
    moreover have "rr_id r \<in> set ids" using r assms(3,4) by auto
    moreover have "ends_with (last (pf_root pf @ [''.playback-compatible'', cameraId, rr_id r @ ''.mp4''])) ''.mp4''"
      by (auto simp: ends_with_iff)
    ultimately show ?thesis using kind derived_ends [of f] ends_exclusive by auto
  qed
  then show ?thesis unfolding orphanOf_def using kind assms(5,6) by (intro exI [of _ cameraId]) (auto split: if_splits)
qed

lemma walk_orphans:
  assumes "ensureAll pf (map rr_filePath rows) = Inr files" "ids = map rr_id rows"
    and "rows = filter (\<lambda>r. rr_cameraId r = cameraId) (db_recordings db)"
    and "dir = (if compatible then pf_root pf @ [''.playback-compatible'', cameraId]
      else buildCameraRootDir (pf_root pf) cameraId)"
    and "x \<in> set (dk_files (st_disk st))" "\<not> orphanOf pf db (fst x)"
  shows "x \<in> set (dk_files (st_disk (walk pf cameraId files ids dir compatible st)))"
proof -
  have "orphanKind pf cameraId files ids compatible (fst x) = None" if "prefix dir (fst x)"
    using orphanKind_orphan [OF _ assms(1,2,3) that assms(4)] assms(6) by (meson not_None_eq)
  then show ?thesis using assms(5) by (auto simp: walk_def Let_def)
qed

lemma orphanLoop_orphans:
  "x \<in> set (dk_files (st_disk st)) \<Longrightarrow> \<not> orphanOf pf (st_db st) (fst x) \<Longrightarrow>
     x \<in> set (dk_files (st_disk (snd (orphanLoop pf cameraIds st))))"
proof (induction cameraIds arbitrary: st)
  case (Cons cameraId rest)
  let ?rows = "filter (\<lambda>r. rr_cameraId r = cameraId) (db_recordings (st_db st))"
  show ?case
  proof (cases "ensureAll pf (map rr_filePath ?rows)")
    case (Inr files)
    let ?st1 = "walk pf cameraId files (map rr_id ?rows) (buildCameraRootDir (pf_root pf) cameraId) False st"
    let ?st2 = "walk pf cameraId files (map rr_id ?rows) (pf_root pf @ [''.playback-compatible'', cameraId]) True ?st1"
    note w = walk_orphans [OF Inr refl refl _ _ Cons.prems(2)]
    have one: "x \<in> set (dk_files (st_disk ?st1))" by (rule w) (simp_all add: Cons.prems)
    have "x \<in> set (dk_files (st_disk ?st2))" by (rule w [OF _ one]) simp
    with Cons.IH [of ?st2] Cons.prems(2) Inr show ?thesis by (simp add: Let_def)
  qed (use Cons.prems in simp)
qed simp

lemma walk_subset: "set (dk_files (st_disk (walk pf cameraId files ids dir compatible st))) \<subseteq> set (dk_files (st_disk st))"
  by (auto simp: walk_def Let_def)

lemma orphanLoop_subset: "set (dk_files (st_disk (snd (orphanLoop pf cameraIds st)))) \<subseteq> set (dk_files (st_disk st))"
proof (induction pf cameraIds st rule: orphanLoop.induct)
  case (2 pf cameraId rest st)
  then show ?case by (auto simp: Let_def split: sum.splits dest!: subsetD [OF walk_subset])
      (meson subsetD walk_subset)
qed simp

text \<open>
  The sweep of orphans takes derived files only. Every file it removes is a thumbnail, a
  preview sprite or a compatible copy in the directories of one camera, and is not the thumbnail,
  preview or copy of any recording of that camera; media files, other files and every row stay.
\<close>

theorem orphan_sweep_confined:
  "let st' = snd (cleanupOrphanDerivedArtifacts pf st) in
     st_db st' = st_db st
     \<and> set (dk_files (st_disk st')) \<subseteq> set (dk_files (st_disk st))
     \<and> (\<forall>x\<in>set (dk_files (st_disk st)). x \<notin> set (dk_files (st_disk st')) \<longrightarrow> orphanOf pf (st_db st) (fst x))"
  using orphanLoop_orphans [of _ st pf] orphanLoop_subset [of pf _ st]
  by (auto simp: cleanupOrphanDerivedArtifacts_def Let_def)

definition sweepState :: retState where
  "sweepState = exampleState\<lparr>st_disk := \<lparr>dk_files =
     [([''r'', ''camera-cam'', ''a.mp4''], ''A''), ([''r'', ''camera-cam'', ''a.thumb.jpg''], ''T'')], dk_operations = []\<rparr>\<rparr>"

theorem orphan_sweep_confined_witness:
  "dk_files (st_disk (snd (cleanupOrphanDerivedArtifacts examplePlatform sweepState)))
     = [([''r'', ''camera-cam'', ''a.mp4''], ''A'')]
   \<and> orphanOf examplePlatform (st_db sweepState) [''r'', ''camera-cam'', ''a.thumb.jpg'']"
proof -
  have "dk_files (st_disk (snd (cleanupOrphanDerivedArtifacts examplePlatform sweepState)))
     = [([''r'', ''camera-cam'', ''a.mp4''], ''A'')]" by code_simp
  moreover have "([''r'', ''camera-cam'', ''a.thumb.jpg''], ''T'') \<in> set (dk_files (st_disk sweepState))" by (simp add: sweepState_def)
  ultimately show ?thesis using orphan_sweep_confined [of examplePlatform sweepState] by (auto simp: Let_def)
qed

text \<open>
  One row whose file lies outside the root stops the sweep with an exception, and with it the pass: the
  guardian, which comes after the sweep, is not reached although the disk is over the trigger.
\<close>

definition strayState :: retState where
  "strayState = sweepState\<lparr>st_db := (st_db sweepState)\<lparr>
     db_recordings := [(exampleRecording ''stray'' 1)\<lparr>rr_filePath := ''/elsewhere/a.mp4''\<rparr>, exampleRecording ''new'' 99]\<rparr>\<rparr>"

lemma stray_row_skips_guardian:
  "fst (handleRetention stuckPlatform (\<lambda>_. None) exampleSettings (100 * 86400000) strayState) = Some (Inl FileOutsideRoot)
   \<and> map rr_id (db_recordings (st_db (snd (handleRetention stuckPlatform (\<lambda>_. None) exampleSettings (100 * 86400000) strayState))))
      = [''stray'', ''new'']
   \<and> fst (checkDiskUsage stuckPlatform (\<lambda>_. None) (Some True) None strayState) = 1"
  by (intro conjI) code_simp+

end
