(* ===== verification/Source_Gateway.thy ===== *)
theory Source_Gateway
  imports Sensitive_Text "HOL-Library.AList"
begin

text \<open>
  The source gateway (\<open>apps/api/src/camera-stream/source-gateway.service.ts\<close>): which URL a consumer of
  a camera opens, reference counts of the sources, backoff and circuit breaker.

  \<^item> The maps of the service are association lists in the order of insertion, as a JavaScript \<open>Map\<close>
    iterates. The counters are a record, the counts of decisions a function.
  \<^item> The clock and the random number are arguments of the operations (the seams of the service);
    \<open>gw_metrics\<close> is what the metrics sink was told.
  \<^item> \<open>gwSettings\<close> holds, for each setting, what \<open>Number(...)\<close> or \<open>String(... ?? '')\<close> makes of its value.
  \<^item> The settings do not change while the process runs; the timer of the sweep (\<open>tick\<close> is a call like any
    other), log messages and \<open>stats\<close>, which copies the counters, are left out.
\<close>

section \<open>Data\<close>

datatype sourceProfile = Main | Sub

datatype sourceState = IDLE | CONNECTING | ONLINE | STALLED | BACKOFF | CIRCUIT_OPEN

datatype sourceOrigin = Direct | Gateway

datatype rtspTransport = Tcp | Udp

datatype sourceDecisionReason =
    gateway_disabled | consumer_requires_direct | no_active_source | no_published_source
  | source_stalled | circuit_open | gateway_published | cap_reused_profile

record resolveSourceInput =
  ri_cameraId :: string
  ri_profile :: string
  ri_consumer :: string
  ri_directUrl :: string
  ri_internalUrl :: "string option"
  ri_requireDirect :: bool

record sourceDecision =
  sd_url :: string
  sd_origin :: sourceOrigin
  sd_reason :: sourceDecisionReason
  sd_cameraId :: string
  sd_consumer :: string
  sd_requestedProfile :: sourceProfile
  sd_servedProfile :: sourceProfile
  sd_atMs :: rat

record sourceLease =
  ls_id :: string
  ls_cameraId :: string
  ls_consumer :: string
  ls_requestedProfile :: sourceProfile
  ls_servedProfile :: sourceProfile
  ls_gatewayEnabled :: bool
  ls_capped :: bool

record sourceEntry =
  se_cameraId :: string
  se_profile :: sourceProfile
  se_state :: sourceState
  se_consumers :: "(string \<times> string) list"
  se_publishedUrl :: "string option"
  se_transport :: "rtspTransport option"
  se_lastPacketAtMs :: "rat option"
  se_lastFrameAtMs :: "rat option"
  se_consecutiveFailures :: nat
  se_attempt :: nat
  se_lastBackoffMs :: "rat option"
  se_nextAttemptAtMs :: "rat option"
  se_circuitOpenUntilMs :: "rat option"
  se_circuitCooldownMs :: "rat option"
  se_degraded :: bool
  se_createdAtMs :: rat
  se_touchedAtMs :: rat

record sourceSnapshot =
  sn_cameraId :: string
  sn_profile :: sourceProfile
  sn_state :: sourceState
  sn_refCount :: nat
  sn_consumers :: "string list"
  sn_publishedUrl :: "string option"
  sn_transport :: "rtspTransport option"
  sn_lastPacketAt :: "rat option"
  sn_lastFrameAt :: "rat option"
  sn_consecutiveFailures :: nat
  sn_lastBackoffMs :: "rat option"
  sn_nextAttemptAt :: "rat option"
  sn_circuitOpenUntil :: "rat option"

record gwCounters =
  gc_acquisitions :: nat
  gc_releases :: nat
  gc_cappedAcquisitions :: nat
  gc_stalls :: nat
  gc_failures :: nat
  gc_recoveries :: nat
  gc_circuitOpens :: nat

record gwState =
  gw_entries :: "(string \<times> sourceEntry) list"
  gw_leases :: "(string \<times> string \<times> string) list"
  gw_decisionLog :: "sourceDecision list"
  gw_decisionCounts :: "sourceDecisionReason \<Rightarrow> nat"
  gw_leaseSeq :: nat
  gw_counters :: gwCounters
  gw_metrics :: "string list"

record gwSettings =
  cf_enabled :: string
  cf_maxExternalPerCamera :: jsnum
  cf_stallTimeoutMs :: jsnum
  cf_circuitThreshold :: jsnum
  cf_circuitOpenMs :: jsnum
  cf_circuitMaxOpenMs :: jsnum
  cf_idleTtlMs :: jsnum
  cf_backoffBaseMs :: jsnum
  cf_backoffCapMs :: jsnum
  cf_backoffJitter :: jsnum

section \<open>Defaults and settings\<close>

definition DEFAULT_maxExternalPerCamera :: rat where "DEFAULT_maxExternalPerCamera = 2"
definition DEFAULT_stallTimeoutMs :: rat where "DEFAULT_stallTimeoutMs = 20000"
definition DEFAULT_backoffBaseMs :: rat where "DEFAULT_backoffBaseMs = 1000"
definition DEFAULT_backoffCapMs :: rat where "DEFAULT_backoffCapMs = 60000"
definition DEFAULT_backoffJitter :: rat where "DEFAULT_backoffJitter = 1 / 5"
definition DEFAULT_circuitThreshold :: rat where "DEFAULT_circuitThreshold = 5"
definition DEFAULT_circuitOpenMs :: rat where "DEFAULT_circuitOpenMs = 60000"
definition DEFAULT_circuitMaxOpenMs :: rat where "DEFAULT_circuitMaxOpenMs = 8 * 60000"
definition DEFAULT_idleTtlMs :: rat where "DEFAULT_idleTtlMs = 5 * 60000"

definition MAX_TRACKED_SOURCES :: int where "MAX_TRACKED_SOURCES = 2000"
definition MAX_DECISION_LOG :: nat where "MAX_DECISION_LOG = 200"

fun positive :: "jsnum \<Rightarrow> rat \<Rightarrow> rat" where
  "positive (Fin x) fallback = (if x > 0 then x else fallback)"
| "positive NonFinite fallback = fallback"

fun nonNegative :: "jsnum \<Rightarrow> rat \<Rightarrow> rat" where
  "nonNegative (Fin x) fallback = (if x \<ge> 0 then x else fallback)"
| "nonNegative NonFinite fallback = fallback"

fun clamp01 :: "jsnum \<Rightarrow> rat" where
  "clamp01 (Fin x) = (if x \<le> 0 then 0 else min 1 x)"
| "clamp01 NonFinite = 0"

text \<open>The options are already \<open>undefined\<close> (\<open>None\<close>) or a number; \<open>random\<close> is the value \<open>random()\<close> gives.\<close>

definition computeBackoffDelayMs ::
    "jsnum \<Rightarrow> jsnum option \<Rightarrow> jsnum option \<Rightarrow> jsnum option \<Rightarrow> rat \<Rightarrow> rat" where
  "computeBackoffDelayMs attempt baseMs capMs jitter random =
     (let base = positive (case baseMs of None \<Rightarrow> NonFinite | Some b \<Rightarrow> b) DEFAULT_backoffBaseMs;
          cap = positive (case capMs of None \<Rightarrow> NonFinite | Some c \<Rightarrow> c) DEFAULT_backoffCapMs;
          jit = clamp01 (case jitter of None \<Rightarrow> Fin DEFAULT_backoffJitter | Some j \<Rightarrow> j);
          n = max 1 \<lfloor>case attempt of Fin x \<Rightarrow> if x = 0 then 1 else x | NonFinite \<Rightarrow> 1\<rfloor>;
          raw = (if n \<ge> 53 then cap else base * 2 ^ nat (n - 1));
          delay = min cap raw
      in if jit \<le> 0 then max 0 delay
         else max 0 (delay * (1 + jit * (2 * random - 1))))"

definition normalizeSourceProfile :: "string \<Rightarrow> sourceProfile" where
  "normalizeSourceProfile s = (if js_lower (js_trim s) = ''sub'' then Sub else Main)"

definition isEnabled :: "gwSettings \<Rightarrow> bool" where
  "isEnabled cf = (js_lower (js_trim (cf_enabled cf)) = ''true'')"

definition maxExternalConnectionsPerCamera :: "gwSettings \<Rightarrow> int" where
  "maxExternalConnectionsPerCamera cf =
     max 1 \<lfloor>positive (cf_maxExternalPerCamera cf) DEFAULT_maxExternalPerCamera\<rfloor>"

definition stallTimeoutMs :: "gwSettings \<Rightarrow> rat" where
  "stallTimeoutMs cf = positive (cf_stallTimeoutMs cf) DEFAULT_stallTimeoutMs"

definition circuitThreshold :: "gwSettings \<Rightarrow> int" where
  "circuitThreshold cf = max 1 \<lfloor>positive (cf_circuitThreshold cf) DEFAULT_circuitThreshold\<rfloor>"

definition circuitOpenMs :: "gwSettings \<Rightarrow> rat" where
  "circuitOpenMs cf = positive (cf_circuitOpenMs cf) DEFAULT_circuitOpenMs"

definition circuitMaxOpenMs :: "gwSettings \<Rightarrow> rat" where
  "circuitMaxOpenMs cf = max (circuitOpenMs cf) (positive (cf_circuitMaxOpenMs cf) DEFAULT_circuitMaxOpenMs)"

definition idleTtlMs :: "gwSettings \<Rightarrow> rat" where
  "idleTtlMs cf = positive (cf_idleTtlMs cf) DEFAULT_idleTtlMs"

text \<open>\<open>computeBackoffDelayMs(entry.attempt, this.backoffOptions())\<close>.\<close>

definition backoffDelay :: "gwSettings \<Rightarrow> nat \<Rightarrow> rat \<Rightarrow> rat" where
  "backoffDelay cf attempt random =
     computeBackoffDelayMs (Fin (of_nat attempt))
       (Some (Fin (positive (cf_backoffBaseMs cf) DEFAULT_backoffBaseMs)))
       (Some (Fin (positive (cf_backoffCapMs cf) DEFAULT_backoffCapMs)))
       (Some (Fin (clamp01 (Fin (nonNegative (cf_backoffJitter cf) DEFAULT_backoffJitter))))) random"

section \<open>Sources\<close>

fun profileName :: "sourceProfile \<Rightarrow> string" where
  "profileName Main = ''main''"
| "profileName Sub = ''sub''"

definition gwKey :: "string \<Rightarrow> sourceProfile \<Rightarrow> string" where
  "gwKey cameraId profile = cameraId @ ''::'' @ profileName profile"

definition isActive :: "sourceEntry \<Rightarrow> bool" where
  "isActive e \<longleftrightarrow> se_consumers e \<noteq> [] \<or> se_state e = CONNECTING \<or> se_state e = ONLINE"

definition activeEntries :: "string \<Rightarrow> gwState \<Rightarrow> sourceEntry list" where
  "activeEntries cameraId st = filter (\<lambda>e. se_cameraId e = cameraId \<and> isActive e) (map snd (gw_entries st))"

definition activeEntry :: "string \<Rightarrow> sourceProfile \<Rightarrow> gwState \<Rightarrow> sourceEntry option" where
  "activeEntry cameraId profile st =
     (case map_of (gw_entries st) (gwKey cameraId profile) of
        None \<Rightarrow> None
      | Some e \<Rightarrow>
          if isActive e \<or> se_state e = BACKOFF \<or> se_state e = CIRCUIT_OPEN \<or> se_state e = STALLED then Some e else None)"

definition pickSubstitute :: "sourceEntry list \<Rightarrow> sourceEntry option" where
  "pickSubstitute candidates =
     (let online = filter (\<lambda>e. se_state e = ONLINE) candidates;
          pool = (if online \<noteq> [] then online else candidates)
      in if candidates = [] then None
         else (case find (\<lambda>e. se_profile e = Main) pool of Some e \<Rightarrow> Some e | None \<Rightarrow> Some (hd pool)))"

text \<open>The key of the idle source that was touched least recently; the first of several.\<close>

fun oldestIdle :: "(string \<times> sourceEntry) list \<Rightarrow> (string \<times> rat) option \<Rightarrow> (string \<times> rat) option" where
  "oldestIdle [] best = best"
| "oldestIdle ((k, e) # es) best =
     (if se_consumers e \<noteq> [] then oldestIdle es best
      else if (case best of None \<Rightarrow> True | Some (_, t) \<Rightarrow> se_touchedAtMs e < t)
      then oldestIdle es (Some (k, se_touchedAtMs e)) else oldestIdle es best)"

definition evictOneIdle :: "gwState \<Rightarrow> bool \<times> gwState" where
  "evictOneIdle st =
     (case oldestIdle (gw_entries st) None of
        None \<Rightarrow> (False, st)
      | Some (k, _) \<Rightarrow> (True, st\<lparr>gw_entries := AList.delete k (gw_entries st)\<rparr>))"

definition newEntry :: "rat \<Rightarrow> string \<Rightarrow> sourceProfile \<Rightarrow> sourceEntry" where
  "newEntry now cameraId profile =
     \<lparr>se_cameraId = cameraId, se_profile = profile, se_state = IDLE, se_consumers = [], se_publishedUrl = None,
      se_transport = None, se_lastPacketAtMs = None, se_lastFrameAtMs = None, se_consecutiveFailures = 0,
      se_attempt = 0, se_lastBackoffMs = None, se_nextAttemptAtMs = None, se_circuitOpenUntilMs = None,
      se_circuitCooldownMs = None, se_degraded = False, se_createdAtMs = now, se_touchedAtMs = now\<rparr>"

definition ensureEntry :: "rat \<Rightarrow> string \<Rightarrow> sourceProfile \<Rightarrow> gwState \<Rightarrow> sourceEntry option \<times> gwState" where
  "ensureEntry now cameraId profile st =
     (let k = gwKey cameraId profile in
      case map_of (gw_entries st) k of
        Some e \<Rightarrow> (Some e, st)
      | None \<Rightarrow>
          (let (room, st1) = (if int (length (gw_entries st)) \<ge> MAX_TRACKED_SOURCES then evictOneIdle st else (True, st));
               e = newEntry now cameraId profile
           in if \<not> room then (None, st1)
              else (Some e, st1\<lparr>gw_entries := AList.update k e (gw_entries st1)\<rparr>)))"

text \<open>The mutation of a source in the map.\<close>

definition putEntry :: "sourceEntry \<Rightarrow> gwState \<Rightarrow> gwState" where
  "putEntry e st = st\<lparr>gw_entries := AList.update (gwKey (se_cameraId e) (se_profile e)) e (gw_entries st)\<rparr>"

section \<open>Routing\<close>

definition recordDecision :: "sourceDecision \<Rightarrow> gwState \<Rightarrow> sourceDecision \<times> gwState" where
  "recordDecision d st =
     (let log = gw_decisionLog st @ [d\<lparr>sd_url := sanitizeSensitiveText (Some (sd_url d))\<rparr>]
      in (d, st\<lparr>gw_decisionCounts := (gw_decisionCounts st)(sd_reason d := Suc (gw_decisionCounts st (sd_reason d))),
              gw_decisionLog := (if length log > MAX_DECISION_LOG then drop (length log - MAX_DECISION_LOG) log else log)\<rparr>))"

definition coolingAt :: "rat \<Rightarrow> sourceEntry \<Rightarrow> bool" where
  "coolingAt now e = (case se_circuitOpenUntilMs e of None \<Rightarrow> False | Some t \<Rightarrow> now < t)"

text \<open>The source that serves a request, and whether the cap chose it.\<close>

definition servingEntry :: "gwSettings \<Rightarrow> string \<Rightarrow> sourceProfile \<Rightarrow> gwState \<Rightarrow> (sourceEntry \<times> sourceDecisionReason) option" where
  "servingEntry cf cameraId profile st =
     (case activeEntry cameraId profile st of
        Some e \<Rightarrow> Some (e, gateway_published)
      | None \<Rightarrow>
          (let others = filter (\<lambda>e. se_profile e \<noteq> profile) (activeEntries cameraId st) in
           if int (length others) \<ge> maxExternalConnectionsPerCamera cf
           then map_option (\<lambda>e. (e, cap_reused_profile)) (pickSubstitute others) else None))"

definition decide :: "gwSettings \<Rightarrow> rat \<Rightarrow> resolveSourceInput \<Rightarrow> gwState \<Rightarrow> sourceDecision" where
  "decide cf now input st =
     (let requestedProfile = normalizeSourceProfile (ri_profile input);
          decision = (\<lambda>url origin reason served.
            \<lparr>sd_url = url, sd_origin = origin, sd_reason = reason, sd_cameraId = ri_cameraId input,
             sd_consumer = ri_consumer input, sd_requestedProfile = requestedProfile, sd_servedProfile = served,
             sd_atMs = now\<rparr>);
          direct = (\<lambda>reason served. decision (ri_directUrl input) Direct reason served)
      in if \<not> isEnabled cf then direct gateway_disabled requestedProfile
         else if ri_requireDirect input then direct consumer_requires_direct requestedProfile
         else case servingEntry cf (ri_cameraId input) requestedProfile st of
           None \<Rightarrow> direct no_active_source requestedProfile
         | Some (e, reason) \<Rightarrow>
             if coolingAt now e then direct circuit_open (se_profile e)
             else if se_state e = STALLED \<or> se_state e = BACKOFF then direct source_stalled (se_profile e)
             else (case (if se_profile e = requestedProfile
                         then (case ri_internalUrl input of Some u \<Rightarrow> Some u | None \<Rightarrow> se_publishedUrl e)
                         else se_publishedUrl e) of
                None \<Rightarrow> direct no_published_source (se_profile e)
              | Some url \<Rightarrow>
                  if url = [] then direct no_published_source (se_profile e)
                  else decision url Gateway reason (se_profile e)))"

definition resolveSourceUrl ::
    "gwSettings \<Rightarrow> rat \<Rightarrow> resolveSourceInput \<Rightarrow> gwState \<Rightarrow> sourceDecision \<times> gwState" where
  "resolveSourceUrl cf now input st = recordDecision (decide cf now input st) st"

definition registerPublishedSource ::
    "gwSettings \<Rightarrow> rat \<Rightarrow> string \<Rightarrow> string \<Rightarrow> string option \<Rightarrow> gwState \<Rightarrow> gwState" where
  "registerPublishedSource cf now cameraId profile url st =
     (if \<not> isEnabled cf then st
      else case ensureEntry now cameraId (normalizeSourceProfile profile) st of
        (None, st1) \<Rightarrow> st1
      | (Some e, st1) \<Rightarrow>
          putEntry (e\<lparr>se_publishedUrl := (case url of None \<Rightarrow> None | Some u \<Rightarrow> if js_trim u \<noteq> [] then Some u else None),
                      se_touchedAtMs := now\<rparr>) st1)"

definition clearPublishedSource :: "gwSettings \<Rightarrow> rat \<Rightarrow> string \<Rightarrow> string \<Rightarrow> gwState \<Rightarrow> gwState" where
  "clearPublishedSource cf now cameraId profile st = registerPublishedSource cf now cameraId profile None st"

section \<open>Reference counts\<close>

definition leaseId :: "nat \<Rightarrow> string" where
  "leaseId n = ''lease_'' @ show_nat n"

text \<open>The open source that takes the consumer instead of a new connection, when the cap is reached.\<close>

definition cappedSubstitute :: "gwSettings \<Rightarrow> string \<Rightarrow> sourceProfile \<Rightarrow> gwState \<Rightarrow> sourceEntry option" where
  "cappedSubstitute cf cameraId profile st =
     (let others = filter (\<lambda>e. se_profile e \<noteq> profile) (activeEntries cameraId st) in
      case map_of (gw_entries st) (gwKey cameraId profile) of
        Some e \<Rightarrow> if se_consumers e \<noteq> [] then None
                  else if int (length others) \<ge> maxExternalConnectionsPerCamera cf then pickSubstitute others else None
      | None \<Rightarrow> if int (length others) \<ge> maxExternalConnectionsPerCamera cf then pickSubstitute others else None)"

definition attach :: "rat \<Rightarrow> string \<Rightarrow> string \<Rightarrow> sourceEntry \<Rightarrow> gwState \<Rightarrow> gwState" where
  "attach now lid consumer e st =
     (let e1 = e\<lparr>se_state := (if se_state e = IDLE then CONNECTING else se_state e),
                 se_consumers := AList.update lid consumer (se_consumers e), se_touchedAtMs := now\<rparr>;
          st1 = putEntry e1 st
      in st1\<lparr>gw_leases := AList.update lid (gwKey (se_cameraId e) (se_profile e), se_cameraId e) (gw_leases st1),
             gw_counters := (gw_counters st1)\<lparr>gc_acquisitions := Suc (gc_acquisitions (gw_counters st1))\<rparr>\<rparr>)"

definition acquire ::
    "gwSettings \<Rightarrow> rat \<Rightarrow> string \<Rightarrow> string \<Rightarrow> string \<Rightarrow> gwState \<Rightarrow> sourceLease \<times> gwState" where
  "acquire cf now cameraId profile consumer st0 =
     (let requestedProfile = normalizeSourceProfile profile;
          st = st0\<lparr>gw_leaseSeq := Suc (gw_leaseSeq st0)\<rparr>;
          lid = leaseId (gw_leaseSeq st);
          lease = (\<lambda>served enabled capped. \<lparr>ls_id = lid, ls_cameraId = cameraId, ls_consumer = consumer,
             ls_requestedProfile = requestedProfile, ls_servedProfile = served, ls_gatewayEnabled = enabled,
             ls_capped = capped\<rparr>)
      in if \<not> isEnabled cf then (lease requestedProfile False False, st)
         else case cappedSubstitute cf cameraId requestedProfile st of
           Some e \<Rightarrow>
             (let st1 = st\<lparr>gw_counters := (gw_counters st)\<lparr>
                    gc_cappedAcquisitions := Suc (gc_cappedAcquisitions (gw_counters st))\<rparr>\<rparr>
              in (lease (se_profile e) True True, attach now lid consumer e st1))
         | None \<Rightarrow>
             (case ensureEntry now cameraId requestedProfile st of
                (None, st1) \<Rightarrow> (lease requestedProfile True False, st1)
              | (Some e, st1) \<Rightarrow> (lease (se_profile e) True False, attach now lid consumer e st1)))"

definition release :: "rat \<Rightarrow> string \<Rightarrow> gwState \<Rightarrow> gwState" where
  "release now lid st =
     (if lid = [] then st else case map_of (gw_leases st) lid of
        None \<Rightarrow> st
      | Some (k, _) \<Rightarrow>
          (let st1 = st\<lparr>gw_leases := AList.delete lid (gw_leases st)\<rparr> in
           case map_of (gw_entries st1) k of
             None \<Rightarrow> st1
           | Some e \<Rightarrow>
               (let consumers = AList.delete lid (se_consumers e);
                    e1 = e\<lparr>se_consumers := consumers, se_touchedAtMs := now,
                           se_state := (if consumers = [] then (if coolingAt now e then CIRCUIT_OPEN else IDLE)
                                        else se_state e)\<rparr>
                in st1\<lparr>gw_entries := AList.update k e1 (gw_entries st1),
                       gw_counters := (gw_counters st1)\<lparr>gc_releases := Suc (gc_releases (gw_counters st1))\<rparr>\<rparr>)))"

section \<open>State machine\<close>

definition noteConnecting :: "gwSettings \<Rightarrow> rat \<Rightarrow> string \<Rightarrow> string \<Rightarrow> gwState \<Rightarrow> gwState" where
  "noteConnecting cf now cameraId profile st =
     (if \<not> isEnabled cf then st
      else case ensureEntry now cameraId (normalizeSourceProfile profile) st of
        (None, st1) \<Rightarrow> st1
      | (Some e, st1) \<Rightarrow> putEntry (e\<lparr>se_state := CONNECTING, se_touchedAtMs := now\<rparr>) st1)"

definition transportOf :: "string \<Rightarrow> rtspTransport option" where
  "transportOf s = (let t = js_lower (js_trim s) in
     if t = ''tcp'' then Some Tcp else if t = ''udp'' then Some Udp else None)"

definition onlineEntry :: "rat \<Rightarrow> string \<Rightarrow> bool \<Rightarrow> sourceEntry \<Rightarrow> sourceEntry" where
  "onlineEntry now transport frame e =
     e\<lparr>se_state := ONLINE, se_lastPacketAtMs := Some now,
       se_lastFrameAtMs := (if frame then Some now else se_lastFrameAtMs e),
       se_transport := (case transportOf transport of Some t \<Rightarrow> Some t | None \<Rightarrow> se_transport e),
       se_consecutiveFailures := 0, se_attempt := 0, se_lastBackoffMs := None, se_nextAttemptAtMs := None,
       se_circuitOpenUntilMs := None, se_circuitCooldownMs := None, se_degraded := False, se_touchedAtMs := now\<rparr>"

definition noteProgress ::
    "gwSettings \<Rightarrow> rat \<Rightarrow> string \<Rightarrow> string \<Rightarrow> string \<Rightarrow> bool \<Rightarrow> gwState \<Rightarrow> gwState" where
  "noteProgress cf now cameraId profile transport frame st =
     (if \<not> isEnabled cf then st
      else case ensureEntry now cameraId (normalizeSourceProfile profile) st of
        (None, st1) \<Rightarrow> st1
      | (Some e, st1) \<Rightarrow>
          (let st2 = putEntry (onlineEntry now transport frame e) st1 in
           if se_degraded e
           then st2\<lparr>gw_counters := (gw_counters st2)\<lparr>gc_recoveries := Suc (gc_recoveries (gw_counters st2))\<rparr>,
                    gw_metrics := gw_metrics st2 @ [cameraId]\<rparr>
           else st2))"

definition failedEntry :: "gwSettings \<Rightarrow> rat \<Rightarrow> rat \<Rightarrow> sourceEntry \<Rightarrow> sourceEntry" where
  "failedEntry cf now random e =
     (let failures = Suc (se_consecutiveFailures e);
          attempt = Suc (se_attempt e);
          e1 = e\<lparr>se_consecutiveFailures := failures, se_attempt := attempt, se_degraded := True, se_touchedAtMs := now\<rparr>
      in if int failures \<ge> circuitThreshold cf
         then (let cooldown = min (case se_circuitCooldownMs e of None \<Rightarrow> circuitOpenMs cf | Some c \<Rightarrow> c * 2) (circuitMaxOpenMs cf)
               in e1\<lparr>se_circuitCooldownMs := Some cooldown, se_circuitOpenUntilMs := Some (now + cooldown),
                     se_nextAttemptAtMs := Some (now + cooldown), se_lastBackoffMs := Some cooldown,
                     se_state := CIRCUIT_OPEN\<rparr>)
         else (let delay = backoffDelay cf attempt random
               in e1\<lparr>se_lastBackoffMs := Some delay, se_nextAttemptAtMs := Some (now + delay), se_state := BACKOFF\<rparr>))"

definition noteFailure :: "gwSettings \<Rightarrow> rat \<Rightarrow> rat \<Rightarrow> string \<Rightarrow> string \<Rightarrow> gwState \<Rightarrow> gwState" where
  "noteFailure cf now random cameraId profile st =
     (if \<not> isEnabled cf then st
      else case ensureEntry now cameraId (normalizeSourceProfile profile) st of
        (None, st1) \<Rightarrow> st1
      | (Some e, st1) \<Rightarrow>
          (let e1 = failedEntry cf now random e; st2 = putEntry e1 st1; c = gw_counters st2
           in st2\<lparr>gw_counters := c\<lparr>gc_failures := Suc (gc_failures c),
                gc_circuitOpens := (if se_state e1 = CIRCUIT_OPEN then Suc (gc_circuitOpens c) else gc_circuitOpens c)\<rparr>\<rparr>))"

definition canAttempt :: "gwSettings \<Rightarrow> rat \<Rightarrow> string \<Rightarrow> string \<Rightarrow> gwState \<Rightarrow> bool" where
  "canAttempt cf now cameraId profile st =
     (if \<not> isEnabled cf then True
      else case map_of (gw_entries st) (gwKey cameraId (normalizeSourceProfile profile)) of
        None \<Rightarrow> True
      | Some e \<Rightarrow>
          if coolingAt now e then False
          else (case se_nextAttemptAtMs e of None \<Rightarrow> True | Some t \<Rightarrow> \<not> now < t))"

definition preferredTransport :: "string \<Rightarrow> string \<Rightarrow> rtspTransport \<Rightarrow> gwState \<Rightarrow> rtspTransport" where
  "preferredTransport cameraId profile fallback st =
     (case map_of (gw_entries st) (gwKey cameraId (normalizeSourceProfile profile)) of
        None \<Rightarrow> fallback | Some e \<Rightarrow> (case se_transport e of None \<Rightarrow> fallback | Some t \<Rightarrow> t))"

text \<open>The sweep over the sources: what is left of them, and how many stalled.\<close>

definition stallsAt :: "gwSettings \<Rightarrow> rat \<Rightarrow> sourceEntry \<Rightarrow> bool" where
  "stallsAt cf now e = (se_state e = ONLINE
     \<and> (case se_lastPacketAtMs e of None \<Rightarrow> False | Some t \<Rightarrow> now - t > stallTimeoutMs cf))"

definition collectableAt :: "gwSettings \<Rightarrow> rat \<Rightarrow> sourceEntry \<Rightarrow> bool" where
  "collectableAt cf now e =
     (se_consumers e = [] \<and> \<not> coolingAt now e \<and> now - se_touchedAtMs e > idleTtlMs cf)"

fun tickEntries :: "gwSettings \<Rightarrow> rat \<Rightarrow> (string \<times> sourceEntry) list \<Rightarrow> nat \<times> (string \<times> sourceEntry) list" where
  "tickEntries cf now [] = (0, [])"
| "tickEntries cf now ((k, e) # es) =
     (let (n, rest) = tickEntries cf now es in
      if stallsAt cf now e then (Suc n, (k, e\<lparr>se_state := STALLED, se_degraded := True\<rparr>) # rest)
      else if collectableAt cf now e then (n, rest)
      else (n, (k, e) # rest))"

definition tick :: "gwSettings \<Rightarrow> rat \<Rightarrow> gwState \<Rightarrow> gwState" where
  "tick cf now st =
     (if \<not> isEnabled cf then st
      else let (n, es) = tickEntries cf now (gw_entries st)
           in st\<lparr>gw_entries := es, gw_counters := (gw_counters st)\<lparr>gc_stalls := gc_stalls (gw_counters st) + n\<rparr>\<rparr>)"

definition externalConnections :: "string \<Rightarrow> gwState \<Rightarrow> nat" where
  "externalConnections cameraId st = length (activeEntries cameraId st)"

text \<open>The diagnostic view of a source; a \<open>Date\<close> is its milliseconds.\<close>

definition toSnapshot :: "sourceEntry \<Rightarrow> sourceSnapshot" where
  "toSnapshot e =
     \<lparr>sn_cameraId = se_cameraId e, sn_profile = se_profile e, sn_state = se_state e,
      sn_refCount = length (se_consumers e), sn_consumers = map snd (se_consumers e),
      sn_publishedUrl = (case se_publishedUrl e of None \<Rightarrow> None
        | Some u \<Rightarrow> if u = [] then None else Some (sanitizeSensitiveText (Some u))),
      sn_transport = se_transport e, sn_lastPacketAt = se_lastPacketAtMs e, sn_lastFrameAt = se_lastFrameAtMs e,
      sn_consecutiveFailures = se_consecutiveFailures e, sn_lastBackoffMs = se_lastBackoffMs e,
      sn_nextAttemptAt = se_nextAttemptAtMs e, sn_circuitOpenUntil = se_circuitOpenUntilMs e\<rparr>"

definition describeSource :: "string \<Rightarrow> string \<Rightarrow> gwState \<Rightarrow> sourceSnapshot option" where
  "describeSource cameraId profile st =
     map_option toSnapshot (map_of (gw_entries st) (gwKey cameraId (normalizeSourceProfile profile)))"

definition describeCamera :: "string \<Rightarrow> gwState \<Rightarrow> sourceSnapshot list" where
  "describeCamera cameraId st = map toSnapshot (filter (\<lambda>e. se_cameraId e = cameraId) (map snd (gw_entries st)))"

definition snapshotAll :: "gwState \<Rightarrow> sourceSnapshot list" where
  "snapshotAll st = map (toSnapshot \<circ> snd) (gw_entries st)"

definition recentDecisions :: "int \<Rightarrow> gwState \<Rightarrow> sourceDecision list" where
  "recentDecisions limit st =
     (let n = nat (max 1 (min (int MAX_DECISION_LOG) (if limit = 0 then int MAX_DECISION_LOG else limit)))
      in drop (length (gw_decisionLog st) - n) (gw_decisionLog st))"

definition noCounters :: gwCounters where
  "noCounters = \<lparr>gc_acquisitions = 0, gc_releases = 0, gc_cappedAcquisitions = 0, gc_stalls = 0, gc_failures = 0,
     gc_recoveries = 0, gc_circuitOpens = 0\<rparr>"

definition gwReset :: "gwState \<Rightarrow> gwState" where
  "gwReset st = st\<lparr>gw_entries := [], gw_leases := [], gw_decisionLog := [], gw_decisionCounts := (\<lambda>_. 0),
     gw_counters := noCounters\<rparr>"

definition gwInit :: gwState where
  "gwInit = \<lparr>gw_entries = [], gw_leases = [], gw_decisionLog = [], gw_decisionCounts = (\<lambda>_. 0), gw_leaseSeq = 0,
     gw_counters = noCounters, gw_metrics = []\<rparr>"

text \<open>One call of the service, at any time and with any arguments.\<close>

datatype gwOp =
    OpResolve rat resolveSourceInput
  | OpRegister rat string string "string option"
  | OpAcquire rat string string string
  | OpRelease rat string
  | OpConnecting rat string string
  | OpProgress rat string string string bool
  | OpFailure rat rat string string
  | OpTick rat
  | OpReset

fun gwExec :: "gwSettings \<Rightarrow> gwOp \<Rightarrow> gwState \<Rightarrow> gwState" where
  "gwExec cf (OpResolve now input) st = snd (resolveSourceUrl cf now input st)"
| "gwExec cf (OpRegister now c p u) st = registerPublishedSource cf now c p u st"
| "gwExec cf (OpAcquire now c p consumer) st = snd (acquire cf now c p consumer st)"
| "gwExec cf (OpRelease now lid) st = release now lid st"
| "gwExec cf (OpConnecting now c p) st = noteConnecting cf now c p st"
| "gwExec cf (OpProgress now c p t frame) st = noteProgress cf now c p t frame st"
| "gwExec cf (OpFailure now random c p) st = noteFailure cf now random c p st"
| "gwExec cf (OpTick now) st = tick cf now st"
| "gwExec cf OpReset st = gwReset st"

inductive gwStep :: "gwSettings \<Rightarrow> gwState \<Rightarrow> gwState \<Rightarrow> bool" for cf where
  call: "gwStep cf st (gwExec cf op st)"

inductive_cases gwStepE: "gwStep cf st st'"

end
