(* ===== verification/Source_Gateway_Inv.thy ===== *)
theory Source_Gateway_Inv
  imports Source_Gateway
begin

text \<open>
  The invariant of the source gateway, and that every call keeps it: reference counts agree with the
  leases, the cap on connections, bounds of the registry and of the log, and what the state of a source
  says about its deadlines.
\<close>

section \<open>Keys and maps\<close>

lemma gwKey_inject: "gwKey c p = gwKey c' p' \<longleftrightarrow> c = c' \<and> p = p'"
  by (cases p; cases p') (auto simp: gwKey_def dest: arg_cong [where f = rev])

lemma leaseId_inject: "leaseId m = leaseId n \<longleftrightarrow> m = n"
  unfolding leaseId_def using digits_nat_show by (metis same_append_eq)

lemma length_update: "length (AList.update k v al) = (if k \<in> fst ` set al then length al else Suc (length al))"
  by (induction al) auto

lemma map_of_update [simp]: "map_of (AList.update k v al) = (map_of al)(k \<mapsto> v)"
  by (rule update_conv')

lemma map_of_delete [simp]: "map_of (AList.delete k al) = (map_of al)(k := None)"
  by (rule delete_conv')

lemma length_delete_key: "map_of al k = Some v \<Longrightarrow> length (AList.delete k al) < length al"
proof -
  assume "map_of al k = Some v"
  then have "(k, v) \<in> set al" by (rule map_of_SomeD)
  then show ?thesis unfolding AList.delete_eq by (intro length_filter_less [of "(k, v)"]) auto
qed

declare map_of_eq_Some_iff [simp del] Some_eq_map_of_iff [simp del]

section \<open>The registry\<close>

text \<open>The leases that hold the source of a key.\<close>

definition holders :: "gwState \<Rightarrow> string \<Rightarrow> string set" where
  "holders st k = (case map_of (gw_entries st) k of None \<Rightarrow> {} | Some e \<Rightarrow> fst ` set (se_consumers e))"

definition regInv :: "gwState \<Rightarrow> bool" where
  "regInv st \<longleftrightarrow>
     distinct (map fst (gw_entries st)) \<and> distinct (map fst (gw_leases st))
     \<and> (\<forall>k e. map_of (gw_entries st) k = Some e \<longrightarrow>
          k = gwKey (se_cameraId e) (se_profile e) \<and> distinct (map fst (se_consumers e)))
     \<and> (\<forall>lid k. (\<exists>c. map_of (gw_leases st) lid = Some (k, c)) \<longleftrightarrow> lid \<in> holders st k)
     \<and> (\<forall>lid\<in>dom (map_of (gw_leases st)). \<exists>n\<le>gw_leaseSeq st. lid = leaseId n)
     \<and> int (length (gw_entries st)) \<le> MAX_TRACKED_SOURCES"

lemma regInvD:
  assumes "regInv st"
  shows "distinct (map fst (gw_entries st))" "distinct (map fst (gw_leases st))"
    and "map_of (gw_entries st) k = Some e \<Longrightarrow> k = gwKey (se_cameraId e) (se_profile e) \<and> distinct (map fst (se_consumers e))"
    and "(\<exists>c. map_of (gw_leases st) lid = Some (k, c)) \<longleftrightarrow> lid \<in> holders st k"
    and "lid \<in> dom (map_of (gw_leases st)) \<Longrightarrow> \<exists>n\<le>gw_leaseSeq st. lid = leaseId n"
    and "int (length (gw_entries st)) \<le> MAX_TRACKED_SOURCES"
  using assms unfolding regInv_def by blast+

lemma holders_cong: "gw_entries st' = gw_entries st \<Longrightarrow> holders st' = holders st"
  by (auto simp: holders_def)

text \<open>States that differ only in the parts the registry does not speak of.\<close>

lemma regInv_cong:
  assumes "gw_entries st' = gw_entries st" "gw_leases st' = gw_leases st" "gw_leaseSeq st \<le> gw_leaseSeq st'" "regInv st"
  shows "regInv st'"
proof -
  have "\<exists>n\<le>gw_leaseSeq st'. lid = leaseId n" if "lid \<in> dom (map_of (gw_leases st))" for lid
    using regInvD(5) [OF assms(4) that] assms(3) le_trans by blast
  then show ?thesis
    using assms(4) unfolding regInv_def assms(1,2) holders_cong [OF assms(1)] by blast
qed

text \<open>Replacing sources without touching their consumers keeps the registry.\<close>

lemma regInv_entries:
  assumes "regInv st" "distinct (map fst es)" "int (length es) \<le> MAX_TRACKED_SOURCES"
    and "\<And>k e. map_of es k = Some e \<Longrightarrow> k = gwKey (se_cameraId e) (se_profile e) \<and> distinct (map fst (se_consumers e))"
    and "holders (st\<lparr>gw_entries := es\<rparr>) = holders st"
  shows "regInv (st\<lparr>gw_entries := es\<rparr>)"
  using assms unfolding regInv_def by simp

lemma oldestIdle_idle:
  assumes "distinct (map fst es)" "oldestIdle es best = Some (k, t)"
  shows "best = Some (k, t) \<or> (\<exists>e. map_of es k = Some e \<and> se_consumers e = [])"
  using assms
proof (induction es best rule: oldestIdle.induct)
  case (2 k' e es best)
  from 2 have "best = Some (k, t) \<or> k = k' \<and> se_consumers e = [] \<or> (\<exists>e. map_of es k = Some e \<and> se_consumers e = [])"
    by (auto split: if_splits)
  moreover have "k \<noteq> k'" if "map_of es k = Some e'" for e'
    using that 2(4) map_of_SomeD [OF that] by force
  ultimately show ?case by auto
qed simp

lemma evict_cases:
  assumes "evictOneIdle st = (room, st1)" "distinct (map fst (gw_entries st))"
  obtains (full) "\<not> room" "st1 = st"
    | (evicted) k e where "room" "map_of (gw_entries st) k = Some e" "se_consumers e = []"
        "st1 = st\<lparr>gw_entries := AList.delete k (gw_entries st)\<rparr>"
proof (cases "oldestIdle (gw_entries st) None")
  case None
  with assms(1) show thesis by (intro full) (simp_all add: evictOneIdle_def)
next
  case (Some kt)
  obtain k t where kt: "kt = (k, t)" by fastforce
  with oldestIdle_idle [OF assms(2), of None k t] Some obtain e where "map_of (gw_entries st) k = Some e" "se_consumers e = []"
    by auto
  with assms(1) Some kt show thesis by (intro evicted [of k e]) (simp_all add: evictOneIdle_def)
qed

lemma holders_evict:
  "map_of (gw_entries st) k = Some e \<Longrightarrow> se_consumers e = [] \<Longrightarrow>
     holders (st\<lparr>gw_entries := AList.delete k (gw_entries st)\<rparr>) = holders st"
  by (auto simp: holders_def fun_eq_iff)

lemma ensureEntry_reg:
  assumes "regInv st" "ensureEntry now c p st = (r, st1)"
  shows "regInv st1 \<and> holders st1 = holders st \<and> gw_leases st1 = gw_leases st \<and> gw_leaseSeq st1 = gw_leaseSeq st
    \<and> gw_decisionLog st1 = gw_decisionLog st
    \<and> (\<forall>e. r = Some e \<longrightarrow> map_of (gw_entries st1) (gwKey c p) = Some e \<and> se_cameraId e = c \<and> se_profile e = p)
    \<and> (\<forall>k e. map_of (gw_entries st1) k = Some e \<longrightarrow> map_of (gw_entries st) k = Some e \<or> e = newEntry now c p)"
proof (cases "map_of (gw_entries st) (gwKey c p)")
  case (Some e)
  with assms regInvD(3) [OF assms(1) Some] show ?thesis by (auto simp: ensureEntry_def gwKey_inject)
next
  case None
  let ?k = "gwKey c p" and ?e = "newEntry now c p"
  note inv = regInvD [OF assms(1)]
  have new: "se_cameraId ?e = c" "se_profile ?e = p" "se_consumers ?e = []" by (simp_all add: newEntry_def)
  have add: "regInv (s\<lparr>gw_entries := AList.update ?k ?e (gw_entries s)\<rparr>)
      \<and> holders (s\<lparr>gw_entries := AList.update ?k ?e (gw_entries s)\<rparr>) = holders s"
    if s: "regInv s" "map_of (gw_entries s) ?k = None" "int (length (gw_entries s)) < MAX_TRACKED_SOURCES" for s
  proof -
    have h: "holders (s\<lparr>gw_entries := AList.update ?k ?e (gw_entries s)\<rparr>) = holders s"
      using s(2) new by (auto simp: holders_def fun_eq_iff)
    moreover have "int (length (AList.update ?k ?e (gw_entries s))) \<le> MAX_TRACKED_SOURCES"
      using s(3) by (simp add: length_update)
    moreover have "distinct (map fst (AList.update ?k ?e (gw_entries s)))"
      using regInvD(1) [OF s(1)] by (rule distinct_update)
    ultimately show ?thesis
      using regInvD(3) [OF s(1)] new by (intro conjI regInv_entries [OF s(1)]) (auto split: if_splits)
  qed
  show ?thesis
  proof (cases "int (length (gw_entries st)) \<ge> MAX_TRACKED_SOURCES")
    case False
    with None assms(2) add [OF assms(1) None] new show ?thesis by (auto simp: ensureEntry_def Let_def split: if_splits)
  next
    case True
    obtain room st2 where ev: "evictOneIdle st = (room, st2)" by fastforce
    from ev inv(1) show ?thesis
    proof (cases rule: evict_cases)
      case full
      with None assms True ev show ?thesis by (auto simp: ensureEntry_def Let_def)
    next
      case (evicted k e)
      have h: "holders st2 = holders st" using evicted holders_evict by simp
      have "length (gw_entries st2) < length (gw_entries st)" using evicted length_delete_key by simp
      then have len: "int (length (gw_entries st2)) < MAX_TRACKED_SOURCES" using inv(6) by simp
      have r2: "regInv st2" unfolding evicted(4)
      proof (rule regInv_entries [OF assms(1)])
        show "distinct (map fst (AList.delete k (gw_entries st)))" using inv(1) by (rule distinct_delete)
        show "int (length (AList.delete k (gw_entries st))) \<le> MAX_TRACKED_SOURCES" using len evicted(4) by simp
        show "holders (st\<lparr>gw_entries := AList.delete k (gw_entries st)\<rparr>) = holders st" using h evicted(4) by simp
      qed (use inv(3) in \<open>auto split: if_splits\<close>)
      have n2: "map_of (gw_entries st2) ?k = None" using evicted(4) None by simp
      from add [OF r2 n2 len] h None assms(2) True ev evicted new show ?thesis
        by (auto simp: ensureEntry_def Let_def split: if_splits)
    qed
  qed
qed

lemma putEntry_reg:
  assumes "regInv st" "map_of (gw_entries st) (gwKey (se_cameraId e') (se_profile e')) = Some e"
    and "se_consumers e' = se_consumers e"
  shows "regInv (putEntry e' st)" "holders (putEntry e' st) = holders st"
proof -
  let ?k = "gwKey (se_cameraId e') (se_profile e')"
  show h: "holders (putEntry e' st) = holders st"
    using assms(2,3) by (auto simp: holders_def putEntry_def fun_eq_iff)
  have "?k \<in> fst ` set (gw_entries st)" using assms(2) by (metis domI dom_map_of_conv_image_fst)
  then have "length (AList.update ?k e' (gw_entries st)) = length (gw_entries st)" by (simp add: length_update)
  then show "regInv (putEntry e' st)"
    using regInvD [OF assms(1)] regInvD(3) [OF assms(1,2)] assms(3) h unfolding putEntry_def
    by (intro regInv_entries [OF assms(1)]) (auto intro: distinct_update split: if_splits)
qed

section \<open>The invariant\<close>

text \<open>One source: what its state says about its consumers and deadlines.\<close>

definition entInv :: "gwSettings \<Rightarrow> sourceEntry \<Rightarrow> bool" where
  "entInv cf e \<longleftrightarrow>
     (se_state e = IDLE \<longrightarrow> se_consumers e = [])
     \<and> (se_state e = ONLINE \<longrightarrow> se_circuitOpenUntilMs e = None \<and> se_nextAttemptAtMs e = None \<and> se_lastPacketAtMs e \<noteq> None)
     \<and> (se_state e = CIRCUIT_OPEN \<longrightarrow> se_circuitOpenUntilMs e \<noteq> None)
     \<and> (se_state e = BACKOFF \<longrightarrow> se_nextAttemptAtMs e \<noteq> None)
     \<and> (se_circuitOpenUntilMs e \<noteq> None \<longrightarrow> circuitThreshold cf \<le> int (se_consecutiveFailures e))
     \<and> (\<forall>c. se_circuitCooldownMs e = Some c \<longrightarrow> 0 < c \<and> c \<le> circuitMaxOpenMs cf)"

definition logOk :: "gwState \<Rightarrow> bool" where
  "logOk st \<longleftrightarrow> length (gw_decisionLog st) \<le> MAX_DECISION_LOG
     \<and> (\<forall>d\<in>set (gw_decisionLog st). \<not> containsCredentialBearingUrl (sd_url d))"

definition capOk :: "gwSettings \<Rightarrow> gwState \<Rightarrow> bool" where
  "capOk cf st \<longleftrightarrow> (maxExternalConnectionsPerCamera cf = 1 \<longrightarrow>
     (\<forall>c. holders st (gwKey c Main) = {} \<or> holders st (gwKey c Sub) = {}))"

definition gwInv :: "gwSettings \<Rightarrow> gwState \<Rightarrow> bool" where
  "gwInv cf st \<longleftrightarrow> regInv st \<and> logOk st \<and> capOk cf st
     \<and> (\<forall>k e. map_of (gw_entries st) k = Some e \<longrightarrow> entInv cf e)"

lemma gwInvD:
  assumes "gwInv cf st"
  shows "regInv st" "logOk st" "capOk cf st" "map_of (gw_entries st) k = Some e \<Longrightarrow> entInv cf e"
  using assms unfolding gwInv_def by blast+

lemma capOk_cong: "holders st' = holders st \<Longrightarrow> capOk cf st' = capOk cf st"
  by (simp add: capOk_def)

lemma logOk_cong: "gw_decisionLog st' = gw_decisionLog st \<Longrightarrow> logOk st' = logOk st"
  by (simp add: logOk_def)

lemma gwInv_cong:
  assumes "gw_entries st' = gw_entries st" "gw_leases st' = gw_leases st" "gw_leaseSeq st \<le> gw_leaseSeq st'"
    "gw_decisionLog st' = gw_decisionLog st" "gwInv cf st"
  shows "gwInv cf st'"
  using regInv_cong [OF assms(1-3) gwInvD(1) [OF assms(5)]] assms(5) capOk_cong [OF holders_cong [OF assms(1)]]
    logOk_cong [OF assms(4)] assms(1) by (simp add: gwInv_def)

lemma entInv_new: "entInv cf (newEntry now c p)"
  by (simp add: entInv_def newEntry_def)

lemma ensureEntry_inv:
  assumes "gwInv cf st" "ensureEntry now c p st = (r, st1)"
  shows "gwInv cf st1"
  using ensureEntry_reg [OF gwInvD(1) [OF assms(1)] assms(2)] gwInvD [OF assms(1)] entInv_new
    capOk_cong [of st1 st cf] logOk_cong [of st1 st] unfolding gwInv_def by metis

lemma putEntry_inv:
  assumes "gwInv cf st" "map_of (gw_entries st) (gwKey (se_cameraId e') (se_profile e')) = Some e"
    and "se_consumers e' = se_consumers e" "entInv cf e'"
  shows "gwInv cf (putEntry e' st)"
proof -
  have "gw_decisionLog (putEntry e' st) = gw_decisionLog st" by (simp add: putEntry_def)
  moreover have "entInv cf x" if "map_of (gw_entries (putEntry e' st)) k = Some x" for k x
    using that assms(4) gwInvD(4) [OF assms(1)] by (auto simp: putEntry_def split: if_splits)
  ultimately show ?thesis
    using putEntry_reg [OF gwInvD(1) [OF assms(1)] assms(2,3)] gwInvD(2,3) [OF assms(1)] capOk_cong logOk_cong
    unfolding gwInv_def by metis
qed

text \<open>Every note goes through \<open>ensureEntry\<close> and rewrites one source.\<close>

lemma touch_inv:
  assumes "gwInv cf st" "ensureEntry now c p st = (Some e, st1)"
    and "se_cameraId e' = se_cameraId e" "se_profile e' = se_profile e" "se_consumers e' = se_consumers e" "entInv cf e'"
  shows "gwInv cf (putEntry e' st1)"
  using ensureEntry_reg [OF gwInvD(1) [OF assms(1)] assms(2)]
  by (intro putEntry_inv [OF ensureEntry_inv [OF assms(1,2)] _ assms(5,6)]) (simp add: assms(3,4))

lemma ensured_entInv:
  assumes "gwInv cf st" "ensureEntry now c p st = (Some e, st1)"
  shows "entInv cf e"
  using ensureEntry_reg [OF gwInvD(1) [OF assms(1)] assms(2)] gwInvD(4) [OF ensureEntry_inv [OF assms]] by blast

lemma circuit_pos: "0 < circuitOpenMs cf" "0 < circuitMaxOpenMs cf" "circuitOpenMs cf \<le> circuitMaxOpenMs cf"
proof -
  show "0 < circuitOpenMs cf"
    by (cases "cf_circuitOpenMs cf") (simp_all add: circuitOpenMs_def DEFAULT_circuitOpenMs_def)
  then show "0 < circuitMaxOpenMs cf" "circuitOpenMs cf \<le> circuitMaxOpenMs cf" by (auto simp: circuitMaxOpenMs_def)
qed

lemma failedEntry_same [simp]:
  "se_cameraId (failedEntry cf now rnd e) = se_cameraId e" "se_profile (failedEntry cf now rnd e) = se_profile e"
  "se_consumers (failedEntry cf now rnd e) = se_consumers e"
  by (simp_all add: failedEntry_def Let_def)

lemma failedEntry_inv: "entInv cf e \<Longrightarrow> entInv cf (failedEntry cf now rnd e)"
  using circuit_pos [of cf] by (auto simp: failedEntry_def Let_def entInv_def split: option.splits)

lemma onlineEntry_same [simp]:
  "se_cameraId (onlineEntry now t f e) = se_cameraId e" "se_profile (onlineEntry now t f e) = se_profile e"
  "se_consumers (onlineEntry now t f e) = se_consumers e"
  by (simp_all add: onlineEntry_def)

lemma onlineEntry_inv: "entInv cf (onlineEntry now t f e)"
  by (simp add: entInv_def onlineEntry_def)

lemma register_inv: "gwInv cf st \<Longrightarrow> gwInv cf (registerPublishedSource cf now c p u st)"
  using ensureEntry_inv [of cf st] touch_inv [of cf st] ensured_entInv [of cf st]
  by (auto simp: registerPublishedSource_def entInv_def split: prod.split option.split)

lemma connecting_inv: "gwInv cf st \<Longrightarrow> gwInv cf (noteConnecting cf now c p st)"
  using ensureEntry_inv [of cf st] touch_inv [of cf st] ensured_entInv [of cf st]
  by (auto simp: noteConnecting_def entInv_def split: prod.split option.split)

lemma progress_inv: "gwInv cf st \<Longrightarrow> gwInv cf (noteProgress cf now c p t f st)"
proof -
  assume i: "gwInv cf st"
  obtain r st1 where r: "ensureEntry now c (normalizeSourceProfile p) st = (r, st1)" by fastforce
  show ?thesis
  proof (cases r)
    case None
    with i r ensureEntry_inv [OF i r] show ?thesis by (simp add: noteProgress_def)
  next
    case (Some e)
    have "gwInv cf (putEntry (onlineEntry now t f e) st1)"
      using touch_inv [OF i r [unfolded Some]] onlineEntry_inv by simp
    then have "gwInv cf ((putEntry (onlineEntry now t f e) st1)\<lparr>gw_counters := x, gw_metrics := y\<rparr>)" for x y
      by (rule gwInv_cong [rotated 4]) simp_all
    with \<open>gwInv cf (putEntry (onlineEntry now t f e) st1)\<close> i r Some show ?thesis
      by (simp add: noteProgress_def Let_def)
  qed
qed

lemma failure_inv: "gwInv cf st \<Longrightarrow> gwInv cf (noteFailure cf now rnd c p st)"
proof -
  assume i: "gwInv cf st"
  obtain r st1 where r: "ensureEntry now c (normalizeSourceProfile p) st = (r, st1)" by fastforce
  show ?thesis
  proof (cases r)
    case None
    with i r ensureEntry_inv [OF i r] show ?thesis by (simp add: noteFailure_def)
  next
    case (Some e)
    have "gwInv cf (putEntry (failedEntry cf now rnd e) st1)"
      using touch_inv [OF i r [unfolded Some]] failedEntry_inv [OF ensured_entInv [OF i r [unfolded Some]]] by simp
    then have "gwInv cf ((putEntry (failedEntry cf now rnd e) st1)\<lparr>gw_counters := x\<rparr>)" for x
      by (rule gwInv_cong [rotated 4]) simp_all
    with i r Some show ?thesis by (simp add: noteFailure_def Let_def)
  qed
qed

lemma resolve_inv: "gwInv cf st \<Longrightarrow> gwInv cf (snd (resolveSourceUrl cf now input st))"
proof -
  assume i: "gwInv cf st"
  let ?st = "snd (resolveSourceUrl cf now input st)"
  have same: "gw_entries ?st = gw_entries st" "gw_leases ?st = gw_leases st" "gw_leaseSeq st \<le> gw_leaseSeq ?st"
    by (simp_all add: resolveSourceUrl_def recordDecision_def Let_def)
  have "logOk ?st"
    using gwInvD(2) [OF i] sanitize_clean
    by (auto simp: resolveSourceUrl_def recordDecision_def Let_def logOk_def dest: in_set_dropD)
  with regInv_cong [OF same gwInvD(1) [OF i]] capOk_cong [OF holders_cong [OF same(1)]] i same(1)
  show ?thesis by (simp add: gwInv_def)
qed

lemma reset_inv: "gwInv cf (gwReset st)"
  by (simp add: gwReset_def gwInv_def regInv_def holders_def logOk_def capOk_def MAX_TRACKED_SOURCES_def)

lemma init_inv: "gwInv cf gwInit"
  by (simp add: gwInit_def gwInv_def regInv_def holders_def logOk_def capOk_def MAX_TRACKED_SOURCES_def)

subsection \<open>The sweep\<close>

lemma tickEntries_keys: "fst ` set (snd (tickEntries cf now es)) \<subseteq> fst ` set es"
proof (induction cf now es rule: tickEntries.induct)
  case (2 cf now k e es)
  have "fst ` set (snd (tickEntries cf now ((k, e) # es))) \<subseteq> insert k (fst ` set (snd (tickEntries cf now es)))"
    by (auto simp: Let_def split_beta)
  also have "\<dots> \<subseteq> fst ` set ((k, e) # es)" using 2 by auto
  finally show ?case .
qed simp

lemma tickEntries_distinct: "distinct (map fst es) \<Longrightarrow> distinct (map fst (snd (tickEntries cf now es)))"
proof (induction cf now es rule: tickEntries.induct)
  case (2 cf now k e es)
  moreover have "k \<notin> fst ` set (snd (tickEntries cf now es))" using 2(2) tickEntries_keys [of cf now es] by auto
  ultimately show ?case by (simp add: Let_def split_beta)
qed simp

lemma tickEntries_length: "length (snd (tickEntries cf now es)) \<le> length es"
  by (induction cf now es rule: tickEntries.induct) (auto simp: Let_def split: prod.splits)

text \<open>A source with consumers is never collected; one that stays is as before or stalled.\<close>

lemma tickEntries_map:
  assumes "distinct (map fst es)"
  shows "map_of (snd (tickEntries cf now es)) k =
    (case map_of es k of
       None \<Rightarrow> None
     | Some e \<Rightarrow> if stallsAt cf now e then Some (e\<lparr>se_state := STALLED, se_degraded := True\<rparr>)
                 else if collectableAt cf now e then None else Some e)"
  using assms
proof (induction cf now es rule: tickEntries.induct)
  case (2 cf now k' e es)
  have none: "map_of (snd (tickEntries cf now es)) k' = None"
    using tickEntries_keys [of cf now es] 2(2) by (auto simp: map_of_eq_None_iff)
  from 2 show ?case by (cases "k = k'") (simp_all add: Let_def split_beta none)
qed simp

lemma holders_tick:
  assumes "distinct (map fst (gw_entries st))"
  shows "holders (st\<lparr>gw_entries := snd (tickEntries cf now (gw_entries st))\<rparr>) = holders st"
  using assms by (auto simp: holders_def tickEntries_map collectableAt_def fun_eq_iff split: option.split)

lemma tick_inv: "gwInv cf st \<Longrightarrow> gwInv cf (tick cf now st)"
proof -
  assume i: "gwInv cf st"
  note reg = regInvD [OF gwInvD(1) [OF i]]
  let ?es = "snd (tickEntries cf now (gw_entries st))"
  let ?st = "st\<lparr>gw_entries := ?es\<rparr>"
  have m: "map_of (gw_entries st) k = Some e0 \<and> (e = e0 \<or> e = e0\<lparr>se_state := STALLED, se_degraded := True\<rparr>)"
    if "map_of ?es k = Some e" "map_of (gw_entries st) k = Some e0 \<or> map_of (gw_entries st) k = None" for k e e0
    using that reg(1) by (auto simp: tickEntries_map split: option.splits if_splits)
  have m': "\<exists>e0. map_of (gw_entries st) k = Some e0 \<and> (e = e0 \<or> e = e0\<lparr>se_state := STALLED, se_degraded := True\<rparr>)"
    if "map_of ?es k = Some e" for k e
    using m [OF that] by (cases "map_of (gw_entries st) k") auto
  have r: "regInv ?st"
  proof (rule regInv_entries [OF gwInvD(1) [OF i]])
    show "int (length ?es) \<le> MAX_TRACKED_SOURCES" using tickEntries_length [of cf now "gw_entries st"] reg(6) by simp
    show "k = gwKey (se_cameraId e) (se_profile e) \<and> distinct (map fst (se_consumers e))" if "map_of ?es k = Some e" for k e
      using m' [OF that] reg(3) by auto
  qed (use reg(1) tickEntries_distinct holders_tick in simp_all)
  have "gwInv cf ?st"
    unfolding gwInv_def
  proof (intro conjI allI impI)
    show "logOk ?st" using gwInvD(2) [OF i] by (simp add: logOk_def)
    show "capOk cf ?st" using gwInvD(3) [OF i] capOk_cong [OF holders_tick [OF reg(1)]] by blast
    show "entInv cf e" if "map_of (gw_entries ?st) k = Some e" for k e
      using m' [of k e] that gwInvD(4) [OF i] by (auto simp: entInv_def)
  qed (rule r)
  then have "gwInv cf (?st\<lparr>gw_counters := x\<rparr>)" for x by (rule gwInv_cong [rotated 4]) simp_all
  then show ?thesis using i by (simp add: tick_def Let_def split_beta)
qed

subsection \<open>Attaching and releasing\<close>

fun other :: "sourceProfile \<Rightarrow> sourceProfile" where
  "other Main = Sub"
| "other Sub = Main"

lemma other_simps [simp]: "other (other p) = p" "other p \<noteq> p" "p \<noteq> other p"
  by (cases p; simp)+

lemma not_profile: "p \<noteq> q \<longleftrightarrow> p = other q"
  by (cases p; cases q) auto

lemma capOk_iff: "capOk cf st \<longleftrightarrow> (maxExternalConnectionsPerCamera cf = 1 \<longrightarrow>
     (\<forall>c p. holders st (gwKey c p) = {} \<or> holders st (gwKey c (other p)) = {}))"
  unfolding capOk_def by (metis (full_types) other.simps sourceProfile.exhaust)

lemma attach_inv:
  assumes "gwInv cf st" "map_of (gw_entries st) (gwKey (se_cameraId e) (se_profile e)) = Some e"
    and "lid \<notin> dom (map_of (gw_leases st))" "n \<le> gw_leaseSeq st" "lid = leaseId n"
    and "maxExternalConnectionsPerCamera cf = 1 \<Longrightarrow> holders st (gwKey (se_cameraId e) (other (se_profile e))) = {}"
  shows "gwInv cf (attach now lid consumer e st)"
proof -
  let ?k = "gwKey (se_cameraId e) (se_profile e)"
  let ?st = "attach now lid consumer e st"
  note reg = regInvD [OF gwInvD(1) [OF assms(1)]]
  have fresh: "lid \<notin> holders st k" for k using reg(4) [of lid k] assms(3) by auto
  have "?k \<in> fst ` set (gw_entries st)" using assms(2) by (metis domI dom_map_of_conv_image_fst)
  then have len: "length (gw_entries ?st) = length (gw_entries st)"
    by (simp add: attach_def putEntry_def Let_def length_update)
  have h: "holders ?st = (holders st)(?k := insert lid (holders st ?k))"
    using assms(2) by (auto simp: holders_def attach_def putEntry_def Let_def fun_eq_iff dom_update [symmetric] dom_map_of_conv_image_fst [symmetric])
  have l: "map_of (gw_leases ?st) = (map_of (gw_leases st))(lid \<mapsto> (?k, se_cameraId e))"
    by (simp add: attach_def putEntry_def Let_def)
  have ent: "map_of (gw_entries ?st) = (map_of (gw_entries st))(?k \<mapsto>
      e\<lparr>se_state := (if se_state e = IDLE then CONNECTING else se_state e),
        se_consumers := AList.update lid consumer (se_consumers e), se_touchedAtMs := now\<rparr>)"
    by (simp add: attach_def putEntry_def Let_def)
  have "regInv ?st" unfolding regInv_def
  proof (intro conjI allI ballI impI)
    show "distinct (map fst (gw_entries ?st))" "distinct (map fst (gw_leases ?st))"
      using reg(1,2) by (simp_all add: attach_def putEntry_def Let_def distinct_update)
    show "int (length (gw_entries ?st)) \<le> MAX_TRACKED_SOURCES" using len reg(6) by simp
    show "(\<exists>c. map_of (gw_leases ?st) x = Some (k, c)) = (x \<in> holders ?st k)" for x k
      using reg(4) [of x k] fresh by (auto simp: l h)
    show "\<exists>n\<le>gw_leaseSeq ?st. x = leaseId n" if "x \<in> dom (map_of (gw_leases ?st))" for x
      using that reg(5) [of x] assms(4,5) by (auto simp: l attach_def putEntry_def Let_def)
    fix k x assume "map_of (gw_entries ?st) k = Some x"
    then show "k = gwKey (se_cameraId x) (se_profile x)" "distinct (map fst (se_consumers x))"
      using reg(3) [of k x] reg(3) [OF assms(2)] by (auto simp: ent distinct_update split: if_splits)
  qed
  moreover have "logOk ?st" using gwInvD(2) [OF assms(1)] by (simp add: logOk_def attach_def putEntry_def Let_def)
  moreover have "capOk cf ?st"
    using gwInvD(3) [OF assms(1)] assms(6) unfolding capOk_iff h by (auto simp: gwKey_inject) (metis emptyE other_simps(1))
  moreover have "entInv cf x" if "map_of (gw_entries ?st) k = Some x" for k x
    using that gwInvD(4) [OF assms(1)] assms(2) by (fastforce simp: ent entInv_def split: if_splits)
  ultimately show ?thesis unfolding gwInv_def by blast
qed

lemma active_entry:
  assumes "regInv st" "e \<in> set (activeEntries c st)"
  shows "map_of (gw_entries st) (gwKey (se_cameraId e) (se_profile e)) = Some e" "se_cameraId e = c" "isActive e"
proof -
  from assms(2) obtain k where k: "(k, e) \<in> set (gw_entries st)" "se_cameraId e = c" "isActive e"
    by (auto simp: activeEntries_def)
  then have "map_of (gw_entries st) k = Some e" using regInvD(1) [OF assms(1)] by (intro map_of_is_SomeI)
  with regInvD(3) [OF assms(1) this] k show "map_of (gw_entries st) (gwKey (se_cameraId e) (se_profile e)) = Some e"
    "se_cameraId e = c" "isActive e" by simp_all
qed

lemma active_mem:
  assumes "map_of (gw_entries st) (gwKey c p) = Some e" "regInv st" "isActive e"
  shows "e \<in> set (activeEntries c st)" "se_profile e = p"
  using map_of_SomeD [OF assms(1)] regInvD(3) [OF assms(2,1)] assms(3)
  by (force simp: activeEntries_def gwKey_inject)+

lemma pickSubstitute_mem: "pickSubstitute es = Some e \<Longrightarrow> e \<in> set es"
  by (auto simp: pickSubstitute_def Let_def split: option.splits if_splits dest: find_SomeD)
     (metis filter_is_subset list.set_sel(1) subsetD)

lemma pickSubstitute_None: "pickSubstitute es = None \<longleftrightarrow> es = []"
  by (auto simp: pickSubstitute_def Let_def split: option.splits)

lemma cap_pos: "1 \<le> maxExternalConnectionsPerCamera cf"
  by (simp add: maxExternalConnectionsPerCamera_def)

text \<open>When the cap does not redirect and is one, the other profile of the camera has no consumers.\<close>

lemma uncapped_free:
  assumes "gwInv cf st" "cappedSubstitute cf c p st = None" "maxExternalConnectionsPerCamera cf = 1"
  shows "holders st (gwKey c (other p)) = {}"
proof (rule ccontr)
  assume ne: "holders st (gwKey c (other p)) \<noteq> {}"
  note reg = gwInvD(1) [OF assms(1)]
  from ne obtain e where e: "map_of (gw_entries st) (gwKey c (other p)) = Some e" "se_consumers e \<noteq> []"
    by (auto simp: holders_def split: option.splits)
  have "isActive e" using e(2) by (simp add: isActive_def)
  from active_mem [OF e(1) reg this] have "filter (\<lambda>e. se_profile e \<noteq> p) (activeEntries c st) \<noteq> []"
    by (auto simp: filter_empty_conv intro!: bexI [of _ e])
  then have o: "int (length (filter (\<lambda>e. se_profile e \<noteq> p) (activeEntries c st))) \<ge> 1"
    "pickSubstitute (filter (\<lambda>e. se_profile e \<noteq> p) (activeEntries c st)) \<noteq> None"
    unfolding pickSubstitute_None by (simp_all add: Suc_le_eq)
  have "holders st (gwKey c p) = {}" using gwInvD(3) [OF assms(1)] assms(3) ne unfolding capOk_iff by auto
  then show False using assms(2,3) o by (auto simp: cappedSubstitute_def Let_def holders_def split: option.splits if_splits)
qed

lemma capped_free:
  assumes "regInv st" "cappedSubstitute cf c p st = Some e"
  shows "map_of (gw_entries st) (gwKey (se_cameraId e) (se_profile e)) = Some e" "se_cameraId e = c"
    and "p = other (se_profile e)" "holders st (gwKey c p) = {}"
proof -
  have "e \<in> set (filter (\<lambda>e. se_profile e \<noteq> p) (activeEntries c st))"
    using assms(2) by (auto simp: cappedSubstitute_def Let_def split: option.splits if_splits dest: pickSubstitute_mem)
  then have e: "e \<in> set (activeEntries c st)" "se_profile e \<noteq> p" by simp_all
  show "map_of (gw_entries st) (gwKey (se_cameraId e) (se_profile e)) = Some e" "se_cameraId e = c"
    using active_entry [OF assms(1) e(1)] by simp_all
  show "p = other (se_profile e)" using e(2) not_profile by metis
  show "holders st (gwKey c p) = {}"
    using assms(2) by (auto simp: cappedSubstitute_def Let_def holders_def split: option.splits if_splits)
qed

lemma fresh_lease:
  assumes "regInv st" "gw_leaseSeq st < n"
  shows "leaseId n \<notin> dom (map_of (gw_leases st))"
  using regInvD(5) [OF assms(1), of "leaseId n"] assms(2) by (auto simp: leaseId_inject)

lemma acquire_inv: "gwInv cf st \<Longrightarrow> gwInv cf (snd (acquire cf now c p consumer st))"
proof -
  assume i: "gwInv cf st"
  let ?p = "normalizeSourceProfile p" and ?n = "Suc (gw_leaseSeq st)"
  let ?st = "st\<lparr>gw_leaseSeq := ?n\<rparr>"
  have i1: "gwInv cf ?st" by (rule gwInv_cong [OF _ _ _ _ i]) simp_all
  note reg = gwInvD(1) [OF i1]
  have fresh: "leaseId ?n \<notin> dom (map_of (gw_leases ?st))" using fresh_lease [OF gwInvD(1) [OF i], of ?n] by simp
  show ?thesis
  proof (cases "isEnabled cf")
    case en: True
    show ?thesis
    proof (cases "cappedSubstitute cf c ?p ?st")
      case (Some e)
      let ?c = "?st\<lparr>gw_counters := (gw_counters ?st)\<lparr>gc_cappedAcquisitions := Suc (gc_cappedAcquisitions (gw_counters ?st))\<rparr>\<rparr>"
      have i2: "gwInv cf ?c" by (rule gwInv_cong [OF _ _ _ _ i1]) simp_all
      note f = capped_free [OF reg Some]
      have "gwInv cf (attach now (leaseId ?n) consumer e ?c)"
      proof (rule attach_inv [OF i2 _ _ _ refl])
        show "holders ?c (gwKey (se_cameraId e) (other (se_profile e))) = {}"
          using f holders_cong [of ?c ?st] by simp
      qed (use f(1) fresh in simp_all)
      with en Some show ?thesis by (simp add: acquire_def Let_def)
    next
      case None
      obtain r st1 where r: "ensureEntry now c ?p ?st = (r, st1)" by fastforce
      note e = ensureEntry_reg [OF reg r]
      show ?thesis
      proof (cases r)
        case rN: None
        with en None r ensureEntry_inv [OF i1 r] show ?thesis by (simp add: acquire_def Let_def)
      next
        case (Some x)
        have "gwInv cf (attach now (leaseId ?n) consumer x st1)"
        proof (rule attach_inv [OF ensureEntry_inv [OF i1 r] _ _ _ refl])
          show "holders st1 (gwKey (se_cameraId x) (other (se_profile x))) = {}"
            if "maxExternalConnectionsPerCamera cf = 1" using uncapped_free [OF i1 None that] e Some by simp
        qed (use e Some fresh in auto)
        with en None r Some show ?thesis by (simp add: acquire_def Let_def)
      qed
    qed
  next
    case False
    then show ?thesis using i1 by (simp add: acquire_def Let_def)
  qed
qed

text \<open>What a release does to the leases that hold each source.\<close>

lemma release_effect:
  assumes "regInv st" "map_of (gw_leases st) lid = Some (k, c)"
  obtains e where "map_of (gw_entries st) k = Some e" "lid \<in> fst ` set (se_consumers e)"
    "map_of (gw_leases (release now lid st)) = (map_of (gw_leases st))(lid := None)"
    "map_of (gw_entries (release now lid st)) = (map_of (gw_entries st))(k \<mapsto>
       e\<lparr>se_consumers := AList.delete lid (se_consumers e), se_touchedAtMs := now,
         se_state := (if AList.delete lid (se_consumers e) = [] then (if coolingAt now e then CIRCUIT_OPEN else IDLE)
                      else se_state e)\<rparr>)"
    "holders (release now lid st) = (holders st)(k := holders st k - {lid})"
    "gw_leaseSeq (release now lid st) = gw_leaseSeq st" "gw_decisionLog (release now lid st) = gw_decisionLog st"
    "length (gw_entries (release now lid st)) = length (gw_entries st)"
    "distinct (map fst (gw_entries (release now lid st)))" "distinct (map fst (gw_leases (release now lid st)))"
proof -
  have id: "lid \<noteq> []" using regInvD(5) [OF assms(1), of lid] assms(2) by (auto simp: leaseId_def)
  have "lid \<in> holders st k" using regInvD(4) [OF assms(1)] assms(2) by blast
  then obtain e where e: "map_of (gw_entries st) k = Some e" "lid \<in> fst ` set (se_consumers e)"
    by (auto simp: holders_def split: option.splits)
  have k: "k \<in> fst ` set (gw_entries st)" using e(1) by (metis domI dom_map_of_conv_image_fst)
  have d: "fst ` set (AList.delete lid xs) = fst ` set xs - {lid}" for xs :: "(string \<times> string) list"
    by (auto simp: AList.delete_eq)
  show thesis
  proof (rule that [OF e])
    show "holders (release now lid st) = (holders st)(k := holders st k - {lid})"
      using id assms(2) e(1) d [of "se_consumers e"]
      by (cases "AList.delete lid (se_consumers e) = []") (simp_all add: release_def Let_def holders_def fun_eq_iff)
  qed (use id assms e(1) k regInvD(1,2) [OF assms(1)] in \<open>simp_all add: release_def Let_def length_update distinct_update distinct_delete\<close>)
qed

lemma release_inv: "gwInv cf st \<Longrightarrow> gwInv cf (release now lid st)"
proof (cases "map_of (gw_leases st) lid")
  case None
  assume "gwInv cf st"
  with None show ?thesis by (simp add: release_def)
next
  case (Some kc)
  assume i: "gwInv cf st"
  obtain k c where kc: "kc = (k, c)" by fastforce
  note reg = regInvD [OF gwInvD(1) [OF i]]
  from release_effect [OF gwInvD(1) [OF i] Some [unfolded kc], of now] obtain e where
    e: "map_of (gw_entries st) k = Some e"
    and l: "map_of (gw_leases (release now lid st)) = (map_of (gw_leases st))(lid := None)"
    and m: "map_of (gw_entries (release now lid st)) = (map_of (gw_entries st))(k \<mapsto>
       e\<lparr>se_consumers := AList.delete lid (se_consumers e), se_touchedAtMs := now,
         se_state := (if AList.delete lid (se_consumers e) = [] then (if coolingAt now e then CIRCUIT_OPEN else IDLE)
                      else se_state e)\<rparr>)"
    and h: "holders (release now lid st) = (holders st)(k := holders st k - {lid})"
    and r: "gw_leaseSeq (release now lid st) = gw_leaseSeq st" "gw_decisionLog (release now lid st) = gw_decisionLog st"
    "length (gw_entries (release now lid st)) = length (gw_entries st)"
    "distinct (map fst (gw_entries (release now lid st)))" "distinct (map fst (gw_leases (release now lid st)))" by blast
  have "regInv (release now lid st)" unfolding regInv_def
  proof (intro conjI allI ballI impI)
    show "(\<exists>c. map_of (gw_leases (release now lid st)) x = Some (k', c)) = (x \<in> holders (release now lid st) k')" for x k'
      using reg(4) [of x k'] Some kc by (auto simp: l h)
    show "\<exists>n\<le>gw_leaseSeq (release now lid st). x = leaseId n" if "x \<in> dom (map_of (gw_leases (release now lid st)))" for x
      using that reg(5) [of x] by (auto simp: l r split: if_splits)
    fix k' x assume "map_of (gw_entries (release now lid st)) k' = Some x"
    then show "k' = gwKey (se_cameraId x) (se_profile x)" "distinct (map fst (se_consumers x))"
      using reg(3) [of k' x] reg(3) [OF e] by (auto simp: m distinct_delete split: if_splits)
  qed (use r reg in simp_all)
  moreover have "logOk (release now lid st)" using gwInvD(2) [OF i] logOk_cong [OF r(2)] by simp
  moreover have "capOk cf (release now lid st)" using gwInvD(3) [OF i] unfolding capOk_def h by auto
  moreover have "entInv cf x" if "map_of (gw_entries (release now lid st)) k' = Some x" for k' x
    using that gwInvD(4) [OF i e] gwInvD(4) [OF i, of k' x]
    by (auto simp: m entInv_def coolingAt_def split: if_splits option.splits)
  ultimately show ?thesis unfolding gwInv_def by blast
qed

lemma exec_inv: "gwInv cf st \<Longrightarrow> gwInv cf (gwExec cf op st)"
  by (cases op) (simp_all add: resolve_inv register_inv acquire_inv release_inv connecting_inv progress_inv
      failure_inv tick_inv reset_inv)

interpretation gw: step_invariant "\<lambda>st. st = gwInit" "gwStep cf" "gwInv cf" for cf
proof
  show "st = gwInit \<Longrightarrow> gwInv cf st" for st using init_inv by simp
  show "gwInv cf t" if "gwInv cf s" "gwStep cf s t" for s t
    using that(2) exec_inv [OF that(1)] by (auto elim: gwStepE)
qed

end
