(* ===== verification/Source_Gateway_Props.thy ===== *)
theory Source_Gateway_Props
  imports Source_Gateway_Inv
begin

text \<open>
  The properties of the source gateway, over every sequence of calls of the service.
\<close>

section \<open>Consumers and leases\<close>

lemma refcount_leases:
  assumes "regInv st" "map_of (gw_entries st) k = Some e"
  shows "length (se_consumers e) = length (filter (\<lambda>(_, k', _). k' = k) (gw_leases st))"
proof -
  let ?ls = "filter (\<lambda>(_, k', _). k' = k) (gw_leases st)"
  note reg = regInvD [OF assms(1)]
  have "fst ` set (se_consumers e) = holders st k" using assms(2) by (simp add: holders_def)
  also have "\<dots> = {lid. \<exists>c. map_of (gw_leases st) lid = Some (k, c)}" using reg(4) by blast
  also have "\<dots> = fst ` set ?ls" using map_of_eq_Some_iff [OF reg(2)] by (force simp: image_iff)
  finally have "card (fst ` set (se_consumers e)) = card (fst ` set ?ls)" by simp
  moreover have "distinct (map fst ?ls)" using reg(2) by (rule distinct_map_filter)
  ultimately show ?thesis
    using reg(3) [OF assms(2)] distinct_card [of "map fst (se_consumers e)"] distinct_card [of "map fst ?ls"] by simp
qed

definition heldSources :: "string \<Rightarrow> gwState \<Rightarrow> sourceEntry list" where
  "heldSources c st = filter (\<lambda>e. se_cameraId e = c \<and> se_consumers e \<noteq> []) (map snd (gw_entries st))"

lemma heldSources_profiles:
  assumes "regInv st"
  shows "distinct (map se_profile (heldSources c st))"
    and "p \<in> set (map se_profile (heldSources c st)) \<longleftrightarrow> holders st (gwKey c p) \<noteq> {}"
proof -
  note reg = regInvD [OF assms]
  have keys: "map fst (gw_entries st) = map (\<lambda>e. gwKey (se_cameraId e) (se_profile e)) (map snd (gw_entries st))"
    using reg(3) map_of_is_SomeI [OF reg(1)] by fastforce
  then have "distinct (map (\<lambda>e. gwKey (se_cameraId e) (se_profile e)) (heldSources c st))"
    unfolding heldSources_def using distinct_map_filter [OF reg(1) [unfolded keys]] by simp
  then have "distinct (map (gwKey c) (map se_profile (heldSources c st)))"
    by (rule subst [of _ _ distinct, rotated]) (simp add: heldSources_def)
  then show "distinct (map se_profile (heldSources c st))" by (simp only: distinct_map)
  show "p \<in> set (map se_profile (heldSources c st)) \<longleftrightarrow> holders st (gwKey c p) \<noteq> {}"
  proof
    assume "p \<in> set (map se_profile (heldSources c st))"
    then obtain k e where e: "(k, e) \<in> set (gw_entries st)" "se_cameraId e = c" "se_consumers e \<noteq> []" "p = se_profile e"
      by (auto simp: heldSources_def)
    have "map_of (gw_entries st) k = Some e" using reg(1) e(1) by simp
    with reg(3) [OF this] e show "holders st (gwKey c p) \<noteq> {}" by (auto simp: holders_def)
  next
    assume "holders st (gwKey c p) \<noteq> {}"
    then obtain e where e: "map_of (gw_entries st) (gwKey c p) = Some e" "se_consumers e \<noteq> []"
      by (auto simp: holders_def split: option.splits)
    with reg(3) [OF e(1)] map_of_SomeD [OF e(1)] show "p \<in> set (map se_profile (heldSources c st))"
      by (force simp: heldSources_def gwKey_inject)
  qed
qed

lemma profile_list_bound: "distinct (ps :: sourceProfile list) \<Longrightarrow> length ps \<le> 2"
proof -
  assume "distinct ps"
  moreover have "card (set ps) \<le> card {Main, Sub}"
    by (rule card_mono) (auto intro: sourceProfile.exhaust)
  ultimately show ?thesis by (simp add: distinct_card)
qed

lemma one_profile:
  "distinct ps \<Longrightarrow> (\<And>p. \<not> (p \<in> set ps \<and> other p \<in> set ps)) \<Longrightarrow> length ps \<le> 1"
proof (rule ccontr)
  assume d: "distinct ps" and no: "\<And>p. \<not> (p \<in> set ps \<and> other p \<in> set ps)" and "\<not> length ps \<le> 1"
  then obtain a b qs where ps: "ps = a # b # qs" by (cases ps; cases "tl ps") auto
  with d have "b = other a" using not_profile by auto
  with ps no [of a] show False by simp
qed

lemma heldSources_capped:
  assumes "gwInv cf st"
  shows "int (length (heldSources c st)) \<le> maxExternalConnectionsPerCamera cf"
proof (cases "maxExternalConnectionsPerCamera cf = 1")
  case False
  then have "2 \<le> maxExternalConnectionsPerCamera cf" using cap_pos [of cf] by simp
  with profile_list_bound [OF heldSources_profiles(1) [OF gwInvD(1) [OF assms]]] show ?thesis
    by (metis (mono_tags) dual_order.trans length_map of_nat_le_iff of_nat_numeral)
next
  case True
  note reg = gwInvD(1) [OF assms]
  let ?ps = "map se_profile (heldSources c st)"
  from gwInvD(3) [OF assms] True have "\<not> (p \<in> set ?ps \<and> other p \<in> set ?ps)" for p
    unfolding heldSources_profiles(2) [OF reg] capOk_iff by blast
  then have "length ?ps \<le> 1" using one_profile heldSources_profiles(1) [OF reg] by blast
  with True show ?thesis by simp
qed

section \<open>Runs\<close>

abbreviation gwReach :: "gwSettings \<Rightarrow> gwState \<Rightarrow> bool" where
  "gwReach cf \<equiv> reachable (\<lambda>st. st = gwInit) (gwStep cf)"

definition gwRun :: "gwSettings \<Rightarrow> gwOp list \<Rightarrow> gwState" where
  "gwRun cf ops = foldl (\<lambda>st op. gwExec cf op st) gwInit ops"

lemma run_reachable: "gwReach cf (gwRun cf ops)"
proof (induction ops rule: rev_induct)
  case Nil
  show ?case by (simp add: gwRun_def reach_start)
next
  case (snoc op ops)
  then show ?case using gwStep.call by (auto simp: gwRun_def intro: reach_step)
qed

definition demoSettings :: gwSettings where
  "demoSettings = \<lparr>cf_enabled = '' True '', cf_maxExternalPerCamera = Fin 1, cf_stallTimeoutMs = NonFinite,
     cf_circuitThreshold = Fin 2, cf_circuitOpenMs = Fin 1000, cf_circuitMaxOpenMs = Fin 3000, cf_idleTtlMs = NonFinite,
     cf_backoffBaseMs = NonFinite, cf_backoffCapMs = NonFinite, cf_backoffJitter = Fin 0\<rparr>"

section \<open>Routing\<close>

lemma decide_direct:
  "sd_origin (decide cf now input st) = Direct \<Longrightarrow> sd_url (decide cf now input st) = ri_directUrl input"
  unfolding decide_def Let_def by (auto split: option.splits prod.splits if_splits)

lemma serving_entry:
  assumes "regInv st" "servingEntry cf c p st = Some (e, r)"
  shows "map_of (gw_entries st) (gwKey c (se_profile e)) = Some e" "se_cameraId e = c"
    and "se_profile e \<noteq> p \<longrightarrow> maxExternalConnectionsPerCamera cf \<le> int (externalConnections c st)"
proof -
  let ?os = "filter (\<lambda>e. se_profile e \<noteq> p) (activeEntries c st)"
  consider "activeEntry c p st = Some e"
    | "e \<in> set ?os" "maxExternalConnectionsPerCamera cf \<le> int (length ?os)"
    using assms(2) by (auto simp: servingEntry_def Let_def split: option.splits if_splits dest!: pickSubstitute_mem)
  then have "map_of (gw_entries st) (gwKey c (se_profile e)) = Some e \<and> se_cameraId e = c
     \<and> (se_profile e \<noteq> p \<longrightarrow> maxExternalConnectionsPerCamera cf \<le> int (externalConnections c st))"
  proof cases
    case 1
    then have "map_of (gw_entries st) (gwKey c p) = Some e" by (auto simp: activeEntry_def split: option.splits if_splits)
    with regInvD(3) [OF assms(1) this] show ?thesis by (simp add: gwKey_inject)
  next
    case 2
    have "length ?os \<le> length (activeEntries c st)" by simp
    with 2 active_entry [OF assms(1), of e c] show ?thesis by (auto simp: externalConnections_def simp del: length_filter_le)
  qed
  then show "map_of (gw_entries st) (gwKey c (se_profile e)) = Some e" "se_cameraId e = c"
    "se_profile e \<noteq> p \<longrightarrow> maxExternalConnectionsPerCamera cf \<le> int (externalConnections c st)" by blast+
qed

lemma decide_gateway:
  assumes "sd_origin (decide cf now input st) = Gateway"
  shows "isEnabled cf" "\<not> ri_requireDirect input"
    and "\<exists>e r. servingEntry cf (ri_cameraId input) (normalizeSourceProfile (ri_profile input)) st = Some (e, r)
      \<and> \<not> coolingAt now e \<and> se_state e \<notin> {STALLED, BACKOFF} \<and> sd_servedProfile (decide cf now input st) = se_profile e
      \<and> sd_url (decide cf now input st) \<noteq> []
      \<and> (se_publishedUrl e = Some (sd_url (decide cf now input st))
         \<or> se_profile e = normalizeSourceProfile (ri_profile input) \<and> ri_internalUrl input = Some (sd_url (decide cf now input st)))"
  using assms unfolding decide_def Let_def by (auto split: option.splits prod.splits if_splits)

lemma resolve_fst [simp]: "fst (resolveSourceUrl cf now input st) = decide cf now input st"
  by (simp add: resolveSourceUrl_def recordDecision_def Let_def)

section \<open>Properties\<close>

text \<open>
  Property C12. Reference counts. After any calls of the gateway, the count of a source is the number of leases
  that name it; at most the configured number of sources of one camera are held by consumers; the registry
  holds at most 2000 sources; and the journal of decisions has at most 200 entries, none with credentials.
\<close>

theorem gateway_registry_invariant:
  assumes "gwReach cf st"
  shows "(map_of (gw_entries st) k = Some e \<longrightarrow>
            length (se_consumers e) = length (filter (\<lambda>(_, k', _). k' = k) (gw_leases st)))
    \<and> int (length (filter (\<lambda>e. se_cameraId e = c \<and> se_consumers e \<noteq> []) (map snd (gw_entries st))))
        \<le> maxExternalConnectionsPerCamera cf
    \<and> length (gw_entries st) \<le> 2000
    \<and> length (recentDecisions n st) \<le> 200
    \<and> (\<forall>d\<in>set (recentDecisions n st). \<not> containsCredentialBearingUrl (sd_url d))"
proof -
  have inv: "gwInv cf st" using assms by (rule gw.reachable_inv)
  have "set (recentDecisions n st) \<subseteq> set (gw_decisionLog st)" "length (recentDecisions n st) \<le> length (gw_decisionLog st)"
    by (auto simp: recentDecisions_def Let_def dest: in_set_dropD)
  moreover have "length (gw_entries st) \<le> 2000"
    using regInvD(6) [OF gwInvD(1) [OF inv]] by (simp add: MAX_TRACKED_SOURCES_def)
  ultimately show ?thesis
    using refcount_leases [OF gwInvD(1) [OF inv]] heldSources_capped [OF inv, of c] gwInvD(2) [OF inv]
    unfolding logOk_def heldSources_def MAX_DECISION_LOG_def by (meson in_mono le_trans)
qed

definition twoConsumers :: gwState where
  "twoConsumers = gwRun demoSettings
     [OpAcquire 1 ''c1'' ''main'' ''live'', OpAcquire 2 ''c1'' ''sub'' ''ai'',
      OpResolve 3 \<lparr>ri_cameraId = ''c1'', ri_profile = ''main'', ri_consumer = ''live'',
        ri_directUrl = ''rtsp://u:p@h/1'', ri_internalUrl = None, ri_requireDirect = False\<rparr>]"

theorem gateway_registry_invariant_witness:
  "gwReach demoSettings twoConsumers
   \<and> map_option (\<lambda>e. length (se_consumers e)) (map_of (gw_entries twoConsumers) ''c1::main'') = Some 2
   \<and> length (filter (\<lambda>(_, k', _). k' = ''c1::main'') (gw_leases twoConsumers)) = 2
   \<and> map sd_url (recentDecisions 0 twoConsumers) = [''rtsp://<redacted>@h/1'']"
proof -
  have r: "gwReach demoSettings twoConsumers" unfolding twoConsumers_def by (rule run_reachable)
  have e: "map_option (\<lambda>e. length (se_consumers e)) (map_of (gw_entries twoConsumers) ''c1::main'') = Some 2" by code_simp
  have l: "map sd_url (recentDecisions 0 twoConsumers) = [''rtsp://<redacted>@h/1'']" by code_simp
  from e gateway_registry_invariant [OF r, of "''c1::main''"] r l show ?thesis by (auto split: option.splits)
qed

text \<open>
  Property C18. Fail-safe routing. A direct decision carries exactly the URL the caller passed. The gateway
  serves its own URL only when it is enabled and the consumer did not require the camera, from a registered
  source of that camera which is neither in cooldown nor stalled nor in backoff, with a URL published for it
  (or the caller's hint for the same profile); another profile than the requested one only with the
  camera's connections at the cap.
\<close>

theorem gateway_routing_fail_safe:
  assumes "gwReach cf st" "d = fst (resolveSourceUrl cf now input st)"
  shows "(sd_origin d = Direct \<longrightarrow> sd_url d = ri_directUrl input)
    \<and> (sd_origin d = Gateway \<longrightarrow> isEnabled cf \<and> \<not> ri_requireDirect input \<and> sd_url d \<noteq> []
       \<and> (\<exists>e. map_of (gw_entries st) (gwKey (ri_cameraId input) (sd_servedProfile d)) = Some e
            \<and> \<not> coolingAt now e \<and> se_state e \<notin> {STALLED, BACKOFF}
            \<and> (se_publishedUrl e = Some (sd_url d)
               \<or> sd_servedProfile d = normalizeSourceProfile (ri_profile input) \<and> ri_internalUrl input = Some (sd_url d)))
       \<and> (sd_servedProfile d \<noteq> normalizeSourceProfile (ri_profile input) \<longrightarrow>
            maxExternalConnectionsPerCamera cf \<le> int (externalConnections (ri_cameraId input) st)))"
proof (intro conjI impI)
  note reg = gwInvD(1) [OF gw.reachable_inv [OF assms(1)]]
  show "sd_origin d = Direct \<Longrightarrow> sd_url d = ri_directUrl input" using assms(2) decide_direct by simp
  assume "sd_origin d = Gateway"
  then have g: "sd_origin (decide cf now input st) = Gateway" using assms(2) by simp
  from decide_gateway(3) [OF g] obtain e r where e:
    "servingEntry cf (ri_cameraId input) (normalizeSourceProfile (ri_profile input)) st = Some (e, r)"
    "\<not> coolingAt now e" "se_state e \<notin> {STALLED, BACKOFF}" "sd_servedProfile d = se_profile e" "sd_url d \<noteq> []"
    "se_publishedUrl e = Some (sd_url d)
       \<or> se_profile e = normalizeSourceProfile (ri_profile input) \<and> ri_internalUrl input = Some (sd_url d)"
    using assms(2) by auto
  note s = serving_entry [OF reg e(1)]
  show "isEnabled cf" "\<not> ri_requireDirect input" "sd_url d \<noteq> []" using decide_gateway(1,2) [OF g] e(5) by simp_all
  show "\<exists>e. map_of (gw_entries st) (gwKey (ri_cameraId input) (sd_servedProfile d)) = Some e
      \<and> \<not> coolingAt now e \<and> se_state e \<notin> {STALLED, BACKOFF}
      \<and> (se_publishedUrl e = Some (sd_url d)
         \<or> sd_servedProfile d = normalizeSourceProfile (ri_profile input) \<and> ri_internalUrl input = Some (sd_url d))"
    using s(1) e unfolding e(4) by blast
  show "sd_servedProfile d \<noteq> normalizeSourceProfile (ri_profile input) \<Longrightarrow>
      maxExternalConnectionsPerCamera cf \<le> int (externalConnections (ri_cameraId input) st)" using s(3) e(4) by simp
qed

definition askSub :: resolveSourceInput where
  "askSub = \<lparr>ri_cameraId = ''c1'', ri_profile = ''sub'', ri_consumer = ''ai'', ri_directUrl = ''rtsp://u:p@h/2'',
     ri_internalUrl = None, ri_requireDirect = False\<rparr>"

definition publishedMain :: gwState where
  "publishedMain = gwRun demoSettings
     [OpAcquire 1 ''c1'' ''main'' ''live'', OpRegister 2 ''c1'' ''main'' (Some ''rtsp://mtx/c1''),
      OpProgress 3 ''c1'' ''main'' ''tcp'' True]"

theorem gateway_routing_fail_safe_witness:
  "gwReach demoSettings publishedMain
   \<and> sd_url (fst (resolveSourceUrl demoSettings 4 askSub publishedMain)) = ''rtsp://mtx/c1''
   \<and> maxExternalConnectionsPerCamera demoSettings \<le> int (externalConnections ''c1'' publishedMain)"
proof -
  let ?d = "fst (resolveSourceUrl demoSettings 4 askSub publishedMain)"
  have r: "gwReach demoSettings publishedMain" unfolding publishedMain_def by (rule run_reachable)
  have "sd_origin ?d = Gateway" "sd_url ?d = ''rtsp://mtx/c1''" "sd_servedProfile ?d = Main"
    "normalizeSourceProfile (ri_profile askSub) = Sub" "ri_cameraId askSub = ''c1''" by code_simp+
  with gateway_routing_fail_safe [OF r refl, of 4 askSub] r show ?thesis by simp
qed

section \<open>The gateway switched off\<close>

definition gwInert :: "gwState \<Rightarrow> bool" where
  "gwInert st \<longleftrightarrow> gw_entries st = [] \<and> gw_leases st = [] \<and> gw_counters st = noCounters \<and> gw_metrics st = []"

lemma exec_inert: "\<not> isEnabled cf \<Longrightarrow> gwInert st \<Longrightarrow> gwInert (gwExec cf op st)"
  by (cases op) (simp_all add: gwInert_def resolveSourceUrl_def recordDecision_def registerPublishedSource_def acquire_def
      release_def noteConnecting_def noteProgress_def noteFailure_def tick_def gwReset_def Let_def)

interpretation gwOff: step_invariant "\<lambda>st. st = gwInit" "gwStep cf" "\<lambda>st. \<not> isEnabled cf \<longrightarrow> gwInert st" for cf
proof
  show "st = gwInit \<Longrightarrow> \<not> isEnabled cf \<longrightarrow> gwInert st" for st by (simp add: gwInert_def gwInit_def)
  show "\<not> isEnabled cf \<longrightarrow> gwInert t" if "\<not> isEnabled cf \<longrightarrow> gwInert s" "gwStep cf s t" for s t
    using that exec_inert by (auto elim: gwStepE)
qed

text \<open>
  Switched off, the gateway does not exist: whatever is called, no source, no lease, no count and
  no metric appears, every consumer gets the direct URL it passed and the profile it asked for, and no
  connection attempt is ever refused.
\<close>

theorem gateway_disabled_inert:
  assumes "gwReach cf st" "\<not> isEnabled cf"
  shows "gw_entries st = [] \<and> gw_leases st = [] \<and> gw_counters st = noCounters \<and> gw_metrics st = []
    \<and> sd_url (fst (resolveSourceUrl cf now input st)) = ri_directUrl input
    \<and> sd_reason (fst (resolveSourceUrl cf now input st)) = gateway_disabled
    \<and> ls_servedProfile (fst (acquire cf now c p consumer st)) = normalizeSourceProfile p
    \<and> canAttempt cf now c p st"
proof -
  have "gwInert st" using gwOff.reachable_inv [OF assms(1)] assms(2) by simp
  then show ?thesis using assms(2) by (simp add: gwInert_def decide_def acquire_def canAttempt_def Let_def)
qed

theorem gateway_disabled_inert_witness:
  "\<not> isEnabled (demoSettings\<lparr>cf_enabled := ''1''\<rparr>)
   \<and> gw_entries (gwRun (demoSettings\<lparr>cf_enabled := ''1''\<rparr>) [OpAcquire 1 ''c1'' ''main'' ''live'', OpFailure 2 0 ''c1'' ''main'']) = []
   \<and> gw_leaseSeq (gwRun (demoSettings\<lparr>cf_enabled := ''1''\<rparr>) [OpAcquire 1 ''c1'' ''main'' ''live'', OpFailure 2 0 ''c1'' ''main'']) = 1"
proof -
  have off: "\<not> isEnabled (demoSettings\<lparr>cf_enabled := ''1''\<rparr>)" by code_simp
  have "gw_leaseSeq (gwRun (demoSettings\<lparr>cf_enabled := ''1''\<rparr>) [OpAcquire 1 ''c1'' ''main'' ''live'', OpFailure 2 0 ''c1'' ''main'']) = 1"
    by code_simp
  with off gateway_disabled_inert [OF run_reachable off] show ?thesis by blast
qed

section \<open>Backoff and circuit breaker\<close>

definition backoffCap :: "gwSettings \<Rightarrow> rat" where
  "backoffCap cf = positive (cf_backoffCapMs cf) DEFAULT_backoffCapMs"

lemma positive_pos: "0 < d \<Longrightarrow> 0 < positive v d"
  by (cases v) simp_all

lemma clamp01_range: "0 \<le> clamp01 v" "clamp01 v \<le> 1"
  by (cases v; simp)+

lemma jitter_factor: "0 \<le> j \<Longrightarrow> j \<le> 1 \<Longrightarrow> 0 \<le> r \<Longrightarrow> r \<le> 1 \<Longrightarrow> 1 + j * (2 * r - 1) \<le> 2" for j r :: rat
proof -
  assume a: "0 \<le> j" "j \<le> 1" "0 \<le> r" "r \<le> 1"
  then have "j * (2 * r - 1) \<le> j * 1" by (intro mult_left_mono) simp_all
  with a show ?thesis by simp
qed

lemma computeBackoff_form:
  "\<exists>d j. 0 < d \<and> d \<le> positive c DEFAULT_backoffCapMs \<and> 0 \<le> j \<and> j \<le> 1
     \<and> computeBackoffDelayMs n (Some b) (Some c) (Some v) r = (if j \<le> 0 then max 0 d else max 0 (d * (1 + j * (2 * r - 1))))"
  unfolding computeBackoffDelayMs_def Let_def option.case
proof (intro exI conjI)
  show "0 \<le> clamp01 v" "clamp01 v \<le> 1" by (rule clamp01_range)+
qed (auto simp: positive_pos DEFAULT_backoffCapMs_def DEFAULT_backoffBaseMs_def)

lemma backoffDelay_bounds:
  assumes "0 \<le> r" "r \<le> 1"
  shows "0 \<le> backoffDelay cf n r" "backoffDelay cf n r \<le> 2 * backoffCap cf"
proof -
  have "0 < backoffCap cf" unfolding backoffCap_def by (rule positive_pos) (simp add: DEFAULT_backoffCapMs_def)
  then have "positive (Fin (backoffCap cf)) DEFAULT_backoffCapMs = backoffCap cf" by simp
  then obtain d j where d: "0 < d" "d \<le> backoffCap cf" "0 \<le> j" "j \<le> 1"
    and eq: "backoffDelay cf n r = (if j \<le> 0 then max 0 d else max 0 (d * (1 + j * (2 * r - 1))))"
    unfolding backoffDelay_def backoffCap_def [symmetric] using computeBackoff_form by metis
  show "0 \<le> backoffDelay cf n r" unfolding eq by simp
  have "d * (1 + j * (2 * r - 1)) \<le> d * 2" using jitter_factor [OF d(3,4) assms] d(1) by (intro mult_left_mono) simp_all
  then have "d * (1 + j * (2 * r - 1)) \<le> 2 * backoffCap cf" using d(2) by linarith
  then show "backoffDelay cf n r \<le> 2 * backoffCap cf" unfolding eq using d(1,2) by auto
qed

lemma note_failure_entry:
  assumes "gwReach cf st" "isEnabled cf" "map_of (gw_entries (noteFailure cf now r c p st)) (gwKey c (normalizeSourceProfile p)) = Some e'"
  obtains e where "entInv cf e" "e' = failedEntry cf now r e"
proof -
  note inv = gw.reachable_inv [OF assms(1)]
  obtain x st1 where x: "ensureEntry now c (normalizeSourceProfile p) st = (x, st1)" by fastforce
  note e = ensureEntry_reg [OF gwInvD(1) [OF inv] x]
  show thesis
  proof (cases x)
    case None
    \<comment> \<open>a source that is in the registry is found\<close>
    then have "map_of (gw_entries st1) (gwKey c (normalizeSourceProfile p)) = None"
      using x by (auto simp: ensureEntry_def evictOneIdle_def Let_def split: option.splits if_splits prod.splits)
    with None assms(2,3) x show thesis by (simp add: noteFailure_def)
  next
    case (Some e0)
    with assms(2,3) x e have "e' = failedEntry cf now r e0"
      by (auto simp: noteFailure_def putEntry_def Let_def)
    moreover have "entInv cf e0" using Some ensured_entInv [OF inv] x by blast
    ultimately show thesis using that by blast
  qed
qed

text \<open>
  A failing source is retried, and not too soon: after a failure the gateway refuses attempts
  exactly until a deadline, which lies at most the longest cooldown or twice the cap of the backoff ahead. When
  the failures in a row have reached the threshold the circuit is open, and until the deadline every decision for
  the profile is direct.
\<close>

theorem failure_deadline_exact:
  assumes "gwReach cf st" "isEnabled cf" "0 \<le> r" "r \<le> 1" "st' = noteFailure cf now r c p st"
    and "map_of (gw_entries st') (gwKey c (normalizeSourceProfile p)) = Some e"
  shows "\<exists>d\<ge>0. (\<forall>t. canAttempt cf t c p st' \<longleftrightarrow> now + d \<le> t)
    \<and> d \<le> max (circuitMaxOpenMs cf) (2 * positive (cf_backoffCapMs cf) DEFAULT_backoffCapMs)
    \<and> (circuitThreshold cf \<le> int (se_consecutiveFailures e) \<longrightarrow> se_state e = CIRCUIT_OPEN \<and> 0 < d
       \<and> (\<forall>t<now + d. \<forall>input. ri_cameraId input = c \<longrightarrow>
            normalizeSourceProfile (ri_profile input) = normalizeSourceProfile p \<longrightarrow>
            sd_url (fst (resolveSourceUrl cf t input st')) = ri_directUrl input))"
proof -
  from note_failure_entry [OF assms(1,2) assms(6) [unfolded assms(5)]] obtain e0
    where e0: "entInv cf e0" and e: "e = failedEntry cf now r e0" by blast
  show ?thesis
  proof (cases "circuitThreshold cf \<le> int (Suc (se_consecutiveFailures e0))")
    case True
    define d where "d = min (case se_circuitCooldownMs e0 of None \<Rightarrow> circuitOpenMs cf | Some c \<Rightarrow> c * 2) (circuitMaxOpenMs cf)"
    have d: "0 < d" "d \<le> circuitMaxOpenMs cf"
      using e0 circuit_pos [of cf] by (auto simp: d_def entInv_def split: option.split)
    from True have f: "se_circuitOpenUntilMs e = Some (now + d)" "se_nextAttemptAtMs e = Some (now + d)" "se_state e = CIRCUIT_OPEN"
      unfolding e failedEntry_def Let_def d_def by simp_all
    have can: "canAttempt cf t c p st' \<longleftrightarrow> now + d \<le> t" for t
      using assms(2,6) f by (auto simp: canAttempt_def coolingAt_def)
    have "sd_url (decide cf t input st') = ri_directUrl input"
      if "t < now + d" "ri_cameraId input = c" "normalizeSourceProfile (ri_profile input) = normalizeSourceProfile p" for t input
      using that assms(2,6) f by (simp add: decide_def servingEntry_def activeEntry_def coolingAt_def Let_def)
    with d can f(3) show ?thesis by (intro exI [of _ d]) auto
  next
    case False
    define d where "d = backoffDelay cf (Suc (se_attempt e0)) r"
    have b: "0 \<le> d" "d \<le> 2 * positive (cf_backoffCapMs cf) DEFAULT_backoffCapMs"
      using backoffDelay_bounds [OF assms(3,4)] unfolding d_def backoffCap_def by blast+
    have "se_circuitOpenUntilMs e0 = None" using False e0 unfolding entInv_def by auto
    with False have f: "se_circuitOpenUntilMs e = None" "se_nextAttemptAtMs e = Some (now + d)"
      "\<not> circuitThreshold cf \<le> int (se_consecutiveFailures e)"
      unfolding e failedEntry_def Let_def d_def by simp_all
    have "canAttempt cf t c p st' \<longleftrightarrow> now + d \<le> t" for t
      using assms(2,6) f by (auto simp: canAttempt_def coolingAt_def)
    with b f(3) show ?thesis by (intro exI [of _ d]) auto
  qed
qed

definition failOnce :: gwState where
  "failOnce = gwRun demoSettings [OpAcquire 1 ''c1'' ''main'' ''live'', OpFailure 10 0 ''c1'' ''main'']"

theorem failure_deadline_exact_witness:
  "gwReach demoSettings failOnce
   \<and> (\<exists>d\<ge>0. (\<forall>t. canAttempt demoSettings t ''c1'' ''main'' (noteFailure demoSettings 20 0 ''c1'' ''main'' failOnce) \<longleftrightarrow> 20 + d \<le> t)
        \<and> d \<le> 120000 \<and> 0 < d)"
proof -
  let ?st = "noteFailure demoSettings 20 0 ''c1'' ''main'' failOnce"
  have r: "gwReach demoSettings failOnce" unfolding failOnce_def by (rule run_reachable)
  have en: "isEnabled demoSettings" by code_simp
  have "map_option se_consecutiveFailures (map_of (gw_entries ?st) (gwKey ''c1'' (normalizeSourceProfile ''main''))) = Some 2" by code_simp
  then obtain e where e: "map_of (gw_entries ?st) (gwKey ''c1'' (normalizeSourceProfile ''main'')) = Some e" "se_consecutiveFailures e = 2"
    by (auto split: option.splits)
  have n: "circuitThreshold demoSettings = 2"
    "max (circuitMaxOpenMs demoSettings) (2 * positive (cf_backoffCapMs demoSettings) DEFAULT_backoffCapMs) = 120000" by code_simp+
  from failure_deadline_exact [OF r en _ _ refl e(1)] obtain d where
    "0 \<le> d" "\<forall>t. canAttempt demoSettings t ''c1'' ''main'' ?st \<longleftrightarrow> 20 + d \<le> t" "d \<le> 120000" "0 < d"
    unfolding n e(2) by auto
  with r show ?thesis by blast
qed

text \<open>A run of failures of one source, each with its time and random number.\<close>

definition failures :: "gwSettings \<Rightarrow> string \<Rightarrow> string \<Rightarrow> (rat \<times> rat) list \<Rightarrow> gwState \<Rightarrow> gwState" where
  "failures cf c p evs st = foldl (\<lambda>st (now, r). noteFailure cf now r c p st) st evs"

lemma noteFailure_known:
  assumes "isEnabled cf" "map_of (gw_entries st) (gwKey c (normalizeSourceProfile p)) = Some e"
    and "se_cameraId e = c" "se_profile e = normalizeSourceProfile p"
  shows "map_of (gw_entries (noteFailure cf now r c p st)) (gwKey c (normalizeSourceProfile p)) = Some (failedEntry cf now r e)"
  using assms by (simp add: noteFailure_def ensureEntry_def putEntry_def Let_def)

lemma cooldown_step:
  "(0::rat) < M \<Longrightarrow> 0 \<le> a \<Longrightarrow> min (min (a * 2 ^ k) M * 2) M = min (a * 2 ^ Suc k) M"
  by (auto simp: min_def)

lemma circuitThreshold_pos: "1 \<le> circuitThreshold cf"
  by (simp add: circuitThreshold_def)

text \<open>What the source is after \<open>n\<close> failures in a row, the last of them at \<open>now\<close>.\<close>

definition failedTimes :: "gwSettings \<Rightarrow> nat \<Rightarrow> rat \<Rightarrow> rat \<Rightarrow> sourceEntry \<Rightarrow> bool" where
  "failedTimes cf n now r e \<longleftrightarrow> se_consecutiveFailures e = n \<and> se_attempt e = n
     \<and> (if int n < circuitThreshold cf
        then se_state e = BACKOFF \<and> se_circuitCooldownMs e = None \<and> se_lastBackoffMs e = Some (backoffDelay cf n r)
        else se_state e = CIRCUIT_OPEN
          \<and> se_circuitCooldownMs e = Some (min (circuitOpenMs cf * 2 ^ (n - nat (circuitThreshold cf))) (circuitMaxOpenMs cf))
          \<and> se_circuitOpenUntilMs e = Some (now + min (circuitOpenMs cf * 2 ^ (n - nat (circuitThreshold cf))) (circuitMaxOpenMs cf)))"

lemma failedTimes_Suc:
  assumes "failedTimes cf n now r e"
  shows "failedTimes cf (Suc n) now' r' (failedEntry cf now' r' e)"
proof (cases "int n < circuitThreshold cf")
  case True
  then have "Suc n - nat (circuitThreshold cf) = 0" by linarith
  with True assms show ?thesis by (auto simp: failedTimes_def failedEntry_def Let_def)
next
  case False
  then have "Suc n - nat (circuitThreshold cf) = Suc (n - nat (circuitThreshold cf))"
    using circuitThreshold_pos [of cf] by linarith
  with False assms circuit_pos [of cf] cooldown_step [of "circuitMaxOpenMs cf" "circuitOpenMs cf" "n - nat (circuitThreshold cf)"]
  show ?thesis by (auto simp: failedTimes_def failedEntry_def Let_def)
qed

lemma failedTimes_first:
  assumes "se_consecutiveFailures e = 0" "se_attempt e = 0" "se_circuitCooldownMs e = None"
  shows "failedTimes cf 1 now r (failedEntry cf now r e)"
  using assms circuitThreshold_pos [of cf] circuit_pos [of cf] by (auto simp: failedTimes_def failedEntry_def Let_def min_def)

lemma failures_entry:
  assumes "isEnabled cf" "map_of (gw_entries st) (gwKey c (normalizeSourceProfile p)) = Some e0"
    and "se_cameraId e0 = c" "se_profile e0 = normalizeSourceProfile p"
    and "se_consecutiveFailures e0 = 0" "se_attempt e0 = 0" "se_circuitCooldownMs e0 = None"
  shows "\<exists>e. map_of (gw_entries (failures cf c p (evs @ [(now, r)]) st)) (gwKey c (normalizeSourceProfile p)) = Some e
    \<and> se_cameraId e = c \<and> se_profile e = normalizeSourceProfile p \<and> failedTimes cf (Suc (length evs)) now r e"
proof (induction evs arbitrary: now r rule: rev_induct)
  case Nil
  show ?case using noteFailure_known [OF assms(1-4)] failedTimes_first [OF assms(5-7)] assms(3,4)
    by (simp add: failures_def)
next
  case (snoc ev evs)
  obtain now0 r0 where ev: "ev = (now0, r0)" by fastforce
  from snoc [of now0 r0] obtain e where
    e: "map_of (gw_entries (failures cf c p (evs @ [ev]) st)) (gwKey c (normalizeSourceProfile p)) = Some e"
    "se_cameraId e = c" "se_profile e = normalizeSourceProfile p" "failedTimes cf (Suc (length evs)) now0 r0 e"
    unfolding ev by blast
  have "failures cf c p ((evs @ [ev]) @ [(now, r)]) st = noteFailure cf now r c p (failures cf c p (evs @ [ev]) st)"
    by (simp add: failures_def)
  with noteFailure_known [OF assms(1) e(1-3), of now r] failedTimes_Suc [OF e(4), of now r] e(2,3) show ?case by simp
qed

text \<open>
  The breaker's schedule. From a source without failures, the n-th failure in a row puts the
  source into backoff while n is below the threshold; from the threshold on it opens the circuit, for the
  configured time doubled at every further failure and never longer than the configured maximum; the first
  progress after that closes the circuit and allows attempts at once.
\<close>

theorem circuit_cooldown_doubles:
  assumes "isEnabled cf" "map_of (gw_entries st) (gwKey c (normalizeSourceProfile p)) = Some e0"
    and "se_cameraId e0 = c" "se_profile e0 = normalizeSourceProfile p"
    and "se_consecutiveFailures e0 = 0" "se_attempt e0 = 0" "se_circuitCooldownMs e0 = None"
    and "n = Suc (length evs)" "st' = failures cf c p (evs @ [(now, r)]) st"
  shows "(\<exists>e. map_of (gw_entries st') (gwKey c (normalizeSourceProfile p)) = Some e
      \<and> se_consecutiveFailures e = n
      \<and> (int n < circuitThreshold cf \<longrightarrow> se_state e = BACKOFF \<and> se_lastBackoffMs e = Some (backoffDelay cf n r))
      \<and> (circuitThreshold cf \<le> int n \<longrightarrow> se_state e = CIRCUIT_OPEN
         \<and> se_circuitOpenUntilMs e = Some (now + min (circuitOpenMs cf * 2 ^ (n - nat (circuitThreshold cf))) (circuitMaxOpenMs cf))))
    \<and> canAttempt cf t c p (noteProgress cf now' c p transport frame st')"
proof -
  from failures_entry [OF assms(1-7), of evs now r] obtain e where
    e: "map_of (gw_entries st') (gwKey c (normalizeSourceProfile p)) = Some e" "se_cameraId e = c"
    "se_profile e = normalizeSourceProfile p" "failedTimes cf n now r e" unfolding assms(8,9) by blast
  have "canAttempt cf t c p (noteProgress cf now' c p transport frame st')"
    using e(1-3) assms(1) by (simp add: canAttempt_def noteProgress_def ensureEntry_def putEntry_def onlineEntry_def coolingAt_def Let_def)
  with e show ?thesis unfolding failedTimes_def by auto
qed

theorem circuit_cooldown_doubles_witness:
  "map_option se_circuitOpenUntilMs (map_of (gw_entries (failures demoSettings ''c1'' ''main'' ([(1, 0), (2, 0)] @ [(3, 0)])
       (gwRun demoSettings [OpConnecting 0 ''c1'' ''main'']))) ''c1::main'') = Some (Some (3 + 2000))"
proof -
  let ?st = "gwRun demoSettings [OpConnecting 0 ''c1'' ''main'']"
  let ?e = "(newEntry 0 ''c1'' Main)\<lparr>se_state := CONNECTING\<rparr>"
  have n: "isEnabled demoSettings" "normalizeSourceProfile ''main'' = Main" "gwKey ''c1'' Main = ''c1::main''"
    "circuitThreshold demoSettings = 2" "circuitOpenMs demoSettings = 1000" "circuitMaxOpenMs demoSettings = 3000" by code_simp+
  have e: "map_of (gw_entries ?st) (gwKey ''c1'' (normalizeSourceProfile ''main'')) = Some ?e" by code_simp
  have "\<exists>e. map_of (gw_entries (failures demoSettings ''c1'' ''main'' ([(1, 0), (2, 0)] @ [(3, 0)]) ?st)) ''c1::main'' = Some e
      \<and> se_circuitOpenUntilMs e = Some (3 + 2000)"
    using circuit_cooldown_doubles [OF n(1) e _ _ _ _ _ refl refl, of "[(1, 0), (2, 0)]" 3 0]
    unfolding n by (simp add: newEntry_def n) blast
  then show ?thesis by auto
qed

section \<open>Release\<close>

lemma release_unknown: "map_of (gw_leases st) lid = None \<Longrightarrow> release now lid st = st"
  by (simp add: release_def)

text \<open>
  Releasing a lease takes exactly that consumer off its source: every other lease stays, a source
  that still has consumers keeps its state, the last consumer leaves the source idle (or with its circuit
  still open), and releasing again changes nothing.
\<close>

theorem release_exact:
  assumes "gwReach cf st" "map_of (gw_leases st) lid = Some (k, c)" "st' = release now lid st"
  shows "map_of (gw_leases st') = (map_of (gw_leases st))(lid := None)
    \<and> release later lid st' = st'
    \<and> (\<exists>e e'. map_of (gw_entries st) k = Some e \<and> map_of (gw_entries st') k = Some e'
        \<and> fst ` set (se_consumers e') = fst ` set (se_consumers e) - {lid}
        \<and> se_state e' = (if se_consumers e' \<noteq> [] then se_state e else if coolingAt now e then CIRCUIT_OPEN else IDLE)
        \<and> (\<forall>k'. k' \<noteq> k \<longrightarrow> map_of (gw_entries st') k' = map_of (gw_entries st) k'))"
proof -
  note inv = gwInvD(1) [OF gw.reachable_inv [OF assms(1)]]
  from release_effect [OF inv assms(2), of now] obtain e where e: "map_of (gw_entries st) k = Some e"
    and l: "map_of (gw_leases st') = (map_of (gw_leases st))(lid := None)"
    and m: "map_of (gw_entries st') = (map_of (gw_entries st))(k \<mapsto>
       e\<lparr>se_consumers := AList.delete lid (se_consumers e), se_touchedAtMs := now,
         se_state := (if AList.delete lid (se_consumers e) = [] then (if coolingAt now e then CIRCUIT_OPEN else IDLE)
                      else se_state e)\<rparr>)" unfolding assms(3) by blast
  let ?e = "e\<lparr>se_consumers := AList.delete lid (se_consumers e), se_touchedAtMs := now,
         se_state := (if AList.delete lid (se_consumers e) = [] then (if coolingAt now e then CIRCUIT_OPEN else IDLE)
                      else se_state e)\<rparr>"
  have "fst ` set (AList.delete lid (se_consumers e)) = fst ` set (se_consumers e) - {lid}"
    by (auto simp: AList.delete_eq)
  then have "map_of (gw_entries st') k = Some ?e" "fst ` set (se_consumers ?e) = fst ` set (se_consumers e) - {lid}"
    "se_state ?e = (if se_consumers ?e \<noteq> [] then se_state e else if coolingAt now e then CIRCUIT_OPEN else IDLE)"
    "\<forall>k'. k' \<noteq> k \<longrightarrow> map_of (gw_entries st') k' = map_of (gw_entries st) k'" by (simp_all add: m)
  moreover have "release later lid st' = st'" by (rule release_unknown) (simp add: l)
  ultimately show ?thesis using e l by blast
qed

theorem release_exact_witness:
  "gwReach demoSettings twoConsumers
   \<and> map fst (gw_leases (release 5 ''lease_1'' twoConsumers)) = [''lease_2'']
   \<and> release 6 ''lease_1'' (release 5 ''lease_1'' twoConsumers) = release 5 ''lease_1'' twoConsumers"
proof -
  have r: "gwReach demoSettings twoConsumers" unfolding twoConsumers_def by (rule run_reachable)
  have "map_of (gw_leases twoConsumers) ''lease_1'' = Some (''c1::main'', ''c1'')" by code_simp
  moreover have "map fst (gw_leases (release 5 ''lease_1'' twoConsumers)) = [''lease_2'']" by code_simp
  ultimately show ?thesis
    using r release_exact [OF r, of "''lease_1''" "''c1::main''" "''c1''" "release 5 ''lease_1'' twoConsumers" 5 6] by simp
qed

section \<open>After the cooldown\<close>

text \<open>
  Once the cooldown is over, a source whose circuit opened is served by the gateway again although nothing has
  arrived from it: the deadline is checked, the state \<open>CIRCUIT_OPEN\<close> is not.
\<close>

definition staleCircuit :: gwState where
  "staleCircuit = gwRun demoSettings
     [OpAcquire 1 ''c1'' ''main'' ''live'', OpRegister 2 ''c1'' ''main'' (Some ''rtsp://mtx/c1''),
      OpFailure 10 0 ''c1'' ''main'', OpFailure 20 0 ''c1'' ''main'']"

lemma expired_circuit_served_by_gateway:
  "gwReach demoSettings staleCircuit
   \<and> map_option se_state (map_of (gw_entries staleCircuit) ''c1::main'') = Some CIRCUIT_OPEN
   \<and> sd_origin (decide demoSettings 2000 (askSub\<lparr>ri_profile := ''main''\<rparr>) staleCircuit) = Gateway"
proof (intro conjI)
  show "gwReach demoSettings staleCircuit" unfolding staleCircuit_def by (rule run_reachable)
  show "map_option se_state (map_of (gw_entries staleCircuit) ''c1::main'') = Some CIRCUIT_OPEN"
    "sd_origin (decide demoSettings 2000 (askSub\<lparr>ri_profile := ''main''\<rparr>) staleCircuit) = Gateway" by code_simp+
qed

end
