(* ===== verification/S3_Client.thy ===== *)
theory S3_Client
  imports Js_Prelude "HOL-Library.AList" "HOL-Library.Char_ord" "HOL-Library.List_Lexorder"
begin

text \<open>
  The S3 client (\<open>apps/api/src/cloud-storage/s3-client.ts\<close>): encoding of keys, the V4 signature, the verbs and
  the upload in parts.

  \<^item> \<open>s3Runtime\<close> holds what comes from outside: SHA-256 and HMAC, \<open>new URL\<close>, the clock and \<open>fetch\<close>. The type
    \<open>'b\<close> is the world \<open>fetch\<close> acts on; a fetch that rejects gives \<open>None\<close>.
  \<^item> Texts and bytes are lists of characters; a character above 127 is encoded as its two UTF-8 bytes.
  \<^item> A thrown \<open>S3Error\<close> is \<open>S3Err status code\<close>, any other exception \<open>OtherErr\<close>; messages are left out.
\<close>

section \<open>Data\<close>

record s3Config =
  s3_endpoint :: string
  s3_region :: string
  s3_bucket :: string
  s3_accessKeyId :: string
  s3_secretAccessKey :: string
  s3_prefix :: "string option"
  s3_forcePathStyle :: "bool option"

record s3ObjectSummary =
  so_key :: string
  so_size :: int
  so_lastModified :: "string option"

record signedRequest =
  sg_url :: string
  sg_method :: string
  sg_headers :: "(string \<times> string) list"

record s3Params =
  sp_method :: string
  sp_key :: "string option"
  sp_query :: "(string \<times> string) list"
  sp_payload :: string
  sp_extraHeaders :: "(string \<times> string) list"

record httpResponse =
  hr_status :: int
  hr_body :: "string option"
  hr_etag :: "string option"
  hr_contentLength :: "string option"
  hr_contentRange :: "string option"
  hr_contentType :: "string option"

datatype s3Error = S3Err int string | OtherErr

record 'b s3Runtime =
  rt_sha256Hex :: "string \<Rightarrow> string"
  rt_hmac :: "string \<Rightarrow> string \<Rightarrow> string"
  rt_hmacHex :: "string \<Rightarrow> string \<Rightarrow> string"
  rt_parseUrl :: "string \<Rightarrow> (string \<times> string) option"
  rt_clock :: "'b \<Rightarrow> int"
  rt_fetch :: "signedRequest \<Rightarrow> string \<Rightarrow> 'b \<Rightarrow> httpResponse option \<times> 'b"

definition MIN_MULTIPART_PART_BYTES :: nat where "MIN_MULTIPART_PART_BYTES = 5 * 1024 * 1024"
definition DEFAULT_PART_BYTES :: nat where "DEFAULT_PART_BYTES = 16 * 1024 * 1024"

definition EMPTY_SHA256 :: string where
  "EMPTY_SHA256 = ''e3b0c44298fc1c149afbf4c8996fb92427ae41e4649b934ca495991b7852b855''"

section \<open>Keys\<close>

definition hex_upper :: "int \<Rightarrow> char" where
  "hex_upper n = (if n < 10 then char_of (48 + n) else char_of (55 + n))"

definition percent :: "int \<Rightarrow> string" where
  "percent n = [CHR ''%'', hex_upper (n div 16), hex_upper (n mod 16)]"

definition alnum :: "char \<Rightarrow> bool" where
  "alnum c = (let n = (of_char c :: int) in 48 \<le> n \<and> n \<le> 57 \<or> 65 \<le> n \<and> n \<le> 90 \<or> 97 \<le> n \<and> n \<le> 122)"

text \<open>\<open>encodeURIComponent\<close> of one character: what it leaves alone, and the percent-encoded UTF-8 of the rest.\<close>

definition uri_char :: "char \<Rightarrow> string" where
  "uri_char c =
     (let n = (of_char c :: int) in
      if alnum c \<or> c \<in> set [CHR ''-'', CHR ''_'', CHR ''.'', CHR ''!'', CHR ''~'', CHR ''*'', CHR 0x27, CHR ''('', CHR '')'']
      then [c]
      else if n < 128 then percent n
      else percent (192 + n div 64) @ percent (128 + n mod 64))"

definition encodeURIComponent :: "string \<Rightarrow> string" where
  "encodeURIComponent s = concat (map uri_char s)"

text \<open>\<open>.replace(/[!'()*]/g, ...)\<close>\<close>

definition strict_char :: "char \<Rightarrow> string" where
  "strict_char c = (if c \<in> set [CHR ''!'', CHR 0x27, CHR ''('', CHR '')'', CHR ''*''] then percent (of_char c) else [c])"

definition encodeS3Segment :: "string \<Rightarrow> string" where
  "encodeS3Segment s = concat (map strict_char (encodeURIComponent s))"

definition encodeS3Path :: "string \<Rightarrow> string" where
  "encodeS3Path p = join ''/'' (map encodeS3Segment (split_on CHR ''/'' p))"

definition strip_slashes :: "string \<Rightarrow> string" where
  "strip_slashes s = rev (dropWhile (\<lambda>c. c = CHR ''/'') (rev s))"

definition cleanKey :: "string \<Rightarrow> string" where
  "cleanKey s = strip_slashes (dropWhile (\<lambda>c. c = CHR ''/'') s)"

definition joinS3Key :: "string option \<Rightarrow> string \<Rightarrow> string" where
  "joinS3Key pre key =
     (let p = cleanKey (case pre of None \<Rightarrow> [] | Some s \<Rightarrow> s); k = cleanKey key
      in if p \<noteq> [] then p @ ''/'' @ k else k)"

section \<open>Signature\<close>

text \<open>\<open>toISOString().replace(/[:-]|\.\d{3}/g, '')\<close>\<close>

fun amz_strip :: "string \<Rightarrow> string" where
  "amz_strip [] = []"
| "amz_strip (c # cs) =
     (if c = CHR '':'' \<or> c = CHR ''-'' then amz_strip cs
      else if c = CHR ''.'' \<and> length (takeWhile is_digit cs) \<ge> 3 then amz_strip (drop 3 cs)
      else c # amz_strip cs)"

definition canonicalQueryOf :: "(string \<times> string) list \<Rightarrow> string" where
  "canonicalQueryOf query =
     join ''&'' (map (\<lambda>k. encodeURIComponent k @ ''='' @ encodeURIComponent (the (map_of query k))) (sort (map fst query)))"

text \<open>The object with the fixed headers, overwritten by the extra ones.\<close>

definition requestHeaders :: "string \<Rightarrow> string \<Rightarrow> string \<Rightarrow> (string \<times> string) list \<Rightarrow> (string \<times> string) list" where
  "requestHeaders host payloadHash amzDate extra =
     foldl (\<lambda>hs (k, v). AList.update k v hs)
       [(''host'', host), (''x-amz-content-sha256'', payloadHash), (''x-amz-date'', amzDate)] extra"

definition headerNamesOf :: "(string \<times> string) list \<Rightarrow> string list" where
  "headerNamesOf headers = sort (map (js_lower \<circ> fst) headers)"

definition canonicalHeadersOf :: "(string \<times> string) list \<Rightarrow> string" where
  "canonicalHeadersOf headers =
     concat (map (\<lambda>name. name @ '':'' @
        js_trim (case find (\<lambda>h. js_lower (fst h) = name) headers of None \<Rightarrow> [] | Some h \<Rightarrow> snd h) @ [CHR 0x0A])
       (headerNamesOf headers))"

definition canonicalUriOf :: "s3Config \<Rightarrow> string option \<Rightarrow> string" where
  "canonicalUriOf cf key =
     (let bucketPart = (if s3_forcePathStyle cf \<noteq> Some False then ''/'' @ s3_bucket cf else []);
          keyPart = (case key of None \<Rightarrow> [] | Some k \<Rightarrow> if k = [] then [] else ''/'' @ encodeS3Path k);
          u = bucketPart @ keyPart
      in if u = [] then ''/'' else u)"

definition signatureOf :: "'b s3Runtime \<Rightarrow> s3Config \<Rightarrow> string \<Rightarrow> string \<Rightarrow> string" where
  "signatureOf rt cf dateStamp stringToSign =
     (let k0 = rt_hmac rt (''AWS4'' @ s3_secretAccessKey cf) dateStamp;
          k1 = rt_hmac rt k0 (s3_region cf);
          k2 = rt_hmac rt k1 ''s3'';
          k3 = rt_hmac rt k2 ''aws4_request''
      in rt_hmacHex rt k3 stringToSign)"

definition signS3Request :: "'b s3Runtime \<Rightarrow> s3Config \<Rightarrow> int \<Rightarrow> s3Params \<Rightarrow> (s3Error, signedRequest) result" where
  "signS3Request rt cf now ps =
     (let endpoint = strip_slashes (s3_endpoint cf) in
      case rt_parseUrl rt endpoint of
        None \<Rightarrow> Inl OtherErr
      | Some (protocol, host) \<Rightarrow>
          (let payloadHash = (if sp_payload ps \<noteq> [] then rt_sha256Hex rt (sp_payload ps) else EMPTY_SHA256);
               amzDate = amz_strip (iso_string now);
               dateStamp = take 8 amzDate;
               pathStyle = (s3_forcePathStyle cf \<noteq> Some False);
               keyPart = (case sp_key ps of None \<Rightarrow> [] | Some k \<Rightarrow> if k = [] then [] else ''/'' @ encodeS3Path k);
               canonicalUri = canonicalUriOf cf (sp_key ps);
               canonicalQuery = canonicalQueryOf (sp_query ps);
               headers = requestHeaders host payloadHash amzDate (sp_extraHeaders ps);
               signedHeaders = join '';'' (headerNamesOf headers);
               canonicalRequest = join [CHR 0x0A] [sp_method ps, canonicalUri, canonicalQuery,
                 canonicalHeadersOf headers, signedHeaders, payloadHash];
               scope = dateStamp @ ''/'' @ s3_region cf @ ''/s3/aws4_request'';
               stringToSign = join [CHR 0x0A] [''AWS4-HMAC-SHA256'', amzDate, scope, rt_sha256Hex rt canonicalRequest];
               signature = signatureOf rt cf dateStamp stringToSign;
               authorization = (''AWS4-HMAC-SHA256 Credential='' @ s3_accessKeyId cf @ ''/'' @ scope @ '', ''
                 @ ''SignedHeaders='' @ signedHeaders @ '', Signature='') @ signature;
               qs = (if canonicalQuery \<noteq> [] then ''?'' @ canonicalQuery else []);
               finalUrl = (if pathStyle then endpoint @ canonicalUri @ qs
                 else protocol @ ''//'' @ s3_bucket cf @ ''.'' @ host @ (if keyPart \<noteq> [] then keyPart else ''/'') @ qs)
           in Inr \<lparr>sg_url = finalUrl, sg_method = sp_method ps,
                   sg_headers = AList.update ''Authorization'' authorization headers\<rparr>))"

section \<open>Reading XML\<close>

text \<open>\<open>/<tag>(...)</tag>/.exec(s)?.[1]\<close>: the first place where the tag, at least \<open>least\<close> characters of the class
  and the closing tag follow each other; with \<open>ci\<close>, in either case.\<close>

definition tagText :: "bool \<Rightarrow> string \<Rightarrow> string" where
  "tagText ci s = (if ci then js_lower s else s)"

fun findTag :: "bool \<Rightarrow> (char \<Rightarrow> bool) \<Rightarrow> nat \<Rightarrow> string \<Rightarrow> string \<Rightarrow> string option" where
  "findTag ci ok least tag [] = None"
| "findTag ci ok least tag (c # cs) =
     (let opening = ''<'' @ tag @ ''>''; closing = ''</'' @ tag @ ''>'';
          rest = drop (length opening) (c # cs); inner = takeWhile ok rest; after = dropWhile ok rest
      in if starts_with (tagText ci (c # cs)) (tagText ci opening) \<and> least \<le> length inner
            \<and> starts_with (tagText ci after) (tagText ci closing)
         then Some inner else findTag ci ok least tag cs)"

definition parseS3ErrorCode :: "string \<Rightarrow> string" where
  "parseS3ErrorCode body = (case findTag True (\<lambda>c. c \<noteq> CHR ''<'') 1 ''Code'' body of None \<Rightarrow> ''Unknown'' | Some s \<Rightarrow> s)"

text \<open>The shortest text up to and including the closing mark, and what follows.\<close>

fun upTo :: "string \<Rightarrow> string \<Rightarrow> (string \<times> string) option" where
  "upTo mark [] = None"
| "upTo mark (c # cs) =
     (if starts_with (c # cs) mark then Some (mark, drop (length mark) (c # cs))
      else map_option (\<lambda>(s, r). (c # s, r)) (upTo mark cs))"

lemma upTo_length: "upTo mark s = Some (a, r) \<Longrightarrow> length r < length s \<or> mark = []"
proof (induction mark s arbitrary: a rule: upTo.induct)
  case (2 mark c cs)
  then show ?case by (cases mark) (auto split: if_splits)
qed simp

function contentsBlocks :: "string \<Rightarrow> string list" where
  "contentsBlocks [] = []"
| "contentsBlocks (c # cs) =
     (case (if starts_with (c # cs) ''<Contents>'' then upTo ''</Contents>'' (drop 10 (c # cs)) else None) of
        Some (inner, rest) \<Rightarrow> (''<Contents>'' @ inner) # contentsBlocks rest
      | None \<Rightarrow> contentsBlocks cs)"
  by pat_completeness auto

termination contentsBlocks
  by (relation "measure length") (auto split: if_splits dest: upTo_length)

fun parseListObjects_of :: "string list \<Rightarrow> s3ObjectSummary list" where
  "parseListObjects_of [] = []"
| "parseListObjects_of (block # bs) =
     (case findTag False (\<lambda>c. c \<noteq> CHR ''<'') 0 ''Key'' block of
        None \<Rightarrow> parseListObjects_of bs
      | Some key \<Rightarrow>
          if key = [] then parseListObjects_of bs
          else \<lparr>so_key = key,
                so_size = (case findTag False is_digit 1 ''Size'' block of None \<Rightarrow> 0 | Some d \<Rightarrow> int (digits_nat 0 d)),
                so_lastModified = findTag False (\<lambda>c. c \<noteq> CHR ''<'') 0 ''LastModified'' block\<rparr> # parseListObjects_of bs)"

definition parseListObjects :: "string \<Rightarrow> s3ObjectSummary list" where
  "parseListObjects body = parseListObjects_of (contentsBlocks body)"

section \<open>Requests\<close>

definition responseOk :: "httpResponse \<Rightarrow> bool" where
  "responseOk r \<longleftrightarrow> 200 \<le> hr_status r \<and> hr_status r \<le> 299"

definition request :: "'b s3Runtime \<Rightarrow> s3Config \<Rightarrow> s3Params \<Rightarrow> 'b \<Rightarrow> (s3Error, httpResponse) result \<times> 'b" where
  "request rt cf ps b =
     (case signS3Request rt cf (rt_clock rt b) ps of
        Inl e \<Rightarrow> (Inl e, b)
      | Inr signed \<Rightarrow>
          (case rt_fetch rt signed (sp_payload ps) b of
             (None, b') \<Rightarrow> (Inl (S3Err 0 ''NetworkError''), b')
           | (Some r, b') \<Rightarrow>
               (case hr_body r of
                  None \<Rightarrow> (Inl OtherErr, b')
                | Some body \<Rightarrow>
                    if \<not> responseOk r then (Inl (S3Err (hr_status r) (parseS3ErrorCode body)), b') else (Inr r, b'))))"

definition fullKey :: "s3Config \<Rightarrow> string \<Rightarrow> string" where
  "fullKey cf key = joinS3Key (s3_prefix cf) key"

definition simpleRequest :: "string \<Rightarrow> string \<Rightarrow> s3Params" where
  "simpleRequest meth key = \<lparr>sp_method = meth, sp_key = Some key, sp_query = [], sp_payload = [], sp_extraHeaders = []\<rparr>"

definition putParams :: "string \<Rightarrow> string \<Rightarrow> string \<Rightarrow> s3Params" where
  "putParams key payload contentType =
     \<lparr>sp_method = ''PUT'', sp_key = Some key, sp_query = [], sp_payload = payload,
      sp_extraHeaders = [(''content-type'', contentType), (''content-length'', show_nat (length payload))]\<rparr>"

definition putObject ::
    "'b s3Runtime \<Rightarrow> s3Config \<Rightarrow> string \<Rightarrow> string \<Rightarrow> string \<Rightarrow> 'b \<Rightarrow> (s3Error, unit) result \<times> 'b" where
  "putObject rt cf key payload contentType b =
     (case request rt cf (putParams (fullKey cf key) payload contentType) b of
        (Inl e, b') \<Rightarrow> (Inl e, b') | (Inr _, b') \<Rightarrow> (Inr (), b'))"

definition getObject :: "'b s3Runtime \<Rightarrow> s3Config \<Rightarrow> string \<Rightarrow> 'b \<Rightarrow> (s3Error, string) result \<times> 'b" where
  "getObject rt cf key b =
     (case request rt cf (simpleRequest ''GET'' (fullKey cf key)) b of
        (Inl e, b') \<Rightarrow> (Inl e, b')
      | (Inr r, b') \<Rightarrow> (Inr (case hr_body r of None \<Rightarrow> [] | Some body \<Rightarrow> body), b'))"

text \<open>The response as it comes, with the caller's range passed on; the error text is read when there is one.\<close>

definition getObjectStream ::
    "'b s3Runtime \<Rightarrow> s3Config \<Rightarrow> string \<Rightarrow> string option \<Rightarrow> 'b \<Rightarrow> (s3Error, httpResponse) result \<times> 'b" where
  "getObjectStream rt cf key rng b =
     (let ps = (simpleRequest ''GET'' (fullKey cf key))\<lparr>sp_extraHeaders :=
            (case rng of None \<Rightarrow> [] | Some r \<Rightarrow> if r = [] then [] else [(''range'', r)])\<rparr>
      in case signS3Request rt cf (rt_clock rt b) ps of
        Inl e \<Rightarrow> (Inl e, b)
      | Inr signed \<Rightarrow>
          (case rt_fetch rt signed [] b of
             (None, b') \<Rightarrow> (Inl (S3Err 0 ''NetworkError''), b')
           | (Some r, b') \<Rightarrow>
               if \<not> responseOk r \<and> hr_status r \<noteq> 206
               then (Inl (S3Err (hr_status r) (parseS3ErrorCode (case hr_body r of None \<Rightarrow> [] | Some t \<Rightarrow> t))), b')
               else (Inr r, b')))"

definition deleteObject :: "'b s3Runtime \<Rightarrow> s3Config \<Rightarrow> string \<Rightarrow> 'b \<Rightarrow> (s3Error, unit) result \<times> 'b" where
  "deleteObject rt cf key b =
     (case request rt cf (simpleRequest ''DELETE'' (fullKey cf key)) b of
        (Inl e, b') \<Rightarrow> (Inl e, b') | (Inr _, b') \<Rightarrow> (Inr (), b'))"

definition headObject :: "'b s3Runtime \<Rightarrow> s3Config \<Rightarrow> string \<Rightarrow> 'b \<Rightarrow> (s3Error, bool) result \<times> 'b" where
  "headObject rt cf key b =
     (case request rt cf (simpleRequest ''HEAD'' (fullKey cf key)) b of
        (Inr _, b') \<Rightarrow> (Inr True, b')
      | (Inl (S3Err status code), b') \<Rightarrow>
          if status = 404 \<or> code = ''NoSuchKey'' then (Inr False, b') else (Inl (S3Err status code), b')
      | (Inl OtherErr, b') \<Rightarrow> (Inl OtherErr, b'))"

definition listObjects ::
    "'b s3Runtime \<Rightarrow> s3Config \<Rightarrow> string \<Rightarrow> nat \<Rightarrow> 'b \<Rightarrow> (s3Error, s3ObjectSummary list) result \<times> 'b" where
  "listObjects rt cf pre maxKeys b =
     (case request rt cf \<lparr>sp_method = ''GET'', sp_key = None,
              sp_query = [(''list-type'', ''2''), (''max-keys'', show_nat maxKeys), (''prefix'', fullKey cf pre)],
              sp_payload = [], sp_extraHeaders = []\<rparr> b of
        (Inl e, b') \<Rightarrow> (Inl e, b')
      | (Inr r, b') \<Rightarrow> (Inr (parseListObjects (case hr_body r of None \<Rightarrow> [] | Some body \<Rightarrow> body)), b'))"

section \<open>Upload in parts\<close>

definition partSizeOf :: "nat option \<Rightarrow> nat" where
  "partSizeOf opt = max MIN_MULTIPART_PART_BYTES (case opt of None \<Rightarrow> DEFAULT_PART_BYTES | Some n \<Rightarrow> n)"

lemma partSizeOf_pos: "0 < partSizeOf opt"
  by (simp add: partSizeOf_def MIN_MULTIPART_PART_BYTES_def)

definition initParams :: "string \<Rightarrow> string \<Rightarrow> s3Params" where
  "initParams key contentType = \<lparr>sp_method = ''POST'', sp_key = Some key, sp_query = [(''uploads'', [])], sp_payload = [],
     sp_extraHeaders = [(''content-type'', contentType)]\<rparr>"

definition partParams :: "string \<Rightarrow> string \<Rightarrow> nat \<Rightarrow> string \<Rightarrow> s3Params" where
  "partParams key uploadId n chunk = \<lparr>sp_method = ''PUT'', sp_key = Some key,
     sp_query = [(''partNumber'', show_nat n), (''uploadId'', uploadId)], sp_payload = chunk,
     sp_extraHeaders = [(''content-length'', show_nat (length chunk))]\<rparr>"

fun partTags :: "nat \<Rightarrow> string list \<Rightarrow> string" where
  "partTags n [] = []"
| "partTags n (etag # es) =
     ''<Part><PartNumber>'' @ show_nat n @ ''</PartNumber><ETag>'' @ etag @ ''</ETag></Part>'' @ partTags (Suc n) es"

definition completeBody :: "string list \<Rightarrow> string" where
  "completeBody etags = ''<CompleteMultipartUpload>'' @ partTags 1 etags @ ''</CompleteMultipartUpload>''"

definition completeParams :: "string \<Rightarrow> string \<Rightarrow> string list \<Rightarrow> s3Params" where
  "completeParams key uploadId etags = \<lparr>sp_method = ''POST'', sp_key = Some key, sp_query = [(''uploadId'', uploadId)],
     sp_payload = completeBody etags,
     sp_extraHeaders = [(''content-type'', ''application/xml''), (''content-length'', show_nat (length (completeBody etags)))]\<rparr>"

definition abortParams :: "string \<Rightarrow> string \<Rightarrow> s3Params" where
  "abortParams key uploadId = \<lparr>sp_method = ''DELETE'', sp_key = Some key, sp_query = [(''uploadId'', uploadId)],
     sp_payload = [], sp_extraHeaders = []\<rparr>"

text \<open>One turn of the loop: read a chunk, send it, take its tag.\<close>

definition sendPart ::
    "'b s3Runtime \<Rightarrow> s3Config \<Rightarrow> string \<Rightarrow> string \<Rightarrow> (nat \<Rightarrow> nat \<Rightarrow> 'b \<Rightarrow> (s3Error, string) result \<times> 'b)
     \<Rightarrow> nat \<Rightarrow> nat \<Rightarrow> nat \<Rightarrow> 'b \<Rightarrow> (s3Error, string) result \<times> 'b" where
  "sendPart rt cf key uploadId rd n offset len b =
     (case rd offset len b of
        (Inl e, b1) \<Rightarrow> (Inl e, b1)
      | (Inr chunk, b1) \<Rightarrow>
          (case request rt cf (partParams key uploadId n chunk) b1 of
             (Inl e, b2) \<Rightarrow> (Inl e, b2)
           | (Inr r, b2) \<Rightarrow>
               (case hr_etag r of
                  None \<Rightarrow> (Inl (S3Err 0 ''MultipartPartNoETag''), b2)
                | Some etag \<Rightarrow> if etag = [] then (Inl (S3Err 0 ''MultipartPartNoETag''), b2) else (Inr etag, b2))))"

function sendParts ::
    "'b s3Runtime \<Rightarrow> s3Config \<Rightarrow> string \<Rightarrow> string \<Rightarrow> (nat \<Rightarrow> nat \<Rightarrow> 'b \<Rightarrow> (s3Error, string) result \<times> 'b)
     \<Rightarrow> nat option \<Rightarrow> nat \<Rightarrow> nat \<Rightarrow> nat \<Rightarrow> 'b \<Rightarrow> (s3Error, string list) result \<times> 'b" where
  "sendParts rt cf key uploadId rd opt totalB n offset b =
     (if \<not> offset < totalB then (Inr [], b)
      else let len = min (partSizeOf opt) (totalB - offset) in
        case sendPart rt cf key uploadId rd n offset len b of
          (Inl e, b1) \<Rightarrow> (Inl e, b1)
        | (Inr etag, b1) \<Rightarrow>
            (case sendParts rt cf key uploadId rd opt totalB (Suc n) (offset + len) b1 of
               (Inl e, b2) \<Rightarrow> (Inl e, b2) | (Inr etags, b2) \<Rightarrow> (Inr (etag # etags), b2)))"
  by pat_completeness auto

termination sendParts
proof (relation "measure (\<lambda>(rt, cf, key, uploadId, rd, opt, totalB, n, offset, b). totalB - offset)", goal_cases)
  case (2 rt cf key uploadId rd opt totalB n offset b)
  then show ?case using partSizeOf_pos [of opt] by (simp add: min_def) linarith
qed simp

declare sendParts.simps [simp del]

definition multipartBody ::
    "'b s3Runtime \<Rightarrow> s3Config \<Rightarrow> string \<Rightarrow> string \<Rightarrow> (nat \<Rightarrow> nat \<Rightarrow> 'b \<Rightarrow> (s3Error, string) result \<times> 'b)
     \<Rightarrow> nat option \<Rightarrow> nat \<Rightarrow> 'b \<Rightarrow> (s3Error, unit) result \<times> 'b" where
  "multipartBody rt cf key uploadId rd opt totalB b =
     (case sendParts rt cf key uploadId rd opt totalB 1 0 b of
        (Inl e, b1) \<Rightarrow> (Inl e, b1)
      | (Inr etags, b1) \<Rightarrow>
          (case request rt cf (completeParams key uploadId etags) b1 of
             (Inl e, b2) \<Rightarrow> (Inl e, b2) | (Inr _, b2) \<Rightarrow> (Inr (), b2)))"

definition putObjectMultipart ::
    "'b s3Runtime \<Rightarrow> s3Config \<Rightarrow> string \<Rightarrow> (nat \<Rightarrow> nat \<Rightarrow> 'b \<Rightarrow> (s3Error, string) result \<times> 'b)
     \<Rightarrow> nat \<Rightarrow> nat option \<Rightarrow> string \<Rightarrow> 'b \<Rightarrow> (s3Error, unit) result \<times> 'b" where
  "putObjectMultipart rt cf key rd totalBytes partSizeBytes contentType b =
     (let k = fullKey cf key in
      case request rt cf (initParams k contentType) b of
        (Inl e, b1) \<Rightarrow> (Inl e, b1)
      | (Inr r, b1) \<Rightarrow>
          (case findTag False (\<lambda>c. c \<noteq> CHR ''<'') 1 ''UploadId'' (case hr_body r of None \<Rightarrow> [] | Some body \<Rightarrow> body) of
             None \<Rightarrow> (Inl (S3Err 0 ''MultipartInitFailed''), b1)
           | Some uploadId \<Rightarrow>
               (case multipartBody rt cf k uploadId rd partSizeBytes totalBytes b1 of
                  (Inl e, b2) \<Rightarrow> (Inl e, snd (request rt cf (abortParams k uploadId) b2))
                | (Inr _, b2) \<Rightarrow> (Inr (), b2))))"

text \<open>The check behind the button that tests the connection.\<close>

definition verifyAccess :: "'b s3Runtime \<Rightarrow> s3Config \<Rightarrow> 'b \<Rightarrow> (s3Error, unit) result \<times> 'b" where
  "verifyAccess rt cf b =
     (case listObjects rt cf [] 1 b of
        (Inl e, b1) \<Rightarrow> (Inl e, b1)
      | (Inr _, b1) \<Rightarrow>
          (let probeKey = ''.drac-connectivity-check-'' @ show_nat (nat (rt_clock rt b1)) in
           case putObject rt cf probeKey ''drac'' ''text/plain'' b1 of
             (Inl e, b2) \<Rightarrow> (Inl e, b2)
           | (Inr _, b2) \<Rightarrow> (Inr (), snd (deleteObject rt cf probeKey b2))))"

end
