(* ===== verification/Cloud_Offload.thy ===== *)
theory Cloud_Offload
  imports Retention S3_Client
begin

text \<open>
  Offload of recordings to an S3 bucket: the policy of the installation
  (\<open>apps/api/src/cloud-storage/storage-policy.ts\<close>) and one pass of upload, confirmation and removal of the
  local file (\<open>cloud-offload.service.ts\<close>).

  \<^item> The table of recordings is a list in the order of \<open>startedAt\<close>, the order of both queries; files are paths
    with their contents. The world of \<open>S3_Client\<close> and its clock are part of the state.
  \<^item> The stored policy is \<open>None\<close> without a row, \<open>Some None\<close> for a text that is not JSON, and what \<open>JSON.parse\<close>
    gives otherwise.
  \<^item> \<open>offFaults\<close> says which opens, reads, removals and updates fail. Log messages are left out.
\<close>

section \<open>The policy\<close>

datatype triggerMode = Continuous | Motion | Manual

definition TRIGGER_MODES :: "triggerMode list" where
  "TRIGGER_MODES = [Continuous, Motion, Manual]"

fun modeName :: "triggerMode \<Rightarrow> string" where
  "modeName Continuous = ''continuous''"
| "modeName Motion = ''motion''"
| "modeName Manual = ''manual''"

record storagePolicy =
  sp_enabled :: bool
  sp_triggerModes :: "triggerMode \<Rightarrow> bool"
  sp_keepLocalCopy :: bool

definition DEFAULT_STORAGE_POLICY :: storagePolicy where
  "DEFAULT_STORAGE_POLICY = \<lparr>sp_enabled = False, sp_triggerModes = (\<lambda>m. m \<noteq> Continuous), sp_keepLocalCopy = False\<rparr>"

fun readBool :: "json option \<Rightarrow> bool \<Rightarrow> bool" where
  "readBool (Some (JBool b)) fallback = b"
| "readBool (Some (JStr s)) fallback =
     (let v = js_lower (js_trim s) in
      if v = ''true'' \<or> v = ''1'' then True else if v = ''false'' \<or> v = ''0'' then False else fallback)"
| "readBool _ fallback = fallback"

definition normalizeStoragePolicy :: "json \<Rightarrow> storagePolicy" where
  "normalizeStoragePolicy input =
     (let source = Some input; modes = objField source ''triggerModes''
      in \<lparr>sp_enabled = readBool (objField source ''enabled'') (sp_enabled DEFAULT_STORAGE_POLICY),
          sp_triggerModes = (\<lambda>mode. readBool (objField modes (modeName mode)) (sp_triggerModes DEFAULT_STORAGE_POLICY mode)),
          sp_keepLocalCopy = readBool (objField source ''keepLocalCopy'') (sp_keepLocalCopy DEFAULT_STORAGE_POLICY)\<rparr>)"

datatype refusal = CloudOff | Unclassified string | ModeOff string

datatype policyDecision = Upload bool | NoUpload refusal

fun modeOf :: "string \<Rightarrow> triggerMode option" where
  "modeOf s = find (\<lambda>m. modeName m = s) TRIGGER_MODES"

definition decideUpload :: "storagePolicy \<Rightarrow> string option \<Rightarrow> policyDecision" where
  "decideUpload policy trig =
     (if \<not> sp_enabled policy then NoUpload CloudOff
      else let mode = js_lower (js_trim (case trig of None \<Rightarrow> [] | Some s \<Rightarrow> s)) in
        case modeOf mode of
          None \<Rightarrow> NoUpload (Unclassified mode)
        | Some m \<Rightarrow>
            if \<not> sp_triggerModes policy m then NoUpload (ModeOff mode)
            else Upload (\<not> sp_keepLocalCopy policy))"

definition enabledTriggerModes :: "storagePolicy \<Rightarrow> triggerMode list" where
  "enabledTriggerModes policy = filter (sp_triggerModes policy) TRIGGER_MODES"

section \<open>State\<close>

record cloudRow =
  cw_id :: string
  cw_cameraId :: string
  cw_filePath :: string
  cw_triggerMode :: "string option"
  cw_cloudKey :: "string option"
  cw_cloudUploadedAt :: "int option"
  cw_localDeletedAt :: "int option"

datatype storageMode = Tier | Mount

record cloudStorageConfig =
  cc_mode :: storageMode
  cc_localWindowHours :: rat
  cc_s3 :: s3Config

record 'b offState =
  os_rows :: "cloudRow list"
  os_files :: "(path \<times> string) list"
  os_policy :: "json option option"
  os_running :: bool
  os_world :: 'b

record offFaults =
  xf_open :: "path \<Rightarrow> bool"
  xf_read :: "path \<Rightarrow> bool"
  xf_unlink :: "path \<Rightarrow> bool"
  xf_update :: "string \<Rightarrow> bool"

record offloadResult =
  or_skipped :: bool
  or_uploaded :: nat
  or_deletedLocal :: nat
  or_failed :: nat
  or_bytesUploaded :: nat

definition DEFAULT_BATCH :: rat where "DEFAULT_BATCH = 25"
definition MAX_SINGLE_PUT_BYTES :: nat where "MAX_SINGLE_PUT_BYTES = 200 * 1024 * 1024"

definition getPolicy :: "'b offState \<Rightarrow> storagePolicy" where
  "getPolicy st = (case os_policy st of Some (Some j) \<Rightarrow> normalizeStoragePolicy j | _ \<Rightarrow> DEFAULT_STORAGE_POLICY)"

text \<open>\<open>JSON.stringify(policy)\<close>, parsed.\<close>

definition policyJson :: "storagePolicy \<Rightarrow> json" where
  "policyJson p = JObj [(''enabled'', JBool (sp_enabled p)),
     (''triggerModes'', JObj (map (\<lambda>m. (modeName m, JBool (sp_triggerModes p m))) TRIGGER_MODES)),
     (''keepLocalCopy'', JBool (sp_keepLocalCopy p))]"

definition setPolicy :: "json \<Rightarrow> 'b offState \<Rightarrow> storagePolicy \<times> 'b offState" where
  "setPolicy input st =
     (let policy = normalizeStoragePolicy input in (policy, st\<lparr>os_policy := Some (Some (policyJson policy))\<rparr>))"

text \<open>\<open>filePath.split('/').pop()\<close> and its extension, \<open>.mp4\<close> without one.\<close>

definition cloudExtension :: "string \<Rightarrow> string" where
  "cloudExtension filePath =
     (let nome = last (split_on CHR ''/'' filePath) in
      if CHR ''.'' \<in> set nome then CHR ''.'' # rev (takeWhile (\<lambda>c. c \<noteq> CHR ''.'') (rev nome)) else ''.mp4'')"

definition buildCloudKey :: "cloudRow \<Rightarrow> string" where
  "buildCloudKey r = ''recordings/'' @ cw_cameraId r @ ''/'' @ cw_id r @ cloudExtension (cw_filePath r)"

definition updateRow :: "string \<Rightarrow> (cloudRow \<Rightarrow> cloudRow) \<Rightarrow> 'b offState \<Rightarrow> 'b offState" where
  "updateRow i f st = st\<lparr>os_rows := map (\<lambda>r. if cw_id r = i then f r else r) (os_rows st)\<rparr>"

section \<open>Upload\<close>

text \<open>\<open>Buffer.alloc(length)\<close> filled by \<open>handle.read\<close> at an offset.\<close>

definition readChunk :: "bool \<Rightarrow> string \<Rightarrow> nat \<Rightarrow> nat \<Rightarrow> 'b \<Rightarrow> (s3Error, string) result \<times> 'b" where
  "readChunk fails content offset len b =
     (if fails then (Inl OtherErr, b)
      else let got = take len (drop offset content) in (Inr (got @ replicate (len - length got) (CHR 0x00)), b))"

definition sendFile ::
    "'b s3Runtime \<Rightarrow> s3Config \<Rightarrow> bool \<Rightarrow> bool \<Rightarrow> string \<Rightarrow> string \<Rightarrow> 'b \<Rightarrow> (s3Error, unit) result \<times> 'b" where
  "sendFile rt cf openFails readFails key content b =
     (if openFails then (Inl OtherErr, b)
      else if length content > MAX_SINGLE_PUT_BYTES
      then putObjectMultipart rt cf key (readChunk readFails content) (length content) None ''video/mp4'' b
      else if readFails then (Inl OtherErr, b)
      else putObject rt cf key content ''video/mp4'' b)"

datatype uploadOutcome = Uploaded nat | UploadFailed | NothingToSend

text \<open>The body of the loop for one recording.\<close>

definition uploadOne ::
    "'b s3Runtime \<Rightarrow> platform \<Rightarrow> offFaults \<Rightarrow> s3Config \<Rightarrow> cloudRow \<Rightarrow> 'b offState \<Rightarrow> uploadOutcome \<times> 'b offState" where
  "uploadOne rt pf fl cf rec st =
     (case ensureFileUnderRoot pf (cw_filePath rec) of
        Inl _ \<Rightarrow> (UploadFailed, st)
      | Inr caminho \<Rightarrow>
          (case map_of (os_files st) caminho of
             None \<Rightarrow> (NothingToSend, st)
           | Some content \<Rightarrow>
               if content = [] then (NothingToSend, st)
               else let key = buildCloudKey rec in
                 case sendFile rt cf (xf_open fl caminho) (xf_read fl caminho) key content (os_world st) of
                   (Inl _, b1) \<Rightarrow> (UploadFailed, st\<lparr>os_world := b1\<rparr>)
                 | (Inr _, b1) \<Rightarrow>
                     (case headObject rt cf key b1 of
                        (Inl _, b2) \<Rightarrow> (UploadFailed, st\<lparr>os_world := b2\<rparr>)
                      | (Inr found, b2) \<Rightarrow>
                          if \<not> found then (UploadFailed, st\<lparr>os_world := b2\<rparr>)
                          else if xf_update fl (cw_id rec) then (UploadFailed, st\<lparr>os_world := b2\<rparr>)
                          else (Uploaded (length content),
                                updateRow (cw_id rec)
                                  (\<lambda>r. r\<lparr>cw_cloudKey := Some key, cw_cloudUploadedAt := Some (rt_clock rt b2)\<rparr>)
                                  (st\<lparr>os_world := b2\<rparr>)))))"

fun uploadLoop ::
    "'b s3Runtime \<Rightarrow> platform \<Rightarrow> offFaults \<Rightarrow> s3Config \<Rightarrow> cloudRow list \<Rightarrow> 'b offState \<Rightarrow> (nat \<times> nat \<times> nat) \<times> 'b offState" where
  "uploadLoop rt pf fl cf [] st = ((0, 0, 0), st)"
| "uploadLoop rt pf fl cf (rec # recs) st =
     (let (oc, st1) = uploadOne rt pf fl cf rec st;
          ((uploaded, failed, bytes), st2) = uploadLoop rt pf fl cf recs st1
      in (case oc of
            Uploaded n \<Rightarrow> (Suc uploaded, failed, bytes + n)
          | UploadFailed \<Rightarrow> (uploaded, Suc failed, bytes)
          | NothingToSend \<Rightarrow> (uploaded, failed, bytes), st2))"

definition batchSize :: "environment \<Rightarrow> nat" where
  "batchSize env = nat \<lfloor>fst (envNumber (env ''CLOUD_OFFLOAD_BATCH'') (Fin DEFAULT_BATCH)
     \<lparr>opt_min = Some 1, opt_max = Some 500, opt_integer = True\<rparr>)\<rfloor>"

definition pendentes :: "storagePolicy \<Rightarrow> nat \<Rightarrow> 'b offState \<Rightarrow> cloudRow list" where
  "pendentes policy n st =
     take n (filter (\<lambda>r. cw_cloudKey r = None
       \<and> (case cw_triggerMode r of None \<Rightarrow> False | Some t \<Rightarrow> t \<in> set (map modeName (enabledTriggerModes policy)))) (os_rows st))"

definition uploadPending ::
    "'b s3Runtime \<Rightarrow> platform \<Rightarrow> offFaults \<Rightarrow> environment \<Rightarrow> s3Config \<Rightarrow> 'b offState \<Rightarrow> (nat \<times> nat \<times> nat) \<times> 'b offState" where
  "uploadPending rt pf fl env cf st =
     (let policy = getPolicy st in
      if \<not> sp_enabled policy \<or> enabledTriggerModes policy = [] then ((0, 0, 0), st)
      else uploadLoop rt pf fl cf (pendentes policy (batchSize env) st) st)"

section \<open>Removal of local files\<close>

text \<open>One candidate: whether it was removed. \<open>Inl\<close> is the update that throws, after the file is gone.\<close>

definition pruneOne ::
    "'b s3Runtime \<Rightarrow> platform \<Rightarrow> offFaults \<Rightarrow> cloudRow \<Rightarrow> 'b offState \<Rightarrow> (unit, bool) result \<times> 'b offState" where
  "pruneOne rt pf fl rec st =
     (case ensureFileUnderRoot pf (cw_filePath rec) of
        Inl _ \<Rightarrow> (Inr False, st)
      | Inr caminho \<Rightarrow>
          if map_of (os_files st) caminho \<noteq> None \<and> xf_unlink fl caminho then (Inr False, st)
          else let st1 = st\<lparr>os_files := AList.delete caminho (os_files st)\<rparr> in
            if xf_update fl (cw_id rec) then (Inl (), st1)
            else (Inr True, updateRow (cw_id rec) (\<lambda>r. r\<lparr>cw_localDeletedAt := Some (rt_clock rt (os_world st))\<rparr>) st1))"

fun pruneLoop ::
    "'b s3Runtime \<Rightarrow> platform \<Rightarrow> offFaults \<Rightarrow> cloudRow list \<Rightarrow> 'b offState \<Rightarrow> (unit, nat) result \<times> 'b offState" where
  "pruneLoop rt pf fl [] st = (Inr 0, st)"
| "pruneLoop rt pf fl (rec # recs) st =
     (case pruneOne rt pf fl rec st of
        (Inl e, st1) \<Rightarrow> (Inl e, st1)
      | (Inr removed, st1) \<Rightarrow>
          (case pruneLoop rt pf fl recs st1 of
             (Inl e, st2) \<Rightarrow> (Inl e, st2)
           | (Inr n, st2) \<Rightarrow> (Inr (if removed then Suc n else n), st2)))"

definition candidatas :: "int \<Rightarrow> rat \<Rightarrow> 'b offState \<Rightarrow> cloudRow list" where
  "candidatas now janelaHoras st =
     take 200 (filter (\<lambda>r. cw_cloudKey r \<noteq> None
       \<and> (case cw_cloudUploadedAt r of None \<Rightarrow> False | Some t \<Rightarrow> of_int t < of_int now - janelaHoras * 3600000)
       \<and> cw_localDeletedAt r = None) (os_rows st))"

definition pruneUploaded ::
    "'b s3Runtime \<Rightarrow> platform \<Rightarrow> offFaults \<Rightarrow> cloudStorageConfig \<Rightarrow> 'b offState \<Rightarrow> (unit, nat) result \<times> 'b offState" where
  "pruneUploaded rt pf fl cfg st =
     (let policy = getPolicy st; direto = (cc_mode cfg = Mount) in
      if sp_keepLocalCopy policy \<and> \<not> direto then (Inr 0, st)
      else pruneLoop rt pf fl
        (candidatas (rt_clock rt (os_world st)) (if direto then 0 else cc_localWindowHours cfg) st) st)"

definition runOnce ::
    "'b s3Runtime \<Rightarrow> platform \<Rightarrow> offFaults \<Rightarrow> environment \<Rightarrow> cloudStorageConfig option \<Rightarrow> 'b offState
     \<Rightarrow> (unit, offloadResult) result \<times> 'b offState" where
  "runOnce rt pf fl env cfgOpt st =
     (let vazio = \<lparr>or_skipped = True, or_uploaded = 0, or_deletedLocal = 0, or_failed = 0, or_bytesUploaded = 0\<rparr> in
      if os_running st then (Inr vazio, st)
      else case cfgOpt of
        None \<Rightarrow> (Inr vazio, st)
      | Some cfg \<Rightarrow>
          (let ((uploaded, failed, bytes), st1) = uploadPending rt pf fl env (cc_s3 cfg) (st\<lparr>os_running := True\<rparr>);
               (removed, st2) = pruneUploaded rt pf fl cfg st1;
               st3 = st2\<lparr>os_running := False\<rparr>
           in case removed of
                Inl e \<Rightarrow> (Inl e, st3)
              | Inr n \<Rightarrow> (Inr \<lparr>or_skipped = False, or_uploaded = uploaded, or_deletedLocal = n, or_failed = failed,
                             or_bytesUploaded = bytes\<rparr>, st3)))"

text \<open>The counts of the page about storage.\<close>

definition summaryCounts :: "'b offState \<Rightarrow> nat \<times> nat \<times> nat" where
  "summaryCounts st =
     (length (filter (\<lambda>r. cw_cloudKey r \<noteq> None) (os_rows st)),
      length (filter (\<lambda>r. cw_cloudKey r = None) (os_rows st)),
      length (filter (\<lambda>r. cw_cloudKey r \<noteq> None \<and> cw_localDeletedAt r \<noteq> None) (os_rows st)))"

section \<open>Overlapping passes\<close>

text \<open>
  \<open>runOnce\<close> looks at the flag, waits for the configuration, and sets the flag then: other calls run while it
  waits. A call is at one of these points; the flag is the field \<open>running\<close>.
\<close>

datatype offPoint = Outside | AwaitingConfig | InPass

inductive offCall :: "(nat \<Rightarrow> offPoint) \<times> bool \<Rightarrow> (nat \<Rightarrow> offPoint) \<times> bool \<Rightarrow> bool" where
  enter: "pc i = Outside \<Longrightarrow> \<not> running \<Longrightarrow> offCall (pc, running) (pc(i := AwaitingConfig), running)"
| unconfigured: "pc i = AwaitingConfig \<Longrightarrow> offCall (pc, running) (pc(i := Outside), running)"
| configured: "pc i = AwaitingConfig \<Longrightarrow> offCall (pc, running) (pc(i := InPass), True)"
| leave: "pc i = InPass \<Longrightarrow> offCall (pc, running) (pc(i := Outside), False)"

end
