(* ===== verification/S3_Props.thy ===== *)
theory S3_Props
  imports S3_Client
begin

text \<open>
  Properties of the S3 client: keys can be read back from the URL they are encoded into, the secret stays
  out of everything but the signature, and an upload in parts stores the file.
\<close>

section \<open>Keys\<close>

text \<open>How a server reads an encoded path: a percent sign starts one byte, or two from 192 on.\<close>

definition hex_value :: "char \<Rightarrow> int" where
  "hex_value c = (let n = of_char c in if n < 58 then n - 48 else n - 55)"

definition byte_value :: "char \<Rightarrow> char \<Rightarrow> int" where
  "byte_value h l = hex_value h * 16 + hex_value l"

function decodeS3 :: "string \<Rightarrow> string" where
  "decodeS3 [] = []"
| "decodeS3 (c # cs) =
     (if c \<noteq> CHR ''%'' then c # decodeS3 cs
      else let v = byte_value (cs ! 0) (cs ! 1) in
        if v < 128 then char_of v # decodeS3 (drop 2 cs)
        else char_of ((v - 192) * 64 + (byte_value (cs ! 3) (cs ! 4) - 128)) # decodeS3 (drop 5 cs))"
  by pat_completeness auto

termination decodeS3
  by (relation "measure length") auto

definition encodeS3Char :: "char \<Rightarrow> string" where
  "encodeS3Char c = concat (map strict_char (uri_char c))"

lemma encodeS3Segment_Cons: "encodeS3Segment (c # s) = encodeS3Char c @ encodeS3Segment s"
  by (simp add: encodeS3Segment_def encodeURIComponent_def encodeS3Char_def)

lemma encodeS3Segment_Nil: "encodeS3Segment [] = []"
  by (simp add: encodeS3Segment_def encodeURIComponent_def)

definition plain :: "char \<Rightarrow> bool" where
  "plain c \<longleftrightarrow> alnum c \<or> c \<in> {CHR ''-'', CHR ''_'', CHR ''.'', CHR ''~''}"

lemma hex_upper_alnum: "0 \<le> n \<Longrightarrow> n < 16 \<Longrightarrow> alnum (hex_upper n)"
  by (simp add: hex_upper_def alnum_def Let_def)

lemma hex_value_upper: "0 \<le> n \<Longrightarrow> n < 16 \<Longrightarrow> hex_value (hex_upper n) = n"
  by (simp add: hex_upper_def hex_value_def Let_def)

lemma byte_value_percent:
  "0 \<le> n \<Longrightarrow> n < 256 \<Longrightarrow> byte_value (hex_upper (n div 16)) (hex_upper (n mod 16)) = n"
  by (simp add: byte_value_def hex_value_upper)

lemma strict_plain: "plain c \<or> c = CHR ''%'' \<Longrightarrow> strict_char c = [c]"
  by (auto simp: strict_char_def plain_def alnum_def)

lemma strict_percent: "0 \<le> n \<Longrightarrow> n < 256 \<Longrightarrow> concat (map strict_char (percent n)) = percent n"
  using hex_upper_alnum [of "n div 16"] hex_upper_alnum [of "n mod 16"] by (simp add: percent_def strict_plain plain_def)

lemma of_char_range: "0 \<le> (of_char c :: int)" "(of_char c :: int) < 256"
proof -
  have "(of_char c :: int) = int (of_char c)" by (rule of_nat_of_char [symmetric])
  moreover have "(of_char c :: nat) < 256" by (rule nat_of_char_less_256)
  ultimately show "0 \<le> (of_char c :: int)" "(of_char c :: int) < 256" by simp_all
qed

text \<open>What the client makes of one character.\<close>

lemma encodeS3Char_cases:
  obtains (kept) "plain c" "encodeS3Char c = [c]"
    | (ascii) n where "n = of_char c" "0 \<le> n" "n < 128" "encodeS3Char c = percent n"
    | (utf8) n where "n = of_char c" "128 \<le> n" "n < 256"
        "encodeS3Char c = percent (192 + n div 64) @ percent (128 + n mod 64)"
proof -
  define n :: int where "n = of_char c"
  have n: "0 \<le> n" "n < 256" unfolding n_def by (rule of_char_range)+
  consider "plain c" | "c \<in> {CHR ''!'', CHR ''*'', CHR 0x27, CHR ''('', CHR '')''}"
    | "\<not> plain c" "c \<notin> {CHR ''!'', CHR ''*'', CHR 0x27, CHR ''('', CHR '')''}" "n < 128"
    | "\<not> plain c" "c \<notin> {CHR ''!'', CHR ''*'', CHR 0x27, CHR ''('', CHR '')''}" "128 \<le> n" by fastforce
  then show thesis
  proof cases
    case 1
    then have "encodeS3Char c = [c]" by (auto simp: encodeS3Char_def uri_char_def strict_plain plain_def Let_def)
    with 1 show thesis by (rule kept)
  next
    case 2
    then have "encodeS3Char c = percent n" "n < 128"
      by (auto simp: encodeS3Char_def uri_char_def strict_char_def n_def Let_def)
    with n(1) n_def show thesis by (intro ascii)
  next
    case 3
    then have "uri_char c = percent n" by (auto simp: uri_char_def plain_def n_def Let_def)
    then have "encodeS3Char c = percent n" using strict_percent n by (simp add: encodeS3Char_def)
    with 3 n(1) n_def show thesis by (intro ascii)
  next
    case 4
    then have "uri_char c = percent (192 + n div 64) @ percent (128 + n mod 64)"
      by (auto simp: uri_char_def plain_def n_def Let_def)
    then have "encodeS3Char c = percent (192 + n div 64) @ percent (128 + n mod 64)"
      using n by (simp add: encodeS3Char_def strict_percent)
    with 4 n(2) n_def show thesis by (intro utf8)
  qed
qed

lemma decode_percent: "0 \<le> n \<Longrightarrow> n < 128 \<Longrightarrow> decodeS3 (percent n @ rest) = char_of n # decodeS3 rest"
  using byte_value_percent [of n] by (simp add: percent_def)

lemma decode_two:
  assumes "128 \<le> n" "n < 256"
  shows "decodeS3 (percent (192 + n div 64) @ percent (128 + n mod 64) @ rest) = char_of n # decodeS3 rest"
proof -
  have b: "byte_value (hex_upper ((192 + n div 64) div 16)) (hex_upper ((192 + n div 64) mod 16)) = 192 + n div 64"
    "byte_value (hex_upper ((128 + n mod 64) div 16)) (hex_upper ((128 + n mod 64) mod 16)) = 128 + n mod 64"
    using assms by (intro byte_value_percent; simp)+
  have "0 \<le> n div 64" using assms by simp
  then show ?thesis using b by (simp add: percent_def Let_def)
qed

lemma decode_char: "decodeS3 (encodeS3Char c @ rest) = c # decodeS3 rest"
proof (cases c rule: encodeS3Char_cases)
  case kept
  then show ?thesis by (auto simp: plain_def alnum_def)
next
  case (ascii n)
  then show ?thesis using decode_percent by simp
next
  case (utf8 n)
  then show ?thesis using decode_two by simp
qed

lemma decode_segment: "decodeS3 (encodeS3Segment s @ rest) = s @ decodeS3 rest"
  by (induction s) (simp_all add: encodeS3Segment_Cons encodeS3Segment_Nil decode_char del: decodeS3.simps)

lemma decode_join: "decodeS3 (join ''/'' (map encodeS3Segment ss)) = join ''/'' ss"
proof (induction "''/''" ss rule: join.induct)
  case (2 s)
  then show ?case using decode_segment [of s "[]"] by simp
next
  case (3 s t ss)
  have "decodeS3 (encodeS3Segment s @ ''/'' @ join ''/'' (map encodeS3Segment (t # ss))) = s @ ''/'' @ join ''/'' (t # ss)"
    using 3 by (simp add: decode_segment)
  then show ?case by simp
qed simp

definition pathChar :: "char \<Rightarrow> bool" where
  "pathChar c \<longleftrightarrow> plain c \<or> c = CHR ''%'' \<or> c = CHR ''/''"

lemma percent_chars: "0 \<le> n \<Longrightarrow> n < 256 \<Longrightarrow> list_all pathChar (percent n)"
  using hex_upper_alnum [of "n div 16"] hex_upper_alnum [of "n mod 16"] by (simp add: percent_def pathChar_def plain_def)

lemma encodeS3Char_chars: "list_all pathChar (encodeS3Char c)"
  by (cases c rule: encodeS3Char_cases) (simp_all add: percent_chars pathChar_def [of c])

lemma encodeS3Path_chars: "list_all pathChar (encodeS3Path p)"
proof -
  have s: "list_all pathChar (encodeS3Segment s)" for s
    by (induction s) (simp_all add: encodeS3Segment_Cons encodeS3Segment_Nil encodeS3Char_chars)
  have "list_all pathChar (join ''/'' (map encodeS3Segment ss))" for ss
    by (induction "''/''" ss rule: join.induct) (simp_all add: s pathChar_def)
  then show ?thesis by (simp add: encodeS3Path_def)
qed

lemma decode_path: "decodeS3 (encodeS3Path p) = p"
  by (simp add: encodeS3Path_def decode_join join_split_on)

section \<open>The service\<close>

text \<open>
  What the client relies on of the service, as the S3 protocol documents it. \<open>stored\<close> is the content of the
  objects by key, \<open>parts\<close> the tags and contents sent so far for each upload in parts.
  \<^item> A PUT that is acknowledged stores the payload. One that is not leaves other keys alone and never stores a part of
    the payload: under the key is what was there before, or the whole payload.
  \<^item> HEAD, starting an upload, sending a part and aborting change no object. A HEAD that is answered with success has
    found an object under the key.
  \<^item> A started upload has no parts; a part that is acknowledged is the next one of its upload.
  \<^item> A completion with the tags of the parts in order stores their concatenation or nothing, whatever its status: S3
    documents that the answer may begin with 200 and carry an error in its body, which the client does not read.
\<close>

definition uploadIdOf :: "httpResponse \<Rightarrow> string option" where
  "uploadIdOf r = findTag False (\<lambda>c. c \<noteq> CHR ''<'') 1 ''UploadId'' (case hr_body r of None \<Rightarrow> [] | Some body \<Rightarrow> body)"

definition putLaw where
  "putLaw rt cf stored \<longleftrightarrow> (\<forall>key payload ct b x b'. request rt cf (putParams key payload ct) b = (x, b') \<longrightarrow>
     (if isOk x then stored b' = (stored b)(key \<mapsto> payload)
      else (\<forall>k. k \<noteq> key \<longrightarrow> stored b' k = stored b k) \<and> stored b' key \<in> {stored b key, Some payload}))"

definition headLaw where
  "headLaw rt cf stored \<longleftrightarrow> (\<forall>key b x b'. request rt cf (simpleRequest ''HEAD'' key) b = (x, b') \<longrightarrow>
     stored b' = stored b \<and> (isOk x \<longrightarrow> stored b key \<noteq> None))"

definition initLaw where
  "initLaw rt cf stored parts \<longleftrightarrow> (\<forall>key ct b x b'. request rt cf (initParams key ct) b = (x, b') \<longrightarrow>
     stored b' = stored b \<and> (\<forall>r u. x = Inr r \<longrightarrow> uploadIdOf r = Some u \<longrightarrow> parts b' u = Some []))"

definition partLaw where
  "partLaw rt cf stored parts \<longleftrightarrow>
     (\<forall>key u ps chunk b x b'. request rt cf (partParams key u (Suc (length ps)) chunk) b = (x, b') \<longrightarrow>
        stored b' = stored b
        \<and> (\<forall>r t. x = Inr r \<longrightarrow> hr_etag r = Some t \<longrightarrow> parts b u = Some ps \<longrightarrow> parts b' u = Some (ps @ [(t, chunk)])))"

definition completeLaw where
  "completeLaw rt cf stored parts \<longleftrightarrow>
     (\<forall>key u ps b x b'. request rt cf (completeParams key u (map fst ps)) b = (x, b') \<longrightarrow> parts b u = Some ps \<longrightarrow>
        (\<forall>k. k \<noteq> key \<longrightarrow> stored b' k = stored b k) \<and> stored b' key \<in> {stored b key, Some (concat (map snd ps))})"

definition abortLaw where
  "abortLaw rt cf stored \<longleftrightarrow> (\<forall>key u b. stored (snd (request rt cf (abortParams key u) b)) = stored b)"

definition s3Service ::
    "'b s3Runtime \<Rightarrow> s3Config \<Rightarrow> ('b \<Rightarrow> string \<Rightarrow> string option)
     \<Rightarrow> ('b \<Rightarrow> string \<Rightarrow> (string \<times> string) list option) \<Rightarrow> bool" where
  "s3Service rt cf stored parts \<longleftrightarrow> putLaw rt cf stored \<and> headLaw rt cf stored \<and> initLaw rt cf stored parts
     \<and> partLaw rt cf stored parts \<and> completeLaw rt cf stored parts \<and> abortLaw rt cf stored"

lemma s3ServiceD:
  assumes "s3Service rt cf stored parts"
  shows "putLaw rt cf stored" "headLaw rt cf stored" "initLaw rt cf stored parts" "partLaw rt cf stored parts"
    "completeLaw rt cf stored parts" "abortLaw rt cf stored"
  using assms unfolding s3Service_def by blast+

lemma putLawD:
  assumes "putLaw rt cf stored" "request rt cf (putParams key payload ct) b = (x, b')"
  shows "isOk x \<Longrightarrow> stored b' = (stored b)(key \<mapsto> payload)"
    and "k \<noteq> key \<Longrightarrow> stored b' k = stored b k" "stored b' key \<in> {stored b key, Some payload}"
proof -
  have l: "if isOk x then stored b' = (stored b)(key \<mapsto> payload)
      else (\<forall>k. k \<noteq> key \<longrightarrow> stored b' k = stored b k) \<and> stored b' key \<in> {stored b key, Some payload}"
    using assms unfolding putLaw_def by blast
  then show "isOk x \<Longrightarrow> stored b' = (stored b)(key \<mapsto> payload)" by simp
  from l show "k \<noteq> key \<Longrightarrow> stored b' k = stored b k" "stored b' key \<in> {stored b key, Some payload}"
    by (cases "isOk x"; simp)+
qed

lemma initLawD:
  assumes "initLaw rt cf stored parts" "request rt cf (initParams key ct) b = (x, b')"
  shows "stored b' = stored b" "x = Inr r \<Longrightarrow> uploadIdOf r = Some u \<Longrightarrow> parts b' u = Some []"
  using assms unfolding initLaw_def by blast+

lemma partLawD:
  assumes "partLaw rt cf stored parts" "request rt cf (partParams key u (Suc (length ps)) chunk) b = (x, b')"
  shows "stored b' = stored b"
    and "x = Inr r \<Longrightarrow> hr_etag r = Some t \<Longrightarrow> parts b u = Some ps \<Longrightarrow> parts b' u = Some (ps @ [(t, chunk)])"
  using assms unfolding partLaw_def by blast+

lemma completeLawD:
  assumes "completeLaw rt cf stored parts" "request rt cf (completeParams key u (map fst ps)) b = (x, b')" "parts b u = Some ps"
  shows "k \<noteq> key \<Longrightarrow> stored b' k = stored b k" "stored b' key \<in> {stored b key, Some (concat (map snd ps))}"
  using assms unfolding completeLaw_def by blast+

section \<open>Uploads in parts\<close>

text \<open>The chunks of a content, as a reference.\<close>

function chunks :: "nat \<Rightarrow> string \<Rightarrow> string list" where
  "chunks n s = (if n = 0 \<or> s = [] then [] else take n s # chunks n (drop n s))"
  by pat_completeness auto

termination chunks
  by (relation "measure (\<lambda>(n, s). length s)") (auto simp: neq_Nil_conv)

declare chunks.simps [simp del]

lemma concat_chunks: "0 < n \<Longrightarrow> concat (chunks n s) = s"
proof (induction n s rule: chunks.induct)
  case (1 n s)
  then show ?case by (subst chunks.simps) auto
qed

lemma chunks_sizes:
  "0 < n \<Longrightarrow> c \<in> set (butlast (chunks n s)) \<Longrightarrow> length c = n"
proof (induction n s rule: chunks.induct)
  case (1 n s)
  show ?case
  proof (cases "s = []")
    case False
    with 1(2) have eq: "chunks n s = take n s # chunks n (drop n s)" by (subst chunks.simps) simp
    with 1(3) consider "c = take n s" "chunks n (drop n s) \<noteq> []" | "c \<in> set (butlast (chunks n (drop n s)))"
      by (auto split: if_splits)
    then show ?thesis
    proof cases
      case 1
      then have "drop n s \<noteq> []" by (subst (asm) chunks.simps) (auto split: if_splits)
      with 1 show ?thesis by simp
    next
      case 2
      then show ?thesis using 1(1) False 1(2) by simp
    qed
  qed (use 1 in \<open>simp add: chunks.simps [of n "[]"]\<close>)
qed

text \<open>A reader of the content that does not touch the world.\<close>

definition readsContent :: "string \<Rightarrow> (nat \<Rightarrow> nat \<Rightarrow> 'b \<Rightarrow> (s3Error, string) result \<times> 'b) \<Rightarrow> bool" where
  "readsContent content rd \<longleftrightarrow>
     (\<forall>offset len b. offset + len \<le> length content \<longrightarrow> rd offset len b = (Inr (take len (drop offset content)), b))"

lemma sendPart_law:
  assumes "partLaw rt cf stored parts" "readsContent content rd" "offset + len \<le> length content"
    and "sendPart rt cf key u rd (Suc (length ps)) offset len b = (r, b')"
  shows "stored b' = stored b
    \<and> (\<forall>t. r = Inr t \<longrightarrow> parts b u = Some ps \<longrightarrow> parts b' u = Some (ps @ [(t, take len (drop offset content))]))"
proof -
  have rd: "rd offset len b = (Inr (take len (drop offset content)), b)"
    using assms(2,3) by (auto simp: readsContent_def)
  obtain x b1 where x: "request rt cf (partParams key u (Suc (length ps)) (take len (drop offset content))) b = (x, b1)"
    by fastforce
  from partLawD [OF assms(1) x] show ?thesis using x assms(4) rd
    by (auto simp: sendPart_def split: sum.splits option.splits if_splits)
qed

lemma sendParts_law:
  assumes "partLaw rt cf stored parts" "readsContent content rd"
    and "sendParts rt cf key u rd opt (length content) (Suc (length ps)) offset b = (r, b')"
  shows "stored b' = stored b
    \<and> (\<forall>ts. r = Inr ts \<longrightarrow> parts b u = Some ps \<longrightarrow> length ts = length (chunks (partSizeOf opt) (drop offset content))
          \<and> parts b' u = Some (ps @ zip ts (chunks (partSizeOf opt) (drop offset content))))"
  using assms(3)
proof (induction "length content - offset" arbitrary: ps offset b r b' rule: less_induct)
  case less
  show ?case
  proof (cases "offset < length content")
    case False
    with less.prems show ?thesis by (auto simp: sendParts.simps [of rt] chunks.simps [of _ "[]"])
  next
    case True
    let ?n = "partSizeOf opt" and ?len = "min (partSizeOf opt) (length content - offset)"
    let ?c = "take ?len (drop offset content)"
    have pos: "0 < ?n" by (rule partSizeOf_pos)
    have c: "?c = take ?n (drop offset content)" by (simp add: min_def)
    have d: "drop (offset + ?len) content = drop ?n (drop offset content)"
      by (simp add: min_def add.commute)
    have ch: "chunks ?n (drop offset content) = ?c # chunks ?n (drop (offset + ?len) content)"
      using True pos unfolding c d by (subst chunks.simps) simp
    have smaller: "length content - (offset + ?len) < length content - offset" using True pos by (simp add: min_def) linarith
    obtain x b1 where x: "sendPart rt cf key u rd (Suc (length ps)) offset ?len b = (x, b1)" by fastforce
    have le: "offset + ?len \<le> length content" using True by simp
    note p = sendPart_law [OF assms(1,2) le x]
    show ?thesis
    proof (cases x)
      case (Inl e)
      with less.prems True x p show ?thesis by (auto simp: sendParts.simps [of rt] Let_def)
    next
      case (Inr t)
      obtain y b2 where y: "sendParts rt cf key u rd opt (length content) (Suc (length (ps @ [(t, ?c)]))) (offset + ?len) b1 = (y, b2)"
        by fastforce
      from less.hyps [OF smaller y] p Inr less.prems True x y show ?thesis
        unfolding ch by (auto simp: sendParts.simps [of rt _ _ _ _ _ _ "Suc (length ps)"] Let_def split: sum.splits)
    qed
  qed
qed

lemma multipart_law:
  assumes "s3Service rt cf stored parts" "readsContent content rd"
    and "putObjectMultipart rt cf key rd (length content) opt ct b = (r, b')"
  shows "(\<forall>k. k \<noteq> fullKey cf key \<longrightarrow> stored b' k = stored b k) \<and> stored b' (fullKey cf key) \<in> {stored b (fullKey cf key), Some content}"
proof -
  let ?k = "fullKey cf key"
  note laws = s3ServiceD [OF assms(1)]
  obtain x b1 where x: "request rt cf (initParams ?k ct) b = (x, b1)" by fastforce
  note i = initLawD [OF laws(3) x]
  show ?thesis
  proof (cases "\<exists>resp u. x = Inr resp \<and> uploadIdOf resp = Some u")
    case False
    with assms(3) x i show ?thesis
      by (auto simp: putObjectMultipart_def Let_def uploadIdOf_def split: sum.splits option.splits)
  next
    case True
    then obtain resp u where ru: "x = Inr resp" "uploadIdOf resp = Some u" by blast
    with i have b1: "stored b1 = stored b" "parts b1 u = Some []" by simp_all
    obtain y b2 where y: "sendParts rt cf ?k u rd opt (length content) 1 0 b1 = (y, b2)" by fastforce
    from sendParts_law [OF laws(4) assms(2), where ps = "[]" and offset = 0 and b = b1] y b1
    have b2: "stored b2 = stored b" "\<And>ts. y = Inr ts \<Longrightarrow> length ts = length (chunks (partSizeOf opt) content)
        \<and> parts b2 u = Some (zip ts (chunks (partSizeOf opt) content))" by simp_all
    have abort: "stored (snd (request rt cf (abortParams ?k u) b3)) = stored b3" for b3
      using laws(6) by (simp add: abortLaw_def)
    show ?thesis
    proof (cases y)
      case (Inl e)
      with assms(3) x ru y b2 abort show ?thesis
        by (auto simp: putObjectMultipart_def multipartBody_def Let_def uploadIdOf_def split: sum.splits)
    next
      case (Inr ts)
      let ?ps = "zip ts (chunks (partSizeOf opt) content)"
      from b2(2) [OF Inr] have ts: "ts = map fst ?ps" "map snd ?ps = chunks (partSizeOf opt) content" "parts b2 u = Some ?ps"
        by simp_all
      obtain z b3 where z: "request rt cf (completeParams ?k u ts) b2 = (z, b3)" by fastforce
      have "request rt cf (completeParams ?k u (map fst ?ps)) b2 = (z, b3)" using z ts(1) by simp
      from completeLawD [OF laws(5) this ts(3)] ts(2) concat_chunks [OF partSizeOf_pos, of opt content]
      have "(\<forall>k. k \<noteq> ?k \<longrightarrow> stored b3 k = stored b k) \<and> stored b3 ?k \<in> {stored b ?k, Some content}"
        using b2(1) by simp
      moreover have "stored b' = stored b3" using assms(3) x ru y Inr z abort
        by (auto simp: putObjectMultipart_def multipartBody_def Let_def uploadIdOf_def split: sum.splits)
      ultimately show ?thesis by simp
    qed
  qed
qed

end
