(* ===== verification/S3_Bucket.thy ===== *)
theory S3_Bucket
  imports S3_Props "HOL-Library.Code_Target_Nat"
begin

text \<open>
  A bucket in memory that keeps the laws of the service, so that the theorems which assume them speak of
  something; and the properties of the client.
\<close>

section \<open>A service that keeps the laws\<close>

text \<open>
  A bucket in memory. Objects are kept by the URL they are written to, uploads in parts by the identifier as
  it comes in the query.
\<close>

record bucketWorld =
  bw_objects :: "(string \<times> string) list"
  bw_uploads :: "(string \<times> (string \<times> string) list) list"
  bw_next :: nat
  bw_time :: int

definition reply :: "int \<Rightarrow> string \<Rightarrow> string option \<Rightarrow> httpResponse option" where
  "reply status body etag = Some \<lparr>hr_status = status, hr_body = Some body, hr_etag = etag, hr_contentLength = None,
     hr_contentRange = None, hr_contentType = None\<rparr>"

text \<open>\<open>partNumber=n&uploadId=u\<close> is read as \<open>(n, u)\<close>.\<close>

definition partQuery :: "string \<Rightarrow> nat \<times> string" where
  "partQuery q = (let r = drop 11 q; d = takeWhile is_digit r in (digits_nat 0 d, drop (length d + 10) r))"

definition bucketFetch :: "signedRequest \<Rightarrow> string \<Rightarrow> bucketWorld \<Rightarrow> httpResponse option \<times> bucketWorld" where
  "bucketFetch sg payload w =
     (let url = takeWhile (\<lambda>c. c \<noteq> CHR ''?'') (sg_url sg);
          q = drop (Suc (length url)) (sg_url sg); m = sg_method sg
      in if m = ''PUT'' \<and> q = [] then (reply 200 [] None, w\<lparr>bw_objects := AList.update url payload (bw_objects w)\<rparr>)
         else if m = ''HEAD'' then (reply (if map_of (bw_objects w) url = None then 404 else 200) [] None, w)
         else if m = ''POST'' \<and> q = ''uploads=''
         then (reply 200 (''<UploadId>'' @ show_nat (bw_next w) @ ''</UploadId>'') None,
               w\<lparr>bw_uploads := AList.update (show_nat (bw_next w)) [] (bw_uploads w), bw_next := Suc (bw_next w)\<rparr>)
         else if m = ''PUT''
         then (let (n, u) = partQuery q in
               case map_of (bw_uploads w) u of
                 None \<Rightarrow> (reply 404 [] None, w)
               | Some ps \<Rightarrow>
                   if n = Suc (length ps)
                   then (reply 200 [] (Some (show_nat n)), w\<lparr>bw_uploads := AList.update u (ps @ [(show_nat n, payload)]) (bw_uploads w)\<rparr>)
                   else (reply 400 [] None, w))
         else if m = ''POST''
         then (case map_of (bw_uploads w) (drop 9 q) of
                 None \<Rightarrow> (reply 404 [] None, w)
               | Some ps \<Rightarrow>
                   if payload = completeBody (map fst ps)
                   then (reply 200 [] None, w\<lparr>bw_objects := AList.update url (concat (map snd ps)) (bw_objects w)\<rparr>)
                   else (reply 400 [] None, w))
         else (reply 204 [] None, w))"

definition bucketRuntime :: "bucketWorld s3Runtime" where
  "bucketRuntime = \<lparr>rt_sha256Hex = (\<lambda>_. ''00''), rt_hmac = (\<lambda>_ _. ''k''), rt_hmacHex = (\<lambda>_ _. ''ff''),
     rt_parseUrl = (\<lambda>_. Some (''http:'', ''s3'')), rt_clock = bw_time, rt_fetch = bucketFetch\<rparr>"

definition bucketConfig :: s3Config where
  "bucketConfig = \<lparr>s3_endpoint = ''http://s3/'', s3_region = ''r'', s3_bucket = ''b'', s3_accessKeyId = ''id'',
     s3_secretAccessKey = ''secret'', s3_prefix = Some ''/site 1/'', s3_forcePathStyle = None\<rparr>"

definition keyUrl :: "string \<Rightarrow> string" where
  "keyUrl key = ''http://s3/b'' @ (if key = [] then [] else ''/'' @ encodeS3Path key)"

definition bucketStored :: "bucketWorld \<Rightarrow> string \<Rightarrow> string option" where
  "bucketStored w key = map_of (bw_objects w) (keyUrl key)"

definition bucketParts :: "bucketWorld \<Rightarrow> string \<Rightarrow> (string \<times> string) list option" where
  "bucketParts w u = map_of (bw_uploads w) (encodeURIComponent u)"

lemma keyUrl_inject: "keyUrl k = keyUrl k' \<longleftrightarrow> k = k'"
proof
  assume "keyUrl k = keyUrl k'"
  then have "k = [] \<longleftrightarrow> k' = []" "k \<noteq> [] \<Longrightarrow> encodeS3Path k = encodeS3Path k'"
    by (auto simp: keyUrl_def split: if_splits)
  then show "k = k'" using decode_path by metis
qed simp

lemma keyUrl_no_query: "CHR ''?'' \<notin> set (keyUrl k)"
  using encodeS3Path_chars [of k] by (auto simp: keyUrl_def list_all_iff pathChar_def plain_def alnum_def)

lemma takeWhile_query: "c \<notin> set u \<Longrightarrow> takeWhile (\<lambda>x. x \<noteq> c) (u @ c # q) = u"
  by (induction u) auto

text \<open>What the client makes of an answer.\<close>

definition outcome :: "httpResponse option \<times> 'b \<Rightarrow> (s3Error, httpResponse) result \<times> 'b" where
  "outcome a =
     (case a of
        (None, b) \<Rightarrow> (Inl (S3Err 0 ''NetworkError''), b)
      | (Some r, b) \<Rightarrow> (case hr_body r of None \<Rightarrow> (Inl OtherErr, b)
          | Some body \<Rightarrow> if \<not> responseOk r then (Inl (S3Err (hr_status r) (parseS3ErrorCode body)), b) else (Inr r, b)))"

lemma outcome_reply [simp]:
  "outcome (reply status body etag, b) =
     (if 200 \<le> status \<and> status \<le> 299
      then (Inr \<lparr>hr_status = status, hr_body = Some body, hr_etag = etag, hr_contentLength = None, hr_contentRange = None,
              hr_contentType = None\<rparr>, b)
      else (Inl (S3Err status (parseS3ErrorCode body)), b))"
  by (simp add: outcome_def reply_def responseOk_def)

lemma bucket_fetch_request:
  assumes "sp_key ps = Some key"
  shows "\<exists>sg. request bucketRuntime bucketConfig ps w =
      outcome (bucketFetch sg (sp_payload ps) w)
    \<and> sg_method sg = sp_method ps
    \<and> sg_url sg = keyUrl key @ (if canonicalQueryOf (sp_query ps) \<noteq> [] then ''?'' @ canonicalQueryOf (sp_query ps) else [])"
proof -
  have e: "strip_slashes ''http://s3/'' = ''http://s3''" by code_simp
  obtain sg where sg: "signS3Request bucketRuntime bucketConfig (rt_clock bucketRuntime w) ps = Inr sg"
    "sg_method sg = sp_method ps"
    "sg_url sg = keyUrl key @ (if canonicalQueryOf (sp_query ps) \<noteq> [] then ''?'' @ canonicalQueryOf (sp_query ps) else [])"
    using assms by (simp add: signS3Request_def bucketRuntime_def bucketConfig_def e Let_def canonicalUriOf_def keyUrl_def)
  then show ?thesis by (intro exI [of _ sg]) (simp add: request_def bucketRuntime_def outcome_def)
qed

lemma encode_digits: "encodeURIComponent (show_nat n) = show_nat n"
proof -
  have "list_all is_digit s \<Longrightarrow> encodeURIComponent s = s" for s
    by (induction s) (auto simp: encodeURIComponent_def uri_char_def alnum_def is_digit_def Let_def)
  then show ?thesis using show_nat_digits by blast
qed

lemma query_simps:
  "canonicalQueryOf [] = []"
  "canonicalQueryOf [(''uploads'', [])] = ''uploads=''"
  "canonicalQueryOf [(''uploadId'', u)] = ''uploadId='' @ encodeURIComponent u"
  "canonicalQueryOf [(''partNumber'', show_nat n), (''uploadId'', u)] =
     ''partNumber='' @ show_nat n @ ''&uploadId='' @ encodeURIComponent u"
proof -
  have names: "encodeURIComponent ''uploads'' = ''uploads''" "encodeURIComponent ''uploadId'' = ''uploadId''"
    "encodeURIComponent ''partNumber'' = ''partNumber''" "encodeURIComponent [] = []"
    "sort [''partNumber'', ''uploadId''] = [''partNumber'', ''uploadId'']" by code_simp+
  show "canonicalQueryOf [] = []" "canonicalQueryOf [(''uploads'', [])] = ''uploads=''"
    "canonicalQueryOf [(''uploadId'', u)] = ''uploadId='' @ encodeURIComponent u"
    by (simp_all add: canonicalQueryOf_def names)
  show "canonicalQueryOf [(''partNumber'', show_nat n), (''uploadId'', u)] =
     ''partNumber='' @ show_nat n @ ''&uploadId='' @ encodeURIComponent u"
    using names(5) by (simp add: canonicalQueryOf_def names(2,3) encode_digits)
qed

lemma partQuery_print: "partQuery (''partNumber='' @ show_nat n @ ''&uploadId='' @ u) = (n, u)"
proof -
  have "takeWhile is_digit (show_nat n @ ''&uploadId='' @ u) = show_nat n"
    using show_nat_digits [of n] by (subst takeWhile_append2) (auto simp: list_all_iff is_digit_def)
  then show ?thesis by (simp add: partQuery_def Let_def digits_nat_show)
qed

text \<open>The answer to a request for a key, in terms of its URL and query.\<close>

lemma bucket_request:
  assumes "sp_key ps = Some key" "q = canonicalQueryOf (sp_query ps)"
  obtains sg where "request bucketRuntime bucketConfig ps w =
      outcome (bucketFetch sg (sp_payload ps) w)"
    "sg_method sg = sp_method ps" "takeWhile (\<lambda>c. c \<noteq> CHR ''?'') (sg_url sg) = keyUrl key"
    "drop (Suc (length (keyUrl key))) (sg_url sg) = q"
proof -
  from bucket_fetch_request [OF assms(1), of w] obtain sg where sg:
    "request bucketRuntime bucketConfig ps w =
      outcome (bucketFetch sg (sp_payload ps) w)"
    "sg_method sg = sp_method ps" "sg_url sg = keyUrl key @ (if q \<noteq> [] then ''?'' @ q else [])"
    unfolding assms(2) by blast
  show thesis
  proof (rule that [OF sg(1,2)])
    show "takeWhile (\<lambda>c. c \<noteq> CHR ''?'') (sg_url sg) = keyUrl key"
      using sg(3) keyUrl_no_query [of key] takeWhile_query [of "CHR ''?''" "keyUrl key" q] by (auto simp: takeWhile_eq_all_conv)
    show "drop (Suc (length (keyUrl key))) (sg_url sg) = q" using sg(3) by simp
  qed
qed

lemma stored_update:
  "bucketStored (w\<lparr>bw_objects := AList.update (keyUrl key) v (bw_objects w)\<rparr>) = (bucketStored w)(key \<mapsto> v)"
  by (auto simp: bucketStored_def keyUrl_inject fun_eq_iff update_conv')

lemma bucket_put: "putLaw bucketRuntime bucketConfig bucketStored"
  unfolding putLaw_def
proof (intro allI impI)
  fix key payload ct w x w' assume r: "request bucketRuntime bucketConfig (putParams key payload ct) w = (x, w')"
  obtain sg where "request bucketRuntime bucketConfig (putParams key payload ct) w =
      outcome (bucketFetch sg payload w)"
    "sg_method sg = ''PUT''" "takeWhile (\<lambda>c. c \<noteq> CHR ''?'') (sg_url sg) = keyUrl key"
    "drop (Suc (length (keyUrl key))) (sg_url sg) = []"
    by (rule bucket_request [of "putParams key payload ct" key "[]" w]) (simp_all add: putParams_def query_simps)
  with r have "isOk x" "w' = w\<lparr>bw_objects := AList.update (keyUrl key) payload (bw_objects w)\<rparr>"
    by (auto simp: bucketFetch_def Let_def)
  then show "if isOk x then bucketStored w' = (bucketStored w)(key \<mapsto> payload)
      else (\<forall>k. k \<noteq> key \<longrightarrow> bucketStored w' k = bucketStored w k) \<and> bucketStored w' key \<in> {bucketStored w key, Some payload}"
    by (simp add: stored_update)
qed

lemma bucket_head: "headLaw bucketRuntime bucketConfig bucketStored"
  unfolding headLaw_def
proof (intro allI impI)
  fix key w x w' assume r: "request bucketRuntime bucketConfig (simpleRequest ''HEAD'' key) w = (x, w')"
  obtain sg where "request bucketRuntime bucketConfig (simpleRequest ''HEAD'' key) w =
      outcome (bucketFetch sg [] w)"
    "sg_method sg = ''HEAD''" "takeWhile (\<lambda>c. c \<noteq> CHR ''?'') (sg_url sg) = keyUrl key"
    by (rule bucket_request [of "simpleRequest ''HEAD'' key" key "[]" w]) (simp_all add: simpleRequest_def query_simps)
  with r show "bucketStored w' = bucketStored w \<and> (isOk x \<longrightarrow> bucketStored w key \<noteq> None)"
    by (auto simp: bucketFetch_def bucketStored_def Let_def split: if_splits)
qed

lemma bucket_abort: "abortLaw bucketRuntime bucketConfig bucketStored"
  unfolding abortLaw_def
proof (intro allI)
  fix key u w
  obtain sg where "request bucketRuntime bucketConfig (abortParams key u) w = outcome (bucketFetch sg [] w)" "sg_method sg = ''DELETE''"
    by (rule bucket_request [of "abortParams key u" key "''uploadId='' @ encodeURIComponent u" w]) (simp_all add: abortParams_def query_simps)
  then show "bucketStored (snd (request bucketRuntime bucketConfig (abortParams key u) w)) = bucketStored w"
    by (simp add: bucketFetch_def Let_def)
qed

lemma findTag_reply:
  assumes "list_all (\<lambda>c. c \<noteq> CHR ''<'') u" "u \<noteq> []"
  shows "findTag False (\<lambda>c. c \<noteq> CHR ''<'') 1 ''UploadId'' (''<UploadId>'' @ u @ ''</UploadId>'') = Some u"
proof -
  have tw: "takeWhile (\<lambda>c. c \<noteq> CHR ''<'') (u @ ''</UploadId>'') = u" "dropWhile (\<lambda>c. c \<noteq> CHR ''<'') (u @ ''</UploadId>'') = ''</UploadId>''"
    using assms(1) by (auto simp: list_all_iff takeWhile_append2 dropWhile_append2)
  have "1 \<le> length u" using assms(2) by (cases u) auto
  with tw show ?thesis by (simp add: tagText_def Let_def)
qed

lemma bucket_id_not_Nil: "show_nat n \<noteq> []"
  by (subst show_nat.simps) simp

lemma bucket_init: "initLaw bucketRuntime bucketConfig bucketStored bucketParts"
  unfolding initLaw_def
proof (intro allI impI)
  fix key ct w x w' assume r: "request bucketRuntime bucketConfig (initParams key ct) w = (x, w')"
  obtain sg where "request bucketRuntime bucketConfig (initParams key ct) w = outcome (bucketFetch sg [] w)" "sg_method sg = ''POST''"
    "takeWhile (\<lambda>c. c \<noteq> CHR ''?'') (sg_url sg) = keyUrl key" "drop (Suc (length (keyUrl key))) (sg_url sg) = ''uploads=''"
    by (rule bucket_request [of "initParams key ct" key "''uploads=''" w]) (simp_all add: initParams_def query_simps)
  with r have x: "x = Inr \<lparr>hr_status = 200, hr_body = Some (''<UploadId>'' @ show_nat (bw_next w) @ ''</UploadId>''), hr_etag = None,
      hr_contentLength = None, hr_contentRange = None, hr_contentType = None\<rparr>"
    and w': "w' = w\<lparr>bw_uploads := AList.update (show_nat (bw_next w)) [] (bw_uploads w), bw_next := Suc (bw_next w)\<rparr>"
    by (auto simp: bucketFetch_def Let_def)
  have u: "u = show_nat (bw_next w)" if "x = Inr r" "uploadIdOf r = Some u" for r u
  proof -
    have "list_all (\<lambda>c. c \<noteq> CHR ''<'') (show_nat (bw_next w))"
      using show_nat_digits [of "bw_next w"] by (auto simp: list_all_iff is_digit_def)
    from findTag_reply [OF this bucket_id_not_Nil] that x show ?thesis by (auto simp: uploadIdOf_def simp del: findTag.simps)
  qed
  show "bucketStored w' = bucketStored w \<and> (\<forall>r u. x = Inr r \<longrightarrow> uploadIdOf r = Some u \<longrightarrow> bucketParts w' u = Some [])"
  proof (intro conjI allI impI)
    show "bucketStored w' = bucketStored w" by (simp add: w' bucketStored_def fun_eq_iff)
    show "bucketParts w' v = Some []" if "x = Inr r" "uploadIdOf r = Some v" for r v
      unfolding u [OF that] by (simp add: w' bucketParts_def encode_digits update_conv')
  qed
qed

lemma bucket_part: "partLaw bucketRuntime bucketConfig bucketStored bucketParts"
  unfolding partLaw_def
proof (intro allI impI)
  fix key u and ps :: "(string \<times> string) list" and chunk w x w'
  assume r: "request bucketRuntime bucketConfig (partParams key u (Suc (length ps)) chunk) w = (x, w')"
  let ?q = "''partNumber='' @ show_nat (Suc (length ps)) @ ''&uploadId='' @ encodeURIComponent u"
  obtain sg where "request bucketRuntime bucketConfig (partParams key u (Suc (length ps)) chunk) w = outcome (bucketFetch sg chunk w)"
    "sg_method sg = ''PUT''" "takeWhile (\<lambda>c. c \<noteq> CHR ''?'') (sg_url sg) = keyUrl key" "drop (Suc (length (keyUrl key))) (sg_url sg) = ?q"
    by (rule bucket_request [of "partParams key u (Suc (length ps)) chunk" key ?q w]) (simp_all add: partParams_def query_simps)
  with r partQuery_print [of "Suc (length ps)" "encodeURIComponent u"]
  show "bucketStored w' = bucketStored w \<and> (\<forall>r t. x = Inr r \<longrightarrow> hr_etag r = Some t \<longrightarrow> bucketParts w u = Some ps \<longrightarrow>
      bucketParts w' u = Some (ps @ [(t, chunk)]))"
    by (auto simp: bucketFetch_def Let_def bucketStored_def bucketParts_def update_conv' split: option.splits if_splits)
qed

lemma bucket_complete: "completeLaw bucketRuntime bucketConfig bucketStored bucketParts"
  unfolding completeLaw_def
proof (intro allI impI)
  fix key u ps w x w'
  assume r: "request bucketRuntime bucketConfig (completeParams key u (map fst ps)) w = (x, w')" and p: "bucketParts w u = Some ps"
  obtain sg where "request bucketRuntime bucketConfig (completeParams key u (map fst ps)) w
      = outcome (bucketFetch sg (completeBody (map fst ps)) w)"
    "sg_method sg = ''POST''" "takeWhile (\<lambda>c. c \<noteq> CHR ''?'') (sg_url sg) = keyUrl key"
    "drop (Suc (length (keyUrl key))) (sg_url sg) = ''uploadId='' @ encodeURIComponent u"
    by (rule bucket_request [of "completeParams key u (map fst ps)" key "''uploadId='' @ encodeURIComponent u" w])
       (simp_all add: completeParams_def query_simps)
  with r p have "isOk x \<and> w' = w\<lparr>bw_objects := AList.update (keyUrl key) (concat (map snd ps)) (bw_objects w)\<rparr>"
    by (auto simp: bucketFetch_def Let_def bucketParts_def)
  then show "(\<forall>k. k \<noteq> key \<longrightarrow> bucketStored w' k = bucketStored w k) \<and> bucketStored w' key \<in> {bucketStored w key, Some (concat (map snd ps))}"
    by (simp add: stored_update)
qed

lemma bucket_service: "s3Service bucketRuntime bucketConfig bucketStored bucketParts"
  unfolding s3Service_def using bucket_put bucket_head bucket_init bucket_part bucket_complete bucket_abort by blast

section \<open>Properties\<close>

text \<open>
  Property C38. Keys survive the URL. What the client puts into a URL for a key is read back as that key, so two
  objects never share a URL, and consists of unreserved characters, slashes and percent escapes only.
\<close>

theorem s3_key_roundtrip:
  "decodeS3 (encodeS3Path key) = key
   \<and> list_all (\<lambda>c. alnum c \<or> c \<in> {CHR ''-'', CHR ''_'', CHR ''.'', CHR ''~'', CHR ''%'', CHR ''/''}) (encodeS3Path key)
   \<and> (encodeS3Path key = encodeS3Path key' \<longleftrightarrow> key = key')"
proof (intro conjI)
  show "decodeS3 (encodeS3Path key) = key" by (rule decode_path)
  show "list_all (\<lambda>c. alnum c \<or> c \<in> {CHR ''-'', CHR ''_'', CHR ''.'', CHR ''~'', CHR ''%'', CHR ''/''}) (encodeS3Path key)"
    using encodeS3Path_chars [of key] by (auto simp: list_all_iff pathChar_def plain_def)
  show "encodeS3Path key = encodeS3Path key' \<longleftrightarrow> key = key'" using decode_path by metis
qed

text \<open>
  The secret is confined to the signature. Two configurations that differ only in the secret
  produce the same URL, method and headers for every request, up to the last field of the authorization
  header, which is the signature.
\<close>

theorem s3_secret_confined:
  "case (signS3Request rt cf now ps, signS3Request rt (cf\<lparr>s3_secretAccessKey := other\<rparr>) now ps) of
     (Inr a, Inr b) \<Rightarrow>
       sg_url a = sg_url b \<and> sg_method a = sg_method b
       \<and> filter (\<lambda>h. fst h \<noteq> ''Authorization'') (sg_headers a) = filter (\<lambda>h. fst h \<noteq> ''Authorization'') (sg_headers b)
       \<and> (\<exists>pre date sts. map_of (sg_headers a) ''Authorization'' = Some (pre @ signatureOf rt cf date sts)
             \<and> map_of (sg_headers b) ''Authorization'' = Some (pre @ signatureOf rt (cf\<lparr>s3_secretAccessKey := other\<rparr>) date sts))
   | (Inl e, Inl e') \<Rightarrow> e = e'
   | _ \<Rightarrow> False"
proof (cases "rt_parseUrl rt (strip_slashes (s3_endpoint cf))")
  case (Some ph)
  obtain p h where ph: "ph = (p, h)" by fastforce
  have f: "filter (\<lambda>h. fst h \<noteq> k) (AList.update k v hs) = filter (\<lambda>h. fst h \<noteq> k) (hs :: (string \<times> string) list)" for k v hs
    by (induction hs) auto
  let ?cf = "\<lambda>k. cf\<lparr>s3_secretAccessKey := k\<rparr>"
  have cf: "?cf (s3_secretAccessKey cf) = cf" by simp
  have u: "canonicalUriOf (?cf k) = canonicalUriOf cf" for k by (simp add: canonicalUriOf_def fun_eq_iff)
  have sel: "s3_endpoint (?cf k) = s3_endpoint cf" "s3_region (?cf k) = s3_region cf" "s3_bucket (?cf k) = s3_bucket cf"
    "s3_accessKeyId (?cf k) = s3_accessKeyId cf" "s3_forcePathStyle (?cf k) = s3_forcePathStyle cf" for k by simp_all
  have "\<exists>url pre date sts hs. \<forall>k. signS3Request rt (?cf k) now ps =
      Inr \<lparr>sg_url = url, sg_method = sp_method ps, sg_headers = AList.update ''Authorization'' (pre @ signatureOf rt (?cf k) date sts) hs\<rparr>"
    unfolding signS3Request_def Let_def u sel Some ph option.case prod.case by (intro exI allI) (rule refl)
  then obtain url pre date sts hs where eq: "signS3Request rt (?cf k) now ps =
      Inr \<lparr>sg_url = url, sg_method = sp_method ps, sg_headers = AList.update ''Authorization'' (pre @ signatureOf rt (?cf k) date sts) hs\<rparr>" for k
    by blast
  have "\<exists>pre' date' sts'. map_of (AList.update ''Authorization'' (pre @ signatureOf rt cf date sts) hs) ''Authorization'' = Some (pre' @ signatureOf rt cf date' sts')
      \<and> map_of (AList.update ''Authorization'' (pre @ signatureOf rt (?cf other) date sts) hs) ''Authorization'' = Some (pre' @ signatureOf rt (?cf other) date' sts')"
    by (intro exI [of _ pre] exI [of _ date] exI [of _ sts]) (simp add: update_conv')
  with eq [of other] eq [of "s3_secretAccessKey cf", unfolded cf] show ?thesis by (simp add: f)
qed (simp add: signS3Request_def)

text \<open>
  Uploading in parts. With a service that keeps the S3 protocol, an upload in parts, whether it reports success or not,
  changes no other object and leaves under the key what was there before or exactly the content. The
  loop over the parts always ends, and every part but the last has the size the protocol asks for.
\<close>

theorem multipart_stores_content:
  assumes "s3Service rt cf stored parts" "readsContent content rd"
    and "putObjectMultipart rt cf key rd (length content) opt ct b = (r, b')"
  shows "stored b' (fullKey cf key) \<in> {stored b (fullKey cf key), Some content}
    \<and> (k \<noteq> fullKey cf key \<longrightarrow> stored b' k = stored b k)
    \<and> (\<forall>ts b1 b2 u. sendParts rt cf (fullKey cf key) u rd opt (length content) 1 0 b1 = (Inr ts, b2) \<longrightarrow>
         parts b1 u = Some [] \<longrightarrow> (\<exists>cs. parts b2 u = Some (zip ts cs) \<and> length cs = length ts \<and> concat cs = content
           \<and> (\<forall>c\<in>set (butlast cs). MIN_MULTIPART_PART_BYTES \<le> length c)))"
proof (intro conjI impI allI)
  from multipart_law [OF assms] show "stored b' (fullKey cf key) \<in> {stored b (fullKey cf key), Some content}"
    "k \<noteq> fullKey cf key \<Longrightarrow> stored b' k = stored b k" by blast+
  fix ts b1 b2 u
  assume s: "sendParts rt cf (fullKey cf key) u rd opt (length content) 1 0 b1 = (Inr ts, b2)" "parts b1 u = Some []"
  let ?cs = "chunks (partSizeOf opt) content"
  from sendParts_law [OF s3ServiceD(4) [OF assms(1)] assms(2), where ps = "[]" and offset = 0 and b = b1] s
  have "length ts = length ?cs" "parts b2 u = Some (zip ts ?cs)" by simp_all
  moreover have "concat ?cs = content" by (rule concat_chunks [OF partSizeOf_pos])
  moreover have "MIN_MULTIPART_PART_BYTES \<le> length c" if "c \<in> set (butlast ?cs)" for c
    using chunks_sizes [OF partSizeOf_pos that] by (simp add: partSizeOf_def)
  ultimately show "\<exists>cs. parts b2 u = Some (zip ts cs) \<and> length cs = length ts \<and> concat cs = content
      \<and> (\<forall>c\<in>set (butlast cs). MIN_MULTIPART_PART_BYTES \<le> length c)" by (intro exI [of _ ?cs]) simp
qed

definition emptyBucket :: bucketWorld where
  "emptyBucket = \<lparr>bw_objects = [], bw_uploads = [], bw_next = 7, bw_time = 0\<rparr>"

definition readAbc :: "nat \<Rightarrow> nat \<Rightarrow> bucketWorld \<Rightarrow> (s3Error, string) result \<times> bucketWorld" where
  "readAbc offset len b = (Inr (take len (drop offset ''abc'')), b)"

theorem multipart_stores_content_witness:
  "\<exists>b'. putObjectMultipart bucketRuntime bucketConfig ''x y'' readAbc 3 None ''video/mp4'' emptyBucket = (Inr (), b')
     \<and> bucketStored b' ''site 1/x y'' = Some ''abc'' \<and> bucketStored b' ''site 1/x'' = None"
proof -
  let ?r = "putObjectMultipart bucketRuntime bucketConfig ''x y'' readAbc 3 None ''video/mp4'' emptyBucket"
  have "isOk (fst ?r) \<and> bucketStored (snd ?r) ''site 1/x y'' \<noteq> None" by code_simp
  then obtain b' where b': "?r = (Inr (), b')" and some: "bucketStored b' ''site 1/x y'' \<noteq> None" by (cases ?r) (auto elim: isOk.elims)
  have "readsContent ''abc'' readAbc" by (simp add: readsContent_def readAbc_def)
  note m = multipart_stores_content [OF bucket_service this, of "''x y''" None "''video/mp4''" emptyBucket "Inr ()" b']
  have k: "fullKey bucketConfig ''x y'' = ''site 1/x y''" by code_simp
  have e: "bucketStored emptyBucket k = None" for k by (simp add: bucketStored_def emptyBucket_def)
  have "bucketStored b' ''site 1/x y'' \<in> {bucketStored emptyBucket ''site 1/x y'', Some ''abc''}"
    "''site 1/x'' \<noteq> ''site 1/x y'' \<longrightarrow> bucketStored b' ''site 1/x'' = bucketStored emptyBucket ''site 1/x''"
    using m [of "''site 1/x''"] b' unfolding k by (simp_all add: eval_nat_numeral)
  with b' some e show ?thesis by (intro exI [of _ b']) auto
qed

text \<open>
  The completion of an upload is taken for done when its status is: a service that answers 200 with an error in the body,
  as S3 may, has stored nothing, and the client reports success.
\<close>

definition refusingFetch :: "signedRequest \<Rightarrow> string \<Rightarrow> bucketWorld \<Rightarrow> httpResponse option \<times> bucketWorld" where
  "refusingFetch sg payload w =
     (if sg_method sg = ''POST'' \<and> str_includes (sg_url sg) ''?uploadId=''
      then (reply 200 ''<Error><Code>InternalError</Code></Error>'' None, w) else bucketFetch sg payload w)"

lemma completion_error_unnoticed:
  "let rt = bucketRuntime\<lparr>rt_fetch := refusingFetch\<rparr>; r = putObjectMultipart rt bucketConfig ''x y'' readAbc 3 None ''video/mp4'' emptyBucket
   in isOk (fst r) \<and> bucketStored (snd r) ''site 1/x y'' = None \<and> fst (headObject rt bucketConfig ''x y'' (snd r)) = Inr False"
  by code_simp

end
