(* ===== verification/Cloud_Offload_Props.thy ===== *)
theory Cloud_Offload_Props
  imports Cloud_Offload S3_Bucket
begin

text \<open>
  Properties of the offload: a recording is never lost to it, it follows the policy, its marks are consistent;
  and where it falls short of what it says of itself.
\<close>

section \<open>Keys\<close>

lemma split_last:
  "xs @ c # ys = xs' @ c # ys' \<Longrightarrow> c \<notin> set ys \<Longrightarrow> c \<notin> set ys' \<Longrightarrow> xs = xs' \<and> ys = ys'"
proof (induction xs arbitrary: xs')
  case Nil
  then show ?case by (cases xs') auto
next
  case (Cons x xs)
  show ?case
  proof (cases xs')
    case Nil
    with Cons(2-4) show ?thesis by auto
  next
    case (Cons y zs)
    with Cons.IH [of zs] Cons.prems show ?thesis by auto
  qed
qed

lemma cloudExtension_form:
  obtains e where "cloudExtension fp = CHR ''.'' # e" "CHR ''.'' \<notin> set e" "CHR ''/'' \<notin> set e"
proof (cases "CHR ''.'' \<in> set (last (split_on CHR ''/'' fp))")
  case False
  then show thesis by (intro that [of "''mp4''"]) (simp_all add: cloudExtension_def Let_def)
next
  case True
  let ?n = "last (split_on CHR ''/'' fp)" and ?e = "rev (takeWhile (\<lambda>c. c \<noteq> CHR ''.'') (rev (last (split_on CHR ''/'' fp))))"
  have "CHR ''/'' \<notin> set ?n" by (rule split_on_pieces [of _ _ fp]) simp
  moreover have "set ?e \<subseteq> set ?n" using set_takeWhileD by fastforce
  moreover have "CHR ''.'' \<notin> set ?e" using set_takeWhileD by fastforce
  ultimately show thesis using True by (intro that [of ?e]) (auto simp: cloudExtension_def Let_def)
qed

lemma buildCloudKey_id:
  assumes "buildCloudKey r = buildCloudKey r'" "CHR ''/'' \<notin> set (cw_id r)" "CHR ''/'' \<notin> set (cw_id r')"
  shows "cw_id r = cw_id r'"
proof -
  obtain e e' where e: "cloudExtension (cw_filePath r) = CHR ''.'' # e" "CHR ''.'' \<notin> set e" "CHR ''/'' \<notin> set e"
    "cloudExtension (cw_filePath r') = CHR ''.'' # e'" "CHR ''.'' \<notin> set e'" "CHR ''/'' \<notin> set e'"
    using cloudExtension_form by metis
  have "(''recordings/'' @ cw_cameraId r) @ CHR ''/'' # (cw_id r @ CHR ''.'' # e)
      = (''recordings/'' @ cw_cameraId r') @ CHR ''/'' # (cw_id r' @ CHR ''.'' # e')"
    using assms(1) e by (simp add: buildCloudKey_def)
  from split_last [OF this] assms(2,3) e have "cw_id r @ CHR ''.'' # e = cw_id r' @ CHR ''.'' # e'" by simp
  from split_last [OF this e(2,5)] show ?thesis by simp
qed

lemma cleanKey_id: "s \<noteq> [] \<Longrightarrow> hd s \<noteq> CHR ''/'' \<Longrightarrow> last s \<noteq> CHR ''/'' \<Longrightarrow> cleanKey s = s"
proof -
  assume s: "s \<noteq> []" "hd s \<noteq> CHR ''/''" "last s \<noteq> CHR ''/''"
  have "dropWhile (\<lambda>c. c = CHR ''/'') xs = xs" if "xs \<noteq> []" "hd xs \<noteq> CHR ''/''" for xs using that by (cases xs) auto
  from this [of s] this [of "rev s"] s show ?thesis by (simp add: cleanKey_def strip_slashes_def hd_rev)
qed

lemma cleanKey_cloud: "cleanKey (buildCloudKey r) = buildCloudKey r"
proof -
  obtain e where e: "cloudExtension (cw_filePath r) = CHR ''.'' # e" "CHR ''/'' \<notin> set e" using cloudExtension_form by metis
  have "last (buildCloudKey r) = last (CHR ''.'' # e)" by (simp add: buildCloudKey_def e(1))
  also have "\<dots> \<noteq> CHR ''/''" using e(2) by (cases "e = []") (auto dest: last_in_set)
  finally show ?thesis by (intro cleanKey_id) (simp_all add: buildCloudKey_def)
qed

lemma fullKey_cloud: "fullKey cf (buildCloudKey r) = fullKey cf (buildCloudKey r') \<longleftrightarrow> buildCloudKey r = buildCloudKey r'"
  by (auto simp: fullKey_def joinS3Key_def Let_def cleanKey_cloud)

section \<open>Sending one file\<close>

lemma readChunk_reads: "readsContent content (readChunk False content)"
  by (simp add: readsContent_def readChunk_def Let_def)

lemma sendParts_read_fails:
  "offset < length content \<Longrightarrow> sendParts rt cf key u (readChunk True content') opt (length content) n offset b = (Inl OtherErr, b)"
  by (subst sendParts.simps) (simp add: sendPart_def readChunk_def Let_def)

lemma sendFile_law:
  assumes "s3Service rt cf stored parts" "sendFile rt cf fo fr key content b = (x, b')"
  shows "(\<forall>k. k \<noteq> fullKey cf key \<longrightarrow> stored b' k = stored b k) \<and> stored b' (fullKey cf key) \<in> {stored b (fullKey cf key), Some content}"
proof (cases "fo \<or> fr")
  case False
  note laws = s3ServiceD [OF assms(1)]
  show ?thesis
  proof (cases "length content > MAX_SINGLE_PUT_BYTES")
    case True
    with False assms(2) have "putObjectMultipart rt cf key (readChunk False content) (length content) None ''video/mp4'' b = (x, b')"
      by (simp add: sendFile_def)
    from multipart_law [OF assms(1) readChunk_reads this] show ?thesis .
  next
    case small: False
    obtain y b1 where y: "request rt cf (putParams (fullKey cf key) content ''video/mp4'') b = (y, b1)" by fastforce
    with small False assms(2) have "b' = b1" by (auto simp: sendFile_def putObject_def split: sum.splits)
    with putLawD(2,3) [OF laws(1) y] show ?thesis by simp
  qed
next
  case True
  note laws = s3ServiceD [OF assms(1)]
  obtain y b1 where y: "request rt cf (initParams (fullKey cf key) ''video/mp4'') b = (y, b1)" by fastforce
  have abort: "stored (snd (request rt cf (abortParams k u) b3)) = stored b3" for k u b3
    using laws(6) by (simp add: abortLaw_def)
  have rf: "sendParts rt cf k u (readChunk True content) opt (length content) n 0 b0 = (Inl OtherErr, b0)"
    if "MAX_SINGLE_PUT_BYTES < length content" for k u opt n b0
    using that by (intro sendParts_read_fails) (cases content; simp)
  have "stored b' = stored b" using True assms(2) y initLawD(1) [OF laws(3) y] abort rf
    by (cases fo; cases fr)
       (auto simp: sendFile_def putObjectMultipart_def multipartBody_def Let_def split: if_splits sum.splits option.splits)
  then show ?thesis by simp
qed

lemma headObject_law:
  assumes "s3Service rt cf stored parts" "headObject rt cf key b = (x, b')"
  shows "stored b' = stored b" "x = Inr True \<Longrightarrow> stored b (fullKey cf key) \<noteq> None"
proof -
  obtain y b1 where y: "request rt cf (simpleRequest ''HEAD'' (fullKey cf key)) b = (y, b1)" by fastforce
  then have "b' = b1" "x = Inr True \<Longrightarrow> isOk y"
    using assms(2) by (auto simp: headObject_def split: prod.splits sum.splits s3Error.splits if_splits)
  moreover have "stored b1 = stored b \<and> (isOk y \<longrightarrow> stored b (fullKey cf key) \<noteq> None)"
    using s3ServiceD(2) [OF assms(1)] y unfolding headLaw_def by blast
  ultimately show "stored b' = stored b" "x = Inr True \<Longrightarrow> stored b (fullKey cf key) \<noteq> None" by simp_all
qed

section \<open>One recording\<close>

text \<open>
  A sound table: identifiers are unique and without slash, and no two recordings name the same file.
\<close>

definition wfRows :: "platform \<Rightarrow> cloudRow list \<Rightarrow> bool" where
  "wfRows pf rows \<longleftrightarrow> distinct (map cw_id rows) \<and> (\<forall>r\<in>set rows. CHR ''/'' \<notin> set (cw_id r))
     \<and> (\<forall>r\<in>set rows. \<forall>r'\<in>set rows. \<forall>p.
          ensureFileUnderRoot pf (cw_filePath r) = Inr p \<longrightarrow> ensureFileUnderRoot pf (cw_filePath r') = Inr p \<longrightarrow> cw_id r = cw_id r')"

text \<open>What the offload never changes of a row.\<close>

definition sameRow :: "cloudRow \<Rightarrow> cloudRow \<Rightarrow> bool" where
  "sameRow r r' \<longleftrightarrow> cw_id r' = cw_id r \<and> cw_cameraId r' = cw_cameraId r \<and> cw_filePath r' = cw_filePath r
     \<and> cw_triggerMode r' = cw_triggerMode r"

lemma sameRow_refl [simp]: "sameRow r r"
  by (simp add: sameRow_def)

lemma sameRow_trans: "sameRow a b \<Longrightarrow> sameRow b c \<Longrightarrow> sameRow a c"
  by (simp add: sameRow_def)

lemma sameRow_key: "sameRow r r' \<Longrightarrow> buildCloudKey r' = buildCloudKey r"
  by (simp add: sameRow_def buildCloudKey_def)

lemma wfRows_map:
  assumes "wfRows pf rows" "\<And>r. sameRow r (f r)"
  shows "wfRows pf (map f rows)"
proof -
  have id: "cw_id (f r) = cw_id r" "cw_filePath (f r) = cw_filePath r" for r using assms(2) by (simp_all add: sameRow_def)
  then have "wfRows pf (map f rows) = wfRows pf rows" unfolding wfRows_def by (simp add: comp_def)
  with assms(1) show ?thesis by simp
qed

lemma wfRowsD:
  assumes "wfRows pf rows" "r \<in> set rows" "r' \<in> set rows"
  shows "cw_id r = cw_id r' \<Longrightarrow> r = r'" "CHR ''/'' \<notin> set (cw_id r)"
    and "ensureFileUnderRoot pf (cw_filePath r) = Inr p \<Longrightarrow> ensureFileUnderRoot pf (cw_filePath r') = Inr p \<Longrightarrow> r = r'"
proof -
  have d: "distinct (map cw_id rows)" and sl: "\<forall>r\<in>set rows. CHR ''/'' \<notin> set (cw_id r)"
    and pa: "\<forall>r\<in>set rows. \<forall>r'\<in>set rows. \<forall>p. ensureFileUnderRoot pf (cw_filePath r) = Inr p \<longrightarrow>
        ensureFileUnderRoot pf (cw_filePath r') = Inr p \<longrightarrow> cw_id r = cw_id r'"
    using assms(1) unfolding wfRows_def by blast+
  show i: "cw_id r = cw_id r' \<Longrightarrow> r = r'" using d assms(2,3) by (auto simp: distinct_map inj_on_def)
  show "CHR ''/'' \<notin> set (cw_id r)" using sl assms(2) by blast
  show "ensureFileUnderRoot pf (cw_filePath r) = Inr p \<Longrightarrow> ensureFileUnderRoot pf (cw_filePath r') = Inr p \<Longrightarrow> r = r'"
    using pa assms(2,3) i by blast
qed

text \<open>
  The content of a recording is safe: it is on disk, or it is in the bucket under the key of the row. A row that
  is marked as uploaded has its content in the bucket; before that, nothing else lies under its key.
\<close>

definition held where
  "held cf stored c st key mark p \<longleftrightarrow>
     (if mark = None then map_of (os_files st) p = Some c \<and> stored (os_world st) (fullKey cf key) \<in> {None, Some c}
      else map_of (os_files st) p \<in> {None, Some c} \<and> mark = Some key \<and> stored (os_world st) (fullKey cf key) = Some c)"

lemma held_keep:
  assumes "held cf stored c st key mark p" "map_of (os_files st') p = map_of (os_files st) p"
    and "stored (os_world st') (fullKey cf key) = stored (os_world st) (fullKey cf key)"
  shows "held cf stored c st' key mark p"
  using assms by (cases mark) (simp_all add: held_def)

definition rowSafe :: "platform \<Rightarrow> s3Config \<Rightarrow> ('b \<Rightarrow> string \<Rightarrow> string option) \<Rightarrow> cloudRow \<Rightarrow> string \<Rightarrow> 'b offState \<Rightarrow> bool" where
  "rowSafe pf cf stored r0 c st \<longleftrightarrow> wfRows pf (os_rows st) \<and>
     (\<exists>r\<in>set (os_rows st). \<exists>p. sameRow r0 r \<and> ensureFileUnderRoot pf (cw_filePath r) = Inr p
        \<and> held cf stored c st (buildCloudKey r) (cw_cloudKey r) p)"

lemma rowSafe_map:
  assumes "rowSafe pf cf stored r0 c st" "os_rows st' = map f (os_rows st)" "\<And>r. sameRow r (f r)"
    and "\<And>r p. \<lbrakk>r \<in> set (os_rows st); sameRow r0 r; ensureFileUnderRoot pf (cw_filePath r) = Inr p;
        held cf stored c st (buildCloudKey r) (cw_cloudKey r) p\<rbrakk> \<Longrightarrow>
      held cf stored c st' (buildCloudKey r) (cw_cloudKey (f r)) p"
  shows "rowSafe pf cf stored r0 c st'"
proof -
  from assms(1) obtain r p where r: "r \<in> set (os_rows st)" "sameRow r0 r" "ensureFileUnderRoot pf (cw_filePath r) = Inr p"
    "held cf stored c st (buildCloudKey r) (cw_cloudKey r) p" and wf: "wfRows pf (os_rows st)"
    unfolding rowSafe_def by blast
  have s: "sameRow r0 (f r)" "cw_filePath (f r) = cw_filePath r" "buildCloudKey (f r) = buildCloudKey r"
    using sameRow_trans [OF r(2) assms(3)] sameRow_key [OF assms(3)] assms(3) [of r] by (simp_all add: sameRow_def)
  have "f r \<in> set (os_rows st')" using r(1) assms(2) by simp
  moreover note assms(4) [OF r]
  moreover have "wfRows pf (os_rows st')" unfolding assms(2) using wf assms(3) by (rule wfRows_map)
  ultimately show ?thesis unfolding rowSafe_def using s r(3) by (intro conjI bexI [of _ "f r"] exI [of _ p]) simp_all
qed

text \<open>The effect of one upload on the state: the world changes, and at most the row's marks.\<close>

lemma uploadOne_effect:
  assumes "s3Service rt cf stored parts" "uploadOne rt pf fl cf rec st = (oc, st')"
  shows "os_files st' = os_files st \<and> os_policy st' = os_policy st \<and> os_running st' = os_running st
    \<and> (\<forall>k. k \<noteq> fullKey cf (buildCloudKey rec) \<longrightarrow> stored (os_world st') k = stored (os_world st) k)
    \<and> (stored (os_world st') (fullKey cf (buildCloudKey rec)) = stored (os_world st) (fullKey cf (buildCloudKey rec))
       \<or> (\<exists>p content. ensureFileUnderRoot pf (cw_filePath rec) = Inr p \<and> map_of (os_files st) p = Some content
            \<and> stored (os_world st') (fullKey cf (buildCloudKey rec)) = Some content))
    \<and> (os_rows st' = os_rows st
       \<or> (\<exists>t. os_rows st' = map (\<lambda>r. if cw_id r = cw_id rec
              then r\<lparr>cw_cloudKey := Some (buildCloudKey rec), cw_cloudUploadedAt := Some t\<rparr> else r) (os_rows st)
            \<and> stored (os_world st') (fullKey cf (buildCloudKey rec)) \<noteq> None))"
proof (cases "\<exists>p content. ensureFileUnderRoot pf (cw_filePath rec) = Inr p \<and> map_of (os_files st) p = Some content \<and> content \<noteq> []")
  case False
  with assms(2) show ?thesis by (auto simp: uploadOne_def split: sum.splits option.splits if_splits)
next
  case True
  then obtain p content where p: "ensureFileUnderRoot pf (cw_filePath rec) = Inr p" "map_of (os_files st) p = Some content" "content \<noteq> []"
    by blast
  let ?key = "buildCloudKey rec"
  obtain x b1 where x: "sendFile rt cf (xf_open fl p) (xf_read fl p) ?key content (os_world st) = (x, b1)" by fastforce
  obtain y b2 where y: "headObject rt cf ?key b1 = (y, b2)" by fastforce
  note s = sendFile_law [OF assms(1) x] and h = headObject_law [OF assms(1) y]
  have other: "\<forall>k. k \<noteq> fullKey cf ?key \<longrightarrow> stored b1 k = stored (os_world st) k" using s by simp
  have under: "stored b1 (fullKey cf ?key) = stored (os_world st) (fullKey cf ?key)
      \<or> (\<exists>p content. ensureFileUnderRoot pf (cw_filePath rec) = Inr p \<and> map_of (os_files st) p = Some content
            \<and> stored b1 (fullKey cf ?key) = Some content)" using s p by blast
  show ?thesis
  proof (cases "isOk x \<and> y = Inr True \<and> \<not> xf_update fl (cw_id rec)")
    case True
    then have st': "st' = updateRow (cw_id rec) (\<lambda>r. r\<lparr>cw_cloudKey := Some ?key, cw_cloudUploadedAt := Some (rt_clock rt b2)\<rparr>)
        (st\<lparr>os_world := b2\<rparr>)"
      using assms(2) p x y by (auto simp: uploadOne_def Let_def elim: isOk.elims)
    have "stored b2 (fullKey cf ?key) \<noteq> None" using True h by simp
    with other under h(1) st' show ?thesis by (auto simp: updateRow_def)
  next
    case False
    then have "st' = st\<lparr>os_world := b1\<rparr> \<or> st' = st\<lparr>os_world := b2\<rparr>"
      using assms(2) p x y by (auto simp: uploadOne_def Let_def split: sum.splits if_splits bool.splits)
    with other under h(1) show ?thesis by auto
  qed
qed

lemma uploadOne_safe:
  assumes "s3Service rt cf stored parts" "uploadOne rt pf fl cf rec st = (oc, st')"
    and "rowSafe pf cf stored r0 c st" "rec \<in> set (os_rows st)" "cw_cloudKey rec = None"
  shows "rowSafe pf cf stored r0 c st'"
proof -
  note e = uploadOne_effect [OF assms(1,2)]
  have wf: "wfRows pf (os_rows st)" using assms(3) by (simp add: rowSafe_def)
  have keep: "held cf stored c st' (buildCloudKey r) (cw_cloudKey r) p"
    if "r \<in> set (os_rows st)" "r \<noteq> rec" "held cf stored c st (buildCloudKey r) (cw_cloudKey r) p" for r p
  proof -
    have "buildCloudKey r \<noteq> buildCloudKey rec"
      using buildCloudKey_id [of r rec] wfRowsD(1,2) [OF wf that(1) assms(4)] wfRowsD(2) [OF wf assms(4,4)] that(2) by blast
    then have "fullKey cf (buildCloudKey r) \<noteq> fullKey cf (buildCloudKey rec)" by (simp add: fullKey_cloud)
    with e show ?thesis by (intro held_keep [OF that(3)]) simp_all
  qed
  have under: "stored (os_world st') (fullKey cf (buildCloudKey rec)) \<in> {None, Some c}"
    if "ensureFileUnderRoot pf (cw_filePath rec) = Inr p" "held cf stored c st (buildCloudKey rec) (cw_cloudKey rec) p" for p
    using that e assms(5) by (auto simp: held_def)
  from e consider (same) "os_rows st' = os_rows st"
    | (marked) t where "os_rows st' = map (\<lambda>r. if cw_id r = cw_id rec
              then r\<lparr>cw_cloudKey := Some (buildCloudKey rec), cw_cloudUploadedAt := Some t\<rparr> else r) (os_rows st)"
        "stored (os_world st') (fullKey cf (buildCloudKey rec)) \<noteq> None" by blast
  then show ?thesis
  proof cases
    case same
    show ?thesis
    proof (rule rowSafe_map [OF assms(3), of st' "\<lambda>r. r"])
      show "held cf stored c st' (buildCloudKey r) (cw_cloudKey r) p"
        if "r \<in> set (os_rows st)" "ensureFileUnderRoot pf (cw_filePath r) = Inr p" "held cf stored c st (buildCloudKey r) (cw_cloudKey r) p" for r p
      proof (cases "r = rec")
        case True
        with that under assms(5) e show ?thesis by (simp add: held_def)
      qed (rule keep [OF that(1) _ that(3)])
    qed (use same in simp_all)
  next
    case (marked t)
    show ?thesis
    proof (rule rowSafe_map [OF assms(3) marked(1)])
      fix r p
      assume r: "r \<in> set (os_rows st)" "ensureFileUnderRoot pf (cw_filePath r) = Inr p"
        "held cf stored c st (buildCloudKey r) (cw_cloudKey r) p"
      show "held cf stored c st' (buildCloudKey r) (cw_cloudKey (if cw_id r = cw_id rec
              then r\<lparr>cw_cloudKey := Some (buildCloudKey rec), cw_cloudUploadedAt := Some t\<rparr> else r)) p"
      proof (cases "r = rec")
        case True
        then have "stored (os_world st') (fullKey cf (buildCloudKey rec)) = Some c" using r under marked(2) by auto
        moreover have "map_of (os_files st) p = Some c" using True r(3) assms(5) by (simp add: held_def)
        ultimately show ?thesis using True e by (simp add: held_def)
      next
        case False
        then have "cw_id r \<noteq> cw_id rec" using wfRowsD(1) [OF wf r(1) assms(4)] by blast
        with keep [OF r(1) False r(3)] show ?thesis by simp
      qed
    qed (simp add: sameRow_def)
  qed
qed

lemma uploadLoop_safe:
  assumes "s3Service rt cf stored parts" "rowSafe pf cf stored r0 c st" "distinct (map cw_id recs)"
    and "\<forall>rec\<in>set recs. rec \<in> set (os_rows st) \<and> cw_cloudKey rec = None"
  shows "rowSafe pf cf stored r0 c (snd (uploadLoop rt pf fl cf recs st))"
  using assms(2-4)
proof (induction recs arbitrary: st)
  case (Cons rec recs)
  obtain oc st1 where one: "uploadOne rt pf fl cf rec st = (oc, st1)" by fastforce
  have "rowSafe pf cf stored r0 c st1" using uploadOne_safe [OF assms(1) one Cons.prems(1)] Cons.prems(3) by simp
  moreover have "rec' \<in> set (os_rows st1) \<and> cw_cloudKey rec' = None" if "rec' \<in> set recs" for rec'
  proof -
    have r: "rec' \<in> set (os_rows st)" "cw_cloudKey rec' = None" using that Cons.prems(3) by simp_all
    have "cw_id rec' \<in> cw_id ` set recs" using that by simp
    then have "cw_id rec' \<noteq> cw_id rec" using Cons.prems(2) by auto
    with r have mem: "rec' \<in> set (map (\<lambda>r. if cw_id r = cw_id rec
        then r\<lparr>cw_cloudKey := Some (buildCloudKey rec), cw_cloudUploadedAt := Some t\<rparr> else r) (os_rows st))" for t
      unfolding set_map by (intro image_eqI [of _ _ rec']) simp_all
    from uploadOne_effect [OF assms(1) one] consider "os_rows st1 = os_rows st"
      | t where "os_rows st1 = map (\<lambda>r. if cw_id r = cw_id rec
        then r\<lparr>cw_cloudKey := Some (buildCloudKey rec), cw_cloudUploadedAt := Some t\<rparr> else r) (os_rows st)" by blast
    then have "rec' \<in> set (os_rows st1)" using r(1) mem by cases (simp_all only:)
    with r(2) show ?thesis by blast
  qed
  ultimately show ?case using Cons.IH [of st1] Cons.prems(2) one by (simp add: Let_def split_beta)
qed simp

lemma pruneOne_effect:
  assumes "pruneOne rt pf fl rec st = (oc, st')"
  obtains "st' = st"
    | p f where "ensureFileUnderRoot pf (cw_filePath rec) = Inr p"
        "st' = st\<lparr>os_files := AList.delete p (os_files st), os_rows := map f (os_rows st)\<rparr>"
        "\<And>r. f r = r \<or> cw_id r = cw_id rec \<and> f r = r\<lparr>cw_localDeletedAt := Some (rt_clock rt (os_world st))\<rparr>"
proof (cases "\<exists>p. ensureFileUnderRoot pf (cw_filePath rec) = Inr p \<and> \<not> (map_of (os_files st) p \<noteq> None \<and> xf_unlink fl p)")
  case False
  with assms have "st' = st" by (auto simp: pruneOne_def split: sum.splits if_splits)
  then show thesis by (rule that(1))
next
  case True
  then obtain p where p: "ensureFileUnderRoot pf (cw_filePath rec) = Inr p" "\<not> (map_of (os_files st) p \<noteq> None \<and> xf_unlink fl p)"
    by blast
  let ?f = "\<lambda>r. if xf_update fl (cw_id rec) \<or> cw_id r \<noteq> cw_id rec then r
      else r\<lparr>cw_localDeletedAt := Some (rt_clock rt (os_world st))\<rparr>"
  have "st' = st\<lparr>os_files := AList.delete p (os_files st), os_rows := map ?f (os_rows st)\<rparr>"
    using assms p by (auto simp: pruneOne_def updateRow_def Let_def split: if_splits)
  then show thesis by (intro that(2) [OF p(1), of ?f]) simp_all
qed

lemma marked_same:
  "r' = r \<or> x \<and> r' = r\<lparr>cw_localDeletedAt := v\<rparr> \<Longrightarrow> sameRow r r' \<and> cw_cloudKey r' = cw_cloudKey r"
  by (elim disjE conjE) (simp_all add: sameRow_def)

lemma pruneOne_safe:
  assumes "rowSafe pf cf stored r0 c st" "pruneOne rt pf fl rec st = (oc, st')"
    and "rec \<in> set (os_rows st) \<or> (\<exists>r\<in>set (os_rows st). sameRow rec r \<and> cw_cloudKey r \<noteq> None)" "cw_cloudKey rec \<noteq> None"
  shows "rowSafe pf cf stored r0 c st'"
proof -
  have wf: "wfRows pf (os_rows st)" using assms(1) by (simp add: rowSafe_def)
  from assms(3,4) obtain r0 where r0: "r0 \<in> set (os_rows st)" "sameRow rec r0" "cw_cloudKey r0 \<noteq> None" by auto
  from assms(2) show ?thesis
  proof (cases rule: pruneOne_effect)
    case 1
    with assms(1) show ?thesis by simp
  next
    case (2 q f)
    have gone: "ensureFileUnderRoot pf (cw_filePath rec) = Inr q" "os_files st' = AList.delete q (os_files st)"
      "os_rows st' = map f (os_rows st)" "os_world st' = os_world st" using 2(1,2) by simp_all
    have same: "sameRow r (f r)" "cw_cloudKey (f r) = cw_cloudKey r" for r using marked_same [OF 2(3) [of r]] by simp_all
    show ?thesis
    proof (rule rowSafe_map [OF assms(1) gone(3)])
      show "held cf stored c st' (buildCloudKey r) (cw_cloudKey (f r)) p"
        if "r \<in> set (os_rows st)" "ensureFileUnderRoot pf (cw_filePath r) = Inr p" "held cf stored c st (buildCloudKey r) (cw_cloudKey r) p" for r p
      proof (cases "p = q")
        case True
        then have "r = r0" using wfRowsD(3) [OF wf that(1) r0(1)] that(2) gone(1) r0(2) by (simp add: sameRow_def)
        with r0(3) that(3) gone(2,4) same True show ?thesis by (auto simp: held_def delete_conv')
      next
        case False
        have "held cf stored c st' (buildCloudKey r) (cw_cloudKey r) p"
          using False gone(2,4) by (intro held_keep [OF that(3)]) (simp_all add: delete_conv')
        with same show ?thesis by simp
      qed
    qed (rule same)
  qed
qed

lemma pruneOne_rows:
  assumes "pruneOne rt pf fl rec st = (oc, st')" "r \<in> set (os_rows st)"
  obtains r' where "r' \<in> set (os_rows st')" "sameRow r r'" "cw_cloudKey r' = cw_cloudKey r"
  using assms(1)
proof (cases rule: pruneOne_effect)
  case 1
  with assms(2) show thesis by (intro that [of r]) simp_all
next
  case (2 p f)
  then have "sameRow r (f r)" "cw_cloudKey (f r) = cw_cloudKey r" using marked_same [OF 2(3) [of r]] by simp_all
  with 2(2) assms(2) show thesis by (intro that [of "f r"]) simp_all
qed

lemma pruneLoop_safe:
  assumes "rowSafe pf cf stored r0 c st"
    and "\<forall>rec\<in>set recs. cw_cloudKey rec \<noteq> None \<and> (\<exists>r\<in>set (os_rows st). sameRow rec r \<and> cw_cloudKey r \<noteq> None)"
  shows "rowSafe pf cf stored r0 c (snd (pruneLoop rt pf fl recs st))"
  using assms
proof (induction recs arbitrary: st)
  case (Cons rec recs)
  obtain oc st1 where one: "pruneOne rt pf fl rec st = (oc, st1)" by fastforce
  have "rowSafe pf cf stored r0 c st1"
    using Cons.prems by (intro pruneOne_safe [OF Cons.prems(1) one]) simp_all
  moreover have "\<exists>r\<in>set (os_rows st1). sameRow rec' r \<and> cw_cloudKey r \<noteq> None" if "rec' \<in> set recs" for rec'
  proof -
    from that Cons.prems(2) obtain r where "r \<in> set (os_rows st)" "sameRow rec' r" "cw_cloudKey r \<noteq> None" by auto
    with pruneOne_rows [OF one this(1)] show ?thesis using sameRow_trans by metis
  qed
  ultimately have "rowSafe pf cf stored r0 c (snd (pruneLoop rt pf fl recs st1))" using Cons.IH [of st1] Cons.prems(2) by simp
  with one \<open>rowSafe pf cf stored r0 c st1\<close> show ?case by (auto split: sum.splits prod.splits)
qed simp

lemma rowSafe_cong:
  assumes "os_rows st' = os_rows st" "os_files st' = os_files st" "os_world st' = os_world st"
  shows "rowSafe pf cf stored r0 c st' = rowSafe pf cf stored r0 c st"
  by (simp only: rowSafe_def held_def assms)

lemma rowSafe_running: "rowSafe pf cf stored r0 c (st\<lparr>os_running := x\<rparr>) = rowSafe pf cf stored r0 c st"
  by (rule rowSafe_cong) simp_all

lemma runOnce_safe:
  assumes "s3Service rt (cc_s3 cfg) stored parts" "rowSafe pf (cc_s3 cfg) stored r0 c st"
  shows "rowSafe pf (cc_s3 cfg) stored r0 c (snd (runOnce rt pf fl env (Some cfg) st))"
proof -
  let ?st = "st\<lparr>os_running := True\<rparr>"
  obtain n st1 where u: "uploadPending rt pf fl env (cc_s3 cfg) ?st = (n, st1)" by fastforce
  obtain m st2 where p: "pruneUploaded rt pf fl cfg st1 = (m, st2)" by fastforce
  have s: "rowSafe pf (cc_s3 cfg) stored r0 c ?st" using assms(2) by (simp add: rowSafe_running)
  have d: "distinct (map cw_id (pendentes (getPolicy ?st) (batchSize env) ?st))"
    using s by (auto simp: pendentes_def rowSafe_def wfRows_def take_map [symmetric] intro: distinct_take distinct_map_filter)
  have q: "\<forall>rec\<in>set (pendentes (getPolicy ?st) (batchSize env) ?st). rec \<in> set (os_rows ?st) \<and> cw_cloudKey rec = None"
    by (auto simp: pendentes_def dest!: in_set_takeD)
  have s1: "rowSafe pf (cc_s3 cfg) stored r0 c st1"
    using uploadLoop_safe [OF assms(1) s d q, of fl] u s by (auto simp: uploadPending_def Let_def split: if_splits)
  have "\<forall>rec\<in>set (candidatas now h st1). cw_cloudKey rec \<noteq> None \<and> (\<exists>r\<in>set (os_rows st1). sameRow rec r \<and> cw_cloudKey r \<noteq> None)" for now h
    by (auto simp: candidatas_def dest!: in_set_takeD intro: sameRow_refl)
  from pruneLoop_safe [OF s1 this] s1 have "rowSafe pf (cc_s3 cfg) stored r0 c (snd (pruneUploaded rt pf fl cfg st1))"
    by (auto simp: pruneUploaded_def Let_def)
  with p have "rowSafe pf (cc_s3 cfg) stored r0 c st2" by simp
  with assms(2) u p show ?thesis
    by (auto simp: runOnce_def Let_def rowSafe_running split: prod.splits sum.splits)
qed

section \<open>Runs\<close>

text \<open>A pass, with any faults and any environment; a new policy; a recording that is closed, with a file of its own.\<close>

inductive offStep :: "'b s3Runtime \<Rightarrow> platform \<Rightarrow> cloudStorageConfig \<Rightarrow> 'b offState \<Rightarrow> 'b offState \<Rightarrow> bool"
  for rt pf cfg where
  pass: "offStep rt pf cfg st (snd (runOnce rt pf fl env (Some cfg) st))"
| policy: "offStep rt pf cfg st (snd (setPolicy j st))"
| recorded: "\<lbrakk>wfRows pf (os_rows st @ [r]); cw_cloudKey r = None; cw_cloudUploadedAt r = None; cw_localDeletedAt r = None;
      ensureFileUnderRoot pf (cw_filePath r) = Inr p\<rbrakk> \<Longrightarrow>
    offStep rt pf cfg st (st\<lparr>os_rows := os_rows st @ [r], os_files := AList.update p c (os_files st)\<rparr>)"

inductive_cases offStepE: "offStep rt pf cfg st st'"

lemma rowSafe_recorded:
  assumes "rowSafe pf cf stored r0 c st" "wfRows pf (os_rows st @ [r])" "ensureFileUnderRoot pf (cw_filePath r) = Inr p"
  shows "rowSafe pf cf stored r0 c (st\<lparr>os_rows := os_rows st @ [r], os_files := AList.update p d (os_files st)\<rparr>)"
proof -
  from assms(1) obtain r1 q where r1: "r1 \<in> set (os_rows st)" "sameRow r0 r1" "ensureFileUnderRoot pf (cw_filePath r1) = Inr q"
    "held cf stored c st (buildCloudKey r1) (cw_cloudKey r1) q" unfolding rowSafe_def by blast
  have "distinct (map cw_id (os_rows st @ [r]))" using assms(2) unfolding wfRows_def by (rule conjunct1)
  then have "cw_id r1 \<noteq> cw_id r" using imageI [OF r1(1), of cw_id] by auto
  moreover have "r1 = r" if "p = q" using wfRowsD(3) [OF assms(2), of r1 r q] r1(1,3) assms(3) that by simp
  ultimately have "p \<noteq> q" by blast
  then have "held cf stored c (st\<lparr>os_rows := os_rows st @ [r], os_files := AList.update p d (os_files st)\<rparr>) (buildCloudKey r1) (cw_cloudKey r1) q"
    by (intro held_keep [OF r1(4)]) (simp_all add: update_conv')
  with r1(1-3) assms(2) show ?thesis
    unfolding rowSafe_def by (intro conjI bexI [of _ r1] exI [of _ q]) simp_all
qed

interpretation off: step_invariant "rowSafe pf (cc_s3 cfg) stored r0 c" "offStep rt pf cfg"
    "\<lambda>st. s3Service rt (cc_s3 cfg) stored parts \<longrightarrow> rowSafe pf (cc_s3 cfg) stored r0 c st"
  for rt pf cfg stored parts r0 c
proof
  show "s3Service rt (cc_s3 cfg) stored parts \<longrightarrow> rowSafe pf (cc_s3 cfg) stored r0 c t"
    if "s3Service rt (cc_s3 cfg) stored parts \<longrightarrow> rowSafe pf (cc_s3 cfg) stored r0 c s" "offStep rt pf cfg s t" for s t
    using that(2)
  proof cases
    case (pass fl env)
    with that(1) runOnce_safe show ?thesis by blast
  next
    case (policy j)
    then have "rowSafe pf (cc_s3 cfg) stored r0 c t = rowSafe pf (cc_s3 cfg) stored r0 c s"
      by (intro rowSafe_cong) (simp_all add: setPolicy_def Let_def)
    with that(1) show ?thesis by simp
  next
    case (recorded r p d)
    with that(1) rowSafe_recorded show ?thesis by blast
  qed
qed simp

section \<open>Properties\<close>

text \<open>
  Property C5. No recording is lost to the cloud. With a service that keeps the S3 protocol - which may answer the
  completion of an upload with success although it stored nothing -, through any number of passes with any failures of
  disk, network and database, changes of the policy and new recordings, a recording whose file was on disk has its row and
  its whole content still: on disk, or in the bucket under the key that the row names; and once the row is marked as
  uploaded, the content is in the bucket. It is assumed that nothing but this content lies under the key of the recording
  at first, and that nobody but this program writes to the bucket; the rows have distinct identifiers and files.
\<close>

theorem offload_never_loses:
  assumes "s3Service rt (cc_s3 cfg) stored parts" "wfRows pf (os_rows st)" "r \<in> set (os_rows st)"
    and "ensureFileUnderRoot pf (cw_filePath r) = Inr p" "map_of (os_files st) p = Some c" "cw_cloudKey r = None"
    and "stored (os_world st) (fullKey (cc_s3 cfg) (buildCloudKey r)) \<in> {None, Some c}"
    and "reachable (\<lambda>s. s = st) (offStep rt pf cfg) st'"
  shows "\<exists>r'\<in>set (os_rows st'). sameRow r r'
    \<and> (map_of (os_files st') p = Some c \<or> map_of (os_files st') p = None \<and> cw_cloudKey r' \<noteq> None)
    \<and> (\<forall>k. cw_cloudKey r' = Some k \<longrightarrow> stored (os_world st') (fullKey (cc_s3 cfg) k) = Some c)"
proof -
  have "rowSafe pf (cc_s3 cfg) stored r c st"
    unfolding rowSafe_def held_def using assms(2-7) by (intro conjI bexI [of _ r] exI [of _ p]) simp_all
  then have "reachable (rowSafe pf (cc_s3 cfg) stored r c) (offStep rt pf cfg) st'"
    by (rule reachable_from [OF assms(8)])
  from off.reachable_inv [OF this] assms(1) have "rowSafe pf (cc_s3 cfg) stored r c st'" by blast
  then obtain r' q where r': "r' \<in> set (os_rows st')" "sameRow r r'" "ensureFileUnderRoot pf (cw_filePath r') = Inr q"
    "held (cc_s3 cfg) stored c st' (buildCloudKey r') (cw_cloudKey r') q" unfolding rowSafe_def by blast
  have "q = p" using r'(2,3) assms(4) by (simp add: sameRow_def)
  with r' show ?thesis by (intro bexI [of _ r']) (auto simp: held_def split: if_splits)
qed

definition localPlatform :: platform where
  "localPlatform = \<lparr>pf_root = [''r''], pf_canonical = (\<lambda>p. p), pf_newId = (\<lambda>_. []), pf_stamp = [],
     pf_faults = \<lparr>ft_rename = (\<lambda>_ _. True), ft_sync = True, ft_rm = True\<rparr>, pf_txFails = (\<lambda>_. False),
     pf_removeFails = (\<lambda>_. False), pf_usage = (\<lambda>_. None), pf_motionColumn = True\<rparr>"

definition noFaults :: offFaults where
  "noFaults = \<lparr>xf_open = (\<lambda>_. False), xf_read = (\<lambda>_. False), xf_unlink = (\<lambda>_. False), xf_update = (\<lambda>_. False)\<rparr>"

definition directConfig :: cloudStorageConfig where
  "directConfig = \<lparr>cc_mode = Mount, cc_localWindowHours = 0, cc_s3 = bucketConfig\<rparr>"

definition cloudOn :: json where
  "cloudOn = JObj [(''enabled'', JStr ''1'')]"

definition closedRow :: "string \<Rightarrow> cloudRow" where
  "closedRow i = \<lparr>cw_id = i, cw_cameraId = ''cam'', cw_filePath = ''cam/'' @ i @ ''.mp4'', cw_triggerMode = Some ''motion'',
     cw_cloudKey = None, cw_cloudUploadedAt = None, cw_localDeletedAt = None\<rparr>"

definition twoRecordings :: "bucketWorld offState" where
  "twoRecordings = \<lparr>os_rows = [closedRow ''a'', closedRow ''z''], os_files = [([''r'', ''cam'', ''z.mp4''], ''video'')],
     os_policy = Some (Some cloudOn), os_running = False, os_world = emptyBucket\<rparr>"

lemma twoRecordings_wf: "wfRows localPlatform (os_rows twoRecordings)"
proof -
  have e: "ensureFileUnderRoot localPlatform (cw_filePath (closedRow ''a'')) = Inr [''r'', ''cam'', ''a.mp4'']"
    "ensureFileUnderRoot localPlatform (cw_filePath (closedRow ''z'')) = Inr [''r'', ''cam'', ''z.mp4'']" by code_simp+
  show ?thesis unfolding wfRows_def by (simp add: twoRecordings_def e) (simp add: closedRow_def)
qed

definition onePass :: "bucketWorld offState" where
  "onePass = snd (runOnce bucketRuntime localPlatform noFaults (\<lambda>_. None) (Some directConfig) twoRecordings)"

theorem offload_never_loses_witness:
  "map cw_cloudKey (os_rows onePass) = [None, Some ''recordings/cam/z.mp4'']
   \<and> (\<exists>r'\<in>set (os_rows onePass). sameRow (closedRow ''z'') r'
        \<and> (\<forall>k. cw_cloudKey r' = Some k \<longrightarrow> bucketStored (os_world onePass) (fullKey bucketConfig k) = Some ''video''))"
proof -
  have cfg: "cc_s3 directConfig = bucketConfig" by (simp add: directConfig_def)
  have e: "ensureFileUnderRoot localPlatform (cw_filePath (closedRow ''z'')) = Inr [''r'', ''cam'', ''z.mp4'']"
    "map_of (os_files twoRecordings) [''r'', ''cam'', ''z.mp4''] = Some ''video''" "cw_cloudKey (closedRow ''z'') = None" by code_simp+
  have m: "closedRow ''z'' \<in> set (os_rows twoRecordings)" by (simp add: twoRecordings_def)
  have "reachable (\<lambda>s. s = twoRecordings) (offStep bucketRuntime localPlatform directConfig) twoRecordings"
    by (simp add: reach_start)
  then have run: "reachable (\<lambda>s. s = twoRecordings) (offStep bucketRuntime localPlatform directConfig) onePass"
    unfolding onePass_def using offStep.pass by (rule reach_step)
  have new: "bucketStored (os_world twoRecordings) (fullKey (cc_s3 directConfig) (buildCloudKey (closedRow ''z''))) \<in> {None, Some ''video''}"
    by (simp add: twoRecordings_def bucketStored_def emptyBucket_def)
  from offload_never_loses [OF bucket_service [folded cfg] twoRecordings_wf m e new run]
  have "\<exists>r'\<in>set (os_rows onePass). sameRow (closedRow ''z'') r'
        \<and> (\<forall>k. cw_cloudKey r' = Some k \<longrightarrow> bucketStored (os_world onePass) (fullKey bucketConfig k) = Some ''video'')"
    unfolding cfg by blast
  moreover have "map cw_cloudKey (os_rows onePass) = [None, Some ''recordings/cam/z.mp4'']" by code_simp
  ultimately show ?thesis by blast
qed

section \<open>Marks and policy\<close>

text \<open>What a loop over rows may do to the marks of the rows it was given.\<close>

lemma uploadOne_rows:
  assumes "uploadOne rt pf fl cf rec st = (oc, st')"
  obtains "os_rows st' = os_rows st"
    | t where "os_rows st' = map (\<lambda>r. if cw_id r = cw_id rec
        then r\<lparr>cw_cloudKey := Some (buildCloudKey rec), cw_cloudUploadedAt := Some t\<rparr> else r) (os_rows st)"
  using assms
  by (auto simp: uploadOne_def updateRow_def Let_def simp del: map_eq_conv split: sum.splits option.splits if_splits prod.splits)

lemma uploadOne_policy: "uploadOne rt pf fl cf rec st = (oc, st') \<Longrightarrow> os_policy st' = os_policy st"
  by (auto simp: uploadOne_def updateRow_def Let_def split: sum.splits option.splits if_splits prod.splits)

lemma uploadLoop_rows:
  "\<exists>f. os_rows (snd (uploadLoop rt pf fl cf recs st)) = map f (os_rows st)
     \<and> (\<forall>r. f r = r \<or> cw_id r \<in> cw_id ` set recs \<and> (\<exists>k t. f r = r\<lparr>cw_cloudKey := Some k, cw_cloudUploadedAt := Some t\<rparr>))
     \<and> os_policy (snd (uploadLoop rt pf fl cf recs st)) = os_policy st"
proof (induction recs arbitrary: st)
  case Nil
  show ?case by (intro exI [of _ "\<lambda>r. r"]) simp
next
  case (Cons rec recs)
  obtain oc st1 where one: "uploadOne rt pf fl cf rec st = (oc, st1)" by fastforce
  have "\<exists>g. os_rows st1 = map g (os_rows st)
      \<and> (\<forall>r. g r = r \<or> cw_id r = cw_id rec \<and> (\<exists>k t. g r = r\<lparr>cw_cloudKey := Some k, cw_cloudUploadedAt := Some t\<rparr>))"
    using one
  proof (cases rule: uploadOne_rows)
    case 1
    then show ?thesis by (intro exI [of _ "\<lambda>r. r"]) simp
  next
    case (2 t)
    show ?thesis
    proof (intro exI conjI)
      show "os_rows st1 = map (\<lambda>r. if cw_id r = cw_id rec
        then r\<lparr>cw_cloudKey := Some (buildCloudKey rec), cw_cloudUploadedAt := Some t\<rparr> else r) (os_rows st)" by (rule 2)
    qed auto
  qed
  then obtain g where g: "os_rows st1 = map g (os_rows st)"
    "\<And>r. g r = r \<or> cw_id r = cw_id rec \<and> (\<exists>k t. g r = r\<lparr>cw_cloudKey := Some k, cw_cloudUploadedAt := Some t\<rparr>)" by blast
  from Cons.IH [of st1] obtain f where f: "os_rows (snd (uploadLoop rt pf fl cf recs st1)) = map f (os_rows st1)"
    "\<And>r. f r = r \<or> cw_id r \<in> cw_id ` set recs \<and> (\<exists>k t. f r = r\<lparr>cw_cloudKey := Some k, cw_cloudUploadedAt := Some t\<rparr>)"
    "os_policy (snd (uploadLoop rt pf fl cf recs st1)) = os_policy st1" by blast
  have "f (g r) = r \<or> cw_id r \<in> cw_id ` set (rec # recs)
      \<and> (\<exists>k t. f (g r) = r\<lparr>cw_cloudKey := Some k, cw_cloudUploadedAt := Some t\<rparr>)" for r
    using f(2) [of "g r"] g(2) [of r] by (elim disjE conjE exE) (simp_all, blast+)
  with f(1,3) g(1) one uploadOne_policy [OF one] show ?case
    by (intro exI [of _ "\<lambda>r. f (g r)"]) (simp add: Let_def split_beta comp_def)
qed

lemma pruneLoop_rows:
  "\<exists>f. os_rows (snd (pruneLoop rt pf fl recs st)) = map f (os_rows st)
     \<and> (\<forall>r. f r = r \<or> cw_id r \<in> cw_id ` set recs \<and> (\<exists>t. f r = r\<lparr>cw_localDeletedAt := Some t\<rparr>))"
proof (induction recs arbitrary: st)
  case Nil
  show ?case by (intro exI [of _ "\<lambda>r. r"]) simp
next
  case (Cons rec recs)
  obtain oc st1 where one: "pruneOne rt pf fl rec st = (oc, st1)" by fastforce
  have "\<exists>g. os_rows st1 = map g (os_rows st) \<and> (\<forall>r. g r = r \<or> cw_id r = cw_id rec \<and> (\<exists>t. g r = r\<lparr>cw_localDeletedAt := Some t\<rparr>))"
    using one
  proof (cases rule: pruneOne_effect)
    case 1
    then show ?thesis by (intro exI [of _ "\<lambda>r. r"]) simp
  next
    case (2 p f)
    then show ?thesis by (intro exI [of _ f]) auto
  qed
  then obtain g where g: "os_rows st1 = map g (os_rows st)"
    "\<And>r. g r = r \<or> cw_id r = cw_id rec \<and> (\<exists>t. g r = r\<lparr>cw_localDeletedAt := Some t\<rparr>)" by blast
  from Cons.IH [of st1] obtain f where f: "os_rows (snd (pruneLoop rt pf fl recs st1)) = map f (os_rows st1)"
    "\<And>r. f r = r \<or> cw_id r \<in> cw_id ` set recs \<and> (\<exists>t. f r = r\<lparr>cw_localDeletedAt := Some t\<rparr>)" by blast
  have fg: "f (g r) = r \<or> cw_id r \<in> cw_id ` set (rec # recs) \<and> (\<exists>t. f (g r) = r\<lparr>cw_localDeletedAt := Some t\<rparr>)" for r
    using f(2) [of "g r"] g(2) [of r] by (elim disjE conjE exE) (simp_all, blast+)
  show ?case
  proof (cases oc)
    case (Inl e)
    with one g show ?thesis by (intro exI [of _ g]) (simp, meson image_eqI list.set_intros(1))
  next
    case (Inr b)
    with one have "os_rows (snd (pruneLoop rt pf fl (rec # recs) st)) = os_rows (snd (pruneLoop rt pf fl recs st1))"
      by (simp split: prod.split sum.split)
    with f(1) g(1) fg show ?thesis by (intro exI [of _ "\<lambda>r. f (g r)"]) (simp add: comp_def)
  qed
qed

definition modeAllowed :: "storagePolicy \<Rightarrow> cloudRow \<Rightarrow> bool" where
  "modeAllowed pol r \<longleftrightarrow> (\<exists>m. cw_triggerMode r = Some (modeName m) \<and> sp_triggerModes pol m)"

text \<open>A pass, row by row.\<close>

definition rowPass :: "cloudStorageConfig \<Rightarrow> storagePolicy \<Rightarrow> cloudRow \<Rightarrow> cloudRow \<Rightarrow> bool" where
  "rowPass cfg pol r r' \<longleftrightarrow> sameRow r r'
     \<and> (cw_cloudKey r' = cw_cloudKey r \<and> cw_cloudUploadedAt r' = cw_cloudUploadedAt r
        \<or> cw_cloudKey r = None \<and> cw_cloudKey r' \<noteq> None \<and> cw_cloudUploadedAt r' \<noteq> None \<and> sp_enabled pol
          \<and> modeAllowed pol r)
     \<and> (cw_localDeletedAt r' = cw_localDeletedAt r
        \<or> cw_cloudKey r' \<noteq> None \<and> (cc_mode cfg = Mount \<or> \<not> sp_keepLocalCopy pol))"

lemma distinct_same_id: "distinct (map cw_id rows) \<Longrightarrow> r \<in> set rows \<Longrightarrow> r' \<in> set rows \<Longrightarrow> cw_id r = cw_id r' \<Longrightarrow> r = r'"
  by (auto simp: distinct_map inj_on_def)

lemma pendentesD:
  assumes "r \<in> set (pendentes pol n st)"
  shows "r \<in> set (os_rows st)" "cw_cloudKey r = None" "modeAllowed pol r"
proof -
  have r: "r \<in> set (os_rows st)" "cw_cloudKey r = None"
    "case cw_triggerMode r of None \<Rightarrow> False | Some t \<Rightarrow> t \<in> set (map modeName (enabledTriggerModes pol))"
    using in_set_takeD [OF assms [unfolded pendentes_def]] by simp_all
  then obtain m where "cw_triggerMode r = Some (modeName m)" "sp_triggerModes pol m"
    by (auto simp: enabledTriggerModes_def split: option.splits)
  then show "modeAllowed pol r" unfolding modeAllowed_def by blast
qed (use in_set_takeD [OF assms [unfolded pendentes_def]] in simp_all)

lemma uploadPending_rows:
  assumes "distinct (map cw_id (os_rows st))" "uploadPending rt pf fl env cf st = (n, st')"
  shows "\<exists>f. os_rows st' = map f (os_rows st) \<and> os_policy st' = os_policy st
    \<and> (\<forall>r\<in>set (os_rows st). f r = r \<or> cw_cloudKey r = None \<and> sp_enabled (getPolicy st)
         \<and> modeAllowed (getPolicy st) r
         \<and> (\<exists>k t. f r = r\<lparr>cw_cloudKey := Some k, cw_cloudUploadedAt := Some t\<rparr>))"
proof (cases "sp_enabled (getPolicy st) \<and> enabledTriggerModes (getPolicy st) \<noteq> []")
  case False
  with assms(2) have "st' = st" by (auto simp: uploadPending_def Let_def split: if_splits)
  then show ?thesis by (intro exI [of _ "\<lambda>r. r"]) simp
next
  case True
  let ?recs = "pendentes (getPolicy st) (batchSize env) st"
  have st': "st' = snd (uploadLoop rt pf fl cf ?recs st)" using True assms(2) by (simp add: uploadPending_def Let_def)
  from uploadLoop_rows [of rt pf fl cf ?recs st] obtain f where f: "os_rows st' = map f (os_rows st)" "os_policy st' = os_policy st"
    "\<And>r. f r = r \<or> cw_id r \<in> cw_id ` set ?recs \<and> (\<exists>k t. f r = r\<lparr>cw_cloudKey := Some k, cw_cloudUploadedAt := Some t\<rparr>)"
    unfolding st' by blast
  have "r \<in> set ?recs" if "r \<in> set (os_rows st)" "cw_id r \<in> cw_id ` set ?recs" for r
  proof -
    from that(2) obtain x where "x \<in> set ?recs" "cw_id r = cw_id x" by blast
    with distinct_same_id [OF assms(1) that(1)] pendentesD(1) show ?thesis by blast
  qed
  with f(3) pendentesD(2,3) True have "f r = r \<or> cw_cloudKey r = None \<and> sp_enabled (getPolicy st)
         \<and> modeAllowed (getPolicy st) r
         \<and> (\<exists>k t. f r = r\<lparr>cw_cloudKey := Some k, cw_cloudUploadedAt := Some t\<rparr>)" if "r \<in> set (os_rows st)" for r
    using that by blast
  with f(1,2) show ?thesis by blast
qed

lemma pruneUploaded_rows:
  assumes "distinct (map cw_id (os_rows st))" "pruneUploaded rt pf fl cfg st = (n, st')"
  shows "\<exists>f. os_rows st' = map f (os_rows st)
    \<and> (\<forall>r\<in>set (os_rows st). f r = r \<or> cw_cloudKey r \<noteq> None \<and> (cc_mode cfg = Mount \<or> \<not> sp_keepLocalCopy (getPolicy st))
         \<and> (\<exists>t. f r = r\<lparr>cw_localDeletedAt := Some t\<rparr>))"
proof (cases "sp_keepLocalCopy (getPolicy st) \<and> cc_mode cfg \<noteq> Mount")
  case True
  with assms(2) have "st' = st" by (simp add: pruneUploaded_def Let_def)
  then show ?thesis by (intro exI [of _ "\<lambda>r. r"]) simp
next
  case False
  define recs where "recs = candidatas (rt_clock rt (os_world st)) (if cc_mode cfg = Mount then 0 else cc_localWindowHours cfg) st"
  have st': "st' = snd (pruneLoop rt pf fl recs st)" using False assms(2) by (auto simp: pruneUploaded_def Let_def recs_def)
  from pruneLoop_rows [of rt pf fl recs st] obtain f where f: "os_rows st' = map f (os_rows st)"
    "\<And>r. f r = r \<or> cw_id r \<in> cw_id ` set recs \<and> (\<exists>t. f r = r\<lparr>cw_localDeletedAt := Some t\<rparr>)" unfolding st' by blast
  have c: "x \<in> set (os_rows st) \<and> cw_cloudKey x \<noteq> None" if "x \<in> set recs" for x
    using that by (auto simp: recs_def candidatas_def dest!: in_set_takeD)
  have "cw_cloudKey r \<noteq> None" if "r \<in> set (os_rows st)" "cw_id r \<in> cw_id ` set recs" for r
  proof -
    from that(2) obtain x where "x \<in> set recs" "cw_id r = cw_id x" by blast
    with distinct_same_id [OF assms(1) that(1)] c show ?thesis by blast
  qed
  with f False show ?thesis by (intro exI [of _ f]) blast
qed

lemma rowPass_compose:
  assumes "r1 = r \<or> cw_cloudKey r = None \<and> sp_enabled pol \<and> modeAllowed pol r
      \<and> (\<exists>k t. r1 = r\<lparr>cw_cloudKey := Some k, cw_cloudUploadedAt := Some t\<rparr>)"
    and "r2 = r1 \<or> cw_cloudKey r1 \<noteq> None \<and> (cc_mode cfg = Mount \<or> \<not> sp_keepLocalCopy pol) \<and> (\<exists>t. r2 = r1\<lparr>cw_localDeletedAt := Some t\<rparr>)"
  shows "rowPass cfg pol r r2"
  using assms by (elim disjE conjE exE) (simp_all add: rowPass_def sameRow_def)

lemma runOnce_rows:
  assumes "distinct (map cw_id (os_rows st))"
  shows "\<exists>f. os_rows (snd (runOnce rt pf fl env (Some cfg) st)) = map f (os_rows st)
    \<and> (\<forall>r\<in>set (os_rows st). rowPass cfg (getPolicy st) r (f r))"
proof (cases "os_running st")
  case True
  then show ?thesis by (intro exI [of _ "\<lambda>r. r"]) (simp add: runOnce_def rowPass_def)
next
  case False
  let ?st = "st\<lparr>os_running := True\<rparr>"
  obtain n st1 where u: "uploadPending rt pf fl env (cc_s3 cfg) ?st = (n, st1)" by fastforce
  obtain m st2 where p: "pruneUploaded rt pf fl cfg st1 = (m, st2)" by fastforce
  have pol: "getPolicy ?st = getPolicy st" by (simp add: getPolicy_def)
  from uploadPending_rows [OF _ u] assms obtain f where f: "os_rows st1 = map f (os_rows st)" "os_policy st1 = os_policy st"
    "\<And>r. r \<in> set (os_rows st) \<Longrightarrow> f r = r \<or> cw_cloudKey r = None \<and> sp_enabled (getPolicy st)
         \<and> modeAllowed (getPolicy st) r
         \<and> (\<exists>k t. f r = r\<lparr>cw_cloudKey := Some k, cw_cloudUploadedAt := Some t\<rparr>)" unfolding pol by auto
  have id: "cw_id (f r) = cw_id r" if "r \<in> set (os_rows st)" for r using f(3) [OF that] by (elim disjE conjE exE) simp_all
  have "map cw_id (os_rows st1) = map cw_id (os_rows st)" unfolding f(1) using id by simp
  with assms have "distinct (map cw_id (os_rows st1))" by simp
  from pruneUploaded_rows [OF this p] obtain g where g: "os_rows st2 = map g (os_rows st1)"
    "\<And>r. r \<in> set (os_rows st1) \<Longrightarrow> g r = r \<or> cw_cloudKey r \<noteq> None \<and> (cc_mode cfg = Mount \<or> \<not> sp_keepLocalCopy (getPolicy st1))
         \<and> (\<exists>t. g r = r\<lparr>cw_localDeletedAt := Some t\<rparr>)" by blast
  have "getPolicy st1 = getPolicy st" using f(2) by (simp add: getPolicy_def)
  then have "rowPass cfg (getPolicy st) r (g (f r))" if "r \<in> set (os_rows st)" for r
    using rowPass_compose [OF f(3) [OF that]] g(2) [of "f r"] f(1) that by simp
  moreover have "os_rows (snd (runOnce rt pf fl env (Some cfg) st)) = map (\<lambda>r. g (f r)) (os_rows st)"
    using False u p f(1) g(1) by (simp add: runOnce_def Let_def split_beta comp_def split: sum.split)
  ultimately show ?thesis by blast
qed

section \<open>The marks of a row\<close>

text \<open>
  The type of a row's marks: the key and the time of the upload come together, and a local file is marked as
  removed only in a row that has a key.
\<close>

definition rowMarks :: "cloudRow \<Rightarrow> bool" where
  "rowMarks r \<longleftrightarrow> (cw_cloudKey r = None \<longleftrightarrow> cw_cloudUploadedAt r = None) \<and> (cw_localDeletedAt r \<noteq> None \<longrightarrow> cw_cloudKey r \<noteq> None)"

definition rowsTyped :: "'b offState \<Rightarrow> bool" where
  "rowsTyped st \<longleftrightarrow> distinct (map cw_id (os_rows st)) \<and> (\<forall>r\<in>set (os_rows st). rowMarks r)"

lemma rowPass_marks: "rowPass cfg pol r r' \<Longrightarrow> rowMarks r \<Longrightarrow> rowMarks r'"
  unfolding rowPass_def rowMarks_def by metis

lemma runOnce_typed:
  assumes "rowsTyped st"
  shows "rowsTyped (snd (runOnce rt pf fl env (Some cfg) st))"
proof -
  have d: "distinct (map cw_id (os_rows st))" and m: "\<And>r. r \<in> set (os_rows st) \<Longrightarrow> rowMarks r"
    using assms by (simp_all add: rowsTyped_def)
  from runOnce_rows [OF d, of rt pf fl env cfg] obtain f
    where f: "os_rows (snd (runOnce rt pf fl env (Some cfg) st)) = map f (os_rows st)"
      "\<And>r. r \<in> set (os_rows st) \<Longrightarrow> rowPass cfg (getPolicy st) r (f r)" by blast
  have "map cw_id (map f (os_rows st)) = map cw_id (os_rows st)"
    using f(2) by (simp add: rowPass_def sameRow_def)
  with d have "distinct (map cw_id (map f (os_rows st)))" by (simp only:)
  moreover have "rowMarks r'" if "r' \<in> set (map f (os_rows st))" for r'
    using that rowPass_marks [OF f(2)] m by auto
  ultimately show ?thesis unfolding rowsTyped_def f(1) by blast
qed

interpretation marks: step_invariant rowsTyped "offStep rt pf cfg" rowsTyped for rt pf cfg
proof
  show "rowsTyped t" if "rowsTyped s" "offStep rt pf cfg s t" for s t
    using that(2)
  proof cases
    case (pass fl env)
    with that(1) runOnce_typed show ?thesis by blast
  next
    case (policy j)
    with that(1) show ?thesis by (simp add: rowsTyped_def setPolicy_def Let_def)
  next
    case (recorded r p d)
    have "distinct (map cw_id (os_rows s @ [r]))" using recorded(2) unfolding wfRows_def by (rule conjunct1)
    with recorded that(1) show ?thesis by (auto simp: rowsTyped_def rowMarks_def)
  qed
qed

text \<open>
  Property C37. Typing of the table. Through any passes with any faults, changes of the policy and new recordings,
  the identifiers stay unique, every row has the key of its object exactly when it has the time of the upload, and a
  row whose local file is marked as removed names an object; so the page's three counts add up to the table and the
  recordings that are only in the cloud are among those in the cloud.
\<close>

theorem offload_rows_typed:
  assumes "rowsTyped st" "reachable (\<lambda>s. s = st) (offStep rt pf cfg) st'"
  shows "distinct (map cw_id (os_rows st'))
    \<and> (\<forall>r\<in>set (os_rows st'). (cw_cloudKey r = None \<longleftrightarrow> cw_cloudUploadedAt r = None) \<and> (cw_localDeletedAt r \<noteq> None \<longrightarrow> cw_cloudKey r \<noteq> None))
    \<and> (case summaryCounts st' of (inCloud, pending, cloudOnly) \<Rightarrow>
         inCloud + pending = length (os_rows st') \<and> cloudOnly \<le> inCloud
         \<and> cloudOnly = length (filter (\<lambda>r. cw_localDeletedAt r \<noteq> None) (os_rows st')))"
proof -
  have t: "rowsTyped st'" by (rule marks.reachable_inv [OF reachable_from [OF assms(2)]]) (rule assms(1))
  have only: "filter (\<lambda>r. cw_cloudKey r \<noteq> None \<and> cw_localDeletedAt r \<noteq> None) (os_rows st') = filter (\<lambda>r. cw_localDeletedAt r \<noteq> None) (os_rows st')"
    using t by (intro filter_cong) (auto simp: rowsTyped_def rowMarks_def)
  have le: "length (filter (\<lambda>r. P r \<and> Q r) xs) \<le> length (filter P xs)" for P Q and xs :: "cloudRow list"
    by (induction xs) simp_all
  have sum: "length (filter (\<lambda>r. cw_cloudKey r \<noteq> None) xs) + length (filter (\<lambda>r. cw_cloudKey r = None) xs) = length xs" for xs
    by (induction xs) simp_all
  have "case summaryCounts st' of (inCloud, pending, cloudOnly) \<Rightarrow>
      inCloud + pending = length (os_rows st') \<and> cloudOnly \<le> inCloud
      \<and> cloudOnly = length (filter (\<lambda>r. cw_localDeletedAt r \<noteq> None) (os_rows st'))"
    unfolding summaryCounts_def prod.case by (intro conjI sum le) (simp only: only)
  with t show ?thesis unfolding rowsTyped_def rowMarks_def by blast
qed

theorem offload_rows_typed_witness:
  "distinct (map cw_id (os_rows onePass)) \<and> summaryCounts onePass = (1, 1, 0)
   \<and> (case summaryCounts onePass of (inCloud, pending, cloudOnly) \<Rightarrow> inCloud + pending = length (os_rows onePass))"
proof -
  have "rowsTyped twoRecordings" by (simp add: rowsTyped_def rowMarks_def twoRecordings_def closedRow_def)
  moreover have "reachable (\<lambda>s. s = twoRecordings) (offStep bucketRuntime localPlatform directConfig) onePass"
    unfolding onePass_def using offStep.pass by (rule reach_step [rotated]) (simp add: reach_start)
  ultimately have "distinct (map cw_id (os_rows onePass))
      \<and> (case summaryCounts onePass of (inCloud, pending, cloudOnly) \<Rightarrow> inCloud + pending = length (os_rows onePass))"
    using offload_rows_typed [of twoRecordings bucketRuntime localPlatform directConfig onePass] by (auto split: prod.splits)
  moreover have "summaryCounts onePass = (1, 1, 0)" by code_simp
  ultimately show ?thesis by auto
qed

end
