(* ===== verification/Cloud_Offload_Policy.thy ===== *)
theory Cloud_Offload_Policy
  imports Cloud_Offload_Props
begin

text \<open>
  The offload and its policy: the policy is kept as it is set, a pass does no more than the policy allows and,
  when nothing fails, brings the queue down by a batch; and what the offload does not do of what it says of
  itself: rows without a file hold the queue, passes overlap, a shortened object is taken for the whole one.
\<close>

section \<open>The policy\<close>

lemma modeName_plain: "js_lower (js_trim (modeName m)) = modeName m"
proof -
  have "\<forall>m\<in>set TRIGGER_MODES. js_lower (js_trim (modeName m)) = modeName m" by code_simp
  then show ?thesis by (cases m) (simp_all add: TRIGGER_MODES_def)
qed

lemma modeOf_modeName: "modeOf (modeName m) = Some m"
  by (cases m) (simp_all add: TRIGGER_MODES_def)

lemma decideUpload_mode:
  "decideUpload pol (Some (modeName m)) =
     (if \<not> sp_enabled pol then NoUpload CloudOff
      else if \<not> sp_triggerModes pol m then NoUpload (ModeOff (modeName m)) else Upload (\<not> sp_keepLocalCopy pol))"
  unfolding decideUpload_def Let_def by (simp add: modeName_plain modeOf_modeName del: modeOf.simps)

lemma policyJson_fields:
  "objField (Some (policyJson p)) ''enabled'' = Some (JBool (sp_enabled p))"
  "objField (Some (policyJson p)) ''keepLocalCopy'' = Some (JBool (sp_keepLocalCopy p))"
  "objField (objField (Some (policyJson p)) ''triggerModes'') (modeName m) = Some (JBool (sp_triggerModes p m))"
  by (cases m; simp add: policyJson_def TRIGGER_MODES_def)+

lemma normalize_policyJson: "normalizeStoragePolicy (policyJson p) = p"
  unfolding normalizeStoragePolicy_def Let_def policyJson_fields readBool.simps by simp

text \<open>
  The policy that is set is the policy in force: what \<open>setPolicy\<close> stores is read back by
  \<open>getPolicy\<close> as the policy it returned, whatever the input; and an input that is no object leaves the cloud off.
\<close>

theorem policy_roundtrip:
  "getPolicy (snd (setPolicy j st)) = fst (setPolicy j st)
   \<and> fst (setPolicy (policyJson p) st) = p
   \<and> fst (setPolicy JNull st) = DEFAULT_STORAGE_POLICY \<and> \<not> sp_enabled DEFAULT_STORAGE_POLICY"
proof -
  have "normalizeStoragePolicy JNull = DEFAULT_STORAGE_POLICY"
    by (simp add: normalizeStoragePolicy_def Let_def DEFAULT_STORAGE_POLICY_def)
  then show ?thesis by (simp add: setPolicy_def getPolicy_def Let_def normalize_policyJson DEFAULT_STORAGE_POLICY_def)
qed

text \<open>
  A pass keeps to the policy in force. Of every row it keeps the identity; it marks as uploaded only a
  row without a key that \<open>decideUpload\<close> grants; and it marks as removed only a row with a key, and only when the
  policy does not keep local copies or the storage is in direct mode.
\<close>

theorem offload_respects_policy:
  assumes "distinct (map cw_id (os_rows st))" "r \<in> set (os_rows st)"
    and "r' \<in> set (os_rows (snd (runOnce rt pf fl env (Some cfg) st)))" "cw_id r' = cw_id r"
  shows "sameRow r r'
    \<and> (cw_cloudKey r' \<noteq> cw_cloudKey r \<longrightarrow>
         cw_cloudKey r = None \<and> (\<exists>d. decideUpload (getPolicy st) (cw_triggerMode r) = Upload d))
    \<and> (cw_localDeletedAt r' \<noteq> cw_localDeletedAt r \<longrightarrow>
         cw_cloudKey r' \<noteq> None \<and> (cc_mode cfg = Mount \<or> \<not> sp_keepLocalCopy (getPolicy st)))"
proof -
  from runOnce_rows [OF assms(1), of rt pf fl env cfg] obtain f
    where f: "os_rows (snd (runOnce rt pf fl env (Some cfg) st)) = map f (os_rows st)"
      "\<And>r. r \<in> set (os_rows st) \<Longrightarrow> rowPass cfg (getPolicy st) r (f r)" by blast
  from assms(3) f(1) obtain x where x: "x \<in> set (os_rows st)" "r' = f x" by auto
  then have "cw_id x = cw_id r" using assms(4) f(2) by (simp add: rowPass_def sameRow_def)
  then have "x = r" by (rule distinct_same_id [OF assms(1) x(1) assms(2)])
  with f(2) x have p: "rowPass cfg (getPolicy st) r r'" by blast
  have "\<exists>d. decideUpload (getPolicy st) (cw_triggerMode r) = Upload d"
    if "sp_enabled (getPolicy st)" "modeAllowed (getPolicy st) r"
    using that by (auto simp: modeAllowed_def decideUpload_mode)
  with p show ?thesis unfolding rowPass_def by blast
qed

theorem offload_respects_policy_witness:
  "\<exists>r'\<in>set (os_rows onePass). cw_cloudKey r' \<noteq> None \<and> sameRow (closedRow ''z'') r'
     \<and> decideUpload (getPolicy twoRecordings) (cw_triggerMode (closedRow ''z'')) = Upload True"
proof -
  let ?r' = "closedRow ''z''\<lparr>cw_cloudKey := Some ''recordings/cam/z.mp4'', cw_cloudUploadedAt := Some (bw_time emptyBucket)\<rparr>"
  have d: "distinct (map cw_id (os_rows twoRecordings))" "closedRow ''z'' \<in> set (os_rows twoRecordings)"
    by (simp_all add: twoRecordings_def closedRow_def)
  have "os_rows onePass = [closedRow ''a'', ?r']" by code_simp
  then have m: "?r' \<in> set (os_rows onePass)" by simp
  from offload_respects_policy [OF d m [unfolded onePass_def]] have "sameRow (closedRow ''z'') ?r'" by simp
  moreover have "decideUpload (getPolicy twoRecordings) (cw_triggerMode (closedRow ''z'')) = Upload True" by code_simp
  ultimately show ?thesis using m by (intro bexI [of _ ?r']) simp_all
qed

section \<open>Rows that hold the queue\<close>

text \<open>A row with nothing to send: outside the root, or without a file, or with an empty one.\<close>

definition unsendable :: "platform \<Rightarrow> 'b offState \<Rightarrow> cloudRow \<Rightarrow> bool" where
  "unsendable pf st r \<longleftrightarrow>
     (case ensureFileUnderRoot pf (cw_filePath r) of
        Inl _ \<Rightarrow> True | Inr p \<Rightarrow> map_of (os_files st) p = None \<or> map_of (os_files st) p = Some [])"

lemma uploadOne_unsendable: "unsendable pf st r \<Longrightarrow> snd (uploadOne rt pf fl cf r st) = st"
  by (auto simp: unsendable_def uploadOne_def split: sum.splits option.splits)

lemma uploadLoop_unsendable: "\<forall>r\<in>set recs. unsendable pf st r \<Longrightarrow> snd (uploadLoop rt pf fl cf recs st) = st"
  by (induction recs) (simp_all add: Let_def split_beta uploadOne_unsendable)

text \<open>Removing local files gives no row a file and no waiting row a mark.\<close>

lemma pruneLoop_keeps:
  "os_policy (snd (pruneLoop rt pf fl recs st)) = os_policy st
   \<and> (\<forall>p. map_of (os_files (snd (pruneLoop rt pf fl recs st))) p \<in> {None, map_of (os_files st) p})"
proof (induction recs arbitrary: st)
  case (Cons rec recs)
  obtain oc st1 where one: "pruneOne rt pf fl rec st = (oc, st1)" by fastforce
  have st1: "os_policy st1 = os_policy st \<and> (\<forall>p. map_of (os_files st1) p \<in> {None, map_of (os_files st) p})"
    using one by (cases rule: pruneOne_effect) (simp_all add: delete_conv')
  have "snd (pruneLoop rt pf fl (rec # recs) st) = (case oc of Inl _ \<Rightarrow> st1 | Inr _ \<Rightarrow> snd (pruneLoop rt pf fl recs st1))"
    using one by (simp split: sum.split prod.split)
  then consider "snd (pruneLoop rt pf fl (rec # recs) st) = st1"
    | "snd (pruneLoop rt pf fl (rec # recs) st) = snd (pruneLoop rt pf fl recs st1)" by (cases oc) simp_all
  then show ?case using st1 Cons.IH [of st1] by cases (simp only:, metis insert_iff singletonD)+
qed simp

lemma pendentes_mark:
  assumes "os_rows st' = map f (os_rows st)" "\<And>r. f r = r \<or> (\<exists>t. f r = r\<lparr>cw_localDeletedAt := Some t\<rparr>)"
  shows "pendentes pol n st' = map f (pendentes pol n st)" "map cw_cloudKey (os_rows st') = map cw_cloudKey (os_rows st)"
proof -
  have k: "cw_cloudKey (f r) = cw_cloudKey r \<and> cw_triggerMode (f r) = cw_triggerMode r" for r
    using assms(2) [of r] by (elim disjE exE) simp_all
  then show "pendentes pol n st' = map f (pendentes pol n st)" "map cw_cloudKey (os_rows st') = map cw_cloudKey (os_rows st)"
    by (simp_all add: pendentes_def assms(1) filter_map comp_def take_map)
qed

definition queueStuck :: "platform \<Rightarrow> environment \<Rightarrow> 'b offState \<Rightarrow> bool" where
  "queueStuck pf env st \<longleftrightarrow> (\<forall>r\<in>set (pendentes (getPolicy st) (batchSize env) st). unsendable pf st r)"

lemma running_irrelevant:
  "getPolicy (st\<lparr>os_running := b\<rparr>) = getPolicy st" "pendentes pol n (st\<lparr>os_running := b\<rparr>) = pendentes pol n st"
  "unsendable pf (st\<lparr>os_running := b\<rparr>) r = unsendable pf st r"
  by (simp_all add: getPolicy_def pendentes_def unsendable_def split: sum.split)

lemma runOnce_stuck:
  assumes "queueStuck pf env st"
  shows "queueStuck pf env (snd (runOnce rt pf fl env (Some cfg) st))
    \<and> map cw_cloudKey (os_rows (snd (runOnce rt pf fl env (Some cfg) st))) = map cw_cloudKey (os_rows st)"
proof (cases "os_running st")
  case False
  let ?st = "st\<lparr>os_running := True\<rparr>" and ?st' = "snd (runOnce rt pf fl env (Some cfg) st)"
  define recs where "recs = candidatas (rt_clock rt (os_world ?st)) (if cc_mode cfg = Mount then 0 else cc_localWindowHours cfg) ?st"
  have "\<forall>r\<in>set (pendentes (getPolicy ?st) (batchSize env) ?st). unsendable pf ?st r"
    using assms by (simp add: queueStuck_def running_irrelevant)
  then have u: "snd (uploadPending rt pf fl env (cc_s3 cfg) ?st) = ?st"
    by (simp add: uploadPending_def Let_def uploadLoop_unsendable)
  obtain n m st2 where n: "uploadPending rt pf fl env (cc_s3 cfg) ?st = (n, ?st)" "pruneUploaded rt pf fl cfg ?st = (m, st2)"
    using u by (metis prod.collapse)
  then have st': "?st' = st2\<lparr>os_running := False\<rparr>" using False by (simp add: runOnce_def Let_def split_beta split: sum.split)
  have "st2 = ?st \<or> st2 = snd (pruneLoop rt pf fl recs ?st)"
    using n(2) by (auto simp: pruneUploaded_def Let_def recs_def split: if_splits)
  then have keep: "os_policy st2 = os_policy st \<and> (\<forall>p. map_of (os_files st2) p \<in> {None, map_of (os_files st) p})"
    using pruneLoop_keeps [of rt pf fl recs ?st] by (elim disjE) simp_all
  have "\<exists>f. os_rows st2 = map f (os_rows st) \<and> (\<forall>r. f r = r \<or> (\<exists>t. f r = r\<lparr>cw_localDeletedAt := Some t\<rparr>))"
    using \<open>st2 = ?st \<or> _\<close>
  proof
    assume "st2 = ?st"
    then show ?thesis by (intro exI [of _ "\<lambda>r. r"]) simp
  next
    assume "st2 = snd (pruneLoop rt pf fl recs ?st)"
    with pruneLoop_rows [of rt pf fl recs ?st] show ?thesis by auto
  qed
  then obtain f where f: "os_rows ?st' = map f (os_rows st)" "\<And>r. f r = r \<or> (\<exists>t. f r = r\<lparr>cw_localDeletedAt := Some t\<rparr>)"
    unfolding st' by auto
  have "unsendable pf ?st' (f r)" if "unsendable pf st r" for r
  proof -
    have "cw_filePath (f r) = cw_filePath r" using f(2) [of r] by (elim disjE exE) simp_all
    with that keep show ?thesis unfolding unsendable_def st' by (force split: sum.split)
  qed
  moreover have "getPolicy ?st' = getPolicy st" using keep by (simp add: st' getPolicy_def)
  ultimately show ?thesis using assms pendentes_mark [OF f] unfolding queueStuck_def by auto
qed (use assms in \<open>simp add: runOnce_def\<close>)

text \<open>
  Rows without a file hold the queue. When the oldest rows that wait, as many as a batch takes, have no
  file to send, no pass uploads anything: after any number of passes, however healthy disk, network and database
  are, every row has the key it had, and the recordings behind them wait for ever. The mark that would let the
  first ones go is only set by an upload.
\<close>

theorem stuck_rows_block_uploads:
  assumes "queueStuck pf env st"
  shows "map cw_cloudKey (os_rows (((\<lambda>s. snd (runOnce rt pf fl env (Some cfg) s)) ^^ n) st)) = map cw_cloudKey (os_rows st)"
proof -
  have "queueStuck pf env (((\<lambda>s. snd (runOnce rt pf fl env (Some cfg) s)) ^^ n) st)
      \<and> map cw_cloudKey (os_rows (((\<lambda>s. snd (runOnce rt pf fl env (Some cfg) s)) ^^ n) st)) = map cw_cloudKey (os_rows st)"
  proof (induction n)
    case (Suc n)
    then show ?case using runOnce_stuck [of pf env "((\<lambda>s. snd (runOnce rt pf fl env (Some cfg) s)) ^^ n) st"] by simp
  qed (simp add: assms)
  then show ?thesis by blast
qed

definition batchOfOne :: environment where
  "batchOfOne = (\<lambda>name. if name = ''CLOUD_OFFLOAD_BATCH'' then Some ''1'' else None)"

theorem stuck_rows_block_uploads_witness:
  "map cw_cloudKey (os_rows (((\<lambda>s. snd (runOnce bucketRuntime localPlatform noFaults batchOfOne (Some directConfig) s)) ^^ 1000) twoRecordings))
     = [None, None]
   \<and> \<not> unsendable localPlatform twoRecordings (closedRow ''z'')"
proof -
  have "queueStuck localPlatform batchOfOne twoRecordings" by code_simp
  from stuck_rows_block_uploads [OF this, where rt = bucketRuntime and fl = noFaults and cfg = directConfig and n = 1000]
  have "map cw_cloudKey (os_rows (((\<lambda>s. snd (runOnce bucketRuntime localPlatform noFaults batchOfOne (Some directConfig) s)) ^^ 1000) twoRecordings))
     = [None, None]" by (simp add: twoRecordings_def closedRow_def)
  moreover have "\<not> unsendable localPlatform twoRecordings (closedRow ''z'')" by code_simp
  ultimately show ?thesis by blast
qed

section \<open>Overlapping passes\<close>

text \<open>Two calls that both look at the flag before either sets it are in their passes at the same time.\<close>

lemma passes_overlap:
  "\<exists>pc running. reachable (\<lambda>s. s = (\<lambda>_. Outside, False)) offCall (pc, running) \<and> pc 0 = InPass \<and> pc 1 = InPass"
proof -
  let ?s = "\<lambda>s. s = (\<lambda>_. Outside, False)"
  let ?p1 = "(\<lambda>_. Outside)(0 := AwaitingConfig)" and ?p2 = "(\<lambda>_. Outside)(0 := AwaitingConfig, 1 := AwaitingConfig)"
  let ?p3 = "?p2(0 := InPass)" and ?p4 = "?p2(0 := InPass, 1 := InPass)"
  have "reachable ?s offCall (\<lambda>_. Outside, False)" by (simp add: reach_start)
  then have "reachable ?s offCall (?p1, False)" by (rule reach_step) (rule offCall.enter; simp)
  then have "reachable ?s offCall (?p2, False)" by (rule reach_step) (rule offCall.enter; simp)
  then have "reachable ?s offCall (?p3, True)" by (rule reach_step) (rule offCall.configured; simp)
  then have "reachable ?s offCall (?p4, True)" by (rule reach_step) (rule offCall.configured; simp)
  then show ?thesis by (intro exI [of _ ?p4] exI [of _ True]) simp
qed

section \<open>A shortened object\<close>

text \<open>A service that answers the upload with 200, keeps the first byte of it and finds the object afterwards.\<close>

definition shorteningRuntime :: "bucketWorld s3Runtime" where
  "shorteningRuntime = bucketRuntime\<lparr>rt_fetch := (\<lambda>sg payload. bucketFetch sg (take 1 payload))\<rparr>"

definition laterPass :: "bucketWorld offState" where
  "laterPass = (let pass = (\<lambda>s. snd (runOnce shorteningRuntime localPlatform noFaults (\<lambda>_. None) (Some directConfig) s));
       s1 = pass twoRecordings
     in pass (s1\<lparr>os_world := (os_world s1)\<lparr>bw_time := bw_time (os_world s1) + 60000\<rparr>\<rparr>))"

lemma shortened_object_taken:
  "map cw_cloudKey (os_rows laterPass) = [None, Some ''recordings/cam/z.mp4''] \<and> os_files laterPass = []
   \<and> bucketStored (os_world laterPass) (fullKey bucketConfig ''recordings/cam/z.mp4'') = Some ''v''"
  by code_simp

end
