(* ===== verification/Cloud_Offload_Progress.thy ===== *)
theory Cloud_Offload_Progress
  imports Cloud_Offload_Policy
begin

text \<open>
  Progress of the offload: with a healthy disk, database and service every pass brings the queue down by a batch,
  so that it is empty after finitely many passes.
\<close>

section \<open>The queue\<close>

definition waits :: "storagePolicy \<Rightarrow> cloudRow \<Rightarrow> bool" where
  "waits pol r \<longleftrightarrow> cw_cloudKey r = None \<and> (case cw_triggerMode r of None \<Rightarrow> False | Some t \<Rightarrow> t \<in> set (map modeName (enabledTriggerModes pol)))"

definition queue :: "'b offState \<Rightarrow> cloudRow list" where
  "queue st = filter (waits (getPolicy st)) (os_rows st)"

lemma pendentes_queue: "pendentes (getPolicy st) n st = take n (queue st)"
  by (simp add: pendentes_def queue_def waits_def [abs_def])

lemma batchSize_pos: "1 \<le> batchSize env"
proof -
  have "1 \<le> fst (envNumber (env ''CLOUD_OFFLOAD_BATCH'') (Fin DEFAULT_BATCH) \<lparr>opt_min = Some 1, opt_max = Some 500, opt_integer = True\<rparr>)"
    by (rule envNumber_limits(1)) simp_all
  then show ?thesis unfolding batchSize_def by linarith
qed

text \<open>A file that is there, not empty and sent in one piece.\<close>

definition sendable :: "platform \<Rightarrow> 'b offState \<Rightarrow> cloudRow \<Rightarrow> bool" where
  "sendable pf st r \<longleftrightarrow>
     (\<exists>p c. ensureFileUnderRoot pf (cw_filePath r) = Inr p \<and> map_of (os_files st) p = Some c \<and> c \<noteq> [] \<and> length c \<le> MAX_SINGLE_PUT_BYTES)"

text \<open>A service that accepts objects and finds those it has.\<close>

definition serviceUp :: "'b s3Runtime \<Rightarrow> s3Config \<Rightarrow> ('b \<Rightarrow> string \<Rightarrow> string option) \<Rightarrow> bool" where
  "serviceUp rt cf stored \<longleftrightarrow>
     (\<forall>key payload b. isOk (fst (request rt cf (putParams key payload ''video/mp4'') b)))
     \<and> (\<forall>key b. stored b key \<noteq> None \<longrightarrow> isOk (fst (request rt cf (simpleRequest ''HEAD'' key) b)))"

lemma serviceUpD:
  assumes "serviceUp rt cf stored"
  shows "isOk (fst (request rt cf (putParams key payload ''video/mp4'') b))"
    and "stored b key \<noteq> None \<Longrightarrow> isOk (fst (request rt cf (simpleRequest ''HEAD'' key) b))"
  using assms unfolding serviceUp_def by blast+

section \<open>One upload\<close>

lemma isOkE: "isOk x \<Longrightarrow> (\<And>y. x = Inr y \<Longrightarrow> thesis) \<Longrightarrow> thesis"
  by (cases x) simp_all

lemma uploadOne_succeeds:
  assumes "s3Service rt cf stored parts" "serviceUp rt cf stored" "sendable pf st rec"
  shows "\<exists>t n st'. uploadOne rt pf noFaults cf rec st = (Uploaded n, st') \<and> os_files st' = os_files st \<and> os_policy st' = os_policy st
    \<and> os_rows st' = map (\<lambda>r. if cw_id r = cw_id rec
        then r\<lparr>cw_cloudKey := Some (buildCloudKey rec), cw_cloudUploadedAt := Some t\<rparr> else r) (os_rows st)"
proof -
  from assms(3) obtain p c where p: "ensureFileUnderRoot pf (cw_filePath rec) = Inr p" "map_of (os_files st) p = Some c" "c \<noteq> []"
    "length c \<le> MAX_SINGLE_PUT_BYTES" unfolding sendable_def by blast
  let ?k = "buildCloudKey rec"
  obtain y b1 where y: "request rt cf (putParams (fullKey cf ?k) c ''video/mp4'') (os_world st) = (Inr y, b1)"
    using serviceUpD(1) [OF assms(2), of "fullKey cf ?k" c "os_world st"] by (metis isOkE prod.collapse)
  have "stored b1 (fullKey cf ?k) \<noteq> None" using putLawD(1) [OF s3ServiceD(1) [OF assms(1)] y] by simp
  then obtain z b2 where z: "request rt cf (simpleRequest ''HEAD'' (fullKey cf ?k)) b1 = (Inr z, b2)"
    using serviceUpD(2) [OF assms(2), of b1 "fullKey cf ?k"] by (metis isOkE prod.collapse)
  have "uploadOne rt pf noFaults cf rec st = (Uploaded (length c), updateRow (cw_id rec)
      (\<lambda>r. r\<lparr>cw_cloudKey := Some ?k, cw_cloudUploadedAt := Some (rt_clock rt b2)\<rparr>) (st\<lparr>os_world := b2\<rparr>))"
    using p y z by (simp add: uploadOne_def noFaults_def Let_def sendFile_def putObject_def headObject_def)
  then show ?thesis by (simp add: updateRow_def del: map_eq_conv) blast
qed

lemma sendable_cong: "os_files st' = os_files st \<Longrightarrow> sendable pf st' r = sendable pf st r"
  by (simp add: sendable_def)

lemma uploadLoop_succeeds:
  assumes "s3Service rt cf stored parts" "serviceUp rt cf stored" "\<forall>r\<in>set recs. sendable pf st r"
  shows "\<exists>f. os_rows (snd (uploadLoop rt pf noFaults cf recs st)) = map f (os_rows st)
    \<and> os_files (snd (uploadLoop rt pf noFaults cf recs st)) = os_files st
    \<and> os_policy (snd (uploadLoop rt pf noFaults cf recs st)) = os_policy st
    \<and> (\<forall>r. sameRow r (f r) \<and> (if cw_id r \<in> cw_id ` set recs then cw_cloudKey (f r) \<noteq> None else f r = r))"
  using assms(3)
proof (induction recs arbitrary: st)
  case Nil
  show ?case by (intro exI [of _ "\<lambda>r. r"]) simp
next
  case (Cons rec recs)
  from uploadOne_succeeds [OF assms(1,2), of pf st rec] Cons.prems obtain t n st1
    where one: "uploadOne rt pf noFaults cf rec st = (Uploaded n, st1)" "os_files st1 = os_files st" "os_policy st1 = os_policy st"
      "os_rows st1 = map (\<lambda>r. if cw_id r = cw_id rec
        then r\<lparr>cw_cloudKey := Some (buildCloudKey rec), cw_cloudUploadedAt := Some t\<rparr> else r) (os_rows st)" by auto
  let ?g = "\<lambda>r. if cw_id r = cw_id rec then r\<lparr>cw_cloudKey := Some (buildCloudKey rec), cw_cloudUploadedAt := Some t\<rparr> else r"
  have "\<forall>r\<in>set recs. sendable pf st1 r" using Cons.prems by (simp add: sendable_cong [OF one(2)])
  from Cons.IH [OF this] obtain f where f: "os_rows (snd (uploadLoop rt pf noFaults cf recs st1)) = map f (os_rows st1)"
    "os_files (snd (uploadLoop rt pf noFaults cf recs st1)) = os_files st1"
    "os_policy (snd (uploadLoop rt pf noFaults cf recs st1)) = os_policy st1"
    "\<And>r. sameRow r (f r)" "\<And>r. if cw_id r \<in> cw_id ` set recs then cw_cloudKey (f r) \<noteq> None else f r = r" by blast
  have g: "sameRow r (?g r)" "cw_id (?g r) = cw_id r" for r by (simp_all add: sameRow_def)
  have "sameRow r (f (?g r)) \<and> (if cw_id r \<in> cw_id ` set (rec # recs) then cw_cloudKey (f (?g r)) \<noteq> None else f (?g r) = r)" for r
    using f(5) [of "?g r"] sameRow_trans [OF g(1) f(4)] by (auto split: if_splits)
  moreover have "os_rows (snd (uploadLoop rt pf noFaults cf (rec # recs) st)) = map (\<lambda>r. f (?g r)) (os_rows st)"
    "os_files (snd (uploadLoop rt pf noFaults cf (rec # recs) st)) = os_files st"
    "os_policy (snd (uploadLoop rt pf noFaults cf (rec # recs) st)) = os_policy st"
    using f(1-3) one by (simp_all add: Let_def split_beta comp_def del: map_eq_conv)
  ultimately show ?case by blast
qed

section \<open>One pass\<close>

lemma pruneLoop_other_files:
  "(\<And>rec. rec \<in> set recs \<Longrightarrow> ensureFileUnderRoot pf (cw_filePath rec) \<noteq> Inr p) \<Longrightarrow>
   map_of (os_files (snd (pruneLoop rt pf fl recs st))) p = map_of (os_files st) p"
proof (induction recs arbitrary: st)
  case (Cons rec recs)
  obtain oc st1 where one: "pruneOne rt pf fl rec st = (oc, st1)" by fastforce
  have st1: "map_of (os_files st1) p = map_of (os_files st) p"
    using one Cons.prems [of rec] by (cases rule: pruneOne_effect) (auto simp: delete_conv')
  have "snd (pruneLoop rt pf fl (rec # recs) st) = (case oc of Inl _ \<Rightarrow> st1 | Inr _ \<Rightarrow> snd (pruneLoop rt pf fl recs st1))"
    using one by (simp split: sum.split prod.split)
  with st1 Cons.IH [of st1] Cons.prems show ?case by (simp split: sum.split)
qed simp

lemma queue_marked:
  assumes "os_rows st' = map f (os_rows st)" "os_policy st' = os_policy st" "distinct (map cw_id (os_rows st))"
    and "\<And>r. sameRow r (f r)" "\<And>r. if cw_id r \<in> cw_id ` set (take n (queue st)) then cw_cloudKey (f r) \<noteq> None else f r = r"
  shows "queue st' = drop n (queue st)"
proof -
  let ?ids = "cw_id ` set (take n (queue st))" and ?w = "waits (getPolicy st)"
  have pol: "getPolicy st' = getPolicy st" using assms(2) by (simp add: getPolicy_def)
  have w: "?w (f r) \<longleftrightarrow> ?w r \<and> cw_id r \<notin> ?ids" for r
    using assms(4) [of r] assms(5) [of r] by (auto simp: waits_def sameRow_def split: if_splits)
  have "queue st' = map f (filter (\<lambda>r. ?w r \<and> cw_id r \<notin> ?ids) (os_rows st))"
    by (simp add: queue_def pol assms(1) filter_map comp_def w)
  also have "\<dots> = filter (\<lambda>r. ?w r \<and> cw_id r \<notin> ?ids) (os_rows st)"
    by (rule map_idI) (use assms(5) in \<open>auto split: if_splits\<close>)
  also have "\<dots> = filter (\<lambda>r. cw_id r \<notin> ?ids) (queue st)" by (simp add: queue_def conj_commute)
  also have "\<dots> = filter (\<lambda>r. cw_id r \<notin> ?ids) (take n (queue st)) @ filter (\<lambda>r. cw_id r \<notin> ?ids) (drop n (queue st))"
    by (simp only: filter_append [symmetric] append_take_drop_id)
  also have "\<dots> = drop n (queue st)"
  proof -
    have "distinct (map cw_id (take n (queue st) @ drop n (queue st)))"
      using assms(3) by (simp add: queue_def distinct_map_filter)
    then have "?ids \<inter> cw_id ` set (drop n (queue st)) = {}" unfolding map_append distinct_append by simp
    then show ?thesis by (auto simp: filter_empty_conv filter_id_conv)
  qed
  finally show ?thesis .
qed

text \<open>What a healthy installation has: a sound table, the cloud on, no pass under way, and a file for every row that waits.\<close>

definition healthy :: "platform \<Rightarrow> 'b offState \<Rightarrow> bool" where
  "healthy pf st \<longleftrightarrow> wfRows pf (os_rows st) \<and> sp_enabled (getPolicy st) \<and> \<not> os_running st \<and> (\<forall>r\<in>set (queue st). sendable pf st r)"

lemma queue_unmarked:
  assumes "os_rows st' = map f (os_rows st)" "os_policy st' = os_policy st" "\<And>r. f r = r \<or> (\<exists>t. f r = r\<lparr>cw_localDeletedAt := Some t\<rparr>)"
  shows "queue st' = map f (queue st)" "\<And>r. sameRow r (f r)"
proof -
  have k: "cw_cloudKey (f r) = cw_cloudKey r \<and> cw_triggerMode (f r) = cw_triggerMode r \<and> sameRow r (f r)" for r
    using assms(3) [of r] by (elim disjE exE) (simp_all add: sameRow_def)
  then show "\<And>r. sameRow r (f r)" by blast
  show "queue st' = map f (queue st)"
  proof -
    have "waits pol (f r) = waits pol r" for pol r using k by (simp add: waits_def)
    moreover have "getPolicy st' = getPolicy st" using assms(2) by (simp add: getPolicy_def)
    ultimately show ?thesis by (simp add: queue_def assms(1) filter_map comp_def)
  qed
qed

lemma pruneUploaded_queue:
  assumes "wfRows pf (os_rows st)" "pruneUploaded rt pf fl cfg st = (m, st')" "\<forall>r\<in>set (queue st). sendable pf st r"
  shows "length (queue st') = length (queue st) \<and> (\<forall>r\<in>set (queue st'). sendable pf st' r) \<and> wfRows pf (os_rows st') \<and> getPolicy st' = getPolicy st"
proof (cases "sp_keepLocalCopy (getPolicy st) \<and> cc_mode cfg \<noteq> Mount")
  case True
  with assms show ?thesis by (simp add: pruneUploaded_def Let_def)
next
  case False
  define recs where "recs = candidatas (rt_clock rt (os_world st)) (if cc_mode cfg = Mount then 0 else cc_localWindowHours cfg) st"
  have st': "st' = snd (pruneLoop rt pf fl recs st)" using False assms(2) by (auto simp: pruneUploaded_def Let_def recs_def)
  from pruneLoop_rows [of rt pf fl recs st] obtain f where f: "os_rows st' = map f (os_rows st)"
    "\<And>r. f r = r \<or> (\<exists>t. f r = r\<lparr>cw_localDeletedAt := Some t\<rparr>)" unfolding st' by blast
  have pol: "os_policy st' = os_policy st" using pruneLoop_keeps [of rt pf fl recs st] by (simp add: st')
  note q = queue_unmarked [OF f(1) pol f(2)]
  have recs: "rec \<in> set (os_rows st) \<and> cw_cloudKey rec \<noteq> None" if "rec \<in> set recs" for rec
    using that by (auto simp: recs_def candidatas_def dest!: in_set_takeD)
  have "sendable pf st' (f r)" if r: "r \<in> set (queue st)" for r
  proof -
    from r assms(3) obtain p c where p: "ensureFileUnderRoot pf (cw_filePath r) = Inr p" "map_of (os_files st) p = Some c" "c \<noteq> []"
      "length c \<le> MAX_SINGLE_PUT_BYTES" unfolding sendable_def by blast
    have m: "r \<in> set (os_rows st)" "cw_cloudKey r = None" using r by (simp_all add: queue_def waits_def)
    have "ensureFileUnderRoot pf (cw_filePath rec) \<noteq> Inr p" if "rec \<in> set recs" for rec
      using recs [OF that] wfRowsD(3) [OF assms(1) m(1), of rec p] p(1) m(2) by auto
    then have "map_of (os_files st') p = Some c" unfolding st' using pruneLoop_other_files p(2) by metis
    moreover have "cw_filePath (f r) = cw_filePath r" using q(2) [of r] by (simp add: sameRow_def)
    ultimately show ?thesis using p unfolding sendable_def by auto
  qed
  moreover have "wfRows pf (os_rows st')" unfolding f(1) using assms(1) q(2) by (rule wfRows_map)
  moreover have "getPolicy st' = getPolicy st" using pol by (simp add: getPolicy_def)
  ultimately show ?thesis by (simp add: q(1))
qed

lemma healthy_pass:
  assumes "s3Service rt (cc_s3 cfg) stored parts" "serviceUp rt (cc_s3 cfg) stored" "healthy pf st"
  shows "healthy pf (snd (runOnce rt pf noFaults env (Some cfg) st))
    \<and> length (queue (snd (runOnce rt pf noFaults env (Some cfg) st))) = length (queue st) - batchSize env"
proof -
  let ?st = "st\<lparr>os_running := True\<rparr>" and ?n = "batchSize env"
  have h: "wfRows pf (os_rows st)" "sp_enabled (getPolicy st)" "\<not> os_running st" "\<forall>r\<in>set (queue st). sendable pf st r"
    using assms(3) by (simp_all add: healthy_def)
  have q: "queue ?st = queue st" "getPolicy ?st = getPolicy st" by (simp_all add: queue_def getPolicy_def)
  obtain c st1 where u: "uploadPending rt pf noFaults env (cc_s3 cfg) ?st = (c, st1)" by fastforce
  obtain m st2 where p: "pruneUploaded rt pf noFaults cfg st1 = (m, st2)" by fastforce
  have s: "\<forall>r\<in>set (take ?n (queue st)). sendable pf ?st r" using h(4) by (auto simp: sendable_def dest!: in_set_takeD)
  have d: "distinct (map cw_id (os_rows ?st))" using h(1) by (simp add: wfRows_def)
  have one: "queue st1 = drop ?n (queue st) \<and> os_files st1 = os_files st \<and> os_policy st1 = os_policy st \<and> wfRows pf (os_rows st1)"
  proof (cases "enabledTriggerModes (getPolicy st) = []")
    case True
    then have "queue st = []" by (simp add: queue_def waits_def filter_empty_conv split: option.split)
    moreover have "st1 = ?st" using True u q by (simp add: uploadPending_def Let_def)
    ultimately show ?thesis using h(1) q by simp
  next
    case False
    then have st1: "st1 = snd (uploadLoop rt pf noFaults (cc_s3 cfg) (take ?n (queue ?st)) ?st)"
      using u q h(2) by (simp add: uploadPending_def Let_def pendentes_queue [of ?st, unfolded q])
    from uploadLoop_succeeds [OF assms(1,2) s [folded q(1)]] obtain f where f: "os_rows st1 = map f (os_rows ?st)"
      "os_files st1 = os_files ?st" "os_policy st1 = os_policy ?st" "\<And>r. sameRow r (f r)"
      "\<And>r. if cw_id r \<in> cw_id ` set (take ?n (queue ?st)) then cw_cloudKey (f r) \<noteq> None else f r = r"
      unfolding st1 [symmetric] by blast
    have "wfRows pf (os_rows st1)" unfolding f(1) using h(1) f(4) by (intro wfRows_map) simp_all
    with queue_marked [OF f(1,3) d f(4,5)] f(2,3) q show ?thesis by simp
  qed
  then have "\<forall>r\<in>set (queue st1). sendable pf st1 r" using h(4) by (auto simp: sendable_def dest!: in_set_dropD)
  from pruneUploaded_queue [OF _ p this] one
  have two: "length (queue st2) = length (queue st) - ?n" "\<forall>r\<in>set (queue st2). sendable pf st2 r" "wfRows pf (os_rows st2)"
    "getPolicy st2 = getPolicy st" by (simp_all add: getPolicy_def)
  have "snd (runOnce rt pf noFaults env (Some cfg) st) = st2\<lparr>os_running := False\<rparr>"
    using h(3) u p by (simp add: runOnce_def Let_def split_beta split: sum.split)
  then show ?thesis using two h(2) by (simp add: healthy_def queue_def getPolicy_def sendable_def)
qed

section \<open>Properties\<close>

text \<open>
  Property C36. The queue is emptied when everything is in order: the service keeps the S3 protocol, accepts every PUT
  and finds the objects it has; no disk or database operation fails; the policy is enabled and no pass is running when one
  starts; the rows are well formed (distinct identifiers and files) and none is added meanwhile; and every recording that waits has a file under the root that is not empty and of at most 200 MB, so that it goes
  in a single PUT (larger files take the multipart path, which this property does not cover). Then every pass takes a whole
  batch off the queue, at least one recording: after enough passes nothing waits.
\<close>

theorem offload_drains:
  assumes "s3Service rt (cc_s3 cfg) stored parts" "serviceUp rt (cc_s3 cfg) stored" "healthy pf st"
  shows "length (queue (((\<lambda>s. snd (runOnce rt pf noFaults env (Some cfg) s)) ^^ n) st)) = length (queue st) - n * batchSize env
    \<and> (length (queue st) \<le> n \<longrightarrow> queue (((\<lambda>s. snd (runOnce rt pf noFaults env (Some cfg) s)) ^^ n) st) = [])"
proof -
  let ?f = "\<lambda>s. snd (runOnce rt pf noFaults env (Some cfg) s)"
  have "healthy pf ((?f ^^ n) st) \<and> length (queue ((?f ^^ n) st)) = length (queue st) - n * batchSize env"
  proof (induction n)
    case (Suc n)
    with healthy_pass [OF assms(1,2), of pf "(?f ^^ n) st" env] show ?case by simp
  qed (simp add: assms(3))
  moreover have "length (queue st) - n * batchSize env = 0" if "length (queue st) \<le> n"
    using le_trans [OF that, of "n * batchSize env"] mult_le_mono2 [OF batchSize_pos [of env], of n] by linarith
  ultimately show ?thesis using length_0_conv by metis
qed

lemma bucket_up: "serviceUp bucketRuntime bucketConfig bucketStored"
  unfolding serviceUp_def
proof (intro conjI allI impI)
  fix key payload b
  obtain sg where "request bucketRuntime bucketConfig (putParams key payload ''video/mp4'') b = outcome (bucketFetch sg payload b)"
    "sg_method sg = ''PUT''" "takeWhile (\<lambda>c. c \<noteq> CHR ''?'') (sg_url sg) = keyUrl key" "drop (Suc (length (keyUrl key))) (sg_url sg) = []"
    by (rule bucket_request [of "putParams key payload ''video/mp4''" key "[]" b]) (simp_all add: putParams_def query_simps)
  then show "isOk (fst (request bucketRuntime bucketConfig (putParams key payload ''video/mp4'') b))"
    by (simp add: bucketFetch_def Let_def)
next
  fix key b
  assume k: "bucketStored b key \<noteq> None"
  obtain sg where "request bucketRuntime bucketConfig (simpleRequest ''HEAD'' key) b = outcome (bucketFetch sg [] b)"
    "sg_method sg = ''HEAD''" "takeWhile (\<lambda>c. c \<noteq> CHR ''?'') (sg_url sg) = keyUrl key"
    by (rule bucket_request [of "simpleRequest ''HEAD'' key" key "[]" b]) (simp_all add: simpleRequest_def query_simps)
  with k show "isOk (fst (request bucketRuntime bucketConfig (simpleRequest ''HEAD'' key) b))"
    by (simp add: bucketFetch_def Let_def bucketStored_def)
qed

definition fullDisk :: "bucketWorld offState" where
  "fullDisk = twoRecordings\<lparr>os_files := [([''r'', ''cam'', ''z.mp4''], ''video''), ([''r'', ''cam'', ''a.mp4''], ''clip'')]\<rparr>"

theorem offload_drains_witness:
  "length (queue fullDisk) = 2
   \<and> length (queue (((\<lambda>s. snd (runOnce bucketRuntime localPlatform noFaults batchOfOne (Some directConfig) s)) ^^ 1) fullDisk)) = 1
   \<and> queue (((\<lambda>s. snd (runOnce bucketRuntime localPlatform noFaults batchOfOne (Some directConfig) s)) ^^ 2) fullDisk) = []"
proof -
  have cfg: "cc_s3 directConfig = bucketConfig" by (simp add: directConfig_def)
  have e: "ensureFileUnderRoot localPlatform (cw_filePath (closedRow ''a'')) = Inr [''r'', ''cam'', ''a.mp4'']"
    "ensureFileUnderRoot localPlatform (cw_filePath (closedRow ''z'')) = Inr [''r'', ''cam'', ''z.mp4'']" by code_simp+
  have q: "queue fullDisk = [closedRow ''a'', closedRow ''z'']" "batchSize batchOfOne = 1" "sp_enabled (getPolicy fullDisk)" by code_simp+
  have "wfRows localPlatform (os_rows fullDisk)" using twoRecordings_wf by (simp add: fullDisk_def)
  moreover have "\<forall>r\<in>set (queue fullDisk). sendable localPlatform fullDisk r"
    unfolding q(1) sendable_def by (simp add: e) (simp add: fullDisk_def MAX_SINGLE_PUT_BYTES_def)
  moreover have "\<not> os_running fullDisk" by (simp add: fullDisk_def twoRecordings_def)
  ultimately have "healthy localPlatform fullDisk" using q(3) by (simp add: healthy_def)
  note drains = offload_drains [OF bucket_service [folded cfg] bucket_up [folded cfg] this, where env = batchOfOne]
  show ?thesis using drains [of 1] drains [of 2] q by simp
qed

end
