(* ===== verification/Auth_Session.thy ===== *)
theory Auth_Session
  imports Access_Control "HOL-Library.AList"
begin

text \<open>
  Authentication: the service of \<open>apps/api/src/auth/auth.service.ts\<close>, the strategy that checks the access token of
  a request (\<open>auth/jwt.strategy.ts\<close>) and the guards (\<open>auth/guards\<close>).

  \<^item> The tables of users and sessions are lists; the map of failed attempts is an association list. A unique
    column is an error of the operation that would break it.
  \<^item> Hashes, signatures of tokens and the sending of mail are the record \<open>authRuntime\<close>; random strings and new
    identifiers are arguments; the clock is an argument of each half of an operation that waits in between.
  \<^item> Log messages, the text of mails and the expiry that is read back from a token for the caller are left out.
\<close>

section \<open>State\<close>

record userRow =
  u_id :: string
  u_name :: string
  u_email :: string
  u_passwordHash :: string
  u_authVersion :: int
  u_role :: userRole
  u_isActive :: bool
  u_resetTokenHash :: "string option"
  u_resetTokenExpiresAt :: "int option"

record sessionRow =
  s_id :: string
  s_userId :: string
  s_tokenHash :: string
  s_authVersion :: int
  s_expiresAt :: int
  s_lastUsedAt :: int
  s_revokedAt :: "int option"

record loginAttempt =
  la_count :: int
  la_lockedUntil :: int

record authState =
  as_users :: "userRow list"
  as_sessions :: "sessionRow list"
  as_attempts :: "(string \<times> loginAttempt) list"

text \<open>The payloads of the tokens, one constructor for each value of \<open>type\<close>.\<close>

datatype tokenPayload =
    AccessToken (pl_sub: string) string userRole int
  | StreamToken (pl_sub: string) string
  | PlayToken (pl_sub: string) string
  | DownloadZipToken (pl_sub: string) "string list"

record authUserInfo =
  ai_id :: string
  ai_name :: string
  ai_email :: string
  ai_role :: userRole

datatype authError =
    Locked int | BadCredentials | SessionExpired | SessionRotated | InvalidToken | InactiveUser
  | WeakPassword | InvalidResetToken | ConstraintViolation | MailFailed | UserNotFound | NotAllowed | OwnsPrivateCameras nat

record authRuntime =
  ar_sha256 :: "string \<Rightarrow> string"
  ar_compare :: "string \<Rightarrow> string \<Rightarrow> bool"
  ar_hash :: "string \<Rightarrow> string"
  ar_sign :: "tokenPayload \<Rightarrow> string \<Rightarrow> int \<Rightarrow> string"
  ar_verify :: "int \<Rightarrow> string \<Rightarrow> tokenPayload option"
  ar_mailFails :: "string \<Rightarrow> bool"

text \<open>The settings the service reads; \<open>None\<close> is a read that throws.\<close>

record authSettings =
  sg_sessionMinutes :: "int option"
  sg_maxAttempts :: "int option"
  sg_strong :: "bool option"
  sg_jwtExpiresIn :: "string option"
  sg_streamExpiresIn :: "string option"
  sg_refreshDays :: jsnum
  sg_smtp :: bool

definition RESET_TOKEN_TTL_MS :: int where "RESET_TOKEN_TTL_MS = 30 * 60 * 1000"
definition DEFAULT_REFRESH_INACTIVITY_DAYS :: rat where "DEFAULT_REFRESH_INACTIVITY_DAYS = 7"
definition LOCKOUT_MS :: int where "LOCKOUT_MS = 15 * 60 * 1000"

section \<open>Helpers\<close>

definition findUser :: "string \<Rightarrow> authState \<Rightarrow> userRow option" where
  "findUser i st = find (\<lambda>u. u_id u = i) (as_users st)"

definition findUserByEmail :: "string \<Rightarrow> authState \<Rightarrow> userRow option" where
  "findUserByEmail e st = find (\<lambda>u. u_email u = e) (as_users st)"

definition updateUser :: "string \<Rightarrow> (userRow \<Rightarrow> userRow) \<Rightarrow> authState \<Rightarrow> authState" where
  "updateUser i f st = st\<lparr>as_users := map (\<lambda>u. if u_id u = i then f u else u) (as_users st)\<rparr>"

definition normalizeEmail :: "string \<Rightarrow> string" where
  "normalizeEmail email = js_lower (js_trim email)"

definition registerFailedAttempt :: "int \<Rightarrow> string \<Rightarrow> int \<Rightarrow> authState \<Rightarrow> authState" where
  "registerFailedAttempt now email maxAttempts st =
     (let current = (case map_of (as_attempts st) email of None \<Rightarrow> \<lparr>la_count = 0, la_lockedUntil = 0\<rparr> | Some a \<Rightarrow> a);
          counted = current\<lparr>la_count := la_count current + 1\<rparr>;
          final = (if la_count counted \<ge> maxAttempts then \<lparr>la_count = 0, la_lockedUntil = now + LOCKOUT_MS\<rparr> else counted)
      in st\<lparr>as_attempts := AList.update email final (as_attempts st)\<rparr>)"

definition sanitizeUser :: "userRow \<Rightarrow> authUserInfo" where
  "sanitizeUser u = \<lparr>ai_id = u_id u, ai_name = u_name u, ai_email = u_email u, ai_role = u_role u\<rparr>"

definition refreshInactivityMs :: "authSettings \<Rightarrow> rat" where
  "refreshInactivityMs cfg =
     (let days = (case sg_refreshDays cfg of Fin d \<Rightarrow> max 1 (min 30 d) | NonFinite \<Rightarrow> DEFAULT_REFRESH_INACTIVITY_DAYS)
      in days * 24 * 60 * 60 * 1000)"

text \<open>\<open>new Date(...)\<close> drops the fraction of a millisecond.\<close>

definition refreshDeadline :: "authSettings \<Rightarrow> int \<Rightarrow> int" where
  "refreshDeadline cfg now = math_trunc (of_int now + refreshInactivityMs cfg)"

definition accessExpiry :: "authSettings \<Rightarrow> string option \<Rightarrow> string" where
  "accessExpiry cfg override =
     (case override of Some e \<Rightarrow> e
      | None \<Rightarrow>
          let sessionMinutes = (case sg_sessionMinutes cfg of None \<Rightarrow> 0 | Some m \<Rightarrow> m) in
          if sessionMinutes > 0 then show_nat (nat sessionMinutes) @ ''m''
          else case sg_jwtExpiresIn cfg of Some e \<Rightarrow> e | None \<Rightarrow> ''8h'')"

definition signAccessToken :: "authRuntime \<Rightarrow> authSettings \<Rightarrow> string option \<Rightarrow> int \<Rightarrow> userRow \<Rightarrow> string" where
  "signAccessToken rt cfg override now u =
     ar_sign rt (AccessToken (u_id u) (u_email u) (u_role u) (u_authVersion u)) (accessExpiry cfg override) now"

definition insertSession :: "sessionRow \<Rightarrow> authState \<Rightarrow> (authError, unit) result \<times> authState" where
  "insertSession s st =
     (if s_tokenHash s \<in> set (map s_tokenHash (as_sessions st)) then (Inl ConstraintViolation, st)
      else (Inr (), st\<lparr>as_sessions := as_sessions st @ [s]\<rparr>))"

definition createRefreshSession ::
    "authRuntime \<Rightarrow> authSettings \<Rightarrow> int \<Rightarrow> string \<Rightarrow> string \<Rightarrow> userRow \<Rightarrow> authState \<Rightarrow> (authError, unit) result \<times> authState" where
  "createRefreshSession rt cfg now newId rand u st =
     insertSession \<lparr>s_id = newId, s_userId = u_id u, s_tokenHash = ar_sha256 rt rand, s_authVersion = u_authVersion u,
       s_expiresAt = refreshDeadline cfg now, s_lastUsedAt = now, s_revokedAt = None\<rparr> st"

definition strongPassword :: "string \<Rightarrow> bool" where
  "strongPassword p \<longleftrightarrow> 12 \<le> length p \<and> list_ex (\<lambda>c. (of_char CHR ''a'' :: int) \<le> of_char c \<and> (of_char c :: int) \<le> of_char CHR ''z'') p
     \<and> list_ex (\<lambda>c. (of_char CHR ''A'' :: int) \<le> of_char c \<and> (of_char c :: int) \<le> of_char CHR ''Z'') p \<and> list_ex is_digit p"

definition assertPasswordStrength :: "authSettings \<Rightarrow> string \<Rightarrow> (authError, unit) result" where
  "assertPasswordStrength cfg p =
     (if sg_strong cfg \<noteq> Some True then Inr () else if \<not> strongPassword p then Inl WeakPassword else Inr ())"

section \<open>Login\<close>

text \<open>The look at the lock, before the first wait.\<close>

definition loginGate :: "int \<Rightarrow> string \<Rightarrow> authState \<Rightarrow> (authError, unit) result" where
  "loginGate now email st =
     (case map_of (as_attempts st) (normalizeEmail email) of
        Some lock \<Rightarrow>
          if la_lockedUntil lock > now then Inl (Locked (\<lceil>(of_int (la_lockedUntil lock - now) / 60000 :: rat)\<rceil>)) else Inr ()
      | None \<Rightarrow> Inr ())"

record loginResult =
  lr_accessToken :: string
  lr_refreshToken :: string
  lr_refreshExpiresAt :: string
  lr_user :: authUserInfo

record loginCall =
  lc_email :: string
  lc_password :: string
  lc_expiresIn :: "string option"
  lc_rand :: string
  lc_newId :: string
  lc_cleans :: bool

text \<open>
  What follows: the settings and the user are read, the password is compared, the failure is counted or the tokens
  are given. \<open>lc_cleans\<close> says whether the removal of old sessions in the background succeeds.
\<close>

definition loginFinish ::
    "authRuntime \<Rightarrow> authSettings \<Rightarrow> int \<Rightarrow> loginCall \<Rightarrow> authState \<Rightarrow> (authError, loginResult) result \<times> authState" where
  "loginFinish rt cfg now c st =
     (let email = normalizeEmail (lc_email c);
          maxAttempts = (case sg_maxAttempts cfg of None \<Rightarrow> 5 | Some m \<Rightarrow> m);
          failed = (Inl BadCredentials, registerFailedAttempt now email maxAttempts st)
      in case findUserByEmail email st of
           None \<Rightarrow> failed
         | Some u \<Rightarrow>
             if \<not> u_isActive u then failed
             else if \<not> ar_compare rt (lc_password c) (u_passwordHash u) then failed
             else let st1 = st\<lparr>as_attempts := AList.delete email (as_attempts st)\<rparr> in
               case createRefreshSession rt cfg now (lc_newId c) (lc_rand c) u st1 of
                 (Inl e, st2) \<Rightarrow> (Inl e, st2)
               | (Inr _, st2) \<Rightarrow>
                   (Inr \<lparr>lr_accessToken = signAccessToken rt cfg (lc_expiresIn c) now u, lr_refreshToken = lc_rand c,
                         lr_refreshExpiresAt = iso_string (refreshDeadline cfg now), lr_user = sanitizeUser u\<rparr>,
                    if lc_cleans c
                    then st2\<lparr>as_sessions := filter (\<lambda>s. \<not> (s_userId s = u_id u \<and> (s_expiresAt s < now \<or> s_revokedAt s \<noteq> None)))
                           (as_sessions st2)\<rparr>
                    else st2))"

definition login ::
    "authRuntime \<Rightarrow> authSettings \<Rightarrow> int \<Rightarrow> int \<Rightarrow> loginCall \<Rightarrow> authState \<Rightarrow> (authError, loginResult) result \<times> authState" where
  "login rt cfg now now' c st =
     (case loginGate now (lc_email c) st of Inl e \<Rightarrow> (Inl e, st) | Inr _ \<Rightarrow> loginFinish rt cfg now' c st)"

section \<open>Renewal of a session\<close>

definition refreshFind :: "authRuntime \<Rightarrow> int \<Rightarrow> string \<Rightarrow> authState \<Rightarrow> (authError, sessionRow \<times> userRow) result" where
  "refreshFind rt now token st =
     (case find (\<lambda>s. s_tokenHash s = ar_sha256 rt token) (as_sessions st) of
        None \<Rightarrow> Inl SessionExpired
      | Some s \<Rightarrow>
          (case findUser (s_userId s) st of
             None \<Rightarrow> Inl SessionExpired
           | Some u \<Rightarrow>
               if s_revokedAt s \<noteq> None \<or> s_expiresAt s \<le> now \<or> \<not> u_isActive u \<or> s_authVersion s \<noteq> u_authVersion u
               then Inl SessionExpired else Inr (s, u)))"

text \<open>The rotation, with the session and the user as they were read and the instant of the first half.\<close>

definition rotates :: "authRuntime \<Rightarrow> int \<Rightarrow> string \<Rightarrow> sessionRow \<times> userRow \<Rightarrow> sessionRow \<Rightarrow> bool" where
  "rotates rt now token su s \<longleftrightarrow> s_id s = s_id (fst su) \<and> s_tokenHash s = ar_sha256 rt token \<and> s_revokedAt s = None
     \<and> s_expiresAt s > now \<and> s_authVersion s = u_authVersion (snd su)"

definition refreshRotate ::
    "authRuntime \<Rightarrow> authSettings \<Rightarrow> int \<Rightarrow> string \<Rightarrow> string \<Rightarrow> string option \<Rightarrow> sessionRow \<times> userRow \<Rightarrow> authState
     \<Rightarrow> (authError, loginResult) result \<times> authState" where
  "refreshRotate rt cfg now token rand override su st =
     (let hit = rotates rt now token su; hash = ar_sha256 rt rand;
          rows = map (\<lambda>s. if hit s then s\<lparr>s_tokenHash := hash, s_expiresAt := refreshDeadline cfg now, s_lastUsedAt := now\<rparr> else s)
                   (as_sessions st)
      in if list_ex hit (as_sessions st) \<and> \<not> distinct (map s_tokenHash rows) then (Inl ConstraintViolation, st)
         else if length (filter hit (as_sessions st)) \<noteq> 1 then (Inl SessionRotated, st\<lparr>as_sessions := rows\<rparr>)
         else (Inr \<lparr>lr_accessToken = signAccessToken rt cfg override now (snd su), lr_refreshToken = rand,
                    lr_refreshExpiresAt = iso_string (refreshDeadline cfg now), lr_user = sanitizeUser (snd su)\<rparr>, st\<lparr>as_sessions := rows\<rparr>))"

definition refreshSession ::
    "authRuntime \<Rightarrow> authSettings \<Rightarrow> int \<Rightarrow> string \<Rightarrow> string \<Rightarrow> string option \<Rightarrow> authState
     \<Rightarrow> (authError, loginResult) result \<times> authState" where
  "refreshSession rt cfg now token rand override st =
     (case refreshFind rt now token st of
        Inl e \<Rightarrow> (Inl e, st)
      | Inr su \<Rightarrow> refreshRotate rt cfg now token rand override su st)"

section \<open>Tokens\<close>

fun validateAccessPayload :: "tokenPayload \<Rightarrow> authState \<Rightarrow> (authError, authUserInfo) result" where
  "validateAccessPayload (AccessToken sub _ _ ver) st =
     (case findUser sub st of
        None \<Rightarrow> Inl InactiveUser
      | Some u \<Rightarrow> if \<not> u_isActive u \<or> ver \<noteq> u_authVersion u then Inl InactiveUser else Inr (sanitizeUser u))"
| "validateAccessPayload _ st = Inl InvalidToken"

text \<open>The strategy of a request: the signature and the expiry are checked before.\<close>

definition authenticate :: "authRuntime \<Rightarrow> int \<Rightarrow> string \<Rightarrow> authState \<Rightarrow> (authError, authUserInfo) result" where
  "authenticate rt now token st =
     (case ar_verify rt now token of None \<Rightarrow> Inl InvalidToken | Some p \<Rightarrow> validateAccessPayload p st)"

definition me :: "string \<Rightarrow> authState \<Rightarrow> (authError, authUserInfo) result" where
  "me userId st =
     (case findUser userId st of
        None \<Rightarrow> Inl InactiveUser
      | Some u \<Rightarrow> if \<not> u_isActive u then Inl InactiveUser else Inr (sanitizeUser u))"

definition streamExpiry :: "authSettings \<Rightarrow> string" where
  "streamExpiry cfg = (case sg_streamExpiresIn cfg of Some e \<Rightarrow> e | None \<Rightarrow> ''5m'')"

definition createStreamToken :: "authRuntime \<Rightarrow> authSettings \<Rightarrow> int \<Rightarrow> string \<Rightarrow> string \<Rightarrow> string" where
  "createStreamToken rt cfg now userId cameraId = ar_sign rt (StreamToken userId cameraId) (streamExpiry cfg) now"

definition createPlaybackToken :: "authRuntime \<Rightarrow> authSettings \<Rightarrow> int \<Rightarrow> string \<Rightarrow> string \<Rightarrow> string" where
  "createPlaybackToken rt cfg now userId recordingId = ar_sign rt (PlayToken userId recordingId) (streamExpiry cfg) now"

definition createDownloadZipToken :: "authRuntime \<Rightarrow> int \<Rightarrow> string \<Rightarrow> string list \<Rightarrow> string" where
  "createDownloadZipToken rt now userId recordingIds = ar_sign rt (DownloadZipToken userId recordingIds) ''15m'' now"

definition verifyStreamToken :: "authRuntime \<Rightarrow> int \<Rightarrow> string \<Rightarrow> (authError, string \<times> string) result" where
  "verifyStreamToken rt now token =
     (case ar_verify rt now token of Some (StreamToken sub cameraId) \<Rightarrow> Inr (sub, cameraId) | _ \<Rightarrow> Inl InvalidToken)"

definition verifyPlaybackToken :: "authRuntime \<Rightarrow> int \<Rightarrow> string \<Rightarrow> (authError, string \<times> string) result" where
  "verifyPlaybackToken rt now token =
     (case ar_verify rt now token of Some (PlayToken sub recordingId) \<Rightarrow> Inr (sub, recordingId) | _ \<Rightarrow> Inl InvalidToken)"

definition verifyDownloadZipToken :: "authRuntime \<Rightarrow> int \<Rightarrow> string \<Rightarrow> (authError, string \<times> string list) result" where
  "verifyDownloadZipToken rt now token =
     (case ar_verify rt now token of Some (DownloadZipToken sub recordingIds) \<Rightarrow> Inr (sub, recordingIds) | _ \<Rightarrow> Inl InvalidToken)"

section \<open>Passwords and logout\<close>

definition forgotPassword ::
    "authRuntime \<Rightarrow> authSettings \<Rightarrow> int \<Rightarrow> string \<Rightarrow> string \<Rightarrow> authState \<Rightarrow> (authError, unit) result \<times> authState" where
  "forgotPassword rt cfg now email rand st =
     (case findUserByEmail (normalizeEmail email) st of
        None \<Rightarrow> (Inr (), st)
      | Some u \<Rightarrow>
          if \<not> u_isActive u then (Inr (), st)
          else let st1 = updateUser (u_id u) (\<lambda>x. x\<lparr>u_resetTokenHash := Some (ar_sha256 rt rand),
                   u_resetTokenExpiresAt := Some (now + RESET_TOKEN_TTL_MS)\<rparr>) st
            in (if sg_smtp cfg \<and> ar_mailFails rt (u_email u) then Inl MailFailed else Inr (), st1))"

definition resetPassword ::
    "authRuntime \<Rightarrow> authSettings \<Rightarrow> int \<Rightarrow> string \<Rightarrow> string \<Rightarrow> authState \<Rightarrow> (authError, unit) result \<times> authState" where
  "resetPassword rt cfg now token newPassword st =
     (case find (\<lambda>u. u_resetTokenHash u = Some (ar_sha256 rt token)) (as_users st) of
        None \<Rightarrow> (Inl InvalidResetToken, st)
      | Some u \<Rightarrow>
          (case u_resetTokenExpiresAt u of
             None \<Rightarrow> (Inl InvalidResetToken, st)
           | Some t \<Rightarrow>
               if t < now then (Inl InvalidResetToken, st)
               else case assertPasswordStrength cfg newPassword of
                 Inl e \<Rightarrow> (Inl e, st)
               | Inr _ \<Rightarrow>
                   (Inr (), updateUser (u_id u) (\<lambda>x. x\<lparr>u_passwordHash := ar_hash rt newPassword, u_resetTokenHash := None,
                      u_resetTokenExpiresAt := None, u_authVersion := u_authVersion x + 1\<rparr>) st)))"

text \<open>The two updates of a logout; the first throws for a user that is gone.\<close>

definition logoutUser :: "string \<Rightarrow> authState \<Rightarrow> (authError, unit) result \<times> authState" where
  "logoutUser userId st =
     (if findUser userId st = None then (Inl UserNotFound, st)
      else (Inr (), updateUser userId (\<lambda>x. x\<lparr>u_authVersion := u_authVersion x + 1\<rparr>) st))"

definition logoutSessions :: "int \<Rightarrow> string \<Rightarrow> authState \<Rightarrow> authState" where
  "logoutSessions now userId st =
     st\<lparr>as_sessions := map (\<lambda>s. if s_userId s = userId \<and> s_revokedAt s = None then s\<lparr>s_revokedAt := Some now\<rparr> else s) (as_sessions st)\<rparr>"

definition logout :: "int \<Rightarrow> string \<Rightarrow> authState \<Rightarrow> (authError, unit) result \<times> authState" where
  "logout now userId st =
     (case logoutUser userId st of
        (Inl e, st1) \<Rightarrow> (Inl e, st1)
      | (Inr _, st1) \<Rightarrow> (Inr (), logoutSessions now userId st1))"

section \<open>Roles and guards\<close>

definition canAssignRole :: "userRole \<Rightarrow> userRole \<Rightarrow> bool" where
  "canAssignRole actorRole targetRole =
     (if actorRole = SUPER_ADMIN then True else if actorRole = ADMIN then targetRole \<noteq> SUPER_ADMIN else False)"

fun roleWeight :: "userRole \<Rightarrow> nat" where
  "roleWeight VIEWER = 1"
| "roleWeight OPERATOR = 2"
| "roleWeight ADMIN = 3"
| "roleWeight SUPER_ADMIN = 4"

text \<open>The guard of the roles: \<open>None\<close> is a route without the decorator, or a request without a user.\<close>

definition rolesGuard :: "userRole list option \<Rightarrow> authUserInfo option \<Rightarrow> bool" where
  "rolesGuard required user =
     (case required of
        None \<Rightarrow> True
      | Some roles \<Rightarrow>
          if roles = [] then True
          else case user of
            None \<Rightarrow> False
          | Some u \<Rightarrow> list_ex (\<lambda>role. roleWeight role \<le> roleWeight (ai_role u)) roles)"

end
