(* ===== verification/User_Admin.thy ===== *)
theory User_Admin
  imports Auth_Session
begin

text \<open>
  Administration of users: \<open>apps/api/src/users/users.service.ts\<close>. The tables of authentication and of access control
  are the state. A group administrator is an unprivileged user with an administrative permission on a group.
\<close>

record createUserDto =
  cd_name :: string
  cd_email :: string
  cd_password :: string
  cd_role :: userRole
  cd_groupIds :: "string list option"
  cd_permissionLevel :: "permissionLevel option"

record updateUserDto =
  ud_name :: "string option"
  ud_email :: "string option"
  ud_password :: "string option"
  ud_role :: "userRole option"
  ud_isActive :: "bool option"

type_synonym adminState = "authState \<times> accessDb"

definition isGroupAssignableRole :: "userRole \<Rightarrow> bool" where
  "isGroupAssignableRole role \<longleftrightarrow> role = VIEWER \<or> role = OPERATOR"

definition globalAdmin :: "userRole \<Rightarrow> bool" where
  "globalAdmin role \<longleftrightarrow> role = ADMIN \<or> role = SUPER_ADMIN"

text \<open>The row without the hashes and the version.\<close>

record safeUser =
  su_id :: string
  su_name :: string
  su_email :: string
  su_role :: userRole
  su_isActive :: bool

definition sanitize :: "userRow \<Rightarrow> safeUser" where
  "sanitize u = \<lparr>su_id = u_id u, su_name = u_name u, su_email = u_email u, su_role = u_role u, su_isActive = u_isActive u\<rparr>"

text \<open>New rows come last in the table and first in a list.\<close>

definition listUsers :: "authUser option \<Rightarrow> adminState \<Rightarrow> safeUser list" where
  "listUsers actorOpt w =
     (case actorOpt of
        Some actor \<Rightarrow>
          if isPrivileged actor then map sanitize (rev (as_users (fst w)))
          else let groupIds = getAdminGroupIds (snd w) actor in
            if groupIds = [] then []
            else map sanitize (rev (filter (\<lambda>u. list_ex (\<lambda>p. perm_userId p = u_id u \<and> opt_in (perm_groupId p) groupIds)
                   (db_permissions (snd w))) (as_users (fst w))))
      | None \<Rightarrow> map sanitize (rev (as_users (fst w))))"

definition assertCanManageUser :: "authUser \<Rightarrow> string \<Rightarrow> accessDb \<Rightarrow> (authError, unit) result" where
  "assertCanManageUser actor targetUserId db =
     (let groupIds = getAdminGroupIds db actor in
      if groupIds = [] then Inl NotAllowed
      else if list_ex (\<lambda>p. perm_userId p = targetUserId \<and> opt_in (perm_groupId p) groupIds) (db_permissions db) then Inr ()
      else Inl NotAllowed)"

definition getById :: "string \<Rightarrow> authUser option \<Rightarrow> adminState \<Rightarrow> (authError, safeUser) result" where
  "getById i actorOpt w =
     (case findUser i (fst w) of
        None \<Rightarrow> Inl UserNotFound
      | Some u \<Rightarrow>
          (case actorOpt of
             Some actor \<Rightarrow>
               if isPrivileged actor then Inr (sanitize u)
               else (case assertCanManageUser actor i (snd w) of Inl e \<Rightarrow> Inl e | Inr _ \<Rightarrow> Inr (sanitize u))
           | None \<Rightarrow> Inr (sanitize u)))"

definition resolveManagedGroupIds :: "authUser \<Rightarrow> string list option \<Rightarrow> accessDb \<Rightarrow> (authError, string list) result" where
  "resolveManagedGroupIds actor requested db =
     (let groupIds = js_uniq (filter (\<lambda>i. i \<noteq> []) (map js_trim (case requested of None \<Rightarrow> [] | Some ids \<Rightarrow> ids))) in
      if isPrivileged actor then Inr groupIds
      else let adminGroupIds = getAdminGroupIds db actor in
        if adminGroupIds = [] then Inl NotAllowed
        else let selected = (if groupIds \<noteq> [] then groupIds else adminGroupIds) in
          if list_ex (\<lambda>i. i \<notin> set adminGroupIds) selected then Inl NotAllowed else Inr selected)"

text \<open>
  A new row takes the identifier that the database gives it. An address that is taken and a group that does not exist
  are errors of the database.
\<close>

definition createUser ::
    "authRuntime \<Rightarrow> authSettings \<Rightarrow> string \<Rightarrow> authUser \<Rightarrow> createUserDto \<Rightarrow> adminState \<Rightarrow> (authError, safeUser) result \<times> adminState" where
  "createUser rt cfg newId actor dto w =
     (if \<not> isPrivileged actor \<and> \<not> isGroupAssignableRole (cd_role dto) then (Inl NotAllowed, w)
      else if isPrivileged actor \<and> \<not> canAssignRole (user_role actor) (cd_role dto) then (Inl NotAllowed, w)
      else case resolveManagedGroupIds actor (cd_groupIds dto) (snd w) of
        Inl e \<Rightarrow> (Inl e, w)
      | Inr groupIds \<Rightarrow>
          (case assertPasswordStrength cfg (cd_password dto) of
             Inl e \<Rightarrow> (Inl e, w)
           | Inr _ \<Rightarrow>
               let email = normalizeEmail (cd_email dto);
                   u = \<lparr>u_id = newId, u_name = cd_name dto, u_email = email, u_passwordHash = ar_hash rt (cd_password dto),
                        u_authVersion = 0, u_role = cd_role dto, u_isActive = True, u_resetTokenHash = None,
                        u_resetTokenExpiresAt = None\<rparr>;
                   level = (case cd_permissionLevel dto of None \<Rightarrow> VIEW | Some l \<Rightarrow> l);
                   perms = map (\<lambda>g. \<lparr>perm_userId = newId, perm_cameraId = None, perm_groupId = Some g, perm_level = level\<rparr>) groupIds
               in if newId \<in> set (map u_id (as_users (fst w))) \<or> email \<in> set (map u_email (as_users (fst w)))
                  then (Inl ConstraintViolation, w)
                  else if list_ex (\<lambda>g. g \<notin> set (map grp_id (db_groups (snd w)))) groupIds then (Inl ConstraintViolation, w)
                  else (Inr (sanitize u), ((fst w)\<lparr>as_users := as_users (fst w) @ [u]\<rparr>,
                                           (snd w)\<lparr>db_permissions := db_permissions (snd w) @ perms\<rparr>))))"

definition passwordOf :: "updateUserDto \<Rightarrow> string option" where
  "passwordOf dto = (case ud_password dto of Some p \<Rightarrow> if p = [] then None else Some p | None \<Rightarrow> None)"

definition applyUpdate :: "authRuntime \<Rightarrow> updateUserDto \<Rightarrow> userRow \<Rightarrow> userRow" where
  "applyUpdate rt dto u =
     (let u1 = u\<lparr>u_name := (case ud_name dto of None \<Rightarrow> u_name u | Some n \<Rightarrow> n),
                 u_email := (case ud_email dto of None \<Rightarrow> u_email u | Some e \<Rightarrow> normalizeEmail e),
                 u_role := (case ud_role dto of None \<Rightarrow> u_role u | Some r \<Rightarrow> r),
                 u_isActive := (case ud_isActive dto of None \<Rightarrow> u_isActive u | Some b \<Rightarrow> b)\<rparr>
      in case passwordOf dto of
           None \<Rightarrow> u1
         | Some p \<Rightarrow> u1\<lparr>u_passwordHash := ar_hash rt p, u_authVersion := u_authVersion u + 1\<rparr>)"

text \<open>The checks of an update by an unprivileged user, then those by role.\<close>

definition updateAllowed :: "authUser \<Rightarrow> userRow \<Rightarrow> updateUserDto \<Rightarrow> accessDb \<Rightarrow> (authError, unit) result" where
  "updateAllowed actor existing dto db =
     (case (if isPrivileged actor then Inr ()
            else case assertCanManageUser actor (u_id existing) db of
              Inl e \<Rightarrow> Inl e
            | Inr _ \<Rightarrow>
                if globalAdmin (u_role existing) then Inl NotAllowed
                else (case ud_role dto of
                        None \<Rightarrow> Inr ()
                      | Some r \<Rightarrow>
                          if \<not> isGroupAssignableRole r then Inl NotAllowed
                          else if r \<noteq> u_role existing \<and> u_id existing = user_id actor then Inl NotAllowed
                          else Inr ())) of
        Inl e \<Rightarrow> Inl e
      | Inr _ \<Rightarrow>
          let nextRole = (case ud_role dto of None \<Rightarrow> u_role existing | Some r \<Rightarrow> r) in
          if isPrivileged actor \<and> \<not> canAssignRole (user_role actor) nextRole then Inl NotAllowed
          else if u_role existing = SUPER_ADMIN \<and> user_role actor \<noteq> SUPER_ADMIN then Inl NotAllowed
          else Inr ())"

definition updateUserRow ::
    "authRuntime \<Rightarrow> authSettings \<Rightarrow> authUser \<Rightarrow> string \<Rightarrow> updateUserDto \<Rightarrow> adminState \<Rightarrow> (authError, safeUser) result \<times> adminState" where
  "updateUserRow rt cfg actor i dto w =
     (case findUser i (fst w) of
        None \<Rightarrow> (Inl UserNotFound, w)
      | Some existing \<Rightarrow>
          (case updateAllowed actor existing dto (snd w) of
             Inl e \<Rightarrow> (Inl e, w)
           | Inr _ \<Rightarrow>
               (case (case passwordOf dto of None \<Rightarrow> Inr () | Some p \<Rightarrow> assertPasswordStrength cfg p) of
                  Inl e \<Rightarrow> (Inl e, w)
                | Inr _ \<Rightarrow>
                    let u = applyUpdate rt dto existing in
                    if list_ex (\<lambda>x. u_id x \<noteq> i \<and> u_email x = u_email u) (as_users (fst w)) then (Inl ConstraintViolation, w)
                    else (Inr (sanitize u), (updateUser i (applyUpdate rt dto) (fst w), snd w)))))"

definition changeOwnPassword ::
    "authRuntime \<Rightarrow> authSettings \<Rightarrow> authUser \<Rightarrow> string \<Rightarrow> string \<Rightarrow> adminState \<Rightarrow> (authError, unit) result \<times> adminState" where
  "changeOwnPassword rt cfg actor currentPassword newPassword w =
     (case findUser (user_id actor) (fst w) of
        None \<Rightarrow> (Inl UserNotFound, w)
      | Some u \<Rightarrow>
          if \<not> ar_compare rt currentPassword (u_passwordHash u) then (Inl BadCredentials, w)
          else case assertPasswordStrength cfg newPassword of
            Inl e \<Rightarrow> (Inl e, w)
          | Inr _ \<Rightarrow>
              (Inr (), (updateUser (u_id u) (\<lambda>x. x\<lparr>u_passwordHash := ar_hash rt newPassword, u_authVersion := u_authVersion x + 1\<rparr>) (fst w),
                        snd w)))"

text \<open>The checks that both removals share.\<close>

definition removalAllowed :: "authUser \<Rightarrow> userRow \<Rightarrow> accessDb \<Rightarrow> (authError, unit) result" where
  "removalAllowed actor existing db =
     (case (if isPrivileged actor then Inr ()
            else case assertCanManageUser actor (u_id existing) db of
              Inl e \<Rightarrow> Inl e
            | Inr _ \<Rightarrow> if globalAdmin (u_role existing) then Inl NotAllowed else Inr ()) of
        Inl e \<Rightarrow> Inl e
      | Inr _ \<Rightarrow> if isPrivileged actor \<and> \<not> canAssignRole (user_role actor) (u_role existing) then Inl NotAllowed else Inr ())"

definition softDelete :: "authUser \<Rightarrow> string \<Rightarrow> adminState \<Rightarrow> (authError, safeUser) result \<times> adminState" where
  "softDelete actor i w =
     (case findUser i (fst w) of
        None \<Rightarrow> (Inl UserNotFound, w)
      | Some existing \<Rightarrow>
          (case removalAllowed actor existing (snd w) of
             Inl e \<Rightarrow> (Inl e, w)
           | Inr _ \<Rightarrow>
               let f = (\<lambda>x. x\<lparr>u_isActive := False, u_authVersion := u_authVersion x + 1\<rparr>)
               in (Inr (sanitize (f existing)), (updateUser i f (fst w), snd w))))"

text \<open>The foreign keys remove the sessions and the permissions of the user; that of the owner of a camera refuses.\<close>

definition deleteCascade :: "string \<Rightarrow> adminState \<Rightarrow> adminState" where
  "deleteCascade i w =
     ((fst w)\<lparr>as_users := filter (\<lambda>u. u_id u \<noteq> i) (as_users (fst w)),
              as_sessions := filter (\<lambda>s. s_userId s \<noteq> i) (as_sessions (fst w))\<rparr>,
      (snd w)\<lparr>db_permissions := filter (\<lambda>p. perm_userId p \<noteq> i) (db_permissions (snd w))\<rparr>)"

definition hardDelete :: "authUser \<Rightarrow> string \<Rightarrow> adminState \<Rightarrow> (authError, unit) result \<times> adminState" where
  "hardDelete actor i w =
     (case findUser i (fst w) of
        None \<Rightarrow> (Inl UserNotFound, w)
      | Some existing \<Rightarrow>
          if u_id existing = user_id actor then (Inl NotAllowed, w)
          else case removalAllowed actor existing (snd w) of
            Inl e \<Rightarrow> (Inl e, w)
          | Inr _ \<Rightarrow>
              let owned = length (filter (\<lambda>c. cam_isPrivate c \<and> cam_ownerUserId c = Some i) (db_cameras (snd w))) in
              if owned > 0 then (Inl (OwnsPrivateCameras owned), w)
              else if list_ex (\<lambda>c. cam_ownerUserId c = Some i) (db_cameras (snd w)) then (Inl ConstraintViolation, w)
              else (Inr (), deleteCascade i w))"

end
