(* ===== verification/Auth_Props.thy ===== *)
theory Auth_Props
  imports User_Admin
begin

text \<open>
  Properties of authentication over any interleaving of the operations: revoked credentials stay dead, a refresh token
  is used once, and the lock bounds the guesses of a password that come one after the other.
\<close>

section \<open>Steps\<close>

text \<open>
  The atomic steps of the two services, with any settings, instants and arguments. The halves of a login and of a
  renewal are steps of their own: a rotation comes with whatever its first half read. \<open>ids\<close> and \<open>rands\<close> are the
  identifiers and the random strings still to come.
\<close>

inductive authStep :: "authRuntime \<Rightarrow> string set \<Rightarrow> string set \<Rightarrow> adminState \<Rightarrow> adminState \<Rightarrow> bool"
  for rt ids rands where
  login: "lc_rand c \<in> rands \<Longrightarrow> authStep rt ids rands (st, db) (snd (loginFinish rt cfg now c st), db)"
| rotate: "rand \<in> rands \<Longrightarrow> authStep rt ids rands (st, db) (snd (refreshRotate rt cfg now token rand override su st), db)"
| forgot: "authStep rt ids rands (st, db) (snd (forgotPassword rt cfg now email rand st), db)"
| reset: "authStep rt ids rands (st, db) (snd (resetPassword rt cfg now token pw st), db)"
| logout_user: "authStep rt ids rands (st, db) (snd (logoutUser i st), db)"
| logout_sessions: "authStep rt ids rands (st, db) (logoutSessions now i st, db)"
| create: "newId \<in> ids \<Longrightarrow> authStep rt ids rands w (snd (createUser rt cfg newId actor dto w))"
| update: "authStep rt ids rands w (snd (updateUserRow rt cfg actor i udto w))"
| change: "authStep rt ids rands w (snd (changeOwnPassword rt cfg actor pw pw' w))"
| soft: "authStep rt ids rands w (snd (softDelete actor i w))"
| hard: "authStep rt ids rands w (snd (hardDelete actor i w))"

inductive_cases authStepE: "authStep rt ids rands w w'"

text \<open>What a step does to the users: versions only grow, and rows are only added with new identifiers.\<close>

definition usersGrow :: "string set \<Rightarrow> authState \<Rightarrow> authState \<Rightarrow> bool" where
  "usersGrow ids st st' \<longleftrightarrow>
     (\<forall>u'\<in>set (as_users st'). u_id u' \<in> ids \<or> (\<exists>u\<in>set (as_users st). u_id u = u_id u' \<and> u_authVersion u \<le> u_authVersion u'))"

text \<open>What a step does to the sessions: hashes are those of before or of new random strings, the rest that matters is kept.\<close>

definition sessionsKeep :: "authRuntime \<Rightarrow> string set \<Rightarrow> authState \<Rightarrow> authState \<Rightarrow> bool" where
  "sessionsKeep rt rands st st' \<longleftrightarrow>
     (\<forall>s'\<in>set (as_sessions st'). s_tokenHash s' \<in> ar_sha256 rt ` rands
        \<or> (\<exists>s\<in>set (as_sessions st). s_tokenHash s = s_tokenHash s' \<and> s_userId s = s_userId s' \<and> s_authVersion s = s_authVersion s'))"

lemma usersGrow_same: "as_users st' = as_users st \<Longrightarrow> usersGrow ids st st'"
  by (auto simp: usersGrow_def)

lemma usersGrow_map:
  assumes "as_users st' = map f (as_users st)" "\<And>u. u_id (f u) = u_id u \<and> u_authVersion u \<le> u_authVersion (f u)"
  shows "usersGrow ids st st'"
  using assms by (auto simp: usersGrow_def)

lemma usersGrow_update:
  assumes "\<And>u. u_id (f u) = u_id u \<and> u_authVersion u \<le> u_authVersion (f u)"
  shows "usersGrow ids st (updateUser i f st)"
  by (rule usersGrow_map [of _ "\<lambda>u. if u_id u = i then f u else u"]) (use assms in \<open>simp_all add: updateUser_def\<close>)

lemma sessionsKeep_same: "as_sessions st' = as_sessions st \<Longrightarrow> sessionsKeep rt rands st st'"
  by (auto simp: sessionsKeep_def)

lemma sessionsKeep_update [simp]: "sessionsKeep rt rands st (updateUser i f st)"
  by (rule sessionsKeep_same) (simp add: updateUser_def)

lemma insertSession_effect:
  "as_users (snd (insertSession s st)) = as_users st \<and> as_attempts (snd (insertSession s st)) = as_attempts st
   \<and> (as_sessions (snd (insertSession s st)) = as_sessions st \<or> as_sessions (snd (insertSession s st)) = as_sessions st @ [s])"
  by (simp add: insertSession_def)

lemma loginFinish_effect:
  assumes "lc_rand c \<in> rands"
  shows "as_users (snd (loginFinish rt cfg now c st)) = as_users st \<and> sessionsKeep rt rands st (snd (loginFinish rt cfg now c st))"
proof -
  have failed: "as_users (registerFailedAttempt now e m st) = as_users st" "sessionsKeep rt rands st (registerFailedAttempt now e m st)" for e m
    by (simp_all add: registerFailedAttempt_def Let_def sessionsKeep_same)
  have made: "as_users (snd (createRefreshSession rt cfg now i (lc_rand c) u st1)) = as_users st1
      \<and> set (as_sessions (snd (createRefreshSession rt cfg now i (lc_rand c) u st1))) \<subseteq> set (as_sessions st1) \<union> {s. s_tokenHash s = ar_sha256 rt (lc_rand c)}"
    for i u st1 by (simp add: createRefreshSession_def insertSession_def)
  show ?thesis
  proof (cases "\<exists>u. findUserByEmail (normalizeEmail (lc_email c)) st = Some u \<and> u_isActive u \<and> ar_compare rt (lc_password c) (u_passwordHash u)")
    case False
    then show ?thesis using failed by (auto simp: loginFinish_def Let_def split: option.splits)
  next
    case True
    then obtain u where u: "findUserByEmail (normalizeEmail (lc_email c)) st = Some u" "u_isActive u" "ar_compare rt (lc_password c) (u_passwordHash u)"
      by blast
    define st1 where "st1 = st\<lparr>as_attempts := AList.delete (normalizeEmail (lc_email c)) (as_attempts st)\<rparr>"
    obtain r st2 where r: "createRefreshSession rt cfg now (lc_newId c) (lc_rand c) u st1 = (r, st2)" by fastforce
    have st': "as_users (snd (loginFinish rt cfg now c st)) = as_users st2"
      "set (as_sessions (snd (loginFinish rt cfg now c st))) \<subseteq> set (as_sessions st2)"
      using u r by (auto simp: loginFinish_def Let_def st1_def split: sum.splits)
    have "as_users st2 = as_users st" "set (as_sessions st2) \<subseteq> set (as_sessions st) \<union> {s. s_tokenHash s = ar_sha256 rt (lc_rand c)}"
      using made [of "lc_newId c" u st1] r by (simp_all add: st1_def)
    with st' assms show ?thesis unfolding sessionsKeep_def by (auto dest!: subsetD)
  qed
qed

lemma refreshRotate_effect:
  assumes "rand \<in> rands"
  shows "as_users (snd (refreshRotate rt cfg now token rand ov su st)) = as_users st
    \<and> sessionsKeep rt rands st (snd (refreshRotate rt cfg now token rand ov su st))"
  using assms by (auto simp: refreshRotate_def Let_def sessionsKeep_def split: if_splits)

lemma authStep_effect:
  assumes "authStep rt ids rands w w'"
  shows "usersGrow ids (fst w) (fst w') \<and> sessionsKeep rt rands (fst w) (fst w')"
  using assms
proof cases
  case (login c st db cfg now)
  then show ?thesis using loginFinish_effect [of c rands rt cfg now st] by (simp add: usersGrow_same)
next
  case (rotate rand st db cfg now token override su)
  then show ?thesis using refreshRotate_effect [of rand rands rt cfg now token override su st] by (simp add: usersGrow_same)
next
  case (forgot st db cfg now email rand)
  then show ?thesis by (auto simp: forgotPassword_def Let_def usersGrow_same sessionsKeep_same usersGrow_update split: option.splits)
next
  case (reset st db cfg now token pw)
  then show ?thesis by (auto simp: resetPassword_def usersGrow_same sessionsKeep_same usersGrow_update split: option.splits sum.splits)
next
  case (logout_user st db i)
  then show ?thesis by (auto simp: logoutUser_def usersGrow_same sessionsKeep_same usersGrow_update)
next
  case (logout_sessions st db now i)
  then show ?thesis by (auto simp: logoutSessions_def usersGrow_same sessionsKeep_def)
next
  case (create newId cfg actor dto)
  then show ?thesis
    by (auto simp: createUser_def Let_def usersGrow_def sessionsKeep_same split: sum.splits)
next
  case (update cfg actor i udto)
  have "u_id (applyUpdate rt udto u) = u_id u \<and> u_authVersion u \<le> u_authVersion (applyUpdate rt udto u)" for u
    by (simp add: applyUpdate_def Let_def split: option.split)
  with update show ?thesis
    by (auto simp: updateUserRow_def Let_def usersGrow_same sessionsKeep_same usersGrow_update split: option.splits sum.splits)
next
  case (change cfg actor pw pw')
  then show ?thesis
    by (auto simp: changeOwnPassword_def usersGrow_same sessionsKeep_same usersGrow_update split: option.splits sum.splits)
next
  case (soft actor i)
  then show ?thesis
    by (auto simp: softDelete_def Let_def usersGrow_same sessionsKeep_same usersGrow_update split: option.splits sum.splits)
next
  case (hard actor i)
  then show ?thesis
    by (auto simp: hardDelete_def Let_def deleteCascade_def usersGrow_def sessionsKeep_def split: option.splits sum.splits)
qed

section \<open>Revocation\<close>

text \<open>The operations that revoke the credentials of a user, when they succeed.\<close>

inductive revokes :: "authRuntime \<Rightarrow> string \<Rightarrow> adminState \<Rightarrow> adminState \<Rightarrow> bool" for rt i where
  by_logout: "logout now i st = (Inr (), st') \<Longrightarrow> revokes rt i (st, db) (st', db)"
| by_reset: "\<lbrakk>resetPassword rt cfg now token pw st = (Inr (), st');
      find (\<lambda>u. u_resetTokenHash u = Some (ar_sha256 rt token)) (as_users st) = Some u; u_id u = i\<rbrakk> \<Longrightarrow> revokes rt i (st, db) (st', db)"
| by_change: "changeOwnPassword rt cfg actor pw pw' w = (Inr (), w') \<Longrightarrow> user_id actor = i \<Longrightarrow> revokes rt i w w'"
| by_update: "updateUserRow rt cfg actor i dto w = (Inr x, w') \<Longrightarrow> passwordOf dto \<noteq> None \<Longrightarrow> revokes rt i w w'"
| by_removal: "softDelete actor i w = (Inr y, w') \<Longrightarrow> revokes rt i w w'"
| by_deletion: "hardDelete actor i w = (Inr (), w') \<Longrightarrow> revokes rt i w w'"

definition raises :: "string \<Rightarrow> authState \<Rightarrow> authState \<Rightarrow> bool" where
  "raises i st st' \<longleftrightarrow> (\<exists>f. as_users st' = map (\<lambda>u. if u_id u = i then f u else u) (as_users st)
     \<and> (\<forall>u. u_id (f u) = u_id u \<and> u_authVersion (f u) = u_authVersion u + 1))"

lemma raises_update:
  "(\<And>u. u_id (f u) = u_id u \<and> u_authVersion (f u) = u_authVersion u + 1) \<Longrightarrow> as_users st' = as_users (updateUser i f st) \<Longrightarrow> raises i st st'"
  unfolding raises_def by (intro exI [of _ f]) (simp add: updateUser_def)

lemma findUser_id: "findUser i st = Some u \<Longrightarrow> u_id u = i \<and> u \<in> set (as_users st)"
  by (auto simp: findUser_def find_Some_iff)

lemma revokes_effect:
  assumes "revokes rt i w w'"
  shows "(raises i (fst w) (fst w') \<or> (\<forall>u\<in>set (as_users (fst w')). u_id u \<noteq> i)) \<and> sessionsKeep rt {} (fst w) (fst w')"
  using assms
proof cases
  case (by_logout now st st' db)
  then have "st' = logoutSessions now i (updateUser i (\<lambda>x. x\<lparr>u_authVersion := u_authVersion x + 1\<rparr>) st)"
    by (auto simp: logout_def logoutUser_def split: if_splits)
  then have "raises i st st'" "sessionsKeep rt {} st st'"
    by (auto simp: sessionsKeep_def logoutSessions_def updateUser_def intro!: raises_update [of "\<lambda>x. x\<lparr>u_authVersion := u_authVersion x + 1\<rparr>"])
  with by_logout show ?thesis by simp
next
  case (by_reset cfg now token pw st st' u db)
  then have "st' = updateUser i (\<lambda>x. x\<lparr>u_passwordHash := ar_hash rt pw, u_resetTokenHash := None,
      u_resetTokenExpiresAt := None, u_authVersion := u_authVersion x + 1\<rparr>) st"
    by (auto simp: resetPassword_def split: option.splits if_splits sum.splits)
  with by_reset show ?thesis by (auto intro: raises_update [rotated])
next
  case (by_change cfg actor pw pw')
  then show ?thesis using findUser_id
    by (auto simp: changeOwnPassword_def intro: raises_update [rotated] split: option.splits if_splits sum.splits)
next
  case (by_update cfg actor dto x)
  then have "fst w' = updateUser i (applyUpdate rt dto) (fst w)"
    by (auto simp: updateUserRow_def Let_def split: option.splits if_splits sum.splits)
  moreover have "u_id (applyUpdate rt dto u) = u_id u \<and> u_authVersion (applyUpdate rt dto u) = u_authVersion u + 1" for u
    using by_update(2) by (auto simp: applyUpdate_def Let_def)
  ultimately show ?thesis by (auto intro: raises_update [rotated])
next
  case (by_removal actor y)
  then show ?thesis
    by (auto simp: softDelete_def Let_def intro: raises_update [rotated] split: option.splits sum.splits)
next
  case (by_deletion actor)
  then have "w' = deleteCascade i w" by (auto simp: hardDelete_def Let_def split: option.splits sum.splits if_splits)
  then show ?thesis by (auto simp: deleteCascade_def sessionsKeep_def)
qed

text \<open>The version of the user has passed \<open>v\<close>; the sessions with the hash \<open>h\<close> are of that user and not younger.\<close>

definition versionPast :: "string \<Rightarrow> int \<Rightarrow> adminState \<Rightarrow> bool" where
  "versionPast i v w \<longleftrightarrow> (\<forall>u\<in>set (as_users (fst w)). u_id u = i \<longrightarrow> v < u_authVersion u)"

definition hashOld :: "string \<Rightarrow> string \<Rightarrow> int \<Rightarrow> adminState \<Rightarrow> bool" where
  "hashOld h i v w \<longleftrightarrow> (\<forall>s\<in>set (as_sessions (fst w)). s_tokenHash s = h \<longrightarrow> s_userId s = i \<and> s_authVersion s \<le> v)"

interpretation past: step_invariant "\<lambda>w. i \<notin> ids \<and> versionPast i v w" "authStep rt ids rands" "\<lambda>w. i \<notin> ids \<and> versionPast i v w"
  for rt ids rands i v
proof
  show "i \<notin> ids \<and> versionPast i v w'" if "i \<notin> ids \<and> versionPast i v w" "authStep rt ids rands w w'" for w w'
    using that(1) authStep_effect [OF that(2)] unfolding versionPast_def usersGrow_def by fastforce
qed

interpretation old: step_invariant "\<lambda>w. h \<notin> ar_sha256 rt ` rands \<and> hashOld h i v w" "authStep rt ids rands"
    "\<lambda>w. h \<notin> ar_sha256 rt ` rands \<and> hashOld h i v w"
  for rt ids rands h i v
proof
  show "h \<notin> ar_sha256 rt ` rands \<and> hashOld h i v w'"
    if "h \<notin> ar_sha256 rt ` rands \<and> hashOld h i v w" "authStep rt ids rands w w'" for w w'
    using that(1) authStep_effect [OF that(2)] unfolding hashOld_def sessionsKeep_def by fastforce
qed

interpretation gone: step_invariant "\<lambda>w. h \<notin> ar_sha256 rt ` rands \<and> (\<forall>s\<in>set (as_sessions (fst w)). s_tokenHash s \<noteq> h)" "authStep rt ids rands"
    "\<lambda>w. h \<notin> ar_sha256 rt ` rands \<and> (\<forall>s\<in>set (as_sessions (fst w)). s_tokenHash s \<noteq> h)"
  for rt ids rands h
proof
  show "h \<notin> ar_sha256 rt ` rands \<and> (\<forall>s\<in>set (as_sessions (fst w')). s_tokenHash s \<noteq> h)"
    if "h \<notin> ar_sha256 rt ` rands \<and> (\<forall>s\<in>set (as_sessions (fst w)). s_tokenHash s \<noteq> h)" "authStep rt ids rands w w'" for w w'
    using that(1) authStep_effect [OF that(2)] unfolding sessionsKeep_def by fastforce
qed

lemma versionPast_rejects:
  "versionPast i v w \<Longrightarrow> ver \<le> v \<Longrightarrow> validateAccessPayload (AccessToken i e r ver) (fst w) = Inl InactiveUser"
  by (auto simp: versionPast_def split: option.split dest!: findUser_id)

lemma hashOld_rejects:
  assumes "versionPast i v w" "hashOld (ar_sha256 rt t) i v w"
  shows "refreshFind rt now t (fst w) = Inl SessionExpired"
proof -
  have "s_authVersion s \<noteq> u_authVersion u"
    if "find (\<lambda>s. s_tokenHash s = ar_sha256 rt t) (as_sessions (fst w)) = Some s" "findUser (s_userId s) (fst w) = Some u" for s u
  proof -
    have "s \<in> set (as_sessions (fst w))" "s_tokenHash s = ar_sha256 rt t" using that(1) by (auto simp: find_Some_iff)
    with assms findUser_id [OF that(2)] show ?thesis unfolding versionPast_def hashOld_def by force
  qed
  then show ?thesis by (auto simp: refreshFind_def split: option.split)
qed

lemma revokes_past:
  assumes "revokes rt i w w1" "distinct (map u_id (as_users (fst w)))" "findUser i (fst w) = Some u"
  shows "versionPast i (u_authVersion u) w1"
proof -
  have only: "x = u" if "x \<in> set (as_users (fst w))" "u_id x = i" for x
    using that findUser_id [OF assms(3)] assms(2) by (auto simp: distinct_map inj_on_def)
  consider "raises i (fst w) (fst w1)" | "\<forall>x\<in>set (as_users (fst w1)). u_id x \<noteq> i" using revokes_effect [OF assms(1)] by blast
  then show ?thesis
  proof cases
    case 1
    then obtain f where f: "as_users (fst w1) = map (\<lambda>u. if u_id u = i then f u else u) (as_users (fst w))"
      "\<And>u. u_id (f u) = u_id u \<and> u_authVersion (f u) = u_authVersion u + 1" unfolding raises_def by blast
    have "u_authVersion u < u_authVersion y" if y: "y \<in> set (as_users (fst w1))" "u_id y = i" for y
    proof -
      from y(1) f(1) obtain x where x: "x \<in> set (as_users (fst w))" "y = (if u_id x = i then f x else x)" by auto
      with y(2) f(2) have "u_id x = i" by (cases "u_id x = i") simp_all
      with x only f(2) show ?thesis by simp
    qed
    then show ?thesis unfolding versionPast_def by blast
  qed (simp add: versionPast_def)
qed

lemma revokes_old:
  assumes "revokes rt i w w1" "distinct (map s_tokenHash (as_sessions (fst w)))" "findUser i (fst w) = Some u"
    and "refreshFind rt now t (fst w) = Inr (s, u)"
  shows "hashOld (ar_sha256 rt t) i (u_authVersion u) w1"
proof -
  have s: "find (\<lambda>s. s_tokenHash s = ar_sha256 rt t) (as_sessions (fst w)) = Some s" "findUser (s_userId s) (fst w) = Some u"
    "s_authVersion s = u_authVersion u" using assms(4) by (auto simp: refreshFind_def split: option.splits if_splits)
  have "s \<in> set (as_sessions (fst w))" "s_tokenHash s = ar_sha256 rt t" using s(1) by (auto simp: find_Some_iff)
  then have "y = s" if "y \<in> set (as_sessions (fst w))" "s_tokenHash y = ar_sha256 rt t" for y
    using that assms(2) by (simp add: distinct_map inj_on_def)
  moreover have "s_userId s = i" using findUser_id [OF s(2)] findUser_id [OF assms(3)] by simp
  moreover have "\<exists>y\<in>set (as_sessions (fst w)). s_tokenHash y = s_tokenHash z \<and> s_userId y = s_userId z \<and> s_authVersion y = s_authVersion z"
    if "z \<in> set (as_sessions (fst w1))" for z using revokes_effect [OF assms(1)] that unfolding sessionsKeep_def by blast
  ultimately show ?thesis using s(3) unfolding hashOld_def by (metis order_refl)
qed

text \<open>A rotation that goes through gives an old session a new hash, which is the hash of no other session.\<close>

lemma rotate_old:
  assumes "refreshRotate rt cfg now t rand ov su st = (Inr res, st')" "hashOld (ar_sha256 rt t) i v (st, db)"
  shows "hashOld (ar_sha256 rt rand) i v (st', db)"
proof -
  let ?hit = "rotates rt now t su"
  let ?g = "\<lambda>s. if ?hit s then s\<lparr>s_tokenHash := ar_sha256 rt rand, s_expiresAt := refreshDeadline cfg now, s_lastUsedAt := now\<rparr> else s"
  have rows: "as_sessions st' = map ?g (as_sessions st)" "distinct (map s_tokenHash (as_sessions st'))"
    and one: "length (filter ?hit (as_sessions st)) = 1"
    using assms(1) by (auto simp: refreshRotate_def Let_def list_ex_iff length_Suc_conv filter_eq_Cons_iff split: if_splits)
  then obtain a where a: "a \<in> set (as_sessions st)" "?hit a" by (metis filter_False length_0_conv zero_neq_one)
  then have "?g a \<in> set (as_sessions st')" "s_tokenHash (?g a) = ar_sha256 rt rand" by (simp_all add: rows(1))
  then have "z = ?g a" if "z \<in> set (as_sessions st')" "s_tokenHash z = ar_sha256 rt rand" for z
    using that rows(2) by (simp add: distinct_map inj_on_def)
  moreover have "s_userId a = i" "s_authVersion a \<le> v" using a assms(2) by (auto simp: hashOld_def rotates_def)
  ultimately show ?thesis using a(2) unfolding hashOld_def by force
qed

section \<open>Properties\<close>

text \<open>
  Property C13. Revoked credentials stay dead. Once a logout, a reset or change of the password, an update that sets
  a password, or a removal or deletion of the user has succeeded, no access token issued for the user before is
  accepted again, and no refresh token that was good before is accepted by a renewal that begins afterwards, whatever
  operations follow in whatever order. A renewal that had read the session before may still go through, but what it hands
  out is dead too: its access token carries the old version, and its refresh token is refused in every later state. It is
  assumed that the identifier of the user is not given to a new user and that the random strings have different hashes.
\<close>

theorem revoked_credentials_stay_dead:
  assumes "distinct (map u_id (as_users (fst w)))" "distinct (map s_tokenHash (as_sessions (fst w)))"
    and "findUser i (fst w) = Some u" "revokes rt i w w1"
    and "i \<notin> ids" "reachable (\<lambda>x. x = w1) (authStep rt ids rands) w'"
  shows "(ver \<le> u_authVersion u \<longrightarrow> validateAccessPayload (AccessToken i e r ver) (fst w') = Inl InactiveUser)
    \<and> (refreshFind rt now t (fst w) = Inr (s, u) \<and> ar_sha256 rt t \<notin> ar_sha256 rt ` rands \<longrightarrow>
         refreshFind rt now' t (fst w') = Inl SessionExpired)
    \<and> (refreshFind rt now t (fst w) = Inr (s, u) \<and> ar_sha256 rt t \<notin> ar_sha256 rt ` rands
         \<and> refreshRotate rt cfg now t rand ov (s, u) (fst w') = (Inr res, st2)
         \<and> reachable (\<lambda>x. x = (st2, snd w')) (authStep rt ids rands2) w2 \<and> ar_sha256 rt rand \<notin> ar_sha256 rt ` rands2 \<longrightarrow>
         (\<exists>p x. lr_accessToken res = ar_sign rt p x now \<and> validateAccessPayload p (fst w2) = Inl InactiveUser)
         \<and> refreshFind rt now' (lr_refreshToken res) (fst w2) = Inl SessionExpired)"
proof -
  let ?v = "u_authVersion u"
  have run: "versionPast i ?v y" if "reachable (\<lambda>x. x = w0) (authStep rt ids rs) y" "versionPast i ?v w0" for w0 y rs
    using past.reachable_inv [OF reachable_from [OF that(1), of "\<lambda>w. i \<notin> ids \<and> versionPast i ?v w"]] that(2) assms(5) by blast
  have hash: "hashOld h i ?v y" if "reachable (\<lambda>x. x = w0) (authStep rt ids rs) y" "hashOld h i ?v w0" "h \<notin> ar_sha256 rt ` rs" for h w0 y rs
    using old.reachable_inv [OF reachable_from [OF that(1), of "\<lambda>w. h \<notin> ar_sha256 rt ` rs \<and> hashOld h i ?v w"]] that(2,3) by blast
  have past: "versionPast i ?v w'" using run [OF assms(6) revokes_past [OF assms(4,1,3)]] .
  have old: "hashOld (ar_sha256 rt t) i ?v w'" if "refreshFind rt now t (fst w) = Inr (s, u)" "ar_sha256 rt t \<notin> ar_sha256 rt ` rands"
    using hash [OF assms(6) revokes_old [OF assms(4,2,3) that(1)] that(2)] .
  have late: "(\<exists>p x. lr_accessToken res = ar_sign rt p x now \<and> validateAccessPayload p (fst w2) = Inl InactiveUser)
      \<and> refreshFind rt now' (lr_refreshToken res) (fst w2) = Inl SessionExpired"
    if "refreshFind rt now t (fst w) = Inr (s, u)" "ar_sha256 rt t \<notin> ar_sha256 rt ` rands"
      and rot: "refreshRotate rt cfg now t rand ov (s, u) (fst w') = (Inr res, st2)"
      and w2: "reachable (\<lambda>x. x = (st2, snd w')) (authStep rt ids rands2) w2" "ar_sha256 rt rand \<notin> ar_sha256 rt ` rands2"
  proof -
    have "as_users st2 = as_users (fst w')" using refreshRotate_effect [of rand "{rand}" rt cfg now t ov "(s, u)" "fst w'"] rot by simp
    then have "versionPast i ?v (st2, snd w')" using past by (simp add: versionPast_def)
    then have v2: "versionPast i ?v w2" by (rule run [OF w2(1)])
    have "hashOld (ar_sha256 rt rand) i ?v (st2, snd w')" using old [OF that(1,2)] by (intro rotate_old [OF rot]) (simp add: hashOld_def)
    then have "hashOld (ar_sha256 rt rand) i ?v w2" by (rule hash [OF w2(1) _ w2(2)])
    moreover have "lr_refreshToken res = rand" "lr_accessToken res = signAccessToken rt cfg ov now u"
      using rot by (auto simp: refreshRotate_def Let_def split: if_splits)
    moreover have "u_id u = i" using findUser_id [OF assms(3)] by simp
    ultimately show ?thesis using hashOld_rejects [OF v2] versionPast_rejects [OF v2] unfolding signAccessToken_def by blast
  qed
  from past old late versionPast_rejects hashOld_rejects show ?thesis by blast
qed

text \<open>
  Property C15. A refresh token is used once. When a renewal has rotated a token, the token renews nothing in any
  later state: neither a new call, which does not find it, nor the second half of a call that had read the same
  session before, which rotates no row and is refused.
\<close>

theorem refresh_token_single_use:
  assumes "distinct (map s_tokenHash (as_sessions st))" "refreshRotate rt cfg now t rand ov su st = (Inr res, st1)"
    and "rand \<in> rands" "ar_sha256 rt t \<notin> ar_sha256 rt ` rands"
    and "reachable (\<lambda>x. x = (st1, db)) (authStep rt ids rands) w'"
  shows "refreshFind rt now' t (fst w') = Inl SessionExpired
    \<and> refreshRotate rt cfg' now' t rand' ov' su' (fst w') = (Inl SessionRotated, fst w')"
proof -
  let ?h = "ar_sha256 rt t" and ?hit = "rotates rt now t su"
  have st1: "as_sessions st1 = map (\<lambda>s. if ?hit s then s\<lparr>s_tokenHash := ar_sha256 rt rand, s_expiresAt := refreshDeadline cfg now,
      s_lastUsedAt := now\<rparr> else s) (as_sessions st)" and one: "length (filter ?hit (as_sessions st)) = 1"
    using assms(2) by (auto simp: refreshRotate_def Let_def split: if_splits)
  from one obtain a where "filter ?hit (as_sessions st) = [a]" by (auto simp: length_Suc_conv)
  then have "a \<in> set (filter ?hit (as_sessions st))" by simp
  then have a: "a \<in> set (as_sessions st)" "?hit a" by simp_all
  have "?hit y" if "y \<in> set (as_sessions st)" "s_tokenHash y = ?h" for y
  proof -
    have "y = a" using that a assms(1) by (auto simp: rotates_def distinct_map inj_on_def)
    with a show ?thesis by simp
  qed
  moreover have "ar_sha256 rt rand \<noteq> ?h" using imageI [OF assms(3), of "ar_sha256 rt"] assms(4) by auto
  ultimately have "\<forall>s\<in>set (as_sessions st1). s_tokenHash s \<noteq> ?h" using st1 by auto
  with gone.reachable_inv [OF reachable_from [OF assms(5), of "\<lambda>w. ?h \<notin> ar_sha256 rt ` rands \<and> (\<forall>s\<in>set (as_sessions (fst w)). s_tokenHash s \<noteq> ?h)"]] assms(4)
  have none: "\<forall>s\<in>set (as_sessions (fst w')). s_tokenHash s \<noteq> ?h" by simp
  have "find (\<lambda>s. s_tokenHash s = ?h) (as_sessions (fst w')) = None" using none by (auto simp: find_None_iff)
  moreover have no: "\<not> rotates rt now' t su' s" if "s \<in> set (as_sessions (fst w'))" for s
    using none that by (auto simp: rotates_def)
  then have "filter (rotates rt now' t su') (as_sessions (fst w')) = []" "\<not> list_ex (rotates rt now' t su') (as_sessions (fst w'))"
    "map (\<lambda>s. if rotates rt now' t su' s then f s else s) (as_sessions (fst w')) = as_sessions (fst w')" for f
    by (auto simp: filter_empty_conv list_ex_iff intro: map_idI)
  ultimately show ?thesis by (simp add: refreshFind_def refreshRotate_def Let_def)
qed

section \<open>The lock\<close>

text \<open>Logins that come one after the other, each with the instants of its two halves.\<close>

fun runLogins ::
    "authRuntime \<Rightarrow> authSettings \<Rightarrow> (int \<times> int \<times> loginCall) list \<Rightarrow> authState \<Rightarrow> (authError, loginResult) result list \<times> authState" where
  "runLogins rt cfg [] st = ([], st)"
| "runLogins rt cfg ((now, now', c) # cs) st =
     (let (r, st1) = login rt cfg now now' c st; (rs, st2) = runLogins rt cfg cs st1 in (r # rs, st2))"

definition attemptsOf :: "string \<Rightarrow> authState \<Rightarrow> loginAttempt" where
  "attemptsOf e st = (case map_of (as_attempts st) e of None \<Rightarrow> \<lparr>la_count = 0, la_lockedUntil = 0\<rparr> | Some a \<Rightarrow> a)"

definition wrongGuess :: "(authError, loginResult) result \<Rightarrow> bool" where
  "wrongGuess r \<longleftrightarrow> r = Inl BadCredentials"

definition refused :: "(authError, loginResult) result \<Rightarrow> bool" where
  "refused r \<longleftrightarrow> wrongGuess r \<or> (case r of Inl (Locked n) \<Rightarrow> True | _ \<Rightarrow> False)"

lemma loginGate_locked:
  assumes "now < la_lockedUntil (attemptsOf (normalizeEmail e) st)" "0 \<le> now"
  shows "\<exists>n. loginGate now e st = Inl (Locked n)"
  using assms by (auto simp: attemptsOf_def loginGate_def split: option.splits)

lemma loginGate_open: "loginGate now e st = Inr () \<or> (\<exists>n. loginGate now e st = Inl (Locked n))"
  by (auto simp: loginGate_def split: option.splits)

lemma createRefreshSession_error: "createRefreshSession rt cfg now i rand u st = (Inl e, st') \<Longrightarrow> e = ConstraintViolation"
  by (auto simp: createRefreshSession_def insertSession_def split: if_splits)

lemma loginFinish_wrong:
  assumes "loginFinish rt cfg now c st = (r, st')" "refused r"
  shows "wrongGuess r \<and> st' = registerFailedAttempt now (normalizeEmail (lc_email c)) (case sg_maxAttempts cfg of None \<Rightarrow> 5 | Some m \<Rightarrow> m) st"
proof -
  have no: "\<not> refused (Inl ConstraintViolation)" "\<not> refused (Inr x)" for x by (simp_all add: refused_def wrongGuess_def)
  show ?thesis
  proof (cases "\<exists>u. findUserByEmail (normalizeEmail (lc_email c)) st = Some u \<and> u_isActive u \<and> ar_compare rt (lc_password c) (u_passwordHash u)")
    case False
    with assms(1) show ?thesis by (auto simp: loginFinish_def Let_def wrongGuess_def split: option.splits if_splits)
  next
    case True
    then obtain u where u: "findUserByEmail (normalizeEmail (lc_email c)) st = Some u" "u_isActive u" "ar_compare rt (lc_password c) (u_passwordHash u)"
      by blast
    obtain x st2 where x: "createRefreshSession rt cfg now (lc_newId c) (lc_rand c) u
        (st\<lparr>as_attempts := AList.delete (normalizeEmail (lc_email c)) (as_attempts st)\<rparr>) = (x, st2)" by fastforce
    have "\<not> refused r" using assms(1) u x no createRefreshSession_error [of rt cfg now "lc_newId c" "lc_rand c" u]
      by (cases x) (auto simp: loginFinish_def Let_def)
    with assms(2) show ?thesis by blast
  qed
qed

lemma attemptsOf_register:
  "attemptsOf e (registerFailedAttempt now e m st) =
     (if m \<le> la_count (attemptsOf e st) + 1 then \<lparr>la_count = 0, la_lockedUntil = now + LOCKOUT_MS\<rparr>
      else (attemptsOf e st)\<lparr>la_count := la_count (attemptsOf e st) + 1\<rparr>)"
  by (auto simp: attemptsOf_def registerFailedAttempt_def Let_def update_conv' split: option.splits)

lemma login_refused:
  assumes "login rt cfg now now' c st = (r, st')" "refused r" "0 \<le> now"
  obtains "\<not> wrongGuess r" "st' = st"
    | "wrongGuess r" "la_lockedUntil (attemptsOf (normalizeEmail (lc_email c)) st) \<le> now"
      "st' = registerFailedAttempt now' (normalizeEmail (lc_email c)) (case sg_maxAttempts cfg of None \<Rightarrow> 5 | Some m \<Rightarrow> m) st"
proof (cases "loginGate now (lc_email c) st")
  case (Inl e)
  then obtain n where "e = Locked n" using loginGate_open [of now "lc_email c" st] by auto
  with Inl assms(1) show thesis by (intro that(1)) (auto simp: login_def wrongGuess_def)
next
  case (Inr u)
  with assms(1) have "loginFinish rt cfg now' c st = (r, st')" by (simp add: login_def)
  from loginFinish_wrong [OF this assms(2)] loginGate_locked [of now "lc_email c" st] Inr assms(3) show thesis
    by (intro that(2)) (auto simp: not_less [symmetric])
qed

text \<open>The guesses that a window of the length of the lock still has room for.\<close>

lemma guesses_left:
  assumes "\<forall>(now, now', c)\<in>set cs. normalizeEmail (lc_email c) = e \<and> 0 \<le> now \<and> t \<le> now' \<and> now < t + LOCKOUT_MS"
    and "m = (case sg_maxAttempts cfg of None \<Rightarrow> 5 | Some m \<Rightarrow> m)" "1 \<le> m" "0 \<le> la_count (attemptsOf e st)"
    and "runLogins rt cfg cs st = (rs, st')" "\<forall>r\<in>set rs. refused r"
  shows "int (length (filter wrongGuess rs)) \<le>
    (if t + LOCKOUT_MS \<le> la_lockedUntil (attemptsOf e st) then 0 else max 1 (m - la_count (attemptsOf e st)))"
  using assms(1,4,5,6)
proof (induction cs arbitrary: st rs)
  case (Cons x cs)
  obtain now now' c where x: "x = (now, now', c)" by (cases x)
  obtain r st1 where one: "login rt cfg now now' c st = (r, st1)" by fastforce
  obtain rs1 st2 where rest: "runLogins rt cfg cs st1 = (rs1, st2)" by fastforce
  have rs: "rs = r # rs1" and st2: "st' = st2" using Cons.prems(3) x one rest by simp_all
  have c: "normalizeEmail (lc_email c) = e" "0 \<le> now" "t \<le> now'" "now < t + LOCKOUT_MS" using Cons.prems(1) x by simp_all
  have IH: "int (length (filter wrongGuess rs1)) \<le>
      (if t + LOCKOUT_MS \<le> la_lockedUntil (attemptsOf e st1) then 0 else max 1 (m - la_count (attemptsOf e st1)))"
    if "0 \<le> la_count (attemptsOf e st1)"
    using Cons.IH [of st1 rs1] Cons.prems(1,4) that rest rs st2 by simp
  have "refused r" using Cons.prems(4) rs by simp
  from one this c(2) show ?case
  proof (cases rule: login_refused)
    case 1
    show ?thesis using IH [unfolded 1(2)] Cons.prems(2) 1(1) rs by simp
  next
    case 2
    have st1: "st1 = registerFailedAttempt now' e m st" using 2(3) c(1) assms(2) by simp
    have "\<not> t + LOCKOUT_MS \<le> la_lockedUntil (attemptsOf e st)" using 2(2) c by simp
    moreover have "int (length (filter wrongGuess rs)) = 1 + int (length (filter wrongGuess rs1))" using 2(1) rs by simp
    moreover have "int (length (filter wrongGuess rs1)) \<le> max 0 (m - la_count (attemptsOf e st) - 1)"
    proof (cases "m \<le> la_count (attemptsOf e st) + 1")
      case True
      then have "attemptsOf e st1 = \<lparr>la_count = 0, la_lockedUntil = now' + LOCKOUT_MS\<rparr>" by (simp add: st1 attemptsOf_register)
      with IH c(3) show ?thesis by simp
    next
      case False
      then have "attemptsOf e st1 = (attemptsOf e st)\<lparr>la_count := la_count (attemptsOf e st) + 1\<rparr>" by (simp add: st1 attemptsOf_register)
      with IH Cons.prems(2) False show ?thesis by (simp split: if_splits)
    qed
    ultimately show ?thesis by simp
  qed
qed (simp add: le_max_iff_disj)

text \<open>
  Property C21. The lock bounds the guesses. Of logins for one address that come one after the other within the time
  of a lock and all fail, at most as many as the configured number of attempts compare a password; the others are
  refused unseen. While the lock lasts every login is refused, the right password included, and changes nothing.
\<close>

theorem lock_bounds_guesses:
  assumes "\<forall>(now, now', c)\<in>set cs. normalizeEmail (lc_email c) = e \<and> 0 \<le> now \<and> t \<le> now' \<and> now < t + LOCKOUT_MS"
    and "m = (case sg_maxAttempts cfg of None \<Rightarrow> 5 | Some m \<Rightarrow> m)" "1 \<le> m" "0 \<le> la_count (attemptsOf e st)"
    and "runLogins rt cfg cs st = (rs, st')" "\<forall>r\<in>set rs. refused r"
  shows "int (length (filter wrongGuess rs)) \<le> m
    \<and> (0 \<le> now \<and> now < la_lockedUntil (attemptsOf (normalizeEmail (lc_email c)) st) \<longrightarrow>
         (\<exists>n. login rt cfg now now' c st = (Inl (Locked n), st)))"
proof -
  have "int (length (filter wrongGuess rs)) \<le> m" using guesses_left [OF assms] assms(3,4) by (simp split: if_splits)
  moreover have "\<exists>n. login rt cfg now now' c st = (Inl (Locked n), st)"
    if "0 \<le> now" "now < la_lockedUntil (attemptsOf (normalizeEmail (lc_email c)) st)"
    using loginGate_locked [OF that(2,1)] by (auto simp: login_def)
  ultimately show ?thesis by blast
qed

text \<open>
  Logins that overlap escape the lock: the second half of a login does not look at it again, so that any number of
  guesses whose first halves came before the first failure is compared, and the right one among them succeeds.
\<close>

lemma overlapping_guesses_compared:
  assumes "findUserByEmail (normalizeEmail (lc_email c)) st = Some u" "u_isActive u" "ar_compare rt (lc_password c) (u_passwordHash u)"
    and "\<not> ar_compare rt (lc_password bad) (u_passwordHash u)" "lc_email bad = lc_email c"
    and "ar_sha256 rt (lc_rand c) \<notin> set (map s_tokenHash (as_sessions st))"
  shows "isOk (fst (loginFinish rt cfg now c (((\<lambda>s. snd (loginFinish rt cfg now bad s)) ^^ n) st)))"
proof -
  let ?s = "\<lambda>n. ((\<lambda>s. snd (loginFinish rt cfg now bad s)) ^^ n) st"
  have "as_users (?s n) = as_users st \<and> as_sessions (?s n) = as_sessions st" for n
  proof (induction n)
    case (Suc n)
    then have "findUserByEmail (normalizeEmail (lc_email bad)) (?s n) = Some u" using assms(1,5) by (simp add: findUserByEmail_def)
    with Suc assms(2,4) show ?case by (simp add: loginFinish_def Let_def registerFailedAttempt_def)
  qed simp
  then have n: "as_users (?s n) = as_users st" "as_sessions (?s n) = as_sessions st" by blast+
  then have "findUserByEmail (normalizeEmail (lc_email c)) (?s n) = Some u" using assms(1) by (simp add: findUserByEmail_def)
  with assms(2,3,6) n show ?thesis
    by (simp add: loginFinish_def Let_def createRefreshSession_def insertSession_def)
qed

section \<open>Tokens\<close>

text \<open>A signed token is read as the payload that was signed, or not at all.\<close>

definition jwtSound :: "authRuntime \<Rightarrow> bool" where
  "jwtSound rt \<longleftrightarrow> (\<forall>p e t now x. ar_verify rt now (ar_sign rt p e t) = Some x \<longrightarrow> x = p)"

lemma jwtSoundD: "jwtSound rt \<Longrightarrow> ar_verify rt now (ar_sign rt p e t) = None \<or> ar_verify rt now (ar_sign rt p e t) = Some p"
  unfolding jwtSound_def by (cases "ar_verify rt now (ar_sign rt p e t)") blast+

lemma validate_only_access: "\<forall>i e r v. p \<noteq> AccessToken i e r v \<Longrightarrow> \<not> isOk (validateAccessPayload p st)"
  by (cases p) auto

text \<open>
  Property C26. Kinds of tokens do not mix. A token for a stream, for a playback or for a download never
  authenticates a request, none is taken for another kind, an access token opens none of the three, and what a
  token gives is what it was made for.
\<close>

theorem token_kinds_separate:
  assumes "jwtSound rt"
  shows "\<not> isOk (authenticate rt now (createStreamToken rt cfg t user x) st)
    \<and> \<not> isOk (authenticate rt now (createPlaybackToken rt cfg t user x) st)
    \<and> \<not> isOk (authenticate rt now (createDownloadZipToken rt t user xs) st)
    \<and> (\<forall>tok\<in>{createPlaybackToken rt cfg t user x, createDownloadZipToken rt t user xs, signAccessToken rt cfg ov t u}. \<not> isOk (verifyStreamToken rt now tok))
    \<and> (\<forall>tok\<in>{createStreamToken rt cfg t user x, createDownloadZipToken rt t user xs, signAccessToken rt cfg ov t u}. \<not> isOk (verifyPlaybackToken rt now tok))
    \<and> (\<forall>tok\<in>{createStreamToken rt cfg t user x, createPlaybackToken rt cfg t user x, signAccessToken rt cfg ov t u}. \<not> isOk (verifyDownloadZipToken rt now tok))
    \<and> verifyStreamToken rt now (createStreamToken rt cfg t user x) \<in> {Inl InvalidToken, Inr (user, x)}
    \<and> verifyPlaybackToken rt now (createPlaybackToken rt cfg t user x) \<in> {Inl InvalidToken, Inr (user, x)}
    \<and> verifyDownloadZipToken rt now (createDownloadZipToken rt t user xs) \<in> {Inl InvalidToken, Inr (user, xs)}"
proof -
  note d = jwtSoundD [OF assms]
  have s: "ar_verify rt now (createStreamToken rt cfg t user x) \<in> {None, Some (StreamToken user x)}"
    and p: "ar_verify rt now (createPlaybackToken rt cfg t user x) \<in> {None, Some (PlayToken user x)}"
    and z: "ar_verify rt now (createDownloadZipToken rt t user xs) \<in> {None, Some (DownloadZipToken user xs)}"
    and a: "ar_verify rt now (signAccessToken rt cfg ov t u) \<in> {None, Some (AccessToken (u_id u) (u_email u) (u_role u) (u_authVersion u))}"
    using d by (auto simp: createStreamToken_def createPlaybackToken_def createDownloadZipToken_def signAccessToken_def)
  have S: "\<not> isOk (verifyStreamToken rt now tok)" if "\<forall>i c. ar_verify rt now tok \<noteq> Some (StreamToken i c)" for tok
    using that by (auto simp: verifyStreamToken_def split: option.split tokenPayload.split)
  have P: "\<not> isOk (verifyPlaybackToken rt now tok)" if "\<forall>i c. ar_verify rt now tok \<noteq> Some (PlayToken i c)" for tok
    using that by (auto simp: verifyPlaybackToken_def split: option.split tokenPayload.split)
  have Z: "\<not> isOk (verifyDownloadZipToken rt now tok)" if "\<forall>i c. ar_verify rt now tok \<noteq> Some (DownloadZipToken i c)" for tok
    using that by (auto simp: verifyDownloadZipToken_def split: option.split tokenPayload.split)
  have A: "\<not> isOk (authenticate rt now tok st)" if "\<forall>i e r v. ar_verify rt now tok \<noteq> Some (AccessToken i e r v)" for tok
    using that validate_only_access by (auto simp: authenticate_def split: option.split)
  show ?thesis
  proof (intro conjI ballI)
    show "verifyStreamToken rt now (createStreamToken rt cfg t user x) \<in> {Inl InvalidToken, Inr (user, x)}"
      "verifyPlaybackToken rt now (createPlaybackToken rt cfg t user x) \<in> {Inl InvalidToken, Inr (user, x)}"
      "verifyDownloadZipToken rt now (createDownloadZipToken rt t user xs) \<in> {Inl InvalidToken, Inr (user, xs)}"
      using s p z by (auto simp: verifyStreamToken_def verifyPlaybackToken_def verifyDownloadZipToken_def)
  qed (use s p z a in \<open>auto intro!: S P Z A\<close>)
qed

text \<open>
  The answer to a forgotten password tells an account from an unknown address when the mail cannot be sent: only
  for an account is there a mail to fail.
\<close>

lemma forgot_reveals_account:
  assumes "findUserByEmail (normalizeEmail e) st = Some u" "u_isActive u" "sg_smtp cfg" "ar_mailFails rt (u_email u)"
    and "findUserByEmail (normalizeEmail e') st = None"
  shows "fst (forgotPassword rt cfg now e rand st) = Inl MailFailed" "fst (forgotPassword rt cfg now e' rand st) = Inr ()"
  using assms by (simp_all add: forgotPassword_def Let_def)

section \<open>An installation with one user\<close>

definition demoRuntime :: authRuntime where
  "demoRuntime = \<lparr>ar_sha256 = (\<lambda>s. s), ar_compare = (\<lambda>p h. p = h), ar_hash = (\<lambda>p. p),
     ar_sign = (\<lambda>p e t. if p = StreamToken ''u'' ''cam'' then ''S'' else ''?''),
     ar_verify = (\<lambda>now tok. if tok = ''S'' then Some (StreamToken ''u'' ''cam'') else None), ar_mailFails = (\<lambda>_. False)\<rparr>"

definition demoSettings :: authSettings where
  "demoSettings = \<lparr>sg_sessionMinutes = Some 480, sg_maxAttempts = Some 3, sg_strong = Some True, sg_jwtExpiresIn = None,
     sg_streamExpiresIn = None, sg_refreshDays = Fin 7, sg_smtp = False\<rparr>"

definition demoUser :: userRow where
  "demoUser = \<lparr>u_id = ''u'', u_name = ''U'', u_email = ''u@x'', u_passwordHash = ''pw'', u_authVersion = 3, u_role = OPERATOR,
     u_isActive = True, u_resetTokenHash = None, u_resetTokenExpiresAt = None\<rparr>"

definition demoSession :: sessionRow where
  "demoSession = \<lparr>s_id = ''s'', s_userId = ''u'', s_tokenHash = ''r1'', s_authVersion = 3, s_expiresAt = 1000, s_lastUsedAt = 0,
     s_revokedAt = None\<rparr>"

definition demoState :: authState where
  "demoState = \<lparr>as_users = [demoUser], as_sessions = [demoSession], as_attempts = []\<rparr>"

definition noTables :: accessDb where
  "noTables = \<lparr>db_cameras = [], db_groups = [], db_permissions = []\<rparr>"

definition demoLogin :: "string \<Rightarrow> loginCall" where
  "demoLogin p = \<lparr>lc_email = '' U@x'', lc_password = p, lc_expiresIn = None, lc_rand = ''r2'', lc_newId = ''s2'', lc_cleans = False\<rparr>"

definition loggedOut :: authState where
  "loggedOut = snd (logout 10 ''u'' demoState)"

definition loggedInAgain :: authState where
  "loggedInAgain = snd (loginFinish demoRuntime demoSettings 20 (demoLogin ''pw'') loggedOut)"

theorem revoked_credentials_stay_dead_witness:
  "refreshFind demoRuntime 5 ''r1'' demoState = Inr (demoSession, demoUser)
   \<and> validateAccessPayload (AccessToken ''u'' ''u@x'' OPERATOR 3) loggedInAgain = Inl InactiveUser
   \<and> refreshFind demoRuntime 30 ''r1'' loggedInAgain = Inl SessionExpired
   \<and> isOk (refreshFind demoRuntime 30 ''r2'' loggedInAgain)"
proof -
  have d: "distinct (map u_id (as_users (fst (demoState, noTables))))" "distinct (map s_tokenHash (as_sessions (fst (demoState, noTables))))"
    "findUser ''u'' (fst (demoState, noTables)) = Some demoUser" by (simp_all add: demoState_def findUser_def demoUser_def)
  have "logout 10 ''u'' demoState = (Inr (), loggedOut)"
    by (simp add: loggedOut_def logout_def logoutUser_def findUser_def demoState_def demoUser_def)
  then have r: "revokes demoRuntime ''u'' (demoState, noTables) (loggedOut, noTables)" by (rule by_logout)
  have "reachable (\<lambda>x. x = (loggedOut, noTables)) (authStep demoRuntime {} {''r2''}) (loggedOut, noTables)" by (simp add: reach_start)
  moreover have "authStep demoRuntime {} {''r2''} (loggedOut, noTables) (loggedInAgain, noTables)"
    unfolding loggedInAgain_def by (rule authStep.login) (simp add: demoLogin_def)
  ultimately have "reachable (\<lambda>x. x = (loggedOut, noTables)) (authStep demoRuntime {} {''r2''}) (loggedInAgain, noTables)" by (rule reach_step)
  note dead = revoked_credentials_stay_dead [OF d r _ this]
  have f: "refreshFind demoRuntime 5 ''r1'' demoState = Inr (demoSession, demoUser)" by code_simp
  have "isOk (refreshFind demoRuntime 30 ''r2'' loggedInAgain)" by code_simp
  moreover have "validateAccessPayload (AccessToken ''u'' ''u@x'' OPERATOR 3) loggedInAgain = Inl InactiveUser"
    using dead [of 3 "''u@x''" OPERATOR] by (simp add: demoUser_def)
  moreover have "refreshFind demoRuntime 30 ''r1'' loggedInAgain = Inl SessionExpired"
    using dead [where t = "''r1''" and now = 5 and now' = 30 and s = demoSession] f by (simp add: demoRuntime_def)
  ultimately show ?thesis using f by blast
qed

text \<open>
  A renewal that has read its session before a change of the password still answers, with credentials that are refused.
\<close>

lemma late_renewal_answers:
  "let changed = updateUser ''u'' (\<lambda>x. x\<lparr>u_authVersion := u_authVersion x + 1\<rparr>) demoState;
       r = refreshRotate demoRuntime demoSettings 5 ''r1'' ''r2'' None (demoSession, demoUser) changed
   in isOk (fst r) \<and> refreshFind demoRuntime 6 ''r2'' (snd r) = Inl SessionExpired"
  by code_simp

theorem refresh_token_single_use_witness:
  "\<exists>res st1. refreshRotate demoRuntime demoSettings 5 ''r1'' ''r2'' None (demoSession, demoUser) demoState = (Inr res, st1)
     \<and> refreshRotate demoRuntime demoSettings 5 ''r1'' ''r3'' None (demoSession, demoUser) st1 = (Inl SessionRotated, st1)"
proof -
  let ?r = "refreshRotate demoRuntime demoSettings 5 ''r1'' ''r2'' None (demoSession, demoUser) demoState"
  have "isOk (fst ?r)" by code_simp
  then obtain res st1 where r: "?r = (Inr res, st1)" by (cases ?r) (auto elim: isOk.elims)
  have d: "distinct (map s_tokenHash (as_sessions demoState))" by (simp add: demoState_def)
  have "reachable (\<lambda>x. x = (st1, noTables)) (authStep demoRuntime {} {''r2''}) (st1, noTables)" by (simp add: reach_start)
  from refresh_token_single_use [OF d r _ _ this, where su' = "(demoSession, demoUser)" and now' = 5 and cfg' = demoSettings
      and rand' = "''r3''" and ov' = None]
  have "refreshRotate demoRuntime demoSettings 5 ''r1'' ''r3'' None (demoSession, demoUser) st1 = (Inl SessionRotated, st1)"
    by (simp add: demoRuntime_def)
  with r show ?thesis by blast
qed

theorem lock_bounds_guesses_witness:
  "length (filter wrongGuess (fst (runLogins demoRuntime demoSettings (replicate 5 (10, 20, demoLogin ''no'')) demoState))) \<le> 3
   \<and> length (filter wrongGuess (fst (runLogins demoRuntime demoSettings (replicate 5 (10, 20, demoLogin ''no'')) demoState))) = 3"
proof -
  let ?run = "runLogins demoRuntime demoSettings (replicate 5 (10, 20, demoLogin ''no'')) demoState"
  obtain rs st' where r: "?run = (rs, st')" by fastforce
  have "list_all refused (fst ?run)" by code_simp
  then have refused: "\<forall>x\<in>set rs. refused x" unfolding r fst_conv list_all_iff .
  have e: "normalizeEmail (lc_email (demoLogin ''no'')) = ''u@x''" "0 \<le> la_count (attemptsOf ''u@x'' demoState)" by code_simp+
  have "\<forall>(now, now', c)\<in>set (replicate 5 (10, 20 :: int, demoLogin ''no'')). normalizeEmail (lc_email c) = ''u@x'' \<and> 0 \<le> now \<and> 0 \<le> now'
      \<and> now < 0 + LOCKOUT_MS" unfolding set_replicate_conv_if using e(1) by (simp add: LOCKOUT_MS_def)
  moreover have "3 = (case sg_maxAttempts demoSettings of None \<Rightarrow> 5 | Some m \<Rightarrow> m)" by (simp add: demoSettings_def)
  ultimately have "int (length (filter wrongGuess rs)) \<le> 3" using lock_bounds_guesses [OF _ _ _ e(2) r refused, of 0 3] by simp
  moreover have "length (filter wrongGuess (fst ?run)) = 3" by code_simp
  ultimately show ?thesis using r by simp
qed

theorem token_kinds_separate_witness:
  "jwtSound demoRuntime \<and> \<not> isOk (authenticate demoRuntime 0 (createStreamToken demoRuntime demoSettings 0 ''u'' ''cam'') demoState)
   \<and> verifyStreamToken demoRuntime 0 (createStreamToken demoRuntime demoSettings 0 ''u'' ''cam'') = Inr (''u'', ''cam'')"
proof -
  have j: "jwtSound demoRuntime" by (simp add: jwtSound_def demoRuntime_def)
  have "verifyStreamToken demoRuntime 0 (createStreamToken demoRuntime demoSettings 0 ''u'' ''cam'') = Inr (''u'', ''cam'')" by code_simp
  with j token_kinds_separate [OF j, of 0 demoSettings 0 "''u''" "''cam''" demoState] show ?thesis by blast
qed

end
