(* ===== verification/User_Admin_Props.thy ===== *)
theory User_Admin_Props
  imports Auth_Props
begin

text \<open>
  What the administration of users can do to whom: no one but a super administrator touches super administrators, and
  a group administrator stays within the groups and the roles that are open to them.
\<close>

inductive adminStep :: "authRuntime \<Rightarrow> authUser \<Rightarrow> adminState \<Rightarrow> adminState \<Rightarrow> bool" for rt actor where
  create: "adminStep rt actor w (snd (createUser rt cfg newId actor dto w))"
| update: "adminStep rt actor w (snd (updateUserRow rt cfg actor i udto w))"
| soft: "adminStep rt actor w (snd (softDelete actor i w))"
| hard: "adminStep rt actor w (snd (hardDelete actor i w))"

text \<open>The four shapes of a step: nothing, a new row, a changed row, a removed row, each with what its guards have checked.\<close>

inductive adminEffect :: "authUser \<Rightarrow> adminState \<Rightarrow> adminState \<Rightarrow> bool" for actor w where
  nothing: "adminEffect actor w w"
| added: "\<lbrakk>if isPrivileged actor then canAssignRole (user_role actor) (u_role u) else isGroupAssignableRole (u_role u);
      resolveManagedGroupIds actor requested (snd w) = Inr groupIds; u_id u \<notin> u_id ` set (as_users (fst w));
      \<forall>p\<in>set perms. perm_userId p = u_id u \<and> opt_in (perm_groupId p) groupIds\<rbrakk> \<Longrightarrow>
    adminEffect actor w ((fst w)\<lparr>as_users := as_users (fst w) @ [u]\<rparr>, (snd w)\<lparr>db_permissions := db_permissions (snd w) @ perms\<rparr>)"
| changed: "\<lbrakk>findUser i (fst w) = Some x; u_id (f x) = i;
      if isPrivileged actor then canAssignRole (user_role actor) (u_role x) \<and> canAssignRole (user_role actor) (u_role (f x))
      else isOk (assertCanManageUser actor i (snd w)) \<and> isGroupAssignableRole (u_role x) \<and> isGroupAssignableRole (u_role (f x))
        \<and> (i = user_id actor \<longrightarrow> u_role (f x) = u_role x)\<rbrakk> \<Longrightarrow>
    adminEffect actor w (updateUser i f (fst w), snd w)"
| removed: "\<lbrakk>findUser i (fst w) = Some x; i \<noteq> user_id actor;
      if isPrivileged actor then canAssignRole (user_role actor) (u_role x)
      else isOk (assertCanManageUser actor i (snd w)) \<and> isGroupAssignableRole (u_role x)\<rbrakk> \<Longrightarrow>
    adminEffect actor w (deleteCascade i w)"

lemma assignable_iff: "isGroupAssignableRole r \<longleftrightarrow> \<not> globalAdmin r"
  by (cases r) (simp_all add: isGroupAssignableRole_def globalAdmin_def)

lemma createUser_effect: "adminEffect actor w (snd (createUser rt cfg newId actor dto w))"
proof (cases "snd (createUser rt cfg newId actor dto w) = w")
  case True
  then show ?thesis using adminEffect.nothing by metis
next
  case False
  then obtain groupIds where g: "resolveManagedGroupIds actor (cd_groupIds dto) (snd w) = Inr groupIds"
    "if isPrivileged actor then canAssignRole (user_role actor) (cd_role dto) else isGroupAssignableRole (cd_role dto)"
    by (auto simp: createUser_def split: if_splits sum.splits)
  define u where "u = \<lparr>u_id = newId, u_name = cd_name dto, u_email = normalizeEmail (cd_email dto),
    u_passwordHash = ar_hash rt (cd_password dto), u_authVersion = 0, u_role = cd_role dto, u_isActive = True, u_resetTokenHash = None,
    u_resetTokenExpiresAt = None\<rparr>"
  define perms where "perms = map (\<lambda>g. \<lparr>perm_userId = newId, perm_cameraId = None, perm_groupId = Some g,
    perm_level = (case cd_permissionLevel dto of None \<Rightarrow> VIEW | Some l \<Rightarrow> l)\<rparr>) groupIds"
  have made: "snd (createUser rt cfg newId actor dto w)
      = ((fst w)\<lparr>as_users := as_users (fst w) @ [u]\<rparr>, (snd w)\<lparr>db_permissions := db_permissions (snd w) @ perms\<rparr>) \<and> newId \<notin> u_id ` set (as_users (fst w))"
    using False g by (auto simp: createUser_def Let_def u_def perms_def split: if_splits sum.splits)
  have "adminEffect actor w ((fst w)\<lparr>as_users := as_users (fst w) @ [u]\<rparr>, (snd w)\<lparr>db_permissions := db_permissions (snd w) @ perms\<rparr>)"
  proof (rule adminEffect.added [OF _ g(1)])
    show "if isPrivileged actor then canAssignRole (user_role actor) (u_role u) else isGroupAssignableRole (u_role u)"
      using g(2) by (simp add: u_def)
    show "u_id u \<notin> u_id ` set (as_users (fst w))" using made by (simp add: u_def)
    show "\<forall>p\<in>set perms. perm_userId p = u_id u \<and> opt_in (perm_groupId p) groupIds" by (simp add: perms_def u_def opt_in_def)
  qed
  with made show ?thesis by simp
qed

lemma updateUserRow_effect: "adminEffect actor w (snd (updateUserRow rt cfg actor i dto w))"
proof (cases "snd (updateUserRow rt cfg actor i dto w) = w")
  case True
  then show ?thesis using adminEffect.nothing by metis
next
  case False
  then obtain x where x: "findUser i (fst w) = Some x" "updateAllowed actor x dto (snd w) = Inr ()"
    "snd (updateUserRow rt cfg actor i dto w) = (updateUser i (applyUpdate rt dto) (fst w), snd w)"
    by (auto simp: updateUserRow_def Let_def split: option.splits sum.splits if_splits)
  have id: "u_id x = i" using findUser_id [OF x(1)] by blast
  let ?u = "applyUpdate rt dto x"
  have u: "u_id ?u = i" "u_role ?u = (case ud_role dto of None \<Rightarrow> u_role x | Some r \<Rightarrow> r)"
    using id by (simp_all add: applyUpdate_def Let_def split: option.split)
  have ok: "isOk (assertCanManageUser actor i (snd w)) \<and> isGroupAssignableRole (u_role x) \<and> isGroupAssignableRole (u_role ?u)
      \<and> (i = user_id actor \<longrightarrow> u_role ?u = u_role x)" if "\<not> isPrivileged actor"
    using x(2) that id unfolding u(2)
    by (auto simp: updateAllowed_def Let_def assignable_iff split: sum.splits option.splits if_splits)
  have "canAssignRole (user_role actor) (u_role x) \<and> canAssignRole (user_role actor) (u_role ?u)" if "isPrivileged actor"
    using x(2) that unfolding u(2)
    by (auto simp: updateAllowed_def Let_def canAssignRole_def isPrivileged_def split: option.splits if_splits)
  with ok show ?thesis unfolding x(3) using x(1) u(1) by (intro adminEffect.changed) auto
qed

lemma removalAllowed_role:
  assumes "removalAllowed actor x db = Inr ()" "u_id x = i"
  shows "if isPrivileged actor then canAssignRole (user_role actor) (u_role x)
    else isOk (assertCanManageUser actor i db) \<and> isGroupAssignableRole (u_role x)"
  using assms by (auto simp: removalAllowed_def assignable_iff split: sum.splits if_splits)

lemma softDelete_effect: "adminEffect actor w (snd (softDelete actor i w))"
proof (cases "snd (softDelete actor i w) = w")
  case True
  then show ?thesis using adminEffect.nothing by metis
next
  case False
  then obtain x where x: "findUser i (fst w) = Some x" "removalAllowed actor x (snd w) = Inr ()"
    "snd (softDelete actor i w) = (updateUser i (\<lambda>x. x\<lparr>u_isActive := False, u_authVersion := u_authVersion x + 1\<rparr>) (fst w), snd w)"
    by (auto simp: softDelete_def Let_def split: option.splits sum.splits)
  have id: "u_id x = i" using findUser_id [OF x(1)] by blast
  show ?thesis unfolding x(3) using x(1) id removalAllowed_role [OF x(2) id] by (intro adminEffect.changed) (auto split: if_splits)
qed

lemma hardDelete_effect: "adminEffect actor w (snd (hardDelete actor i w))"
proof (cases "snd (hardDelete actor i w) = w")
  case True
  then show ?thesis using adminEffect.nothing by metis
next
  case False
  then obtain x where x: "findUser i (fst w) = Some x" "removalAllowed actor x (snd w) = Inr ()" "u_id x \<noteq> user_id actor"
    "snd (hardDelete actor i w) = deleteCascade i w"
    by (auto simp: hardDelete_def Let_def split: option.splits sum.splits if_splits)
  have id: "u_id x = i" using findUser_id [OF x(1)] by blast
  show ?thesis unfolding x(4) using x(1,3) id removalAllowed_role [OF x(2) id] by (intro adminEffect.removed [of i]) auto
qed

lemmas admin_effects = createUser_effect updateUserRow_effect softDelete_effect hardDelete_effect

lemma adminStep_effect: "adminStep rt actor w w' \<Longrightarrow> adminEffect actor w w'"
  by (induction rule: adminStep.induct) (rule admin_effects)+

section \<open>Who is touched\<close>

lemma filter_update:
  assumes "\<forall>u\<in>set us. u_id u = i \<longrightarrow> u = x" "\<not> P x" "\<not> P (f x)"
  shows "filter P (map (\<lambda>u. if u_id u = i then f u else u) us) = filter P us"
  using assms by (induction us) auto

lemma filter_remove:
  assumes "\<forall>u\<in>set us. u_id u = i \<longrightarrow> \<not> P u"
  shows "filter P (filter (\<lambda>u. u_id u \<noteq> i) us) = filter P us"
  using assms by (induction us) auto

text \<open>Rows with a property that neither the old nor the new row of a step has are left as they are.\<close>

lemma effect_protects:
  assumes "adminEffect actor w w'" "distinct (map u_id (as_users (fst w)))"
    and "\<And>u :: userRow. (if isPrivileged actor then canAssignRole (user_role actor) (u_role u) else isGroupAssignableRole (u_role u)) \<Longrightarrow> \<not> P (u_role u)"
  shows "filter (\<lambda>u. P (u_role u)) (as_users (fst w')) = filter (\<lambda>u. P (u_role u)) (as_users (fst w))"
proof -
  have only: "\<forall>u\<in>set (as_users (fst w)). u_id u = i \<longrightarrow> u = x" if "findUser i (fst w) = Some x" for i x
    using findUser_id [OF that] assms(2) by (auto simp: distinct_map inj_on_def)
  from assms(1) show ?thesis
  proof cases
    case (added u requested groupIds perms)
    with assms(3) [of u] show ?thesis by simp
  next
    case (changed i x f)
    with assms(3) [of x] assms(3) [of "f x"] only have "\<not> P (u_role x)" "\<not> P (u_role (f x))" by (auto split: if_splits)
    with filter_update [OF only [OF changed(2)], of "\<lambda>u. P (u_role u)" f] changed(1) show ?thesis by (simp add: updateUser_def)
  next
    case (removed i x)
    with assms(3) [of x] have "\<not> P (u_role x)" by (auto split: if_splits)
    with filter_remove [of "as_users (fst w)" i "\<lambda>u. P (u_role u)"] only [OF removed(2)] removed(1) show ?thesis
      by (auto simp: deleteCascade_def)
  qed simp
qed

lemma resolve_within:
  "\<lbrakk>resolveManagedGroupIds actor requested db = Inr groupIds; \<not> isPrivileged actor; opt_in g groupIds\<rbrakk> \<Longrightarrow>
   opt_in g (getAdminGroupIds db actor)"
  by (auto simp: resolveManagedGroupIds_def Let_def opt_in_def list_ex_iff split: if_splits option.splits)

text \<open>What a group administrator leaves alone, row by row.\<close>

lemma effect_within_groups:
  assumes "adminEffect actor w w'" "\<not> isPrivileged actor"
  shows "\<forall>u\<in>set (as_users (fst w)). u \<in> set (as_users (fst w')) \<or> isOk (assertCanManageUser actor (u_id u) (snd w))"
    and "\<forall>p\<in>set (db_permissions (snd w')). p \<in> set (db_permissions (snd w)) \<or> opt_in (perm_groupId p) (getAdminGroupIds (snd w) actor)"
proof -
  show "\<forall>u\<in>set (as_users (fst w)). u \<in> set (as_users (fst w')) \<or> isOk (assertCanManageUser actor (u_id u) (snd w))"
    using assms(1)
  proof cases
    case (changed i x f)
    have "u \<in> set (as_users (fst w'))" if "u \<in> set (as_users (fst w))" "u_id u \<noteq> i" for u
      using that changed(1) by (force simp: updateUser_def)
    with changed(4) assms(2) show ?thesis by auto
  next
    case (removed i x)
    then have "isOk (assertCanManageUser actor i (snd w))" using assms(2) by simp
    with removed(1) show ?thesis by (auto simp: deleteCascade_def)
  qed simp_all
  show "\<forall>p\<in>set (db_permissions (snd w')). p \<in> set (db_permissions (snd w)) \<or> opt_in (perm_groupId p) (getAdminGroupIds (snd w) actor)"
    using assms(1)
  proof cases
    case (added u requested groupIds perms)
    with resolve_within [OF added(3) assms(2)] show ?thesis by auto
  qed (simp_all add: deleteCascade_def)
qed

lemma effect_own_role:
  assumes "adminEffect actor w w'" "\<not> isPrivileged actor" "distinct (map u_id (as_users (fst w)))"
    and "findUser (user_id actor) (fst w) = Some u" "findUser (user_id actor) (fst w') = Some u'"
  shows "u_role u' = u_role u"
proof -
  have mem: "u \<in> set (as_users (fst w))" "u_id u = user_id actor" "u' \<in> set (as_users (fst w'))" "u_id u' = user_id actor"
    using findUser_id [OF assms(4)] findUser_id [OF assms(5)] by simp_all
  have only: "x = u" if "x \<in> set (as_users (fst w))" "u_id x = user_id actor" for x
    using that mem assms(3) by (auto simp: distinct_map inj_on_def)
  from assms(1) show ?thesis
  proof cases
    case nothing
    with mem only show ?thesis by blast
  next
    case (added a requested groupIds perms)
    then have "a \<noteq> u'" using mem imageI [OF mem(1), of u_id] by auto
    with added(1) mem have "u' \<in> set (as_users (fst w))" by auto
    with only mem show ?thesis by blast
  next
    case (changed i x f)
    from mem(3) changed(1) obtain y where y: "y \<in> set (as_users (fst w))" "u' = (if u_id y = i then f y else y)" by (auto simp: updateUser_def)
    have x: "x \<in> set (as_users (fst w))" "u_id x = i" using findUser_id [OF changed(2)] by simp_all
    show ?thesis
    proof (cases "u_id y = i")
      case True
      then have "y = x" using y x assms(3) by (auto simp: distinct_map inj_on_def)
      with True y changed(3,4) mem assms(2) only x show ?thesis by auto
    next
      case False
      with y mem only show ?thesis by auto
    qed
  next
    case (removed i x)
    with mem only show ?thesis by (auto simp: deleteCascade_def)
  qed
qed

section \<open>Properties\<close>

text \<open>
  Property C14. The administration of users is confined. No creation, update or removal by anyone but a super
  administrator creates, changes or removes a super administrator. By a user without a global role it touches no
  global administrator, changes or removes only users of the groups that user administers, grants only permissions on
  these groups and never changes the own role of the actor.
\<close>

theorem administration_confined:
  assumes "adminStep rt actor w w'" "distinct (map u_id (as_users (fst w)))"
  shows "(user_role actor \<noteq> SUPER_ADMIN \<longrightarrow>
      filter (\<lambda>u. u_role u = SUPER_ADMIN) (as_users (fst w')) = filter (\<lambda>u. u_role u = SUPER_ADMIN) (as_users (fst w)))
    \<and> (\<not> isPrivileged actor \<longrightarrow>
      filter (\<lambda>u. globalAdmin (u_role u)) (as_users (fst w')) = filter (\<lambda>u. globalAdmin (u_role u)) (as_users (fst w))
      \<and> (\<forall>u\<in>set (as_users (fst w)). u \<in> set (as_users (fst w')) \<or> isOk (assertCanManageUser actor (u_id u) (snd w)))
      \<and> (\<forall>p\<in>set (db_permissions (snd w')). p \<in> set (db_permissions (snd w)) \<or> opt_in (perm_groupId p) (getAdminGroupIds (snd w) actor))
      \<and> (\<forall>u u'. findUser (user_id actor) (fst w) = Some u \<longrightarrow> findUser (user_id actor) (fst w') = Some u' \<longrightarrow> u_role u' = u_role u))"
proof -
  note e = adminStep_effect [OF assms(1)]
  have "filter (\<lambda>u. u_role u = SUPER_ADMIN) (as_users (fst w')) = filter (\<lambda>u. u_role u = SUPER_ADMIN) (as_users (fst w))"
    if "user_role actor \<noteq> SUPER_ADMIN"
    by (rule effect_protects [OF e assms(2), of "\<lambda>r. r = SUPER_ADMIN"])
      (use that in \<open>auto simp: canAssignRole_def isGroupAssignableRole_def split: if_splits\<close>)
  moreover have "filter (\<lambda>u. globalAdmin (u_role u)) (as_users (fst w')) = filter (\<lambda>u. globalAdmin (u_role u)) (as_users (fst w))"
    if "\<not> isPrivileged actor"
    by (rule effect_protects [OF e assms(2), of globalAdmin]) (use that in \<open>simp add: assignable_iff\<close>)
  ultimately show ?thesis using effect_within_groups [OF e] effect_own_role [OF e _ assms(2)] by blast
qed

definition groupAdmin :: authUser where
  "groupAdmin = \<lparr>user_id = ''g'', user_role = VIEWER\<rparr>"

definition staff :: "string \<Rightarrow> userRole \<Rightarrow> userRow" where
  "staff i r = demoUser\<lparr>u_id := i, u_email := i @ ''@x'', u_role := r\<rparr>"

definition siteState :: adminState where
  "siteState = (\<lparr>as_users = [staff ''g'' VIEWER, staff ''v'' VIEWER, staff ''r'' SUPER_ADMIN], as_sessions = [], as_attempts = []\<rparr>,
     \<lparr>db_cameras = [], db_groups = [\<lparr>grp_id = ''G'', grp_isActive = True, grp_accessStatus = ACTIVE\<rparr>],
      db_permissions = [\<lparr>perm_userId = ''g'', perm_cameraId = None, perm_groupId = Some ''G'', perm_level = LEVEL_ADMIN\<rparr>,
        \<lparr>perm_userId = ''v'', perm_cameraId = None, perm_groupId = Some ''G'', perm_level = VIEW\<rparr>]\<rparr>)"

definition promotion :: updateUserDto where
  "promotion = \<lparr>ud_name = None, ud_email = None, ud_password = None, ud_role = Some OPERATOR, ud_isActive = None\<rparr>"

definition promoted :: adminState where
  "promoted = snd (updateUserRow demoRuntime demoSettings groupAdmin ''v'' promotion siteState)"

theorem administration_confined_witness:
  "map u_role (as_users (fst promoted)) = [VIEWER, OPERATOR, SUPER_ADMIN]
   \<and> filter (\<lambda>u. globalAdmin (u_role u)) (as_users (fst promoted)) = [staff ''r'' SUPER_ADMIN]
   \<and> fst (updateUserRow demoRuntime demoSettings groupAdmin ''g'' promotion siteState) = Inl NotAllowed"
proof -
  have "adminStep demoRuntime groupAdmin siteState promoted" unfolding promoted_def by (rule adminStep.update)
  moreover have "distinct (map u_id (as_users (fst siteState)))" by code_simp
  ultimately have "filter (\<lambda>u. globalAdmin (u_role u)) (as_users (fst promoted)) = filter (\<lambda>u. globalAdmin (u_role u)) (as_users (fst siteState))"
    using administration_confined [of demoRuntime groupAdmin siteState promoted] by (simp add: isPrivileged_def groupAdmin_def)
  moreover have "filter (\<lambda>u. globalAdmin (u_role u)) (as_users (fst siteState)) = [staff ''r'' SUPER_ADMIN]"
    by (simp add: siteState_def staff_def globalAdmin_def)
  moreover have "map u_role (as_users (fst promoted)) = [VIEWER, OPERATOR, SUPER_ADMIN]" by code_simp
  moreover have "fst (updateUserRow demoRuntime demoSettings groupAdmin ''g'' promotion siteState) = Inl NotAllowed" by code_simp
  ultimately show ?thesis by simp
qed

end
