(* ===== verification/Role_Permissions.thy ===== *)
theory Role_Permissions
  imports Retention Auth_Session
begin

text \<open>
  Permissions of the roles (\<open>apps/api/src/role-permissions/\<close>): the matrix of permissions that is stored for each role,
  the service that keeps it in a cache for fifteen seconds, and the guard that every route passes after the guard of
  the roles. The table has one row for each role; its accesses do not fail here. A load of the table waits for its query
  before it writes the cache, and an update waits for its write before it clears the cache; the two halves of each are
  definitions of their own, and what may happen between them is part of the runs below.
\<close>

section \<open>Permissions\<close>

datatype permissionKey = LiveView | Playback | PtzControl | AlarmAck | CameraConfig | UserManage | AuditLogs
  | ExportEvidence | ServerConfig | RoleManage | ReportGenerate

definition PERMISSION_KEYS :: "permissionKey list" where
  "PERMISSION_KEYS = [LiveView, Playback, PtzControl, AlarmAck, CameraConfig, UserManage, AuditLogs,
     ExportEvidence, ServerConfig, RoleManage, ReportGenerate]"

fun keyName :: "permissionKey \<Rightarrow> string" where
  "keyName LiveView = ''liveView''"
| "keyName Playback = ''playback''"
| "keyName PtzControl = ''ptzControl''"
| "keyName AlarmAck = ''alarmAck''"
| "keyName CameraConfig = ''cameraConfig''"
| "keyName UserManage = ''userManage''"
| "keyName AuditLogs = ''auditLogs''"
| "keyName ExportEvidence = ''exportEvidence''"
| "keyName ServerConfig = ''serverConfig''"
| "keyName RoleManage = ''roleManage''"
| "keyName ReportGenerate = ''reportGenerate''"

type_synonym permissionMatrix = "permissionKey \<Rightarrow> bool"

definition fromList :: "permissionKey list \<Rightarrow> permissionMatrix" where
  "fromList granted key = (key \<in> set granted)"

fun DEFAULT_PERMISSIONS :: "userRole \<Rightarrow> permissionMatrix" where
  "DEFAULT_PERMISSIONS SUPER_ADMIN = (\<lambda>_. True)"
| "DEFAULT_PERMISSIONS ADMIN = (\<lambda>_. True)"
| "DEFAULT_PERMISSIONS OPERATOR = fromList [LiveView, Playback, PtzControl, AlarmAck, ExportEvidence, ReportGenerate]"
| "DEFAULT_PERMISSIONS VIEWER = fromList [LiveView, Playback]"

text \<open>\<open>source[key]\<close> of a value that is an object or not; \<open>None\<close> is \<open>undefined\<close>. An array has none of the keys.\<close>

fun sourceKey :: "json \<Rightarrow> permissionKey \<Rightarrow> json option" where
  "sourceKey (JObj fs) key = map_of fs (keyName key)"
| "sourceKey _ key = None"

definition normalizeMatrix :: "json option \<Rightarrow> permissionMatrix option \<Rightarrow> permissionMatrix" where
  "normalizeMatrix input fallback key =
     (let s = (case input of None \<Rightarrow> None | Some j \<Rightarrow> sourceKey j key) in
      s = Some (JBool True) \<or> s = None \<and> (case fallback of None \<Rightarrow> False | Some f \<Rightarrow> f key))"

text \<open>The object that is stored for a matrix.\<close>

definition matrixJson :: "permissionMatrix \<Rightarrow> json" where
  "matrixJson m = JObj (map (\<lambda>key. (keyName key, JBool (m key))) PERMISSION_KEYS)"

section \<open>The service\<close>

record rolePermState =
  pm_rows :: "(userRole \<times> json) list"
  pm_cache :: "(userRole \<Rightarrow> permissionMatrix) option"
  pm_cacheAt :: int

definition userRoles :: "userRole list" where
  "userRoles = [SUPER_ADMIN, ADMIN, OPERATOR, VIEWER]"

definition seedRole :: "userRole \<Rightarrow> rolePermState \<Rightarrow> rolePermState" where
  "seedRole role st =
     (if map_of (pm_rows st) role = None then st\<lparr>pm_rows := pm_rows st @ [(role, matrixJson (DEFAULT_PERMISSIONS role))]\<rparr> else st)"

definition onModuleInitPerms :: "rolePermState \<Rightarrow> rolePermState" where
  "onModuleInitPerms st = fold seedRole userRoles st"

definition CACHE_TTL_MS :: int where
  "CACHE_TTL_MS = 15000"

fun json_truthy :: "json \<Rightarrow> bool" where
  "json_truthy JNull = False"
| "json_truthy (JBool b) = b"
| "json_truthy (JNum x) = (x \<noteq> 0)"
| "json_truthy (JStr s) = (s \<noteq> [])"
| "json_truthy _ = True"

definition loadedMatrix :: "(userRole \<times> json) list \<Rightarrow> userRole \<Rightarrow> permissionMatrix" where
  "loadedMatrix rows role =
     (case map_of rows role of
        None \<Rightarrow> DEFAULT_PERMISSIONS role
      | Some stored \<Rightarrow> if json_truthy stored then normalizeMatrix (Some stored) (Some (DEFAULT_PERMISSIONS role)) else DEFAULT_PERMISSIONS role)"

text \<open>\<open>loadAll\<close> up to its query: the cache when it is there and young, otherwise the rows are asked for.\<close>

definition loadCached :: "int \<Rightarrow> rolePermState \<Rightarrow> (userRole \<Rightarrow> permissionMatrix) option" where
  "loadCached now st = (case pm_cache st of Some c \<Rightarrow> if now - pm_cacheAt st < CACHE_TTL_MS then Some c else None | None \<Rightarrow> None)"

text \<open>The rest of it, with the rows that the query gave, whatever the table holds by then.\<close>

definition loadFinish :: "int \<Rightarrow> (userRole \<times> json) list \<Rightarrow> rolePermState \<Rightarrow> (userRole \<Rightarrow> permissionMatrix) \<times> rolePermState" where
  "loadFinish now rows st = (loadedMatrix rows, st\<lparr>pm_cache := Some (loadedMatrix rows), pm_cacheAt := now\<rparr>)"

definition loadAll :: "int \<Rightarrow> rolePermState \<Rightarrow> (userRole \<Rightarrow> permissionMatrix) \<times> rolePermState" where
  "loadAll now st = (case loadCached now st of Some c \<Rightarrow> (c, st) | None \<Rightarrow> loadFinish now (pm_rows st) st)"

definition getForRole :: "int \<Rightarrow> userRole \<Rightarrow> rolePermState \<Rightarrow> permissionMatrix \<times> rolePermState" where
  "getForRole now role st = (let (all, st1) = loadAll now st in (all role, st1))"

definition hasPermission :: "int \<Rightarrow> userRole \<Rightarrow> permissionKey \<Rightarrow> rolePermState \<Rightarrow> bool \<times> rolePermState" where
  "hasPermission now role key st = (let (m, st1) = getForRole now role st in (m key, st1))"

text \<open>\<open>upsert\<close> of the row of a role.\<close>

definition upsertRow :: "userRole \<Rightarrow> json \<Rightarrow> (userRole \<times> json) list \<Rightarrow> (userRole \<times> json) list" where
  "upsertRow role j rows = AList.update role j rows"

text \<open>\<open>updateRole\<close> up to the end of its write, and the rest of it.\<close>

definition updateUpsert :: "userRole \<Rightarrow> json option \<Rightarrow> rolePermState \<Rightarrow> permissionMatrix \<times> rolePermState" where
  "updateUpsert role permissions st =
     (let normalized = normalizeMatrix permissions None in
      (normalized, st\<lparr>pm_rows := upsertRow role (matrixJson normalized) (pm_rows st)\<rparr>))"

definition updateReset :: "rolePermState \<Rightarrow> rolePermState" where
  "updateReset st = st\<lparr>pm_cache := None\<rparr>"

definition updateRole :: "userRole \<Rightarrow> json option \<Rightarrow> rolePermState \<Rightarrow> permissionMatrix \<times> rolePermState" where
  "updateRole role permissions st = (let (normalized, st1) = updateUpsert role permissions st in (normalized, updateReset st1))"

section \<open>The guard\<close>

datatype guardVerdict = GuardPass | GuardStop | GuardDenied permissionKey

definition permissionsGuard :: "permissionKey option \<Rightarrow> authUserInfo option \<Rightarrow> int \<Rightarrow> rolePermState \<Rightarrow> guardVerdict \<times> rolePermState" where
  "permissionsGuard required user now st =
     (case required of
        None \<Rightarrow> (GuardPass, st)
      | Some key \<Rightarrow>
          (case user of
             None \<Rightarrow> (GuardStop, st)
           | Some u \<Rightarrow>
               if ai_role u = SUPER_ADMIN then (GuardPass, st)
               else let (allowed, st1) = hasPermission now (ai_role u) key st in
                 (if allowed then GuardPass else GuardDenied key, st1)))"

text \<open>The chain of the guards after the one of the token: the roles, then the permissions.\<close>

definition guardChain ::
    "userRole list option \<Rightarrow> permissionKey option \<Rightarrow> authUserInfo option \<Rightarrow> int \<Rightarrow> rolePermState \<Rightarrow> guardVerdict \<times> rolePermState" where
  "guardChain roles required user now st =
     (if rolesGuard roles user then permissionsGuard required user now st else (GuardStop, st))"

section \<open>Coherence of the cache\<close>

text \<open>What the table says of a role, whatever the cache holds.\<close>

definition cacheOk :: "rolePermState \<Rightarrow> bool" where
  "cacheOk st \<longleftrightarrow> (\<forall>c. pm_cache st = Some c \<longrightarrow> c = loadedMatrix (pm_rows st))"

lemma all_keys: "key \<in> set PERMISSION_KEYS"
  by (cases key) (simp_all add: PERMISSION_KEYS_def)

lemma keyName_inj: "keyName a = keyName b \<longleftrightarrow> a = b"
  by (cases a; cases b; simp)

lemma map_of_matrix: "key \<in> set ks \<Longrightarrow> map_of (map (\<lambda>k. (keyName k, JBool (m k))) ks) (keyName key) = Some (JBool (m key))"
  by (induction ks) (auto simp: keyName_inj)

lemma sourceKey_matrix [simp]: "sourceKey (matrixJson m) key = Some (JBool (m key))"
  by (simp add: matrixJson_def map_of_matrix all_keys)

lemma truthy_matrix [simp]: "json_truthy (matrixJson m)"
  by (simp add: matrixJson_def)

text \<open>A matrix that was stored is read back, whatever the default.\<close>

lemma normalize_matrixJson [simp]: "normalizeMatrix (Some (matrixJson m)) f = m"
  by (rule ext) (simp add: normalizeMatrix_def)

lemma loaded_upsert: "loadedMatrix (upsertRow role (matrixJson m) rows) = (loadedMatrix rows)(role := m)"
  by (rule ext) (simp add: loadedMatrix_def upsertRow_def update_conv')

lemma loaded_seed: "loadedMatrix (pm_rows (seedRole role st)) = loadedMatrix (pm_rows st)"
proof
  fix r show "loadedMatrix (pm_rows (seedRole role st)) r = loadedMatrix (pm_rows st) r"
    by (cases "map_of (pm_rows st) r") (auto simp: loadedMatrix_def seedRole_def map_add_def)
qed

lemma seed_cache [simp]: "pm_cache (seedRole role st) = pm_cache st" "pm_cacheAt (seedRole role st) = pm_cacheAt st"
  by (simp_all add: seedRole_def)

lemma loaded_init: "loadedMatrix (pm_rows (onModuleInitPerms st)) = loadedMatrix (pm_rows st)"
  and init_cache: "pm_cache (onModuleInitPerms st) = pm_cache st"
  by (simp_all add: onModuleInitPerms_def userRoles_def loaded_seed)

lemma loadAll_rows [simp]: "pm_rows (snd (loadAll now st)) = pm_rows st"
  by (simp add: loadAll_def loadFinish_def split: option.split)

lemma hasPermission_loaded: "fst (hasPermission now role key st) = fst (loadAll now st) role key"
  by (simp add: hasPermission_def getForRole_def split_beta)

lemma loadAll_fresh:
  "cacheOk st \<or> pm_cache st = None \<or> pm_cacheAt st + CACHE_TTL_MS \<le> now \<Longrightarrow> fst (loadAll now st) = loadedMatrix (pm_rows st)"
  by (auto simp: loadAll_def loadCached_def loadFinish_def cacheOk_def split: option.splits if_splits)

section \<open>Interleavings\<close>

text \<open>
  The service with the loads that wait for their query, each with the rows that the query gives it, and the number of
  updates that have written the table and not yet cleared the cache.
\<close>

record permWorld =
  pw_state :: rolePermState
  pw_loads :: "(userRole \<times> json) list list"
  pw_resets :: nat

datatype permEvent = Seed | Query int | Loaded nat int | Upsert userRole "json option" | Reset

fun permApply :: "permEvent \<Rightarrow> permWorld \<Rightarrow> permWorld" where
  "permApply Seed w = w\<lparr>pw_state := onModuleInitPerms (pw_state w)\<rparr>"
| "permApply (Query now) w = (if loadCached now (pw_state w) = None then w\<lparr>pw_loads := pw_loads w @ [pm_rows (pw_state w)]\<rparr> else w)"
| "permApply (Loaded k now) w =
     (if k < length (pw_loads w)
      then w\<lparr>pw_state := snd (loadFinish now (pw_loads w ! k) (pw_state w)), pw_loads := take k (pw_loads w) @ drop (Suc k) (pw_loads w)\<rparr>
      else w)"
| "permApply (Upsert role permissions) w = w\<lparr>pw_state := snd (updateUpsert role permissions (pw_state w)), pw_resets := Suc (pw_resets w)\<rparr>"
| "permApply Reset w = (if pw_resets w = 0 then w else w\<lparr>pw_state := updateReset (pw_state w), pw_resets := pw_resets w - 1\<rparr>)"

definition permStart :: "rolePermState \<Rightarrow> permWorld" where
  "permStart st = \<lparr>pw_state = st, pw_loads = [], pw_resets = 0\<rparr>"

definition sameMatrices :: "(userRole \<Rightarrow> permissionMatrix) \<Rightarrow> (userRole \<Rightarrow> permissionMatrix) \<Rightarrow> bool" where
  "sameMatrices a b \<longleftrightarrow> list_all (\<lambda>role. list_all (\<lambda>key. a role key = b role key) PERMISSION_KEYS) userRoles"

lemma sameMatrices_eq: "sameMatrices a b \<longleftrightarrow> a = b"
proof -
  have "role \<in> set userRoles" for role by (cases role) (simp_all add: userRoles_def)
  then show ?thesis by (auto simp: sameMatrices_def list_all_iff all_keys fun_eq_iff)
qed

text \<open>
  No load is overtaken: a load that ends while no update is under way brings what the table says. A load that reads the
  table before an update and ends while that update is under way does no harm, since the update clears the cache.
\<close>

definition overtaken :: "permEvent \<Rightarrow> permWorld \<Rightarrow> bool" where
  "overtaken ev w =
     (case ev of
        Loaded k now \<Rightarrow> k < length (pw_loads w) \<and> pw_resets w = 0
          \<and> \<not> sameMatrices (loadedMatrix (pw_loads w ! k)) (loadedMatrix (pm_rows (pw_state w)))
      | _ \<Rightarrow> False)"

fun noneOvertaken :: "permEvent list \<Rightarrow> permWorld \<Rightarrow> bool" where
  "noneOvertaken [] w = True"
| "noneOvertaken (ev # evs) w = (\<not> overtaken ev w \<and> noneOvertaken evs (permApply ev w))"

text \<open>While no update is under way the cache says what the table says.\<close>

definition coherent :: "permWorld \<Rightarrow> bool" where
  "coherent w \<longleftrightarrow> (pw_resets w = 0 \<longrightarrow> cacheOk (pw_state w))"

lemma coherent_apply: "coherent w \<Longrightarrow> \<not> overtaken ev w \<Longrightarrow> coherent (permApply ev w)"
  by (cases ev) (auto simp: coherent_def cacheOk_def overtaken_def sameMatrices_eq loadFinish_def updateReset_def
      loaded_init init_cache)

lemma coherent_run: "coherent w \<Longrightarrow> noneOvertaken evs w \<Longrightarrow> coherent (fold permApply evs w)"
  by (induction evs arbitrary: w) (simp_all add: coherent_apply)

section \<open>Properties\<close>

text \<open>
  Property C30. The guard decides by the table. Take any run of one process, its loads of the table and its updates
  interleaved in any way, in which no load is overtaken by an update: none that has read the table before a change ends
  after the update that made the change has cleared the cache. While no update is under way, the verdict on a user who is
  no super administrator is that of the stored matrix, completed by the defaults, and not that of an outdated cache. And
  in any run, with overtaken loads and with changes of the table by another process, this holds again once the cache is
  fifteen seconds old. The table is the one the request finds when it reads the cache or asks for the rows.
\<close>

theorem guard_decides_by_table:
  assumes "pm_cache st0 = None" "w = fold permApply evs (permStart st0)" "st = (pw_state w)\<lparr>pm_rows := rows\<rparr>"
    and "noneOvertaken evs (permStart st0) \<and> pw_resets w = 0 \<and> rows = pm_rows (pw_state w) \<or> pm_cacheAt (pw_state w) + CACHE_TTL_MS \<le> now"
    and "ai_role u \<noteq> SUPER_ADMIN"
  shows "fst (permissionsGuard (Some key) (Some u) now st) = (if loadedMatrix rows (ai_role u) key then GuardPass else GuardDenied key)"
proof -
  have "coherent (permStart st0)" using assms(1) by (simp add: coherent_def cacheOk_def permStart_def)
  then have "coherent w" if "noneOvertaken evs (permStart st0)" using coherent_run assms(2) that by blast
  then have "cacheOk st \<or> pm_cacheAt st + CACHE_TTL_MS \<le> now" using assms(3,4) by (auto simp: coherent_def cacheOk_def)
  then have "fst (loadAll now st) = loadedMatrix rows" using loadAll_fresh [of st now] assms(3) by auto
  with assms(5) show ?thesis by (simp add: permissionsGuard_def split_beta hasPermission_loaded)
qed

definition demoRows :: "(userRole \<times> json) list" where
  "demoRows = [(OPERATOR, JObj [(''roleManage'', JBool True)])]"

definition demoPerms :: rolePermState where
  "demoPerms = \<lparr>pm_rows = demoRows, pm_cache = None, pm_cacheAt = 0\<rparr>"

definition demoOperator :: authUserInfo where
  "demoOperator = \<lparr>ai_id = ''u'', ai_name = ''u'', ai_email = ''e'', ai_role = OPERATOR\<rparr>"

text \<open>A load reads the table, an update denies the permission, and the load ends before the update clears the cache.\<close>

theorem guard_decides_by_table_witness:
  "fst (permissionsGuard (Some RoleManage) (Some demoOperator) 5 demoPerms) = GuardPass
   \<and> fst (permissionsGuard (Some RoleManage) (Some demoOperator) 20
        (pw_state (fold permApply [Query 10, Upsert OPERATOR None, Loaded 0 12, Reset] (permStart demoPerms)))) = GuardDenied RoleManage"
proof -
  let ?w = "fold permApply [Query 10, Upsert OPERATOR None, Loaded 0 12, Reset] (permStart demoPerms)"
  have "noneOvertaken [Query 10, Upsert OPERATOR None, Loaded 0 12, Reset] (permStart demoPerms)" "pw_resets ?w = 0"
    "\<not> loadedMatrix (pm_rows (pw_state ?w)) OPERATOR RoleManage" by code_simp+
  moreover have "loadedMatrix demoRows OPERATOR RoleManage" "noneOvertaken [] (permStart demoPerms)" by code_simp+
  moreover have "(pw_state ?w)\<lparr>pm_rows := pm_rows (pw_state ?w)\<rparr> = pw_state ?w" by simp
  ultimately show ?thesis
    using guard_decides_by_table [of demoPerms ?w "[Query 10, Upsert OPERATOR None, Loaded 0 12, Reset]" "pw_state ?w"
        "pm_rows (pw_state ?w)" 20 demoOperator RoleManage]
      guard_decides_by_table [of demoPerms "permStart demoPerms" "[]" demoPerms demoRows 5 demoOperator RoleManage]
    by (simp add: demoOperator_def demoPerms_def permStart_def del: fold_simps)
qed

text \<open>
  The load that is overtaken: it ends after the update has cleared the cache, and for fifteen seconds the guard goes on
  granting what the table denies.
\<close>

lemma overtaken_load_keeps_old_matrix:
  "let w = fold permApply [Query 10, Upsert OPERATOR None, Reset, Loaded 0 12] (permStart demoPerms) in
     \<not> loadedMatrix (pm_rows (pw_state w)) OPERATOR RoleManage \<and> pw_resets w = 0
   \<and> fst (permissionsGuard (Some RoleManage) (Some demoOperator) 15011 (pw_state w)) = GuardPass
   \<and> fst (permissionsGuard (Some RoleManage) (Some demoOperator) 15012 (pw_state w)) = GuardDenied RoleManage"
  by code_simp

text \<open>
  A change of a role takes effect at once in the process that made it: what was given as \<open>true\<close> is
  granted, everything else is denied, no default comes back, and the other roles keep what they had.
\<close>

theorem role_update_takes_effect:
  "fst (hasPermission now role' key (snd (updateRole role permissions st)))
     = (if role' = role then (case permissions of Some j \<Rightarrow> sourceKey j key = Some (JBool True) | None \<Rightarrow> False)
        else loadedMatrix (pm_rows st) role' key)"
proof -
  let ?st = "snd (updateRole role permissions st)"
  have "pm_cache ?st = None" "pm_rows ?st = upsertRow role (matrixJson (normalizeMatrix permissions None)) (pm_rows st)"
    by (simp_all add: updateRole_def updateUpsert_def updateReset_def Let_def)
  then have "fst (loadAll now ?st) = (loadedMatrix (pm_rows st))(role := normalizeMatrix permissions None)"
    using loadAll_fresh [of ?st now] by (simp add: loaded_upsert)
  then show ?thesis by (simp add: hasPermission_loaded normalizeMatrix_def Let_def split: option.split)
qed

end
