(* ===== verification/Safe_Url.thy ===== *)
theory Safe_Url
  imports Env_Config
begin

text \<open>
  Hosts and addresses that the server may be told to contact: the part of
  \<open>apps/api/src/common/network/safe-url.helper.ts\<close> that the webhooks use. \<open>isIP\<close> of Node, which says whether a text
  is an address of version 4 or 6 or none (0), is an argument.
\<close>

definition normalizeIp :: "string \<Rightarrow> string" where
  "normalizeIp ip = (if starts_with ip ''::ffff:'' then drop 7 ip else ip)"

text \<open>
  Four decimal numbers below 256. The octets are only taken of texts that \<open>isIP\<close> recognises as addresses of version 4,
  whose parts are decimal: the other texts that \<open>Number\<close> accepts (empty, hexadecimal, with an exponent) do not reach it.
\<close>

definition parseOctet :: "string \<Rightarrow> nat option" where
  "parseOctet part =
     (if part \<noteq> [] \<and> list_all is_digit part \<and> digits_nat 0 part \<le> 255 then Some (digits_nat 0 part) else None)"

definition parseIpv4Octets :: "string \<Rightarrow> nat list option" where
  "parseIpv4Octets ip =
     (let parts = split_on CHR ''.'' ip in
      if length parts \<noteq> 4 then None
      else let octets = map parseOctet parts in
        if list_ex (\<lambda>x. x = None) octets then None else Some (map the octets))"

definition isPrivateIpv4 :: "string \<Rightarrow> bool" where
  "isPrivateIpv4 ip =
     (case parseIpv4Octets ip of
        Some (a # b # _) \<Rightarrow>
          a = 10 \<or> a = 127 \<or> a = 169 \<and> b = 254 \<or> a = 192 \<and> b = 168 \<or> a = 172 \<and> 16 \<le> b \<and> b \<le> 31 \<or> a = 0 \<or> a \<ge> 224
      | _ \<Rightarrow> False)"

definition isPrivateIpv6 :: "string \<Rightarrow> bool" where
  "isPrivateIpv6 ip =
     (let normalized = js_lower ip in
      normalized = ''::1'' \<or> starts_with normalized ''fc'' \<or> starts_with normalized ''fd''
      \<or> starts_with normalized ''fe8'' \<or> starts_with normalized ''fe9'' \<or> starts_with normalized ''fea'' \<or> starts_with normalized ''feb'')"

definition isPrivateOrReservedIp :: "(string \<Rightarrow> nat) \<Rightarrow> string \<Rightarrow> bool" where
  "isPrivateOrReservedIp isIP ipRaw =
     (let ip = normalizeIp ipRaw in
      if isIP ip = 4 then isPrivateIpv4 ip else if isIP ip = 6 then isPrivateIpv6 ip else False)"

definition isAllowedHost :: "string \<Rightarrow> string list \<Rightarrow> bool" where
  "isAllowedHost hostname allowlist =
     (allowlist = [] \<or>
      (let host = js_lower hostname in
       list_ex (\<lambda>entry.
         let rule = js_lower (js_trim entry) in
         rule \<noteq> [] \<and> (if starts_with rule ''.'' then ends_with host rule
                     else host = rule \<or> ends_with host (''.'' @ rule))) allowlist))"

end
