(* ===== verification/Alarms.thy ===== *)
theory Alarms
  imports Role_Permissions Safe_Url
begin

text \<open>
  Alarms: the service of \<open>apps/api/src/alarms/alarms.service.ts\<close> with the mutes of \<open>alarm-mute.service.ts\<close>.

  \<^item> The tables are lists; the mutes are the keys of the Redis server with the instant each expires at. Every
    operation is one step, and its instants are arguments.
  \<^item> \<open>am_notified\<close> lists the alarms whose opening was handed to the notifications, with their rules.
  \<^item> The parser of URLs, the resolver of names and \<open>isIP\<close> of Node, and the two settings of the webhooks are the
    record \<open>webhookRuntime\<close>. Free texts that are not stored and the columns that a list adds for display are left out.
\<close>

section \<open>Data\<close>

datatype alarmSource = SRC_STREAM | SRC_HEALTH | SRC_MOTION | SRC_ANALYTICS

datatype alarmPriority = P1 | P2 | P3 | P4

datatype alarmStatus = OPEN | ACKED | RESOLVED

record alarmInstance =
  al_id :: string
  al_cameraId :: "string option"
  al_eventId :: "string option"
  al_source :: alarmSource
  al_type :: string
  al_title :: string
  al_message :: string
  al_severity :: string
  al_priority :: alarmPriority
  al_status :: alarmStatus
  al_metadata :: json
  al_note :: "string option"
  al_occurrenceCount :: nat
  al_firstOccurredAt :: int
  al_lastOccurredAt :: int
  al_acknowledgedAt :: "int option"
  al_acknowledgedByUserId :: "string option"
  al_acknowledgedByUserName :: "string option"
  al_resolvedAt :: "int option"
  al_resolvedByUserId :: "string option"
  al_resolvedByUserName :: "string option"

record alarmRule =
  ru_id :: string
  ru_name :: string
  ru_source :: alarmSource
  ru_eventType :: string
  ru_priority :: alarmPriority
  ru_isEnabled :: bool
  ru_dedupWindowSeconds :: int
  ru_autoResolveOnRecovery :: bool
  ru_notifyOnOpen :: bool
  ru_webhookUrl :: "string option"
  ru_emailTo :: "string option"

record alarmCamera =
  ac_id :: string
  ac_alarmsEnabled :: bool
  ac_recordingMode :: string
  ac_enabled :: bool

record alarmState =
  am_alarms :: "alarmInstance list"
  am_rules :: "alarmRule list"
  am_cameras :: "alarmCamera list"
  am_mutes :: "(string \<times> int) list"
  am_notified :: "(string \<times> string) list"

record alarmEvent =
  ae_eventId :: string
  ae_cameraId :: string
  ae_type :: string
  ae_severity :: string
  ae_message :: string
  ae_metadata :: json
  ae_occurredAt :: int

record alarmActor =
  aa_id :: string
  aa_name :: string

datatype alarmError = AlarmNotFound | RuleNotFound | BadWebhook | ViewForbidden accessError | Refused guardVerdict

section \<open>Classification\<close>

definition inferSource :: "string \<Rightarrow> alarmSource option" where
  "inferSource type =
     (if starts_with type ''STREAM_'' then Some SRC_STREAM
      else if starts_with type ''HEALTH_'' then Some SRC_HEALTH
      else if type = ''MOTION_DETECTED'' then Some SRC_MOTION
      else if starts_with type ''MOTION_'' then Some SRC_MOTION
      else if starts_with type ''AI_'' \<or> starts_with type ''ANALYTICS_'' then Some SRC_ANALYTICS
      else None)"

fun defaultDedupWindow :: "alarmSource \<Rightarrow> int" where
  "defaultDedupWindow SRC_MOTION = 300"
| "defaultDedupWindow SRC_STREAM = 120"
| "defaultDedupWindow SRC_HEALTH = 120"
| "defaultDedupWindow SRC_ANALYTICS = 60"

definition isRecoveryEvent :: "string \<Rightarrow> bool" where
  "isRecoveryEvent type \<longleftrightarrow> type = ''HEALTH_AUTO_RECOVERED'' \<or> type = ''HEALTH_RECORDING_RECOVERED''
     \<or> type = ''STREAM_RESUMED'' \<or> type = ''STREAM_RECOVERED''"

definition isActiveAlarm :: "alarmInstance \<Rightarrow> bool" where
  "isActiveAlarm a \<longleftrightarrow> al_status a = OPEN \<or> al_status a = ACKED"

section \<open>Mutes\<close>

definition ruleKey :: "string \<Rightarrow> string" where
  "ruleKey ruleId = ''alarm:mute:rule:'' @ ruleId"

definition cameraEventKey :: "string \<Rightarrow> string \<Rightarrow> string" where
  "cameraEventKey cameraId eventType = ''alarm:mute:camera:'' @ cameraId @ '':event:'' @ eventType"

definition muteTtl :: "rat \<Rightarrow> int" where
  "muteTtl minutes = max 60 (min 86400 \<lfloor>minutes * 60\<rfloor>)"

definition setMute :: "string \<Rightarrow> int \<Rightarrow> rat \<Rightarrow> alarmState \<Rightarrow> alarmState" where
  "setMute key now minutes st = st\<lparr>am_mutes := AList.update key (now + muteTtl minutes * 1000) (am_mutes st)\<rparr>"

definition muteRule :: "string \<Rightarrow> int \<Rightarrow> rat \<Rightarrow> alarmState \<Rightarrow> alarmState" where
  "muteRule ruleId = setMute (ruleKey ruleId)"

definition unmuteRule :: "string \<Rightarrow> alarmState \<Rightarrow> alarmState" where
  "unmuteRule ruleId st = st\<lparr>am_mutes := AList.delete (ruleKey ruleId) (am_mutes st)\<rparr>"

definition muteCameraEvent :: "string \<Rightarrow> string \<Rightarrow> int \<Rightarrow> rat \<Rightarrow> alarmState \<Rightarrow> alarmState" where
  "muteCameraEvent cameraId eventType = setMute (cameraEventKey cameraId eventType)"

definition unmuteCameraEvent :: "string \<Rightarrow> string \<Rightarrow> alarmState \<Rightarrow> alarmState" where
  "unmuteCameraEvent cameraId eventType st = st\<lparr>am_mutes := AList.delete (cameraEventKey cameraId eventType) (am_mutes st)\<rparr>"

definition muted :: "string \<Rightarrow> int \<Rightarrow> alarmState \<Rightarrow> bool" where
  "muted key now st = (case map_of (am_mutes st) key of None \<Rightarrow> False | Some t \<Rightarrow> now < t)"

definition isRuleMuted :: "string \<Rightarrow> int \<Rightarrow> alarmState \<Rightarrow> bool" where
  "isRuleMuted ruleId now st = (ruleId \<noteq> [] \<and> muted (ruleKey ruleId) now st)"

definition isCameraEventMuted :: "string \<Rightarrow> string \<Rightarrow> int \<Rightarrow> alarmState \<Rightarrow> bool" where
  "isCameraEventMuted cameraId eventType = muted (cameraEventKey cameraId eventType)"

section \<open>Metadata\<close>

text \<open>The fields of a value that is spread into an object; those of an array are its indices.\<close>

fun spreadFields :: "json \<Rightarrow> (string \<times> json) list" where
  "spreadFields (JObj fs) = fs"
| "spreadFields (JArr vs) = zip (map show_nat [0..<length vs]) vs"
| "spreadFields _ = []"

definition jsonText :: "string option \<Rightarrow> json" where
  "jsonText x = (case x of None \<Rightarrow> JNull | Some s \<Rightarrow> JStr s)"

definition historyOf :: "json \<Rightarrow> json list" where
  "historyOf m = (case map_of (spreadFields m) ''transitionHistory'' of Some (JArr h) \<Rightarrow> h | _ \<Rightarrow> [])"

record transitionEntry =
  te_action :: string
  te_note :: "string option"
  te_extra :: "(string \<times> json) list"

definition appendTransition :: "int \<Rightarrow> alarmActor \<Rightarrow> transitionEntry \<Rightarrow> json \<Rightarrow> json" where
  "appendTransition now user e m =
     (let entry = JObj ([(''at'', JStr (iso_string now)), (''action'', JStr (te_action e)), (''byUserId'', JStr (aa_id user)),
                (''byUserName'', JStr (aa_name user)), (''note'', jsonText (te_note e))] @ te_extra e)
      in JObj (AList.update ''transitionHistory'' (JArr (historyOf m @ [entry])) (spreadFields m)))"

text \<open>\<open>note?.trim() || undefined\<close>.\<close>

definition trimmedNote :: "string option \<Rightarrow> string option" where
  "trimmedNote x = (case x of None \<Rightarrow> None | Some s \<Rightarrow> if js_trim s = [] then None else Some (js_trim s))"

section \<open>Events\<close>

definition getRule :: "alarmSource \<Rightarrow> string \<Rightarrow> alarmState \<Rightarrow> alarmRule option" where
  "getRule source eventType st = find (\<lambda>r. ru_source r = source \<and> ru_eventType r = eventType) (am_rules st)"

definition quietSecondsOf :: "environment \<Rightarrow> alarmState \<Rightarrow> rat" where
  "quietSecondsOf env st =
     max 30 (max (fst (envNumber (env ''MOTION_ALARM_QUIET_SECONDS'') (Fin 300) \<lparr>opt_min = None, opt_max = None, opt_integer = False\<rparr>))
       (case getRule SRC_MOTION ''MOTION_DETECTED'' st of None \<Rightarrow> 0 | Some r \<Rightarrow> of_int (ru_dedupWindowSeconds r)))"

definition staleMotion :: "int \<Rightarrow> alarmInstance \<Rightarrow> bool" where
  "staleMotion quietBefore a \<longleftrightarrow> al_source a = SRC_MOTION \<and> al_type a = ''MOTION_DETECTED'' \<and> isActiveAlarm a \<and> al_lastOccurredAt a \<le> quietBefore"

definition resolveStaleMotionAlarms :: "environment \<Rightarrow> int \<Rightarrow> alarmState \<Rightarrow> nat \<times> alarmState" where
  "resolveStaleMotionAlarms env now st =
     (let quietSeconds = quietSecondsOf env st;
          quietBefore = math_trunc (of_int now - quietSeconds * 1000)
      in (length (filter (staleMotion quietBefore) (am_alarms st)),
          st\<lparr>am_alarms := map (\<lambda>a. if staleMotion quietBefore a
              then a\<lparr>al_status := RESOLVED, al_resolvedAt := Some now, al_resolvedByUserName := Some ''SYSTEM_MOTION_QUIET'',
                     al_note := Some (''Resolvido automaticamente ap'' @ [CHR 0xF3] @ ''s '' @ show_millis quietSeconds @ ''s sem novo movimento.'')\<rparr>
              else a) (am_alarms st)\<rparr>))"

datatype eventOutcome = NoAlarm | Resolved nat | Merged string | Opened string

definition recoverable :: "string \<Rightarrow> alarmSource \<Rightarrow> alarmInstance \<Rightarrow> bool" where
  "recoverable cameraId source a \<longleftrightarrow> al_cameraId a = Some cameraId \<and> isActiveAlarm a
     \<and> (if source = SRC_HEALTH then al_source a = SRC_HEALTH \<or> al_source a = SRC_STREAM else al_source a = source)"

definition autoResolveForCamera ::
    "string \<Rightarrow> alarmSource \<Rightarrow> string \<Rightarrow> int \<Rightarrow> string \<Rightarrow> alarmState \<Rightarrow> eventOutcome \<times> alarmState" where
  "autoResolveForCamera cameraId source eventId occurredAt message st =
     (let targets = filter (recoverable cameraId source) (am_alarms st) in
      if targets = [] then (NoAlarm, st)
      else (Resolved (length targets),
            st\<lparr>am_alarms := map (\<lambda>a. if al_id a \<in> set (map al_id targets)
                then a\<lparr>al_status := RESOLVED, al_resolvedAt := Some occurredAt, al_resolvedByUserName := Some ''SYSTEM_AUTO_RECOVERY'',
                       al_note := Some message, al_eventId := Some eventId\<rparr> else a) (am_alarms st)\<rparr>))"

text \<open>\<open>findFirst\<close> in descending order of \<open>lastOccurredAt\<close>.\<close>

fun latest :: "alarmInstance list \<Rightarrow> alarmInstance option" where
  "latest [] = None"
| "latest (a # as) = (case latest as of None \<Rightarrow> Some a | Some b \<Rightarrow> if al_lastOccurredAt b \<le> al_lastOccurredAt a then Some a else Some b)"

definition dedupMatch :: "string \<Rightarrow> alarmSource \<Rightarrow> string \<Rightarrow> int \<Rightarrow> alarmInstance \<Rightarrow> bool" where
  "dedupMatch cameraId source type threshold a \<longleftrightarrow> al_cameraId a = Some cameraId \<and> al_source a = source \<and> al_type a = type
     \<and> isActiveAlarm a \<and> threshold \<le> al_lastOccurredAt a"

definition armed :: "alarmCamera option \<Rightarrow> bool" where
  "armed c = (case c of None \<Rightarrow> False | Some k \<Rightarrow> ac_enabled k \<and> ac_recordingMode k = ''motion'')"

definition storedMetadata :: "json \<Rightarrow> json" where
  "storedMetadata m = (case m of JObj _ \<Rightarrow> m | JArr _ \<Rightarrow> m | _ \<Rightarrow> JObj [])"

definition mergeEvent :: "alarmEvent \<Rightarrow> alarmRule \<Rightarrow> alarmInstance \<Rightarrow> alarmInstance" where
  "mergeEvent ev rule a = a\<lparr>al_eventId := Some (ae_eventId ev), al_message := ae_message ev, al_severity := ae_severity ev,
     al_priority := ru_priority rule, al_metadata := storedMetadata (ae_metadata ev), al_lastOccurredAt := ae_occurredAt ev,
     al_occurrenceCount := al_occurrenceCount a + 1\<rparr>"

definition newAlarm :: "string \<Rightarrow> alarmEvent \<Rightarrow> alarmSource \<Rightarrow> alarmRule \<Rightarrow> alarmInstance" where
  "newAlarm newId ev source rule =
     \<lparr>al_id = newId, al_cameraId = Some (ae_cameraId ev), al_eventId = Some (ae_eventId ev), al_source = source, al_type = ae_type ev,
      al_title = replace_all ''_'' '' '' (ae_type ev), al_message = ae_message ev, al_severity = ae_severity ev,
      al_priority = ru_priority rule, al_status = OPEN, al_metadata = storedMetadata (ae_metadata ev), al_note = None,
      al_occurrenceCount = 1, al_firstOccurredAt = ae_occurredAt ev, al_lastOccurredAt = ae_occurredAt ev,
      al_acknowledgedAt = None, al_acknowledgedByUserId = None, al_acknowledgedByUserName = None,
      al_resolvedAt = None, al_resolvedByUserId = None, al_resolvedByUserName = None\<rparr>"

text \<open>The conditions under which an event that is no recovery reaches the table: the rule, or nothing.\<close>

definition admits :: "int \<Rightarrow> alarmSource \<Rightarrow> alarmEvent \<Rightarrow> alarmState \<Rightarrow> alarmRule option" where
  "admits now source ev st =
     (let cam = find (\<lambda>c. ac_id c = ae_cameraId ev) (am_cameras st) in
      if (case cam of None \<Rightarrow> False | Some c \<Rightarrow> \<not> ac_alarmsEnabled c) then None
      else if ae_type ev = ''MOTION_DETECTED'' \<and> \<not> armed cam then None
      else case getRule source (ae_type ev) st of
        None \<Rightarrow> None
      | Some rule \<Rightarrow>
          if \<not> ru_isEnabled rule then None
          else if isRuleMuted (ru_id rule) now st then None
          else if isCameraEventMuted (ae_cameraId ev) (ae_type ev) now st then None
          else Some rule)"

text \<open>
  An alarm that is found is never resolved, so that the branches of the source for a resolved one are not taken.
\<close>

definition recordEvent :: "string \<Rightarrow> alarmSource \<Rightarrow> alarmEvent \<Rightarrow> alarmRule \<Rightarrow> alarmState \<Rightarrow> eventOutcome \<times> alarmState" where
  "recordEvent newId source ev rule st =
     (let threshold = ae_occurredAt ev - ru_dedupWindowSeconds rule * 1000 in
      case latest (filter (dedupMatch (ae_cameraId ev) source (ae_type ev) threshold) (am_alarms st)) of
        Some existing \<Rightarrow>
          (Merged (al_id existing),
           st\<lparr>am_alarms := map (\<lambda>a. if al_id a = al_id existing then mergeEvent ev rule a else a) (am_alarms st)\<rparr>)
      | None \<Rightarrow>
          (Opened newId,
           st\<lparr>am_alarms := am_alarms st @ [newAlarm newId ev source rule],
              am_notified := (if ru_notifyOnOpen rule then am_notified st @ [(newId, ru_id rule)] else am_notified st)\<rparr>))"

definition processEvent :: "environment \<Rightarrow> string \<Rightarrow> int \<Rightarrow> alarmEvent \<Rightarrow> alarmState \<Rightarrow> eventOutcome \<times> alarmState" where
  "processEvent env newId now ev st =
     (case inferSource (ae_type ev) of
        None \<Rightarrow> (NoAlarm, st)
      | Some source \<Rightarrow>
          let st1 = (if ae_type ev = ''MOTION_DETECTED'' then snd (resolveStaleMotionAlarms env (ae_occurredAt ev) st) else st) in
          if isRecoveryEvent (ae_type ev)
          then autoResolveForCamera (ae_cameraId ev) source (ae_eventId ev) (ae_occurredAt ev) (ae_message ev) st1
          else case admits now source ev st1 of
            None \<Rightarrow> (NoAlarm, st1)
          | Some rule \<Rightarrow> recordEvent newId source ev rule st1)"

section \<open>Actions\<close>

definition findAlarm :: "string \<Rightarrow> alarmState \<Rightarrow> alarmInstance option" where
  "findAlarm i st = find (\<lambda>a. al_id a = i) (am_alarms st)"

definition updateAlarm :: "string \<Rightarrow> (alarmInstance \<Rightarrow> alarmInstance) \<Rightarrow> alarmState \<Rightarrow> (alarmError, unit) result \<times> alarmState" where
  "updateAlarm i f st =
     (if findAlarm i st = None then (Inl AlarmNotFound, st)
      else (Inr (), st\<lparr>am_alarms := map (\<lambda>a. if al_id a = i then f a else a) (am_alarms st)\<rparr>))"

definition acknowledge :: "int \<Rightarrow> string \<Rightarrow> alarmActor \<Rightarrow> string option \<Rightarrow> alarmState \<Rightarrow> (alarmError, unit) result \<times> alarmState" where
  "acknowledge now i user note =
     updateAlarm i (\<lambda>a. a\<lparr>al_status := ACKED, al_acknowledgedAt := Some now, al_acknowledgedByUserId := Some (aa_id user),
       al_acknowledgedByUserName := Some (aa_name user),
       al_note := (case trimmedNote note of None \<Rightarrow> al_note a | Some n \<Rightarrow> Some n),
       al_metadata := appendTransition now user \<lparr>te_action = ''ACKNOWLEDGED'', te_note = trimmedNote note, te_extra = []\<rparr> (al_metadata a)\<rparr>)"

definition resolve :: "int \<Rightarrow> string \<Rightarrow> alarmActor \<Rightarrow> string option \<Rightarrow> alarmState \<Rightarrow> (alarmError, unit) result \<times> alarmState" where
  "resolve now i user note =
     updateAlarm i (\<lambda>a. a\<lparr>al_status := RESOLVED, al_resolvedAt := Some now, al_resolvedByUserId := Some (aa_id user),
       al_resolvedByUserName := Some (aa_name user),
       al_note := (case trimmedNote note of None \<Rightarrow> al_note a | Some n \<Rightarrow> Some n),
       al_metadata := appendTransition now user \<lparr>te_action = ''RESOLVED'', te_note = trimmedNote note, te_extra = []\<rparr> (al_metadata a)\<rparr>)"

definition addNote :: "int \<Rightarrow> string \<Rightarrow> alarmActor \<Rightarrow> string \<Rightarrow> alarmState \<Rightarrow> (alarmError, unit) result \<times> alarmState" where
  "addNote now i user note st =
     (if findAlarm i st = None then (Inl AlarmNotFound, st)
      else if js_trim note = [] then (Inr (), st)
      else updateAlarm i (\<lambda>a. a\<lparr>
        al_note := Some (case trimmedNote (al_note a) of
            None \<Rightarrow> js_trim note | Some _ \<Rightarrow> (case al_note a of Some n \<Rightarrow> n | None \<Rightarrow> []) @ [CHR 0x0A] @ js_trim note),
        al_metadata := appendTransition now user \<lparr>te_action = ''NOTE_ADDED'', te_note = Some (js_trim note), te_extra = []\<rparr> (al_metadata a)\<rparr>) st)"

definition safeMinutes :: "rat \<Rightarrow> int" where
  "safeMinutes minutes = max 1 (min 1440 \<lfloor>minutes\<rfloor>)"

definition snooze :: "int \<Rightarrow> string \<Rightarrow> alarmActor \<Rightarrow> rat \<Rightarrow> string option \<Rightarrow> alarmState \<Rightarrow> (alarmError, unit) result \<times> alarmState" where
  "snooze now i user minutes note =
     (let m = safeMinutes minutes; until = iso_string (now + m * 60 * 1000) in
      updateAlarm i (\<lambda>a. a\<lparr>al_status := ACKED,
        al_acknowledgedAt := (case al_acknowledgedAt a of None \<Rightarrow> Some now | x \<Rightarrow> x),
        al_acknowledgedByUserId := (case al_acknowledgedByUserId a of None \<Rightarrow> Some (aa_id user) | x \<Rightarrow> x),
        al_acknowledgedByUserName := (case al_acknowledgedByUserName a of None \<Rightarrow> Some (aa_name user) | x \<Rightarrow> x),
        al_note := (case trimmedNote note of None \<Rightarrow> al_note a | Some n \<Rightarrow> Some n),
        al_metadata := appendTransition now user \<lparr>te_action = ''SNOOZED'', te_note = trimmedNote note,
            te_extra = [(''minutes'', JNum (of_int m)), (''until'', JStr until)]\<rparr>
          (JObj (AList.update ''snooze'' (JObj [(''active'', JBool True), (''until'', JStr until), (''byUserId'', JStr (aa_id user)),
             (''byUserName'', JStr (aa_name user)), (''note'', jsonText (trimmedNote note))]) (spreadFields (al_metadata a))))\<rparr>))"

definition unsnooze :: "int \<Rightarrow> string \<Rightarrow> alarmActor \<Rightarrow> string option \<Rightarrow> alarmState \<Rightarrow> (alarmError, unit) result \<times> alarmState" where
  "unsnooze now i user note =
     updateAlarm i (\<lambda>a.
       let old = (case map_of (spreadFields (al_metadata a)) ''snooze'' of Some s \<Rightarrow> spreadFields s | None \<Rightarrow> []);
           cleared = foldl (\<lambda>fs (k, v). AList.update k v fs) old
             [(''active'', JBool False), (''clearedAt'', JStr (iso_string now)), (''clearedByUserId'', JStr (aa_id user)),
              (''clearedByUserName'', JStr (aa_name user)), (''clearNote'', jsonText (trimmedNote note))]
       in a\<lparr>al_metadata := appendTransition now user \<lparr>te_action = ''UNSNOOZED'', te_note = trimmedNote note, te_extra = []\<rparr>
            (JObj (AList.update ''snooze'' (JObj cleared) (spreadFields (al_metadata a))))\<rparr>)"

datatype bulkKind = Ack | Resolve | Snooze | Unsnooze

record bulkOpts =
  bo_note :: "string option"
  bo_snoozeMinutes :: "rat option"

definition bulkOne :: "int \<Rightarrow> bulkKind \<Rightarrow> alarmActor \<Rightarrow> bulkOpts \<Rightarrow> string \<Rightarrow> alarmState \<Rightarrow> (alarmError, unit) result \<times> alarmState" where
  "bulkOne now action user opts i =
     (case action of
        Ack \<Rightarrow> acknowledge now i user (bo_note opts)
      | Resolve \<Rightarrow> resolve now i user (bo_note opts)
      | Snooze \<Rightarrow> snooze now i user (case bo_snoozeMinutes opts of None \<Rightarrow> 15 | Some m \<Rightarrow> m) (bo_note opts)
      | Unsnooze \<Rightarrow> unsnooze now i user (bo_note opts))"

fun bulkLoop ::
    "int \<Rightarrow> bulkKind \<Rightarrow> alarmActor \<Rightarrow> bulkOpts \<Rightarrow> string list \<Rightarrow> alarmState \<Rightarrow> (string \<times> bool) list \<times> alarmState" where
  "bulkLoop now action user opts [] st = ([], st)"
| "bulkLoop now action user opts (i # is) st =
     (let (r, st1) = bulkOne now action user opts i st; (rs, st2) = bulkLoop now action user opts is st1 in ((i, isOk r) # rs, st2))"

definition bulkAction ::
    "int \<Rightarrow> bulkKind \<Rightarrow> string list \<Rightarrow> alarmActor \<Rightarrow> bulkOpts \<Rightarrow> alarmState \<Rightarrow> (string \<times> bool) list \<times> alarmState" where
  "bulkAction now action eventIds user opts st = bulkLoop now action user opts (take 200 (js_uniq eventIds)) st"

definition deleteAll :: "alarmState \<Rightarrow> nat \<times> alarmState" where
  "deleteAll st = (length (am_alarms st), st\<lparr>am_alarms := []\<rparr>)"

section \<open>Queries\<close>

record alarmQuery =
  aq_cameraId :: "string option"
  aq_from :: "int option"
  aq_to :: "int option"
  aq_status :: "alarmStatus option"
  aq_severity :: "string option"
  aq_priority :: "alarmPriority option"
  aq_source :: "alarmSource option"
  aq_type :: "string option"
  aq_limit :: "int option"
  aq_offset :: "int option"

definition wanted :: "'a option \<Rightarrow> 'a \<Rightarrow> bool" where
  "wanted q x = (case q of None \<Rightarrow> True | Some y \<Rightarrow> x = y)"

definition alarmWhere :: "string list \<Rightarrow> alarmQuery \<Rightarrow> alarmInstance \<Rightarrow> bool" where
  "alarmWhere accessibleCameraIds q a \<longleftrightarrow>
     (let cameraIds = (case aq_cameraId q of Some i \<Rightarrow> if i = [] then accessibleCameraIds else [i] | None \<Rightarrow> accessibleCameraIds) in
      (cameraIds = [] \<or> opt_in (al_cameraId a) cameraIds))
     \<and> wanted (aq_status q) (al_status a) \<and> (aq_severity q = Some [] \<or> wanted (aq_severity q) (al_severity a))
     \<and> wanted (aq_priority q) (al_priority a) \<and> wanted (aq_source q) (al_source a) \<and> (aq_type q = Some [] \<or> wanted (aq_type q) (al_type a))
     \<and> (case aq_from q of None \<Rightarrow> True | Some t \<Rightarrow> t \<le> al_lastOccurredAt a)
     \<and> (case aq_to q of None \<Rightarrow> True | Some t \<Rightarrow> al_lastOccurredAt a \<le> t)"

fun statusRank :: "alarmStatus \<Rightarrow> rat" where
  "statusRank OPEN = 0"
| "statusRank ACKED = 1"
| "statusRank RESOLVED = 2"

fun priorityRank :: "alarmPriority \<Rightarrow> rat" where
  "priorityRank P1 = 0"
| "priorityRank P2 = 1"
| "priorityRank P3 = 2"
| "priorityRank P4 = 3"

definition alarmOrder :: "alarmInstance \<Rightarrow> alarmInstance \<Rightarrow> rat" where
  "alarmOrder a b =
     (if al_status a \<noteq> al_status b then statusRank (al_status a) - statusRank (al_status b)
      else if al_priority a \<noteq> al_priority b then priorityRank (al_priority a) - priorityRank (al_priority b)
      else of_int (al_lastOccurredAt b - al_lastOccurredAt a))"

record alarmPage =
  ap_items :: "alarmInstance list"
  ap_total :: nat
  ap_limit :: int
  ap_offset :: int

definition listAlarmRows :: "string list \<Rightarrow> alarmQuery \<Rightarrow> alarmState \<Rightarrow> alarmPage" where
  "listAlarmRows accessibleCameraIds q st =
     (let limit = max 1 (min 200 (case aq_limit q of None \<Rightarrow> 100 | Some n \<Rightarrow> n));
          offset = max 0 (case aq_offset q of None \<Rightarrow> 0 | Some n \<Rightarrow> n);
          rows = filter (alarmWhere accessibleCameraIds q) (am_alarms st)
      in \<lparr>ap_items = take (nat limit) (drop (nat offset) (js_sort alarmOrder rows)), ap_total = length rows, ap_limit = limit, ap_offset = offset\<rparr>)"

section \<open>Webhooks\<close>

record parsedUrl =
  pu_protocol :: string
  pu_hostname :: string
  pu_text :: string

record webhookRuntime =
  wh_parseUrl :: "string \<Rightarrow> parsedUrl option"
  wh_resolve :: "string \<Rightarrow> string list"
  wh_isIP :: "string \<Rightarrow> nat"
  wh_allowedHosts :: string
  wh_defaultUrl :: string

definition getWebhookAllowlist :: "webhookRuntime \<Rightarrow> string list" where
  "getWebhookAllowlist wh =
     (let explicit = filter (\<lambda>s. s \<noteq> []) (map js_trim (split_on CHR '','' (wh_allowedHosts wh))) in
      if explicit \<noteq> [] then explicit
      else let defaultWebhook = js_trim (wh_defaultUrl wh) in
        if defaultWebhook = [] then []
        else case wh_parseUrl wh defaultWebhook of None \<Rightarrow> [] | Some u \<Rightarrow> [js_lower (pu_hostname u)])"

definition validateWebhookUrl :: "webhookRuntime \<Rightarrow> string option \<Rightarrow> (alarmError, string option) result" where
  "validateWebhookUrl wh raw =
     (case trimmedNote raw of
        None \<Rightarrow> Inr None
      | Some url \<Rightarrow>
          (case wh_parseUrl wh url of
             None \<Rightarrow> Inl BadWebhook
           | Some parsed \<Rightarrow>
               if pu_protocol parsed \<noteq> ''http:'' \<and> pu_protocol parsed \<noteq> ''https:'' then Inl BadWebhook
               else let host = js_lower (js_trim (pu_hostname parsed)); allowlist = getWebhookAllowlist wh in
                 if allowlist = [] \<or> \<not> isAllowedHost host allowlist then Inl BadWebhook
                 else if isPrivateOrReservedIp (wh_isIP wh) host then Inl BadWebhook
                 else if list_ex (isPrivateOrReservedIp (wh_isIP wh)) (wh_resolve wh host) then Inl BadWebhook
                 else Inr (Some (pu_text parsed))))"

section \<open>Rules\<close>

record ruleDto =
  rd_name :: string
  rd_source :: alarmSource
  rd_eventType :: string
  rd_priority :: "alarmPriority option"
  rd_isEnabled :: "bool option"
  rd_dedupWindowSeconds :: "int option"
  rd_autoResolveOnRecovery :: "bool option"
  rd_notifyOnOpen :: "bool option"
  rd_webhookUrl :: "string option"
  rd_emailTo :: "string option"

definition orElse :: "'a option \<Rightarrow> 'a \<Rightarrow> 'a" where
  "orElse x d = (case x of None \<Rightarrow> d | Some y \<Rightarrow> y)"

definition ruleOfDto :: "string \<Rightarrow> string \<Rightarrow> string option \<Rightarrow> ruleDto \<Rightarrow> alarmRule" where
  "ruleOfDto i eventType url dto = \<lparr>ru_id = i, ru_name = js_trim (rd_name dto), ru_source = rd_source dto, ru_eventType = eventType,
     ru_priority = orElse (rd_priority dto) P3, ru_isEnabled = orElse (rd_isEnabled dto) True,
     ru_dedupWindowSeconds = orElse (rd_dedupWindowSeconds dto) (defaultDedupWindow (rd_source dto)),
     ru_autoResolveOnRecovery = orElse (rd_autoResolveOnRecovery dto) False, ru_notifyOnOpen = orElse (rd_notifyOnOpen dto) True,
     ru_webhookUrl = url, ru_emailTo = trimmedNote (rd_emailTo dto)\<rparr>"

text \<open>The upsert: the row is looked for by the type as it came, and created with the type trimmed.\<close>

definition createRule ::
    "webhookRuntime \<Rightarrow> string \<Rightarrow> ruleDto \<Rightarrow> alarmState \<Rightarrow> (alarmError, unit) result \<times> alarmState" where
  "createRule wh newId dto st =
     (case validateWebhookUrl wh (rd_webhookUrl dto) of
        Inl e \<Rightarrow> (Inl e, st)
      | Inr url \<Rightarrow>
          (case getRule (rd_source dto) (rd_eventType dto) st of
             Some r \<Rightarrow> (Inr (), st\<lparr>am_rules := map (\<lambda>x. if ru_id x = ru_id r then ruleOfDto (ru_id r) (ru_eventType r) url dto else x) (am_rules st)\<rparr>)
           | None \<Rightarrow> (Inr (), st\<lparr>am_rules := am_rules st @ [ruleOfDto newId (js_trim (rd_eventType dto)) url dto]\<rparr>)))"

record ruleUpdate =
  rp_name :: "string option"
  rp_priority :: "alarmPriority option"
  rp_isEnabled :: "bool option"
  rp_dedupWindowSeconds :: "int option"
  rp_autoResolveOnRecovery :: "bool option"
  rp_notifyOnOpen :: "bool option"
  rp_webhookUrl :: "string option"
  rp_emailTo :: "string option"

definition applyRuleUpdate :: "ruleUpdate \<Rightarrow> string option \<Rightarrow> alarmRule \<Rightarrow> alarmRule" where
  "applyRuleUpdate dto url r = r\<lparr>ru_name := (case rp_name dto of None \<Rightarrow> ru_name r | Some n \<Rightarrow> js_trim n),
     ru_priority := orElse (rp_priority dto) (ru_priority r), ru_isEnabled := orElse (rp_isEnabled dto) (ru_isEnabled r),
     ru_dedupWindowSeconds := orElse (rp_dedupWindowSeconds dto) (ru_dedupWindowSeconds r),
     ru_autoResolveOnRecovery := orElse (rp_autoResolveOnRecovery dto) (ru_autoResolveOnRecovery r),
     ru_notifyOnOpen := orElse (rp_notifyOnOpen dto) (ru_notifyOnOpen r),
     ru_webhookUrl := (if rp_webhookUrl dto = None then ru_webhookUrl r else url),
     ru_emailTo := (if rp_emailTo dto = None then ru_emailTo r else trimmedNote (rp_emailTo dto))\<rparr>"

definition updateRule :: "webhookRuntime \<Rightarrow> string \<Rightarrow> ruleUpdate \<Rightarrow> alarmState \<Rightarrow> (alarmError, unit) result \<times> alarmState" where
  "updateRule wh i dto st =
     (if find (\<lambda>r. ru_id r = i) (am_rules st) = None then (Inl RuleNotFound, st)
      else case (if rp_webhookUrl dto = None then Inr None else validateWebhookUrl wh (rp_webhookUrl dto)) of
        Inl e \<Rightarrow> (Inl e, st)
      | Inr url \<Rightarrow> (Inr (), st\<lparr>am_rules := map (\<lambda>r. if ru_id r = i then applyRuleUpdate dto url r else r) (am_rules st)\<rparr>))"

definition setRuleEnabled :: "string \<Rightarrow> bool \<Rightarrow> alarmState \<Rightarrow> (alarmError, unit) result \<times> alarmState" where
  "setRuleEnabled i b st =
     (if find (\<lambda>r. ru_id r = i) (am_rules st) = None then (Inl RuleNotFound, st)
      else (Inr (), st\<lparr>am_rules := map (\<lambda>r. if ru_id r = i then r\<lparr>ru_isEnabled := b\<rparr> else r) (am_rules st)\<rparr>))"

datatype simulation = RuleDisabled | EventTypeMismatch | SourceMismatch | DedupWindowActive string | WouldTrigger alarmPriority int

definition simulateRule :: "string \<Rightarrow> string \<Rightarrow> string \<Rightarrow> int \<Rightarrow> alarmState \<Rightarrow> (alarmError, simulation) result" where
  "simulateRule i cameraId eventType now st =
     (case find (\<lambda>r. ru_id r = i) (am_rules st) of
        None \<Rightarrow> Inl RuleNotFound
      | Some rule \<Rightarrow>
          let type = js_trim eventType; camera = js_trim cameraId in
          if \<not> ru_isEnabled rule then Inr RuleDisabled
          else if ru_eventType rule \<noteq> type then Inr EventTypeMismatch
          else if inferSource type \<noteq> Some (ru_source rule) then Inr SourceMismatch
          else case latest (filter (dedupMatch camera (ru_source rule) type (now - ru_dedupWindowSeconds rule * 1000)) (am_alarms st)) of
            Some existing \<Rightarrow> Inr (DedupWindowActive (al_id existing))
          | None \<Rightarrow> Inr (WouldTrigger (ru_priority rule) (ru_dedupWindowSeconds rule)))"

end
