(* ===== verification/Alarms_Props.thy ===== *)
theory Alarms_Props
  imports Alarms
begin

text \<open>
  Properties of the alarms: the life of an alarm, what opens one, the counts of occurrences, the simulation of a rule,
  and what the routes show to whom.
\<close>

section \<open>Effects\<close>

text \<open>A row keeps its identity and its count.\<close>

definition keepsAlarm :: "(alarmInstance \<Rightarrow> alarmInstance) \<Rightarrow> bool" where
  "keepsAlarm f \<longleftrightarrow> (\<forall>a. al_id (f a) = al_id a \<and> al_cameraId (f a) = al_cameraId a \<and> al_occurrenceCount (f a) = al_occurrenceCount a)"

definition alarmOk :: "alarmInstance \<Rightarrow> bool" where
  "alarmOk a \<longleftrightarrow>
     (case al_status a of
        OPEN \<Rightarrow> al_acknowledgedAt a = None \<and> al_resolvedAt a = None
      | ACKED \<Rightarrow> al_acknowledgedAt a \<noteq> None
      | RESOLVED \<Rightarrow> al_resolvedAt a \<noteq> None)
     \<and> 1 \<le> al_occurrenceCount a"

text \<open>An action on rows: it keeps them, and keeps them sound.\<close>

definition alarmAction :: "alarmState \<Rightarrow> alarmState \<Rightarrow> bool" where
  "alarmAction st st' \<longleftrightarrow> (\<exists>f. am_alarms st' = map f (am_alarms st) \<and> keepsAlarm f \<and> (\<forall>a. alarmOk a \<longrightarrow> alarmOk (f a)))"

lemma alarmAction_refl [simp]: "am_alarms st' = am_alarms st \<Longrightarrow> alarmAction st st'"
  unfolding alarmAction_def by (intro exI [of _ "\<lambda>a. a"]) (simp add: keepsAlarm_def)

lemma alarmAction_map:
  "am_alarms st' = map f (am_alarms st) \<Longrightarrow> keepsAlarm f \<Longrightarrow> (\<And>a. alarmOk a \<Longrightarrow> alarmOk (f a)) \<Longrightarrow> alarmAction st st'"
  unfolding alarmAction_def by blast

lemma alarmAction_upd: "keepsAlarm f \<Longrightarrow> (\<And>a. alarmOk a \<Longrightarrow> alarmOk (f a)) \<Longrightarrow> alarmAction st (st\<lparr>am_alarms := map f (am_alarms st)\<rparr>)"
  by (rule alarmAction_map [of _ f]) simp_all

lemma alarmAction_trans: "alarmAction a b \<Longrightarrow> alarmAction b c \<Longrightarrow> alarmAction a c"
  unfolding alarmAction_def
proof (elim exE conjE)
  fix f g
  assume "am_alarms b = map f (am_alarms a)" "keepsAlarm f" "\<forall>a. alarmOk a \<longrightarrow> alarmOk (f a)"
    "am_alarms c = map g (am_alarms b)" "keepsAlarm g" "\<forall>a. alarmOk a \<longrightarrow> alarmOk (g a)"
  then show "\<exists>h. am_alarms c = map h (am_alarms a) \<and> keepsAlarm h \<and> (\<forall>a. alarmOk a \<longrightarrow> alarmOk (h a))"
    by (intro exI [of _ "\<lambda>x. g (f x)"]) (simp add: keepsAlarm_def)
qed

lemma updateAlarm_action:
  assumes "keepsAlarm f" "\<And>a. alarmOk a \<Longrightarrow> alarmOk (f a)"
  shows "alarmAction st (snd (updateAlarm i f st))"
proof (cases "findAlarm i st = None")
  case False
  show ?thesis
    by (rule alarmAction_map [of _ "\<lambda>a. if al_id a = i then f a else a"])
      (use False assms in \<open>auto simp: updateAlarm_def keepsAlarm_def simp del: not_None_eq\<close>)
qed (simp add: updateAlarm_def)

lemma acknowledge_action: "alarmAction st (snd (acknowledge now i user note st))"
  unfolding acknowledge_def by (rule updateAlarm_action) (simp_all add: keepsAlarm_def alarmOk_def)

lemma resolve_action: "alarmAction st (snd (resolve now i user note st))"
  unfolding resolve_def by (rule updateAlarm_action) (simp_all add: keepsAlarm_def alarmOk_def)

lemma snooze_action: "alarmAction st (snd (snooze now i user minutes note st))"
  unfolding snooze_def Let_def by (rule updateAlarm_action) (auto simp: keepsAlarm_def alarmOk_def split: option.splits)

lemma unsnooze_action: "alarmAction st (snd (unsnooze now i user note st))"
  unfolding unsnooze_def Let_def by (rule updateAlarm_action) (simp_all add: keepsAlarm_def alarmOk_def cong: alarmStatus.case_cong)

lemma addNote_action: "alarmAction st (snd (addNote now i user note st))"
proof (cases "findAlarm i st = None \<or> js_trim note = []")
  case False
  show ?thesis unfolding addNote_def using False
    by (simp, intro updateAlarm_action) (simp_all add: keepsAlarm_def alarmOk_def cong: alarmStatus.case_cong)
qed (auto simp: addNote_def)

lemmas action_effects = acknowledge_action resolve_action snooze_action unsnooze_action addNote_action

lemma bulkOne_action: "alarmAction st (snd (bulkOne now action user opts i st))"
  by (cases action) (simp_all add: bulkOne_def action_effects)

lemma bulkLoop_action: "alarmAction st (snd (bulkLoop now action user opts is st))"
proof (induction "is" arbitrary: st)
  case (Cons i "is")
  obtain r st1 where "bulkOne now action user opts i st = (r, st1)" by fastforce
  with bulkOne_action [of st now action user opts i] Cons.IH [of st1] show ?case
    by (auto simp: Let_def split_beta intro: alarmAction_trans)
qed simp

lemma stale_action: "alarmAction st (snd (resolveStaleMotionAlarms env now st))"
  unfolding resolveStaleMotionAlarms_def Let_def snd_conv
  by (rule alarmAction_upd) (auto simp: keepsAlarm_def alarmOk_def)

lemma autoResolve_action: "alarmAction st (snd (autoResolveForCamera c s e t m st))"
proof (cases "filter (recoverable c s) (am_alarms st) = []")
  case False
  show ?thesis
    unfolding autoResolveForCamera_def Let_def if_not_P [OF False] snd_conv
    by (rule alarmAction_upd) (auto simp: keepsAlarm_def alarmOk_def)
qed (simp add: autoResolveForCamera_def)

section \<open>The life of an alarm\<close>

lemma latest_in: "latest as = Some a \<Longrightarrow> a \<in> set as"
  by (induction as arbitrary: a) (auto split: option.splits if_splits)

lemma latest_None [simp]: "latest as = None \<longleftrightarrow> as = []"
  by (cases as) (auto split: option.split)

lemma alarmOk_new: "alarmOk (newAlarm i ev s r)"
  by (simp add: alarmOk_def newAlarm_def)

lemma alarmOk_merge: "alarmOk a \<Longrightarrow> alarmOk (mergeEvent ev r a)"
  by (simp add: alarmOk_def mergeEvent_def cong: alarmStatus.case_cong)

text \<open>What an event does to the table.\<close>

inductive eventEffect :: "eventOutcome \<Rightarrow> alarmState \<Rightarrow> alarmState \<Rightarrow> bool" where
  acted: "\<lbrakk>alarmAction st st'; oc = NoAlarm \<or> (\<exists>n. oc = Resolved n)\<rbrakk> \<Longrightarrow> eventEffect oc st st'"
| merged: "\<lbrakk>alarmAction st st1; b \<in> set (am_alarms st1);
      am_alarms st' = map (\<lambda>a. if al_id a = al_id b then mergeEvent ev r a else a) (am_alarms st1)\<rbrakk> \<Longrightarrow> eventEffect (Merged (al_id b)) st st'"
| opened: "\<lbrakk>alarmAction st st1; am_alarms st' = am_alarms st1 @ [newAlarm i ev s r]\<rbrakk> \<Longrightarrow> eventEffect (Opened i) st st'"

lemma recordEvent_effect:
  assumes "alarmAction st st1" "recordEvent i s ev r st1 = (oc, st')"
  shows "eventEffect oc st st'"
proof (cases "latest (filter (dedupMatch (ae_cameraId ev) s (ae_type ev) (ae_occurredAt ev - ru_dedupWindowSeconds r * 1000)) (am_alarms st1))")
  case None
  with assms(2) have "oc = Opened i" "am_alarms st' = am_alarms st1 @ [newAlarm i ev s r]" by (auto simp: recordEvent_def Let_def simp del: latest_None)
  with assms(1) show ?thesis by (simp add: opened)
next
  case (Some b)
  then have "b \<in> set (am_alarms st1)" using latest_in by fastforce
  moreover have "oc = Merged (al_id b)" "am_alarms st' = map (\<lambda>a. if al_id a = al_id b then mergeEvent ev r a else a) (am_alarms st1)"
    using Some assms(2) by (auto simp: recordEvent_def Let_def)
  ultimately show ?thesis using merged [OF assms(1)] by simp
qed

lemma processEvent_effect:
  assumes "processEvent env i now ev st = (oc, st')"
  shows "eventEffect oc st st'"
proof (cases "inferSource (ae_type ev)")
  case None
  with assms show ?thesis by (auto simp: processEvent_def intro: acted)
next
  case (Some source)
  define st1 where "st1 = (if ae_type ev = ''MOTION_DETECTED'' then snd (resolveStaleMotionAlarms env (ae_occurredAt ev) st) else st)"
  have a: "alarmAction st st1" by (simp add: st1_def stale_action)
  show ?thesis
  proof (cases "isRecoveryEvent (ae_type ev)")
    case True
    then have p: "autoResolveForCamera (ae_cameraId ev) source (ae_eventId ev) (ae_occurredAt ev) (ae_message ev) st1 = (oc, st')"
      using assms Some by (simp add: processEvent_def st1_def)
    then have "alarmAction st1 st'" using autoResolve_action by (metis snd_conv)
    moreover have "oc = NoAlarm \<or> (\<exists>n. oc = Resolved n)" using p by (auto simp: autoResolveForCamera_def Let_def split: if_splits)
    ultimately show ?thesis using alarmAction_trans [OF a] acted by blast
  next
    case False
    show ?thesis
    proof (cases "admits now source ev st1")
      case None
      with assms Some False have "oc = NoAlarm" "st' = st1" by (simp_all add: processEvent_def st1_def)
      with a show ?thesis by (simp add: acted)
    next
      case (Some rule)
      with assms False \<open>inferSource (ae_type ev) = Some source\<close> have "recordEvent i source ev rule st1 = (oc, st')"
        by (simp add: processEvent_def st1_def)
      then show ?thesis by (rule recordEvent_effect [OF a])
    qed
  qed
qed

text \<open>
  A run of the service and the number of events it has taken in. New rows get new identifiers; everything but the
  deletion of all alarms is there.
\<close>

inductive alarmRun :: "alarmState \<Rightarrow> nat \<Rightarrow> alarmState \<Rightarrow> bool" for st0 where
  start: "alarmRun st0 0 st0"
| event: "\<lbrakk>alarmRun st0 n st; newId \<notin> al_id ` set (am_alarms st); processEvent env newId now ev st = (oc, st')\<rbrakk> \<Longrightarrow>
    alarmRun st0 (case oc of Merged _ \<Rightarrow> Suc n | Opened _ \<Rightarrow> Suc n | _ \<Rightarrow> n) st'"
| stale: "alarmRun st0 n st \<Longrightarrow> alarmRun st0 n (snd (resolveStaleMotionAlarms env now st))"
| single: "alarmRun st0 n st \<Longrightarrow> alarmRun st0 n (snd (bulkOne now action user opts i st))"
| note_added: "alarmRun st0 n st \<Longrightarrow> alarmRun st0 n (snd (addNote now i user note st))"
| bulk: "alarmRun st0 n st \<Longrightarrow> alarmRun st0 n (snd (bulkAction now action ids user opts st))"
| mute: "alarmRun st0 n st \<Longrightarrow> alarmRun st0 n (st\<lparr>am_mutes := ms\<rparr>)"
| rules: "alarmRun st0 n st \<Longrightarrow> alarmRun st0 n (st\<lparr>am_rules := rs, am_cameras := cs\<rparr>)"

definition totalOccurrences :: "alarmState \<Rightarrow> nat" where
  "totalOccurrences st = sum_list (map al_occurrenceCount (am_alarms st))"

definition tableOk :: "alarmState \<Rightarrow> bool" where
  "tableOk st \<longleftrightarrow> distinct (map al_id (am_alarms st)) \<and> (\<forall>a\<in>set (am_alarms st). alarmOk a)"

lemma action_table:
  assumes "alarmAction st st'" "tableOk st"
  shows "tableOk st'" "totalOccurrences st' = totalOccurrences st" "map al_id (am_alarms st') = map al_id (am_alarms st)"
proof -
  from assms(1) obtain f where f: "am_alarms st' = map f (am_alarms st)" "keepsAlarm f" "\<And>a. alarmOk a \<Longrightarrow> alarmOk (f a)"
    unfolding alarmAction_def by blast
  show ids: "map al_id (am_alarms st') = map al_id (am_alarms st)" unfolding f(1) using f(2) by (simp add: keepsAlarm_def)
  have "map al_occurrenceCount (am_alarms st') = map al_occurrenceCount (am_alarms st)" unfolding f(1) using f(2) by (simp add: keepsAlarm_def)
  then show "totalOccurrences st' = totalOccurrences st" by (simp add: totalOccurrences_def)
  have "\<forall>a\<in>set (am_alarms st'). alarmOk a" unfolding f(1) using f(3) assms(2) by (simp add: tableOk_def)
  with ids assms(2) show "tableOk st'" by (simp add: tableOk_def)
qed

lemma merge_count:
  assumes "distinct (map al_id as)" "b \<in> set as"
  shows "sum_list (map al_occurrenceCount (map (\<lambda>a. if al_id a = al_id b then mergeEvent ev r a else a) as))
    = Suc (sum_list (map al_occurrenceCount as))"
  using assms
proof (induction as)
  case (Cons x xs)
  show ?case
  proof (cases "al_id x = al_id b")
    case True
    then have "al_id a \<noteq> al_id b" if "a \<in> set xs" for a using Cons.prems(1) that by (metis distinct.simps(2) image_eqI list.set_map list.simps(9))
    then have "map (\<lambda>a. if al_id a = al_id b then mergeEvent ev r a else a) xs = xs" by (auto intro: map_idI)
    with True show ?thesis by (simp add: mergeEvent_def)
  next
    case False
    with Cons show ?thesis by auto
  qed
qed simp

lemma event_table:
  assumes "eventEffect oc st st'" "tableOk st" "\<And>i. oc = Opened i \<Longrightarrow> i \<notin> al_id ` set (am_alarms st)"
  shows "tableOk st' \<and> totalOccurrences st' = (case oc of Merged _ \<Rightarrow> Suc (totalOccurrences st) | Opened _ \<Rightarrow> Suc (totalOccurrences st) | _ \<Rightarrow> totalOccurrences st)"
  using assms(1)
proof cases
  case acted
  with action_table [OF acted(1) assms(2)] show ?thesis by auto
next
  case (merged st1 b ev r)
  note t = action_table [OF merged(2) assms(2)]
  have "map al_id (am_alarms st') = map al_id (am_alarms st1)" unfolding merged(4) by (simp add: mergeEvent_def)
  moreover have "\<forall>a\<in>set (am_alarms st'). alarmOk a" using t(1) merged(4) by (auto simp: tableOk_def intro: alarmOk_merge)
  ultimately have "tableOk st'" using t(1) by (simp add: tableOk_def)
  moreover have "totalOccurrences st' = Suc (totalOccurrences st1)"
    unfolding totalOccurrences_def merged(4) using t(1) merged(3) by (intro merge_count) (simp_all add: tableOk_def)
  ultimately show ?thesis using t(2) merged(1) by simp
next
  case (opened st1 i ev s r)
  note t = action_table [OF opened(2) assms(2)]
  have "al_id ` set (am_alarms st1) = al_id ` set (am_alarms st)" using t(3) by (metis list.set_map)
  with assms(3) [OF opened(1)] have "al_id (newAlarm i ev s r) \<notin> al_id ` set (am_alarms st1)" by (simp add: newAlarm_def)
  then have "tableOk st'" using t(1) alarmOk_new [of i ev s r] unfolding tableOk_def opened(3) by simp
  moreover have "al_occurrenceCount (newAlarm i ev s r) = 1" by (simp add: newAlarm_def)
  then have "totalOccurrences st' = Suc (totalOccurrences st)" using t(2) unfolding totalOccurrences_def opened(3) by simp
  ultimately show ?thesis using opened(1) by simp
qed

lemma opened_id: "processEvent env i now ev st = (Opened j, st') \<Longrightarrow> j = i"
  by (auto simp: processEvent_def Let_def autoResolveForCamera_def recordEvent_def split: option.splits if_splits)

section \<open>A sample\<close>

definition sampleRule :: alarmRule where
  "sampleRule = \<lparr>ru_id = ''r1'', ru_name = ''offline'', ru_source = SRC_STREAM, ru_eventType = ''STREAM_OFFLINE'', ru_priority = P2,
     ru_isEnabled = True, ru_dedupWindowSeconds = 120, ru_autoResolveOnRecovery = False, ru_notifyOnOpen = True,
     ru_webhookUrl = None, ru_emailTo = None\<rparr>"

definition sampleEvent :: alarmEvent where
  "sampleEvent = \<lparr>ae_eventId = ''e1'', ae_cameraId = ''c1'', ae_type = ''STREAM_OFFLINE'', ae_severity = ''ERROR'', ae_message = ''gone'',
     ae_metadata = JNull, ae_occurredAt = 1000000\<rparr>"

definition sampleAlarms :: alarmState where
  "sampleAlarms = \<lparr>am_alarms = [], am_rules = [sampleRule], am_cameras = [], am_mutes = [], am_notified = []\<rparr>"

lemma sample_opens:
  "processEvent (\<lambda>_. None) ''a1'' 1000000 sampleEvent sampleAlarms
     = (Opened ''a1'', sampleAlarms\<lparr>am_alarms := [newAlarm ''a1'' sampleEvent SRC_STREAM sampleRule], am_notified := [(''a1'', ''r1'')]\<rparr>)"
  by (simp add: processEvent_def inferSource_def isRecoveryEvent_def admits_def sampleAlarms_def sampleEvent_def sampleRule_def
      getRule_def isRuleMuted_def isCameraEventMuted_def muted_def recordEvent_def)

section \<open>Properties\<close>

text \<open>
  Property C28. No occurrence is lost and every alarm is in a sound state. Through any events, actions, mutes and
  changes of the rules, the counts of the alarms add up to the events that were taken in; identifiers stay unique; an
  open alarm is neither acknowledged nor resolved, an acknowledged one has the instant it was acknowledged at, a
  resolved one the instant it was resolved at.
\<close>

theorem alarm_occurrences_conserved:
  assumes "tableOk st0" "alarmRun st0 n st"
  shows "totalOccurrences st = totalOccurrences st0 + n \<and> distinct (map al_id (am_alarms st)) \<and> (\<forall>a\<in>set (am_alarms st). alarmOk a)"
proof -
  have "tableOk st \<and> totalOccurrences st = totalOccurrences st0 + n"
    using assms(2)
  proof (induction rule: alarmRun.induct)
    case start
    with assms(1) show ?case by simp
  next
    case (event n st newId env now ev oc st')
    have "\<And>i. oc = Opened i \<Longrightarrow> i \<notin> al_id ` set (am_alarms st)" using event(2,3) opened_id by blast
    with event_table [OF processEvent_effect [OF event(3)]] event.IH show ?case by (auto split: eventOutcome.split)
  next
    case (stale n st env now)
    with action_table(1,2) [OF stale_action] show ?case by metis
  next
    case (single n st now action user opts i)
    with action_table(1,2) [OF bulkOne_action] show ?case by metis
  next
    case (note_added n st now i user words)
    with action_table(1,2) [OF addNote_action] show ?case by metis
  next
    case (bulk n st now action ids user opts)
    with action_table(1,2) [OF bulkLoop_action] show ?case unfolding bulkAction_def by metis
  qed (simp_all add: tableOk_def totalOccurrences_def)
  then show ?thesis by (simp add: tableOk_def)
qed

theorem alarm_occurrences_conserved_witness:
  "totalOccurrences (snd (processEvent (\<lambda>_. None) ''a1'' 1000000 sampleEvent sampleAlarms)) = 1"
  using alarm_occurrences_conserved [OF _ alarmRun.event [OF alarmRun.start _ sample_opens]] unfolding sample_opens
  by (simp add: tableOk_def sampleAlarms_def totalOccurrences_def)

lemma recordEvent_opened:
  assumes "recordEvent i s ev r st = (Opened j, st')"
  shows "filter (dedupMatch (ae_cameraId ev) s (ae_type ev) (ae_occurredAt ev - ru_dedupWindowSeconds r * 1000)) (am_alarms st) = []"
    and "am_alarms st' = am_alarms st @ [newAlarm i ev s r]"
    and "am_notified st' = (if ru_notifyOnOpen r then am_notified st @ [(i, ru_id r)] else am_notified st)"
  using assms by (auto simp: recordEvent_def Let_def split: option.splits if_splits)

lemma admitsD:
  assumes "admits now s ev st = Some rule"
  shows "getRule s (ae_type ev) st = Some rule" "ru_isEnabled rule" "\<not> isRuleMuted (ru_id rule) now st"
    "\<not> isCameraEventMuted (ae_cameraId ev) (ae_type ev) now st"
    "find (\<lambda>c. ac_id c = ae_cameraId ev) (am_cameras st) = Some c \<Longrightarrow> ac_alarmsEnabled c"
    "ae_type ev = ''MOTION_DETECTED'' \<Longrightarrow> armed (find (\<lambda>c. ac_id c = ae_cameraId ev) (am_cameras st))"
  using assms by (auto simp: admits_def Let_def split: option.splits if_splits)

lemma stale_frame:
  "am_rules (snd (resolveStaleMotionAlarms env now st)) = am_rules st" "am_cameras (snd (resolveStaleMotionAlarms env now st)) = am_cameras st"
  "am_mutes (snd (resolveStaleMotionAlarms env now st)) = am_mutes st" "am_notified (snd (resolveStaleMotionAlarms env now st)) = am_notified st"
  by (simp_all add: resolveStaleMotionAlarms_def Let_def)

lemma admits_cong: "am_rules a = am_rules b \<Longrightarrow> am_cameras a = am_cameras b \<Longrightarrow> am_mutes a = am_mutes b \<Longrightarrow> admits now s ev a = admits now s ev b"
proof -
  assume eqs: "am_rules a = am_rules b" "am_cameras a = am_cameras b" "am_mutes a = am_mutes b"
  then have "getRule s (ae_type ev) a = getRule s (ae_type ev) b" "\<And>i. isRuleMuted i now a = isRuleMuted i now b"
    "isCameraEventMuted (ae_cameraId ev) (ae_type ev) now a = isCameraEventMuted (ae_cameraId ev) (ae_type ev) now b"
    by (simp_all add: getRule_def isRuleMuted_def isCameraEventMuted_def muted_def)
  with eqs(2) show ?thesis by (simp only: admits_def)
qed

lemma admits_stale: "admits now s ev (snd (resolveStaleMotionAlarms env t st)) = admits now s ev st"
  by (rule admits_cong) (simp_all add: stale_frame)

text \<open>
  Property C29. What opens an alarm. An event opens one only under an enabled rule for its source and type, with
  neither the rule nor the event of the camera muted, on a camera whose alarms are not switched off and, for motion,
  that is armed. It is then the only active alarm of its kind within the window of the rule, and its opening is
  handed to the notifications exactly when the rule says so.
\<close>

theorem alarm_opens_only_under_rule:
  assumes "processEvent env i now ev st = (Opened j, st')"
  shows "\<exists>source rule. inferSource (ae_type ev) = Some source \<and> getRule source (ae_type ev) st = Some rule \<and> ru_isEnabled rule
    \<and> \<not> isRuleMuted (ru_id rule) now st \<and> \<not> isCameraEventMuted (ae_cameraId ev) (ae_type ev) now st
    \<and> (\<forall>c. find (\<lambda>c. ac_id c = ae_cameraId ev) (am_cameras st) = Some c \<longrightarrow> ac_alarmsEnabled c)
    \<and> (ae_type ev = ''MOTION_DETECTED'' \<longrightarrow> armed (find (\<lambda>c. ac_id c = ae_cameraId ev) (am_cameras st)))
    \<and> (0 \<le> ru_dedupWindowSeconds rule \<longrightarrow>
        filter (dedupMatch (ae_cameraId ev) source (ae_type ev) (ae_occurredAt ev - ru_dedupWindowSeconds rule * 1000)) (am_alarms st')
          = [newAlarm i ev source rule])
    \<and> am_notified st' = (if ru_notifyOnOpen rule then am_notified st @ [(i, ru_id rule)] else am_notified st)"
proof -
  define st1 where "st1 = (if ae_type ev = ''MOTION_DETECTED'' then snd (resolveStaleMotionAlarms env (ae_occurredAt ev) st) else st)"
  from assms obtain source rule where sr: "inferSource (ae_type ev) = Some source" "admits now source ev st1 = Some rule"
    "recordEvent i source ev rule st1 = (Opened j, st')"
    by (auto simp: processEvent_def st1_def Let_def autoResolveForCamera_def split: option.splits if_splits)
  have a: "admits now source ev st = Some rule" using sr(2) by (simp add: st1_def admits_stale split: if_splits)
  note o = recordEvent_opened [OF sr(3)]
  have "filter (dedupMatch (ae_cameraId ev) source (ae_type ev) (ae_occurredAt ev - ru_dedupWindowSeconds rule * 1000)) (am_alarms st')
      = [newAlarm i ev source rule]" if "0 \<le> ru_dedupWindowSeconds rule"
    unfolding o(2) filter_append o(1) using that by (simp add: dedupMatch_def newAlarm_def isActiveAlarm_def)
  moreover have "am_notified st1 = am_notified st" by (simp add: st1_def stale_frame)
  ultimately show ?thesis using sr(1) admitsD [OF a] o(3)
    by (intro exI [of _ source] exI [of _ rule] conjI allI impI) simp_all
qed

theorem alarm_opens_only_under_rule_witness:
  "\<exists>source rule. inferSource ''STREAM_OFFLINE'' = Some source \<and> getRule source ''STREAM_OFFLINE'' sampleAlarms = Some rule \<and> ru_isEnabled rule"
  using alarm_opens_only_under_rule [OF sample_opens] by (auto simp: sampleEvent_def)

text \<open>
  The simulation of a rule tells what an event would do. For an event of the rule's type that is
  neither a recovery nor a motion, on a camera whose alarms are not switched off and with nothing muted, the
  simulation says that an alarm would open exactly when the event opens one, and names the alarm in the window
  exactly when the event is merged into it.
\<close>

theorem simulation_agrees:
  assumes "find (\<lambda>r. ru_id r = k) (am_rules st) = Some rule" "getRule (ru_source rule) (ru_eventType rule) st = Some rule" "ru_isEnabled rule"
    and "inferSource (ru_eventType rule) = Some (ru_source rule)"
    and "ae_type ev = ru_eventType rule" "js_trim type = ru_eventType rule" "js_trim camera = ae_cameraId ev"
    and "\<not> isRecoveryEvent (ae_type ev)" "ae_type ev \<noteq> ''MOTION_DETECTED''"
    and "\<not> isRuleMuted k now st" "\<not> isCameraEventMuted (ae_cameraId ev) (ae_type ev) now st"
    and "\<forall>c. find (\<lambda>c. ac_id c = ae_cameraId ev) (am_cameras st) = Some c \<longrightarrow> ac_alarmsEnabled c"
  shows "(simulateRule k camera type (ae_occurredAt ev) st = Inr (WouldTrigger (ru_priority rule) (ru_dedupWindowSeconds rule))
      \<longleftrightarrow> fst (processEvent env newId now ev st) = Opened newId)
    \<and> (simulateRule k camera type (ae_occurredAt ev) st = Inr (DedupWindowActive a) \<longleftrightarrow> fst (processEvent env newId now ev st) = Merged a)"
proof -
  have "ru_id rule = k" using assms(1) by (metis (mono_tags, lifting) find_SomeD)
  then have a: "admits now (ru_source rule) ev st = Some rule"
    using assms(2,3,5,9-12) by (auto simp: admits_def Let_def split: option.split)
  have "processEvent env newId now ev st = recordEvent newId (ru_source rule) ev rule st"
    using assms(4,5,8,9) a by (simp add: processEvent_def Let_def)
  moreover have "simulateRule k camera type (ae_occurredAt ev) st =
      (case latest (filter (dedupMatch (ae_cameraId ev) (ru_source rule) (ae_type ev) (ae_occurredAt ev - ru_dedupWindowSeconds rule * 1000)) (am_alarms st)) of
         Some existing \<Rightarrow> Inr (DedupWindowActive (al_id existing))
       | None \<Rightarrow> Inr (WouldTrigger (ru_priority rule) (ru_dedupWindowSeconds rule)))"
    unfolding simulateRule_def Let_def assms(6,7) using assms(1,3,4,5) by simp
  ultimately show ?thesis by (simp add: recordEvent_def Let_def split: option.split)
qed

theorem simulation_agrees_witness:
  "simulateRule ''r1'' ''c1'' ''STREAM_OFFLINE'' 1000000 sampleAlarms = Inr (WouldTrigger P2 120)
     \<longleftrightarrow> fst (processEvent (\<lambda>_. None) ''a1'' 1000000 sampleEvent sampleAlarms) = Opened ''a1''"
  using simulation_agrees [of "''r1''" sampleAlarms sampleRule sampleEvent "''STREAM_OFFLINE''" "''c1''" 1000000 "\<lambda>_. None" "''a1''"]
  by (simp add: sampleAlarms_def sampleRule_def sampleEvent_def getRule_def inferSource_def isRecoveryEvent_def
      isRuleMuted_def isCameraEventMuted_def muted_def js_trim_def js_space_def)

section \<open>Rows\<close>

lemma updateAlarm_others: "a \<in> set (am_alarms st) \<Longrightarrow> al_id a \<noteq> i \<Longrightarrow> a \<in> set (am_alarms (snd (updateAlarm i f st)))"
  by (force simp: updateAlarm_def)

lemma updateAlarm_mem:
  assumes "a \<in> set (am_alarms st)" "al_id a = i"
  shows "f a \<in> set (am_alarms (snd (updateAlarm i f st)))"
proof -
  have "findAlarm i st \<noteq> None" using assms by (auto simp: findAlarm_def find_None_iff)
  then have "am_alarms (snd (updateAlarm i f st)) = map (\<lambda>a. if al_id a = i then f a else a) (am_alarms st)" by (auto simp: updateAlarm_def)
  with assms show ?thesis by force
qed

lemma bulkOne_others: "a \<in> set (am_alarms st) \<Longrightarrow> al_id a \<noteq> i \<Longrightarrow> a \<in> set (am_alarms (snd (bulkOne now action user opts i st)))"
  by (cases action) (simp_all add: bulkOne_def acknowledge_def resolve_def snooze_def unsnooze_def Let_def updateAlarm_others)

lemma bulkLoop_others:
  "a \<in> set (am_alarms st) \<Longrightarrow> al_id a \<notin> set is \<Longrightarrow> a \<in> set (am_alarms (snd (bulkLoop now action user opts is st)))"
proof (induction "is" arbitrary: st)
  case (Cons i "is")
  with bulkOne_others [of a st i now action user opts] show ?case by (simp add: Let_def split_beta)
qed simp

text \<open>The event that is merged into an alarm replaces its metadata: the history of its transitions and its snooze are gone.\<close>

lemma merge_drops_history: "historyOf (al_metadata (mergeEvent (ev\<lparr>ae_metadata := JObj []\<rparr>) r a)) = []"
  by (simp add: mergeEvent_def storedMetadata_def historyOf_def)

text \<open>A resolved alarm that is acknowledged is active again.\<close>

lemma acknowledge_reactivates:
  assumes "findAlarm i st = Some a"
  shows "\<exists>a'\<in>set (am_alarms (snd (acknowledge now i user n st))). al_id a' = i \<and> isActiveAlarm a'"
proof -
  have "a \<in> set (am_alarms st)" "al_id a = i" using assms unfolding findAlarm_def by (auto dest: find_SomeD)
  then show ?thesis unfolding acknowledge_def by (intro bexI [OF _ updateAlarm_mem]) (simp_all add: isActiveAlarm_def)
qed

section \<open>Webhooks\<close>

text \<open>
  A webhook that is stored has passed the policy: its URL uses HTTP or HTTPS, its host is on the list of
  allowed hosts, which is not empty, and neither the host nor any address that it resolves to is a private or
  reserved address.
\<close>

theorem webhook_within_policy:
  assumes "validateWebhookUrl wh raw = Inr (Some stored)"
  shows "\<exists>url parsed. trimmedNote raw = Some url \<and> wh_parseUrl wh url = Some parsed \<and> stored = pu_text parsed
    \<and> (pu_protocol parsed = ''http:'' \<or> pu_protocol parsed = ''https:'')
    \<and> getWebhookAllowlist wh \<noteq> [] \<and> isAllowedHost (js_lower (js_trim (pu_hostname parsed))) (getWebhookAllowlist wh)
    \<and> \<not> isPrivateOrReservedIp (wh_isIP wh) (js_lower (js_trim (pu_hostname parsed)))
    \<and> (\<forall>ip\<in>set (wh_resolve wh (js_lower (js_trim (pu_hostname parsed)))). \<not> isPrivateOrReservedIp (wh_isIP wh) ip)"
proof -
  from assms obtain url parsed where p: "trimmedNote raw = Some url" "wh_parseUrl wh url = Some parsed"
    by (auto simp: validateWebhookUrl_def split: option.splits)
  let ?h = "js_lower (js_trim (pu_hostname parsed))"
  have "pu_protocol parsed = ''http:'' \<or> pu_protocol parsed = ''https:''"
    and "getWebhookAllowlist wh \<noteq> []" "isAllowedHost ?h (getWebhookAllowlist wh)" "\<not> isPrivateOrReservedIp (wh_isIP wh) ?h"
    and "\<not> list_ex (isPrivateOrReservedIp (wh_isIP wh)) (wh_resolve wh ?h)" "stored = pu_text parsed"
    using assms unfolding validateWebhookUrl_def p Let_def option.case by (metis Inl_Inr_False Inr_inject option.inject)+
  with p show ?thesis by (auto simp: list_ex_iff)
qed

end
