(* ===== verification/Alarm_Routes.thy ===== *)
theory Alarm_Routes
  imports Alarms_Props
begin

text \<open>
  The routes of \<open>apps/api/src/cameras/cameras.controller.ts\<close> that list alarms, act on one or on many of them and delete
  them, behind the guards of the roles and of the permissions. A request that is decoded is a value of
  \<open>alarmRequest\<close>; the records of the audit are left out.
\<close>

section \<open>Lists\<close>

record zoneCamera =
  zc_id :: string
  zc_area :: "string option"
  zc_site :: "string option"
  zc_group :: "string option"

definition routeUser :: "authUserInfo \<Rightarrow> authUser" where
  "routeUser u = \<lparr>user_id = ai_id u, user_role = ai_role u\<rparr>"

definition inZone :: "string \<Rightarrow> zoneCamera \<Rightarrow> bool" where
  "inZone normalizedZone c =
     list_ex (\<lambda>x. str_includes (js_lower (js_trim x)) normalizedZone)
       (filter (\<lambda>x. js_trim x \<noteq> []) (concat (map (\<lambda>v. case v of None \<Rightarrow> [] | Some x \<Rightarrow> [x]) [zc_area c, zc_site c, zc_group c])))"

text \<open>\<open>cams\<close> are all cameras as \<open>camerasService.findAll()\<close> lists them.\<close>

definition accessibleForList :: "accessDb \<Rightarrow> zoneCamera list \<Rightarrow> authUserInfo \<Rightarrow> string option \<Rightarrow> string list" where
  "accessibleForList db cams u zone =
     (let accessible = (if ai_role u = ADMIN \<or> ai_role u = SUPER_ADMIN then map zc_id cams else getAccessibleCameraIds db (routeUser u)) in
      case zone of
        None \<Rightarrow> accessible
      | Some z \<Rightarrow>
          if js_trim z = [] then accessible
          else map zc_id (filter (inZone (js_lower (js_trim z))) (filter (\<lambda>c. zc_id c \<in> set accessible) cams)))"

definition assertAlarmCamera :: "accessDb \<Rightarrow> authUserInfo \<Rightarrow> string option \<Rightarrow> (alarmError, unit) result" where
  "assertAlarmCamera db u cameraId =
     (case cameraId of
        None \<Rightarrow> Inr ()
      | Some c \<Rightarrow> if c = [] then Inr () else (case assertCanViewCamera db (routeUser u) c of Inl e \<Rightarrow> Inl (ViewForbidden e) | Inr _ \<Rightarrow> Inr ()))"

definition listAlarms ::
    "accessDb \<Rightarrow> zoneCamera list \<Rightarrow> authUserInfo \<Rightarrow> string option \<Rightarrow> alarmQuery \<Rightarrow> alarmState \<Rightarrow> (alarmError, alarmPage) result" where
  "listAlarms db cams u zone q st =
     (case assertAlarmCamera db u (aq_cameraId q) of
        Inl e \<Rightarrow> Inl e
      | Inr _ \<Rightarrow> Inr (listAlarmRows (accessibleForList db cams u zone) q st))"

section \<open>Actions\<close>

definition actorOf :: "authUserInfo \<Rightarrow> alarmActor" where
  "actorOf u = \<lparr>aa_id = ai_id u, aa_name = ai_name u\<rparr>"

text \<open>What the routes for one alarm share: the alarm is there and its camera may be viewed.\<close>

definition onAlarm ::
    "accessDb \<Rightarrow> authUserInfo \<Rightarrow> string \<Rightarrow> (alarmState \<Rightarrow> (alarmError, unit) result \<times> alarmState) \<Rightarrow> alarmState
     \<Rightarrow> (alarmError, unit) result \<times> alarmState" where
  "onAlarm db u i act st =
     (case findAlarm i st of
        None \<Rightarrow> (Inl AlarmNotFound, st)
      | Some a \<Rightarrow> (case assertAlarmCamera db u (al_cameraId a) of Inl e \<Rightarrow> (Inl e, st) | Inr _ \<Rightarrow> act st))"

definition acknowledgeAlarm ::
    "accessDb \<Rightarrow> authUserInfo \<Rightarrow> int \<Rightarrow> string \<Rightarrow> string option \<Rightarrow> alarmState \<Rightarrow> (alarmError, unit) result \<times> alarmState" where
  "acknowledgeAlarm db u now i note = onAlarm db u i (acknowledge now i (actorOf u) note)"

definition resolveAlarm ::
    "accessDb \<Rightarrow> authUserInfo \<Rightarrow> int \<Rightarrow> string \<Rightarrow> string option \<Rightarrow> alarmState \<Rightarrow> (alarmError, unit) result \<times> alarmState" where
  "resolveAlarm db u now i note = onAlarm db u i (resolve now i (actorOf u) note)"

definition snoozeAlarm ::
    "accessDb \<Rightarrow> authUserInfo \<Rightarrow> int \<Rightarrow> string \<Rightarrow> rat option \<Rightarrow> string option \<Rightarrow> alarmState \<Rightarrow> (alarmError, unit) result \<times> alarmState" where
  "snoozeAlarm db u now i minutes note = onAlarm db u i (snooze now i (actorOf u) (case minutes of None \<Rightarrow> 15 | Some m \<Rightarrow> m) note)"

definition unsnoozeAlarm ::
    "accessDb \<Rightarrow> authUserInfo \<Rightarrow> int \<Rightarrow> string \<Rightarrow> string option \<Rightarrow> alarmState \<Rightarrow> (alarmError, unit) result \<times> alarmState" where
  "unsnoozeAlarm db u now i note = onAlarm db u i (unsnooze now i (actorOf u) note)"

definition addAlarmNote ::
    "accessDb \<Rightarrow> authUserInfo \<Rightarrow> int \<Rightarrow> string \<Rightarrow> string option \<Rightarrow> alarmState \<Rightarrow> (alarmError, unit) result \<times> alarmState" where
  "addAlarmNote db u now i note =
     onAlarm db u i (addNote now i (actorOf u) (case note of None \<Rightarrow> [] | Some n \<Rightarrow> js_trim n))"

fun assertAlarms :: "accessDb \<Rightarrow> authUserInfo \<Rightarrow> string list \<Rightarrow> alarmState \<Rightarrow> (alarmError, unit) result" where
  "assertAlarms db u [] st = Inr ()"
| "assertAlarms db u (i # is) st =
     (case findAlarm i st of
        None \<Rightarrow> Inl AlarmNotFound
      | Some a \<Rightarrow> (case assertAlarmCamera db u (al_cameraId a) of Inl e \<Rightarrow> Inl e | Inr _ \<Rightarrow> assertAlarms db u is st))"

definition bulkAlarmAction ::
    "accessDb \<Rightarrow> authUserInfo \<Rightarrow> int \<Rightarrow> bulkKind \<Rightarrow> string list \<Rightarrow> bulkOpts \<Rightarrow> alarmState
     \<Rightarrow> (alarmError, (string \<times> bool) list) result \<times> alarmState" where
  "bulkAlarmAction db u now action eventIds opts st =
     (case assertAlarms db u (take 200 eventIds) st of
        Inl e \<Rightarrow> (Inl e, st)
      | Inr _ \<Rightarrow> let (rs, st1) = bulkAction now action eventIds (actorOf u) opts st in (Inr rs, st1))"

datatype alarmRequest =
    AckRequest string "string option"
  | ResolveRequest string "string option"
  | SnoozeRequest string "rat option" "string option"
  | UnsnoozeRequest string "string option"
  | NoteRequest string "string option"
  | BulkRequest bulkKind "string list" bulkOpts
  | DeleteAllRequest

text \<open>The decorators of the routes.\<close>

fun requestRoles :: "alarmRequest \<Rightarrow> userRole list option" where
  "requestRoles DeleteAllRequest = Some [ADMIN]"
| "requestRoles _ = Some [OPERATOR]"

fun requestPermission :: "alarmRequest \<Rightarrow> permissionKey option" where
  "requestPermission (NoteRequest _ _) = None"
| "requestPermission (BulkRequest _ _ _) = None"
| "requestPermission DeleteAllRequest = None"
| "requestPermission _ = Some AlarmAck"

definition dispatchAlarm :: "accessDb \<Rightarrow> authUserInfo \<Rightarrow> int \<Rightarrow> alarmRequest \<Rightarrow> alarmState \<Rightarrow> (alarmError, unit) result \<times> alarmState" where
  "dispatchAlarm db u now req st =
     (case req of
        AckRequest i n \<Rightarrow> acknowledgeAlarm db u now i n st
      | ResolveRequest i n \<Rightarrow> resolveAlarm db u now i n st
      | SnoozeRequest i m n \<Rightarrow> snoozeAlarm db u now i m n st
      | UnsnoozeRequest i n \<Rightarrow> unsnoozeAlarm db u now i n st
      | NoteRequest i n \<Rightarrow> addAlarmNote db u now i n st
      | BulkRequest k is opts \<Rightarrow> (case bulkAlarmAction db u now k is opts st of (Inl e, st1) \<Rightarrow> (Inl e, st1) | (Inr _, st1) \<Rightarrow> (Inr (), st1))
      | DeleteAllRequest \<Rightarrow> (Inr (), snd (deleteAll st)))"

definition handleAlarm ::
    "accessDb \<Rightarrow> authUserInfo \<Rightarrow> int \<Rightarrow> alarmRequest \<Rightarrow> rolePermState \<times> alarmState
     \<Rightarrow> (alarmError, unit) result \<times> rolePermState \<times> alarmState" where
  "handleAlarm db u now req w =
     (case guardChain (requestRoles req) (requestPermission req) (Some u) now (fst w) of
        (GuardPass, ps) \<Rightarrow> (let (r, st) = dispatchAlarm db u now req (snd w) in (r, ps, st))
      | (v, ps) \<Rightarrow> (Inl (Refused v), ps, snd w))"

section \<open>Lemmas\<close>

lemma listed:
  assumes "a \<in> set (ap_items (listAlarmRows ids q st))"
  shows "a \<in> set (am_alarms st)" "alarmWhere ids q a"
  using assms by (auto simp: listAlarmRows_def Let_def dest!: in_set_takeD in_set_dropD)

lemma accessibleForList_sub:
  "\<not> isPrivileged (routeUser u) \<Longrightarrow> set (accessibleForList db cams u zone) \<subseteq> set (getAccessibleCameraIds db (routeUser u))"
  by (auto simp: accessibleForList_def Let_def isPrivileged_def routeUser_def split: option.splits if_splits)

text \<open>The camera of an alarm may be viewed; an alarm without a camera is open to everyone who passes the guards.\<close>

definition alarmViewable :: "accessDb \<Rightarrow> authUserInfo \<Rightarrow> alarmInstance \<Rightarrow> bool" where
  "alarmViewable db u a =
     (case al_cameraId a of None \<Rightarrow> True | Some c \<Rightarrow> c = [] \<or> canViewCamera db (routeUser u) c)"

lemma assertAlarmCamera_iff: "assertAlarmCamera db u (al_cameraId a) = Inr () \<longleftrightarrow> alarmViewable db u a"
  by (simp add: assertAlarmCamera_def alarmViewable_def assertCanViewCamera_def split: option.split)

lemma assertAlarms_view:
  assumes "assertAlarms db u is st = Inr ()" "i \<in> set is" "findAlarm i st = Some a"
  shows "alarmViewable db u a"
  using assms
proof (induction "is")
  case (Cons j js)
  then show ?case
    by (cases "j = i") (auto simp: assertAlarmCamera_iff [symmetric] split: option.splits sum.splits)
qed simp

lemma findAlarm_row: "distinct (map al_id (am_alarms st)) \<Longrightarrow> a \<in> set (am_alarms st) \<Longrightarrow> findAlarm (al_id a) st = Some a"
  unfolding findAlarm_def by (rule find_key)

lemma addNote_others: "a \<in> set (am_alarms st) \<Longrightarrow> al_id a \<noteq> i \<Longrightarrow> a \<in> set (am_alarms (snd (addNote now i user n st)))"
  by (simp add: addNote_def updateAlarm_others)

lemma onAlarm_touched:
  assumes "distinct (map al_id (am_alarms st))" "a \<in> set (am_alarms st)" "a \<notin> set (am_alarms (snd (onAlarm db u i act st)))"
    and "al_id a \<noteq> i \<Longrightarrow> a \<in> set (am_alarms (snd (act st)))"
  shows "al_id a = i \<and> alarmViewable db u a"
proof -
  obtain b where b: "findAlarm i st = Some b" using assms(2,3) by (cases "findAlarm i st") (auto simp: onAlarm_def)
  have v: "assertAlarmCamera db u (al_cameraId b) = Inr ()"
    using assms(2,3) b by (cases "assertAlarmCamera db u (al_cameraId b)") (auto simp: onAlarm_def)
  with assms b have "al_id a = i" by (auto simp: onAlarm_def)
  with findAlarm_row [OF assms(1,2)] b have "b = a" by simp
  with v \<open>al_id a = i\<close> show ?thesis by (simp add: assertAlarmCamera_iff)
qed

lemmas action_others = bulkOne_others [of _ _ _ _ Ack _ "\<lparr>bo_note = n, bo_snoozeMinutes = m\<rparr>" for n m, unfolded bulkOne_def, simplified]
  bulkOne_others [of _ _ _ _ Resolve _ "\<lparr>bo_note = n, bo_snoozeMinutes = m\<rparr>" for n m, unfolded bulkOne_def, simplified]
  bulkOne_others [of _ _ _ _ Unsnooze _ "\<lparr>bo_note = n, bo_snoozeMinutes = m\<rparr>" for n m, unfolded bulkOne_def, simplified]
  addNote_others

lemma snooze_others: "a \<in> set (am_alarms st) \<Longrightarrow> al_id a \<noteq> i \<Longrightarrow> a \<in> set (am_alarms (snd (snooze now i user m n st)))"
  by (simp add: snooze_def Let_def updateAlarm_others)

lemma bulk_touched:
  assumes "length is \<le> 200" "distinct (map al_id (am_alarms st))" "a \<in> set (am_alarms st)"
    and "a \<notin> set (am_alarms (snd (bulkAlarmAction db u now k is opts st)))"
  shows "al_id a \<in> set is \<and> alarmViewable db u a"
proof -
  have ok: "assertAlarms db u is st = Inr ()"
    using assms(1,3,4) by (cases "assertAlarms db u is st") (auto simp: bulkAlarmAction_def)
  have "al_id a \<in> set (take 200 (js_uniq is))"
    using bulkLoop_others [OF assms(3), of "take 200 (js_uniq is)" now k "actorOf u" opts] assms(1,4) ok
    by (auto simp: bulkAlarmAction_def bulkAction_def split_beta)
  then have "al_id a \<in> set is" by (auto dest: in_set_takeD)
  with assertAlarms_view [OF ok _ findAlarm_row [OF assms(2,3)]] show ?thesis by blast
qed

fun requestTargets :: "alarmRequest \<Rightarrow> string list" where
  "requestTargets (AckRequest i _) = [i]"
| "requestTargets (ResolveRequest i _) = [i]"
| "requestTargets (SnoozeRequest i _ _) = [i]"
| "requestTargets (UnsnoozeRequest i _) = [i]"
| "requestTargets (NoteRequest i _) = [i]"
| "requestTargets (BulkRequest _ is _) = is"
| "requestTargets DeleteAllRequest = []"

lemma dispatch_touched:
  assumes "req \<noteq> DeleteAllRequest" "length (requestTargets req) \<le> 200" "distinct (map al_id (am_alarms st))"
    and "a \<in> set (am_alarms st)" "a \<notin> set (am_alarms (snd (dispatchAlarm db u now req st)))"
  shows "al_id a \<in> set (requestTargets req) \<and> alarmViewable db u a"
proof (cases req)
  case (AckRequest i n)
  with onAlarm_touched [OF assms(3,4), of db u i "acknowledge now i (actorOf u) n"] assms(5) show ?thesis
    by (simp add: dispatchAlarm_def acknowledgeAlarm_def action_others assms(4))
next
  case (ResolveRequest i n)
  with onAlarm_touched [OF assms(3,4), of db u i "resolve now i (actorOf u) n"] assms(5) show ?thesis
    by (simp add: dispatchAlarm_def resolveAlarm_def action_others assms(4))
next
  case (SnoozeRequest i m n)
  with onAlarm_touched [OF assms(3,4), of db u i "snooze now i (actorOf u) (case m of None \<Rightarrow> 15 | Some x \<Rightarrow> x) n"] assms(5) show ?thesis
    by (simp add: dispatchAlarm_def snoozeAlarm_def snooze_others assms(4))
next
  case (UnsnoozeRequest i n)
  with onAlarm_touched [OF assms(3,4), of db u i "unsnooze now i (actorOf u) n"] assms(5) show ?thesis
    by (simp add: dispatchAlarm_def unsnoozeAlarm_def action_others assms(4))
next
  case (NoteRequest i n)
  with onAlarm_touched [OF assms(3,4), of db u i "addNote now i (actorOf u) (case n of None \<Rightarrow> [] | Some x \<Rightarrow> js_trim x)"] assms(5) show ?thesis
    by (simp add: dispatchAlarm_def addAlarmNote_def action_others assms(4))
next
  case (BulkRequest k "is" opts)
  then have "a \<notin> set (am_alarms (snd (bulkAlarmAction db u now k is opts st)))"
    using assms(5) by (auto simp: dispatchAlarm_def split: prod.splits sum.splits)
  with bulk_touched [OF _ assms(3,4)] assms(2) BulkRequest show ?thesis by simp
qed (use assms(1) in simp)

section \<open>A sample\<close>

definition anyAlarm :: alarmQuery where
  "anyAlarm = \<lparr>aq_cameraId = None, aq_from = None, aq_to = None, aq_status = None, aq_severity = None, aq_priority = None,
     aq_source = None, aq_type = None, aq_limit = None, aq_offset = None\<rparr>"

definition guestUser :: authUserInfo where
  "guestUser = \<lparr>ai_id = ''guest'', ai_name = ''Guest'', ai_email = ''g'', ai_role = OPERATOR\<rparr>"

definition guestAlarm :: alarmInstance where
  "guestAlarm = newAlarm ''a1'' (sampleEvent\<lparr>ae_cameraId := ''private''\<rparr>) SRC_STREAM sampleRule"

definition guestState :: alarmState where
  "guestState = sampleAlarms\<lparr>am_alarms := [guestAlarm]\<rparr>"

lemma guest_accessible: "getAccessibleCameraIds sample_db (routeUser guestUser) = [''private'']"
  by code_simp

lemma guest_views: "canViewCamera sample_db (routeUser guestUser) ''private''"
  by code_simp

lemma guest_alarm: "al_id guestAlarm = ''a1''" "al_cameraId guestAlarm = Some ''private''" "am_alarms guestState = [guestAlarm]"
  by (simp_all add: guestAlarm_def guestState_def newAlarm_def)

section \<open>Properties\<close>

text \<open>
  A list of alarms shows what its reader may see. A reader without a global role for whom some camera
  remains after the filter by zone gets only alarms of accessible cameras; one who asks for a camera gets only its
  alarms, and only when that camera may be viewed; a page never has more than two hundred rows.
\<close>

theorem alarm_list_confined:
  assumes "listAlarms db cams u zone q st = Inr page" "\<not> isPrivileged (routeUser u)" "accessibleForList db cams u zone \<noteq> []"
    and "a \<in> set (ap_items page)"
  shows "a \<in> set (am_alarms st) \<and> length (ap_items page) \<le> 200
    \<and> (if aq_cameraId q = None \<or> aq_cameraId q = Some [] then opt_in (al_cameraId a) (getAccessibleCameraIds db (routeUser u))
       else \<exists>c. aq_cameraId q = Some c \<and> al_cameraId a = Some c \<and> canViewCamera db (routeUser u) c)"
proof -
  have p: "page = listAlarmRows (accessibleForList db cams u zone) q st"
    using assms(1) by (auto simp: listAlarms_def split: sum.splits)
  have view: "canViewCamera db (routeUser u) c" if "aq_cameraId q = Some c" "c \<noteq> []" for c
    using assms(1) that by (auto simp: listAlarms_def assertAlarmCamera_def assertCanViewCamera_def split: sum.splits if_splits)
  note l = listed [OF assms(4) [unfolded p]]
  have "length (ap_items page) \<le> 200" by (simp add: p listAlarmRows_def Let_def)
  moreover have "if aq_cameraId q = None \<or> aq_cameraId q = Some [] then opt_in (al_cameraId a) (getAccessibleCameraIds db (routeUser u))
       else \<exists>c. aq_cameraId q = Some c \<and> al_cameraId a = Some c \<and> canViewCamera db (routeUser u) c"
    using l(2) assms(3) view accessibleForList_sub [OF assms(2)]
    by (auto simp: alarmWhere_def Let_def opt_in_def split: option.splits if_splits)
  ultimately show ?thesis using l(1) by blast
qed

theorem alarm_list_confined_witness:
  "guestAlarm \<in> set (am_alarms guestState) \<and> opt_in (al_cameraId guestAlarm) (getAccessibleCameraIds sample_db (routeUser guestUser))"
proof -
  have acc: "accessibleForList sample_db [] guestUser None = [''private'']"
    by (simp add: accessibleForList_def guest_accessible) (simp add: guestUser_def)
  have l: "listAlarms sample_db [] guestUser None anyAlarm guestState = Inr (listAlarmRows [''private''] anyAlarm guestState)"
    unfolding listAlarms_def acc by (simp add: anyAlarm_def assertAlarmCamera_def)
  have "guestAlarm \<in> set (ap_items (listAlarmRows [''private''] anyAlarm guestState))"
    by (simp add: listAlarmRows_def Let_def guest_alarm alarmWhere_def anyAlarm_def wanted_def opt_in_def js_sort_def)
  from alarm_list_confined [OF l _ _ this] acc show ?thesis
    by (simp add: anyAlarm_def isPrivileged_def routeUser_def) (simp add: guestUser_def)
qed

text \<open>
  A reader for whom no camera remains gets the alarms of every camera: an empty list of cameras is no filter.
\<close>

lemma alarm_list_open_without_cameras:
  assumes "accessibleForList db cams u zone = []" "length (am_alarms st) \<le> 100"
  shows "\<exists>page. listAlarms db cams u zone anyAlarm st = Inr page \<and> set (ap_items page) = set (am_alarms st)"
proof -
  have "filter (alarmWhere [] anyAlarm) (am_alarms st) = am_alarms st"
    by (simp add: alarmWhere_def anyAlarm_def Let_def wanted_def)
  then have "ap_items (listAlarmRows [] anyAlarm st) = js_sort alarmOrder (am_alarms st)"
    using assms(2) by (simp add: listAlarmRows_def Let_def anyAlarm_def)
  moreover have "listAlarms db cams u zone anyAlarm st = Inr (listAlarmRows [] anyAlarm st)"
    using assms(1) by (simp add: listAlarms_def anyAlarm_def assertAlarmCamera_def)
  ultimately show ?thesis by simp
qed

text \<open>
  Property C27. Who changes an alarm. A request that names at most two hundred alarms changes one only when the request
  names it, the actor is at least an operator and may view its camera; to acknowledge, resolve, snooze or wake a single
  alarm the role of the actor must besides hold the permission, unless the actor is a super administrator. Only an
  administrator deletes them all.
\<close>

theorem alarm_changed_by_entitled:
  assumes "handleAlarm db u now req (ps, st) = (r, ps', st')" "length (requestTargets req) \<le> 200"
    and "distinct (map al_id (am_alarms st))" "a \<in> set (am_alarms st)" "a \<notin> set (am_alarms st')"
  shows "(if req = DeleteAllRequest then roleWeight ADMIN \<le> roleWeight (ai_role u)
      else roleWeight OPERATOR \<le> roleWeight (ai_role u) \<and> al_id a \<in> set (requestTargets req) \<and> alarmViewable db u a)
    \<and> (requestPermission req = None \<or> ai_role u = SUPER_ADMIN \<or> fst (hasPermission now (ai_role u) AlarmAck ps))"
proof -
  obtain v ps1 where g: "guardChain (requestRoles req) (requestPermission req) (Some u) now ps = (v, ps1)" by fastforce
  have pass: "v = GuardPass" "st' = snd (dispatchAlarm db u now req st)"
    using assms(1,4,5) g by (auto simp: handleAlarm_def split: guardVerdict.splits prod.splits)
  have roles: "rolesGuard (requestRoles req) (Some u)" using g pass(1) by (auto simp: guardChain_def split: if_splits)
  have perm: "requestPermission req = None \<or> ai_role u = SUPER_ADMIN \<or> fst (hasPermission now (ai_role u) AlarmAck ps)"
    using g pass(1) roles by (cases req) (auto simp: guardChain_def permissionsGuard_def split: prod.splits if_splits)
  show ?thesis
  proof (cases "req = DeleteAllRequest")
    case True
    with roles perm show ?thesis by (simp add: rolesGuard_def)
  next
    case False
    then have "roleWeight OPERATOR \<le> roleWeight (ai_role u)" using roles by (cases req) (auto simp: rolesGuard_def)
    with False perm dispatch_touched [OF False assms(2,3,4)] assms(5) pass(2) show ?thesis by simp
  qed
qed

theorem alarm_changed_by_entitled_witness:
  "alarmViewable sample_db guestUser guestAlarm \<and> roleWeight OPERATOR \<le> roleWeight (ai_role guestUser)"
proof -
  let ?ps = "\<lparr>pm_rows = [], pm_cache = None, pm_cacheAt = 0\<rparr>"
  obtain r ps' st' where h: "handleAlarm sample_db guestUser 5 (AckRequest ''a1'' None) (?ps, guestState) = (r, ps', st')"
    by (metis surj_pair)
  have f: "findAlarm ''a1'' guestState = Some guestAlarm" by (simp add: findAlarm_def guest_alarm)
  have "assertAlarmCamera sample_db guestUser (al_cameraId guestAlarm) = Inr ()"
    unfolding assertAlarmCamera_iff by (simp add: alarmViewable_def guest_alarm guest_views)
  then have "dispatchAlarm sample_db guestUser 5 (AckRequest ''a1'' None) guestState = acknowledge 5 ''a1'' (actorOf guestUser) None guestState"
    by (simp add: dispatchAlarm_def acknowledgeAlarm_def onAlarm_def f)
  moreover have "fst (guardChain (Some [OPERATOR]) (Some AlarmAck) (Some guestUser) 5 ?ps) = GuardPass" by code_simp
  ultimately have "st' = snd (acknowledge 5 ''a1'' (actorOf guestUser) None guestState)" using h
    by (auto simp: handleAlarm_def split: prod.splits guardVerdict.splits)
  then have "am_alarms st' = map (\<lambda>a. if al_id a = ''a1'' then a\<lparr>al_status := ACKED, al_acknowledgedAt := Some 5,
      al_acknowledgedByUserId := Some (aa_id (actorOf guestUser)), al_acknowledgedByUserName := Some (aa_name (actorOf guestUser)),
      al_note := al_note a, al_metadata := appendTransition 5 (actorOf guestUser) \<lparr>te_action = ''ACKNOWLEDGED'', te_note = None, te_extra = []\<rparr> (al_metadata a)\<rparr> else a) [guestAlarm]"
    by (simp add: acknowledge_def updateAlarm_def f guest_alarm trimmedNote_def)
  then have "\<forall>a\<in>set (am_alarms st'). al_status a = ACKED" by (simp add: guest_alarm)
  moreover have "al_status guestAlarm = OPEN" by (simp add: guestAlarm_def newAlarm_def)
  ultimately have "guestAlarm \<notin> set (am_alarms st')" by auto
  from alarm_changed_by_entitled [OF h _ _ _ this] show ?thesis by (simp add: guest_alarm)
qed

lemma js_uniq_replicate: "x \<noteq> y \<Longrightarrow> js_uniq (replicate (Suc n) x @ [y]) = [x, y]"
proof -
  assume "x \<noteq> y"
  have "remdups (replicate (Suc n) x) = [x]" by (induction n) auto
  with \<open>x \<noteq> y\<close> show ?thesis by (simp add: js_uniq_def remdups_append2 del: replicate_Suc)
qed

text \<open>
  The check of an action on many looks at the first two hundred identifiers as they came, the action takes the first
  two hundred different ones: two hundred times the same identifier hides any other from the check.
\<close>

lemma bulk_action_unchecked:
  assumes "findAlarm x st = Some a" "al_cameraId a = None" "findAlarm y st = Some b" "x \<noteq> y"
  shows "\<exists>st'. bulkAlarmAction db u now Resolve (replicate 200 x @ [y]) opts st = (Inr [(x, True), (y, True)], st')
    \<and> (\<exists>b'\<in>set (am_alarms st'). al_id b' = y \<and> al_status b' = RESOLVED)"
proof -
  let ?u = "actorOf u"
  have "assertAlarms db u (replicate n x) st = Inr ()" for n by (induction n) (use assms(1,2) in \<open>simp_all add: assertAlarmCamera_def\<close>)
  then have ok: "assertAlarms db u (take 200 (replicate 200 x @ [y])) st = Inr ()" by simp
  have uniq: "take 200 (js_uniq (replicate 200 x @ [y])) = [x, y]" using js_uniq_replicate [OF assms(4), of 199] by (simp add: eval_nat_numeral)
  obtain r1 st1 where one: "bulkOne now Resolve ?u opts x st = (r1, st1)" by fastforce
  obtain r2 st2 where two: "bulkOne now Resolve ?u opts y st1 = (r2, st2)" by fastforce
  have r1: "r1 = Inr ()" using one assms(1) by (auto simp: bulkOne_def resolve_def updateAlarm_def)
  have b: "b \<in> set (am_alarms st)" "al_id b = y" using assms(3) unfolding findAlarm_def by (auto dest: find_SomeD)
  then have "b \<in> set (am_alarms st1)" using bulkOne_others [of b st x now Resolve ?u opts] assms(4) one by auto
  then have f: "findAlarm y st1 \<noteq> None" using b(2) by (auto simp: findAlarm_def find_None_iff)
  then have r2: "r2 = Inr ()" using two by (auto simp: bulkOne_def resolve_def updateAlarm_def)
  have "st2 = snd (resolve now y ?u (bo_note opts) st1)" using two by (simp add: bulkOne_def)
  then have "\<exists>b'\<in>set (am_alarms st2). al_id b' = y \<and> al_status b' = RESOLVED"
    using \<open>b \<in> set (am_alarms st1)\<close> b(2) unfolding resolve_def by (simp only:) (intro bexI [OF _ updateAlarm_mem], simp_all)
  moreover have "bulkAlarmAction db u now Resolve (replicate 200 x @ [y]) opts st = (Inr [(x, True), (y, True)], st2)"
    using ok by (simp add: bulkAlarmAction_def bulkAction_def uniq one two r1 r2)
  ultimately show ?thesis by blast
qed

text \<open>
  The route for many alarms does not ask for the permission that the routes for one alarm ask for: an operator whose
  role does not hold it acknowledges an alarm by naming it alone in a list.
\<close>

lemma bulk_needs_no_permission:
  assumes "ai_role u = OPERATOR" "\<not> fst (hasPermission now OPERATOR AlarmAck ps)" "findAlarm i st = Some a" "alarmViewable db u a"
  shows "fst (handleAlarm db u now (AckRequest i n) (ps, st)) = Inl (Refused (GuardDenied AlarmAck))"
    and "snd (snd (handleAlarm db u now (BulkRequest Ack [i] \<lparr>bo_note = n, bo_snoozeMinutes = None\<rparr>) (ps, st))) = snd (acknowledge now i (actorOf u) n st)"
proof -
  show "fst (handleAlarm db u now (AckRequest i n) (ps, st)) = Inl (Refused (GuardDenied AlarmAck))"
    using assms(1,2) by (simp add: handleAlarm_def guardChain_def rolesGuard_def permissionsGuard_def split_beta split: guardVerdict.split)
  have "assertAlarmCamera db u (al_cameraId a) = Inr ()" using assms(4) by (simp add: assertAlarmCamera_iff)
  then have "assertAlarms db u [i] st = Inr ()" using assms(3) by simp
  then show "snd (snd (handleAlarm db u now (BulkRequest Ack [i] \<lparr>bo_note = n, bo_snoozeMinutes = None\<rparr>) (ps, st))) = snd (acknowledge now i (actorOf u) n st)"
    using assms(1) by (simp add: handleAlarm_def guardChain_def rolesGuard_def permissionsGuard_def dispatchAlarm_def bulkAlarmAction_def
        bulkAction_def bulkOne_def split_beta js_uniq_def)
qed

end
