(* ===== verification/Push_Devices.thy ===== *)
theory Push_Devices
  imports Auth_Session
begin

text \<open>
  Push notifications (\<open>apps/api/src/notifications/\<close>): the devices and the cameras that a user has silenced
  (\<open>push-devices.service.ts\<close>), the sending of a message and the reading of its receipts (\<open>push.service.ts\<close>,
  \<open>expo-receipts.helper.ts\<close>).

  The push service of Expo is an argument: what it answers to a request, \<open>None\<close> when the request fails. It answers
  with at most one ticket for each message, in their order. Log messages are left out.
\<close>

section \<open>Devices\<close>

record pushDevice =
  pd_userId :: string
  pd_token :: string
  pd_platform :: "string option"
  pd_deviceName :: "string option"
  pd_lastSeenAt :: int

record pushState =
  ph_devices :: "pushDevice list"
  ph_mutes :: "(string \<times> string) list"

definition registerDevice :: "int \<Rightarrow> string \<Rightarrow> string \<Rightarrow> string option \<Rightarrow> string option \<Rightarrow> pushState \<Rightarrow> pushState" where
  "registerDevice now userId token platform deviceName st =
     (if find (\<lambda>d. pd_token d = token) (ph_devices st) = None
      then st\<lparr>ph_devices := ph_devices st @ [\<lparr>pd_userId = userId, pd_token = token, pd_platform = platform,
             pd_deviceName = deviceName, pd_lastSeenAt = now\<rparr>]\<rparr>
      else st\<lparr>ph_devices := map (\<lambda>d. if pd_token d = token
             then d\<lparr>pd_userId := userId, pd_platform := (if platform = None then pd_platform d else platform),
                    pd_deviceName := (if deviceName = None then pd_deviceName d else deviceName), pd_lastSeenAt := now\<rparr>
             else d) (ph_devices st)\<rparr>)"

definition unregisterDevice :: "string \<Rightarrow> string \<Rightarrow> pushState \<Rightarrow> pushState" where
  "unregisterDevice userId token st =
     st\<lparr>ph_devices := filter (\<lambda>d. \<not> (pd_token d = token \<and> pd_userId d = userId)) (ph_devices st)\<rparr>"

definition pruneInvalid :: "string list \<Rightarrow> pushState \<Rightarrow> pushState" where
  "pruneInvalid tokens st =
     (if tokens = [] then st else st\<lparr>ph_devices := filter (\<lambda>d. pd_token d \<notin> set tokens) (ph_devices st)\<rparr>)"

definition isMutedFor :: "string \<Rightarrow> string \<Rightarrow> pushState \<Rightarrow> bool" where
  "isMutedFor userId cameraId st \<longleftrightarrow> (userId, cameraId) \<in> set (ph_mutes st)"

definition setMuteFor :: "string \<Rightarrow> string \<Rightarrow> bool \<Rightarrow> pushState \<Rightarrow> pushState" where
  "setMuteFor userId cameraId silence st =
     (if silence
      then (if (userId, cameraId) \<in> set (ph_mutes st) then st else st\<lparr>ph_mutes := ph_mutes st @ [(userId, cameraId)]\<rparr>)
      else st\<lparr>ph_mutes := filter (\<lambda>m. m \<noteq> (userId, cameraId)) (ph_mutes st)\<rparr>)"

definition tokensForUsers :: "string list \<Rightarrow> pushState \<Rightarrow> string list" where
  "tokensForUsers userIds st =
     (if userIds = [] then [] else map pd_token (filter (\<lambda>d. pd_userId d \<in> set userIds) (ph_devices st)))"

definition privilegedIds :: "userRow list \<Rightarrow> string list" where
  "privilegedIds users = map u_id (filter (\<lambda>u. u_isActive u \<and> (u_role u = SUPER_ADMIN \<or> u_role u = ADMIN)) users)"

definition tokensForPrivileged :: "userRow list \<Rightarrow> pushState \<Rightarrow> string list" where
  "tokensForPrivileged users st = tokensForUsers (privilegedIds users) st"

definition getTokensForCamera :: "userRow list \<Rightarrow> accessDb \<Rightarrow> string option \<Rightarrow> pushState \<Rightarrow> string list" where
  "getTokensForCamera users db cameraId st =
     (if cameraId = None \<or> cameraId = Some [] then tokensForPrivileged users st
      else
        let groupId = (case findCamera db (the cameraId) of None \<Rightarrow> None | Some c \<Rightarrow> if cam_groupId c = Some [] then None else cam_groupId c);
            perms = filter (\<lambda>p. perm_cameraId p = cameraId \<or> groupId \<noteq> None \<and> perm_groupId p = groupId) (db_permissions db);
            userIds = js_uniq (privilegedIds users @ map perm_userId perms)
        in tokensForUsers (filter (\<lambda>i. (i, the cameraId) \<notin> set (ph_mutes st)) userIds) st)"

section \<open>Sending\<close>

text \<open>\<open>/^Prefix\[.+\]$/\<close>; the dot does not match a line break.\<close>

definition bracketed :: "string \<Rightarrow> string \<Rightarrow> bool" where
  "bracketed pre t \<longleftrightarrow>
     (let inner = drop (length pre + 1) t in
      starts_with t (pre @ ''['') \<and> ends_with inner '']'' \<and> butlast inner \<noteq> []
      \<and> list_all (\<lambda>c. c \<noteq> CHR 0x0A \<and> c \<noteq> CHR 0x0D) (butlast inner))"

definition isExpoPushToken :: "string \<Rightarrow> bool" where
  "isExpoPushToken t \<longleftrightarrow> bracketed ''ExponentPushToken'' t \<or> bracketed ''ExpoPushToken'' t"

definition REMOVE_TOKEN_ERRORS :: "string list" where
  "REMOVE_TOKEN_ERRORS = [''DeviceNotRegistered'']"

definition shouldRemoveToken :: "string option \<Rightarrow> bool" where
  "shouldRemoveToken code = (case code of None \<Rightarrow> False | Some e \<Rightarrow> e \<noteq> [] \<and> e \<in> set REMOVE_TOKEN_ERRORS)"

text \<open>A ticket and a receipt: the identifier of one that is accepted, the code of the error of one that is not.\<close>

datatype expoTicket = TicketOk "string option" | TicketError "string option"

datatype expoReceipt = ReceiptOk | ReceiptError "string option"

definition CHUNK :: nat where
  "CHUNK = 100"

function batches :: "'a list \<Rightarrow> 'a list list" where
  "batches xs = (if xs = [] then [] else take CHUNK xs # batches (drop CHUNK xs))"
  by pat_completeness auto

termination batches
  by (relation "measure length") (auto simp: CHUNK_def)

declare batches.simps [simp del]

record sendOutcome =
  so_invalid :: "string list"
  so_receipts :: "(string \<times> string) list"

definition readTicket :: "expoTicket \<times> string \<Rightarrow> sendOutcome \<Rightarrow> sendOutcome" where
  "readTicket x acc =
     (case x of
        (TicketOk i, t) \<Rightarrow> (case i of None \<Rightarrow> acc | Some r \<Rightarrow> if r = [] then acc else acc\<lparr>so_receipts := AList.update r t (so_receipts acc)\<rparr>)
      | (TicketError code, t) \<Rightarrow> if shouldRemoveToken code then acc\<lparr>so_invalid := so_invalid acc @ [t]\<rparr> else acc)"

text \<open>
  The loop over the batches: the outcome, \<open>None\<close> when a request failed, and the tokens to which the message went out
  before that.
\<close>

fun sendChunks :: "(string list \<Rightarrow> expoTicket list option) \<Rightarrow> string list list \<Rightarrow> sendOutcome \<Rightarrow> sendOutcome option \<times> string list" where
  "sendChunks post [] acc = (Some acc, [])"
| "sendChunks post (c # cs) acc =
     (case post c of
        None \<Rightarrow> (None, [])
      | Some tickets \<Rightarrow> (let (r, sent) = sendChunks post cs (fold readTicket (zip tickets c) acc) in (r, c @ sent)))"

definition sendToTokens :: "(string list \<Rightarrow> expoTicket list option) \<Rightarrow> string list \<Rightarrow> sendOutcome option \<times> string list" where
  "sendToTokens post tokens =
     (let valid = js_uniq (filter isExpoPushToken tokens) in
      if valid = [] then (Some \<lparr>so_invalid = [], so_receipts = []\<rparr>, [])
      else sendChunks post (batches valid) \<lparr>so_invalid = [], so_receipts = []\<rparr>)"

section \<open>Receipts\<close>

fun invalidTokensFromReceipts :: "(string \<times> expoReceipt) list \<Rightarrow> (string \<times> string) list \<Rightarrow> string list" where
  "invalidTokensFromReceipts [] idToToken = []"
| "invalidTokensFromReceipts ((i, r) # rs) idToToken =
     (case r of
        ReceiptOk \<Rightarrow> invalidTokensFromReceipts rs idToToken
      | ReceiptError code \<Rightarrow>
          (case map_of idToToken i of
             None \<Rightarrow> invalidTokensFromReceipts rs idToToken
           | Some token \<Rightarrow>
               if token = [] then invalidTokensFromReceipts rs idToToken
               else if shouldRemoveToken code then token # invalidTokensFromReceipts rs idToToken
               else invalidTokensFromReceipts rs idToToken))"

record receiptsOutcome =
  ro_invalid :: "string list"
  ro_failedChunks :: nat
  ro_ok :: nat
  ro_errors :: nat

definition isErrorReceipt :: "expoReceipt \<Rightarrow> bool" where
  "isErrorReceipt r = (case r of ReceiptOk \<Rightarrow> False | ReceiptError _ \<Rightarrow> True)"

fun receiptChunks ::
    "(string list \<Rightarrow> (string \<times> expoReceipt) list option) \<Rightarrow> (string \<times> string) list \<Rightarrow> string list list \<Rightarrow> receiptsOutcome \<Rightarrow> receiptsOutcome" where
  "receiptChunks post ids [] acc = acc"
| "receiptChunks post ids (c # cs) acc =
     receiptChunks post ids cs
       (case post c of
          None \<Rightarrow> acc\<lparr>ro_failedChunks := ro_failedChunks acc + 1\<rparr>
        | Some receipts \<Rightarrow>
            acc\<lparr>ro_invalid := ro_invalid acc @ invalidTokensFromReceipts receipts (filter (\<lambda>(i, _). i \<in> set c) ids),
                ro_ok := ro_ok acc + length (filter (\<lambda>(_, r). \<not> isErrorReceipt r) receipts),
                ro_errors := ro_errors acc + length (filter (\<lambda>(_, r). isErrorReceipt r) receipts)\<rparr>)"

definition fetchReceipts :: "(string list \<Rightarrow> (string \<times> expoReceipt) list option) \<Rightarrow> (string \<times> string) list \<Rightarrow> receiptsOutcome" where
  "fetchReceipts post ids = receiptChunks post ids (batches (map fst ids)) \<lparr>ro_invalid = [], ro_failedChunks = 0, ro_ok = 0, ro_errors = 0\<rparr>"

section \<open>Lemmas\<close>

lemma concat_batches: "concat (batches xs) = xs"
  by (induction xs rule: batches.induct) (subst batches.simps, simp)

lemma batches_bound: "c \<in> set (batches xs) \<Longrightarrow> 0 < length c \<and> length c \<le> CHUNK"
proof (induction xs rule: batches.induct)
  case (1 xs)
  show ?case
  proof (cases "xs = []")
    case True
    with "1.prems" show ?thesis by (simp add: batches.simps)
  next
    case False
    then have "c = take CHUNK xs \<or> c \<in> set (batches (drop CHUNK xs))" using "1.prems" by (subst (asm) batches.simps) simp
    with "1.IH" False show ?thesis by (auto simp: CHUNK_def)
  qed
qed

lemma tokensForUsers_iff: "t \<in> set (tokensForUsers us st) \<longleftrightarrow> (\<exists>d\<in>set (ph_devices st). pd_token d = t \<and> pd_userId d \<in> set us)"
  by (auto simp: tokensForUsers_def)

lemma privilegedIds_iff: "i \<in> set (privilegedIds users) \<longleftrightarrow> (\<exists>u\<in>set users. u_id u = i \<and> u_isActive u \<and> (u_role u = SUPER_ADMIN \<or> u_role u = ADMIN))"
  by (auto simp: privilegedIds_def)

text \<open>Whom a notification about a camera reaches.\<close>

lemma tokensForCamera_iff:
  assumes "wf_db db" "c \<in> set (db_cameras db)"
  shows "t \<in> set (getTokensForCamera users db (Some (cam_id c)) st) \<longleftrightarrow>
    (\<exists>d\<in>set (ph_devices st). pd_token d = t \<and> \<not> isMutedFor (pd_userId d) (cam_id c) st
      \<and> (pd_userId d \<in> set (privilegedIds users)
         \<or> (\<exists>p\<in>set (db_permissions db). perm_userId p = pd_userId d
              \<and> (perm_cameraId p = Some (cam_id c) \<or> (\<exists>g. cam_groupId c = Some g \<and> perm_groupId p = Some g)))))"
proof -
  have "cam_id c \<noteq> []" "findCamera db (cam_id c) = Some c" "cam_groupId c \<noteq> Some []"
    using wf_camera [OF assms] by auto
  then have g: "getTokensForCamera users db (Some (cam_id c)) st = tokensForUsers (filter (\<lambda>i. (i, cam_id c) \<notin> set (ph_mutes st))
      (js_uniq (privilegedIds users @ map perm_userId (filter (\<lambda>p. perm_cameraId p = Some (cam_id c)
         \<or> cam_groupId c \<noteq> None \<and> perm_groupId p = cam_groupId c) (db_permissions db))))) st"
    by (simp add: getTokensForCamera_def Let_def)
  have "i \<in> perm_userId ` {p \<in> set (db_permissions db). perm_cameraId p = Some (cam_id c) \<or> cam_groupId c \<noteq> None \<and> perm_groupId p = cam_groupId c}
      \<longleftrightarrow> (\<exists>p\<in>set (db_permissions db). perm_userId p = i \<and> (perm_cameraId p = Some (cam_id c) \<or> (\<exists>g. cam_groupId c = Some g \<and> perm_groupId p = Some g)))" for i
    by auto
  then show ?thesis unfolding g tokensForUsers_iff isMutedFor_def by auto
qed

section \<open>Pruning\<close>

lemma readTicket_invalid:
  "set (so_invalid (readTicket (k, t) acc)) \<subseteq> set (so_invalid acc) \<union> (if \<exists>code. k = TicketError code \<and> shouldRemoveToken code then {t} else {})"
  by (auto simp: readTicket_def split: expoTicket.splits option.splits if_splits)

lemma fold_invalid:
  "x \<in> set (so_invalid (fold readTicket ps acc)) \<Longrightarrow> x \<in> set (so_invalid acc) \<or> (\<exists>code. (TicketError code, x) \<in> set ps \<and> shouldRemoveToken code)"
proof (induction ps arbitrary: acc)
  case (Cons p ps)
  obtain k t where p: "p = (k, t)" by fastforce
  from Cons.IH [of "readTicket p acc"] Cons.prems readTicket_invalid [of k t acc] p show ?case by (auto split: if_splits)
qed simp

text \<open>The token was reported as not registered in the answer to one of the requests.\<close>

definition reportedDead :: "(string list \<Rightarrow> expoTicket list option) \<Rightarrow> string \<Rightarrow> bool" where
  "reportedDead post t \<longleftrightarrow> (\<exists>c tickets. post c = Some tickets \<and> (TicketError (Some ''DeviceNotRegistered''), t) \<in> set (zip tickets c))"

lemma shouldRemove_iff [simp]: "shouldRemoveToken code \<longleftrightarrow> code = Some ''DeviceNotRegistered''"
  by (auto simp: shouldRemoveToken_def REMOVE_TOKEN_ERRORS_def split: option.split)

lemma sendChunks_invalid:
  assumes "fst (sendChunks post cs acc) = Some o'" "t \<in> set (so_invalid o')"
  shows "t \<in> set (so_invalid acc) \<or> reportedDead post t"
  using assms
proof (induction cs arbitrary: acc)
  case (Cons c cs)
  then obtain tickets where t: "post c = Some tickets" by (cases "post c") auto
  with Cons have "t \<in> set (so_invalid (fold readTicket (zip tickets c) acc)) \<or> reportedDead post t" by (simp add: split_beta)
  with fold_invalid [of t "zip tickets c" acc] t show ?case unfolding reportedDead_def by auto
qed simp

lemma sendChunks_sent:
  assumes "fst (sendChunks post cs acc) \<noteq> None"
  shows "snd (sendChunks post cs acc) = concat cs"
  using assms by (induction cs arbitrary: acc) (auto simp: split_beta split: option.splits)

lemma receipts_invalid:
  "t \<in> set (invalidTokensFromReceipts rs ids) \<Longrightarrow> \<exists>i. (i, ReceiptError (Some ''DeviceNotRegistered'')) \<in> set rs \<and> map_of ids i = Some t"
  by (induction rs ids rule: invalidTokensFromReceipts.induct) (auto split: expoReceipt.splits option.splits if_splits)

definition receiptDead :: "(string list \<Rightarrow> (string \<times> expoReceipt) list option) \<Rightarrow> (string \<times> string) list \<Rightarrow> string \<Rightarrow> bool" where
  "receiptDead post ids t \<longleftrightarrow> (\<exists>c receipts i. post c = Some receipts \<and> (i, ReceiptError (Some ''DeviceNotRegistered'')) \<in> set receipts \<and> (i, t) \<in> set ids)"

lemma receiptChunks_invalid:
  assumes "t \<in> set (ro_invalid (receiptChunks post ids cs acc))"
  shows "t \<in> set (ro_invalid acc) \<or> receiptDead post ids t"
  using assms
proof (induction cs arbitrary: acc)
  case (Cons c cs)
  show ?case
  proof (cases "post c")
    case None
    with Cons.prems Cons.IH [of "acc\<lparr>ro_failedChunks := ro_failedChunks acc + 1\<rparr>"] show ?thesis by simp
  next
    case (Some receipts)
    have "receiptDead post ids t" if "t \<in> set (invalidTokensFromReceipts receipts (filter (\<lambda>(i, _). i \<in> set c) ids))"
    proof -
      from receipts_invalid [OF that] obtain i where "(i, ReceiptError (Some ''DeviceNotRegistered'')) \<in> set receipts"
        "map_of (filter (\<lambda>(i, _). i \<in> set c) ids) i = Some t" by blast
      then have "(i, ReceiptError (Some ''DeviceNotRegistered'')) \<in> set receipts" "(i, t) \<in> set ids" by (auto dest!: map_of_SomeD)
      with Some show ?thesis unfolding receiptDead_def by blast
    qed
    with Cons.prems Cons.IH Some show ?thesis by fastforce
  qed
qed simp

section \<open>Properties\<close>

text \<open>
  A notification about a camera reaches everyone who may view it: every active user who may view the
  camera, has not silenced it and does not merely own it as a private one gets it on all devices.
\<close>

theorem push_reaches_viewers:
  assumes "wf_db db" "c \<in> set (db_cameras db)" "u \<in> set users" "u_isActive u"
    and "canViewCamera db \<lparr>user_id = u_id u, user_role = u_role u\<rparr> (cam_id c)" "\<not> ownsPrivate \<lparr>user_id = u_id u, user_role = u_role u\<rparr> c"
    and "\<not> isMutedFor (u_id u) (cam_id c) st" "d \<in> set (ph_devices st)" "pd_userId d = u_id u"
  shows "pd_token d \<in> set (getTokensForCamera users db (Some (cam_id c)) st)"
proof -
  let ?a = "\<lparr>user_id = u_id u, user_role = u_role u\<rparr>"
  have "gateSpec VIEW db ?a c" using view_gate.gate_iff [OF assms(1,2)] assms(5) by simp
  then consider "isPrivileged ?a" | "hasDirect db ?a (cam_id c) VIEW" | "viaGroup db ?a c VIEW"
    using assms(6) by (auto simp: gateSpec_def split: if_splits)
  then have "u_id u \<in> set (privilegedIds users)
      \<or> (\<exists>p\<in>set (db_permissions db). perm_userId p = u_id u \<and> (perm_cameraId p = Some (cam_id c) \<or> (\<exists>g. cam_groupId c = Some g \<and> perm_groupId p = Some g)))"
  proof cases
    case 1
    with assms(3,4) show ?thesis by (auto simp: isPrivileged_def privilegedIds_iff)
  next
    case 2
    then show ?thesis by (auto simp: hasDirect_def list_ex_iff)
  next
    case 3
    then show ?thesis by (fastforce simp: viaGroup_def list_ex_iff split: option.splits)
  qed
  with assms(7-9) show ?thesis unfolding tokensForCamera_iff [OF assms(1,2)] by auto
qed

definition guestRow :: userRow where
  "guestRow = \<lparr>u_id = ''guest'', u_name = ''g'', u_email = ''g'', u_passwordHash = ''h'', u_authVersion = 0,
     u_role = VIEWER, u_isActive = True, u_resetTokenHash = None, u_resetTokenExpiresAt = None\<rparr>"

definition guestPhone :: pushState where
  "guestPhone = \<lparr>ph_devices = [\<lparr>pd_userId = ''guest'', pd_token = ''t1'', pd_platform = None, pd_deviceName = None, pd_lastSeenAt = 0\<rparr>], ph_mutes = []\<rparr>"

theorem push_reaches_viewers_witness: "''t1'' \<in> set (getTokensForCamera [guestRow] sample_db (Some ''private'') guestPhone)"
proof -
  let ?c = "\<lparr>cam_id = ''private'', cam_groupId = Some ''shared'', cam_isPrivate = True, cam_ownerUserId = Some ''owner''\<rparr>"
  let ?d = "\<lparr>pd_userId = ''guest'', pd_token = ''t1'', pd_platform = None, pd_deviceName = None, pd_lastSeenAt = 0\<rparr>"
  have c: "?c \<in> set (db_cameras sample_db)" by (simp add: sample_db_def)
  have v: "canViewCamera sample_db \<lparr>user_id = ''guest'', user_role = VIEWER\<rparr> ''private''" by code_simp
  show ?thesis using push_reaches_viewers [OF sample_db_wf c, of guestRow "[guestRow]" guestPhone ?d] v
    by (simp add: ownsPrivate_def isMutedFor_def guestRow_def guestPhone_def)
qed

text \<open>
  Only a dead token is forgotten. The tokens that a message or the reading of its receipts gives to
  prune were each reported as not registered, in the answer to a request that succeeded, for that very token; a request
  that fails marks none.
\<close>

theorem only_dead_tokens_pruned:
  "(\<forall>out t. fst (sendToTokens post tokens) = Some out \<and> t \<in> set (so_invalid out) \<longrightarrow> reportedDead post t)
   \<and> (\<forall>t. t \<in> set (ro_invalid (fetchReceipts post' ids)) \<longrightarrow> receiptDead post' ids t)
   \<and> (\<forall>d\<in>set (ph_devices st). d \<notin> set (ph_devices (pruneInvalid dead st)) \<longrightarrow> pd_token d \<in> set dead)"
proof (intro conjI allI impI ballI)
  fix out t
  assume "fst (sendToTokens post tokens) = Some out \<and> t \<in> set (so_invalid out)"
  then show "reportedDead post t" using sendChunks_invalid by (fastforce simp: sendToTokens_def Let_def split: if_splits)
next
  fix t assume "t \<in> set (ro_invalid (fetchReceipts post' ids))"
  with receiptChunks_invalid show "receiptDead post' ids t" unfolding fetchReceipts_def by fastforce
next
  fix d assume "d \<in> set (ph_devices st)" "d \<notin> set (ph_devices (pruneInvalid dead st))"
  then show "pd_token d \<in> set dead" by (auto simp: pruneInvalid_def split: if_splits)
qed

theorem only_dead_tokens_pruned_witness:
  "reportedDead (\<lambda>c. Some [TicketError (Some ''DeviceNotRegistered'')]) ''ExpoPushToken[a]''"
proof -
  have "fst (sendToTokens (\<lambda>c. Some [TicketError (Some ''DeviceNotRegistered'')]) [''ExpoPushToken[a]''])
      = Some \<lparr>so_invalid = [''ExpoPushToken[a]''], so_receipts = []\<rparr>"
    by code_simp
  with only_dead_tokens_pruned [of "\<lambda>c. Some [TicketError (Some ''DeviceNotRegistered'')]" "[''ExpoPushToken[a]'']"] show ?thesis by simp
qed

text \<open>
  A message that goes through reaches each valid token once, in requests of at most a hundred.
\<close>

lemma send_complete:
  assumes "fst (sendToTokens post tokens) \<noteq> None"
  shows "snd (sendToTokens post tokens) = js_uniq (filter isExpoPushToken tokens)"
  using assms sendChunks_sent by (auto simp: sendToTokens_def Let_def concat_batches split: if_splits)

text \<open>
  The recipients are wider than the viewers: administrators are told of private cameras that they may not view, and
  so are the members of a group that is suspended and users that are not active any more.
\<close>

lemma push_beyond_viewers:
  assumes "wf_db db" "c \<in> set (db_cameras db)" "cam_isPrivate c" "u \<in> set users" "u_isActive u" "u_role u = ADMIN"
    and "cam_ownerUserId c \<noteq> Some (u_id u)" "\<forall>p\<in>set (db_permissions db). perm_userId p \<noteq> u_id u"
    and "\<not> isMutedFor (u_id u) (cam_id c) st" "d \<in> set (ph_devices st)" "pd_userId d = u_id u"
  shows "\<not> canViewCamera db \<lparr>user_id = u_id u, user_role = u_role u\<rparr> (cam_id c)"
    and "pd_token d \<in> set (getTokensForCamera users db (Some (cam_id c)) st)"
proof -
  show "\<not> canViewCamera db \<lparr>user_id = u_id u, user_role = u_role u\<rparr> (cam_id c)"
    using assms(7,8) by (intro view_gate.private_closed [OF assms(1-3)]) auto
  have "u_id u \<in> set (privilegedIds users)" using assms(4-6) by (auto simp: privilegedIds_iff)
  with assms(9-11) show "pd_token d \<in> set (getTokensForCamera users db (Some (cam_id c)) st)"
    unfolding tokensForCamera_iff [OF assms(1,2)] by auto
qed

end
