(* ===== verification/Alarm_Notify.thy ===== *)
theory Alarm_Notify
  imports Alarms_Props Push_Devices
begin

text \<open>
  Notification of alarms: what the opening of an alarm puts into the queue (\<open>alarms/alarm-notifications.service.ts\<close>),
  the job that delivers it on each channel (\<open>jobs/processors/alarm-notification.processor.ts\<close>) and the later job that
  reads the receipts of the push messages (\<open>jobs/processors/push-receipts.processor.ts\<close>), all under \<open>apps/api/src\<close>.

  \<^item> The policies are what \<open>JSON.parse\<close> makes of their texts: \<open>None\<close> for a blank text, \<open>Some None\<close> for one that is no
    JSON. The delays of the second one are numbers or \<open>null\<close>.
  \<^item> The HTTP client, the mailer and the push service answer by the functions of \<open>deliveryRuntime\<close>: \<open>None\<close> from the
    first two is success, a text the message of the error. The lists \<open>dw_posts\<close>, \<open>dw_mails\<close> and \<open>dw_pushed\<close> of the
    world record what went out. The texts of the messages and the signature of a webhook are left out.
\<close>

section \<open>Plans\<close>

datatype channel = Webhook | Email | Push

fun channelName :: "channel \<Rightarrow> string" where
  "channelName Webhook = ''webhook''"
| "channelName Email = ''email''"
| "channelName Push = ''push''"

definition channelOf :: "string \<Rightarrow> channel option" where
  "channelOf c = (if c = ''webhook'' then Some Webhook else if c = ''email'' then Some Email else if c = ''push'' then Some Push else None)"

fun priorityName :: "alarmPriority \<Rightarrow> string" where
  "priorityName P1 = ''P1''"
| "priorityName P2 = ''P2''"
| "priorityName P3 = ''P3''"
| "priorityName P4 = ''P4''"

fun defaultPlan :: "alarmPriority \<Rightarrow> channel list" where
  "defaultPlan P1 = [Webhook, Email, Push]"
| "defaultPlan P2 = [Webhook, Email, Push]"
| "defaultPlan P3 = [Webhook, Push]"
| "defaultPlan P4 = [Webhook, Push]"

text \<open>\<open>parsed[key]\<close>, with \<open>null\<close> counted as missing.\<close>

definition policyField :: "json \<Rightarrow> string \<Rightarrow> json option" where
  "policyField j key = (case j of JObj fs \<Rightarrow> (case map_of fs key of Some JNull \<Rightarrow> None | x \<Rightarrow> x) | _ \<Rightarrow> None)"

definition jsonStrings :: "json \<Rightarrow> string list option" where
  "jsonStrings j =
     (case j of
        JArr vs \<Rightarrow> if list_all (\<lambda>v. case v of JStr _ \<Rightarrow> True | _ \<Rightarrow> False) vs then Some (map (\<lambda>v. case v of JStr s \<Rightarrow> s | _ \<Rightarrow> []) vs) else None
      | _ \<Rightarrow> None)"

definition normalizedPlan :: "string list \<Rightarrow> channel list" where
  "normalizedPlan names =
     (let normalized = List.map_filter (\<lambda>c. channelOf (js_trim (js_lower c))) names in
      if Push \<in> set normalized then normalized else normalized @ [Push])"

definition resolveChannelPlan :: "json option option \<Rightarrow> alarmPriority \<Rightarrow> channel list" where
  "resolveChannelPlan policy priority =
     (case policy of
        None \<Rightarrow> defaultPlan priority
      | Some None \<Rightarrow> defaultPlan priority
      | Some (Some parsed) \<Rightarrow>
          if parsed = JNull then defaultPlan priority
          else
            let chosen = (case policyField parsed (priorityName priority) of
                 Some x \<Rightarrow> x
               | None \<Rightarrow> (case policyField parsed ''P4'' of Some x \<Rightarrow> x | None \<Rightarrow> JArr (map (\<lambda>c. JStr (channelName c)) (defaultPlan P4))))
            in case jsonStrings chosen of None \<Rightarrow> defaultPlan priority | Some names \<Rightarrow> normalizedPlan names)"

fun defaultDelay :: "alarmPriority \<Rightarrow> rat" where
  "defaultDelay P1 = 0"
| "defaultDelay P2 = 15000"
| "defaultDelay P3 = 60000"
| "defaultDelay P4 = 180000"

definition delayField :: "(string \<times> rat option) list \<Rightarrow> string \<Rightarrow> rat option" where
  "delayField fs key = (case map_of fs key of None \<Rightarrow> None | Some x \<Rightarrow> x)"

definition resolveEscalationDelayMs :: "(string \<times> rat option) list option option \<Rightarrow> alarmPriority \<Rightarrow> rat" where
  "resolveEscalationDelayMs raw priority =
     (case raw of
        Some (Some parsed) \<Rightarrow>
          (let v = (case delayField parsed (priorityName priority) of
                 Some x \<Rightarrow> x | None \<Rightarrow> (case delayField parsed ''P4'' of Some x \<Rightarrow> x | None \<Rightarrow> defaultDelay P4))
           in if 0 \<le> v then v else defaultDelay priority)
      | _ \<Rightarrow> defaultDelay priority)"

section \<open>The queue\<close>

record notifyConfig =
  nc_policy :: "json option option"
  nc_escalation :: "(string \<times> rat option) list option option"
  nc_delayMs :: rat
  nc_suppressSeconds :: int

record notifyJob =
  nj_id :: string
  nj_alarmId :: string
  nj_ruleId :: "string option"
  nj_channels :: "channel list"
  nj_delayMs :: rat

text \<open>The keys of the Redis server with their expiry, and the queue: each job with the instant and the key it was put under.\<close>

record notifyState =
  nf_suppress :: "(string \<times> int) list"
  nf_jobs :: "(int \<times> string \<times> notifyJob) list"

definition show_int :: "int \<Rightarrow> string" where
  "show_int x = (if x < 0 then CHR ''-'' # show_nat (nat (- x)) else show_nat (nat x))"

definition buildJobId :: "alarmInstance \<Rightarrow> string" where
  "buildJobId a = ''alarm-notify-'' @ al_id a @ ''-'' @ show_nat (al_occurrenceCount a) @ ''-'' @ show_int (al_lastOccurredAt a)"

definition suppressionKey :: "alarmInstance \<Rightarrow> string" where
  "suppressionKey a = ''alarm:notif:suppress:'' @ al_type a @ '':'' @ priorityName (al_priority a) @ '':''
     @ (case al_cameraId a of None \<Rightarrow> ''none'' | Some c \<Rightarrow> c)"

definition openJob :: "notifyConfig \<Rightarrow> alarmInstance \<Rightarrow> string option \<Rightarrow> notifyJob" where
  "openJob cfg a ruleId =
     (let delayMs = max (nc_delayMs cfg) (resolveEscalationDelayMs (nc_escalation cfg) (al_priority a)) in
      \<lparr>nj_id = buildJobId a, nj_alarmId = al_id a, nj_ruleId = ruleId, nj_channels = resolveChannelPlan (nc_policy cfg) (al_priority a),
       nj_delayMs = (if 0 < delayMs then delayMs else 0)\<rparr>)"

definition keyHeld :: "string \<Rightarrow> int \<Rightarrow> notifyState \<Rightarrow> bool" where
  "keyHeld key now st = (case map_of (nf_suppress st) key of None \<Rightarrow> False | Some t \<Rightarrow> now < t)"

definition holdKey :: "string \<Rightarrow> int \<Rightarrow> int \<Rightarrow> notifyState \<Rightarrow> notifyState" where
  "holdKey key now seconds st = st\<lparr>nf_suppress := AList.update key (now + seconds * 1000) (nf_suppress st)\<rparr>"

definition enqueue :: "bool \<Rightarrow> int \<Rightarrow> string \<Rightarrow> notifyJob \<Rightarrow> notifyState \<Rightarrow> notifyState" where
  "enqueue queueOk now key job st = (if queueOk then st\<lparr>nf_jobs := nf_jobs st @ [(now, key, job)]\<rparr> else st)"

definition notifyOnOpen :: "notifyConfig \<Rightarrow> bool \<Rightarrow> int \<Rightarrow> alarmInstance \<Rightarrow> string option \<Rightarrow> notifyState \<Rightarrow> notifyState" where
  "notifyOnOpen cfg queueOk now a ruleId st =
     (let key = suppressionKey a; job = openJob cfg a ruleId in
      if 0 < nc_suppressSeconds cfg
      then if keyHeld key now st then st
           else enqueue queueOk now key job (holdKey key now (nc_suppressSeconds cfg) st)
      else enqueue queueOk now key job st)"

section \<open>Delivery\<close>

record deliveryRuntime =
  dr_webhook :: webhookRuntime
  dr_post :: "string \<Rightarrow> string option"
  dr_smtpHost :: string
  dr_smtpUser :: string
  dr_smtpPass :: string
  dr_emailFrom :: "string option"
  dr_mail :: "string \<Rightarrow> string option"
  dr_push :: "string list \<Rightarrow> expoTicket list option"
  dr_pushError :: string
  dr_receipts :: "string list \<Rightarrow> (string \<times> expoReceipt) list option"
  dr_receiptQueueOk :: bool
  dr_users :: "userRow list"
  dr_db :: accessDb

record deliveryWorld =
  dw_alarms :: alarmState
  dw_push :: pushState
  dw_posts :: "(string \<times> string) list"
  dw_mails :: "(string \<times> string) list"
  dw_pushed :: "(string \<times> string) list"
  dw_receiptJobs :: "((string \<times> string) list \<times> string) list"
  dw_audit :: "(string \<times> channel \<times> string) list"

datatype channelResult = Skipped string | Sent | Thrown string

text \<open>The fields of \<open>alarm.metadata\<close> and the list under \<open>notificationDelivery\<close> of them.\<close>

definition deliveriesOf :: "json \<Rightarrow> json list" where
  "deliveriesOf m = (case map_of (spreadFields m) ''notificationDelivery'' of Some (JArr ds) \<Rightarrow> ds | _ \<Rightarrow> [])"

record deliveryEntry =
  de_at :: string
  de_channel :: channel
  de_status :: string
  de_reason :: "string option"
  de_jobId :: string
  de_attempt :: int

definition entryJson :: "deliveryEntry \<Rightarrow> json" where
  "entryJson e = JObj [(''at'', JStr (de_at e)), (''channel'', JStr (channelName (de_channel e))), (''status'', JStr (de_status e)),
     (''reason'', jsonText (de_reason e)), (''jobId'', JStr (de_jobId e)), (''attempt'', JNum (of_int (de_attempt e)))]"

definition withDelivery :: "deliveryEntry \<Rightarrow> json \<Rightarrow> json" where
  "withDelivery e m =
     (let ds = deliveriesOf m @ [entryJson e] in
      JObj (AList.update ''lastNotificationAt'' (JStr (de_at e)) (AList.update ''lastNotificationStatus'' (JStr (de_status e))
        (AList.update ''notificationDelivery'' (JArr (drop (length ds - 30) ds)) (spreadFields m)))))"

definition appendDelivery :: "string \<Rightarrow> deliveryEntry \<Rightarrow> alarmState \<Rightarrow> alarmState" where
  "appendDelivery alarmId e st = snd (updateAlarm alarmId (\<lambda>a. a\<lparr>al_metadata := withDelivery e (al_metadata a)\<rparr>) st)"

definition webhookOf :: "deliveryRuntime \<Rightarrow> alarmRule option \<Rightarrow> string" where
  "webhookOf rt rule =
     js_trim (case (case rule of None \<Rightarrow> None | Some r \<Rightarrow> trimmedNote (ru_webhookUrl r)) of
        Some url \<Rightarrow> url | None \<Rightarrow> wh_defaultUrl (dr_webhook rt))"

definition notifyWebhook :: "deliveryRuntime \<Rightarrow> alarmInstance \<Rightarrow> alarmRule option \<Rightarrow> deliveryWorld \<Rightarrow> channelResult \<times> deliveryWorld" where
  "notifyWebhook rt a rule w =
     (let webhook = webhookOf rt rule; wh = dr_webhook rt in
      if webhook = [] then (Skipped ''webhook_not_configured'', w)
      else case wh_parseUrl wh webhook of
        None \<Rightarrow> (Thrown ''Invalid URL'', w)
      | Some parsed \<Rightarrow>
          if pu_protocol parsed \<noteq> ''http:'' \<and> pu_protocol parsed \<noteq> ''https:'' then (Skipped ''webhook_invalid_protocol'', w)
          else let allowlist = getWebhookAllowlist wh; host = js_lower (js_trim (pu_hostname parsed)) in
            if allowlist = [] \<or> \<not> isAllowedHost host allowlist then (Skipped ''webhook_host_not_allowed'', w)
            else if isPrivateOrReservedIp (wh_isIP wh) host then (Skipped ''webhook_private_host_blocked'', w)
            else if list_ex (isPrivateOrReservedIp (wh_isIP wh)) (wh_resolve wh host) then (Skipped ''webhook_private_resolution_blocked'', w)
            else (case dr_post rt webhook of None \<Rightarrow> Sent | Some message \<Rightarrow> Thrown message, w\<lparr>dw_posts := dw_posts w @ [(webhook, al_id a)]\<rparr>))"

definition notifyEmail :: "deliveryRuntime \<Rightarrow> alarmInstance \<Rightarrow> alarmRule option \<Rightarrow> deliveryWorld \<Rightarrow> channelResult \<times> deliveryWorld" where
  "notifyEmail rt a rule w =
     (case (case rule of None \<Rightarrow> None | Some r \<Rightarrow> trimmedNote (ru_emailTo r)) of
        None \<Rightarrow> (Skipped ''email_not_configured'', w)
      | Some emailTo \<Rightarrow>
          let sender = (case dr_emailFrom rt of None \<Rightarrow> dr_smtpUser rt | Some f \<Rightarrow> f) in
          if dr_smtpHost rt = [] \<or> sender = [] \<or> dr_smtpUser rt = [] \<or> dr_smtpPass rt = [] then (Skipped ''smtp_not_fully_configured'', w)
          else (case dr_mail rt emailTo of None \<Rightarrow> Sent | Some message \<Rightarrow> Thrown message, w\<lparr>dw_mails := dw_mails w @ [(emailTo, al_id a)]\<rparr>))"

definition notifyPush :: "deliveryRuntime \<Rightarrow> alarmInstance \<Rightarrow> deliveryWorld \<Rightarrow> channelResult \<times> deliveryWorld" where
  "notifyPush rt a w =
     (let tokens = getTokensForCamera (dr_users rt) (dr_db rt) (al_cameraId a) (dw_push w) in
      if tokens = [] then (Skipped ''no_registered_devices'', w)
      else let (r, sent) = sendToTokens (dr_push rt) tokens; w1 = w\<lparr>dw_pushed := dw_pushed w @ map (\<lambda>t. (t, al_id a)) sent\<rparr> in
        case r of
          None \<Rightarrow> (Thrown (dr_pushError rt), w1)
        | Some out \<Rightarrow>
            (Sent, w1\<lparr>dw_push := pruneInvalid (so_invalid out) (dw_push w1),
                      dw_receiptJobs := (if so_receipts out \<noteq> [] \<and> dr_receiptQueueOk rt
                         then dw_receiptJobs w1 @ [(so_receipts out, al_id a)] else dw_receiptJobs w1)\<rparr>))"

definition notifyChannel :: "deliveryRuntime \<Rightarrow> alarmInstance \<Rightarrow> alarmRule option \<Rightarrow> channel \<Rightarrow> deliveryWorld \<Rightarrow> channelResult \<times> deliveryWorld" where
  "notifyChannel rt a rule ch =
     (case ch of Webhook \<Rightarrow> notifyWebhook rt a rule | Email \<Rightarrow> notifyEmail rt a rule | Push \<Rightarrow> notifyPush rt a)"

fun statusOf :: "channel \<Rightarrow> channelResult \<Rightarrow> string" where
  "statusOf ch (Skipped _) = ''SKIPPED''"
| "statusOf ch (Thrown _) = ''FAILED''"
| "statusOf ch Sent = (if ch = Push then ''ACCEPTED'' else ''DELIVERED'')"

fun reasonOf :: "channelResult \<Rightarrow> string option" where
  "reasonOf (Skipped r) = Some r"
| "reasonOf (Thrown m) = Some m"
| "reasonOf Sent = None"

definition recordDelivery :: "int \<Rightarrow> string \<Rightarrow> int \<Rightarrow> string \<Rightarrow> channel \<Rightarrow> channelResult \<Rightarrow> deliveryWorld \<Rightarrow> deliveryWorld" where
  "recordDelivery now jobId attemptsMade alarmId ch r w =
     w\<lparr>dw_alarms := appendDelivery alarmId \<lparr>de_at = iso_string now, de_channel = ch, de_status = statusOf ch r, de_reason = reasonOf r,
           de_jobId = jobId, de_attempt = attemptsMade + 1\<rparr> (dw_alarms w),
       dw_audit := dw_audit w @ [(alarmId, ch, statusOf ch r)]\<rparr>"

text \<open>The loop over the channels: the message of the error that fails the job, if one does.\<close>

fun deliverAll ::
    "deliveryRuntime \<Rightarrow> int \<Rightarrow> string \<Rightarrow> int \<Rightarrow> alarmInstance \<Rightarrow> alarmRule option \<Rightarrow> channel list \<Rightarrow> deliveryWorld
     \<Rightarrow> string option \<times> deliveryWorld" where
  "deliverAll rt now jobId n a rule [] w = (None, w)"
| "deliverAll rt now jobId n a rule (ch # chs) w =
     (let (r, w1) = notifyChannel rt a rule ch w; w2 = recordDelivery now jobId n (al_id a) ch r w1 in
      case r of
        Thrown message \<Rightarrow> if ch = Webhook then (Some message, w2) else deliverAll rt now jobId n a rule chs w2
      | _ \<Rightarrow> deliverAll rt now jobId n a rule chs w2)"

definition processJob :: "deliveryRuntime \<Rightarrow> int \<Rightarrow> int \<Rightarrow> notifyJob \<Rightarrow> deliveryWorld \<Rightarrow> string option \<times> deliveryWorld" where
  "processJob rt now attemptsMade job w =
     (case findAlarm (nj_alarmId job) (dw_alarms w) of
        None \<Rightarrow> (None, w)
      | Some a \<Rightarrow>
          let rule = (case nj_ruleId job of None \<Rightarrow> None | Some i \<Rightarrow> if i = [] then None else find (\<lambda>r. ru_id r = i) (am_rules (dw_alarms w)));
              channels = (if nj_channels job \<noteq> [] then nj_channels job else [Webhook, Email, Push])
          in deliverAll rt now (nj_id job) attemptsMade a rule channels w)"

section \<open>Receipts\<close>

definition withOutcome :: "json \<Rightarrow> json \<Rightarrow> json" where
  "withOutcome entry m = JObj (AList.update ''notificationDelivery'' (JArr (deliveriesOf m @ [entry])) (spreadFields m))"

definition appendPushOutcome :: "string \<Rightarrow> json \<Rightarrow> alarmState \<Rightarrow> alarmState" where
  "appendPushOutcome alarmId entry st = snd (updateAlarm alarmId (\<lambda>a. a\<lparr>al_metadata := withOutcome entry (al_metadata a)\<rparr>) st)"

definition outcomeEntry :: "int \<Rightarrow> string \<Rightarrow> receiptsOutcome \<Rightarrow> json" where
  "outcomeEntry now jobId out = JObj [(''at'', JStr (iso_string now)), (''channel'', JStr ''push''),
     (''status'', JStr (if 0 < ro_ok out then ''DELIVERED'' else ''FAILED'')),
     (''reason'', if 0 < ro_errors out then JStr (show_nat (ro_errors out) @ '' receipt(s) com erro'') else JNull),
     (''stage'', JStr ''receipt''), (''jobId'', JStr jobId)]"

text \<open>The flag says that the job fails, so that the queue runs it again.\<close>

definition processReceipts ::
    "deliveryRuntime \<Rightarrow> int \<Rightarrow> string \<Rightarrow> (string \<times> string) list \<Rightarrow> string option \<Rightarrow> deliveryWorld \<Rightarrow> bool \<times> deliveryWorld" where
  "processReceipts rt now jobId receiptIds alarmId w =
     (if receiptIds = [] then (False, w)
      else
        let out = fetchReceipts (dr_receipts rt) receiptIds;
            w1 = w\<lparr>dw_push := pruneInvalid (ro_invalid out) (dw_push w)\<rparr>;
            w2 = (case alarmId of
                None \<Rightarrow> w1
              | Some i \<Rightarrow> if i \<noteq> [] \<and> (0 < ro_ok out \<or> 0 < ro_errors out)
                  then w1\<lparr>dw_alarms := appendPushOutcome i (outcomeEntry now jobId out) (dw_alarms w1)\<rparr> else w1)
        in (0 < ro_failedChunks out, w2))"

end
