(* ===== verification/Alarm_Notify_Props.thy ===== *)
theory Alarm_Notify_Props
  imports Alarm_Notify
begin

text \<open>
  Properties of the notifications: the plan of channels, the pause between two notifications of a kind, what a delivery
  attempts and records, where a webhook may go, and that a delivery keeps the table of the alarms.
\<close>

section \<open>A sample\<close>

definition sampleConfig :: notifyConfig where
  "sampleConfig = \<lparr>nc_policy = None, nc_escalation = None, nc_delayMs = 0, nc_suppressSeconds = 300\<rparr>"

definition sampleAlarm :: alarmInstance where
  "sampleAlarm = newAlarm ''a1'' sampleEvent SRC_STREAM sampleRule"

definition sampleRuntime :: deliveryRuntime where
  "sampleRuntime = \<lparr>dr_webhook = \<lparr>wh_parseUrl = (\<lambda>u. if u = ''https://hooks.example/x''
         then Some \<lparr>pu_protocol = ''https:'', pu_hostname = ''hooks.example'', pu_text = u\<rparr> else None),
       wh_resolve = (\<lambda>_. [''8.8.8.8'']), wh_isIP = (\<lambda>s. if s = ''8.8.8.8'' then 4 else 0), wh_allowedHosts = [], wh_defaultUrl = ''https://hooks.example/x''\<rparr>,
     dr_post = (\<lambda>_. Some ''timeout''), dr_smtpHost = [], dr_smtpUser = [], dr_smtpPass = [], dr_emailFrom = None, dr_mail = (\<lambda>_. None),
     dr_push = (\<lambda>_. None), dr_pushError = ''down'', dr_receipts = (\<lambda>_. None), dr_receiptQueueOk = True,
     dr_users = [], dr_db = \<lparr>db_cameras = [], db_groups = [], db_permissions = []\<rparr>\<rparr>"

definition sampleJob :: notifyJob where
  "sampleJob = \<lparr>nj_id = ''j1'', nj_alarmId = ''a1'', nj_ruleId = None, nj_channels = [Webhook, Push], nj_delayMs = 0\<rparr>"

definition sampleWorld :: deliveryWorld where
  "sampleWorld = \<lparr>dw_alarms = sampleAlarms\<lparr>am_alarms := [sampleAlarm]\<rparr>, dw_push = \<lparr>ph_devices = [], ph_mutes = []\<rparr>,
     dw_posts = [], dw_mails = [], dw_pushed = [], dw_receiptJobs = [], dw_audit = []\<rparr>"

section \<open>The queue\<close>

lemma defaultPlan_push: "Push \<in> set (defaultPlan p)"
  by (cases p) simp_all

lemma normalizedPlan_push: "Push \<in> set (normalizedPlan names)"
  by (simp add: normalizedPlan_def Let_def)

lemma plan_push: "Push \<in> set (resolveChannelPlan policy p)"
  by (auto simp: resolveChannelPlan_def Let_def defaultPlan_push normalizedPlan_push split: option.split)

text \<open>A run of the notifications with a clock that does not go back.\<close>

inductive notifyRun :: "notifyConfig \<Rightarrow> int \<Rightarrow> notifyState \<Rightarrow> bool" for cfg where
  start: "notifyRun cfg t \<lparr>nf_suppress = [], nf_jobs = []\<rparr>"
| alarm: "notifyRun cfg t st \<Longrightarrow> t \<le> now \<Longrightarrow> notifyRun cfg now (notifyOnOpen cfg queueOk now a ruleId st)"

text \<open>Every job's key is held for the whole pause after it, and two jobs of a key are a pause apart.\<close>

definition pauseOk :: "int \<Rightarrow> notifyState \<Rightarrow> bool" where
  "pauseOk pause st \<longleftrightarrow>
     (\<forall>(t, key, job)\<in>set (nf_jobs st). \<exists>e. map_of (nf_suppress st) key = Some e \<and> t + pause \<le> e)
     \<and> sorted_wrt (\<lambda>(t, key, _) (t', key', _). key = key' \<longrightarrow> t + pause \<le> t') (nf_jobs st)"

lemma pauseOk_notify:
  assumes "pauseOk (nc_suppressSeconds cfg * 1000) st" "0 < nc_suppressSeconds cfg"
  shows "pauseOk (nc_suppressSeconds cfg * 1000) (notifyOnOpen cfg queueOk now a ruleId st)"
proof (cases "keyHeld (suppressionKey a) now st")
  case True
  with assms show ?thesis by (simp add: notifyOnOpen_def)
next
  case False
  let ?k = "suppressionKey a" and ?p = "nc_suppressSeconds cfg * 1000"
  let ?j = "(now, ?k, openJob cfg a ruleId)"
  let ?s = "AList.update ?k (now + ?p) (nf_suppress st)"
  have early: "t + ?p \<le> now" if "(t, ?k, job) \<in> set (nf_jobs st)" for t job
    using assms(1) that False by (fastforce simp: pauseOk_def keyHeld_def split: option.splits)
  have held: "\<exists>e. map_of ?s key = Some e \<and> t + ?p \<le> e" if "(t, key, job) \<in> set (nf_jobs st)" for t key job
  proof (cases "key = ?k")
    case True
    with early [of t job] that assms(2) show ?thesis by (simp add: update_conv')
  next
    case False
    with assms(1) that show ?thesis by (auto simp: pauseOk_def update_conv')
  qed
  have "sorted_wrt (\<lambda>(t, key, _) (t', key', _). key = key' \<longrightarrow> t + ?p \<le> t') (nf_jobs st)" using assms(1) by (simp add: pauseOk_def)
  with early have sorted: "sorted_wrt (\<lambda>(t, key, _) (t', key', _). key = key' \<longrightarrow> t + ?p \<le> t') (nf_jobs st @ [?j])"
    by (auto simp: sorted_wrt_append)
  have st': "notifyOnOpen cfg queueOk now a ruleId st = (if queueOk then st\<lparr>nf_suppress := ?s, nf_jobs := nf_jobs st @ [?j]\<rparr> else st\<lparr>nf_suppress := ?s\<rparr>)"
    using False assms(2) by (simp add: notifyOnOpen_def Let_def enqueue_def holdKey_def)
  show ?thesis
  proof (cases queueOk)
    case True
    with st' sorted held show ?thesis by (auto simp: pauseOk_def update_conv')
  next
    case False
    with st' assms(1) held show ?thesis by (auto simp: pauseOk_def)
  qed
qed

text \<open>
  Property C31. Notifications of a kind keep their distance. In any run, two notifications for the same type of event,
  priority and camera are put into the queue at least the configured pause apart, and every one of them carries the
  push channel.
\<close>

theorem notifications_spaced:
  assumes "notifyRun cfg t st" "0 < nc_suppressSeconds cfg" "i < j" "j < length (nf_jobs st)"
    and "nf_jobs st ! i = (ti, key, job)" "nf_jobs st ! j = (tj, key, job')"
  shows "ti + nc_suppressSeconds cfg * 1000 \<le> tj \<and> Push \<in> set (nj_channels job) \<and> Push \<in> set (nj_channels job')"
proof -
  have "pauseOk (nc_suppressSeconds cfg * 1000) st"
    using assms(1)
  proof (induction rule: notifyRun.induct)
    case (alarm t st now queueOk a ruleId)
    with pauseOk_notify assms(2) show ?case by blast
  qed (simp add: pauseOk_def)
  then have "sorted_wrt (\<lambda>(t, key, _) (t', key', _). key = key' \<longrightarrow> t + nc_suppressSeconds cfg * 1000 \<le> t') (nf_jobs st)"
    by (simp add: pauseOk_def)
  with sorted_wrt_nth_less [OF this assms(3,4)] assms(5,6) have "ti + nc_suppressSeconds cfg * 1000 \<le> tj" by simp
  moreover have "\<forall>(_, _, job)\<in>set (nf_jobs st). Push \<in> set (nj_channels job)"
    using assms(1)
    by (induction rule: notifyRun.induct)
      (auto simp: notifyOnOpen_def Let_def enqueue_def holdKey_def openJob_def plan_push)
  then have "Push \<in> set (nj_channels job)" "Push \<in> set (nj_channels job')"
    using assms(3-6) nth_mem [of i "nf_jobs st"] nth_mem [of j "nf_jobs st"] by fastforce+
  ultimately show ?thesis by blast
qed

theorem notifications_spaced_witness:
  "\<exists>job job'. nf_jobs (notifyOnOpen sampleConfig True 400000 sampleAlarm None (notifyOnOpen sampleConfig True 0 sampleAlarm None \<lparr>nf_suppress = [], nf_jobs = []\<rparr>))
      = [(0, suppressionKey sampleAlarm, job), (400000, suppressionKey sampleAlarm, job')] \<and> Push \<in> set (nj_channels job)"
proof -
  let ?st = "notifyOnOpen sampleConfig True 400000 sampleAlarm None (notifyOnOpen sampleConfig True 0 sampleAlarm None \<lparr>nf_suppress = [], nf_jobs = []\<rparr>)"
  let ?k = "suppressionKey sampleAlarm" and ?j = "openJob sampleConfig sampleAlarm None"
  have run: "notifyRun sampleConfig 400000 ?st" by (intro notifyRun.alarm [OF notifyRun.alarm [OF notifyRun.start [of _ 0]]]) simp_all
  have jobs: "nf_jobs ?st = [(0, ?k, ?j), (400000, ?k, ?j)]"
    by (simp add: notifyOnOpen_def Let_def keyHeld_def enqueue_def holdKey_def sampleConfig_def)
  have "Push \<in> set (nj_channels ?j)"
    using notifications_spaced [OF run, of 0 1] unfolding jobs by (simp add: sampleConfig_def)
  with jobs show ?thesis by blast
qed

text \<open>
  A queue that is down still uses up the pause: the alarm was not announced, and the next one of its kind within the
  pause is not announced either.
\<close>

lemma queue_failure_silences:
  assumes "0 < nc_suppressSeconds cfg" "\<not> keyHeld (suppressionKey a) now st" "suppressionKey b = suppressionKey a"
    and "now \<le> later" "later < now + nc_suppressSeconds cfg * 1000"
  shows "nf_jobs (notifyOnOpen cfg True later b r (notifyOnOpen cfg False now a r st)) = nf_jobs st"
proof -
  let ?st = "notifyOnOpen cfg False now a r st"
  have st: "?st = holdKey (suppressionKey a) now (nc_suppressSeconds cfg) st" using assms(1,2) by (simp add: notifyOnOpen_def Let_def enqueue_def)
  then have "keyHeld (suppressionKey b) later ?st" using assms(3,5) by (simp add: keyHeld_def holdKey_def update_conv')
  then have "notifyOnOpen cfg True later b r ?st = ?st" using assms(1) by (simp add: notifyOnOpen_def)
  with st show ?thesis by (simp add: holdKey_def)
qed

section \<open>Delivery\<close>

text \<open>What a channel leaves alone.\<close>

lemma channel_frame:
  assumes "notifyChannel rt a rule ch w = (r, w')"
  shows "dw_alarms w' = dw_alarms w" "dw_audit w' = dw_audit w" "ch \<noteq> Push \<Longrightarrow> dw_pushed w' = dw_pushed w"
    "ch \<noteq> Webhook \<Longrightarrow> dw_posts w' = dw_posts w"
  using assms
  by (cases ch; auto simp: notifyChannel_def notifyWebhook_def notifyEmail_def notifyPush_def Let_def
      split: option.splits if_splits prod.splits)+

text \<open>Where a webhook may go.\<close>

definition webhookAllowed :: "webhookRuntime \<Rightarrow> string \<Rightarrow> bool" where
  "webhookAllowed wh url =
     (case wh_parseUrl wh url of
        None \<Rightarrow> False
      | Some parsed \<Rightarrow>
          (let host = js_lower (js_trim (pu_hostname parsed)) in
           (pu_protocol parsed = ''http:'' \<or> pu_protocol parsed = ''https:'')
           \<and> getWebhookAllowlist wh \<noteq> [] \<and> isAllowedHost host (getWebhookAllowlist wh)
           \<and> \<not> isPrivateOrReservedIp (wh_isIP wh) host \<and> (\<forall>ip\<in>set (wh_resolve wh host). \<not> isPrivateOrReservedIp (wh_isIP wh) ip)))"

lemma webhook_posts:
  assumes "notifyWebhook rt a rule w = (r, w')"
  shows "dw_posts w' = dw_posts w \<or> (dw_posts w' = dw_posts w @ [(webhookOf rt rule, al_id a)] \<and> webhookAllowed (dr_webhook rt) (webhookOf rt rule))"
proof (cases "dw_posts w' = dw_posts w")
  case False
  let ?wh = "dr_webhook rt" and ?url = "webhookOf rt rule"
  obtain parsed where p: "wh_parseUrl ?wh ?url = Some parsed"
    using False assms by (cases "wh_parseUrl ?wh ?url") (auto simp: notifyWebhook_def Let_def split: if_splits)
  define host where "host = js_lower (js_trim (pu_hostname parsed))"
  have "pu_protocol parsed = ''http:'' \<or> pu_protocol parsed = ''https:''" "getWebhookAllowlist ?wh \<noteq> []"
    "isAllowedHost host (getWebhookAllowlist ?wh)" "\<not> isPrivateOrReservedIp (wh_isIP ?wh) host"
    "\<not> list_ex (isPrivateOrReservedIp (wh_isIP ?wh)) (wh_resolve ?wh host)" "dw_posts w' = dw_posts w @ [(?url, al_id a)]"
    using False assms p by (auto simp: notifyWebhook_def Let_def host_def split: if_splits)
  then show ?thesis unfolding webhookAllowed_def p by (simp add: host_def Let_def list_ex_iff)
qed simp

lemma deliver_step:
  assumes "notifyChannel rt a rule ch w = (r, w1)"
  shows "deliverAll rt now jobId n a rule (ch # chs) w =
    (if ch = Webhook \<and> (\<exists>m. r = Thrown m) then (reasonOf r, recordDelivery now jobId n (al_id a) ch r w1)
     else deliverAll rt now jobId n a rule chs (recordDelivery now jobId n (al_id a) ch r w1))"
  using assms by (auto simp: Let_def split: channelResult.split)

declare deliverAll.simps(2) [simp del]

lemma recordDelivery_frame [simp]:
  "dw_pushed (recordDelivery now j n i ch r w) = dw_pushed w" "dw_posts (recordDelivery now j n i ch r w) = dw_posts w"
  "dw_audit (recordDelivery now j n i ch r w) = dw_audit w @ [(i, ch, statusOf ch r)]"
  by (simp_all add: recordDelivery_def)

lemma deliverAll_posts:
  "(url, i) \<in> set (dw_posts (snd (deliverAll rt now jobId n a rule chs w))) \<Longrightarrow>
    (url, i) \<in> set (dw_posts w) \<or> webhookAllowed (dr_webhook rt) url"
proof (induction chs arbitrary: w)
  case (Cons ch chs)
  obtain r w1 where c: "notifyChannel rt a rule ch w = (r, w1)" by fastforce
  have w1: "(url, i) \<in> set (dw_posts w1) \<Longrightarrow> (url, i) \<in> set (dw_posts w) \<or> webhookAllowed (dr_webhook rt) url"
    using c webhook_posts [of rt a rule w r w1] channel_frame(4) [OF c] by (cases ch) (auto simp: notifyChannel_def)
  with Cons.prems Cons.IH [of "recordDelivery now jobId n (al_id a) ch r w1"] show ?case
    unfolding deliver_step [OF c] by (auto split: if_splits)
qed simp

text \<open>A delivery keeps the table of the alarms: identities, counts and states.\<close>

lemma appendDelivery_action: "alarmAction st (appendDelivery i e st)"
  unfolding appendDelivery_def by (rule updateAlarm_action) (simp_all add: keepsAlarm_def alarmOk_def cong: alarmStatus.case_cong)

lemma appendPushOutcome_action: "alarmAction st (appendPushOutcome i e st)"
  unfolding appendPushOutcome_def by (rule updateAlarm_action) (simp_all add: keepsAlarm_def alarmOk_def cong: alarmStatus.case_cong)

lemma deliverAll_action: "alarmAction (dw_alarms w) (dw_alarms (snd (deliverAll rt now jobId n a rule chs w)))"
proof (induction chs arbitrary: w)
  case (Cons ch chs)
  obtain r w1 where c: "notifyChannel rt a rule ch w = (r, w1)" by fastforce
  have "alarmAction (dw_alarms w) (dw_alarms (recordDelivery now jobId n (al_id a) ch r w1))"
    using channel_frame(1) [OF c] appendDelivery_action [of "dw_alarms w"] by (simp add: recordDelivery_def)
  with Cons.IH show ?case unfolding deliver_step [OF c] by (auto intro: alarmAction_trans)
qed simp

lemma processReceipts_action: "alarmAction (dw_alarms w) (dw_alarms (snd (processReceipts rt now jobId ids alarmId w)))"
  by (auto simp: processReceipts_def Let_def appendPushOutcome_action split: option.split)

lemma processJob_action: "alarmAction (dw_alarms w) (dw_alarms (snd (processJob rt now n job w)))"
  by (auto simp: processJob_def Let_def deliverAll_action split: option.split)

text \<open>What a delivery attempts: the channels in their order, up to a webhook that fails.\<close>

lemma deliverAll_attempts:
  "\<exists>k rs. k \<le> length chs \<and> length rs = k
     \<and> dw_audit (snd (deliverAll rt now jobId n a rule chs w)) = dw_audit w @ map (\<lambda>(ch, r). (al_id a, ch, statusOf ch r)) (zip (take k chs) rs)
     \<and> (if fst (deliverAll rt now jobId n a rule chs w) = None then k = length chs
        else 0 < k \<and> chs ! (k - 1) = Webhook \<and> (\<exists>m. rs ! (k - 1) = Thrown m))"
proof (induction chs arbitrary: w)
  case (Cons ch chs)
  obtain r w1 where c: "notifyChannel rt a rule ch w = (r, w1)" by fastforce
  let ?w2 = "recordDelivery now jobId n (al_id a) ch r w1"
  show ?case
  proof (cases "ch = Webhook \<and> (\<exists>m. r = Thrown m)")
    case True
    then show ?thesis unfolding deliver_step [OF c] using channel_frame(2) [OF c]
      by (intro exI [of _ 1] exI [of _ "[r]"]) auto
  next
    case False
    from Cons.IH [of ?w2] obtain k rs where k: "k \<le> length chs" "length rs = k"
      "dw_audit (snd (deliverAll rt now jobId n a rule chs ?w2)) = dw_audit ?w2 @ map (\<lambda>(ch, r). (al_id a, ch, statusOf ch r)) (zip (take k chs) rs)"
      "if fst (deliverAll rt now jobId n a rule chs ?w2) = None then k = length chs else 0 < k \<and> chs ! (k - 1) = Webhook \<and> (\<exists>m. rs ! (k - 1) = Thrown m)"
      by blast
    then show ?thesis unfolding deliver_step [OF c] if_not_P [OF False] using channel_frame(2) [OF c]
      by (intro exI [of _ "Suc k"] exI [of _ "r # rs"]) (auto simp: nth_Cons' split: if_splits)
  qed
qed simp

section \<open>Properties\<close>

text \<open>
  Property C32. A delivery never leaves the policy for webhooks: every request it makes goes to a URL that uses HTTP or
  HTTPS, to a host on the list of allowed hosts, which is not empty, and neither the host nor any address it resolved to
  is private or reserved. This holds of the URL of a rule and of the default one.
\<close>

theorem webhook_posts_within_policy:
  assumes "(url, i) \<in> set (dw_posts (snd (processJob rt now n job w)))" "(url, i) \<notin> set (dw_posts w)"
  shows "webhookAllowed (dr_webhook rt) url"
  using assms deliverAll_posts by (fastforce simp: processJob_def Let_def split: option.splits)

theorem webhook_posts_within_policy_witness: "webhookAllowed (dr_webhook sampleRuntime) ''https://hooks.example/x''"
proof -
  have "dw_posts (snd (processJob sampleRuntime 0 0 sampleJob sampleWorld)) = [(''https://hooks.example/x'', ''a1'')]" by code_simp
  with webhook_posts_within_policy [of "''https://hooks.example/x''" "''a1''" sampleRuntime 0 0 sampleJob sampleWorld] show ?thesis
    by (simp add: sampleWorld_def)
qed

text \<open>
  A delivery attempts the channels of its job in their order and records each attempt once. When the job
  does not fail it has attempted all of them; when it fails, the last attempt was a webhook that failed. It keeps the
  identity, the count and the state of every alarm.
\<close>

theorem delivery_attempts_recorded:
  assumes "findAlarm (nj_alarmId job) (dw_alarms w) = Some a" "nj_channels job \<noteq> []" "processJob rt now n job w = (err, w')" "tableOk (dw_alarms w)"
  shows "(\<exists>k rs. k \<le> length (nj_channels job) \<and> length rs = k
      \<and> dw_audit w' = dw_audit w @ map (\<lambda>(ch, r). (al_id a, ch, statusOf ch r)) (zip (take k (nj_channels job)) rs)
      \<and> (if err = None then k = length (nj_channels job) else 0 < k \<and> nj_channels job ! (k - 1) = Webhook \<and> (\<exists>m. rs ! (k - 1) = Thrown m)))
    \<and> tableOk (dw_alarms w') \<and> totalOccurrences (dw_alarms w') = totalOccurrences (dw_alarms w)"
proof -
  obtain rule where p: "deliverAll rt now (nj_id job) n a rule (nj_channels job) w = (err, w')"
    using assms(1-3) by (simp add: processJob_def Let_def)
  have "alarmAction (dw_alarms w) (dw_alarms w')" using processJob_action [of w rt now n job] assms(3) by simp
  note t = action_table(1,2) [OF this assms(4)]
  show ?thesis using deliverAll_attempts [of "nj_channels job" rt now "nj_id job" n a rule w] t unfolding p by simp
qed

theorem delivery_attempts_recorded_witness:
  "totalOccurrences (dw_alarms (snd (processJob sampleRuntime 0 0 sampleJob sampleWorld))) = totalOccurrences (dw_alarms sampleWorld)"
proof -
  have "findAlarm ''a1'' (dw_alarms sampleWorld) = Some sampleAlarm" "tableOk (dw_alarms sampleWorld)"
    by (simp_all add: sampleWorld_def findAlarm_def sampleAlarm_def newAlarm_def tableOk_def alarmOk_def)
  with delivery_attempts_recorded [of sampleJob sampleWorld sampleAlarm sampleRuntime 0 0] show ?thesis
    by (metis (no_types, lifting) list.discI notifyJob.select_convs(2) notifyJob.select_convs(4) prod.collapse sampleJob_def)
qed

text \<open>
  A webhook that fails keeps the other channels from being tried: with a plan that starts with it, as the default ones
  do, no push message goes out however often the job is run again.
\<close>

lemma failing_webhook_starves_push:
  assumes "findAlarm (nj_alarmId job) (dw_alarms w) = Some a" "nj_channels job = Webhook # chs"
    and "\<And>rule. \<exists>m w1. notifyWebhook rt a rule w = (Thrown m, w1)"
  shows "dw_pushed (snd (processJob rt now n job w)) = dw_pushed w \<and> fst (processJob rt now n job w) \<noteq> None"
proof -
  obtain rule where p: "processJob rt now n job w = deliverAll rt now (nj_id job) n a rule (Webhook # chs) w"
    using assms(1,2) by (simp add: processJob_def Let_def)
  from assms(3) obtain m w1 where c: "notifyChannel rt a rule Webhook w = (Thrown m, w1)" by (fastforce simp: notifyChannel_def)
  show ?thesis unfolding p deliver_step [OF c] using channel_frame(3) [OF c] by simp
qed

text \<open>
  The receipts add their outcome to the history of an alarm and leave the status of its last notification as it was:
  a push that was delivered stays accepted there.
\<close>

lemma receipts_leave_status:
  "map_of (spreadFields (withOutcome e m)) ''lastNotificationStatus'' = map_of (spreadFields m) ''lastNotificationStatus''"
  by (simp add: withOutcome_def update_conv')

end
