(* ===== verification/Recording_Manager.thy ===== *)
theory Recording_Manager
  imports Retention "HOL-Library.AList"
begin

text \<open>
  Supervision of the recording processes: the part of
  \<open>apps/api/src/recordings/recording-process-manager.service.ts\<close> that starts and stops recordings, restarts those that
  die, suspends them when the disk is full and judges whether they still write.

  A method that waits is cut at the waits across which the shared state matters: \<open>rm_calls\<close> holds the calls that are under way with the point each has
  reached, and \<open>recApply\<close> runs one piece of one call, or something that happens outside (a process ends, a timer fires,
  a camera is edited). A run is any sequence of such events. What the outside answers (the policy, the disk, FFmpeg, the
  database) is an argument of the event. A recording process has an identifier of its own, since two of them may belong
  to one camera. The mode \<open>worker\<close>, in which another program records, the ring before an event and the timers of the
  recording by motion are not part of the state: their calls of \<open>start\<close> and \<open>stop\<close> come in as any others.
\<close>

section \<open>State\<close>

record recCamera =
  rc_id :: string
  rc_enabled :: bool
  rc_recordingEnabled :: bool
  rc_recordingMode :: string

record recProc =
  pp_uid :: nat
  pp_cameraId :: string
  pp_segmentSeconds :: rat
  pp_startedAt :: int
  pp_alive :: bool
  pp_stopRequested :: bool
  pp_finalizing :: bool
  pp_abnormal :: bool
  pp_done :: bool

text \<open>The waits of \<open>start\<close>, of \<open>stop\<close> and of the restart after a crash.\<close>

datatype callPhase =
    AtGate | AtCheck | AtProbe | AtCommit nat | AtKeep
  | AtStopWrite | AtStopMark | AtStopWait nat
  | AtRestartRead

record recCall =
  rq_id :: nat
  rq_cameraId :: string
  rq_segmentSeconds :: rat
  rq_mode :: "string option"
  rq_phase :: callPhase

record recState =
  rm_cameras :: "recCamera list"
  rm_procs :: "recProc list"
  rm_active :: "(string \<times> nat) list"
  rm_attempts :: "(string \<times> int list) list"
  rm_timers :: "(string \<times> rat) list"
  rm_shuttingDown :: bool
  rm_calls :: "recCall list"
  rm_next :: nat

section \<open>Settings\<close>

definition SEGMENT_SECONDS_MIN :: int where "SEGMENT_SECONDS_MIN = 5"
definition SEGMENT_SECONDS_MAX :: int where "SEGMENT_SECONDS_MAX = 3600"
definition SEGMENT_SECONDS_FALLBACK :: int where "SEGMENT_SECONDS_FALLBACK = 300"

definition normalizeSegmentSeconds :: "jsnum \<Rightarrow> int" where
  "normalizeSegmentSeconds requested =
     (case requested of
        NonFinite \<Rightarrow> SEGMENT_SECONDS_FALLBACK
      | Fin x \<Rightarrow>
          let numeric = math_trunc x in
          if numeric < SEGMENT_SECONDS_MIN then SEGMENT_SECONDS_MIN
          else if numeric > SEGMENT_SECONDS_MAX then SEGMENT_SECONDS_MAX
          else numeric)"

definition readRecEnv :: "environment \<Rightarrow> string \<Rightarrow> rat \<Rightarrow> rat \<Rightarrow> rat" where
  "readRecEnv env nome padrao minimo = fst (envNumber (env nome) (Fin padrao) \<lparr>opt_min = Some minimo, opt_max = None, opt_integer = True\<rparr>)"

definition isAutoRestartEnabled :: "environment \<Rightarrow> bool" where
  "isAutoRestartEnabled env = (env ''RECORDING_AUTO_RESTART_ENABLED'' \<noteq> Some ''false'')"

definition getRestartMaxAttempts :: "environment \<Rightarrow> rat" where
  "getRestartMaxAttempts env = readRecEnv env ''RECORDING_AUTO_RESTART_MAX_ATTEMPTS'' 5 1"

definition getRestartWindowMs :: "environment \<Rightarrow> rat" where
  "getRestartWindowMs env = readRecEnv env ''RECORDING_AUTO_RESTART_WINDOW_MS'' 600000 1000"

definition getRestartBaseDelayMs :: "environment \<Rightarrow> rat" where
  "getRestartBaseDelayMs env = readRecEnv env ''RECORDING_AUTO_RESTART_BASE_DELAY_MS'' 1000 1"

definition getRestartMaxDelayMs :: "environment \<Rightarrow> rat" where
  "getRestartMaxDelayMs env = readRecEnv env ''RECORDING_AUTO_RESTART_MAX_DELAY_MS'' 30000 1"

section \<open>Restarts\<close>

record restartPlan =
  rx_allowed :: bool
  rx_attempt :: nat
  rx_delayMs :: rat

definition restartAttemptsOf :: "string \<Rightarrow> recState \<Rightarrow> int list" where
  "restartAttemptsOf c st = (case map_of (rm_attempts st) c of None \<Rightarrow> [] | Some ts \<Rightarrow> ts)"

definition planRecordingRestart :: "environment \<Rightarrow> int \<Rightarrow> string \<Rightarrow> recState \<Rightarrow> restartPlan \<times> recState" where
  "planRecordingRestart env now c st =
     (let previous = filter (\<lambda>t. of_int t > of_int now - getRestartWindowMs env) (restartAttemptsOf c st) in
      if getRestartMaxAttempts env \<le> of_nat (length previous)
      then (\<lparr>rx_allowed = False, rx_attempt = length previous, rx_delayMs = 0\<rparr>, st\<lparr>rm_attempts := AList.update c previous (rm_attempts st)\<rparr>)
      else (\<lparr>rx_allowed = True, rx_attempt = length previous + 1,
              rx_delayMs = min (getRestartMaxDelayMs env) (getRestartBaseDelayMs env * 2 ^ length previous)\<rparr>,
            st\<lparr>rm_attempts := AList.update c (previous @ [now]) (rm_attempts st)\<rparr>))"

definition cancelPendingRestart :: "string \<Rightarrow> recState \<Rightarrow> recState" where
  "cancelPendingRestart c st = st\<lparr>rm_timers := AList.delete c (rm_timers st), rm_attempts := AList.delete c (rm_attempts st)\<rparr>"

definition scheduleRecordingRestart :: "environment \<Rightarrow> int \<Rightarrow> recProc \<Rightarrow> recState \<Rightarrow> recState" where
  "scheduleRecordingRestart env now p st =
     (let c = pp_cameraId p in
      if pp_stopRequested p then st
      else if rm_shuttingDown st then st
      else if \<not> isAutoRestartEnabled env then st
      else if map_of (rm_timers st) c \<noteq> None then st
      else if map_of (rm_active st) c \<noteq> None then st
      else let (plan, st1) = planRecordingRestart env now c st in
        if \<not> rx_allowed plan then st1
        else st1\<lparr>rm_timers := AList.update c (pp_segmentSeconds p) (rm_timers st1)\<rparr>)"

section \<open>Processes\<close>

definition findProc :: "nat \<Rightarrow> recState \<Rightarrow> recProc option" where
  "findProc u st = find (\<lambda>p. pp_uid p = u) (rm_procs st)"

definition updateProc :: "nat \<Rightarrow> (recProc \<Rightarrow> recProc) \<Rightarrow> recState \<Rightarrow> recState" where
  "updateProc u f st = st\<lparr>rm_procs := map (\<lambda>p. if pp_uid p = u then f p else p) (rm_procs st)\<rparr>"

text \<open>What \<open>finalizeRecordingState\<close> does at once, and what it does after its scan.\<close>

definition finalizeBegin :: "nat \<Rightarrow> recState \<Rightarrow> recState" where
  "finalizeBegin u = updateProc u (\<lambda>p. if pp_finalizing p then p else p\<lparr>pp_finalizing := True, pp_abnormal := \<not> pp_stopRequested p\<rparr>)"

definition finalizeEnd :: "environment \<Rightarrow> int \<Rightarrow> nat \<Rightarrow> recState \<Rightarrow> recState" where
  "finalizeEnd env now u st =
     (case findProc u st of
        None \<Rightarrow> st
      | Some p \<Rightarrow>
          if \<not> pp_finalizing p \<or> pp_done p then st
          else
            let st1 = updateProc u (\<lambda>p. p\<lparr>pp_done := True\<rparr>) st;
                st2 = (if map_of (rm_active st1) (pp_cameraId p) = Some u then st1\<lparr>rm_active := AList.delete (pp_cameraId p) (rm_active st1)\<rparr> else st1)
            in if pp_abnormal p then scheduleRecordingRestart env now p st2 else st2)"

definition markStop :: "nat \<Rightarrow> recState \<Rightarrow> recState" where
  "markStop u = updateProc u (\<lambda>p. p\<lparr>pp_stopRequested := True\<rparr>)"

definition procExit :: "nat \<Rightarrow> recState \<Rightarrow> recState" where
  "procExit u st = finalizeBegin u (updateProc u (\<lambda>p. p\<lparr>pp_alive := False\<rparr>) st)"

section \<open>Calls\<close>

definition findRow :: "string \<Rightarrow> recState \<Rightarrow> recCamera option" where
  "findRow c st = find (\<lambda>r. rc_id r = c) (rm_cameras st)"

definition resolveRecordingModeUpdate :: "string option \<Rightarrow> recCamera \<Rightarrow> string" where
  "resolveRecordingModeUpdate requested row =
     (case requested of
        None \<Rightarrow> rc_recordingMode row
      | Some m \<Rightarrow>
          if m = [] then rc_recordingMode row
          else if m = ''manual'' \<and> rc_recordingMode row = ''motion'' then rc_recordingMode row
          else m)"

definition setDesired :: "string \<Rightarrow> bool \<Rightarrow> string option \<Rightarrow> recState \<Rightarrow> recState" where
  "setDesired c b requested st =
     st\<lparr>rm_cameras := map (\<lambda>r. if rc_id r = c then r\<lparr>rc_recordingEnabled := b, rc_recordingMode := resolveRecordingModeUpdate requested r\<rparr> else r) (rm_cameras st)\<rparr>"

definition findCall :: "nat \<Rightarrow> recState \<Rightarrow> recCall option" where
  "findCall k st = find (\<lambda>q. rq_id q = k) (rm_calls st)"

definition setPhase :: "nat \<Rightarrow> callPhase \<Rightarrow> recState \<Rightarrow> recState" where
  "setPhase k ph st = st\<lparr>rm_calls := map (\<lambda>q. if rq_id q = k then q\<lparr>rq_phase := ph\<rparr> else q) (rm_calls st)\<rparr>"

definition endCall :: "nat \<Rightarrow> recState \<Rightarrow> recState" where
  "endCall k st = st\<lparr>rm_calls := filter (\<lambda>q. rq_id q \<noteq> k) (rm_calls st)\<rparr>"

definition addCall :: "string \<Rightarrow> rat \<Rightarrow> string option \<Rightarrow> callPhase \<Rightarrow> recState \<Rightarrow> recState" where
  "addCall c seconds m ph st =
     st\<lparr>rm_calls := rm_calls st @ [\<lparr>rq_id = rm_next st, rq_cameraId = c, rq_segmentSeconds = seconds, rq_mode = m, rq_phase = ph\<rparr>],
        rm_next := rm_next st + 1\<rparr>"

text \<open>\<open>start\<close>: the checks before the camera is read, the decision, the spawn and the write of the desired state.\<close>

definition startGate :: "recCall \<Rightarrow> bool \<Rightarrow> bool \<Rightarrow> bool \<Rightarrow> recState \<Rightarrow> recState" where
  "startGate q featureOk writable spaceFree st =
     (if (case findRow (rq_cameraId q) st of None \<Rightarrow> False | Some r \<Rightarrow> \<not> rc_enabled r) then endCall (rq_id q) st
      else if \<not> featureOk \<or> \<not> writable \<or> \<not> spaceFree then endCall (rq_id q) st
      else setPhase (rq_id q) AtCheck st)"

definition startCheck :: "recCall \<Rightarrow> bool \<Rightarrow> recState \<Rightarrow> recState" where
  "startCheck q ffmpegOk st =
     (if findRow (rq_cameraId q) st = None then endCall (rq_id q) st
      else if map_of (rm_active st) (rq_cameraId q) \<noteq> None
      then setPhase (rq_id q) AtKeep st
      else if \<not> ffmpegOk then endCall (rq_id q) st
      else setPhase (rq_id q) AtProbe st)"

definition startSpawn :: "recCall \<Rightarrow> int \<Rightarrow> recState \<Rightarrow> recState" where
  "startSpawn q now st =
     (let u = rm_next st in
      setPhase (rq_id q) (AtCommit u)
        (st\<lparr>rm_procs := rm_procs st @ [\<lparr>pp_uid = u, pp_cameraId = rq_cameraId q, pp_segmentSeconds = rq_segmentSeconds q, pp_startedAt = now,
               pp_alive = True, pp_stopRequested = False, pp_finalizing = False, pp_abnormal = False, pp_done = False\<rparr>],
            rm_active := AList.update (rq_cameraId q) u (rm_active st), rm_next := u + 1\<rparr>))"

definition startCommit :: "recCall \<Rightarrow> nat \<Rightarrow> bool \<Rightarrow> recState \<Rightarrow> recState" where
  "startCommit q u databaseOk st =
     (if databaseOk \<and> findRow (rq_cameraId q) st \<noteq> None then endCall (rq_id q) (setDesired (rq_cameraId q) True (rq_mode q) st)
      else setPhase (rq_id q) (AtStopWait u) (markStop u st))"

text \<open>The write of the desired state for a camera that is being recorded already.\<close>

definition startKeep :: "recCall \<Rightarrow> recState \<Rightarrow> recState" where
  "startKeep q st = endCall (rq_id q) (setDesired (rq_cameraId q) True (rq_mode q) st)"

text \<open>\<open>stop\<close>: the write of the desired state, the mark on the process, and the end of the wait for it.\<close>

definition stopWrite :: "recCall \<Rightarrow> recState \<Rightarrow> recState" where
  "stopWrite q st =
     (if findRow (rq_cameraId q) st = None then endCall (rq_id q) st
      else setPhase (rq_id q) AtStopMark (setDesired (rq_cameraId q) False (rq_mode q) st))"

definition stopMark :: "recCall \<Rightarrow> recState \<Rightarrow> recState" where
  "stopMark q st =
     (let st1 = cancelPendingRestart (rq_cameraId q) st in
      case map_of (rm_active st1) (rq_cameraId q) of
        None \<Rightarrow> endCall (rq_id q) st1
      | Some u \<Rightarrow> setPhase (rq_id q) (AtStopWait u) (markStop u st1))"

definition stopWaited :: "recCall \<Rightarrow> nat \<Rightarrow> recState \<Rightarrow> recState" where
  "stopWaited q u st = endCall (rq_id q) (finalizeBegin u st)"

text \<open>\<open>restartRecordingAfterCrash\<close>: when the timer fires, and after the row was read.\<close>

definition timerFires :: "string \<Rightarrow> recState \<Rightarrow> recState" where
  "timerFires c st =
     (case map_of (rm_timers st) c of
        None \<Rightarrow> st
      | Some seconds \<Rightarrow>
          let st1 = st\<lparr>rm_timers := AList.delete c (rm_timers st)\<rparr> in
          if rm_shuttingDown st1 then st1
          else if map_of (rm_active st1) c \<noteq> None then st1
          else addCall c seconds None AtRestartRead st1)"

definition restartRead :: "environment \<Rightarrow> recCall \<Rightarrow> recState \<Rightarrow> recState" where
  "restartRead env q st =
     (case findRow (rq_cameraId q) st of
        None \<Rightarrow> endCall (rq_id q) st
      | Some r \<Rightarrow>
          if \<not> rc_recordingEnabled r \<or> \<not> rc_enabled r then endCall (rq_id q) st
          else
            let seconds = (if 0 < rq_segmentSeconds q then rq_segmentSeconds q
                  else fst (envNumber (env ''RECORDING_SEGMENT_SECONDS'') (Fin 300) \<lparr>opt_min = Some 5, opt_max = Some 3600, opt_integer = True\<rparr>))
            in (setPhase (rq_id q) AtGate st)\<lparr>rm_calls := map (\<lambda>x. if rq_id x = rq_id q then x\<lparr>rq_segmentSeconds := seconds\<rparr> else x)
                   (rm_calls (setPhase (rq_id q) AtGate st))\<rparr>)"

section \<open>The disk\<close>

record diskUsage =
  dk_totalBytes :: int
  dk_freeBytes :: int

definition freePercent :: "diskUsage \<Rightarrow> rat" where
  "freePercent d = (if 0 < dk_totalBytes d then of_int (dk_freeBytes d) / of_int (dk_totalBytes d) * 100 else 0)"

definition usedPercent :: "diskUsage \<Rightarrow> rat" where
  "usedPercent d = (if 0 < dk_totalBytes d then 100 - freePercent d else 100)"

definition minimumStorageFree :: "rat \<Rightarrow> rat \<Rightarrow> diskUsage \<Rightarrow> bool" where
  "minimumStorageFree minFreeBytes minFreePercent d \<longleftrightarrow> \<not> (of_int (dk_freeBytes d) < minFreeBytes \<or> freePercent d < minFreePercent)"

definition diskCritical :: "environment \<Rightarrow> rat \<Rightarrow> rat \<Rightarrow> diskUsage \<Rightarrow> bool" where
  "diskCritical env minFreeBytes minFreePercent d \<longleftrightarrow>
     (let maxUsedPercent = fst (envNumber (env ''RECORDING_DISK_GUARD_MAX_USED_PERCENT'') (Fin 92) \<lparr>opt_min = Some 1, opt_max = Some 100, opt_integer = False\<rparr>)
      in of_int (dk_freeBytes d) < minFreeBytes \<or> freePercent d < minFreePercent \<or> usedPercent d \<ge> maxUsedPercent)"

definition suspendRecordingForDiskGuard :: "string \<Rightarrow> recState \<Rightarrow> recState" where
  "suspendRecordingForDiskGuard c st =
     (case map_of (rm_active st) c of None \<Rightarrow> st | Some u \<Rightarrow> addCall c 0 None (AtStopWait u) (markStop u st))"

text \<open>The cameras that the guard suspends, one after the other.\<close>

definition enforceDiskGuard :: "environment \<Rightarrow> rat \<Rightarrow> rat \<Rightarrow> diskUsage \<Rightarrow> recState \<Rightarrow> string list" where
  "enforceDiskGuard env minFreeBytes minFreePercent d st =
     (if rm_active st = [] then []
      else if \<not> diskCritical env minFreeBytes minFreePercent d then []
      else map fst (rm_active st))"

text \<open>
  The end of the program: no restart is scheduled any more, and every recording is stopped (\<open>stopAll\<close>). The stops are
  made one after the other; here they are under way together and the run decides in which order they proceed, and whether.
\<close>

definition onApplicationShutdown :: "recState \<Rightarrow> recState" where
  "onApplicationShutdown st =
     (let st1 = fold cancelPendingRestart (map fst (rm_timers st)) (st\<lparr>rm_shuttingDown := True\<rparr>)
      in fold (\<lambda>c. addCall c 0 None AtStopWrite) (map fst (rm_active st1)) st1)"

text \<open>The cameras that are started when the program is loaded.\<close>

definition startEnabledContinuousRecordings :: "recCamera list \<Rightarrow> string list" where
  "startEnabledContinuousRecordings cams =
     map rc_id (take 500 (filter (\<lambda>r. rc_enabled r \<and> rc_recordingEnabled r \<and> rc_recordingMode r = ''continuous'') cams))"

section \<open>Events\<close>

text \<open>
  An edit of a camera (\<open>cameras.service.ts\<close>, \<open>update\<close>) writes \<open>enabled\<close> and \<open>recordingEnabled\<close> whether the request names
  them or not: a value the request leaves out is written back as it was read when the edit began. So \<open>CameraEdited\<close>
  carries both values, which may be any; only the write is an event.
\<close>

datatype recEvent =
    CallStart string rat "string option"
  | CallStop string "string option"
  | Gate nat bool bool bool
  | Check nat bool
  | Spawn nat int
  | Commit nat bool
  | StopWrite nat
  | StopMark nat
  | StopWaited nat
  | RestartRead nat
  | ProcExit nat
  | FinalizeEnd nat int
  | TimerFires string
  | GuardSuspends string
  | Shutdown
  | CameraEdited string bool bool string
  | CameraRemoved string

definition onPhase :: "nat \<Rightarrow> (recCall \<Rightarrow> recState \<Rightarrow> recState) \<Rightarrow> recState \<Rightarrow> recState" where
  "onPhase k f st = (case findCall k st of None \<Rightarrow> st | Some q \<Rightarrow> f q st)"

definition recApply :: "environment \<Rightarrow> recEvent \<Rightarrow> recState \<Rightarrow> recState" where
  "recApply env e st =
     (case e of
        CallStart c seconds m \<Rightarrow> addCall c seconds m AtGate st
      | CallStop c m \<Rightarrow> addCall c 0 m AtStopWrite st
      | Gate k f w s \<Rightarrow> onPhase k (\<lambda>q. if rq_phase q = AtGate then startGate q f w s else id) st
      | Check k ok \<Rightarrow> onPhase k (\<lambda>q. if rq_phase q = AtCheck then startCheck q ok else id) st
      | Spawn k now \<Rightarrow> onPhase k (\<lambda>q. if rq_phase q = AtProbe then startSpawn q now else id) st
      | Commit k ok \<Rightarrow> onPhase k (\<lambda>q. case rq_phase q of AtCommit u \<Rightarrow> startCommit q u ok | AtKeep \<Rightarrow> startKeep q | _ \<Rightarrow> id) st
      | StopWrite k \<Rightarrow> onPhase k (\<lambda>q. if rq_phase q = AtStopWrite then stopWrite q else id) st
      | StopMark k \<Rightarrow> onPhase k (\<lambda>q. if rq_phase q = AtStopMark then stopMark q else id) st
      | StopWaited k \<Rightarrow> onPhase k (\<lambda>q. case rq_phase q of AtStopWait u \<Rightarrow> stopWaited q u | _ \<Rightarrow> id) st
      | RestartRead k \<Rightarrow> onPhase k (\<lambda>q. if rq_phase q = AtRestartRead then restartRead env q else id) st
      | ProcExit u \<Rightarrow> procExit u st
      | FinalizeEnd u now \<Rightarrow> finalizeEnd env now u st
      | TimerFires c \<Rightarrow> timerFires c st
      | GuardSuspends c \<Rightarrow> suspendRecordingForDiskGuard c st
      | Shutdown \<Rightarrow> onApplicationShutdown st
      | CameraEdited c b desired m \<Rightarrow> st\<lparr>rm_cameras := map (\<lambda>r. if rc_id r = c
            then r\<lparr>rc_enabled := b, rc_recordingEnabled := desired, rc_recordingMode := m\<rparr> else r) (rm_cameras st)\<rparr>
      | CameraRemoved c \<Rightarrow> st\<lparr>rm_cameras := filter (\<lambda>r. rc_id r \<noteq> c) (rm_cameras st)\<rparr>)"

definition recRun :: "environment \<Rightarrow> recEvent list \<Rightarrow> recState \<Rightarrow> recState" where
  "recRun env es st = fold (recApply env) es st"

section \<open>Progress of the file being written\<close>

record segmentFile =
  sf_path :: string
  sf_size :: int
  sf_mtimeMs :: rat

datatype writeReason = NoActiveProcess | StartupGrace | NoSegmentFile | ProbeFailed | Growing | Writing | Stalled

record writeProgress =
  wp_applicable :: bool
  wp_file :: "segmentFile option"
  wp_secondsSinceLastWrite :: "int option"
  wp_stallThresholdSeconds :: rat
  wp_graceSeconds :: rat
  wp_stalled :: bool
  wp_reason :: writeReason

definition getWriteStallSeconds :: "environment \<Rightarrow> rat" where
  "getWriteStallSeconds env = max 20 (fst (envNumber (env ''RECORDING_WRITE_STALL_SECONDS'') (Fin 45) \<lparr>opt_min = None, opt_max = None, opt_integer = False\<rparr>))"

definition getWriteStallGraceSeconds :: "environment \<Rightarrow> rat \<Rightarrow> rat" where
  "getWriteStallGraceSeconds env threshold =
     max 30 (max threshold (fst (envNumber (env ''RECORDING_WRITE_STALL_GRACE_SECONDS'') (Fin 90) \<lparr>opt_min = None, opt_max = None, opt_integer = False\<rparr>)))"

fun newestFile :: "segmentFile \<Rightarrow> segmentFile list \<Rightarrow> segmentFile" where
  "newestFile f [] = f"
| "newestFile f (g # gs) = newestFile (if sf_mtimeMs f < sf_mtimeMs g then g else f) gs"

text \<open>The verdict and the sample that is kept; \<open>None\<close> of the files is a directory that cannot be read.\<close>

definition getRecordingWriteProgress ::
    "environment \<Rightarrow> int \<Rightarrow> recProc option \<Rightarrow> segmentFile list option \<Rightarrow> segmentFile option \<Rightarrow> writeProgress \<times> segmentFile option" where
  "getRecordingWriteProgress env now proc files previous =
     (let threshold = getWriteStallSeconds env; grace = getWriteStallGraceSeconds env threshold;
          plain = (\<lambda>app why. \<lparr>wp_applicable = app, wp_file = None, wp_secondsSinceLastWrite = None,
               wp_stallThresholdSeconds = threshold, wp_graceSeconds = grace, wp_stalled = False, wp_reason = why\<rparr>)
      in case proc of
        None \<Rightarrow> (plain False NoActiveProcess, previous)
      | Some p \<Rightarrow>
          if \<not> grace \<le> of_int (now - pp_startedAt p) / 1000 then (plain True StartupGrace, previous)
          else (case files of
            None \<Rightarrow> (plain True ProbeFailed, previous)
          | Some [] \<Rightarrow> (plain True NoSegmentFile, previous)
          | Some (f # fs) \<Rightarrow>
              let current = newestFile f fs;
                  since = max 0 ((of_int now - sf_mtimeMs current) / 1000);
                  observed = (\<lambda>st why. \<lparr>wp_applicable = True, wp_file = Some current, wp_secondsSinceLastWrite = Some (math_round since),
                     wp_stallThresholdSeconds = threshold, wp_graceSeconds = grace,
                     wp_stalled = st, wp_reason = why\<rparr>);
                  grew = (case previous of None \<Rightarrow> False | Some o' \<Rightarrow> sf_path o' = sf_path current \<and> sf_size o' < sf_size current)
              in (if grew then observed False Growing
                  else if threshold \<le> since then observed True Stalled
                  else observed False Writing, Some current)))"

end
