(* ===== verification/Recording_Manager_Props.thy ===== *)
theory Recording_Manager_Props
  imports Recording_Manager
begin

text \<open>
  Lemmas on the supervision of the recordings: which identifiers are in use, what every piece of a call keeps once a
  camera is not to be recorded, and that a stop takes effect against everything else that is under way.
\<close>

section \<open>Identifiers\<close>

definition wfRec :: "recState \<Rightarrow> bool" where
  "wfRec st \<longleftrightarrow> distinct (map pp_uid (rm_procs st)) \<and> (\<forall>p\<in>set (rm_procs st). pp_uid p < rm_next st)
     \<and> distinct (map rq_id (rm_calls st)) \<and> (\<forall>q\<in>set (rm_calls st). rq_id q < rm_next st)"

lemma map_uid [simp]: "(\<And>p. pp_uid (f p) = pp_uid p) \<Longrightarrow> map pp_uid (map (\<lambda>p. if pp_uid p = u then f p else p) ps) = map pp_uid ps"
  by simp

lemma wf_updateProc: "wfRec st \<Longrightarrow> (\<And>p. pp_uid (f p) = pp_uid p) \<Longrightarrow> wfRec (updateProc u f st)"
  by (auto simp: wfRec_def updateProc_def comp_def if_distrib cong: if_cong)

lemma wf_setPhase: "wfRec st \<Longrightarrow> wfRec (setPhase k ph st)"
  by (auto simp: wfRec_def setPhase_def comp_def if_distrib cong: if_cong)

lemma wf_endCall: "wfRec st \<Longrightarrow> wfRec (endCall k st)"
  by (auto simp: wfRec_def endCall_def distinct_map_filter)

lemma wf_addCall: "wfRec st \<Longrightarrow> wfRec (addCall c s m ph st)"
  by (auto simp: wfRec_def addCall_def)

lemma wf_frame:
  "wfRec st \<Longrightarrow> rm_procs st' = rm_procs st \<Longrightarrow> rm_calls st' = rm_calls st \<Longrightarrow> rm_next st' = rm_next st \<Longrightarrow> wfRec st'"
  by (simp add: wfRec_def)

lemma wf_setDesired: "wfRec st \<Longrightarrow> wfRec (setDesired c b m st)"
  by (rule wf_frame) (simp_all add: setDesired_def)

lemma wf_cancel: "wfRec st \<Longrightarrow> wfRec (cancelPendingRestart c st)"
  by (rule wf_frame) (simp_all add: cancelPendingRestart_def)

lemma wf_finalizeBegin: "wfRec st \<Longrightarrow> wfRec (finalizeBegin u st)"
  unfolding finalizeBegin_def by (rule wf_updateProc) simp_all

lemma wf_markStop: "wfRec st \<Longrightarrow> wfRec (markStop u st)"
  unfolding markStop_def by (rule wf_updateProc) simp_all

lemma plan_frame:
  "rm_procs (snd (planRecordingRestart env now c st)) = rm_procs st" "rm_calls (snd (planRecordingRestart env now c st)) = rm_calls st"
  "rm_next (snd (planRecordingRestart env now c st)) = rm_next st" "rm_active (snd (planRecordingRestart env now c st)) = rm_active st"
  "rm_timers (snd (planRecordingRestart env now c st)) = rm_timers st" "rm_cameras (snd (planRecordingRestart env now c st)) = rm_cameras st"
  by (simp_all add: planRecordingRestart_def Let_def)

lemma schedule_frame:
  "rm_procs (scheduleRecordingRestart env now p st) = rm_procs st" "rm_calls (scheduleRecordingRestart env now p st) = rm_calls st"
  "rm_next (scheduleRecordingRestart env now p st) = rm_next st" "rm_active (scheduleRecordingRestart env now p st) = rm_active st"
  "rm_cameras (scheduleRecordingRestart env now p st) = rm_cameras st"
  by (simp_all add: scheduleRecordingRestart_def Let_def split_beta plan_frame)

lemma schedule_timers:
  "c \<noteq> pp_cameraId p \<or> pp_stopRequested p \<Longrightarrow> map_of (rm_timers (scheduleRecordingRestart env now p st)) c = map_of (rm_timers st) c"
  by (auto simp: scheduleRecordingRestart_def Let_def split_beta plan_frame update_conv')

text \<open>The state that the end of a finalisation leaves, before a restart is planned.\<close>

definition finalized :: "recProc \<Rightarrow> recState \<Rightarrow> recState" where
  "finalized p st =
     (let st1 = updateProc (pp_uid p) (\<lambda>p. p\<lparr>pp_done := True\<rparr>) st in
      if map_of (rm_active st1) (pp_cameraId p) = Some (pp_uid p) then st1\<lparr>rm_active := AList.delete (pp_cameraId p) (rm_active st1)\<rparr> else st1)"

lemma finalizeEnd_cases:
  obtains "finalizeEnd env now u st = st"
  | p where "findProc u st = Some p" "\<not> pp_done p" "pp_uid p = u" "p \<in> set (rm_procs st)"
    "finalizeEnd env now u st = finalized p st \<or> finalizeEnd env now u st = scheduleRecordingRestart env now p (finalized p st)"
proof (cases "findProc u st")
  case None
  then show thesis using that(1) by (simp add: finalizeEnd_def)
next
  case (Some p)
  then have p: "pp_uid p = u" "p \<in> set (rm_procs st)" by (auto simp: findProc_def dest: find_SomeD)
  show thesis
  proof (cases "\<not> pp_finalizing p \<or> pp_done p")
    case True
    with Some show thesis using that(1) by (simp add: finalizeEnd_def)
  next
    case False
    with Some p show thesis by (intro that(2) [of p]) (auto simp: finalizeEnd_def finalized_def Let_def)
  qed
qed

lemma finalized_frame: "rm_calls (finalized p st) = rm_calls st" "rm_timers (finalized p st) = rm_timers st"
  "rm_cameras (finalized p st) = rm_cameras st" "rm_next (finalized p st) = rm_next st"
  "rm_procs (finalized p st) = map (\<lambda>x. if pp_uid x = pp_uid p then x\<lparr>pp_done := True\<rparr> else x) (rm_procs st)"
  by (simp_all add: finalized_def Let_def updateProc_def)

lemma finalized_active:
  "map_of (rm_active (finalized p st)) c =
     (if c = pp_cameraId p \<and> map_of (rm_active st) c = Some (pp_uid p) then None else map_of (rm_active st) c)"
  by (auto simp: finalized_def Let_def updateProc_def delete_conv')

section \<open>A stop\<close>

text \<open>A call on its way to a recording.\<close>

definition starting :: "callPhase \<Rightarrow> bool" where
  "starting ph = (case ph of AtGate \<Rightarrow> True | AtCheck \<Rightarrow> True | AtProbe \<Rightarrow> True | AtCommit _ \<Rightarrow> True | AtKeep \<Rightarrow> True | _ \<Rightarrow> False)"

text \<open>A process that nobody has told to stop and that is not taken leave of.\<close>

definition running :: "string \<Rightarrow> recProc \<Rightarrow> bool" where
  "running c p \<longleftrightarrow> pp_cameraId p = c \<and> \<not> pp_stopRequested p \<and> \<not> pp_done p"

definition managed :: "string \<Rightarrow> recState \<Rightarrow> bool" where
  "managed c st \<longleftrightarrow> (\<forall>p\<in>set (rm_procs st). running c p \<longrightarrow> map_of (rm_active st) c = Some (pp_uid p))"

definition undesired :: "string \<Rightarrow> recState \<Rightarrow> bool" where
  "undesired c st \<longleftrightarrow> (\<forall>r\<in>set (rm_cameras st). rc_id r = c \<longrightarrow> \<not> rc_recordingEnabled r)
     \<and> (\<forall>q\<in>set (rm_calls st). rq_cameraId q = c \<longrightarrow> \<not> starting (rq_phase q))"

definition halted :: "string \<Rightarrow> recState \<Rightarrow> bool" where
  "halted c st \<longleftrightarrow> map_of (rm_timers st) c = None \<and> (\<forall>p\<in>set (rm_procs st). \<not> running c p)"

lemma managed_updateProc:
  assumes "managed c st" "\<And>p. pp_uid (f p) = pp_uid p" "\<And>p. running c (f p) \<Longrightarrow> running c p"
  shows "managed c (updateProc u f st)"
  using assms by (fastforce simp: managed_def updateProc_def)

lemma halted_updateProc:
  assumes "halted c st" "\<And>p. running c (f p) \<Longrightarrow> running c p"
  shows "halted c (updateProc u f st)"
  using assms by (fastforce simp: halted_def updateProc_def)

lemma undesired_frame:
  "undesired c st \<Longrightarrow> rm_cameras st' = rm_cameras st \<Longrightarrow> rm_calls st' = rm_calls st \<Longrightarrow> undesired c st'"
  by (simp add: undesired_def)

lemma managed_frame:
  "managed c st \<Longrightarrow> rm_procs st' = rm_procs st \<Longrightarrow> rm_active st' = rm_active st \<Longrightarrow> managed c st'"
  by (simp add: managed_def)

lemma halted_frame:
  "halted c st \<Longrightarrow> rm_procs st' = rm_procs st \<Longrightarrow> map_of (rm_timers st') c = map_of (rm_timers st) c \<Longrightarrow> halted c st'"
  by (simp add: halted_def)

text \<open>What each piece of a call keeps.\<close>

definition stopInv :: "string \<Rightarrow> recState \<Rightarrow> bool" where
  "stopInv c st \<longleftrightarrow> wfRec st \<and> managed c st \<and> undesired c st"

lemma findCallD: "findCall k st = Some q \<Longrightarrow> q \<in> set (rm_calls st) \<and> rq_id q = k"
  unfolding findCall_def by (auto dest: find_SomeD)

lemma call_unique: "wfRec st \<Longrightarrow> q \<in> set (rm_calls st) \<Longrightarrow> q' \<in> set (rm_calls st) \<Longrightarrow> rq_id q' = rq_id q \<Longrightarrow> q' = q"
  unfolding wfRec_def by (metis distinct_map inj_onD)

lemma findRowD: "findRow c st = Some r \<Longrightarrow> r \<in> set (rm_cameras st) \<and> rc_id r = c"
  unfolding findRow_def by (auto dest: find_SomeD)

lemma stopInv_endCall: "stopInv c st \<Longrightarrow> stopInv c (endCall k st)"
  by (auto simp: stopInv_def wf_endCall) (auto simp: managed_def undesired_def endCall_def)

lemma stopInv_setPhase:
  assumes "stopInv c st" "q \<in> set (rm_calls st)" "rq_cameraId q \<noteq> c \<or> \<not> starting ph"
  shows "stopInv c (setPhase (rq_id q) ph st)"
proof -
  have "wfRec st" using assms(1) by (simp add: stopInv_def)
  have und: "undesired c st" using assms(1) by (simp add: stopInv_def)
  have "\<not> starting (rq_phase x)" if x: "x \<in> set (rm_calls (setPhase (rq_id q) ph st))" "rq_cameraId x = c" for x
  proof -
    from x(1) obtain y where y: "y \<in> set (rm_calls st)" "x = (if rq_id y = rq_id q then y\<lparr>rq_phase := ph\<rparr> else y)" by (auto simp: setPhase_def)
    show ?thesis
    proof (cases "rq_id y = rq_id q")
      case True
      with call_unique [OF \<open>wfRec st\<close> assms(2) y(1)] y(2) x(2) assms(3) show ?thesis by auto
    qed (use y x(2) und in \<open>auto simp: undesired_def\<close>)
  qed
  then have "undesired c (setPhase (rq_id q) ph st)" using und by (simp add: undesired_def) (simp add: setPhase_def)
  with assms(1) show ?thesis by (simp add: stopInv_def wf_setPhase) (simp add: managed_def setPhase_def)
qed

lemma stopInv_addCall: "stopInv c st \<Longrightarrow> c' \<noteq> c \<or> \<not> starting ph \<Longrightarrow> stopInv c (addCall c' s m ph st)"
  by (auto simp: stopInv_def wf_addCall) (auto simp: managed_def undesired_def addCall_def)

lemma stopInv_setDesired: "stopInv c st \<Longrightarrow> c' \<noteq> c \<or> \<not> b \<Longrightarrow> stopInv c (setDesired c' b m st)"
  by (auto simp: stopInv_def wf_setDesired) (auto simp: managed_def undesired_def setDesired_def)

lemma stopInv_updateProc:
  assumes "stopInv c st" "\<And>p. pp_uid (f p) = pp_uid p" "\<And>p. running c (f p) \<Longrightarrow> running c p"
  shows "stopInv c (updateProc u f st)"
  using assms managed_updateProc [of c st f u] undesired_frame [of c st "updateProc u f st"]
  by (simp add: stopInv_def wf_updateProc) (simp add: updateProc_def)

lemma stopInv_cancel: "stopInv c st \<Longrightarrow> stopInv c (cancelPendingRestart c' st)"
  by (auto simp: stopInv_def wf_cancel) (auto simp: managed_def undesired_def cancelPendingRestart_def)

lemma stopInv_markStop: "stopInv c st \<Longrightarrow> stopInv c (markStop u st)"
  unfolding markStop_def by (rule stopInv_updateProc) (auto simp: running_def)

lemma stopInv_finalizeBegin: "stopInv c st \<Longrightarrow> stopInv c (finalizeBegin u st)"
  unfolding finalizeBegin_def by (rule stopInv_updateProc) (auto simp: running_def split: if_splits)

lemma stopInv_procExit: "stopInv c st \<Longrightarrow> stopInv c (procExit u st)"
  unfolding procExit_def by (intro stopInv_finalizeBegin stopInv_updateProc) (auto simp: running_def)

lemma wf_finalized: "wfRec st \<Longrightarrow> wfRec (finalized p st)"
  by (auto simp: wfRec_def finalized_frame comp_def if_distrib cong: if_cong)

lemma managed_finalized:
  assumes "managed c st"
  shows "managed c (finalized p st)"
  unfolding managed_def finalized_frame finalized_active
proof (intro ballI impI)
  fix x assume x: "x \<in> set (map (\<lambda>x. if pp_uid x = pp_uid p then x\<lparr>pp_done := True\<rparr> else x) (rm_procs st))" "running c x"
  then have "x \<in> set (rm_procs st)" "pp_uid x \<noteq> pp_uid p" by (auto simp: running_def split: if_splits)
  with assms x(2) have "map_of (rm_active st) c = Some (pp_uid x)" by (simp add: managed_def)
  with \<open>pp_uid x \<noteq> pp_uid p\<close> show "(if c = pp_cameraId p \<and> map_of (rm_active st) c = Some (pp_uid p) then None else map_of (rm_active st) c) = Some (pp_uid x)" by simp
qed

lemma stopInv_finalizeEnd: "stopInv c st \<Longrightarrow> stopInv c (finalizeEnd env now u st)"
proof (cases rule: finalizeEnd_cases [of env now u st])
  case (2 p)
  assume i: "stopInv c st"
  have f: "stopInv c (finalized p st)"
    using i managed_finalized [of c st p] undesired_frame [of c st "finalized p st"] by (simp add: stopInv_def wf_finalized finalized_frame)
  have "stopInv c (scheduleRecordingRestart env now p (finalized p st))"
    using f wf_frame [of "finalized p st" "scheduleRecordingRestart env now p (finalized p st)"]
      managed_frame [of c "finalized p st" "scheduleRecordingRestart env now p (finalized p st)"]
      undesired_frame [of c "finalized p st" "scheduleRecordingRestart env now p (finalized p st)"]
    by (simp add: stopInv_def schedule_frame)
  with f 2(5) show ?thesis by auto
qed simp

lemma stopInv_spawn:
  assumes "stopInv c st" "q \<in> set (rm_calls st)" "rq_cameraId q \<noteq> c"
  shows "stopInv c (startSpawn q now st)"
proof -
  let ?st = "st\<lparr>rm_procs := rm_procs st @ [\<lparr>pp_uid = rm_next st, pp_cameraId = rq_cameraId q, pp_segmentSeconds = rq_segmentSeconds q, pp_startedAt = now,
       pp_alive = True, pp_stopRequested = False, pp_finalizing = False, pp_abnormal = False, pp_done = False\<rparr>],
     rm_active := AList.update (rq_cameraId q) (rm_next st) (rm_active st), rm_next := rm_next st + 1\<rparr>"
  have "stopInv c ?st" using assms by (auto simp: stopInv_def wfRec_def managed_def undesired_def running_def update_conv')
  then show ?thesis unfolding startSpawn_def Let_def using assms(2,3) by (intro stopInv_setPhase) auto
qed

lemma stopInv_timerFires: "stopInv c st \<Longrightarrow> stopInv c (timerFires c' st)"
proof -
  assume i: "stopInv c st"
  have "stopInv c (st\<lparr>rm_timers := AList.delete c' (rm_timers st)\<rparr>)" using i by (simp add: stopInv_def wfRec_def managed_def undesired_def)
  with i show ?thesis by (auto simp: timerFires_def Let_def starting_def intro: stopInv_addCall split: option.split)
qed

lemma stopInv_restartRead:
  assumes "stopInv c st" "q \<in> set (rm_calls st)"
  shows "stopInv c (restartRead env q st)"
proof (cases "findRow (rq_cameraId q) st")
  case None
  with assms show ?thesis by (simp add: restartRead_def stopInv_endCall)
next
  case (Some r)
  show ?thesis
  proof (cases "\<not> rc_recordingEnabled r \<or> \<not> rc_enabled r")
    case True
    with Some assms show ?thesis by (simp add: restartRead_def stopInv_endCall)
  next
    case False
    with assms(1) findRowD [OF Some] have "rq_cameraId q \<noteq> c" by (auto simp: stopInv_def undesired_def)
    then have i: "stopInv c (setPhase (rq_id q) AtGate st)" using assms by (intro stopInv_setPhase) auto
    have "stopInv c (st'\<lparr>rm_calls := map (\<lambda>x. if rq_id x = k then x\<lparr>rq_segmentSeconds := v\<rparr> else x) (rm_calls st')\<rparr>)" if "stopInv c st'" for st' k v
      using that by (auto simp: stopInv_def wfRec_def managed_def undesired_def comp_def if_distrib cong: if_cong)
    from this [OF i] Some False show ?thesis by (simp add: restartRead_def Let_def)
  qed
qed

lemma stopInv_shutdown: "stopInv c st \<Longrightarrow> stopInv c (onApplicationShutdown st)"
proof -
  assume i: "stopInv c st"
  then have "stopInv c (st\<lparr>rm_shuttingDown := True\<rparr>)" by (simp add: stopInv_def wfRec_def managed_def undesired_def)
  then show ?thesis unfolding onApplicationShutdown_def Let_def
    by (intro fold_keeps [where P = "stopInv c"] stopInv_addCall stopInv_cancel) (simp_all add: starting_def)
qed

lemma stopInv_call:
  assumes "stopInv c st" "q \<in> set (rm_calls st)"
  shows "rq_phase q = AtGate \<Longrightarrow> stopInv c (startGate q a b d st)"
    and "rq_phase q = AtCheck \<Longrightarrow> stopInv c (startCheck q a st)"
    and "rq_phase q = AtProbe \<Longrightarrow> stopInv c (startSpawn q now st)"
    and "rq_phase q = AtCommit u \<Longrightarrow> stopInv c (startCommit q u a st)"
    and "rq_phase q = AtKeep \<Longrightarrow> stopInv c (startKeep q st)"
    and "stopInv c (stopWrite q st)" and "stopInv c (stopMark q st)" and "stopInv c (stopWaited q u st)"
proof -
  have other: "starting (rq_phase q) \<Longrightarrow> rq_cameraId q \<noteq> c" using assms by (auto simp: stopInv_def undesired_def)
  show "rq_phase q = AtGate \<Longrightarrow> stopInv c (startGate q a b d st)"
    using assms other by (auto simp: startGate_def starting_def intro!: stopInv_endCall stopInv_setPhase split: option.split)
  show "rq_phase q = AtCheck \<Longrightarrow> stopInv c (startCheck q a st)"
    using assms other by (auto simp: startCheck_def starting_def intro!: stopInv_endCall stopInv_setPhase)
  show "rq_phase q = AtProbe \<Longrightarrow> stopInv c (startSpawn q now st)"
    using assms other by (intro stopInv_spawn) (auto simp: starting_def)
  show "rq_phase q = AtKeep \<Longrightarrow> stopInv c (startKeep q st)"
    using assms other by (auto simp: startKeep_def starting_def intro!: stopInv_endCall stopInv_setDesired)
  show "rq_phase q = AtCommit u \<Longrightarrow> stopInv c (startCommit q u a st)"
    using assms other by (auto simp: startCommit_def starting_def markStop_def updateProc_def
        intro!: stopInv_endCall stopInv_setDesired stopInv_setPhase stopInv_markStop [unfolded markStop_def updateProc_def])
  show "stopInv c (stopWrite q st)"
    using assms by (auto simp: stopWrite_def starting_def intro!: stopInv_endCall stopInv_setPhase stopInv_setDesired) (simp add: setDesired_def)
  show "stopInv c (stopMark q st)"
    using assms stopInv_cancel [OF assms(1), of "rq_cameraId q"]
    by (auto simp: stopMark_def Let_def starting_def intro!: stopInv_endCall stopInv_setPhase stopInv_markStop split: option.split)
      (simp add: markStop_def updateProc_def cancelPendingRestart_def)
  show "stopInv c (stopWaited q u st)"
    using assms by (simp add: stopWaited_def stopInv_endCall stopInv_finalizeBegin)
qed

text \<open>The events that ask for the camera to be recorded: a start, and an edit that writes \<open>recordingEnabled\<close>.\<close>

fun startsCamera :: "string \<Rightarrow> recEvent \<Rightarrow> bool" where
  "startsCamera c (CallStart c' _ _) = (c' = c)"
| "startsCamera c (CameraEdited c' _ desired _) = (c' = c \<and> desired)"
| "startsCamera c _ = False"

lemma stopInv_apply:
  assumes "stopInv c st" "\<not> startsCamera c e"
  shows "stopInv c (recApply env e st)"
proof -
  have on: "stopInv c (onPhase k f st)" if "\<And>q. q \<in> set (rm_calls st) \<Longrightarrow> stopInv c (f q st)" for k f
    using that assms(1) findCallD by (auto simp: onPhase_def split: option.split)
  note call = stopInv_call [OF assms(1)]
  show ?thesis
  proof (cases e)
    case (CameraEdited c' b desired m)
    with assms show ?thesis by (auto simp: recApply_def stopInv_def wfRec_def managed_def undesired_def)
  next
    case (CameraRemoved c')
    with assms(1) show ?thesis by (auto simp: recApply_def stopInv_def wfRec_def managed_def undesired_def)
  next
    case (GuardSuspends c')
    with assms(1) show ?thesis
      by (auto simp: recApply_def suspendRecordingForDiskGuard_def starting_def intro!: stopInv_addCall stopInv_markStop split: option.split)
  qed (use assms in \<open>auto simp: recApply_def starting_def stopInv_procExit stopInv_finalizeEnd stopInv_timerFires stopInv_shutdown stopInv_restartRead
      intro!: stopInv_addCall on call split: callPhase.split\<close>)
qed

lemma halted_simps [simp]:
  "halted c (endCall k st) = halted c st" "halted c (setPhase k ph st) = halted c st" "halted c (addCall c' s m ph st) = halted c st"
  "halted c (setDesired c' b m st) = halted c st"
  by (simp_all add: halted_def endCall_def setPhase_def addCall_def setDesired_def)

lemma halted_cancel: "halted c st \<Longrightarrow> halted c (cancelPendingRestart c' st)"
  by (auto simp: halted_def cancelPendingRestart_def delete_conv')

lemma halted_markStop: "halted c st \<Longrightarrow> halted c (markStop u st)"
  unfolding markStop_def by (rule halted_updateProc) (auto simp: running_def)

lemma halted_finalizeBegin: "halted c st \<Longrightarrow> halted c (finalizeBegin u st)"
  unfolding finalizeBegin_def by (rule halted_updateProc) (auto simp: running_def split: if_splits)

lemma halted_procExit: "halted c st \<Longrightarrow> halted c (procExit u st)"
  unfolding procExit_def by (intro halted_finalizeBegin halted_updateProc) (auto simp: running_def)

lemma halted_finalizeEnd: "halted c st \<Longrightarrow> halted c (finalizeEnd env now u st)"
proof (cases rule: finalizeEnd_cases [of env now u st])
  case (2 p)
  assume h: "halted c st"
  then have f: "halted c (finalized p st)" by (auto simp: halted_def finalized_frame running_def)
  have "c \<noteq> pp_cameraId p \<or> pp_stopRequested p" using h 2(2,4) by (auto simp: halted_def running_def)
  then have "halted c (scheduleRecordingRestart env now p (finalized p st))"
    using halted_frame [OF f, of "scheduleRecordingRestart env now p (finalized p st)"] by (simp add: schedule_frame schedule_timers)
  with f 2(5) show ?thesis by auto
qed simp

lemma halted_spawn: "halted c st \<Longrightarrow> rq_cameraId q \<noteq> c \<Longrightarrow> halted c (startSpawn q now st)"
  by (auto simp: startSpawn_def Let_def) (auto simp: halted_def running_def)

lemma halted_timerFires: "halted c st \<Longrightarrow> halted c (timerFires c' st)"
  by (auto simp: timerFires_def Let_def split: option.split) (auto simp: halted_def delete_conv' addCall_def)

lemma halted_restartRead: "halted c st \<Longrightarrow> halted c (restartRead env q st)"
proof -
  assume h: "halted c st"
  have "halted c (st'\<lparr>rm_calls := xs\<rparr>) = halted c st'" for st' xs by (simp add: halted_def)
  with h show ?thesis by (simp add: restartRead_def Let_def split: option.split)
qed

lemma halted_shutdown: "halted c st \<Longrightarrow> halted c (onApplicationShutdown st)"
proof -
  assume "halted c st"
  then have "halted c (st\<lparr>rm_shuttingDown := True\<rparr>)" by (simp add: halted_def)
  then show ?thesis unfolding onApplicationShutdown_def Let_def by (intro fold_keeps [where P = "halted c"] halted_cancel) simp_all
qed

lemma halted_call:
  assumes "halted c st" "q \<in> set (rm_calls st)" "undesired c st"
  shows "halted c (startGate q a b d st)" and "halted c (startCheck q a st)" and "rq_phase q = AtProbe \<Longrightarrow> halted c (startSpawn q now st)"
    and "halted c (startCommit q u a st)" and "halted c (startKeep q st)" and "halted c (stopWrite q st)" and "halted c (stopMark q st)"
    and "halted c (stopWaited q u st)"
proof -
  show "rq_phase q = AtProbe \<Longrightarrow> halted c (startSpawn q now st)"
    using assms by (intro halted_spawn) (auto simp: undesired_def starting_def)
qed (use assms(1) halted_cancel [OF assms(1), of "rq_cameraId q"] in
    \<open>auto simp: startGate_def startCheck_def startCommit_def startKeep_def stopWrite_def stopMark_def stopWaited_def Let_def
      halted_markStop halted_finalizeBegin split: option.split\<close>)

lemma halted_apply:
  assumes "halted c st" "stopInv c st" "\<not> startsCamera c e"
  shows "halted c (recApply env e st)"
proof -
  have on: "halted c (onPhase k f st)" if "\<And>q. q \<in> set (rm_calls st) \<Longrightarrow> halted c (f q st)" for k f
    using that assms(1) findCallD by (auto simp: onPhase_def split: option.split)
  have und: "undesired c st" using assms(2) by (simp add: stopInv_def)
  note call = halted_call [OF assms(1) _ und]
  show ?thesis
  proof (cases e)
    case (GuardSuspends c')
    with assms(1) show ?thesis by (simp add: recApply_def suspendRecordingForDiskGuard_def halted_markStop split: option.split)
  next
    case (CameraEdited c' b desired m)
    with assms(1) show ?thesis by (simp add: recApply_def halted_def)
  next
    case (CameraRemoved c')
    with assms(1) show ?thesis by (simp add: recApply_def halted_def)
  qed (use assms in \<open>auto simp: recApply_def halted_procExit halted_finalizeEnd halted_timerFires halted_shutdown halted_restartRead
      intro!: on call split: callPhase.split\<close>)
qed

lemma recRun_Cons [simp]: "recRun env (e # es) st = recRun env es (recApply env e st)"
  by (simp add: recRun_def)

lemma recRun_Nil [simp]: "recRun env [] st = st"
  by (simp add: recRun_def)

interpretation stopped: event_invariant "recApply env" "\<lambda>e st. \<not> startsCamera c e" "stopInv c" for env c
  by unfold_locales (rule stopInv_apply)

interpretation haltedRun: event_invariant "recApply env" "\<lambda>e st. \<not> startsCamera c e" "\<lambda>st. halted c st \<and> stopInv c st" for env c
  by unfold_locales (simp add: halted_apply stopInv_apply)

lemma stopInv_run: "stopInv c st \<Longrightarrow> list_all (\<lambda>e. \<not> startsCamera c e) es \<Longrightarrow> stopInv c (recRun env es st)"
  unfolding recRun_def by (rule stopped.run_inv) (simp_all add: okRun_const)

lemma halted_run: "halted c st \<Longrightarrow> stopInv c st \<Longrightarrow> list_all (\<lambda>e. \<not> startsCamera c e) es \<Longrightarrow> halted c (recRun env es st)"
  unfolding recRun_def using haltedRun.run_inv [of c st env es] by (simp add: okRun_const)

text \<open>The mark of a stop halts the camera.\<close>

lemma stopMark_halts:
  assumes "stopInv c st" "rq_cameraId q = c"
  shows "halted c (stopMark q st)"
proof -
  have m: "managed c st" using assms(1) by (simp add: stopInv_def)
  have t: "map_of (rm_timers (cancelPendingRestart c st)) c = None" by (simp add: cancelPendingRestart_def delete_conv')
  show ?thesis
  proof (cases "map_of (rm_active st) c")
    case None
    with m have "\<forall>p\<in>set (rm_procs st). \<not> running c p" by (auto simp: managed_def)
    with None t assms(2) show ?thesis by (simp add: stopMark_def Let_def halted_def cancelPendingRestart_def endCall_def)
  next
    case (Some u)
    with m have "\<And>p. p \<in> set (rm_procs st) \<Longrightarrow> running c p \<Longrightarrow> pp_uid p = u" by (auto simp: managed_def)
    then have "\<forall>p\<in>set (rm_procs (markStop u (cancelPendingRestart c st))). \<not> running c p"
      by (auto simp: markStop_def updateProc_def cancelPendingRestart_def) (auto simp: running_def)
    with Some t assms(2) show ?thesis
      by (simp add: stopMark_def Let_def cancelPendingRestart_def) (simp add: halted_def setPhase_def markStop_def updateProc_def)
  qed
qed

lemma stopWrite_stopInv:
  assumes "wfRec st" "managed c st" "\<forall>q\<in>set (rm_calls st). rq_cameraId q = c \<longrightarrow> \<not> starting (rq_phase q)"
    and "rq_cameraId q = c" "q \<in> set (rm_calls st)" "findRow c st \<noteq> None"
  shows "stopInv c (stopWrite q st)"
proof -
  have "stopInv c (setDesired c False (rq_mode q) st)"
  proof -
    have "managed c (setDesired c False (rq_mode q) st)" using assms(2) by (simp add: managed_def setDesired_def)
    moreover have "\<not> rc_recordingEnabled r" if "r \<in> set (rm_cameras (setDesired c False (rq_mode q) st))" "rc_id r = c" for r
    proof -
      let ?f = "\<lambda>x. if rc_id x = c then x\<lparr>rc_recordingEnabled := False, rc_recordingMode := resolveRecordingModeUpdate (rq_mode q) x\<rparr> else x"
      have "r \<in> ?f ` set (rm_cameras st)" using that(1) by (simp add: setDesired_def)
      then obtain x where "r = ?f x" by (rule imageE)
      with that(2) show ?thesis by (cases "rc_id x = c") simp_all
    qed
    moreover have "rm_calls (setDesired c False (rq_mode q) st) = rm_calls st" by (simp add: setDesired_def)
    ultimately have "managed c (setDesired c False (rq_mode q) st)" "undesired c (setDesired c False (rq_mode q) st)"
      using assms(3) unfolding undesired_def by auto
    then show ?thesis using assms(1) by (simp add: stopInv_def wf_setDesired)
  qed
  moreover have "q \<in> set (rm_calls (setDesired c False (rq_mode q) st))" using assms(5) by (simp add: setDesired_def)
  ultimately have "stopInv c (setPhase (rq_id q) AtStopMark (setDesired c False (rq_mode q) st))"
    by (rule stopInv_setPhase) (simp add: starting_def)
  with assms(4,6) show ?thesis by (auto simp: stopWrite_def)
qed

text \<open>A stop wins over whatever happens while it waits and afterwards.\<close>

lemma stop_wins_from:
  assumes "wfRec st" "managed c st" "\<forall>q\<in>set (rm_calls st). rq_cameraId q = c \<longrightarrow> \<not> starting (rq_phase q)"
    and "findCall k st = Some q" "rq_cameraId q = c" "rq_phase q = AtStopWrite" "findRow c st \<noteq> None"
    and "st1 = recRun env es1 (recApply env (StopWrite k) st)" "findCall k st1 = Some q1" "rq_cameraId q1 = c" "rq_phase q1 = AtStopMark"
    and "st2 = recRun env es2 (recApply env (StopMark k) st1)" "list_all (\<lambda>e. \<not> startsCamera c e) (es1 @ es2)"
  shows "map_of (rm_timers st2) c = None
    \<and> (\<forall>p\<in>set (rm_procs st2). pp_cameraId p = c \<longrightarrow> pp_stopRequested p \<or> pp_done p)
    \<and> (\<forall>x\<in>set (rm_calls st2). rq_cameraId x = c \<longrightarrow> \<not> starting (rq_phase x))
    \<and> (\<forall>r\<in>set (rm_cameras st2). rc_id r = c \<longrightarrow> \<not> rc_recordingEnabled r)"
proof -
  have "recApply env (StopWrite k) st = stopWrite q st" using assms(4,6) by (simp add: recApply_def onPhase_def)
  moreover have "stopInv c (stopWrite q st)" using assms(1-3,5,7) findCallD [OF assms(4)] by (intro stopWrite_stopInv) auto
  ultimately have i1: "stopInv c st1" using assms(8,13) by (simp add: stopInv_run)
  have m: "recApply env (StopMark k) st1 = stopMark q1 st1" using assms(9,11) by (simp add: recApply_def onPhase_def)
  have "stopInv c (stopMark q1 st1)" using stopInv_call(7) [OF i1] findCallD [OF assms(9)] by simp
  moreover have "halted c (stopMark q1 st1)" by (rule stopMark_halts [OF i1 assms(10)])
  ultimately have "stopInv c st2" "halted c st2" using assms(12,13) by (simp_all add: m stopInv_run halted_run)
  then have "undesired c st2" "halted c st2" by (simp_all add: stopInv_def)
  then show ?thesis unfolding undesired_def halted_def running_def by blast
qed

end
