(* ===== verification/Recording_Manager_Runs.thy ===== *)
theory Recording_Manager_Runs
  imports Recording_Manager_Props
begin

text \<open>
  Properties of the supervision of the recordings over whole runs: a camera has one recording process at most as long as
  its starts do not overlap, a stop wins, a dead recording is restarted a bounded number of times, the guard of the disk
  keeps what the customer wants, and a recording is called stalled only with proof. Two runs show what goes wrong when a
  start overlaps another start or a stop.
\<close>

section \<open>One recording per camera\<close>

text \<open>The manager after it was loaded.\<close>

definition recInit :: "recCamera list \<Rightarrow> recState" where
  "recInit cams = \<lparr>rm_cameras = cams, rm_procs = [], rm_active = [], rm_attempts = [], rm_timers = [], rm_shuttingDown = False, rm_calls = [], rm_next = 0\<rparr>"

text \<open>The starts of a camera that are under way, and a run in which there is never more than one.\<close>

definition startCount :: "string \<Rightarrow> recState \<Rightarrow> nat" where
  "startCount c st = length (filter (\<lambda>q. rq_cameraId q = c \<and> starting (rq_phase q)) (rm_calls st))"

fun serialRun :: "environment \<Rightarrow> string \<Rightarrow> recEvent list \<Rightarrow> recState \<Rightarrow> bool" where
  "serialRun env c [] st = (startCount c st \<le> 1)"
| "serialRun env c (e # es) st = (startCount c st \<le> 1 \<and> serialRun env c es (recApply env e st))"

text \<open>A start that waits for the codec of its camera has seen that nothing records it.\<close>

definition oneInv :: "string \<Rightarrow> recState \<Rightarrow> bool" where
  "oneInv c st \<longleftrightarrow> wfRec st \<and> managed c st \<and> (\<forall>q\<in>set (rm_calls st). rq_cameraId q = c \<longrightarrow> rq_phase q = AtProbe \<longrightarrow> map_of (rm_active st) c = None)"

lemma filter_le_one: "length (filter P xs) \<le> 1 \<Longrightarrow> x \<in> set xs \<Longrightarrow> y \<in> set xs \<Longrightarrow> P x \<Longrightarrow> P y \<Longrightarrow> x = y"
proof -
  assume l: "length (filter P xs) \<le> 1" and xy: "x \<in> set xs" "y \<in> set xs" "P x" "P y"
  then have "x \<in> set (filter P xs)" "y \<in> set (filter P xs)" by simp_all
  with l show "x = y" by (cases "filter P xs") auto
qed

lemma oneInv_endCall: "oneInv c st \<Longrightarrow> oneInv c (endCall k st)"
  by (auto simp: oneInv_def wf_endCall) (auto simp: managed_def endCall_def)

lemma oneInv_setPhase:
  assumes "oneInv c st" "q \<in> set (rm_calls st)" "ph = AtProbe \<Longrightarrow> map_of (rm_active st) (rq_cameraId q) = None"
  shows "oneInv c (setPhase (rq_id q) ph st)"
proof -
  have "wfRec st" using assms(1) by (simp add: oneInv_def)
  have "map_of (rm_active st) c = None" if x: "x \<in> set (rm_calls (setPhase (rq_id q) ph st))" "rq_cameraId x = c" "rq_phase x = AtProbe" for x
  proof -
    from x(1) obtain y where y: "y \<in> set (rm_calls st)" "x = (if rq_id y = rq_id q then y\<lparr>rq_phase := ph\<rparr> else y)" by (auto simp: setPhase_def)
    show ?thesis
    proof (cases "rq_id y = rq_id q")
      case True
      with call_unique [OF \<open>wfRec st\<close> assms(2) y(1)] y(2) x(2,3) assms(3) show ?thesis by auto
    qed (use y x(2,3) assms(1) in \<open>auto simp: oneInv_def\<close>)
  qed
  then show ?thesis using assms(1) by (simp add: oneInv_def wf_setPhase) (simp add: managed_def setPhase_def)
qed

lemma oneInv_addCall: "oneInv c st \<Longrightarrow> ph \<noteq> AtProbe \<Longrightarrow> oneInv c (addCall c' s m ph st)"
  by (auto simp: oneInv_def wf_addCall) (auto simp: managed_def addCall_def)

lemma oneInv_frame:
  assumes "oneInv c st" "rm_procs st' = rm_procs st" "rm_active st' = rm_active st" "rm_calls st' = rm_calls st" "rm_next st' = rm_next st"
  shows "oneInv c st'"
  using assms wf_frame [of st st'] managed_frame [of c st st'] by (simp add: oneInv_def)

lemma oneInv_setDesired: "oneInv c st \<Longrightarrow> oneInv c (setDesired c' b m st)"
  by (erule oneInv_frame) (simp_all add: setDesired_def)

lemma oneInv_cancel: "oneInv c st \<Longrightarrow> oneInv c (cancelPendingRestart c' st)"
  by (erule oneInv_frame) (simp_all add: cancelPendingRestart_def)

lemma oneInv_updateProc:
  assumes "oneInv c st" "\<And>p. pp_uid (f p) = pp_uid p" "\<And>p. running c (f p) \<Longrightarrow> running c p"
  shows "oneInv c (updateProc u f st)"
proof -
  have "managed c (updateProc u f st)" by (rule managed_updateProc) (use assms in \<open>auto simp: oneInv_def\<close>)
  moreover have "wfRec (updateProc u f st)" by (rule wf_updateProc) (use assms in \<open>auto simp: oneInv_def\<close>)
  moreover have "rm_calls (updateProc u f st) = rm_calls st" "rm_active (updateProc u f st) = rm_active st" by (simp_all add: updateProc_def)
  ultimately show ?thesis using assms(1) by (simp add: oneInv_def)
qed

lemma oneInv_markStop: "oneInv c st \<Longrightarrow> oneInv c (markStop u st)"
  unfolding markStop_def by (rule oneInv_updateProc) (auto simp: running_def)

lemma oneInv_finalizeBegin: "oneInv c st \<Longrightarrow> oneInv c (finalizeBegin u st)"
  unfolding finalizeBegin_def by (rule oneInv_updateProc) (auto simp: running_def split: if_splits)

lemma oneInv_procExit: "oneInv c st \<Longrightarrow> oneInv c (procExit u st)"
  unfolding procExit_def by (intro oneInv_finalizeBegin oneInv_updateProc) (auto simp: running_def)

lemma oneInv_finalizeEnd: "oneInv c st \<Longrightarrow> oneInv c (finalizeEnd env now u st)"
proof (cases rule: finalizeEnd_cases [of env now u st])
  case (2 p)
  assume i: "oneInv c st"
  have f: "oneInv c (finalized p st)"
    using i managed_finalized [of c st p] by (simp add: oneInv_def wf_finalized finalized_frame finalized_active)
  have "oneInv c (scheduleRecordingRestart env now p (finalized p st))" by (rule oneInv_frame [OF f]) (simp_all add: schedule_frame)
  with f 2(5) show ?thesis by auto
qed simp

lemma oneInv_spawn:
  assumes i: "oneInv c st" and q: "q \<in> set (rm_calls st)" "rq_phase q = AtProbe" and serial: "startCount c st \<le> 1"
  shows "oneInv c (startSpawn q now st)"
proof -
  have only: "x = q" if "rq_cameraId q = c" "x \<in> set (rm_calls st)" "rq_cameraId x = c" "rq_phase x = AtProbe" for x
    by (rule filter_le_one [OF serial [unfolded startCount_def] that(2) q(1)]) (use that q(2) in \<open>simp_all add: starting_def\<close>)
  have free: "rq_cameraId q = c \<Longrightarrow> map_of (rm_active st) c = None" using i q by (simp add: oneInv_def)
  let ?st = "st\<lparr>rm_procs := rm_procs st @ [\<lparr>pp_uid = rm_next st, pp_cameraId = rq_cameraId q, pp_segmentSeconds = rq_segmentSeconds q, pp_startedAt = now,
       pp_alive = True, pp_stopRequested = False, pp_finalizing = False, pp_abnormal = False, pp_done = False\<rparr>],
     rm_active := AList.update (rq_cameraId q) (rm_next st) (rm_active st), rm_next := rm_next st + 1\<rparr>"
  have "wfRec ?st" using i by (auto simp: oneInv_def wfRec_def)
  moreover have "managed c ?st" using i free by (auto simp: oneInv_def managed_def running_def update_conv')
  moreover have "rq_phase x \<noteq> AtProbe \<or> map_of (rm_active st) c = None \<and> rq_cameraId q \<noteq> c"
    if x: "x \<in> set (rm_calls (setPhase (rq_id q) (AtCommit (rm_next st)) st))" "rq_cameraId x = c" for x
  proof -
    from x(1) obtain y where y: "y \<in> set (rm_calls st)" "x = (if rq_id y = rq_id q then y\<lparr>rq_phase := AtCommit (rm_next st)\<rparr> else y)" by (auto simp: setPhase_def)
    show ?thesis
    proof (cases "rq_id y = rq_id q")
      case False
      with y(2) have "x = y" by simp
      then show ?thesis using y(1) x(2) only [of y] False i by (auto simp: oneInv_def)
    qed (use y(2) in simp)
  qed
  moreover have "startSpawn q now st = setPhase (rq_id q) (AtCommit (rm_next st)) ?st" by (simp add: startSpawn_def Let_def)
  moreover have "rm_calls (setPhase k ph ?st) = rm_calls (setPhase k ph st)" "rm_procs (setPhase k ph ?st) = rm_procs ?st" for k ph
    by (simp_all add: setPhase_def)
  moreover have "map_of (rm_active (setPhase k ph ?st)) c = map_of (rm_active ?st) c" for k ph by (simp add: setPhase_def)
  moreover have "rq_cameraId q \<noteq> c \<Longrightarrow> map_of (rm_active ?st) c = map_of (rm_active st) c" by (simp add: update_conv')
  ultimately show ?thesis by (auto simp: oneInv_def wf_setPhase managed_def)
qed

lemma oneInv_timerFires: "oneInv c st \<Longrightarrow> oneInv c (timerFires c' st)"
proof -
  assume i: "oneInv c st"
  have "oneInv c (st\<lparr>rm_timers := AList.delete c' (rm_timers st)\<rparr>)" by (rule oneInv_frame [OF i]) simp_all
  with i show ?thesis by (auto simp: timerFires_def Let_def intro: oneInv_addCall split: option.split)
qed

lemma oneInv_restartRead:
  assumes "oneInv c st" "q \<in> set (rm_calls st)"
  shows "oneInv c (restartRead env q st)"
proof -
  have g: "oneInv c (setPhase (rq_id q) AtGate st)" by (rule oneInv_setPhase [OF assms]) simp
  have "oneInv c (st'\<lparr>rm_calls := map (\<lambda>x. if rq_id x = k then x\<lparr>rq_segmentSeconds := v\<rparr> else x) (rm_calls st')\<rparr>)" if "oneInv c st'" for st' k v
    using that by (auto simp: oneInv_def wfRec_def managed_def comp_def if_distrib cong: if_cong)
  from this [OF g] assms(1) show ?thesis by (simp add: restartRead_def Let_def oneInv_endCall split: option.split)
qed

lemma oneInv_shutdown: "oneInv c st \<Longrightarrow> oneInv c (onApplicationShutdown st)"
proof -
  assume i: "oneInv c st"
  have "oneInv c (st\<lparr>rm_shuttingDown := True\<rparr>)" by (rule oneInv_frame [OF i]) simp_all
  then show ?thesis unfolding onApplicationShutdown_def Let_def by (intro fold_keeps [where P = "oneInv c"] oneInv_addCall oneInv_cancel) simp_all
qed

lemma calls_frame [simp]: "rm_calls (setDesired c b m st) = rm_calls st" "rm_calls (markStop u st) = rm_calls st"
  "rm_calls (cancelPendingRestart c st) = rm_calls st"
  by (simp_all add: setDesired_def markStop_def updateProc_def cancelPendingRestart_def)

lemma oneInv_call:
  assumes "oneInv c st" "q \<in> set (rm_calls st)"
  shows "oneInv c (startGate q a b d st)" and "oneInv c (startCheck q a st)" and "oneInv c (startCommit q u a st)"
    and "oneInv c (startKeep q st)" and "oneInv c (stopWrite q st)" and "oneInv c (stopMark q st)" and "oneInv c (stopWaited q u st)"
proof -
  show "oneInv c (startGate q a b d st)"
    using assms by (auto simp: startGate_def intro!: oneInv_endCall oneInv_setPhase split: option.split)
  show "oneInv c (startCheck q a st)"
    using assms by (auto simp: startCheck_def intro!: oneInv_endCall oneInv_setPhase)
  show "oneInv c (startCommit q u a st)"
    using assms by (auto simp: startCommit_def intro!: oneInv_endCall oneInv_setDesired oneInv_setPhase oneInv_markStop)
  show "oneInv c (startKeep q st)"
    using assms by (simp add: startKeep_def oneInv_endCall oneInv_setDesired)
  show "oneInv c (stopWrite q st)"
    using assms by (auto simp: stopWrite_def intro!: oneInv_endCall oneInv_setDesired oneInv_setPhase)
  show "oneInv c (stopMark q st)"
    using assms by (auto simp: stopMark_def Let_def intro!: oneInv_endCall oneInv_setPhase oneInv_markStop oneInv_cancel split: option.split)
  show "oneInv c (stopWaited q u st)"
    using assms by (simp add: stopWaited_def oneInv_endCall oneInv_finalizeBegin)
qed

lemma oneInv_apply:
  assumes "oneInv c st" "startCount c st \<le> 1"
  shows "oneInv c (recApply env e st)"
proof -
  have on: "oneInv c (onPhase k f st)" if "\<And>q. q \<in> set (rm_calls st) \<Longrightarrow> oneInv c (f q st)" for k f
    using that assms(1) findCallD by (auto simp: onPhase_def split: option.split)
  note call = oneInv_call [OF assms(1)]
  show ?thesis
  proof (cases e)
    case (CameraEdited c' b desired m)
    with oneInv_frame [OF assms(1)] show ?thesis by (simp add: recApply_def)
  next
    case (CameraRemoved c')
    with oneInv_frame [OF assms(1)] show ?thesis by (simp add: recApply_def)
  next
    case (GuardSuspends c')
    with assms(1) show ?thesis
      by (auto simp: recApply_def suspendRecordingForDiskGuard_def intro!: oneInv_addCall oneInv_markStop split: option.split)
  qed (use assms oneInv_spawn [OF assms(1) _ _ assms(2)] in \<open>auto simp: recApply_def oneInv_procExit oneInv_finalizeEnd oneInv_timerFires
      oneInv_shutdown oneInv_restartRead intro!: oneInv_addCall on call split: callPhase.split\<close>)
qed

interpretation oneRecording: event_invariant "recApply env" "\<lambda>e st. startCount c st \<le> 1" "oneInv c" for env c
  by unfold_locales (rule oneInv_apply)

lemma serialRun_ok: "serialRun env c es st \<Longrightarrow> okRun (recApply env) (\<lambda>e st. startCount c st \<le> 1) es st"
  by (induction es arbitrary: st) simp_all

lemma oneInv_run: "oneInv c st \<Longrightarrow> serialRun env c es st \<Longrightarrow> oneInv c (recRun env es st)"
  unfolding recRun_def by (rule oneRecording.run_inv [OF _ serialRun_ok])

lemma oneInv_init: "oneInv c (recInit cams)"
  by (simp add: oneInv_def wfRec_def managed_def recInit_def)

lemma managed_count:
  assumes "wfRec st" "managed c st"
  shows "length (filter (running c) (rm_procs st)) \<le> 1"
proof (cases "filter (running c) (rm_procs st)")
  case (Cons p ps)
  have d: "distinct (map pp_uid (filter (running c) (rm_procs st)))" using assms(1) by (simp add: wfRec_def distinct_map_filter)
  have all: "pp_uid x = pp_uid p" if "x \<in> set (filter (running c) (rm_procs st))" for x
  proof -
    have "p \<in> set (filter (running c) (rm_procs st))" by (simp add: Cons)
    with that assms(2) have "map_of (rm_active st) c = Some (pp_uid x)" "map_of (rm_active st) c = Some (pp_uid p)" by (auto simp: managed_def)
    then show ?thesis by simp
  qed
  have "ps = []"
  proof (cases ps)
    case (Cons p' ps')
    with \<open>filter (running c) (rm_procs st) = p # ps\<close> d all [of p'] show ?thesis by simp
  qed
  with Cons show ?thesis by simp
qed simp

text \<open>
  Property C8. A camera is recorded by one process at most. In every run of the manager in which the starts of the
  camera do not overlap - calls of \<open>start\<close>, and restarts after a crash, which become starts - at most one process
  of the camera is running (has neither been told to stop nor been finalised), whatever else happens: processes dying,
  stops, timers, restarts, suspensions, edits, the end of the program and everything on other cameras. That process
  is the one the manager holds, so a stop finds it.
\<close>

theorem one_recording_per_camera:
  assumes "serialRun env c es (recInit cams)"
  shows "length (filter (running c) (rm_procs (recRun env es (recInit cams)))) \<le> 1
    \<and> (\<forall>p\<in>set (rm_procs (recRun env es (recInit cams))). running c p \<longrightarrow> map_of (rm_active (recRun env es (recInit cams))) c = Some (pp_uid p))"
proof -
  have "oneInv c (recRun env es (recInit cams))" by (rule oneInv_run [OF oneInv_init assms])
  then have "wfRec (recRun env es (recInit cams))" "managed c (recRun env es (recInit cams))" by (simp_all add: oneInv_def)
  then show ?thesis using managed_count by (simp add: managed_def)
qed

text \<open>
  Property C7. A stop wins. In a run in which the starts of a camera do not overlap, take a stop of the camera that is
  about to write the desired state while no start of the camera is under way. Whatever happens while the stop waits and
  afterwards - processes dying, finalisations, timers firing, restarts reading the database, suspensions, stops, starts
  and edits of other cameras, and edits of this one that leave \<open>recordingEnabled\<close> false - as long as nobody asks for this
  camera again, no restart of it is pending, every process of it has been told to stop or is gone, no start of it is
  under way and it is not desired. To ask for it is to call \<open>start\<close> or to edit the camera with \<open>recordingEnabled\<close> true;
  the latter includes an edit that does not mention the field but had read the camera before the stop.
\<close>

theorem stop_wins:
  assumes "serialRun env c es0 (recInit cams)" "st = recRun env es0 (recInit cams)" "startCount c st = 0"
    and "findCall k st = Some q" "rq_cameraId q = c" "rq_phase q = AtStopWrite" "findRow c st \<noteq> None"
    and "st1 = recRun env es1 (recApply env (StopWrite k) st)" "findCall k st1 = Some q1" "rq_cameraId q1 = c" "rq_phase q1 = AtStopMark"
    and "st2 = recRun env es2 (recApply env (StopMark k) st1)" "list_all (\<lambda>e. \<not> startsCamera c e) (es1 @ es2)"
  shows "map_of (rm_timers st2) c = None
    \<and> (\<forall>p\<in>set (rm_procs st2). pp_cameraId p = c \<longrightarrow> pp_stopRequested p \<or> pp_done p)
    \<and> startCount c st2 = 0
    \<and> (\<forall>r\<in>set (rm_cameras st2). rc_id r = c \<longrightarrow> \<not> rc_recordingEnabled r)"
proof -
  have "oneInv c st" using oneInv_run [OF oneInv_init assms(1)] assms(2) by simp
  then have "wfRec st" "managed c st" by (simp_all add: oneInv_def)
  moreover have "\<forall>x\<in>set (rm_calls st). rq_cameraId x = c \<longrightarrow> \<not> starting (rq_phase x)" using assms(3) by (auto simp: startCount_def filter_empty_conv)
  ultimately have "map_of (rm_timers st2) c = None \<and> (\<forall>p\<in>set (rm_procs st2). pp_cameraId p = c \<longrightarrow> pp_stopRequested p \<or> pp_done p)
    \<and> (\<forall>x\<in>set (rm_calls st2). rq_cameraId x = c \<longrightarrow> \<not> starting (rq_phase x))
    \<and> (\<forall>r\<in>set (rm_cameras st2). rc_id r = c \<longrightarrow> \<not> rc_recordingEnabled r)"
    using assms(4-) by (rule stop_wins_from)
  then show ?thesis by (auto simp: startCount_def filter_empty_conv)
qed

section \<open>Restarts are bounded\<close>

text \<open>The times at which a restart is allowed when the deaths of a camera are handled at the given times.\<close>

fun allowedTimes :: "environment \<Rightarrow> string \<Rightarrow> int list \<Rightarrow> recState \<Rightarrow> int list" where
  "allowedTimes env c [] st = []"
| "allowedTimes env c (t # ts) st =
     (let (plan, st1) = planRecordingRestart env t c st
      in (if rx_allowed plan then [t] else []) @ allowedTimes env c ts st1)"

definition inWindow :: "rat \<Rightarrow> rat \<Rightarrow> int \<Rightarrow> bool" where
  "inWindow w x t \<longleftrightarrow> x - w < of_int t \<and> of_int t \<le> x"

lemma readRecEnv_props: "minimo \<in> \<int> \<Longrightarrow> readRecEnv env nome padrao minimo \<in> \<int>" "minimo \<le> readRecEnv env nome padrao minimo"
proof -
  let ?o = "\<lparr>opt_min = Some minimo, opt_max = None, opt_integer = True\<rparr>"
  obtain x where x: "fst (envNumber (env nome) (Fin padrao) ?o) = finite_or (lower_max (opt_max ?o) (raise_min (opt_min ?o) (Fin x))) 0"
    and int: "opt_integer ?o \<Longrightarrow> x \<in> \<int>" using envNumber_value [of "Fin padrao" "env nome" ?o] by auto
  show "minimo \<in> \<int> \<Longrightarrow> readRecEnv env nome padrao minimo \<in> \<int>" "minimo \<le> readRecEnv env nome padrao minimo"
    using x int by (auto simp: readRecEnv_def)
qed

lemma restart_limits: "getRestartMaxAttempts env \<in> \<int>" "1 \<le> getRestartMaxAttempts env" "1000 \<le> getRestartWindowMs env"
    "1 \<le> getRestartBaseDelayMs env" "1 \<le> getRestartMaxDelayMs env"
  by (simp_all add: getRestartMaxAttempts_def getRestartWindowMs_def getRestartBaseDelayMs_def getRestartMaxDelayMs_def readRecEnv_props)

lemma below_integer: "(r :: rat) \<in> \<int> \<Longrightarrow> of_nat n < r \<Longrightarrow> of_nat (Suc n) \<le> r"
proof -
  assume "r \<in> \<int>" "of_nat n < r"
  then obtain z where z: "r = of_int z" by (auto elim: Ints_cases)
  with \<open>of_nat n < r\<close> have "int n < z" by (metis of_int_less_iff of_int_of_nat_eq)
  then have "int (Suc n) \<le> z" by simp
  then show ?thesis unfolding z by (metis of_int_le_iff of_int_of_nat_eq)
qed

lemma restartAttemptsOf_update [simp]: "restartAttemptsOf c (st\<lparr>rm_attempts := AList.update c xs (rm_attempts st)\<rparr>) = xs"
  by (simp add: restartAttemptsOf_def update_conv')

text \<open>The history that the manager keeps agrees with the restarts it allowed, as far as later windows see them.\<close>

definition recent :: "rat \<Rightarrow> int \<Rightarrow> int list \<Rightarrow> int list" where
  "recent w now xs = filter (\<lambda>t. of_int now - w < of_int t) xs"

lemma recent_recent: "t \<le> t' \<Longrightarrow> recent w t' (recent w t xs) = recent w t' xs"
proof -
  assume "t \<le> t'"
  then have "(of_int t :: rat) \<le> of_int t'" by simp
  then show ?thesis unfolding recent_def by (induction xs) auto
qed

lemma recent_append [simp]: "recent w t (xs @ ys) = recent w t xs @ recent w t ys"
  by (simp add: recent_def)

lemma plan_cases:
  "\<not> rx_allowed (fst (planRecordingRestart env t c st)) \<and> restartAttemptsOf c (snd (planRecordingRestart env t c st)) = recent (getRestartWindowMs env) t (restartAttemptsOf c st)
   \<or> rx_allowed (fst (planRecordingRestart env t c st))
     \<and> restartAttemptsOf c (snd (planRecordingRestart env t c st)) = recent (getRestartWindowMs env) t (restartAttemptsOf c st) @ [t]
     \<and> of_nat (Suc (length (recent (getRestartWindowMs env) t (restartAttemptsOf c st)))) \<le> getRestartMaxAttempts env"
  using below_integer [OF restart_limits(1)] by (auto simp: planRecordingRestart_def Let_def recent_def [symmetric] not_le)

text \<open>One more restart at the end of the history.\<close>

lemma window_snoc:
  assumes "\<forall>x. of_nat (length (filter (inWindow w x) A)) \<le> n" "\<forall>a\<in>set A. a \<le> t" "of_nat (Suc (length (recent w t A))) \<le> n"
  shows "of_nat (length (filter (inWindow w x) (A @ [t]))) \<le> (n :: rat)"
proof (cases "of_int t \<le> x")
  case True
  have "length (filter (inWindow w x) A) \<le> length (recent w t A)"
    using True unfolding recent_def inWindow_def by (induction A) auto
  with assms(3) have "of_nat (Suc (length (filter (inWindow w x) A))) \<le> n" by (smt (verit) Suc_le_mono of_nat_le_iff order_trans)
  moreover have "length (filter (inWindow w x) (A @ [t])) \<le> Suc (length (filter (inWindow w x) A))" by simp
  ultimately show ?thesis by (meson of_nat_le_iff order_trans)
next
  case False
  then have "\<not> inWindow w x t" by (simp add: inWindow_def)
  with assms(1) show ?thesis by simp
qed

lemma brake_history:
  assumes "sorted ts" "\<forall>a\<in>set A. \<forall>t\<in>set ts. a \<le> t" "\<forall>t\<in>set ts. recent (getRestartWindowMs env) t (restartAttemptsOf c st) = recent (getRestartWindowMs env) t A"
    and "\<forall>x. of_nat (length (filter (inWindow (getRestartWindowMs env) x) A)) \<le> getRestartMaxAttempts env"
  shows "\<forall>x. of_nat (length (filter (inWindow (getRestartWindowMs env) x) (A @ allowedTimes env c ts st))) \<le> getRestartMaxAttempts env"
  using assms
proof (induction ts arbitrary: A st)
  case (Cons t ts)
  let ?w = "getRestartWindowMs env" and ?p = "planRecordingRestart env t c st"
  have le: "\<forall>t'\<in>set ts. t \<le> t'" and s: "sorted ts" using Cons.prems(1) by simp_all
  have r: "recent ?w t (restartAttemptsOf c st) = recent ?w t A" using Cons.prems(3) by simp
  show ?case
  proof (cases "rx_allowed (fst ?p)")
    case False
    then have a: "restartAttemptsOf c (snd ?p) = recent ?w t A" using plan_cases [of env t c st] r by auto
    have "\<forall>x. of_nat (length (filter (inWindow ?w x) (A @ allowedTimes env c ts (snd ?p)))) \<le> getRestartMaxAttempts env"
      by (rule Cons.IH) (use Cons.prems(2,4) s le in \<open>simp_all add: a recent_recent\<close>)
    with False show ?thesis by (simp add: split_beta)
  next
    case True
    then have a: "restartAttemptsOf c (snd ?p) = recent ?w t A @ [t]" and n: "of_nat (Suc (length (recent ?w t A))) \<le> getRestartMaxAttempts env"
      using plan_cases [of env t c st] r by auto
    have A: "\<forall>x. of_nat (length (filter (inWindow ?w x) (A @ [t]))) \<le> getRestartMaxAttempts env"
      using window_snoc [OF Cons.prems(4) _ n] Cons.prems(2) by simp
    have "\<forall>x. of_nat (length (filter (inWindow ?w x) ((A @ [t]) @ allowedTimes env c ts (snd ?p)))) \<le> getRestartMaxAttempts env"
      by (rule Cons.IH) (use Cons.prems(2) s le A in \<open>auto simp: a recent_recent\<close>)
    with True show ?thesis by (simp add: split_beta)
  qed
qed simp

text \<open>
  Property C22. The brake against restart storms. However often the process of a camera dies, handled at times that do
  not go back and from an empty history, every window of the configured length holds at most the configured number of
  allowed restarts; both limits are positive whatever the environment says. A restart is delayed by one millisecond at
  least and by the configured maximum at most.
\<close>

theorem restart_brake:
  assumes "sorted ts" "restartAttemptsOf c st = []"
  shows "of_nat (length (filter (inWindow (getRestartWindowMs env) x) (allowedTimes env c ts st))) \<le> getRestartMaxAttempts env
    \<and> 1 \<le> getRestartMaxAttempts env \<and> 1000 \<le> getRestartWindowMs env
    \<and> (rx_allowed (fst (planRecordingRestart env now c st')) \<longrightarrow>
        1 \<le> rx_delayMs (fst (planRecordingRestart env now c st')) \<and> rx_delayMs (fst (planRecordingRestart env now c st')) \<le> getRestartMaxDelayMs env)"
proof -
  have "of_nat (length (filter (inWindow (getRestartWindowMs env) x) (allowedTimes env c ts st))) \<le> getRestartMaxAttempts env"
    using brake_history [of ts "[]" env c st] assms restart_limits(2) [of env] by (simp add: recent_def)
  moreover have "1 \<le> getRestartBaseDelayMs env * 2 ^ n" for n
    using restart_limits(4) [of env] mult_mono [of 1 "getRestartBaseDelayMs env" 1 "2 ^ n"] by simp
  ultimately show ?thesis using restart_limits [of env] by (auto simp: planRecordingRestart_def Let_def)
qed

text \<open>Eight deaths a second apart: five restarts are allowed, then the brake holds.\<close>

theorem restart_brake_witness:
  "sorted [0, 1000, 2000, 3000, 4000, 5000, 6000, 7000 :: int] \<and> restartAttemptsOf ''a'' (recInit []) = []
   \<and> of_nat (length (filter (inWindow (getRestartWindowMs (\<lambda>_. None)) 7000) (allowedTimes (\<lambda>_. None) ''a'' [0, 1000, 2000, 3000, 4000, 5000, 6000, 7000] (recInit []))))
       \<le> getRestartMaxAttempts (\<lambda>_. None)
   \<and> length (allowedTimes (\<lambda>_. None) ''a'' [0, 1000, 2000, 3000, 4000, 5000, 6000, 7000] (recInit [])) = 5"
proof -
  have h: "sorted [0, 1000, 2000, 3000, 4000, 5000, 6000, 7000 :: int]" "restartAttemptsOf ''a'' (recInit []) = []"
    by (simp_all add: restartAttemptsOf_def recInit_def)
  have "length (allowedTimes (\<lambda>_. None) ''a'' [0, 1000, 2000, 3000, 4000, 5000, 6000, 7000] (recInit [])) = 5" by code_simp
  with h restart_brake [OF h, of "\<lambda>_. None" 7000] show ?thesis by simp
qed

section \<open>The disk\<close>

lemma suspend_frame: "rm_cameras (suspendRecordingForDiskGuard c st) = rm_cameras st" "rm_active (suspendRecordingForDiskGuard c st) = rm_active st"
  "rm_timers (suspendRecordingForDiskGuard c st) = rm_timers st"
  by (simp_all add: suspendRecordingForDiskGuard_def addCall_def markStop_def updateProc_def split: option.split)

definition told :: "nat \<Rightarrow> recState \<Rightarrow> bool" where
  "told u st \<longleftrightarrow> (\<forall>p\<in>set (rm_procs st). pp_uid p = u \<longrightarrow> pp_stopRequested p)"

lemma told_suspend: "told u st \<or> map_of (rm_active st) c = Some u \<Longrightarrow> told u (suspendRecordingForDiskGuard c st)"
  by (auto simp: told_def suspendRecordingForDiskGuard_def addCall_def markStop_def updateProc_def split: option.split)

lemma suspend_fold: "rm_cameras (fold suspendRecordingForDiskGuard cs st) = rm_cameras st \<and> rm_timers (fold suspendRecordingForDiskGuard cs st) = rm_timers st"
  by (induction cs arbitrary: st) (simp_all add: suspend_frame)

lemma told_fold: "told u st \<or> (\<exists>c\<in>set cs. map_of (rm_active st) c = Some u) \<Longrightarrow> told u (fold suspendRecordingForDiskGuard cs st)"
proof (induction cs arbitrary: st)
  case (Cons c cs)
  have "told u (suspendRecordingForDiskGuard c st) \<or> (\<exists>c'\<in>set cs. map_of (rm_active (suspendRecordingForDiskGuard c st)) c' = Some u)"
    using Cons.prems told_suspend [of u st c] by (auto simp: suspend_frame)
  from Cons.IH [OF this] show ?case by simp
qed simp

text \<open>
  The guard of the disk suspends, it does not disarm. Whatever the usage of the disk, the rows of the
  cameras - and so what the customer wants recorded - and the pending restarts are unchanged. When the usage is
  critical every recording that the manager holds is told to stop, as a stop that was asked for, and when it is not
  nothing changes. A disk without a size is critical, and one without the configured free space is.
\<close>

theorem guard_suspends:
  "rm_cameras (fold suspendRecordingForDiskGuard (enforceDiskGuard env minFreeBytes minFreePercent d st) st) = rm_cameras st
    \<and> rm_timers (fold suspendRecordingForDiskGuard (enforceDiskGuard env minFreeBytes minFreePercent d st) st) = rm_timers st
    \<and> (if diskCritical env minFreeBytes minFreePercent d
       then \<forall>c u p. map_of (rm_active st) c = Some u \<and> pp_uid p = u
           \<and> p \<in> set (rm_procs (fold suspendRecordingForDiskGuard (enforceDiskGuard env minFreeBytes minFreePercent d st) st)) \<longrightarrow> pp_stopRequested p
       else fold suspendRecordingForDiskGuard (enforceDiskGuard env minFreeBytes minFreePercent d st) st = st)
    \<and> (dk_totalBytes d \<le> 0 \<longrightarrow> diskCritical env minFreeBytes minFreePercent d)
    \<and> (\<not> minimumStorageFree minFreeBytes minFreePercent d \<longrightarrow> diskCritical env minFreeBytes minFreePercent d)"
proof -
  let ?o = "\<lparr>opt_min = Some 1, opt_max = Some 100, opt_integer = False\<rparr> :: envNumberOptions"
  have "fst (envNumber (env ''RECORDING_DISK_GUARD_MAX_USED_PERCENT'') (Fin 92) ?o) \<le> 100" by (rule envNumber_limits(2)) simp_all
  then have z: "dk_totalBytes d \<le> 0 \<longrightarrow> diskCritical env minFreeBytes minFreePercent d" by (auto simp: diskCritical_def usedPercent_def Let_def)
  have "told u (fold suspendRecordingForDiskGuard (map fst (rm_active st)) st)" if "map_of (rm_active st) c = Some u" for c u
  proof (rule told_fold)
    have "c \<in> set (map fst (rm_active st))" using map_of_SomeD [OF that] by force
    then show "told u st \<or> (\<exists>c'\<in>set (map fst (rm_active st)). map_of (rm_active st) c' = Some u)" using that by blast
  qed
  then have "\<forall>c u p. map_of (rm_active st) c = Some u \<and> pp_uid p = u \<and> p \<in> set (rm_procs (fold suspendRecordingForDiskGuard (map fst (rm_active st)) st)) \<longrightarrow> pp_stopRequested p"
    by (auto simp: told_def)
  with z show ?thesis using suspend_fold by (auto simp: enforceDiskGuard_def minimumStorageFree_def diskCritical_def Let_def)
qed

section \<open>Stalled recordings\<close>

lemma newestFile_max: "f' = newestFile f fs \<Longrightarrow> f' \<in> set (f # fs) \<and> (\<forall>g\<in>set (f # fs). sf_mtimeMs g \<le> sf_mtimeMs f')"
proof (induction f fs rule: newestFile.induct)
  case (2 f g gs)
  let ?h = "if sf_mtimeMs f < sf_mtimeMs g then g else f"
  have "f' \<in> set (?h # gs) \<and> (\<forall>x\<in>set (?h # gs). sf_mtimeMs x \<le> sf_mtimeMs f')" by (rule "2.IH") (use "2.prems" in simp)
  then show ?case by (auto split: if_splits)
qed simp

text \<open>
  Property C24. No healthy recording is called stalled. A recording is declared stalled only when its process has run
  for the grace period (30 seconds at least, and never less than the threshold), its directory could be read and holds
  files, none of them has been written for the threshold (20 seconds at least, whatever the environment says), and the
  newest of them has not grown since the last look at it.
\<close>

theorem stalled_with_proof:
  assumes "getRecordingWriteProgress env now proc files previous = (wp, sample)" "wp_stalled wp"
  shows "\<exists>p f fs current. proc = Some p \<and> files = Some (f # fs) \<and> current \<in> set (f # fs) \<and> wp_file wp = Some current \<and> sample = Some current
    \<and> 20 \<le> wp_stallThresholdSeconds wp \<and> 30 \<le> wp_graceSeconds wp \<and> wp_stallThresholdSeconds wp \<le> wp_graceSeconds wp
    \<and> wp_graceSeconds wp * 1000 \<le> of_int (now - pp_startedAt p)
    \<and> (\<forall>g\<in>set (f # fs). sf_mtimeMs g + wp_stallThresholdSeconds wp * 1000 \<le> of_int now)
    \<and> (\<forall>o'. previous = Some o' \<and> sf_path o' = sf_path current \<longrightarrow> sf_size current \<le> sf_size o')"
proof -
  let ?t = "getWriteStallSeconds env"
  let ?g = "getWriteStallGraceSeconds env ?t"
  obtain p f fs where pf: "proc = Some p" "files = Some (f # fs)" "?g \<le> of_int (now - pp_startedAt p) / 1000"
    using assms by (auto simp: getRecordingWriteProgress_def Let_def split: option.splits list.splits if_splits)
  define current where "current = newestFile f fs"
  define since where "since = max 0 ((of_int now - sf_mtimeMs current) / 1000)"
  define grew where "grew = (case previous of None \<Rightarrow> False | Some o' \<Rightarrow> sf_path o' = sf_path current \<and> sf_size o' < sf_size current)"
  have w: "wp_file wp = Some current" "sample = Some current" "wp_stallThresholdSeconds wp = ?t" "wp_graceSeconds wp = ?g" "\<not> grew" "?t \<le> since"
    using assms pf by (cases previous; auto simp: getRecordingWriteProgress_def Let_def current_def since_def grew_def split: if_splits)+
  have t: "20 \<le> ?t" "30 \<le> ?g" "?t \<le> ?g"
    unfolding getWriteStallGraceSeconds_def by (simp_all add: getWriteStallSeconds_def le_max_iff_disj)
  have n: "current \<in> set (f # fs)" "\<forall>g\<in>set (f # fs). sf_mtimeMs g \<le> sf_mtimeMs current" using newestFile_max [OF current_def] by simp_all
  have "sf_mtimeMs current + ?t * 1000 \<le> of_int now" using w(6) t(1) by (auto simp: since_def max_def field_simps split: if_splits)
  then have "\<forall>g\<in>set (f # fs). sf_mtimeMs g + ?t * 1000 \<le> of_int now" using n(2) by force
  moreover have "\<forall>o'. previous = Some o' \<and> sf_path o' = sf_path current \<longrightarrow> sf_size current \<le> sf_size o'" using w(5) by (auto simp: grew_def)
  moreover have "?g * 1000 \<le> of_int (now - pp_startedAt p)" using pf(3) by simp
  ultimately show ?thesis using pf(1,2) w(1-4) t n(1) by (simp only: simp_thms) blast
qed

theorem stalled_with_proof_witness:
  "wp_stalled (fst (getRecordingWriteProgress (\<lambda>_. None) 200000
      (Some \<lparr>pp_uid = 1, pp_cameraId = ''a'', pp_segmentSeconds = 300, pp_startedAt = 0, pp_alive = True, pp_stopRequested = False, pp_finalizing = False,
         pp_abnormal = False, pp_done = False\<rparr>) (Some [\<lparr>sf_path = ''x.ts'', sf_size = 10, sf_mtimeMs = 100000\<rparr>]) None))
   \<and> 20 \<le> wp_stallThresholdSeconds (fst (getRecordingWriteProgress (\<lambda>_. None) 200000
      (Some \<lparr>pp_uid = 1, pp_cameraId = ''a'', pp_segmentSeconds = 300, pp_startedAt = 0, pp_alive = True, pp_stopRequested = False, pp_finalizing = False,
         pp_abnormal = False, pp_done = False\<rparr>) (Some [\<lparr>sf_path = ''x.ts'', sf_size = 10, sf_mtimeMs = 100000\<rparr>]) None))"
  (is "wp_stalled (fst ?r) \<and> _")
proof -
  have "wp_stalled (fst ?r)" by code_simp
  then show ?thesis using stalled_with_proof [of "\<lambda>_. None" 200000 _ _ _ "fst ?r" "snd ?r"] by (metis prod.collapse)
qed

section \<open>Concrete runs\<close>

definition camA :: recCamera where
  "camA = \<lparr>rc_id = ''a'', rc_enabled = True, rc_recordingEnabled = False, rc_recordingMode = ''continuous''\<rparr>"

text \<open>A start of the camera that runs to its end, as call 0, giving process 1.\<close>

definition startA :: "recEvent list" where
  "startA = [CallStart ''a'' 300 None, Gate 0 True True True, Check 0 True, Spawn 0 0, Commit 0 True]"

theorem one_recording_per_camera_witness:
  "serialRun (\<lambda>_. None) ''a'' (startA @ [ProcExit 1, FinalizeEnd 1 5000, TimerFires ''a'', RestartRead 2, Gate 2 True True True, Check 2 True, Spawn 2 6000])
      (recInit [camA])
   \<and> length (filter (running ''a'') (rm_procs (recRun (\<lambda>_. None) (startA @ [ProcExit 1, FinalizeEnd 1 5000, TimerFires ''a'', RestartRead 2,
        Gate 2 True True True, Check 2 True, Spawn 2 6000]) (recInit [camA])))) \<le> 1
   \<and> length (rm_procs (recRun (\<lambda>_. None) (startA @ [ProcExit 1, FinalizeEnd 1 5000, TimerFires ''a'', RestartRead 2,
        Gate 2 True True True, Check 2 True, Spawn 2 6000]) (recInit [camA]))) = 2"
  (is "?s \<and> _ \<and> ?n")
proof -
  have s: ?s by code_simp
  moreover have ?n by code_simp
  ultimately show ?thesis using one_recording_per_camera [OF s] by blast
qed

text \<open>The process dies, a restart is scheduled and its timer fires between the two halves of the stop.\<close>

theorem stop_wins_witness:
  "map_of (rm_timers (recRun (\<lambda>_. None) (startA @ [ProcExit 1, FinalizeEnd 1 5000]) (recInit [camA]))) ''a'' \<noteq> None
   \<and> startCount ''a'' (recRun (\<lambda>_. None) [RestartRead 3] (recApply (\<lambda>_. None) (StopMark 2) (recRun (\<lambda>_. None) [TimerFires ''a'']
       (recApply (\<lambda>_. None) (StopWrite 2) (recRun (\<lambda>_. None) (startA @ [ProcExit 1, FinalizeEnd 1 5000, CallStop ''a'' None]) (recInit [camA])))))) = 0"
proof -
  let ?e = "(\<lambda>_. None) :: environment" and ?es = "startA @ [ProcExit 1, FinalizeEnd 1 5000, CallStop ''a'' None]"
  let ?st = "recRun ?e ?es (recInit [camA])"
  let ?st1 = "recRun ?e [TimerFires ''a''] (recApply ?e (StopWrite 2) ?st)"
  let ?q = "\<lambda>ph. \<lparr>rq_id = 2, rq_cameraId = ''a'', rq_segmentSeconds = 0, rq_mode = None, rq_phase = ph\<rparr>"
  have s: "serialRun ?e ''a'' ?es (recInit [camA])" by code_simp
  have h: "startCount ''a'' ?st = 0" "findCall 2 ?st = Some (?q AtStopWrite)" "findRow ''a'' ?st \<noteq> None" by code_simp+
  have h1: "findCall 2 ?st1 = Some (?q AtStopMark)" by code_simp
  have t: "map_of (rm_timers (recRun ?e (startA @ [ProcExit 1, FinalizeEnd 1 5000]) (recInit [camA]))) ''a'' \<noteq> None" by code_simp
  show ?thesis using t stop_wins [OF s refl h(1,2) _ _ h(3) refl h1 _ _ refl, of "[RestartRead 3]"] by simp
qed

text \<open>
  Two starts that overlap: both see that nothing records the camera before either has a process. The second process
  takes the place of the first, and a stop that runs to its end leaves the first one running, out of reach.
\<close>

lemma overlapping_starts_leak:
  "let st = recRun (\<lambda>_. None) [CallStart ''a'' 300 None, CallStart ''a'' 300 None, Gate 0 True True True, Gate 1 True True True, Check 0 True, Check 1 True,
        Spawn 0 0, Spawn 1 0, Commit 0 True, Commit 1 True, CallStop ''a'' None, StopWrite 4, StopMark 4, ProcExit 3, StopWaited 4, FinalizeEnd 3 9000]
        (recInit [camA])
   in map pp_uid (filter (running ''a'') (rm_procs st)) = [2] \<and> map pp_alive (filter (running ''a'') (rm_procs st)) = [True]
      \<and> map_of (rm_active st) ''a'' = None \<and> rm_calls st = [] \<and> map rc_recordingEnabled (rm_cameras st) = [False]"
  by code_simp

text \<open>
  A stop that comes while a start waits for the codec finds nothing to stop and reports so; the start goes on, spawns
  the process and writes that the camera is to be recorded.
\<close>

lemma stop_lost_to_start:
  "let st = recRun (\<lambda>_. None) [CallStart ''a'' 300 None, Gate 0 True True True, Check 0 True, CallStop ''a'' None, StopWrite 1, StopMark 1,
        Spawn 0 0, Commit 0 True] (recInit [camA])
   in length (filter (running ''a'') (rm_procs st)) = 1 \<and> rm_calls st = [] \<and> map rc_recordingEnabled (rm_cameras st) = [True]"
  by code_simp

text \<open>The same with a restart: its timer has fired and it has read the desired state when the stop comes.\<close>

lemma stop_lost_to_restart:
  "let st = recRun (\<lambda>_. None) (startA @ [ProcExit 1, FinalizeEnd 1 5000, TimerFires ''a'', RestartRead 2, CallStop ''a'' None, StopWrite 3, StopMark 3,
        Gate 2 True True True, Check 2 True, Spawn 2 6000, Commit 2 True]) (recInit [camA])
   in length (filter (running ''a'') (rm_procs st)) = 1 \<and> rm_calls st = [] \<and> map rc_recordingEnabled (rm_cameras st) = [True]"
  by code_simp

text \<open>
  An edit that began before the stop, say of the name of the camera, writes back the desired state it had read. After the
  stop has ended the camera is desired again, and the next load of the program records it; and when the write falls into
  the stop, a restart that the stop meant to cancel finds the camera desired and records it at once.
\<close>

lemma stale_edit_undoes_stop:
  "startEnabledContinuousRecordings (rm_cameras (recRun (\<lambda>_. None) (startA @ [CallStop ''a'' None, StopWrite 2, StopMark 2, ProcExit 1, StopWaited 2])
      (recInit [camA]))) = []
   \<and> startEnabledContinuousRecordings (rm_cameras (recRun (\<lambda>_. None) (startA @ [CallStop ''a'' None, StopWrite 2, StopMark 2, ProcExit 1, StopWaited 2,
      CameraEdited ''a'' True True ''continuous'']) (recInit [camA]))) = [''a'']"
  by code_simp

lemma stale_edit_revives_restart:
  "let st = recRun (\<lambda>_. None) (startA @ [ProcExit 1, FinalizeEnd 1 5000, CallStop ''a'' None, StopWrite 2, CameraEdited ''a'' True True ''continuous'',
        TimerFires ''a'', RestartRead 3, StopMark 2, Gate 3 True True True, Check 3 True, Spawn 3 6000, Commit 3 True]) (recInit [camA])
   in length (filter (running ''a'') (rm_procs st)) = 1 \<and> rm_calls st = []"
  by code_simp

text \<open>
  The end of the program stops what it records as an operator would: the cameras are no longer desired, and the next
  load starts none of them.
\<close>

lemma shutdown_disarms:
  "startEnabledContinuousRecordings (rm_cameras (recRun (\<lambda>_. None) startA (recInit [camA]))) = [''a'']
   \<and> startEnabledContinuousRecordings (rm_cameras (recRun (\<lambda>_. None) (startA @ [Shutdown, StopWrite 2, StopMark 2, ProcExit 1, StopWaited 2]) (recInit [camA]))) = []"
  by code_simp

section \<open>The length of a segment\<close>

text \<open>
  Whatever a caller asks for, the length of a segment that is passed to FFmpeg lies in the declared limits, a request
  within them is kept as an integer, and normalising again changes nothing.
\<close>

lemma normalizeSegmentSeconds_limits:
  "5 \<le> normalizeSegmentSeconds v \<and> normalizeSegmentSeconds v \<le> 3600
   \<and> normalizeSegmentSeconds (Fin (of_int (normalizeSegmentSeconds v))) = normalizeSegmentSeconds v"
  by (cases v) (auto simp: normalizeSegmentSeconds_def Let_def SEGMENT_SECONDS_MIN_def SEGMENT_SECONDS_MAX_def SEGMENT_SECONDS_FALLBACK_def math_trunc_def)

end
