(* ===== verification/Recording_Args.thy ===== *)
theory Recording_Args
  imports Recording_Manager
begin

text \<open>
  Two more parts of \<open>apps/api/src/recordings/recording-process-manager.service.ts\<close>: the command line of the recording
  process, and the recording by motion with its ring of segments before the event.

  The recording by motion is followed effect by effect: an operation gives the list of the states it passes through, so
  that the order of its effects can be spoken about. Whether starting, stopping, writing an event or bringing up the
  ring succeeds is an argument.
\<close>

section \<open>The command line\<close>

datatype codecMode = ModeCopy | ModeH265 | ModeH264

record outputCodec =
  oc_videoCodec :: string
  oc_transcode :: bool
  oc_outputIsHevc :: bool

record argCamera =
  ac_preferredRtspTransport :: "string option"
  ac_recordingWidth :: nat
  ac_recordingHeight :: nat
  ac_recordingFps :: nat
  ac_recordingBitrateKbps :: nat

definition sourceIsHevcWithProbe :: "string option \<Rightarrow> bool" where
  "sourceIsHevcWithProbe codec = (case codec of None \<Rightarrow> False | Some c \<Rightarrow> str_includes c ''h265'' \<or> str_includes c ''hevc'')"

definition sourceIsH264WithProbe :: "string option \<Rightarrow> bool" where
  "sourceIsH264WithProbe codec = (case codec of None \<Rightarrow> False | Some c \<Rightarrow> str_includes c ''h264'' \<or> str_includes c ''avc'')"

definition resolveOutputVideoCodec :: "codecMode \<Rightarrow> string option \<Rightarrow> outputCodec" where
  "resolveOutputVideoCodec mode codec =
     (case mode of
        ModeH265 \<Rightarrow> (if sourceIsHevcWithProbe codec then \<lparr>oc_videoCodec = ''copy'', oc_transcode = False, oc_outputIsHevc = True\<rparr>
          else \<lparr>oc_videoCodec = ''libx265'', oc_transcode = True, oc_outputIsHevc = True\<rparr>)
      | ModeH264 \<Rightarrow> (if sourceIsH264WithProbe codec then \<lparr>oc_videoCodec = ''copy'', oc_transcode = False, oc_outputIsHevc = False\<rparr>
          else \<lparr>oc_videoCodec = ''libx264'', oc_transcode = True, oc_outputIsHevc = False\<rparr>)
      | ModeCopy \<Rightarrow> \<lparr>oc_videoCodec = ''copy'', oc_transcode = False, oc_outputIsHevc = sourceIsHevcWithProbe codec\<rparr>)"

text \<open>A width, height, rate or bitrate that the camera does not have is zero: both are false in a condition.\<close>

definition scalingArgs :: "argCamera \<Rightarrow> outputCodec \<Rightarrow> string list" where
  "scalingArgs cam oc =
     (if oc_transcode oc \<and> oc_outputIsHevc oc then [''-preset'', ''medium'', ''-crf'', ''28''] else [])
     @ (if oc_transcode oc \<and> \<not> oc_outputIsHevc oc then [''-preset'', ''veryfast'', ''-crf'', ''23'', ''-pix_fmt'', ''yuv420p''] else [])
     @ (if oc_transcode oc \<and> ac_recordingWidth cam \<noteq> 0 \<and> ac_recordingHeight cam \<noteq> 0
        then [''-vf'', ''scale='' @ show_nat (ac_recordingWidth cam) @ '':'' @ show_nat (ac_recordingHeight cam)] else [])
     @ (if oc_transcode oc \<and> ac_recordingFps cam \<noteq> 0 then [''-r'', show_nat (ac_recordingFps cam)] else [])
     @ (if oc_transcode oc \<and> ac_recordingBitrateKbps cam \<noteq> 0
        then [''-b:v'', show_nat (ac_recordingBitrateKbps cam) @ ''k'', ''-maxrate'', show_nat (ac_recordingBitrateKbps cam) @ ''k''] else [])"

definition buildArgs :: "codecMode \<Rightarrow> string \<Rightarrow> string option \<Rightarrow> nat option \<Rightarrow> argCamera \<Rightarrow> string \<Rightarrow> string \<Rightarrow> jsnum \<Rightarrow> string option \<Rightarrow> string list" where
  "buildArgs mode audioCodec configTransport configTimeout cam rtspUrl outputPattern segmentSeconds codec =
     (let transport = (case ac_preferredRtspTransport cam of Some t \<Rightarrow> t | None \<Rightarrow> (case configTransport of Some t \<Rightarrow> t | None \<Rightarrow> ''tcp''));
          stimeout = show_nat (case configTimeout of Some n \<Rightarrow> n | None \<Rightarrow> 8000000);
          oc = resolveOutputVideoCodec mode codec
      in [''-hide_banner'', ''-loglevel'', ''warning'', ''-rtsp_transport'', transport, ''-timeout'', stimeout, ''-i'', rtspUrl,
          ''-map'', ''0:v:0'', ''-map'', ''0:a:0?'', ''-c:v'', oc_videoCodec oc]
         @ scalingArgs cam oc
         @ [''-c:a'', audioCodec, ''-ar'', ''44100'', ''-ac'', ''1'', ''-f'', ''segment'', ''-segment_format'', ''mpegts'',
            ''-segment_time'', show_nat (nat (normalizeSegmentSeconds segmentSeconds)), ''-reset_timestamps'', ''1'', ''-strftime'', ''1'', outputPattern])"

section \<open>Recording by motion\<close>

record motionState =
  mo_ring :: bool
  mo_recording :: bool
  mo_stopTimer :: "rat option"
  mo_promoted :: "int list"
  mo_events :: "string list"
  mo_row :: "recCamera option"

datatype motionResult = MotionNotFound | MotionIgnored string | MotionFailed | MotionStatus string

definition getMotionPostRollSeconds :: "environment \<Rightarrow> rat" where
  "getMotionPostRollSeconds env =
     (let configured = fst (envNumber (env ''MOTION_RECORDING_POST_ROLL_SECONDS'') (Fin 60) \<lparr>opt_min = None, opt_max = None, opt_integer = False\<rparr>)
      in if 0 < configured then configured else 60)"

text \<open>\<open>startPreBuffer\<close>; \<open>up\<close> says that FFmpeg and the camera are there.\<close>

definition startRing :: "rat \<Rightarrow> bool \<Rightarrow> motionState \<Rightarrow> motionState" where
  "startRing preEventSeconds up st =
     (if preEventSeconds \<le> 0 \<or> mo_ring st then st
      else if \<not> up \<or> (case mo_row st of None \<Rightarrow> True | Some r \<Rightarrow> \<not> rc_enabled r) then st
      else st\<lparr>mo_ring := True\<rparr>)"

definition promoteRing :: "rat \<Rightarrow> int \<Rightarrow> motionState \<Rightarrow> motionState" where
  "promoteRing preEventSeconds t st = (if 0 < preEventSeconds \<and> mo_ring st then st\<lparr>mo_promoted := mo_promoted st @ [t]\<rparr> else st)"

definition motionEvent :: "string \<Rightarrow> motionState \<Rightarrow> motionState" where
  "motionEvent e st = st\<lparr>mo_events := mo_events st @ [e]\<rparr>"

definition scheduleMotionStop :: "environment \<Rightarrow> motionState \<Rightarrow> motionState" where
  "scheduleMotionStop env st = st\<lparr>mo_stopTimer := Some (getMotionPostRollSeconds env)\<rparr>"

text \<open>What happens when the start, or the writing of its event, throws.\<close>

definition motionFailure :: "rat \<Rightarrow> bool \<Rightarrow> motionState list \<Rightarrow> motionState list" where
  "motionFailure preEventSeconds up trace =
     (let s1 = startRing preEventSeconds up (last trace) in trace @ [s1, motionEvent ''MOTION_RECORDING_FAILED'' s1])"

definition handleMotionDetected ::
    "environment \<Rightarrow> rat \<Rightarrow> int \<Rightarrow> int \<Rightarrow> string option \<Rightarrow> bool \<Rightarrow> bool \<Rightarrow> motionState \<Rightarrow> motionResult \<times> motionState list" where
  "handleMotionDetected env preEventSeconds triggeredAt startedAt started eventOk up st =
     (case mo_row st of
        None \<Rightarrow> (MotionNotFound, [st])
      | Some r \<Rightarrow>
          if \<not> rc_enabled r then (MotionIgnored ''camera_disabled'', [st])
          else if rc_recordingMode r \<noteq> ''motion'' then (MotionIgnored ''motion_recording_not_enabled'', [st])
          else if mo_recording st then (MotionStatus ''already_recording'', [st, scheduleMotionStop env st])
          else
            let s1 = promoteRing preEventSeconds triggeredAt st in
            (case started of
               None \<Rightarrow> (MotionFailed, motionFailure preEventSeconds up [st, s1])
             | Some status \<Rightarrow>
                 let s2 = s1\<lparr>mo_recording := True\<rparr>;
                     s3 = promoteRing preEventSeconds startedAt s2;
                     s4 = s3\<lparr>mo_ring := False\<rparr>
                 in if \<not> eventOk then (MotionFailed, motionFailure preEventSeconds up [st, s1, s2, s3, s4])
                    else let s5 = motionEvent ''MOTION_RECORDING_STARTED'' s4
                      in (MotionStatus status, [st, s1, s2, s3, s4, s5, scheduleMotionStop env s5])))"

definition stopMotionRecordingAfterQuiet :: "rat \<Rightarrow> bool \<Rightarrow> bool \<Rightarrow> motionState \<Rightarrow> motionState list" where
  "stopMotionRecordingAfterQuiet preEventSeconds up stopOk st =
     (let s0 = st\<lparr>mo_stopTimer := None\<rparr> in
      case mo_row s0 of
        None \<Rightarrow> [st, s0]
      | Some r \<Rightarrow>
          if rc_recordingMode r \<noteq> ''motion'' \<or> \<not> rc_recordingEnabled r then [st, s0]
          else let s1 = (if 0 < preEventSeconds then startRing preEventSeconds up s0 else s0) in
            if \<not> stopOk then [st, s0, s1]
            else let s2 = s1\<lparr>mo_recording := False, mo_row := Some (r\<lparr>rc_recordingEnabled := False\<rparr>)\<rparr>
              in [st, s0, s1, s2, motionEvent ''MOTION_RECORDING_STOPPED'' s2])"

definition setMotionRecording :: "rat \<Rightarrow> bool \<Rightarrow> bool \<Rightarrow> bool \<Rightarrow> motionState \<Rightarrow> (string option) \<times> motionState list" where
  "setMotionRecording preEventSeconds up stopOk enable st =
     (case mo_row st of
        None \<Rightarrow> (None, [st])
      | Some r \<Rightarrow>
          let s0 = st\<lparr>mo_stopTimer := None\<rparr>; s1 = (if stopOk then s0\<lparr>mo_recording := False\<rparr> else s0) in
          if enable
          then let s2 = s1\<lparr>mo_row := Some (r\<lparr>rc_recordingMode := ''motion'', rc_recordingEnabled := False\<rparr>)\<rparr>
            in (Some ''motion_recording_armed'', [st, s0, s1, s2, startRing preEventSeconds up s2])
          else let s2 = s1\<lparr>mo_ring := False\<rparr>
            in (Some ''motion_recording_disabled'', [st, s0, s1, s2, s2\<lparr>mo_row := Some (r\<lparr>rc_recordingMode := ''manual'', rc_recordingEnabled := False\<rparr>)\<rparr>]))"

section \<open>Properties\<close>

lemma normalized_range: "5 \<le> normalizeSegmentSeconds v" "normalizeSegmentSeconds v \<le> 3600"
  by (cases v, auto simp: normalizeSegmentSeconds_def Let_def SEGMENT_SECONDS_MIN_def SEGMENT_SECONDS_MAX_def SEGMENT_SECONDS_FALLBACK_def)+

text \<open>The command line never asks for a segment outside the limits, and copies without any option of an encoder.\<close>

lemma buildArgs_segment_time:
  "\<exists>pre n post. buildArgs mode ac ct cs cam url out seconds codec = pre @ [''-segment_time'', show_nat n] @ post \<and> 5 \<le> n \<and> n \<le> 3600
     \<and> length post = 5 \<and> last post = out"
proof (intro exI conjI)
  let ?n = "nat (normalizeSegmentSeconds seconds)"
  show "buildArgs mode ac ct cs cam url out seconds codec =
      ([''-hide_banner'', ''-loglevel'', ''warning'', ''-rtsp_transport'',
        case ac_preferredRtspTransport cam of Some t \<Rightarrow> t | None \<Rightarrow> (case ct of Some t \<Rightarrow> t | None \<Rightarrow> ''tcp''), ''-timeout'',
        show_nat (case cs of Some n \<Rightarrow> n | None \<Rightarrow> 8000000), ''-i'', url, ''-map'', ''0:v:0'', ''-map'', ''0:a:0?'', ''-c:v'',
        oc_videoCodec (resolveOutputVideoCodec mode codec)] @ scalingArgs cam (resolveOutputVideoCodec mode codec)
       @ [''-c:a'', ac, ''-ar'', ''44100'', ''-ac'', ''1'', ''-f'', ''segment'', ''-segment_format'', ''mpegts''])
      @ [''-segment_time'', show_nat ?n] @ [''-reset_timestamps'', ''1'', ''-strftime'', ''1'', out]"
    by (simp add: buildArgs_def Let_def)
qed (use normalized_range [of seconds] in \<open>simp_all add: nat_le_iff\<close>)

lemma copy_has_no_encoder: "mode = ModeCopy \<Longrightarrow> scalingArgs cam (resolveOutputVideoCodec mode codec) = [] \<and> oc_videoCodec (resolveOutputVideoCodec mode codec) = ''copy''"
  by (simp add: scalingArgs_def resolveOutputVideoCodec_def)

definition covered :: "motionState \<Rightarrow> bool" where
  "covered st \<longleftrightarrow> mo_ring st \<or> mo_recording st"

lemma covered_simps [simp]: "covered (motionEvent e st) = covered st" "covered (scheduleMotionStop env st) = covered st" "covered (promoteRing pre t st) = covered st"
  "covered (st\<lparr>mo_stopTimer := x\<rparr>) = covered st"
  by (simp_all add: covered_def motionEvent_def scheduleMotionStop_def promoteRing_def)

lemma covered_startRing: "covered st \<Longrightarrow> covered (startRing pre up st)"
  by (auto simp: covered_def startRing_def)

lemma ring_up: "0 < pre \<Longrightarrow> up \<Longrightarrow> mo_row st = Some r \<Longrightarrow> rc_enabled r \<Longrightarrow> mo_ring (startRing pre up st)"
  by (simp add: startRing_def)

text \<open>
  Property C25. No hole in the coverage. While a movement is handled - whether the start of the recording succeeds,
  fails, or succeeds and the writing of its event fails - a camera that its ring or its recording covers is covered
  after every single effect. The same holds when the recording ends after the movement, for an enabled camera whose
  ring can be brought up.
\<close>

theorem motion_coverage:
  assumes "covered st"
  shows "list_all covered (snd (handleMotionDetected env pre t1 t2 started eventOk up st))
    \<and> (0 < pre \<and> up \<and> (\<exists>r. mo_row st = Some r \<and> rc_enabled r) \<longrightarrow> list_all covered (stopMotionRecordingAfterQuiet pre up stopOk st))"
proof
  have on: "covered (s\<lparr>mo_recording := True\<rparr>)" for s by (simp add: covered_def)
  have off: "covered ((promoteRing pre t s)\<lparr>mo_ring := False\<rparr>)" if "mo_recording s" for s t using that by (simp add: covered_def promoteRing_def)
  have fail: "list_all covered (motionFailure pre up trace)" if "trace \<noteq> []" "list_all covered trace" for trace
    using that covered_startRing [of "last trace"] by (simp add: motionFailure_def Let_def list_all_iff)
  show "list_all covered (snd (handleMotionDetected env pre t1 t2 started eventOk up st))"
    using assms on off by (auto simp: handleMotionDetected_def Let_def intro!: fail split: option.split)
  show "0 < pre \<and> up \<and> (\<exists>r. mo_row st = Some r \<and> rc_enabled r) \<longrightarrow> list_all covered (stopMotionRecordingAfterQuiet pre up stopOk st)"
  proof (intro impI, elim conjE exE)
    fix r assume r: "0 < pre" up "mo_row st = Some r" "rc_enabled r"
    have "mo_ring (startRing pre up (st\<lparr>mo_stopTimer := None\<rparr>))" by (rule ring_up) (use r in simp_all)
    then have "covered (startRing pre up (st\<lparr>mo_stopTimer := None\<rparr>))" "covered ((startRing pre up (st\<lparr>mo_stopTimer := None\<rparr>))\<lparr>mo_recording := False, mo_row := x\<rparr>)" for x
      by (simp_all add: covered_def)
    with assms r(1,3) show "list_all covered (stopMotionRecordingAfterQuiet pre up stopOk st)"
      by (simp add: stopMotionRecordingAfterQuiet_def Let_def)
  qed
qed

definition armedA :: motionState where
  "armedA = \<lparr>mo_ring = True, mo_recording = False, mo_stopTimer = None, mo_promoted = [], mo_events = [],
     mo_row = Some \<lparr>rc_id = ''a'', rc_enabled = True, rc_recordingEnabled = False, rc_recordingMode = ''motion''\<rparr>\<rparr>"

theorem motion_coverage_witness:
  "covered armedA \<and> list_all covered (snd (handleMotionDetected (\<lambda>_. None) 10 0 5 (Some ''recording_started'') True True armedA))
   \<and> map mo_ring (snd (handleMotionDetected (\<lambda>_. None) 10 0 5 (Some ''recording_started'') True True armedA)) = [True, True, True, True, False, False, False]"
proof -
  have c: "covered armedA" by code_simp
  have "map mo_ring (snd (handleMotionDetected (\<lambda>_. None) 10 0 5 (Some ''recording_started'') True True armedA)) = [True, True, True, True, False, False, False]"
    by code_simp
  with c motion_coverage [OF c, of "\<lambda>_. None" 10 0 5 "Some ''recording_started''" True True] show ?thesis by simp
qed

text \<open>
  A recording that was started but whose event could not be written has no end: the caller gets a failure, the ring
  runs beside the recording, and no stop is scheduled.
\<close>

lemma started_without_stop:
  "let (res, trace) = handleMotionDetected (\<lambda>_. None) 10 0 5 (Some ''recording_started'') False True armedA
   in res = MotionFailed \<and> mo_recording (last trace) \<and> mo_ring (last trace) \<and> mo_stopTimer (last trace) = None"
  by code_simp

end
