(* ===== verification/Segment_Registry.thy ===== *)
theory Segment_Registry
  imports Recording_Manager Sensitive_Text "HOL-Library.Char_ord" "HOL-Library.List_Lexorder"
begin

text \<open>
  From captured segments to recordings: the part of \<open>apps/api/src/recordings/recording-process-manager.service.ts\<close>
  that turns each closed \<open>.ts\<close> segment into an MP4, registers it in the database and removes the segment, with the limit
  on failing segments, the recovery of what a crash left behind and the ring of segments before an event.

  \<^item> The disk is a list of files with their content; a path is its list of components. Markers are kept apart.
  \<^item> \<open>segTools\<close> holds what the outside answers during one pass: FFprobe, FFmpeg, the database, the disk. What an MP4
    made from a segment holds is \<open>tl_mux\<close> of the content of the segment; what a call of FFmpeg that fails has written
    by then is \<open>tl_partial\<close>, its content and its size. The code tries to remove it and goes on when that fails.
  \<^item> A pass runs alone: the scan of a camera waits for the one before it, and the recovery leaves cameras out that record.
  \<^item> \<open>localeCompare\<close> orders the segments of a camera by code points: their paths differ in digits only.
\<close>

section \<open>State\<close>

record segFile =
  gf_path :: path
  gf_content :: string
  gf_size :: int
  gf_mtimeMs :: rat

record segRow =
  rw_id :: nat
  rw_cameraId :: string
  rw_triggerMode :: string
  rw_startedAt :: int
  rw_endedAt :: int
  rw_durationSeconds :: int
  rw_sizeBytes :: int
  rw_filePath :: path

datatype segMarker =
    DurationClamped string path rat rat int
  | Quarantined string path string nat string int

record segState =
  sg_files :: "segFile list"
  sg_markers :: "(path \<times> segMarker) list"
  sg_rows :: "segRow list"
  sg_thumbs :: "nat list"
  sg_failures :: "(path \<times> nat) list"
  sg_known :: "(string \<times> path) list"
  sg_attempts :: "path list"

text \<open>What FFprobe prints of a file; the two numbers are read with \<open>Number\<close>.\<close>

record ffprobeOut =
  fp_duration :: jsnum
  fp_size :: jsnum
  fp_streams :: "(string \<times> string) list option"

record segTools =
  tl_now :: int
  tl_ffprobe :: "segFile \<Rightarrow> ffprobeOut option"
  tl_codec :: "segFile \<Rightarrow> string option"
  tl_ffmpeg :: "segFile \<Rightarrow> string list \<Rightarrow> int option"
  tl_mux :: "string \<Rightarrow> string"
  tl_partial :: "segFile \<Rightarrow> (string \<times> int) option"
  tl_databaseOk :: "path \<Rightarrow> bool"
  tl_cameraMode :: "string \<Rightarrow> string option"
  tl_queueOk :: bool
  tl_writeOk :: "path \<Rightarrow> bool"
  tl_unlinkOk :: "path \<Rightarrow> bool"
  tl_renameOk :: "path \<Rightarrow> bool"
  tl_segmentConfig :: jsnum

section \<open>Files and names\<close>

definition baseName :: "path \<Rightarrow> string" where
  "baseName p = (case rev p of [] \<Rightarrow> [] | n # _ \<Rightarrow> n)"

definition besidePath :: "path \<Rightarrow> string \<Rightarrow> path" where
  "besidePath p ext = (case rev p of [] \<Rightarrow> [ext] | n # ds \<Rightarrow> rev ((n @ ext) # ds))"

definition findFile :: "path \<Rightarrow> segState \<Rightarrow> segFile option" where
  "findFile p st = find (\<lambda>f. gf_path f = p) (sg_files st)"

definition delFile :: "path \<Rightarrow> segState \<Rightarrow> segState" where
  "delFile p st = st\<lparr>sg_files := filter (\<lambda>f. gf_path f \<noteq> p) (sg_files st)\<rparr>"

definition putFile :: "segFile \<Rightarrow> segState \<Rightarrow> segState" where
  "putFile f st = st\<lparr>sg_files := filter (\<lambda>g. gf_path g \<noteq> gf_path f) (sg_files st) @ [f]\<rparr>"

definition writeMarker :: "segTools \<Rightarrow> path \<Rightarrow> segMarker \<Rightarrow> segState \<Rightarrow> segState" where
  "writeMarker tls p m st = (if tl_writeOk tls p then st\<lparr>sg_markers := AList.update p m (sg_markers st)\<rparr> else st)"

definition mp4Of :: "path \<Rightarrow> path" where
  "mp4Of p = (case rev p of [] \<Rightarrow> p
     | n # ds \<Rightarrow> if ends_with (js_lower n) ''.ts'' then rev ((take (length n - 3) n @ ''.mp4'') # ds) else p)"

text \<open>The name \<open>YYYY-MM-DD_HH-MM-SS.\<close> and the instant it says, as \<open>Date.UTC\<close> reads the numbers.\<close>

definition SEGMENT_NAME :: string where "SEGMENT_NAME = ''9999-99-99_99-99-99.''"

definition segmentNamed :: "string \<Rightarrow> bool" where
  "segmentNamed n \<longleftrightarrow> length SEGMENT_NAME \<le> length n
     \<and> list_all2 (\<lambda>m c. if m = CHR ''9'' then is_digit c else c = m) SEGMENT_NAME (take (length SEGMENT_NAME) n)"

definition daysFromCivil :: "int \<Rightarrow> int \<Rightarrow> int \<Rightarrow> int" where
  "daysFromCivil y m d =
     (let y' = (if m \<le> 2 then y - 1 else y); era = y' div 400; yoe = y' mod 400; mp = (m + 9) mod 12;
          doy = (153 * mp + 2) div 5 + d - 1; doe = yoe * 365 + yoe div 4 - yoe div 100 + doy
      in era * 146097 + doe - 719468)"

definition dateUTC :: "int \<Rightarrow> int \<Rightarrow> int \<Rightarrow> int \<Rightarrow> int \<Rightarrow> int \<Rightarrow> int" where
  "dateUTC y mon d h mi s =
     (let yr = (if 0 \<le> y \<and> y \<le> 99 then 1900 + y else y); ym = yr + mon div 12; mn = mon mod 12
      in (((daysFromCivil ym (mn + 1) 1 + d - 1) * 24 + h) * 60 + mi) * 60000 + s * 1000)"

definition segmentStart :: "string \<Rightarrow> int option" where
  "segmentStart n =
     (if segmentNamed n
      then let num = (\<lambda>i k. digits_value 0 (take k (drop i n)))
        in Some (dateUTC (num 0 4) (num 5 2 - 1) (num 8 2) (num 11 2) (num 14 2) (num 17 2))
      else None)"

section \<open>Registration\<close>

record segMeta =
  mt_duration :: "rat option"
  mt_size :: rat
  mt_hasVideo :: bool

definition probeRecordedFileMetadata :: "segTools \<Rightarrow> path \<Rightarrow> segState \<Rightarrow> string + segMeta" where
  "probeRecordedFileMetadata tls p st =
     (case findFile p st of
        None \<Rightarrow> Inl ''ENOENT''
      | Some f \<Rightarrow>
          (case tl_ffprobe tls f of
             None \<Rightarrow> Inr \<lparr>mt_duration = None, mt_size = of_int (gf_size f), mt_hasVideo = False\<rparr>
           | Some fpo \<Rightarrow>
               Inr \<lparr>mt_duration = (case fp_duration fpo of Fin d \<Rightarrow> if 0 < d then Some d else None | NonFinite \<Rightarrow> None),
                    mt_size = (case fp_size fpo of Fin s \<Rightarrow> if 0 \<le> s then s else of_int (gf_size f) | NonFinite \<Rightarrow> of_int (gf_size f)),
                    mt_hasVideo = (case fp_streams fpo of None \<Rightarrow> False
                      | Some ss \<Rightarrow> list_ex (\<lambda>(ty, nm). ty = ''video'' \<and> nm \<noteq> []) ss)\<rparr>))"

definition getExpectedSegmentSeconds :: "segTools \<Rightarrow> rat \<Rightarrow> rat" where
  "getExpectedSegmentSeconds tls seconds =
     (if 0 < seconds then seconds
      else case tl_segmentConfig tls of NonFinite \<Rightarrow> 300 | Fin c \<Rightarrow> if 0 < c then c else 300)"

definition getMaxSegmentDurationSeconds :: "environment \<Rightarrow> segTools \<Rightarrow> rat \<Rightarrow> rat" where
  "getMaxSegmentDurationSeconds env tls seconds =
     (let configured = fst (envNumber (env ''RECORDING_MAX_SEGMENT_DURATION_SECONDS'') (Fin 600) \<lparr>opt_min = None, opt_max = None, opt_integer = False\<rparr>);
          base = (if 0 < configured then configured else 600)
      in max base (getExpectedSegmentSeconds tls seconds * 2))"

definition upsertRecording :: "segTools \<Rightarrow> string \<Rightarrow> path \<Rightarrow> int \<Rightarrow> int \<Rightarrow> int \<Rightarrow> int \<Rightarrow> segState \<Rightarrow> segState" where
  "upsertRecording tls cameraId p startedAt endedAt durationSeconds sizeBytes st =
     (let trigger = (case tl_cameraMode tls cameraId of None \<Rightarrow> ''unknown'' | Some m \<Rightarrow> m) in
      if list_ex (\<lambda>r. rw_filePath r = p) (sg_rows st)
      then st\<lparr>sg_rows := map (\<lambda>r. if rw_filePath r = p
             then r\<lparr>rw_endedAt := endedAt, rw_durationSeconds := durationSeconds, rw_sizeBytes := sizeBytes, rw_triggerMode := trigger\<rparr> else r) (sg_rows st)\<rparr>
      else let i = length (sg_rows st) in
        st\<lparr>sg_rows := sg_rows st @ [\<lparr>rw_id = i, rw_cameraId = cameraId, rw_triggerMode = trigger, rw_startedAt = startedAt, rw_endedAt = endedAt,
              rw_durationSeconds = durationSeconds, rw_sizeBytes = sizeBytes, rw_filePath = p\<rparr>],
           sg_thumbs := (if tl_queueOk tls then sg_thumbs st @ [i] else sg_thumbs st)\<rparr>)"

definition registerSegment :: "environment \<Rightarrow> segTools \<Rightarrow> string \<Rightarrow> path \<Rightarrow> rat \<Rightarrow> segState \<Rightarrow> (string + unit) \<times> segState" where
  "registerSegment env tls cameraId p seconds st =
     (case segmentStart (baseName p) of
        None \<Rightarrow> (Inr (), st)
      | Some startedAt \<Rightarrow>
          (case probeRecordedFileMetadata tls p st of
             Inl e \<Rightarrow> (Inl e, st)
           | Inr meta \<Rightarrow>
               (case mt_duration meta of
                  None \<Rightarrow> (Inl ''segmento_mp4_invalido_ou_incompleto'', st)
                | Some probed \<Rightarrow>
                    if \<not> mt_hasVideo meta then (Inl ''segmento_mp4_sem_stream_de_video'', st)
                    else
                      let tooLong = getMaxSegmentDurationSeconds env tls seconds < probed;
                          exact = (if tooLong then getExpectedSegmentSeconds tls seconds else probed);
                          st1 = (if tooLong then writeMarker tls (besidePath p ''.duration-clamped.json'') (DurationClamped cameraId p probed exact (tl_now tls)) st else st);
                          durationSeconds = max 1 (math_round exact);
                          endedAt = math_trunc (of_int startedAt + exact * 1000)
                      in if of_int \<lfloor>mt_size meta\<rfloor> \<noteq> mt_size meta then (Inl ''RangeError'', st1)
                         else if \<not> tl_databaseOk tls p then (Inl ''database'', st1)
                         else (Inr (), upsertRecording tls cameraId p startedAt endedAt durationSeconds \<lfloor>mt_size meta\<rfloor> st1))))"

text \<open>The call of FFmpeg; \<open>fsync\<close> of the result has no part in the state.\<close>

definition remuxArgs :: "string \<Rightarrow> bool \<Rightarrow> string \<Rightarrow> string list" where
  "remuxArgs ts isHevc mp4 =
     [''-y'', ''-hide_banner'', ''-loglevel'', ''error'', ''-i'', ts, ''-map'', ''0:v:0'', ''-map'', ''0:a:0?'', ''-c'', ''copy'']
     @ (if isHevc then [''-tag:v'', ''hvc1''] else []) @ [''-movflags'', ''+faststart'', mp4]"

definition remuxAndRegisterTsSegment :: "environment \<Rightarrow> segTools \<Rightarrow> string \<Rightarrow> path \<Rightarrow> rat \<Rightarrow> segState \<Rightarrow> (string + path) \<times> segState" where
  "remuxAndRegisterTsSegment env tls cameraId ts seconds st0 =
     (let st = st0\<lparr>sg_attempts := sg_attempts st0 @ [ts]\<rparr>; mp4 = mp4Of ts;
          usable = (case findFile mp4 st of None \<Rightarrow> False | Some f \<Rightarrow> gf_size f \<noteq> 0);
          remuxed = (if usable then Inr st
            else case findFile ts st of
              None \<Rightarrow> Inl (if tl_unlinkOk tls mp4 then delFile mp4 st else st)
            | Some f \<Rightarrow>
                let isHevc = (case tl_codec tls f of None \<Rightarrow> False | Some c \<Rightarrow> str_includes c ''hevc'' \<or> str_includes c ''h265'') in
                case tl_ffmpeg tls f (remuxArgs (join ''/'' ts) isHevc (join ''/'' mp4)) of
                  None \<Rightarrow>
                    let left = (case tl_partial tls f of None \<Rightarrow> st
                          | Some (c, n) \<Rightarrow> putFile \<lparr>gf_path = mp4, gf_content = c, gf_size = n, gf_mtimeMs = of_int (tl_now tls)\<rparr> st)
                    in Inl (if tl_unlinkOk tls mp4 then delFile mp4 left else left)
                | Some n \<Rightarrow> Inr (putFile \<lparr>gf_path = mp4, gf_content = tl_mux tls (gf_content f), gf_size = n, gf_mtimeMs = of_int (tl_now tls)\<rparr> st))
      in case remuxed of
           Inl st1 \<Rightarrow> (Inl ''remux_ts_falhou'', st1)
         | Inr st1 \<Rightarrow>
             (case registerSegment env tls cameraId mp4 seconds st1 of
                (Inl e, st2) \<Rightarrow> (Inl e, st2)
              | (Inr _, st2) \<Rightarrow> (Inr mp4, if tl_unlinkOk tls ts then delFile ts st2 else st2)))"

section \<open>Segments that fail\<close>

definition getSegmentRemuxMaxAttempts :: "environment \<Rightarrow> int" where
  "getSegmentRemuxMaxAttempts env =
     (let configured = fst (envNumber (env ''RECORDING_SEGMENT_REMUX_MAX_ATTEMPTS'') (Fin 3) \<lparr>opt_min = None, opt_max = None, opt_integer = False\<rparr>)
      in if 1 \<le> configured then \<lfloor>configured\<rfloor> else 3)"

definition segmentQuarantineMarkerPath :: "path \<Rightarrow> path" where
  "segmentQuarantineMarkerPath p = besidePath p (if ends_with (js_lower (baseName p)) ''.ts'' then ''.invalid.json'' else ''.orphan-quarantine.json'')"

definition isSegmentQuarantined :: "path \<Rightarrow> segState \<Rightarrow> bool" where
  "isSegmentQuarantined p st = (map_of (sg_markers st) (segmentQuarantineMarkerPath p) \<noteq> None)"

definition failuresOf :: "path \<Rightarrow> segState \<Rightarrow> nat" where
  "failuresOf p st = (case map_of (sg_failures st) p of None \<Rightarrow> 0 | Some n \<Rightarrow> n)"

definition clearFailures :: "path \<Rightarrow> segState \<Rightarrow> segState" where
  "clearFailures p st = st\<lparr>sg_failures := AList.delete p (sg_failures st)\<rparr>"

definition registerSegmentRemuxFailure :: "environment \<Rightarrow> segTools \<Rightarrow> string \<Rightarrow> path \<Rightarrow> string \<Rightarrow> string \<Rightarrow> segState \<Rightarrow> bool \<times> segState" where
  "registerSegmentRemuxFailure env tls cameraId p err stage st =
     (let attempts = failuresOf p st + 1; cut = take 2000 (sanitizeSensitiveText (Some err));
          reason = (if cut = [] then ''remux_ts_falhou'' else cut) in
      if int attempts < getSegmentRemuxMaxAttempts env
      then (False, st\<lparr>sg_failures := AList.update p attempts (sg_failures st)\<rparr>)
      else (True, writeMarker tls (segmentQuarantineMarkerPath p) (Quarantined cameraId p stage attempts reason (tl_now tls)) (clearFailures p st)))"

section \<open>The scan of a camera that records\<close>

definition scanFile :: "environment \<Rightarrow> segTools \<Rightarrow> string \<Rightarrow> rat \<Rightarrow> path \<Rightarrow> segState \<Rightarrow> segState" where
  "scanFile env tls cameraId seconds p st =
     (if (cameraId, p) \<in> set (sg_known st) then st
      else if isSegmentQuarantined p st then st\<lparr>sg_known := (cameraId, p) # sg_known st\<rparr>
      else case findFile p st of
        None \<Rightarrow> st
      | Some f \<Rightarrow>
          if gf_size f \<le> 0 then st
          else (case remuxAndRegisterTsSegment env tls cameraId p seconds st of
            (Inr _, st1) \<Rightarrow> clearFailures p (st1\<lparr>sg_known := (cameraId, p) # sg_known st1\<rparr>)
          | (Inl e, st1) \<Rightarrow>
              (case registerSegmentRemuxFailure env tls cameraId p e ''remux'' st1 of
                 (full, st2) \<Rightarrow> if full then st2\<lparr>sg_known := (cameraId, p) # sg_known st2\<rparr> else st2)))"

definition segmentsBelow :: "path \<Rightarrow> segState \<Rightarrow> path list" where
  "segmentsBelow dir st =
     sort_key (join ''/'') (map gf_path (filter (\<lambda>f. strict_prefix dir (gf_path f) \<and> ends_with (baseName (gf_path f)) ''.ts'') (sg_files st)))"

definition performSegmentScan :: "environment \<Rightarrow> segTools \<Rightarrow> path \<Rightarrow> string \<Rightarrow> rat \<Rightarrow> bool \<Rightarrow> segState \<Rightarrow> segState" where
  "performSegmentScan env tls recordingsRoot cameraId seconds finalize st =
     (let files = segmentsBelow (buildCameraRootDir recordingsRoot cameraId) st;
          candidates = (if finalize then files else butlast files)
      in fold (scanFile env tls cameraId seconds) candidates st)"

section \<open>The recovery of what a crash left\<close>

datatype segOrphanKind = OrphanMp4 | OrphanTs

definition orphanKindOf :: "string \<Rightarrow> path list \<Rightarrow> rat \<Rightarrow> int \<Rightarrow> segFile \<Rightarrow> segOrphanKind option" where
  "orphanKindOf recordingFormat registered grace now f =
     (let n = baseName (gf_path f); oldEnough = grace \<le> max 0 ((of_int now - gf_mtimeMs f) / 1000) in
      if ends_with n (CHR ''.'' # recordingFormat) \<and> gf_path f \<notin> set registered
      then (if oldEnough then Some OrphanMp4 else None)
      else if ends_with n ''.ts'' \<and> oldEnough then Some OrphanTs else None)"

definition orphanCandidates :: "environment \<Rightarrow> string \<Rightarrow> path \<Rightarrow> string list \<Rightarrow> (string \<Rightarrow> bool) \<Rightarrow> int \<Rightarrow> segState \<Rightarrow> (string \<times> path \<times> segOrphanKind) list" where
  "orphanCandidates env recordingFormat recordingsRoot cameras active now st =
     (let grace = fst (envNumber (env ''RECORDING_ORPHAN_RECOVERY_GRACE_SECONDS'') (Fin 300) \<lparr>opt_min = Some 60, opt_max = None, opt_integer = False\<rparr>);
          limit = fst (envNumber (env ''RECORDING_ORPHAN_RECOVERY_LIMIT'') (Fin 2000) \<lparr>opt_min = Some 1, opt_max = Some 10000, opt_integer = False\<rparr>);
          registered = map rw_filePath (sg_rows st)
      in take (nat \<lceil>limit\<rceil>) (concat (map (\<lambda>c. if active c then []
            else List.map_filter (\<lambda>f. if strict_prefix (buildCameraRootDir recordingsRoot c) (gf_path f)
                    then map_option (\<lambda>k. (c, gf_path f, k)) (orphanKindOf recordingFormat registered grace now f) else None) (sg_files st)) cameras)))"

text \<open>One candidate; \<open>active\<close> is asked again when its turn comes. The first component collects the registered paths.\<close>

definition recoverCandidate :: "environment \<Rightarrow> segTools \<Rightarrow> (path \<Rightarrow> bool) \<Rightarrow> string \<times> path \<times> segOrphanKind \<Rightarrow> path list \<times> segState \<Rightarrow> path list \<times> segState" where
  "recoverCandidate env tls activeNow cand rs =
     (case (cand, rs) of ((cameraId, p, kind), (registered, st)) \<Rightarrow>
        let seconds = fst (envNumber (env ''RECORDING_SEGMENT_SECONDS'') (Fin 300) \<lparr>opt_min = Some 5, opt_max = Some 3600, opt_integer = True\<rparr>) in
        if activeNow p then (registered, st)
        else if isSegmentQuarantined p st then (registered, st)
        else (case kind of
          OrphanTs \<Rightarrow>
            if mp4Of p \<in> set registered then (registered, if tl_unlinkOk tls p then delFile p st else st)
            else (case remuxAndRegisterTsSegment env tls cameraId p seconds st of
              (Inr mp4, st1) \<Rightarrow> (mp4 # registered, clearFailures p st1)
            | (Inl e, st1) \<Rightarrow> (registered, snd (registerSegmentRemuxFailure env tls cameraId p e ''remux'' st1)))
        | OrphanMp4 \<Rightarrow>
            (case probeRecordedFileMetadata tls p st of
              Inl e \<Rightarrow> (registered, snd (registerSegmentRemuxFailure env tls cameraId p e ''leitura'' st))
            | Inr meta \<Rightarrow>
                if mt_duration meta = None
                then (registered, snd (registerSegmentRemuxFailure env tls cameraId p ''mp4_orfao_ilegivel'' ''leitura'' st))
                else (case registerSegment env tls cameraId p seconds st of
                  (Inr _, st1) \<Rightarrow> (p # registered, clearFailures p st1)
                | (Inl e, st1) \<Rightarrow> (registered, snd (registerSegmentRemuxFailure env tls cameraId p e ''leitura'' st1))))))"

definition recoverOrphanedSegments :: "environment \<Rightarrow> segTools \<Rightarrow> bool \<Rightarrow> string \<Rightarrow> path \<Rightarrow> string list \<Rightarrow> (string \<Rightarrow> bool) \<Rightarrow> (path \<Rightarrow> bool) \<Rightarrow> segState \<Rightarrow> segState" where
  "recoverOrphanedSegments env tls ffmpegOk recordingFormat recordingsRoot cameras active activeNow st =
     (if \<not> ffmpegOk then st
      else snd (fold (recoverCandidate env tls activeNow)
             (orphanCandidates env recordingFormat recordingsRoot cameras active (tl_now tls) st) (map rw_filePath (sg_rows st), st)))"

section \<open>The ring before an event\<close>

text \<open>The ring is a directory of short segments; whether its process is up is an argument.\<close>

definition preBufferDir :: "path \<Rightarrow> string \<Rightarrow> path" where
  "preBufferDir recordingsRoot cameraId = recordingsRoot @ [''.pre-buffer'', ''camera-'' @ cameraId]"

definition ringFiles :: "path \<Rightarrow> segState \<Rightarrow> path list" where
  "ringFiles dir st = map gf_path (filter (\<lambda>f. butlast (gf_path f) = dir \<and> ends_with (baseName (gf_path f)) ''.ts'') (sg_files st))"

definition stopPreBuffer :: "segTools \<Rightarrow> path \<Rightarrow> string \<Rightarrow> bool \<Rightarrow> segState \<Rightarrow> segState" where
  "stopPreBuffer tls recordingsRoot cameraId up st =
     (if \<not> up then st else fold (\<lambda>p s. if tl_unlinkOk tls p then delFile p s else s) (ringFiles (preBufferDir recordingsRoot cameraId) st) st)"

definition prunePreBuffers :: "segTools \<Rightarrow> path \<Rightarrow> rat \<Rightarrow> string list \<Rightarrow> segState \<Rightarrow> segState" where
  "prunePreBuffers tls recordingsRoot preEventSeconds cameras st =
     (if preEventSeconds \<le> 0 then st
      else fold (\<lambda>c s. fold (\<lambda>p s'. case findFile p s' of
              None \<Rightarrow> s'
            | Some f \<Rightarrow> if (preEventSeconds + 6) * 1000 < of_int (tl_now tls) - gf_mtimeMs f \<and> tl_unlinkOk tls p then delFile p s' else s')
          (ringFiles (preBufferDir recordingsRoot c) s) s) cameras st)"

definition utcYmdH :: "int \<Rightarrow> string \<times> string \<times> string \<times> string" where
  "utcYmdH ms = (case civil_from_days (ms div 86400000) of (y, m, d) \<Rightarrow> (show_nat (nat y), pad 2 m, pad 2 d, pad 2 (ms mod 86400000 div 3600000)))"

definition buildRecordingOutputDir :: "path \<Rightarrow> string \<Rightarrow> int \<Rightarrow> path" where
  "buildRecordingOutputDir recordingsRoot cameraId ms =
     (case utcYmdH ms of (y, m, d, h) \<Rightarrow> buildCameraRootDir recordingsRoot cameraId @ [y, m, d, h])"

definition buildRecordingOutputPattern :: "path \<Rightarrow> string \<Rightarrow> path" where
  "buildRecordingOutputPattern outputDir format = outputDir @ [''%Y-%m-%d_%H-%M-%S.'' @ format]"

definition promotedName :: "int \<Rightarrow> string" where
  "promotedName ms =
     (case utcYmdH ms of (y, m, d, h) \<Rightarrow>
        y @ ''-'' @ m @ ''-'' @ d @ ''_'' @ h @ ''-'' @ pad 2 (ms mod 3600000 div 60000) @ ''-'' @ pad 2 (ms mod 60000 div 1000) @ ''.ts'')"

definition getMotionSegmentSeconds :: "environment \<Rightarrow> rat" where
  "getMotionSegmentSeconds env =
     (let configured = fst (envNumber (env ''MOTION_RECORDING_SEGMENT_SECONDS'') (Fin 60) \<lparr>opt_min = None, opt_max = None, opt_integer = False\<rparr>)
      in if 0 < configured then configured else 60)"

definition inPreRoll :: "rat \<Rightarrow> int \<Rightarrow> segState \<Rightarrow> path \<Rightarrow> bool" where
  "inPreRoll preEventSeconds triggerAt st p =
     (case findFile p st of None \<Rightarrow> False
      | Some f \<Rightarrow> of_int triggerAt - preEventSeconds * 1000 \<le> gf_mtimeMs f \<and> gf_mtimeMs f \<le> of_int triggerAt + 2000)"

definition promoteOne :: "environment \<Rightarrow> segTools \<Rightarrow> path \<Rightarrow> string \<Rightarrow> path \<Rightarrow> segState \<Rightarrow> segState" where
  "promoteOne env tls recordingsRoot cameraId src st =
     (case findFile src st of
        None \<Rightarrow> st
      | Some f \<Rightarrow>
          let startDate = math_trunc (gf_mtimeMs f - 2000);
              dest = buildRecordingOutputDir recordingsRoot cameraId startDate @ [promotedName startDate] in
          if findFile dest st \<noteq> None then st
          else if tl_renameOk tls src
          then snd (remuxAndRegisterTsSegment env tls cameraId dest (max 1 (getMotionSegmentSeconds env)) (putFile (f\<lparr>gf_path := dest\<rparr>) (delFile src st)))
          else if \<not> tl_writeOk tls dest then st
          else let st1 = putFile (f\<lparr>gf_path := dest, gf_mtimeMs := of_int (tl_now tls)\<rparr>) st;
                   st2 = (if tl_unlinkOk tls src then delFile src st1 else st1)
            in snd (remuxAndRegisterTsSegment env tls cameraId dest (max 1 (getMotionSegmentSeconds env)) st2))"

definition promotePreRoll :: "environment \<Rightarrow> segTools \<Rightarrow> path \<Rightarrow> string \<Rightarrow> bool \<Rightarrow> rat \<Rightarrow> int \<Rightarrow> segState \<Rightarrow> segState" where
  "promotePreRoll env tls recordingsRoot cameraId up preEventSeconds triggerAt st =
     (if \<not> up \<or> preEventSeconds \<le> 0 then st
      else let files = sort_key (join ''/'') (ringFiles (preBufferDir recordingsRoot cameraId) st)
        in fold (promoteOne env tls recordingsRoot cameraId) (filter (inPreRoll preEventSeconds triggerAt st) (butlast files)) st)"

section \<open>Runs\<close>

text \<open>A segment is complete, a pass runs, a camera gets a new process, the program is loaded anew.\<close>

datatype segEvent =
    Captured path string int rat
  | ScanPass segTools string rat bool
  | RecoverPass segTools bool "string list" "string \<Rightarrow> bool" "path \<Rightarrow> bool"
  | NewProcess string
  | Reloaded

fun segApply :: "environment \<Rightarrow> string \<Rightarrow> path \<Rightarrow> segEvent \<Rightarrow> segState \<Rightarrow> segState" where
  "segApply env format recordingsRoot (Captured p x n t) st = putFile \<lparr>gf_path = p, gf_content = x, gf_size = n, gf_mtimeMs = t\<rparr> st"
| "segApply env format recordingsRoot (ScanPass tls c seconds finalize) st = performSegmentScan env tls recordingsRoot c seconds finalize st"
| "segApply env format recordingsRoot (RecoverPass tls ok cams active activeNow) st = recoverOrphanedSegments env tls ok format recordingsRoot cams active activeNow st"
| "segApply env format recordingsRoot (NewProcess c) st = st\<lparr>sg_known := filter (\<lambda>k. fst k \<noteq> c) (sg_known st)\<rparr>"
| "segApply env format recordingsRoot Reloaded st = st\<lparr>sg_known := [], sg_failures := []\<rparr>"

definition segRun :: "environment \<Rightarrow> string \<Rightarrow> path \<Rightarrow> segEvent list \<Rightarrow> segState \<Rightarrow> segState" where
  "segRun env format recordingsRoot es st = fold (segApply env format recordingsRoot) es st"

definition segInit :: segState where
  "segInit = \<lparr>sg_files = [], sg_markers = [], sg_rows = [], sg_thumbs = [], sg_failures = [], sg_known = [], sg_attempts = []\<rparr>"

end
