(* ===== verification/Segment_Props.thy ===== *)
theory Segment_Props
  imports Segment_Registry
begin

text \<open>
  Properties of the registration of segments: what was captured is kept, what is registered has a bounded length, a
  segment that fails is tried a bounded number of times, and concrete runs of what goes wrong.
\<close>

section \<open>Names\<close>

lemma baseName_snoc [simp]: "baseName (ds @ [n]) = n"
  by (simp add: baseName_def)

lemma tsPath_cases:
  assumes "ends_with (baseName p) ''.ts''"
  obtains ds a where "p = ds @ [a @ ''.ts'']" "mp4Of p = ds @ [a @ ''.mp4'']"
proof -
  have "p \<noteq> []" using assms by (auto simp: baseName_def ends_with_iff)
  then obtain ds n where p: "p = ds @ [n]" by (metis rev_exhaust)
  with assms obtain a where n: "n = a @ ''.ts''" by (auto simp: ends_with_iff)
  have "ends_with (js_lower (a @ ''.ts'')) ''.ts''" by (auto simp: ends_with_iff js_lower_def js_lower_char_def)
  then have "mp4Of p = ds @ [a @ ''.mp4'']" by (simp add: mp4Of_def p n)
  with p n show thesis using that by blast
qed

lemma mp4Of_inj: "ends_with (baseName p) ''.ts'' \<Longrightarrow> ends_with (baseName q) ''.ts'' \<Longrightarrow> mp4Of p = mp4Of q \<Longrightarrow> p = q"
  by (elim tsPath_cases) simp

lemma mp4_not_ts: "ends_with (baseName p) ''.ts'' \<Longrightarrow> \<not> ends_with (baseName (mp4Of p)) ''.ts''"
  by (elim tsPath_cases) (auto simp: ends_with_def)

section \<open>What was captured is kept\<close>

abbreviation diskPaths :: "segState \<Rightarrow> path set" where "diskPaths st \<equiv> gf_path ` set (sg_files st)"
abbreviation rowPaths :: "segState \<Rightarrow> path set" where "rowPaths st \<equiv> rw_filePath ` set (sg_rows st)"

text \<open>FFprobe finds no duration in an empty file, and what a call of FFmpeg that fails leaves behind can be removed.\<close>

definition probeSound :: "segTools \<Rightarrow> bool" where
  "probeSound tls \<longleftrightarrow> (\<forall>f fpo d. gf_size f = 0 \<longrightarrow> tl_ffprobe tls f = Some fpo \<longrightarrow> fp_duration fpo = Fin d \<longrightarrow> d \<le> 0)"

definition leftoversRemoved :: "segTools \<Rightarrow> bool" where
  "leftoversRemoved tls \<longleftrightarrow> (\<forall>f. tl_partial tls f \<noteq> None \<longrightarrow> tl_unlinkOk tls (mp4Of (gf_path f)))"

definition segInv :: "(string \<Rightarrow> string) \<Rightarrow> (path \<times> string) list \<Rightarrow> segState \<Rightarrow> bool" where
  "segInv mux born st \<longleftrightarrow> distinct (map gf_path (sg_files st)) \<and> distinct (map fst born)
     \<and> (\<forall>t x. (t, x) \<in> set born \<longrightarrow> ends_with (baseName t) ''.ts'')
     \<and> (\<forall>f\<in>set (sg_files st). gf_path f \<in> fst ` set born \<union> mp4Of ` fst ` set born)
     \<and> (\<forall>f\<in>set (sg_files st). \<forall>t x. (t, x) \<in> set born \<longrightarrow> (gf_path f = t \<longrightarrow> gf_content f = x) \<and> (gf_path f = mp4Of t \<longrightarrow> gf_content f = mux x))
     \<and> (\<forall>p\<in>rowPaths st. \<exists>f\<in>set (sg_files st). gf_path f = p \<and> gf_size f \<noteq> 0)
     \<and> (\<forall>p\<in>rowPaths st. \<not> ends_with (baseName p) ''.ts'')
     \<and> (\<forall>t x. (t, x) \<in> set born \<longrightarrow> segmentNamed (baseName (mp4Of t)) \<longrightarrow> t \<in> diskPaths st \<or> mp4Of t \<in> rowPaths st)"

lemma segInvI:
  assumes "distinct (map gf_path (sg_files st))" "distinct (map fst born)" "\<And>t x. (t, x) \<in> set born \<Longrightarrow> ends_with (baseName t) ''.ts''"
    "\<And>f. f \<in> set (sg_files st) \<Longrightarrow> gf_path f \<in> fst ` set born \<union> mp4Of ` fst ` set born"
    "\<And>f t x. f \<in> set (sg_files st) \<Longrightarrow> (t, x) \<in> set born \<Longrightarrow> gf_path f = t \<Longrightarrow> gf_content f = x"
    "\<And>f t x. f \<in> set (sg_files st) \<Longrightarrow> (t, x) \<in> set born \<Longrightarrow> gf_path f = mp4Of t \<Longrightarrow> gf_content f = mux x"
    "\<And>p. p \<in> rowPaths st \<Longrightarrow> \<exists>f\<in>set (sg_files st). gf_path f = p \<and> gf_size f \<noteq> 0"
    "\<And>t x. (t, x) \<in> set born \<Longrightarrow> segmentNamed (baseName (mp4Of t)) \<Longrightarrow> t \<in> diskPaths st \<or> mp4Of t \<in> rowPaths st"
    "\<And>p. p \<in> rowPaths st \<Longrightarrow> \<not> ends_with (baseName p) ''.ts''"
  shows "segInv mux born st"
  unfolding segInv_def using assms by (intro conjI ballI allI impI) simp_all

lemma segInvD:
  assumes "segInv mux born st"
  shows "distinct (map gf_path (sg_files st))" "distinct (map fst born)" "(t, x) \<in> set born \<Longrightarrow> ends_with (baseName t) ''.ts''"
    "f \<in> set (sg_files st) \<Longrightarrow> gf_path f \<in> fst ` set born \<union> mp4Of ` fst ` set born"
    "f \<in> set (sg_files st) \<Longrightarrow> (t, x) \<in> set born \<Longrightarrow> gf_path f = t \<Longrightarrow> gf_content f = x"
    "f \<in> set (sg_files st) \<Longrightarrow> (t, x) \<in> set born \<Longrightarrow> gf_path f = mp4Of t \<Longrightarrow> gf_content f = mux x"
    "p \<in> rowPaths st \<Longrightarrow> \<exists>f\<in>set (sg_files st). gf_path f = p \<and> gf_size f \<noteq> 0"
    "(t, x) \<in> set born \<Longrightarrow> segmentNamed (baseName (mp4Of t)) \<Longrightarrow> t \<in> diskPaths st \<or> mp4Of t \<in> rowPaths st"
    "p \<in> rowPaths st \<Longrightarrow> \<not> ends_with (baseName p) ''.ts''"
proof -
  note c = assms [unfolded segInv_def]
  show "distinct (map gf_path (sg_files st))" "distinct (map fst born)" using c by simp_all
  show "(t, x) \<in> set born \<Longrightarrow> ends_with (baseName t) ''.ts''" using c by (elim conjE) metis
  show "f \<in> set (sg_files st) \<Longrightarrow> gf_path f \<in> fst ` set born \<union> mp4Of ` fst ` set born" using c by simp
  show "f \<in> set (sg_files st) \<Longrightarrow> (t, x) \<in> set born \<Longrightarrow> gf_path f = t \<Longrightarrow> gf_content f = x" using c by simp
  show "f \<in> set (sg_files st) \<Longrightarrow> (t, x) \<in> set born \<Longrightarrow> gf_path f = mp4Of t \<Longrightarrow> gf_content f = mux x" using c by simp
  show "p \<in> rowPaths st \<Longrightarrow> \<exists>f\<in>set (sg_files st). gf_path f = p \<and> gf_size f \<noteq> 0" using c by (elim conjE) metis
  show "(t, x) \<in> set born \<Longrightarrow> segmentNamed (baseName (mp4Of t)) \<Longrightarrow> t \<in> diskPaths st \<or> mp4Of t \<in> rowPaths st" using c by (elim conjE) metis
  show "p \<in> rowPaths st \<Longrightarrow> \<not> ends_with (baseName p) ''.ts''" using c by (elim conjE) metis
qed

lemma segInv_frame: "segInv mux born st \<Longrightarrow> sg_files st' = sg_files st \<Longrightarrow> sg_rows st' = sg_rows st \<Longrightarrow> segInv mux born st'"
  by (simp add: segInv_def)

lemma findFileD: "findFile p st = Some f \<Longrightarrow> f \<in> set (sg_files st) \<and> gf_path f = p"
  unfolding findFile_def by (auto dest: find_SomeD)

lemma find_distinct: "distinct (map g xs) \<Longrightarrow> x \<in> set xs \<Longrightarrow> find (\<lambda>y. g y = g x) xs = Some x"
  by (induction xs) (auto simp: image_iff)

lemma findFile_in: "distinct (map gf_path (sg_files st)) \<Longrightarrow> f \<in> set (sg_files st) \<Longrightarrow> findFile (gf_path f) st = Some f"
  unfolding findFile_def by (rule find_distinct)

text \<open>A file that no row names, and that is not the last copy of a segment, may go.\<close>

lemma segInv_delFile:
  assumes i: "segInv mux born st" and rows: "p \<notin> rowPaths st"
    and kept: "\<And>x. (p, x) \<in> set born \<Longrightarrow> segmentNamed (baseName (mp4Of p)) \<Longrightarrow> mp4Of p \<in> rowPaths st"
  shows "segInv mux born (delFile p st)"
proof (rule segInvI)
  note d = segInvD [OF i]
  show "distinct (map gf_path (sg_files (delFile p st)))" using d(1) by (simp add: delFile_def distinct_map_filter)
  show "t \<in> diskPaths (delFile p st) \<or> mp4Of t \<in> rowPaths (delFile p st)" if "(t, x) \<in> set born" "segmentNamed (baseName (mp4Of t))" for t x
    using d(8) [OF that] kept [of x] that by (cases "t = p") (auto simp: delFile_def)
  show "\<exists>f\<in>set (sg_files (delFile p st)). gf_path f = q \<and> gf_size f \<noteq> 0" if "q \<in> rowPaths (delFile p st)" for q
  proof -
    have "q \<in> rowPaths st" "q \<noteq> p" using that rows by (auto simp: delFile_def)
    with d(7) [of q] show ?thesis by (auto simp: delFile_def)
  qed
qed (use segInvD [OF i] in \<open>auto simp: delFile_def\<close>)

text \<open>An MP4 made from a captured segment may take the place of an empty one.\<close>

lemma segInv_putMp4:
  assumes i: "segInv mux born st" and f: "f \<in> set (sg_files st)" "ends_with (baseName (gf_path f)) ''.ts''"
    and free: "mp4Of (gf_path f) \<notin> rowPaths st"
  shows "segInv mux born (putFile \<lparr>gf_path = mp4Of (gf_path f), gf_content = mux (gf_content f), gf_size = n, gf_mtimeMs = t\<rparr> st)"
    (is "segInv mux born ?st")
proof -
  note d = segInvD [OF i]
  let ?g = "\<lparr>gf_path = mp4Of (gf_path f), gf_content = mux (gf_content f), gf_size = n, gf_mtimeMs = t\<rparr>"
  have born: "gf_path f \<in> fst ` set born"
  proof -
    have "gf_path f \<notin> mp4Of ` fst ` set born" using f(2) d(3) mp4_not_ts by fastforce
    with d(4) [OF f(1)] show ?thesis by blast
  qed
  have files: "set (sg_files ?st) = {g \<in> set (sg_files st). gf_path g \<noteq> mp4Of (gf_path f)} \<union> {?g}" by (auto simp: putFile_def)
  have ts: "mp4Of (gf_path f) \<noteq> t'" if "(t', x) \<in> set born" for t' x using mp4_not_ts [OF f(2)] d(3) [OF that] by auto
  show ?thesis
  proof (rule segInvI)
    show "distinct (map gf_path (sg_files ?st))" using d(1) by (auto simp: putFile_def distinct_map_filter)
    show "gf_path g \<in> fst ` set born \<union> mp4Of ` fst ` set born" if "g \<in> set (sg_files ?st)" for g
    proof (cases "g = ?g")
      case True
      then show ?thesis using born by simp
    qed (use that d(4) in \<open>auto simp: files\<close>)
    show "gf_content g = x" if "g \<in> set (sg_files ?st)" "(t', x) \<in> set born" "gf_path g = t'" for g t' x
      using that d(5) ts [OF that(2)] unfolding files by auto
    show "gf_content g = mux x" if g: "g \<in> set (sg_files ?st)" "(t', x) \<in> set born" "gf_path g = mp4Of t'" for g t' x
    proof (cases "g = ?g")
      case True
      with g(3) have "t' = gf_path f" using mp4Of_inj [OF d(3) [OF g(2)] f(2)] by simp
      with d(5) [OF f(1) g(2)] True show ?thesis by simp
    next
      case False
      with g d(6) show ?thesis unfolding files by auto
    qed
    show "\<exists>g\<in>set (sg_files ?st). gf_path g = q \<and> gf_size g \<noteq> 0" if "q \<in> rowPaths ?st" for q
    proof -
      have "q \<in> rowPaths st" using that by (simp add: putFile_def)
      with d(7) [of q] free show ?thesis unfolding files by auto
    qed
    show "t' \<in> diskPaths ?st \<or> mp4Of t' \<in> rowPaths ?st" if "(t', x) \<in> set born" "segmentNamed (baseName (mp4Of t'))" for t' x
      using d(8) [OF that] ts [OF that(1)] unfolding files by (auto simp: putFile_def)
    show "\<not> ends_with (baseName q) ''.ts''" if "q \<in> rowPaths ?st" for q using that d(9) [of q] by (simp add: putFile_def)
  qed (use d in auto)
qed

lemma writeMarker_frame: "sg_files (writeMarker tls p m st) = sg_files st" "sg_rows (writeMarker tls p m st) = sg_rows st"
  "sg_attempts (writeMarker tls p m st) = sg_attempts st" "sg_failures (writeMarker tls p m st) = sg_failures st" "sg_known (writeMarker tls p m st) = sg_known st"
  by (simp_all add: writeMarker_def)

lemma upsert_frame: "sg_files (upsertRecording tls c p a b d n st) = sg_files st"
  "sg_attempts (upsertRecording tls c p a b d n st) = sg_attempts st" "sg_failures (upsertRecording tls c p a b d n st) = sg_failures st"
  "sg_known (upsertRecording tls c p a b d n st) = sg_known st" "sg_markers (upsertRecording tls c p a b d n st) = sg_markers st"
  by (simp_all add: upsertRecording_def Let_def)

lemma upsert_rowPaths: "rowPaths (upsertRecording tls c p a b d n st) = insert p (rowPaths st)"
proof (cases "list_ex (\<lambda>r. rw_filePath r = p) (sg_rows st)")
  case True
  then have "p \<in> rowPaths st" by (auto simp: list_ex_iff)
  moreover have "rw_filePath ` set (map (\<lambda>r. if rw_filePath r = p then r\<lparr>rw_endedAt := b, rw_durationSeconds := d, rw_sizeBytes := n, rw_triggerMode := m\<rparr> else r) xs)
      = rw_filePath ` set xs" for xs m
    unfolding set_map image_image by (rule image_cong) simp_all
  ultimately show ?thesis using True by (simp add: upsertRecording_def Let_def insert_absorb)
next
  case False
  then show ?thesis by (simp add: upsertRecording_def Let_def)
qed

text \<open>What a registration does to the files and the rows.\<close>

lemma register_cases:
  assumes "registerSegment env tls c p s st = (r, st')"
  shows "sg_files st' = sg_files st \<and> sg_attempts st' = sg_attempts st \<and> sg_failures st' = sg_failures st \<and> sg_known st' = sg_known st
    \<and> (sg_rows st' = sg_rows st \<and> (r = Inr () \<longrightarrow> \<not> segmentNamed (baseName p))
      \<or> r = Inr () \<and> rowPaths st' = insert p (rowPaths st) \<and> (\<exists>f fpo d. findFile p st = Some f \<and> tl_ffprobe tls f = Some fpo \<and> fp_duration fpo = Fin d \<and> 0 < d))"
proof (cases "segmentStart (baseName p)")
  case None
  with assms show ?thesis by (auto simp: registerSegment_def segmentStart_def Let_def split: if_splits)
next
  case (Some a)
  show ?thesis
  proof (cases "probeRecordedFileMetadata tls p st")
    case (Inl e)
    with assms Some show ?thesis by (auto simp: registerSegment_def)
  next
    case (Inr meta)
    show ?thesis
    proof (cases "mt_duration meta")
      case None
      with assms Some Inr show ?thesis by (auto simp: registerSegment_def)
    next
      case (Some x)
      have probed: "\<exists>f fpo d. findFile p st = Some f \<and> tl_ffprobe tls f = Some fpo \<and> fp_duration fpo = Fin d \<and> 0 < d"
        using Inr Some by (auto simp: probeRecordedFileMetadata_def split: option.splits jsnum.splits if_splits)
      let ?long = "getMaxSegmentDurationSeconds env tls s < x"
      let ?d = "if ?long then getExpectedSegmentSeconds tls s else x"
      define st1 where "st1 = (if ?long then writeMarker tls (besidePath p ''.duration-clamped.json'') (DurationClamped c p x ?d (tl_now tls)) st else st)"
      have "(r, st') = (if \<not> mt_hasVideo meta then (Inl ''segmento_mp4_sem_stream_de_video'', st)
          else if of_int \<lfloor>mt_size meta\<rfloor> \<noteq> mt_size meta then (Inl ''RangeError'', st1) else if \<not> tl_databaseOk tls p then (Inl ''database'', st1)
          else (Inr (), upsertRecording tls c p a (math_trunc (of_int a + ?d * 1000)) (max 1 (math_round ?d)) \<lfloor>mt_size meta\<rfloor> st1))"
        unfolding assms [symmetric] registerSegment_def \<open>segmentStart (baseName p) = Some a\<close> Inr Some Let_def st1_def by (simp add: Some)
      moreover have "sg_files st1 = sg_files st" "sg_attempts st1 = sg_attempts st" "sg_failures st1 = sg_failures st" "sg_known st1 = sg_known st" "sg_rows st1 = sg_rows st"
        by (simp_all add: st1_def writeMarker_frame)
      ultimately show ?thesis
        using probed
        by (cases "mt_hasVideo meta"; cases "of_int \<lfloor>mt_size meta\<rfloor> = mt_size meta"; cases "tl_databaseOk tls p") (simp_all add: upsert_frame upsert_rowPaths)
    qed
  qed
qed

lemma segInv_register:
  assumes i: "segInv mux born st" and s: "probeSound tls" and r: "registerSegment env tls c p sec st = (r, st')" and m: "\<not> ends_with (baseName p) ''.ts''"
  shows "segInv mux born st'"
proof -
  note d = segInvD [OF i]
  have f: "sg_files st' = sg_files st" using register_cases [OF r] by simp
  show ?thesis
  proof (cases "sg_rows st' = sg_rows st")
    case True
    with f i show ?thesis by (rule_tac segInv_frame)
  next
    case False
    then obtain g fpo x where rp: "rowPaths st' = insert p (rowPaths st)" and g: "findFile p st = Some g" "tl_ffprobe tls g = Some fpo" "fp_duration fpo = Fin x" "0 < x"
      using register_cases [OF r] by auto
    have "gf_size g \<noteq> 0" using s g(2-4) unfolding probeSound_def by (meson not_le)
    with findFileD [OF g(1)] have new: "\<exists>f\<in>set (sg_files st'). gf_path f = p \<and> gf_size f \<noteq> 0" using f by auto
    show ?thesis
    proof (rule segInvI)
      show "\<exists>f\<in>set (sg_files st'). gf_path f = q \<and> gf_size f \<noteq> 0" if "q \<in> rowPaths st'" for q
        using that new d(7) [of q] unfolding rp f by blast
      show "t \<in> diskPaths st' \<or> mp4Of t \<in> rowPaths st'" if "(t, x) \<in> set born" "segmentNamed (baseName (mp4Of t))" for t x
        using d(8) [OF that] unfolding rp f by blast
      show "\<not> ends_with (baseName q) ''.ts''" if "q \<in> rowPaths st'" for q using that d(9) m unfolding rp by blast
    qed (use d(1-6) in \<open>simp_all add: f\<close>)
  qed
qed

lemma delFile_putFile: "gf_path g = p \<Longrightarrow> delFile p (putFile g st) = delFile p st"
  by (simp add: delFile_def putFile_def conj_commute)

definition usable :: "path \<Rightarrow> segState \<Rightarrow> bool" where
  "usable p st = (case findFile p st of None \<Rightarrow> False | Some f \<Rightarrow> gf_size f \<noteq> 0)"

lemma remux_cases:
  assumes "remuxAndRegisterTsSegment env tls c ts s st0 = (res, st')"
  defines "st \<equiv> st0\<lparr>sg_attempts := sg_attempts st0 @ [ts]\<rparr>"
  obtains (failed) e where "res = Inl e" "\<not> usable (mp4Of ts) st"
      "st' = st \<or> st' = delFile (mp4Of ts) st \<or> (\<not> leftoversRemoved tls \<and> (\<exists>g. st' = putFile g st))"
  | (refused) st1 e where "res = Inl e" "registerSegment env tls c (mp4Of ts) s st1 = (Inl e, st')"
      "usable (mp4Of ts) st \<and> st1 = st \<or> \<not> usable (mp4Of ts) st \<and> (\<exists>f n. findFile ts st = Some f
         \<and> st1 = putFile \<lparr>gf_path = mp4Of ts, gf_content = tl_mux tls (gf_content f), gf_size = n, gf_mtimeMs = of_int (tl_now tls)\<rparr> st)"
  | (stored) st1 st2 where "res = Inr (mp4Of ts)" "registerSegment env tls c (mp4Of ts) s st1 = (Inr (), st2)" "st' = st2 \<or> st' = delFile ts st2"
      "usable (mp4Of ts) st \<and> st1 = st \<or> \<not> usable (mp4Of ts) st \<and> (\<exists>f n. findFile ts st = Some f
         \<and> st1 = putFile \<lparr>gf_path = mp4Of ts, gf_content = tl_mux tls (gf_content f), gf_size = n, gf_mtimeMs = of_int (tl_now tls)\<rparr> st)"
proof -
  define remuxed where "remuxed = (if usable (mp4Of ts) st then Inr st
      else case findFile ts st of
        None \<Rightarrow> Inl (if tl_unlinkOk tls (mp4Of ts) then delFile (mp4Of ts) st else st)
      | Some f \<Rightarrow>
          let isHevc = (case tl_codec tls f of None \<Rightarrow> False | Some c \<Rightarrow> str_includes c ''hevc'' \<or> str_includes c ''h265'') in
          case tl_ffmpeg tls f (remuxArgs (join ''/'' ts) isHevc (join ''/'' (mp4Of ts))) of
            None \<Rightarrow>
              let left = (case tl_partial tls f of None \<Rightarrow> st
                    | Some (c, n) \<Rightarrow> putFile \<lparr>gf_path = mp4Of ts, gf_content = c, gf_size = n, gf_mtimeMs = of_int (tl_now tls)\<rparr> st)
              in Inl (if tl_unlinkOk tls (mp4Of ts) then delFile (mp4Of ts) left else left)
          | Some n \<Rightarrow> Inr (putFile \<lparr>gf_path = mp4Of ts, gf_content = tl_mux tls (gf_content f), gf_size = n, gf_mtimeMs = of_int (tl_now tls)\<rparr> st))"
  have eq: "(res, st') = (case remuxed of Inl st1 \<Rightarrow> (Inl ''remux_ts_falhou'', st1)
         | Inr st1 \<Rightarrow> (case registerSegment env tls c (mp4Of ts) s st1 of (Inl e, st2) \<Rightarrow> (Inl e, st2)
              | (Inr _, st2) \<Rightarrow> (Inr (mp4Of ts), if tl_unlinkOk tls ts then delFile ts st2 else st2)))"
    unfolding assms(1) [symmetric] remuxAndRegisterTsSegment_def Let_def remuxed_def usable_def st_def by simp
  show thesis
  proof (cases remuxed)
    case (Inl st1)
    then have "\<not> usable (mp4Of ts) st"
      and "st1 = st \<or> st1 = delFile (mp4Of ts) st \<or> (\<not> leftoversRemoved tls \<and> (\<exists>g. st1 = putFile g st))"
      by (auto simp: remuxed_def Let_def leftoversRemoved_def delFile_putFile dest!: findFileD split: if_splits option.splits)
    with Inl eq show thesis using failed by simp
  next
    case (Inr st1)
    then have o: "usable (mp4Of ts) st \<and> st1 = st \<or> \<not> usable (mp4Of ts) st \<and> (\<exists>f n. findFile ts st = Some f
         \<and> st1 = putFile \<lparr>gf_path = mp4Of ts, gf_content = tl_mux tls (gf_content f), gf_size = n, gf_mtimeMs = of_int (tl_now tls)\<rparr> st)"
      by (auto simp: remuxed_def Let_def split: if_splits option.splits)
    obtain r st2 where reg: "registerSegment env tls c (mp4Of ts) s st1 = (r, st2)" by (cases "registerSegment env tls c (mp4Of ts) s st1")
    show thesis
    proof (cases r)
      case (Inl e)
      with \<open>remuxed = Inr st1\<close> reg eq o show thesis using refused [of e st1] by simp
    next
      case (Inr u)
      with \<open>remuxed = Inr st1\<close> reg eq o show thesis using stored [of st1 st2] by (simp split: if_splits)
    qed
  qed
qed

lemma not_usable_no_row:
  assumes "segInv mux born st" "\<not> usable p st"
  shows "p \<notin> rowPaths st"
proof
  assume "p \<in> rowPaths st"
  with segInvD(7) [OF assms(1)] obtain f where f: "f \<in> set (sg_files st)" "gf_path f = p" "gf_size f \<noteq> 0" by blast
  with findFile_in [OF segInvD(1) [OF assms(1)] f(1)] assms(2) show False by (simp add: usable_def)
qed

lemma segInv_remux:
  assumes i: "segInv mux born st0" and ts: "ends_with (baseName ts) ''.ts''" and s: "probeSound tls" "tl_mux tls = mux" "leftoversRemoved tls"
    and r: "remuxAndRegisterTsSegment env tls c ts sec st0 = (res, st')"
  shows "segInv mux born st' \<and> rowPaths st0 \<subseteq> rowPaths st' \<and> sg_attempts st' = sg_attempts st0 @ [ts] \<and> sg_failures st' = sg_failures st0 \<and> sg_known st' = sg_known st0
    \<and> (\<forall>m. res = Inr m \<longrightarrow> segmentNamed (baseName m) \<longrightarrow> m \<in> rowPaths st')"
proof -
  let ?st = "st0\<lparr>sg_attempts := sg_attempts st0 @ [ts]\<rparr>" and ?m = "mp4Of ts"
  have i0: "segInv mux born ?st" using i by (rule segInv_frame) simp_all
  have put: "segInv mux born st1 \<and> rowPaths st1 = rowPaths st0 \<and> sg_attempts st1 = sg_attempts st0 @ [ts] \<and> sg_failures st1 = sg_failures st0 \<and> sg_known st1 = sg_known st0"
    if o: "usable ?m ?st \<and> st1 = ?st \<or> \<not> usable ?m ?st \<and> (\<exists>f n. findFile ts ?st = Some f
         \<and> st1 = putFile \<lparr>gf_path = ?m, gf_content = tl_mux tls (gf_content f), gf_size = n, gf_mtimeMs = of_int (tl_now tls)\<rparr> ?st)" for st1
  proof (cases "usable ?m ?st")
    case True
    with o i0 show ?thesis by simp
  next
    case False
    with o obtain f n where f: "findFile ts ?st = Some f"
      and st1: "st1 = putFile \<lparr>gf_path = ?m, gf_content = mux (gf_content f), gf_size = n, gf_mtimeMs = of_int (tl_now tls)\<rparr> ?st" using s(2) by auto
    have "f \<in> set (sg_files ?st)" "gf_path f = ts" using findFileD [OF f] by simp_all
    with segInv_putMp4 [OF i0, of f n "of_int (tl_now tls)"] ts not_usable_no_row [OF i0 False] show ?thesis by (simp add: st1) (simp add: putFile_def)
  qed
  have mp4: "\<not> ends_with (baseName ?m) ''.ts''" by (rule mp4_not_ts [OF ts])
  show ?thesis using r
  proof (cases rule: remux_cases)
    case (failed e)
    have "segInv mux born (delFile ?m ?st)"
    proof (rule segInv_delFile [OF i0 not_usable_no_row [OF i0 failed(2)]])
      show "mp4Of ?m \<in> rowPaths ?st" if "(?m, x) \<in> set born" for x using segInvD(3) [OF i0 that] mp4_not_ts [OF ts] by simp
    qed
    with failed i0 s(3) show ?thesis by (auto simp: delFile_def)
  next
    case (refused st1 e)
    from put [OF refused(3)] segInv_register [OF _ s(1) refused(2) mp4, of mux born] register_cases [OF refused(2)] refused(1) show ?thesis by auto
  next
    case (stored st1 st2)
    have p: "segInv mux born st1" "rowPaths st1 = rowPaths st0" "sg_attempts st1 = sg_attempts st0 @ [ts]" "sg_failures st1 = sg_failures st0" "sg_known st1 = sg_known st0"
      using put [OF stored(4)] by simp_all
    have i2: "segInv mux born st2" by (rule segInv_register [OF p(1) s(1) stored(2) mp4])
    have row: "segmentNamed (baseName ?m) \<Longrightarrow> ?m \<in> rowPaths st2" "rowPaths st0 \<subseteq> rowPaths st2" using register_cases [OF stored(2)] p(2) by auto
    have "segInv mux born (delFile ts st2)"
    proof (rule segInv_delFile [OF i2])
      show "ts \<notin> rowPaths st2" using segInvD(9) [OF i2] ts by blast
    qed (rule row(1))
    then have "segInv mux born st'" using stored(3) i2 by auto
    moreover have "sg_attempts st2 = sg_attempts st0 @ [ts]" "sg_failures st2 = sg_failures st0" "sg_known st2 = sg_known st0"
      using register_cases [OF stored(2)] p(3-5) by simp_all
    moreover have "sg_rows st' = sg_rows st2" "sg_attempts st' = sg_attempts st2" "sg_failures st' = sg_failures st2" "sg_known st' = sg_known st2"
      using stored(3) by (auto simp: delFile_def)
    ultimately show ?thesis using row stored(1) by simp
  qed
qed

lemma failure_frame:
  "registerSegmentRemuxFailure env tls c p e stage st = (full, st') \<Longrightarrow> sg_files st' = sg_files st \<and> sg_rows st' = sg_rows st \<and> sg_attempts st' = sg_attempts st \<and> sg_known st' = sg_known st"
  by (auto simp: registerSegmentRemuxFailure_def Let_def writeMarker_frame clearFailures_def split: if_splits)

lemma segInv_scanFile:
  assumes i: "segInv mux born st" and ts: "ends_with (baseName p) ''.ts''" and s: "probeSound tls" "tl_mux tls = mux" "leftoversRemoved tls"
  shows "segInv mux born (scanFile env tls c sec p st)"
proof (cases "(c, p) \<in> set (sg_known st) \<or> isSegmentQuarantined p st \<or> (case findFile p st of None \<Rightarrow> True | Some f \<Rightarrow> gf_size f \<le> 0)")
  case True
  then show ?thesis using i segInv_frame [OF i] by (auto simp: scanFile_def split: option.splits)
next
  case False
  obtain res st1 where r: "remuxAndRegisterTsSegment env tls c p sec st = (res, st1)" by (cases "remuxAndRegisterTsSegment env tls c p sec st")
  have i1: "segInv mux born st1" using segInv_remux [OF i ts s r] by simp
  show ?thesis
  proof (cases res)
    case (Inl e)
    obtain full st2 where f: "registerSegmentRemuxFailure env tls c p e ''remux'' st1 = (full, st2)" by (cases "registerSegmentRemuxFailure env tls c p e ''remux'' st1")
    have "segInv mux born st2" using segInv_frame [OF i1] failure_frame [OF f] by simp
    then show ?thesis using False r Inl f segInv_frame by (auto simp: scanFile_def split: option.splits)
  next
    case (Inr m)
    have "segInv mux born (clearFailures p (st1\<lparr>sg_known := k\<rparr>))" for k by (rule segInv_frame [OF i1]) (simp_all add: clearFailures_def)
    then show ?thesis using False r Inr by (auto simp: scanFile_def split: option.splits)
  qed
qed

lemma segInv_scan:
  assumes "segInv mux born st" "probeSound tls" "tl_mux tls = mux" "leftoversRemoved tls"
  shows "segInv mux born (performSegmentScan env tls base c sec finalize st)"
proof -
  have "ends_with (baseName p) ''.ts''" if "p \<in> set (segmentsBelow dir st)" for p dir using that by (auto simp: segmentsBelow_def)
  then have "ends_with (baseName p) ''.ts''" if "p \<in> set (if finalize then segmentsBelow dir st else butlast (segmentsBelow dir st))" for p dir
    using that by (auto dest: in_set_butlastD split: if_splits)
  then show ?thesis unfolding performSegmentScan_def Let_def by (intro fold_keeps [where P = "segInv mux born"] segInv_scanFile assms)
qed

definition snapInv :: "(string \<Rightarrow> string) \<Rightarrow> (path \<times> string) list \<Rightarrow> path list \<times> segState \<Rightarrow> bool" where
  "snapInv mux born rs \<longleftrightarrow> segInv mux born (snd rs) \<and> (\<forall>p\<in>set (fst rs). segmentNamed (baseName p) \<longrightarrow> p \<in> rowPaths (snd rs))"

lemma snapInvI: "segInv mux born st' \<Longrightarrow> rowPaths st \<subseteq> rowPaths st' \<Longrightarrow> snapInv mux born (reg, st)
   \<Longrightarrow> (\<And>m. m \<in> set extra \<Longrightarrow> segmentNamed (baseName m) \<Longrightarrow> m \<in> rowPaths st') \<Longrightarrow> snapInv mux born (extra @ reg, st')"
  unfolding snapInv_def by auto

lemma snapInv_candidate:
  assumes i: "snapInv mux born (reg, st)" and s: "probeSound tls" "tl_mux tls = mux" "leftoversRemoved tls"
    and ts: "kind = OrphanTs \<Longrightarrow> ends_with (baseName p) ''.ts''" "kind = OrphanMp4 \<Longrightarrow> \<not> ends_with (baseName p) ''.ts''"
  shows "snapInv mux born (recoverCandidate env tls act (c, p, kind) (reg, st))"
proof -
  define sec where "sec = fst (envNumber (env ''RECORDING_SEGMENT_SECONDS'') (Fin 300) \<lparr>opt_min = Some 5, opt_max = Some 3600, opt_integer = True\<rparr>)"
  have inv: "segInv mux born st" using i by (simp add: snapInv_def)
  have fail: "snapInv mux born (reg, snd (registerSegmentRemuxFailure env tls c p e stage st1))" if "segInv mux born st1" "rowPaths st \<subseteq> rowPaths st1" for e stage st1
  proof -
    obtain full st2 where f: "registerSegmentRemuxFailure env tls c p e stage st1 = (full, st2)" by (cases "registerSegmentRemuxFailure env tls c p e stage st1")
    have "segInv mux born st2" "rowPaths st2 = rowPaths st1" using segInv_frame [OF that(1)] failure_frame [OF f] by simp_all
    then show ?thesis using snapInvI [of mux born st2 st reg "[]"] i that(2) f by simp
  qed
  have ok: "snapInv mux born (m # reg, clearFailures p st1)" if "segInv mux born st1" "rowPaths st \<subseteq> rowPaths st1" "segmentNamed (baseName m) \<Longrightarrow> m \<in> rowPaths st1" for m st1
  proof -
    have "segInv mux born (clearFailures p st1)" "rowPaths (clearFailures p st1) = rowPaths st1" using segInv_frame [OF that(1)] by (simp_all add: clearFailures_def)
    then show ?thesis using snapInvI [of mux born "clearFailures p st1" st reg "[m]"] i that(2,3) by simp
  qed
  show ?thesis
  proof (cases "act p \<or> isSegmentQuarantined p st")
    case True
    with i show ?thesis by (auto simp: recoverCandidate_def Let_def)
  next
    case False
    show ?thesis
    proof (cases kind)
      case OrphanTs
      have e: "ends_with (baseName p) ''.ts''" by (rule ts(1) [OF OrphanTs])
      show ?thesis
      proof (cases "mp4Of p \<in> set reg")
        case True
        then have "segmentNamed (baseName (mp4Of p)) \<Longrightarrow> mp4Of p \<in> rowPaths st" using i by (simp add: snapInv_def)
        then have "segInv mux born (delFile p st)" using segInvD(9) [OF inv] e by (intro segInv_delFile [OF inv]) auto
        then have "snapInv mux born (reg, delFile p st)" using i by (simp add: snapInv_def delFile_def)
        with False OrphanTs True i show ?thesis by (simp add: recoverCandidate_def Let_def)
      next
        case notIn: False
        obtain res st1 where r: "remuxAndRegisterTsSegment env tls c p sec st = (res, st1)" by (cases "remuxAndRegisterTsSegment env tls c p sec st")
        have q: "segInv mux born st1" "rowPaths st \<subseteq> rowPaths st1" "\<And>m. res = Inr m \<Longrightarrow> segmentNamed (baseName m) \<Longrightarrow> m \<in> rowPaths st1"
          using segInv_remux [OF inv e s r] by simp_all
        show ?thesis
          by (cases res) (use False OrphanTs notIn r q fail [OF q(1,2)] ok [OF q(1,2)] in \<open>simp_all add: recoverCandidate_def Let_def sec_def [symmetric]\<close>)
      qed
    next
      case OrphanMp4
      have e: "\<not> ends_with (baseName p) ''.ts''" by (rule ts(2) [OF OrphanMp4])
      obtain r st1 where r: "registerSegment env tls c p sec st = (r, st1)" by (cases "registerSegment env tls c p sec st")
      have q: "segInv mux born st1" "rowPaths st \<subseteq> rowPaths st1" "r = Inr () \<Longrightarrow> segmentNamed (baseName p) \<Longrightarrow> p \<in> rowPaths st1"
        using segInv_register [OF inv s(1) r e] register_cases [OF r] by auto
      show ?thesis
        using False OrphanMp4 r q fail [OF q(1,2)] fail [OF inv subset_refl] ok [OF q(1,2), of p]
        by (cases r) (simp_all add: recoverCandidate_def Let_def sec_def [symmetric] split: sum.split)
    qed
  qed
qed

lemma candidate_kinds:
  assumes "(c, p, kind) \<in> set (orphanCandidates env ''mp4'' base cams active now st)"
  shows "kind = OrphanTs \<Longrightarrow> ends_with (baseName p) ''.ts''" "kind = OrphanMp4 \<Longrightarrow> \<not> ends_with (baseName p) ''.ts''"
proof -
  obtain f grace reg where f: "orphanKindOf ''mp4'' reg grace now f = Some kind" "p = gf_path f"
    using assms unfolding orphanCandidates_def Let_def by (auto dest!: in_set_takeD simp: map_filter_def split: if_splits)
  have no: "\<not> (ends_with n ''.mp4'' \<and> ends_with n ''.ts'')" for n by (auto simp: ends_with_iff)
  show "kind = OrphanTs \<Longrightarrow> ends_with (baseName p) ''.ts''" "kind = OrphanMp4 \<Longrightarrow> \<not> ends_with (baseName p) ''.ts''"
    using f no [of "baseName p"] by (auto simp: orphanKindOf_def Let_def split: if_splits)
qed

lemma segInv_recover:
  assumes "segInv mux born st" "probeSound tls" "tl_mux tls = mux" "leftoversRemoved tls"
  shows "segInv mux born (recoverOrphanedSegments env tls ok ''mp4'' base cams active act st)"
proof (cases ok)
  case True
  have "snapInv mux born (map rw_filePath (sg_rows st), st)" using assms(1) by (simp add: snapInv_def)
  then have "snapInv mux born (fold (recoverCandidate env tls act) (orphanCandidates env ''mp4'' base cams active (tl_now tls) st) (map rw_filePath (sg_rows st), st))"
  proof (rule fold_keeps [where P = "snapInv mux born"])
    fix x rs assume x: "x \<in> set (orphanCandidates env ''mp4'' base cams active (tl_now tls) st)" and r: "snapInv mux born rs"
    obtain c p kind where xc: "x = (c, p, kind)" by (cases x)
    have "snapInv mux born (fst rs, snd rs)" using r by simp
    from snapInv_candidate [OF this assms(2-4) candidate_kinds [OF x [unfolded xc]]]
    show "snapInv mux born (recoverCandidate env tls act x rs)" by (simp add: xc)
  qed
  with True show ?thesis by (simp add: recoverOrphanedSegments_def snapInv_def)
qed (use assms(1) in \<open>simp add: recoverOrphanedSegments_def\<close>)

text \<open>A complete segment under a name that was not used before.\<close>

lemma segInv_captured:
  assumes i: "segInv mux born st" and p: "ends_with (baseName p) ''.ts''" "p \<notin> fst ` set born"
  shows "segInv mux ((p, x) # born) (putFile \<lparr>gf_path = p, gf_content = x, gf_size = n, gf_mtimeMs = t\<rparr> st)" (is "segInv mux _ ?st")
proof -
  note d = segInvD [OF i]
  have fresh: "p \<notin> diskPaths st" "mp4Of p \<notin> diskPaths st"
  proof -
    have "p \<notin> mp4Of ` fst ` set born" using p(1) d(3) mp4_not_ts by fastforce
    with d(4) p(2) show "p \<notin> diskPaths st" by fastforce
    have "mp4Of p \<notin> fst ` set born" using mp4_not_ts [OF p(1)] d(3) by fastforce
    moreover have "mp4Of p \<notin> mp4Of ` fst ` set born"
    proof
      assume "mp4Of p \<in> mp4Of ` fst ` set born"
      then obtain q y where q: "(q, y) \<in> set born" "mp4Of p = mp4Of q" by auto
      with mp4Of_inj [OF p(1) d(3) [OF q(1)]] p(2) show False by force
    qed
    ultimately have no: "mp4Of p \<notin> fst ` set born \<union> mp4Of ` fst ` set born" by simp
    show "mp4Of p \<notin> diskPaths st"
    proof
      assume "mp4Of p \<in> diskPaths st"
      then obtain f where f: "f \<in> set (sg_files st)" "gf_path f = mp4Of p" by auto
      from d(4) [OF f(1)] no show False by (simp add: f(2))
    qed
  qed
  let ?f = "\<lparr>gf_path = p, gf_content = x, gf_size = n, gf_mtimeMs = t\<rparr>"
  have files: "sg_files ?st = sg_files st @ [?f]" and rows: "sg_rows ?st = sg_rows st"
    using fresh(1) by (auto simp: putFile_def filter_id_conv)
  have old: "q \<noteq> p \<and> mp4Of q \<noteq> p" if "(q, y) \<in> set born" for q y
    using that p mp4_not_ts [OF d(3) [OF that]] by force
  show ?thesis
  proof (rule segInvI)
    show "distinct (map gf_path (sg_files ?st))" using d(1) fresh(1) by (simp add: files)
    show "distinct (map fst ((p, x) # born))" using d(2) p(2) by simp
    show "ends_with (baseName q) ''.ts''" if "(q, y) \<in> set ((p, x) # born)" for q y using that p(1) d(3) by auto
    show "gf_path f \<in> fst ` set ((p, x) # born) \<union> mp4Of ` fst ` set ((p, x) # born)" if "f \<in> set (sg_files ?st)" for f
      using that d(4) [of f] by (auto simp: files)
    show "gf_content f = y" if "f \<in> set (sg_files ?st)" "(q, y) \<in> set ((p, x) # born)" "gf_path f = q" for f q y
      using that d(5) [of f q y] fresh(1) old [of q y] by (auto simp: files)
    show "gf_content f = mux y" if "f \<in> set (sg_files ?st)" "(q, y) \<in> set ((p, x) # born)" "gf_path f = mp4Of q" for f q y
      using that d(6) [of f q y] fresh(2) old [of q y] mp4_not_ts [OF p(1)] p(1) imageI [of f "set (sg_files st)" gf_path] by (auto simp: files)
    show "\<exists>f\<in>set (sg_files ?st). gf_path f = q \<and> gf_size f \<noteq> 0" if "q \<in> rowPaths ?st" for q
      using that d(7) [of q] by (auto simp: files rows)
    show "q \<in> diskPaths ?st \<or> mp4Of q \<in> rowPaths ?st" if "(q, y) \<in> set ((p, x) # born)" "segmentNamed (baseName (mp4Of q))" for q y
      using that d(8) [of q y] by (auto simp: files rows)
    show "\<not> ends_with (baseName q) ''.ts''" if "q \<in> rowPaths ?st" for q using that d(9) [of q] by (simp add: rows)
  qed
qed

fun captures :: "segEvent \<Rightarrow> (path \<times> string) list" where
  "captures (Captured p x n t) = [(p, x)]"
| "captures _ = []"

fun soundTools :: "(string \<Rightarrow> string) \<Rightarrow> segEvent \<Rightarrow> bool" where
  "soundTools mux (ScanPass tls c s f) = (probeSound tls \<and> tl_mux tls = mux \<and> leftoversRemoved tls)"
| "soundTools mux (RecoverPass tls ok cs a b) = (probeSound tls \<and> tl_mux tls = mux \<and> leftoversRemoved tls)"
| "soundTools mux e = True"

lemma segInv_apply:
  assumes i: "segInv mux born st" and s: "soundTools mux e" and c: "\<forall>(p, x)\<in>set (captures e). ends_with (baseName p) ''.ts'' \<and> p \<notin> fst ` set born"
  shows "segInv mux (captures e @ born) (segApply env ''mp4'' base e st)"
proof (cases e)
  case (NewProcess c')
  then show ?thesis using segInv_frame [OF i] by simp
next
  case Reloaded
  then show ?thesis using segInv_frame [OF i] by simp
qed (use i s c segInv_captured segInv_scan segInv_recover in \<open>auto simp: segInv_captured segInv_scan segInv_recover\<close>)

lemma segRun_snoc: "segRun env format base (es @ [e]) st = segApply env format base e (segRun env format base es st)"
  by (simp add: segRun_def)

lemma segInv_run:
  assumes "\<forall>e\<in>set es. soundTools mux e" "\<forall>(p, x)\<in>set (concat (map captures es)). ends_with (baseName p) ''.ts''" "distinct (map fst (concat (map captures es)))"
  shows "\<exists>born. set born = set (concat (map captures es)) \<and> segInv mux born (segRun env ''mp4'' base es segInit)"
  using assms
proof (induction es rule: rev_induct)
  case Nil
  have "segInv mux [] segInit" by (simp add: segInv_def segInit_def)
  then show ?case by (auto simp: segRun_def)
next
  case (snoc e es)
  then obtain born where b: "set born = set (concat (map captures es))" "segInv mux born (segRun env ''mp4'' base es segInit)" by auto
  have "fst ` set (concat (map captures es)) \<inter> fst ` set (captures e) = {}" using snoc.prems(3) by simp
  then have "fst ` set born \<inter> fst ` set (captures e) = {}" unfolding b(1) .
  moreover have "\<forall>(p, x)\<in>set (captures e). ends_with (baseName p) ''.ts''" using snoc.prems(2) by simp
  ultimately have "\<forall>(p, x)\<in>set (captures e). ends_with (baseName p) ''.ts'' \<and> p \<notin> fst ` set born" by force
  then have "segInv mux (captures e @ born) (segRun env ''mp4'' base (es @ [e]) segInit)"
    unfolding segRun_snoc using snoc.prems(1) by (intro segInv_apply [OF b(2)]) simp_all
  moreover have "set (captures e @ born) = set (concat (map captures (es @ [e])))" using b(1) by auto
  ultimately show ?case by blast
qed

section \<open>Properties\<close>

text \<open>
  Property C6. No footage is lost between the capture and the archive. Through any captures of segments under names
  that are not reused, scans, recoveries, new processes and reloads, with any failures of FFmpeg, FFprobe, the
  database and the disk on the way but those named here, every captured segment whose MP4 has the name of a segment is
  still on the disk as it was captured, or its MP4, made from exactly that segment, is on the disk, is not empty and has a
  row in the table of recordings. It is assumed that FFprobe finds no duration in an empty file, that the partial MP4
  which a failed call of FFmpeg leaves behind can be removed, and that a pass that was begun runs to its end. Where the
  partial MP4 cannot be removed the claim fails: \<open>leftover_mp4_replaces_segment\<close>.
\<close>

theorem segments_preserved:
  assumes "\<forall>e\<in>set es. soundTools mux e" "\<forall>(p, x)\<in>set (concat (map captures es)). ends_with (baseName p) ''.ts''" "distinct (map fst (concat (map captures es)))"
    and "Captured p x n t \<in> set es" "segmentNamed (baseName (mp4Of p))" "st = segRun env ''mp4'' base es segInit"
  shows "(\<exists>f\<in>set (sg_files st). gf_path f = p \<and> gf_content f = x)
    \<or> (\<exists>f\<in>set (sg_files st). \<exists>r\<in>set (sg_rows st). gf_path f = mp4Of p \<and> gf_content f = mux x \<and> gf_size f \<noteq> 0 \<and> rw_filePath r = mp4Of p)"
proof -
  obtain born where b: "set born = set (concat (map captures es))" "segInv mux born st" using segInv_run [OF assms(1-3), of env base] assms(6) by auto
  have x: "(p, x) \<in> set born" using assms(4) unfolding b(1) by force
  note d = segInvD [OF b(2)]
  from d(8) [OF x assms(5)] show ?thesis
  proof
    assume "p \<in> diskPaths st"
    then show ?thesis using d(5) [OF _ x] by blast
  next
    assume r: "mp4Of p \<in> rowPaths st"
    then obtain f where f: "f \<in> set (sg_files st)" "gf_path f = mp4Of p" "gf_size f \<noteq> 0" using d(7) by blast
    with d(6) [OF f(1) x f(2)] r show ?thesis by force
  qed
qed

section \<open>Segments that fail\<close>

definition marked :: "path \<Rightarrow> segState \<Rightarrow> bool" where
  "marked k st = (map_of (sg_markers st) k \<noteq> None)"

lemma marked_write: "marked k st \<Longrightarrow> marked k (writeMarker tls p m st)"
  by (simp add: marked_def writeMarker_def update_conv')

lemma marked_frame: "sg_markers st' = sg_markers st \<Longrightarrow> marked k st' = marked k st"
  by (simp add: marked_def)

lemma register_marked: "registerSegment env tls c p s st = (r, st') \<Longrightarrow> marked k st \<Longrightarrow> marked k st'"
  by (auto simp: registerSegment_def Let_def marked_write marked_frame [OF upsert_frame(5)] split: option.splits sum.splits if_splits)

lemma remux_frame:
  assumes "remuxAndRegisterTsSegment env tls c ts s st0 = (res, st')"
  shows "sg_attempts st' = sg_attempts st0 @ [ts] \<and> sg_failures st' = sg_failures st0 \<and> (marked k st0 \<longrightarrow> marked k st')"
  using assms
proof (cases rule: remux_cases)
  case (failed e)
  then show ?thesis by (auto simp: delFile_def putFile_def marked_def)
next
  case (refused st1 e)
  then have "sg_attempts st1 = sg_attempts st0 @ [ts]" "sg_failures st1 = sg_failures st0" "marked k st1 = marked k st0" by (auto simp: putFile_def marked_def)
  with register_cases [OF refused(2)] register_marked [OF refused(2), of k] show ?thesis by auto
next
  case (stored st1 st2)
  then have "sg_attempts st1 = sg_attempts st0 @ [ts]" "sg_failures st1 = sg_failures st0" "marked k st1 = marked k st0" by (auto simp: putFile_def marked_def)
  moreover have "sg_attempts st' = sg_attempts st2" "sg_failures st' = sg_failures st2" "marked k st' = marked k st2" using stored(3) by (auto simp: delFile_def marked_def)
  ultimately show ?thesis using register_cases [OF stored(2)] register_marked [OF stored(2), of k] by auto
qed

text \<open>Tools with which a segment never becomes a recording, but with which its marker can be written.\<close>

definition hopeless :: "path \<Rightarrow> segTools \<Rightarrow> bool" where
  "hopeless p tls \<longleftrightarrow> (\<forall>f args. gf_path f = p \<longrightarrow> tl_ffmpeg tls f args = None) \<and> (\<forall>f. gf_path f = mp4Of p \<longrightarrow> tl_ffprobe tls f = None)
     \<and> tl_writeOk tls (segmentQuarantineMarkerPath p)"

lemma hopeless_register:
  assumes "hopeless p tls" "segmentNamed (baseName (mp4Of p))"
  shows "\<exists>e. fst (registerSegment env tls c (mp4Of p) s st) = Inl e"
proof -
  have "probeRecordedFileMetadata tls (mp4Of p) st = Inl ''ENOENT'' \<or> (\<exists>n. probeRecordedFileMetadata tls (mp4Of p) st = Inr \<lparr>mt_duration = None, mt_size = n, mt_hasVideo = False\<rparr>)"
    using assms(1) by (auto simp: hopeless_def probeRecordedFileMetadata_def split: option.split dest: findFileD)
  with assms(2) show ?thesis by (auto simp: registerSegment_def segmentStart_def Let_def)
qed

lemma hopeless_remux:
  assumes "hopeless p tls" "segmentNamed (baseName (mp4Of p))"
  shows "\<exists>e. fst (remuxAndRegisterTsSegment env tls c p s st) = Inl e"
proof -
  obtain res st' where r: "remuxAndRegisterTsSegment env tls c p s st = (res, st')" by (cases "remuxAndRegisterTsSegment env tls c p s st")
  then show ?thesis
  proof (cases rule: remux_cases)
    case (stored st1 st2)
    with hopeless_register [OF assms, of env c s st1] show ?thesis by simp
  qed (simp_all add: r)
qed

definition tries :: "path \<Rightarrow> segState \<Rightarrow> int" where
  "tries p st = int (count_list (sg_attempts st) p)"

definition boundInv :: "environment \<Rightarrow> path \<Rightarrow> segState \<Rightarrow> bool" where
  "boundInv env p st \<longleftrightarrow> tries p st \<le> getSegmentRemuxMaxAttempts env
     \<and> (marked (segmentQuarantineMarkerPath p) st \<or> tries p st \<le> int (failuresOf p st) \<and> int (failuresOf p st) < getSegmentRemuxMaxAttempts env)"

lemma maxAttempts_pos: "1 \<le> getSegmentRemuxMaxAttempts env"
  by (auto simp: getSegmentRemuxMaxAttempts_def Let_def le_floor_iff)

lemma boundInv_frame:
  "boundInv env p st \<Longrightarrow> count_list (sg_attempts st') p = count_list (sg_attempts st) p \<Longrightarrow> failuresOf p st' = failuresOf p st
     \<Longrightarrow> (marked (segmentQuarantineMarkerPath p) st \<Longrightarrow> marked (segmentQuarantineMarkerPath p) st') \<Longrightarrow> boundInv env p st'"
  by (auto simp: boundInv_def tries_def)

lemma failure_other:
  assumes "registerSegmentRemuxFailure env tls c q e stage st = (full, st')" "q \<noteq> p"
  shows "failuresOf p st' = failuresOf p st \<and> (marked k st \<longrightarrow> marked k st')"
proof -
  have m: "marked k st \<Longrightarrow> marked k (writeMarker tls x m' (clearFailures q st))" for x m'
    by (rule marked_write) (simp add: marked_def clearFailures_def)
  show ?thesis
    using assms m by (auto simp: registerSegmentRemuxFailure_def Let_def writeMarker_frame failuresOf_def clearFailures_def update_conv' delete_conv' marked_def split: if_splits)
qed

text \<open>One failed attempt at the segment that was not in quarantine.\<close>

lemma boundInv_failure:
  assumes i: "boundInv env p st" "\<not> marked (segmentQuarantineMarkerPath p) st" and h: "hopeless p tls"
    and st1: "count_list (sg_attempts st1) p = count_list (sg_attempts st) p + 1" "sg_failures st1 = sg_failures st"
    and f: "registerSegmentRemuxFailure env tls c p e stage st1 = (full, st2)"
  shows "boundInv env p st2"
proof -
  let ?n = "getSegmentRemuxMaxAttempts env"
  have n: "tries p st \<le> int (failuresOf p st)" "int (failuresOf p st) < ?n" using i by (auto simp: boundInv_def)
  have same: "failuresOf p st1 = failuresOf p st" by (simp add: failuresOf_def st1(2))
  have att: "sg_attempts st2 = sg_attempts st1" using failure_frame [OF f] by simp
  show ?thesis
  proof (cases "int (failuresOf p st1 + 1) < ?n")
    case True
    then have "st2 = st1\<lparr>sg_failures := AList.update p (failuresOf p st1 + 1) (sg_failures st1)\<rparr>" using f by (simp add: registerSegmentRemuxFailure_def Let_def)
    then have "failuresOf p st2 = failuresOf p st1 + 1" by (simp add: failuresOf_def update_conv')
    with True n same st1(1) att show ?thesis by (simp add: boundInv_def tries_def)
  next
    case False
    then obtain m where "st2 = writeMarker tls (segmentQuarantineMarkerPath p) m (clearFailures p st1)" using f by (auto simp: registerSegmentRemuxFailure_def Let_def)
    then have "marked (segmentQuarantineMarkerPath p) st2" using h by (simp add: hopeless_def writeMarker_def marked_def update_conv')
    with n same st1(1) att show ?thesis by (simp add: boundInv_def tries_def)
  qed
qed

lemma boundInv_scanFile:
  assumes i: "boundInv env p st" and h: "hopeless p tls" "segmentNamed (baseName (mp4Of p))"
  shows "boundInv env p (scanFile env tls c sec q st)"
proof (cases "(c, q) \<in> set (sg_known st) \<or> isSegmentQuarantined q st \<or> (case findFile q st of None \<Rightarrow> True | Some f \<Rightarrow> gf_size f \<le> 0)")
  case True
  have "boundInv env p (st\<lparr>sg_known := k\<rparr>)" for k by (rule boundInv_frame [OF i]) (simp_all add: failuresOf_def marked_def)
  then show ?thesis using True i by (auto simp: scanFile_def split: option.splits)
next
  case False
  then have nq: "\<not> marked (segmentQuarantineMarkerPath q) st" by (simp add: isSegmentQuarantined_def marked_def)
  obtain res st1 where r: "remuxAndRegisterTsSegment env tls c q sec st = (res, st1)" by (cases "remuxAndRegisterTsSegment env tls c q sec st")
  note fr = remux_frame [OF r]
  have known: "boundInv env p (st'\<lparr>sg_known := k\<rparr>)" if "boundInv env p st'" for st' k by (rule boundInv_frame [OF that]) (simp_all add: failuresOf_def marked_def)
  show ?thesis
  proof (cases res)
    case (Inl e)
    obtain full st2 where f: "registerSegmentRemuxFailure env tls c q e ''remux'' st1 = (full, st2)" by (cases "registerSegmentRemuxFailure env tls c q e ''remux'' st1")
    have "boundInv env p st2"
    proof (cases "q = p")
      case True
      show ?thesis by (rule boundInv_failure [OF i _ h(1) _ _ f [unfolded True]]) (use nq fr True in simp_all)
    next
      case neq: False
      show ?thesis by (rule boundInv_frame [OF i]) (use fr neq failure_frame [OF f] failure_other [OF f neq] in \<open>auto simp: failuresOf_def\<close>)
    qed
    then show ?thesis using False r Inl f known by (auto simp: scanFile_def split: option.splits)
  next
    case (Inr m)
    have "q \<noteq> p" using hopeless_remux [OF h, of env c sec st] r Inr by auto
    then have "boundInv env p (clearFailures q (st1\<lparr>sg_known := k\<rparr>))" for k
      by (intro boundInv_frame [OF i]) (use fr in \<open>auto simp: failuresOf_def clearFailures_def delete_conv' marked_def\<close>)
    then show ?thesis using False r Inr by (auto simp: scanFile_def split: option.splits)
  qed
qed

lemma boundInv_candidate:
  assumes i: "boundInv env p st" and h: "hopeless p tls" "segmentNamed (baseName (mp4Of p))" and ts: "ends_with (baseName p) ''.ts''"
    and kind: "kind = OrphanMp4 \<Longrightarrow> \<not> ends_with (baseName q) ''.ts''"
  shows "boundInv env p (snd (recoverCandidate env tls act (c, q, kind) (reg, st)))"
proof (cases "act q \<or> isSegmentQuarantined q st")
  case True
  with i show ?thesis by (auto simp: recoverCandidate_def Let_def)
next
  case False
  then have nq: "\<not> marked (segmentQuarantineMarkerPath q) st" by (simp add: isSegmentQuarantined_def marked_def)
  define sec where "sec = fst (envNumber (env ''RECORDING_SEGMENT_SECONDS'') (Fin 300) \<lparr>opt_min = Some 5, opt_max = Some 3600, opt_integer = True\<rparr>)"
  have other: "boundInv env p (snd (registerSegmentRemuxFailure env tls c q e stage st1))"
    if "q \<noteq> p" "boundInv env p st1" for e stage st1
  proof -
    obtain full st2 where f: "registerSegmentRemuxFailure env tls c q e stage st1 = (full, st2)" by (cases "registerSegmentRemuxFailure env tls c q e stage st1")
    have "boundInv env p st2" by (rule boundInv_frame [OF that(2)]) (use failure_frame [OF f] failure_other [OF f that(1)] in simp_all)
    with f show ?thesis by simp
  qed
  have clear: "boundInv env p (clearFailures q st1)" if "q \<noteq> p" "boundInv env p st1" for st1
    by (rule boundInv_frame [OF that(2)]) (use that(1) in \<open>simp_all add: failuresOf_def clearFailures_def delete_conv' marked_def\<close>)
  show ?thesis
  proof (cases kind)
    case OrphanTs
    show ?thesis
    proof (cases "mp4Of q \<in> set reg")
      case True
      have "boundInv env p (delFile q st)" by (rule boundInv_frame [OF i]) (simp_all add: delFile_def failuresOf_def marked_def)
      with False OrphanTs True i show ?thesis by (simp add: recoverCandidate_def Let_def)
    next
      case notIn: False
      obtain res st1 where r: "remuxAndRegisterTsSegment env tls c q sec st = (res, st1)" by (cases "remuxAndRegisterTsSegment env tls c q sec st")
      have s1: "boundInv env p st1" if "q \<noteq> p" by (rule boundInv_frame [OF i]) (use remux_frame [OF r] that in \<open>simp_all add: failuresOf_def\<close>)
      show ?thesis
      proof (cases "q = p")
        case True
        then obtain e where e: "res = Inl e" using hopeless_remux [OF h, of env c sec st] r by auto
        obtain full st2 where f: "registerSegmentRemuxFailure env tls c q e ''remux'' st1 = (full, st2)" by (cases "registerSegmentRemuxFailure env tls c q e ''remux'' st1")
        have "boundInv env p st2" by (rule boundInv_failure [OF i _ h(1) _ _ f [unfolded True]]) (use nq remux_frame [OF r] True in simp_all)
        with False OrphanTs notIn r e f show ?thesis by (simp add: recoverCandidate_def Let_def sec_def [symmetric])
      next
        case neq: False
        show ?thesis
          by (cases res) (use False OrphanTs notIn r other [OF neq s1 [OF neq]] clear [OF neq s1 [OF neq]] in \<open>simp_all add: recoverCandidate_def Let_def sec_def [symmetric]\<close>)
      qed
    qed
  next
    case OrphanMp4
    with kind ts have neq: "q \<noteq> p" by auto
    obtain r st1 where r: "registerSegment env tls c q sec st = (r, st1)" by (cases "registerSegment env tls c q sec st")
    have s1: "boundInv env p st1" by (rule boundInv_frame [OF i]) (use register_cases [OF r] register_marked [OF r] in \<open>simp_all add: failuresOf_def\<close>)
    show ?thesis
      using False OrphanMp4 r other [OF neq s1] other [OF neq i] clear [OF neq s1]
      by (cases r) (simp_all add: recoverCandidate_def Let_def sec_def [symmetric] split: sum.split)
  qed
qed

fun hopelessEvent :: "path \<Rightarrow> segEvent \<Rightarrow> bool" where
  "hopelessEvent p (ScanPass tls c s f) = hopeless p tls"
| "hopelessEvent p (RecoverPass tls ok cs a b) = hopeless p tls"
| "hopelessEvent p Reloaded = False"
| "hopelessEvent p e = True"

lemma boundInv_recover:
  assumes i: "boundInv env p st" and h: "hopeless p tls" "segmentNamed (baseName (mp4Of p))" and ts: "ends_with (baseName p) ''.ts''"
  shows "boundInv env p (recoverOrphanedSegments env tls ok ''mp4'' base cams active act st)"
proof -
  have "boundInv env p (snd (fold (recoverCandidate env tls act) xs rs))"
    if "boundInv env p (snd rs)" "set xs \<subseteq> set (orphanCandidates env ''mp4'' base cams active (tl_now tls) st)" for xs rs
    using that
  proof (induction xs arbitrary: rs)
    case (Cons x xs)
    obtain c q kind where x: "x = (c, q, kind)" by (cases x)
    have "(c, q, kind) \<in> set (orphanCandidates env ''mp4'' base cams active (tl_now tls) st)" using Cons.prems(2) by (simp add: x)
    from boundInv_candidate [OF Cons.prems(1) h ts candidate_kinds(2) [OF this], where reg = "fst rs"] Cons.IH Cons.prems(2)
    show ?case by (simp add: x)
  qed simp
  with i show ?thesis by (simp add: recoverOrphanedSegments_def)
qed

lemma boundInv_apply:
  assumes "boundInv env p st" "hopelessEvent p e" "segmentNamed (baseName (mp4Of p))" "ends_with (baseName p) ''.ts''"
  shows "boundInv env p (segApply env ''mp4'' base e st)"
proof (cases e)
  case (Captured q x n t)
  then show ?thesis using boundInv_frame [OF assms(1)] by (simp add: putFile_def failuresOf_def marked_def)
next
  case (NewProcess c)
  then show ?thesis using boundInv_frame [OF assms(1)] by (simp add: failuresOf_def marked_def)
next
  case (ScanPass tls c s f)
  have "boundInv env p (performSegmentScan env tls base c s f st)"
    unfolding performSegmentScan_def Let_def by (intro fold_keeps [where P = "boundInv env p"] boundInv_scanFile) (use assms ScanPass in simp_all)
  with ScanPass show ?thesis by simp
next
  case (RecoverPass tls ok cs a b)
  then show ?thesis using assms boundInv_recover by simp
next
  case Reloaded
  then show ?thesis using assms(2) by simp
qed

interpretation failing: event_invariant "segApply env ''mp4'' base"
    "\<lambda>e st. hopelessEvent p e \<and> segmentNamed (baseName (mp4Of p)) \<and> ends_with (baseName p) ''.ts''" "boundInv env p" for env base p
  by unfold_locales (simp add: boundInv_apply)

text \<open>
  Property C23. A poisoned segment stops costing. A segment that FFmpeg and FFprobe always refuse, and whose marker can
  be written, is tried at most as often as configured - once at least - in any run of one process of the program,
  however many scans, recoveries and new recording processes come over it.
\<close>

theorem failing_segment_bounded:
  assumes "\<forall>e\<in>set es. hopelessEvent p e" "segmentNamed (baseName (mp4Of p))" "ends_with (baseName p) ''.ts''"
  shows "1 \<le> getSegmentRemuxMaxAttempts env
    \<and> int (count_list (sg_attempts (segRun env ''mp4'' base es segInit)) p) \<le> getSegmentRemuxMaxAttempts env"
proof -
  have "boundInv env p segInit" using maxAttempts_pos [of env] by (simp add: boundInv_def tries_def segInit_def failuresOf_def)
  then have "boundInv env p (segRun env ''mp4'' base es segInit)"
    unfolding segRun_def by (rule failing.run_inv) (use assms in \<open>simp add: okRun_const list_all_iff\<close>)
  then show ?thesis using maxAttempts_pos [of env] by (simp add: boundInv_def tries_def)
qed

section \<open>Concrete runs\<close>

text \<open>Tools with which everything works but what is named: the segments that FFmpeg refuses, and the markers that cannot be written.\<close>

definition someTools :: "int \<Rightarrow> path list \<Rightarrow> bool \<Rightarrow> segTools" where
  "someTools now bad markers =
     \<lparr>tl_now = now,
      tl_ffprobe = (\<lambda>f. if gf_size f = 0 \<or> gf_content f = ''partial'' \<or> gf_path f \<in> set (map mp4Of bad) then None
        else Some \<lparr>fp_duration = Fin 300, fp_size = Fin (of_int (gf_size f)), fp_streams = Some [(''video'', ''hevc'')]\<rparr>),
      tl_codec = (\<lambda>f. Some ''hevc''), tl_ffmpeg = (\<lambda>f args. if gf_path f \<in> set bad then None else Some (gf_size f)), tl_mux = (\<lambda>x. ''mp4 of '' @ x),
      tl_partial = (\<lambda>f. if gf_path f \<in> set bad then Some (''partial'', 1) else None),
      tl_databaseOk = (\<lambda>p. True), tl_cameraMode = (\<lambda>c. Some ''continuous''), tl_queueOk = True, tl_writeOk = (\<lambda>p. markers), tl_unlinkOk = (\<lambda>p. True),
      tl_renameOk = (\<lambda>p. True), tl_segmentConfig = Fin 300\<rparr>"

lemma someTools_sound: "probeSound (someTools now bad markers)" "tl_mux (someTools now bad markers) = (\<lambda>x. ''mp4 of '' @ x)"
  "leftoversRemoved (someTools now bad markers)"
  by (simp_all add: probeSound_def leftoversRemoved_def someTools_def)

definition dirA :: path where "dirA = [''rec'', ''camera-a'', ''2026'', ''01'', ''02'', ''03'']"
definition seg1 :: path where "seg1 = dirA @ [''2026-01-02_03-00-00.ts'']"
definition seg2 :: path where "seg2 = dirA @ [''2026-01-02_03-05-00.ts'']"
definition seg3 :: path where "seg3 = [''rec'', ''camera-a'', ''2026'', ''01'', ''02'', ''04'', ''2026-01-02_04-00-00.ts'']"

text \<open>Two segments are captured and a scan runs while the second one may still be written.\<close>

theorem segments_preserved_witness:
  "let es = [Captured seg1 ''one'' 100 0, Captured seg2 ''two'' 90 0, ScanPass (someTools 1000 [] True) ''a'' 300 False];
       st = segRun (\<lambda>_. None) ''mp4'' [''rec''] es segInit
   in ((\<exists>f\<in>set (sg_files st). gf_path f = seg1 \<and> gf_content f = ''one'')
       \<or> (\<exists>f\<in>set (sg_files st). \<exists>r\<in>set (sg_rows st). gf_path f = mp4Of seg1 \<and> gf_content f = ''mp4 of one'' \<and> gf_size f \<noteq> 0 \<and> rw_filePath r = mp4Of seg1))
      \<and> map gf_path (sg_files st) = [seg2, mp4Of seg1] \<and> sg_thumbs st = [0]"
proof -
  let ?es = "[Captured seg1 ''one'' 100 0, Captured seg2 ''two'' 90 0, ScanPass (someTools 1000 [] True) ''a'' 300 False]"
  have h: "\<forall>e\<in>set ?es. soundTools (\<lambda>x. ''mp4 of '' @ x) e" by (simp add: someTools_sound)
  have t: "\<forall>(p, x)\<in>set (concat (map captures ?es)). ends_with (baseName p) ''.ts''" by code_simp
  have d: "distinct (map fst (concat (map captures ?es)))" by code_simp
  have n: "segmentNamed (baseName (mp4Of seg1))" by code_simp
  have r: "map gf_path (sg_files (segRun (\<lambda>_. None) ''mp4'' [''rec''] ?es segInit)) = [seg2, mp4Of seg1] \<and> sg_thumbs (segRun (\<lambda>_. None) ''mp4'' [''rec''] ?es segInit) = [0]"
    by code_simp
  have m: "Captured seg1 ''one'' 100 0 \<in> set ?es" by simp
  show ?thesis using segments_preserved [OF h t d m n refl, of "\<lambda>_. None" "[''rec'']"] r unfolding Let_def by simp
qed

text \<open>
  FFmpeg fails half-way on a segment, say because the time is up, and the MP4 it leaves cannot be removed. FFprobe reads
  a duration in it. The next scan takes it for the finished one, registers it and removes the segment: what is left is
  the beginning of the footage.
\<close>

lemma leftover_mp4_replaces_segment:
  "let bad = (someTools 1000 [seg1] True)\<lparr>tl_partial := (\<lambda>f. Some (''beginning of one'', 40)), tl_unlinkOk := (\<lambda>p. False)\<rparr>;
       st = segRun (\<lambda>_. None) ''mp4'' [''rec''] [Captured seg1 ''one'' 100 0, ScanPass bad ''a'' 300 True, ScanPass (someTools 2000 [] True) ''a'' 300 True] segInit
   in map (\<lambda>f. (gf_path f, gf_content f)) (sg_files st) = [(mp4Of seg1, ''beginning of one'')] \<and> map rw_filePath (sg_rows st) = [mp4Of seg1]"
  by code_simp

text \<open>Five scans over a segment that FFmpeg refuses.\<close>

theorem failing_segment_bounded_witness:
  "let es = Captured seg1 ''bad'' 100 0 # replicate 5 (ScanPass (someTools 1000 [seg1] True) ''a'' 300 True) in
   int (count_list (sg_attempts (segRun (\<lambda>_. None) ''mp4'' [''rec''] es segInit)) seg1) \<le> getSegmentRemuxMaxAttempts (\<lambda>_. None)
   \<and> count_list (sg_attempts (segRun (\<lambda>_. None) ''mp4'' [''rec''] es segInit)) seg1 = 3"
proof -
  let ?es = "Captured seg1 ''bad'' 100 0 # replicate 5 (ScanPass (someTools 1000 [seg1] True) ''a'' 300 True)"
  have "hopeless seg1 (someTools 1000 [seg1] True)" by (simp add: hopeless_def someTools_def)
  then have h: "\<forall>e\<in>set ?es. hopelessEvent seg1 e" by simp
  have n: "segmentNamed (baseName (mp4Of seg1))" by code_simp
  have t: "ends_with (baseName seg1) ''.ts''" by code_simp
  have "count_list (sg_attempts (segRun (\<lambda>_. None) ''mp4'' [''rec''] ?es segInit)) seg1 = 3" by code_simp
  then show ?thesis using failing_segment_bounded [OF h n t, of "\<lambda>_. None" "[''rec'']"] unfolding Let_def by simp
qed

end
