(* ===== verification/Segment_Cases.thy ===== *)
theory Segment_Cases
  imports Segment_Props
begin

text \<open>
  More of the registration of segments: the length that is registered, what a scan and the pruning of the ring leave
  alone, and runs that show what they do not.
\<close>

section \<open>The registered length\<close>

lemma upsert_row:
  assumes "r \<in> set (sg_rows (upsertRecording tls c p a b d n st))" "rw_filePath r = p"
  shows "rw_endedAt r = b \<and> rw_durationSeconds r = d \<and> rw_sizeBytes r = n"
proof (cases "list_ex (\<lambda>r. rw_filePath r = p) (sg_rows st)")
  case True
  let ?t = "case tl_cameraMode tls c of None \<Rightarrow> ''unknown'' | Some m \<Rightarrow> m"
  let ?f = "\<lambda>r. if rw_filePath r = p then r\<lparr>rw_endedAt := b, rw_durationSeconds := d, rw_sizeBytes := n, rw_triggerMode := ?t\<rparr> else r"
  have "sg_rows (upsertRecording tls c p a b d n st) = map ?f (sg_rows st)" using True by (simp add: upsertRecording_def Let_def)
  with assms(1) obtain x where x: "r = ?f x" by (auto simp del: if_image_distrib)
  with assms(2) show ?thesis by (cases "rw_filePath x = p") simp_all
next
  case False
  then have "r \<notin> set (sg_rows st)" using assms(2) by (auto simp: list_ex_iff)
  with assms False show ?thesis by (auto simp: upsertRecording_def Let_def)
qed

lemma expected_pos: "0 < getExpectedSegmentSeconds tls s"
  by (simp add: getExpectedSegmentSeconds_def split: jsnum.split)

lemma expected_le_max: "getExpectedSegmentSeconds tls s \<le> getMaxSegmentDurationSeconds env tls s"
  using expected_pos [of tls s] by (simp add: getMaxSegmentDurationSeconds_def Let_def le_max_iff_disj)

lemma trunc_bounds: "of_int a \<le> x \<Longrightarrow> a \<le> math_trunc x" "0 \<le> x \<Longrightarrow> of_int (math_trunc x) \<le> x"
  by (auto simp: math_trunc_def le_floor_iff) linarith

text \<open>
  What is registered can be played. A registration of a segment that succeeds has found a length and a
  video stream in the file, and the row it leaves for the file ends after the instant that the name of the file says,
  at most the maximal length of a segment later - twice the expected length at least, whatever FFprobe reported - and
  counts one second at least.
\<close>

theorem registered_length_bounded:
  assumes "registerSegment env tls c p s st = (Inr (), st')" "segmentStart (baseName p) = Some a" "0 \<le> a" "r \<in> set (sg_rows st')" "rw_filePath r = p"
  shows "\<exists>d. 0 < d \<and> d \<le> getMaxSegmentDurationSeconds env tls s \<and> 2 * getExpectedSegmentSeconds tls s \<le> getMaxSegmentDurationSeconds env tls s
    \<and> rw_durationSeconds r = max 1 (math_round d) \<and> a \<le> rw_endedAt r \<and> of_int (rw_endedAt r) \<le> of_int a + getMaxSegmentDurationSeconds env tls s * 1000
    \<and> (\<exists>meta probed. probeRecordedFileMetadata tls p st = Inr meta \<and> mt_duration meta = Some probed \<and> 0 < probed \<and> mt_hasVideo meta
        \<and> (probed \<le> getMaxSegmentDurationSeconds env tls s \<longrightarrow> d = probed))"
proof -
  obtain meta probed where m: "probeRecordedFileMetadata tls p st = Inr meta" "mt_duration meta = Some probed" "mt_hasVideo meta"
    using assms(1,2) by (auto simp: registerSegment_def Let_def split: sum.splits option.splits if_splits)
  have pos: "0 < probed" using m(1,2) by (auto simp: probeRecordedFileMetadata_def split: option.splits jsnum.splits if_splits)
  let ?max = "getMaxSegmentDurationSeconds env tls s"
  define d where "d = (if ?max < probed then getExpectedSegmentSeconds tls s else probed)"
  obtain st1 where "st' = upsertRecording tls c p a (math_trunc (of_int a + d * 1000)) (max 1 (math_round d)) \<lfloor>mt_size meta\<rfloor> st1"
    using assms(1,2) m unfolding d_def by (auto simp: registerSegment_def Let_def split: if_splits)
  with upsert_row assms(4,5) have r: "rw_endedAt r = math_trunc (of_int a + d * 1000)" "rw_durationSeconds r = max 1 (math_round d)" by blast+
  have d: "0 < d" "d \<le> ?max" using pos expected_pos [of tls s] expected_le_max [of tls s env] by (auto simp: d_def)
  have "of_int (math_trunc (of_int a + d * 1000)) \<le> of_int a + d * 1000" by (rule trunc_bounds(2)) (use assms(3) d(1) in simp)
  also have "\<dots> \<le> of_int a + ?max * 1000" using d(2) by simp
  finally have "of_int (rw_endedAt r) \<le> of_int a + ?max * 1000" by (simp add: r(1))
  moreover have "a \<le> rw_endedAt r" unfolding r(1) by (rule trunc_bounds(1)) (use d(1) in simp)
  moreover have "2 * getExpectedSegmentSeconds tls s \<le> ?max" by (simp add: getMaxSegmentDurationSeconds_def Let_def mult.commute)
  moreover have "probed \<le> ?max \<longrightarrow> d = probed" by (simp add: d_def)
  ultimately show ?thesis using d r(2) m pos by blast
qed

text \<open>A jump of the timestamps: FFprobe reports a day for a segment of five minutes.\<close>

theorem registered_length_bounded_witness:
  "let tls = (someTools 1000 [] True)\<lparr>tl_ffprobe := \<lambda>f. Some \<lparr>fp_duration = Fin 86400, fp_size = Fin 100, fp_streams = Some [(''video'', ''h264'')]\<rparr>\<rparr>;
       st = putFile \<lparr>gf_path = mp4Of seg1, gf_content = ''x'', gf_size = 100, gf_mtimeMs = 0\<rparr> segInit;
       st' = snd (registerSegment (\<lambda>_. None) tls ''a'' (mp4Of seg1) 300 st)
   in of_int (rw_endedAt (hd (sg_rows st'))) \<le> of_int 1767322800000 + getMaxSegmentDurationSeconds (\<lambda>_. None) tls 300 * 1000
      \<and> rw_durationSeconds (hd (sg_rows st')) = 300"
proof -
  let ?tls = "(someTools 1000 [] True)\<lparr>tl_ffprobe := \<lambda>f. Some \<lparr>fp_duration = Fin 86400, fp_size = Fin 100, fp_streams = Some [(''video'', ''h264'')]\<rparr>\<rparr>"
  let ?st = "putFile \<lparr>gf_path = mp4Of seg1, gf_content = ''x'', gf_size = 100, gf_mtimeMs = 0\<rparr> segInit"
  let ?r = "registerSegment (\<lambda>_. None) ?tls ''a'' (mp4Of seg1) 300 ?st"
  have "fst ?r = Inr ()" by code_simp
  then have e: "?r = (Inr (), snd ?r)" by (metis prod.collapse)
  have a: "segmentStart (baseName (mp4Of seg1)) = Some 1767322800000" by code_simp
  have l: "length (sg_rows (snd ?r)) = 1" by code_simp
  then have m: "hd (sg_rows (snd ?r)) \<in> set (sg_rows (snd ?r))" by (intro hd_in_set) auto
  have p: "rw_filePath (hd (sg_rows (snd ?r))) = mp4Of seg1" by code_simp
  have d: "rw_durationSeconds (hd (sg_rows (snd ?r))) = 300" by code_simp
  have "0 \<le> (1767322800000 :: int)" by simp
  from registered_length_bounded [OF e a this m p] d show ?thesis unfolding Let_def by blast
qed

section \<open>What is left alone\<close>

text \<open>A scan of a camera that records tries no segment but those before the last one in the order of their paths.\<close>

lemma scan_attempts:
  "set (sg_attempts (performSegmentScan env tls base c sec False st)) \<subseteq> set (sg_attempts st) \<union> set (butlast (segmentsBelow (buildCameraRootDir base c) st))"
proof -
  have one: "set (sg_attempts (scanFile env tls c sec p st)) \<subseteq> insert p (set (sg_attempts st))" for p st
  proof -
    obtain res st1 where r: "remuxAndRegisterTsSegment env tls c p sec st = (res, st1)" by (cases "remuxAndRegisterTsSegment env tls c p sec st")
    have a: "set (sg_attempts st1) = insert p (set (sg_attempts st))" using remux_frame [OF r] by simp
    show ?thesis
    proof (cases res)
      case (Inl e)
      obtain full st2 where f: "registerSegmentRemuxFailure env tls c p e ''remux'' st1 = (full, st2)" by (cases "registerSegmentRemuxFailure env tls c p e ''remux'' st1")
      then show ?thesis using a failure_frame [OF f] r Inl by (auto simp: scanFile_def split: option.splits)
    next
      case (Inr m)
      then show ?thesis using a r by (auto simp: scanFile_def clearFailures_def split: option.splits)
    qed
  qed
  have "set (sg_attempts (fold (scanFile env tls c sec) ps st)) \<subseteq> set (sg_attempts st) \<union> set ps" for ps st
  proof (induction ps arbitrary: st)
    case (Cons p ps)
    show ?case using Cons.IH [of "scanFile env tls c sec p st"] one [of p st] by auto
  qed simp
  then show ?thesis unfolding performSegmentScan_def Let_def by simp
qed

text \<open>The pruning of the ring spares what a trigger of the last six seconds would promote.\<close>

lemma prune_spares_window:
  assumes f: "f \<in> set (sg_files st)" "distinct (map gf_path (sg_files st))"
    and window: "of_int triggerAt - preEventSeconds * 1000 \<le> gf_mtimeMs f" "tl_now tls \<le> triggerAt + 6000"
  shows "f \<in> set (sg_files (prunePreBuffers tls base preEventSeconds cams st))"
proof -
  have young: "\<not> (preEventSeconds + 6) * 1000 < of_int (tl_now tls) - gf_mtimeMs f"
  proof -
    have "of_int (tl_now tls) \<le> (of_int (triggerAt + 6000) :: rat)" using window(2) by (simp only: of_int_le_iff)
    then have "of_int (tl_now tls) \<le> of_int triggerAt + (6000 :: rat)" by simp
    moreover have "(preEventSeconds + 6) * 1000 = preEventSeconds * 1000 + 6000" by (simp add: distrib_right)
    ultimately show ?thesis using window(1) by linarith
  qed
  let ?ok = "\<lambda>s. f \<in> set (sg_files s) \<and> distinct (map gf_path (sg_files s))"
  let ?step = "\<lambda>p s'. case findFile p s' of None \<Rightarrow> s'
      | Some g \<Rightarrow> if (preEventSeconds + 6) * 1000 < of_int (tl_now tls) - gf_mtimeMs g \<and> tl_unlinkOk tls p then delFile p s' else s'"
  have step: "?ok (?step p s)" if "?ok s" for p s
  proof (cases "gf_path f = p")
    case True
    with that findFile_in [of s f] young show ?thesis by auto
  next
    case False
    with that show ?thesis by (auto simp: delFile_def distinct_map_filter split: option.split)
  qed
  have ring: "?ok (fold ?step ps s)" if "?ok s" for ps s using that
  proof (induction ps arbitrary: s)
    case (Cons p ps)
    show ?case unfolding fold_simps comp_def by (rule Cons.IH [OF step [OF Cons.prems]])
  qed simp
  have "?ok (fold (\<lambda>c s. fold ?step (ringFiles (preBufferDir base c) s) s) cs s)" if "?ok s" for cs s using that
  proof (induction cs arbitrary: s)
    case (Cons c cs)
    show ?case unfolding fold_simps comp_def by (rule Cons.IH [OF ring [OF Cons.prems]])
  qed simp
  with f show ?thesis unfolding prunePreBuffers_def by auto
qed

section \<open>What goes wrong\<close>

text \<open>
  An MP4 that a crash cut off in the middle of the remux is taken for finished: the segment is never remuxed again,
  although FFmpeg would do it, and goes into quarantine without a recording.
\<close>

lemma cut_mp4_poisons:
  "let st = segRun (\<lambda>_. None) ''mp4'' [''rec''] (replicate 3 (ScanPass (someTools 1000 [] True) ''a'' 300 True))
        (putFile \<lparr>gf_path = mp4Of seg1, gf_content = ''partial'', gf_size = 50, gf_mtimeMs = 0\<rparr>
          (segApply (\<lambda>_. None) ''mp4'' [''rec''] (Captured seg1 ''good'' 100 0) segInit))
   in isSegmentQuarantined seg1 st \<and> sg_rows st = [] \<and> map gf_content (sg_files st) = [''good'', ''partial'']"
  by code_simp

text \<open>
  Where the marker cannot be written the recovery tries the segment for ever: the count starts again after it was full.
\<close>

lemma recovery_without_marker_loops:
  "count_list (sg_attempts (segRun (\<lambda>_. None) ''mp4'' [''rec'']
      (Captured seg1 ''bad'' 100 0 # replicate 7 (RecoverPass (someTools 1000000 [seg1] False) True [''a''] (\<lambda>c. False) (\<lambda>p. False))) segInit)) seg1 = 7
   \<and> getSegmentRemuxMaxAttempts (\<lambda>_. None) = 3"
  by code_simp

text \<open>
  A segment in quarantine stays in the listing. Under a later hour it takes the place of the last one, and a scan
  treats the segment that is being written as finished: it is registered and removed.
\<close>

lemma quarantined_segment_exposes_current:
  "let before = Captured seg3 ''bad'' 100 0 # replicate 3 (ScanPass (someTools 1000 [seg3] True) ''a'' 300 True);
       st = segRun (\<lambda>_. None) ''mp4'' [''rec''] (before @ [Captured seg2 ''being written'' 10 0, ScanPass (someTools 2000 [seg3] True) ''a'' 300 False]) segInit;
       alone = segRun (\<lambda>_. None) ''mp4'' [''rec''] [Captured seg2 ''being written'' 10 0, ScanPass (someTools 2000 [] True) ''a'' 300 False] segInit
   in map gf_path (sg_files st) = [seg3, mp4Of seg2] \<and> map rw_filePath (sg_rows st) = [mp4Of seg2]
      \<and> map gf_path (sg_files alone) = [seg2] \<and> sg_rows alone = []"
  by code_simp

text \<open>
  Two segments of the ring that end in the same second get the same name when they are promoted. The second one is
  taken for remuxed, since the MP4 of the first is there, and is removed: its footage is nowhere any more.
\<close>

lemma promotion_overwrites:
  "let ring = preBufferDir [''rec''] ''a'';
       st0 = fold putFile [\<lparr>gf_path = ring @ [''1''@ ''.ts''], gf_content = ''one'', gf_size = 10, gf_mtimeMs = 1767322802100\<rparr>,
               \<lparr>gf_path = ring @ [''2''@ ''.ts''], gf_content = ''two'', gf_size = 10, gf_mtimeMs = 1767322802900\<rparr>,
               \<lparr>gf_path = ring @ [''3''@ ''.ts''], gf_content = ''three'', gf_size = 10, gf_mtimeMs = 1767322804900\<rparr>] segInit;
       st = promotePreRoll (\<lambda>_. None) (someTools 1767322805000 [] True) [''rec''] ''a'' True 10 1767322805000 st0
   in map gf_content (sg_files st) = [''three'', ''mp4 of one''] \<and> length (sg_rows st) = 1"
  by code_simp

end
