(* ===== verification/Evidence.thy ===== *)
theory Evidence
  imports Retention "HOL-Library.Char_ord" "HOL-Library.List_Lexorder"
begin

text \<open>
  Signed packages of evidence (\<open>apps/api/src/evidence/evidence.service.ts\<close>): the canonical text of a document, the
  signature over it and its verification.

  \<^item> A document is a value of JavaScript as a program holds it: besides what JSON knows it may have dates, which JSON turns
    into texts (\<open>jsonized\<close>).
  \<^item> The hash functions, the collation and the printing of numbers are the record \<open>evidenceRuntime\<close>.
  \<^item> \<open>localeCompare\<close> compares the collation keys of two texts, \<open>er_collate\<close>, which depend on the locale of the host.
  \<^item> A document has no \<open>undefined\<close>: no caller puts one into a payload.
\<close>

section \<open>Documents\<close>

datatype doc = DNull | DBool bool | DNum rat | DStr string | DDate int | DArr "doc list" | DObj "(string \<times> doc) list"

primrec jsonDoc :: "json \<Rightarrow> doc" where
  "jsonDoc JNull = DNull"
| "jsonDoc (JBool b) = DBool b"
| "jsonDoc (JNum n) = DNum n"
| "jsonDoc (JStr s) = DStr s"
| "jsonDoc (JArr xs) = DArr (map jsonDoc xs)"
| "jsonDoc (JObj fs) = DObj (map (map_prod id jsonDoc) fs)"

text \<open>What is left of a document after it was written as JSON and read back, in the database or on the wire.\<close>

primrec docJson :: "doc \<Rightarrow> json" where
  "docJson DNull = JNull"
| "docJson (DBool b) = JBool b"
| "docJson (DNum n) = JNum n"
| "docJson (DStr s) = JStr s"
| "docJson (DDate t) = JStr (iso_string t)"
| "docJson (DArr xs) = JArr (map docJson xs)"
| "docJson (DObj fs) = JObj (map (map_prod id docJson) fs)"

definition jsonized :: "doc \<Rightarrow> doc" where
  "jsonized d = jsonDoc (docJson d)"

section \<open>Canonical text\<close>

record evidenceRuntime =
  er_sha256Hex :: "string \<Rightarrow> string"
  er_hmacHex :: "string \<Rightarrow> string \<Rightarrow> string"
  er_showNum :: "rat \<Rightarrow> string"
  er_collate :: "string \<Rightarrow> nat list"

text \<open>The order in which an object lists its keys: array indices first, by their number.\<close>

definition isIndex :: "string \<Rightarrow> bool" where
  "isIndex k \<longleftrightarrow> k \<noteq> [] \<and> list_all is_digit k \<and> (hd k \<noteq> CHR ''0'' \<or> k = ''0'') \<and> digits_value 0 k < 4294967295"

definition fromEntries :: "(string \<times> doc) list \<Rightarrow> (string \<times> doc) list" where
  "fromEntries es = sort_key (\<lambda>e. digits_value 0 (fst e)) (filter (\<lambda>e. isIndex (fst e)) es) @ filter (\<lambda>e. \<not> isIndex (fst e)) es"

definition sortEntries :: "evidenceRuntime \<Rightarrow> (string \<times> doc) list \<Rightarrow> (string \<times> doc) list" where
  "sortEntries rt es = fromEntries (sort_key (\<lambda>e. er_collate rt (fst e)) es)"

primrec normalizeForStableJson :: "evidenceRuntime \<Rightarrow> doc \<Rightarrow> doc" where
  "normalizeForStableJson rt DNull = DNull"
| "normalizeForStableJson rt (DBool b) = DBool b"
| "normalizeForStableJson rt (DNum n) = DNum n"
| "normalizeForStableJson rt (DStr s) = DStr s"
| "normalizeForStableJson rt (DDate t) = DObj []"
| "normalizeForStableJson rt (DArr xs) = DArr (map (normalizeForStableJson rt) xs)"
| "normalizeForStableJson rt (DObj fs) = DObj (sortEntries rt (map (map_prod id (normalizeForStableJson rt)) fs))"

definition hexDigit :: "nat \<Rightarrow> char" where
  "hexDigit n = ''0123456789abcdef'' ! n"

definition jsonChar :: "char \<Rightarrow> string" where
  "jsonChar c =
     (if c = CHR 0x22 then [CHR 0x5C, CHR 0x22]
      else if c = CHR 0x5C then [CHR 0x5C, CHR 0x5C]
      else if c = CHR 0x08 then [CHR 0x5C, CHR ''b'']
      else if c = CHR 0x09 then [CHR 0x5C, CHR ''t'']
      else if c = CHR 0x0A then [CHR 0x5C, CHR ''n'']
      else if c = CHR 0x0C then [CHR 0x5C, CHR ''f'']
      else if c = CHR 0x0D then [CHR 0x5C, CHR ''r'']
      else if (of_char c :: nat) < 32 then [CHR 0x5C, CHR ''u'', CHR ''0'', CHR ''0'', hexDigit (of_char c div 16), hexDigit (of_char c mod 16)]
      else [c])"

definition jsonQuote :: "string \<Rightarrow> string" where
  "jsonQuote s = [CHR 0x22] @ concat (map jsonChar s) @ [CHR 0x22]"

primrec stringify :: "(rat \<Rightarrow> string) \<Rightarrow> doc \<Rightarrow> string" where
  "stringify sn DNull = ''null''"
| "stringify sn (DBool b) = (if b then ''true'' else ''false'')"
| "stringify sn (DNum n) = sn n"
| "stringify sn (DStr s) = jsonQuote s"
| "stringify sn (DDate t) = jsonQuote (iso_string t)"
| "stringify sn (DArr xs) = ''['' @ join '','' (map (stringify sn) xs) @ '']''"
| "stringify sn (DObj fs) = ''{'' @ join '','' (map (\<lambda>(k, s). jsonQuote k @ '':'' @ s) (map (map_prod id (stringify sn)) fs)) @ ''}''"

section \<open>Signature\<close>

record evidenceConfig =
  ec_hmacSecret :: string
  ec_hmacKeyId :: string

definition stableStringify :: "evidenceRuntime \<Rightarrow> doc \<Rightarrow> string" where
  "stableStringify rt d = stringify (er_showNum rt) (normalizeForStableJson rt d)"

definition secretConfigured :: "evidenceConfig \<Rightarrow> bool" where
  "secretConfigured cfg \<longleftrightarrow> \<not> length (ec_hmacSecret cfg) < 16"

definition signPackage :: "evidenceRuntime \<Rightarrow> evidenceConfig \<Rightarrow> int \<Rightarrow> (string \<times> doc) list \<Rightarrow> string + (string \<times> doc) list" where
  "signPackage rt cfg now payload =
     (if \<not> secretConfigured cfg then Inl ''EVIDENCE_HMAC_SECRET''
      else let payloadCanonical = stableStringify rt (DObj payload) in
        if 10000000 < int (length payloadCanonical) then Inl ''payload_too_large''
        else let packageHashValue = er_sha256Hex rt payloadCanonical;
                 signatureValue = er_hmacHex rt (ec_hmacSecret cfg) packageHashValue
          in Inr [(''packageHash'', DObj [(''algorithm'', DStr ''SHA-256''), (''value'', DStr packageHashValue)]),
                  (''signature'', DObj [(''algorithm'', DStr ''HMAC-SHA-256''), (''value'', DStr signatureValue), (''keyId'', DStr (ec_hmacKeyId cfg))]),
                  (''signedAt'', DStr (iso_string now))])"

section \<open>Verification\<close>

definition extractObject :: "doc option \<Rightarrow> (string \<times> doc) list option" where
  "extractObject d = (case d of Some (DObj fs) \<Rightarrow> Some fs | Some (DDate _) \<Rightarrow> Some [] | _ \<Rightarrow> None)"

definition providedValue :: "(string \<times> doc) list \<Rightarrow> string \<Rightarrow> string option" where
  "providedValue pkg k =
     (case extractObject (map_of pkg k) of
        None \<Rightarrow> None
      | Some fs \<Rightarrow> (case map_of fs ''value'' of Some (DStr s) \<Rightarrow> Some s | _ \<Rightarrow> None))"

definition omitInternalFields :: "(string \<times> doc) list \<Rightarrow> (string \<times> doc) list" where
  "omitInternalFields pkg = filter (\<lambda>e. fst e \<notin> {''packageHash'', ''signature'', ''signedAt''}) pkg"

definition isHexChar :: "char \<Rightarrow> bool" where
  "isHexChar c \<longleftrightarrow> is_digit c \<or> CHR ''a'' \<le> c \<and> c \<le> CHR ''f'' \<or> CHR ''A'' \<le> c \<and> c \<le> CHR ''F''"

definition isHex :: "string \<Rightarrow> bool" where
  "isHex s \<longleftrightarrow> s \<noteq> [] \<and> list_all isHexChar s"

definition hexVal :: "char \<Rightarrow> nat" where
  "hexVal c = (if is_digit c then of_char c - 48 else if CHR ''a'' \<le> c then of_char c - 87 else of_char c - 55)"

text \<open>\<open>Buffer.from(s, 'hex')\<close> of a text of hexadecimal digits: a last odd digit is left out.\<close>

fun hexBytes :: "string \<Rightarrow> nat list" where
  "hexBytes (a # b # s) = (hexVal a * 16 + hexVal b) # hexBytes s"
| "hexBytes _ = []"

definition safeCompareHex :: "string option \<Rightarrow> string \<Rightarrow> bool" where
  "safeCompareHex provided computed =
     (case provided of
        None \<Rightarrow> False
      | Some p \<Rightarrow> if p = [] then False else if \<not> isHex p \<or> \<not> isHex computed then False else hexBytes p = hexBytes computed)"

record verdict =
  vd_ok :: bool
  vd_hashValid :: bool
  vd_signatureValid :: bool
  vd_providedHash :: "string option"
  vd_providedSignature :: "string option"

definition verifyPackage :: "evidenceRuntime \<Rightarrow> evidenceConfig \<Rightarrow> (string \<times> doc) list \<Rightarrow> string + verdict" where
  "verifyPackage rt cfg pkg =
     (if \<not> secretConfigured cfg then Inl ''EVIDENCE_HMAC_SECRET''
      else let computedHash = er_sha256Hex rt (stableStringify rt (DObj (omitInternalFields pkg)));
               computedSignature = er_hmacHex rt (ec_hmacSecret cfg) computedHash;
               providedHash = providedValue pkg ''packageHash''; providedSignature = providedValue pkg ''signature'';
               hashValid = safeCompareHex providedHash computedHash; signatureValid = safeCompareHex providedSignature computedSignature
        in Inr \<lparr>vd_ok = hashValid \<and> signatureValid, vd_hashValid = hashValid, vd_signatureValid = signatureValid,
                vd_providedHash = providedHash, vd_providedSignature = providedSignature\<rparr>)"

section \<open>Lemmas\<close>

text \<open>The canonical text of an object does not depend on the order of its keys, as far as the collation tells them apart.\<close>

lemma sortEntries_perm:
  assumes "mset xs = mset ys" "distinct (map fst xs)" "inj_on (er_collate rt) (fst ` set xs)"
  shows "sortEntries rt xs = sortEntries rt ys"
proof -
  have "inj_on (\<lambda>e. er_collate rt (fst e)) (set xs)" using assms(2,3) by (auto simp: distinct_map inj_on_def)
  moreover have "mset xs = mset (sort_key (\<lambda>e. er_collate rt (fst e)) ys)" using assms(1) by simp
  ultimately have "sort_key (\<lambda>e. er_collate rt (fst e)) xs = sort_key (\<lambda>e. er_collate rt (fst e)) ys" by (intro sort_key_inj_key_eq) simp_all
  then show ?thesis by (simp add: sortEntries_def)
qed

text \<open>
  Two documents that are equal up to the order of the keys, at every depth: arrays agree place by place, and the
  entries of an object, each equal up to the order of its own keys, may stand in any order. The keys of an object are
  different and the collation tells them apart.
\<close>

inductive sameUpToKeys :: "evidenceRuntime \<Rightarrow> doc \<Rightarrow> doc \<Rightarrow> bool" for rt where
  same_refl: "sameUpToKeys rt d d"
| same_array: "list_all2 (sameUpToKeys rt) xs ys \<Longrightarrow> sameUpToKeys rt (DArr xs) (DArr ys)"
| same_object: "list_all2 (\<lambda>e e'. fst e = fst e' \<and> sameUpToKeys rt (snd e) (snd e')) fs gs \<Longrightarrow> mset gs = mset hs \<Longrightarrow>
    distinct (map fst hs) \<Longrightarrow> inj_on (er_collate rt) (fst ` set hs) \<Longrightarrow> sameUpToKeys rt (DObj fs) (DObj hs)"

lemma normalize_sameUpToKeys: "sameUpToKeys rt d e \<Longrightarrow> normalizeForStableJson rt d = normalizeForStableJson rt e"
proof (induction rule: sameUpToKeys.induct)
  case (same_array xs ys)
  then have "map (normalizeForStableJson rt) xs = map (normalizeForStableJson rt) ys"
    by (induction rule: list_all2_induct) auto
  then show ?case by simp
next
  case (same_object fs gs hs)
  let ?f = "map_prod id (normalizeForStableJson rt)"
  from same_object(1) have "map ?f fs = map ?f gs" by (induction rule: list_all2_induct) (auto simp: map_prod_def split_beta)
  moreover have "mset (map ?f gs) = mset (map ?f hs)" using same_object(2) by (simp only: mset_map)
  moreover have "mset (map fst gs) = mset (map fst hs)" using same_object(2) by (simp only: mset_map)
  then have "distinct (map fst (map ?f gs))" using same_object(3) mset_eq_imp_distinct_iff by (fastforce simp: comp_def)
  moreover have "fst ` set gs = fst ` set hs" using same_object(2) by (metis set_mset_mset)
  then have "inj_on (er_collate rt) (fst ` set (map ?f gs))" using same_object(4) by (simp add: image_image)
  ultimately have "sortEntries rt (map ?f fs) = sortEntries rt (map ?f hs)" using sortEntries_perm by metis
  then show ?case by simp
qed simp

lemma omit_fields:
  assumes "signPackage rt cfg now payload = Inr sg"
  shows "omitInternalFields sg = []" "map_of sg ''packageHash'' = Some (DObj [(''algorithm'', DStr ''SHA-256''), (''value'', DStr (er_sha256Hex rt (stableStringify rt (DObj payload))))])"
    "providedValue sg ''packageHash'' = Some (er_sha256Hex rt (stableStringify rt (DObj payload)))"
    "providedValue sg ''signature'' = Some (er_hmacHex rt (ec_hmacSecret cfg) (er_sha256Hex rt (stableStringify rt (DObj payload))))"
  using assms by (auto simp: signPackage_def omitInternalFields_def providedValue_def extractObject_def Let_def split: if_splits)

lemma provided_append: "k \<notin> fst ` set base \<Longrightarrow> providedValue (base @ sg) k = providedValue sg k"
  by (simp add: providedValue_def map_add_dom_app_simps(3) dom_map_of_conv_image_fst)

lemma omit_attached:
  assumes "signPackage rt cfg now payload = Inr sg" "fst ` set base \<inter> {''packageHash'', ''signature'', ''signedAt''} = {}"
  shows "omitInternalFields (base @ sg) = base"
proof -
  have "fst e \<notin> {''packageHash'', ''signature'', ''signedAt''}" if "e \<in> set base" for e using assms(2) that by blast
  then have "omitInternalFields base = base" by (auto simp: omitInternalFields_def filter_id_conv)
  then show ?thesis using omit_fields(1) [OF assms(1)] by (simp add: omitInternalFields_def)
qed

section \<open>Properties\<close>

text \<open>
  Property C11. A signature vouches for exactly one canonical text. Take a document to which the fields of a signed
  package are attached. If its canonical text is the one that was signed, it passes the verification; so does the signed
  document with its keys in any order at every depth, as long as the collation of the host tells the keys of each
  object apart. If it passes and reads differently, then its canonical text and the one that was signed, which differ,
  have the same SHA-256. And any package that passes, whatever its fields, carries the HMAC, under the secret, of the
  hash of its own canonical text. The hash functions are only asked to print hexadecimal digits.
\<close>

theorem evidence_tamper_evident:
  assumes "signPackage rt cfg now payload = Inr sg" "fst ` set base \<inter> {''packageHash'', ''signature'', ''signedAt''} = {}"
    and "\<forall>s. isHex (er_sha256Hex rt s)" "\<forall>k s. isHex (er_hmacHex rt k s)"
  shows "(stableStringify rt (DObj base) = stableStringify rt (DObj payload) \<longrightarrow> (\<exists>v. verifyPackage rt cfg (base @ sg) = Inr v \<and> vd_ok v))
    \<and> (sameUpToKeys rt (DObj base) (DObj payload) \<longrightarrow> (\<exists>v. verifyPackage rt cfg (base @ sg) = Inr v \<and> vd_ok v))
    \<and> (\<forall>v. verifyPackage rt cfg (base @ sg) = Inr v \<and> vd_ok v \<and> stableStringify rt (DObj base) \<noteq> stableStringify rt (DObj payload) \<longrightarrow>
        hexBytes (er_sha256Hex rt (stableStringify rt (DObj base))) = hexBytes (er_sha256Hex rt (stableStringify rt (DObj payload))))
    \<and> (\<forall>pkg v. verifyPackage rt cfg pkg = Inr v \<and> vd_ok v \<longrightarrow>
        (\<exists>mac. providedValue pkg ''signature'' = Some mac
          \<and> hexBytes mac = hexBytes (er_hmacHex rt (ec_hmacSecret cfg) (er_sha256Hex rt (stableStringify rt (DObj (omitInternalFields pkg)))))))"
proof -
  have cfg: "secretConfigured cfg" using assms(1) by (simp add: signPackage_def split: if_splits)
  have k: "''packageHash'' \<notin> fst ` set base" "''signature'' \<notin> fst ` set base" using assms(2) by auto
  have o: "omitInternalFields (base @ sg) = base" using assms(1,2) by (rule omit_attached)
  have ne: "s \<noteq> []" if "isHex s" for s using that by (simp add: isHex_def)
  let ?c = "stableStringify rt (DObj payload)" and ?b = "stableStringify rt (DObj base)"
  have v: "(\<exists>v. verifyPackage rt cfg (base @ sg) = Inr v \<and> vd_ok v) \<longleftrightarrow>
      hexBytes (er_sha256Hex rt ?c) = hexBytes (er_sha256Hex rt ?b)
      \<and> hexBytes (er_hmacHex rt (ec_hmacSecret cfg) (er_sha256Hex rt ?c)) = hexBytes (er_hmacHex rt (ec_hmacSecret cfg) (er_sha256Hex rt ?b))"
    using cfg assms(3,4) ne
    by (simp add: verifyPackage_def o provided_append [OF k(1)] provided_append [OF k(2)] omit_fields(3,4) [OF assms(1)] safeCompareHex_def Let_def)
  have same: "?b = ?c" if "sameUpToKeys rt (DObj base) (DObj payload)"
    using normalize_sameUpToKeys [OF that] by (simp add: stableStringify_def)
  show ?thesis
  proof (intro conjI allI impI)
    fix pkg v
    assume "verifyPackage rt cfg pkg = Inr v \<and> vd_ok v"
    then show "\<exists>mac. providedValue pkg ''signature'' = Some mac
        \<and> hexBytes mac = hexBytes (er_hmacHex rt (ec_hmacSecret cfg) (er_sha256Hex rt (stableStringify rt (DObj (omitInternalFields pkg)))))"
      by (auto simp: verifyPackage_def safeCompareHex_def Let_def split: if_splits option.splits)
  qed (use v same in metis)+
qed

text \<open>A runtime whose hash spells out its argument, for concrete runs.\<close>

definition spell :: "string \<Rightarrow> string" where
  "spell s = ''00'' @ concat (map (\<lambda>c. [hexDigit (of_char c div 16), hexDigit (of_char c mod 16)]) s)"

definition spellRuntime :: evidenceRuntime where
  "spellRuntime = \<lparr>er_sha256Hex = spell, er_hmacHex = (\<lambda>k s. spell (k @ s)), er_showNum = (\<lambda>n. show_nat (nat \<lfloor>n\<rfloor>)),
     er_collate = map of_char\<rparr>"

definition testConfig :: evidenceConfig where
  "testConfig = \<lparr>ec_hmacSecret = ''0123456789abcdef'', ec_hmacKeyId = ''test-key''\<rparr>"

lemma hexDigit_ok: "n < 16 \<Longrightarrow> isHexChar (hexDigit n) \<and> hexVal (hexDigit n) = n"
proof -
  assume "n < 16"
  then have "n \<in> set [0..<16]" by simp
  moreover have "\<forall>n\<in>set [0..<16]. isHexChar (hexDigit n) \<and> hexVal (hexDigit n) = n" by code_simp
  ultimately show ?thesis by blast
qed

lemma char_nibbles: "(of_char c :: nat) div 16 < 16" "(of_char c :: nat) mod 16 < 16"
  using nat_of_char_less_256 [of c] by (simp_all add: less_mult_imp_div_less)

lemma spell_hex: "isHex (spell s)"
  using hexDigit_ok char_nibbles by (induction s) (auto simp: isHex_def spell_def isHexChar_def is_digit_def)

theorem evidence_tamper_evident_witness:
  "\<exists>sg. signPackage spellRuntime testConfig 0 [(''a'', DStr ''x''), (''b'', DObj [(''c'', DNum 1), (''d'', DNull)])] = Inr sg
    \<and> (\<exists>v. verifyPackage spellRuntime testConfig ([(''b'', DObj [(''d'', DNull), (''c'', DNum 1)]), (''a'', DStr ''x'')] @ sg) = Inr v \<and> vd_ok v)"
proof -
  let ?p = "[(''a'', DStr ''x''), (''b'', DObj [(''c'', DNum 1), (''d'', DNull)])]"
  let ?g = "[(''b'', DObj [(''c'', DNum 1), (''d'', DNull)]), (''a'', DStr ''x'')]"
  let ?b = "[(''b'', DObj [(''d'', DNull), (''c'', DNum 1)]), (''a'', DStr ''x'')]"
  have "\<not> isl (signPackage spellRuntime testConfig 0 ?p)" by code_simp
  then obtain sg where sg: "signPackage spellRuntime testConfig 0 ?p = Inr sg" by (cases "signPackage spellRuntime testConfig 0 ?p") auto
  have hx: "\<forall>s. isHex (er_sha256Hex spellRuntime s)" "\<forall>k s. isHex (er_hmacHex spellRuntime k s)" by (simp_all add: spellRuntime_def spell_hex)
  have "sameUpToKeys spellRuntime (DObj [(''d'', DNull), (''c'', DNum 1)]) (DObj [(''c'', DNum 1), (''d'', DNull)])"
    by (rule same_object [where gs = "[(''d'', DNull), (''c'', DNum 1)]"]) (auto simp: spellRuntime_def inj_on_def intro: same_refl)
  then have "sameUpToKeys spellRuntime (DObj ?b) (DObj ?p)"
    by (intro same_object [where gs = ?g]) (auto simp: spellRuntime_def inj_on_def intro: same_refl)
  moreover have "fst ` set ?b \<inter> {''packageHash'', ''signature'', ''signedAt''} = {}" by simp
  ultimately have "\<exists>v. verifyPackage spellRuntime testConfig (?b @ sg) = Inr v \<and> vd_ok v" using evidence_tamper_evident [OF sg _ hx, of ?b] by blast
  with sg show ?thesis by blast
qed

section \<open>What the signature leaves out\<close>

text \<open>A date that the program holds as a date leaves no trace in the canonical text.\<close>

lemma dates_unsigned: "stableStringify rt (DObj [(''timestamp'', DDate t)]) = stableStringify rt (DObj [(''timestamp'', DDate t')])"
  by (simp add: stableStringify_def)

text \<open>
  So a package with a date that was signed as the program held it fails the verification once it was written as JSON,
  although nothing was changed.
\<close>

lemma dated_package_fails:
  "let payload = [(''id'', DStr ''1''), (''timestamp'', DDate 0)] in
   case signPackage spellRuntime testConfig 0 payload of
     Inl _ \<Rightarrow> False
   | Inr sg \<Rightarrow> (case jsonized (DObj (payload @ sg)) of
       DObj pkg \<Rightarrow> (case verifyPackage spellRuntime testConfig pkg of Inr v \<Rightarrow> \<not> vd_ok v | Inl _ \<Rightarrow> False)
     | _ \<Rightarrow> False)"
  by code_simp

text \<open>A file of the form \<open>{ payload, signature }\<close>, whatever it holds, is never verified.\<close>

lemma wrapped_package_never_verifies:
  "verifyPackage rt cfg [(''payload'', p), (''signature'', s)] = Inr v \<Longrightarrow> \<not> vd_ok v"
  by (auto simp: verifyPackage_def providedValue_def extractObject_def safeCompareHex_def Let_def split: if_splits)

end
