(* ===== verification/Investigations.thy ===== *)
theory Investigations
  imports Evidence Auth_Session
begin

text \<open>
  Investigations: \<open>apps/api/src/investigations/investigations.service.ts\<close>, the data transfer objects of its routes and what
  the controller adds to a call (the reasons it asks for, the records of the audit).

  \<^item> The items of all investigations are one list in the order of their creation. What a type of item keeps in its
    metadata is JSON, as the code has it. The times of the items are in milliseconds.
  \<^item> The identifiers that the database draws are the numbers of a counter. Records of the audit keep who did what to which
    entity, and when; the address of the caller is left out.
  \<^item> A refused call gives an \<open>invError\<close> and the state as it was. The labels of the activities are written without accents.
\<close>

section \<open>State\<close>

record invRow =
  iv_id :: string
  iv_title :: string
  iv_status :: string
  iv_summary :: "string option"
  iv_selectedCameraIds :: "string list"
  iv_timeStart :: int
  iv_timeEnd :: int
  iv_playbackSpeed :: string
  iv_activeTrackTime :: int
  iv_createdByUserId :: "string option"
  iv_createdByUserName :: "string option"
  iv_createdAt :: int
  iv_updatedAt :: int

record invItem =
  ii_id :: string
  ii_investigationId :: string
  ii_type :: string
  ii_label :: string
  ii_cameraId :: "string option"
  ii_cameraName :: "string option"
  ii_eventId :: "string option"
  ii_recordingId :: "string option"
  ii_timestamp :: int
  ii_notes :: "string option"
  ii_metadata :: "json option"

record invAudit =
  ia_userId :: "string option"
  ia_action :: string
  ia_entityType :: string
  ia_entityId :: string
  ia_createdAt :: int

record exportOrder =
  xo_investigationId :: string
  xo_requestId :: string
  xo_packageItemId :: string
  xo_executionReason :: string
  xo_executedByUserId :: string
  xo_executedByUserName :: string

datatype exportJob = ExecuteExport exportOrder | RetrySignature string string | RetryAllPending

record invState =
  is_investigations :: "invRow list"
  is_items :: "invItem list"
  is_audit :: "invAudit list"
  is_jobs :: "exportJob list"
  is_files :: "(path \<times> json) list"
  is_next :: nat

datatype invError = InvNotFound | InvBadRequest | InvForbidden

section \<open>Helpers\<close>

definition upperChar :: "char \<Rightarrow> char" where
  "upperChar c = (let n = (of_char c :: int) in if 97 \<le> n \<and> n \<le> 122 then char_of (n - 32) else c)"

definition allowedLifecycle :: "string list" where
  "allowedLifecycle = [''OPEN'', ''IN_REVIEW'', ''PENDING_APPROVAL'', ''CLOSED'', ''ARCHIVED'']"

definition normalizeLifecycle :: "string option \<Rightarrow> string" where
  "normalizeLifecycle status =
     (let raw = map upperChar (js_trim (case status of None \<Rightarrow> ''OPEN'' | Some s \<Rightarrow> s)) in
      if raw = ''ACTIVE'' then ''IN_REVIEW''
      else if raw = ''REVIEW'' then ''IN_REVIEW''
      else if raw \<in> set allowedLifecycle then raw else ''OPEN'')"

definition trimmedOrNone :: "string option \<Rightarrow> string option" where
  "trimmedOrNone s = (case s of None \<Rightarrow> None | Some t \<Rightarrow> if js_trim t = [] then None else Some (js_trim t))"

definition jsonOpt :: "string option \<Rightarrow> json" where
  "jsonOpt s = (case s of None \<Rightarrow> JNull | Some t \<Rightarrow> JStr t)"

definition invId :: "nat \<Rightarrow> string" where
  "invId n = ''id-'' @ show_nat n"

definition createItem :: "invItem \<Rightarrow> invState \<Rightarrow> string \<times> invState" where
  "createItem it st =
     (let i = invId (is_next st) in (i, st\<lparr>is_items := is_items st @ [it\<lparr>ii_id := i\<rparr>], is_next := is_next st + 1\<rparr>))"

definition plainItem :: "string \<Rightarrow> string \<Rightarrow> string \<Rightarrow> int \<Rightarrow> string option \<Rightarrow> json option \<Rightarrow> invItem" where
  "plainItem i ty lbl t ns md =
     \<lparr>ii_id = [], ii_investigationId = i, ii_type = ty, ii_label = lbl, ii_cameraId = None, ii_cameraName = None, ii_eventId = None,
      ii_recordingId = None, ii_timestamp = t, ii_notes = ns, ii_metadata = md\<rparr>"

definition actorMeta :: "authUserInfo \<Rightarrow> json" where
  "actorMeta u = JObj [(''actorUserId'', JStr (ai_id u)), (''actorUserName'', JStr (ai_name u))]"

definition addActivity :: "int \<Rightarrow> authUserInfo \<Rightarrow> string \<Rightarrow> string \<Rightarrow> string option \<Rightarrow> invState \<Rightarrow> invState" where
  "addActivity now u i lbl ns st = snd (createItem (plainItem i ''activity'' lbl now (trimmedOrNone ns) (Some (actorMeta u))) st)"

definition auditLog :: "int \<Rightarrow> string option \<Rightarrow> string \<Rightarrow> string \<Rightarrow> string \<Rightarrow> invState \<Rightarrow> invState" where
  "auditLog now uid action entity i st =
     st\<lparr>is_audit := is_audit st @ [\<lparr>ia_userId = uid, ia_action = action, ia_entityType = entity, ia_entityId = i, ia_createdAt = now\<rparr>]\<rparr>"

definition metaFields :: "invItem \<Rightarrow> (string \<times> json) list" where
  "metaFields x = (case ii_metadata x of Some (JObj fs) \<Rightarrow> fs | _ \<Rightarrow> [])"

record holdInfo =
  ho_enabled :: bool
  ho_reason :: "string option"
  ho_recordingIds :: "string list"
  ho_clipIds :: "string list"
  ho_itemIds :: "string list"

definition noHold :: holdInfo where
  "noHold = \<lparr>ho_enabled = False, ho_reason = None, ho_recordingIds = [], ho_clipIds = [], ho_itemIds = []\<rparr>"

definition jsonTruthy :: "json option \<Rightarrow> bool" where
  "jsonTruthy j =
     (case j of
        None \<Rightarrow> False | Some JNull \<Rightarrow> False | Some (JBool b) \<Rightarrow> b | Some (JNum n) \<Rightarrow> n \<noteq> 0 | Some (JStr s) \<Rightarrow> s \<noteq> [] | Some _ \<Rightarrow> True)"

definition textOf :: "json option \<Rightarrow> string option" where
  "textOf j = (case j of Some (JStr s) \<Rightarrow> Some s | _ \<Rightarrow> None)"

definition ofType :: "string \<Rightarrow> string \<Rightarrow> invItem \<Rightarrow> bool" where
  "ofType i ty x \<longleftrightarrow> ii_investigationId x = i \<and> ii_type x = ty"

definition getActiveLegalHold :: "string \<Rightarrow> invState \<Rightarrow> holdInfo" where
  "getActiveLegalHold i st =
     (case find (ofType i ''legal_hold'') (rev (is_items st)) of
        None \<Rightarrow> noHold
      | Some latest \<Rightarrow>
          (case ii_metadata latest of
             Some (JObj m) \<Rightarrow> \<lparr>ho_enabled = jsonTruthy (map_of m ''enabled''), ho_reason = textOf (map_of m ''reason''),
               ho_recordingIds = stringArray (map_of m ''recordingIds''), ho_clipIds = stringArray (map_of m ''clipIds''),
               ho_itemIds = stringArray (map_of m ''itemIds'')\<rparr>
           | _ \<Rightarrow> noHold))"

definition itemsOf :: "string \<Rightarrow> invState \<Rightarrow> invItem list" where
  "itemsOf i st = filter (\<lambda>x. ii_investigationId x = i) (is_items st)"

definition isInvAdmin :: "authUserInfo \<Rightarrow> bool" where
  "isInvAdmin u \<longleftrightarrow> ai_role u = ADMIN \<or> ai_role u = SUPER_ADMIN"

definition findInv :: "string \<Rightarrow> invState \<Rightarrow> invRow option" where
  "findInv i st = find (\<lambda>r. iv_id r = i) (is_investigations st)"

definition assertInvAccessible :: "authUserInfo \<Rightarrow> string \<Rightarrow> invState \<Rightarrow> invRow option" where
  "assertInvAccessible u i st =
     (case findInv i st of
        None \<Rightarrow> None
      | Some r \<Rightarrow> if isInvAdmin u then Some r else if iv_createdByUserId r \<noteq> Some (ai_id u) then None else Some r)"

text \<open>The opening of every operation on a case.\<close>

definition onInvestigation :: "authUserInfo \<Rightarrow> string \<Rightarrow> (invRow \<Rightarrow> invState \<Rightarrow> (invError + 'a) \<times> invState) \<Rightarrow> invState \<Rightarrow> (invError + 'a) \<times> invState" where
  "onInvestigation u i act st = (case assertInvAccessible u i st of None \<Rightarrow> (Inl InvNotFound, st) | Some r \<Rightarrow> act r st)"


section \<open>What a case shows\<close>

record invView =
  vw_row :: invRow
  vw_priority :: string
  vw_classification :: string
  vw_ownerUserId :: "string option"
  vw_ownerUserName :: "string option"
  vw_participants :: "json list"
  vw_items :: "invItem list"

definition mapInvestigation :: "invRow \<Rightarrow> invItem list \<Rightarrow> invView" where
  "mapInvestigation r its =
     (let metaItems = filter (\<lambda>x. ii_type x = ''case_meta'') its;
          caseMeta = (if metaItems = [] then None else ii_metadata (last metaItems)); owner = objField caseMeta ''owner''
      in \<lparr>vw_row = r,
          vw_priority = (case textOf (objField caseMeta ''priority'') of None \<Rightarrow> ''NORMAL'' | Some p \<Rightarrow> p),
          vw_classification = (case textOf (objField caseMeta ''classification'') of None \<Rightarrow> ''GENERAL'' | Some c \<Rightarrow> c),
          vw_ownerUserId = textOf (objField owner ''userId''), vw_ownerUserName = textOf (objField owner ''userName''),
          vw_participants = (case objField caseMeta ''participants'' of Some (JArr ps) \<Rightarrow> ps | _ \<Rightarrow> []),
          vw_items = its\<rparr>)"

definition viewOf :: "invRow \<Rightarrow> invState \<Rightarrow> invView" where
  "viewOf r st = mapInvestigation r (sort_key ii_timestamp (itemsOf (iv_id r) st))"

record listFilter =
  lf_q :: "string option"
  lf_status :: "string option"
  lf_priority :: "string option"
  lf_classification :: "string option"
  lf_ownerUserId :: "string option"

definition filterPasses :: "string option \<Rightarrow> string option \<Rightarrow> bool" where
  "filterPasses wanted actual \<longleftrightarrow> (case wanted of None \<Rightarrow> True | Some w \<Rightarrow> w = [] \<or> actual = Some w)"

definition listMatches :: "listFilter \<Rightarrow> invView \<Rightarrow> bool" where
  "listMatches f v \<longleftrightarrow>
     filterPasses (lf_status f) (Some (iv_status (vw_row v))) \<and> filterPasses (lf_priority f) (Some (vw_priority v))
     \<and> filterPasses (lf_classification f) (Some (vw_classification v)) \<and> filterPasses (lf_ownerUserId f) (vw_ownerUserId v)
     \<and> (case lf_q f of
          None \<Rightarrow> True
        | Some q0 \<Rightarrow> let q = js_lower (js_trim q0); dflt = (\<lambda>s. case s of None \<Rightarrow> [] | Some t \<Rightarrow> t) in
            q = [] \<or> str_includes (js_lower (iv_title (vw_row v) @ '' '' @ dflt (iv_summary (vw_row v)) @ '' '' @ dflt (vw_ownerUserName v))) q)"

definition listInvestigations :: "authUserInfo \<Rightarrow> listFilter \<Rightarrow> invState \<Rightarrow> invView list" where
  "listInvestigations u f st =
     (let visible = filter (\<lambda>r. isInvAdmin u \<or> iv_createdByUserId r = Some (ai_id u)) (is_investigations st);
          newest = take 50 (sort_key (\<lambda>r. - iv_updatedAt r) visible)
      in filter (listMatches f) (map (\<lambda>r. viewOf r st) newest))"

definition findOneInvestigation :: "authUserInfo \<Rightarrow> string \<Rightarrow> invState \<Rightarrow> invError + invView" where
  "findOneInvestigation u i st = (case assertInvAccessible u i st of None \<Rightarrow> Inl InvNotFound | Some r \<Rightarrow> Inr (viewOf r st))"

section \<open>Cases\<close>

definition maxLen :: "nat \<Rightarrow> string option \<Rightarrow> bool" where
  "maxLen n s \<longleftrightarrow> (case s of None \<Rightarrow> True | Some t \<Rightarrow> length t \<le> n)"

record invDraft =
  dr_title :: string
  dr_summary :: "string option"
  dr_status :: "string option"
  dr_selectedCameraIds :: "string list"
  dr_timeStart :: int
  dr_timeEnd :: int
  dr_playbackSpeed :: "string option"
  dr_activeTrackTime :: "int option"

definition validDraft :: "invDraft \<Rightarrow> bool" where
  "validDraft d \<longleftrightarrow> length (dr_title d) \<le> 160 \<and> maxLen 2000 (dr_summary d) \<and> maxLen 40 (dr_status d)
     \<and> (case dr_activeTrackTime d of None \<Rightarrow> True | Some n \<Rightarrow> 0 \<le> n)"

definition createInvestigation :: "int \<Rightarrow> authUserInfo \<Rightarrow> invDraft \<Rightarrow> invState \<Rightarrow> (invError + string) \<times> invState" where
  "createInvestigation now u d st =
     (if \<not> validDraft d then (Inl InvBadRequest, st)
      else let i = invId (is_next st);
               row = \<lparr>iv_id = i, iv_title = js_trim (dr_title d), iv_status = normalizeLifecycle (dr_status d), iv_summary = trimmedOrNone (dr_summary d),
                 iv_selectedCameraIds = dr_selectedCameraIds d, iv_timeStart = dr_timeStart d, iv_timeEnd = dr_timeEnd d,
                 iv_playbackSpeed = (case dr_playbackSpeed d of None \<Rightarrow> ''1x'' | Some p \<Rightarrow> p),
                 iv_activeTrackTime = (case dr_activeTrackTime d of None \<Rightarrow> 0 | Some n \<Rightarrow> n),
                 iv_createdByUserId = Some (ai_id u), iv_createdByUserName = Some (ai_name u), iv_createdAt = now, iv_updatedAt = now\<rparr>;
               st1 = st\<lparr>is_investigations := is_investigations st @ [row], is_next := is_next st + 1\<rparr>
        in (Inr i, auditLog now (Some (ai_id u)) ''investigation.create'' ''Investigation'' i
              (addActivity now u i ''Investigation criada'' (dr_summary d) st1)))"

definition setInv :: "string \<Rightarrow> (invRow \<Rightarrow> invRow) \<Rightarrow> invState \<Rightarrow> invState" where
  "setInv i f st = st\<lparr>is_investigations := map (\<lambda>r. if iv_id r = i then f r else r) (is_investigations st)\<rparr>"

record invPatch =
  pt_title :: "string option"
  pt_summary :: "string option"
  pt_status :: "string option"
  pt_selectedCameraIds :: "string list option"
  pt_timeStart :: "int option"
  pt_timeEnd :: "int option"
  pt_playbackSpeed :: "string option"
  pt_activeTrackTime :: "int option"

definition validPatch :: "invPatch \<Rightarrow> bool" where
  "validPatch p \<longleftrightarrow> maxLen 160 (pt_title p) \<and> maxLen 2000 (pt_summary p) \<and> maxLen 40 (pt_status p)
     \<and> (case pt_activeTrackTime p of None \<Rightarrow> True | Some n \<Rightarrow> 0 \<le> n)"

definition given :: "'a option \<Rightarrow> 'a \<Rightarrow> 'a" where
  "given x old = (case x of None \<Rightarrow> old | Some y \<Rightarrow> y)"

definition updateInvestigation :: "int \<Rightarrow> authUserInfo \<Rightarrow> string \<Rightarrow> invPatch \<Rightarrow> invState \<Rightarrow> (invError + string) \<times> invState" where
  "updateInvestigation now u i p st =
     (if \<not> validPatch p then (Inl InvBadRequest, st)
      else onInvestigation u i (\<lambda>_ st. (Inr i, auditLog now (Some (ai_id u)) ''investigation.update'' ''Investigation'' i
          (addActivity now u i ''Investigation atualizada'' None
            (setInv i (\<lambda>r. r\<lparr>iv_title := given (map_option js_trim (pt_title p)) (iv_title r),
               iv_status := given (map_option (\<lambda>s. normalizeLifecycle (Some s)) (pt_status p)) (iv_status r),
               iv_summary := given (map_option (\<lambda>s. trimmedOrNone (Some s)) (pt_summary p)) (iv_summary r),
               iv_selectedCameraIds := given (pt_selectedCameraIds p) (iv_selectedCameraIds r),
               iv_timeStart := given (pt_timeStart p) (iv_timeStart r), iv_timeEnd := given (pt_timeEnd p) (iv_timeEnd r),
               iv_playbackSpeed := given (pt_playbackSpeed p) (iv_playbackSpeed r),
               iv_activeTrackTime := given (pt_activeTrackTime p) (iv_activeTrackTime r), iv_updatedAt := now\<rparr>) st)))) st)"

text \<open>A change of the state of a case; the controller asks for a note when the case is closed.\<close>

record lifecycleDto =
  ld_status :: string
  ld_summary :: "string option"
  ld_note :: "string option"

definition validLifecycle :: "lifecycleDto \<Rightarrow> bool" where
  "validLifecycle d \<longleftrightarrow> ld_status d \<in> set (allowedLifecycle @ [''ACTIVE'', ''REVIEW'']) \<and> maxLen 2000 (ld_summary d) \<and> maxLen 4000 (ld_note d)"

definition lifecycleMeta :: "int \<Rightarrow> authUserInfo \<Rightarrow> string \<Rightarrow> string \<Rightarrow> string option \<Rightarrow> json" where
  "lifecycleMeta now u previousStatus nextStatus ns =
     JObj ([(''actorUserId'', JStr (ai_id u)), (''actorUserName'', JStr (ai_name u)), (''previousStatus'', JStr previousStatus),
            (''nextStatus'', JStr nextStatus), (''changedAt'', JStr (iso_string now))]
       @ (if nextStatus = ''CLOSED''
          then [(''closedAt'', JStr (iso_string now)), (''closedByUserId'', JStr (ai_id u)), (''closedByUserName'', JStr (ai_name u)),
                (''closureNote'', jsonOpt ns)]
          else []))"

definition transitionLifecycle :: "int \<Rightarrow> authUserInfo \<Rightarrow> string \<Rightarrow> lifecycleDto \<Rightarrow> invState \<Rightarrow> (invError + string) \<times> invState" where
  "transitionLifecycle now u i d st =
     (let ns = trimmedOrNone (ld_note d) in
      if \<not> validLifecycle d then (Inl InvBadRequest, st)
      else if map upperChar (ld_status d) = ''CLOSED'' \<and> ns = None then (Inl InvBadRequest, st)
      else onInvestigation u i (\<lambda>r st.
          let nextStatus = normalizeLifecycle (Some (ld_status d)); previousStatus = normalizeLifecycle (Some (iv_status r));
              lbl = (if nextStatus = ''CLOSED'' then ''Caso fechado'' else ''Status alterado para '' @ nextStatus);
              st1 = setInv i (\<lambda>r. r\<lparr>iv_status := nextStatus, iv_updatedAt := now,
                      iv_summary := given (map_option (\<lambda>s. trimmedOrNone (Some s)) (ld_summary d)) (iv_summary r)\<rparr>) st;
              st2 = snd (createItem (plainItem i ''lifecycle'' lbl now ns (Some (lifecycleMeta now u previousStatus nextStatus ns))) st1);
              st3 = (if nextStatus = ''CLOSED'' then addActivity now u i ''Caso fechado e auditado'' ns st2 else st2)
          in (Inr i, auditLog now (Some (ai_id u)) ''investigation.lifecycle'' ''Investigation'' i st3)) st)"

section \<open>Items\<close>

text \<open>The types that the data transfer object of a new item refuses.\<close>

definition SERVER_OWNED_INVESTIGATION_ITEM_TYPES :: "string list" where
  "SERVER_OWNED_INVESTIGATION_ITEM_TYPES = [''export_package'', ''export_request'', ''legal_hold'', ''activity'', ''lifecycle'', ''case_meta'']"

record itemDto =
  di_type :: string
  di_label :: string
  di_cameraId :: "string option"
  di_cameraName :: "string option"
  di_eventId :: "string option"
  di_recordingId :: "string option"
  di_timestamp :: int
  di_notes :: "string option"
  di_metadata :: "(string \<times> json) list option"

definition validItem :: "itemDto \<Rightarrow> bool" where
  "validItem d \<longleftrightarrow> length (di_type d) \<le> 32 \<and> di_type d \<notin> set SERVER_OWNED_INVESTIGATION_ITEM_TYPES \<and> length (di_label d) \<le> 240
     \<and> maxLen 4000 (di_notes d)"

definition addItem :: "int \<Rightarrow> authUserInfo \<Rightarrow> string \<Rightarrow> itemDto \<Rightarrow> invState \<Rightarrow> (invError + string) \<times> invState" where
  "addItem now u i d st =
     (if \<not> validItem d then (Inl InvBadRequest, st)
      else onInvestigation u i (\<lambda>_ st.
          let (n, st1) = createItem \<lparr>ii_id = [], ii_investigationId = i, ii_type = di_type d, ii_label = js_trim (di_label d),
                ii_cameraId = di_cameraId d, ii_cameraName = di_cameraName d, ii_eventId = di_eventId d, ii_recordingId = di_recordingId d,
                ii_timestamp = di_timestamp d, ii_notes = trimmedOrNone (di_notes d), ii_metadata = map_option JObj (di_metadata d)\<rparr> st
          in (Inr n, auditLog now (Some (ai_id u)) ''investigation.item.add'' ''Investigation'' i
                (addActivity now u i (''Evidencia adicionada ('' @ di_type d @ '')'') (Some (di_label d)) st1))) st)"

definition findItem :: "string \<Rightarrow> string \<Rightarrow> invState \<Rightarrow> invItem option" where
  "findItem i n st = find (\<lambda>x. ii_id x = n \<and> ii_investigationId x = i) (is_items st)"

definition setItem :: "string \<Rightarrow> (invItem \<Rightarrow> invItem) \<Rightarrow> invState \<Rightarrow> invState" where
  "setItem n f st = st\<lparr>is_items := map (\<lambda>x. if ii_id x = n then f x else x) (is_items st)\<rparr>"

definition updateItem :: "int \<Rightarrow> authUserInfo \<Rightarrow> string \<Rightarrow> string \<Rightarrow> string option \<Rightarrow> invState \<Rightarrow> (invError + string) \<times> invState" where
  "updateItem now u i n ns st =
     (if \<not> maxLen 4000 ns then (Inl InvBadRequest, st)
      else onInvestigation u i (\<lambda>_ st. case findItem i n st of
            None \<Rightarrow> (Inl InvNotFound, st)
          | Some x \<Rightarrow> (Inr n, auditLog now (Some (ai_id u)) ''investigation.item.update'' ''InvestigationItem'' n
              (addActivity now u i ''Evidencia atualizada'' (Some (ii_label x))
                (setItem n (\<lambda>y. y\<lparr>ii_notes := given (map_option (\<lambda>t. trimmedOrNone (Some t)) ns) (ii_notes y)\<rparr>) st)))) st)"

definition removeItem :: "int \<Rightarrow> authUserInfo \<Rightarrow> string \<Rightarrow> string \<Rightarrow> invState \<Rightarrow> (invError + string) \<times> invState" where
  "removeItem now u i n =
     onInvestigation u i (\<lambda>_ st.
          let hold = getActiveLegalHold i st in
          if ho_enabled hold \<and> n \<in> set (ho_itemIds hold) then (Inl InvBadRequest, st)
          else (case findItem i n st of
            None \<Rightarrow> (Inl InvNotFound, st)
          | Some x \<Rightarrow> (Inr n, auditLog now (Some (ai_id u)) ''investigation.item.delete'' ''InvestigationItem'' n
              (addActivity now u i ''Evidencia removida'' (Some (ii_label x)) (st\<lparr>is_items := filter (\<lambda>y. ii_id y \<noteq> n) (is_items st)\<rparr>)))))"

text \<open>Bookmarks, notes and the activity are items of their own types.\<close>

definition listBookmarks :: "authUserInfo \<Rightarrow> string \<Rightarrow> invState \<Rightarrow> invError + invItem list" where
  "listBookmarks u i st =
     (case assertInvAccessible u i st of
        None \<Rightarrow> Inl InvNotFound | Some _ \<Rightarrow> Inr (sort_key ii_timestamp (filter (ofType i ''bookmark'') (is_items st))))"

record bookmarkDto =
  bd_label :: string
  bd_timestamp :: int
  bd_cameraId :: "string option"
  bd_cameraName :: "string option"
  bd_notes :: "string option"

definition addBookmark :: "int \<Rightarrow> authUserInfo \<Rightarrow> string \<Rightarrow> bookmarkDto \<Rightarrow> invState \<Rightarrow> (invError + string) \<times> invState" where
  "addBookmark now u i d st =
     (if \<not> (length (bd_label d) \<le> 240 \<and> maxLen 4000 (bd_notes d)) then (Inl InvBadRequest, st)
      else onInvestigation u i (\<lambda>_ st.
          let (n, st1) = createItem ((plainItem i ''bookmark'' (js_trim (bd_label d)) (bd_timestamp d) (trimmedOrNone (bd_notes d)) None)
                \<lparr>ii_cameraId := bd_cameraId d, ii_cameraName := bd_cameraName d\<rparr>) st
          in (Inr n, auditLog now (Some (ai_id u)) ''investigation.bookmark.add'' ''Investigation'' i
                (addActivity now u i ''Bookmark adicionado'' (Some (bd_label d)) st1))) st)"

definition listNotes :: "authUserInfo \<Rightarrow> string \<Rightarrow> invState \<Rightarrow> invError + invItem list" where
  "listNotes u i st =
     (case assertInvAccessible u i st of None \<Rightarrow> Inl InvNotFound | Some _ \<Rightarrow> Inr (filter (ofType i ''note'') (rev (is_items st))))"

definition addCaseNote :: "int \<Rightarrow> authUserInfo \<Rightarrow> string \<Rightarrow> string \<Rightarrow> invState \<Rightarrow> (invError + string) \<times> invState" where
  "addCaseNote now u i txt =
     onInvestigation u i (\<lambda>_ st.
          if js_trim txt = [] then (Inl InvBadRequest, st)
          else let (n, st1) = createItem (plainItem i ''note'' (''Nota de '' @ ai_name u) now (Some (js_trim txt)) (Some (actorMeta u))) st
            in (Inr n, auditLog now (Some (ai_id u)) ''investigation.note.add'' ''Investigation'' i
                  (addActivity now u i ''Nota adicionada'' (Some (js_trim txt)) st1)))"

definition listActivity :: "authUserInfo \<Rightarrow> string \<Rightarrow> invState \<Rightarrow> invError + invItem list" where
  "listActivity u i st =
     (case assertInvAccessible u i st of
        None \<Rightarrow> Inl InvNotFound
      | Some _ \<Rightarrow> Inr (take 200 (sort_key (\<lambda>x. - ii_timestamp x) (filter (\<lambda>x. ofType i ''activity'' x \<or> ofType i ''lifecycle'' x) (is_items st)))))"

text \<open>The data of a case: priority, classification, owner and participants.\<close>

record caseMetaDto =
  cm_priority :: "string option"
  cm_classification :: "string option"
  cm_ownerUserId :: "string option"
  cm_ownerUserName :: "string option"
  cm_participants :: "(string \<times> string) list"

definition caseMetaJson :: "authUserInfo \<Rightarrow> caseMetaDto \<Rightarrow> json" where
  "caseMetaJson u d =
     (let participants = filter (\<lambda>(a, b). a \<noteq> [] \<and> b \<noteq> []) (map (\<lambda>(a, b). (js_trim a, js_trim b)) (cm_participants d)) in
      JObj [(''priority'', JStr (given (cm_priority d) ''NORMAL'')),
            (''classification'', JStr (given (trimmedOrNone (cm_classification d)) ''GENERAL'')),
            (''owner'', case (trimmedOrNone (cm_ownerUserId d), trimmedOrNone (cm_ownerUserName d)) of
               (Some a, Some b) \<Rightarrow> JObj [(''userId'', JStr a), (''userName'', JStr b)] | _ \<Rightarrow> JNull),
            (''participants'', JArr (map (\<lambda>(a, b). JObj [(''userId'', JStr a), (''userName'', JStr b)]) participants)),
            (''updatedByUserId'', JStr (ai_id u)), (''updatedByUserName'', JStr (ai_name u))])"

definition upsertCaseMeta :: "int \<Rightarrow> authUserInfo \<Rightarrow> string \<Rightarrow> caseMetaDto \<Rightarrow> invState \<Rightarrow> (invError + string) \<times> invState" where
  "upsertCaseMeta now u i d =
     onInvestigation u i (\<lambda>_ st. (Inr i, auditLog now (Some (ai_id u)) ''investigation.meta.update'' ''Investigation'' i
         (addActivity now u i ''Metadados do caso atualizados'' None
           (snd (createItem (plainItem i ''case_meta'' ''Metadados do caso'' now None (Some (caseMetaJson u d))) st)))))"

section \<open>Legal hold\<close>

record holdDto =
  hd_enabled :: bool
  hd_reason :: "string option"
  hd_recordingIds :: "string list"
  hd_clipIds :: "string list"
  hd_itemIds :: "string list"

definition holdJson :: "int \<Rightarrow> authUserInfo \<Rightarrow> holdDto \<Rightarrow> json" where
  "holdJson now u d =
     JObj [(''enabled'', JBool (hd_enabled d)), (''reason'', jsonOpt (trimmedOrNone (hd_reason d))),
           (''recordingIds'', JArr (map JStr (hd_recordingIds d))), (''clipIds'', JArr (map JStr (hd_clipIds d))),
           (''itemIds'', JArr (map JStr (hd_itemIds d))),
           (''updatedByUserId'', JStr (ai_id u)), (''updatedByUserName'', JStr (ai_name u)), (''updatedAt'', JStr (iso_string now))]"

definition setLegalHold :: "int \<Rightarrow> authUserInfo \<Rightarrow> string \<Rightarrow> holdDto \<Rightarrow> invState \<Rightarrow> (invError + string) \<times> invState" where
  "setLegalHold now u i d =
     onInvestigation u i (\<lambda>_ st.
          let lbl = (if hd_enabled d then ''Legal hold ativado'' else ''Legal hold desativado''); reason = trimmedOrNone (hd_reason d);
              (n, st1) = createItem (plainItem i ''legal_hold'' lbl now reason (Some (holdJson now u d))) st
          in (Inr n, auditLog now (Some (ai_id u)) ''investigation.legal_hold.set'' ''Investigation'' i (addActivity now u i lbl reason st1)))"

definition getLegalHold :: "authUserInfo \<Rightarrow> string \<Rightarrow> invState \<Rightarrow> invError + holdInfo" where
  "getLegalHold u i st = (case assertInvAccessible u i st of None \<Rightarrow> Inl InvNotFound | Some _ \<Rightarrow> Inr (getActiveLegalHold i st))"

text \<open>The table of items as the retention reads it, the newest first.\<close>

definition retItems :: "invState \<Rightarrow> itemRow list" where
  "retItems st = map (\<lambda>x. \<lparr>it_investigationId = ii_investigationId x, it_type = ii_type x, it_recordingId = ii_recordingId x, it_eventId = ii_eventId x,
     it_metadata = ii_metadata x\<rparr>) (rev (is_items st))"

section \<open>Trace, custody and report\<close>

record closureTrace =
  ct_currentStatus :: string
  ct_closed :: bool
  ct_closedEntry :: "invItem option"
  ct_lifecycleCount :: nat
  ct_auditItems :: "invAudit list"

definition closureActions :: "string list" where
  "closureActions = [''investigation.lifecycle'', ''investigation.note'', ''investigation.meta'', ''investigation.legal_hold'', ''investigation.export'',
     ''investigation.report'']"

definition getClosureTrace :: "authUserInfo \<Rightarrow> string \<Rightarrow> invState \<Rightarrow> invError + closureTrace" where
  "getClosureTrace u i st =
     (case assertInvAccessible u i st of
        None \<Rightarrow> Inl InvNotFound
      | Some r \<Rightarrow>
          let lifecycleItems = filter (\<lambda>x. ii_type x = ''lifecycle'') (sort_key ii_timestamp (itemsOf i st));
              closedEntry = find (\<lambda>x. map_option (map upperChar) (textOf (map_of (metaFields x) ''nextStatus'')) = Some ''CLOSED'') (rev lifecycleItems);
              audit = take 300 (filter (\<lambda>a. ia_entityType a = ''Investigation'' \<and> ia_entityId a = i
                        \<and> list_ex (str_includes (ia_action a)) closureActions) (rev (is_audit st)))
          in Inr \<lparr>ct_currentStatus = iv_status r, ct_closed = (closedEntry \<noteq> None), ct_closedEntry = closedEntry,
               ct_lifecycleCount = length lifecycleItems, ct_auditItems = audit\<rparr>)"

definition relatedRecordingIds :: "invItem list \<Rightarrow> string list" where
  "relatedRecordingIds its = concat (map (\<lambda>x. nonEmpty (ii_recordingId x)) its)"

definition relatedClipIds :: "invItem list \<Rightarrow> string list" where
  "relatedClipIds its = concat (map (\<lambda>x. stringField (map_of (metaFields x) ''clipId'')) its)"

definition inCustody :: "string \<Rightarrow> invItem list \<Rightarrow> invAudit \<Rightarrow> bool" where
  "inCustody i its a \<longleftrightarrow>
     ia_entityType a = ''Investigation'' \<and> ia_entityId a = i
     \<or> ia_entityType a = ''InvestigationItem'' \<and> ia_entityId a \<in> set (map ii_id its)
     \<or> ia_entityType a = ''Recording'' \<and> ia_entityId a \<in> set (relatedRecordingIds its)
     \<or> ia_entityType a = ''ExportedClip'' \<and> ia_entityId a \<in> set (relatedClipIds its)
     \<or> str_includes (ia_action a) ''evidence'' \<and> ia_entityType a = ''Investigation'' \<and> ia_entityId a = i"

definition getCustodyChain :: "authUserInfo \<Rightarrow> string \<Rightarrow> invState \<Rightarrow> invError + invAudit list" where
  "getCustodyChain u i st =
     (case assertInvAccessible u i st of
        None \<Rightarrow> Inl InvNotFound
      | Some _ \<Rightarrow> Inr (take 1000 (filter (inCustody i (itemsOf i st)) (is_audit st))))"

definition escChar :: "char \<Rightarrow> string" where
  "escChar c =
     (if c = CHR ''&'' then ''&amp;'' else if c = CHR ''<'' then ''&lt;'' else if c = CHR ''>'' then ''&gt;''
      else if c = CHR 0x22 then ''&quot;'' else if c = CHR 0x27 then ''&#39;'' else [c])"

definition esc :: "string \<Rightarrow> string" where
  "esc s = concat (map escChar s)"

definition reportRow :: "string list \<Rightarrow> string" where
  "reportRow cells = ''<tr>'' @ concat (map (\<lambda>c. ''<td>'' @ esc c @ ''</td>'') cells) @ ''</tr>''"

definition reportHead :: string where
  "reportHead = ''<style>body{font-family:Arial;padding:24px}table{border-collapse:collapse;width:100%}th,td{border:1px solid #ddd;padding:6px;font-size:12px}th{background:#f2f2f2}</style></head><body>''"

text \<open>The text of the report; \<open>sd\<close> prints a date, which depends on the time zone of the host.\<close>

definition reportHtml :: "(int \<Rightarrow> string) \<Rightarrow> invView \<Rightarrow> invAudit list \<Rightarrow> holdInfo \<Rightarrow> string" where
  "reportHtml sd v custody hold =
     ''<!doctype html><html><head><meta charset='' @ [CHR 0x22] @ ''utf-8'' @ [CHR 0x22] @ ''><title>Relatorio '' @ esc (iv_title (vw_row v)) @ ''</title>''
     @ reportHead @ ''<h1>'' @ esc (iv_title (vw_row v)) @ ''</h1><p>Status: '' @ esc (iv_status (vw_row v)) @ '' | Prioridade: '' @ esc (vw_priority v)
     @ '' | Classificacao: '' @ esc (vw_classification v) @ ''</p><p>Legal hold: '' @ (if ho_enabled hold then ''ATIVO'' else ''INATIVO'') @ '' ''
     @ (case ho_reason hold of None \<Rightarrow> [] | Some r \<Rightarrow> if r = [] then [] else ''| Motivo: '' @ esc r)
     @ ''</p><h2>Evidencias</h2><table><thead><tr><th>Tipo</th><th>Label</th><th>Camera</th><th>Timestamp</th></tr></thead><tbody>''
     @ concat (map (\<lambda>x. reportRow [ii_type x, ii_label x, given (ii_cameraName x) ''-'', sd (ii_timestamp x)]) (vw_items v))
     @ ''</tbody></table><h2>Cadeia de Custodia</h2><table><thead><tr><th>Quando</th><th>Acao</th><th>Entidade</th><th>ID</th></tr></thead><tbody>''
     @ concat (map (\<lambda>a. reportRow [sd (ia_createdAt a), ia_action a, ia_entityType a, ia_entityId a]) custody)
     @ ''</tbody></table></body></html>''"

definition buildInvestigationReport ::
    "(int \<Rightarrow> string) \<Rightarrow> int \<Rightarrow> authUserInfo \<Rightarrow> string \<Rightarrow> string option \<Rightarrow> invState \<Rightarrow> (invError + string) \<times> invState" where
  "buildInvestigationReport sd now u i reason st =
     (if trimmedOrNone reason = None then (Inl InvBadRequest, st)
      else case (findOneInvestigation u i st, getCustodyChain u i st, getLegalHold u i st) of
        (Inr v, Inr custody, Inr hold) \<Rightarrow>
          (Inr (reportHtml sd v custody hold), auditLog now (Some (ai_id u)) ''investigation.report.generate'' ''Investigation'' i st)
      | _ \<Rightarrow> (Inl InvNotFound, st))"

end
