(* ===== verification/Evidence_Export.thy ===== *)
theory Evidence_Export
  imports Investigations
begin

text \<open>
  The export of evidence: the requests, their review and execution in
  \<open>apps/api/src/investigations/investigations.service.ts\<close>, the processor of the queue,
  \<open>apps/api/src/jobs/processors/evidence-export.processor.ts\<close>, the download of a package, and the routes of the controller as
  events of a run.

  \<^item> Jobs stay in \<open>is_jobs\<close>: the queue may run a job again after a failure. A file is kept as the JSON value that its text
    stands for.
  \<^item> \<open>exportWorld\<close> has what a job meets: the environment, the directory the server runs in, whether a write succeeds (the first
    of a job and the one after a failure), the clock, and the runtime of the signature.
\<close>

section \<open>Requests\<close>

record exportDto =
  ex_reason :: string
  ex_format :: "string option"
  ex_itemIds :: "string list"
  ex_recordingIds :: "string list"
  ex_clipIds :: "string list"

definition listExportRequests :: "authUserInfo \<Rightarrow> string \<Rightarrow> invState \<Rightarrow> invError + invItem list" where
  "listExportRequests u i st =
     (case assertInvAccessible u i st of
        None \<Rightarrow> Inl InvNotFound
      | Some _ \<Rightarrow> Inr (take 200 (filter (\<lambda>x. ofType i ''export_request'' x \<or> ofType i ''export_package'' x) (rev (is_items st)))))"

definition requestJson :: "authUserInfo \<Rightarrow> exportDto \<Rightarrow> json" where
  "requestJson u d =
     JObj [(''status'', JStr ''PENDING''), (''format'', JStr (given (ex_format d) ''MP4'')), (''requestedByUserId'', JStr (ai_id u)),
           (''requestedByUserName'', JStr (ai_name u)), (''reason'', JStr (js_trim (ex_reason d))), (''itemIds'', JArr (map JStr (ex_itemIds d))),
           (''recordingIds'', JArr (map JStr (ex_recordingIds d))), (''clipIds'', JArr (map JStr (ex_clipIds d))),
           (''reviewedByUserId'', JNull), (''reviewedByUserName'', JNull), (''reviewedAt'', JNull)]"

definition createExportRequest :: "int \<Rightarrow> authUserInfo \<Rightarrow> string \<Rightarrow> exportDto \<Rightarrow> invState \<Rightarrow> (invError + string) \<times> invState" where
  "createExportRequest now u i d =
     onInvestigation u i (\<lambda>_ st.
          let reason = js_trim (ex_reason d) in
          if reason = [] then (Inl InvBadRequest, st)
          else let (n, st1) = createItem (plainItem i ''export_request'' (''Solicitacao de exportacao ('' @ given (ex_format d) ''MP4'' @ '')'') now
                     (Some reason) (Some (requestJson u d))) st
            in (Inr n, auditLog now (Some (ai_id u)) ''investigation.export.request'' ''Investigation'' i
                  (addActivity now u i ''Solicitacao de exportacao criada'' (Some reason) st1)))"

definition findTyped :: "string \<Rightarrow> string \<Rightarrow> string \<Rightarrow> invState \<Rightarrow> invItem option" where
  "findTyped i n ty st = find (\<lambda>x. ii_id x = n \<and> ofType i ty x) (is_items st)"

definition patchMeta :: "(string \<times> json) list \<Rightarrow> invItem \<Rightarrow> invItem" where
  "patchMeta ps x = x\<lparr>ii_metadata := Some (JObj (fold (\<lambda>(k, v) fs. AList.update k v fs) ps (metaFields x)))\<rparr>"

definition approved :: "invItem \<Rightarrow> bool" where
  "approved x \<longleftrightarrow> map_of (metaFields x) ''status'' = Some (JStr ''APPROVED'')"

datatype decision = Approve | Reject

definition decisionText :: "decision \<Rightarrow> string" where
  "decisionText d = (case d of Approve \<Rightarrow> ''APPROVED'' | Reject \<Rightarrow> ''REJECTED'')"

definition reviewExportRequest :: "int \<Rightarrow> authUserInfo \<Rightarrow> string \<Rightarrow> string \<Rightarrow> decision \<Rightarrow> string \<Rightarrow> invState \<Rightarrow> (invError + string) \<times> invState" where
  "reviewExportRequest now u i n d reason0 =
     onInvestigation u i (\<lambda>_ st.
          let reason = js_trim reason0 in
          if \<not> isInvAdmin u then (Inl InvBadRequest, st)
          else (case findTyped i n ''export_request'' st of
            None \<Rightarrow> (Inl InvNotFound, st)
          | Some _ \<Rightarrow>
              if reason = [] then (Inl InvBadRequest, st)
              else (Inr n, auditLog now (Some (ai_id u)) ''investigation.export.review'' ''Investigation'' i
                 (addActivity now u i (''Solicitacao de exportacao '' @ (case d of Approve \<Rightarrow> ''aprovada'' | Reject \<Rightarrow> ''rejeitada'')) (Some reason)
                   (setItem n (patchMeta [(''status'', JStr (decisionText d)), (''decisionReason'', JStr reason), (''reviewedByUserId'', JStr (ai_id u)),
                      (''reviewedByUserName'', JStr (ai_name u)), (''reviewedAt'', JStr (iso_string now))]) st)))))"

definition packageJson :: "int \<Rightarrow> authUserInfo \<Rightarrow> string \<Rightarrow> json" where
  "packageJson now u n =
     JObj [(''requestId'', JStr n), (''status'', JStr ''QUEUED''), (''progress'', JNum 0), (''queuedAt'', JStr (iso_string now)),
           (''queuedByUserId'', JStr (ai_id u)), (''queuedByUserName'', JStr (ai_name u))]"

definition executeExportRequest :: "int \<Rightarrow> authUserInfo \<Rightarrow> string \<Rightarrow> string \<Rightarrow> string \<Rightarrow> invState \<Rightarrow> (invError + string) \<times> invState" where
  "executeExportRequest now u i n reason =
     onInvestigation u i (\<lambda>_ st.
          let cleanReason = js_trim reason in
          if cleanReason = [] then (Inl InvBadRequest, st)
          else (case findTyped i n ''export_request'' st of
            None \<Rightarrow> (Inl InvNotFound, st)
          | Some x \<Rightarrow>
              if \<not> approved x then (Inl InvBadRequest, st)
              else let (m, st1) = createItem ((plainItem i ''export_package'' (''Pacote exportado '' @ iso_string now) now (Some cleanReason)
                         (Some (packageJson now u n)))\<lparr>ii_eventId := Some n\<rparr>) st;
                       job = ExecuteExport \<lparr>xo_investigationId = i, xo_requestId = n, xo_packageItemId = m, xo_executionReason = cleanReason,
                         xo_executedByUserId = ai_id u, xo_executedByUserName = ai_name u\<rparr>;
                       st2 = st1\<lparr>is_jobs := is_jobs st1 @ [job]\<rparr>
                in (Inr m, auditLog now (Some (ai_id u)) ''investigation.export.execute'' ''Investigation'' i
                      (addActivity now u i ''Execucao de exportacao enfileirada'' (Some cleanReason) st2))))"

text \<open>A package that waits for its signature, and its payload.\<close>

definition pendingPayload :: "invItem \<Rightarrow> json option" where
  "pendingPayload x =
     (if map_of (metaFields x) ''status'' \<noteq> Some (JStr ''PENDING_SIGNATURE'') then None
      else case map_of (metaFields x) ''payload'' of
        Some (JObj fs) \<Rightarrow> Some (JObj fs) | Some (JArr xs) \<Rightarrow> Some (JArr xs) | _ \<Rightarrow> None)"

definition enqueueRetryPendingSignatures :: "int \<Rightarrow> authUserInfo \<Rightarrow> string \<Rightarrow> invState \<Rightarrow> (invError + nat) \<times> invState" where
  "enqueueRetryPendingSignatures now u i =
     onInvestigation u i (\<lambda>_ st.
          let pending = filter (\<lambda>x. pendingPayload x \<noteq> None) (take 200 (filter (ofType i ''export_package'') (rev (is_items st))))
          in (Inr (length pending), auditLog now (Some (ai_id u)) ''investigation.export.retry_signatures'' ''Investigation'' i
                (addActivity now u i ''Reprocessamento de assinatura enfileirado'' (Some (''itens='' @ show_nat (length pending)))
                  (st\<lparr>is_jobs := is_jobs st @ map (\<lambda>x. RetrySignature i (ii_id x)) pending\<rparr>))))"

section \<open>The processor of exports\<close>

record exportWorld =
  xw_runtime :: evidenceRuntime
  xw_config :: evidenceConfig
  xw_rootEnv :: "string option"
  xw_cwd :: path
  xw_platform :: platform
  xw_firstWriteOk :: bool
  xw_secondWriteOk :: bool
  xw_now :: int

definition packagesRoot :: "exportWorld \<Rightarrow> string" where
  "packagesRoot xw = (case xw_rootEnv xw of Some r \<Rightarrow> if r = [] then ''./storage/evidence-packages'' else r | None \<Rightarrow> ''./storage/evidence-packages'')"

text \<open>\<open>path.join\<close>, which keeps a relative path relative.\<close>

fun norm_relative :: "string list \<Rightarrow> string list \<Rightarrow> string list" where
  "norm_relative acc [] = rev acc"
| "norm_relative acc (c # cs) =
     (if c = [] \<or> c = ''.'' then norm_relative acc cs
      else if c = ''..'' then (if acc = [] \<or> hd acc = ''..'' then norm_relative (c # acc) cs else norm_relative (tl acc) cs)
      else norm_relative (c # acc) cs)"

definition joinText :: "string \<Rightarrow> string list \<Rightarrow> string" where
  "joinText base parts =
     (let whole = join ''/'' (base # parts) in
      if isAbsolute whole then showPath (joinPath [] whole) else join ''/'' (norm_relative [] (split_on CHR ''/'' whole)))"

definition packageFile :: "exportWorld \<Rightarrow> string \<Rightarrow> string \<Rightarrow> string" where
  "packageFile xw i m =
     (case civil_from_days (xw_now xw div 86400000) of
        (y, mo, d) \<Rightarrow> joinText (packagesRoot xw) [i, show_nat (nat y), pad 2 mo, pad 2 d, ''package-'' @ m @ ''.json''])"

text \<open>\<open>JSON.stringify\<close> with an indentation of two, and the length of a text in UTF-8.\<close>

primrec pretty :: "(rat \<Rightarrow> string) \<Rightarrow> doc \<Rightarrow> nat \<Rightarrow> string" where
  "pretty sn DNull = (\<lambda>_. ''null'')"
| "pretty sn (DBool b) = (\<lambda>_. if b then ''true'' else ''false'')"
| "pretty sn (DNum n) = (\<lambda>_. sn n)"
| "pretty sn (DStr s) = (\<lambda>_. jsonQuote s)"
| "pretty sn (DDate t) = (\<lambda>_. jsonQuote (iso_string t))"
| "pretty sn (DArr xs) = (\<lambda>k. let nl = (\<lambda>j. CHR 0x0A # replicate j CHR '' ''); ps = map (pretty sn) xs in
     if ps = [] then ''[]'' else ''['' @ join '','' (map (\<lambda>p. nl (k + 2) @ p (k + 2)) ps) @ nl k @ '']'')"
| "pretty sn (DObj fs) = (\<lambda>k. let nl = (\<lambda>j. CHR 0x0A # replicate j CHR '' ''); ps = map (map_prod id (pretty sn)) fs in
     if ps = [] then ''{}'' else ''{'' @ join '','' (map (\<lambda>(n, p). nl (k + 2) @ jsonQuote n @ '': '' @ p (k + 2)) ps) @ nl k @ ''}'')"

definition byteLength :: "string \<Rightarrow> int" where
  "byteLength s = sum_list (map (\<lambda>c. if (of_char c :: int) < 128 then 1 else 2) s)"

definition packagesPlatform :: "exportWorld \<Rightarrow> platform" where
  "packagesPlatform xw = (xw_platform xw)\<lparr>pf_root := resolvePath (xw_cwd xw) (packagesRoot xw)\<rparr>"

definition writePackageArtifact :: "exportWorld \<Rightarrow> bool \<Rightarrow> string \<Rightarrow> string \<Rightarrow> doc \<Rightarrow> invState \<Rightarrow> (json \<times> invState) option" where
  "writePackageArtifact xw writeOk i m content st =
     (if \<not> writeOk then None
      else let filePath = packageFile xw i m; raw = pretty (er_showNum (xw_runtime xw)) content 0 in
        Some (JObj [(''filePath'', JStr filePath), (''sizeBytes'', JNum (of_int (byteLength raw))), (''sha256'', JStr (er_sha256Hex (xw_runtime xw) raw))],
              st\<lparr>is_files := AList.update (pf_canonical (xw_platform xw) (resolvePath (xw_cwd xw) filePath)) (docJson content) (is_files st)\<rparr>))"

definition setPackageStatus :: "exportWorld \<Rightarrow> string \<Rightarrow> (string \<times> json) list \<Rightarrow> invState \<Rightarrow> invState" where
  "setPackageStatus xw m patch st = setItem m (patchMeta (patch @ [(''updatedAt'', JStr (iso_string (xw_now xw)))])) st"

definition optDoc :: "string option \<Rightarrow> doc" where
  "optDoc s = (case s of None \<Rightarrow> DNull | Some t \<Rightarrow> DStr t)"

definition evidenceItems :: "string \<Rightarrow> invState \<Rightarrow> doc" where
  "evidenceItems i st = DArr (map (\<lambda>x. DObj [(''id'', DStr (ii_id x)), (''type'', DStr (ii_type x)), (''label'', DStr (ii_label x)),
       (''cameraId'', optDoc (ii_cameraId x)), (''recordingId'', optDoc (ii_recordingId x)), (''timestamp'', DDate (ii_timestamp x))])
     (filter (\<lambda>x. ii_type x \<in> {''event'', ''clip'', ''snapshot'', ''bookmark''}) (sort_key ii_timestamp (itemsOf i st))))"

definition exportPayload :: "exportWorld \<Rightarrow> exportOrder \<Rightarrow> invRow \<Rightarrow> (string \<times> json) list \<Rightarrow> invState \<Rightarrow> (string \<times> doc) list" where
  "exportPayload xw xo r reqMeta st =
     [(''investigationId'', DStr (iv_id r)), (''investigationTitle'', DStr (iv_title r)), (''exportedAt'', DStr (iso_string (xw_now xw))),
      (''executedByUserId'', DStr (xo_executedByUserId xo)), (''executedByUserName'', DStr (xo_executedByUserName xo)),
      (''executionReason'', DStr (xo_executionReason xo)), (''requestId'', DStr (xo_requestId xo)),
      (''request'', jsonDoc (JObj reqMeta)), (''evidenceItems'', evidenceItems (iv_id r) st)]"

text \<open>
  The end of an export. \<open>None\<close> is a job that failed because the unsigned package could not be written either. The message of
  an error of the file system is the one of the platform; here it is \<open>write_failed\<close>.
\<close>

definition finishExport :: "exportWorld \<Rightarrow> exportOrder \<Rightarrow> (string \<times> doc) list \<Rightarrow> invState \<Rightarrow> invState option" where
  "finishExport xw xo payload st =
     (let i = xo_investigationId xo; m = xo_packageItemId xo;
          final = (\<lambda>status sg artifact err. setPackageStatus xw m [(''status'', JStr status), (''progress'', JNum 100), (''payload'', docJson (DObj payload)),
             (''signature'', sg), (''artifact'', artifact), (''signatureError'', err)]);
          unsigned = (\<lambda>writeOk e. case writePackageArtifact xw writeOk i m (DObj [(''payload'', DObj payload), (''signature'', DNull), (''signatureError'', DStr e)]) st of
             None \<Rightarrow> None | Some (artifact, st1) \<Rightarrow> Some (final ''PENDING_SIGNATURE'' JNull artifact (JStr e) st1))
      in case signPackage (xw_runtime xw) (xw_config xw) (xw_now xw) payload of
           Inl e \<Rightarrow> unsigned (xw_firstWriteOk xw) e
         | Inr sg \<Rightarrow>
             (case writePackageArtifact xw (xw_firstWriteOk xw) i m (DObj [(''payload'', DObj payload), (''signature'', DObj sg)]) st of
                None \<Rightarrow> unsigned (xw_secondWriteOk xw) ''write_failed''
              | Some (artifact, st1) \<Rightarrow> Some (final ''READY'' (docJson (DObj sg)) artifact JNull st1)))"

definition executeExport :: "exportWorld \<Rightarrow> exportOrder \<Rightarrow> invState \<Rightarrow> invState" where
  "executeExport xw xo st0 =
     (let i = xo_investigationId xo; m = xo_packageItemId xo;
          st = setPackageStatus xw m [(''status'', JStr ''PROCESSING''), (''progress'', JNum 20)] st0;
          failed = (\<lambda>why. setPackageStatus xw m [(''status'', JStr ''FAILED''), (''error'', JStr why)] st) in
      case findTyped i (xo_requestId xo) ''export_request'' st of
        None \<Rightarrow> failed ''request_not_found''
      | Some reqItem \<Rightarrow>
          if \<not> approved reqItem then failed ''request_not_approved''
          else (case findInv i st of
            None \<Rightarrow> failed ''investigation_not_found''
          | Some r \<Rightarrow>
              let st1 = setPackageStatus xw m [(''progress'', JNum 60)] st in
              (case finishExport xw xo (exportPayload xw xo r (metaFields reqItem) st) st1 of
                 None \<Rightarrow> st1
               | Some st2 \<Rightarrow> auditLog (xw_now xw) (Some (xo_executedByUserId xo)) ''investigation.export.package.processed'' ''Investigation'' i st2)))"

definition retrySingleSignature :: "exportWorld \<Rightarrow> string \<Rightarrow> string \<Rightarrow> invState \<Rightarrow> invState" where
  "retrySingleSignature xw i m st =
     (case find (\<lambda>x. ii_id x = m) (is_items st) of
        None \<Rightarrow> st
      | Some x \<Rightarrow>
          (case pendingPayload x of
             None \<Rightarrow> st
           | Some payload \<Rightarrow>
               let fs = (case payload of JObj fs \<Rightarrow> map (map_prod id jsonDoc) fs | JArr xs \<Rightarrow> map (\<lambda>(k, v). (show_nat k, jsonDoc v)) (List.enumerate 0 xs) | _ \<Rightarrow> []);
                   retried = (''retriedAt'', JStr (iso_string (xw_now xw)));
                   still = (\<lambda>e. setPackageStatus xw m [(''status'', JStr ''PENDING_SIGNATURE''), (''signatureError'', JStr e), retried] st);
                   st2 = (case signPackage (xw_runtime xw) (xw_config xw) (xw_now xw) fs of
                       Inl e \<Rightarrow> still e
                     | Inr sg \<Rightarrow>
                         (case writePackageArtifact xw (xw_firstWriteOk xw) i m (DObj [(''payload'', jsonDoc payload), (''signature'', DObj sg)]) st of
                            None \<Rightarrow> still ''write_failed''
                          | Some (artifact, st1) \<Rightarrow> setPackageStatus xw m [(''status'', JStr ''READY''), (''signature'', docJson (DObj sg)), (''artifact'', artifact),
                               (''signatureError'', JNull), retried] st1))
               in auditLog (xw_now xw) None ''investigation.export.signature.retry'' ''Investigation'' i st2))"

definition processExport :: "exportWorld \<Rightarrow> exportJob \<Rightarrow> invState \<Rightarrow> invState" where
  "processExport xw job st =
     (case job of
        ExecuteExport xo \<Rightarrow> executeExport xw xo st
      | RetrySignature i m \<Rightarrow> retrySingleSignature xw i m st
      | RetryAllPending \<Rightarrow>
          let pendingItems = take 200 (filter (\<lambda>x. ii_type x = ''export_package'' \<and> map_of (metaFields x) ''status'' = Some (JStr ''PENDING_SIGNATURE'')) (is_items st))
          in fold (\<lambda>x. retrySingleSignature xw (ii_investigationId x) (ii_id x)) pendingItems st)"

section \<open>Download\<close>

record packageDownload =
  pd_filePath :: path
  pd_fileName :: string
  pd_status :: string
  pd_content :: json

definition getExportPackageDownload :: "exportWorld \<Rightarrow> authUserInfo \<Rightarrow> string \<Rightarrow> string \<Rightarrow> string option \<Rightarrow> invState \<Rightarrow> (invError + packageDownload) \<times> invState" where
  "getExportPackageDownload xw u i m reason st =
     (if trimmedOrNone reason = None then (Inl InvBadRequest, st)
      else onInvestigation u i (\<lambda>_ st.
        case findTyped i m ''export_package'' st of
          None \<Rightarrow> (Inl InvNotFound, st)
        | Some pkg \<Rightarrow>
            (case textOf (objField (map_of (metaFields pkg) ''artifact'') ''filePath'') of
               None \<Rightarrow> (Inl InvNotFound, st)
             | Some rawFilePath \<Rightarrow>
                 if rawFilePath = [] then (Inl InvNotFound, st)
                 else (case ensureFileUnderRoot (packagesPlatform xw) rawFilePath of
                   Inl _ \<Rightarrow> (Inl InvNotFound, st)
                 | Inr filePath \<Rightarrow>
                     (case map_of (is_files st) filePath of
                        None \<Rightarrow> (Inl InvNotFound, st)
                      | Some content \<Rightarrow>
                          (Inr \<lparr>pd_filePath = filePath, pd_fileName = ''investigation-'' @ i @ ''-package-'' @ m @ ''.json'',
                                pd_status = given (textOf (map_of (metaFields pkg) ''status'')) ''UNKNOWN'', pd_content = content\<rparr>,
                           auditLog (xw_now xw) (Some (ai_id u)) ''investigation.export.download'' ''Investigation'' i st))))) st)"

section \<open>Routes and runs\<close>

datatype invRequest =
    CreateInv invDraft
  | UpdateInv string invPatch
  | Transition string lifecycleDto
  | AddItem string itemDto
  | UpdateItem string string "string option"
  | RemoveItem string string
  | AddBookmark string bookmarkDto
  | AddNote string string
  | CaseMeta string caseMetaDto
  | SetHold string holdDto
  | RequestExport string exportDto
  | ReviewExport string string decision string
  | ExecuteRequest string string string
  | RetrySignatures string

text \<open>The decorators of the routes.\<close>

fun invRoles :: "invRequest \<Rightarrow> userRole list option" where
  "invRoles (ReviewExport _ _ _ _) = Some [ADMIN]"
| "invRoles _ = Some [OPERATOR]"

definition dispatchInv :: "int \<Rightarrow> authUserInfo \<Rightarrow> invRequest \<Rightarrow> invState \<Rightarrow> (invError + string) \<times> invState" where
  "dispatchInv now u req st =
     (case req of
        CreateInv d \<Rightarrow> createInvestigation now u d st
      | UpdateInv i p \<Rightarrow> updateInvestigation now u i p st
      | Transition i d \<Rightarrow> transitionLifecycle now u i d st
      | AddItem i d \<Rightarrow> addItem now u i d st
      | UpdateItem i n ns \<Rightarrow> updateItem now u i n ns st
      | RemoveItem i n \<Rightarrow> removeItem now u i n st
      | AddBookmark i d \<Rightarrow> addBookmark now u i d st
      | AddNote i t \<Rightarrow> addCaseNote now u i t st
      | CaseMeta i d \<Rightarrow> upsertCaseMeta now u i d st
      | SetHold i d \<Rightarrow> setLegalHold now u i d st
      | RequestExport i d \<Rightarrow> createExportRequest now u i d st
      | ReviewExport i n d r \<Rightarrow> reviewExportRequest now u i n d r st
      | ExecuteRequest i n r \<Rightarrow> executeExportRequest now u i n r st
      | RetrySignatures i \<Rightarrow> map_prod (map_sum id show_nat) id (enqueueRetryPendingSignatures now u i st))"

definition handleInv :: "int \<Rightarrow> authUserInfo \<Rightarrow> invRequest \<Rightarrow> invState \<Rightarrow> (invError + string) \<times> invState" where
  "handleInv now u req st = (if rolesGuard (invRoles req) (Some u) then dispatchInv now u req st else (Inl InvForbidden, st))"

text \<open>A run: requests of users and jobs of the queue, in any order; the module of the jobs queues the last kind itself.\<close>

datatype invEvent = Request int authUserInfo invRequest | RunJob exportWorld nat | RunRetryAll exportWorld

fun invApply :: "invEvent \<Rightarrow> invState \<Rightarrow> invState" where
  "invApply (Request now u req) st = snd (handleInv now u req st)"
| "invApply (RunJob xw k) st = (if k < length (is_jobs st) then processExport xw (is_jobs st ! k) st else st)"
| "invApply (RunRetryAll xw) st = processExport xw RetryAllPending st"

definition invInit :: invState where
  "invInit = \<lparr>is_investigations = [], is_items = [], is_audit = [], is_jobs = [], is_files = [], is_next = 0\<rparr>"

definition invRun :: "invEvent list \<Rightarrow> invState" where
  "invRun es = fold invApply es invInit"

end
