(* ===== verification/Export_Approval.thy ===== *)
theory Export_Approval
  imports Evidence_Export
begin

text \<open>
  Who let evidence out: no package is queued and no file of evidence is written unless an administrator approved the
  request, whatever the users of a server and the jobs of its queue do. The invariant is stated for a set \<open>R\<close> of
  approved requests, shown for the primitive changes of the state first, and then for every operation.
\<close>

section \<open>Metadata\<close>

lemma map_of_updates: "map_of (fold (\<lambda>(k, v) fs. AList.update k v fs) ps fs) = map_of fs ++ map_of (rev ps)"
  by (induction ps arbitrary: fs) (auto simp: fun_eq_iff update_conv' map_add_def split: option.splits)

lemma patchMeta_simps [simp]:
  "map_of (metaFields (patchMeta ps x)) k = (case map_of (rev ps) k of None \<Rightarrow> map_of (metaFields x) k | Some v \<Rightarrow> Some v)"
  "ii_type (patchMeta ps x) = ii_type x" "ii_id (patchMeta ps x) = ii_id x" "ii_investigationId (patchMeta ps x) = ii_investigationId x"
  by (simp_all add: patchMeta_def metaFields_def [of "x\<lparr>ii_metadata := _\<rparr>"] map_of_updates map_add_def)

lemma invId_inj: "invId m = invId n \<Longrightarrow> m = n"
  using digits_nat_show by (auto simp: invId_def) metis

section \<open>What the plain operations keep\<close>

text \<open>
  Most operations only add items of plain types, records of the audit and changes of the case itself. A predicate on the
  state that survives these survives the operations.
\<close>

locale item_keeper =
  fixes keeps :: "invState \<Rightarrow> bool"
  assumes keep_plain: "keeps st \<Longrightarrow> ii_type it \<notin> {''export_request'', ''export_package'', ''legal_hold''} \<Longrightarrow> keeps (snd (createItem it st))"
    and keep_audit [simp]: "keeps (auditLog now uid a e i st) = keeps st"
    and keep_case [simp]: "keeps (setInv i f st) = keeps st"
    and keep_new: "keeps st \<Longrightarrow> keeps (st\<lparr>is_investigations := rs, is_next := is_next st + 1\<rparr>)"
    and keep_notes: "keeps st \<Longrightarrow> keeps (setItem n (\<lambda>y. y\<lparr>ii_notes := g y\<rparr>) st)"
begin

lemma keep_activity: "keeps st \<Longrightarrow> keeps (addActivity now u i lbl ns st)"
  by (simp add: addActivity_def keep_plain plainItem_def)

lemma keep_on: "keeps st \<Longrightarrow> (\<And>r. keeps (snd (act r st))) \<Longrightarrow> keeps (snd (onInvestigation u i act st))"
  by (simp add: onInvestigation_def split: option.split)

lemma keep_create: "keeps st \<Longrightarrow> keeps (snd (createInvestigation now u d st))"
  using keep_new [of st] by (simp add: createInvestigation_def Let_def keep_activity)

lemma keep_update: "keeps st \<Longrightarrow> keeps (snd (updateInvestigation now u i p st))"
  by (simp add: updateInvestigation_def keep_on keep_activity)

lemma keep_transition: "keeps st \<Longrightarrow> keeps (snd (transitionLifecycle now u i d st))"
  by (auto simp: transitionLifecycle_def Let_def plainItem_def intro!: keep_on keep_plain keep_activity)

lemma keep_addItem: "keeps st \<Longrightarrow> keeps (snd (addItem now u i d st))"
  using keep_plain [of st]
  by (auto simp: addItem_def split_beta validItem_def SERVER_OWNED_INVESTIGATION_ITEM_TYPES_def intro!: keep_on keep_activity)

lemma keep_updateItem: "keeps st \<Longrightarrow> keeps (snd (updateItem now u i n ns st))"
  using keep_notes [of st] by (auto simp: updateItem_def split: option.split intro!: keep_on keep_activity)

lemma keep_bookmark: "keeps st \<Longrightarrow> keeps (snd (addBookmark now u i d st))"
  using keep_plain [of st] by (auto simp: addBookmark_def split_beta plainItem_def intro!: keep_on keep_activity)

lemma keep_note: "keeps st \<Longrightarrow> keeps (snd (addCaseNote now u i t st))"
  using keep_plain [of st] by (auto simp: addCaseNote_def split_beta plainItem_def intro!: keep_on keep_activity)

lemma keep_meta: "keeps st \<Longrightarrow> keeps (snd (upsertCaseMeta now u i d st))"
  using keep_plain [of st] by (auto simp: upsertCaseMeta_def plainItem_def intro!: keep_on keep_activity)

lemmas keep_routes = keep_create keep_update keep_transition keep_addItem keep_updateItem keep_bookmark keep_note keep_meta

end

section \<open>Invariant\<close>

definition vouched :: "string set \<Rightarrow> json option \<Rightarrow> bool" where
  "vouched R j \<longleftrightarrow> (\<exists>n\<in>R. objField j ''requestId'' = Some (JStr n))"

definition itemOk :: "string set \<Rightarrow> invItem \<Rightarrow> bool" where
  "itemOk R x \<longleftrightarrow>
     (ii_type x = ''export_request'' \<and> approved x \<longrightarrow> ii_id x \<in> R)
     \<and> (ii_type x = ''export_package'' \<longrightarrow>
         (\<exists>n\<in>R. map_of (metaFields x) ''requestId'' = Some (JStr n)) \<and> (\<forall>j. map_of (metaFields x) ''payload'' = Some j \<longrightarrow> vouched R (Some j)))"

definition drawn :: "invState \<Rightarrow> string \<Rightarrow> bool" where
  "drawn st i \<longleftrightarrow> (\<exists>k<is_next st. i = invId k)"

definition exportInv :: "string set \<Rightarrow> invState \<Rightarrow> bool" where
  "exportInv R st \<longleftrightarrow>
     distinct (map ii_id (is_items st)) \<and> (\<forall>x\<in>set (is_items st). itemOk R x \<and> drawn st (ii_id x))
     \<and> (\<forall>c\<in>snd ` set (is_files st). vouched R (objField (Some c) ''payload''))
     \<and> (\<forall>i m. RetrySignature i m \<in> set (is_jobs st) \<longrightarrow> drawn st m \<and> (\<forall>x\<in>set (is_items st). ii_id x = m \<longrightarrow> ii_type x = ''export_package''))"

lemma itemOk_mono: "itemOk R x \<Longrightarrow> R \<subseteq> S \<Longrightarrow> itemOk S x"
  unfolding itemOk_def vouched_def by blast

lemma exportInv_mono: "exportInv R st \<Longrightarrow> R \<subseteq> S \<Longrightarrow> exportInv S st"
  unfolding exportInv_def vouched_def by (meson itemOk_mono subsetD)

lemma createItem_keeps:
  assumes "exportInv R st" "itemOk R (it\<lparr>ii_id := invId (is_next st)\<rparr>)"
  shows "exportInv R (snd (createItem it st))"
proof -
  have d: "drawn (snd (createItem it st)) i \<longleftrightarrow> drawn st i \<or> i = invId (is_next st)" for i
    by (auto simp: createItem_def Let_def drawn_def less_Suc_eq)
  have "\<not> drawn st (invId (is_next st))" by (auto simp: drawn_def dest!: invId_inj)
  with assms d show ?thesis unfolding exportInv_def by (auto simp: createItem_def Let_def)
qed

lemma plain_keeps:
  "exportInv R st \<Longrightarrow> ii_type it \<notin> {''export_request'', ''export_package''} \<Longrightarrow> exportInv R (snd (createItem it st))"
  by (rule createItem_keeps) (simp_all add: itemOk_def)

lemma auditLog_keeps [simp]: "exportInv R (auditLog now uid a e i st) \<longleftrightarrow> exportInv R st"
  by (simp add: auditLog_def exportInv_def drawn_def)

lemma setInv_keeps [simp]: "exportInv R (setInv i f st) \<longleftrightarrow> exportInv R st"
  by (simp add: setInv_def exportInv_def drawn_def)

lemma setItem_keeps:
  assumes "exportInv R st" "\<And>x. itemOk R x \<Longrightarrow> ii_id x = m \<Longrightarrow> itemOk R (f x)" "\<And>x. ii_id (f x) = ii_id x \<and> ii_type (f x) = ii_type x"
  shows "exportInv R (setItem m f st)"
proof -
  have "map ii_id (is_items (setItem m f st)) = map ii_id (is_items st)" using assms(3) by (simp add: setItem_def comp_def)
  then have d: "distinct (map ii_id (is_items (setItem m f st)))" using assms(1) by (simp add: exportInv_def)
  have "\<exists>x\<in>set (is_items st). y = (if ii_id x = m then f x else x)" if "y \<in> set (is_items (setItem m f st))" for y
    using that by (auto simp: setItem_def)
  then have i: "\<exists>x\<in>set (is_items st). (itemOk R x \<longrightarrow> itemOk R y) \<and> ii_id y = ii_id x \<and> ii_type y = ii_type x" if "y \<in> set (is_items (setItem m f st))" for y
    using that assms(2,3) by fastforce
  have s: "is_files (setItem m f st) = is_files st" "is_jobs (setItem m f st) = is_jobs st" "drawn (setItem m f st) = drawn st"
    by (auto simp: setItem_def drawn_def)
  show ?thesis unfolding exportInv_def s using assms(1) d i unfolding exportInv_def by metis
qed

lemma newCase_keeps: "exportInv R st \<Longrightarrow> exportInv R (st\<lparr>is_investigations := rs, is_next := Suc (is_next st)\<rparr>)"
  unfolding exportInv_def drawn_def by simp (meson less_SucI)

interpretation approval: item_keeper "exportInv R" for R
proof
  fix st n and g :: "invItem \<Rightarrow> string option"
  assume "exportInv R st"
  then show "exportInv R (setItem n (\<lambda>y. y\<lparr>ii_notes := g y\<rparr>) st)" by (rule setItem_keeps) (simp_all add: itemOk_def approved_def metaFields_def)
qed (simp_all add: plain_keeps newCase_keeps)

lemma patch_keeps:
  assumes "exportInv R st" "map_of (rev ps) ''status'' = Some (JStr ''APPROVED'') \<Longrightarrow> m \<in> R" "map_of (rev ps) ''requestId'' = None"
    and "\<And>j. map_of (rev ps) ''payload'' = Some j \<Longrightarrow> vouched R (Some j)"
  shows "exportInv R (setItem m (patchMeta ps) st)"
  using assms(1)
proof (rule setItem_keeps)
  fix x
  assume "itemOk R x" "ii_id x = m"
  then show "itemOk R (patchMeta ps x)" using assms(2-4) by (auto simp: itemOk_def approved_def split: option.splits)
qed simp

lemma setPackageStatus_keeps:
  assumes "exportInv R st" "map_of (rev ps) ''status'' \<noteq> Some (JStr ''APPROVED'')" "map_of (rev ps) ''requestId'' = None"
    and "\<And>j. map_of (rev ps) ''payload'' = Some j \<Longrightarrow> vouched R (Some j)"
  shows "exportInv R (setPackageStatus xw m ps st)"
  unfolding setPackageStatus_def using assms by (intro patch_keeps) auto

lemma write_keeps:
  assumes "exportInv R st" "writePackageArtifact xw ok i m (DObj (( ''payload'', p) # fs)) st = Some (a, st1)" "vouched R (Some (docJson p))"
  shows "exportInv R st1"
proof -
  have "st1 = st\<lparr>is_files := AList.update (pf_canonical (xw_platform xw) (resolvePath (xw_cwd xw) (packageFile xw i m)))
      (docJson (DObj ((''payload'', p) # fs))) (is_files st)\<rparr>"
    using assms(2) by (auto simp: writePackageArtifact_def Let_def split: if_splits)
  moreover have "vouched R (objField (Some (docJson (DObj ((''payload'', p) # fs)))) ''payload'')" using assms(3) by simp
  moreover have "snd ` set (AList.update k v al) \<subseteq> insert v (snd ` set al)" for k :: path and v :: json and al
    by (induction al) auto
  ultimately show ?thesis using assms(1) unfolding exportInv_def drawn_def by fastforce
qed

section \<open>The processor\<close>

lemma vouched_payload:
  assumes "xo_requestId xo \<in> R"
  shows "vouched R (Some (docJson (DObj (exportPayload xw xo r meta st))))"
  using assms by (simp add: vouched_def exportPayload_def)

lemma finishExport_keeps:
  assumes "exportInv R st" "vouched R (Some (docJson (DObj payload)))" "finishExport xw xo payload st = Some st1"
  shows "exportInv R st1"
  using assms(3) write_keeps [OF assms(1) _ assms(2)] assms(2)
  by (auto simp: finishExport_def Let_def split: sum.splits option.splits intro!: setPackageStatus_keeps)

lemma find_request:
  assumes "exportInv R st" "findTyped i n ''export_request'' st = Some x" "approved x"
  shows "n \<in> R"
proof -
  have "x \<in> set (is_items st)" "ii_id x = n" "ii_type x = ''export_request''"
    using assms(2) by (auto simp: findTyped_def ofType_def dest: find_SomeD)
  with assms(1,3) show ?thesis unfolding exportInv_def itemOk_def by blast
qed

lemma executeExport_keeps:
  assumes "exportInv R st"
  shows "exportInv R (executeExport xw xo st)"
proof -
  let ?m = "xo_packageItemId xo" and ?i = "xo_investigationId xo"
  define s where "s = setPackageStatus xw ?m [(''status'', JStr ''PROCESSING''), (''progress'', JNum 20)] st"
  have s: "exportInv R s" unfolding s_def using assms by (rule setPackageStatus_keeps) auto
  then have failed: "exportInv R (setPackageStatus xw ?m [(''status'', JStr ''FAILED''), (''error'', JStr w)] s)" for w
    by (rule setPackageStatus_keeps) auto
  from s have s1: "exportInv R (setPackageStatus xw ?m [(''progress'', JNum 60)] s)" by (rule setPackageStatus_keeps) auto
  show ?thesis
    unfolding executeExport_def Let_def s_def [symmetric]
    using failed s1 finishExport_keeps [OF s1 vouched_payload] find_request [OF s]
    by (simp split: option.splits) blast
qed

lemma docJson_jsonDoc [simp]: "docJson (jsonDoc j) = j"
proof (induction j)
  case (JArr xs)
  then show ?case by (simp add: map_idI)
next
  case (JObj fs)
  then have "map_prod id docJson (map_prod id jsonDoc e) = e" if "e \<in> set fs" for e using that by (cases e) (force intro: JObj)
  then show ?case by (simp add: map_idI)
qed simp_all

lemma retry_keeps:
  assumes "exportInv R st" "\<And>x. x \<in> set (is_items st) \<Longrightarrow> ii_id x = m \<Longrightarrow> ii_type x = ''export_package''"
  shows "exportInv R (retrySingleSignature xw i m st)"
proof (cases "find (\<lambda>x. ii_id x = m) (is_items st)")
  case None
  with assms(1) show ?thesis by (simp add: retrySingleSignature_def)
next
  case (Some x)
  then have x: "x \<in> set (is_items st)" "ii_id x = m" by (auto dest: find_SomeD)
  then have ok: "\<And>j. map_of (metaFields x) ''payload'' = Some j \<Longrightarrow> vouched R (Some j)"
    using assms by (auto simp: exportInv_def itemOk_def)
  have "vouched R (Some p)" if "pendingPayload x = Some p" for p
    using that ok by (auto simp: pendingPayload_def split: if_splits option.splits json.splits)
  with Some show ?thesis using write_keeps [OF assms(1)] assms(1)
    by (auto simp: retrySingleSignature_def Let_def split: option.splits sum.splits intro!: setPackageStatus_keeps)
qed

text \<open>A retry leaves the identifiers and types of the items as they are.\<close>

lemma retry_ids: "map (\<lambda>x. (ii_id x, ii_type x)) (is_items (retrySingleSignature xw i m st)) = map (\<lambda>x. (ii_id x, ii_type x)) (is_items st)"
  by (auto simp: retrySingleSignature_def setPackageStatus_def setItem_def auditLog_def writePackageArtifact_def Let_def comp_def split: option.splits sum.splits if_splits)

lemma retryAll_keeps:
  assumes "exportInv R st" "\<And>x y. x \<in> set xs \<Longrightarrow> y \<in> set (is_items st) \<Longrightarrow> ii_id y = ii_id x \<Longrightarrow> ii_type y = ''export_package''"
  shows "exportInv R (fold (\<lambda>x. retrySingleSignature xw (ii_investigationId x) (ii_id x)) xs st)"
  using assms
proof (induction xs arbitrary: st)
  case (Cons x xs)
  let ?s = "retrySingleSignature xw (ii_investigationId x) (ii_id x) st"
  have "(ii_id y, ii_type y) \<in> set (map (\<lambda>x. (ii_id x, ii_type x)) (is_items st))" if "y \<in> set (is_items ?s)" for y
    using that unfolding retry_ids [of xw "ii_investigationId x" "ii_id x" st, symmetric] by auto
  then have "ii_type y = ''export_package''" if "z \<in> set xs" "y \<in> set (is_items ?s)" "ii_id y = ii_id z" for y z
    using that Cons.prems(2) by fastforce
  moreover have "exportInv R ?s" using Cons.prems by (intro retry_keeps) auto
  ultimately show ?case using Cons.IH by simp
qed simp

section \<open>The routes\<close>

lemmas plainItem_simps = plainItem_def metaFields_def itemOk_def approved_def

lemma removeItem_keeps:
  assumes "exportInv R st"
  shows "exportInv R (snd (removeItem now u i n st))"
proof -
  have "exportInv R (st\<lparr>is_items := filter P (is_items st)\<rparr>)" for P using assms unfolding exportInv_def drawn_def by (auto simp: distinct_map_filter)
  then show ?thesis using assms by (auto simp: removeItem_def Let_def split: option.split intro!: approval.keep_on approval.keep_activity)
qed

lemma hold_keeps: "exportInv R st \<Longrightarrow> exportInv R (snd (setLegalHold now u i d st))"
  using plain_keeps [of R st] by (auto simp: setLegalHold_def Let_def split_beta plainItem_def intro!: approval.keep_on approval.keep_activity)

lemma request_keeps:
  assumes "exportInv R st"
  shows "exportInv R (snd (createExportRequest now u i d st))"
proof -
  have "exportInv R (snd (createItem (plainItem i ''export_request'' l now ns (Some (requestJson u d))) st))" for l ns
    using assms by (rule createItem_keeps) (simp add: plainItem_simps requestJson_def)
  then show ?thesis using assms by (auto simp: createExportRequest_def Let_def split_beta intro!: approval.keep_on approval.keep_activity)
qed

lemma review_keeps:
  assumes "exportInv R st" "fst (reviewExportRequest now u i n d reason st) = Inr n \<Longrightarrow> isInvAdmin u \<Longrightarrow> d = Approve \<Longrightarrow> n \<in> R"
  shows "exportInv R (snd (reviewExportRequest now u i n d reason st))"
proof (cases "\<exists>e. fst (reviewExportRequest now u i n d reason st) = Inl e")
  case True
  then have "snd (reviewExportRequest now u i n d reason st) = st"
    by (auto simp: reviewExportRequest_def onInvestigation_def Let_def split: option.splits if_splits)
  with assms(1) show ?thesis by simp
next
  case False
  then have ok: "fst (reviewExportRequest now u i n d reason st) = Inr n" "isInvAdmin u"
    by (auto simp: reviewExportRequest_def onInvestigation_def Let_def split: option.splits if_splits)
  have "exportInv R (setItem n (patchMeta [(''status'', JStr (decisionText d)), (''decisionReason'', JStr r), (''reviewedByUserId'', JStr (ai_id u)),
      (''reviewedByUserName'', JStr (ai_name u)), (''reviewedAt'', JStr (iso_string now))]) st)" for r
    using assms(1) by (rule patch_keeps) (use assms(2) ok in \<open>auto simp: decisionText_def split: decision.splits\<close>)
  then show ?thesis using assms(1)
    by (auto simp: reviewExportRequest_def Let_def split: option.split intro!: approval.keep_on approval.keep_activity)
qed

lemma execute_keeps:
  assumes "exportInv R st"
  shows "exportInv R (snd (executeExportRequest now u i n reason st))"
proof -
  have pkg: "exportInv R (snd (createItem (plainItem i ''export_package'' l now ns (Some (packageJson now u n))\<lparr>ii_eventId := e\<rparr>) st))" if "n \<in> R" for l ns e
    using assms by (rule createItem_keeps) (use that in \<open>simp add: plainItem_simps packageJson_def\<close>)
  have job: "exportInv R (s\<lparr>is_jobs := is_jobs s @ [ExecuteExport xo]\<rparr>) \<longleftrightarrow> exportInv R s" for s xo by (simp add: exportInv_def drawn_def)
  show ?thesis using assms pkg find_request [OF assms]
    by (auto simp: executeExportRequest_def Let_def split_beta job split: option.split intro!: approval.keep_on approval.keep_activity)
qed

lemma same_item:
  assumes "exportInv R st" "x \<in> set (is_items st)" "y \<in> set (is_items st)" "ii_id y = ii_id x"
  shows "y = x"
  using assms by (auto simp: exportInv_def distinct_map inj_on_def)

lemma enqueue_keeps:
  assumes "exportInv R st" "\<And>x. x \<in> set xs \<Longrightarrow> x \<in> set (is_items st) \<and> ii_type x = ''export_package''"
  shows "exportInv R (st\<lparr>is_jobs := is_jobs st @ map (\<lambda>x. RetrySignature i (ii_id x)) xs\<rparr>)"
  using assms same_item [OF assms(1)] unfolding exportInv_def drawn_def by simp blast

lemma retrySignatures_keeps:
  assumes "exportInv R st"
  shows "exportInv R (snd (enqueueRetryPendingSignatures now u i st))"
proof -
  let ?xs = "filter (\<lambda>x. pendingPayload x \<noteq> None) (take 200 (filter (ofType i ''export_package'') (rev (is_items st))))"
  have "x \<in> set (is_items st) \<and> ii_type x = ''export_package''" if "x \<in> set ?xs" for x
    using that by (auto simp: ofType_def dest!: in_set_takeD)
  then have "exportInv R (st\<lparr>is_jobs := is_jobs st @ map (\<lambda>x. RetrySignature i (ii_id x)) ?xs\<rparr>)" by (rule enqueue_keeps [OF assms])
  then show ?thesis using assms
    by (auto simp: enqueueRetryPendingSignatures_def Let_def simp del: not_None_eq intro!: approval.keep_on approval.keep_activity)
qed

lemma process_keeps:
  assumes "exportInv R st" "job \<in> set (is_jobs st) \<or> job = RetryAllPending"
  shows "exportInv R (processExport xw job st)"
proof (cases job)
  case (ExecuteExport xo)
  with assms(1) show ?thesis by (simp add: processExport_def executeExport_keeps)
next
  case (RetrySignature i m)
  with assms have "ii_type x = ''export_package''" if "x \<in> set (is_items st)" "ii_id x = m" for x using that by (auto simp: exportInv_def)
  from retry_keeps [OF assms(1) this] show ?thesis by (simp add: processExport_def RetrySignature)
next
  case RetryAllPending
  let ?xs = "take 200 (filter (\<lambda>x. ii_type x = ''export_package'' \<and> map_of (metaFields x) ''status'' = Some (JStr ''PENDING_SIGNATURE'')) (is_items st))"
  have "ii_type y = ''export_package''" if "x \<in> set ?xs" "y \<in> set (is_items st)" "ii_id y = ii_id x" for x y
    using that same_item [OF assms(1), of x y] by (auto dest!: in_set_takeD)
  from retryAll_keeps [OF assms(1) this] show ?thesis by (simp add: RetryAllPending processExport_def)
qed

section \<open>Runs\<close>

text \<open>A request was approved when an administrator reviewed it so, and the server accepted the review.\<close>

definition approvedIn :: "invEvent list \<Rightarrow> string \<Rightarrow> bool" where
  "approvedIn es n \<longleftrightarrow> (\<exists>pre post now u i reason. es = pre @ Request now u (ReviewExport i n Approve reason) # post
     \<and> isInvAdmin u \<and> fst (handleInv now u (ReviewExport i n Approve reason) (invRun pre)) = Inr n)"

lemma approvedIn_append: "approvedIn es n \<Longrightarrow> approvedIn (es @ fs) n"
  unfolding approvedIn_def by (metis append.assoc append_Cons)

lemma approvedIn_last:
  "isInvAdmin u \<Longrightarrow> fst (handleInv now u (ReviewExport i n Approve reason) (invRun es)) = Inr n \<Longrightarrow> approvedIn (es @ [Request now u (ReviewExport i n Approve reason)]) n"
  unfolding approvedIn_def by blast

lemmas route_keeps = approval.keep_routes removeItem_keeps hold_keeps request_keeps execute_keeps retrySignatures_keeps

lemma handle_keeps:
  assumes "exportInv R st" "\<And>i n reason. req = ReviewExport i n Approve reason \<Longrightarrow> isInvAdmin u \<Longrightarrow> fst (handleInv now u req st) = Inr n \<Longrightarrow> n \<in> R"
  shows "exportInv R (snd (handleInv now u req st))"
proof (cases "rolesGuard (invRoles req) (Some u)")
  case True
  show ?thesis
  proof (cases "\<exists>i n d reason. req = ReviewExport i n d reason")
    case review: True
    then obtain i n d reason where req: "req = ReviewExport i n d reason" by blast
    have "n \<in> R" if "fst (reviewExportRequest now u i n d reason st) = Inr n" "isInvAdmin u" "d = Approve"
      using that assms(2) True req by (auto simp: handleInv_def dispatchInv_def)
    from review_keeps [OF assms(1) this] True show ?thesis by (simp add: handleInv_def dispatchInv_def req)
  next
    case False
    with True assms(1) show ?thesis by (auto simp: handleInv_def dispatchInv_def route_keeps split: invRequest.split)
  qed
qed (use assms(1) in \<open>simp add: handleInv_def\<close>)

lemma run_keeps: "exportInv (Collect (approvedIn es)) (invRun es)"
proof (induction es rule: rev_induct)
  case Nil
  show ?case by (simp add: invRun_def invInit_def exportInv_def)
next
  case (snoc e es)
  let ?R = "Collect (approvedIn (es @ [e]))"
  have inv: "exportInv ?R (invRun es)" using snoc by (rule exportInv_mono) (auto intro: approvedIn_append)
  have "exportInv ?R (invApply e (invRun es))"
  proof (cases e)
    case (Request now u req)
    have "n \<in> ?R" if "req = ReviewExport i n Approve reason" "isInvAdmin u" "fst (handleInv now u req (invRun es)) = Inr n" for i n reason
      using that Request approvedIn_last by simp
    from handle_keeps [OF inv this] Request show ?thesis by simp
  next
    case (RunJob xw k)
    with inv show ?thesis by (simp add: process_keeps)
  next
    case (RunRetryAll xw)
    with inv show ?thesis by (simp add: process_keeps)
  qed
  then show ?case by (simp add: invRun_def)
qed

section \<open>Property\<close>

text \<open>
  Property C9. Evidence leaves the system only with the approval of an administrator. In any run of requests and jobs, in
  any order and with any failures, every file the exporter wrote carries a payload for a request that an administrator
  had approved in that run, and so does every package, whatever its state. Items that a user makes up, with any metadata,
  do not get around this.
\<close>

theorem export_needs_approval:
  "(\<forall>c\<in>snd ` set (is_files (invRun es)). \<exists>n. objField (objField (Some c) ''payload'') ''requestId'' = Some (JStr n) \<and> approvedIn es n)
   \<and> (\<forall>x\<in>set (is_items (invRun es)). ii_type x = ''export_package'' \<longrightarrow>
        (\<exists>n. map_of (metaFields x) ''requestId'' = Some (JStr n) \<and> approvedIn es n))"
  using run_keeps [of es] unfolding exportInv_def vouched_def itemOk_def by blast

text \<open>A case from its opening to the file of its evidence, on a server whose signature is not configured yet.\<close>

definition caseAdmin :: authUserInfo where
  "caseAdmin = \<lparr>ai_id = ''adm'', ai_name = ''Ada'', ai_email = ''a@x'', ai_role = ADMIN\<rparr>"

definition caseOperator :: authUserInfo where
  "caseOperator = \<lparr>ai_id = ''op'', ai_name = ''Olga'', ai_email = ''o@x'', ai_role = OPERATOR\<rparr>"

definition plainPlatform :: platform where
  "plainPlatform = \<lparr>pf_root = [], pf_canonical = (\<lambda>p. p), pf_newId = (\<lambda>_. []), pf_stamp = [],
     pf_faults = \<lparr>ft_rename = (\<lambda>_ _. True), ft_sync = True, ft_rm = True\<rparr>, pf_txFails = (\<lambda>_. False), pf_removeFails = (\<lambda>_. False),
     pf_usage = (\<lambda>_. None), pf_motionColumn = True\<rparr>"

definition caseWorld :: "string option \<Rightarrow> exportWorld" where
  "caseWorld rootEnv = \<lparr>xw_runtime = spellRuntime\<lparr>er_sha256Hex := (\<lambda>_. ''00'')\<rparr>, xw_config = \<lparr>ec_hmacSecret = [], ec_hmacKeyId = []\<rparr>, xw_rootEnv = rootEnv, xw_cwd = [''app''], xw_platform = plainPlatform,
     xw_firstWriteOk = True, xw_secondWriteOk = True, xw_now = 0\<rparr>"

definition caseDraft :: invDraft where
  "caseDraft = \<lparr>dr_title = ''T'', dr_summary = None, dr_status = None, dr_selectedCameraIds = [], dr_timeStart = 0, dr_timeEnd = 0,
     dr_playbackSpeed = None, dr_activeTrackTime = None\<rparr>"

definition caseRun :: "string option \<Rightarrow> invEvent list" where
  "caseRun rootEnv =
     [Request 0 caseOperator (CreateInv caseDraft),
      Request 0 caseOperator (RequestExport ''id-0'' \<lparr>ex_reason = ''r'', ex_format = None, ex_itemIds = [], ex_recordingIds = [], ex_clipIds = []\<rparr>),
      Request 0 caseAdmin (ReviewExport ''id-0'' ''id-2'' Approve ''ok''),
      Request 0 caseOperator (ExecuteRequest ''id-0'' ''id-2'' ''r''),
      RunJob (caseWorld rootEnv) 0]"

theorem export_needs_approval_witness:
  "\<exists>c n. c \<in> snd ` set (is_files (invRun (caseRun (Some ''/data'')))) \<and> objField (objField (Some c) ''payload'') ''requestId'' = Some (JStr n)
     \<and> approvedIn (caseRun (Some ''/data'')) n"
proof -
  have "map fst (is_files (invRun (caseRun (Some ''/data'')))) = [[''data'', ''id-0'', ''1970'', ''01'', ''01'', ''package-id-5.json'']]" by code_simp
  then obtain c where "c \<in> snd ` set (is_files (invRun (caseRun (Some ''/data''))))" by (cases "is_files (invRun (caseRun (Some ''/data'')))") auto
  with export_needs_approval [of "caseRun (Some ''/data'')"] show ?thesis by blast
qed

end
