(* ===== verification/Legal_Hold.thy ===== *)
theory Legal_Hold
  imports Export_Approval Retention_Pass
begin

text \<open>
  Legal holds: how long a hold of \<open>apps/api/src/investigations/investigations.service.ts\<close> binds the retention of
  \<open>apps/api/src/recordings/retention.service.ts\<close>, and where it does not.
\<close>

section \<open>A hold in its place\<close>

text \<open>
  The item \<open>h\<close> is the newest hold of the case \<open>i\<close>, and its metadata has the fields \<open>fs\<close> that the retention reads. Jobs of the
  exporter may add fields of their own.
\<close>

definition holdFields :: "string list" where
  "holdFields = [''enabled'', ''recordingIds'', ''clipIds'', ''eventIds'']"

definition holdItem :: "string \<Rightarrow> string \<Rightarrow> (string \<times> json) list \<Rightarrow> invItem \<Rightarrow> bool" where
  "holdItem h i fs x \<longleftrightarrow> ii_id x = h \<and> ofType i ''legal_hold'' x \<and> (\<exists>m. ii_metadata x = Some (JObj m))
     \<and> (\<forall>k\<in>set holdFields. map_of (metaFields x) k = map_of fs k)"

definition heldBy :: "string \<Rightarrow> string \<Rightarrow> (string \<times> json) list \<Rightarrow> invState \<Rightarrow> bool" where
  "heldBy h i fs st \<longleftrightarrow> (\<exists>xs x ys. is_items st = xs @ x # ys \<and> holdItem h i fs x \<and> (\<forall>y\<in>set ys. \<not> ofType i ''legal_hold'' y))"

lemma heldBy_items: "heldBy h i fs st \<Longrightarrow> is_items st' = is_items st \<Longrightarrow> heldBy h i fs st'"
  by (simp add: heldBy_def)

lemma heldByI: "is_items st = xs @ x # ys \<Longrightarrow> holdItem h i fs x \<Longrightarrow> (\<And>y. y \<in> set ys \<Longrightarrow> \<not> ofType i ''legal_hold'' y) \<Longrightarrow> heldBy h i fs st"
  unfolding heldBy_def by blast

lemma heldByE:
  assumes "heldBy h i fs st"
  obtains xs x ys where "is_items st = xs @ x # ys" "holdItem h i fs x" "\<forall>y\<in>set ys. \<not> ofType i ''legal_hold'' y"
  using assms unfolding heldBy_def by blast

lemma held_create:
  assumes "heldBy h i fs st" "\<not> ofType i ''legal_hold'' it"
  shows "heldBy h i fs (snd (createItem it st))"
  using assms(1)
proof (rule heldByE)
  fix xs x ys
  assume x: "is_items st = xs @ x # ys" "holdItem h i fs x" "\<forall>y\<in>set ys. \<not> ofType i ''legal_hold'' y"
  then have "is_items (snd (createItem it st)) = xs @ x # (ys @ [it\<lparr>ii_id := invId (is_next st)\<rparr>])" by (simp add: createItem_def Let_def)
  then show ?thesis using x(2) by (rule heldByI) (use x(3) assms(2) in \<open>auto simp: ofType_def\<close>)
qed

lemma held_map:
  assumes "heldBy h i fs st" "\<And>x. holdItem h i fs x \<Longrightarrow> holdItem h i fs (f x)" "\<And>x. ofType i ''legal_hold'' (f x) = ofType i ''legal_hold'' x"
    and "is_items st' = map f (is_items st)"
  shows "heldBy h i fs st'"
proof -
  obtain xs x ys where x: "is_items st = xs @ x # ys" "holdItem h i fs x" "\<forall>y\<in>set ys. \<not> ofType i ''legal_hold'' y"
    using assms(1) unfolding heldBy_def by blast
  then have "is_items st' = map f xs @ f x # map f ys" "\<forall>y\<in>set (map f ys). \<not> ofType i ''legal_hold'' y" using assms(3,4) by auto
  with assms(2) [OF x(2)] show ?thesis unfolding heldBy_def by blast
qed

lemma held_patch:
  assumes "heldBy h i fs st" "fst ` set ps \<inter> set holdFields = {}"
  shows "heldBy h i fs (setItem m (patchMeta ps) st)"
proof (rule held_map [OF assms(1)])
  show "is_items (setItem m (patchMeta ps) st) = map (\<lambda>x. if ii_id x = m then patchMeta ps x else x) (is_items st)" by (simp add: setItem_def)
  fix x
  have "map_of (rev ps) k = None" if "k \<in> set holdFields" for k using assms(2) that by (auto simp: map_of_eq_None_iff)
  then show "holdItem h i fs (if ii_id x = m then patchMeta ps x else x)" if "holdItem h i fs x" using that by (auto simp: holdItem_def ofType_def) (simp add: patchMeta_def)
  show "ofType i ''legal_hold'' (if ii_id x = m then patchMeta ps x else x) = ofType i ''legal_hold'' x" by (simp add: ofType_def)
qed

lemma held_filter:
  assumes "heldBy h i fs st" "n \<noteq> h"
  shows "heldBy h i fs (st\<lparr>is_items := filter (\<lambda>y. ii_id y \<noteq> n) (is_items st)\<rparr>)"
  using assms(1)
proof (rule heldByE)
  fix xs x ys
  let ?f = "filter (\<lambda>y. ii_id y \<noteq> n)"
  assume x: "is_items st = xs @ x # ys" "holdItem h i fs x" "\<forall>y\<in>set ys. \<not> ofType i ''legal_hold'' y"
  then have "is_items (st\<lparr>is_items := ?f (is_items st)\<rparr>) = ?f xs @ x # ?f ys" using assms(2) by (auto simp: holdItem_def)
  then show ?thesis using x(2) by (rule heldByI) (use x(3) in auto)
qed

interpretation hold: item_keeper "heldBy h i fs" for h i fs
proof
  fix st n and g :: "invItem \<Rightarrow> string option"
  assume "heldBy h i fs st"
  then show "heldBy h i fs (setItem n (\<lambda>y. y\<lparr>ii_notes := g y\<rparr>) st)"
    by (rule held_map [where f = "\<lambda>x. if ii_id x = n then x\<lparr>ii_notes := g x\<rparr> else x"]) (auto simp: holdItem_def ofType_def metaFields_def setItem_def)
next
  fix st and it :: invItem
  assume "heldBy h i fs st" "ii_type it \<notin> {''export_request'', ''export_package'', ''legal_hold''}"
  then show "heldBy h i fs (snd (createItem it st))" by (intro held_create) (simp_all add: ofType_def)
qed (simp_all add: heldBy_def auditLog_def setInv_def)

section \<open>What leaves a hold in place\<close>

lemma held_status: "heldBy h i fs st \<Longrightarrow> fst ` set ps \<inter> set holdFields = {} \<Longrightarrow> heldBy h i fs (setPackageStatus xw m ps st)"
  unfolding setPackageStatus_def by (rule held_patch) (auto simp: holdFields_def)

lemma write_items: "writePackageArtifact xw ok i m c st = Some (a, st1) \<Longrightarrow> is_items st1 = is_items st"
  by (auto simp: writePackageArtifact_def Let_def split: if_splits)

lemma held_write: "writePackageArtifact xw ok j m c st = Some (a, st1) \<Longrightarrow> heldBy h i fs st \<Longrightarrow> heldBy h i fs st1"
  using write_items heldBy_items by blast

lemma held_finish:
  assumes "heldBy h i fs st" "finishExport xw xo payload st = Some st1"
  shows "heldBy h i fs st1"
  using assms(2) held_write [OF _ assms(1)]
  by (auto simp: finishExport_def Let_def holdFields_def split: sum.splits option.splits intro!: held_status)

lemma held_executeExport:
  assumes "heldBy h i fs st"
  shows "heldBy h i fs (executeExport xw xo st)"
proof -
  let ?m = "xo_packageItemId xo"
  define s where "s = setPackageStatus xw ?m [(''status'', JStr ''PROCESSING''), (''progress'', JNum 20)] st"
  have s: "heldBy h i fs s" unfolding s_def using assms by (rule held_status) (simp add: holdFields_def)
  then have failed: "heldBy h i fs (setPackageStatus xw ?m [(''status'', JStr ''FAILED''), (''error'', JStr w)] s)" for w
    by (rule held_status) (simp add: holdFields_def)
  from s have s1: "heldBy h i fs (setPackageStatus xw ?m [(''progress'', JNum 60)] s)" by (rule held_status) (simp add: holdFields_def)
  show ?thesis
    unfolding executeExport_def Let_def s_def [symmetric] using failed s1 held_finish [OF s1] by (simp split: option.splits)
qed

lemma held_retry:
  assumes "heldBy h i fs st"
  shows "heldBy h i fs (retrySingleSignature xw j m st)"
  using assms held_write [OF _ assms]
  by (auto simp: retrySingleSignature_def Let_def holdFields_def split: option.splits sum.splits intro!: held_status)

lemma held_process: "heldBy h i fs st \<Longrightarrow> heldBy h i fs (processExport xw job st)"
  by (cases job) (auto simp: processExport_def Let_def held_executeExport held_retry intro: fold_keeps)

lemma held_remove: "heldBy h i fs st \<Longrightarrow> n \<noteq> h \<Longrightarrow> heldBy h i fs (snd (removeItem now u j n st))"
  by (auto simp: removeItem_def Let_def split: option.split intro!: hold.keep_on hold.keep_activity held_filter)

lemma held_other_hold: "heldBy h i fs st \<Longrightarrow> j \<noteq> i \<Longrightarrow> heldBy h i fs (snd (setLegalHold now u j d st))"
  using held_create [of h i fs st]
  by (auto simp: setLegalHold_def Let_def split_beta plainItem_def ofType_def intro!: hold.keep_on hold.keep_activity)

lemma held_request: "heldBy h i fs st \<Longrightarrow> heldBy h i fs (snd (createExportRequest now u j d st))"
  using held_create [of h i fs st]
  by (auto simp: createExportRequest_def Let_def split_beta plainItem_def ofType_def intro!: hold.keep_on hold.keep_activity)

lemma held_review: "heldBy h i fs st \<Longrightarrow> heldBy h i fs (snd (reviewExportRequest now u j n d reason st))"
  by (auto simp: reviewExportRequest_def Let_def holdFields_def split: option.split intro!: hold.keep_on hold.keep_activity held_patch)

lemma held_jobs: "heldBy h i fs (st\<lparr>is_jobs := js\<rparr>) = heldBy h i fs st"
  by (simp add: heldBy_def)

lemma held_execute: "heldBy h i fs st \<Longrightarrow> heldBy h i fs (snd (executeExportRequest now u j n reason st))"
  using held_create [of h i fs st]
  by (auto simp: executeExportRequest_def Let_def split_beta plainItem_def ofType_def held_jobs split: option.split intro!: hold.keep_on hold.keep_activity)

lemma held_retrySignatures: "heldBy h i fs st \<Longrightarrow> heldBy h i fs (snd (enqueueRetryPendingSignatures now u j st))"
  by (auto simp: enqueueRetryPendingSignatures_def Let_def held_jobs intro!: hold.keep_on hold.keep_activity)

lemmas held_routes = hold.keep_routes held_request held_review held_execute held_retrySignatures

text \<open>The events that may change a hold: a new hold of the same case, and the removal of the item of the hold.\<close>

fun sparesHold :: "string \<Rightarrow> string \<Rightarrow> invEvent \<Rightarrow> bool" where
  "sparesHold i h (Request now u (SetHold j d)) = (j \<noteq> i)"
| "sparesHold i h (Request now u (RemoveItem j n)) = (n \<noteq> h)"
| "sparesHold i h _ = True"

lemma held_event:
  assumes "heldBy h i fs st" "sparesHold i h e"
  shows "heldBy h i fs (invApply e st)"
proof (cases e)
  case (Request now u req)
  with assms have "heldBy h i fs (snd (dispatchInv now u req st))"
    by (cases req) (simp_all add: dispatchInv_def held_routes held_remove held_other_hold)
  with Request assms(1) show ?thesis by (simp add: handleInv_def)
qed (use assms in \<open>simp_all add: held_process\<close>)

interpretation holdRun: event_invariant invApply "\<lambda>e _. sparesHold i h e" "heldBy h i fs" for h i fs
  by unfold_locales (rule held_event)

section \<open>The retention\<close>

lemma heldBy_newest:
  assumes "heldBy h i fs st"
  shows "\<exists>m. newestHold (retItems st) m \<and> (\<forall>k\<in>set holdFields. objField (it_metadata m) k = map_of fs k)"
  using assms
proof (rule heldByE)
  fix xs x ys
  let ?r = "\<lambda>x. \<lparr>it_investigationId = ii_investigationId x, it_type = ii_type x, it_recordingId = ii_recordingId x, it_eventId = ii_eventId x, it_metadata = ii_metadata x\<rparr>"
  assume x: "is_items st = xs @ x # ys" "holdItem h i fs x" "\<forall>y\<in>set ys. \<not> ofType i ''legal_hold'' y"
  have "retItems st = map ?r (rev ys) @ ?r x # map ?r (rev xs)" by (simp add: retItems_def x(1))
  moreover have "\<forall>z\<in>set (map ?r (rev ys)). it_type z = ''legal_hold'' \<longrightarrow> it_investigationId z \<noteq> it_investigationId (?r x)"
    using x(2,3) by (auto simp: holdItem_def ofType_def)
  moreover have "it_type (?r x) = ''legal_hold''" using x(2) by (simp add: holdItem_def ofType_def)
  ultimately have "newestHold (retItems st) (?r x)" unfolding newestHold_def by blast
  moreover have "objField (it_metadata (?r x)) k = map_of fs k" if "k \<in> set holdFields" for k
    using x(2) that by (auto simp: holdItem_def metaFields_def)
  ultimately show ?thesis by blast
qed

lemma heldBy_recordings:
  assumes "heldBy h i fs st" "db_items db = retItems st" "map_of fs ''enabled'' = Some (JBool True)"
    and "map_of fs ''recordingIds'' = Some (JArr (map JStr rs))" "map_of fs ''clipIds'' = Some (JArr (map JStr cs))"
  shows "r \<in> set rs \<Longrightarrow> recordingHeld db r" "c \<in> set cs \<Longrightarrow> clipHeld db c"
proof -
  obtain m where "newestHold (db_items db) m" "\<forall>k\<in>set holdFields. objField (it_metadata m) k = map_of fs k"
    using heldBy_newest [OF assms(1)] assms(2) by auto
  then have "activeHold db m" "\<And>r. r \<in> set rs \<Longrightarrow> listsId (it_metadata m) ''recordingIds'' r" "\<And>c. c \<in> set cs \<Longrightarrow> listsId (it_metadata m) ''clipIds'' c"
    using assms(3-5) by (auto simp: activeHold_def holdEnabled_def listsId_def holdFields_def)
  then show "r \<in> set rs \<Longrightarrow> recordingHeld db r" "c \<in> set cs \<Longrightarrow> clipHeld db c" by (auto simp: recordingHeld_def clipHeld_def)
qed

lemma setHold_held:
  assumes "fst (handleInv now u (SetHold i d) st) = Inr h"
  shows "\<exists>fs. holdJson now u d = JObj fs \<and> heldBy h i fs (snd (handleInv now u (SetHold i d) st))"
proof -
  obtain fs where fs: "holdJson now u d = JObj fs" by (simp add: holdJson_def)
  let ?lbl = "if hd_enabled d then ''Legal hold ativado'' else ''Legal hold desativado''"
  define it where "it = plainItem i ''legal_hold'' ?lbl now (trimmedOrNone (hd_reason d)) (Some (holdJson now u d))"
  from assms have ok: "h = invId (is_next st)"
      "snd (handleInv now u (SetHold i d) st) = auditLog now (Some (ai_id u)) ''investigation.legal_hold.set'' ''Investigation'' i
         (addActivity now u i ?lbl (trimmedOrNone (hd_reason d)) (snd (createItem it st)))"
    by (auto simp: handleInv_def dispatchInv_def setLegalHold_def onInvestigation_def Let_def split_beta it_def createItem_def split: if_splits option.splits)
  have "heldBy h i fs (snd (createItem it st))"
    by (rule heldByI [where xs = "is_items st" and x = "it\<lparr>ii_id := h\<rparr>" and ys = "[]"])
      (simp_all add: createItem_def Let_def ok(1) holdItem_def ofType_def it_def plainItem_def fs metaFields_def)
  then show ?thesis using fs by (auto simp: ok(2) intro: hold.keep_activity)
qed

section \<open>Property\<close>

text \<open>
  Property C3. A legal hold binds the retention. When a hold was set, then until a new hold of the same case is set or the
  item of the hold is removed - through any other requests of any users and any jobs of the exporter - no pass of the
  retention deletes a recording or a clip that the hold lists, whatever its settings, the age of the rows and the
  pressure on the disk.
\<close>

theorem hold_binds_retention:
  assumes "fst (handleInv now u (SetHold i d) st) = Inr h" "hd_enabled d" "list_all (sparesHold i h) es"
    and "db_items (st_db rst) = retItems (fold invApply es (snd (handleInv now u (SetHold i d) st)))"
  shows "(\<forall>r\<in>set (db_recordings (st_db rst)). rr_id r \<in> set (hd_recordingIds d) \<longrightarrow> r \<in> set (db_recordings (st_db (snd (handleRetention pf env settings t rst)))))
    \<and> (\<forall>c\<in>set (db_clips (st_db rst)). cl_id c \<in> set (hd_clipIds d) \<longrightarrow> c \<in> set (db_clips (st_db (snd (handleRetention pf env settings t rst)))))"
proof -
  obtain fs where fs: "holdJson now u d = JObj fs" "heldBy h i fs (snd (handleInv now u (SetHold i d) st))" using setHold_held [OF assms(1)] by blast
  have held: "heldBy h i fs (fold invApply es (snd (handleInv now u (SetHold i d) st)))"
    using holdRun.run_inv [OF fs(2), of es] assms(3) by (simp add: okRun_const)
  have "map_of fs ''enabled'' = Some (JBool True)" "map_of fs ''recordingIds'' = Some (JArr (map JStr (hd_recordingIds d)))"
      "map_of fs ''clipIds'' = Some (JArr (map JStr (hd_clipIds d)))"
    using fs(1) assms(2) by (auto simp: holdJson_def)
  from heldBy_recordings [OF held assms(4) this] show ?thesis
    using handleRetention_keeps [of rst pf env settings t] by (simp add: keepsProtected_def Let_def recordingHeld_iff clipHeld_iff)
qed

text \<open>A case with a hold on the oldest recording of the small installation, which the retention would delete.\<close>

definition oldHold :: holdDto where
  "oldHold = \<lparr>hd_enabled = True, hd_reason = None, hd_recordingIds = [''old''], hd_clipIds = [], hd_itemIds = []\<rparr>"

definition holdStart :: invState where
  "holdStart = invRun [Request 0 caseOperator (CreateInv caseDraft)]"

definition withHold :: "invEvent list \<Rightarrow> retState" where
  "withHold es = exampleState\<lparr>st_db := (st_db exampleState)
     \<lparr>db_items := retItems (fold invApply es (snd (handleInv 0 caseOperator (SetHold ''id-0'' oldHold) holdStart)))\<rparr>\<rparr>"

abbreviation afterPass :: "retState \<Rightarrow> retState" where
  "afterPass rst \<equiv> snd (handleRetention examplePlatform (\<lambda>_. None) exampleSettings (100 * 86400000) rst)"

theorem hold_binds_retention_witness:
  "exampleRecording ''old'' 1 \<in> set (db_recordings (st_db (afterPass (withHold [Request 1 caseOperator (AddNote ''id-0'' ''seen'')]))))
   \<and> exampleRecording ''held'' 2 \<notin> set (db_recordings (st_db (afterPass (withHold [Request 1 caseOperator (AddNote ''id-0'' ''seen'')]))))"
proof -
  let ?es = "[Request 1 caseOperator (AddNote ''id-0'' ''seen'')]"
  have h: "fst (handleInv 0 caseOperator (SetHold ''id-0'' oldHold) holdStart) = Inr ''id-2''" by code_simp
  have d: "db_items (st_db (withHold ?es)) = retItems (fold invApply ?es (snd (handleInv 0 caseOperator (SetHold ''id-0'' oldHold) holdStart)))"
    by (simp add: withHold_def)
  have "exampleRecording ''old'' 1 \<in> set (db_recordings (st_db (withHold ?es)))" "rr_id (exampleRecording ''old'' 1) \<in> set (hd_recordingIds oldHold)"
    by (simp_all add: withHold_def exampleState_def exampleRecording_def oldHold_def)
  moreover have "exampleRecording ''held'' 2 \<notin> set (db_recordings (st_db (afterPass (withHold ?es))))" by code_simp
  ultimately show ?thesis using hold_binds_retention [OF h _ _ d] by (simp add: oldHold_def)
qed

lemma addItem_ok:
  assumes "fst (addItem now u i d st) = Inr n"
  shows "\<exists>x row y e. assertInvAccessible u i st = Some row \<and> is_items (snd (addItem now u i d st)) = is_items st @ [x, y]
      \<and> ii_investigationId x = i \<and> ii_type x = di_type d \<and> ii_recordingId x = di_recordingId d \<and> ii_metadata x = map_option JObj (di_metadata d)
      \<and> is_audit (snd (addItem now u i d st)) = is_audit st @ [e] \<and> is_investigations (snd (addItem now u i d st)) = is_investigations st"
  using assms by (simp add: addItem_def onInvestigation_def split_beta createItem_def Let_def auditLog_def addActivity_def split: if_splits option.splits)

section \<open>Where the hold, the trace and the custody give way\<close>

text \<open>
  The hold does not protect its own item: whoever may edit the case removes it like any other item, and the next pass of
  the retention deletes what it held.
\<close>

lemma hold_removed_with_its_item:
  "sparesHold ''id-0'' ''id-2'' (Request 1 caseOperator (RemoveItem ''id-0'' ''id-2'')) = False
   \<and> exampleRecording ''old'' 1 \<notin> set (db_recordings (st_db (afterPass (withHold [Request 1 caseOperator (RemoveItem ''id-0'' ''id-2'')]))))"
  by code_simp

text \<open>An item of any other type with a list of recordings in its metadata keeps them from the retention just as a hold does.\<close>

lemma any_item_holds_recordings:
  assumes "fst (addItem now u i d st) = Inr n" "di_metadata d = Some [(''recordingIds'', JArr (map JStr rs))]"
    and "db_items db = retItems (snd (addItem now u i d st))" "r \<in> set rs"
  shows "recordingHeld db r"
proof -
  obtain x where x: "x \<in> set (is_items (snd (addItem now u i d st)))" "ii_type x = di_type d" "ii_metadata x = map_option JObj (di_metadata d)"
    using addItem_ok [OF assms(1)] by fastforce
  have "di_type d \<noteq> ''legal_hold''" using assms(1) by (auto simp: addItem_def validItem_def SERVER_OWNED_INVESTIGATION_ITEM_TYPES_def split: if_splits)
  then have "evidenceItem db \<lparr>it_investigationId = ii_investigationId x, it_type = ii_type x, it_recordingId = ii_recordingId x, it_eventId = ii_eventId x, it_metadata = ii_metadata x\<rparr>"
    using x by (auto simp: evidenceItem_def assms(3) retItems_def)
  moreover have "listsId (ii_metadata x) ''recordingIds'' r" using x(3) assms(2,4) by (simp add: listsId_def)
  ultimately show ?thesis unfolding recordingHeld_def by (metis itemRow.select_convs(5))
qed

definition closePatch :: "string \<Rightarrow> invPatch" where
  "closePatch s = \<lparr>pt_title = None, pt_summary = None, pt_status = Some s, pt_selectedCameraIds = None, pt_timeStart = None, pt_timeEnd = None,
     pt_playbackSpeed = None, pt_activeTrackTime = None\<rparr>"

definition closing :: "string \<Rightarrow> lifecycleDto" where
  "closing s = \<lparr>ld_status = s, ld_summary = None, ld_note = Some ''n''\<rparr>"

definition traceAfter :: "invEvent list \<Rightarrow> (string \<times> bool) option" where
  "traceAfter es = (case getClosureTrace caseOperator ''id-0'' (invRun (Request 0 caseOperator (CreateInv caseDraft) # es)) of
     Inl _ \<Rightarrow> None | Inr t \<Rightarrow> Some (ct_currentStatus t, ct_closed t))"

text \<open>
  The update of a case closes it without the note that the transition asks for, and its trace says that it was not closed;
  a case that was opened again keeps the trace of a closed one.
\<close>

lemma closed_without_trace: "traceAfter [Request 1 caseOperator (UpdateInv ''id-0'' (closePatch ''CLOSED''))] = Some (''CLOSED'', False)"
  by code_simp

lemma reopened_still_closed:
  "traceAfter [Request 1 caseOperator (Transition ''id-0'' (closing ''CLOSED'')), Request 2 caseOperator (Transition ''id-0'' (closing ''OPEN''))] = Some (''OPEN'', True)"
  by code_simp

text \<open>
  The recordings of an item are whatever the caller writes there. So a user adds an item that names a recording and reads in
  the chain of custody of that case the audit of the recording, of cameras the user may not view as well.
\<close>

lemma custody_of_named_recording:
  assumes "fst (addItem now u i d st) = Inr n" "di_recordingId d = Some r" "r \<noteq> []" "a \<in> set (is_audit st)" "ia_entityType a = ''Recording''" "ia_entityId a = r"
    and "length (is_audit st) < 1000"
  shows "\<exists>logs. getCustodyChain u i (snd (addItem now u i d st)) = Inr logs \<and> a \<in> set logs"
proof -
  let ?st = "snd (addItem now u i d st)"
  obtain x row y e where x: "assertInvAccessible u i st = Some row" "is_items ?st = is_items st @ [x, y]" "ii_investigationId x = i"
      "ii_recordingId x = di_recordingId d" and audit: "is_audit ?st = is_audit st @ [e]" and rows: "is_investigations ?st = is_investigations st"
    using addItem_ok [OF assms(1)] by blast
  have acc: "assertInvAccessible u i ?st = Some row" using x(1) rows by (simp add: assertInvAccessible_def findInv_def)
  have "r \<in> set (relatedRecordingIds (itemsOf i ?st))" using x(2-4) assms(2,3) by (simp add: itemsOf_def relatedRecordingIds_def set_nonEmpty)
  then have "inCustody i (itemsOf i ?st) a" using assms(5,6) by (simp add: inCustody_def)
  moreover have "length (filter (inCustody i (itemsOf i ?st)) (is_audit ?st)) \<le> 1000"
    using length_filter_le [of "inCustody i (itemsOf i ?st)" "is_audit ?st"] assms(7) by (simp add: audit)
  ultimately show ?thesis using acc assms(4) by (auto simp: getCustodyChain_def audit)
qed

section \<open>The report\<close>

lemma esc_no_markup: "c \<in> set (esc s) \<Longrightarrow> c \<noteq> CHR ''<'' \<and> c \<noteq> CHR ''>'' \<and> c \<noteq> CHR 0x22 \<and> c \<noteq> CHR 0x27"
  by (auto simp: esc_def escChar_def split: if_splits)

lemma esc_tags [simp]: "count_list (esc s) CHR ''<'' = 0"
  using esc_no_markup [of "CHR ''<''" s] by (auto simp: count_list_0_iff)

text \<open>
  Texts of users do not become markup: the tags of a report are those of its template, ten for each row of its tables,
  whatever the titles, labels and names are.
\<close>

lemma reportRow_tags: "count_list (reportRow cells) CHR ''<'' = 2 + 2 * length cells"
proof -
  have "count_list (concat (map (\<lambda>c. ''<td>'' @ esc c @ ''</td>'') cells)) CHR ''<'' = 2 * length cells" by (induction cells) simp_all
  then show ?thesis by (simp add: reportRow_def)
qed

lemma report_tags:
  "count_list (reportHtml sd v custody hold) CHR ''<'' = count_list (reportHtml sd (v\<lparr>vw_items := []\<rparr>) [] hold) CHR ''<'' + 10 * (length (vw_items v) + length custody)"
proof -
  have rows: "count_list (concat (map (\<lambda>x. reportRow [f x, g x, k x, l x]) xs)) CHR ''<'' = 10 * length xs" for f g k l and xs :: "'x list"
    by (induction xs) (simp_all add: reportRow_tags)
  show ?thesis unfolding reportHtml_def by (simp only: count_list_append rows) simp
qed

end
