(* ===== verification/Package_Download.thy ===== *)
theory Package_Download
  imports Export_Approval Retention_Rows
begin

text \<open>
  From the file that the exporter writes to the download: what
  \<open>apps/api/src/jobs/processors/evidence-export.processor.ts\<close> stores is what \<open>getExportPackageDownload\<close> of
  \<open>apps/api/src/investigations/investigations.service.ts\<close> serves, if the root of the packages is an absolute path. With
  the relative default the two disagree on where the file is.
\<close>

section \<open>The path of a package\<close>

lemma split_on_seam: "split_on d (a @ d # b) = split_on d a @ split_on d b"
proof (induction a)
  case (Cons c a)
  then show ?case by (cases "split_on d a") auto
qed simp

lemma norm_comps_append: "norm_comps acc (xs @ ys) = norm_comps (rev (norm_comps acc xs)) ys"
  by (induction acc xs rule: norm_comps.induct) auto

definition packageParts :: "exportWorld \<Rightarrow> string \<Rightarrow> string \<Rightarrow> string list" where
  "packageParts xw i m =
     (case civil_from_days (xw_now xw div 86400000) of (y, mo, d) \<Rightarrow> [i, show_nat (nat y), pad 2 mo, pad 2 d, ''package-'' @ m @ ''.json''])"

lemma digits_clean: "list_all is_digit s \<Longrightarrow> s \<noteq> [] \<Longrightarrow> clean s"
  by (auto simp: clean_def is_digit_def list_all_iff)

lemma show_nat_ne: "show_nat n \<noteq> []"
  by (subst show_nat.simps) simp

lemma show_nat_clean: "clean (show_nat n)"
  by (simp add: digits_clean show_nat_digits show_nat_ne)

lemma pad_digits: "clean (pad w n)"
proof (rule digits_clean)
  show "list_all is_digit (pad w n)" using show_nat_digits [of "nat n"] by (auto simp: pad_def Let_def list_all_iff is_digit_def)
  show "pad w n \<noteq> []" using show_nat_ne by (simp add: pad_def Let_def)
qed

lemma packageParts_clean: "clean i \<Longrightarrow> CHR ''/'' \<notin> set m \<Longrightarrow> clean_path (packageParts xw i m)"
  by (auto simp: packageParts_def show_nat_clean pad_digits clean_def [of "CHR ''p'' # _"] split: prod.split)

lemma absolute_join:
  assumes "isAbsolute base" "clean_path ps" "ps \<noteq> []"
  shows "joinText base ps = showPath (joinPath [] base @ ps)"
proof -
  have whole: "join ''/'' (base # ps) = base @ CHR ''/'' # join ''/'' ps" using assms(3) by (cases ps) simp_all
  have "split_on CHR ''/'' (join ''/'' ps) = ps" using assms(2,3) by (intro split_on_join) (auto simp: clean_path_def clean_def)
  then have "joinPath [] (join ''/'' (base # ps)) = joinPath [] base @ ps"
    using assms(2) by (simp add: joinPath_def whole split_on_seam norm_comps_append norm_comps_id)
  moreover have "isAbsolute (join ''/'' (base # ps))" using assms(1) by (auto simp: whole isAbsolute_def starts_with_iff)
  ultimately show ?thesis by (simp add: joinText_def)
qed

abbreviation rootPath :: "exportWorld \<Rightarrow> path" where
  "rootPath xw \<equiv> joinPath [] (packagesRoot xw)"

lemma packageFile_absolute:
  assumes "isAbsolute (packagesRoot xw)" "clean i" "CHR ''/'' \<notin> set m"
  shows "packageFile xw i m = showPath (rootPath xw @ packageParts xw i m)"
proof -
  have "packageFile xw i m = joinText (packagesRoot xw) (packageParts xw i m)" by (simp add: packageFile_def packageParts_def split_beta)
  moreover have "packageParts xw i m \<noteq> []" by (simp add: packageParts_def split_beta)
  ultimately show ?thesis using absolute_join [OF assms(1) packageParts_clean] assms by simp
qed

lemma package_resolves:
  assumes "isAbsolute (packagesRoot xw)" "clean i" "CHR ''/'' \<notin> set m"
  shows "resolvePath b (packageFile xw i m) = rootPath xw @ packageParts xw i m"
  unfolding packageFile_absolute [OF assms]
  using packageParts_clean [OF assms(2,3)] joinPath_clean [of "[]"] by (intro resolve_showPath) (auto simp: clean_path_def packageParts_def split_beta)

section \<open>Where the download looks\<close>

definition sameStorage :: "exportWorld \<Rightarrow> exportWorld \<Rightarrow> bool" where
  "sameStorage a b \<longleftrightarrow> xw_rootEnv a = xw_rootEnv b \<and> xw_cwd a = xw_cwd b \<and> xw_platform a = xw_platform b"

lemma package_under_root:
  assumes "isAbsolute (packagesRoot xw)" "clean i" "CHR ''/'' \<notin> set m" "sameStorage xw xw'"
    and "isWithin (pf_canonical (xw_platform xw) (rootPath xw)) (pf_canonical (xw_platform xw) (rootPath xw @ packageParts xw i m))"
  shows "ensureFileUnderRoot (packagesPlatform xw') (packageFile xw i m) = Inr (pf_canonical (xw_platform xw) (rootPath xw @ packageParts xw i m))"
proof -
  have same: "packagesRoot xw' = packagesRoot xw" "xw_cwd xw' = xw_cwd xw" "xw_platform xw' = xw_platform xw"
    using assms(4) by (auto simp: sameStorage_def packagesRoot_def)
  then have r: "pf_root (packagesPlatform xw') = rootPath xw" using assms(1) by (simp add: packagesPlatform_def resolvePath_def)
  have "isWithin (rootPath xw) (rootPath xw @ packageParts xw i m)"
    using assms(2) by (auto simp: isWithin_def packageParts_def clean_def split_beta)
  then show ?thesis using assms(5) package_resolves [OF assms(1-3)]
    by (simp add: ensureFileUnderRoot_def r Let_def) (simp add: packagesPlatform_def same)
qed

lemma find_map_same: "(\<And>x. P (f x) = P x) \<Longrightarrow> find P (map f xs) = map_option f (find P xs)"
  by (induction xs) auto

lemma findTyped_setItem:
  assumes "\<And>x. ii_id (f x) = ii_id x \<and> ii_type (f x) = ii_type x \<and> ii_investigationId (f x) = ii_investigationId x" "findTyped i m ty st = Some x"
  shows "findTyped i m ty (setItem m f st) = Some (f x)"
proof -
  let ?g = "\<lambda>x. if ii_id x = m then f x else x" and ?P = "\<lambda>x. ii_id x = m \<and> ofType i ty x"
  have "find ?P (map ?g (is_items st)) = map_option ?g (find ?P (is_items st))" using assms(1) by (intro find_map_same) (simp add: ofType_def)
  moreover have "ii_id x = m" using assms(2) by (auto simp: findTyped_def dest: find_SomeD)
  ultimately show ?thesis using assms(2) by (simp add: findTyped_def setItem_def)
qed

lemma access_setItem: "assertInvAccessible u i (setItem m f st) = assertInvAccessible u i st"
  by (simp add: assertInvAccessible_def findInv_def setItem_def)

text \<open>The download of a package whose artifact was just recorded.\<close>

lemma download_recorded:
  assumes "isAbsolute (packagesRoot xw)" "clean i" "CHR ''/'' \<notin> set m" "sameStorage xw xw'"
    and "isWithin (pf_canonical (xw_platform xw) (rootPath xw)) (pf_canonical (xw_platform xw) (rootPath xw @ packageParts xw i m))"
    and "findTyped i m ''export_package'' st = Some x" "assertInvAccessible u i st = Some r" "trimmedOrNone reason \<noteq> None"
    and "writePackageArtifact xw ok i m content st = Some (artifact, st1)"
    and "map_of (rev ps) ''artifact'' = Some artifact" "map_of (rev ps) ''status'' = Some (JStr s)"
  shows "\<exists>p. fst (getExportPackageDownload xw' u i m reason (setPackageStatus xw m ps st1)) = Inr p \<and> pd_content p = docJson content \<and> pd_status p = s"
proof -
  let ?p = "pf_canonical (xw_platform xw) (rootPath xw @ packageParts xw i m)"
  let ?ps = "ps @ [(''updatedAt'', JStr (iso_string (xw_now xw)))]"
  have w: "st1 = st\<lparr>is_files := AList.update ?p (docJson content) (is_files st)\<rparr>" "objField (Some artifact) ''filePath'' = Some (JStr (packageFile xw i m))"
    using assms(9) by (auto simp: writePackageArtifact_def Let_def package_resolves [OF assms(1-3)] split: if_splits)
  have acc: "assertInvAccessible u i (setPackageStatus xw m ps st1) = Some r"
    using assms(7) by (simp add: setPackageStatus_def access_setItem w(1)) (simp add: assertInvAccessible_def findInv_def)
  have "findTyped i m ''export_package'' st1 = Some x" using assms(6) by (simp add: w(1) findTyped_def)
  then have pkg: "findTyped i m ''export_package'' (setPackageStatus xw m ps st1) = Some (patchMeta ?ps x)"
    unfolding setPackageStatus_def by (intro findTyped_setItem) simp_all
  have meta: "map_of (metaFields (patchMeta ?ps x)) ''artifact'' = Some artifact" "map_of (metaFields (patchMeta ?ps x)) ''status'' = Some (JStr s)"
    using assms(10,11) by simp_all
  have stored: "map_of (is_files (setPackageStatus xw m ps st1)) ?p = Some (docJson content)"
    by (simp add: setPackageStatus_def setItem_def w(1) update_conv')
  have "packageFile xw i m \<noteq> []" by (simp add: packageFile_absolute [OF assms(1-3)] showPath_def)
  then show ?thesis using assms(8) acc pkg meta w(2) package_under_root [OF assms(1-5)] stored
    by (simp add: getExportPackageDownload_def onInvestigation_def textOf_def given_def)
qed

text \<open>How the export of a package ends.\<close>

definition finalPatch :: "string \<Rightarrow> (string \<times> doc) list \<Rightarrow> json \<Rightarrow> json \<Rightarrow> json \<Rightarrow> (string \<times> json) list" where
  "finalPatch status payload sg artifact err = [(''status'', JStr status), (''progress'', JNum 100), (''payload'', docJson (DObj payload)),
     (''signature'', sg), (''artifact'', artifact), (''signatureError'', err)]"

lemma finalPatch_maps:
  "map_of (rev (finalPatch status payload sg artifact err)) ''artifact'' = Some artifact" "map_of (rev (finalPatch status payload sg artifact err)) ''status'' = Some (JStr status)"
  by (simp_all add: finalPatch_def)

lemma finishExport_cases:
  assumes "finishExport xw xo payload st = Some st1"
  shows "(\<exists>ok e a s. writePackageArtifact xw ok (xo_investigationId xo) (xo_packageItemId xo)
            (DObj [(''payload'', DObj payload), (''signature'', DNull), (''signatureError'', DStr e)]) st = Some (a, s)
          \<and> st1 = setPackageStatus xw (xo_packageItemId xo) (finalPatch ''PENDING_SIGNATURE'' payload JNull a (JStr e)) s)
    \<or> (\<exists>ok sg a s. writePackageArtifact xw ok (xo_investigationId xo) (xo_packageItemId xo)
            (DObj [(''payload'', DObj payload), (''signature'', DObj sg)]) st = Some (a, s)
          \<and> signPackage (xw_runtime xw) (xw_config xw) (xw_now xw) payload = Inr sg
          \<and> st1 = setPackageStatus xw (xo_packageItemId xo) (finalPatch ''READY'' payload (docJson (DObj sg)) a JNull) s)"
  using assms unfolding finishExport_def Let_def finalPatch_def [symmetric]
  by (simp only: split: sum.splits option.splits prod.splits) (auto simp del: docJson.simps, blast)

section \<open>Property\<close>

text \<open>
  Property C39. What was exported can be had. When the root of the packages is an absolute path and no symbolic link leads
  out of it, then after the exporter finished a package of a case, signed or not, whoever may open the case and gives a
  reason downloads exactly that package: its payload is the one that was exported, and it is marked as ready exactly with
  the signature of that payload, and as waiting for one without.
\<close>

theorem package_roundtrip:
  assumes "isAbsolute (packagesRoot xw)" "sameStorage xw xw'" "clean (xo_investigationId xo)" "CHR ''/'' \<notin> set (xo_packageItemId xo)"
    and "isWithin (pf_canonical (xw_platform xw) (rootPath xw))
          (pf_canonical (xw_platform xw) (rootPath xw @ packageParts xw (xo_investigationId xo) (xo_packageItemId xo)))"
    and "findTyped (xo_investigationId xo) (xo_packageItemId xo) ''export_package'' st = Some x"
    and "assertInvAccessible u (xo_investigationId xo) st = Some r" "trimmedOrNone reason \<noteq> None"
    and "finishExport xw xo payload st = Some st1"
  shows "\<exists>p. fst (getExportPackageDownload xw' u (xo_investigationId xo) (xo_packageItemId xo) reason st1) = Inr p
    \<and> objField (Some (pd_content p)) ''payload'' = Some (docJson (DObj payload))
    \<and> (pd_status p = ''READY'' \<and> (\<exists>sg. signPackage (xw_runtime xw) (xw_config xw) (xw_now xw) payload = Inr sg
            \<and> objField (Some (pd_content p)) ''signature'' = Some (docJson (DObj sg)))
       \<or> pd_status p = ''PENDING_SIGNATURE'' \<and> objField (Some (pd_content p)) ''signature'' = Some JNull)"
proof -
  let ?i = "xo_investigationId xo" and ?m = "xo_packageItemId xo"
  note download = download_recorded [OF assms(1,3,4,2,5,6,7,8)]
  from finishExport_cases [OF assms(9)] show ?thesis
  proof (elim disjE exE conjE)
    fix ok e a s
    assume w: "writePackageArtifact xw ok ?i ?m (DObj [(''payload'', DObj payload), (''signature'', DNull), (''signatureError'', DStr e)]) st = Some (a, s)"
      and st1: "st1 = setPackageStatus xw ?m (finalPatch ''PENDING_SIGNATURE'' payload JNull a (JStr e)) s"
    from download [OF w finalPatch_maps] show ?thesis unfolding st1 by force
  next
    fix ok sg a s
    assume w: "writePackageArtifact xw ok ?i ?m (DObj [(''payload'', DObj payload), (''signature'', DObj sg)]) st = Some (a, s)"
      and sg: "signPackage (xw_runtime xw) (xw_config xw) (xw_now xw) payload = Inr sg"
      and st1: "st1 = setPackageStatus xw ?m (finalPatch ''READY'' payload (docJson (DObj sg)) a JNull) s"
    from download [OF w finalPatch_maps] sg show ?thesis unfolding st1 by force
  qed
qed

text \<open>A state with one case of the operator, and one package in it.\<close>

definition queuedCase :: invState where
  "queuedCase = (snd (createInvestigation 0 caseOperator caseDraft invInit))
     \<lparr>is_items := [(plainItem ''id-0'' ''export_package'' ''p'' 0 None (Some (packageJson 0 caseOperator ''id-1'')))\<lparr>ii_id := ''id-2''\<rparr>]\<rparr>"

definition queuedOrder :: exportOrder where
  "queuedOrder = \<lparr>xo_investigationId = ''id-0'', xo_requestId = ''id-1'', xo_packageItemId = ''id-2'', xo_executionReason = ''r'',
     xo_executedByUserId = ''op'', xo_executedByUserName = ''Olga''\<rparr>"

definition finished :: "string option \<Rightarrow> invState" where
  "finished rootEnv = (case finishExport (caseWorld rootEnv) queuedOrder [(''requestId'', DStr ''id-1'')] queuedCase of None \<Rightarrow> queuedCase | Some s \<Rightarrow> s)"

theorem package_roundtrip_witness:
  "\<exists>p. fst (getExportPackageDownload (caseWorld (Some ''/data'')) caseOperator ''id-0'' ''id-2'' (Some ''r'') (finished (Some ''/data''))) = Inr p
    \<and> objField (Some (pd_content p)) ''payload'' = Some (docJson (DObj [(''requestId'', DStr ''id-1'')]))"
proof -
  let ?xw = "caseWorld (Some ''/data'')" and ?pl = "[(''requestId'', DStr ''id-1'')]"
  have "finishExport ?xw queuedOrder ?pl queuedCase \<noteq> None" by code_simp
  then have f: "finishExport ?xw queuedOrder ?pl queuedCase = Some (finished (Some ''/data''))" by (auto simp: finished_def)
  have "findTyped ''id-0'' ''id-2'' ''export_package'' queuedCase \<noteq> None" "assertInvAccessible caseOperator ''id-0'' queuedCase \<noteq> None" by code_simp+
  then obtain x r where x: "findTyped ''id-0'' ''id-2'' ''export_package'' queuedCase = Some x" "assertInvAccessible caseOperator ''id-0'' queuedCase = Some r" by blast
  have c: "isAbsolute (packagesRoot ?xw)" "trimmedOrNone (Some ''r'') \<noteq> None"
    "isWithin (pf_canonical (xw_platform ?xw) (rootPath ?xw)) (pf_canonical (xw_platform ?xw) (rootPath ?xw @ packageParts ?xw ''id-0'' ''id-2''))" by code_simp+
  have "clean ''id-0''" by (simp add: clean_def)
  then show ?thesis
    using package_roundtrip [of ?xw ?xw queuedOrder queuedCase x caseOperator r "Some ''r''" ?pl "finished (Some ''/data'')"] f x c
    by (auto simp: sameStorage_def queuedOrder_def)
qed

section \<open>The default root\<close>

text \<open>
  With the default root, a relative path, the file is recorded with the root in front and looked for below the root once
  more: a package that was written is never found.
\<close>

lemma default_root_not_found:
  "map fst (is_files (finished None)) = [[''app'', ''storage'', ''evidence-packages'', ''id-0'', ''1970'', ''01'', ''01'', ''package-id-2.json'']]
   \<and> fst (getExportPackageDownload (caseWorld None) caseOperator ''id-0'' ''id-2'' (Some ''r'') (finished None)) = Inl InvNotFound"
  by code_simp

text \<open>A job that can write neither package ends with the package marked as being processed, and nothing marks it as failed later.\<close>

lemma write_failure_stays_processing:
  assumes "xw_firstWriteOk xw = False" "xw_secondWriteOk xw = False"
  shows "finishExport xw xo payload st = None"
  using assms by (simp add: finishExport_def writePackageArtifact_def Let_def split: sum.split)

end
