(* ===== verification/Spec2Isabelle.thy ===== *)
theory Spec2Isabelle
  imports Access_Control Env_Config Vod_Playlist Range_Export Hwaccel Retention_Pass Source_Gateway_Props
    Cloud_Offload_Progress User_Admin_Props Alarm_Routes Alarm_Notify_Props Recording_Manager_Runs Recording_Args Segment_Cases
    Legal_Hold Package_Download
begin

text \<open>
  Verification of the core of a video management system for security cameras: a NestJS server
  (\<open>src/apps/api\<close>) that records cameras, serves recordings and live video, and keeps the disk of the
  recording host from filling up.

  \<^bold>\<open>The program.\<close> A request for video first passes \<^emph>\<open>access control\<close>, which answers which cameras
  a user may see, control, record and play back; the user behind it comes from \<^emph>\<open>authentication\<close>, whose users are
  kept by the \<^emph>\<open>administration of users\<close>. Recordings are segments on disk with a row each: the \<^emph>\<open>recording
  process manager\<close> keeps a recording process per camera, brings back the ones that die, and turns every closed segment
  into an MP4 with a row. Playback
  turns segments into a \<^emph>\<open>VOD playlist\<close>; an operator exports a time range with the \<^emph>\<open>range export\<close>,
  which plans the parts, the gaps and the FFmpeg attempts; a transcode uses the \<^emph>\<open>hardware acceleration\<close>
  that a probe has proven to work. The \<^emph>\<open>retention\<close> service expires recordings, clips and events by age,
  respects legal holds, sweeps orphaned files and frees space when the disk is nearly full; each of its
  deletions removes rows and files together through the \<^emph>\<open>transactional file deletion\<close>. The \<^emph>\<open>source
  gateway\<close> decides which URL a consumer of a camera opens, and its journal is cleaned by the \<^emph>\<open>redaction of
  credentials\<close>. The \<^emph>\<open>cloud storage\<close> sends closed recordings to an S3 bucket, as the policy of the
  installation says, and removes local files that are in the bucket. Every route passes the guards of the roles and of
  the \<^emph>\<open>role permissions\<close>. Events of the cameras open \<^emph>\<open>alarms\<close> under rules, with mutes; operators act on them through
  the \<^emph>\<open>alarm routes\<close>; an opening is announced by the \<^emph>\<open>delivery of alarm notifications\<close> on webhooks, which are kept to
  \<^emph>\<open>safe URLs\<close>, by mail and by \<^emph>\<open>push notifications\<close>. \<^emph>\<open>Investigations\<close> collect
  items of evidence, put recordings under legal hold and ask for exports, which an administrator reviews; the \<^emph>\<open>export of
  evidence\<close> writes a package that \<^emph>\<open>evidence\<close> signs. Limits and policies come from \<^emph>\<open>environment values\<close>.

  \<^bold>\<open>Theories and sources\<close> (under \<open>src/apps/api/src\<close>).
  \<^item> \<open>Js_Prelude\<close>: what the sources use of JavaScript - finite and non-finite numbers, strings, decimal and
    ISO printing, stable sort, de-duplication - with the lemmas the components share, the type of results and
    the locale \<open>step_invariant\<close>.
  \<^item> \<open>Env_Config\<close>: \<open>common/config/env-number.helper.ts\<close>. The parsers and readers, each with the flag that
    says whether a warning is given.
  \<^item> \<open>Access_Control\<close>: \<open>access-control/access-control.service.ts\<close>. The tables are the record \<open>accessDb\<close>;
    each method is a definition. A locale states what the gates share; it is interpreted for each of them.
  \<^item> \<open>Auth_Session\<close> (model), \<open>User_Admin\<close> (model), \<open>Auth_Props\<close> and \<open>User_Admin_Props\<close> (properties):
    \<open>auth/auth.service.ts\<close> with \<open>auth/jwt.strategy.ts\<close> and \<open>auth/guards/roles.guard.ts\<close>, and
    \<open>users/users.service.ts\<close>. Hashes, signed tokens and mail are the record \<open>authRuntime\<close>; \<open>authStep\<close> is one atomic
    step of either service, the halves of a login or a renewal apart.
  \<^item> \<open>Segment_Selection\<close>: the choice of segments for a window, shared by the next two theories.
  \<^item> \<open>Vod_Playlist\<close>: \<open>recordings/helpers/vod-playlist.helper.ts\<close>.
  \<^item> \<open>Range_Export\<close>: \<open>recordings/helpers/range-export.helper.ts\<close>.
  \<^item> \<open>Hwaccel\<close>: \<open>camera-stream/helpers/hwaccel-presets.helper.ts\<close>. Running FFmpeg is a parameter.
  \<^item> \<open>File_Deletion\<close>: \<open>recordings/helpers/transactional-file-delete.helper.ts\<close>. The disk is a list of
    files; a fault record says which operations fail; staging takes the point at which the process dies. The locale
    \<open>staged_deletion\<close> is the contract its client relies on.
  \<^item> \<open>Retention\<close> (model), \<open>Retention_Rows\<close> (the locale \<open>paged_expiry\<close> of the paging loops, interpreted
    for clips and for recordings) and \<open>Retention_Pass\<close> (properties): \<open>recordings/retention.service.ts\<close> with
    \<open>helpers/safe-file.helper.ts\<close>, \<open>helpers/recording-path.helper.ts\<close> and the path of a preview.
  \<^item> \<open>Sensitive_Text\<close>: \<open>common/security/sensitive-text.helper.ts\<close>.
  \<^item> \<open>Source_Gateway\<close> (model), \<open>Source_Gateway_Inv\<close> (invariant of every call) and \<open>Source_Gateway_Props\<close>
    (properties): \<open>camera-stream/source-gateway.service.ts\<close>. \<open>gwStep\<close> is one call of the service.
  \<^item> \<open>S3_Client\<close> (model), \<open>S3_Props\<close> (keys, the laws \<open>s3Service\<close> of the S3 protocol, uploads in parts) and
    \<open>S3_Bucket\<close> (a bucket in memory that keeps the laws, and the properties): \<open>cloud-storage/s3-client.ts\<close>.
    The service behind \<open>fetch\<close>, the hash functions, the URL parser and the clock are the record \<open>s3Runtime\<close>.
  \<^item> \<open>Cloud_Offload\<close> (model), \<open>Cloud_Offload_Props\<close> (the invariant of any run), \<open>Cloud_Offload_Policy\<close> (the
    policy, and where the offload falls short) and \<open>Cloud_Offload_Progress\<close> (the queue is emptied):
    \<open>cloud-storage/storage-policy.ts\<close> and \<open>cloud-storage/cloud-offload.service.ts\<close>. \<open>offStep\<close> is a pass with any
    faults, a new policy or a new recording; \<open>offCall\<close> interleaves the calls of \<open>runOnce\<close>.

  \<^item> \<open>Role_Permissions\<close>: \<open>role-permissions/\<close>. The matrix of a role is a function of the keys; the cache is part of the
    state; the halves of a load and of an update are steps of their own, which \<open>permApply\<close> interleaves; \<open>guardChain\<close> is the
    guard of the roles followed by that of the permissions.
  \<^item> \<open>Safe_Url\<close>: hosts and addresses, \<open>common/network/safe-url.helper.ts\<close>.
  \<^item> \<open>Alarms\<close> (model) and \<open>Alarms_Props\<close> (properties): \<open>alarms/alarms.service.ts\<close> and \<open>alarms/alarm-mute.service.ts\<close>.
    \<open>alarmRun\<close> is a run of the service that counts the events it takes in.
  \<^item> \<open>Alarm_Routes\<close>: the routes for alarms of \<open>cameras/cameras.controller.ts\<close>; a decoded request is a value of
    \<open>alarmRequest\<close>, handled by \<open>handleAlarm\<close> behind the guards.
  \<^item> \<open>Push_Devices\<close>: \<open>notifications/push-devices.service.ts\<close>, \<open>notifications/push.service.ts\<close> and
    \<open>notifications/expo-receipts.helper.ts\<close>. What the push service answers is an argument.
  \<^item> \<open>Alarm_Notify\<close> (model) and \<open>Alarm_Notify_Props\<close> (properties): \<open>alarms/alarm-notifications.service.ts\<close>,
    \<open>jobs/processors/alarm-notification.processor.ts\<close> and \<open>jobs/processors/push-receipts.processor.ts\<close>. The world of a
    delivery holds the alarms, the devices and what went out on each channel.

  \<^item> \<open>Recording_Manager\<close> (model of the supervision), \<open>Recording_Manager_Props\<close> and \<open>Recording_Manager_Runs\<close> (properties),
    \<open>Recording_Args\<close> (the command line and the recording by motion), \<open>Segment_Registry\<close> (model of the registration of
    segments and of the ring before an event), \<open>Segment_Props\<close> and \<open>Segment_Cases\<close> (properties):
    \<open>recordings/recording-process-manager.service.ts\<close> with \<open>helpers/recording-path.helper.ts\<close>. Calls that wait are cut at
    their waits: \<open>recRun\<close> is any interleaving of the pieces of starts, stops and restarts with what happens outside;
    \<open>segRun\<close> is any sequence of captures, scans, recoveries and reloads.

  \<^item> \<open>Evidence\<close>: \<open>evidence/evidence.service.ts\<close>, the canonical text, the signature and the verification.
  \<^item> \<open>Investigations\<close> and \<open>Evidence_Export\<close> (models), \<open>Export_Approval\<close>, \<open>Legal_Hold\<close> and \<open>Package_Download\<close> (properties):
    \<open>investigations/investigations.service.ts\<close> with the routes and the data transfer objects around it, and
    \<open>jobs/processors/evidence-export.processor.ts\<close>. \<open>invRun\<close> is any sequence of requests and jobs. The locale
    \<open>item_keeper\<close> says what survives the plain operations; it is interpreted for the approvals and for the holds.

  \<^bold>\<open>What is shown.\<close>
  \<^item> Access: a private camera is closed to everyone but its owner and those with a direct permission, and the
    lists agree with the gates up to one exception, which is stated exactly.
  \<^item> Authentication: revoked credentials stay dead under any interleaving, and so does what a renewal that was under
    way hands out; a refresh token is used once, the lock
    bounds the guesses that come one after the other (and not those that overlap), kinds of tokens do not mix; the
    administration of users stays within roles and groups.
  \<^item> Playback and export: the plans are complete and ordered, no requested second that is on disk is left
    out, gaps are reported as they are, streams are copied only when that is safe, texts can be read back.
  \<^item> Acceleration: the probe always returns, only a proven preset is used, a request that is not met is reported, a
    quarantine holds.
  \<^item> Deletion: staging is all or nothing, a commit removes exactly the files asked for, a crash while files are
    staged is undone at boot where the way back works, and nothing outside the root is touched.
  \<^item> Retention: held rows survive every pass; on a sound platform exactly the expired rows go; the pass
    ends; its work is bounded; the guardian stops in time; and two ways in which the guardian fails to run.
  \<^item> Gateway: reference counts, the cap and the bounds hold after any calls; routing is fail-safe; deadlines
    are exact and the cooldown doubles up to its maximum; switched off it is inert.
  \<^item> Cloud: with a service that keeps the S3 protocol, error answers under a 200 included, no recording is lost, whatever
    fails; a pass does no more than the policy allows; the marks of a row are consistent; with everything healthy and files
    of one PUT the queue is emptied; keys survive the URL, the secret key reaches nothing but the signature, an upload in
    parts stores the content or nothing. Four shortcomings are stated as theorems: rows without a file hold the queue,
    passes overlap, a shortened object is taken for the whole one, and an error in the answer to a completion is not read.

  \<^item> Permissions: the guard decides by the stored matrix and not by an outdated cache unless an update overtakes a load,
    which is shown to happen; after fifteen seconds it decides by the matrix in any case; a change takes effect at once.
  \<^item> Alarms: the counts add up to the events taken in and every alarm is in a sound state; an alarm opens only under an
    enabled rule with nothing muted, and the simulation of a rule foretells it; a list shows what its reader may see, an
    alarm is changed only by one who may. Three holes are stated as theorems: an empty list of cameras is no filter, the
    action on many alarms checks other identifiers than it acts on, and it does not ask for the permission.
  \<^item> Notifications: those of a kind keep their distance, each carries the push channel; everyone who may view a camera
    is reached, and some who may not; only dead tokens are forgotten; a webhook never leaves the policy; a delivery tries
    the channels in order and records each try, up to a webhook that fails, which keeps the push from being tried.
  \<^item> Recording: where the starts of a camera do not overlap it has one recording process at most, and a stop wins over
    restarts, timers and everything else; restarts are bounded in every window; a recording is called stalled only with
    proof; while a movement is handled the camera stays covered. No captured segment is lost on its way to its row where
    the partial MP4 of a failed conversion can be removed, a segment that cannot be converted is tried a bounded number of
    times. Runs show what is not so: starts that overlap leak a process, a stop is lost to a start that is under way and to
    an edit that read the camera before, a cut MP4, one that could not be removed and a segment left under a later path
    spoil good ones.

  \<^item> Investigations: no evidence is exported unless an administrator approved the request, whatever items a user makes up;
    a legal hold binds the retention until a new hold replaces it or its own item is removed; a signature vouches for
    one canonical text; what was exported can be downloaded, with an absolute root. Runs show what is not so: with
    the default root no package is found, dates are not signed, a downloaded file never verifies, the item of a hold
    is removed like any other, a case is closed without a trace, and naming a recording gives its audit.

  \<^bold>\<open>Bounds and fuel.\<close> Numbers of JavaScript are rationals with one non-finite value: rounding of doubles is
  not modelled. The paging loops of the retention take fuel, one more than the rows of the table; every round
  either shortens what is left of the query or advances the offset, so it is enough (the termination
  property). The loop of the guardian has the source's own bound of 100 rounds. All other loops are structural.

  \<^bold>\<open>Granularity.\<close> A pass of the retention, a pass of the offload, a scan of segments, the handling of an event by the
  alarms and a request to the investigations are one step each: what another request does between two of their queries is
  outside the runs, except where a theory cuts a call at its waits (recordings, renewals, role permissions, detection of
  hardware, calls of \<open>runOnce\<close>). Queries do not fail where no parameter says so, as in the retention and in the states of
  an export. A webhook is posted to the host that was checked: the client's own second resolution of the name is outside.

  \<^bold>\<open>Not modelled.\<close> Timers, log messages and metrics except where a property speaks of them; Prisma, FFmpeg,
  MediaMTX and the file system beyond the operations named above; of the recording process manager the mode in which a
  worker records and the status shown to users; controllers, data transfer objects and
  modules, which are declarations of the web framework; the services that only call the database or child
  processes; the web and mobile applications, which are user interfaces; the central server, which is a
  program of its own.
\<close>

end
